(* ===== verification/Prelude.thy ===== *)
theory Prelude
  imports Main "HOL-Library.Word"
begin

text \<open>
  Shared vocabulary of the development: the names of Go's fixed-width integer types, the
  value of a byte list read big-endian or little-endian, and the lemmas on words, powers and
  lists that several components use. Go's \<open>int\<close> (64 bits on the supported targets) is
  modelled as HOL \<open>int\<close>, or as \<open>nat\<close> where the code keeps it non-negative; \<open>uint8\<close>,
  \<open>uint16\<close>, \<open>uint32\<close> and \<open>uint64\<close> are words of their width, so that wrap-around, shifts and
  masks are those of the code.
\<close>

unbundle bit_operations_syntax

type_synonym byte = "8 word"
type_synonym u16 = "16 word"
type_synonym u32 = "32 word"
type_synonym u64 = "64 word"
type_synonym i8 = "8 word"
type_synonym i16 = "16 word"

text \<open>
  \<open>bytes_val\<close> collects the facts that evaluate byte lists, \<open>model_defs\<close> the definitions a
  group of proofs unfolds together.
\<close>

named_theorems bytes_val
named_theorems model_defs

text \<open>Go's \<open>int(^uint(0) >> 1)\<close> on a 64-bit target.\<close>

definition maxInt :: int where
  "maxInt = 9223372036854775807"

text \<open>The length of a list as a Go \<open>int\<close>.\<close>

abbreviation ilen :: "'a list \<Rightarrow> int" where
  "ilen xs \<equiv> int (length xs)"

section \<open>Bytes read as numbers\<close>

fun be_val :: "byte list \<Rightarrow> nat" where
  "be_val [] = 0"
| "be_val (b # bs) = unat b * 256 ^ length bs + be_val bs"

fun le_val :: "byte list \<Rightarrow> nat" where
  "le_val [] = 0"
| "le_val (b # bs) = unat b + 256 * le_val bs"

lemma unat_byte_lt: "unat (b :: byte) < 256"
proof -
  have "unat b < 2 ^ LENGTH(8)" by (rule unsigned_less)
  then show ?thesis by simp
qed

lemma unat_byte_le: "unat (b :: byte) \<le> 255"
  using unat_byte_lt [of b] by simp

lemma be_val_append: "be_val (xs @ ys) = be_val xs * 256 ^ length ys + be_val ys"
  by (induction xs) (auto simp: power_add algebra_simps)

lemma be_val_snoc: "be_val (xs @ [b]) = be_val xs * 256 + unat b"
  by (simp add: be_val_append)

lemma be_val_bound: "be_val bs < 256 ^ length bs"
proof (induction bs)
  case Nil
  then show ?case by simp
next
  case (Cons b bs)
  have "unat b * 256 ^ length bs + be_val bs < (unat b + 1) * 256 ^ length bs"
    using Cons by (simp add: algebra_simps)
  also have "\<dots> \<le> 256 * 256 ^ length bs"
    using unat_byte_lt [of b] by (intro mult_right_mono) auto
  finally show ?case by simp
qed

lemma be_val_take_div:
  "be_val (take n bs) = be_val bs div 256 ^ (length bs - n)"
proof -
  have "be_val bs = be_val (take n bs) * 256 ^ length (drop n bs) + be_val (drop n bs)"
    by (metis append_take_drop_id be_val_append)
  then show ?thesis
    using be_val_bound [of "drop n bs"] by simp
qed

lemma be_val_take_add:
  "be_val (take (n + m) bs) = be_val (take n bs) * 256 ^ length (take m (drop n bs)) + be_val (take m (drop n bs))"
  by (simp add: take_add be_val_append)

lemma le_val_append: "le_val (xs @ ys) = le_val xs + 256 ^ length xs * le_val ys"
  by (induction xs) (auto simp: algebra_simps)

lemma le_val_bound: "le_val bs < 256 ^ length bs"
proof (induction bs)
  case Nil
  then show ?case by simp
next
  case (Cons b bs)
  then show ?case using unat_byte_lt [of b] by simp
qed

text \<open>The little-endian bytes of a number, the layout Go's \<open>binary.LittleEndian\<close> writes.\<close>

fun le_bytes :: "nat \<Rightarrow> nat \<Rightarrow> byte list" where
  "le_bytes 0 v = []"
| "le_bytes (Suc n) v = word_of_nat v # le_bytes n (v div 256)"

lemma length_le_bytes [simp]: "length (le_bytes n v) = n"
  by (induction n arbitrary: v) auto

lemma le_val_le_bytes: "le_val (le_bytes n v) = v mod 256 ^ n"
proof (induction n arbitrary: v)
  case 0
  then show ?case by simp
next
  case (Suc n)
  have "unat (word_of_nat v :: byte) = v mod 256"
    by (simp add: unat_of_nat)
  then show ?case
    using Suc by (simp add: mod_mult2_eq)
qed

lemma le_bytes_le_val: "length bs = n \<Longrightarrow> le_bytes n (le_val bs) = bs"
proof (induction bs arbitrary: n)
  case Nil
  then show ?case by simp
next
  case (Cons b bs)
  have "(unat b + 256 * le_val bs) div 256 = le_val bs"
    using unat_byte_lt [of b] by simp
  moreover have "(word_of_nat (unat b + 256 * le_val bs) :: byte) = b"
    by (simp only: word_unat_eq_iff unat_of_nat) (simp add: unat_byte_lt)
  ultimately show ?case using Cons by auto
qed

section \<open>Words as numbers\<close>

lemma pow_256: "(256 :: nat) ^ n = 2 ^ (8 * n)"
  by (simp add: power_mult)

lemma unat_push_bit:
  fixes x :: "'a::len word"
  assumes "unat x * 2 ^ n < 2 ^ LENGTH('a)"
  shows "unat (push_bit n x) = unat x * 2 ^ n"
proof -
  have "unat (push_bit n x) = take_bit LENGTH('a) (push_bit n (unat x))"
    by (rule unsigned_push_bit_eq)
  also have "\<dots> = unat x * 2 ^ n"
    using assms by (simp add: push_bit_eq_mult take_bit_eq_mod)
  finally show ?thesis .
qed

lemma unat_push_bit_mod:
  fixes x :: "'a::len word"
  shows "unat (push_bit n x) = unat x * 2 ^ n mod 2 ^ LENGTH('a)"
proof -
  have "unat (push_bit n x) = take_bit LENGTH('a) (push_bit n (unat x))"
    by (rule unsigned_push_bit_eq)
  then show ?thesis by (simp only: push_bit_eq_mult take_bit_eq_mod)
qed

lemma unat_drop_bit: "unat (drop_bit n (x :: 'a::len word)) = unat x div 2 ^ n"
proof -
  have "unat (drop_bit n x) = drop_bit n (take_bit LENGTH('a) (unat x))"
    by (rule unsigned_drop_bit_eq)
  also have "take_bit LENGTH('a) (unat x) = unat x"
    by (simp add: take_bit_eq_mod)
  finally show ?thesis by (simp add: drop_bit_eq_div)
qed

lemma unat_and_mask: "unat ((x :: 'a::len word) AND mask n) = unat x mod 2 ^ n"
proof -
  have "unat (take_bit n x) = take_bit n (unat x)"
    by (rule unsigned_take_bit_eq)
  then show ?thesis by (simp add: take_bit_eq_mod flip: take_bit_eq_mask)
qed

lemma unat_add_nowrap:
  fixes x y :: "'a::len word"
  assumes "unat x + unat y < 2 ^ LENGTH('a)"
  shows "unat (x + y) = unat x + unat y"
  using assms by (simp add: unat_word_ariths)

lemma unat_sub_nowrap:
  fixes x y :: "'a::len word"
  assumes "unat y \<le> unat x"
  shows "unat (x - y) = unat x - unat y"
  using assms by (simp add: unat_sub word_le_nat_alt)

lemma unat_mult_nowrap:
  fixes x y :: "'a::len word"
  assumes "unat x * unat y < 2 ^ LENGTH('a)"
  shows "unat (x * y) = unat x * unat y"
  using assms by (simp add: unat_word_ariths)

lemma unat_ucast_up:
  fixes x :: "'a::len word"
  assumes "LENGTH('a) \<le> LENGTH('b::len)"
  shows "unat (ucast x :: 'b word) = unat x"
proof -
  have "unat x < 2 ^ LENGTH('a)" by (rule unsigned_less)
  also have "\<dots> \<le> 2 ^ LENGTH('b)" using assms by (intro power_increasing) auto
  finally show ?thesis by (simp add: unsigned_ucast_eq take_bit_eq_mod)
qed

lemma unat_ucast_byte: "unat (ucast (x :: 'a::len word) :: byte) = unat x mod 256"
proof -
  have "unat (ucast x :: byte) = take_bit LENGTH(8) (unat x)"
    by transfer (simp add: take_bit_eq_mod nat_mod_distrib)
  then show ?thesis by (simp add: take_bit_eq_mod)
qed

text \<open>Bitwise or of a multiple of a power of two and a smaller number is their sum.\<close>

lemma unat_or_disjoint:
  fixes x y :: "'a::len word"
  assumes "2 ^ n dvd unat x" and "unat y < 2 ^ n"
  shows "unat (x OR y) = unat x + unat y"
proof -
  have "\<not> bit (unat x) i \<or> \<not> bit (unat y) i" for i
  proof (cases "i < n")
    case True
    from assms(1) obtain q where "unat x = 2 ^ n * q" by (auto elim: dvdE)
    then have "unat x = push_bit n q" by (simp add: push_bit_eq_mult)
    with True show ?thesis by (simp add: bit_push_bit_iff)
  next
    case False
    have "take_bit n (unat y) = unat y"
      using assms(2) by (simp add: take_bit_eq_mod)
    then have "bit (unat y) i = (i < n \<and> bit (unat y) i)"
      by (metis bit_take_bit_iff)
    with False show ?thesis by simp
  qed
  then have "unat x + unat y = (unat x OR unat y)"
    by (intro disjunctive_add_eq_or) (auto simp: bit_eq_iff bit_and_iff)
  then show ?thesis by (simp add: unsigned_or_eq)
qed

section \<open>Lists\<close>

lemma nth_take_drop_split:
  "i < length xs \<Longrightarrow> take (Suc i) xs = take i xs @ [xs ! i]"
  by (rule take_Suc_conv_app_nth)

lemma take_update_beyond: "n \<le> i \<Longrightarrow> take n (xs[i := v]) = take n xs"
  by (simp add: take_update_swap list_update_beyond)

end
