(* ===== verification/Arith_Coder.thy ===== *)
theory Arith_Coder
  imports Prelude
begin

text \<open>
  The specification the boolean coders of the program refine. A coder state is an interval
  \<open>(L, R, k)\<close>: low end \<open>L\<close>, width \<open>R\<close> (the code's 8-bit range register) and the number \<open>k\<close> of
  normalisation shifts so far, all exact naturals, so that the coded message is a point of
  \<open>[L / 2 ^ (8 + k), (L + R) / 2 ^ (8 + k))\<close>. Coding a bit of probability \<open>p\<close> splits the
  interval; decoding asks in which part the code point lies. The intervals are nested, so
  every byte string that names a point of the last interval decodes to the coded bits
  (\<open>contains_decodes\<close>). Nothing here is mapped to code: the boolean writer and reader of VP8
  are proved to implement it.
\<close>

section \<open>The interval coder\<close>

text \<open>Shifts that bring a range of 1..255 back to 128..255.\<close>

definition norm :: "nat \<Rightarrow> nat" where
  "norm r = (if 128 \<le> r then 0 else if 64 \<le> r then 1 else if 32 \<le> r then 2
     else if 16 \<le> r then 3 else if 8 \<le> r then 4 else if 4 \<le> r then 5
     else if 2 \<le> r then 6 else 7)"

lemma norm_bounds:
  assumes "1 \<le> r" "r \<le> 255"
  shows "128 \<le> r * 2 ^ norm r" "r * 2 ^ norm r \<le> 255"
  using assms by (auto simp: norm_def)

lemma norm_le: "norm r \<le> 7"
  by (simp add: norm_def)

type_synonym ival = "nat \<times> nat \<times> nat"

definition split_of :: "nat \<Rightarrow> nat \<Rightarrow> nat" where
  "split_of R p = 1 + ((R - 1) * p) div 256"

definition narrow :: "ival \<Rightarrow> bool \<Rightarrow> nat \<Rightarrow> ival" where
  "narrow s b p = (case s of (L, R, k) \<Rightarrow>
     if b then (L + split_of R p, R - split_of R p, k) else (L, split_of R p, k))"

definition renorm :: "ival \<Rightarrow> ival" where
  "renorm s = (case s of (L, R, k) \<Rightarrow> (L * 2 ^ norm R, R * 2 ^ norm R, k + norm R))"

definition enc_step :: "ival \<Rightarrow> bool \<times> byte \<Rightarrow> ival" where
  "enc_step s x = renorm (narrow s (fst x) (unat (snd x)))"

definition enc_run :: "ival \<Rightarrow> (bool \<times> byte) list \<Rightarrow> ival" where
  "enc_run = foldl enc_step"

definition enc_init :: ival where
  "enc_init = (0, 255, 0)"

definition wf_ival :: "ival \<Rightarrow> bool" where
  "wf_ival s = (case s of (L, R, k) \<Rightarrow> 128 \<le> R \<and> R \<le> 255 \<and> L + R \<le> 255 * 2 ^ k)"

lemma split_of_bounds:
  assumes "2 \<le> R" "p \<le> 255"
  shows "1 \<le> split_of R p" "split_of R p < R"
proof -
  have "(R - 1) * p \<le> (R - 1) * 255" using assms(2) by simp
  also have "\<dots> < (R - 1) * 256" using assms(1) by simp
  finally have "((R - 1) * p) div 256 < R - 1" by (simp add: less_mult_imp_div_less)
  then show "split_of R p < R" by (simp add: split_of_def)
qed (simp add: split_of_def)

lemma split_of_le:
  assumes "1 \<le> R" "p \<le> 255"
  shows "split_of R p \<le> R"
  using split_of_bounds [of R p] assms by (cases "2 \<le> R") (auto simp: split_of_def)

lemma wf_enc_init: "wf_ival enc_init"
  by (simp add: wf_ival_def enc_init_def)

lemma narrow_wf:
  assumes "wf_ival s" "p \<le> 255" and "narrow s b p = (L', R', k')"
  shows "1 \<le> R'" "R' \<le> 254" "L' + R' \<le> 255 * 2 ^ k'"
proof -
  obtain L R k where s: "s = (L, R, k)" by (cases s)
  with assms(1) have wf: "128 \<le> R" "R \<le> 255" "L + R \<le> 255 * 2 ^ k"
    by (auto simp: wf_ival_def)
  have sp: "1 \<le> split_of R p" "split_of R p < R"
    using split_of_bounds [of R p] wf assms(2) by auto
  show "1 \<le> R'" "R' \<le> 254" "L' + R' \<le> 255 * 2 ^ k'"
    using assms(3) wf sp by (auto simp: narrow_def s split: if_splits)
qed

lemma enc_step_wf: "wf_ival s \<Longrightarrow> wf_ival (enc_step s x)"
proof -
  assume wf: "wf_ival s"
  obtain L R k where n: "narrow s (fst x) (unat (snd x)) = (L, R, k)"
    using prod_cases3 by blast
  note nw = narrow_wf [OF wf unat_byte_le n]
  have nb: "128 \<le> R * 2 ^ norm R" "R * 2 ^ norm R \<le> 255"
    using norm_bounds [of R] nw by auto
  have "(L + R) * 2 ^ norm R \<le> (255 * 2 ^ k) * 2 ^ norm R"
    using nw(3) by (rule mult_right_mono) simp
  then show ?thesis
    using nb by (simp add: enc_step_def n renorm_def wf_ival_def power_add algebra_simps)
qed

lemma enc_run_wf: "wf_ival s \<Longrightarrow> wf_ival (enc_run s xs)"
proof (induction xs arbitrary: s)
  case Nil
  then show ?case by (simp add: enc_run_def)
next
  case (Cons x xs)
  show ?case using Cons.IH [OF enc_step_wf [OF Cons.prems]] by (simp add: enc_run_def)
qed

lemma enc_run_simps [simp]:
  "enc_run s [] = s"
  "enc_run s (x # xs) = enc_run (enc_step s x) xs"
  by (simp_all add: enc_run_def)

lemma enc_run_append: "enc_run s (xs @ ys) = enc_run (enc_run s xs) ys"
  by (simp add: enc_run_def)

section \<open>Code points\<close>

text \<open>
  The first \<open>m\<close> bits of a byte string, followed by as many zero bits as are asked for: a
  reader that runs past the end sees zeros.
\<close>

definition xval :: "byte list \<Rightarrow> nat \<Rightarrow> nat" where
  "xval bs m = be_val bs * 2 ^ m div 2 ^ (8 * length bs)"

lemma xval_shift: "xval bs (m + n) div 2 ^ n = xval bs m"
proof -
  have "xval bs (m + n) div 2 ^ n = be_val bs * 2 ^ m * 2 ^ n div (2 ^ n * 2 ^ (8 * length bs))"
    by (simp add: xval_def div_mult2_eq [symmetric] power_add mult.assoc mult.commute)
  also have "\<dots> = xval bs m"
    by (simp add: xval_def mult.commute [of "2 ^ n"])
  finally show ?thesis .
qed

lemma xval_le: "m \<le> 8 * length bs \<Longrightarrow> xval bs m = be_val bs div 2 ^ (8 * length bs - m)"
proof -
  assume "m \<le> 8 * length bs"
  then have "(2::nat) ^ (8 * length bs) = 2 ^ (8 * length bs - m) * 2 ^ m"
    by (simp flip: power_add)
  then show ?thesis by (simp add: xval_def)
qed

lemma xval_ge: "8 * length bs \<le> m \<Longrightarrow> xval bs m = be_val bs * 2 ^ (m - 8 * length bs)"
proof -
  assume "8 * length bs \<le> m"
  then have "(2::nat) ^ m = 2 ^ (m - 8 * length bs) * 2 ^ (8 * length bs)"
    by (simp flip: power_add)
  then show ?thesis by (simp add: xval_def)
qed

lemma be_val_take_xval: "n \<le> length bs \<Longrightarrow> be_val (take n bs) = xval bs (8 * n)"
  by (simp add: be_val_take_div xval_le pow_256 diff_mult_distrib2)

text \<open>Bits loaded so far, placed at weight \<open>m\<close>, agree with the code point on its first bits.\<close>

lemma loaded_prefix:
  assumes "n \<le> length bs" "m \<le> 8 * n \<or> n = length bs"
    and "8 * n \<le> m + j"
  shows "be_val (take n bs) * 2 ^ (m + j - 8 * n) div 2 ^ j = xval bs m"
proof (cases "m \<le> 8 * n")
  case True
  have "be_val (take n bs) * 2 ^ (m + j - 8 * n) div 2 ^ j
      = be_val (take n bs) * 2 ^ (m + j - 8 * n) div (2 ^ (m + j - 8 * n) * 2 ^ (8 * n - m))"
    using assms(3) True by (simp flip: power_add)
  also have "\<dots> = xval bs (m + (8 * n - m)) div 2 ^ (8 * n - m)"
    using assms(1) True by (simp add: be_val_take_xval mult.commute)
  also have "\<dots> = xval bs m" by (rule xval_shift)
  finally show ?thesis .
next
  case False
  then have n: "n = length bs" and le: "8 * n \<le> m" using assms(2) by auto
  then have "(2::nat) ^ (m + j - 8 * n) = 2 ^ (m - 8 * n) * 2 ^ j"
    by (simp flip: power_add)
  then show ?thesis using n le by (simp add: xval_ge)
qed

section \<open>Decoding\<close>

definition contains :: "ival \<Rightarrow> byte list \<Rightarrow> bool" where
  "contains s bs = (case s of (L, R, k) \<Rightarrow> L \<le> xval bs (8 + k) \<and> xval bs (8 + k) < L + R)"

definition dec_bit :: "byte list \<Rightarrow> ival \<Rightarrow> nat \<Rightarrow> bool" where
  "dec_bit bs s p = (case s of (L, R, k) \<Rightarrow> L + split_of R p \<le> xval bs (8 + k))"

lemma contains_renorm: "contains (renorm s) bs \<Longrightarrow> contains s bs"
proof -
  obtain L R k where s: "s = (L, R, k)" by (cases s)
  define n where "n = norm R"
  assume "contains (renorm s) bs"
  then have lo: "L * 2 ^ n \<le> xval bs (8 + k + n)"
    and hi: "xval bs (8 + k + n) < (L + R) * 2 ^ n"
    by (simp_all add: s contains_def renorm_def n_def add.assoc algebra_simps)
  have "L \<le> xval bs (8 + k + n) div 2 ^ n"
    using lo by (simp add: less_eq_div_iff_mult_less_eq)
  moreover have "xval bs (8 + k + n) div 2 ^ n < L + R"
    using hi by (simp add: less_mult_imp_div_less)
  ultimately show ?thesis by (simp add: s contains_def xval_shift)
qed

lemma contains_narrow:
  assumes "contains (narrow s b p) bs" "wf_ival s" "p \<le> 255"
  shows "contains s bs" "dec_bit bs s p = b"
proof -
  obtain L R k where s: "s = (L, R, k)" by (cases s)
  have "split_of R p < R"
    using split_of_bounds [of R p] assms by (auto simp: wf_ival_def s)
  with assms(1) show "contains s bs" "dec_bit bs s p = b"
    by (auto simp: s contains_def narrow_def dec_bit_def split: if_splits)
qed

lemma contains_step:
  assumes "contains (enc_step s (b, p)) bs" "wf_ival s"
  shows "contains s bs" "dec_bit bs s (unat p) = b"
  using contains_narrow [OF contains_renorm _ unat_byte_le] assms
  by (auto simp: enc_step_def)

lemma contains_run:
  assumes "contains (enc_run s xs) bs" "wf_ival s"
  shows "contains s bs"
  using assms
proof (induction xs arbitrary: s)
  case Nil
  then show ?case by simp
next
  case (Cons x xs)
  have "contains (enc_step s x) bs"
    using Cons.IH [OF _ enc_step_wf] Cons.prems by simp
  then show ?case using contains_step(1) [of s "fst x" "snd x"] Cons.prems by simp
qed

text \<open>The decoder of the specification: it re-runs the encoder on the bits it finds.\<close>

fun dec_run :: "byte list \<Rightarrow> ival \<Rightarrow> byte list \<Rightarrow> bool list" where
  "dec_run bs s [] = []"
| "dec_run bs s (p # ps) =
     (let b = dec_bit bs s (unat p) in b # dec_run bs (enc_step s (b, p)) ps)"

lemma contains_decodes:
  assumes "wf_ival s" "contains (enc_run s xs) bs"
  shows "dec_run bs s (map snd xs) = map fst xs"
  using assms
proof (induction xs arbitrary: s)
  case Nil
  then show ?case by simp
next
  case (Cons x xs)
  have *: "contains (enc_step s x) bs"
    using contains_run [OF _ enc_step_wf] Cons.prems by simp
  then have "dec_bit bs s (unat (snd x)) = fst x"
    using contains_step(2) [of s "fst x" "snd x"] Cons.prems by simp
  then show ?case using Cons by (simp add: enc_step_wf)
qed

end
