(* ===== verification/Coder_Machine.thy ===== *)
theory Coder_Machine
  imports Arith_Coder
begin

text \<open>
  Two machines on naturals between the interval coder and the code's words: a byte-emitting
  writer with delayed carries and a windowed reader that refills a 64-bit register. Each is
  proved to simulate the interval coder. The locales at the end are the interfaces the VP8
  writer and reader meet: a writer whose \<open>put\<close> is the writer machine's step, a reader whose
  \<open>get\<close> is the reader machine's step.
\<close>

section \<open>The writer machine\<close>

text \<open>
  \<open>(out, low, R, j)\<close>: bytes emitted, the pending low register, the range, and the number
  \<open>j\<close> of shifts since the register was last aligned (the code's \<open>count + 24\<close>).
\<close>

type_synonym wmach = "byte list \<times> nat \<times> nat \<times> nat"

fun inc_le :: "byte list \<Rightarrow> byte list" where
  "inc_le [] = []"
| "inc_le (b # bs) = (if b = 255 then 0 # inc_le bs else (b + 1) # bs)"

definition inc_bytes :: "byte list \<Rightarrow> byte list" where
  "inc_bytes bs = rev (inc_le (rev bs))"

definition wput :: "wmach \<Rightarrow> bool \<Rightarrow> nat \<Rightarrow> wmach" where
  "wput m b p = (case m of (out, low, R, j) \<Rightarrow>
     case narrow (low, R, j) b p of (low', R', _) \<Rightarrow>
       let n = norm R' in
       if j + n < 24 then (out, low' * 2 ^ n, R' * 2 ^ n, j + n)
       else ((if 2 ^ (8 + j) \<le> low' then inc_bytes out else out) @ [word_of_nat (low' div 2 ^ j)],
             (low' mod 2 ^ j) * 2 ^ n, R' * 2 ^ n, j + n - 8))"

definition winit :: wmach where
  "winit = ([], 0, 255, 0)"

text \<open>What a register may hold: the bound leaves room for one pending carry.\<close>

definition wbound :: "byte list \<Rightarrow> nat \<Rightarrow> nat" where
  "wbound out j = (if out = [] then 255 * 2 ^ j else (2 ^ 24 + 255) * 2 ^ (j - 16))"

definition wok :: "wmach \<Rightarrow> bool" where
  "wok m = (case m of (out, low, R, j) \<Rightarrow>
     128 \<le> R \<and> R \<le> 255 \<and> j < 24 \<and> (out \<noteq> [] \<longrightarrow> 16 \<le> j) \<and> low + R \<le> wbound out j)"

definition wrel :: "wmach \<Rightarrow> ival \<Rightarrow> bool" where
  "wrel m s = (case m of (out, low, R, j) \<Rightarrow> case s of (L, R', k) \<Rightarrow>
     R' = R \<and> k = j + 8 * length out \<and> L = be_val out * 2 ^ (8 + j) + low)"

lemma length_inc_le [simp]: "length (inc_le bs) = length bs"
  by (induction bs) auto

lemma length_inc_bytes [simp]: "length (inc_bytes bs) = length bs"
  by (simp add: inc_bytes_def)

lemma be_val_rev: "be_val (rev bs) = le_val bs"
  by (induction bs) (auto simp: be_val_append)

lemma unat_byte_suc: "b \<noteq> 255 \<Longrightarrow> unat (b + 1 :: byte) = unat b + 1"
proof -
  assume "b \<noteq> 255"
  then have "unat b \<noteq> unat (255 :: byte)" using word_unat_eq_iff [of b 255] by blast
  moreover have "unat (255 :: byte) = 255" by simp
  ultimately have "unat b \<noteq> 255" by metis
  then have "unat b + 1 < 2 ^ LENGTH(8)" using unat_byte_lt [of b] by simp
  then show ?thesis using unat_add_nowrap [of b 1] by simp
qed

lemma le_val_inc: "le_val bs + 1 < 256 ^ length bs \<Longrightarrow> le_val (inc_le bs) = le_val bs + 1"
proof (induction bs)
  case Nil
  then show ?case by simp
next
  case (Cons b bs)
  then show ?case by (auto simp: unat_byte_suc)
qed

lemma be_val_inc: "be_val bs + 1 < 256 ^ length bs \<Longrightarrow> be_val (inc_bytes bs) = be_val bs + 1"
  using le_val_inc [of "rev bs"] be_val_rev [of "rev bs"] by (simp add: inc_bytes_def be_val_rev)

lemma winit_ok: "wok winit" "wrel winit enc_init"
  by (simp_all add: wok_def winit_def wbound_def wrel_def enc_init_def)

lemma wbound_lt: "j < 24 \<Longrightarrow> (out \<noteq> [] \<Longrightarrow> 16 \<le> j) \<Longrightarrow> wbound out j < 2 ^ (9 + j)"
proof -
  assume j: "j < 24" and o: "out \<noteq> [] \<Longrightarrow> 16 \<le> j"
  have "(2::nat) ^ (9 + j) = 2 ^ 25 * 2 ^ (j - 16)" if "16 \<le> j"
  proof -
    have "9 + j = 25 + (j - 16)" using that by simp
    then show ?thesis by (simp only: power_add)
  qed
  then show ?thesis using o by (auto simp: wbound_def power_add)
qed

lemma wbound_32: "j < 24 \<Longrightarrow> wbound out j < 2 ^ 32"
proof -
  assume j: "j < 24"
  have "(2::nat) ^ j \<le> 2 ^ 23" "(2::nat) ^ (j - 16) \<le> 2 ^ 7"
    by (rule power_increasing; use j in simp)+
  then show ?thesis by (auto simp: wbound_def)
qed

text \<open>The carry and the emitted byte together are the top bits of the register.\<close>

lemma emit_value:
  assumes "low < 2 ^ (9 + j)"
    and "2 ^ (8 + j) \<le> low \<Longrightarrow> be_val out + 1 < 256 ^ length out"
  shows "be_val ((if 2 ^ (8 + j) \<le> low then inc_bytes out else out) @ [word_of_nat (low div 2 ^ j)])
      = be_val out * 256 + low div 2 ^ j"
proof -
  have byte: "unat (word_of_nat (low div 2 ^ j) :: byte) = low div 2 ^ j mod 256"
    by (simp add: unat_of_nat)
  have "low div 2 ^ j < 512"
    using assms(1) by (simp add: power_add less_mult_imp_div_less mult.commute)
  moreover have "2 ^ (8 + j) \<le> low \<longleftrightarrow> 256 \<le> low div 2 ^ j"
    by (simp add: less_eq_div_iff_mult_less_eq power_add)
  ultimately have "low div 2 ^ j mod 256 = (if 2 ^ (8 + j) \<le> low then low div 2 ^ j - 256 else low div 2 ^ j)"
    by (auto simp: le_mod_geq)
  then show ?thesis
    using assms(2) byte \<open>2 ^ (8 + j) \<le> low \<longleftrightarrow> 256 \<le> low div 2 ^ j\<close>
    by (auto simp: be_val_snoc be_val_inc)
qed

lemma narrow_rel:
  assumes "wrel (out, low, R, j) s" and "narrow (low, R, j) b p = (low', R', j')"
  shows "narrow s b p = (be_val out * 2 ^ (8 + j) + low', R', j + 8 * length out)"
    and "s = (be_val out * 2 ^ (8 + j) + low, R, j + 8 * length out)"
  using assms by (cases s; auto simp: wrel_def narrow_def split: if_splits)+

text \<open>A carry never runs off the front: some byte already out is not \<open>0xff\<close>.\<close>

lemma carry_room:
  assumes r: "wrel (out, low, R, j) s" and wf: "wf_ival s" and p: "p \<le> 255"
    and n: "narrow (low, R, j) b p = (low', R', j')" and c: "2 ^ (8 + j) \<le> low'"
  shows "be_val out + 1 < 256 ^ length out"
proof -
  define k where "k = j + 8 * length out"
  note ns = narrow_rel(1) [OF r n, folded k_def]
  have "be_val out * 2 ^ (8 + j) + low' < 255 * 2 ^ k + 1"
    using narrow_wf(3) [OF wf p ns] by simp
  also have "\<dots> \<le> 256 ^ length out * 2 ^ (8 + j)"
    by (simp add: k_def power_add pow_256)
  finally have top: "be_val out * 2 ^ (8 + j) + low' < 256 ^ length out * 2 ^ (8 + j)" .
  have "(be_val out + 1) * 2 ^ (8 + j) \<le> be_val out * 2 ^ (8 + j) + low'"
    using c by simp
  with top have "(be_val out + 1) * 2 ^ (8 + j) < 256 ^ length out * 2 ^ (8 + j)" by linarith
  then show ?thesis by (simp only: mult_less_cancel2)
qed

text \<open>The register after the split, before normalisation, keeps one bit of headroom.\<close>

lemma wok_narrow:
  assumes ok: "wok (out, low, R, j)" and p: "p \<le> 255"
    and n: "narrow (low, R, j) b p = (low', R', j)"
  shows "1 \<le> R'" "R' \<le> 255" "low' + R' \<le> wbound out j" "low' < 2 ^ (9 + j)"
proof -
  from ok have ok': "128 \<le> R" "R \<le> 255" "j < 24" "out \<noteq> [] \<Longrightarrow> 16 \<le> j" "low + R \<le> wbound out j"
    by (auto simp: wok_def)
  have "1 \<le> split_of R p" "split_of R p < R"
    using split_of_bounds [of R p] ok' p by auto
  then show a: "1 \<le> R'" "R' \<le> 255" "low' + R' \<le> wbound out j"
    using n ok' by (auto simp: narrow_def split: if_splits)
  show "low' < 2 ^ (9 + j)"
    using wbound_lt [of j out] ok' a by linarith
qed

lemma wput_emit_rel:
  assumes r: "wrel (out, low, R, j) s" and wf: "wf_ival s" and p: "p \<le> 255"
    and n: "narrow (low, R, j) b p = (low', R', j')"
    and lt: "low' < 2 ^ (9 + j)"
    and out': "out' = (if 2 ^ (8 + j) \<le> low' then inc_bytes out else out) @ [word_of_nat (low' div 2 ^ j)]"
    and ge: "24 \<le> j + norm R'"
  shows "wrel (out', (low' mod 2 ^ j) * 2 ^ norm R', R' * 2 ^ norm R', j + norm R' - 8) (renorm (narrow s b p))"
proof -
  define k where "k = j + 8 * length out"
  note ns = narrow_rel(1) [OF r n, folded k_def]
  have "be_val out' = be_val out * 256 + low' div 2 ^ j"
    unfolding out' using emit_value [OF lt] carry_room [OF r wf p n] by simp
  note bv = this
  define e where "e = norm R'"
  define q where "q = low' div 2 ^ j"
  define t where "t = low' mod 2 ^ j"
  have split: "low' = q * 2 ^ j + t" unfolding q_def t_def by (rule div_mult_mod_eq [symmetric])
  have pw: "(2::nat) ^ (8 + (j + e - 8)) = 2 ^ j * 2 ^ e"
    using ge by (simp add: e_def flip: power_add)
  have "be_val out' * (2 ^ j * 2 ^ e) + t * 2 ^ e = (be_val out * 2 ^ (8 + j) + low') * 2 ^ e"
    unfolding bv q_def [symmetric] by (simp add: split power_add algebra_simps)
  then show ?thesis
    using ge pw by (simp add: wrel_def ns renorm_def k_def out' flip: e_def t_def)
qed

lemma wput_sim:
  assumes ok: "wok m" and r: "wrel m s" and wf: "wf_ival s" and p: "p \<le> 255"
  shows "wok (wput m b p)" "wrel (wput m b p) (renorm (narrow s b p))"
proof -
  obtain out low R j where m: "m = (out, low, R, j)" by (metis prod_cases4)
  obtain low' R' where n: "narrow (low, R, j) b p = (low', R', j)"
    by (cases b) (auto simp: narrow_def)
  from ok have ok': "128 \<le> R" "R \<le> 255" "j < 24" "out \<noteq> [] \<Longrightarrow> 16 \<le> j" "low + R \<le> wbound out j"
    by (auto simp: wok_def m)
  note n' = wok_narrow [OF ok [unfolded m] p n]
  note lt = n'(4) and le = n'(3)
  define e where "e = norm R'"
  have nb: "128 \<le> R' * 2 ^ e" "R' * 2 ^ e \<le> 255" "e \<le> 7"
    using norm_bounds [OF n'(1,2)] norm_le by (auto simp: e_def)
  have "wok (wput m b p) \<and> wrel (wput m b p) (renorm (narrow s b p))"
  proof (cases "j + e < 24")
    case True
    have step: "wput m b p = (out, low' * 2 ^ e, R' * 2 ^ e, j + e)"
      using True by (simp add: wput_def m n e_def Let_def)
    have "(low' + R') * 2 ^ e \<le> wbound out j * 2 ^ e" using le by simp
    also have "\<dots> \<le> wbound out (j + e)"
      using ok'(4) by (auto simp: wbound_def power_add simp flip: power_add)
    finally have "wok (wput m b p)"
      using nb True ok'(4) by (auto simp: step wok_def algebra_simps)
    moreover have "wrel (wput m b p) (renorm (narrow s b p))"
      using narrow_rel [OF r [unfolded m] n]
      by (simp add: step wrel_def renorm_def e_def power_add algebra_simps)
    ultimately show ?thesis ..
  next
    case False
    define out' where "out' = (if 2 ^ (8 + j) \<le> low' then inc_bytes out else out) @ [word_of_nat (low' div 2 ^ j)]"
    have step: "wput m b p = (out', (low' mod 2 ^ j) * 2 ^ e, R' * 2 ^ e, j + e - 8)"
      using False by (simp add: wput_def m n e_def Let_def out'_def)
    have "low' mod 2 ^ j < 2 ^ j" by simp
    then have rem: "low' mod 2 ^ j \<le> 2 ^ j - 1" by linarith
    have "low' mod 2 ^ j * 2 ^ e + R' * 2 ^ e \<le> (2 ^ j - 1) * 2 ^ e + R' * 2 ^ e"
      using rem by (intro add_right_mono mult_right_mono) auto
    also have "\<dots> \<le> (2 ^ 24 + 255) * 2 ^ (j + e - 8 - 16)"
    proof -
      define t where "t = j + e - 24"
      have pe: "(2::nat) ^ e = 2 ^ (24 - j) * 2 ^ t" "(2::nat) ^ j * 2 ^ (24 - j) = 2 ^ 24"
        using False ok'(3) by (simp_all add: t_def flip: power_add)
      have "R' * 2 ^ (24 - j) * 1 \<le> R' * 2 ^ (24 - j) * 2 ^ t"
        by (intro mult_left_mono) auto
      also have "\<dots> \<le> 255" using nb(2) by (simp add: pe(1) mult.assoc)
      finally have "R' * 2 ^ (24 - j) \<le> 255" by simp
      then have "((2 ^ j - 1) * 2 ^ (24 - j) + R' * 2 ^ (24 - j)) * 2 ^ t \<le> (2 ^ 24 + 255) * 2 ^ t"
        using pe(2) by (intro mult_right_mono) (auto simp: diff_mult_distrib)
      then show ?thesis by (simp add: pe(1) t_def algebra_simps)
    qed
    finally have "wok (wput m b p)"
      using False nb ok'(3) by (auto simp: step wok_def wbound_def out'_def)
    moreover have "wrel (wput m b p) (renorm (narrow s b p))"
      unfolding step using wput_emit_rel [of out low R j s p b low' R' j out'] r wf p n lt False
      by (simp add: m e_def out'_def)
    ultimately show ?thesis ..
  qed
  then show "wok (wput m b p)" "wrel (wput m b p) (renorm (narrow s b p))" by auto
qed


section \<open>Flushing\<close>

text \<open>
  Thirty-two zero bits of probability one half push every bit of the low end out: afterwards
  the bytes are the low end exactly, so they name a point of the interval.
\<close>

definition wputs :: "wmach \<Rightarrow> (bool \<times> byte) list \<Rightarrow> wmach" where
  "wputs = foldl (\<lambda>m x. wput m (fst x) (unat (snd x)))"

lemma wputs_simps [simp]:
  "wputs m [] = m"
  "wputs m (x # xs) = wputs (wput m (fst x) (unat (snd x))) xs"
  by (simp_all add: wputs_def)

lemma wputs_append: "wputs m (xs @ ys) = wputs (wputs m xs) ys"
  by (simp add: wputs_def)

lemma length_wputs: "length (fst m) \<le> length (fst (wputs m xs))"
proof (induction xs arbitrary: m)
  case Nil
  then show ?case by simp
next
  case (Cons x xs)
  have "length (fst m) \<le> length (fst (wput m (fst x) (unat (snd x))))"
    by (auto simp: wput_def narrow_def Let_def split: prod.splits)
  then show ?case using Cons [of "wput m (fst x) (unat (snd x))"] by simp
qed

lemma wputs_sim:
  assumes "wok m" "wrel m s" "wf_ival s"
  shows "wok (wputs m xs) \<and> wrel (wputs m xs) (enc_run s xs)"
  using assms
proof (induction xs arbitrary: m s)
  case Nil
  then show ?case by simp
next
  case (Cons x xs)
  have "wok (wput m (fst x) (unat (snd x)))" "wrel (wput m (fst x) (unat (snd x))) (enc_step s x)"
    using wput_sim [OF Cons.prems(1-3) unat_byte_le] by (auto simp: enc_step_def)
  then show ?case using Cons.IH enc_step_wf [OF Cons.prems(3)] by simp
qed

definition flush_bits :: "(bool \<times> byte) list" where
  "flush_bits = replicate 32 (False, 128)"

definition settled :: "wmach \<Rightarrow> bool" where
  "settled m = (case m of (out, low, R, j) \<Rightarrow> low < 2 ^ (8 + j))"

lemma enc_step_zero:
  assumes "wf_ival (L, R, k)"
  shows "\<exists>n R'. enc_step (L, R, k) (False, 128) = (L * 2 ^ n, R', k + n) \<and> (R < 255 \<longrightarrow> n = 1) \<and> R' < 255"
proof -
  have R: "128 \<le> R" "R \<le> 255" using assms by (auto simp: wf_ival_def)
  have sp: "split_of R 128 = (R + 1) div 2"
    using R by (simp add: split_of_def)
  have "norm ((R + 1) div 2) = 1 \<and> (R + 1) div 2 * 2 < 255" if "R < 255"
    using R that by (auto simp: norm_def)
  moreover have "norm ((R + 1) div 2) = 0" if "R = 255"
    using that by (simp add: norm_def)
  ultimately show ?thesis
    using R sp by (cases "R = 255") (auto simp: enc_step_def narrow_def renorm_def)
qed

lemma enc_run_zeros:
  assumes "wf_ival (L, R, k)" "R < 255"
  shows "\<exists>R'. enc_run (L, R, k) (replicate n (False, 128)) = (L * 2 ^ n, R', k + n)"
  using assms
proof (induction n arbitrary: L R k)
  case 0
  then show ?case by simp
next
  case (Suc n)
  obtain R' where st: "enc_step (L, R, k) (False, 128) = (L * 2, R', k + 1)" and "R' < 255"
    using enc_step_zero [OF Suc.prems(1)] Suc.prems(2) by auto
  moreover have "wf_ival (L * 2, R', k + 1)"
    using enc_step_wf [OF Suc.prems(1)] st by metis
  ultimately show ?case using Suc.IH [of "L * 2" R' "k + 1"] by (auto simp: algebra_simps)
qed

lemma enc_run_flush:
  assumes "wf_ival (L, R, k)"
  shows "\<exists>n R'. enc_run (L, R, k) flush_bits = (L * 2 ^ n, R', k + n) \<and> 31 \<le> n"
proof -
  obtain n R' where st: "enc_step (L, R, k) (False, 128) = (L * 2 ^ n, R', k + n)" and R': "R' < 255"
    using enc_step_zero [OF assms] by auto
  have "wf_ival (L * 2 ^ n, R', k + n)"
    using enc_step_wf [OF assms] st by metis
  then obtain R'' where tail:
    "enc_run (L * 2 ^ n, R', k + n) (replicate 31 (False, 128)) = (L * 2 ^ n * 2 ^ 31, R'', k + n + 31)"
    using enc_run_zeros R' by blast
  have fb: "flush_bits = (False, 128) # replicate 31 (False, 128)"
    by (simp add: flush_bits_def flip: replicate_Suc)
  have "enc_run (L, R, k) flush_bits
      = enc_run (enc_step (L, R, k) (False, 128)) (replicate 31 (False, 128))"
    unfolding fb by (rule enc_run_simps(2))
  also have "\<dots> = (L * 2 ^ (n + 31), R'', k + (n + 31))"
    unfolding st tail by (simp add: power_add)
  finally show ?thesis by force
qed

lemma settled_put:
  assumes "wok (out, low, R, j)" "length (fst (wput (out, low, R, j) False p)) = length out \<longrightarrow> low < 2 ^ (8 + j)"
  shows "settled (wput (out, low, R, j) False p)"
proof (cases "j + norm (split_of R p) < 24")
  case True
  then show ?thesis
    using assms by (auto simp: wput_def narrow_def settled_def Let_def power_add)
next
  case False
  define e where "e = norm (split_of R p)"
  have "low mod 2 ^ j * 2 ^ e < 2 ^ j * 2 ^ e" by simp
  moreover have "(2::nat) ^ (8 + (j + e - 8)) = 2 ^ j * 2 ^ e"
    using False by (simp add: e_def flip: power_add)
  ultimately show ?thesis
    using False by (simp add: wput_def narrow_def settled_def Let_def e_def)
qed

lemma settled_zeros:
  assumes "wok m" "wrel m s" "wf_ival s" "settled m \<or> length (fst m) < length (fst (wputs m (replicate n (False, 128))))"
  shows "settled (wputs m (replicate n (False, 128)))"
  using assms
proof (induction n arbitrary: m s)
  case 0
  then show ?case by simp
next
  case (Suc n)
  obtain out low R j where m: "m = (out, low, R, j)" by (metis prod_cases4)
  define m' where "m' = wput m False 128"
  have ok': "wok m'" "wrel m' (renorm (narrow s False 128))"
    using wput_sim [OF Suc.prems(1-3)] by (auto simp: m'_def)
  have wf': "wf_ival (renorm (narrow s False 128))"
    using enc_step_wf [OF Suc.prems(3), of "(False, 128)"] by (simp add: enc_step_def)
  have "settled m' \<or> length (fst m') < length (fst (wputs m' (replicate n (False, 128))))"
  proof (cases "settled m \<or> length (fst m') \<noteq> length out")
    case True
    then have "settled m'"
      using settled_put [of out low R j 128] Suc.prems(1) by (auto simp: m m'_def settled_def)
    then show ?thesis ..
  next
    case False
    then show ?thesis using Suc.prems(4) by (auto simp: m m'_def)
  qed
  then show ?case using Suc.IH [OF ok' wf'] by (simp add: m'_def)
qed

lemma flush_exact:
  assumes ok: "wok m" and r: "wrel m s" and wf: "wf_ival s"
    and m': "wputs m flush_bits = (out', low', R', j')"
  shows "contains s out'"
proof -
  obtain out low R j where m: "m = (out, low, R, j)" by (metis prod_cases4)
  obtain L k where s: "s = (L, R, k)" and k: "k = j + 8 * length out"
    using r by (cases s) (auto simp: wrel_def m)
  obtain n R2 where run: "enc_run s flush_bits = (L * 2 ^ n, R2, k + n)" and n: "31 \<le> n"
    using enc_run_flush wf by (metis s)
  have ok': "wok (out', low', R', j')" "wrel (out', low', R', j') (L * 2 ^ n, R2, k + n)"
    using wputs_sim [OF ok r wf, of flush_bits] by (simp_all add: m' run)
  then have j': "j' < 24" and len: "k + n = j' + 8 * length out'"
    and val: "L * 2 ^ n = be_val out' * 2 ^ (8 + j') + low'"
    by (auto simp: wok_def wrel_def)
  have j: "j < 24" using ok by (simp add: wok_def m)
  have "length out < length out'" using len j' k j n by linarith
  then have "settled (out', low', R', j')"
    using settled_zeros [OF ok r wf, of 32] m' by (simp add: m flush_bits_def)
  then have low': "low' < 2 ^ (8 + j')" by (simp add: settled_def)
  have le: "8 + k \<le> 8 * length out'" using len j' n by linarith
  have en: "n = (8 * length out' - (8 + k)) + (8 + j')" using le len by linarith
  have "2 ^ (8 + j') dvd L * 2 ^ n" by (subst en) (simp add: power_add)
  then have "2 ^ (8 + j') dvd low'" unfolding val by (simp add: dvd_add_right_iff)
  then have "low' = 0" using low' by (meson nat_dvd_not_less neq0_conv)
  with val have "L * 2 ^ (8 * length out' - (8 + k)) * 2 ^ (8 + j') = be_val out' * 2 ^ (8 + j')"
    by (subst (asm) en) (simp add: power_add)
  then have "L * 2 ^ (8 * length out' - (8 + k)) = be_val out'" by simp
  then have "xval out' (8 + k) = L"
    using le by (simp add: xval_le flip: \<open>L * 2 ^ (8 * length out' - (8 + k)) = be_val out'\<close>)
  moreover have "128 \<le> R" using wf by (simp add: wf_ival_def s)
  ultimately show ?thesis by (simp add: contains_def s)
qed

text \<open>Trailing zero bytes do not move the code point.\<close>

lemma xval_append_zero: "xval (bs @ [0]) m = xval bs m"
proof -
  have "xval (bs @ [0]) m = be_val bs * 2 ^ m * 256 div (2 ^ (8 * length bs) * 256)"
    by (simp add: xval_def be_val_snoc power_add mult.commute mult.left_commute)
  then show ?thesis by (simp add: xval_def)
qed

lemma contains_append_zero: "contains s (bs @ [0]) = contains s bs"
  by (simp add: contains_def xval_append_zero)


section \<open>The reader machine\<close>

text \<open>
  \<open>(v, c, R, pos)\<close>: the 64-bit window, the number of bits it holds beyond the eight being
  decoded, the range and the read position. Running out of bytes adds \<open>lots_of_bits\<close> to the
  count, so the window is not refilled again.
\<close>

type_synonym rmach = "nat \<times> int \<times> nat \<times> nat"

definition lots_of_bits :: int where
  "lots_of_bits = 1073741824"

definition rfill :: "byte list \<Rightarrow> nat \<times> int \<times> nat \<Rightarrow> nat \<times> int \<times> nat" where
  "rfill bs w = (case w of (v, c, pos) \<Rightarrow>
     let sh = nat (48 - c); left = length bs - pos in
     if sh + 8 < 8 * left
     then let m = sh div 8 + 1 in
       (v + be_val (take m (drop pos bs)) * 2 ^ (sh + 8 - 8 * m), c + 8 * int m, pos + m)
     else (v + be_val (take left (drop pos bs)) * 2 ^ (sh + 8 - 8 * left),
       c + 8 * int left + lots_of_bits, pos + left))"

definition rload :: "byte list \<Rightarrow> rmach \<Rightarrow> nat \<times> int \<times> nat" where
  "rload bs m = (case m of (v, c, R, pos) \<Rightarrow> if c < 0 then rfill bs (v, c, pos) else (v, c, pos))"

definition rget :: "byte list \<Rightarrow> rmach \<Rightarrow> nat \<Rightarrow> bool \<times> rmach" where
  "rget bs m p = (case m of (v, c, R, pos) \<Rightarrow>
     case rload bs m of (v, c, pos) \<Rightarrow>
       let sp = split_of R p; b = (sp * 2 ^ 56 \<le> v);
           v' = (if b then v - sp * 2 ^ 56 else v); R' = (if b then R - sp else sp); n = norm R'
       in (b, v' * 2 ^ n, c - int n, R' * 2 ^ n, pos))"

definition rrel :: "byte list \<Rightarrow> rmach \<Rightarrow> ival \<Rightarrow> bool" where
  "rrel bs m s = (case m of (v, c, R', pos) \<Rightarrow> case s of (L, R, k) \<Rightarrow>
     R' = R \<and> pos \<le> length bs \<and> -8 \<le> c \<and> 8 * pos \<le> 64 + k
     \<and> v + L * 2 ^ 56 = be_val (take pos bs) * 2 ^ (64 + k - 8 * pos)
     \<and> (\<exists>e. c = 8 * int pos - 8 - int k + int e * lots_of_bits \<and> (e \<noteq> 0 \<longrightarrow> pos = length bs))
     \<and> (c < 0 \<longrightarrow> 2 ^ nat (- c) dvd L))"

text \<open>
  What the code's words need so that no shift, mask or addition loses a bit: the window, once
  refilled, is below the range, and a refill meets zero bits.
\<close>

definition rsafe :: "byte list \<Rightarrow> rmach \<Rightarrow> bool" where
  "rsafe bs m = (case m of (v, c, R, pos) \<Rightarrow>
     128 \<le> R \<and> R \<le> 255 \<and> pos \<le> length bs \<and> -8 \<le> c \<and> fst (rload bs m) < R * 2 ^ 56
     \<and> (c < 0 \<longrightarrow> pos < length bs \<longrightarrow> 2 ^ nat (56 - c) dvd v))"

lemma loaded_le_xval:
  assumes "n \<le> length bs" "8 * n \<le> 64 + k"
  shows "be_val (take n bs) * 2 ^ (64 + k - 8 * n) div 2 ^ 56 \<le> xval bs (8 + k)"
proof (cases "8 + k \<le> 8 * n")
  case True
  then show ?thesis
    using loaded_prefix [of n bs "8 + k" 56] assms by (simp add: algebra_simps)
next
  case False
  then have e: "64 + k - 8 * n = (8 + k - 8 * n) + 56" and m: "8 * n + (8 + k - 8 * n) = 8 + k" by simp_all
  have "be_val (take n bs) * 2 ^ (64 + k - 8 * n) div 2 ^ 56 = be_val (take n bs) * 2 ^ (8 + k - 8 * n)"
    unfolding e power_add by simp
  also have "\<dots> = xval bs (8 * n) * 2 ^ (8 + k - 8 * n)"
    using assms(1) by (simp add: be_val_take_xval)
  also have "\<dots> \<le> xval bs (8 * n + (8 + k - 8 * n))"
    using xval_shift [of bs "8 * n" "8 + k - 8 * n"]
      div_times_less_eq_dividend [of "xval bs (8 * n + (8 + k - 8 * n))" "2 ^ (8 + k - 8 * n)"]
    by (simp only:)
  finally show ?thesis by (simp only: m)
qed

lemma rfill_rel:
  assumes "rrel bs (v, c, R, pos) s" "c < 0" and f: "rfill bs (v, c, pos) = (v', c', pos')"
  shows "rrel bs (v', c', R, pos') s" "0 \<le> c'"
proof -
  obtain L k where s: "s = (L, R, k)"
    using assms(1) by (cases s) (auto simp: rrel_def)
  have r: "pos \<le> length bs" "-8 \<le> c" "8 * pos \<le> 64 + k"
    and val: "v + L * 2 ^ 56 = be_val (take pos bs) * 2 ^ (64 + k - 8 * pos)"
    using assms(1) by (auto simp: rrel_def s)
  obtain e where e: "c = 8 * int pos - 8 - int k + int e * lots_of_bits" "e \<noteq> 0 \<Longrightarrow> pos = length bs"
    using assms(1) by (auto simp: rrel_def s)
  define sh where "sh = nat (48 - c)"
  define left where "left = length bs - pos"
  have join: "v + be_val (take m (drop pos bs)) * 2 ^ (sh + 8 - 8 * m) + L * 2 ^ 56
      = be_val (take (pos + m) bs) * 2 ^ (64 + k - 8 * (pos + m))"
    if "m \<le> left" "8 * m \<le> sh + 8" "sh + 8 = 64 + k - 8 * pos" for m
  proof -
    define X where "X = 64 + k - 8 * (pos + m)"
    have X: "sh + 8 - 8 * m = X" "64 + k - 8 * pos = 8 * m + X"
      using that r(3) by (simp_all add: X_def)
    have "length (take m (drop pos bs)) = m" using that(1) by (simp add: left_def)
    then have "be_val (take (pos + m) bs) = be_val (take pos bs) * 256 ^ m + be_val (take m (drop pos bs))"
      using be_val_take_add [of pos m bs] by simp
    then show ?thesis
      using val unfolding X X_def [symmetric] by (simp add: pow_256 power_add algebra_simps)
  qed
  have "rrel bs (v', c', R, pos') s \<and> 0 \<le> c'"
  proof (cases "sh + 8 < 8 * left")
    case True
    define m where "m = sh div 8 + 1"
    have "pos \<noteq> length bs" using True by (auto simp: left_def)
    then have e0: "e = 0" using e(2) by blast
    then have sh: "sh + 8 = 64 + k - 8 * pos" "c = 8 * int pos - 8 - int k"
      using e assms(2) r by (auto simp: sh_def nat_diff_distrib)
    have m: "8 * m \<le> sh + 8" "m \<le> left" "sh < 8 * m"
      using True by (auto simp: m_def)
    have f': "v' = v + be_val (take m (drop pos bs)) * 2 ^ (sh + 8 - 8 * m)" "c' = c + 8 * int m" "pos' = pos + m"
      using f True by (auto simp: rfill_def sh_def left_def m_def Let_def)
    have "8 * (pos + m) \<le> 64 + k" using m(1) sh(1) r(3) by arith
    moreover have "0 \<le> c'" using m(3) by (simp add: f' sh_def)
    ultimately show ?thesis
      using join [OF m(2,1) sh(1)] m r sh(2) by (auto simp: rrel_def s f' left_def intro!: exI [of _ 0])
  next
    case False
    have f': "v' = v + be_val (take left (drop pos bs)) * 2 ^ (sh + 8 - 8 * left)"
      "c' = c + 8 * int left + lots_of_bits" "pos' = pos + left"
      using f False by (auto simp: rfill_def sh_def left_def Let_def)
    have pos': "pos' = length bs" using r(1) by (simp add: f' left_def)
    have c': "0 \<le> c'" using r(2) by (simp add: f' lots_of_bits_def)
    have "v' + L * 2 ^ 56 = be_val (take pos' bs) * 2 ^ (64 + k - 8 * pos') \<and> 8 * pos' \<le> 64 + k"
    proof (cases "e = 0")
      case True
      then have sh: "sh + 8 = 64 + k - 8 * pos"
        using e assms(2) r by (auto simp: sh_def nat_diff_distrib)
      show ?thesis using join [of left] False sh r by (simp add: f')
    next
      case False
      then have "left = 0" using e(2) by (simp add: left_def)
      then show ?thesis using val r by (simp add: f')
    qed
    moreover have "c' = 8 * int pos' - 8 - int k + int (Suc e) * lots_of_bits"
      using e(1) r(1) by (simp add: f' left_def algebra_simps)
    ultimately show ?thesis
      using c' pos' by (auto simp: rrel_def s simp del: of_nat_Suc intro!: exI [of _ "Suc e"])
  qed
  then show "rrel bs (v', c', R, pos') s" "0 \<le> c'" by auto
qed


lemma rrel_below:
  assumes "rrel bs (v, c, R', pos) s" "contains s bs"
  shows "v < R' * 2 ^ 56"
proof -
  obtain L R k where s: "s = (L, R, k)" by (cases s)
  have r: "R' = R" "pos \<le> length bs" "8 * pos \<le> 64 + k"
    and val: "v + L * 2 ^ 56 = be_val (take pos bs) * 2 ^ (64 + k - 8 * pos)"
    using assms(1) by (auto simp: rrel_def s)
  have "(v + L * 2 ^ 56) div 2 ^ 56 < L + R"
    unfolding val using loaded_le_xval [OF r(2,3)] assms(2) by (simp add: contains_def s)
  then have "v div 2 ^ 56 < R" by simp
  then show ?thesis by (simp add: div_less_iff_less_mult r(1))
qed

lemma rload_rel:
  assumes "rrel bs (v, c, R, pos) s" "rload bs (v, c, R, pos) = (v', c', pos')"
  shows "rrel bs (v', c', R, pos') s" "0 \<le> c'"
  using assms rfill_rel [OF assms(1)] by (auto simp: rload_def split: if_splits)

lemma rrel_safe:
  assumes "rrel bs m s" "contains s bs" "wf_ival s"
  shows "rsafe bs m"
proof -
  obtain v c R pos where m: "m = (v, c, R, pos)" by (metis prod_cases4)
  obtain L k where s: "s = (L, R, k)"
    using assms(1) by (cases s) (auto simp: rrel_def m)
  have r: "pos \<le> length bs" "-8 \<le> c" "8 * pos \<le> 64 + k" "c < 0 \<Longrightarrow> 2 ^ nat (- c) dvd L"
    and val: "v + L * 2 ^ 56 = be_val (take pos bs) * 2 ^ (64 + k - 8 * pos)"
    using assms(1) by (auto simp: rrel_def m s)
  obtain e where e: "c = 8 * int pos - 8 - int k + int e * lots_of_bits" "e \<noteq> 0 \<Longrightarrow> pos = length bs"
    using assms(1) by (auto simp: rrel_def m s)
  obtain v' c' pos' where l: "rload bs m = (v', c', pos')" by (metis prod_cases3)
  have "v' < R * 2 ^ 56"
    using rrel_below [OF rload_rel(1) assms(2)] assms(1) l by (simp add: m)
  moreover have "2 ^ nat (56 - c) dvd v" if "c < 0" "pos < length bs"
  proof -
    have c: "c = 8 * int pos - 8 - int k" using e that by auto
    then have "nat (56 - c) = 64 + k - 8 * pos" using r(3) by (simp add: nat_diff_distrib)
    then have "2 ^ nat (56 - c) dvd v + L * 2 ^ 56" unfolding val by simp
    moreover have "nat (56 - c) = nat (- c) + 56" using that(1) by simp
    then have "2 ^ nat (56 - c) dvd L * 2 ^ 56"
      using r(4) [OF that(1)] by (simp add: power_add)
    ultimately show ?thesis by (metis dvd_add_left_iff)
  qed
  ultimately show ?thesis
    using r assms(3) l by (auto simp: rsafe_def m wf_ival_def s)
qed

lemma rget_rel:
  assumes "rrel bs m s" "wf_ival s" "contains s bs" "p \<le> 255" and g: "rget bs m p = (b, m')"
  shows "b = dec_bit bs s p" "rrel bs m' (renorm (narrow s b p))"
proof -
  obtain v0 c0 R pos0 where m: "m = (v0, c0, R, pos0)" by (metis prod_cases4)
  obtain v c pos where w: "rload bs m = (v, c, pos)" by (metis prod_cases3)
  have rel: "rrel bs (v, c, R, pos) s" and c: "0 \<le> c"
    using rload_rel [of bs v0 c0 R pos0 s v c pos] w assms(1) by (auto simp: m)
  obtain L k where s: "s = (L, R, k)"
    using rel by (cases s) (auto simp: rrel_def)
  have r: "pos \<le> length bs" "8 * pos \<le> 64 + k"
    and val: "v + L * 2 ^ 56 = be_val (take pos bs) * 2 ^ (64 + k - 8 * pos)"
    using rel by (auto simp: rrel_def s)
  obtain e where e: "c = 8 * int pos - 8 - int k + int e * lots_of_bits" "e \<noteq> 0 \<Longrightarrow> pos = length bs"
    using rel by (auto simp: rrel_def s)
  have "8 + k \<le> 8 * pos \<or> pos = length bs" using e c by (cases "e = 0") auto
  then have "(v + L * 2 ^ 56) div 2 ^ 56 = xval bs (8 + k)"
    unfolding val using loaded_prefix [of pos bs "8 + k" 56] r by (simp add: algebra_simps)
  then have top: "v div 2 ^ 56 + L = xval bs (8 + k)" by simp
  define sp where "sp = split_of R p"
  have R: "128 \<le> R" "R \<le> 255" using assms(2) by (auto simp: wf_ival_def s)
  have sp: "1 \<le> sp" "sp < R" using split_of_bounds [of R p] R assms(4) by (auto simp: sp_def)
  have b: "b = (sp * 2 ^ 56 \<le> v)"
    and m': "m' = (let v' = (if b then v - sp * 2 ^ 56 else v); R' = (if b then R - sp else sp)
      in (v' * 2 ^ norm R', c - int (norm R'), R' * 2 ^ norm R', pos))"
    using g w by (auto simp: rget_def m sp_def Let_def)
  have "b = (sp \<le> v div 2 ^ 56)" by (simp add: b less_eq_div_iff_mult_less_eq)
  then show "b = dec_bit bs s p"
    using top by (auto simp: dec_bit_def s sp_def)
  define v' where "v' = (if b then v - sp * 2 ^ 56 else v)"
  define R' where "R' = (if b then R - sp else sp)"
  define L' where "L' = (if b then L + sp else L)"
  define n where "n = norm R'"
  have n: "n \<le> 7" by (simp add: n_def norm_le)
  have st: "renorm (narrow s b p) = (L' * 2 ^ n, R' * 2 ^ n, k + n)"
    by (simp add: s narrow_def renorm_def L'_def R'_def n_def sp_def)
  have mm: "m' = (v' * 2 ^ n, c - int n, R' * 2 ^ n, pos)"
    by (simp add: m' v'_def R'_def n_def Let_def)
  have "v' + L' * 2 ^ 56 = v + L * 2 ^ 56"
    using b by (auto simp: v'_def L'_def algebra_simps)
  then have "v' + L' * 2 ^ 56 = be_val (take pos bs) * 2 ^ (64 + k - 8 * pos)"
    by (simp only: val)
  then have "(v' + L' * 2 ^ 56) * 2 ^ n = be_val (take pos bs) * 2 ^ (64 + k - 8 * pos) * 2 ^ n"
    by (simp only:)
  then have "v' * 2 ^ n + L' * 2 ^ n * 2 ^ 56 = be_val (take pos bs) * 2 ^ (64 + k - 8 * pos) * 2 ^ n"
    by (simp only: add_mult_distrib mult.assoc mult.commute [of "2 ^ n" "2 ^ 56"])
  also have "\<dots> = be_val (take pos bs) * 2 ^ (64 + (k + n) - 8 * pos)"
    using r(2) by (simp add: ac_simps flip: power_add)
  finally have val': "v' * 2 ^ n + L' * 2 ^ n * 2 ^ 56 = be_val (take pos bs) * 2 ^ (64 + (k + n) - 8 * pos)" .
  have "2 ^ nat (- (c - int n)) dvd L' * 2 ^ n"
    using c by (intro dvd_mult le_imp_power_dvd) auto
  then show "rrel bs m' (renorm (narrow s b p))"
    using r c n val' e by (auto simp: rrel_def st mm)
qed

text \<open>The split as 32-bit code computes it.\<close>

lemma split_unat:
  fixes rng :: u32
  assumes "1 \<le> unat rng" "unat rng \<le> 255"
  shows "unat (1 + drop_bit 8 ((rng - 1) * ucast (p :: byte))) = split_of (unat rng) (unat p)"
proof -
  define x where "x = (rng - 1) * ucast p"
  have b: "unat (rng - 1) = unat rng - 1"
    using unat_sub_nowrap [of 1 rng] assms by simp
  have p: "unat (ucast p :: u32) = unat p" by (rule unat_ucast_up) simp
  have le: "(unat rng - 1) * unat p \<le> 254 * 255"
    using assms(2) unat_byte_le [of p] by (intro mult_mono) auto
  then have x: "unat x = (unat rng - 1) * unat p"
    unfolding x_def using unat_mult_nowrap [of "rng - 1" "ucast p"] by (simp add: b p)
  have "unat (1 + drop_bit 8 x) = 1 + unat x div 256"
    using unat_add_nowrap [of 1 "drop_bit 8 x"] x le by (simp add: unat_drop_bit)
  then show ?thesis by (simp add: x x_def [symmetric] split_of_def)
qed

section \<open>The interfaces of the coders\<close>

text \<open>
  A writer: \<open>put\<close> codes a bit at a probability, \<open>failed\<close> is the sticky error, \<open>cap\<close> the size
  of the destination. The law: on a state that represents an interval, \<open>put\<close> is the writer
  machine's step, and it fails exactly when that step's bytes do not fit.
\<close>

locale bool_writer =
  fixes put :: "'w \<Rightarrow> bool \<Rightarrow> byte \<Rightarrow> 'w"
    and view :: "'w \<Rightarrow> wmach"
    and failed :: "'w \<Rightarrow> bool"
    and cap :: "'w \<Rightarrow> nat"
  assumes put_failed: "failed w \<Longrightarrow> failed (put w b p)"
    and put_cap: "cap (put w b p) = cap w"
    and put_fails: "\<not> failed w \<Longrightarrow> wok (view w) \<Longrightarrow> wrel (view w) s \<Longrightarrow> wf_ival s \<Longrightarrow>
      length (fst (view w)) \<le> cap w \<Longrightarrow>
      failed (put w b p) \<longleftrightarrow> cap w < length (fst (wput (view w) b (unat p)))"
    and put_view: "\<not> failed w \<Longrightarrow> wok (view w) \<Longrightarrow> wrel (view w) s \<Longrightarrow> wf_ival s \<Longrightarrow>
      \<not> failed (put w b p) \<Longrightarrow> view (put w b p) = wput (view w) b (unat p)"
begin

definition puts :: "'w \<Rightarrow> (bool \<times> byte) list \<Rightarrow> 'w" where
  "puts = foldl (\<lambda>w x. put w (fst x) (snd x))"

lemma puts_simps [simp]:
  "puts w [] = w"
  "puts w (x # xs) = puts (put w (fst x) (snd x)) xs"
  by (simp_all add: puts_def)

lemma puts_append: "puts w (xs @ ys) = puts (puts w xs) ys"
  by (simp add: puts_def)

lemma puts_failed: "failed w \<Longrightarrow> failed (puts w xs)"
  by (induction xs arbitrary: w) (auto simp: put_failed)

lemma puts_view:
  assumes "wok (view w)" "wrel (view w) s" "wf_ival s" "\<not> failed (puts w xs)"
  shows "view (puts w xs) = wputs (view w) xs"
  using assms
proof (induction xs arbitrary: w s)
  case Nil
  then show ?case by simp
next
  case (Cons x xs)
  let ?w = "put w (fst x) (snd x)"
  have nf: "\<not> failed ?w" "\<not> failed w"
    using Cons.prems(4) puts_failed put_failed by auto
  then have v: "view ?w = wput (view w) (fst x) (unat (snd x))"
    using put_view Cons.prems(1-3) by blast
  have "wok (view ?w)" "wrel (view ?w) (enc_step s x)"
    using wput_sim [OF Cons.prems(1-3) unat_byte_le] by (simp_all add: v enc_step_def)
  then show ?case
    using Cons.IH [of ?w "enc_step s x"] enc_step_wf [OF Cons.prems(3)] Cons.prems(4) v by simp
qed

text \<open>A message fails exactly when the bytes it emits do not fit.\<close>

lemma puts_fails:
  assumes "\<not> failed w" "wok (view w)" "wrel (view w) s" "wf_ival s" "length (fst (view w)) \<le> cap w"
  shows "failed (puts w xs) \<longleftrightarrow> cap w < length (fst (wputs (view w) xs))"
  using assms
proof (induction xs arbitrary: w s)
  case Nil
  then show ?case by simp
next
  case (Cons x xs)
  let ?w = "put w (fst x) (snd x)" and ?m = "wput (view w) (fst x) (unat (snd x))"
  have fit: "failed ?w \<longleftrightarrow> cap w < length (fst ?m)"
    using put_fails [OF Cons.prems] .
  show ?case
  proof (cases "failed ?w")
    case True
    then show ?thesis using fit puts_failed length_wputs [of ?m xs] by simp
  next
    case False
    then have v: "view ?w = ?m" using put_view Cons.prems by blast
    have "wok ?m" "wrel ?m (enc_step s x)"
      using wput_sim [OF Cons.prems(2-4) unat_byte_le] by (simp_all add: enc_step_def)
    then show ?thesis
      using Cons.IH [of ?w "enc_step s x"] enc_step_wf [OF Cons.prems(4)] False fit v by (simp add: put_cap)
  qed
qed

text \<open>A message written from the initial state and flushed names a point of its interval.\<close>

lemma puts_contains:
  assumes "view w = winit" "\<not> failed (puts w (xs @ flush_bits))"
  shows "contains (enc_run enc_init xs) (fst (view (puts w (xs @ flush_bits))))"
proof -
  have "\<not> failed (puts w xs)" using assms(2) puts_failed by (auto simp: puts_append)
  then have v: "view (puts w xs) = wputs winit xs"
    using puts_view [of w enc_init xs] assms(1) winit_ok wf_enc_init by simp
  have sim: "wok (wputs winit xs)" "wrel (wputs winit xs) (enc_run enc_init xs)"
    using wputs_sim [OF winit_ok wf_enc_init, of xs] by auto
  have wf: "wf_ival (enc_run enc_init xs)" by (rule enc_run_wf [OF wf_enc_init])
  have "view (puts w (xs @ flush_bits)) = wputs (wputs winit xs) flush_bits"
    using puts_view [of w enc_init "xs @ flush_bits"] assms winit_ok wf_enc_init
    by (simp add: wputs_append)
  moreover obtain o' l' r' j' where "wputs (wputs winit xs) flush_bits = (o', l', r', j')"
    by (metis prod_cases4)
  ultimately show ?thesis using flush_exact [OF sim wf] by simp
qed

end

text \<open>
  A reader: \<open>get\<close> decodes a bit at a probability from the bytes \<open>src\<close>. The law: on a safe
  state it is the reader machine's step.
\<close>

locale bool_reader =
  fixes get :: "'d \<Rightarrow> byte \<Rightarrow> bool \<times> 'd"
    and view :: "'d \<Rightarrow> rmach"
    and src :: "'d \<Rightarrow> byte list"
  assumes get_src: "src (snd (get d p)) = src d"
    and get_sim: "rsafe (src d) (view d) \<Longrightarrow>
      rget (src d) (view d) (unat p) = (fst (get d p), view (snd (get d p)))"
begin

text \<open>\<open>gets d xs d'\<close>: reading at the probabilities of \<open>xs\<close> gives the bits of \<open>xs\<close> and \<open>d'\<close>.\<close>

fun gets :: "'d \<Rightarrow> (bool \<times> byte) list \<Rightarrow> 'd \<Rightarrow> bool" where
  "gets d [] d' = (d' = d)"
| "gets d (x # xs) d' = (fst (get d (snd x)) = fst x \<and> gets (snd (get d (snd x))) xs d')"

lemma gets_append: "gets d (xs @ ys) d'' \<longleftrightarrow> (\<exists>d'. gets d xs d' \<and> gets d' ys d'')"
  by (induction xs arbitrary: d) auto

lemma gets_contains:
  assumes "rrel (src d) (view d) s" "wf_ival s" "contains (enc_run s xs) (src d)"
  shows "\<exists>d'. gets d xs d'"
  using assms
proof (induction xs arbitrary: d s)
  case Nil
  then show ?case by simp
next
  case (Cons x xs)
  let ?d = "snd (get d (snd x))"
  have wf: "wf_ival (enc_step s x)" by (rule enc_step_wf [OF Cons.prems(2)])
  have con: "contains (enc_run (enc_step s x) xs) (src d)" using Cons.prems(3) by simp
  then have st: "contains (enc_step s x) (src d)" by (rule contains_run [OF _ wf])
  then have here: "contains s (src d)" "dec_bit (src d) s (unat (snd x)) = fst x"
    using contains_step [of s "fst x" "snd x"] Cons.prems(2) by auto
  have safe: "rsafe (src d) (view d)" by (rule rrel_safe [OF Cons.prems(1) here(1) Cons.prems(2)])
  note step = rget_rel [OF Cons.prems(1,2) here(1) unat_byte_le get_sim [OF safe, of "snd x"]]
  have bit: "fst (get d (snd x)) = fst x" using step(1) here(2) by simp
  have "rrel (src ?d) (view ?d) (enc_step s x)"
    using step(2) unfolding bit by (simp add: get_src enc_step_def)
  then show ?case
    using Cons.IH [OF _ wf, of ?d] con bit by (simp add: get_src)
qed

end

end
