(* ===== verification/Coder_Tail.thy ===== *)
theory Coder_Tail
  imports Coder_Machine
begin

text \<open>
  Messages with more bytes behind them. A VP8 decoder is started on everything from the first
  partition to the end of the packet, so what the writer flushed must decode the same whatever
  follows it, and the reader must not think it ran out of data. The flush leaves the code point
  at a whole byte: the interval of the message is decided by the bytes written.
\<close>

text \<open>The bytes decide an interval.\<close>

definition decided :: "ival \<Rightarrow> byte list \<Rightarrow> bool" where
  "decided s bs = (case s of (L, R, k) \<Rightarrow> contains s bs \<and> 8 + k \<le> 8 * length bs)"

lemma xval_append: "m \<le> 8 * length bs \<Longrightarrow> xval (bs @ tail) m = xval bs m"
proof -
  assume m: "m \<le> 8 * length bs"
  have "be_val (take (length bs) (bs @ tail)) = be_val (bs @ tail) div 256 ^ (length (bs @ tail) - length bs)"
    by (rule be_val_take_div)
  then have b: "be_val bs = be_val (bs @ tail) div 2 ^ (8 * length tail)" by (simp add: pow_256)
  have "xval (bs @ tail) m = be_val (bs @ tail) div 2 ^ (8 * length (bs @ tail) - m)"
    using m by (intro xval_le) simp
  also have "8 * length (bs @ tail) - m = 8 * length tail + (8 * length bs - m)" using m by simp
  also have "be_val (bs @ tail) div 2 ^ \<dots> = be_val bs div 2 ^ (8 * length bs - m)"
    by (simp add: b power_add div_mult2_eq)
  finally show ?thesis using m by (simp add: xval_le)
qed

lemma decided_append: "decided s bs \<Longrightarrow> decided s (bs @ tail)"
  by (auto simp: decided_def contains_def xval_append)

lemma enc_run_shift: "enc_run (L, R, k) xs = (L', R', k') \<Longrightarrow> k \<le> k'"
proof (induction xs arbitrary: L R k)
  case Nil
  then show ?case by simp
next
  case (Cons x xs)
  obtain L1 R1 k1 where st: "enc_step (L, R, k) x = (L1, R1, k1)" by (metis prod_cases3)
  then have "k \<le> k1" by (auto simp: enc_step_def narrow_def renorm_def Let_def split: if_splits prod.splits)
  moreover have "k1 \<le> k'" using Cons.IH Cons.prems st by simp
  ultimately show ?case by simp
qed

text \<open>What decides a message decides every prefix of it.\<close>

lemma decided_prefix: "decided (enc_run s xs) bs \<Longrightarrow> wf_ival s \<Longrightarrow> decided s bs"
proof -
  assume d: "decided (enc_run s xs) bs" and wf: "wf_ival s"
  obtain L R k L' R' k' where s: "s = (L, R, k)" "enc_run s xs = (L', R', k')" by (metis prod_cases3)
  have "contains (enc_run s xs) bs" using d by (auto simp: decided_def)
  then have "contains s bs" using wf by (rule contains_run)
  moreover have "k \<le> k'" using s enc_run_shift by simp
  ultimately show ?thesis using d s by (simp add: decided_def)
qed

lemma flush_decides:
  assumes ok: "wok m" and r: "wrel m s" and wf: "wf_ival s"
    and m': "wputs m flush_bits = (out', low', R', j')"
  shows "decided s out'"
proof -
  obtain L R k where s: "s = (L, R, k)" by (cases s)
  obtain n R2 where run: "enc_run s flush_bits = (L * 2 ^ n, R2, k + n)" and n: "31 \<le> n"
    using enc_run_flush wf by (metis s)
  have "wok (out', low', R', j')" "wrel (out', low', R', j') (L * 2 ^ n, R2, k + n)"
    using wputs_sim [OF ok r wf, of flush_bits] by (simp_all add: m' run)
  then have "j' < 24" "k + n = j' + 8 * length out'" by (auto simp: wok_def wrel_def)
  then have "8 + k \<le> 8 * length out'" using n by linarith
  then show ?thesis using flush_exact [OF assms] by (simp add: decided_def s)
qed

context bool_writer begin

lemma puts_decided:
  assumes "view w = winit" "\<not> failed (puts w (xs @ flush_bits))"
  shows "decided (enc_run enc_init xs) (fst (view (puts w (xs @ flush_bits))))"
proof -
  have sim: "wok (wputs winit xs)" "wrel (wputs winit xs) (enc_run enc_init xs)"
    using wputs_sim [OF winit_ok wf_enc_init, of xs] by auto
  have wf: "wf_ival (enc_run enc_init xs)" by (rule enc_run_wf [OF wf_enc_init])
  have "view (puts w (xs @ flush_bits)) = wputs (wputs winit xs) flush_bits"
    using puts_view [of w enc_init "xs @ flush_bits"] assms winit_ok wf_enc_init
    by (simp add: wputs_append)
  moreover obtain o' l' r' j' where "wputs (wputs winit xs) flush_bits = (o', l', r', j')"
    by (metis prod_cases4)
  ultimately show ?thesis using flush_decides [OF sim wf] by simp
qed

end

context bool_reader begin

lemma gets_final:
  assumes "rrel (src d) (view d) s" "wf_ival s" "contains (enc_run s xs) (src d)"
  shows "\<exists>d'. gets d xs d' \<and> src d' = src d \<and> rrel (src d') (view d') (enc_run s xs)"
  using assms
proof (induction xs arbitrary: d s)
  case Nil
  then show ?case by simp
next
  case (Cons x xs)
  let ?d = "snd (get d (snd x))"
  have wf: "wf_ival (enc_step s x)" by (rule enc_step_wf [OF Cons.prems(2)])
  have con: "contains (enc_run (enc_step s x) xs) (src d)" using Cons.prems(3) by simp
  then have st: "contains (enc_step s x) (src d)" by (rule contains_run [OF _ wf])
  then have here: "contains s (src d)" "dec_bit (src d) s (unat (snd x)) = fst x"
    using contains_step [of s "fst x" "snd x"] Cons.prems(2) by auto
  have safe: "rsafe (src d) (view d)" by (rule rrel_safe [OF Cons.prems(1) here(1) Cons.prems(2)])
  note step = rget_rel [OF Cons.prems(1,2) here(1) unat_byte_le get_sim [OF safe, of "snd x"]]
  have bit: "fst (get d (snd x)) = fst x" using step(1) here(2) by simp
  have "rrel (src ?d) (view ?d) (enc_step s x)"
    using step(2) unfolding bit by (simp add: get_src enc_step_def)
  then show ?case
    using Cons.IH [OF _ wf, of ?d] con bit by (simp add: get_src)
qed

end

text \<open>A reader within its message holds at most 56 bits beyond the eight, or has met the end of the bytes.\<close>

lemma rrel_count:
  assumes "rrel bs (v, c, R, pos) s" "decided s bs"
  shows "c \<le> 56 \<or> lots_of_bits \<le> c"
proof -
  obtain L R' k where s: "s = (L, R', k)" by (cases s)
  obtain e where e: "c = 8 * int pos - 8 - int k + int e * lots_of_bits" "e \<noteq> 0 \<longrightarrow> pos = length bs"
    and p: "8 * pos \<le> 64 + k"
    using assms(1) by (auto simp: rrel_def s)
  show ?thesis
  proof (cases "e = 0")
    case True
    then show ?thesis using e(1) p by simp
  next
    case False
    then have "8 + k \<le> 8 * pos" using e(2) assms(2) by (simp add: decided_def s)
    moreover have "lots_of_bits \<le> int e * lots_of_bits" using False by (simp add: lots_of_bits_def)
    ultimately show ?thesis using e(1) by linarith
  qed
qed

end
