(* ===== verification/Vp8_Tables.thy ===== *)
theory Vp8_Tables
  imports Arith_Coder
begin

text \<open>
  The static tables of \<^verbatim>\<open>internal/vp8/tables\<close>, entry for entry. Shift counts and indices are
  lists of naturals, probabilities lists of bytes, token trees and filter taps lists of
  integers; a tree entry that is not positive is a leaf holding the negated token. The lemmas
  give the table lengths, the normalisation table as the specification's \<open>norm\<close>, and the
  scan orders as permutations.
\<close>

section \<open>Entropy constants and tables\<close>

abbreviation "ZeroToken \<equiv> (0::nat)"
abbreviation "OneToken \<equiv> (1::nat)"
abbreviation "TwoToken \<equiv> (2::nat)"
abbreviation "ThreeToken \<equiv> (3::nat)"
abbreviation "FourToken \<equiv> (4::nat)"
abbreviation "DCTValCategory1 \<equiv> (5::nat)"
abbreviation "DCTValCategory2 \<equiv> (6::nat)"
abbreviation "DCTValCategory3 \<equiv> (7::nat)"
abbreviation "DCTValCategory4 \<equiv> (8::nat)"
abbreviation "DCTValCategory5 \<equiv> (9::nat)"
abbreviation "DCTValCategory6 \<equiv> (10::nat)"
abbreviation "DCTEOBToken \<equiv> (11::nat)"
abbreviation "MaxEntropyTokens \<equiv> (12::nat)"
abbreviation "EntropyNodes \<equiv> (11::nat)"
abbreviation "DCTMaxValue \<equiv> (2048::nat)"
abbreviation "BlockTypes \<equiv> (4::nat)"
abbreviation "CoefBands \<equiv> (8::nat)"
abbreviation "PrevCoefContexts \<equiv> (3::nat)"
abbreviation "MVPCount \<equiv> (19::nat)"

type_synonym coef_probs = "byte list list list list"

subsection \<open>\<^verbatim>\<open>entropy.go\<close>\<close>

definition BoolNorm :: "nat list" where
  "BoolNorm =
   [0, 7, 6, 6, 5, 5, 5, 5, 4, 4, 4, 4, 4, 4, 4, 4, 3, 3, 3, 3, 3, 3, 3, 3, 3, 3, 3, 3, 3, 3,
   3, 3, 2, 2, 2, 2, 2, 2, 2, 2, 2, 2, 2, 2, 2, 2, 2, 2, 2, 2, 2, 2, 2, 2, 2, 2, 2, 2, 2, 2, 2,
   2, 2, 2, 1, 1, 1, 1, 1, 1, 1, 1, 1, 1, 1, 1, 1, 1, 1, 1, 1, 1, 1, 1, 1, 1, 1, 1, 1, 1, 1, 1,
   1, 1, 1, 1, 1, 1, 1, 1, 1, 1, 1, 1, 1, 1, 1, 1, 1, 1, 1, 1, 1, 1, 1, 1, 1, 1, 1, 1, 1, 1, 1,
   1, 1, 1, 1, 1, 0, 0, 0, 0, 0, 0, 0, 0, 0, 0, 0, 0, 0, 0, 0, 0, 0, 0, 0, 0, 0, 0, 0, 0, 0, 0,
   0, 0, 0, 0, 0, 0, 0, 0, 0, 0, 0, 0, 0, 0, 0, 0, 0, 0, 0, 0, 0, 0, 0, 0, 0, 0, 0, 0, 0, 0, 0,
   0, 0, 0, 0, 0, 0, 0, 0, 0, 0, 0, 0, 0, 0, 0, 0, 0, 0, 0, 0, 0, 0, 0, 0, 0, 0, 0, 0, 0, 0, 0,
   0, 0, 0, 0, 0, 0, 0, 0, 0, 0, 0, 0, 0, 0, 0, 0, 0, 0, 0, 0, 0, 0, 0, 0, 0, 0, 0, 0, 0, 0, 0,
   0, 0, 0, 0, 0, 0, 0, 0, 0]"

definition CoefBandsTable :: "nat list" where
  "CoefBandsTable =
   [0, 1, 2, 3, 6, 4, 5, 6, 6, 6, 6, 6, 6, 6, 6, 7]"

definition PrevTokenClass :: "nat list" where
  "PrevTokenClass =
   [0, 1, 2, 2, 2, 2, 2, 2, 2, 2, 2, 0]"

definition DefaultZigZag1D :: "nat list" where
  "DefaultZigZag1D =
   [0, 1, 4, 8, 5, 2, 3, 6, 9, 12, 13, 10, 7, 11, 14, 15]"

definition DefaultInvZigZag :: "nat list" where
  "DefaultInvZigZag =
   [1, 2, 6, 7, 3, 5, 8, 13, 4, 9, 12, 14, 10, 11, 15, 16]"

definition DefaultZigZagMask :: "int list" where
  "DefaultZigZagMask =
   [1, 2, 32, 64, 4, 16, 128, 4096, 8, 256, 2048, 8192, 512, 1024, 16384, -32768]"

definition MBFeatureDataBits :: "nat list" where
  "MBFeatureDataBits =
   [7, 6]"

definition CoefTree :: "int list" where
  "CoefTree =
   [-11, 2, 0, 4, -1, 6, 8, 12, -2, 10, -3, -4, 14, 16, -5, -6, 18, 20, -7, -8, -9, -10]"

definition Cat1Prob :: "byte list" where
  "Cat1Prob =
   [159]"

definition Cat2Prob :: "byte list" where
  "Cat2Prob =
   [165, 145]"

definition Cat3Prob :: "byte list" where
  "Cat3Prob =
   [173, 148, 140]"

definition Cat4Prob :: "byte list" where
  "Cat4Prob =
   [176, 155, 140, 135]"

definition Cat5Prob :: "byte list" where
  "Cat5Prob =
   [180, 157, 141, 134, 130]"

definition Cat6Prob :: "byte list" where
  "Cat6Prob =
   [254, 254, 243, 230, 196, 177, 153, 140, 133, 130, 129]"

definition Cat1Tree :: "int list" where
  "Cat1Tree =
   [0, 0]"

definition Cat2Tree :: "int list" where
  "Cat2Tree =
   [2, 2, 0, 0]"

definition Cat3Tree :: "int list" where
  "Cat3Tree =
   [2, 2, 4, 4, 0, 0]"

definition Cat4Tree :: "int list" where
  "Cat4Tree =
   [2, 2, 4, 4, 6, 6, 0, 0]"

definition Cat5Tree :: "int list" where
  "Cat5Tree =
   [2, 2, 4, 4, 6, 6, 8, 8, 0, 0]"

definition Cat6Tree :: "int list" where
  "Cat6Tree =
   [2, 2, 4, 4, 6, 6, 8, 8, 10, 10, 12, 12, 14, 14, 16, 16, 18, 18, 20, 20, 0, 0]"

record Token =
  Value :: int
  Len :: nat

definition CoefEncodings :: "Token list" where
  "CoefEncodings = map (\<lambda>(v, n). \<lparr>Value = v, Len = n\<rparr>)
    [(2, 2), (6, 3), (28, 5), (58, 6), (59, 6), (60, 6), (61, 6), (124, 7), (125, 7), (126, 7),
     (127, 7), (0, 1)]"

text \<open>The zero value \<open>ExtraBits{}\<close> of Go has empty tree and probabilities, length and base 0.\<close>

record ExtraBits =
  Tree :: "int list"
  Prob :: "byte list"
  ELen :: nat
  BaseVal :: int

definition ExtraBitsTable :: "ExtraBits list" where
  "ExtraBitsTable =
     [\<lparr>Tree = [], Prob = [], ELen = 0, BaseVal = 0\<rparr>,
      \<lparr>Tree = [], Prob = [], ELen = 0, BaseVal = 1\<rparr>,
      \<lparr>Tree = [], Prob = [], ELen = 0, BaseVal = 2\<rparr>,
      \<lparr>Tree = [], Prob = [], ELen = 0, BaseVal = 3\<rparr>,
      \<lparr>Tree = [], Prob = [], ELen = 0, BaseVal = 4\<rparr>,
      \<lparr>Tree = Cat1Tree, Prob = Cat1Prob, ELen = 1, BaseVal = 5\<rparr>,
      \<lparr>Tree = Cat2Tree, Prob = Cat2Prob, ELen = 2, BaseVal = 7\<rparr>,
      \<lparr>Tree = Cat3Tree, Prob = Cat3Prob, ELen = 3, BaseVal = 11\<rparr>,
      \<lparr>Tree = Cat4Tree, Prob = Cat4Prob, ELen = 4, BaseVal = 19\<rparr>,
      \<lparr>Tree = Cat5Tree, Prob = Cat5Prob, ELen = 5, BaseVal = 35\<rparr>,
      \<lparr>Tree = Cat6Tree, Prob = Cat6Prob, ELen = 11, BaseVal = 67\<rparr>,
      \<lparr>Tree = [], Prob = [], ELen = 0, BaseVal = 0\<rparr>]"

subsection \<open>\<^verbatim>\<open>default_coef_probs.go\<close>\<close>

definition DefaultCoefProbs :: "byte list list list list" where
  "DefaultCoefProbs =
   [[[[128, 128, 128, 128, 128, 128, 128, 128, 128, 128, 128], [128, 128, 128, 128, 128, 128,
   128, 128, 128, 128, 128], [128, 128, 128, 128, 128, 128, 128, 128, 128, 128, 128]], [[253,
   136, 254, 255, 228, 219, 128, 128, 128, 128, 128], [189, 129, 242, 255, 227, 213, 255, 219,
   128, 128, 128], [106, 126, 227, 252, 214, 209, 255, 255, 128, 128, 128]], [[1, 98, 248, 255,
   236, 226, 255, 255, 128, 128, 128], [181, 133, 238, 254, 221, 234, 255, 154, 128, 128, 128],
   [78, 134, 202, 247, 198, 180, 255, 219, 128, 128, 128]], [[1, 185, 249, 255, 243, 255, 128,
   128, 128, 128, 128], [184, 150, 247, 255, 236, 224, 128, 128, 128, 128, 128], [77, 110, 216,
   255, 236, 230, 128, 128, 128, 128, 128]], [[1, 101, 251, 255, 241, 255, 128, 128, 128, 128,
   128], [170, 139, 241, 252, 236, 209, 255, 255, 128, 128, 128], [37, 116, 196, 243, 228, 255,
   255, 255, 128, 128, 128]], [[1, 204, 254, 255, 245, 255, 128, 128, 128, 128, 128], [207,
   160, 250, 255, 238, 128, 128, 128, 128, 128, 128], [102, 103, 231, 255, 211, 171, 128, 128,
   128, 128, 128]], [[1, 152, 252, 255, 240, 255, 128, 128, 128, 128, 128], [177, 135, 243,
   255, 234, 225, 128, 128, 128, 128, 128], [80, 129, 211, 255, 194, 224, 128, 128, 128, 128,
   128]], [[1, 1, 255, 128, 128, 128, 128, 128, 128, 128, 128], [246, 1, 255, 128, 128, 128,
   128, 128, 128, 128, 128], [255, 128, 128, 128, 128, 128, 128, 128, 128, 128, 128]]], [[[198,
   35, 237, 223, 193, 187, 162, 160, 145, 155, 62], [131, 45, 198, 221, 172, 176, 220, 157,
   252, 221, 1], [68, 47, 146, 208, 149, 167, 221, 162, 255, 223, 128]], [[1, 149, 241, 255,
   221, 224, 255, 255, 128, 128, 128], [184, 141, 234, 253, 222, 220, 255, 199, 128, 128, 128],
   [81, 99, 181, 242, 176, 190, 249, 202, 255, 255, 128]], [[1, 129, 232, 253, 214, 197, 242,
   196, 255, 255, 128], [99, 121, 210, 250, 201, 198, 255, 202, 128, 128, 128], [23, 91, 163,
   242, 170, 187, 247, 210, 255, 255, 128]], [[1, 200, 246, 255, 234, 255, 128, 128, 128, 128,
   128], [109, 178, 241, 255, 231, 245, 255, 255, 128, 128, 128], [44, 130, 201, 253, 205, 192,
   255, 255, 128, 128, 128]], [[1, 132, 239, 251, 219, 209, 255, 165, 128, 128, 128], [94, 136,
   225, 251, 218, 190, 255, 255, 128, 128, 128], [22, 100, 174, 245, 186, 161, 255, 199, 128,
   128, 128]], [[1, 182, 249, 255, 232, 235, 128, 128, 128, 128, 128], [124, 143, 241, 255,
   227, 234, 128, 128, 128, 128, 128], [35, 77, 181, 251, 193, 211, 255, 205, 128, 128, 128]],
   [[1, 157, 247, 255, 236, 231, 255, 255, 128, 128, 128], [121, 141, 235, 255, 225, 227, 255,
   255, 128, 128, 128], [45, 99, 188, 251, 195, 217, 255, 224, 128, 128, 128]], [[1, 1, 251,
   255, 213, 255, 128, 128, 128, 128, 128], [203, 1, 248, 255, 255, 128, 128, 128, 128, 128,
   128], [137, 1, 177, 255, 224, 255, 128, 128, 128, 128, 128]]], [[[253, 9, 248, 251, 207,
   208, 255, 192, 128, 128, 128], [175, 13, 224, 243, 193, 185, 249, 198, 255, 255, 128], [73,
   17, 171, 221, 161, 179, 236, 167, 255, 234, 128]], [[1, 95, 247, 253, 212, 183, 255, 255,
   128, 128, 128], [239, 90, 244, 250, 211, 209, 255, 255, 128, 128, 128], [155, 77, 195, 248,
   188, 195, 255, 255, 128, 128, 128]], [[1, 24, 239, 251, 218, 219, 255, 205, 128, 128, 128],
   [201, 51, 219, 255, 196, 186, 128, 128, 128, 128, 128], [69, 46, 190, 239, 201, 218, 255,
   228, 128, 128, 128]], [[1, 191, 251, 255, 255, 128, 128, 128, 128, 128, 128], [223, 165,
   249, 255, 213, 255, 128, 128, 128, 128, 128], [141, 124, 248, 255, 255, 128, 128, 128, 128,
   128, 128]], [[1, 16, 248, 255, 255, 128, 128, 128, 128, 128, 128], [190, 36, 230, 255, 236,
   255, 128, 128, 128, 128, 128], [149, 1, 255, 128, 128, 128, 128, 128, 128, 128, 128]], [[1,
   226, 255, 128, 128, 128, 128, 128, 128, 128, 128], [247, 192, 255, 128, 128, 128, 128, 128,
   128, 128, 128], [240, 128, 255, 128, 128, 128, 128, 128, 128, 128, 128]], [[1, 134, 252,
   255, 255, 128, 128, 128, 128, 128, 128], [213, 62, 250, 255, 255, 128, 128, 128, 128, 128,
   128], [55, 93, 255, 128, 128, 128, 128, 128, 128, 128, 128]], [[128, 128, 128, 128, 128,
   128, 128, 128, 128, 128, 128], [128, 128, 128, 128, 128, 128, 128, 128, 128, 128, 128],
   [128, 128, 128, 128, 128, 128, 128, 128, 128, 128, 128]]], [[[202, 24, 213, 235, 186, 191,
   220, 160, 240, 175, 255], [126, 38, 182, 232, 169, 184, 228, 174, 255, 187, 128], [61, 46,
   138, 219, 151, 178, 240, 170, 255, 216, 128]], [[1, 112, 230, 250, 199, 191, 247, 159, 255,
   255, 128], [166, 109, 228, 252, 211, 215, 255, 174, 128, 128, 128], [39, 77, 162, 232, 172,
   180, 245, 178, 255, 255, 128]], [[1, 52, 220, 246, 198, 199, 249, 220, 255, 255, 128], [124,
   74, 191, 243, 183, 193, 250, 221, 255, 255, 128], [24, 71, 130, 219, 154, 170, 243, 182,
   255, 255, 128]], [[1, 182, 225, 249, 219, 240, 255, 224, 128, 128, 128], [149, 150, 226,
   252, 216, 205, 255, 171, 128, 128, 128], [28, 108, 170, 242, 183, 194, 254, 223, 255, 255,
   128]], [[1, 81, 230, 252, 204, 203, 255, 192, 128, 128, 128], [123, 102, 209, 247, 188, 196,
   255, 233, 128, 128, 128], [20, 95, 153, 243, 164, 173, 255, 203, 128, 128, 128]], [[1, 222,
   248, 255, 216, 213, 128, 128, 128, 128, 128], [168, 175, 246, 252, 235, 205, 255, 255, 128,
   128, 128], [47, 116, 215, 255, 211, 212, 255, 255, 128, 128, 128]], [[1, 121, 236, 253, 212,
   214, 255, 255, 128, 128, 128], [141, 84, 213, 252, 201, 202, 255, 219, 128, 128, 128], [42,
   80, 160, 240, 162, 185, 255, 205, 128, 128, 128]], [[1, 1, 255, 128, 128, 128, 128, 128,
   128, 128, 128], [244, 1, 255, 128, 128, 128, 128, 128, 128, 128, 128], [238, 1, 255, 128,
   128, 128, 128, 128, 128, 128, 128]]]]"

subsection \<open>\<^verbatim>\<open>coefupdate.go\<close>\<close>

definition CoefUpdateProbs :: "byte list list list list" where
  "CoefUpdateProbs =
   [[[[255, 255, 255, 255, 255, 255, 255, 255, 255, 255, 255], [255, 255, 255, 255, 255, 255,
   255, 255, 255, 255, 255], [255, 255, 255, 255, 255, 255, 255, 255, 255, 255, 255]], [[176,
   246, 255, 255, 255, 255, 255, 255, 255, 255, 255], [223, 241, 252, 255, 255, 255, 255, 255,
   255, 255, 255], [249, 253, 253, 255, 255, 255, 255, 255, 255, 255, 255]], [[255, 244, 252,
   255, 255, 255, 255, 255, 255, 255, 255], [234, 254, 254, 255, 255, 255, 255, 255, 255, 255,
   255], [253, 255, 255, 255, 255, 255, 255, 255, 255, 255, 255]], [[255, 246, 254, 255, 255,
   255, 255, 255, 255, 255, 255], [239, 253, 254, 255, 255, 255, 255, 255, 255, 255, 255],
   [254, 255, 254, 255, 255, 255, 255, 255, 255, 255, 255]], [[255, 248, 254, 255, 255, 255,
   255, 255, 255, 255, 255], [251, 255, 254, 255, 255, 255, 255, 255, 255, 255, 255], [255,
   255, 255, 255, 255, 255, 255, 255, 255, 255, 255]], [[255, 253, 254, 255, 255, 255, 255,
   255, 255, 255, 255], [251, 254, 254, 255, 255, 255, 255, 255, 255, 255, 255], [254, 255,
   254, 255, 255, 255, 255, 255, 255, 255, 255]], [[255, 254, 253, 255, 254, 255, 255, 255,
   255, 255, 255], [250, 255, 254, 255, 254, 255, 255, 255, 255, 255, 255], [254, 255, 255,
   255, 255, 255, 255, 255, 255, 255, 255]], [[255, 255, 255, 255, 255, 255, 255, 255, 255,
   255, 255], [255, 255, 255, 255, 255, 255, 255, 255, 255, 255, 255], [255, 255, 255, 255,
   255, 255, 255, 255, 255, 255, 255]]], [[[217, 255, 255, 255, 255, 255, 255, 255, 255, 255,
   255], [225, 252, 241, 253, 255, 255, 254, 255, 255, 255, 255], [234, 250, 241, 250, 253,
   255, 253, 254, 255, 255, 255]], [[255, 254, 255, 255, 255, 255, 255, 255, 255, 255, 255],
   [223, 254, 254, 255, 255, 255, 255, 255, 255, 255, 255], [238, 253, 254, 254, 255, 255, 255,
   255, 255, 255, 255]], [[255, 248, 254, 255, 255, 255, 255, 255, 255, 255, 255], [249, 254,
   255, 255, 255, 255, 255, 255, 255, 255, 255], [255, 255, 255, 255, 255, 255, 255, 255, 255,
   255, 255]], [[255, 253, 255, 255, 255, 255, 255, 255, 255, 255, 255], [247, 254, 255, 255,
   255, 255, 255, 255, 255, 255, 255], [255, 255, 255, 255, 255, 255, 255, 255, 255, 255,
   255]], [[255, 253, 254, 255, 255, 255, 255, 255, 255, 255, 255], [252, 255, 255, 255, 255,
   255, 255, 255, 255, 255, 255], [255, 255, 255, 255, 255, 255, 255, 255, 255, 255, 255]],
   [[255, 254, 254, 255, 255, 255, 255, 255, 255, 255, 255], [253, 255, 255, 255, 255, 255,
   255, 255, 255, 255, 255], [255, 255, 255, 255, 255, 255, 255, 255, 255, 255, 255]], [[255,
   254, 253, 255, 255, 255, 255, 255, 255, 255, 255], [250, 255, 255, 255, 255, 255, 255, 255,
   255, 255, 255], [254, 255, 255, 255, 255, 255, 255, 255, 255, 255, 255]], [[255, 255, 255,
   255, 255, 255, 255, 255, 255, 255, 255], [255, 255, 255, 255, 255, 255, 255, 255, 255, 255,
   255], [255, 255, 255, 255, 255, 255, 255, 255, 255, 255, 255]]], [[[186, 251, 250, 255, 255,
   255, 255, 255, 255, 255, 255], [234, 251, 244, 254, 255, 255, 255, 255, 255, 255, 255],
   [251, 251, 243, 253, 254, 255, 254, 255, 255, 255, 255]], [[255, 253, 254, 255, 255, 255,
   255, 255, 255, 255, 255], [236, 253, 254, 255, 255, 255, 255, 255, 255, 255, 255], [251,
   253, 253, 254, 254, 255, 255, 255, 255, 255, 255]], [[255, 254, 254, 255, 255, 255, 255,
   255, 255, 255, 255], [254, 254, 254, 255, 255, 255, 255, 255, 255, 255, 255], [255, 255,
   255, 255, 255, 255, 255, 255, 255, 255, 255]], [[255, 254, 255, 255, 255, 255, 255, 255,
   255, 255, 255], [254, 254, 255, 255, 255, 255, 255, 255, 255, 255, 255], [254, 255, 255,
   255, 255, 255, 255, 255, 255, 255, 255]], [[255, 255, 255, 255, 255, 255, 255, 255, 255,
   255, 255], [254, 255, 255, 255, 255, 255, 255, 255, 255, 255, 255], [255, 255, 255, 255,
   255, 255, 255, 255, 255, 255, 255]], [[255, 255, 255, 255, 255, 255, 255, 255, 255, 255,
   255], [255, 255, 255, 255, 255, 255, 255, 255, 255, 255, 255], [255, 255, 255, 255, 255,
   255, 255, 255, 255, 255, 255]], [[255, 255, 255, 255, 255, 255, 255, 255, 255, 255, 255],
   [255, 255, 255, 255, 255, 255, 255, 255, 255, 255, 255], [255, 255, 255, 255, 255, 255, 255,
   255, 255, 255, 255]], [[255, 255, 255, 255, 255, 255, 255, 255, 255, 255, 255], [255, 255,
   255, 255, 255, 255, 255, 255, 255, 255, 255], [255, 255, 255, 255, 255, 255, 255, 255, 255,
   255, 255]]], [[[248, 255, 255, 255, 255, 255, 255, 255, 255, 255, 255], [250, 254, 252, 254,
   255, 255, 255, 255, 255, 255, 255], [248, 254, 249, 253, 255, 255, 255, 255, 255, 255,
   255]], [[255, 253, 253, 255, 255, 255, 255, 255, 255, 255, 255], [246, 253, 253, 255, 255,
   255, 255, 255, 255, 255, 255], [252, 254, 251, 254, 254, 255, 255, 255, 255, 255, 255]],
   [[255, 254, 252, 255, 255, 255, 255, 255, 255, 255, 255], [248, 254, 253, 255, 255, 255,
   255, 255, 255, 255, 255], [253, 255, 254, 254, 255, 255, 255, 255, 255, 255, 255]], [[255,
   251, 254, 255, 255, 255, 255, 255, 255, 255, 255], [245, 251, 254, 255, 255, 255, 255, 255,
   255, 255, 255], [253, 253, 254, 255, 255, 255, 255, 255, 255, 255, 255]], [[255, 251, 253,
   255, 255, 255, 255, 255, 255, 255, 255], [252, 253, 254, 255, 255, 255, 255, 255, 255, 255,
   255], [255, 254, 255, 255, 255, 255, 255, 255, 255, 255, 255]], [[255, 252, 255, 255, 255,
   255, 255, 255, 255, 255, 255], [249, 255, 254, 255, 255, 255, 255, 255, 255, 255, 255],
   [255, 255, 254, 255, 255, 255, 255, 255, 255, 255, 255]], [[255, 255, 253, 255, 255, 255,
   255, 255, 255, 255, 255], [250, 255, 255, 255, 255, 255, 255, 255, 255, 255, 255], [255,
   255, 255, 255, 255, 255, 255, 255, 255, 255, 255]], [[255, 255, 255, 255, 255, 255, 255,
   255, 255, 255, 255], [254, 255, 255, 255, 255, 255, 255, 255, 255, 255, 255], [255, 255,
   255, 255, 255, 255, 255, 255, 255, 255, 255]]]]"

subsection \<open>\<^verbatim>\<open>modes.go\<close>\<close>

definition DefaultYModeProbs :: "byte list" where
  "DefaultYModeProbs =
   [112, 86, 140, 37]"

definition KeyFrameYModeProbs :: "byte list" where
  "KeyFrameYModeProbs =
   [145, 156, 163, 128]"

definition DefaultUVModeProbs :: "byte list" where
  "DefaultUVModeProbs =
   [162, 101, 204]"

definition KeyFrameUVModeProbs :: "byte list" where
  "KeyFrameUVModeProbs =
   [142, 114, 183]"

definition DefaultBModeProbs :: "byte list" where
  "DefaultBModeProbs =
   [120, 90, 79, 133, 87, 85, 80, 111, 151]"

definition InterModeContexts :: "byte list list" where
  "InterModeContexts =
   [[7, 1, 1, 143], [14, 18, 14, 107], [135, 64, 57, 68], [60, 56, 128, 65], [159, 134, 128,
   34], [234, 188, 128, 28]]"

definition SubMVRefProb2 :: "byte list list" where
  "SubMVRefProb2 =
   [[147, 136, 18], [106, 145, 1], [179, 121, 1], [223, 1, 34], [208, 1, 1]]"

definition SubMVRefProb3 :: "byte list list" where
  "SubMVRefProb3 =
   [[147, 136, 18], [223, 1, 34], [106, 145, 1], [208, 1, 1], [179, 121, 1], [223, 1, 34],
   [179, 121, 1], [208, 1, 1]]"

definition MBSplits :: "nat list list" where
  "MBSplits =
   [[0, 0, 0, 0, 0, 0, 0, 0, 1, 1, 1, 1, 1, 1, 1, 1], [0, 0, 1, 1, 0, 0, 1, 1, 0, 0, 1, 1, 0,
   0, 1, 1], [0, 0, 1, 1, 0, 0, 1, 1, 2, 2, 3, 3, 2, 2, 3, 3], [0, 1, 2, 3, 4, 5, 6, 7, 8, 9,
   10, 11, 12, 13, 14, 15]]"

definition MBSplitCount :: "nat list" where
  "MBSplitCount =
   [2, 2, 4, 16]"

definition MBSplitProbs :: "byte list" where
  "MBSplitProbs =
   [110, 111, 150]"

definition MBSplitOffset :: "nat list list" where
  "MBSplitOffset =
   [[0, 8, 0, 0, 0, 0, 0, 0, 0, 0, 0, 0, 0, 0, 0, 0], [0, 2, 0, 0, 0, 0, 0, 0, 0, 0, 0, 0, 0,
   0, 0, 0], [0, 2, 8, 10, 0, 0, 0, 0, 0, 0, 0, 0, 0, 0, 0, 0], [0, 1, 2, 3, 4, 5, 6, 7, 8, 9,
   10, 11, 12, 13, 14, 15]]"

definition MBSplitFillCount :: "nat list" where
  "MBSplitFillCount =
   [8, 8, 4, 1]"

definition MBSplitFillOffset :: "nat list list" where
  "MBSplitFillOffset =
   [[0, 1, 2, 3, 4, 5, 6, 7, 8, 9, 10, 11, 12, 13, 14, 15], [0, 1, 4, 5, 8, 9, 12, 13, 2, 3, 6,
   7, 10, 11, 14, 15], [0, 1, 4, 5, 2, 3, 6, 7, 8, 9, 12, 13, 10, 11, 14, 15], [0, 1, 2, 3, 4,
   5, 6, 7, 8, 9, 10, 11, 12, 13, 14, 15]]"

definition BModeTree :: "int list" where
  "BModeTree =
   [0, 2, -1, 4, -2, 6, 8, 12, -3, 10, -5, -6, -4, 14, -7, 16, -8, -9]"

definition YModeTree :: "int list" where
  "YModeTree =
   [0, 2, 4, 6, -1, -2, -3, -4]"

definition KeyFrameYModeTree :: "int list" where
  "KeyFrameYModeTree =
   [-4, 2, 4, 6, 0, -1, -2, -3]"

definition UVModeTree :: "int list" where
  "UVModeTree =
   [0, 2, -1, 4, -2, -3]"

definition MBSplitTree :: "int list" where
  "MBSplitTree =
   [-3, 2, -2, 4, 0, -1]"

definition MVRefTree :: "int list" where
  "MVRefTree =
   [-7, 2, -5, 4, -6, 6, -8, -9]"

definition SubMVRefTree :: "int list" where
  "SubMVRefTree =
   [-10, 2, -11, 4, -12, -13]"

definition SmallMVTree :: "int list" where
  "SmallMVTree =
   [2, 8, 4, 6, 0, -1, -2, -3, 10, 12, -4, -5, -6, -7]"

subsection \<open>\<^verbatim>\<open>keyframe_bmode_probs.go\<close>\<close>

definition KeyFrameBModeProbs :: "byte list list list" where
  "KeyFrameBModeProbs =
   [[[231, 120, 48, 89, 115, 113, 120, 152, 112], [152, 179, 64, 126, 170, 118, 46, 70, 95],
   [175, 69, 143, 80, 85, 82, 72, 155, 103], [56, 58, 10, 171, 218, 189, 17, 13, 152], [144,
   71, 10, 38, 171, 213, 144, 34, 26], [114, 26, 17, 163, 44, 195, 21, 10, 173], [121, 24, 80,
   195, 26, 62, 44, 64, 85], [170, 46, 55, 19, 136, 160, 33, 206, 71], [63, 20, 8, 114, 114,
   208, 12, 9, 226], [81, 40, 11, 96, 182, 84, 29, 16, 36]], [[134, 183, 89, 137, 98, 101, 106,
   165, 148], [72, 187, 100, 130, 157, 111, 32, 75, 80], [66, 102, 167, 99, 74, 62, 40, 234,
   128], [41, 53, 9, 178, 241, 141, 26, 8, 107], [104, 79, 12, 27, 217, 255, 87, 17, 7], [74,
   43, 26, 146, 73, 166, 49, 23, 157], [65, 38, 105, 160, 51, 52, 31, 115, 128], [87, 68, 71,
   44, 114, 51, 15, 186, 23], [47, 41, 14, 110, 182, 183, 21, 17, 194], [66, 45, 25, 102, 197,
   189, 23, 18, 22]], [[88, 88, 147, 150, 42, 46, 45, 196, 205], [43, 97, 183, 117, 85, 38, 35,
   179, 61], [39, 53, 200, 87, 26, 21, 43, 232, 171], [56, 34, 51, 104, 114, 102, 29, 93, 77],
   [107, 54, 32, 26, 51, 1, 81, 43, 31], [39, 28, 85, 171, 58, 165, 90, 98, 64], [34, 22, 116,
   206, 23, 34, 43, 166, 73], [68, 25, 106, 22, 64, 171, 36, 225, 114], [34, 19, 21, 102, 132,
   188, 16, 76, 124], [62, 18, 78, 95, 85, 57, 50, 48, 51]], [[193, 101, 35, 159, 215, 111, 89,
   46, 111], [60, 148, 31, 172, 219, 228, 21, 18, 111], [112, 113, 77, 85, 179, 255, 38, 120,
   114], [40, 42, 1, 196, 245, 209, 10, 25, 109], [100, 80, 8, 43, 154, 1, 51, 26, 71], [88,
   43, 29, 140, 166, 213, 37, 43, 154], [61, 63, 30, 155, 67, 45, 68, 1, 209], [142, 78, 78,
   16, 255, 128, 34, 197, 171], [41, 40, 5, 102, 211, 183, 4, 1, 221], [51, 50, 17, 168, 209,
   192, 23, 25, 82]], [[125, 98, 42, 88, 104, 85, 117, 175, 82], [95, 84, 53, 89, 128, 100,
   113, 101, 45], [75, 79, 123, 47, 51, 128, 81, 171, 1], [57, 17, 5, 71, 102, 57, 53, 41, 49],
   [115, 21, 2, 10, 102, 255, 166, 23, 6], [38, 33, 13, 121, 57, 73, 26, 1, 85], [41, 10, 67,
   138, 77, 110, 90, 47, 114], [101, 29, 16, 10, 85, 128, 101, 196, 26], [57, 18, 10, 102, 102,
   213, 34, 20, 43], [117, 20, 15, 36, 163, 128, 68, 1, 26]], [[138, 31, 36, 171, 27, 166, 38,
   44, 229], [67, 87, 58, 169, 82, 115, 26, 59, 179], [63, 59, 90, 180, 59, 166, 93, 73, 154],
   [40, 40, 21, 116, 143, 209, 34, 39, 175], [57, 46, 22, 24, 128, 1, 54, 17, 37], [47, 15, 16,
   183, 34, 223, 49, 45, 183], [46, 17, 33, 183, 6, 98, 15, 32, 183], [65, 32, 73, 115, 28,
   128, 23, 128, 205], [40, 3, 9, 115, 51, 192, 18, 6, 223], [87, 37, 9, 115, 59, 77, 64, 21,
   47]], [[104, 55, 44, 218, 9, 54, 53, 130, 226], [64, 90, 70, 205, 40, 41, 23, 26, 57], [54,
   57, 112, 184, 5, 41, 38, 166, 213], [30, 34, 26, 133, 152, 116, 10, 32, 134], [75, 32, 12,
   51, 192, 255, 160, 43, 51], [39, 19, 53, 221, 26, 114, 32, 73, 255], [31, 9, 65, 234, 2, 15,
   1, 118, 73], [88, 31, 35, 67, 102, 85, 55, 186, 85], [56, 21, 23, 111, 59, 205, 45, 37,
   192], [55, 38, 70, 124, 73, 102, 1, 34, 98]], [[102, 61, 71, 37, 34, 53, 31, 243, 192], [69,
   60, 71, 38, 73, 119, 28, 222, 37], [68, 45, 128, 34, 1, 47, 11, 245, 171], [62, 17, 19, 70,
   146, 85, 55, 62, 70], [75, 15, 9, 9, 64, 255, 184, 119, 16], [37, 43, 37, 154, 100, 163, 85,
   160, 1], [63, 9, 92, 136, 28, 64, 32, 201, 85], [86, 6, 28, 5, 64, 255, 25, 248, 1], [56, 8,
   17, 132, 137, 255, 55, 116, 128], [58, 15, 20, 82, 135, 57, 26, 121, 40]], [[164, 50, 31,
   137, 154, 133, 25, 35, 218], [51, 103, 44, 131, 131, 123, 31, 6, 158], [86, 40, 64, 135,
   148, 224, 45, 183, 128], [22, 26, 17, 131, 240, 154, 14, 1, 209], [83, 12, 13, 54, 192, 255,
   68, 47, 28], [45, 16, 21, 91, 64, 222, 7, 1, 197], [56, 21, 39, 155, 60, 138, 23, 102, 213],
   [85, 26, 85, 85, 128, 128, 32, 146, 171], [18, 11, 7, 63, 144, 171, 4, 4, 246], [35, 27, 10,
   146, 174, 171, 12, 26, 128]], [[190, 80, 35, 99, 180, 80, 126, 54, 45], [85, 126, 47, 87,
   176, 51, 41, 20, 32], [101, 75, 128, 139, 118, 146, 116, 128, 85], [56, 41, 15, 176, 236,
   85, 37, 9, 62], [146, 36, 19, 30, 171, 255, 97, 27, 20], [71, 30, 17, 119, 118, 255, 17, 18,
   138], [101, 38, 60, 138, 55, 70, 43, 26, 142], [138, 45, 61, 62, 219, 1, 81, 188, 64], [32,
   41, 20, 117, 151, 142, 20, 21, 163], [112, 19, 12, 61, 195, 128, 48, 4, 24]]]"

subsection \<open>\<^verbatim>\<open>mv.go\<close>\<close>

definition MVUpdateProbs :: "byte list list" where
  "MVUpdateProbs =
   [[237, 246, 253, 253, 254, 254, 254, 254, 254, 254, 254, 254, 254, 254, 250, 250, 252, 254,
   254], [231, 243, 245, 253, 254, 254, 254, 254, 254, 254, 254, 254, 254, 254, 251, 251, 254,
   254, 254]]"

definition DefaultMVContext :: "byte list list" where
  "DefaultMVContext =
   [[162, 128, 225, 146, 172, 147, 214, 39, 156, 128, 129, 132, 75, 145, 178, 206, 239, 254,
   254], [164, 128, 204, 170, 119, 235, 140, 230, 228, 128, 130, 130, 74, 148, 180, 203, 236,
   254, 254]]"

subsection \<open>\<^verbatim>\<open>filter.go\<close>\<close>

definition BilinearFilters :: "int list list" where
  "BilinearFilters =
   [[128, 0], [112, 16], [96, 32], [80, 48], [64, 64], [48, 80], [32, 96], [16, 112]]"

definition SubPelFilters :: "int list list" where
  "SubPelFilters =
   [[0, 0, 128, 0, 0, 0], [0, -6, 123, 12, -1, 0], [2, -11, 108, 36, -8, 1], [0, -9, 93, 50,
   -6, 0], [3, -16, 77, 77, -16, 3], [0, -6, 50, 93, -9, 0], [1, -8, 36, 108, -11, 2], [0, -1,
   12, 123, -6, 0]]"

subsection \<open>\<^verbatim>\<open>prob_cost.go\<close>\<close>

definition ProbCost :: "nat list" where
  "ProbCost =
   [2047, 2047, 1791, 1641, 1535, 1452, 1385, 1328, 1279, 1235, 1196, 1161, 1129, 1099, 1072,
   1046, 1023, 1000, 979, 959, 940, 922, 905, 889, 873, 858, 843, 829, 816, 803, 790, 778, 767,
   755, 744, 733, 723, 713, 703, 693, 684, 675, 666, 657, 649, 641, 633, 625, 617, 609, 602,
   594, 587, 580, 573, 567, 560, 553, 547, 541, 534, 528, 522, 516, 511, 505, 499, 494, 488,
   483, 477, 472, 467, 462, 457, 452, 447, 442, 437, 433, 428, 424, 419, 415, 410, 406, 401,
   397, 393, 389, 385, 381, 377, 373, 369, 365, 361, 357, 353, 349, 346, 342, 338, 335, 331,
   328, 324, 321, 317, 314, 311, 307, 304, 301, 297, 294, 291, 288, 285, 281, 278, 275, 272,
   269, 266, 263, 260, 257, 255, 252, 249, 246, 243, 240, 238, 235, 232, 229, 227, 224, 221,
   219, 216, 214, 211, 208, 206, 203, 201, 198, 196, 194, 191, 189, 186, 184, 181, 179, 177,
   174, 172, 170, 168, 165, 163, 161, 159, 156, 154, 152, 150, 148, 145, 143, 141, 139, 137,
   135, 133, 131, 129, 127, 125, 123, 121, 119, 117, 115, 113, 111, 109, 107, 105, 103, 101,
   99, 97, 95, 93, 92, 90, 88, 86, 84, 82, 81, 79, 77, 75, 73, 72, 70, 68, 66, 65, 63, 61, 60,
   58, 56, 55, 53, 51, 50, 48, 46, 45, 43, 41, 40, 38, 37, 35, 33, 32, 30, 29, 27, 25, 24, 22,
   21, 19, 18, 16, 15, 13, 12, 10, 9, 7, 6, 4, 3, 1, 1]"


section \<open>Facts about the tables\<close>

lemma length_BoolNorm [simp]: "length BoolNorm = 256"
  by (simp add: BoolNorm_def)

lemma BoolNorm_table: "tl BoolNorm = map norm [1..<256]"
  by code_simp

text \<open>Every positive range is looked up to its normalisation shift.\<close>

lemma BoolNorm_norm: "1 \<le> r \<Longrightarrow> r < 256 \<Longrightarrow> BoolNorm ! r = norm r"
proof -
  assume r: "1 \<le> r" "r < 256"
  then have "BoolNorm ! r = tl BoolNorm ! (r - 1)" by (simp add: nth_tl)
  also have "\<dots> = norm r" using r by (simp add: BoolNorm_table)
  finally show ?thesis .
qed

text \<open>The zig-zag order visits each of the sixteen positions once.\<close>

lemma DefaultZigZag1D_perm: "distinct DefaultZigZag1D" "set DefaultZigZag1D = {..<16}"
  by (simp add: DefaultZigZag1D_def, code_simp)

lemma length_DefaultZigZag1D [simp]: "length DefaultZigZag1D = 16"
  by (simp add: DefaultZigZag1D_def)

lemma DefaultZigZag1D_lt: "i < 16 \<Longrightarrow> DefaultZigZag1D ! i < 16"
  using DefaultZigZag1D_perm(2) nth_mem [of i DefaultZigZag1D] by auto

lemma DefaultZigZag1D_inj: "i < 16 \<Longrightarrow> j < 16 \<Longrightarrow> DefaultZigZag1D ! i = DefaultZigZag1D ! j \<longleftrightarrow> i = j"
  using DefaultZigZag1D_perm(1) by (simp add: nth_eq_iff_index_eq)

end
