(* ===== verification/Vp8_Bool_Writer.thy ===== *)
theory Vp8_Bool_Writer
  imports Coder_Tail Vp8_Tables
begin

text \<open>
  The VP8 boolean encoder, \<^verbatim>\<open>internal/vp8/encoder/boolwriter.go\<close>: the \<open>BoolWriter\<close> record,
  its operations on 32-bit registers, and the proof that it is a \<open>bool_writer\<close>. A bit is a
  \<open>byte\<close> of which the code looks at the lowest bit. The destination slice is a list of fixed
  length written by index; \<open>pos\<close> is the write position.
\<close>

section \<open>State and operations\<close>

abbreviation boolWriterErrBufferTooSmall :: byte where
  "boolWriterErrBufferTooSmall \<equiv> 1"

record BoolWriter =
  w_buf :: "byte list"
  w_count :: int
  w_pos :: nat
  w_low :: u32
  w_rng :: u32
  w_err :: byte

definition Writer_Init :: "byte list \<Rightarrow> BoolWriter" where
  "Writer_Init dst = \<lparr>w_buf = dst, w_count = -24, w_pos = 0, w_low = 0, w_rng = 255, w_err = 0\<rparr>"

text \<open>
  The carry loop of \<open>propagateCarry\<close>: from index \<open>n - 1\<close> downwards, \<open>0xff\<close> bytes become 0
  until a byte can be incremented; \<open>None\<close> is the loop running off the front.
\<close>

fun carry_loop :: "byte list \<Rightarrow> nat \<Rightarrow> byte list \<times> nat" where
  "carry_loop buf 0 = (buf, 0)"
| "carry_loop buf (Suc x) = (if buf ! x = 0xff then carry_loop (buf[x := 0]) x else (buf, Suc x))"

definition propagateCarry :: "BoolWriter \<Rightarrow> BoolWriter" where
  "propagateCarry w = (case carry_loop (w_buf w) (w_pos w) of
     (buf, 0) \<Rightarrow> w\<lparr>w_buf := buf, w_err := boolWriterErrBufferTooSmall\<rparr>
   | (buf, Suc x) \<Rightarrow> w\<lparr>w_buf := buf[x := buf ! x + 1]\<rparr>)"

text \<open>\<open>tables.BoolNorm[byte(rng)] & 7\<close>, the shift of the writers.\<close>

definition writer_shift :: "u32 \<Rightarrow> nat" where
  "writer_shift rng = BoolNorm ! unat (ucast rng :: byte) AND 7"

text \<open>
  The tail that \<open>WriteBit\<close>, \<open>WriteBool\<close>, \<open>WriteLiteral\<close> and the tree and token packers share:
  normalise the range and, when a byte is complete, resolve the carry and emit it.
\<close>

definition write_tail :: "BoolWriter \<Rightarrow> u32 \<Rightarrow> u32 \<Rightarrow> BoolWriter" where
  "write_tail w low rng =
     (let shift = writer_shift rng;
          rng = push_bit shift rng;
          count = w_count w + int shift
      in if count \<ge> 0 then
           let offset = nat (int shift - count);
               w = (if push_bit (offset - 1) low AND 0x80000000 \<noteq> 0 then propagateCarry w else w)
           in if w_err w \<noteq> 0 then w
              else if w_pos w \<ge> length (w_buf w) then w\<lparr>w_err := boolWriterErrBufferTooSmall\<rparr>
              else
                let buf = (w_buf w)[w_pos w := ucast (drop_bit (24 - offset) low AND 0xff)];
                    tailShift = nat count;
                    low = push_bit offset low AND 0xffffff;
                    count = count - 8;
                    low = push_bit tailShift low
                in w\<lparr>w_buf := buf, w_pos := w_pos w + 1, w_low := low, w_rng := rng, w_count := count\<rparr>
         else w\<lparr>w_low := push_bit shift low, w_rng := rng, w_count := count\<rparr>)"

definition WriteBit :: "BoolWriter \<Rightarrow> byte \<Rightarrow> BoolWriter" where
  "WriteBit w b = (if w_err w \<noteq> 0 then w else
     let rng = w_rng w; split = drop_bit 1 (rng + 1); low = w_low w
     in if b AND 1 = 0 then write_tail w low split
        else write_tail w (low + split) (rng - split))"

definition WriteBool :: "BoolWriter \<Rightarrow> byte \<Rightarrow> byte \<Rightarrow> BoolWriter" where
  "WriteBool w b probability = (if w_err w \<noteq> 0 then w else
     let rng = w_rng w; split = 1 + drop_bit 8 ((rng - 1) * ucast probability); low = w_low w
     in if b AND 1 = 0 then write_tail w low split
        else write_tail w (low + split) (rng - split))"

text \<open>
  \<open>WriteLiteral\<close> codes bits \<open>bits - 1\<close> down to 0 of \<open>value\<close>; its loop keeps the registers in
  locals and leaves on the first error, when the registers of \<open>w\<close> still hold their values
  at entry.
\<close>

fun write_literal_loop :: "BoolWriter \<Rightarrow> u32 \<Rightarrow> nat \<Rightarrow> BoolWriter" where
  "write_literal_loop w v 0 = w"
| "write_literal_loop w v (Suc n) =
     (let w = (let rng = w_rng w; split = drop_bit 1 (rng + 1); low = w_low w
               in if drop_bit n v AND 1 = 0 then write_tail w low split
                  else write_tail w (low + split) (rng - split))
      in if w_err w \<noteq> 0 then w else write_literal_loop w v n)"

definition WriteLiteral :: "BoolWriter \<Rightarrow> u32 \<Rightarrow> int \<Rightarrow> BoolWriter" where
  "WriteLiteral w v bits =
     (if bits \<le> 0 \<or> w_err w \<noteq> 0 then w else
        let w' = write_literal_loop w v (nat bits)
        in if w_err w' \<noteq> 0
           then w'\<lparr>w_low := w_low w, w_rng := w_rng w, w_count := w_count w\<rparr> else w')"

definition Finish :: "BoolWriter \<Rightarrow> BoolWriter" where
  "Finish w = WriteLiteral w 0 32"

definition BytesWritten :: "BoolWriter \<Rightarrow> nat" where
  "BytesWritten w = w_pos w"

definition Bytes :: "BoolWriter \<Rightarrow> byte list" where
  "Bytes w = take (w_pos w) (w_buf w)"

datatype writer_error = ErrBufferTooSmall

definition Writer_Err :: "BoolWriter \<Rightarrow> writer_error option" where
  "Writer_Err w = (if w_err w = 0 then None else Some ErrBufferTooSmall)"

section \<open>The fixed-probability writer is the general one\<close>

lemma half_split:
  fixes rng :: u32
  assumes "1 \<le> unat rng" "unat rng \<le> 256"
  shows "drop_bit 1 (rng + 1) = 1 + drop_bit 8 ((rng - 1) * 128)"
proof -
  define x where "x = (rng - 1) * 128"
  have a: "unat (rng + 1) = unat rng + 1"
    using unat_add_nowrap [of rng 1] assms by simp
  have b: "unat (rng - 1) = unat rng - 1"
    using unat_sub_nowrap [of 1 rng] assms by simp
  have c: "unat x = (unat rng - 1) * 128"
    using unat_mult_nowrap [of "rng - 1" 128] assms b unfolding x_def by simp
  have "unat x div 256 < 2 ^ 10" using c assms by simp
  then have d: "unat (1 + drop_bit 8 x) = 1 + unat x div 256"
    using unat_add_nowrap [of 1 "drop_bit 8 x"] by (simp add: unat_drop_bit)
  have "(unat rng + 1) div 2 = 1 + unat x div 256"
    using assms(1) unfolding c by (cases "unat rng") auto
  then have "unat (drop_bit 1 (rng + 1)) = unat (1 + drop_bit 8 x)"
    using a d by (simp add: unat_drop_bit)
  then show ?thesis unfolding x_def by (rule unsigned_word_eqI)
qed

section \<open>The shared tail is the writer machine's step\<close>

lemma writer_shift_norm:
  assumes "1 \<le> unat rng" "unat rng \<le> 255"
  shows "writer_shift rng = norm (unat rng)"
proof -
  have "norm (unat rng) AND 7 = take_bit 3 (norm (unat rng))"
    by (simp add: take_bit_eq_mask mask_eq_exp_minus_1)
  then have "norm (unat rng) AND 7 = norm (unat rng)"
    using norm_le [of "unat rng"] by (simp add: take_bit_eq_mod)
  then show ?thesis
    using BoolNorm_norm [of "unat rng"] assms
    by (simp add: writer_shift_def unat_ucast_byte)
qed

lemma inc_bytes_snoc:
  "inc_bytes (bs @ [b]) = (if b = 255 then inc_bytes bs @ [0] else bs @ [b + 1])"
  by (simp add: inc_bytes_def)

text \<open>Unless every byte before it is \<open>0xff\<close>, the carry loop increments the number they form.\<close>

lemma carry_loop_inc:
  assumes "n \<le> length buf" "be_val (take n buf) + 1 < 256 ^ n"
  shows "\<exists>buf' x. carry_loop buf n = (buf', Suc x) \<and>
    take n (buf'[x := buf' ! x + 1]) = inc_bytes (take n buf) \<and> length buf' = length buf \<and> x < n"
  using assms
proof (induction n arbitrary: buf)
  case 0
  then show ?case by simp
next
  case (Suc n)
  have tk: "take (Suc n) xs = take n xs @ [xs ! n]" if "length xs = length buf" for xs :: "byte list"
    using Suc.prems(1) that by (intro take_Suc_conv_app_nth) simp
  show ?case
  proof (cases "buf ! n = 255")
    case True
    define buf1 where "buf1 = buf[n := 0]"
    have "unat (255 :: byte) = 255" by simp
    then have "be_val (take n buf1) + 1 < 256 ^ n"
      using Suc.prems(2) True tk [of buf] by (simp add: buf1_def be_val_snoc)
    then obtain buf' x where l: "carry_loop buf1 n = (buf', Suc x)" "length buf' = length buf" "x < n"
      and t: "take n (buf'[x := buf' ! x + 1]) = inc_bytes (take n buf1)"
      using Suc.IH [of buf1] Suc.prems(1) by (auto simp: buf1_def)
    have keep: "carry_loop b m = (b', y) \<Longrightarrow> m \<le> n \<Longrightarrow> b' ! n = b ! n" for b m b' y
      by (induction b m rule: carry_loop.induct) (auto split: if_splits)
    then have "buf'[x := buf' ! x + 1] ! n = 0"
      using keep [OF l(1)] l(3) Suc.prems(1) by (simp add: buf1_def)
    then show ?thesis
      using l t True tk [of buf] tk [of "buf'[x := buf' ! x + 1]"]
      by (auto simp: buf1_def inc_bytes_snoc)
  next
    case False
    then show ?thesis
      using Suc.prems(1) tk [of buf] tk [of "buf[n := buf ! n + 1]"]
      by (auto simp: inc_bytes_snoc)
  qed
qed

lemma propagateCarry_inc:
  assumes "w_pos w \<le> length (w_buf w)" "be_val (take (w_pos w) (w_buf w)) + 1 < 256 ^ w_pos w"
  shows "\<exists>buf. propagateCarry w = w\<lparr>w_buf := buf\<rparr> \<and>
    take (w_pos w) buf = inc_bytes (take (w_pos w) (w_buf w)) \<and> length buf = length (w_buf w)"
  using carry_loop_inc [OF assms] by (auto simp: propagateCarry_def)

lemma tail_carry_test:
  fixes low :: u32
  assumes "j < 24" "unat low < 2 ^ (9 + j)"
  shows "push_bit (23 - j) low AND 0x80000000 \<noteq> 0 \<longleftrightarrow> 2 ^ (8 + j) \<le> unat low"
proof -
  have e: "(0x80000000 :: u32) = 2 ^ 31" by simp
  have "push_bit (23 - j) low AND 0x80000000 \<noteq> 0 \<longleftrightarrow> bit (push_bit (23 - j) low) 31"
    unfolding e and_exp_eq_0_iff_not_bit by simp
  also have "\<dots> \<longleftrightarrow> bit (unat low) (8 + j)"
    using assms(1) by (simp add: bit_push_bit_iff bit_unsigned_iff le_diff_conv)
  also have "\<dots> \<longleftrightarrow> unat low div 2 ^ (8 + j) = 1"
  proof -
    have "unat low div 2 ^ (8 + j) < 2"
      using assms(2) by (simp add: power_add less_mult_imp_div_less mult.commute)
    then show ?thesis by (auto simp: bit_iff_odd less_2_cases_iff)
  qed
  also have "\<dots> \<longleftrightarrow> 2 ^ (8 + j) \<le> unat low"
  proof -
    have "unat low div 2 ^ (8 + j) < 2"
      using assms(2) by (simp add: power_add less_mult_imp_div_less mult.commute)
    moreover have "1 \<le> unat low div 2 ^ (8 + j) \<longleftrightarrow> 2 ^ (8 + j) \<le> unat low"
      by (simp add: less_eq_div_iff_mult_less_eq)
    ultimately show ?thesis by linarith
  qed
  finally show ?thesis .
qed

lemma unat_and_low:
  fixes x :: "'a::len word"
  assumes "m = mask n"
  shows "unat (x AND m) = unat x mod 2 ^ n"
  unfolding assms by (rule unat_and_mask)

lemma tail_byte:
  "(ucast (drop_bit j low AND 0xff :: u32) :: byte) = word_of_nat (unat low div 2 ^ j)"
proof (rule unsigned_word_eqI [where 'a = nat])
  have "(0xff :: u32) = mask 8" by (simp add: mask_eq_exp_minus_1)
  then show "unat (ucast (drop_bit j low AND 0xff) :: byte) = unat (word_of_nat (unat low div 2 ^ j) :: byte)"
    by (simp add: unat_ucast_byte unat_and_low unat_drop_bit unat_of_nat)
qed

lemma tail_low:
  fixes low :: u32
  assumes "j < 24" "24 \<le> j + n" "n \<le> 7"
  shows "unat (push_bit (j + n - 24) (push_bit (24 - j) low AND 0xffffff)) = unat low mod 2 ^ j * 2 ^ n"
proof -
  have m: "(0xffffff :: u32) = mask 24" by (simp add: mask_eq_exp_minus_1)
  have "unat (push_bit (24 - j) low) = take_bit LENGTH(32) (push_bit (24 - j) (unat low))"
    by (rule unsigned_push_bit_eq)
  also have "\<dots> = unat low * 2 ^ (24 - j) mod 2 ^ 32"
    by (simp add: push_bit_eq_mult take_bit_eq_mod)
  finally have "unat (push_bit (24 - j) low AND 0xffffff) = unat low * 2 ^ (24 - j) mod 2 ^ 32 mod 2 ^ 24"
    by (simp add: unat_and_low [OF m])
  also have "\<dots> = unat low * 2 ^ (24 - j) mod 2 ^ 24"
    by (rule mod_mod_cancel) (simp add: le_imp_power_dvd)
  also have "(2::nat) ^ 24 = 2 ^ j * 2 ^ (24 - j)"
    using assms(1) by (simp flip: power_add)
  finally have x: "unat (push_bit (24 - j) low AND 0xffffff) = unat low mod 2 ^ j * 2 ^ (24 - j)"
    by (simp only: mult_mod_left)
  have lt: "unat low mod 2 ^ j * 2 ^ (24 - j) < 2 ^ 24"
  proof -
    have "unat low mod 2 ^ j * 2 ^ (24 - j) < 2 ^ j * 2 ^ (24 - j)" by simp
    then show ?thesis using assms(1) by (simp flip: power_add)
  qed
  have "(2::nat) ^ (j + n - 24) \<le> 2 ^ 6" using assms by (intro power_increasing) auto
  then have "unat low mod 2 ^ j * 2 ^ (24 - j) * 2 ^ (j + n - 24) < 2 ^ 32"
    using lt mult_mono [of "unat low mod 2 ^ j * 2 ^ (24 - j)" "2 ^ 24" "2 ^ (j + n - 24)" "2 ^ 6"] by simp
  then have "unat (push_bit (j + n - 24) (push_bit (24 - j) low AND 0xffffff))
      = unat low mod 2 ^ j * 2 ^ (24 - j) * 2 ^ (j + n - 24)"
    by (subst unat_push_bit) (simp_all add: x)
  also have "\<dots> = unat low mod 2 ^ j * 2 ^ n"
    using assms by (simp add: mult.assoc flip: power_add)
  finally show ?thesis .
qed

lemma tail_rng:
  fixes rng :: u32
  assumes "1 \<le> unat rng" "unat rng \<le> 255"
  shows "unat (push_bit (norm (unat rng)) rng) = unat rng * 2 ^ norm (unat rng)"
  using norm_bounds [OF assms] by (intro unat_push_bit) simp

lemma tail_small:
  fixes low :: u32
  assumes "j + n < 24" "unat low < 2 ^ (9 + j)"
  shows "unat (push_bit n low) = unat low * 2 ^ n"
proof (rule unat_push_bit)
  have "unat low * 2 ^ n < 2 ^ (9 + j) * 2 ^ n" using assms(2) by simp
  also have "\<dots> = 2 ^ (9 + j + n)" by (simp add: power_add)
  also have "\<dots> \<le> 2 ^ 32" using assms(1) by (intro power_increasing) auto
  finally show "unat low * 2 ^ n < 2 ^ LENGTH(32)" by simp
qed


section \<open>The code's writer is a writer of bits\<close>

text \<open>
  What the registers stand for. A \<open>count\<close> below -24 or a position past the buffer is no state
  of the code and has no machine counterpart (24 shifts are not \<open>wok\<close>).
\<close>

definition writer_view :: "BoolWriter \<Rightarrow> wmach" where
  "writer_view w = (take (w_pos w) (w_buf w), unat (w_low w), unat (w_rng w),
     if -24 \<le> w_count w \<and> w_pos w \<le> length (w_buf w) then nat (w_count w + 24) else 24)"

definition writer_put :: "BoolWriter \<Rightarrow> bool \<Rightarrow> byte \<Rightarrow> BoolWriter" where
  "writer_put w b p = WriteBool w (of_bool b) p"

lemma write_tail_short:
  assumes "w_count w = int j - 24" "1 \<le> unat rng" "unat rng \<le> 255" "j + norm (unat rng) < 24"
  shows "write_tail w low rng = w\<lparr>w_low := push_bit (norm (unat rng)) low,
    w_rng := push_bit (norm (unat rng)) rng, w_count := int (j + norm (unat rng)) - 24\<rparr>"
  using assms by (simp add: write_tail_def writer_shift_norm Let_def)

lemma write_tail_emit:
  fixes low :: u32
  assumes w: "w_err w = 0" "w_count w = int j - 24" "j < 24" "w_pos w \<le> length (w_buf w)"
    and r: "1 \<le> unat rng" "unat rng \<le> 255" and n: "n = norm (unat rng)" and ge: "24 \<le> j + n"
    and low: "unat low < 2 ^ (9 + j)"
    and carry: "2 ^ (8 + j) \<le> unat low \<Longrightarrow> be_val (take (w_pos w) (w_buf w)) + 1 < 256 ^ w_pos w"
  shows "w_err (write_tail w low rng) = (if w_pos w < length (w_buf w) then 0 else 1)"
    and "length (w_buf (write_tail w low rng)) = length (w_buf w)"
    and "w_pos w < length (w_buf w) \<Longrightarrow> writer_view (write_tail w low rng)
      = ((if 2 ^ (8 + j) \<le> unat low then inc_bytes (take (w_pos w) (w_buf w)) else take (w_pos w) (w_buf w))
           @ [word_of_nat (unat low div 2 ^ j)],
         unat low mod 2 ^ j * 2 ^ n, unat rng * 2 ^ n, j + n - 8)"
proof -
  define out where "out = (if 2 ^ (8 + j) \<le> unat low then inc_bytes (take (w_pos w) (w_buf w)) else take (w_pos w) (w_buf w))"
  have n7: "n \<le> 7" by (simp add: n norm_le)
  obtain buf where b: "(if push_bit (23 - j) low AND 0x80000000 \<noteq> 0 then propagateCarry w else w) = w\<lparr>w_buf := buf\<rparr>"
    "take (w_pos w) buf = out" "length buf = length (w_buf w)"
  proof (cases "2 ^ (8 + j) \<le> unat low")
    case True
    then show ?thesis
      using that propagateCarry_inc [OF w(4) carry] tail_carry_test [OF w(3) low]
      unfolding out_def by auto
  next
    case False
    then show ?thesis
      using that [of "w_buf w"] tail_carry_test [OF w(3) low] by (simp add: out_def)
  qed
  have off: "nat (int n - (w_count w + int n)) = 24 - j" "24 - j - 1 = 23 - j" "24 - (24 - j) = j"
    "nat (w_count w + int n) = j + n - 24"
    "0 \<le> w_count w + int n"
    using w(2,3) ge by (simp_all add: nat_diff_distrib)
  have shift: "writer_shift rng = n" using r by (simp add: n writer_shift_norm)
  have tail: "write_tail w low rng =
      (if w_pos w \<ge> length buf then w\<lparr>w_buf := buf, w_err := 1\<rparr>
       else w\<lparr>w_buf := buf[w_pos w := word_of_nat (unat low div 2 ^ j)], w_pos := w_pos w + 1,
         w_low := push_bit (j + n - 24) (push_bit (24 - j) low AND 0xffffff),
         w_rng := push_bit n rng, w_count := w_count w + int n - 8\<rparr>)"
    unfolding write_tail_def Let_def shift off b(1) tail_byte using off(5) w(1) by simp
  show "w_err (write_tail w low rng) = (if w_pos w < length (w_buf w) then 0 else 1)"
    "length (w_buf (write_tail w low rng)) = length (w_buf w)"
    unfolding tail using w(1) b(3) by auto
  assume lt: "w_pos w < length (w_buf w)"
  have "take (w_pos w + 1) (buf[w_pos w := x]) = out @ [x]" for x
    using lt b(2,3) take_Suc_conv_app_nth [of "w_pos w" "buf[w_pos w := x]"]
    by (simp add: take_update_beyond)
  moreover have "nat (w_count w + int n - 8 + 24) = j + n - 8" using w(2) ge by simp
  moreover have "-24 \<le> w_count w + int n - 8" using w(2) ge by simp
  ultimately show "writer_view (write_tail w low rng)
      = (out @ [word_of_nat (unat low div 2 ^ j)], unat low mod 2 ^ j * 2 ^ n, unat rng * 2 ^ n, j + n - 8)"
    unfolding tail writer_view_def
    using lt b(3) tail_low [OF w(3) ge n7] tail_rng [OF r, folded n] by simp
qed

text \<open>The sizes and the error flag, on any state.\<close>

lemma carry_loop_length: "length (fst (carry_loop buf n)) = length buf"
  by (induction buf n rule: carry_loop.induct) auto

lemma propagateCarry_length [simp]: "length (w_buf (propagateCarry w)) = length (w_buf w)"
  using carry_loop_length [of "w_buf w" "w_pos w"]
  by (auto simp: propagateCarry_def split: prod.splits nat.splits)

lemma write_tail_length [simp]: "length (w_buf (write_tail w low rng)) = length (w_buf w)"
  by (simp add: write_tail_def Let_def)

lemma WriteBool_length [simp]: "length (w_buf (WriteBool w b p)) = length (w_buf w)"
  by (simp add: WriteBool_def Let_def)

lemma WriteBool_narrow:
  assumes w: "w_err w = 0" and ok: "wok (writer_view w)"
  obtains low R j low' R' low1 rng1 where
    "writer_view w = (take (w_pos w) (w_buf w), low, R, j)" "w_count w = int j - 24" "j < 24"
    "w_pos w \<le> length (w_buf w)" "narrow (low, R, j) b (unat p) = (low', R', j)"
    "writer_put w b p = write_tail w low1 rng1" "unat low1 = low'" "unat rng1 = R'"
proof -
  define j where "j = nat (w_count w + 24)"
  define low where "low = unat (w_low w)"
  define R where "R = unat (w_rng w)"
  have v: "writer_view w = (take (w_pos w) (w_buf w), low, R, j)" and pos: "w_pos w \<le> length (w_buf w)"
    and j: "w_count w = int j - 24" "j < 24" and R: "128 \<le> R" "R \<le> 255"
    and bound: "low + R \<le> wbound (take (w_pos w) (w_buf w)) j"
    using ok by (auto simp: writer_view_def wok_def j_def low_def R_def split: if_splits)
  define sp where "sp = 1 + drop_bit 8 ((w_rng w - 1) * ucast p)"
  have sp: "unat sp = split_of R (unat p)"
    unfolding sp_def R_def using R by (intro split_unat) (simp_all add: R_def)
  have spb: "split_of R (unat p) < R"
    using split_of_bounds [of R "unat p"] R unat_byte_le by auto
  have "low + R < 2 ^ 32" using bound wbound_32 [OF j(2)] by (rule le_less_trans)
  then have "unat (w_low w + sp) = low + split_of R (unat p)"
    using unat_add_nowrap [of "w_low w" sp] sp spb by (simp add: low_def)
  moreover have "unat (w_rng w - sp) = R - split_of R (unat p)"
    using unat_sub_nowrap [of sp "w_rng w"] sp spb by (simp add: R_def)
  ultimately show ?thesis
    using that [OF v j pos, of _ _ "if b then w_low w + sp else w_low w" "if b then w_rng w - sp else sp"] w sp
    by (cases b) (auto simp: narrow_def writer_put_def WriteBool_def sp_def low_def Let_def)
qed

lemma WriteBool_step:
  assumes w: "w_err w = 0" and ok: "wok (writer_view w)" and r: "wrel (writer_view w) s" and wf: "wf_ival s"
  shows "w_err (writer_put w b p) \<noteq> 0 \<longleftrightarrow> length (w_buf w) < length (fst (wput (writer_view w) b (unat p)))"
    and "w_err (writer_put w b p) = 0 \<Longrightarrow> writer_view (writer_put w b p) = wput (writer_view w) b (unat p)"
proof -
  obtain low R j low' R' low1 rng1 where v: "writer_view w = (take (w_pos w) (w_buf w), low, R, j)"
    and j: "w_count w = int j - 24" "j < 24" and pos: "w_pos w \<le> length (w_buf w)"
    and n: "narrow (low, R, j) b (unat p) = (low', R', j)"
    and put: "writer_put w b p = write_tail w low1 rng1" and l1: "unat low1 = low'" "unat rng1 = R'"
    using WriteBool_narrow [OF w ok, of b p] by metis
  note nr = wok_narrow [OF ok [unfolded v] unat_byte_le n]
  have "(w_err (writer_put w b p) \<noteq> 0 \<longleftrightarrow> length (w_buf w) < length (fst (wput (writer_view w) b (unat p)))) \<and>
    (w_err (writer_put w b p) = 0 \<longrightarrow> writer_view (writer_put w b p) = wput (writer_view w) b (unat p))"
  proof (cases "j + norm R' < 24")
    case True
    have "writer_put w b p = w\<lparr>w_low := push_bit (norm R') low1, w_rng := push_bit (norm R') rng1,
        w_count := int (j + norm R') - 24\<rparr>"
      unfolding put using write_tail_short [OF j(1), of rng1] nr True l1 by simp
    then show ?thesis
      using w v pos True tail_small [of j "norm R'" low1] tail_rng [of rng1] nr l1
      by (auto simp: wput_def n writer_view_def Let_def)
  next
    case False
    have carry: "be_val (take (w_pos w) (w_buf w)) + 1 < 256 ^ w_pos w" if "2 ^ (8 + j) \<le> unat low1"
      using carry_room [OF r [unfolded v] wf unat_byte_le n] that l1 pos by simp
    note emit = write_tail_emit [OF w j pos _ _ refl _ _ carry, of rng1]
    show ?thesis
      unfolding put using emit nr False l1 pos v by (auto simp: wput_def n Let_def not_less)
  qed
  then show "w_err (writer_put w b p) \<noteq> 0 \<longleftrightarrow> length (w_buf w) < length (fst (wput (writer_view w) b (unat p)))"
    "w_err (writer_put w b p) = 0 \<Longrightarrow> writer_view (writer_put w b p) = wput (writer_view w) b (unat p)"
    by auto
qed

lemma writer_put_failed: "w_err w \<noteq> 0 \<Longrightarrow> writer_put w b p = w"
  by (simp add: writer_put_def WriteBool_def)

lemma writer_put_length [simp]: "length (w_buf (writer_put w b p)) = length (w_buf w)"
  by (simp add: writer_put_def)

interpretation vp8w: bool_writer writer_put writer_view "\<lambda>w. w_err w \<noteq> 0" "\<lambda>w. length (w_buf w)"
proof unfold_locales
  fix w :: BoolWriter and b :: bool and p :: byte and s :: ival
  show "w_err w \<noteq> 0 \<Longrightarrow> w_err (writer_put w b p) \<noteq> 0" by (simp add: writer_put_failed)
  show "length (w_buf (writer_put w b p)) = length (w_buf w)" by simp
  assume a: "\<not> w_err w \<noteq> 0" "wok (writer_view w)" "wrel (writer_view w) s" "wf_ival s"
  show "w_err (writer_put w b p) \<noteq> 0 \<longleftrightarrow> length (w_buf w) < length (fst (wput (writer_view w) b (unat p)))"
    using WriteBool_step(1) a by simp
  assume "\<not> w_err (writer_put w b p) \<noteq> 0"
  then show "writer_view (writer_put w b p) = wput (writer_view w) b (unat p)"
    using WriteBool_step(2) a by simp
qed

end
