(* ===== verification/Vp8_Bool_Decoder.thy ===== *)
theory Vp8_Bool_Decoder
  imports Coder_Tail Vp8_Tables "HOL-Library.State_Monad"
begin

text \<open>
  The VP8 boolean decoder, \<^verbatim>\<open>internal/vp8/boolcoder/decoder.go\<close>: the \<open>Decoder\<close> record, the
  window refill in its batched and its byte-wise form, the bit, literal and probability-update
  readers, and the proof that it is a \<open>bool_reader\<close>. An operation of the code is a state
  transformer of the \<open>Decoder\<close>; a decoded bit (the code's \<open>uint8\<close> 0 or 1) is a \<open>bool\<close>.
\<close>

section \<open>State and operations\<close>

record Decoder =
  d_buf :: "byte list"
  d_pos :: nat
  d_value :: u64
  d_count :: int
  d_rng :: u32

abbreviation valueSize :: int where
  "valueSize \<equiv> 64"

abbreviation lotsOfBits :: int where
  "lotsOfBits \<equiv> 0x40000000"

text \<open>\<open>binary.BigEndian.Uint64\<close> of the first eight bytes.\<close>

definition BigEndian_Uint64 :: "byte list \<Rightarrow> u64" where
  "BigEndian_Uint64 bs = word_of_nat (be_val (take 8 bs))"

text \<open>The batched refill, taken when more than eight bytes remain.\<close>

definition fill_batched :: "Decoder \<Rightarrow> int \<Rightarrow> Decoder" where
  "fill_batched d shift =
     (let big = BigEndian_Uint64 (drop (d_pos d) (d_buf d));
          consumed = shift div 8 + 1
      in d\<lparr>d_value := d_value d OR
             (drop_bit (nat (56 - shift) AND 63) big AND NOT (push_bit (nat shift AND 7) 1 - 1)),
           d_count := d_count d + consumed * 8,
           d_pos := d_pos d + nat consumed\<rparr>)"

text \<open>The byte loop: one byte per step from \<open>shift\<close> down to \<open>loopEnd\<close>.\<close>

function fill_loop :: "Decoder \<Rightarrow> int \<Rightarrow> int \<Rightarrow> Decoder" where
  "fill_loop d shift loopEnd =
     (if shift \<ge> loopEnd then
        fill_loop (d\<lparr>d_count := d_count d + 8,
          d_value := d_value d OR push_bit (nat shift AND 63) (ucast (d_buf d ! d_pos d)),
          d_pos := d_pos d + 1\<rparr>) (shift - 8) loopEnd
      else d)"
  by pat_completeness auto

termination
  by (relation "measure (\<lambda>(d, shift, loopEnd). nat (shift - loopEnd + 1))") auto

declare fill_loop.simps [simp del]

definition fill_bytes :: "Decoder \<Rightarrow> Decoder" where
  "fill_bytes d =
     (let shift = valueSize - 8 - (d_count d + 8);
          bitsLeft = (ilen (d_buf d) - int (d_pos d)) * 8;
          x = shift + 8 - bitsLeft;
          d' = (if x \<ge> 0 then d\<lparr>d_count := d_count d + lotsOfBits\<rparr> else d);
          loopEnd = (if x \<ge> 0 then x else 0)
      in if x < 0 \<or> bitsLeft \<noteq> 0 then fill_loop d' shift loopEnd else d')"

definition fill :: "Decoder \<Rightarrow> Decoder" where
  "fill d =
     (let shift = valueSize - 8 - (d_count d + 8);
          bytesLeft = ilen (d_buf d) - int (d_pos d)
      in if bytesLeft > 8 then fill_batched d shift else fill_bytes d)"

definition Decoder_Init :: "byte list \<Rightarrow> Decoder" where
  "Decoder_Init src = fill \<lparr>d_buf = src, d_pos = 0, d_value = 0, d_count = -8, d_rng = 255\<rparr>"

text \<open>
  The decision all readers share: compare the window with the scaled split, keep the upper or
  the lower part, and normalise by the shift of \<open>BoolNorm\<close>.
\<close>

definition decide :: "u32 \<Rightarrow> Decoder \<Rightarrow> bool \<times> Decoder" where
  "decide split d =
     (let rng0 = d_rng d;
          bigsplit = push_bit 56 (ucast split) :: u64;
          b = (d_value d \<ge> bigsplit);
          value = (if b then d_value d - bigsplit else d_value d);
          rng = (if b then rng0 - split else split);
          shift = BoolNorm ! unat (ucast rng :: byte)
      in (b, d\<lparr>d_value := push_bit (shift AND 63) value, d_count := d_count d - int shift,
               d_rng := push_bit (shift AND 31) rng\<rparr>))"

definition ReadBool :: "byte \<Rightarrow> (Decoder, bool) state" where
  "ReadBool prob = State (\<lambda>d.
     let split = 1 + drop_bit 8 ((d_rng d - 1) * ucast prob);
         d = (if d_count d < 0 then fill d else d)
     in decide split d)"

definition ReadBit :: "(Decoder, bool) state" where
  "ReadBit = State (\<lambda>d.
     let split = drop_bit 1 (d_rng d + 1);
         d = (if d_count d < 0 then fill d else d)
     in decide split d)"

fun read_literal_loop :: "u32 \<Rightarrow> nat \<Rightarrow> (Decoder, u32) state" where
  "read_literal_loop v 0 = State_Monad.return v"
| "read_literal_loop v (Suc n) = do {
     b \<leftarrow> ReadBit;
     read_literal_loop (v OR push_bit n (of_bool b)) n
   }"

definition ReadLiteral :: "int \<Rightarrow> (Decoder, u32) state" where
  "ReadLiteral bits = read_literal_loop 0 (nat bits)"

datatype decoder_error = ErrTruncated

definition Decoder_Err :: "Decoder \<Rightarrow> decoder_error option" where
  "Decoder_Err d = (if d_count d > valueSize \<and> d_count d < lotsOfBits then Some ErrTruncated else None)"

definition Corrupted :: "Decoder \<Rightarrow> bool" where
  "Corrupted d = (Decoder_Err d \<noteq> None)"

text \<open>
  \<open>ReadCoefUpdateProbsInto\<close> inlines the readers on registers: its update flag takes the split
  of probability 255 directly, its refill is the byte loop only.
\<close>

definition update_flag :: "byte \<Rightarrow> (Decoder, bool) state" where
  "update_flag prob = State (\<lambda>d.
     let rng0 = d_rng d;
         split = (if prob \<noteq> 255 then 1 + drop_bit 8 ((rng0 - 1) * ucast prob) else rng0 - 1);
         d = (if d_count d < 0 then fill_bytes d else d)
     in decide split d)"

definition update_bit :: "(Decoder, bool) state" where
  "update_bit = State (\<lambda>d.
     let split = drop_bit 1 (d_rng d + 1);
         d = (if d_count d < 0 then fill_bytes d else d)
     in decide split d)"

fun update_literal :: "u32 \<Rightarrow> nat \<Rightarrow> (Decoder, u32) state" where
  "update_literal lit 0 = State_Monad.return lit"
| "update_literal lit (Suc k) = do {
     b \<leftarrow> update_bit;
     update_literal (lit OR push_bit k (of_bool b)) k
   }"

text \<open>\<open>probs\<close> is the flat table, \<open>None\<close> for the code's nil; the loop returns it updated.\<close>

fun coef_update_loop ::
  "byte list \<Rightarrow> nat \<Rightarrow> nat \<Rightarrow> nat \<Rightarrow> byte list option \<Rightarrow> nat \<Rightarrow> bool
     \<Rightarrow> (Decoder, byte list option \<times> nat \<times> bool) state" where
  "coef_update_loop [] i nodesPerCtx ctxsPerBand probs n ind = State_Monad.return (probs, n, ind)"
| "coef_update_loop (prob # ps) i nodesPerCtx ctxsPerBand probs n ind = do {
     b \<leftarrow> update_flag prob;
     if \<not> b then coef_update_loop ps (i + 1) nodesPerCtx ctxsPerBand probs n ind
     else do {
       lit \<leftarrow> update_literal 0 8;
       coef_update_loop ps (i + 1) nodesPerCtx ctxsPerBand
         (map_option (\<lambda>t. t[i := ucast lit]) probs) (n + 1)
         (if i div nodesPerCtx mod ctxsPerBand \<noteq> 0 then True else ind)
     }
   }"

definition ReadCoefUpdateProbsInto ::
  "byte list \<Rightarrow> byte list option \<Rightarrow> nat \<Rightarrow> nat \<Rightarrow> (Decoder, byte list option \<times> nat \<times> bool) state" where
  "ReadCoefUpdateProbsInto updateProbs probs nodesPerCtx ctxsPerBand =
     coef_update_loop updateProbs 0 nodesPerCtx ctxsPerBand probs 0 False"

section \<open>Both refills are the machine's\<close>

lemma and_63: "n \<le> 63 \<Longrightarrow> n AND 63 = (n :: nat)"
proof -
  assume "n \<le> 63"
  moreover have "n AND 63 = take_bit 6 n" by (simp add: take_bit_eq_mask mask_eq_exp_minus_1)
  ultimately show ?thesis by (simp add: take_bit_eq_mod)
qed

lemma or_byte:
  fixes v :: u64
  assumes "2 ^ (n + 8) dvd unat v" "n \<le> 56"
  shows "unat (v OR push_bit n (ucast (b :: byte))) = unat v + unat b * 2 ^ n"
proof -
  have b: "unat (ucast b :: u64) = unat b" by (rule unat_ucast_up) simp
  have lt: "unat b * 2 ^ n < 2 ^ (n + 8)" using unat_byte_lt [of b] by (simp add: power_add)
  also have "\<dots> \<le> 2 ^ 64" using assms(2) by (intro power_increasing) auto
  finally have "unat (push_bit n (ucast b :: u64)) = unat b * 2 ^ n"
    using unat_push_bit [of "ucast b :: u64" n] b by simp
  then show ?thesis using unat_or_disjoint [OF assms(1), of "push_bit n (ucast b)"] lt by simp
qed

lemma fill_loop_value:
  assumes "d_pos d + m \<le> length (d_buf d)" "2 ^ (s + 8 * m) dvd unat (d_value d)" "s + 8 * m \<le> 64"
    and "loopEnd \<le> int s" "int s < loopEnd + 8" and shift: "shift = int s + 8 * int m - 8"
  shows "\<exists>v. fill_loop d shift loopEnd
      = d\<lparr>d_count := d_count d + 8 * int m, d_value := v, d_pos := d_pos d + m\<rparr>
    \<and> unat v = unat (d_value d) + be_val (take m (drop (d_pos d) (d_buf d))) * 2 ^ s"
  using assms
proof (induction m arbitrary: d shift)
  case 0
  then show ?case by (intro exI [of _ "d_value d"]) (simp add: fill_loop.simps)
next
  case (Suc m)
  define b where "b = d_buf d ! d_pos d"
  define n where "n = s + 8 * m"
  define v1 where "v1 = d_value d OR push_bit n (ucast b)"
  define d1 where "d1 = d\<lparr>d_count := d_count d + 8, d_value := v1, d_pos := d_pos d + 1\<rparr>"
  have n: "nat shift = n" "n \<le> 56" "loopEnd \<le> shift" "n AND 63 = n"
    using Suc.prems(3,4,6) and_63 [of n] by (simp_all add: n_def)
  have "2 ^ (n + 8) dvd unat (d_value d)" using Suc.prems(2) by (simp add: n_def algebra_simps)
  from or_byte [OF this n(2)] have v1: "unat v1 = unat (d_value d) + unat b * 2 ^ n"
    by (simp only: v1_def)
  have dv: "2 ^ n dvd unat v1"
  proof -
    have "2 ^ n dvd unat (d_value d)"
      by (rule dvd_trans [OF _ Suc.prems(2)]) (simp add: n_def le_imp_power_dvd)
    then show ?thesis by (simp add: v1)
  qed
  have step: "fill_loop d shift loopEnd = fill_loop d1 (shift - 8) loopEnd"
    using n by (subst fill_loop.simps) (simp add: d1_def v1_def b_def)
  obtain v where f: "fill_loop d1 (shift - 8) loopEnd
      = d1\<lparr>d_count := d_count d1 + 8 * int m, d_value := v, d_pos := d_pos d1 + m\<rparr>"
    and v: "unat v = unat v1 + be_val (take m (drop (d_pos d + 1) (d_buf d))) * 2 ^ s"
    using Suc.IH [of d1 "shift - 8"] Suc.prems dv by (auto simp: d1_def n_def)
  have "drop (d_pos d) (d_buf d) = b # drop (d_pos d + 1) (d_buf d)"
    using Suc.prems(1) by (simp add: b_def Cons_nth_drop_Suc)
  then have "be_val (take (Suc m) (drop (d_pos d) (d_buf d))) * 2 ^ s
      = unat b * 2 ^ n + be_val (take m (drop (d_pos d + 1) (d_buf d))) * 2 ^ s"
    using Suc.prems(1) by (simp add: n_def pow_256 power_add algebra_simps)
  then show ?case
    using step f v v1 by (intro exI [of _ v]) (simp add: d1_def)
qed

text \<open>What the window holds before a refill: nothing below its \<open>8 + count\<close> top bits.\<close>

definition fillable :: "Decoder \<Rightarrow> bool" where
  "fillable d \<longleftrightarrow> -8 \<le> d_count d \<and> d_count d < 0 \<and> d_pos d \<le> length (d_buf d) \<and>
     (d_pos d < length (d_buf d) \<longrightarrow> 2 ^ nat (56 - d_count d) dvd unat (d_value d))"

definition filled :: "Decoder \<Rightarrow> Decoder \<Rightarrow> bool" where
  "filled d d' \<longleftrightarrow> d' = d\<lparr>d_count := d_count d', d_value := d_value d', d_pos := d_pos d'\<rparr> \<and>
     (unat (d_value d'), d_count d', d_pos d') = rfill (d_buf d) (unat (d_value d), d_count d, d_pos d)"

lemma rfill_many:
  assumes "sh = nat (48 - c)" "left = length bs - pos" "sh + 8 < 8 * left" "m = sh div 8 + 1"
  shows "rfill bs (v, c, pos) = (v + be_val (take m (drop pos bs)) * 2 ^ (sh + 8 - 8 * m), c + 8 * int m, pos + m)"
  using assms(3) unfolding rfill_def assms by (simp add: Let_def)

lemma rfill_few:
  assumes "sh = nat (48 - c)" "left = length bs - pos" "8 * left \<le> sh + 8"
  shows "rfill bs (v, c, pos) = (v + be_val (take left (drop pos bs)) * 2 ^ (sh + 8 - 8 * left),
    c + 8 * int left + lots_of_bits, pos + left)"
  using assms(3) unfolding rfill_def assms by (simp add: Let_def)

lemma fill_bytes_filled:
  assumes "fillable d"
  shows "filled d (fill_bytes d)"
proof -
  define left where "left = length (d_buf d) - d_pos d"
  define sh where "sh = nat (48 - d_count d)"
  have f: "-8 \<le> d_count d" "d_count d < 0" "d_pos d \<le> length (d_buf d)"
    using assms by (auto simp: fillable_def)
  then have e: "nat (56 - d_count d) = sh + 8" by (simp add: sh_def nat_diff_distrib)
  have dv: "2 ^ (sh + 8) dvd unat (d_value d)" if "d_pos d < length (d_buf d)"
    using assms that unfolding fillable_def e by blast
  have sh: "int sh = 48 - d_count d" "49 \<le> sh" "sh \<le> 56" using f by (auto simp: sh_def)
  have il: "ilen (d_buf d) - int (d_pos d) = int left" using f(3) by (simp add: left_def)
  consider "left = 0" | "0 < left" "8 * left \<le> sh + 8" | "sh + 8 < 8 * left" by linarith
  then show ?thesis
  proof cases
    case 1
    then have "d_pos d = length (d_buf d)" using f(3) by (simp add: left_def)
    moreover have "fill_bytes d = d\<lparr>d_count := d_count d + lotsOfBits\<rparr>"
      unfolding fill_bytes_def Let_def il using 1 f(1,2) by simp
    ultimately show ?thesis
      using rfill_few [OF sh_def left_def] 1 by (simp add: filled_def lots_of_bits_def)
  next
    case 2
    define d1 where "d1 = d\<lparr>d_count := d_count d + lotsOfBits\<rparr>"
    define s where "s = sh + 8 - 8 * left"
    have s: "s + 8 * left = sh + 8" "int sh + 8 - int left * 8 = int s" using 2 by (simp_all add: s_def)
    have "d_pos d1 + left \<le> length (d_buf d1)" using f(3) by (simp add: d1_def left_def)
    moreover have "2 ^ (s + 8 * left) dvd unat (d_value d1)"
      unfolding s(1) using 2(1) dv by (simp add: d1_def left_def)
    ultimately obtain v where "fill_loop d1 (int sh) (int sh + 8 - int left * 8)
        = d1\<lparr>d_count := d_count d1 + 8 * int left, d_value := v, d_pos := d_pos d1 + left\<rparr>"
      and v: "unat v = unat (d_value d) + be_val (take left (drop (d_pos d) (d_buf d))) * 2 ^ s"
      using fill_loop_value [of d1 left s "int s" "int sh"] s sh(3) by (auto simp: d1_def)
    moreover have "fill_bytes d = fill_loop d1 (int sh) (int sh + 8 - int left * 8)"
      unfolding fill_bytes_def Let_def il using 2 sh(1) by (simp add: d1_def)
    ultimately show ?thesis
      using rfill_few [OF sh_def left_def 2(2)] v
      by (simp add: filled_def lots_of_bits_def d1_def s_def)
  next
    case 3
    define m where "m = sh div 8 + 1"
    have m: "m \<le> left" "8 * m \<le> sh + 8" "sh < 8 * m" using 3 by (auto simp: m_def)
    have pos: "d_pos d < length (d_buf d)" "d_pos d + m \<le> length (d_buf d)" using 3 m(1) by (auto simp: left_def)
    define s where "s = sh + 8 - 8 * m"
    have s: "s + 8 * m = sh + 8" "s < 8" using m by (simp_all add: s_def)
    have "2 ^ (s + 8 * m) dvd unat (d_value d)"
      unfolding s(1) using pos(1) by (rule dv)
    then obtain v where "fill_loop d (int sh) 0
        = d\<lparr>d_count := d_count d + 8 * int m, d_value := v, d_pos := d_pos d + m\<rparr>"
      and v: "unat v = unat (d_value d) + be_val (take m (drop (d_pos d) (d_buf d))) * 2 ^ s"
      using fill_loop_value [of d m s 0 "int sh"] pos(2) s sh(3) by auto
    moreover have "fill_bytes d = fill_loop d (int sh) 0"
      unfolding fill_bytes_def Let_def il using 3 sh(1) by simp
    ultimately show ?thesis
      using rfill_many [OF sh_def left_def 3 m_def] v by (simp add: filled_def s_def)
  qed
qed

lemma unat_clear_low: "unat ((x :: 'a::len word) AND NOT (push_bit n 1 - 1)) = unat x div 2 ^ n * 2 ^ n"
proof -
  have "push_bit n 1 - 1 = (mask n :: 'a word)" by (simp add: mask_eq_exp_minus_1)
  moreover have "x AND NOT (mask n) = push_bit n (drop_bit n x)"
    by (rule bit_eqI) (auto simp: bit_simps)
  moreover have "unat x div 2 ^ n * 2 ^ n < 2 ^ LENGTH('a)"
    using unsigned_less [of x] div_times_less_eq_dividend [of "unat x" "2 ^ n"] le_less_trans by blast
  then have "unat (push_bit n (drop_bit n x)) = unat x div 2 ^ n * 2 ^ n"
    using unat_push_bit [of "drop_bit n x" n] by (simp add: unat_drop_bit)
  ultimately show ?thesis by simp
qed

text \<open>The batched load masks exactly the bytes the loop would take.\<close>

lemma batched_word:
  assumes "8 \<le> length bs" "49 \<le> sh" "sh \<le> 56"
  shows "unat (drop_bit (56 - sh) (BigEndian_Uint64 bs) AND NOT (push_bit (sh mod 8) 1 - 1))
    = be_val (take (sh div 8 + 1) bs) * 2 ^ (sh mod 8)"
proof -
  define m where "m = sh div 8 + 1"
  have m: "m \<le> 8" "56 - sh + sh mod 8 = 8 * (8 - m)"
    using assms(2,3) unfolding m_def by presburger+
  have len: "length (take 8 bs) = 8" using assms(1) by simp
  have "be_val (take 8 bs) < 2 ^ 64"
    using be_val_bound [of "take 8 bs"] len by simp
  then have big: "unat (BigEndian_Uint64 bs) = be_val (take 8 bs)"
    by (simp add: BigEndian_Uint64_def unat_of_nat)
  have "be_val (take 8 bs) div 2 ^ (56 - sh) div 2 ^ (sh mod 8) = be_val (take 8 bs) div 256 ^ (8 - m)"
    unfolding pow_256 m(2) [symmetric] power_add by (rule div_mult2_eq [symmetric])
  also have "\<dots> = be_val (take m (take 8 bs))"
    using be_val_take_div [of m "take 8 bs"] len by simp
  also have "take m (take 8 bs) = take m bs" using m(1) by (simp add: min_absorb1)
  finally show ?thesis unfolding unat_clear_low unat_drop_bit big m_def by (rule arg_cong)
qed

lemma fill_batched_filled:
  assumes "fillable d" "d_pos d + 8 < length (d_buf d)"
  shows "filled d (fill_batched d (48 - d_count d))"
proof -
  define left where "left = length (d_buf d) - d_pos d"
  define sh where "sh = nat (48 - d_count d)"
  have f: "-8 \<le> d_count d" "d_count d < 0" using assms(1) by (auto simp: fillable_def)
  have sh: "int sh = 48 - d_count d" "49 \<le> sh" "sh \<le> 56" "nat (56 - d_count d) = sh + 8"
    using f by (auto simp: sh_def nat_diff_distrib)
  have dv: "2 ^ (sh + 8) dvd unat (d_value d)"
    using assms unfolding fillable_def sh(4) by auto
  have big: "unat (drop_bit (56 - sh) (BigEndian_Uint64 (drop (d_pos d) (d_buf d))) AND NOT (push_bit (sh mod 8) 1 - 1))
      = be_val (take (sh div 8 + 1) (drop (d_pos d) (d_buf d))) * 2 ^ (sh mod 8)" (is "unat ?w = ?x")
    using assms(2) sh by (intro batched_word) auto
  have "?x < 256 ^ (sh div 8 + 1) * 2 ^ (sh mod 8)"
    using be_val_bound [of "take (sh div 8 + 1) (drop (d_pos d) (d_buf d))"] assms(2) sh by simp
  also have "\<dots> = 2 ^ (8 * (sh div 8 + 1) + sh mod 8)"
    unfolding pow_256 by (rule power_add [symmetric])
  also have "8 * (sh div 8 + 1) + sh mod 8 = sh + 8" by presburger
  finally have "unat (d_value d OR ?w) = unat (d_value d) + ?x"
    using unat_or_disjoint [OF dv, of ?w] big by simp
  moreover have "nat (56 - (48 - d_count d)) AND 63 = 56 - sh" "nat (48 - d_count d) AND 7 = sh mod 8"
    "(48 - d_count d) div 8 + 1 = int (sh div 8 + 1)"
  proof -
    have e: "nat (56 - (48 - d_count d)) = 56 - sh" "nat (48 - d_count d) = sh" using sh by linarith+
    show "nat (56 - (48 - d_count d)) AND 63 = 56 - sh" unfolding e using and_63 [of "56 - sh"] by simp
    have "sh AND 7 = take_bit 3 sh" by (simp add: take_bit_eq_mask mask_eq_exp_minus_1)
    then show "nat (48 - d_count d) AND 7 = sh mod 8" unfolding e by (simp add: take_bit_eq_mod)
    show "(48 - d_count d) div 8 + 1 = int (sh div 8 + 1)"
      using sh(1) by (simp add: zdiv_int flip: sh(1))
  qed
  moreover have "sh + 8 - 8 * (sh div 8 + 1) = sh mod 8" by presburger
  moreover have "sh + 8 < 8 * left" using assms(2) sh(3) by (simp add: left_def)
  ultimately show ?thesis
    using rfill_many [OF sh_def left_def _ refl]
    by (simp add: filled_def fill_batched_def Let_def nat_add_distrib del: of_nat_add of_nat_Suc)
qed

lemma fill_filled: "fillable d \<Longrightarrow> filled d (fill d)"
  using fill_bytes_filled [of d] fill_batched_filled [of d] by (auto simp: fill_def Let_def)

lemma filled_unique: "filled d d1 \<Longrightarrow> filled d d2 \<Longrightarrow> d1 = d2"
  by (auto simp: filled_def word_unat_eq_iff [symmetric] dest!: sym [of "(_, _, _)" "rfill _ _"])

lemma fill_eq_fill_bytes: "fillable d \<Longrightarrow> fill d = fill_bytes d"
  using filled_unique fill_filled fill_bytes_filled by blast

section \<open>The code's reader is a reader of bits\<close>

definition reader_view :: "Decoder \<Rightarrow> rmach" where
  "reader_view d = (unat (d_value d), d_count d, unat (d_rng d), d_pos d)"

definition reader_get :: "Decoder \<Rightarrow> byte \<Rightarrow> bool \<times> Decoder" where
  "reader_get d p = run_state (ReadBool p) d"

lemma rsafe_fillable:
  "rsafe (d_buf d) (reader_view d) \<Longrightarrow> d_count d < 0 \<Longrightarrow> fillable d"
  by (auto simp: rsafe_def reader_view_def fillable_def)

lemma fill_buf [simp]: "d_buf (fill d) = d_buf d"
proof -
  have "d_buf (fill_loop d s e) = d_buf d" for d s e
    by (induction d s e rule: fill_loop.induct) (subst fill_loop.simps, simp)
  then show ?thesis
    by (simp add: fill_def fill_batched_def fill_bytes_def Let_def)
qed

lemma decide_buf [simp]: "d_buf (snd (decide split d)) = d_buf d"
  by (simp add: decide_def Let_def)

lemma BoolNorm_le: "r < 256 \<Longrightarrow> BoolNorm ! r \<le> 7"
  using BoolNorm_norm [of r] norm_le [of r] by (cases "r = 0") (auto simp: BoolNorm_def)

text \<open>The decision on words is the decision on numbers, while the window stays below the range.\<close>

lemma decide_value:
  fixes split :: u32
  assumes sp: "1 \<le> unat split" "unat split < unat (d_rng d)" and R: "unat (d_rng d) \<le> 255"
    and v: "unat (d_value d) < unat (d_rng d) * 2 ^ 56"
    and b: "b = (unat split * 2 ^ 56 \<le> unat (d_value d))"
    and v': "v' = (if b then unat (d_value d) - unat split * 2 ^ 56 else unat (d_value d))"
    and R': "R' = (if b then unat (d_rng d) - unat split else unat split)"
  shows "fst (decide split d) = b"
    and "reader_view (snd (decide split d)) = (v' * 2 ^ norm R', d_count d - int (norm R'), R' * 2 ^ norm R', d_pos d)"
proof -
  define bigsplit where "bigsplit = (push_bit 56 (ucast split) :: u64)"
  have "unat (ucast split :: u64) = unat split" by (rule unat_ucast_up) simp
  moreover have "unat split * 2 ^ 56 < 2 ^ 64" using sp R by simp
  ultimately have big: "unat bigsplit = unat split * 2 ^ 56"
    unfolding bigsplit_def using unat_push_bit [of "ucast split :: u64" 56] by simp
  have bw: "(d_value d \<ge> bigsplit) = b" by (simp add: word_le_nat_alt big b)
  define wv where "wv = (if b then d_value d - bigsplit else d_value d)"
  define rng where "rng = (if b then d_rng d - split else split)"
  have wv: "unat wv = v'"
    using unat_sub_nowrap [of bigsplit "d_value d"] by (simp add: wv_def v' b big)
  have rng: "unat rng = R'"
    using unat_sub_nowrap [of split "d_rng d"] sp by (simp add: rng_def R')
  have Rb: "1 \<le> R'" "R' \<le> 255" using sp R by (auto simp: R')
  note nb = norm_bounds [OF Rb] norm_le [of R']
  have vR: "v' < R' * 2 ^ 56" using v sp by (auto simp: v' R' b diff_mult_distrib)
  have shift: "BoolNorm ! unat (ucast rng :: byte) = norm R'"
    using BoolNorm_norm [of R'] Rb by (simp add: unat_ucast_byte rng)
  have m: "norm R' AND 63 = norm R'" "norm R' AND 31 = norm R'"
  proof -
    show "norm R' AND 63 = norm R'" using nb(3) by (intro and_63) simp
    have "norm R' AND 31 = take_bit 5 (norm R')" by (simp add: take_bit_eq_mask mask_eq_exp_minus_1)
    then show "norm R' AND 31 = norm R'" using nb(3) by (simp add: take_bit_eq_mod)
  qed
  have dec: "decide split d = (b, d\<lparr>d_value := push_bit (norm R') wv,
      d_count := d_count d - int (norm R'), d_rng := push_bit (norm R') rng\<rparr>)"
    unfolding decide_def Let_def bigsplit_def [symmetric] bw wv_def [symmetric] rng_def [symmetric] shift m by (rule refl)
  have "v' * 2 ^ norm R' < R' * 2 ^ 56 * 2 ^ norm R'" using vR by simp
  also have "\<dots> = R' * 2 ^ norm R' * 2 ^ 56" by (simp add: ac_simps)
  also have "\<dots> \<le> 255 * 2 ^ 56" using nb(2) by (rule mult_right_mono) simp
  finally have "unat (push_bit (norm R') wv) = v' * 2 ^ norm R'"
    using unat_push_bit [of wv "norm R'"] wv by simp
  moreover have "unat (push_bit (norm R') rng) = R' * 2 ^ norm R'"
    using unat_push_bit [of rng "norm R'"] rng nb(2) by simp
  ultimately show "fst (decide split d) = b"
    "reader_view (snd (decide split d)) = (v' * 2 ^ norm R', d_count d - int (norm R'), R' * 2 ^ norm R', d_pos d)"
    by (simp_all add: dec reader_view_def)
qed

lemma load_view:
  assumes "rsafe (d_buf d) (reader_view d)"
  defines "d' \<equiv> (if d_count d < 0 then fill d else d)"
  shows "rload (d_buf d) (reader_view d) = (unat (d_value d'), d_count d', d_pos d')"
    and "d_rng d' = d_rng d" "d_buf d' = d_buf d"
proof -
  have "filled d (fill d)" if "d_count d < 0"
    using fill_filled [OF rsafe_fillable [OF assms(1) that]] .
  moreover from this have "d_rng (fill d) = d_rng d" if "d_count d < 0"
    using that unfolding filled_def by (metis Decoder.ext_inject Decoder.surjective Decoder.update_convs(2-4))
  ultimately show "rload (d_buf d) (reader_view d) = (unat (d_value d'), d_count d', d_pos d')"
    "d_rng d' = d_rng d" "d_buf d' = d_buf d"
    by (auto simp: filled_def d'_def rload_def reader_view_def)
qed

lemma split_value:
  fixes rng :: u32
  assumes "128 \<le> unat rng" "unat rng \<le> 255"
  shows "unat (1 + drop_bit 8 ((rng - 1) * ucast (p :: byte))) = split_of (unat rng) (unat p)"
  using split_unat assms by simp

lemma ReadBool_sim:
  assumes safe: "rsafe (d_buf d) (reader_view d)"
  shows "rget (d_buf d) (reader_view d) (unat p)
    = (fst (reader_get d p), reader_view (snd (reader_get d p)))"
proof -
  define d' where "d' = (if d_count d < 0 then fill d else d)"
  define split where "split = 1 + drop_bit 8 ((d_rng d - 1) * ucast p)"
  note l = load_view [OF safe, folded d'_def]
  have R: "128 \<le> unat (d_rng d)" "unat (d_rng d) \<le> 255"
    and v: "unat (d_value d') < unat (d_rng d) * 2 ^ 56"
    using safe l(1) by (auto simp: rsafe_def reader_view_def)
  have sp: "unat split = split_of (unat (d_rng d)) (unat p)"
    unfolding split_def using R by (rule split_value)
  have spb: "1 \<le> unat split" "unat split < unat (d_rng d)"
    unfolding sp using split_of_bounds [of "unat (d_rng d)" "unat p"] R unat_byte_le by auto
  have get: "reader_get d p = decide split d'"
    by (simp add: reader_get_def ReadBool_def Let_def split_def d'_def)
  note dec = decide_value [of split d', unfolded l(2), OF spb R(2) v refl refl refl]
  show ?thesis
    unfolding get using dec l(1) sp
    by (simp add: rget_def reader_view_def [of d] Let_def l)
qed

lemma reader_get_buf [simp]: "d_buf (snd (reader_get d p)) = d_buf d"
  by (simp add: reader_get_def ReadBool_def Let_def)

interpretation vp8r: bool_reader reader_get reader_view d_buf
proof unfold_locales
  fix d :: Decoder and p :: byte
  show "d_buf (snd (reader_get d p)) = d_buf d" by simp
  show "rget (d_buf d) (reader_view d) (unat p) = (fst (reader_get d p), reader_view (snd (reader_get d p)))"
    if "rsafe (d_buf d) (reader_view d)" using that by (rule ReadBool_sim)
qed

end
