(* ===== verification/Vp8_Bool_Coder.thy ===== *)
theory Vp8_Bool_Coder
  imports Vp8_Bool_Writer Vp8_Bool_Decoder
begin

text \<open>
  The VP8 boolean writer and reader together. \<open>emits f xs\<close> says that a writing operation codes
  the list \<open>xs\<close> of bits with their probabilities, \<open>reads m xs r\<close> that a reading operation, on
  a stream that decodes to \<open>xs\<close>, consumes it and returns \<open>r\<close>. Both compose along sequencing,
  so the layers above (trees, motion vectors, headers, coefficients) are related by their bit
  lists, and \<open>message_roundtrip\<close> turns such a pair into a round trip through bytes.
\<close>

named_theorems emits_intros
named_theorems reads_intros

section \<open>Writing operations\<close>

text \<open>
  The registers between operations: a normalised range, fewer than 24 pending shifts, and a low
  end that leaves room for one carry bit. A failed writer keeps only the range.
\<close>

definition writer_ok :: "BoolWriter \<Rightarrow> bool" where
  "writer_ok w \<longleftrightarrow> 128 \<le> unat (w_rng w) \<and> unat (w_rng w) \<le> 255 \<and>
     (w_err w = 0 \<longrightarrow> (\<exists>j < 24. w_count w = int j - 24 \<and> unat (w_low w) + unat (w_rng w) \<le> 2 ^ (9 + j)))"

definition emits :: "(BoolWriter \<Rightarrow> BoolWriter) \<Rightarrow> (bool \<times> byte) list \<Rightarrow> bool" where
  "emits f xs \<longleftrightarrow> (\<forall>w. writer_ok w \<longrightarrow> writer_ok (f w) \<and>
     (w_err (f w) = 0 \<longleftrightarrow> w_err (vp8w.puts w xs) = 0) \<and>
     (w_err (f w) = 0 \<longrightarrow> f w = vp8w.puts w xs))"

lemma emitsD:
  assumes "emits f xs" "writer_ok w"
  shows "writer_ok (f w)" "w_err (f w) = 0 \<longleftrightarrow> w_err (vp8w.puts w xs) = 0"
    "w_err (f w) = 0 \<Longrightarrow> f w = vp8w.puts w xs"
  using assms unfolding emits_def by blast+

lemma emits_cong:
  assumes "\<And>w. writer_ok w \<Longrightarrow> f w = g w"
  shows "emits f xs = emits g xs"
  unfolding emits_def using assms by metis

lemma emits_id [emits_intros]: "emits (\<lambda>w. w) []"
  by (simp add: emits_def)

lemma emits_comp:
  assumes f: "emits f xs" and g: "emits g ys"
  shows "emits (\<lambda>w. g (f w)) (xs @ ys)"
  unfolding emits_def
proof (intro allI impI)
  fix w assume ok: "writer_ok w"
  note F = emitsD [OF f ok]
  note G = emitsD [OF g F(1)]
  show "writer_ok (g (f w)) \<and> (w_err (g (f w)) = 0 \<longleftrightarrow> w_err (vp8w.puts w (xs @ ys)) = 0) \<and>
    (w_err (g (f w)) = 0 \<longrightarrow> g (f w) = vp8w.puts w (xs @ ys))"
  proof (cases "w_err (f w) = 0")
    case True
    then show ?thesis using F G by (simp add: vp8w.puts_append)
  next
    case False
    then have "w_err (vp8w.puts (f w) ys) \<noteq> 0" "w_err (vp8w.puts (vp8w.puts w xs) ys) \<noteq> 0"
      using vp8w.puts_failed F(2) by blast+
    then show ?thesis using G(1,2) unfolding vp8w.puts_append by blast
  qed
qed

lemma emits_fold:
  assumes "\<And>x. x \<in> set xs \<Longrightarrow> emits (\<lambda>w. f w x) (g x)"
  shows "emits (\<lambda>w. foldl f w xs) (concat (map g xs))"
  using assms
proof (induction xs)
  case Nil
  then show ?case by (simp add: emits_id)
next
  case (Cons x xs)
  have "emits (\<lambda>w. foldl f (f w x) xs) (g x @ concat (map g xs))"
    by (rule emits_comp [of "\<lambda>w. f w x" "g x" "\<lambda>w. foldl f w xs"]) (simp_all add: Cons)
  then show ?case by simp
qed

lemma propagateCarry_sel [simp]: "w_rng (propagateCarry w) = w_rng w"
  by (auto simp: propagateCarry_def split: prod.splits nat.splits)

lemma write_tail_emitted:
  assumes j: "j < 24" "w_count w = int j - 24" and r: "1 \<le> unat rng" "unat rng \<le> 255"
    and e: "w_err (write_tail w low rng) = 0" and n: "24 \<le> j + norm (unat rng)"
  shows "w_count (write_tail w low rng) = int (j + norm (unat rng)) - 32"
    and "w_rng (write_tail w low rng) = push_bit (norm (unat rng)) rng"
    and "w_low (write_tail w low rng)
      = push_bit (j + norm (unat rng) - 24) (push_bit (24 - j) low AND 0xffffff)"
proof -
  define n where "n = norm (unat rng)"
  have c: "0 \<le> w_count w + int n" "nat (w_count w + int n) = j + n - 24"
    "nat (int n - (w_count w + int n)) = 24 - j"
    using j n by (simp_all add: n_def)
  show "w_count (write_tail w low rng) = int (j + norm (unat rng)) - 32"
    "w_rng (write_tail w low rng) = push_bit (norm (unat rng)) rng"
    "w_low (write_tail w low rng)
      = push_bit (j + norm (unat rng) - 24) (push_bit (24 - j) low AND 0xffffff)"
    using e c(1) unfolding write_tail_def Let_def writer_shift_norm [OF r] n_def [symmetric] c(2,3)
    by (simp_all add: j(2) split: if_splits)
qed

lemma write_tail_ok:
  assumes ok: "writer_ok w" and r: "1 \<le> unat rng" "unat rng \<le> 255"
    and le: "unat low + unat rng \<le> unat (w_low w) + unat (w_rng w)"
  shows "writer_ok (write_tail w low rng)"
proof (cases "w_err (write_tail w low rng) = 0")
  case False
  then show ?thesis
    using ok norm_bounds [OF r] tail_rng [OF r]
    by (simp add: write_tail_def Let_def writer_ok_def writer_shift_norm [OF r])
next
  case True
  define n where "n = norm (unat rng)"
  have n7: "n \<le> 7" by (simp add: n_def norm_le)
  have R: "128 \<le> unat rng * 2 ^ n" "unat rng * 2 ^ n \<le> 255" "unat (push_bit n rng) = unat rng * 2 ^ n"
    using norm_bounds [OF r] tail_rng [OF r] by (simp_all add: n_def)
  have "w_err w = 0"
    using True by (rule contrapos_pp) (simp add: write_tail_def Let_def propagateCarry_def split: prod.splits nat.splits)
  then obtain j where j: "j < 24" "w_count w = int j - 24" "unat (w_low w) + unat (w_rng w) \<le> 2 ^ (9 + j)"
    using ok unfolding writer_ok_def by blast
  have low: "unat low + unat rng \<le> 2 ^ (9 + j)" using le j(3) by linarith
  show ?thesis
  proof (cases "j + n < 24")
    case short: True
    have "(unat low + unat rng) * 2 ^ n \<le> 2 ^ (9 + j) * 2 ^ n" using low by simp
    then have "unat low * 2 ^ n + unat rng * 2 ^ n \<le> 2 ^ (9 + (j + n))"
      by (simp only: add_mult_distrib power_add mult.assoc)
    moreover have "unat (push_bit n low) = unat low * 2 ^ n"
      using tail_small [of j n low] short low r by simp
    ultimately show ?thesis
      using short R unfolding write_tail_short [OF j(2) r, folded n_def, OF short] writer_ok_def
      by (auto simp: power_add intro!: exI [of _ "j + n"])
  next
    case long: False
    have j': "j + n - 8 < 24" using j(1) n7 by simp
    have "unat low mod 2 ^ j * 2 ^ n \<le> 2 ^ j * 2 ^ n" by simp
    also have "\<dots> = 2 ^ (8 + (j + n - 8))" using long by (simp flip: power_add)
    finally have "unat low mod 2 ^ j * 2 ^ n + unat rng * 2 ^ n \<le> 2 ^ (8 + (j + n - 8)) + 2 ^ 8"
      by (rule add_mono) (use R in simp)
    also have "\<dots> \<le> 2 ^ (9 + (j + n - 8))" by (simp add: power_add)
    finally have l: "unat low mod 2 ^ j * 2 ^ n + unat rng * 2 ^ n \<le> 2 ^ (9 + (j + n - 8))" .
    note st = write_tail_emitted [OF j(1,2) r, folded n_def, of low] 
    have "w_count (write_tail w low rng) = int (j + n - 8) - 24" using st True long by simp
    moreover have "unat (w_low (write_tail w low rng)) = unat low mod 2 ^ j * 2 ^ n"
      "unat (w_rng (write_tail w low rng)) = unat rng * 2 ^ n"
      using st True long tail_low [OF j(1) _ n7, of low] R by simp_all
    ultimately show ?thesis
      unfolding writer_ok_def using j' l R by metis
  qed
qed

lemma WriteBool_ok: "writer_ok w \<Longrightarrow> writer_ok (WriteBool w b p)"
proof -
  assume ok: "writer_ok w"
  define sp where "sp = 1 + drop_bit 8 ((w_rng w - 1) * ucast p)"
  have R: "128 \<le> unat (w_rng w)" "unat (w_rng w) \<le> 255" using ok by (auto simp: writer_ok_def)
  have sp: "unat sp = split_of (unat (w_rng w)) (unat p)"
    unfolding sp_def using R by (intro split_unat) auto
  have spb: "1 \<le> unat sp" "unat sp < unat (w_rng w)"
    unfolding sp using split_of_bounds [of "unat (w_rng w)" "unat p"] R unat_byte_le by auto
  have d: "unat (w_rng w - sp) = unat (w_rng w) - unat sp"
    using unat_sub_nowrap [of sp "w_rng w"] spb by simp
  have s: "unat (w_low w + sp) \<le> unat (w_low w) + unat sp" by (simp add: unat_word_ariths)
  show ?thesis
    using write_tail_ok [OF ok, of sp "w_low w"] write_tail_ok [OF ok, of "w_rng w - sp" "w_low w + sp"] ok spb R d s
    by (auto simp: WriteBool_def Let_def sp_def [symmetric])
qed

lemma WriteBool_put: "WriteBool w b p = writer_put w (b AND 1 \<noteq> 0) p"
  by (simp add: writer_put_def WriteBool_def Let_def)

lemma emits_put [emits_intros]: "emits (\<lambda>w. writer_put w b p) [(b, p)]"
  by (simp add: emits_def writer_put_def WriteBool_ok)

lemma emits_WriteBool: "emits (\<lambda>w. WriteBool w b p) [(b AND 1 \<noteq> 0, p)]"
  unfolding WriteBool_put by (rule emits_put)

lemma emits_WriteBool_of_bool [emits_intros]: "emits (\<lambda>w. WriteBool w (of_bool b) p) [(b, p)]"
  using emits_put by (simp add: writer_put_def)

lemma WriteBit_WriteBool: "writer_ok w \<Longrightarrow> WriteBit w b = WriteBool w b 128"
  using half_split [of "w_rng w"] by (simp add: WriteBit_def WriteBool_def writer_ok_def)

lemma emits_WriteBit: "emits (\<lambda>w. WriteBit w b) [(b AND 1 \<noteq> 0, 128)]"
  using emits_WriteBool [of b 128] emits_cong [of "\<lambda>w. WriteBit w b" "\<lambda>w. WriteBool w b 128"]
  by (simp add: WriteBit_WriteBool)

lemma emits_WriteBit_of_bool [emits_intros]: "emits (\<lambda>w. WriteBit w (of_bool b)) [(b, 128)]"
  using emits_WriteBool_of_bool [of b 128]
    emits_cong [of "\<lambda>w. WriteBit w (of_bool b)" "\<lambda>w. WriteBool w (of_bool b) 128"]
  by (simp add: WriteBit_WriteBool)

section \<open>Literals\<close>

text \<open>The bits of a literal, most significant first.\<close>

definition literal_bits :: "u32 \<Rightarrow> nat \<Rightarrow> (bool \<times> byte) list" where
  "literal_bits v n = map (\<lambda>i. (bit v i, 128)) (rev [0..<n])"

lemma literal_bits_simps [simp]:
  "literal_bits v 0 = []"
  "literal_bits v (Suc n) = (bit v n, 128) # literal_bits v n"
  by (simp_all add: literal_bits_def)

lemma bit_low_test: "(drop_bit n (v :: 'a::len word) AND 1 = 0) \<longleftrightarrow> \<not> bit v n"
  by (auto simp: and_one_eq bit_iff_odd_drop_bit mod_2_eq_odd)

lemma write_literal_loop_step:
  assumes "writer_ok w" "w_err w = 0"
  shows "write_literal_loop w v (Suc n) = (let w = writer_put w (bit v n) 128
    in if w_err w \<noteq> 0 then w else write_literal_loop w v n)"
proof -
  have "drop_bit 1 (w_rng w + 1) = 1 + drop_bit 8 ((w_rng w - 1) * 128)"
    using half_split [of "w_rng w"] assms(1) by (simp add: writer_ok_def)
  then show ?thesis
    unfolding write_literal_loop.simps bit_low_test writer_put_def WriteBool_def Let_def
    using assms(2) by (cases "bit v n") simp_all
qed

lemma write_literal_loop_puts:
  assumes "writer_ok w" "w_err w = 0"
  shows "writer_ok (write_literal_loop w v n) \<and>
    (w_err (write_literal_loop w v n) = 0 \<longleftrightarrow> w_err (vp8w.puts w (literal_bits v n)) = 0) \<and>
    (w_err (write_literal_loop w v n) = 0 \<longrightarrow> write_literal_loop w v n = vp8w.puts w (literal_bits v n))"
  using assms
proof (induction n arbitrary: w)
  case 0
  then show ?case by simp
next
  case (Suc n)
  define w' where "w' = writer_put w (bit v n) 128"
  have ok: "writer_ok w'" using Suc.prems(1) by (simp add: w'_def writer_put_def WriteBool_ok)
  have st: "write_literal_loop w v (Suc n) = (if w_err w' \<noteq> 0 then w' else write_literal_loop w' v n)"
    using write_literal_loop_step [OF Suc.prems] by (simp add: w'_def Let_def)
  have pt: "vp8w.puts w (literal_bits v (Suc n)) = vp8w.puts w' (literal_bits v n)"
    by (simp add: w'_def)
  show ?case
  proof (cases "w_err w' = 0")
    case True
    then have e: "write_literal_loop w v (Suc n) = write_literal_loop w' v n" by (simp only: st) simp
    show ?thesis unfolding e pt by (rule Suc.IH [OF ok True])
  next
    case False
    then have e: "write_literal_loop w v (Suc n) = w'" by (simp only: st) simp
    show ?thesis unfolding e pt using ok False vp8w.puts_failed [OF False] by blast
  qed
qed

lemma emits_WriteLiteral [emits_intros]: "emits (\<lambda>w. WriteLiteral w v n) (literal_bits v (nat n))"
  unfolding emits_def
proof (intro allI impI)
  fix w assume ok: "writer_ok w"
  consider "n \<le> 0" | "w_err w \<noteq> 0" | "0 < n" "w_err w = 0" by linarith
  then show "writer_ok (WriteLiteral w v n) \<and>
    (w_err (WriteLiteral w v n) = 0 \<longleftrightarrow> w_err (vp8w.puts w (literal_bits v (nat n))) = 0) \<and>
    (w_err (WriteLiteral w v n) = 0 \<longrightarrow> WriteLiteral w v n = vp8w.puts w (literal_bits v (nat n)))"
  proof cases
    case 1
    then show ?thesis using ok by (simp add: WriteLiteral_def)
  next
    case 2
    then show ?thesis using ok vp8w.puts_failed [of w] by (simp add: WriteLiteral_def)
  next
    case 3
    note loop = write_literal_loop_puts [OF ok 3(2), of v "nat n"]
    have lit: "WriteLiteral w v n = (let w' = write_literal_loop w v (nat n) in
        if w_err w' \<noteq> 0 then w'\<lparr>w_low := w_low w, w_rng := w_rng w, w_count := w_count w\<rparr> else w')"
      using 3 by (simp add: WriteLiteral_def)
    show ?thesis
    proof (cases "w_err (write_literal_loop w v (nat n)) = 0")
      case True
      then have "WriteLiteral w v n = write_literal_loop w v (nat n)" by (simp add: lit)
      then show ?thesis using loop True by metis
    next
      case False
      moreover from this have "w_err (WriteLiteral w v n) \<noteq> 0" "writer_ok (WriteLiteral w v n)"
        using ok by (simp_all add: lit writer_ok_def)
      ultimately show ?thesis using loop by metis
    qed
  qed
qed

lemma literal_bits_zero: "literal_bits 0 n = replicate n (False, 128)"
  by (induction n) auto

lemma emits_Finish: "emits Finish flush_bits"
proof -
  have "Finish = (\<lambda>w. WriteLiteral w 0 32)" by (rule ext) (rule Finish_def)
  then show ?thesis
    using emits_WriteLiteral [of 0 32] by (simp add: literal_bits_zero flush_bits_def)
qed

section \<open>Reading operations\<close>

definition reader_ok :: "Decoder \<Rightarrow> bool" where
  "reader_ok d \<longleftrightarrow> 128 \<le> unat (d_rng d) \<and> unat (d_rng d) \<le> 255"

text \<open>After one read the range is at most 254, as the sign reader of the tokens assumes.\<close>

definition reader_warm :: "Decoder \<Rightarrow> bool" where
  "reader_warm d \<longleftrightarrow> 128 \<le> unat (d_rng d) \<and> unat (d_rng d) \<le> 254"

lemma warm_ok: "reader_warm d \<Longrightarrow> reader_ok d"
  by (simp add: reader_warm_def reader_ok_def)

lemma fill_rng [simp]: "d_rng (fill d) = d_rng d"
proof -
  have "d_rng (fill_loop d s e) = d_rng d" for d s e
    by (induction d s e rule: fill_loop.induct) (subst fill_loop.simps, simp)
  then show ?thesis
    by (simp add: fill_def fill_batched_def fill_bytes_def Let_def)
qed

lemma decide_warm:
  assumes "1 \<le> unat split" "unat split < unat (d_rng d)" "unat (d_rng d) \<le> 255"
  shows "reader_warm (snd (decide split d))"
proof -
  have step: "reader_warm (d\<lparr>d_value := v, d_count := c, d_rng := push_bit ((BoolNorm ! unat (ucast rng :: byte)) AND 31) rng\<rparr>)"
    if r: "1 \<le> unat rng" "unat rng \<le> 254" for v c and rng :: u32
  proof -
    define n where "n = norm (unat rng)"
    have b: "128 \<le> unat rng * 2 ^ n" "unat rng * 2 ^ n \<le> 255" "n \<le> 7"
      using norm_bounds [of "unat rng"] norm_le r by (auto simp: n_def)
    have "BoolNorm ! unat (ucast rng :: byte) = n"
      using BoolNorm_norm [of "unat rng"] r by (simp add: unat_ucast_byte n_def)
    moreover have "n AND 31 = take_bit 5 n" by (simp add: take_bit_eq_mask mask_eq_exp_minus_1)
    then have "n AND 31 = n" using b(3) by (simp add: take_bit_eq_mod)
    moreover have "unat (push_bit n rng) = unat rng * 2 ^ n" using b by (intro unat_push_bit) simp
    moreover have "unat rng * 2 ^ n \<le> 254"
    proof (cases "n = 0")
      case False
      then have "2 dvd unat rng * 2 ^ n" by simp
      then have "unat rng * 2 ^ n \<noteq> 255" by presburger
      then show ?thesis using b by linarith
    qed (use r in simp)
    ultimately show ?thesis using b by (simp add: reader_warm_def)
  qed
  have "unat (d_rng d - split) = unat (d_rng d) - unat split"
    using assms by (intro unat_sub_nowrap) simp
  then show ?thesis
    using step [of split] step [of "d_rng d - split"] assms by (simp add: decide_def Let_def)
qed

lemma split_range:
  fixes p :: byte
  assumes "reader_ok d"
  defines "sp \<equiv> 1 + drop_bit 8 ((d_rng d - 1) * ucast p)"
  shows "1 \<le> unat sp" "unat sp < unat (d_rng d)"
proof -
  have R: "128 \<le> unat (d_rng d)" "unat (d_rng d) \<le> 255" using assms(1) by (auto simp: reader_ok_def)
  then have "unat sp = split_of (unat (d_rng d)) (unat p)"
    unfolding sp_def by (rule split_value)
  then show "1 \<le> unat sp" "unat sp < unat (d_rng d)"
    using split_of_bounds [of "unat (d_rng d)" "unat p"] R unat_byte_le by auto
qed

lemma reader_get_warm: "reader_ok d \<Longrightarrow> reader_warm (snd (reader_get d p))"
  using split_range [of d p] decide_warm
  by (auto simp: reader_get_def ReadBool_def Let_def reader_ok_def)

lemma gets_ok: "reader_ok d \<Longrightarrow> vp8r.gets d xs d' \<Longrightarrow> reader_ok d'"
proof (induction xs arbitrary: d)
  case Nil
  then show ?case by simp
next
  case (Cons x xs)
  then show ?case using warm_ok [OF reader_get_warm [OF Cons.prems(1)]] by auto
qed

lemma gets_warm: "reader_warm d \<or> (reader_ok d \<and> xs \<noteq> []) \<Longrightarrow> vp8r.gets d xs d' \<Longrightarrow> reader_warm d'"
proof (induction xs arbitrary: d)
  case Nil
  then show ?case by simp
next
  case (Cons x xs)
  then show ?case using reader_get_warm warm_ok by (metis vp8r.gets.simps(2))
qed

text \<open>\<open>reads_in P m xs r\<close>: from a state of \<open>P\<close> that decodes to \<open>xs\<close>, \<open>m\<close> consumes \<open>xs\<close> and returns \<open>r\<close>.\<close>

definition reads_in :: "(Decoder \<Rightarrow> bool) \<Rightarrow> (Decoder, 'a) state \<Rightarrow> (bool \<times> byte) list \<Rightarrow> 'a \<Rightarrow> bool" where
  "reads_in P m xs r \<longleftrightarrow> (\<forall>d d'. P d \<longrightarrow> vp8r.gets d xs d' \<longrightarrow> run_state m d = (r, d'))"

abbreviation reads :: "(Decoder, 'a) state \<Rightarrow> (bool \<times> byte) list \<Rightarrow> 'a \<Rightarrow> bool" where
  "reads \<equiv> reads_in reader_ok"

lemma reads_inD: "reads_in P m xs r \<Longrightarrow> P d \<Longrightarrow> vp8r.gets d xs d' \<Longrightarrow> run_state m d = (r, d')"
  by (simp add: reads_in_def)

lemma reads_warm: "reads m xs r \<Longrightarrow> reads_in reader_warm m xs r"
  using warm_ok by (auto simp: reads_in_def)

lemma reads_return [reads_intros]: "reads_in P (State_Monad.return r) [] r"
  by (simp add: reads_in_def)

lemma reads_bind [reads_intros]:
  assumes "reads m xs a" "reads (f a) ys r"
  shows "reads (m \<bind> f) (xs @ ys) r"
  using assms gets_ok unfolding reads_in_def vp8r.gets_append by (force split: prod.splits)

lemma reads_bind_warm:
  assumes "reads_in reader_warm m xs a" "reads_in reader_warm (f a) ys r"
  shows "reads_in reader_warm (m \<bind> f) (xs @ ys) r"
  using assms gets_warm unfolding reads_in_def vp8r.gets_append by (force split: prod.splits)

lemma reads_bind_start:
  assumes "reads m xs a" "xs \<noteq> []" "reads_in reader_warm (f a) ys r"
  shows "reads (m \<bind> f) (xs @ ys) r"
  using assms gets_warm unfolding reads_in_def vp8r.gets_append by (force split: prod.splits)

lemma reads_ReadBool [reads_intros]: "reads (ReadBool p) [(b, p)] b"
  by (auto simp: reads_in_def reader_get_def prod_eq_iff)

lemma reads_ReadBool_step: "reads (f b) ys r \<Longrightarrow> reads (ReadBool p \<bind> f) ((b, p) # ys) r"
  using reads_bind [OF reads_ReadBool] by fastforce

lemma ReadBit_ReadBool: "reader_ok d \<Longrightarrow> run_state ReadBit d = run_state (ReadBool 128) d"
  using half_split [of "d_rng d"] by (simp add: ReadBit_def ReadBool_def reader_ok_def Let_def)

lemma reads_ReadBit [reads_intros]: "reads ReadBit [(b, 128)] b"
  using reads_ReadBool [of 128 b] by (simp add: reads_in_def ReadBit_ReadBool)

lemma reads_ReadBit_step: "reads (f b) ys r \<Longrightarrow> reads (ReadBit \<bind> f) ((b, 128) # ys) r"
  using reads_bind [OF reads_ReadBit] by fastforce

lemma reads_literal_loop:
  "reads (read_literal_loop v n) (literal_bits x n) (v OR take_bit n x)"
proof (induction n arbitrary: v)
  case 0
  then show ?case by (simp add: reads_return)
next
  case (Suc n)
  have e: "(v OR push_bit n (of_bool (bit x n))) OR take_bit n x = v OR take_bit (Suc n) x"
    by (rule bit_eqI) (auto simp: bit_simps less_Suc_eq)
  have "reads (read_literal_loop (v OR push_bit n (of_bool (bit x n))) n) (literal_bits x n) (v OR take_bit (Suc n) x)"
    using Suc [of "v OR push_bit n (of_bool (bit x n))"] unfolding e .
  then show ?case
    using reads_bind [OF reads_ReadBit [of "bit x n"]] by fastforce
qed

lemma reads_ReadLiteral [reads_intros]:
  "reads (ReadLiteral n) (literal_bits x (nat n)) (take_bit (nat n) x)"
  using reads_literal_loop [of 0 "nat n" x] by (simp add: ReadLiteral_def)

section \<open>Messages\<close>

lemma Init_writer: "writer_view (Writer_Init dst) = winit" "writer_ok (Writer_Init dst)"
  "w_err (Writer_Init dst) = 0" "w_buf (Writer_Init dst) = dst"
  by (simp_all add: writer_view_def Writer_Init_def winit_def writer_ok_def)

lemma Init_reader:
  shows "rrel src (reader_view (Decoder_Init src)) enc_init" "reader_ok (Decoder_Init src)"
    "d_buf (Decoder_Init src) = src"
proof -
  define d where "d = \<lparr>d_buf = src, d_pos = 0, d_value = 0, d_count = -8, d_rng = 255\<rparr>"
  have I: "Decoder_Init src = fill d" by (simp add: Decoder_Init_def d_def)
  show "reader_ok (Decoder_Init src)" "d_buf (Decoder_Init src) = src"
    by (simp_all add: I reader_ok_def) (simp_all add: d_def)
  have r: "rrel src (0, -8, 255, 0) enc_init"
    by (auto simp: rrel_def enc_init_def intro!: exI [of _ 0])
  have "fillable d" by (simp add: fillable_def d_def)
  then have "filled d (fill d)" by (rule fill_filled)
  then have "(unat (d_value (fill d)), d_count (fill d), d_pos (fill d)) = rfill src (0, -8, 0)"
    by (simp add: filled_def d_def)
  moreover have "unat (d_rng (fill d)) = 255" by simp (simp add: d_def)
  ultimately show "rrel src (reader_view (Decoder_Init src)) enc_init"
    using rfill_rel(1) [OF r] by (simp add: I reader_view_def)
qed

text \<open>
  What a writing operation codes between \<open>Init\<close> and \<open>Finish\<close>, if no error is left, is what a
  decoder started on the bytes reads.
\<close>

lemma message_gets:
  assumes "emits f xs" "w_err (Finish (f (Writer_Init dst))) = 0"
  shows "\<exists>d'. vp8r.gets (Decoder_Init (Bytes (Finish (f (Writer_Init dst))))) xs d'"
proof -
  define w where "w = Finish (f (Writer_Init dst))"
  have "emits (\<lambda>w. Finish (f w)) (xs @ flush_bits)"
    using assms(1) emits_Finish by (rule emits_comp)
  from emitsD(3) [OF this Init_writer(2)] assms(2)
  have w: "w = vp8w.puts (Writer_Init dst) (xs @ flush_bits)" unfolding w_def .
  then have "contains (enc_run enc_init xs) (fst (writer_view w))"
    using vp8w.puts_contains [of "Writer_Init dst" xs] assms(2) unfolding w_def [symmetric]
    by (simp add: Init_writer)
  moreover have "fst (writer_view w) = Bytes w" by (simp add: writer_view_def Bytes_def)
  ultimately show ?thesis
    unfolding w_def [symmetric]
    using vp8r.gets_contains [of "Decoder_Init (Bytes w)" enc_init xs] wf_enc_init
    by (simp add: Init_reader)
qed

lemma message_roundtrip:
  assumes "emits f xs" "reads m xs r" "w_err (Finish (f (Writer_Init dst))) = 0"
  shows "fst (run_state m (Decoder_Init (Bytes (Finish (f (Writer_Init dst)))))) = r"
  using message_gets [OF assms(1,3)] reads_inD [OF assms(2) Init_reader(2)] by force

text \<open>The writer needs exactly the bytes its machine emits, whatever the buffer holds.\<close>

definition message_bytes :: "(bool \<times> byte) list \<Rightarrow> byte list" where
  "message_bytes xs = fst (wputs winit (xs @ flush_bits))"

lemma message_fits:
  assumes "emits f xs"
  shows "w_err (Finish (f (Writer_Init dst))) = 0 \<longleftrightarrow> length (message_bytes xs) \<le> length dst"
    and "w_err (Finish (f (Writer_Init dst))) = 0 \<Longrightarrow>
      Bytes (Finish (f (Writer_Init dst))) = message_bytes xs"
proof -
  define w where "w = Finish (f (Writer_Init dst))"
  have e: "emits (\<lambda>w. Finish (f w)) (xs @ flush_bits)"
    using assms emits_Finish by (rule emits_comp)
  note E = emitsD [OF e Init_writer(2), of dst, folded w_def]
  have "fst winit = []" by (simp add: winit_def)
  then have "w_err (vp8w.puts (Writer_Init dst) (xs @ flush_bits)) \<noteq> 0 \<longleftrightarrow> length dst < length (message_bytes xs)"
    using vp8w.puts_fails [of "Writer_Init dst" enc_init "xs @ flush_bits"] winit_ok wf_enc_init
    by (simp add: Init_writer message_bytes_def)
  then have "w_err (vp8w.puts (Writer_Init dst) (xs @ flush_bits)) = 0 \<longleftrightarrow> length (message_bytes xs) \<le> length dst"
    by (metis not_less)
  then show "w_err (Finish (f (Writer_Init dst))) = 0 \<longleftrightarrow> length (message_bytes xs) \<le> length dst"
    using E(2) unfolding w_def by blast
  assume ok: "w_err (Finish (f (Writer_Init dst))) = 0"
  then have w: "w = vp8w.puts (Writer_Init dst) (xs @ flush_bits)"
    using E(3) unfolding w_def by blast
  then have "\<not> w_err (vp8w.puts (Writer_Init dst) (xs @ flush_bits)) \<noteq> 0" using ok w_def by simp
  then have "writer_view w = wputs winit (xs @ flush_bits)"
    using vp8w.puts_view [of "Writer_Init dst" enc_init "xs @ flush_bits"] winit_ok wf_enc_init
    unfolding w by (simp add: Init_writer)
  then show "Bytes (Finish (f (Writer_Init dst))) = message_bytes xs"
    unfolding w_def [symmetric] message_bytes_def by (auto simp: writer_view_def Bytes_def dest: arg_cong [of _ _ fst])
qed

text \<open>A put emits at most one byte, so a buffer of one byte per bit and 32 more is enough.\<close>

lemma length_wputs_le: "length (fst (wputs m xs)) \<le> length (fst m) + length xs"
proof (induction xs arbitrary: m)
  case Nil
  then show ?case by simp
next
  case (Cons x xs)
  have "length (fst (wput m (fst x) (unat (snd x)))) \<le> length (fst m) + 1"
    by (auto simp: wput_def narrow_def Let_def split: prod.splits)
  then show ?case using Cons [of "wput m (fst x) (unat (snd x))"] by simp
qed

lemma message_fits_bound:
  assumes "emits f xs" "length xs + 32 \<le> length dst"
  shows "w_err (Finish (f (Writer_Init dst))) = 0"
proof -
  have "fst winit = []" by (simp add: winit_def)
  then have "length (message_bytes xs) \<le> length xs + 32"
    using length_wputs_le [of winit "xs @ flush_bits"] by (simp add: message_bytes_def flush_bits_def)
  then show ?thesis using message_fits(1) [OF assms(1)] assms(2) le_trans by blast
qed

section \<open>Every state of a decoder, on any bytes\<close>

text \<open>
  On bytes no writer produced the window may exceed the range; what survives is that the
  window holds zeros below its \<open>8 + count\<close> top bits, so the refills stay interchangeable.
\<close>

definition decoder_inv :: "Decoder \<Rightarrow> bool" where
  "decoder_inv d \<longleftrightarrow> reader_ok d \<and> -8 \<le> d_count d \<and> d_pos d \<le> length (d_buf d) \<and>
     (d_pos d < length (d_buf d) \<longrightarrow> d_count d \<le> 56 \<and> 2 ^ nat (56 - d_count d) dvd unat (d_value d))"

inductive decoder_reaches :: "byte list \<Rightarrow> Decoder \<Rightarrow> bool" for src where
  start: "decoder_reaches src (Decoder_Init src)"
| read: "decoder_reaches src d \<Longrightarrow> decoder_reaches src (snd (run_state (ReadBool p) d))"

lemma inv_fillable: "decoder_inv d \<Longrightarrow> d_count d < 0 \<Longrightarrow> fillable d"
  by (auto simp: decoder_inv_def fillable_def)

lemma filled_inv:
  assumes f: "fillable d" and "reader_ok d" and d': "filled d d'"
  shows "decoder_inv d' \<and> 0 \<le> d_count d'"
proof -
  define left where "left = length (d_buf d) - d_pos d"
  define sh where "sh = nat (48 - d_count d)"
  have c: "-8 \<le> d_count d" "d_count d < 0" "d_pos d \<le> length (d_buf d)" "int sh = 48 - d_count d"
    using f by (auto simp: fillable_def sh_def)
  have same: "d_buf d' = d_buf d" "d_rng d' = d_rng d"
    using d' unfolding filled_def by (metis Decoder.ext_inject Decoder.surjective Decoder.update_convs(2-4))+
  have r: "(unat (d_value d'), d_count d', d_pos d') = rfill (d_buf d) (unat (d_value d), d_count d, d_pos d)"
    using d' by (simp add: filled_def)
  show ?thesis
  proof (cases "sh + 8 < 8 * left")
    case True
    define m where "m = sh div 8 + 1"
    have m: "sh < 8 * m" "8 * m \<le> sh + 8" "m \<le> left" using True by (auto simp: m_def)
    have eq: "unat (d_value d') = unat (d_value d) + be_val (take m (drop (d_pos d) (d_buf d))) * 2 ^ (sh + 8 - 8 * m)"
      "d_count d' = d_count d + 8 * int m" "d_pos d' = d_pos d + m"
      using r rfill_many [OF sh_def left_def True m_def] by simp_all
    have k: "nat (56 - d_count d') = sh + 8 - 8 * m" "nat (56 - d_count d) = sh + 8"
      using c m by (simp_all add: eq(2) nat_diff_distrib)
    have "2 ^ (sh + 8) dvd unat (d_value d)"
      using f True k(2) by (auto simp: fillable_def left_def)
    then have "2 ^ (sh + 8 - 8 * m) dvd unat (d_value d)"
      by (rule dvd_trans [rotated]) (simp add: le_imp_power_dvd)
    then have "2 ^ nat (56 - d_count d') dvd unat (d_value d')" unfolding k(1) eq(1) by simp
    then show ?thesis
      using m c assms(2) same by (auto simp: decoder_inv_def eq(2,3) reader_ok_def left_def)
  next
    case False
    then have "d_count d' = d_count d + 8 * int left + lots_of_bits" "d_pos d' = d_pos d + left"
      using r rfill_few [OF sh_def left_def] by simp_all
    then show ?thesis
      using c assms(2) same by (auto simp: decoder_inv_def reader_ok_def left_def lots_of_bits_def)
  qed
qed

lemma dvd_push_bit_word:
  fixes v :: u64
  assumes "2 ^ k dvd unat v" "k + n \<le> 63"
  shows "2 ^ (k + n) dvd unat (push_bit n v)"
proof -
  have "unat (push_bit n v) = unat v * 2 ^ n mod 2 ^ 64"
    using unat_push_bit_mod [of n v] by simp
  moreover have "(2 :: nat) ^ (k + n) dvd 2 ^ 64" using assms(2) by (intro le_imp_power_dvd) simp
  moreover have "2 ^ (k + n) dvd unat v * 2 ^ n" using assms(1) by (simp add: power_add)
  ultimately show ?thesis by (simp add: dvd_mod)
qed

lemma decide_inv:
  assumes inv: "decoder_inv d" and c: "0 \<le> d_count d"
    and sp: "1 \<le> unat split" "unat split < unat (d_rng d)"
  shows "decoder_inv (snd (decide split d))"
proof -
  define b where "b = (d_value d \<ge> (push_bit 56 (ucast split) :: u64))"
  define v where "v = (if b then d_value d - push_bit 56 (ucast split) else d_value d)"
  define rng where "rng = (if b then d_rng d - split else split)"
  define n where "n = BoolNorm ! unat (ucast rng :: byte)"
  have R: "unat (d_rng d) \<le> 255" using inv by (auto simp: decoder_inv_def reader_ok_def)
  have n: "n \<le> 7" unfolding n_def by (rule BoolNorm_le) (simp add: unat_byte_lt)
  then have n63: "n AND 63 = n" by (intro and_63) simp
  define d' where "d' = d\<lparr>d_value := push_bit n v, d_count := d_count d - int n, d_rng := push_bit (n AND 31) rng\<rparr>"
  have dec: "decide split d = (b, d')"
    unfolding decide_def Let_def b_def [symmetric] v_def [symmetric] rng_def [symmetric]
      n_def [symmetric] n63 d'_def [symmetric] by (rule refl)
  have "unat (push_bit 56 (ucast split) :: u64) = unat split * 2 ^ 56"
  proof -
    have "unat (ucast split :: u64) = unat split" by (rule unat_ucast_up) simp
    then show ?thesis using unat_push_bit [of "ucast split :: u64" 56] sp R by simp
  qed
  then have uv: "unat v = unat (d_value d) - (if b then unat split * 2 ^ 56 else 0)"
    using unat_sub_nowrap [of "push_bit 56 (ucast split)" "d_value d"]
    by (simp add: v_def b_def word_le_nat_alt)
  have "2 ^ nat (56 - d_count d') dvd unat (d_value d') \<and> d_count d' \<le> 56" if pos: "d_pos d < length (d_buf d)"
  proof -
    define k where "k = nat (56 - d_count d)"
    have k: "k \<le> 56" "2 ^ k dvd unat (d_value d)" "d_count d \<le> 56"
      using inv pos c by (auto simp: decoder_inv_def k_def)
    have "2 ^ k dvd unat split * 2 ^ 56" using k(1) by (intro dvd_mult le_imp_power_dvd)
    then have "2 ^ k dvd unat v" using k(2) by (auto simp: uv intro: dvd_diff_nat)
    then have "2 ^ (k + n) dvd unat (push_bit n v)" using k(1) n by (intro dvd_push_bit_word) auto
    moreover have "nat (56 - (d_count d - int n)) = k + n" using k(3) by (simp add: k_def nat_add_distrib)
    ultimately show ?thesis using k(3) by (simp add: d'_def)
  qed
  moreover have "reader_ok d'"
    using decide_warm [OF sp R] by (simp add: dec warm_ok)
  ultimately show ?thesis
    using inv c n by (auto simp: dec decoder_inv_def d'_def)
qed

lemma ReadBool_inv: "decoder_inv d \<Longrightarrow> decoder_inv (snd (run_state (ReadBool p) d))"
proof -
  assume inv: "decoder_inv d"
  define d' where "d' = (if d_count d < 0 then fill d else d)"
  have ok: "reader_ok d" using inv by (simp add: decoder_inv_def)
  have "decoder_inv d' \<and> 0 \<le> d_count d'"
    using inv ok filled_inv [OF inv_fillable [OF inv] ok] fill_filled [OF inv_fillable [OF inv]]
    by (auto simp: d'_def)
  moreover have "d_rng d' = d_rng d" by (simp add: d'_def)
  ultimately show ?thesis
    using decide_inv [of d'] split_range [OF ok, of p]
    by (simp add: ReadBool_def Let_def flip: d'_def)
qed

lemma decoder_reaches_inv: "decoder_reaches src d \<Longrightarrow> decoder_inv d \<and> d_buf d = src"
proof (induction rule: decoder_reaches.induct)
  case start
  define d where "d = \<lparr>d_buf = src, d_pos = 0, d_value = 0, d_count = -8, d_rng = 255\<rparr>"
  have "fillable d" "reader_ok d" by (simp_all add: fillable_def reader_ok_def d_def)
  then show ?case
    using filled_inv [OF _ _ fill_filled] Init_reader(3) [of src]
    by (simp add: Decoder_Init_def d_def [symmetric] del: fill_buf)
next
  case (read d p)
  then show ?case using ReadBool_inv [of d p] reader_get_buf [of d p] by (simp add: reader_get_def)
qed

section \<open>The inlined readers of the probability updates\<close>

lemma prob_255_split:
  fixes rng :: u32
  assumes "128 \<le> unat rng" "unat rng \<le> 255"
  shows "1 + drop_bit 8 ((rng - 1) * 255) = rng - 1"
proof (rule unsigned_word_eqI [where 'a = nat])
  have "unat (1 + drop_bit 8 ((rng - 1) * ucast (255 :: byte))) = split_of (unat rng) 255"
    using split_value [OF assms, of 255] by simp
  also have "(unat rng - 1) * 255 div 256 = unat rng - 2"
    by (rule div_nat_eqI) (use assms in simp_all)
  then have "split_of (unat rng) 255 = unat rng - 1" using assms by (simp add: split_of_def)
  also have "\<dots> = unat (rng - 1)" using unat_sub_nowrap [of 1 rng] assms by simp
  finally show "unat (1 + drop_bit 8 ((rng - 1) * 255)) = unat (rng - 1)" by simp
qed

lemma update_flag_ReadBool: "decoder_inv d \<Longrightarrow> run_state (update_flag p) d = run_state (ReadBool p) d"
proof -
  assume inv: "decoder_inv d"
  have "1 + drop_bit 8 ((d_rng d - 1) * ucast p) = d_rng d - 1" if "p = 255"
    using prob_255_split [of "d_rng d"] inv unfolding that by (simp add: decoder_inv_def reader_ok_def)
  then have split: "(if p \<noteq> 255 then 1 + drop_bit 8 ((d_rng d - 1) * ucast p) else d_rng d - 1)
      = 1 + drop_bit 8 ((d_rng d - 1) * ucast p)" by presburger
  have fill: "(if d_count d < 0 then fill_bytes d else d) = (if d_count d < 0 then fill d else d)"
    using fill_eq_fill_bytes [OF inv_fillable [OF inv]] by simp
  show ?thesis unfolding update_flag_def ReadBool_def Let_def state.sel split fill by (rule refl)
qed

lemma update_bit_ReadBit: "decoder_inv d \<Longrightarrow> run_state update_bit d = run_state ReadBit d"
  using fill_eq_fill_bytes [OF inv_fillable, of d]
  by (auto simp: update_bit_def ReadBit_def Let_def)

text \<open>Operations that agree and keep the invariant can replace each other in a sequence.\<close>

definition same_on_inv :: "(Decoder, 'a) state \<Rightarrow> (Decoder, 'a) state \<Rightarrow> bool" where
  "same_on_inv m n \<longleftrightarrow> (\<forall>d. decoder_inv d \<longrightarrow> run_state m d = run_state n d \<and> decoder_inv (snd (run_state n d)))"

lemma same_bind:
  assumes "same_on_inv m n" "\<And>a. same_on_inv (f a) (g a)"
  shows "same_on_inv (m \<bind> f) (n \<bind> g)"
  unfolding same_on_inv_def
proof (intro allI impI)
  fix d assume inv: "decoder_inv d"
  obtain a d' where r: "run_state n d = (a, d')" by (metis surj_pair)
  then have "run_state m d = (a, d')" "decoder_inv d'"
    using assms(1) inv unfolding same_on_inv_def by (metis, metis snd_conv)
  then show "run_state (m \<bind> f) d = run_state (n \<bind> g) d \<and> decoder_inv (snd (run_state (n \<bind> g) d))"
    using assms(2) [of a] r unfolding same_on_inv_def by simp
qed

lemma same_return: "same_on_inv (State_Monad.return a) (State_Monad.return a)"
  by (simp add: same_on_inv_def)

lemma same_update_flag: "same_on_inv (update_flag p) (ReadBool p)"
  by (simp add: same_on_inv_def update_flag_ReadBool ReadBool_inv)

lemma same_update_bit: "same_on_inv update_bit ReadBit"
  unfolding same_on_inv_def
proof (intro allI impI)
  fix d assume inv: "decoder_inv d"
  then have "run_state ReadBit d = run_state (ReadBool 128) d"
    by (simp add: ReadBit_ReadBool decoder_inv_def)
  then show "run_state update_bit d = run_state ReadBit d \<and> decoder_inv (snd (run_state ReadBit d))"
    using update_bit_ReadBit [OF inv] ReadBool_inv [OF inv, of 128] by simp
qed

lemma same_update_literal: "same_on_inv (update_literal v n) (read_literal_loop v n)"
  by (induction n arbitrary: v) (simp_all add: same_return same_bind [OF same_update_bit])

text \<open>The scan with the readers of the interface.\<close>

fun coef_update_spec ::
  "byte list \<Rightarrow> nat \<Rightarrow> nat \<Rightarrow> nat \<Rightarrow> byte list option \<Rightarrow> nat \<Rightarrow> bool
     \<Rightarrow> (Decoder, byte list option \<times> nat \<times> bool) state" where
  "coef_update_spec [] i nodes ctxs probs n ind = State_Monad.return (probs, n, ind)"
| "coef_update_spec (prob # ps) i nodes ctxs probs n ind = do {
     b \<leftarrow> ReadBool prob;
     if \<not> b then coef_update_spec ps (i + 1) nodes ctxs probs n ind
     else do {
       lit \<leftarrow> ReadLiteral 8;
       coef_update_spec ps (i + 1) nodes ctxs (map_option (\<lambda>t. t[i := ucast lit]) probs) (n + 1)
         (ind \<or> i div nodes mod ctxs \<noteq> 0)
     }
   }"

lemma same_coef_update:
  "same_on_inv (coef_update_loop ps i nodes ctxs probs n ind) (coef_update_spec ps i nodes ctxs probs n ind)"
proof (induction ps arbitrary: i probs n ind)
  case Nil
  then show ?case by (simp add: same_return)
next
  case (Cons p ps)
  have ind: "(if i div nodes mod ctxs \<noteq> 0 then True else ind) = (ind \<or> i div nodes mod ctxs \<noteq> 0)" by auto
  have lit: "same_on_inv (update_literal 0 8) (ReadLiteral 8)"
    using same_update_literal [of 0 8] by (simp add: ReadLiteral_def)
  show ?case
    unfolding coef_update_loop.simps coef_update_spec.simps ind
    by (intro same_bind [OF same_update_flag]) (auto intro!: same_bind [OF lit] Cons)
qed

section \<open>Properties of the coder\<close>

definition write_bools :: "BoolWriter \<Rightarrow> (bool \<times> byte) list \<Rightarrow> BoolWriter" where
  "write_bools w xs = foldl (\<lambda>w x. WriteBool w (of_bool (fst x)) (snd x)) w xs"

fun read_bools :: "byte list \<Rightarrow> (Decoder, bool list) state" where
  "read_bools [] = State_Monad.return []"
| "read_bools (p # ps) = do {
     b \<leftarrow> ReadBool p;
     bs \<leftarrow> read_bools ps;
     State_Monad.return (b # bs)
   }"

lemma emits_write_bools: "emits (\<lambda>w. write_bools w xs) xs"
proof -
  have e: "emits (\<lambda>w. WriteBool w (of_bool (fst x)) (snd x)) [x]" for x :: "bool \<times> byte"
    using emits_WriteBool_of_bool [of "fst x" "snd x"] by simp
  have c: "concat (map (\<lambda>x. [x]) xs) = xs" by (induction xs) auto
  show ?thesis
    using emits_fold [of xs "\<lambda>w x. WriteBool w (of_bool (fst x)) (snd x)" "\<lambda>x. [x]"] e
    unfolding write_bools_def c by blast
qed

lemma reads_read_bools: "reads (read_bools (map snd xs)) xs (map fst xs)"
proof (induction xs)
  case Nil
  then show ?case by (simp add: reads_return)
next
  case (Cons x xs)
  have "reads (read_bools (map snd xs) \<bind> (\<lambda>bs. State_Monad.return (fst x # bs))) (xs @ []) (map fst (x # xs))"
    by (rule reads_bind [OF Cons]) (simp add: reads_return)
  then show ?case
    using reads_bind [OF reads_ReadBool [of "snd x" "fst x"]] by fastforce
qed

lemma read_bools_reaches: "decoder_reaches src d \<Longrightarrow> decoder_reaches src (snd (run_state (read_bools ps) d))"
proof (induction ps arbitrary: d)
  case Nil
  then show ?case by simp
next
  case (Cons p ps)
  then show ?case
    using decoder_reaches.read [OF Cons.prems, of p] by (auto split: prod.splits) (metis snd_conv)
qed

lemma ReadBool_zero:
  "0 \<le> d_count d \<Longrightarrow> d_value d = 0 \<Longrightarrow>
    run_state (ReadBool 0) d = (False, d\<lparr>d_count := d_count d - 7, d_rng := 128\<rparr>)"
proof -
  assume d: "0 \<le> d_count d" "d_value d = 0"
  have "decide 1 d = (False, d\<lparr>d_count := d_count d - 7, d_rng := 128\<rparr>)"
    using d by (simp add: decide_def BoolNorm_def Let_def word_le_nat_alt)
  then show ?thesis using d by (simp add: ReadBool_def Let_def)
qed

text \<open>On zero bytes a bit of probability 0 costs seven shifts.\<close>

lemma read_zeros:
  "7 * int n \<le> d_count d \<Longrightarrow> d_value d = 0 \<Longrightarrow>
    snd (run_state (read_bools (replicate (Suc n) 0)) d)
      = d\<lparr>d_count := d_count d - 7 * int (Suc n), d_rng := 128\<rparr>"
proof (induction n arbitrary: d)
  case 0
  then show ?case by (simp add: ReadBool_zero)
next
  case (Suc n)
  then have "run_state (ReadBool 0) d = (False, d\<lparr>d_count := d_count d - 7, d_rng := 128\<rparr>)"
    by (intro ReadBool_zero) simp_all
  moreover have "snd (run_state (read_bools (replicate (Suc n) 0)) (d\<lparr>d_count := d_count d - 7, d_rng := 128\<rparr>))
      = d\<lparr>d_count := d_count d - 7 * int (Suc (Suc n)), d_rng := 128\<rparr>"
    using Suc.IH [of "d\<lparr>d_count := d_count d - 7, d_rng := 128\<rparr>"] Suc.prems by (simp add: algebra_simps)
  ultimately show ?case
    unfolding replicate_Suc [of "Suc n"] read_bools.simps(2) run_state_bind
    by (simp only: prod.case) (simp only: run_state_return split: prod.splits, metis snd_conv)
qed

text \<open>C2: Whatever bits are written at whatever probabilities, if the encoder reports no error
  then a decoder started on its bytes reads the same bits at those probabilities.\<close>

theorem bool_coder_roundtrip:
  assumes "w_err (Finish (write_bools (Writer_Init dst) xs)) = 0"
  shows "fst (run_state (read_bools (map snd xs))
      (Decoder_Init (Bytes (Finish (write_bools (Writer_Init dst) xs))))) = map fst xs"
  using message_roundtrip [OF emits_write_bools reads_read_bools assms] .

theorem bool_coder_roundtrip_witness:
  "fst (run_state (read_bools [200, 3, 128]) (Decoder_Init (Bytes (Finish
     (write_bools (Writer_Init (replicate 40 0)) [(True, 200), (True, 3), (False, 128)]))))) = [True, True, False]"
proof -
  have "length [(True, 200 :: byte), (True, 3), (False, 128)] + 32 \<le> length (replicate 40 (0 :: byte))" by simp
  from bool_coder_roundtrip [OF message_fits_bound [OF emits_write_bools this]]
  show ?thesis by (simp only: list.map fst_conv snd_conv)
qed

text \<open>C28: The encoder's output does not depend on the size or the contents of the buffer: a
  message that fits one buffer fits every buffer at least as long and gives the same bytes.\<close>

theorem bool_writer_buffer_independent:
  assumes "w_err (Finish (write_bools (Writer_Init dst) xs)) = 0" "length dst \<le> length dst'"
  shows "w_err (Finish (write_bools (Writer_Init dst') xs)) = 0 \<and>
    Bytes (Finish (write_bools (Writer_Init dst') xs)) = Bytes (Finish (write_bools (Writer_Init dst) xs))"
proof -
  note fit = message_fits [OF emits_write_bools [of xs]]
  have "length (message_bytes xs) \<le> length dst'"
    using fit(1) [of dst] assms le_trans by blast
  then have "w_err (Finish (write_bools (Writer_Init dst') xs)) = 0" using fit(1) by blast
  then show ?thesis using fit(2) [of dst'] fit(2) [OF assms(1)] by simp
qed

theorem bool_writer_buffer_independent_witness:
  "Bytes (Finish (write_bools (Writer_Init (replicate 50 7)) [(True, 9)]))
     = Bytes (Finish (write_bools (Writer_Init (replicate 33 0)) [(True, 9)]))"
proof -
  have "length [(True, 9 :: byte)] + 32 \<le> length (replicate 33 (0 :: byte))"
    "length (replicate 33 (0 :: byte)) \<le> length (replicate 50 (7 :: byte))" by simp_all
  from bool_writer_buffer_independent [OF message_fits_bound [OF emits_write_bools this(1)] this(2)]
  show ?thesis by (rule conjunct2)
qed

text \<open>C26: In every state a decoder reaches on any bytes, the batched eight-byte refill does what
  the byte loop does: same window, same bit count, same position.\<close>

theorem fill_batched_is_bytewise:
  assumes "decoder_reaches src d" "d_count d < 0"
  shows "fill d = fill_bytes d"
  using decoder_reaches_inv [OF assms(1)] inv_fillable [OF _ assms(2)] fill_eq_fill_bytes by blast

lemma be_zeros: "be_val (replicate n 0) = 0"
  by (induction n) auto

theorem fill_batched_is_bytewise_witness:
  "\<exists>d. d_count d < 0 \<and> d_pos d + 8 < length (d_buf d) \<and> fill d = fill_bytes d"
proof -
  define d0 where "d0 = Decoder_Init (replicate 20 0)"
  define d where "d = snd (run_state (read_bools (replicate (Suc 8) 0)) d0)"
  have d0: "d_value d0 = 0" "d_count d0 = 56" "d_pos d0 = 8" "length (d_buf d0) = 20"
    by (simp_all add: d0_def Decoder_Init_def fill_def fill_batched_def BigEndian_Uint64_def Let_def be_zeros)
  have "d = d0\<lparr>d_count := d_count d0 - 7 * int (Suc 8), d_rng := 128\<rparr>"
    unfolding d_def by (rule read_zeros) (simp_all add: d0)
  then have "d_count d < 0 \<and> d_pos d + 8 < length (d_buf d)"
    using d0 by simp
  moreover have "decoder_reaches (replicate 20 0) d"
    unfolding d_def d0_def by (intro read_bools_reaches decoder_reaches.start)
  ultimately show ?thesis using fill_batched_is_bytewise by blast
qed

text \<open>C27: \<open>ReadCoefUpdateProbsInto\<close>, which inlines its readers on registers with the split of
  probability 255 special-cased and the byte-wise refill only, is the scan that reads each flag
  with \<open>ReadBool\<close> and each new probability with \<open>ReadLiteral 8\<close>.\<close>

theorem ReadCoefUpdateProbsInto_refines:
  assumes "decoder_reaches src d"
  shows "run_state (ReadCoefUpdateProbsInto updateProbs probs nodes ctxs) d
    = run_state (coef_update_spec updateProbs 0 nodes ctxs probs 0 False) d"
  using same_coef_update [of updateProbs 0 nodes ctxs probs 0 False] decoder_reaches_inv [OF assms]
  by (auto simp: same_on_inv_def ReadCoefUpdateProbsInto_def)

theorem ReadCoefUpdateProbsInto_refines_witness:
  "fst (run_state (ReadCoefUpdateProbsInto [255, 3] (Some [7, 7]) 11 3) (Decoder_Init [0xff, 0x12, 0x34, 0x56]))
     = fst (run_state (coef_update_spec [255, 3] 0 11 3 (Some [7, 7]) 0 False) (Decoder_Init [0xff, 0x12, 0x34, 0x56]))"
  using ReadCoefUpdateProbsInto_refines [OF decoder_reaches.start] by simp

text \<open>C36: \<open>WriteBit\<close> is exactly \<open>WriteBool\<close> at probability 128, and \<open>WriteLiteral\<close> leaves the
  same error state and, without error, the same writer as its bits written one by one.\<close>

theorem WriteBit_WriteLiteral_refine:
  "WriteBit (write_bools (Writer_Init dst) xs) b = WriteBool (write_bools (Writer_Init dst) xs) b 128 \<and>
   (w_err (WriteLiteral (write_bools (Writer_Init dst) xs) v n) = 0 \<longleftrightarrow>
      w_err (write_bools (write_bools (Writer_Init dst) xs) (literal_bits v (nat n))) = 0) \<and>
   (w_err (WriteLiteral (write_bools (Writer_Init dst) xs) v n) = 0 \<longrightarrow>
      WriteLiteral (write_bools (Writer_Init dst) xs) v n
        = write_bools (write_bools (Writer_Init dst) xs) (literal_bits v (nat n)))"
proof -
  define w where "w = write_bools (Writer_Init dst) xs"
  have ok: "writer_ok w"
    unfolding w_def using emitsD(1) [OF emits_write_bools Init_writer(2)] .
  have p: "write_bools w ys = vp8w.puts w ys" for ys
    by (simp add: write_bools_def vp8w.puts_def writer_put_def)
  show ?thesis
    unfolding w_def [symmetric] p
    using WriteBit_WriteBool [OF ok] emitsD(2,3) [OF emits_WriteLiteral [of v n] ok] by blast
qed

theorem WriteBit_WriteLiteral_refine_witness:
  "w_err (WriteLiteral (write_bools (Writer_Init []) []) 5 3) = 0 \<longleftrightarrow>
    w_err (write_bools (write_bools (Writer_Init []) []) (literal_bits 5 3)) = 0"
  using WriteBit_WriteLiteral_refine [of "[]" "[]" 0 5 3] by simp

end
