(* ===== verification/Vp8_Writer_Monad.thy ===== *)
theory Vp8_Writer_Monad
  imports Vp8_Bool_Coder
begin

text \<open>
  Writing operations that return a result. The encoders above the boolean writer return flags
  and errors and stop early; they are state transformers of the \<open>BoolWriter\<close>. \<open>writes m xs r\<close>
  says that \<open>m\<close> codes \<open>xs\<close> and, unless the writer fails, returns \<open>r\<close>; once the writer has
  failed nothing clears its error (\<open>sticky\<close>).
\<close>

named_theorems sticky_intros
named_theorems writes_intros

definition wr :: "(BoolWriter \<Rightarrow> BoolWriter) \<Rightarrow> (BoolWriter, unit) state" where
  "wr f = State (\<lambda>w. ((), f w))"

text \<open>\<open>w.Err() != nil\<close>\<close>

definition werr :: "(BoolWriter, bool) state" where
  "werr = State (\<lambda>w. (Writer_Err w \<noteq> None, w))"

definition sticky :: "(BoolWriter, 'a) state \<Rightarrow> bool" where
  "sticky m \<longleftrightarrow> (\<forall>w. writer_ok w \<longrightarrow> writer_ok (snd (run_state m w)) \<and>
     (w_err w \<noteq> 0 \<longrightarrow> w_err (snd (run_state m w)) \<noteq> 0))"

definition writes :: "(BoolWriter, 'a) state \<Rightarrow> (bool \<times> byte) list \<Rightarrow> 'a \<Rightarrow> bool" where
  "writes m xs r \<longleftrightarrow> sticky m \<and> (\<forall>w. writer_ok w \<longrightarrow> w_err w = 0 \<longrightarrow>
     (w_err (snd (run_state m w)) = 0 \<longleftrightarrow> w_err (vp8w.puts w xs) = 0) \<and>
     (w_err (snd (run_state m w)) = 0 \<longrightarrow> run_state m w = (r, vp8w.puts w xs)))"

lemma sticky_return [sticky_intros]: "sticky (State_Monad.return a)"
  by (simp add: sticky_def)

lemma sticky_bind [sticky_intros]: "sticky m \<Longrightarrow> (\<And>a. sticky (f a)) \<Longrightarrow> sticky (m \<bind> f)"
  by (auto simp: sticky_def split: prod.splits)

lemma sticky_werr [sticky_intros]: "sticky werr"
  by (simp add: sticky_def werr_def)

lemma sticky_if [sticky_intros]: "sticky m \<Longrightarrow> sticky n \<Longrightarrow> sticky (if b then m else n)"
  by simp

lemma emits_sticky: "emits f xs \<Longrightarrow> sticky (wr f)"
  using vp8w.puts_failed by (simp add: emits_def sticky_def wr_def)

lemma emits_writes: "emits f xs \<Longrightarrow> writes (wr f) xs ()"
  unfolding writes_def
proof (intro conjI allI impI)
  assume f: "emits f xs"
  show "sticky (wr f)" using f by (rule emits_sticky)
  fix w assume ok: "writer_ok w"
  note F = emitsD [OF f ok]
  show "w_err (snd (run_state (wr f) w)) = 0 \<longleftrightarrow> w_err (vp8w.puts w xs) = 0"
    using F(2) by (simp only: wr_def state.sel snd_conv)
  show "run_state (wr f) w = ((), vp8w.puts w xs)" if "w_err (snd (run_state (wr f) w)) = 0"
    using F(3) that by (simp only: wr_def state.sel snd_conv)
qed

lemma writes_sticky: "writes m xs r \<Longrightarrow> sticky m"
  by (simp add: writes_def)

lemma sticky_wr_WriteBool [sticky_intros]: "sticky (wr (\<lambda>w. WriteBool w b p))"
  by (rule emits_sticky [OF emits_WriteBool])

lemma sticky_wr_WriteBit [sticky_intros]: "sticky (wr (\<lambda>w. WriteBit w b))"
  by (rule emits_sticky [OF emits_WriteBit])

lemma sticky_wr_WriteLiteral [sticky_intros]: "sticky (wr (\<lambda>w. WriteLiteral w v n))"
  by (rule emits_sticky [OF emits_WriteLiteral])

lemma writes_return [writes_intros]: "writes (State_Monad.return a) [] a"
  by (simp add: writes_def sticky_return)

lemma writes_werr [writes_intros]: "writes werr [] False"
  by (simp add: writes_def sticky_werr) (simp add: werr_def Writer_Err_def)

lemma writes_WriteBool [writes_intros]: "writes (wr (\<lambda>w. WriteBool w b p)) [(b AND 1 \<noteq> 0, p)] ()"
  by (rule emits_writes [OF emits_WriteBool])

lemma writes_WriteBool_of_bool [writes_intros]: "writes (wr (\<lambda>w. WriteBool w (of_bool b) p)) [(b, p)] ()"
  by (rule emits_writes [OF emits_WriteBool_of_bool])

lemma writes_WriteBit_of_bool [writes_intros]: "writes (wr (\<lambda>w. WriteBit w (of_bool b))) [(b, 128)] ()"
  by (rule emits_writes [OF emits_WriteBit_of_bool])

lemma writes_WriteLiteral [writes_intros]: "writes (wr (\<lambda>w. WriteLiteral w v n)) (literal_bits v (nat n)) ()"
  by (rule emits_writes [OF emits_WriteLiteral])

lemma writes_bind:
  assumes m: "writes m xs a" and f: "writes (f a) ys r" and s: "\<And>a. sticky (f a)"
  shows "writes (m \<bind> f) (xs @ ys) r"
  unfolding writes_def
proof (intro conjI allI impI)
  show "sticky (m \<bind> f)" using writes_sticky [OF m] s by (rule sticky_bind)
  fix w assume w: "writer_ok w" "w_err w = 0"
  obtain a1 w1 where r1: "run_state m w = (a1, w1)" by (metis surj_pair)
  have ok1: "writer_ok w1" using writes_sticky [OF m] w(1) r1 unfolding sticky_def by (metis snd_conv)
  have e1: "w_err w1 = 0 \<longleftrightarrow> w_err (vp8w.puts w xs) = 0"
    and v1: "w_err w1 = 0 \<Longrightarrow> a1 = a \<and> w1 = vp8w.puts w xs"
    using m w r1 unfolding writes_def by auto
  obtain a2 w2 where r2: "run_state (f a1) w1 = (a2, w2)" by (metis surj_pair)
  have bind: "run_state (m \<bind> f) w = (a2, w2)" by (simp add: r1 r2)
  have "(w_err w2 = 0 \<longleftrightarrow> w_err (vp8w.puts w (xs @ ys)) = 0) \<and>
    (w_err w2 = 0 \<longrightarrow> a2 = r \<and> w2 = vp8w.puts w (xs @ ys))"
  proof (cases "w_err w1 = 0")
    case True
    then show ?thesis
      using f ok1 r2 v1 unfolding writes_def vp8w.puts_append by auto
  next
    case False
    then have "w_err w2 \<noteq> 0" using s [of a1] ok1 r2 unfolding sticky_def by (metis snd_conv)
    moreover have "w_err (vp8w.puts w (xs @ ys)) \<noteq> 0"
      using False e1 vp8w.puts_failed by (simp add: vp8w.puts_append)
    ultimately show ?thesis by blast
  qed
  then show "w_err (snd (run_state (m \<bind> f) w)) = 0 \<longleftrightarrow> w_err (vp8w.puts w (xs @ ys)) = 0"
    "w_err (snd (run_state (m \<bind> f) w)) = 0 \<Longrightarrow> run_state (m \<bind> f) w = (r, vp8w.puts w (xs @ ys))"
    unfolding bind by auto
qed

lemma writes_emits: "writes m xs r \<Longrightarrow> emits (\<lambda>w. snd (run_state m w)) xs"
  unfolding emits_def
proof (intro allI impI)
  fix w assume m: "writes m xs r" and ok: "writer_ok w"
  have s: "sticky m" using m by (rule writes_sticky)
  have ok': "writer_ok (snd (run_state m w))" using s ok unfolding sticky_def by blast
  show "writer_ok (snd (run_state m w)) \<and>
    (w_err (snd (run_state m w)) = 0 \<longleftrightarrow> w_err (vp8w.puts w xs) = 0) \<and>
    (w_err (snd (run_state m w)) = 0 \<longrightarrow> snd (run_state m w) = vp8w.puts w xs)"
  proof (cases "w_err w = 0")
    case True
    then show ?thesis using m ok ok' unfolding writes_def by auto
  next
    case False
    then have "w_err (snd (run_state m w)) \<noteq> 0" using s ok unfolding sticky_def by blast
    then show ?thesis using ok' False vp8w.puts_failed [OF False] by blast
  qed
qed

text \<open>
  A message: what \<open>m\<close> writes between \<open>Init\<close> and \<open>Finish\<close> is what a matching reader returns.
\<close>

lemma writes_roundtrip:
  assumes "writes m xs r" "reads n xs s"
    and "w_err (Finish (snd (run_state m (Writer_Init dst)))) = 0"
  shows "fst (run_state n (Decoder_Init (Bytes (Finish (snd (run_state m (Writer_Init dst))))))) = s"
  using message_roundtrip [OF writes_emits [OF assms(1)] assms(2,3)] .

lemma writes_result:
  assumes "writes m xs r" "w_err (Finish (snd (run_state m (Writer_Init dst)))) = 0"
  shows "fst (run_state m (Writer_Init dst)) = r"
proof -
  let ?w = "snd (run_state m (Writer_Init dst))"
  have ok: "writer_ok ?w"
    using writes_sticky [OF assms(1)] Init_writer(2) unfolding sticky_def by blast
  have "w_err ?w = 0"
    using assms(2) emitsD(2) [OF emits_Finish ok] vp8w.puts_failed by blast
  then show ?thesis
    using assms(1) Init_writer(2,3) unfolding writes_def by (metis fst_conv)
qed

lemma writes_fit:
  assumes "writes m xs r" "length xs + 32 \<le> length dst"
  shows "w_err (Finish (snd (run_state m (Writer_Init dst)))) = 0"
  using message_fits_bound [OF writes_emits [OF assms(1)] assms(2)] .

end
