(* ===== verification/Vp8_Trees.thy ===== *)
theory Vp8_Trees
  imports Vp8_Writer_Monad
begin

text \<open>
  Token trees: \<^verbatim>\<open>internal/vp8/encoder/tree.go\<close> and \<^verbatim>\<open>internal/vp8/decoder/treereader.go\<close>. A
  tree is the code's \<open>[]int16\<close>: the two entries from index \<open>i\<close> are the children of node \<open>i\<close>, a
  positive entry is the index of a node, any other the negated token of a leaf. \<open>tree_path\<close>
  is the contract between the two sides: the bits, with their probabilities, on the way from
  a node to a leaf.
\<close>

section \<open>Operations\<close>

record TreeToken =
  t_Value :: u32
  t_Len :: nat

text \<open>\<open>findTreeToken\<close>: depth first, bit 0 before bit 1, at most 32 deep.\<close>

function find_tree_token :: "int list \<Rightarrow> nat \<Rightarrow> int \<Rightarrow> u32 \<Rightarrow> nat \<Rightarrow> (u32 \<times> nat) option" where
  "find_tree_token tree node token v depth =
     (if depth \<ge> 32 \<or> node + 1 \<ge> length tree then None
      else
        let try = (\<lambda>b::nat. let next = tree ! (node + b);
                           nextValue = push_bit 1 v OR of_nat b
                       in if next \<le> 0 then (if - next = token then Some (nextValue, depth + 1) else None)
                          else find_tree_token tree (nat next) token nextValue (depth + 1))
        in case try 0 of Some r \<Rightarrow> Some r | None \<Rightarrow> try 1)"
  by pat_completeness auto

termination
  by (relation "measure (\<lambda>(tree, node, token, v, depth). 32 - depth)") auto

declare find_tree_token.simps [simp del]

definition BuildTreeToken :: "int list \<Rightarrow> int \<Rightarrow> TreeToken option" where
  "BuildTreeToken tree token = (if token < 0 then None else
     case find_tree_token tree 0 token 0 0 of
       None \<Rightarrow> None
     | Some (v, len) \<Rightarrow> Some \<lparr>t_Value = v, t_Len = len\<rparr>)"

text \<open>
  The loop of \<open>WriteTreeToken\<close> on the number of bits left. It returns whether the last bit
  led to a leaf; the code keeps the registers in locals and stores them back unless the
  buffer overflowed.
\<close>

fun tree_token_loop :: "BoolWriter \<Rightarrow> int list \<Rightarrow> byte list \<Rightarrow> nat \<Rightarrow> u32 \<Rightarrow> nat \<Rightarrow> bool \<times> BoolWriter" where
  "tree_token_loop w tree probs node v 0 = (False, w)"
| "tree_token_loop w tree probs node v (Suc bitIndex) =
     (if node div 2 \<ge> length probs \<or> node + 1 \<ge> length tree then (False, w)
      else
        let b = drop_bit bitIndex v AND 1;
            split = 1 + drop_bit 8 ((w_rng w - 1) * ucast (probs ! (node div 2)));
            w = (if b = 0 then write_tail w (w_low w) split
                 else write_tail w (w_low w + split) (w_rng w - split))
        in if w_err w \<noteq> 0 then (False, w)
           else
             let next = tree ! (node + unat b)
             in if next \<le> 0 then (bitIndex = 0, w)
                else tree_token_loop w tree probs (nat next) v bitIndex)"

definition WriteTreeToken :: "int list \<Rightarrow> byte list \<Rightarrow> TreeToken \<Rightarrow> (BoolWriter, bool) state" where
  "WriteTreeToken tree probs token = State (\<lambda>w.
     if length probs = 0 \<or> length tree < 2 \<or> t_Len token = 0 \<or> t_Len token > 32 \<or> w_err w \<noteq> 0
     then (False, w)
     else
       let (ok, w') = tree_token_loop w tree probs 0 (t_Value token) (t_Len token)
       in (ok, if w_err w' \<noteq> 0
               then w'\<lparr>w_low := w_low w, w_rng := w_rng w, w_count := w_count w\<rparr> else w'))"

text \<open>
  \<open>ReadTree\<close> loops until it meets a leaf. On a tree whose nodes follow their parents a leaf
  comes within as many steps as the tree has entries (\<open>read_tree_total\<close>), which is the fuel;
  \<open>None\<close> stands for not having met one.
\<close>

fun read_tree_steps :: "nat \<Rightarrow> int list \<Rightarrow> byte list \<Rightarrow> nat \<Rightarrow> (Decoder, int option) state" where
  "read_tree_steps 0 tree probs i = State_Monad.return None"
| "read_tree_steps (Suc fuel) tree probs i = do {
     b \<leftarrow> ReadBool (probs ! (i div 2));
     (let next = tree ! (i + of_bool b)
      in if next \<le> 0 then State_Monad.return (Some (- next))
         else read_tree_steps fuel tree probs (nat next))
   }"

definition ReadTree :: "int list \<Rightarrow> byte list \<Rightarrow> (Decoder, int option) state" where
  "ReadTree tree probs = read_tree_steps (length tree) tree probs 0"

definition ReadCoefToken :: "byte list \<Rightarrow> (Decoder, int option) state" where
  "ReadCoefToken probs = ReadTree CoefTree probs"

definition ReadYMode :: "byte list \<Rightarrow> (Decoder, int option) state" where
  "ReadYMode probs = ReadTree YModeTree probs"

definition ReadKeyFrameYMode :: "byte list \<Rightarrow> (Decoder, int option) state" where
  "ReadKeyFrameYMode probs = ReadTree KeyFrameYModeTree probs"

definition ReadUVMode :: "byte list \<Rightarrow> (Decoder, int option) state" where
  "ReadUVMode probs = ReadTree UVModeTree probs"

definition ReadBMode :: "byte list \<Rightarrow> (Decoder, int option) state" where
  "ReadBMode probs = ReadTree BModeTree probs"

section \<open>The path to a leaf\<close>

fun tree_path :: "int list \<Rightarrow> byte list \<Rightarrow> nat \<Rightarrow> u32 \<Rightarrow> nat \<Rightarrow> ((bool \<times> byte) list \<times> int) option" where
  "tree_path tree probs node v 0 = None"
| "tree_path tree probs node v (Suc n) =
     (if node div 2 \<ge> length probs \<or> node + 1 \<ge> length tree then None
      else
        let b = bit v n; x = (b, probs ! (node div 2)); next = tree ! (node + of_bool b)
        in if next \<le> 0 then (if n = 0 then Some ([x], - next) else None)
           else map_option (map_prod (Cons x) id) (tree_path tree probs (nat next) v n))"

lemma reads_tree_steps:
  assumes "tree_path tree probs node v n = Some (xs, token)" "n \<le> fuel"
  shows "reads (read_tree_steps fuel tree probs node) xs (Some token)"
  using assms
proof (induction n arbitrary: node xs fuel)
  case 0
  then show ?case by simp
next
  case (Suc n)
  obtain f where f: "fuel = Suc f" "n \<le> f" using Suc.prems(2) by (cases fuel) auto
  define b where "b = bit v n"
  define x where "x = (b, probs ! (node div 2))"
  define next' where "next' = tree ! (node + of_bool b)"
  show ?case
  proof (cases "next' \<le> 0")
    case True
    then have "xs = [x]" "token = - next'"
      using Suc.prems(1) by (auto simp: Let_def b_def x_def next'_def split: if_splits)
    then show ?thesis
      unfolding f(1) read_tree_steps.simps x_def
      by (simp only:) (rule reads_ReadBool_step, use True in \<open>simp add: next'_def Let_def reads_return\<close>)
  next
    case False
    then obtain ys where ys: "xs = x # ys" "tree_path tree probs (nat next') v n = Some (ys, token)"
      using Suc.prems(1) by (auto simp: Let_def b_def x_def next'_def split: if_splits)
    have "reads (read_tree_steps f tree probs (nat next')) ys (Some token)"
      using Suc.IH [OF ys(2) f(2)] .
    then show ?thesis
      unfolding f(1) read_tree_steps.simps x_def ys(1)
      by (intro reads_ReadBool_step) (use False in \<open>simp add: next'_def Let_def\<close>)
  qed
qed

lemma reads_ReadTree:
  assumes "tree_path tree probs 0 v n = Some (xs, token)" "n \<le> length tree"
  shows "reads (ReadTree tree probs) xs (Some token)"
  using reads_tree_steps [OF assms] by (simp add: ReadTree_def)

section \<open>Writing a token\<close>

lemma low_bit_unat: "unat (drop_bit n (v :: 'a::len word) AND 1) = of_bool (bit v n)"
  by (simp add: and_one_eq bit_iff_odd_drop_bit mod_2_eq_odd)

lemma tree_token_loop_step:
  assumes "w_err w = 0"
  shows "tree_token_loop w tree probs node v (Suc n) =
     (if node div 2 \<ge> length probs \<or> node + 1 \<ge> length tree then (False, w)
      else let w = writer_put w (bit v n) (probs ! (node div 2)) in
        if w_err w \<noteq> 0 then (False, w)
        else let next = tree ! (node + of_bool (bit v n)) in
          if next \<le> 0 then (n = 0, w) else tree_token_loop w tree probs (nat next) v n)"
  unfolding tree_token_loop.simps Let_def low_bit_unat bit_low_test writer_put_def WriteBool_def
  using assms by (cases "bit v n") simp_all

lemma tree_token_loop_ok:
  assumes "writer_ok w" "w_err w = 0"
  shows "writer_ok (snd (tree_token_loop w tree probs node v n))"
  using assms
proof (induction n arbitrary: w node)
  case 0
  then show ?case by simp
next
  case (Suc n)
  have "writer_ok (writer_put w (bit v n) (probs ! (node div 2)))"
    using Suc.prems(1) by (simp add: writer_put_def WriteBool_ok)
  then show ?case
    using Suc unfolding tree_token_loop_step [OF Suc.prems(2)] by (simp add: Let_def)
qed

lemma tree_token_loop_puts:
  assumes "writer_ok w" "w_err w = 0" "tree_path tree probs node v n = Some (xs, token)"
  defines "r \<equiv> tree_token_loop w tree probs node v n"
  shows "(w_err (snd r) = 0 \<longleftrightarrow> w_err (vp8w.puts w xs) = 0) \<and>
    (w_err (snd r) = 0 \<longrightarrow> r = (True, vp8w.puts w xs))"
  using assms(1-3) unfolding r_def
proof (induction n arbitrary: w node xs)
  case 0
  then show ?case by simp
next
  case (Suc n)
  define b where "b = bit v n"
  define x where "x = (b, probs ! (node div 2))"
  define next' where "next' = tree ! (node + of_bool b)"
  define w' where "w' = writer_put w b (probs ! (node div 2))"
  have ok: "writer_ok w'" using Suc.prems(1) by (simp add: w'_def writer_put_def WriteBool_ok)
  have bounds: "\<not> (node div 2 \<ge> length probs \<or> node + 1 \<ge> length tree)"
    using Suc.prems(3) by (auto split: if_splits)
  have st: "tree_token_loop w tree probs node v (Suc n) = (if w_err w' \<noteq> 0 then (False, w')
      else if next' \<le> 0 then (n = 0, w') else tree_token_loop w' tree probs (nat next') v n)"
    unfolding tree_token_loop_step [OF Suc.prems(2)] Let_def
    using bounds by (simp add: b_def w'_def next'_def)
  show ?case
  proof (cases "next' \<le> 0")
    case True
    then have "xs = [x] \<and> n = 0"
      using Suc.prems(3) by (auto simp: Let_def b_def x_def next'_def split: if_splits)
    then have n0: "n = 0" and puts: "vp8w.puts w xs = w'" by (simp_all add: x_def w'_def)
    have e: "tree_token_loop w tree probs node v (Suc n) = (if w_err w' \<noteq> 0 then (False, w') else (True, w'))"
      unfolding st using True n0 by simp
    show ?thesis unfolding e puts by simp
  next
    case False
    then obtain ys where ys: "xs = x # ys" "tree_path tree probs (nat next') v n = Some (ys, token)"
      using Suc.prems(3) by (auto simp: Let_def b_def x_def next'_def split: if_splits)
    have puts: "vp8w.puts w xs = vp8w.puts w' ys" by (simp add: ys(1) x_def w'_def)
    show ?thesis
    proof (cases "w_err w' = 0")
      case True
      then have e: "tree_token_loop w tree probs node v (Suc n) = tree_token_loop w' tree probs (nat next') v n"
        using False by (simp only: st) simp
      show ?thesis unfolding e puts by (rule Suc.IH [OF ok True ys(2)])
    next
      case err: False
      then have e: "tree_token_loop w tree probs node v (Suc n) = (False, w')"
        by (simp only: st) simp
      show ?thesis unfolding e puts using err vp8w.puts_failed [OF err] by simp
    qed
  qed
qed

lemma sticky_WriteTreeToken [sticky_intros]: "sticky (WriteTreeToken tree probs token)"
  unfolding sticky_def
proof (intro allI impI)
  fix w assume ok: "writer_ok w"
  show "writer_ok (snd (run_state (WriteTreeToken tree probs token) w)) \<and>
    (w_err w \<noteq> 0 \<longrightarrow> w_err (snd (run_state (WriteTreeToken tree probs token) w)) \<noteq> 0)"
    using ok tree_token_loop_ok [OF ok, of tree probs 0 "t_Value token" "t_Len token"]
    by (auto simp: WriteTreeToken_def writer_ok_def split: prod.splits)
qed

lemma writes_WriteTreeToken [writes_intros]:
  assumes path: "tree_path tree probs 0 (t_Value token) (t_Len token) = Some (xs, tok)"
    and len: "t_Len token \<le> 32"
  shows "writes (WriteTreeToken tree probs token) xs True"
  unfolding writes_def
proof (intro conjI allI impI)
  show "sticky (WriteTreeToken tree probs token)" by (rule sticky_WriteTreeToken)
  fix w assume ok: "writer_ok w" "w_err w = 0"
  define r where "r = tree_token_loop w tree probs 0 (t_Value token) (t_Len token)"
  have pos: "t_Len token \<noteq> 0" "length probs \<noteq> 0" "\<not> length tree < 2"
    using path by (cases "t_Len token"; auto split: if_splits)+
  have run: "run_state (WriteTreeToken tree probs token) w =
    (fst r, if w_err (snd r) \<noteq> 0
      then (snd r)\<lparr>w_low := w_low w, w_rng := w_rng w, w_count := w_count w\<rparr> else snd r)"
    using pos len ok(2) by (simp add: WriteTreeToken_def r_def case_prod_beta Let_def)
  note R = tree_token_loop_puts [OF ok path, folded r_def]
  show "w_err (snd (run_state (WriteTreeToken tree probs token) w)) = 0 \<longleftrightarrow> w_err (vp8w.puts w xs) = 0"
    unfolding run using R by simp
  show "run_state (WriteTreeToken tree probs token) w = (True, vp8w.puts w xs)"
    if "w_err (snd (run_state (WriteTreeToken tree probs token) w)) = 0"
  proof -
    have "w_err (snd r) = 0" using that unfolding run by (auto split: if_splits)
    then show ?thesis using R unfolding run by simp
  qed
qed

section \<open>Building a token\<close>

text \<open>A token that is found describes a path to its leaf, in any large enough probability list.\<close>

lemma push_or_bit: "unat v < 2 ^ d \<Longrightarrow> d < 32 \<Longrightarrow> b < 2 \<Longrightarrow>
    unat (push_bit 1 v OR of_nat b :: u32) = 2 * unat v + b"
proof -
  assume d: "unat v < 2 ^ d" "d < 32" and b: "b < 2"
  have "(2::nat) ^ Suc d \<le> 2 ^ 32" using d(2) by (intro power_increasing) auto
  then have "unat v * 2 ^ 1 < 2 ^ LENGTH(32)" using d(1) by simp
  then have s: "unat (push_bit 1 v) = unat v * 2 ^ 1" by (rule unat_push_bit)
  have "unat (of_nat b :: u32) = b" using b by (simp add: unat_of_nat)
  then show ?thesis using unat_or_disjoint [of 1 "push_bit 1 v" "of_nat b"] s b by simp
qed

lemma drop_bit_step:
  assumes "unat (drop_bit n v :: u32) = 2 * x + b" "b < 2"
  shows "bit v n = (b = 1)" "unat (drop_bit (Suc n) v) = x"
proof -
  have "bit v n = odd (unat (drop_bit n v))"
    using bit_unsigned_iff [where 'a = nat, of v n] bit_imp_le_length [of v n]
    by (auto simp: bit_iff_odd [of "unat v"] unat_drop_bit)
  then show "bit v n = (b = 1)" using assms by (auto simp: less_2_cases_iff)
  have "unat (drop_bit (Suc n) v) = unat (drop_bit n v) div 2"
    by (simp only: unat_drop_bit power_Suc2 div_mult2_eq)
  then show "unat (drop_bit (Suc n) v) = x" using assms by simp
qed

definition try_bit :: "int list \<Rightarrow> nat \<Rightarrow> int \<Rightarrow> u32 \<Rightarrow> nat \<Rightarrow> nat \<Rightarrow> (u32 \<times> nat) option" where
  "try_bit tree node token v depth b =
     (let next = tree ! (node + b); nextValue = push_bit 1 v OR of_nat b
      in if next \<le> 0 then (if - next = token then Some (nextValue, depth + 1) else None)
         else find_tree_token tree (nat next) token nextValue (depth + 1))"

lemma find_tree_token_try:
  "find_tree_token tree node token v depth =
     (if depth \<ge> 32 \<or> node + 1 \<ge> length tree then None
      else case try_bit tree node token v depth 0 of
        Some r \<Rightarrow> Some r | None \<Rightarrow> try_bit tree node token v depth 1)"
  unfolding try_bit_def by (subst find_tree_token.simps) (simp only: Let_def)

lemma find_path:
  assumes "find_tree_token tree node token v d = Some (v', len)" "unat v < 2 ^ d"
    and probs: "length tree \<le> 2 * length probs"
  shows "d < len \<and> len \<le> 32 \<and> unat (drop_bit (len - d) v') = unat v \<and>
    (\<exists>xs. tree_path tree probs node v' (len - d) = Some (xs, token))"
  using assms(1,2)
proof (induction "32 - d" arbitrary: node v d)
  case 0
  then show ?case by (simp add: find_tree_token_try)
next
  case (Suc k)
  have d: "d < 32" "node + 1 < length tree"
    using Suc.prems(1) by (auto simp: find_tree_token_try split: if_splits)
  obtain b where b: "b < 2" "try_bit tree node token v d b = Some (v', len)"
  proof (cases "try_bit tree node token v d 0")
    case None
    then show ?thesis using that [of 1] Suc.prems(1) d by (auto simp: find_tree_token_try)
  next
    case (Some r)
    then show ?thesis using that [of 0] Suc.prems(1) d by (auto simp: find_tree_token_try)
  qed
  define next' where "next' = tree ! (node + b)"
  define v1 where "v1 = (push_bit 1 v OR of_nat b :: u32)"
  have v1: "unat v1 = 2 * unat v + b" "unat v1 < 2 ^ (d + 1)"
    using push_or_bit [OF Suc.prems(2) d(1) b(1)] Suc.prems(2) b(1) by (auto simp: v1_def)
  have node: "\<not> (node div 2 \<ge> length probs \<or> node + 1 \<ge> length tree)" using d(2) probs by auto
  have step: "tree_path tree probs node v' (Suc n) =
      (if next' \<le> 0 then (if n = 0 then Some ([(b = 1, probs ! (node div 2))], - next') else None)
       else map_option (map_prod (Cons (b = 1, probs ! (node div 2))) id) (tree_path tree probs (nat next') v' n))"
    if "bit v' n = (b = 1)" for n
  proof -
    have "(of_bool (b = 1) :: nat) = b" using b(1) by (auto simp: less_2_cases_iff)
    then show ?thesis using node that by (simp add: Let_def next'_def)
  qed
  show ?case
  proof (cases "next' \<le> 0")
    case True
    then have r: "- next' = token" "v' = v1" "len = d + 1"
      using b(2) by (auto simp: try_bit_def Let_def next'_def v1_def split: if_splits)
    have "unat (drop_bit 0 v') = 2 * unat v + b" using v1(1) r(2) by simp
    note db = drop_bit_step [OF this b(1)]
    show ?thesis using db step [of 0] True r(1,3) d(1) by simp
  next
    case False
    then have f: "find_tree_token tree (nat next') token v1 (d + 1) = Some (v', len)"
      using b(2) by (auto simp: try_bit_def Let_def next'_def v1_def)
    note ih = Suc.hyps(1) [OF _ f v1(2)]
    have len: "d + 1 < len" "len \<le> 32" "unat (drop_bit (len - (d + 1)) v') = 2 * unat v + b"
      and ex: "\<exists>xs. tree_path tree probs (nat next') v' (len - (d + 1)) = Some (xs, token)"
      using ih Suc.hyps(2) v1(1) by auto
    note db = drop_bit_step [OF len(3) b(1)]
    have n: "len - d = Suc (len - (d + 1))" using len(1) by simp
    show ?thesis unfolding n using db step [OF db(1)] ex False len(1,2) by auto
  qed
qed

lemma BuildTreeToken_path:
  assumes "BuildTreeToken tree token = Some t" "length tree \<le> 2 * length probs"
  shows "t_Len t \<le> 32" "\<exists>xs. tree_path tree probs 0 (t_Value t) (t_Len t) = Some (xs, token)"
  using assms find_path [of tree 0 token 0 0 "t_Value t" "t_Len t" probs]
  by (auto simp: BuildTreeToken_def split: if_splits option.splits)

section \<open>Reading ends\<close>

text \<open>Children of a node come after it and inside the tree.\<close>

definition tree_ok :: "int list \<Rightarrow> bool" where
  "tree_ok tree \<longleftrightarrow> 2 \<le> length tree \<and> even (length tree) \<and>
     (\<forall>i < length tree. 0 < tree ! i \<longrightarrow> even (tree ! i) \<and> int i < tree ! i \<and> tree ! i < ilen tree)"

lemma tree_ok_code [code]:
  "tree_ok tree \<longleftrightarrow> 2 \<le> length tree \<and> even (length tree) \<and>
     list_all (\<lambda>i. 0 < tree ! i \<longrightarrow> even (tree ! i) \<and> int i < tree ! i \<and> tree ! i < ilen tree) [0..<length tree]"
  by (auto simp: tree_ok_def list_all_iff)

lemma read_tree_steps_total:
  assumes "tree_ok tree" "even i" "i < length tree" "length tree - i \<le> fuel"
  shows "fst (run_state (read_tree_steps fuel tree probs i) d) \<noteq> None"
  using assms(2-4)
proof (induction fuel arbitrary: i d)
  case 0
  then show ?case by simp
next
  case (Suc fuel)
  obtain b d' where r: "run_state (ReadBool (probs ! (i div 2))) d = (b, d')" by (metis surj_pair)
  have "even (length tree)" using assms(1) by (simp add: tree_ok_def)
  then have "i + 1 < length tree" using Suc.prems(1,2) by presburger
  then have i': "i + of_bool b < length tree" by simp
  define next' where "next' = tree ! (i + of_bool b)"
  show ?case
  proof (cases "next' \<le> 0")
    case True
    then show ?thesis using r by (simp add: next'_def Let_def)
  next
    case False
    have n: "even next'" "int (i + of_bool b) < next'" "next' < ilen tree"
      using assms(1) i' False unfolding tree_ok_def next'_def by auto
    have "int i \<le> int (i + of_bool b)" by simp
    then have "int i < next'" using n(2) by linarith
    then have "even (nat next')" "nat next' < length tree" "length tree - nat next' \<le> fuel"
      using n(1,3) Suc.prems(3) by (simp_all add: even_nat_iff)
    then have "fst (run_state (read_tree_steps fuel tree probs (nat next')) d') \<noteq> None"
      by (rule Suc.IH)
    then show ?thesis using r False by (simp add: next'_def Let_def)
  qed
qed

lemma codec_trees_ok: "list_all tree_ok [CoefTree, YModeTree, KeyFrameYModeTree, UVModeTree, BModeTree,
    MBSplitTree, MVRefTree, SubMVRefTree, SmallMVTree, Cat1Tree, Cat2Tree, Cat3Tree, Cat4Tree, Cat5Tree, Cat6Tree]"
  by code_simp

section \<open>Properties\<close>

text \<open>C25: A token built for a leaf of a tree and written with one probability per node reads back
  as that token, and the writer reports success.\<close>

theorem tree_token_roundtrip:
  assumes "BuildTreeToken tree token = Some t" "length tree \<le> 2 * length probs" "t_Len t \<le> length tree"
    and "w_err (Finish (snd (run_state (WriteTreeToken tree probs t) (Writer_Init dst)))) = 0"
  shows "fst (run_state (WriteTreeToken tree probs t) (Writer_Init dst)) \<and>
    fst (run_state (ReadTree tree probs)
      (Decoder_Init (Bytes (Finish (snd (run_state (WriteTreeToken tree probs t) (Writer_Init dst))))))) = Some token"
proof -
  obtain xs where p: "tree_path tree probs 0 (t_Value t) (t_Len t) = Some (xs, token)" and l: "t_Len t \<le> 32"
    using BuildTreeToken_path [OF assms(1,2)] by blast
  note wr = writes_WriteTreeToken [OF p l]
  show ?thesis
    using writes_result [OF wr assms(4)] writes_roundtrip [OF wr reads_ReadTree [OF p assms(3)] assms(4)] by simp
qed

lemma token_roundtrip_hyps:
  assumes "BuildTreeToken tree token = Some t" "length tree \<le> 2 * length probs" "64 \<le> length dst"
  shows "w_err (Finish (snd (run_state (WriteTreeToken tree probs t) (Writer_Init dst)))) = 0"
proof -
  obtain xs where p: "tree_path tree probs 0 (t_Value t) (t_Len t) = Some (xs, token)" and l: "t_Len t \<le> 32"
    using BuildTreeToken_path [OF assms(1,2)] by blast
  have "length xs = n" if "tree_path tree probs node v n = Some (xs, token)" for n node v xs
    using that by (induction n arbitrary: node xs) (auto simp: Let_def split: if_splits)
  then have "length xs + 32 \<le> length dst" using p l assms(3) by fastforce
  then show ?thesis using writes_fit [OF writes_WriteTreeToken [OF p l]] by blast
qed

theorem tree_token_roundtrip_witness:
  "\<exists>t. BuildTreeToken CoefTree 7 = Some t \<and> fst (run_state (ReadTree CoefTree (replicate 11 99)) (Decoder_Init
     (Bytes (Finish (snd (run_state (WriteTreeToken CoefTree (replicate 11 99) t) (Writer_Init (replicate 64 0)))))))) = Some 7"
proof -
  have b: "BuildTreeToken CoefTree 7 = Some \<lparr>t_Value = 124, t_Len = 7\<rparr>" by code_simp
  have len: "length CoefTree \<le> 2 * length (replicate 11 (99 :: byte))" "7 \<le> length CoefTree"
    by (simp_all add: CoefTree_def)
  have "w_err (Finish (snd (run_state (WriteTreeToken CoefTree (replicate 11 99) \<lparr>t_Value = 124, t_Len = 7\<rparr>)
      (Writer_Init (replicate 64 0))))) = 0"
    by (rule token_roundtrip_hyps [OF b len(1)]) simp
  from tree_token_roundtrip [OF b len(1) _ this] len(2) b show ?thesis by (simp only: TreeToken.select_convs) blast
qed

text \<open>C37: On every tree of the codec, from any decoder state and with any probabilities,
  \<open>ReadTree\<close> meets a leaf: its loop ends.\<close>

theorem ReadTree_total:
  assumes "tree \<in> set [CoefTree, YModeTree, KeyFrameYModeTree, UVModeTree, BModeTree,
    MBSplitTree, MVRefTree, SubMVRefTree, SmallMVTree, Cat1Tree, Cat2Tree, Cat3Tree, Cat4Tree, Cat5Tree, Cat6Tree]"
  shows "fst (run_state (ReadTree tree probs) d) \<noteq> None"
proof -
  have "tree_ok tree" using assms codec_trees_ok by (auto simp only: list_all_iff)
  then show ?thesis
    unfolding ReadTree_def by (intro read_tree_steps_total) (auto simp: tree_ok_def)
qed

theorem ReadTree_total_witness:
  "fst (run_state (ReadTree CoefTree DefaultYModeProbs) (Decoder_Init [0x80])) \<noteq> None"
  by (rule ReadTree_total) simp

end
