(* ===== verification/Vp8_Mv.thy ===== *)
theory Vp8_Mv
  imports Vp8_Trees "HOL-Library.Signed_Division"
begin

text \<open>
  Motion vectors: the reader of \<^verbatim>\<open>internal/vp8/decoder/mv.go\<close>, the writer and the bit-cost model
  of \<^verbatim>\<open>internal/vp8/encoder/motion.go\<close>. \<open>mv_bits\<close> is the contract of the three: the bits of a
  component with their probabilities. The reader never returns a component beyond 1023, although
  the writer takes components up to 2047 (\<open>mv_component_aliases\<close>).
\<close>

section \<open>Data\<close>

record MotionVector =
  mv_Row :: i16
  mv_Col :: i16

abbreviation mvProbIsShort :: nat where "mvProbIsShort \<equiv> 0"
abbreviation mvProbSign :: nat where "mvProbSign \<equiv> 1"
abbreviation mvProbShort :: nat where "mvProbShort \<equiv> 2"
abbreviation mvNumShort :: int where "mvNumShort \<equiv> 8"
abbreviation mvProbBits :: nat where "mvProbBits \<equiv> 9"
abbreviation mvComponentMax :: int where "mvComponentMax \<equiv> 1023"

text \<open>The order of the long form: bits 0 to 2, then 9 down to 4.\<close>

definition long_order :: "nat list" where
  "long_order = [0, 1, 2, 9, 8, 7, 6, 5, 4]"

section \<open>The decoder\<close>

fun read_mv_bits :: "byte list \<Rightarrow> nat list \<Rightarrow> int \<Rightarrow> (Decoder, int) state" where
  "read_mv_bits probs [] x = State_Monad.return x"
| "read_mv_bits probs (i # is) x = do {
     b \<leftarrow> ReadBool (probs ! (mvProbBits + i));
     read_mv_bits probs is (x + push_bit i (of_bool b))
   }"

text \<open>A tree read always ends at a leaf (\<open>ReadTree_total\<close>): the other case is never taken.\<close>

definition the_leaf :: "int option \<Rightarrow> int" where
  "the_leaf r = (case r of Some v \<Rightarrow> v | None \<Rightarrow> 0)"

definition readMVComponent :: "byte list \<Rightarrow> (Decoder, int) state" where
  "readMVComponent probs = do {
     long \<leftarrow> ReadBool (probs ! mvProbIsShort);
     x \<leftarrow> (if long then do {
             x \<leftarrow> read_mv_bits probs long_order 0;
             b \<leftarrow> (if x AND 0xfff0 = 0 then State_Monad.return True else ReadBool (probs ! (mvProbBits + 3)));
             State_Monad.return (if b then x + 8 else x)
           } else do {
             r \<leftarrow> ReadTree SmallMVTree (drop mvProbShort probs);
             State_Monad.return (the_leaf r)
           });
     if x \<noteq> 0 then do {
       neg \<leftarrow> ReadBool (probs ! mvProbSign);
       State_Monad.return (if neg then - x else x)
     } else State_Monad.return x
   }"

definition DecodeMotionVector :: "byte list list \<Rightarrow> (Decoder, MotionVector) state" where
  "DecodeMotionVector probs = do {
     row \<leftarrow> readMVComponent (probs ! 0);
     col \<leftarrow> readMVComponent (probs ! 1);
     State_Monad.return \<lparr>mv_Row = word_of_int (row * 2), mv_Col = word_of_int (col * 2)\<rparr>
   }"

section \<open>The encoder\<close>

datatype packet_error = ErrInvalidPacketConfig | EncErrBufferTooSmall

definition smallMVTokens :: "TreeToken list" where
  "smallMVTokens = map (\<lambda>i. case BuildTreeToken SmallMVTree (int i) of
     Some t \<Rightarrow> t | None \<Rightarrow> \<lparr>t_Value = 0, t_Len = 0\<rparr>) [0..<8]"

definition writeBoolProb :: "bool \<Rightarrow> byte \<Rightarrow> (BoolWriter, unit) state" where
  "writeBoolProb v prob = (if v then wr (\<lambda>w. WriteBool w 1 prob) else wr (\<lambda>w. WriteBool w 0 prob))"

fun write_mv_bits :: "byte list \<Rightarrow> int \<Rightarrow> nat list \<Rightarrow> (BoolWriter, unit) state" where
  "write_mv_bits probs coded [] = State_Monad.return ()"
| "write_mv_bits probs coded (i # is) = do {
     wr (\<lambda>w. WriteBool w (word_of_int (drop_bit i coded AND 1)) (probs ! (mvProbBits + i)));
     write_mv_bits probs coded is
   }"

definition writeLargeMVComponent :: "byte list \<Rightarrow> int \<Rightarrow> bool \<Rightarrow> (BoolWriter, bool) state" where
  "writeLargeMVComponent probs component negative =
     (if length probs < MVPCount \<or> component < 8 \<or> component > 0x7ff then State_Monad.return False
      else do {
        wr (\<lambda>w. WriteBool w 1 (probs ! mvProbIsShort));
        (let coded = (if component < 16 then component - 8 else component) in do {
           write_mv_bits probs coded long_order;
           if coded AND 0xfff0 \<noteq> 0
           then wr (\<lambda>w. WriteBool w (word_of_int (drop_bit 3 component AND 1)) (probs ! (mvProbBits + 3)))
           else State_Monad.return ()
         });
        (if component \<noteq> 0 then writeBoolProb negative (probs ! mvProbSign) else State_Monad.return ());
        e \<leftarrow> werr;
        State_Monad.return (\<not> e)
      })"

definition writeMVComponent :: "byte list \<Rightarrow> int \<Rightarrow> (BoolWriter, bool) state" where
  "writeMVComponent probs component =
     (let negative = component < 0;
          component = (if negative then - component else component)
      in if component \<ge> 8 then writeLargeMVComponent probs component negative
         else if length probs < MVPCount then State_Monad.return False
         else do {
           wr (\<lambda>w. WriteBool w 0 (probs ! mvProbIsShort));
           ok \<leftarrow> WriteTreeToken SmallMVTree (drop mvProbShort probs) (smallMVTokens ! nat component);
           if \<not> ok then State_Monad.return False
           else do {
             (if component \<noteq> 0 then writeBoolProb negative (probs ! mvProbSign) else State_Monad.return ());
             e \<leftarrow> werr;
             State_Monad.return (\<not> e)
           }
         })"

definition WriteMotionVector :: "byte list list \<Rightarrow> MotionVector \<Rightarrow> (BoolWriter, packet_error option) state" where
  "WriteMotionVector probs mv =
     (if mv_Row mv AND 1 \<noteq> 0 \<or> mv_Col mv AND 1 \<noteq> 0 then State_Monad.return (Some ErrInvalidPacketConfig)
      else do {
        ok \<leftarrow> writeMVComponent (probs ! 0) (sint (mv_Row mv) sdiv 2);
        if \<not> ok then State_Monad.return (Some ErrInvalidPacketConfig)
        else do {
          ok \<leftarrow> writeMVComponent (probs ! 1) (sint (mv_Col mv) sdiv 2);
          if \<not> ok then State_Monad.return (Some ErrInvalidPacketConfig)
          else do {
            e \<leftarrow> werr;
            State_Monad.return (if e then Some EncErrBufferTooSmall else None)
          }
        }
      })"

section \<open>Bit costs\<close>

text \<open>A nil table is the caller's error value; the tables here are lists.\<close>

definition mvBoolCost :: "byte \<Rightarrow> bool \<Rightarrow> int" where
  "mvBoolCost prob b = int (ProbCost ! unat (prob XOR (- of_bool b)))"

fun mv_tree_cost_loop :: "int list \<Rightarrow> byte list \<Rightarrow> nat \<Rightarrow> u32 \<Rightarrow> nat \<Rightarrow> int \<Rightarrow> int" where
  "mv_tree_cost_loop tree probs node v 0 cost = push_bit 30 1"
| "mv_tree_cost_loop tree probs node v (Suc bitIndex) cost =
     (if node div 2 \<ge> length probs \<or> node + 1 \<ge> length tree then push_bit 30 1
      else
        let b = bit v bitIndex;
            cost = cost + mvBoolCost (probs ! (node div 2)) b;
            next = tree ! (node + of_bool b)
        in if next \<le> 0 then (if bitIndex = 0 then cost else push_bit 30 1)
           else mv_tree_cost_loop tree probs (nat next) v bitIndex cost)"

definition mvTreeTokenCost :: "int list \<Rightarrow> byte list \<Rightarrow> TreeToken \<Rightarrow> int" where
  "mvTreeTokenCost tree probs token = mv_tree_cost_loop tree probs 0 (t_Value token) (t_Len token) 0"

definition motionVectorComponentCost :: "int \<Rightarrow> byte list \<Rightarrow> int" where
  "motionVectorComponentCost component probs =
     (if length probs < MVPCount then push_bit 30 1 else
      let mask = drop_bit 63 component;
          x = (component XOR mask) - mask;
          signBit = (mask AND 1 \<noteq> 0)
      in if x < mvNumShort then
           (let cost = mvBoolCost (probs ! mvProbIsShort) False
              + mvTreeTokenCost SmallMVTree (drop mvProbShort probs) (smallMVTokens ! nat x)
            in if x = 0 then cost else cost + mvBoolCost (probs ! mvProbSign) signBit)
         else
           (let cost = mvBoolCost (probs ! mvProbIsShort) True
              + (\<Sum>i\<leftarrow>long_order. mvBoolCost (probs ! (mvProbBits + i)) (bit x i));
                cost = (if x AND 0xfff0 \<noteq> 0 then cost + mvBoolCost (probs ! (mvProbBits + 3)) (bit x 3) else cost)
            in cost + mvBoolCost (probs ! mvProbSign) signBit))"

definition clampMVMCompCostInput :: "int \<Rightarrow> int" where
  "clampMVMCompCostInput component = min (max component 0) mvComponentMax"

definition clampMVSignedComponent :: "int \<Rightarrow> int" where
  "clampMVSignedComponent component = min (max component (- mvComponentMax)) mvComponentMax"

definition MotionVectorBitCost :: "MotionVector \<Rightarrow> MotionVector \<Rightarrow> byte list list \<Rightarrow> int \<Rightarrow> int" where
  "MotionVectorBitCost mv ref probs weight =
     (let row = clampMVMCompCostInput (drop_bit 1 (sint (mv_Row mv) - sint (mv_Row ref)));
          col = clampMVMCompCostInput (drop_bit 1 (sint (mv_Col mv) - sint (mv_Col ref)));
          cost = motionVectorComponentCost row (probs ! 0) + motionVectorComponentCost col (probs ! 1)
      in drop_bit 7 (cost * weight))"

definition MotionVectorErrorCost :: "MotionVector \<Rightarrow> MotionVector \<Rightarrow> byte list list \<Rightarrow> int \<Rightarrow> int" where
  "MotionVectorErrorCost mv ref probs errorPerBit =
     (let row = clampMVMCompCostInput (drop_bit 1 (sint (mv_Row mv) - sint (mv_Row ref)));
          col = clampMVMCompCostInput (drop_bit 1 (sint (mv_Col mv) - sint (mv_Col ref)));
          cost = motionVectorComponentCost row (probs ! 0) + motionVectorComponentCost col (probs ! 1)
      in drop_bit 8 (cost * errorPerBit + 128))"

definition MotionVectorSubpelSearchCost :: "MotionVector \<Rightarrow> MotionVector \<Rightarrow> byte list list \<Rightarrow> int \<Rightarrow> int" where
  "MotionVectorSubpelSearchCost mv ref probs errorPerBit =
     (let row = clampMVSignedComponent (drop_bit 1 (sint (mv_Row mv)) - drop_bit 1 (sint (mv_Row ref)));
          col = clampMVSignedComponent (drop_bit 1 (sint (mv_Col mv)) - drop_bit 1 (sint (mv_Col ref)));
          cost = motionVectorComponentCost row (probs ! 0) + motionVectorComponentCost col (probs ! 1)
      in drop_bit 8 (cost * errorPerBit + 128))"

text \<open>The precomputed component tables, indexed by the component plus 1023.\<close>

definition buildComponent :: "byte list \<Rightarrow> int list" where
  "buildComponent probs = map (\<lambda>d. motionVectorComponentCost (int d - mvComponentMax) probs) [0..<2047]"

definition SubpelSearchCostFromQuarterDeltas ::
  "int list \<times> int list \<Rightarrow> int \<Rightarrow> int \<Rightarrow> int \<Rightarrow> int \<Rightarrow> int \<Rightarrow> int" where
  "SubpelSearchCostFromQuarterDeltas t mvRow4 mvCol4 refRow4 refCol4 errorPerBit =
     (let row = clampMVSignedComponent (mvRow4 - refRow4);
          col = clampMVSignedComponent (mvCol4 - refCol4);
          cost = fst t ! nat (row + mvComponentMax) + snd t ! nat (col + mvComponentMax)
      in drop_bit 8 (cost * errorPerBit + 128))"

definition BitCost :: "int list \<times> int list \<Rightarrow> MotionVector \<Rightarrow> MotionVector \<Rightarrow> int \<Rightarrow> int" where
  "BitCost t mv ref weight =
     (let row = clampMVMCompCostInput (drop_bit 1 (sint (mv_Row mv) - sint (mv_Row ref)));
          col = clampMVMCompCostInput (drop_bit 1 (sint (mv_Col mv) - sint (mv_Col ref)));
          cost = fst t ! nat (row + mvComponentMax) + snd t ! nat (col + mvComponentMax)
      in drop_bit 7 (cost * weight))"

definition ErrorCostFromEighthDeltas ::
  "int list \<times> int list \<Rightarrow> int \<Rightarrow> int \<Rightarrow> int \<Rightarrow> int \<Rightarrow> int \<Rightarrow> int" where
  "ErrorCostFromEighthDeltas t mvRow8 mvCol8 refRow8 refCol8 errorPerBit =
     (let row = clampMVMCompCostInput (drop_bit 1 (mvRow8 - refRow8));
          col = clampMVMCompCostInput (drop_bit 1 (mvCol8 - refCol8));
          cost = fst t ! nat (row + mvComponentMax) + snd t ! nat (col + mvComponentMax)
      in drop_bit 8 (cost * errorPerBit + 128))"

section \<open>The contract\<close>

text \<open>The bits of the small form: the path in the small tree.\<close>

definition small_path :: "byte list \<Rightarrow> nat \<Rightarrow> (bool \<times> byte) list" where
  "small_path probs a = fst (the (tree_path SmallMVTree (drop mvProbShort probs) 0
     (t_Value (smallMVTokens ! a)) (t_Len (smallMVTokens ! a))))"

definition long_bits :: "byte list \<Rightarrow> int \<Rightarrow> nat list \<Rightarrow> (bool \<times> byte) list" where
  "long_bits probs c is = map (\<lambda>i. (bit c i, probs ! (mvProbBits + i))) is"

definition mv_bits :: "byte list \<Rightarrow> int \<Rightarrow> (bool \<times> byte) list" where
  "mv_bits probs c =
     (let a = \<bar>c\<bar>; sign = [(c < 0, probs ! mvProbSign)] in
      if a < 8 then (False, probs ! mvProbIsShort) # small_path probs (nat a) @ (if a \<noteq> 0 then sign else [])
      else let coded = (if a < 16 then a - 8 else a) in
        (True, probs ! mvProbIsShort) # long_bits probs coded long_order
          @ (if coded AND 0xfff0 \<noteq> 0 then [(bit a 3, probs ! (mvProbBits + 3))] else []) @ sign)"

lemma smallMVTokens_built: "a < 8 \<Longrightarrow> BuildTreeToken SmallMVTree (int a) = Some (smallMVTokens ! a)"
proof -
  have "list_all (\<lambda>a. BuildTreeToken SmallMVTree (int a) = Some (smallMVTokens ! a)) [0..<8]" by code_simp
  then show "a < 8 \<Longrightarrow> ?thesis" by (auto simp: list_all_iff)
qed

lemma small_path:
  assumes "a < 8" "MVPCount \<le> length probs"
  shows "tree_path SmallMVTree (drop mvProbShort probs) 0 (t_Value (smallMVTokens ! a)) (t_Len (smallMVTokens ! a))
      = Some (small_path probs a, int a)"
    and "t_Len (smallMVTokens ! a) \<le> 14" "t_Len (smallMVTokens ! a) \<le> 32"
proof -
  have len: "length SmallMVTree \<le> 2 * length (drop mvProbShort probs)"
    using assms(2) by (simp add: SmallMVTree_def)
  note p = BuildTreeToken_path [OF smallMVTokens_built [OF assms(1)] len]
  show "t_Len (smallMVTokens ! a) \<le> 32" by (rule p(1))
  show "tree_path SmallMVTree (drop mvProbShort probs) 0 (t_Value (smallMVTokens ! a)) (t_Len (smallMVTokens ! a))
      = Some (small_path probs a, int a)"
    using p(2) by (auto simp: small_path_def)
  have "list_all (\<lambda>a. t_Len (smallMVTokens ! a) \<le> 14) [0..<8]" by code_simp
  then show "t_Len (smallMVTokens ! a) \<le> 14" using assms(1) by (auto simp: list_all_iff)
qed

section \<open>The writer meets it\<close>

lemma low_bit_word: "(word_of_int (drop_bit i x AND 1) :: byte) = of_bool (bit x i)"
  by (simp add: and_one_eq bit_iff_odd_drop_bit mod_2_eq_odd)

lemma writes_step:
  assumes "writes m [x] ()" "writes n ys r" "sticky n"
  shows "writes (m \<bind> (\<lambda>_. n)) (x # ys) r"
  using writes_bind [OF assms(1), of "\<lambda>_. n"] assms(2,3) by simp

lemma sticky_writeBoolProb [sticky_intros]: "sticky (writeBoolProb v p)"
  unfolding writeBoolProb_def by (intro sticky_intros)

lemma writes_writeBoolProb: "writes (writeBoolProb v p) [(v, p)] ()"
  using writes_WriteBool [of 0 p] writes_WriteBool [of 1 p] by (simp add: writeBoolProb_def)

lemma sticky_write_mv_bits [sticky_intros]: "sticky (write_mv_bits probs c is)"
  by (induction "is") (auto intro!: sticky_intros)

lemma writes_write_mv_bits: "writes (write_mv_bits probs c is) (long_bits probs c is) ()"
proof (induction "is")
  case Nil
  then show ?case by (simp add: long_bits_def writes_return)
next
  case (Cons i "is")
  show ?case
    unfolding write_mv_bits.simps low_bit_word
    using writes_step [OF writes_WriteBool_of_bool Cons sticky_write_mv_bits]
    by (simp add: long_bits_def)
qed

lemma sticky_writeLarge [sticky_intros]: "sticky (writeLargeMVComponent probs c neg)"
  unfolding writeLargeMVComponent_def Let_def by (intro sticky_intros)

lemma sticky_writeMVComponent [sticky_intros]: "sticky (writeMVComponent probs c)"
  unfolding writeMVComponent_def Let_def by (intro sticky_intros)

text \<open>The end of both forms: an optional sign and the error check.\<close>

lemma writes_sign_err:
  "writes (do { (if a \<noteq> 0 then writeBoolProb neg p else State_Monad.return ()); e \<leftarrow> werr; State_Monad.return (\<not> e) })
     (if a \<noteq> (0 :: int) then [(neg, p)] else []) True"
proof -
  have e: "writes (werr \<bind> (\<lambda>e. State_Monad.return (\<not> e))) ([] @ []) True"
    by (rule writes_bind [OF writes_werr]) (use writes_return [of True] in \<open>auto intro: sticky_intros\<close>)
  show ?thesis
  proof (cases "a = 0")
    case True
    then show ?thesis using e by simp
  next
    case False
    then show ?thesis
      using writes_step [OF writes_writeBoolProb e [simplified]]
      by (simp add: sticky_bind sticky_werr sticky_return)
  qed
qed

lemma writes_writeLarge:
  assumes "8 \<le> a" "a \<le> 0x7ff" "MVPCount \<le> length probs" "a = \<bar>c\<bar>"
  shows "writes (writeLargeMVComponent probs a (c < 0)) (mv_bits probs c) True"
proof -
  define coded where "coded = (if a < 16 then a - 8 else a)"
  define bit3 where "bit3 = (if coded AND 0xfff0 \<noteq> 0 then [(bit a 3, probs ! (mvProbBits + 3))] else [])"
  have b3: "writes (if coded AND 0xfff0 \<noteq> 0
      then wr (\<lambda>w. WriteBool w (word_of_int (drop_bit 3 a AND 1)) (probs ! (mvProbBits + 3)))
      else State_Monad.return ()) bit3 ()"
    using writes_WriteBool_of_bool writes_return unfolding bit3_def low_bit_word by auto
  have st: "sticky (if coded AND 0xfff0 \<noteq> 0
      then wr (\<lambda>w. WriteBool w (word_of_int (drop_bit 3 a AND 1)) (probs ! (mvProbBits + 3)))
      else State_Monad.return ())" by (intro sticky_intros)
  have mid: "writes (do { write_mv_bits probs coded long_order;
      if coded AND 0xfff0 \<noteq> 0
      then wr (\<lambda>w. WriteBool w (word_of_int (drop_bit 3 a AND 1)) (probs ! (mvProbBits + 3)))
      else State_Monad.return () }) (long_bits probs coded long_order @ bit3) ()"
    by (rule writes_bind [OF writes_write_mv_bits b3 st])
  have first: "writes (wr (\<lambda>w. WriteBool w 1 (probs ! mvProbIsShort))) [(True, probs ! mvProbIsShort)] ()"
    using writes_WriteBool [of 1] by simp
  have bits: "mv_bits probs c = (True, probs ! mvProbIsShort) # (long_bits probs coded long_order @ bit3)
      @ (if a \<noteq> 0 then [(c < 0, probs ! mvProbSign)] else [])"
  proof -
    have "a \<noteq> 0" "\<not> a < 8" using assms(1) by simp_all
    then show ?thesis
      unfolding mv_bits_def Let_def assms(4) [symmetric] coded_def [symmetric] bit3_def by simp
  qed
  have guard: "\<not> (length probs < MVPCount \<or> a < 8 \<or> a > 0x7ff)" using assms by simp
  show ?thesis
    unfolding bits writeLargeMVComponent_def if_not_P [OF guard] coded_def [symmetric] Let_def
    by (rule writes_step [OF first], rule writes_bind [OF mid], rule writes_sign_err)
      (intro sticky_intros)+
qed

lemma writes_writeMVComponent:
  assumes "\<bar>c\<bar> \<le> 0x7ff" "MVPCount \<le> length probs"
  shows "writes (writeMVComponent probs c) (mv_bits probs c) True"
proof -
  define a where "a = \<bar>c\<bar>"
  have a: "(if c < 0 then - c else c) = a" by (simp add: a_def)
  show ?thesis
  proof (cases "8 \<le> a")
    case True
    then show ?thesis
      using writes_writeLarge [OF True _ assms(2) a_def] assms(1)
      by (simp add: writeMVComponent_def Let_def a a_def)
  next
    case False
    then have n: "nat a < 8" "a = int (nat a)" by (simp_all add: a_def)
    note p = small_path [OF n(1) assms(2)]
    have bits: "mv_bits probs c = (False, probs ! mvProbIsShort) # small_path probs (nat a)
        @ (if a \<noteq> 0 then [(c < 0, probs ! mvProbSign)] else [])"
      using False by (simp add: mv_bits_def a_def [symmetric] Let_def)
    have first: "writes (wr (\<lambda>w. WriteBool w 0 (probs ! mvProbIsShort))) [(False, probs ! mvProbIsShort)] ()"
      using writes_WriteBool [of 0] by simp
    have g: "\<not> length probs < MVPCount" "\<not> 8 \<le> a" using assms(2) False by simp_all
    show ?thesis
      unfolding bits writeMVComponent_def Let_def a if_not_P [OF g(1)] if_not_P [OF g(2)]
      by (rule writes_step [OF first], rule writes_bind [OF writes_WriteTreeToken [OF p(1,3)]])
        (use writes_sign_err in \<open>simp add: a_def\<close>, (intro sticky_intros)+)
  qed
qed

section \<open>The reader meets it\<close>

lemma reads_read_mv_bits:
  "reads (read_mv_bits probs is x) (long_bits probs c is) (x + (\<Sum>i\<leftarrow>is. push_bit i (of_bool (bit c i))))"
proof (induction "is" arbitrary: x)
  case Nil
  then show ?case by (simp add: long_bits_def reads_return)
next
  case (Cons i "is")
  have l: "long_bits probs c (i # is) = (bit c i, probs ! (mvProbBits + i)) # long_bits probs c is"
    by (simp add: long_bits_def)
  show ?case
    unfolding l read_mv_bits.simps
    by (rule reads_ReadBool_step) (use Cons [of "x + push_bit i (of_bool (bit c i))"] in \<open>simp add: add.assoc\<close>)
qed

lemma ten_bits:
  fixes c :: int
  assumes "0 \<le> c" "c < 1024"
  shows "c = of_bool (bit c 0) + 2 * of_bool (bit c 1) + 4 * of_bool (bit c 2) + 8 * of_bool (bit c 3)
    + 16 * of_bool (bit c 4) + 32 * of_bool (bit c 5) + 64 * of_bool (bit c 6) + 128 * of_bool (bit c 7)
    + 256 * of_bool (bit c 8) + 512 * of_bool (bit c 9)"
proof -
  have t: "take_bit 10 c = c" using assms by (simp add: take_bit_eq_mod)
  have "horner_sum of_bool 2 (map (bit c) [0..<10]) = take_bit 10 c"
    by (rule horner_sum_bit_eq_take_bit)
  then have "horner_sum of_bool 2 (map (bit c) [0..<10]) = c" unfolding t .
  moreover have "[0..<10] = [0, 1, 2, 3, 4, 5, 6, 7, 8, 9]" by (simp add: upt_rec)
  ultimately show ?thesis by (simp add: algebra_simps)
qed

lemma long_sum:
  fixes c :: int
  assumes "0 \<le> c" "c < 1024"
  shows "(\<Sum>i\<leftarrow>long_order. push_bit i (of_bool (bit c i))) = c - 8 * of_bool (bit c 3)"
  using ten_bits [OF assms] by (simp add: long_order_def push_bit_eq_mult)

lemma and_fff0:
  fixes y :: int
  assumes "0 \<le> y" "y < 65536"
  shows "y AND 0xfff0 = 0 \<longleftrightarrow> y < 16"
proof -
  have "(0xfff0 :: int) = push_bit 4 (mask 12)" by (simp add: mask_eq_exp_minus_1 push_bit_eq_mult)
  moreover have "y AND push_bit 4 (mask 12) = push_bit 4 (take_bit 12 (drop_bit 4 y))"
    by (rule bit_eqI) (auto simp: bit_simps)
  ultimately have "y AND 0xfff0 = push_bit 4 (take_bit 12 (drop_bit 4 y))" by simp
  also have "take_bit 12 (drop_bit 4 y) = y div 16"
    using assms by (simp add: take_bit_eq_mod drop_bit_eq_div)
  finally show ?thesis using assms by (simp add: push_bit_eq_mult) linarith
qed

lemma bit3_low:
  fixes c :: int
  assumes "0 \<le> c" "c < 8"
  shows "\<not> bit c 3"
  using assms by (simp add: bit_iff_odd)

text \<open>What the long reader makes of the bits of a magnitude up to 1023.\<close>

definition read_long :: "byte list \<Rightarrow> (Decoder, int) state" where
  "read_long probs = do {
     x \<leftarrow> read_mv_bits probs long_order 0;
     b \<leftarrow> (if x AND 0xfff0 = 0 then State_Monad.return True else ReadBool (probs ! (mvProbBits + 3)));
     State_Monad.return (if b then x + 8 else x)
   }"

lemma reads_read_long:
  assumes "8 \<le> a" "a \<le> 1023"
  defines "coded \<equiv> (if a < 16 then a - 8 else a)"
  shows "reads (read_long probs) (long_bits probs coded long_order
    @ (if coded AND 0xfff0 \<noteq> 0 then [(bit a 3, probs ! (mvProbBits + 3))] else [])) a"
proof -
  define y where "y = coded - 8 * of_bool (bit coded 3)"
  have c: "0 \<le> coded" "coded < 1024" using assms by (simp_all add: coded_def)
  have first: "reads (read_mv_bits probs long_order 0) (long_bits probs coded long_order) y"
    using reads_read_mv_bits [of probs long_order 0 coded] long_sum [OF c] by (simp add: y_def)
  have rest: "reads (do {
      b \<leftarrow> (if y AND 0xfff0 = 0 then State_Monad.return True else ReadBool (probs ! (mvProbBits + 3)));
      State_Monad.return (if b then y + 8 else y) })
    (if coded AND 0xfff0 \<noteq> 0 then [(bit a 3, probs ! (mvProbBits + 3))] else []) a"
  proof (cases "a < 16")
    case True
    then have "coded = a - 8" "coded < 8" by (simp_all add: coded_def)
    then have "y = a - 8" "y AND 0xfff0 = 0" "coded AND 0xfff0 = 0"
      using bit3_low [OF c(1)] and_fff0 [of coded] c(1) by (simp_all add: y_def)
    then show ?thesis by (simp add: reads_return)
  next
    case False
    then have e: "coded = a" by (simp add: coded_def)
    have y: "8 \<le> y" "y \<le> 1023" using False assms(2) by (auto simp: y_def e)
    have "\<not> y < 16"
    proof
      assume "y < 16"
      then have "a < 24" unfolding y_def e by (cases "bit a 3") simp_all
      then have "a div 8 = 2" using False by presburger
      then have "\<not> bit a 3" by (simp add: bit_iff_odd)
      then show False using \<open>y < 16\<close> False by (simp add: y_def e)
    qed
    then have "y AND 0xfff0 \<noteq> 0" "coded AND 0xfff0 \<noteq> 0"
      using and_fff0 [of y] and_fff0 [of coded] y c False by (auto simp: e)
    moreover have "(if bit a 3 then y + 8 else y) = a" by (simp add: y_def e)
    ultimately show ?thesis
      using reads_ReadBool_step [of "\<lambda>b. State_Monad.return (if b then y + 8 else y)" "bit a 3" "[]" a]
      by (simp add: reads_return)
  qed
  show ?thesis unfolding read_long_def by (rule reads_bind, rule first, rule rest)
qed

lemma readMVComponent_long:
  "readMVComponent probs = do {
     long \<leftarrow> ReadBool (probs ! mvProbIsShort);
     x \<leftarrow> (if long then read_long probs else do {
             r \<leftarrow> ReadTree SmallMVTree (drop mvProbShort probs);
             State_Monad.return (the_leaf r)
           });
     if x \<noteq> 0 then do {
       neg \<leftarrow> ReadBool (probs ! mvProbSign);
       State_Monad.return (if neg then - x else x)
     } else State_Monad.return x
   }"
  unfolding readMVComponent_def read_long_def by (rule refl)

lemma reads_readMVComponent:
  assumes "\<bar>c\<bar> \<le> 1023" "MVPCount \<le> length probs"
  shows "reads (readMVComponent probs) (mv_bits probs c) c"
proof -
  define a where "a = \<bar>c\<bar>"
  define sign where "sign = (if a \<noteq> 0 then [(c < 0, probs ! mvProbSign)] else [])"
  have tail: "reads (if a \<noteq> 0 then do {
       neg \<leftarrow> ReadBool (probs ! mvProbSign);
       State_Monad.return (if neg then - a else a) } else State_Monad.return a) sign c"
    using reads_ReadBool_step [of "\<lambda>neg. State_Monad.return (if neg then - a else a)" "c < 0" "[]" c]
    by (auto simp: sign_def a_def reads_return abs_if)
  show ?thesis
  proof (cases "a < 8")
    case True
    then have n: "nat a < 8" "int (nat a) = a" by (simp_all add: a_def)
    note p = small_path [OF n(1) assms(2)]
    have bits: "mv_bits probs c = (False, probs ! mvProbIsShort) # small_path probs (nat a) @ sign"
      using True by (simp add: mv_bits_def a_def [symmetric] Let_def sign_def)
    have "t_Len (smallMVTokens ! nat a) \<le> length SmallMVTree" using p(2) by (simp add: SmallMVTree_def)
    note tree = reads_ReadTree [OF p(1) this]
    have mid: "reads (do { r \<leftarrow> ReadTree SmallMVTree (drop mvProbShort probs); State_Monad.return (the_leaf r) })
        (small_path probs (nat a)) a"
      using reads_bind [OF tree, of "\<lambda>r. State_Monad.return (the_leaf r)" "[]" a] n(2)
      by (simp add: the_leaf_def reads_return)
    show ?thesis
      unfolding bits readMVComponent_long
      by (rule reads_ReadBool_step, simp only: if_True if_False) (rule reads_bind, rule mid, rule tail)
  next
    case False
    define coded where "coded = (if a < 16 then a - 8 else a)"
    define long where "long = long_bits probs coded long_order
        @ (if coded AND 0xfff0 \<noteq> 0 then [(bit a 3, probs ! (mvProbBits + 3))] else [])"
    have bits: "mv_bits probs c = (True, probs ! mvProbIsShort) # long @ sign"
      using False by (simp add: mv_bits_def a_def [symmetric] Let_def sign_def long_def coded_def)
    have mid: "reads (read_long probs) long a"
      unfolding long_def coded_def using False assms(1) by (intro reads_read_long) (simp_all add: a_def)
    show ?thesis
      unfolding bits readMVComponent_long
      by (rule reads_ReadBool_step, simp only: if_True if_False) (rule reads_bind, rule mid, rule tail)
  qed
qed

section \<open>The cost is the cost of the bits\<close>

definition bits_cost :: "(bool \<times> byte) list \<Rightarrow> int" where
  "bits_cost xs = (\<Sum>x\<leftarrow>xs. mvBoolCost (snd x) (fst x))"

lemma tree_cost_path:
  "tree_path tree probs node v n = Some (xs, token) \<Longrightarrow>
    mv_tree_cost_loop tree probs node v n cost = cost + bits_cost xs"
proof (induction n arbitrary: node xs cost)
  case 0
  then show ?case by simp
next
  case (Suc n)
  then show ?case
    by (auto simp: Let_def bits_cost_def split: if_splits)
qed

lemma component_mask:
  fixes c :: int
  assumes "\<bar>c\<bar> \<le> 1023"
  shows "drop_bit 63 c = (if c < 0 then -1 else 0)"
proof -
  have "c div 9223372036854775808 = (if c < 0 then -1 else 0)"
  proof (cases "c < 0")
    case True
    have "c div 9223372036854775808 = -1"
      using True assms by (intro int_div_pos_eq [of _ _ _ "c + 9223372036854775808"]) auto
    then show ?thesis using True by simp
  next
    case False
    then show ?thesis using assms by (simp add: div_pos_pos_trivial)
  qed
  then show ?thesis by (simp add: drop_bit_eq_div)
qed

lemma component_abs:
  fixes c :: int
  assumes "\<bar>c\<bar> \<le> 1023"
  shows "(c XOR drop_bit 63 c) - drop_bit 63 c = \<bar>c\<bar>"
  unfolding component_mask [OF assms] by (simp add: not_eq_complement)

lemma long_cost:
  assumes "8 \<le> a" "a \<le> 1023"
  defines "coded \<equiv> (if a < 16 then a - 8 else a)"
  shows "long_bits probs coded long_order = long_bits probs a long_order"
    and "(coded AND 0xfff0 \<noteq> 0) = (a AND 0xfff0 \<noteq> 0)"
proof -
  have "bit (a - 8) i = bit a i" if "a < 16" "i \<noteq> 3" for i
  proof -
    have "a = 8 + (a - 8)" by simp
    have "8 AND (a - 8) = 0"
      using bit3_low [of "a - 8"] assms(1) that(1) and_exp_eq_0_iff_not_bit [of "a - 8" 3]
      by (simp add: and.commute)
    then have "8 OR (a - 8) = a" using disjunctive_add_eq_or [of 8 "a - 8"] by simp
    then have "bit a i = (bit (8 :: int) i \<or> bit (a - 8) i)" using bit_or_iff [of 8 "a - 8" i] by simp
    moreover have "\<not> bit (8 :: int) i"
      using that(2) bit_exp_iff [of 3 i, where 'a = int] by simp
    ultimately show ?thesis by simp
  qed
  then show "long_bits probs coded long_order = long_bits probs a long_order"
    by (simp add: long_bits_def long_order_def coded_def)
  show "(coded AND 0xfff0 \<noteq> 0) = (a AND 0xfff0 \<noteq> 0)"
    using and_fff0 [of coded] and_fff0 [of a] assms(1,2) by (simp add: coded_def)
qed

lemma component_cost:
  assumes "\<bar>c\<bar> \<le> 1023" "MVPCount \<le> length probs"
  shows "motionVectorComponentCost c probs = bits_cost (mv_bits probs c)"
proof -
  define a where "a = \<bar>c\<bar>"
  have sign: "(drop_bit 63 c AND 1 \<noteq> 0) = (c < 0)"
    unfolding component_mask [OF assms(1)] by simp
  have len: "\<not> length probs < MVPCount" using assms(2) by simp
  show ?thesis
  proof (cases "a < 8")
    case True
    then have n: "nat a < 8" by (simp add: a_def)
    have "mvTreeTokenCost SmallMVTree (drop mvProbShort probs) (smallMVTokens ! nat a)
        = bits_cost (small_path probs (nat a))"
      using tree_cost_path [OF small_path(1) [OF n assms(2)]] by (simp add: mvTreeTokenCost_def)
    then show ?thesis
      using True unfolding motionVectorComponentCost_def if_not_P [OF len] Let_def component_abs [OF assms(1)] sign
        mv_bits_def a_def [symmetric]
      by (cases "a = 0") (simp_all add: bits_cost_def)
  next
    case False
    then have "8 \<le> a" "a \<le> 1023" using assms(1) by (simp_all add: a_def)
    note l = long_cost [OF this]
    have "(\<Sum>i\<leftarrow>long_order. mvBoolCost (probs ! (mvProbBits + i)) (bit a i)) = bits_cost (long_bits probs a long_order)"
      by (simp add: bits_cost_def long_bits_def comp_def)
    then show ?thesis
      using False unfolding motionVectorComponentCost_def if_not_P [OF len] Let_def component_abs [OF assms(1)] sign
        mv_bits_def a_def [symmetric] l
      by (simp add: bits_cost_def)
  qed
qed

section \<open>Properties\<close>

definition mv_codable :: "MotionVector \<Rightarrow> bool" where
  "mv_codable mv \<longleftrightarrow> even (sint (mv_Row mv)) \<and> even (sint (mv_Col mv)) \<and>
     \<bar>sint (mv_Row mv)\<bar> \<le> 2046 \<and> \<bar>sint (mv_Col mv)\<bar> \<le> 2046"

lemma even_i16: "even (sint (x :: i16)) \<longleftrightarrow> x AND 1 = 0"
proof -
  have "x AND 1 = of_bool (odd x)" by (simp add: and_one_eq mod_2_eq_odd)
  moreover have "odd x = odd (sint x)"
    using bit_sint_iff [of x 0] by (simp add: bit_0)
  ultimately show ?thesis by simp
qed

lemma half_exact: "even x \<Longrightarrow> x sdiv 2 = x div 2" for x :: int
proof (elim evenE)
  fix b assume x: "x = 2 * b"
  have "\<bar>2 * b\<bar> div 2 = \<bar>b\<bar>" by (simp add: abs_mult)
  then show "x sdiv 2 = x div 2"
    by (simp add: signed_divide_int_def x sgn_mult sgn_mult_abs)
qed

lemma writes_WriteMotionVector:
  assumes "mv_codable mv" "MVPCount \<le> length (probs ! 0)" "MVPCount \<le> length (probs ! 1)"
  shows "writes (WriteMotionVector probs mv)
    (mv_bits (probs ! 0) (sint (mv_Row mv) div 2) @ mv_bits (probs ! 1) (sint (mv_Col mv) div 2)) None"
proof -
  have ev: "\<not> (mv_Row mv AND 1 \<noteq> 0 \<or> mv_Col mv AND 1 \<noteq> 0)"
    "sint (mv_Row mv) sdiv 2 = sint (mv_Row mv) div 2" "sint (mv_Col mv) sdiv 2 = sint (mv_Col mv) div 2"
    using assms(1) by (simp_all add: mv_codable_def even_i16 [symmetric] half_exact)
  have row: "writes (writeMVComponent (probs ! 0) (sint (mv_Row mv) div 2)) (mv_bits (probs ! 0) (sint (mv_Row mv) div 2)) True"
    using assms by (intro writes_writeMVComponent) (auto simp: mv_codable_def)
  have col: "writes (writeMVComponent (probs ! 1) (sint (mv_Col mv) div 2)) (mv_bits (probs ! 1) (sint (mv_Col mv) div 2)) True"
    using assms by (intro writes_writeMVComponent) (auto simp: mv_codable_def)
  have e: "writes (do { e \<leftarrow> werr; State_Monad.return (if e then Some EncErrBufferTooSmall else None) }) [] None"
    using writes_bind [OF writes_werr, of "\<lambda>e. State_Monad.return (if e then Some EncErrBufferTooSmall else None)" "[]" None]
    by (simp add: writes_return sticky_return)
  show ?thesis
    unfolding WriteMotionVector_def if_not_P [OF ev(1)] ev(2,3)
    by (rule writes_bind [OF row], simp only: not_True_eq_False if_False, rule writes_bind [OF col, of _ "[]", unfolded append_Nil2])
      (use e in simp, (intro sticky_intros)+)
qed

lemma reads_DecodeMotionVector:
  assumes "mv_codable mv" "MVPCount \<le> length (probs ! 0)" "MVPCount \<le> length (probs ! 1)"
  shows "reads (DecodeMotionVector probs)
    (mv_bits (probs ! 0) (sint (mv_Row mv) div 2) @ mv_bits (probs ! 1) (sint (mv_Col mv) div 2)) mv"
proof -
  have row: "reads (readMVComponent (probs ! 0)) (mv_bits (probs ! 0) (sint (mv_Row mv) div 2)) (sint (mv_Row mv) div 2)"
    using assms by (intro reads_readMVComponent) (auto simp: mv_codable_def)
  have col: "reads (readMVComponent (probs ! 1)) (mv_bits (probs ! 1) (sint (mv_Col mv) div 2)) (sint (mv_Col mv) div 2)"
    using assms by (intro reads_readMVComponent) (auto simp: mv_codable_def)
  have "sint (mv_Row mv) div 2 * 2 = sint (mv_Row mv)" "sint (mv_Col mv) div 2 * 2 = sint (mv_Col mv)"
    using assms(1) by (simp_all add: mv_codable_def)
  then show ?thesis
    unfolding DecodeMotionVector_def
    by (intro reads_bind [OF row] reads_bind [OF col, of _ "[]", unfolded append_Nil2])
      (cases mv, simp add: reads_return)
qed

text \<open>C24: A motion vector with even components in the coded range is written without an error
  other than a full buffer and read back unchanged, with any probability tables.\<close>

theorem motion_vector_roundtrip:
  assumes "mv_codable mv" "MVPCount \<le> length (probs ! 0)" "MVPCount \<le> length (probs ! 1)"
    and "w_err (Finish (snd (run_state (WriteMotionVector probs mv) (Writer_Init dst)))) = 0"
  shows "fst (run_state (WriteMotionVector probs mv) (Writer_Init dst)) = None \<and>
    fst (run_state (DecodeMotionVector probs)
      (Decoder_Init (Bytes (Finish (snd (run_state (WriteMotionVector probs mv) (Writer_Init dst))))))) = mv"
proof -
  note wr = writes_WriteMotionVector [OF assms(1-3)] and rd = reads_DecodeMotionVector [OF assms(1-3)]
  show ?thesis using writes_result [OF wr assms(4)] writes_roundtrip [OF wr rd assms(4)] by blast
qed

lemma length_mv_bits:
  assumes "MVPCount \<le> length probs"
  shows "length (mv_bits probs c) \<le> 40"
proof -
  have path: "length xs = n" if "tree_path tree probs node v n = Some (xs, token)" for tree probs n node v xs token
    using that by (induction n arbitrary: node xs) (auto simp: Let_def split: if_splits)
  have "length (small_path probs a) \<le> 14" if "a < 8" for a
    using path [OF small_path(1) [OF that assms]] small_path(2) [OF that assms] by simp
  then have "length (small_path probs (nat \<bar>c\<bar>)) \<le> 14" if "\<bar>c\<bar> < 8"
    using that by (simp add: nat_less_iff)
  then show ?thesis
    by (cases "\<bar>c\<bar> < 8") (auto simp: mv_bits_def Let_def long_bits_def long_order_def dest: order_trans)
qed

theorem motion_vector_roundtrip_witness:
  "fst (run_state (DecodeMotionVector DefaultMVContext) (Decoder_Init (Bytes (Finish (snd (run_state
     (WriteMotionVector DefaultMVContext \<lparr>mv_Row = -34, mv_Col = 2046\<rparr>) (Writer_Init (replicate 112 0)))))))) =
     \<lparr>mv_Row = -34, mv_Col = 2046\<rparr>"
proof -
  have c: "mv_codable \<lparr>mv_Row = -34, mv_Col = 2046\<rparr>" by (simp add: mv_codable_def)
  have l: "MVPCount \<le> length (DefaultMVContext ! 0)" "MVPCount \<le> length (DefaultMVContext ! 1)"
    by (simp_all add: DefaultMVContext_def)
  have room: "length (mv_bits (DefaultMVContext ! 0) a @ mv_bits (DefaultMVContext ! 1) b) + 32 \<le> length (replicate 112 (0 :: byte))"
    for a b
    using length_mv_bits [OF l(1), of a] length_mv_bits [OF l(2), of b] by simp
  have "w_err (Finish (snd (run_state (WriteMotionVector DefaultMVContext \<lparr>mv_Row = -34, mv_Col = 2046\<rparr>)
      (Writer_Init (replicate 112 0))))) = 0"
    by (rule writes_fit [OF writes_WriteMotionVector [OF c l] room])
  from motion_vector_roundtrip [OF c l this] show ?thesis by (rule conjunct2)
qed

text \<open>C34: The bit cost of a component is the sum of the table costs of exactly the bits the
  writer codes for it, at their probabilities.\<close>

theorem motion_vector_cost_is_code_length:
  assumes "\<bar>c\<bar> \<le> mvComponentMax" "MVPCount \<le> length probs"
  shows "motionVectorComponentCost c probs = (\<Sum>x\<leftarrow>mv_bits probs c. mvBoolCost (snd x) (fst x)) \<and>
    writes (writeMVComponent probs c) (mv_bits probs c) True"
  using component_cost [OF assms] writes_writeMVComponent [of c probs] assms by (simp add: bits_cost_def)

theorem motion_vector_cost_is_code_length_witness:
  "motionVectorComponentCost 1000 (DefaultMVContext ! 0) =
     (\<Sum>x\<leftarrow>mv_bits (DefaultMVContext ! 0) 1000. mvBoolCost (snd x) (fst x))"
proof -
  have "\<bar>1000\<bar> \<le> mvComponentMax" "MVPCount \<le> length (DefaultMVContext ! 0)"
    by (simp_all add: DefaultMVContext_def)
  from motion_vector_cost_is_code_length [OF this] show ?thesis by (rule conjunct1)
qed

text \<open>The long form of a component from 1040 on has the bits of the component less 1024.\<close>

lemma large_component_aliases:
  assumes "1040 \<le> c" "c \<le> 2047"
  shows "writeLargeMVComponent probs c negative = writeLargeMVComponent probs (c - 1024) negative"
proof -
  have bits: "bit c i = bit (c - 1024) i" if "i < 10" for i
  proof -
    have "take_bit 10 c = take_bit 10 (c - 1024)"
      by (simp add: take_bit_eq_mod mod_diff_right_eq [of c 1024 1024, symmetric])
    then show ?thesis using that by (metis bit_take_bit_iff)
  qed
  have "write_mv_bits probs c is = write_mv_bits probs (c - 1024) is" if "\<forall>i \<in> set is. i < 10" for "is"
    using that by (induction "is") (simp_all add: low_bit_word bits)
  moreover have "\<forall>i \<in> set long_order. i < 10" by (simp add: long_order_def)
  ultimately have long: "write_mv_bits probs c long_order = write_mv_bits probs (c - 1024) long_order"
    by blast
  have f: "c AND 0xfff0 \<noteq> 0" "(c - 1024) AND 0xfff0 \<noteq> 0"
    using and_fff0 [of c] and_fff0 [of "c - 1024"] assms by simp_all
  show ?thesis
    using assms f long by (simp add: writeLargeMVComponent_def Let_def low_bit_word bits)
qed

text \<open>Whatever the bits, a reader returns at most 1023.\<close>

lemma read_mv_bits_bound:
  "x \<le> fst (run_state (read_mv_bits probs is x) d) \<and> fst (run_state (read_mv_bits probs is x) d) \<le> x + (\<Sum>i\<leftarrow>is. push_bit i 1)"
proof (induction "is" arbitrary: x d)
  case (Cons i "is")
  obtain b d' where r: "run_state (ReadBool (probs ! (mvProbBits + i))) d = (b, d')" by (metis surj_pair)
  define y where "y = x + push_bit i (of_bool b)"
  have "x \<le> y" "y \<le> x + push_bit i 1" by (simp_all add: y_def push_bit_eq_mult)
  moreover have "run_state (read_mv_bits probs (i # is) x) d = run_state (read_mv_bits probs is y) d'" using r by (simp add: y_def)
  ultimately show ?case using Cons [of y d'] by (simp only: list.map sum_list.Cons) linarith
qed simp

lemma small_tree_leaf: "0 \<le> the_leaf (fst (run_state (read_tree_steps fuel SmallMVTree probs i) d)) \<and>
    the_leaf (fst (run_state (read_tree_steps fuel SmallMVTree probs i) d)) \<le> 7"
  if "i < 13"
  using that
proof (induction fuel arbitrary: i d)
  case 0
  then show ?case by (simp add: the_leaf_def)
next
  case (Suc fuel)
  have nodes: "\<forall>k < 14. -7 \<le> SmallMVTree ! k \<and> nat (SmallMVTree ! k) < 13" by code_simp
  obtain b d' where r: "run_state (ReadBool (probs ! (i div 2))) d = (b, d')" by (metis surj_pair)
  have "i + of_bool b < 14" using Suc.prems by simp
  then have "-7 \<le> SmallMVTree ! (i + of_bool b)" "nat (SmallMVTree ! (i + of_bool b)) < 13" using nodes by blast+
  then show ?case using Suc.IH [of "nat (SmallMVTree ! (i + of_bool b))" d'] r by (simp add: Let_def the_leaf_def)
qed

lemma readMVComponent_bound: "\<bar>fst (run_state (readMVComponent probs) d)\<bar> \<le> mvComponentMax"
proof -
  let ?mag = "\<lambda>long. if long then do {
             x \<leftarrow> read_mv_bits probs long_order 0;
             b \<leftarrow> (if x AND 0xfff0 = 0 then State_Monad.return True else ReadBool (probs ! (mvProbBits + 3)));
             State_Monad.return (if b then x + 8 else x)
           } else do {
             r \<leftarrow> ReadTree SmallMVTree (drop mvProbShort probs);
             State_Monad.return (the_leaf r)
           }"
  have mag: "0 \<le> fst (run_state (?mag long) d) \<and> fst (run_state (?mag long) d) \<le> 1023" for long d
  proof (cases long)
    case True
    obtain x d' where x: "run_state (read_mv_bits probs long_order 0) d = (x, d')" by (metis surj_pair)
    have "(\<Sum>i\<leftarrow>long_order. push_bit i (1 :: int)) = 1015" by code_simp
    then have "0 \<le> x" "x \<le> 1015" using read_mv_bits_bound [of 0 probs long_order d] x by simp_all
    then show ?thesis using True x by (simp add: case_prod_beta)
  next
    case False
    then show ?thesis
      using small_tree_leaf [of 0 "length SmallMVTree" "drop mvProbShort probs" d] by (simp add: ReadTree_def case_prod_beta)
  qed
  obtain long d1 where l: "run_state (ReadBool (probs ! mvProbIsShort)) d = (long, d1)" by (metis surj_pair)
  obtain x d2 where x: "run_state (?mag long) d1 = (x, d2)" by (rule prod.exhaust)
  have "fst (run_state (readMVComponent probs) d) = fst (run_state (if x \<noteq> 0 then do {
       neg \<leftarrow> ReadBool (probs ! mvProbSign);
       State_Monad.return (if neg then - x else x)
     } else State_Monad.return x) d2)"
    unfolding readMVComponent_def run_state_bind l prod.case x ..
  then show ?thesis using mag [of long d1] x by (simp add: case_prod_beta)
qed

text \<open>C39: The writer takes components from 1024 to 2047 in magnitude and reports success, but no decoder reads them
  back: it never returns a component beyond 1023, whatever the bits. From 1040 on, the writer does exactly what it does
  for the component less 1024, so that a decoder reads that one.\<close>

theorem mv_component_aliases:
  assumes "1024 \<le> \<bar>c\<bar>" "\<bar>c\<bar> \<le> 2047" "MVPCount \<le> length probs"
  shows "writes (writeMVComponent probs c) (mv_bits probs c) True \<and>
    (\<forall>d. \<bar>fst (run_state (readMVComponent probs) d)\<bar> \<le> 1023) \<and>
    (1040 \<le> \<bar>c\<bar> \<longrightarrow> writeMVComponent probs c = writeMVComponent probs (c - sgn c * 1024) \<and>
      reads (readMVComponent probs) (mv_bits probs (c - sgn c * 1024)) (c - sgn c * 1024))"
proof (intro conjI allI impI)
  show "writes (writeMVComponent probs c) (mv_bits probs c) True"
    using writes_writeMVComponent [OF _ assms(3)] assms(2) by simp
  show "\<bar>fst (run_state (readMVComponent probs) d)\<bar> \<le> 1023" for d using readMVComponent_bound by simp
  assume c: "1040 \<le> \<bar>c\<bar>"
  show "reads (readMVComponent probs) (mv_bits probs (c - sgn c * 1024)) (c - sgn c * 1024)"
    by (rule reads_readMVComponent [OF _ assms(3)]) (use assms(1,2) in \<open>auto simp: sgn_if\<close>)
  have large: "writeMVComponent probs x = writeLargeMVComponent probs \<bar>x\<bar> (x < 0)" if "8 \<le> \<bar>x\<bar>" for x
  proof -
    have "(if x < 0 then - x else x) = \<bar>x\<bar>" by simp
    then show ?thesis using that by (simp only: writeMVComponent_def Let_def if_True)
  qed
  have "\<bar>c - sgn c * 1024\<bar> = \<bar>c\<bar> - 1024" "c - sgn c * 1024 < 0 \<longleftrightarrow> c < 0" using c by (auto simp: sgn_if)
  then show "writeMVComponent probs c = writeMVComponent probs (c - sgn c * 1024)"
    using large [of c] large [of "c - sgn c * 1024"] large_component_aliases [OF c assms(2)] c by simp
qed

theorem mv_component_aliases_witness:
  "writes (writeMVComponent (DefaultMVContext ! 0) 1050) (mv_bits (DefaultMVContext ! 0) 1050) True \<and>
    writeMVComponent (DefaultMVContext ! 0) 1050 = writeMVComponent (DefaultMVContext ! 0) 26 \<and>
    reads (readMVComponent (DefaultMVContext ! 0)) (mv_bits (DefaultMVContext ! 0) 26) 26"
proof -
  have len: "MVPCount \<le> length (DefaultMVContext ! 0)" by (simp add: DefaultMVContext_def)
  have c: "1024 \<le> \<bar>1050 :: int\<bar>" "\<bar>1050 :: int\<bar> \<le> 2047" "1040 \<le> \<bar>1050 :: int\<bar>" "1050 - sgn 1050 * 1024 = (26 :: int)" by simp_all
  note t = mv_component_aliases [OF c(1,2) len, unfolded c(4)]
  show ?thesis using t c(3) by blast
qed

lemma buildComponent_nth:
  "\<bar>x\<bar> \<le> mvComponentMax \<Longrightarrow> buildComponent probs ! nat (x + mvComponentMax) = motionVectorComponentCost x probs"
proof -
  assume x: "\<bar>x\<bar> \<le> mvComponentMax"
  then have "nat (x + mvComponentMax) < 2047" by simp
  then have "[0..<2047] ! nat (x + mvComponentMax) = nat (x + mvComponentMax)" by (simp only: nth_upt add_0)
  moreover have "0 \<le> x + mvComponentMax" using x by linarith
  ultimately show ?thesis using x by (simp add: buildComponent_def)
qed

lemma clamp_range: "\<bar>clampMVMCompCostInput x\<bar> \<le> mvComponentMax" "\<bar>clampMVSignedComponent x\<bar> \<le> mvComponentMax"
  by (auto simp: clampMVMCompCostInput_def clampMVSignedComponent_def min_def max_def)

text \<open>C38: A precomputed cost table gives the costs computed directly: the table lookups of the
  search (\<open>BitCost\<close>, \<open>SubpelSearchCostFromQuarterDeltas\<close>) are the direct formulas, for all
  vectors.\<close>

theorem mv_cost_tables_exact:
  "BitCost (buildComponent (probs ! 0), buildComponent (probs ! 1)) mv ref weight = MotionVectorBitCost mv ref probs weight \<and>
   SubpelSearchCostFromQuarterDeltas (buildComponent (probs ! 0), buildComponent (probs ! 1))
       (drop_bit 1 (sint (mv_Row mv))) (drop_bit 1 (sint (mv_Col mv)))
       (drop_bit 1 (sint (mv_Row ref))) (drop_bit 1 (sint (mv_Col ref))) errorPerBit
     = MotionVectorSubpelSearchCost mv ref probs errorPerBit \<and>
   ErrorCostFromEighthDeltas (buildComponent (probs ! 0), buildComponent (probs ! 1))
       (sint (mv_Row mv)) (sint (mv_Col mv)) (sint (mv_Row ref)) (sint (mv_Col ref)) errorPerBit
     = MotionVectorErrorCost mv ref probs errorPerBit"
  unfolding BitCost_def MotionVectorBitCost_def SubpelSearchCostFromQuarterDeltas_def
    MotionVectorSubpelSearchCost_def ErrorCostFromEighthDeltas_def MotionVectorErrorCost_def Let_def
    fst_conv snd_conv buildComponent_nth [OF clamp_range(1)] buildComponent_nth [OF clamp_range(2)]
  by (intro conjI refl)

end
