(* ===== verification/Vp8_Near_Mv.thy ===== *)
theory Vp8_Near_Mv
  imports Vp8_Mv
begin

text \<open>
  Macroblock modes and the search for near motion vectors, on both sides:
  \<^verbatim>\<open>internal/vp8/decoder/mv.go\<close> and \<^verbatim>\<open>macroblock.go\<close> against
  \<^verbatim>\<open>internal/vp8/encoder/interframe_motion.go\<close>. Enum values are the numbers of
  \<^verbatim>\<open>internal/vp8/common/enums.go\<close>; a nil neighbour is \<open>None\<close>. The encoder turns a neighbour's vector
  to the sign bias of the current reference before it tests for zero, the decoder after it.
\<close>

section \<open>Modes\<close>

abbreviation DCPred :: nat where "DCPred \<equiv> 0"
abbreviation VPred :: nat where "VPred \<equiv> 1"
abbreviation HPred :: nat where "HPred \<equiv> 2"
abbreviation TMPred :: nat where "TMPred \<equiv> 3"
abbreviation BPred :: nat where "BPred \<equiv> 4"
abbreviation NearestMV :: nat where "NearestMV \<equiv> 5"
abbreviation NearMV :: nat where "NearMV \<equiv> 6"
abbreviation ZeroMV :: nat where "ZeroMV \<equiv> 7"
abbreviation NewMV :: nat where "NewMV \<equiv> 8"
abbreviation SplitMV :: nat where "SplitMV \<equiv> 9"

abbreviation BDCPred :: nat where "BDCPred \<equiv> 0"
abbreviation BTMPred :: nat where "BTMPred \<equiv> 1"
abbreviation BVEPred :: nat where "BVEPred \<equiv> 2"
abbreviation BHEPred :: nat where "BHEPred \<equiv> 3"
abbreviation BHUPred :: nat where "BHUPred \<equiv> 9"
abbreviation Left4x4 :: nat where "Left4x4 \<equiv> 10"
abbreviation Above4x4 :: nat where "Above4x4 \<equiv> 11"
abbreviation Zero4x4 :: nat where "Zero4x4 \<equiv> 12"
abbreviation New4x4 :: nat where "New4x4 \<equiv> 13"

abbreviation IntraFrame :: nat where "IntraFrame \<equiv> 0"
abbreviation LastFrame :: nat where "LastFrame \<equiv> 1"
abbreviation GoldenFrame :: nat where "GoldenFrame \<equiv> 2"
abbreviation AltRefFrame :: nat where "AltRefFrame \<equiv> 3"

definition zero_mv :: MotionVector where
  "zero_mv = \<lparr>mv_Row = 0, mv_Col = 0\<rparr>"

record MacroblockMode =
  mb_Mode :: nat
  mb_UVMode :: nat
  mb_RefFrame :: nat
  mb_MV :: MotionVector
  mb_Is4x4 :: bool
  mb_MBSkipCoeff :: bool
  mb_SegmentID :: byte
  mb_Partition :: nat
  mb_BModes :: "nat list"
  mb_BlockMV :: "MotionVector list"

definition zero_mode :: MacroblockMode where
  "zero_mode = \<lparr>mb_Mode = 0, mb_UVMode = 0, mb_RefFrame = 0, mb_MV = zero_mv, mb_Is4x4 = False, mb_MBSkipCoeff = False,
     mb_SegmentID = 0, mb_Partition = 0, mb_BModes = replicate 16 0, mb_BlockMV = replicate 16 zero_mv\<rparr>"

record InterFrameMacroblockMode =
  im_BlockMV :: "MotionVector list"
  im_MV :: MotionVector
  im_BModes :: "nat list"
  im_SegmentID :: byte
  im_MBSkipCoeff :: bool
  im_RefFrame :: nat
  im_Mode :: nat
  im_UVMode :: nat
  im_Partition :: nat

record InterModeCounts =
  ic_Intra :: nat
  ic_Nearest :: nat
  ic_Near :: nat
  ic_Split :: nat

definition IsZero :: "MotionVector \<Rightarrow> bool" where
  "IsZero mv \<longleftrightarrow> mv_Row mv = 0 \<and> mv_Col mv = 0"

definition negated :: "MotionVector \<Rightarrow> MotionVector" where
  "negated mv = \<lparr>mv_Row = - mv_Row mv, mv_Col = - mv_Col mv\<rparr>"

section \<open>The decoder's search\<close>

text \<open>The four slots of vectors and counts, and the last used of each.\<close>

record near_state =
  ns_mvs :: "MotionVector list"
  ns_counts :: "nat list"
  ns_mv :: nat
  ns_count :: nat

definition near_init :: near_state where
  "near_init = \<lparr>ns_mvs = replicate 4 zero_mv, ns_counts = replicate 4 0, ns_mv = 0, ns_count = 0\<rparr>"

definition near_push :: "MotionVector \<Rightarrow> near_state \<Rightarrow> near_state" where
  "near_push mv s = s\<lparr>ns_mv := ns_mv s + 1, ns_mvs := (ns_mvs s)[ns_mv s + 1 := mv], ns_count := ns_count s + 1\<rparr>"

definition near_add :: "nat \<Rightarrow> nat \<Rightarrow> near_state \<Rightarrow> near_state" where
  "near_add slot weight s = s\<lparr>ns_counts := (ns_counts s)[slot := ns_counts s ! slot + weight]\<rparr>"

definition biasMotionVector :: "MotionVector \<Rightarrow> nat \<Rightarrow> nat \<Rightarrow> bool list \<Rightarrow> MotionVector" where
  "biasMotionVector mv refFrame target signBias =
     (if signBias ! refFrame = signBias ! target then mv else negated mv)"

definition near_above :: "MacroblockMode option \<Rightarrow> nat \<Rightarrow> bool list \<Rightarrow> near_state \<Rightarrow> near_state" where
  "near_above abv refFrame signBias s =
     (case abv of None \<Rightarrow> s
      | Some m \<Rightarrow>
          if mb_RefFrame m = IntraFrame then s
          else
            let s = (if \<not> IsZero (mb_MV m) then near_push (biasMotionVector (mb_MV m) (mb_RefFrame m) refFrame signBias) s else s)
            in near_add (ns_count s) 2 s)"

definition near_next :: "nat \<Rightarrow> MacroblockMode option \<Rightarrow> nat \<Rightarrow> bool list \<Rightarrow> near_state \<Rightarrow> near_state" where
  "near_next weight nb refFrame signBias s =
     (case nb of None \<Rightarrow> s
      | Some m \<Rightarrow>
          if mb_RefFrame m = IntraFrame then s
          else if \<not> IsZero (mb_MV m) then
            let thisMV = biasMotionVector (mb_MV m) (mb_RefFrame m) refFrame signBias;
                s = (if thisMV \<noteq> ns_mvs s ! ns_mv s then near_push thisMV s else s)
            in near_add (ns_count s) weight s
          else near_add 0 weight s)"

definition splitModeCount :: "MacroblockMode option \<Rightarrow> nat" where
  "splitModeCount mode = (case mode of Some m \<Rightarrow> if mb_Mode m = SplitMV then 1 else 0 | None \<Rightarrow> 0)"

text \<open>The end of the search: ties, the split count, the order of the two nearest, the best.\<close>

definition near_finish :: "nat \<Rightarrow> near_state \<Rightarrow> MotionVector \<times> MotionVector \<times> MotionVector \<times> InterModeCounts" where
  "near_finish split s =
     (let mvs = ns_mvs s;
          c = ns_counts s;
          c = (if c ! 3 \<noteq> 0 \<and> mvs ! ns_mv s = mvs ! 1 then c[1 := c ! 1 + 1] else c);
          c = c[3 := split];
          (c, mvs) = (if c ! 2 > c ! 1 then (c[1 := c ! 2, 2 := c ! 1], mvs[1 := mvs ! 2, 2 := mvs ! 1]) else (c, mvs));
          mvs = (if c ! 1 \<ge> c ! 0 then mvs[0 := mvs ! 1] else mvs)
      in (mvs ! 1, mvs ! 2, mvs ! 0, \<lparr>ic_Intra = c ! 0, ic_Nearest = c ! 1, ic_Near = c ! 2, ic_Split = c ! 3\<rparr>))"

definition FindNearMotionVectors ::
  "MacroblockMode option \<Rightarrow> MacroblockMode option \<Rightarrow> MacroblockMode option \<Rightarrow> nat \<Rightarrow> bool list
     \<Rightarrow> MotionVector \<times> MotionVector \<times> MotionVector \<times> InterModeCounts" where
  "FindNearMotionVectors abv left aboveLeft refFrame signBias =
     near_finish (splitModeCount abv * 2 + splitModeCount left * 2 + splitModeCount aboveLeft)
       (near_next 1 aboveLeft refFrame signBias
         (near_next 2 left refFrame signBias
           (near_above abv refFrame signBias near_init)))"

definition macroblockMotionVectorEdges :: "int \<Rightarrow> int \<Rightarrow> int \<Rightarrow> int \<Rightarrow> int \<times> int \<times> int \<times> int" where
  "macroblockMotionVectorEdges mbRow mbCol codedWidth codedHeight =
     (let mbRows = drop_bit 4 codedHeight;
          mbCols = drop_bit 4 codedWidth
      in (push_bit 3 (- (mbRow * 16)), push_bit 3 ((mbRows - 1 - mbRow) * 16),
          push_bit 3 (- (mbCol * 16)), push_bit 3 ((mbCols - 1 - mbCol) * 16)))"

definition clampModeMVComponent :: "int \<Rightarrow> int \<Rightarrow> int \<Rightarrow> int" where
  "clampModeMVComponent v lowEdge highEdge = min (max v (lowEdge - push_bit 3 16)) (highEdge + push_bit 3 16)"

definition clampMotionVectorToModeEdges :: "MotionVector \<Rightarrow> int \<Rightarrow> int \<Rightarrow> int \<Rightarrow> int \<Rightarrow> MotionVector" where
  "clampMotionVectorToModeEdges mv mbRow mbCol mbRows mbCols =
     (if mbRows \<le> 0 \<or> mbCols \<le> 0 then mv
      else
        let (top, bottom, left, right) = macroblockMotionVectorEdges mbRow mbCol (push_bit 4 mbCols) (push_bit 4 mbRows)
        in \<lparr>mv_Row = word_of_int (clampModeMVComponent (sint (mv_Row mv)) top bottom),
            mv_Col = word_of_int (clampModeMVComponent (sint (mv_Col mv)) left right)\<rparr>)"

section \<open>The encoder's search\<close>

definition isInterIntraMacroblockMode :: "nat \<Rightarrow> bool" where
  "isInterIntraMacroblockMode mode \<longleftrightarrow> mode \<le> BPred"

definition interFrameReference :: "InterFrameMacroblockMode option \<Rightarrow> nat" where
  "interFrameReference mode =
     (case mode of None \<Rightarrow> IntraFrame
      | Some m \<Rightarrow>
          if isInterIntraMacroblockMode (im_Mode m) then IntraFrame
          else if im_RefFrame m = IntraFrame then LastFrame
          else im_RefFrame m)"

definition signBiasMotionVector :: "MotionVector \<Rightarrow> nat \<Rightarrow> nat \<Rightarrow> bool list \<Rightarrow> MotionVector" where
  "signBiasMotionVector mv srcRefFrame targetRefFrame signBias =
     (if srcRefFrame < length signBias \<and> targetRefFrame < length signBias \<and>
        signBias ! srcRefFrame \<noteq> signBias ! targetRefFrame then negated mv else mv)"

definition enc_near_above :: "InterFrameMacroblockMode option \<Rightarrow> nat \<Rightarrow> bool list \<Rightarrow> near_state \<Rightarrow> near_state" where
  "enc_near_above abv refFrame signBias s =
     (case abv of None \<Rightarrow> s
      | Some m \<Rightarrow>
          if interFrameReference abv = IntraFrame then s
          else
            let mv = signBiasMotionVector (im_MV m) (interFrameReference abv) refFrame signBias;
                s = (if \<not> IsZero mv then near_push mv s else s)
            in near_add (ns_count s) 2 s)"

definition enc_near_next :: "nat \<Rightarrow> InterFrameMacroblockMode option \<Rightarrow> nat \<Rightarrow> bool list \<Rightarrow> near_state \<Rightarrow> near_state" where
  "enc_near_next weight nb refFrame signBias s =
     (case nb of None \<Rightarrow> s
      | Some m \<Rightarrow>
          if interFrameReference nb = IntraFrame then s
          else
            let mv = signBiasMotionVector (im_MV m) (interFrameReference nb) refFrame signBias
            in if \<not> IsZero mv then
                 let s = (if mv \<noteq> ns_mvs s ! ns_mv s then near_push mv s else s)
                 in near_add (ns_count s) weight s
               else near_add 0 weight s)"

definition enc_splitModeCount :: "InterFrameMacroblockMode option \<Rightarrow> nat" where
  "enc_splitModeCount mode = (case mode of Some m \<Rightarrow> if im_Mode m = SplitMV then 1 else 0 | None \<Rightarrow> 0)"

definition findNearInterMotionVectors ::
  "InterFrameMacroblockMode option \<Rightarrow> InterFrameMacroblockMode option \<Rightarrow> InterFrameMacroblockMode option \<Rightarrow> nat \<Rightarrow> bool list
     \<Rightarrow> MotionVector \<times> MotionVector \<times> MotionVector \<times> InterModeCounts" where
  "findNearInterMotionVectors abv left aboveLeft refFrame signBias =
     near_finish (enc_splitModeCount abv * 2 + enc_splitModeCount left * 2 + enc_splitModeCount aboveLeft)
       (enc_near_next 1 aboveLeft refFrame signBias
         (enc_near_next 2 left refFrame signBias
           (enc_near_above abv refFrame signBias near_init)))"

definition clampInterMotionVectorToModeEdges :: "MotionVector \<Rightarrow> int \<Rightarrow> int \<Rightarrow> int \<Rightarrow> int \<Rightarrow> MotionVector" where
  "clampInterMotionVectorToModeEdges mv mbRow mbCol mbRows mbCols =
     (if mbRows \<le> 0 \<or> mbCols \<le> 0 then mv
      else
        let top = push_bit 3 (- (mbRow * 16));
            bottom = push_bit 3 ((mbRows - 1 - mbRow) * 16);
            left = push_bit 3 (- (mbCol * 16));
            right = push_bit 3 ((mbCols - 1 - mbCol) * 16)
        in \<lparr>mv_Row = word_of_int (clampModeMVComponent (sint (mv_Row mv)) top bottom),
            mv_Col = word_of_int (clampModeMVComponent (sint (mv_Col mv)) left right)\<rparr>)"

section \<open>The two searches agree\<close>

text \<open>What the decoder holds of a macroblock the encoder coded.\<close>

definition same_mode :: "MacroblockMode \<Rightarrow> InterFrameMacroblockMode \<Rightarrow> bool" where
  "same_mode d e \<longleftrightarrow> mb_Mode d = im_Mode e \<and> mb_RefFrame d = interFrameReference (Some e) \<and>
     (interFrameReference (Some e) \<noteq> IntraFrame \<longrightarrow> mb_MV d = im_MV e)"

lemma IsZero_negated [simp]: "IsZero (negated mv) = IsZero mv"
  by (simp add: IsZero_def negated_def)

lemma bias_agree:
  assumes "src < length signBias" "target < length signBias"
  shows "signBiasMotionVector mv src target signBias = biasMotionVector mv src target signBias"
  using assms by (simp add: signBiasMotionVector_def biasMotionVector_def)

lemma IsZero_bias [simp]: "IsZero (biasMotionVector mv src target signBias) = IsZero mv"
  by (simp add: biasMotionVector_def)

text \<open>References that index the sign-bias table.\<close>

definition nb_ref_ok :: "InterFrameMacroblockMode option \<Rightarrow> bool" where
  "nb_ref_ok nb \<longleftrightarrow> interFrameReference nb < 4"

lemma near_above_agree:
  assumes "rel_option same_mode d e" "nb_ref_ok e" "refFrame < 4" "length signBias = 4"
  shows "near_above d refFrame signBias s = enc_near_above e refFrame signBias s"
  using assms
  by (cases d; cases e) (auto simp: near_above_def enc_near_above_def same_mode_def nb_ref_ok_def bias_agree Let_def)

lemma near_next_agree:
  assumes "rel_option same_mode d e" "nb_ref_ok e" "refFrame < 4" "length signBias = 4"
  shows "near_next w d refFrame signBias s = enc_near_next w e refFrame signBias s"
  using assms
  by (cases d; cases e) (auto simp: near_next_def enc_near_next_def same_mode_def nb_ref_ok_def bias_agree Let_def)

lemma split_count_agree: "rel_option same_mode d e \<Longrightarrow> splitModeCount d = enc_splitModeCount e"
  by (cases d; cases e) (auto simp: splitModeCount_def enc_splitModeCount_def same_mode_def)

lemma near_vectors_agree:
  assumes "rel_option same_mode da ea" "rel_option same_mode dl el" "rel_option same_mode dal eal"
    and "nb_ref_ok ea" "nb_ref_ok el" "nb_ref_ok eal" "refFrame < 4" "length signBias = 4"
  shows "FindNearMotionVectors da dl dal refFrame signBias = findNearInterMotionVectors ea el eal refFrame signBias"
  unfolding FindNearMotionVectors_def findNearInterMotionVectors_def
    near_above_agree [OF assms(1,4,7,8)] near_next_agree [OF assms(2,5,7,8)] near_next_agree [OF assms(3,6,7,8)]
    split_count_agree [OF assms(1)] split_count_agree [OF assms(2)] split_count_agree [OF assms(3)] ..

lemma clamp_agree: "clampInterMotionVectorToModeEdges mv r c rows cols = clampMotionVectorToModeEdges mv r c rows cols"
  by (simp add: clampInterMotionVectorToModeEdges_def clampMotionVectorToModeEdges_def macroblockMotionVectorEdges_def Let_def drop_bit_push_bit_int)

section \<open>What the counts index\<close>

text \<open>Each neighbour adds its weight to one of the four counts.\<close>

definition near_within :: "nat \<Rightarrow> near_state \<Rightarrow> bool" where
  "near_within k s \<longleftrightarrow> length (ns_counts s) = 4 \<and> length (ns_mvs s) = 4 \<and> sum_list (ns_counts s) \<le> k"

lemma near_within_push: "near_within k s \<Longrightarrow> near_within k (near_push mv s)"
  by (simp add: near_within_def near_push_def)

lemma sum_list_add: "i < length xs \<Longrightarrow> sum_list (xs[i := xs ! i + (w :: nat)]) = sum_list xs + w"
  using sum_list_update [of i xs "xs ! i + w"] member_le_sum_list [OF nth_mem, of i xs] by simp

lemma near_within_add: "near_within k s \<Longrightarrow> near_within (k + w) (near_add i w s)"
  by (cases "i < 4") (auto simp: near_within_def near_add_def sum_list_add list_update_beyond)

lemma near_within_mono: "near_within k s \<Longrightarrow> k \<le> l \<Longrightarrow> near_within l s"
  by (simp add: near_within_def)

lemma near_within_above: "near_within k s \<Longrightarrow> near_within (k + 2) (near_above abv refFrame signBias s)"
  by (auto simp: near_above_def Let_def split: option.split simp del: add_2_eq_Suc'
      intro: near_within_add near_within_push near_within_mono [of k])

lemma near_within_next: "near_within k s \<Longrightarrow> near_within (k + w) (near_next w nb refFrame signBias s)"
  by (auto simp: near_next_def Let_def split: option.split intro: near_within_add near_within_push near_within_mono [of k])

lemma near_finish_counts:
  assumes "near_within 5 s" "split \<le> 5"
  shows "case near_finish split s of (_, _, _, c) \<Rightarrow> ic_Intra c < 6 \<and> ic_Nearest c < 6 \<and> ic_Near c < 6 \<and> ic_Split c < 6"
proof -
  obtain a b c d where s: "ns_counts s = [a, b, c, d]" "a + b + c + d \<le> 5"
    using assms(1) by (auto simp: near_within_def length_Suc_conv eval_nat_numeral)
  then show ?thesis using assms(2) by (auto simp: near_finish_def Let_def split: prod.split)
qed

lemma near_counts_bound:
  "case FindNearMotionVectors abv left aboveLeft refFrame signBias of (_, _, _, c) \<Rightarrow>
     ic_Intra c < 6 \<and> ic_Nearest c < 6 \<and> ic_Near c < 6 \<and> ic_Split c < 6"
  unfolding FindNearMotionVectors_def
proof (rule near_finish_counts)
  have "near_within 0 near_init" by (simp add: near_within_def near_init_def)
  from near_within_next [OF near_within_next [OF near_within_above [OF this]], of 2 1]
  show "near_within 5 (near_next 1 aboveLeft refFrame signBias (near_next 2 left refFrame signBias (near_above abv refFrame signBias near_init)))"
    by (simp add: eval_nat_numeral)
  show "splitModeCount abv * 2 + splitModeCount left * 2 + splitModeCount aboveLeft \<le> 5"
    by (simp add: splitModeCount_def split: option.split)
qed

section \<open>What clamping does\<close>

lemma clamp_component_exact:
  fixes v :: "16 word"
  assumes "lo \<le> 0" "0 \<le> hi"
  shows "sint (word_of_int (min (max (sint v) lo) hi) :: 16 word) = min (max (sint v) lo) hi"
proof -
  have "- (2 ^ 15) \<le> sint v" "sint v < 2 ^ 15" using sint_ge [of v] sint_lt [of v] by simp_all
  then have "- (2 ^ 15) \<le> min (max (sint v) lo) hi" "min (max (sint v) lo) hi < 2 ^ 15" using assms by linarith+
  then show ?thesis by (simp add: sint_sbintrunc' signed_take_bit_int_eq_self)
qed

lemma clamp_mode_exact:
  assumes "0 \<le> mbRow" "mbRow < mbRows" "0 \<le> mbCol" "mbCol < mbCols"
    and c: "c = clampMotionVectorToModeEdges mv mbRow mbCol mbRows mbCols"
  shows "sint (mv_Row c) = min (max (sint (mv_Row mv)) (- 128 * (mbRow + 1))) (128 * (mbRows - mbRow)) \<and>
    sint (mv_Col c) = min (max (sint (mv_Col mv)) (- 128 * (mbCol + 1))) (128 * (mbCols - mbCol))"
proof -
  have edges: "macroblockMotionVectorEdges mbRow mbCol (push_bit 4 mbCols) (push_bit 4 mbRows) =
      (- 128 * mbRow, 128 * (mbRows - 1 - mbRow), - 128 * mbCol, 128 * (mbCols - 1 - mbCol))"
  proof -
    have "drop_bit 4 (push_bit 4 x) = x" for x :: int by (simp add: drop_bit_push_bit_int)
    then show ?thesis unfolding macroblockMotionVectorEdges_def Let_def by (simp only:) (simp add: push_bit_eq_mult)
  qed
  have comp: "sint (word_of_int (clampModeMVComponent (sint v) (- 128 * k) (128 * (n - 1 - k))) :: 16 word) =
      min (max (sint v) (- 128 * (k + 1))) (128 * (n - k))" if "0 \<le> k" "k < n" for v :: "16 word" and k n :: int
  proof -
    have "clampModeMVComponent (sint v) (- 128 * k) (128 * (n - 1 - k)) = min (max (sint v) (- 128 * (k + 1))) (128 * (n - k))"
      by (simp add: clampModeMVComponent_def push_bit_eq_mult algebra_simps)
    then show ?thesis using that by (simp only:) (rule clamp_component_exact; simp)
  qed
  have pos: "\<not> (mbRows \<le> 0 \<or> mbCols \<le> 0)" using assms(1-4) by linarith
  show ?thesis
    unfolding c clampMotionVectorToModeEdges_def if_not_P [OF pos] edges Let_def prod.case MotionVector.simps
    using comp [OF assms(1,2)] comp [OF assms(3,4)] by blast
qed

section \<open>Properties\<close>

text \<open>C22: Encoder and decoder search the same motion vectors. When the decoder's above, left and above-left macroblocks are
  what the encoder coded (or absent alike), both searches return the same nearest, near and best vectors and the same counts,
  though one tests for a zero vector before the sign bias and the other after, and one infers a missing reference.\<close>

theorem near_mv_search_agrees:
  assumes "rel_option same_mode da ea" "rel_option same_mode dl el" "rel_option same_mode dal eal"
    and "nb_ref_ok ea" "nb_ref_ok el" "nb_ref_ok eal" "refFrame < 4" "length signBias = 4"
  shows "FindNearMotionVectors da dl dal refFrame signBias = findNearInterMotionVectors ea el eal refFrame signBias \<and>
    clampInterMotionVectorToModeEdges mv r c rows cols = clampMotionVectorToModeEdges mv r c rows cols"
  using near_vectors_agree [OF assms] clamp_agree by blast

text \<open>An above neighbour from the golden frame, whose bias differs, a left one without its reference, nothing above-left.\<close>

definition sample_inter_above :: InterFrameMacroblockMode where
  "sample_inter_above = \<lparr>im_BlockMV = replicate 16 zero_mv, im_MV = \<lparr>mv_Row = 12, mv_Col = - 4\<rparr>, im_BModes = replicate 16 0,
     im_SegmentID = 0, im_MBSkipCoeff = False, im_RefFrame = GoldenFrame, im_Mode = NewMV, im_UVMode = 0, im_Partition = 0\<rparr>"

definition sample_inter_left :: InterFrameMacroblockMode where
  "sample_inter_left = sample_inter_above\<lparr>im_MV := \<lparr>mv_Row = 0, mv_Col = 7\<rparr>, im_RefFrame := IntraFrame, im_Mode := SplitMV\<rparr>"

definition sample_inter_held :: "InterFrameMacroblockMode \<Rightarrow> MacroblockMode" where
  "sample_inter_held m = zero_mode\<lparr>mb_Mode := im_Mode m, mb_RefFrame := interFrameReference (Some m), mb_MV := im_MV m\<rparr>"

lemma near_mv_search_agrees_witness:
  "FindNearMotionVectors (Some (sample_inter_held sample_inter_above)) (Some (sample_inter_held sample_inter_left)) None
     LastFrame [False, False, True, False] =
   findNearInterMotionVectors (Some sample_inter_above) (Some sample_inter_left) None LastFrame [False, False, True, False]"
  by (rule near_mv_search_agrees [THEN conjunct1])
    (simp_all add: same_mode_def sample_inter_held_def nb_ref_ok_def interFrameReference_def isInterIntraMacroblockMode_def
      sample_inter_above_def sample_inter_left_def)

text \<open>C33: The counts the search returns are below 6 whatever the neighbours hold, so each of them is a row of the mode context
  table, which has 6.\<close>

theorem near_mode_counts_index:
  "case FindNearMotionVectors abv left aboveLeft refFrame signBias of (_, _, _, c) \<Rightarrow>
     ic_Intra c < length InterModeContexts \<and> ic_Nearest c < length InterModeContexts \<and>
     ic_Near c < length InterModeContexts \<and> ic_Split c < length InterModeContexts"
proof -
  have "length InterModeContexts = 6" by code_simp
  then show ?thesis using near_counts_bound [of abv left aboveLeft refFrame signBias] by simp
qed

text \<open>C32: Clamping a vector at a macroblock inside the frame never wraps, however large the frame: the components are the old
  ones limited to 128 eighths of a pixel per macroblock, one macroblock beyond the frame's edges.\<close>

theorem mode_clamp_exact:
  assumes "0 \<le> mbRow" "mbRow < mbRows" "0 \<le> mbCol" "mbCol < mbCols"
  shows "sint (mv_Row (clampMotionVectorToModeEdges mv mbRow mbCol mbRows mbCols)) =
      min (max (sint (mv_Row mv)) (- 128 * (mbRow + 1))) (128 * (mbRows - mbRow)) \<and>
    sint (mv_Col (clampMotionVectorToModeEdges mv mbRow mbCol mbRows mbCols)) =
      min (max (sint (mv_Col mv)) (- 128 * (mbCol + 1))) (128 * (mbCols - mbCol))"
  by (rule clamp_mode_exact [OF assms refl])

lemma mode_clamp_exact_witness:
  "sint (mv_Row (clampMotionVectorToModeEdges \<lparr>mv_Row = - 32768, mv_Col = 32767\<rparr> 1000 3 1024 5)) = - 32768 \<and>
   sint (mv_Col (clampMotionVectorToModeEdges \<lparr>mv_Row = - 32768, mv_Col = 32767\<rparr> 1000 3 1024 5)) = 256"
  using mode_clamp_exact [of 1000 1024 3 5 "\<lparr>mv_Row = - 32768, mv_Col = 32767\<rparr>"] by simp

end
