(* ===== verification/Vp8_Message.thy ===== *)
theory Vp8_Message
  imports Vp8_Writer_Monad Coder_Tail
begin

text \<open>
  Matching writers and readers. \<open>codes m n r s\<close>: some bits are what \<open>m\<close> codes, returning \<open>r\<close>, and
  what \<open>n\<close> decodes to \<open>s\<close>. The rules follow the structure of the two programs, so a header's
  writer and parser are matched step by step; \<open>codes_message\<close> then runs the pair over a packet,
  with whatever bytes follow the message.
\<close>

lemma gets_inv: "decoder_inv d \<Longrightarrow> vp8r.gets d xs d' \<Longrightarrow> decoder_inv d'"
proof (induction xs arbitrary: d)
  case (Cons x xs)
  have "decoder_inv (snd (reader_get d (snd x)))"
    using ReadBool_inv [OF Cons.prems(1)] by (simp add: reader_get_def)
  then show ?case using Cons by simp
qed simp

abbreviation reads_inv :: "(Decoder, 'a) state \<Rightarrow> (bool \<times> byte) list \<Rightarrow> 'a \<Rightarrow> bool" where
  "reads_inv \<equiv> reads_in decoder_inv"

lemma reads_reads_inv: "reads m xs r \<Longrightarrow> reads_inv m xs r"
  by (simp add: reads_in_def decoder_inv_def)

lemma reads_inv_bind:
  assumes "reads_inv m xs a" "reads_inv (f a) ys r"
  shows "reads_inv (m \<bind> f) (xs @ ys) r"
  using assms gets_inv unfolding reads_in_def vp8r.gets_append by (force split: prod.splits)

lemma reads_inv_same: "same_on_inv m n \<Longrightarrow> reads_inv n xs r \<Longrightarrow> reads_inv m xs r"
  by (simp add: reads_in_def same_on_inv_def)

definition codes :: "(BoolWriter, 'a) state \<Rightarrow> (Decoder, 'b) state \<Rightarrow> 'a \<Rightarrow> 'b \<Rightarrow> bool" where
  "codes m n r s \<longleftrightarrow> (\<exists>xs. writes m xs r \<and> reads_inv n xs s)"

lemma codesI: "writes m xs r \<Longrightarrow> reads n xs s \<Longrightarrow> codes m n r s"
  unfolding codes_def by (intro exI conjI) (assumption, rule reads_reads_inv)

lemma codes_sticky: "codes m n r s \<Longrightarrow> sticky m"
  by (auto simp: codes_def writes_sticky)

lemma codes_return: "codes (State_Monad.return a) (State_Monad.return b) a b"
  by (rule codesI [OF writes_return reads_return])

lemma codes_bind:
  assumes "codes m n a b" "codes (f a) (g b) r s" "\<And>a. sticky (f a)"
  shows "codes (m \<bind> f) (n \<bind> g) r s"
  using assms writes_bind reads_inv_bind unfolding codes_def by metis

lemma codes_if:
  assumes "b \<Longrightarrow> codes m1 n1 r s" "\<not> b \<Longrightarrow> codes m2 n2 r s"
  shows "codes (if b then m1 else m2) (if b then n1 else n2) r s"
  using assms by simp

text \<open>The reader computes with what it read.\<close>

lemma codes_last: "codes m n r a \<Longrightarrow> reads_inv (g a) [] s \<Longrightarrow> codes m (n \<bind> g) r s"
proof -
  assume "codes m n r a" and g: "reads_inv (g a) [] s"
  then obtain xs where xs: "writes m xs r" "reads_inv n xs a" by (auto simp: codes_def)
  have "reads_inv (n \<bind> g) (xs @ []) s" by (rule reads_inv_bind [OF xs(2), where f = g]) (rule g)
  then show ?thesis using xs(1) by (auto simp: codes_def)
qed

lemma codes_post: "codes m n r a \<Longrightarrow> codes m (n \<bind> (\<lambda>v. State_Monad.return (g v))) r (g a)"
  by (erule codes_last) (rule reads_return)

lemma codes_assoc: "codes m (n \<bind> (\<lambda>x. g x \<bind> h)) r s \<Longrightarrow> codes m ((n \<bind> g) \<bind> h) r s"
  by simp

lemma codes_assoc_left: "codes (m \<bind> (\<lambda>x. f x \<bind> h)) n r s \<Longrightarrow> codes ((m \<bind> f) \<bind> h) n r s"
  by simp

lemma codes_same: "codes m n r s \<Longrightarrow> same_on_inv n' n \<Longrightarrow> codes m n' r s"
  unfolding codes_def by (metis reads_inv_same)

text \<open>A step of one side only: the writer's error test, the reader's arithmetic.\<close>

lemma codes_werr:
  assumes "codes (f False) n r s" "\<And>a. sticky (f a)"
  shows "codes (werr \<bind> f) n r s"
  using assms writes_bind [OF writes_werr, of f] unfolding codes_def by fastforce

lemma codes_ret_left: "codes (f a) n r s \<Longrightarrow> codes (State_Monad.return a \<bind> f) n r s"
  by simp

lemma codes_ret_right: "codes m (g b) r s \<Longrightarrow> codes m (State_Monad.return b \<bind> g) r s"
  by simp

lemma codes_bool: "codes (wr (\<lambda>w. WriteBool w (of_bool b) p)) (ReadBool p) () b"
  by (rule codesI [OF writes_WriteBool_of_bool reads_ReadBool])

lemma codes_bit: "codes (wr (\<lambda>w. WriteBit w (of_bool b))) ReadBit () b"
  by (rule codesI [OF writes_WriteBit_of_bool reads_ReadBit])

lemma codes_literal: "codes (wr (\<lambda>w. WriteLiteral w v n)) (ReadLiteral n) () (take_bit (nat n) v)"
  by (rule codesI [OF writes_WriteLiteral reads_ReadLiteral])

lemma codes_bools: "codes (wr (\<lambda>w. write_bools w xs)) (read_bools (map snd xs)) () (map fst xs)"
  by (rule codesI [OF emits_writes [OF emits_write_bools] reads_read_bools])

section \<open>The message in a packet\<close>

lemma message_split:
  assumes "emits f (xs @ ys)" "w_err (Finish (f (Writer_Init dst))) = 0"
  shows "\<exists>d1 d2. vp8r.gets (Decoder_Init (Bytes (Finish (f (Writer_Init dst))) @ tail)) xs d1 \<and> Decoder_Err d1 = None \<and>
    vp8r.gets d1 ys d2 \<and> Decoder_Err d2 = None"
proof -
  define w where "w = Finish (f (Writer_Init dst))"
  define d where "d = Decoder_Init (Bytes w @ tail)"
  define s where "s = enc_run enc_init xs"
  have wf: "wf_ival s" unfolding s_def by (rule enc_run_wf [OF wf_enc_init])
  have run: "enc_run s ys = enc_run enc_init (xs @ ys)" by (simp add: s_def enc_run_append)
  have "emits (\<lambda>w. Finish (f w)) ((xs @ ys) @ flush_bits)"
    using assms(1) emits_Finish by (rule emits_comp)
  from emitsD(3) [OF this Init_writer(2)] assms(2)
  have w: "w = vp8w.puts (Writer_Init dst) ((xs @ ys) @ flush_bits)" unfolding w_def .
  then have "decided (enc_run s ys) (fst (writer_view w))"
    using vp8w.puts_decided [of "Writer_Init dst" "xs @ ys"] assms(2) unfolding w_def [symmetric] run
    by (simp add: Init_writer)
  moreover have "fst (writer_view w) = Bytes w" by (simp add: writer_view_def Bytes_def)
  ultimately have dec: "decided (enc_run s ys) (Bytes w @ tail)" by (simp add: decided_append)
  then have dec1: "decided s (Bytes w @ tail)" using wf by (rule decided_prefix)
  have err: "Decoder_Err d' = None" if "rrel (Bytes w @ tail) (reader_view d') s'" "decided s' (Bytes w @ tail)" for d' s'
    using rrel_count [OF that(1) [unfolded reader_view_def] that(2)] by (auto simp: Decoder_Err_def lots_of_bits_def)
  obtain d1 where d1: "vp8r.gets d xs d1" "rrel (Bytes w @ tail) (reader_view d1) s" "d_buf d1 = Bytes w @ tail"
    using vp8r.gets_final [of d enc_init xs] wf_enc_init dec1 by (auto simp: Init_reader d_def s_def decided_def split: prod.splits)
  obtain d2 where d2: "vp8r.gets d1 ys d2" "rrel (Bytes w @ tail) (reader_view d2) (enc_run s ys)"
    using vp8r.gets_final [of d1 s ys] d1 wf dec by (auto simp: decided_def split: prod.splits)
  show ?thesis
    using d1 d2 err [OF d1(2) dec1] err [OF d2(2) dec] unfolding w_def [symmetric] d_def by blast
qed

lemma codes_message_split:
  assumes "codes m1 n1 r1 s1" "codes m2 n2 r2 s2"
    and "w_err (Finish (snd (run_state (m1 \<bind> (\<lambda>_. m2)) (Writer_Init dst)))) = 0"
  shows "\<exists>d1 d2. run_state n1 (Decoder_Init (Bytes (Finish (snd (run_state (m1 \<bind> (\<lambda>_. m2)) (Writer_Init dst)))) @ tail)) = (s1, d1) \<and>
    Decoder_Err d1 = None \<and> run_state n2 d1 = (s2, d2) \<and> Decoder_Err d2 = None"
proof -
  obtain xs ys where xs: "writes m1 xs r1" "reads_inv n1 xs s1" and ys: "writes m2 ys r2" "reads_inv n2 ys s2"
    using assms(1,2) by (auto simp: codes_def)
  have "writes (m1 \<bind> (\<lambda>_. m2)) (xs @ ys) r2"
    using xs(1) ys(1) writes_sticky [OF ys(1)] by (rule writes_bind)
  from message_split [OF writes_emits [OF this] assms(3), of tail]
  show ?thesis
    using reads_inD [OF xs(2)] reads_inD [OF ys(2)] decoder_reaches_inv [OF decoder_reaches.start] gets_inv by metis
qed

lemma codes_message:
  assumes "codes m n r s" "w_err (Finish (snd (run_state m (Writer_Init dst)))) = 0"
  shows "\<exists>d. run_state n (Decoder_Init (Bytes (Finish (snd (run_state m (Writer_Init dst)))) @ tail)) = (s, d) \<and> Decoder_Err d = None"
    and "fst (run_state m (Writer_Init dst)) = r"
proof -
  obtain xs where xs: "writes m xs r" "reads_inv n xs s" using assms(1) by (auto simp: codes_def)
  show "\<exists>d. run_state n (Decoder_Init (Bytes (Finish (snd (run_state m (Writer_Init dst)))) @ tail)) = (s, d) \<and> Decoder_Err d = None"
    using message_split [of _ xs "[]", simplified, OF writes_emits [OF xs(1)] assms(2)] reads_inD [OF xs(2)]
      decoder_reaches_inv [OF decoder_reaches.start] by blast
  show "fst (run_state m (Writer_Init dst)) = r" using writes_result [OF xs(1) assms(2)] .
qed

end
