(* ===== verification/Vp8_Packet.thy ===== *)
theory Vp8_Packet
  imports Vp8_Mv
begin

text \<open>
  The uncompressed parts of a VP8 packet. \<^verbatim>\<open>internal/vp8/encoder/packet.go\<close> and
  \<^verbatim>\<open>internal/vp8/encoder/partitions.go\<close> write the frame tag, the key-frame header and the
  partition size table; \<^verbatim>\<open>internal/vp8/decoder/header.go\<close>, \<^verbatim>\<open>internal/vp8/decoder/partitions.go\<close>
  and \<^verbatim>\<open>internal/vp8/decoder/streaminfo.go\<close> read them. Writers into a slice return the slice
  updated or their error.
\<close>

section \<open>Data\<close>

datatype FrameType = KeyFrame | InterFrame

datatype decode_error = ErrInvalidFrameHeader | ErrTruncatedStateHeader | ErrInvalidPartitionLayout | ErrInvalidData

record FrameHeader =
  fh_FrameType :: FrameType
  fh_Profile :: int
  fh_ShowFrame :: bool
  fh_FirstPartitionSize :: int
  fh_HeaderSize :: int
  fh_Width :: int
  fh_Height :: int
  fh_HorizScale :: int
  fh_VertScale :: int

definition FrameHeader_KeyFrame :: "FrameHeader \<Rightarrow> bool" where
  "FrameHeader_KeyFrame h \<longleftrightarrow> fh_FrameType h = KeyFrame"

definition KeyFrameStartCode :: "byte list" where
  "KeyFrameStartCode = [0x9d, 0x01, 0x2a]"

section \<open>The frame header\<close>

definition ParseFrameHeader :: "byte list \<Rightarrow> decode_error + FrameHeader" where
  "ParseFrameHeader packet =
     (if length packet < 3 then Inl ErrInvalidFrameHeader
      else
        let tag = ucast (packet ! 0) OR push_bit 8 (ucast (packet ! 1)) OR push_bit 16 (ucast (packet ! 2)) :: u32;
            header = \<lparr>fh_FrameType = (if tag AND 1 = 0 then KeyFrame else InterFrame),
              fh_Profile = uint (drop_bit 1 tag AND 7), fh_ShowFrame = (drop_bit 4 tag AND 1 \<noteq> 0),
              fh_FirstPartitionSize = uint (drop_bit 5 tag), fh_HeaderSize = 3,
              fh_Width = 0, fh_Height = 0, fh_HorizScale = 0, fh_VertScale = 0\<rparr>
        in if \<not> FrameHeader_KeyFrame header then Inr header
           else if length packet < 10 then Inl ErrInvalidFrameHeader
           else if packet ! 3 \<noteq> KeyFrameStartCode ! 0 \<or> packet ! 4 \<noteq> KeyFrameStartCode ! 1 \<or> packet ! 5 \<noteq> KeyFrameStartCode ! 2
           then Inl ErrInvalidFrameHeader
           else
             let widthRaw = ucast (packet ! 6) OR push_bit 8 (ucast (packet ! 7)) :: u16;
                 heightRaw = ucast (packet ! 8) OR push_bit 8 (ucast (packet ! 9)) :: u16;
                 header = header\<lparr>fh_Width := uint (widthRaw AND 0x3fff), fh_HorizScale := uint (drop_bit 14 widthRaw),
                   fh_Height := uint (heightRaw AND 0x3fff), fh_VertScale := uint (drop_bit 14 heightRaw), fh_HeaderSize := 10\<rparr>
             in if fh_Width header \<le> 0 \<or> fh_Height header \<le> 0 then Inl ErrInvalidFrameHeader else Inr header)"

definition FrameTagSize :: nat where "FrameTagSize = 3"
definition KeyFrameExtraHeaderSize :: nat where "KeyFrameExtraHeaderSize = 7"
definition MaxFirstPartitionSize :: int where "MaxFirstPartitionSize = push_bit 19 1 - 1"
definition MaxPartitionSize :: int where "MaxPartitionSize = push_bit 24 1 - 1"

definition PutFrameTag :: "byte list \<Rightarrow> bool \<Rightarrow> int \<Rightarrow> bool \<Rightarrow> int \<Rightarrow> packet_error + byte list" where
  "PutFrameTag dst keyFrame version showFrame firstPartitionSize =
     (if length dst < FrameTagSize then Inl EncErrBufferTooSmall
      else if version < 0 \<or> version > 7 \<or> firstPartitionSize < 0 \<or> firstPartitionSize > MaxFirstPartitionSize
      then Inl ErrInvalidPacketConfig
      else
        let frameType = (if keyFrame then 0 else 1);
            tag = push_bit 5 (word_of_int firstPartitionSize) OR push_bit 1 (word_of_int version) OR frameType :: u32;
            tag = (if showFrame then tag OR push_bit 4 1 else tag)
        in Inr (dst[0 := ucast tag, 1 := ucast (drop_bit 8 tag), 2 := ucast (drop_bit 16 tag)]))"

definition PutKeyFrameExtraHeader :: "byte list \<Rightarrow> int \<Rightarrow> int \<Rightarrow> int \<Rightarrow> int \<Rightarrow> packet_error + byte list" where
  "PutKeyFrameExtraHeader dst width height horizontalScale verticalScale =
     (if length dst < KeyFrameExtraHeaderSize then Inl EncErrBufferTooSmall
      else if width \<le> 0 \<or> width > 0x3fff \<or> height \<le> 0 \<or> height > 0x3fff \<or> horizontalScale < 0 \<or> horizontalScale > 3
        \<or> verticalScale < 0 \<or> verticalScale > 3
      then Inl ErrInvalidPacketConfig
      else
        let scaledWidth = word_of_int width OR push_bit 14 (word_of_int horizontalScale) :: u16;
            scaledHeight = word_of_int height OR push_bit 14 (word_of_int verticalScale) :: u16
        in Inr (dst[0 := 0x9d, 1 := 0x01, 2 := 0x2a, 3 := ucast scaledWidth, 4 := ucast (drop_bit 8 scaledWidth),
             5 := ucast scaledHeight, 6 := ucast (drop_bit 8 scaledHeight)]))"

section \<open>Stream information and versions\<close>

record StreamInfo =
  si_Width :: int
  si_Height :: int
  si_Profile :: int
  si_KeyFrame :: bool
  si_ShowFrame :: bool
  si_FirstPartitionSize :: int

definition StreamInfoFromFrameHeader :: "FrameHeader \<Rightarrow> StreamInfo" where
  "StreamInfoFromFrameHeader header =
     \<lparr>si_Width = fh_Width header, si_Height = fh_Height header, si_Profile = fh_Profile header,
      si_KeyFrame = FrameHeader_KeyFrame header, si_ShowFrame = fh_ShowFrame header,
      si_FirstPartitionSize = fh_FirstPartitionSize header\<rparr>"

definition PeekStreamInfo :: "byte list \<Rightarrow> decode_error + StreamInfo" where
  "PeekStreamInfo packet = (case ParseFrameHeader packet of
     Inl e \<Rightarrow> Inl ErrInvalidData | Inr header \<Rightarrow> Inr (StreamInfoFromFrameHeader header))"

record InterPredictionConfig =
  UseBilinear :: bool
  FullPixel :: bool

definition InterPredictionConfigForVersion :: "int \<Rightarrow> InterPredictionConfig" where
  "InterPredictionConfigForVersion version =
     (if version = 1 \<or> version = 2 then \<lparr>UseBilinear = True, FullPixel = False\<rparr>
      else if version = 3 then \<lparr>UseBilinear = True, FullPixel = True\<rparr>
      else \<lparr>UseBilinear = False, FullPixel = False\<rparr>)"

definition VersionSkipsLoopFilter :: "int \<Rightarrow> bool" where
  "VersionSkipsLoopFilter version \<longleftrightarrow> version = 2 \<or> version = 3"

definition IsSupportedVersion :: "int \<Rightarrow> bool" where
  "IsSupportedVersion version \<longleftrightarrow> version \<ge> 0 \<and> version \<le> 7"

section \<open>Partitions\<close>

definition PutPartitionSize :: "byte list \<Rightarrow> int \<Rightarrow> packet_error + byte list" where
  "PutPartitionSize dst n =
     (if length dst < 3 then Inl EncErrBufferTooSmall
      else if n < 0 \<or> n > MaxPartitionSize then Inl ErrInvalidPacketConfig
      else Inr (dst[0 := word_of_int n, 1 := word_of_int (drop_bit 8 n), 2 := word_of_int (drop_bit 16 n)]))"

text \<open>\<open>common.TokenPartition\<close> as its number.\<close>

definition tokenPartitionCount :: "nat \<Rightarrow> nat option" where
  "tokenPartitionCount tokenPartition = (if tokenPartition > 3 then None else Some (2 ^ tokenPartition))"

text \<open>
  \<open>PartitionScratch\<close> as its eight backing arrays: a list's length is the array's capacity, and a
  writer is started on the first \<open>size\<close> bytes of one.
\<close>

definition ensureCapacity :: "byte list list \<Rightarrow> nat \<Rightarrow> nat \<Rightarrow> byte list list" where
  "ensureCapacity buffers partitionCount sz =
     map (\<lambda>b. if length b < sz then replicate sz 0 else b) (take partitionCount buffers) @ drop partitionCount buffers"

definition preparePartitionWriters ::
  "byte list list option \<Rightarrow> byte list \<Rightarrow> int \<Rightarrow> nat \<Rightarrow> packet_error + (byte list list \<times> BoolWriter list \<times> nat)" where
  "preparePartitionWriters scratch dst tokenStart tokenPartition =
     (case tokenPartitionCount tokenPartition of
        None \<Rightarrow> Inl ErrInvalidPacketConfig
      | Some pc \<Rightarrow>
          if pc \<le> 1 then Inl ErrInvalidPacketConfig
          else if tokenStart < 0 \<or> tokenStart > int (length dst) \<or> int (length dst) - tokenStart < int (3 * (pc - 1))
          then Inl EncErrBufferTooSmall
          else
            let buffers = ensureCapacity (case scratch of None \<Rightarrow> replicate 8 [] | Some b \<Rightarrow> b) pc (length dst)
            in Inr (buffers, map (\<lambda>b. Writer_Init (take (length dst) b)) (take pc buffers), pc))"

text \<open>
  \<open>finalizePartitionedTokenPayload\<close>: finish each writer, put its size in the table (all but the
  last) and copy its bytes, which its buffer holds.
\<close>

fun finalize_loop ::
  "nat \<Rightarrow> nat \<Rightarrow> nat \<Rightarrow> BoolWriter list \<Rightarrow> byte list \<Rightarrow> nat \<Rightarrow> packet_error + (nat \<times> byte list)" where
  "finalize_loop tokenStart partitionCount i [] dst offset = Inr (offset, dst)"
| "finalize_loop tokenStart partitionCount i (w # ws) dst offset =
     (let w = Finish w; size = BytesWritten w
      in if Writer_Err w \<noteq> None then Inl EncErrBufferTooSmall
         else if int size > MaxPartitionSize then Inl ErrInvalidPacketConfig
         else
           (case (if i < partitionCount - 1
                  then map_sum id (\<lambda>tl. take (tokenStart + i * 3) dst @ tl) (PutPartitionSize (drop (tokenStart + i * 3) dst) (int size))
                  else Inr dst) of
              Inl e \<Rightarrow> Inl e
            | Inr dst \<Rightarrow>
                if int (length dst) - int offset < int size then Inl EncErrBufferTooSmall
                else finalize_loop tokenStart partitionCount (i + 1) ws
                  (take offset dst @ take size (w_buf w) @ drop (offset + size) dst) (offset + size)))"

definition finalizePartitionedTokenPayload ::
  "BoolWriter list \<Rightarrow> byte list \<Rightarrow> nat \<Rightarrow> nat \<Rightarrow> packet_error + (nat \<times> byte list)" where
  "finalizePartitionedTokenPayload writers dst tokenStart partitionCount =
     finalize_loop tokenStart partitionCount 0 (take partitionCount writers) dst (tokenStart + 3 * (partitionCount - 1))"

record PartitionLayout =
  pl_First :: "byte list"
  pl_Tokens :: "byte list list"
  pl_TokenCount :: nat

definition empty_layout :: PartitionLayout where
  "empty_layout = \<lparr>pl_First = [], pl_Tokens = replicate 8 [], pl_TokenCount = 0\<rparr>"

definition readTokenPartitionSize :: "byte list \<Rightarrow> int" where
  "readTokenPartitionSize src = uint (src ! 0) OR push_bit 8 (uint (src ! 1)) OR push_bit 16 (uint (src ! 2))"

fun layout_loop ::
  "byte list \<Rightarrow> byte list \<Rightarrow> bool \<Rightarrow> nat \<Rightarrow> nat \<Rightarrow> nat \<Rightarrow> PartitionLayout \<Rightarrow> decode_error option \<times> PartitionLayout" where
  "layout_loop packet sizeTable ec i 0 offset out =
     (let lastSize = int (length packet) - int offset in
      if lastSize \<le> 0 then (if ec then (None, out) else (Some ErrInvalidPartitionLayout, empty_layout))
      else (None, out\<lparr>pl_Tokens := (pl_Tokens out)[i := drop offset packet]\<rparr>))"
| "layout_loop packet sizeTable ec i (Suc left) offset out =
     (if length sizeTable < (i + 1) * 3
      then (None, out\<lparr>pl_Tokens := (pl_Tokens out)[i := drop offset packet]\<rparr>)
      else
        let size = readTokenPartitionSize (drop (i * 3) sizeTable)
        in if size \<le> 0 \<or> size > int (length packet) - int offset then
             (if ec then (None, out\<lparr>pl_Tokens := (pl_Tokens out)[i := drop offset packet]\<rparr>)
              else (Some ErrInvalidPartitionLayout, empty_layout))
           else layout_loop packet sizeTable ec (i + 1) left (offset + nat size)
                  (out\<lparr>pl_Tokens := (pl_Tokens out)[i := take (nat size) (drop offset packet)]\<rparr>))"

text \<open>
  The end of the first partition is a sum of two numbers that are not negative, and the code asks whether it has
  wrapped: \<open>firstEnd < frame.HeaderSize\<close>. It has when the sum is beyond \<open>maxInt\<close>, as \<open>sum_wraps_word\<close> shows on
  64-bit words. A list longer than any slice, which Go does not have, counts as in reach, so that the laws of the
  layout need no bound on the length of a packet.
\<close>

definition sum_wraps :: "byte list \<Rightarrow> FrameHeader \<Rightarrow> bool" where
  "sum_wraps packet frame \<longleftrightarrow> fh_HeaderSize frame + fh_FirstPartitionSize frame > max maxInt (int (length packet))"

lemma sint_u64:
  assumes "- (2 ^ 63) \<le> k" "k < 2 ^ 63"
  shows "sint (word_of_int k :: u64) = k"
  using assms by (simp add: sint_sbintrunc' signed_take_bit_int_eq_self)

lemma sum_wraps_word:
  assumes "0 \<le> fh_HeaderSize frame" "fh_HeaderSize frame \<le> maxInt" "0 \<le> fh_FirstPartitionSize frame" "fh_FirstPartitionSize frame \<le> maxInt"
    and "int (length packet) \<le> maxInt"
  shows "sum_wraps packet frame \<longleftrightarrow>
    sint (word_of_int (fh_HeaderSize frame) + word_of_int (fh_FirstPartitionSize frame) :: u64) < fh_HeaderSize frame"
proof -
  define h where "h = fh_HeaderSize frame"
  define k where "k = h + fh_FirstPartitionSize frame"
  have k: "h \<le> k" "k \<le> h + maxInt" "h \<le> maxInt" using assms by (simp_all add: k_def h_def)
  have wraps: "sum_wraps packet frame \<longleftrightarrow> k > maxInt" using assms(5) by (simp add: sum_wraps_def k_def h_def max_def)
  have "sint (word_of_int k :: u64) < h \<longleftrightarrow> k > maxInt"
  proof (cases "k \<le> maxInt")
    case True
    then have "sint (word_of_int k :: u64) = k" using k assms(1) by (intro sint_u64) (simp_all add: maxInt_def h_def)
    then show ?thesis using True k by simp
  next
    case False
    have "(word_of_int k :: u64) = word_of_int (k - 2 ^ 64)" by (rule word_of_int_eq_iff [THEN iffD2]) (simp add: take_bit_eq_mod)
    also have "sint \<dots> = k - 2 ^ 64" using False k by (intro sint_u64) (simp_all add: maxInt_def)
    finally have "sint (word_of_int k :: u64) = k - 2 ^ 64" .
    then show ?thesis using False k by (simp add: maxInt_def)
  qed
  moreover have "word_of_int (fh_HeaderSize frame) + word_of_int (fh_FirstPartitionSize frame) = (word_of_int k :: u64)"
    by (simp add: k_def h_def)
  ultimately show ?thesis using wraps h_def by metis
qed

definition parsePartitionLayout ::
  "byte list \<Rightarrow> FrameHeader \<Rightarrow> nat \<Rightarrow> bool \<Rightarrow> decode_error option \<times> PartitionLayout" where
  "parsePartitionLayout packet frame tokenPartition ec =
     (if tokenPartition > 3 then (Some ErrInvalidPartitionLayout, empty_layout)
      else if fh_FirstPartitionSize frame < 0 \<or> fh_HeaderSize frame < 0 \<or> fh_HeaderSize frame > int (length packet)
      then (Some ErrInvalidPartitionLayout, empty_layout)
      else
        let firstEnd = fh_HeaderSize frame + fh_FirstPartitionSize frame; wrapped = sum_wraps packet frame
        in if (wrapped \<or> firstEnd > int (length packet)) \<and> (\<not> ec \<or> wrapped)
           then (Some ErrInvalidPartitionLayout, empty_layout)
           else
             let firstEnd = (if wrapped \<or> firstEnd > int (length packet) then length packet else nat firstEnd);
                 tokenCount = 2 ^ tokenPartition;
                 sizeTableBytes = 3 * (tokenCount - 1)
             in if length packet - firstEnd < sizeTableBytes \<and> \<not> ec then (Some ErrInvalidPartitionLayout, empty_layout)
                else
                  let sizeTableBytes = (if length packet - firstEnd < sizeTableBytes then length packet - firstEnd else sizeTableBytes);
                      out = empty_layout\<lparr>pl_First := take (firstEnd - nat (fh_HeaderSize frame)) (drop (nat (fh_HeaderSize frame)) packet),
                        pl_TokenCount := tokenCount\<rparr>;
                      sizeTable = take sizeTableBytes (drop firstEnd packet)
                  in layout_loop packet sizeTable ec 0 (tokenCount - 1) (firstEnd + sizeTableBytes) out)"

definition ParsePartitionLayout :: "byte list \<Rightarrow> FrameHeader \<Rightarrow> nat \<Rightarrow> decode_error option \<times> PartitionLayout" where
  "ParsePartitionLayout packet frame tokenPartition = parsePartitionLayout packet frame tokenPartition False"

definition ParsePartitionLayoutWithErrorConcealment ::
  "byte list \<Rightarrow> FrameHeader \<Rightarrow> nat \<Rightarrow> decode_error option \<times> PartitionLayout" where
  "ParsePartitionLayoutWithErrorConcealment packet frame tokenPartition = parsePartitionLayout packet frame tokenPartition True"

section \<open>The frame header survives\<close>

lemma nat_size_bit: "bit (t :: u32) n \<Longrightarrow> unat t < 2 ^ k \<Longrightarrow> n < k"
proof (rule ccontr)
  assume b: "bit t n" "unat t < 2 ^ k" "\<not> n < k"
  then have "bit (unat t) n" by (simp add: bit_unsigned_iff)
  moreover have "unat t < 2 ^ n" using b(2,3) by (meson leI less_le_trans one_le_numeral power_increasing)
  ultimately show False by (simp add: bit_iff_odd)
qed

text \<open>Three and two little-endian bytes put together again.\<close>

lemma le24_word:
  assumes "unat (t :: u32) < 2 ^ 24"
  shows "(ucast (ucast t :: byte) :: u32) OR push_bit 8 (ucast (ucast (drop_bit 8 t) :: byte))
    OR push_bit 16 (ucast (ucast (drop_bit 16 t) :: byte)) = t"
proof (rule bit_word_eqI)
  fix n assume n: "n < LENGTH(32)"
  have "n < 8 \<or> 8 \<le> n \<and> n < 16 \<or> 16 \<le> n \<and> n < 24 \<or> 24 \<le> n" by linarith
  then show "bit ((ucast (ucast t :: byte) :: u32) OR push_bit 8 (ucast (ucast (drop_bit 8 t) :: byte))
      OR push_bit 16 (ucast (ucast (drop_bit 16 t) :: byte))) n = bit t n"
    using n nat_size_bit [OF _ assms, of n]
    by (auto simp: bit_or_iff bit_push_bit_iff bit_ucast_iff bit_drop_bit_eq)
qed

lemma le16_word: "(ucast (ucast t :: byte) :: u16) OR push_bit 8 (ucast (ucast (drop_bit 8 t) :: byte)) = t"
proof (rule bit_word_eqI)
  fix n assume n: "n < LENGTH(16)"
  then show "bit ((ucast (ucast t :: byte) :: u16) OR push_bit 8 (ucast (ucast (drop_bit 8 t) :: byte))) n = bit t n"
    by (cases "n < 8") (auto simp: bit_or_iff bit_push_bit_iff bit_ucast_iff bit_drop_bit_eq)
qed

definition frame_tag :: "bool \<Rightarrow> int \<Rightarrow> bool \<Rightarrow> int \<Rightarrow> u32" where
  "frame_tag keyFrame version showFrame firstSize =
     (let tag = push_bit 5 (word_of_int firstSize) OR push_bit 1 (word_of_int version) OR (if keyFrame then 0 else 1)
      in if showFrame then tag OR push_bit 4 1 else tag)"

lemma uint_word_small: "0 \<le> x \<Longrightarrow> x < 2 ^ LENGTH('a::len) \<Longrightarrow> uint (word_of_int x :: 'a word) = x"
  by (simp add: unsigned_of_int take_bit_int_eq_self)

text \<open>The tag as a number: its fields do not overlap.\<close>

lemma unat_frame_tag:
  assumes "0 \<le> version" "version \<le> 7" "0 \<le> firstSize" "firstSize \<le> MaxFirstPartitionSize"
  shows "unat (frame_tag k version s firstSize) = nat firstSize * 32 + of_bool s * 16 + nat version * 2 + of_bool (\<not> k)"
proof -
  have fs: "firstSize < 2 ^ 19" using assms(4) by (simp add: MaxFirstPartitionSize_def)
  have f: "unat (word_of_int firstSize :: u32) = nat firstSize"
    using assms(3) fs by (simp add: unat_eq_nat_uint uint_word_small)
  have v: "unat (word_of_int version :: u32) = nat version"
    using assms(1,2) by (simp add: unat_eq_nat_uint uint_word_small)
  have pf: "unat (push_bit 5 (word_of_int firstSize) :: u32) = nat firstSize * 32"
    using f fs by (subst unat_push_bit) auto
  have pv: "unat (push_bit 1 (word_of_int version) :: u32) = nat version * 2"
    using v assms(2) by (subst unat_push_bit) auto
  define kk where "kk = (if k then 0 else 1 :: u32)"
  have kk: "unat kk = of_bool (\<not> k)" by (simp add: kk_def)
  have vk: "unat (push_bit 1 (word_of_int version) OR kk) = nat version * 2 + of_bool (\<not> k)"
    using pv kk by (subst unat_or_disjoint [where n = 1]) auto
  have "unat (push_bit 4 1 :: u32) = 16" by simp
  then have svk: "unat (push_bit 4 1 OR (push_bit 1 (word_of_int version) OR kk)) = 16 + (nat version * 2 + of_bool (\<not> k))"
    using vk assms(2) by (subst unat_or_disjoint [where n = 4]) auto
  have tag: "frame_tag k version s firstSize = push_bit 5 (word_of_int firstSize) OR
      (if s then push_bit 4 1 OR (push_bit 1 (word_of_int version) OR kk) else push_bit 1 (word_of_int version) OR kk)"
    by (simp add: frame_tag_def kk_def Let_def or.assoc or.commute or.left_commute del: push_bit_numeral push_bit_of_1)
  show ?thesis
    unfolding tag using pf vk svk assms(2)
    by (subst unat_or_disjoint [where n = 5]) auto
qed

lemma tag_bits:
  fixes F V :: nat and k s :: bool
  assumes "V < 8"
  defines "n \<equiv> F * 32 + of_bool s * 16 + V * 2 + of_bool (\<not> k)"
  shows "n mod 2 ^ 1 = of_bool (\<not> k)" and "n div 2 ^ 4 mod 2 ^ 1 = of_bool s"
    and "n div 2 ^ 1 mod 2 ^ 3 = V" and "n div 2 ^ 5 = F"
proof -
  have d: "(x * m + r) div m = x" "(x * m + r) mod m = r" if "r < m" for x m r :: nat using that by simp_all
  have "n = (F * 2 + of_bool s) * 16 + (V * 2 + of_bool (\<not> k))" by (simp add: n_def)
  moreover have "V * 2 + of_bool (\<not> k) < 16" using assms by simp
  ultimately have "n div 16 = F * 2 + of_bool s" by (simp only: d)
  then show "n div 2 ^ 4 mod 2 ^ 1 = of_bool s" by simp
  have "n = (F * 16 + of_bool s * 8 + V) * 2 + of_bool (\<not> k)" by (simp add: n_def)
  moreover have "of_bool (\<not> k) < (2 :: nat)" by simp
  ultimately have n2: "n div 2 = (F * 2 + of_bool s) * 8 + V" "n mod 2 = of_bool (\<not> k)"
    by (simp_all only: d) simp
  then show "n mod 2 ^ 1 = of_bool (\<not> k)" by simp
  have "n div 2 ^ 1 mod 2 ^ 3 = ((F * 2 + of_bool s) * 8 + V) mod 8" using n2(1) by simp
  then show "n div 2 ^ 1 mod 2 ^ 3 = V" by (simp only: d(2) [OF assms(1)])
  have "n = F * 32 + (of_bool s * 16 + V * 2 + of_bool (\<not> k))" by (simp add: n_def)
  moreover have "of_bool s * 16 + V * 2 + of_bool (\<not> k) < 32" using assms by simp
  ultimately have "n div 32 = F" by (simp only: d)
  then show "n div 2 ^ 5 = F" by simp
qed

lemma frame_tag_fields:
  fixes k s
  assumes "0 \<le> version" "version \<le> 7" "0 \<le> firstSize" "firstSize \<le> MaxFirstPartitionSize"
  defines "t \<equiv> frame_tag k version s firstSize"
  shows "t AND 1 = 0 \<longleftrightarrow> k" and "uint (drop_bit 1 t AND 7) = version" and "drop_bit 4 t AND 1 \<noteq> 0 \<longleftrightarrow> s"
    and "uint (drop_bit 5 t) = firstSize" and "unat t < 2 ^ 24"
proof -
  have u: "unat t = nat firstSize * 32 + of_bool s * 16 + nat version * 2 + of_bool (\<not> k)"
    unfolding t_def by (rule unat_frame_tag [OF assms(1-4)])
  have v: "nat version < 8" using assms(2) by linarith
  note f = tag_bits [OF v, of "nat firstSize" s k]
  have m1: "t AND 1 = take_bit 1 t" "drop_bit 4 t AND 1 = take_bit 1 (drop_bit 4 t)" "drop_bit 1 t AND 7 = take_bit 3 (drop_bit 1 t)"
    by (simp_all add: take_bit_eq_mask mask_eq_exp_minus_1)
  have e: "unat (take_bit n x) = unat x mod 2 ^ n" for n and x :: u32
    by (subst unsigned_take_bit_eq, rule take_bit_eq_mod)
  have "unat (take_bit 1 t) = of_bool (\<not> k)" unfolding e u by (rule f(1))
  then show "t AND 1 = 0 \<longleftrightarrow> k" unfolding m1 by (metis of_bool_eq_0_iff unat_eq_zero)
  have "unat (take_bit 1 (drop_bit 4 t)) = of_bool s" unfolding e unat_drop_bit u by (rule f(2))
  then show "drop_bit 4 t AND 1 \<noteq> 0 \<longleftrightarrow> s" unfolding m1 by (metis of_bool_eq_0_iff unat_eq_zero)
  have "unat (take_bit 3 (drop_bit 1 t)) = nat version" unfolding e unat_drop_bit u by (rule f(3))
  then show "uint (drop_bit 1 t AND 7) = version" unfolding m1 uint_nat using assms(1) by simp
  have "unat (drop_bit 5 t) = nat firstSize" unfolding unat_drop_bit u by (rule f(4))
  then show "uint (drop_bit 5 t) = firstSize" unfolding uint_nat using assms(3) by simp
  have fs: "nat firstSize < 2 ^ 19" using assms(4) by (simp add: MaxFirstPartitionSize_def)
  show "unat t < 2 ^ 24" using u v fs by (cases s; cases k) simp_all
qed

lemma PutFrameTag_bytes:
  assumes "PutFrameTag dst k version s firstSize = Inr d"
  defines "t \<equiv> frame_tag k version s firstSize"
  shows "length d = length dst" and "3 \<le> length dst" and "d ! 0 = ucast t" and "d ! 1 = ucast (drop_bit 8 t)"
    and "d ! 2 = ucast (drop_bit 16 t)" and "drop 3 d = drop 3 dst"
    and "0 \<le> version" and "version \<le> 7" and "0 \<le> firstSize" and "firstSize \<le> MaxFirstPartitionSize"
proof -
  have len: "3 \<le> length dst" and rng: "\<not> (version < 0 \<or> version > 7 \<or> firstSize < 0 \<or> firstSize > MaxFirstPartitionSize)"
    using assms(1) by (auto simp: PutFrameTag_def FrameTagSize_def split: if_splits)
  have d: "d = dst[0 := ucast t, 1 := ucast (drop_bit 8 t), 2 := ucast (drop_bit 16 t)]"
    using assms(1) len rng unfolding PutFrameTag_def frame_tag_def t_def Let_def FrameTagSize_def
    by (cases s; simp only: if_True if_False sum.inject not_less [symmetric] not_False_eq_True)
  have l: "0 < length dst" "1 < length dst" "2 < length dst" using len by linarith+
  show "length d = length dst" "3 \<le> length dst" "d ! 0 = ucast t" "d ! 1 = ucast (drop_bit 8 t)"
    "d ! 2 = ucast (drop_bit 16 t)" "drop 3 d = drop 3 dst" using d len l by simp_all
  show "0 \<le> version" "version \<le> 7" "0 \<le> firstSize" "firstSize \<le> MaxFirstPartitionSize" using rng by auto
qed

definition put_packet_head ::
  "byte list \<Rightarrow> bool \<Rightarrow> int \<Rightarrow> bool \<Rightarrow> int \<Rightarrow> int \<Rightarrow> int \<Rightarrow> int \<Rightarrow> int \<Rightarrow> packet_error + byte list" where
  "put_packet_head dst keyFrame version showFrame firstSize width height hscale vscale =
     (case PutFrameTag dst keyFrame version showFrame firstSize of
        Inl e \<Rightarrow> Inl e
      | Inr dst \<Rightarrow>
          if keyFrame then map_sum id (\<lambda>tl. take FrameTagSize dst @ tl) (PutKeyFrameExtraHeader (drop FrameTagSize dst) width height hscale vscale)
          else Inr dst)"

lemma dimension_fields:
  assumes "0 < x" "x \<le> 0x3fff" "0 \<le> sc" "sc \<le> 3"
  defines "t \<equiv> word_of_int x OR push_bit 14 (word_of_int sc) :: u16"
  shows "uint (t AND 0x3fff) = x" and "uint (drop_bit 14 t) = sc"
proof -
  have x: "unat (word_of_int x :: u16) = nat x" and sc: "unat (word_of_int sc :: u16) = nat sc"
    using assms(1-4) by (simp_all add: unat_eq_nat_uint uint_word_small)
  have ps: "unat (push_bit 14 (word_of_int sc) :: u16) = nat sc * 2 ^ 14"
    using sc assms(4) by (subst unat_push_bit) auto
  have u: "unat t = nat sc * 2 ^ 14 + nat x"
    unfolding t_def or.commute [of "word_of_int x"]
    using ps x assms(1,2) by (subst unat_or_disjoint [where n = 14]) auto
  have xl: "nat x < 2 ^ 14" using assms(1,2) by simp
  have m: "t AND 0x3fff = take_bit 14 t" by (simp add: take_bit_eq_mask mask_eq_exp_minus_1)
  have e: "unat (take_bit n y) = unat y mod 2 ^ n" for n and y :: u16
    by (subst unsigned_take_bit_eq, rule take_bit_eq_mod)
  have "unat (take_bit 14 t) = nat x" unfolding e u using xl by simp
  then show "uint (t AND 0x3fff) = x" unfolding m uint_nat using assms(1) by simp
  have "unat (drop_bit 14 t) = nat sc" unfolding unat_drop_bit u using xl by simp
  then show "uint (drop_bit 14 t) = sc" unfolding uint_nat using assms(3) by simp
qed

lemma PutKeyFrameExtraHeader_bytes:
  assumes "PutKeyFrameExtraHeader dst w h hs vs = Inr d"
  shows "7 \<le> length dst" and "0 < w" and "w \<le> 0x3fff" and "0 < h" and "h \<le> 0x3fff" and "0 \<le> hs" and "hs \<le> 3" and "0 \<le> vs" and "vs \<le> 3"
    and "d = dst[0 := 0x9d, 1 := 0x01, 2 := 0x2a, 3 := ucast (word_of_int w OR push_bit 14 (word_of_int hs) :: u16),
      4 := ucast (drop_bit 8 (word_of_int w OR push_bit 14 (word_of_int hs) :: u16)),
      5 := ucast (word_of_int h OR push_bit 14 (word_of_int vs) :: u16),
      6 := ucast (drop_bit 8 (word_of_int h OR push_bit 14 (word_of_int vs) :: u16))]"
proof -
  have ok: "\<not> length dst < KeyFrameExtraHeaderSize" "\<not> (w \<le> 0 \<or> w > 0x3fff \<or> h \<le> 0 \<or> h > 0x3fff \<or> hs < 0 \<or> hs > 3 \<or> vs < 0 \<or> vs > 3)"
    using assms by (auto simp: PutKeyFrameExtraHeader_def Let_def simp del: not_less split: if_split_asm)
  then show "7 \<le> length dst" "0 < w" "w \<le> 0x3fff" "0 < h" "h \<le> 0x3fff" "0 \<le> hs" "hs \<le> 3" "0 \<le> vs" "vs \<le> 3"
    unfolding KeyFrameExtraHeaderSize_def by auto
  show "d = dst[0 := 0x9d, 1 := 0x01, 2 := 0x2a, 3 := ucast (word_of_int w OR push_bit 14 (word_of_int hs) :: u16),
      4 := ucast (drop_bit 8 (word_of_int w OR push_bit 14 (word_of_int hs) :: u16)),
      5 := ucast (word_of_int h OR push_bit 14 (word_of_int vs) :: u16),
      6 := ucast (drop_bit 8 (word_of_int h OR push_bit 14 (word_of_int vs) :: u16))]"
    using assms unfolding PutKeyFrameExtraHeader_def if_not_P [OF ok(1)] if_not_P [OF ok(2)] Let_def by (simp only: sum.inject)
qed

lemma parse_tag:
  assumes "PutFrameTag dst k version s firstSize = Inr d" and "take 3 p = take 3 d"
  shows "ucast (p ! 0) OR push_bit 8 (ucast (p ! 1)) OR push_bit 16 (ucast (p ! 2)) = frame_tag k version s firstSize"
proof -
  note b = PutFrameTag_bytes [OF assms(1)]
  have "p ! n = d ! n" if "n < 3" for n
    using arg_cong [OF assms(2), of "\<lambda>l. l ! n"] that by simp
  then have "p ! 0 = d ! 0" "p ! 1 = d ! 1" "p ! 2 = d ! 2" by simp_all
  then show ?thesis unfolding b(3-5)
    by (simp only: le24_word [OF frame_tag_fields(5) [OF b(7-10)]])
qed

lemma put_head_parses:
  assumes "put_packet_head dst k version s firstSize w h hs vs = Inr packet"
  shows "ParseFrameHeader packet = Inr
    \<lparr>fh_FrameType = (if k then KeyFrame else InterFrame), fh_Profile = version, fh_ShowFrame = s,
     fh_FirstPartitionSize = firstSize, fh_HeaderSize = (if k then 10 else 3),
     fh_Width = (if k then w else 0), fh_Height = (if k then h else 0),
     fh_HorizScale = (if k then hs else 0), fh_VertScale = (if k then vs else 0)\<rparr>"
proof -
  obtain d where d: "PutFrameTag dst k version s firstSize = Inr d"
    using assms by (auto simp: put_packet_head_def split: sum.splits)
  note b = PutFrameTag_bytes [OF d] and f = frame_tag_fields [OF PutFrameTag_bytes(7-10) [OF d]]
  show ?thesis
  proof (cases k)
    case False
    then have p: "packet = d" using assms d by (simp add: put_packet_head_def)
    have len: "\<not> length d < 3" using b(1,2) by simp
    show ?thesis unfolding ParseFrameHeader_def p if_not_P [OF len] parse_tag [OF d refl]
      using False f [of False s] by (simp add: FrameHeader_KeyFrame_def Let_def)
  next
    case True
    then obtain e where e: "PutKeyFrameExtraHeader (drop 3 d) w h hs vs = Inr e" and p: "packet = take 3 d @ e"
      using assms d by (auto simp: put_packet_head_def FrameTagSize_def map_sum_def split: sum.splits)
    define ww where "ww = (word_of_int w OR push_bit 14 (word_of_int hs) :: u16)"
    define hw where "hw = (word_of_int h OR push_bit 14 (word_of_int vs) :: u16)"
    note x = PutKeyFrameExtraHeader_bytes [OF e, folded ww_def hw_def]
    have len: "length e = length d - 3" "7 \<le> length e" using x(1,10) by simp_all
    have t3: "take 3 packet = take 3 d" using p x(1) by simp
    have nth: "packet ! (3 + n) = e ! n" for n using p x(1) by (simp add: nth_append)
    have "packet ! 3 = e ! 0" "packet ! 4 = e ! 1" "packet ! 5 = e ! 2" "packet ! 6 = e ! 3" "packet ! 7 = e ! 4" "packet ! 8 = e ! 5"
      "packet ! 9 = e ! 6" using nth [of 0] nth [of 1] nth [of 2] nth [of 3] nth [of 4] nth [of 5] nth [of 6] by simp_all
    then have pn: "packet ! 3 = 0x9d" "packet ! 4 = 0x01" "packet ! 5 = 0x2a"
      "ucast (packet ! 6) OR push_bit 8 (ucast (packet ! 7)) = ww"
      "ucast (packet ! 8) OR push_bit 8 (ucast (packet ! 9)) = hw"
      using x(1) unfolding x(10) by (simp_all add: le16_word)
    have l: "\<not> length packet < 3" "\<not> length packet < 10" using p x(1) len by simp_all
    note dw = dimension_fields [OF x(2,3,6,7), folded ww_def] and dh = dimension_fields [OF x(4,5,8,9), folded hw_def]
    show ?thesis
      unfolding ParseFrameHeader_def if_not_P [OF l(1)] if_not_P [OF l(2)] parse_tag [OF d t3] pn(4,5)
      using True f [of True s] x(2,4) pn(1-3) by (simp add: FrameHeader_KeyFrame_def KeyFrameStartCode_def Let_def dw dh)
  qed
qed

lemma put_head_length:
  assumes "put_packet_head dst k version s firstSize w h hs vs = Inr d"
  shows "length d = length dst" and "3 \<le> length dst" and "k \<Longrightarrow> 10 \<le> length dst"
proof -
  obtain e where e: "PutFrameTag dst k version s firstSize = Inr e"
    using assms by (auto simp: put_packet_head_def split: sum.splits)
  note b = PutFrameTag_bytes [OF e]
  show "3 \<le> length dst" using b(2) .
  have "length d = length dst \<and> (k \<longrightarrow> 10 \<le> length dst)"
  proof (cases k)
    case True
    then obtain g where g: "PutKeyFrameExtraHeader (drop 3 e) w h hs vs = Inr g" "d = take 3 e @ g"
      using assms e by (auto simp: put_packet_head_def FrameTagSize_def map_sum_def split: sum.splits)
    have "length g = length dst - 3" "7 \<le> length dst - 3"
      using PutKeyFrameExtraHeader_bytes(1,10) [OF g(1)] b(1) by simp_all
    moreover have "10 \<le> length dst" using \<open>7 \<le> length dst - 3\<close> by linarith
    ultimately show ?thesis using g(2) b(1) by simp
  next
    case False
    then show ?thesis using assms e b(1) by (simp add: put_packet_head_def)
  qed
  then show "length d = length dst" "k \<Longrightarrow> 10 \<le> length dst" by simp_all
qed

text \<open>The header is decided by its own bytes.\<close>

lemma parse_header_prefix: "ParseFrameHeader p = Inr h \<Longrightarrow> ParseFrameHeader (p @ tail) = Inr h"
proof -
  assume h: "ParseFrameHeader p = Inr h"
  have l: "\<not> length p < 3" using h by (auto simp: ParseFrameHeader_def)
  then have l': "\<not> length (p @ tail) < 3" by simp
  have "(p @ tail) ! n = p ! n" if "n < 3" for n
  proof -
    have "n < length p" using l that by linarith
    then show ?thesis by (simp add: nth_append)
  qed
  then have n3: "(p @ tail) ! 0 = p ! 0" "(p @ tail) ! 1 = p ! 1" "(p @ tail) ! 2 = p ! 2" by simp_all
  define t where "t = (ucast (p ! 0) OR push_bit 8 (ucast (p ! 1)) OR push_bit 16 (ucast (p ! 2)) :: u32)"
  show ?thesis
  proof (cases "t AND 1 = 0 \<and> length p < 10")
    case True
    then show ?thesis
      using h unfolding ParseFrameHeader_def if_not_P [OF l] t_def [symmetric] Let_def by (simp add: FrameHeader_KeyFrame_def)
  next
    case False
    show ?thesis
    proof (cases "t AND 1 = 0")
      case True
      then have m: "\<not> length p < 10" "\<not> length (p @ tail) < 10" using False by simp_all
      have "(p @ tail) ! n = p ! n" if "n < 10" for n
      proof -
        have "n < length p" using m(1) that by linarith
        then show ?thesis by (simp add: nth_append)
      qed
      then have n10: "(p @ tail) ! 3 = p ! 3" "(p @ tail) ! 4 = p ! 4" "(p @ tail) ! 5 = p ! 5" "(p @ tail) ! 6 = p ! 6"
        "(p @ tail) ! 7 = p ! 7" "(p @ tail) ! 8 = p ! 8" "(p @ tail) ! 9 = p ! 9" by simp_all
      show ?thesis
        using h unfolding ParseFrameHeader_def if_not_P [OF l] if_not_P [OF l'] if_not_P [OF m(1)] if_not_P [OF m(2)] n3 n10 .
    next
      case False
      then show ?thesis
        using h unfolding ParseFrameHeader_def if_not_P [OF l] if_not_P [OF l'] n3 t_def [symmetric] Let_def
        by (auto simp: FrameHeader_KeyFrame_def)
    qed
  qed
qed

text \<open>C12: The header the encoder puts at the front of a packet is read back field by field: the frame type, version,
  show flag and first-partition size of every frame, and the size and scaling of a key frame.\<close>

theorem frame_header_roundtrip:
  assumes "put_packet_head dst k version s firstSize w h hs vs = Inr packet"
  shows "ParseFrameHeader packet = Inr
    \<lparr>fh_FrameType = (if k then KeyFrame else InterFrame), fh_Profile = version, fh_ShowFrame = s,
     fh_FirstPartitionSize = firstSize, fh_HeaderSize = (if k then 10 else 3),
     fh_Width = (if k then w else 0), fh_Height = (if k then h else 0),
     fh_HorizScale = (if k then hs else 0), fh_VertScale = (if k then vs else 0)\<rparr>"
  by (rule put_head_parses [OF assms])

section \<open>The partition table survives\<close>

definition size_bytes :: "nat \<Rightarrow> byte list" where
  "size_bytes n = [word_of_nat n, word_of_nat (n div 2 ^ 8), word_of_nat (n div 2 ^ 16)]"

definition size_table :: "byte list list \<Rightarrow> byte list" where
  "size_table bs = concat (map (\<lambda>b. size_bytes (length b)) (butlast bs))"

lemma size_table_simps [simp]:
  "size_table [] = []" "size_table [b] = []" "size_table (b # c # bs) = size_bytes (length b) @ size_table (c # bs)"
  by (simp_all add: size_table_def)

lemma length_size_bytes [simp]: "length (size_bytes n) = 3"
  by (simp add: size_bytes_def)

lemma length_size_table [simp]: "length (size_table bs) = 3 * (length bs - 1)"
  by (induction bs rule: induct_list012) simp_all

lemma PutPartitionSize_bytes:
  "PutPartitionSize dst (int n) = Inr d \<Longrightarrow> 3 \<le> length dst \<and> n < 2 ^ 24 \<and> d = size_bytes n @ drop 3 dst"
proof -
  assume p: "PutPartitionSize dst (int n) = Inr d"
  have ok: "3 \<le> length dst" "n < 2 ^ 24"
    using p by (auto simp: PutPartitionSize_def MaxPartitionSize_def split: if_split_asm)
  obtain x y z r where dst: "dst = x # y # z # r"
    using ok(1) by (metis Suc_le_length_iff numeral_3_eq_3)
  have w: "word_of_int (drop_bit k (int n)) = (word_of_nat (n div 2 ^ k) :: byte)" for k
    by (metis drop_bit_eq_div drop_bit_of_nat of_int_of_nat_eq)
  have "d = dst[0 := word_of_nat n, 1 := word_of_nat (n div 2 ^ 8), 2 := word_of_nat (n div 2 ^ 16)]"
    using p ok unfolding PutPartitionSize_def w by (auto simp: MaxPartitionSize_def split: if_split_asm)
  then show ?thesis using ok by (simp add: dst size_bytes_def numeral_2_eq_2)
qed

lemma read_size_bytes:
  assumes "n < 2 ^ 24"
  shows "readTokenPartitionSize (size_bytes n @ r) = int n"
proof -
  have u: "uint (word_of_nat m :: byte) = int (m mod 256)" for m
    by (simp add: unsigned_of_nat take_bit_eq_mod flip: uint_nat)
  have bits: "bit (int (n mod 256) OR push_bit 8 (int (n div 2 ^ 8 mod 256)) OR push_bit 16 (int (n div 2 ^ 16 mod 256))) k = bit (int n) k" for k
  proof -
    have t: "int (m mod 256) = take_bit 8 (int m)" "int (m div 2 ^ e) = drop_bit e (int m)" for m e
      by (simp_all add: take_bit_eq_mod drop_bit_eq_div zdiv_int zmod_int)
    have hi: "\<not> bit (int n) k" if "24 \<le> k"
    proof -
      have "n < 2 ^ k" using assms that by (meson less_le_trans one_le_numeral power_increasing)
      then show ?thesis by (simp add: bit_iff_odd)
    qed
    have "k < 8 \<or> 8 \<le> k \<and> k < 16 \<or> 16 \<le> k \<and> k < 24 \<or> 24 \<le> k" by linarith
    then show ?thesis
      unfolding t using hi by (auto simp: bit_or_iff bit_push_bit_iff bit_take_bit_iff bit_drop_bit_eq)
  qed
  show ?thesis
    unfolding readTokenPartitionSize_def size_bytes_def
    by (simp add: u) (rule bit_eqI, use bits in simp)
qed

lemma take_drop_three: "a \<le> b \<Longrightarrow> take a l @ drop a (take b l) @ drop b l = l"
  by (metis append_assoc append_take_drop_id min.absorb1 take_take)

text \<open>One round of \<open>finalize_loop\<close>: the table entry goes in, the partition is copied.\<close>

lemma finalize_step:
  assumes "finalize_loop T pc i (w # ws) dst off = Inr r" "T + 3 * (pc - 1) \<le> off" "off \<le> length dst"
    "w_pos (Finish w) \<le> length (w_buf (Finish w))"
  defines "b \<equiv> Bytes (Finish w)"
  shows "w_err (Finish w) = 0 \<and> off + length b \<le> length dst \<and> (i < pc - 1 \<longrightarrow> length b < 2 ^ 24) \<and>
    finalize_loop T pc (i + 1) ws
      (take off (if i < pc - 1 then take (T + 3 * i) dst @ size_bytes (length b) @ drop (T + 3 * i + 3) dst else dst) @ b @
        drop (off + length b) dst)
      (off + length b) = Inr r"
proof -
  define f where "f = Finish w"
  have b: "length b = w_pos f" "take (w_pos f) (w_buf f) = b"
    using assms(4) by (simp_all add: b_def f_def Bytes_def)
  define put where "put = (if i < pc - 1
    then map_sum id (\<lambda>tl. take (T + i * 3) dst @ tl) (PutPartitionSize (drop (T + i * 3) dst) (int (length b))) else Inr dst)"
  have step: "finalize_loop T pc i (w # ws) dst off =
      (if Writer_Err f \<noteq> None then Inl EncErrBufferTooSmall
       else if int (length b) > MaxPartitionSize then Inl ErrInvalidPacketConfig
       else (case put of Inl e \<Rightarrow> Inl e | Inr d1 \<Rightarrow>
         if int (length d1) - int off < int (length b) then Inl EncErrBufferTooSmall
         else finalize_loop T pc (i + 1) ws (take off d1 @ b @ drop (off + length b) d1) (off + length b)))"
    by (simp only: finalize_loop.simps Let_def f_def [symmetric] BytesWritten_def b(1) [symmetric] put_def) (simp only: b)
  have f: "Writer_Err f = None" and sz: "\<not> int (length b) > MaxPartitionSize"
    using assms(1) unfolding step by (auto split: if_split_asm)
  obtain d1 where d1: "put = Inr d1" and room: "\<not> int (length d1) - int off < int (length b)"
    and rest: "finalize_loop T pc (i + 1) ws (take off d1 @ b @ drop (off + length b) d1) (off + length b) = Inr r"
    using assms(1) f sz unfolding step by (auto split: if_split_asm sum.splits)
  show ?thesis
  proof (cases "i < pc - 1")
    case True
    then have tab: "T + 3 * i + 3 \<le> off" using assms(2) by simp
    obtain d0 where p: "PutPartitionSize (drop (T + i * 3) dst) (int (length b)) = Inr d0" and d1: "d1 = take (T + i * 3) dst @ d0"
      using d1 True by (auto simp: put_def map_sum_def split: sum.splits)
    have d: "d1 = take (T + 3 * i) dst @ size_bytes (length b) @ drop (T + 3 * i + 3) dst" and l: "length b < 2 ^ 24"
      using PutPartitionSize_bytes [OF p] d1 by (simp_all add: mult.commute add.commute)
    have len: "length d1 = length dst" using d tab assms(3) by simp
    have "drop (off + length b) d1 = drop (off + length b) dst" using d tab assms(3) by simp
    then show ?thesis using f l room rest True len assms(3) by (simp add: Writer_Err_def f_def d split: if_split_asm)
  next
    case False
    then have "d1 = dst" using d1 by (simp add: put_def)
    then show ?thesis using f room rest False assms(3) by (simp add: Writer_Err_def f_def split: if_split_asm)
  qed
qed

lemma finalize_bytes:
  assumes "finalize_loop T pc i ws dst off = Inr (n, d)" "i + length ws = pc" "T + 3 * (pc - 1) \<le> off" "off \<le> length dst"
    "\<forall>w\<in>set ws. w_pos (Finish w) \<le> length (w_buf (Finish w))"
  shows "(\<forall>w\<in>set ws. w_err (Finish w) = 0) \<and>
    n = off + length (concat (map (\<lambda>w. Bytes (Finish w)) ws)) \<and> n \<le> length dst \<and>
    (\<forall>b\<in>set (butlast (map (\<lambda>w. Bytes (Finish w)) ws)). length b < 2 ^ 24) \<and>
    d = take (T + 3 * min i (pc - 1)) dst @ size_table (map (\<lambda>w. Bytes (Finish w)) ws) @
      drop (T + 3 * (pc - 1)) (take off dst) @ concat (map (\<lambda>w. Bytes (Finish w)) ws) @ drop n dst"
  using assms
proof (induction ws arbitrary: i dst off)
  case Nil
  then show ?case using take_drop_three [OF Nil.prems(3), of dst] by simp
next
  case (Cons w ws)
  define X where "X = T + 3 * (pc - 1)"
  define b where "b = Bytes (Finish w)"
  define bs where "bs = map (\<lambda>w. Bytes (Finish w)) ws"
  define d1 where "d1 = (if i < pc - 1 then take (T + 3 * i) dst @ size_bytes (length b) @ drop (T + 3 * i + 3) dst else dst)"
  define d2 where "d2 = take off d1 @ b @ drop (off + length b) dst"
  have X: "X \<le> off" "off \<le> length dst" using Cons.prems(3,4) by (simp_all add: X_def)
  note st = finalize_step [OF Cons.prems(1,3,4), folded b_def, folded d1_def, folded d2_def]
  have st: "w_err (Finish w) = 0" "off + length b \<le> length dst" "i < pc - 1 \<Longrightarrow> length b < 2 ^ 24"
    "finalize_loop T pc (i + 1) ws d2 (off + length b) = Inr (n, d)"
    using st Cons.prems(5) by simp_all
  have tab: "T + 3 * i + 3 \<le> X" if "i < pc - 1" using that by (simp add: X_def)
  have l1: "length d1 = length dst" using tab X by (auto simp: d1_def)
  have l2: "length d2 = length dst" using st(2) l1 by (simp add: d2_def)
  have "X \<le> off + length b" using X by simp
  note IH = Cons.IH [OF st(4) _ this [unfolded X_def] _ , folded bs_def, folded X_def]
  have IH: "\<forall>w\<in>set ws. w_err (Finish w) = 0" "n = off + length b + length (concat bs)" "n \<le> length d2"
    "\<forall>b\<in>set (butlast bs). length b < 2 ^ 24"
    "d = take (T + 3 * min (i + 1) (pc - 1)) d2 @ size_table bs @ drop X (take (off + length b) d2) @ concat bs @ drop n d2"
    using IH Cons.prems(2,5) l2 st(2) by auto
  have e: "drop n d2 = drop n dst" "take (off + length b) d2 = take off d1 @ b"
    using IH(2) st(2) l1 X by (simp_all add: d2_def add.commute add.left_commute)
  have "drop X d1 = drop X dst" using X tab by (auto simp: d1_def)
  then have dX: "drop X (take off d1) = drop X (take off dst)" by (simp add: drop_take)
  have last: "ws = [] \<longleftrightarrow> \<not> i < pc - 1" using Cons.prems(2) by (cases ws) auto
  have head: "take (T + 3 * min (i + 1) (pc - 1)) d2 @ size_table bs = take (T + 3 * min i (pc - 1)) dst @ size_table (b # bs)"
  proof (cases "i < pc - 1")
    case True
    then have "bs \<noteq> []" using last by (simp add: bs_def)
    moreover have "take (T + 3 * min (i + 1) (pc - 1)) d2 = take (T + 3 * i + 3) d1"
      using True tab X l1 by (simp add: d2_def min_def add.commute add.left_commute)
    moreover have "take (T + 3 * i + 3) d1 = take (T + 3 * i) dst @ size_bytes (length b)"
      using True tab X by (simp add: d1_def)
    ultimately show ?thesis using True by (cases bs) simp_all
  next
    case False
    then have "min (i + 1) (pc - 1) = pc - 1" "min i (pc - 1) = pc - 1" "bs = []" using last by (simp_all add: bs_def)
    then show ?thesis using False X l1 by (simp add: d2_def d1_def X_def)
  qed
  have "d = (take (T + 3 * min (i + 1) (pc - 1)) d2 @ size_table bs) @ drop X (take off dst) @ (b @ concat bs) @ drop n dst"
    unfolding IH(5) e using X l1 dX by simp
  then have "d = take (T + 3 * min i (pc - 1)) dst @ size_table (b # bs) @ drop X (take off dst) @ concat (b # bs) @ drop n dst"
    unfolding head by simp
  moreover have "\<forall>c\<in>set (butlast (b # bs)). length c < 2 ^ 24"
    using IH(4) st(3) last by (auto simp: bs_def)
  ultimately show ?case
    using IH(1-3) st(1) l2 by (simp add: b_def [symmetric] bs_def [symmetric] X_def)
qed

lemma layout_loop_bytes:
  assumes "bs \<noteq> []" "\<forall>b\<in>set bs. b \<noteq> []" "\<forall>b\<in>set (butlast bs). length b < 2 ^ 24"
    "drop off packet = concat bs" "drop (3 * i) tab = size_table bs" "i + length bs \<le> length (pl_Tokens out)"
  shows "layout_loop packet tab ec i (length bs - 1) off out =
    (None, out\<lparr>pl_Tokens := take i (pl_Tokens out) @ bs @ drop (i + length bs) (pl_Tokens out)\<rparr>)"
  using assms
proof (induction bs arbitrary: i off out rule: induct_list012)
  case 1
  then show ?case by simp
next
  case (2 b)
  have l: "off < length packet" using 2 by (metis concat.simps drop_eq_Nil append_Nil2 list.set_intros(1) not_less)
  have "(pl_Tokens out)[i := b] = take i (pl_Tokens out) @ [b] @ drop (i + 1) (pl_Tokens out)"
    using 2(6) by (simp add: upd_conv_take_nth_drop)
  then show ?case using 2(4) l by simp
next
  case (3 b c bs)
  have "length (drop off packet) = length b + length (concat (c # bs))" using 3(6) by simp
  moreover have "0 < length b" using 3(4) by simp
  ultimately have room: "off + length b \<le> length packet" unfolding length_drop by linarith
  have b: "0 < length b" "length b < 2 ^ 24" using 3(4,5) by auto
  have rd: "readTokenPartitionSize (drop (i * 3) tab) = int (length b)"
    using read_size_bytes [OF b(2)] 3(7) by (simp add: mult.commute)
  have "length (drop (3 * i) tab) = 3 * (length bs + 1)" using 3(7) by simp
  then have lt: "\<not> length tab < (i + 1) * 3" by simp
  have "drop (3 * i + 3) tab = drop 3 (drop (3 * i) tab)" by (simp add: add.commute)
  also have "\<dots> = size_table (c # bs)" using 3(7) by simp
  finally have tab: "drop (3 * (i + 1)) tab = size_table (c # bs)" by (simp add: add.commute)
  have "drop (off + length b) packet = drop (length b) (drop off packet)" by (simp add: add.commute)
  also have "\<dots> = concat (c # bs)" using 3(6) by simp
  finally have nx: "drop (off + length b) packet = concat (c # bs)" .
  have tk: "take (length b) (drop off packet) = b" using 3(6) by simp
  define out' where "out' = out\<lparr>pl_Tokens := (pl_Tokens out)[i := b]\<rparr>"
  have "layout_loop packet tab ec (i + 1) (length (c # bs) - 1) (off + length b) out' =
    (None, out'\<lparr>pl_Tokens := take (i + 1) (pl_Tokens out') @ (c # bs) @ drop (i + 1 + length (c # bs)) (pl_Tokens out')\<rparr>)"
    using 3(4,5,8) nx tab by (intro 3(2)) (auto simp: out'_def)
  moreover have "take (i + 1) (pl_Tokens out') = take i (pl_Tokens out) @ [b]"
    using 3(8) by (simp add: out'_def take_Suc_conv_app_nth)
  ultimately show ?case
    using lt rd b(1) room tk by (simp add: out'_def Let_def)
qed

text \<open>A finished message is never empty: the flush alone shifts 31 places.\<close>

lemma message_nonempty: "message_bytes xs \<noteq> []"
proof -
  obtain out low R j where m: "wputs winit xs = (out, low, R, j)" by (metis prod_cases4)
  have ok: "wok (out, low, R, j)" "wrel (out, low, R, j) (enc_run enc_init xs)"
    using wputs_sim [OF winit_ok wf_enc_init, of xs] by (simp_all add: m)
  have wf: "wf_ival (enc_run enc_init xs)" using wf_enc_init by (rule enc_run_wf)
  obtain L k where s: "enc_run enc_init xs = (L, R, k)" using ok(2) by (cases "enc_run enc_init xs") (auto simp: wrel_def)
  obtain n R2 where run: "enc_run (L, R, k) flush_bits = (L * 2 ^ n, R2, k + n)" and n: "31 \<le> n"
    using enc_run_flush wf by (metis s)
  obtain out' low' R' j' where m': "wputs (out, low, R, j) flush_bits = (out', low', R', j')" by (metis prod_cases4)
  have "wok (out', low', R', j')" "wrel (out', low', R', j') (L * 2 ^ n, R2, k + n)"
    using wputs_sim [OF ok wf, of flush_bits] by (simp_all add: m' run s)
  then have "j' < 24" "k + n = j' + 8 * length out'" by (auto simp: wok_def wrel_def)
  then have "out' \<noteq> []" using n by auto
  then show ?thesis by (simp add: message_bytes_def wputs_append m m')
qed

text \<open>The position never leaves the buffer, not even after an error.\<close>

lemma write_tail_pos: "w_pos w \<le> length (w_buf w) \<Longrightarrow> w_pos (write_tail w low rng) \<le> length (w_buf w)"
proof -
  have "w_pos (propagateCarry w) = w_pos w"
    by (simp add: propagateCarry_def split: prod.splits nat.splits)
  then show "w_pos w \<le> length (w_buf w) \<Longrightarrow> ?thesis" by (simp add: write_tail_def Let_def)
qed

lemma write_literal_loop_pos:
  "w_pos w \<le> length (w_buf w) \<Longrightarrow> w_pos (write_literal_loop w v n) \<le> length (w_buf (write_literal_loop w v n))"
  by (induction n arbitrary: w) (simp_all add: Let_def write_tail_pos)

lemma Finish_pos: "w_pos w \<le> length (w_buf w) \<Longrightarrow> w_pos (Finish w) \<le> length (w_buf (Finish w))"
  using write_literal_loop_pos [of w 0 32] by (simp add: Finish_def WriteLiteral_def Let_def)

lemma write_bools_pos: "w_pos w \<le> length (w_buf w) \<Longrightarrow> w_pos (write_bools w xs) \<le> length (w_buf (write_bools w xs))"
proof (induction xs arbitrary: w)
  case (Cons x xs)
  have "w_pos (WriteBool w b p) \<le> length (w_buf (WriteBool w b p))" for b p
    using Cons.prems write_tail_pos by (simp add: WriteBool_def Let_def)
  then show ?case using Cons.IH by (simp add: write_bools_def)
qed (simp add: write_bools_def)

lemma partition_written:
  assumes "w_err (Finish (write_bools (Writer_Init l) xs)) = 0"
  shows "Bytes (Finish (write_bools (Writer_Init l) xs)) = message_bytes xs"
  using message_fits(2) [OF emits_write_bools assms] .

lemma partition_pos: "w_pos (Finish (write_bools (Writer_Init l) xs)) \<le> length (w_buf (Finish (write_bools (Writer_Init l) xs)))"
  by (intro Finish_pos write_bools_pos) (simp add: Writer_Init_def)

lemma prepare_writers:
  assumes "preparePartitionWriters scratch dst (int T) tp = Inr (buffers, writers, pc)" "\<forall>s. scratch = Some s \<longrightarrow> length s = 8"
  shows "tp \<le> 3 \<and> pc = 2 ^ tp \<and> 2 \<le> pc \<and> pc \<le> 8 \<and> T + 3 * (pc - 1) \<le> length dst \<and> length writers = pc \<and>
    (\<forall>i<pc. \<exists>l. writers ! i = Writer_Init l)"
proof -
  define bufs where "bufs = ensureCapacity (case scratch of None \<Rightarrow> replicate 8 [] | Some b \<Rightarrow> b) pc (length dst)"
  have c: "tokenPartitionCount tp = Some pc" and pc2: "2 \<le> pc" and room: "T + 3 * (pc - 1) \<le> length dst"
    and w: "writers = map (\<lambda>b. Writer_Init (take (length dst) b)) (take pc bufs)"
    using assms(1) by (auto simp: preparePartitionWriters_def bufs_def Let_def split: if_split_asm option.splits)
  have tp: "tp \<le> 3" "pc = 2 ^ tp" using c by (auto simp: tokenPartitionCount_def split: if_split_asm)
  have pc8: "pc \<le> 8" using tp(1,2) power_increasing [of tp 3 "2 :: nat"] by simp
  have "length bufs = 8" using assms(2) pc8 by (simp add: bufs_def ensureCapacity_def split: option.splits)
  then show ?thesis using tp pc2 room pc8 w by auto
qed

lemma parse_laid_out:
  assumes "packet = take T dst @ size_table bs @ concat bs" "T \<le> length dst" "length bs = 2 ^ tp" "tp \<le> 3"
    "\<forall>b\<in>set bs. b \<noteq> []" "\<forall>b\<in>set (butlast bs). length b < 2 ^ 24"
    "fh_HeaderSize frame = int H" "fh_FirstPartitionSize frame = int T - int H" "H \<le> T"
  shows "ParsePartitionLayout packet frame tp =
    (None, \<lparr>pl_First = take (T - H) (drop H dst), pl_Tokens = bs @ replicate (8 - length bs) [], pl_TokenCount = 2 ^ tp\<rparr>)"
proof -
  define out where "out = empty_layout\<lparr>pl_First := take (T - H) (drop H dst), pl_TokenCount := 2 ^ tp\<rparr>"
  have pc8: "length bs \<le> 8" using assms(3,4) power_increasing [of tp 3 "2 :: nat"] by simp
  have T: "length (take T dst) = T" using assms(2) by simp
  have len: "length packet = T + 3 * (2 ^ tp - 1) + length (concat bs)" using assms(1,3) T by simp
  have Tl: "T \<le> length packet" "3 * (2 ^ tp - 1) \<le> length packet - T" using len by linarith+
  have ne: "bs \<noteq> []" using assms(3) by auto
  have tab: "take (3 * (2 ^ tp - 1)) (drop T packet) = size_table bs"
    using assms(1,3) T by simp
  have first: "take (T - H) (drop H packet) = take (T - H) (drop H dst)"
    using assms(1,2,9) by (simp flip: drop_take)
  have "layout_loop packet (size_table bs) False 0 (length bs - 1) (T + 3 * (2 ^ tp - 1)) out =
      (None, out\<lparr>pl_Tokens := take 0 (pl_Tokens out) @ bs @ drop (0 + length bs) (pl_Tokens out)\<rparr>)"
    using assms(1,3,5,6) ne pc8 T by (intro layout_loop_bytes) (simp_all add: out_def empty_layout_def)
  then have loop: "layout_loop packet (size_table bs) False 0 (2 ^ tp - 1) (T + 3 * (2 ^ tp - 1)) out =
      (None, \<lparr>pl_First = take (T - H) (drop H dst), pl_Tokens = bs @ replicate (8 - length bs) [], pl_TokenCount = 2 ^ tp\<rparr>)"
    using assms(3) by (simp add: out_def empty_layout_def)
  have c: "\<not> tp > 3" "\<not> (fh_FirstPartitionSize frame < 0 \<or> fh_HeaderSize frame < 0 \<or> fh_HeaderSize frame > int (length packet))"
    and e: "fh_HeaderSize frame + fh_FirstPartitionSize frame = int T"
    and f: "\<not> sum_wraps packet frame" "\<not> int T > int (length packet)"
    and g: "\<not> length packet - T < 3 * (2 ^ tp - 1)"
    using assms(4,7,8,9) Tl by (auto simp: sum_wraps_def)
  show ?thesis
    unfolding ParsePartitionLayout_def parsePartitionLayout_def Let_def if_not_P [OF c(1)] if_not_P [OF c(2)] e
    using f g loop tab by (simp add: assms(7) first out_def)
qed

text \<open>C11: Token partitions survive the packet: when the encoder lays out 2, 4 or 8 partitions behind the size table
  without error, the decoder finds the first partition unchanged and as many token partitions, and whatever bits
  were coded into a partition are the bits its decoder reads.\<close>

theorem partitions_roundtrip:
  assumes "preparePartitionWriters scratch dst (int tokenStart) tokenPartition = Inr (buffers, writers, pc)"
    and "\<forall>s. scratch = Some s \<longrightarrow> length s = 8"
    and "finalizePartitionedTokenPayload (map (\<lambda>i. write_bools (writers ! i) (bits ! i)) [0..<pc]) dst tokenStart pc = Inr (n, packet)"
    and "fh_HeaderSize frame = int headerSize" "fh_FirstPartitionSize frame = int tokenStart - int headerSize" "headerSize \<le> tokenStart"
    and "i < pc"
  shows "\<exists>layout. ParsePartitionLayout (take n packet) frame tokenPartition = (None, layout) \<and>
    pl_TokenCount layout = pc \<and> pl_First layout = take (tokenStart - headerSize) (drop headerSize dst) \<and>
    fst (run_state (read_bools (map snd (bits ! i))) (Decoder_Init (pl_Tokens layout ! i))) = map fst (bits ! i)"
proof -
  define ws where "ws = map (\<lambda>i. write_bools (writers ! i) (bits ! i)) [0..<pc]"
  define ms where "ms = map (\<lambda>i. message_bytes (bits ! i)) [0..<pc]"
  have pw: "tokenPartition \<le> 3" "pc = 2 ^ tokenPartition" "2 \<le> pc" "pc \<le> 8" "tokenStart + 3 * (pc - 1) \<le> length dst"
    and init: "\<And>j. j < pc \<Longrightarrow> \<exists>l. writers ! j = Writer_Init l"
    using prepare_writers [OF assms(1,2)] by auto
  have pos: "\<forall>w\<in>set ws. w_pos (Finish w) \<le> length (w_buf (Finish w))"
    unfolding ws_def using init partition_pos by fastforce
  have run: "finalize_loop tokenStart pc 0 ws dst (tokenStart + 3 * (pc - 1)) = Inr (n, packet)"
    using assms(3) by (simp add: finalizePartitionedTokenPayload_def ws_def)
  note F = finalize_bytes [OF run _ _ pw(5) pos]
  have F: "\<forall>w\<in>set ws. w_err (Finish w) = 0" "n = tokenStart + 3 * (pc - 1) + length (concat (map (\<lambda>w. Bytes (Finish w)) ws))"
    "n \<le> length dst" "\<forall>b\<in>set (butlast (map (\<lambda>w. Bytes (Finish w)) ws)). length b < 2 ^ 24"
    "packet = take tokenStart dst @ size_table (map (\<lambda>w. Bytes (Finish w)) ws) @ concat (map (\<lambda>w. Bytes (Finish w)) ws) @ drop n dst"
    using F by (simp_all add: ws_def)
  have err: "w_err (Finish (write_bools (writers ! j) (bits ! j))) = 0" if "j < pc" for j
    using F(1) that by (simp add: ws_def)
  have ms: "map (\<lambda>w. Bytes (Finish w)) ws = ms"
    unfolding ws_def ms_def map_map comp_def
    by (intro map_cong refl) (use err init partition_written in fastforce)
  have "take n packet = take tokenStart dst @ size_table ms @ concat ms"
    using F(2,3,5) pw(5) unfolding ms by (simp add: ms_def)
  then have parse: "ParsePartitionLayout (take n packet) frame tokenPartition =
    (None, \<lparr>pl_First = take (tokenStart - headerSize) (drop headerSize dst), pl_Tokens = ms @ replicate (8 - length ms) [],
       pl_TokenCount = 2 ^ tokenPartition\<rparr>)"
    using F(4) pw assms(4-6) unfolding ms
    by (intro parse_laid_out) (simp_all add: ms_def message_nonempty)
  obtain l where l: "writers ! i = Writer_Init l" using init [OF assms(7)] by blast
  have "ms ! i = Bytes (Finish (write_bools (Writer_Init l) (bits ! i)))"
    using assms(7) err [OF assms(7)] by (simp add: ms_def l partition_written)
  then have "fst (run_state (read_bools (map snd (bits ! i))) (Decoder_Init (ms ! i))) = map fst (bits ! i)"
    using message_roundtrip [OF emits_write_bools [of "bits ! i"] reads_read_bools, where dst = l] err [OF assms(7)] by (simp add: l)
  then show ?thesis
    using parse pw(2) assms(7) by (simp add: nth_append ms_def)
qed

theorem frame_header_roundtrip_witness:
  "ParseFrameHeader [0x50, 0x4b, 0x00, 0x9d, 0x01, 0x2a, 0xb0, 0x00, 0x90, 0x40] = Inr
    \<lparr>fh_FrameType = KeyFrame, fh_Profile = 0, fh_ShowFrame = True, fh_FirstPartitionSize = 602, fh_HeaderSize = 10,
     fh_Width = 176, fh_Height = 144, fh_HorizScale = 0, fh_VertScale = 1\<rparr>"
proof -
  have "put_packet_head (replicate 10 0) True 0 True 602 176 144 0 1 =
      Inr [0x50, 0x4b, 0x00, 0x9d, 0x01, 0x2a, 0xb0, 0x00, 0x90, 0x40]" by code_simp
  from frame_header_roundtrip [OF this] show ?thesis by simp
qed

section \<open>Parsing any packet\<close>

lemma layout_loop_any:
  assumes "layout_loop packet tab False i left off out = (None, lay)" "length tab = 3 * (i + left)"
    "i + left < length (pl_Tokens out)"
  shows "pl_First lay = pl_First out \<and> pl_TokenCount lay = pl_TokenCount out \<and>
    (\<exists>bs. length bs = left + 1 \<and> [] \<notin> set bs \<and> drop off packet = concat bs \<and>
      pl_Tokens lay = take i (pl_Tokens out) @ bs @ drop (i + left + 1) (pl_Tokens out))"
  using assms
proof (induction left arbitrary: i off out)
  case 0
  then have "lay = out\<lparr>pl_Tokens := (pl_Tokens out)[i := drop off packet]\<rparr>" "off < length packet"
    by (simp_all add: Let_def split: if_split_asm)
  moreover have "(pl_Tokens out)[i := drop off packet] = take i (pl_Tokens out) @ [drop off packet] @ drop (i + 1) (pl_Tokens out)"
    using 0(3) by (simp add: upd_conv_take_nth_drop)
  ultimately show ?case by (auto intro!: exI [of _ "[drop off packet]"])
next
  case (Suc left)
  define n where "n = nat (readTokenPartitionSize (drop (i * 3) tab))"
  define b where "b = take n (drop off packet)"
  define out' where "out' = out\<lparr>pl_Tokens := (pl_Tokens out)[i := b]\<rparr>"
  have "\<not> length tab < (i + 1) * 3" using Suc.prems(2) by simp
  then have n: "0 < n" "off + n \<le> length packet"
    and rest: "layout_loop packet tab False (i + 1) left (off + n) out' = (None, lay)"
    using Suc.prems(1) by (auto simp: Let_def n_def out'_def b_def split: if_split_asm)
  obtain bs where bs: "length bs = left + 1" "[] \<notin> set bs" "drop (off + n) packet = concat bs"
    "pl_Tokens lay = take (i + 1) (pl_Tokens out') @ bs @ drop (i + 1 + left + 1) (pl_Tokens out')"
    "pl_First lay = pl_First out'" "pl_TokenCount lay = pl_TokenCount out'"
    using Suc.IH [OF rest] Suc.prems(2,3) by (auto simp: out'_def)
  have "take (i + 1) (pl_Tokens out') = take i (pl_Tokens out) @ [b]"
    using Suc.prems(3) by (simp add: out'_def take_Suc_conv_app_nth)
  then have "pl_Tokens lay = take i (pl_Tokens out) @ (b # bs) @ drop (i + Suc left + 1) (pl_Tokens out)"
    using bs(4) by (simp add: out'_def)
  moreover have "drop off packet = concat (b # bs)"
    using bs(3) unfolding b_def by (metis add.commute append_take_drop_id concat.simps(2) drop_drop)
  moreover have "b \<noteq> []" using n by (auto simp: b_def)
  ultimately show ?case using bs by (intro conjI exI [of _ "b # bs"]) (auto simp: out'_def)
qed

text \<open>C13: Whatever the bytes, the partitions the strict parser hands out tile the packet: behind the header come the
  first partition at its declared size, the size table and then the token partitions end to end up to the last byte,
  as many as declared and none empty. No partition reaches outside the packet or overlaps another.\<close>

theorem partitions_tile_packet:
  assumes "ParsePartitionLayout packet frame tokenPartition = (None, layout)"
  shows "tokenPartition \<le> 3 \<and> pl_TokenCount layout = 2 ^ tokenPartition \<and> length (pl_Tokens layout) = 8 \<and>
    int (length (pl_First layout)) = fh_FirstPartitionSize frame \<and>
    (\<exists>table. length table = 3 * (2 ^ tokenPartition - 1) \<and>
      packet = take (nat (fh_HeaderSize frame)) packet @ pl_First layout @ table @ concat (pl_Tokens layout)) \<and>
    (\<forall>i<8. pl_Tokens layout ! i \<noteq> [] \<longleftrightarrow> i < 2 ^ tokenPartition)"
proof -
  define H where "H = nat (fh_HeaderSize frame)"
  define T where "T = nat (fh_HeaderSize frame + fh_FirstPartitionSize frame)"
  define S where "S = 3 * (2 ^ tokenPartition - 1 :: nat)"
  define out where "out = empty_layout\<lparr>pl_First := take (T - H) (drop H packet), pl_TokenCount := 2 ^ tokenPartition\<rparr>"
  have tp: "\<not> tokenPartition > 3"
    and c2: "\<not> (fh_FirstPartitionSize frame < 0 \<or> fh_HeaderSize frame < 0 \<or> fh_HeaderSize frame > int (length packet))"
    using assms by (auto simp: ParsePartitionLayout_def parsePartitionLayout_def split: if_split_asm)
  have c3: "\<not> (sum_wraps packet frame \<or> fh_HeaderSize frame + fh_FirstPartitionSize frame > int (length packet))"
    using assms c2 tp by (auto simp: ParsePartitionLayout_def parsePartitionLayout_def Let_def split: if_split_asm)
  have c4: "\<not> length packet - T < S"
    using assms c2 tp c3 by (auto simp: ParsePartitionLayout_def parsePartitionLayout_def Let_def T_def S_def split: if_split_asm)
  have loop: "layout_loop packet (take S (drop T packet)) False 0 (2 ^ tokenPartition - 1) (T + S) out = (None, layout)"
    using assms unfolding ParsePartitionLayout_def parsePartitionLayout_def Let_def if_not_P [OF tp] if_not_P [OF c2]
      eq_False [THEN iffD2, OF c3] out_def H_def [symmetric]
    by (simp only: simp_thms if_False T_def [symmetric] S_def [symmetric] eq_False [THEN iffD2, OF c4])
  have HT: "H \<le> T" "T \<le> length packet" "int T - int H = fh_FirstPartitionSize frame"
    using c2 c3 by (auto simp: H_def T_def)
  define N where "N = (2 :: nat) ^ tokenPartition"
  have N: "0 < N" "N \<le> 8" using tp power_increasing [of tokenPartition 3 "2 :: nat"] by (simp_all add: N_def)
  have len: "length (take S (drop T packet)) = 3 * (N - 1)" using c4 by (simp add: S_def N_def)
  have "N - 1 < 8" using N by linarith
  then obtain bs where bs: "length bs = N" "[] \<notin> set bs" "drop (T + S) packet = concat bs"
    "pl_Tokens layout = bs @ drop N (replicate 8 [])" "pl_First layout = pl_First out" "pl_TokenCount layout = N"
    using layout_loop_any [OF loop [folded N_def]] len N by (auto simp: out_def empty_layout_def N_def [symmetric])
  have first: "pl_First layout = take (T - H) (drop H packet)" using bs(5) by (simp add: out_def)
  have toks: "concat (pl_Tokens layout) = drop (T + S) packet" using bs(3,4) by simp
  have "packet = take H packet @ take (T - H) (drop H packet) @ take S (drop T packet) @ drop (T + S) packet"
    using HT(1) by (metis add.commute append_take_drop_id drop_drop le_add_diff_inverse)
  moreover have "length (pl_First layout) = T - H" using first HT by simp
  moreover have "pl_Tokens layout ! i \<noteq> [] \<longleftrightarrow> i < N" if "i < 8" for i
    using bs(1,2,4) that N by (auto simp: nth_append in_set_conv_nth)
  ultimately show ?thesis
    using tp bs(1,4,6) N HT len first toks unfolding H_def [symmetric] N_def [symmetric]
    by (intro conjI exI [of _ "take S (drop T packet)"]) auto
qed

definition two_partition_frame :: FrameHeader where
  "two_partition_frame = \<lparr>fh_FrameType = InterFrame, fh_Profile = 0, fh_ShowFrame = True, fh_FirstPartitionSize = 2,
     fh_HeaderSize = 3, fh_Width = 0, fh_Height = 0, fh_HorizScale = 0, fh_VertScale = 0\<rparr>"

definition two_partition_bits :: "(bool \<times> byte) list list" where
  "two_partition_bits = [[(True, 200), (False, 3)], [(True, 128)]]"

lemma two_partitions_written:
  "finalizePartitionedTokenPayload
     (map (\<lambda>i. write_bools ([Writer_Init (replicate 18 0), Writer_Init (replicate 18 0)] ! i) (two_partition_bits ! i)) [0..<2])
     (replicate 18 7) 5 2 = Inr (13, [7, 7, 7, 7, 7, 3, 0, 0, 199, 0, 0, 128, 0, 7, 7, 7, 7, 7])"
  by code_simp

theorem partitions_roundtrip_witness:
  "\<exists>layout. ParsePartitionLayout [7, 7, 7, 7, 7, 3, 0, 0, 199, 0, 0, 128, 0] two_partition_frame 1 = (None, layout) \<and>
    pl_TokenCount layout = 2 \<and> pl_First layout = [7, 7] \<and>
    fst (run_state (read_bools [200, 3]) (Decoder_Init (pl_Tokens layout ! 0))) = [True, False]"
proof -
  have p: "preparePartitionWriters None (replicate 18 7) (int 5) 1 =
      Inr (replicate 2 (replicate 18 0) @ replicate 6 [], [Writer_Init (replicate 18 0), Writer_Init (replicate 18 0)], 2)"
    by code_simp
  have s: "\<forall>s. None = Some s \<longrightarrow> length (s :: byte list list) = 8" by blast
  have "fh_HeaderSize two_partition_frame = int 3" "fh_FirstPartitionSize two_partition_frame = int 5 - int 3" "(3 :: nat) \<le> 5" "(0 :: nat) < 2"
    by (simp_all add: two_partition_frame_def)
  note x = partitions_roundtrip [OF p s two_partitions_written this]
  have "take (5 - 3) (drop 3 (replicate 18 (7 :: byte))) = [7, 7]" "map snd (two_partition_bits ! 0) = [200, 3]"
    "map fst (two_partition_bits ! 0) = [True, False]" by code_simp+
  moreover have "take 13 [7, 7, 7, 7, 7, 3, 0, 0, 199, 0, 0, 128, 0, 7, 7, 7, 7, 7 :: byte] = [7, 7, 7, 7, 7, 3, 0, 0, 199, 0, 0, 128, 0]"
    by code_simp
  ultimately show ?thesis using x by (simp only:)
qed

theorem partitions_tile_packet_witness:
  "\<exists>layout. ParsePartitionLayout [7, 7, 7, 7, 7, 3, 0, 0, 199, 0, 0, 128, 0] two_partition_frame 1 = (None, layout) \<and>
    length (pl_Tokens layout) = 8 \<and> pl_Tokens layout ! 1 \<noteq> [] \<and> pl_Tokens layout ! 2 = []"
proof -
  have "ParsePartitionLayout [7, 7, 7, 7, 7, 3, 0, 0, 199, 0, 0, 128, 0] two_partition_frame 1 =
      (None, \<lparr>pl_First = [7, 7], pl_Tokens = [[199, 0, 0], [128, 0], [], [], [], [], [], []], pl_TokenCount = 2\<rparr>)"
    by code_simp
  from partitions_tile_packet [OF this] this show ?thesis by auto
qed

lemma layout_loop_concealed: "fst (layout_loop packet tab True i left off out) = None"
  by (induction packet tab True i left off out rule: layout_loop.induct) (simp_all add: Let_def)

lemma layout_loop_strict:
  "fst (layout_loop packet tab False i left off out) = None \<Longrightarrow>
    layout_loop packet tab True i left off out = layout_loop packet tab False i left off out"
  by (induction packet tab False i left off out rule: layout_loop.induct) (simp_all add: Let_def split: if_split_asm)

text \<open>C40: Error concealment only widens what is accepted: it never changes the layout of a packet the strict parser
  accepts, and of a packet as long as a slice can be it accepts exactly those whose header lies in the packet, whose
  sizes are not negative and add up without overflow.\<close>

theorem concealment_extends_strict:
  assumes "int (length packet) \<le> maxInt"
  shows "(fst (ParsePartitionLayout packet frame tokenPartition) = None \<longrightarrow>
      ParsePartitionLayoutWithErrorConcealment packet frame tokenPartition = ParsePartitionLayout packet frame tokenPartition) \<and>
   (fst (ParsePartitionLayoutWithErrorConcealment packet frame tokenPartition) = None \<longleftrightarrow>
      tokenPartition \<le> 3 \<and> 0 \<le> fh_FirstPartitionSize frame \<and> 0 \<le> fh_HeaderSize frame \<and> fh_HeaderSize frame \<le> int (length packet) \<and>
      fh_HeaderSize frame + fh_FirstPartitionSize frame \<le> maxInt)"
proof -
  have wraps: "sum_wraps packet frame \<longleftrightarrow> \<not> fh_HeaderSize frame + fh_FirstPartitionSize frame \<le> maxInt"
    using assms by (auto simp: sum_wraps_def)
  show ?thesis
    unfolding ParsePartitionLayout_def ParsePartitionLayoutWithErrorConcealment_def parsePartitionLayout_def Let_def wraps
    using layout_loop_concealed layout_loop_strict by auto
qed

definition wrapping_frame :: FrameHeader where
  "wrapping_frame = two_partition_frame\<lparr>fh_FirstPartitionSize := maxInt\<rparr>"

theorem concealment_extends_strict_witness:
  "fst (ParsePartitionLayout [7, 7, 7, 7, 7, 3, 0, 0, 199, 0, 0, 128, 0] two_partition_frame 1) = None \<and>
   ParsePartitionLayoutWithErrorConcealment [7, 7, 7, 7, 7, 3, 0, 0, 199, 0, 0, 128, 0] two_partition_frame 1 =
     ParsePartitionLayout [7, 7, 7, 7, 7, 3, 0, 0, 199, 0, 0, 128, 0] two_partition_frame 1 \<and>
   fst (ParsePartitionLayout [7, 7, 7, 7, 7, 3, 0] two_partition_frame 1) \<noteq> None \<and>
   fst (ParsePartitionLayoutWithErrorConcealment [7, 7, 7, 7, 7, 3, 0] two_partition_frame 1) = None \<and>
   fst (ParsePartitionLayoutWithErrorConcealment [7, 7, 7, 7, 7, 3, 0] wrapping_frame 1) \<noteq> None"
proof -
  have a: "fst (ParsePartitionLayout [7, 7, 7, 7, 7, 3, 0, 0, 199, 0, 0, 128, 0] two_partition_frame 1) = None"
    and b: "fst (ParsePartitionLayout [7, 7, 7, 7, 7, 3, 0] two_partition_frame 1) \<noteq> None"
    and c: "0 \<le> fh_FirstPartitionSize two_partition_frame \<and> 0 \<le> fh_HeaderSize two_partition_frame \<and> fh_HeaderSize two_partition_frame \<le> 7"
      "fh_HeaderSize two_partition_frame + fh_FirstPartitionSize two_partition_frame \<le> maxInt"
      "\<not> fh_HeaderSize wrapping_frame + fh_FirstPartitionSize wrapping_frame \<le> maxInt"
    by code_simp+
  have len: "int (length [7, 7, 7, 7, 7, 3, 0 :: byte]) \<le> maxInt" "int (length [7, 7, 7, 7, 7, 3, 0, 0, 199, 0, 0, 128, 0 :: byte]) \<le> maxInt"
    by (simp_all add: maxInt_def)
  show ?thesis
    using concealment_extends_strict [OF len(2), of two_partition_frame 1]
      concealment_extends_strict [OF len(1), of two_partition_frame 1] concealment_extends_strict [OF len(1), of wrapping_frame 1] a b c
    by simp
qed

end
