(* ===== verification/Vp8_Header_Writer.thy ===== *)
theory Vp8_Header_Writer
  imports Vp8_Message Vp8_Packet
begin

text \<open>
  The encoder's side of the compressed frame header: segmentation
  (\<^verbatim>\<open>internal/vp8/encoder/segmentation.go\<close>), the key-frame state header (\<^verbatim>\<open>state.go\<close>), the
  inter-frame refresh and mode headers (\<^verbatim>\<open>interframe_header.go\<close>, \<^verbatim>\<open>interframe.go\<close>) and the coefficient
  probability updates (\<^verbatim>\<open>probability.go\<close>). A writer returns its error, \<open>None\<close> for nil. The
  configurations hold the fields the writers read.
\<close>

section \<open>Data\<close>

record SegmentationConfig =
  sc_Enabled :: bool
  sc_UpdateMap :: bool
  sc_UpdateData :: bool
  sc_AbsDelta :: bool
  sc_FeatureData :: "i8 list list"
  sc_FeatureEnabled :: "bool list list"
  sc_TreeProbs :: "byte list"
  sc_TreeProbUpdated :: "bool list"

record QuantDeltas =
  qd_Y1DC :: int
  qd_Y2DC :: int
  qd_Y2AC :: int
  qd_UVDC :: int
  qd_UVAC :: int

record CoefficientProbabilityUpdates =
  cu_Probs :: coef_probs
  cu_Update :: "bool list list list list"
  cu_UpdateCount :: int
  cu_SavingsBits :: int

text \<open>The fields the key-frame and inter-frame configurations share, then each one's own.\<close>

record StateConfig =
  c_Segmentation :: SegmentationConfig
  c_SimpleLoopFilter :: bool
  c_LoopFilterLevel :: byte
  c_SharpnessLevel :: byte
  c_LFDeltaEnabled :: bool
  c_LFDeltaUpdate :: bool
  c_LFDeltaForceUpdateAll :: bool
  c_RefLFDeltas :: "i8 list"
  c_ModeLFDeltas :: "i8 list"
  c_RefLFDeltasBase :: "i8 list"
  c_ModeLFDeltasBase :: "i8 list"
  c_TokenPartition :: byte
  c_BaseQIndex :: byte
  c_QuantDeltas :: QuantDeltas
  c_RefreshEntropyProbs :: bool
  c_CoefficientProbs :: CoefficientProbabilityUpdates
  c_MBNoCoeffSkip :: bool
  c_ProbSkipFalse :: byte

record KeyFrameStateConfig = StateConfig +
  k_ClampType :: byte
  k_InvisibleFrame :: bool
  k_IndependentContexts :: bool
  k_HorizScale :: byte
  k_VertScale :: byte

record InterFrameStateConfig = StateConfig +
  i_InvisibleFrame :: bool
  i_RefreshLast :: bool
  i_RefreshGolden :: bool
  i_RefreshAltRef :: bool
  i_CopyBufferToGolden :: int
  i_CopyBufferToAltRef :: int
  i_GoldenSignBias :: bool
  i_AltRefSignBias :: bool
  i_IndependentContexts :: bool
  i_ProbIntra :: byte
  i_ProbLast :: byte
  i_ProbGolden :: byte
  i_YModeProbs :: "byte list"
  i_YModeBase :: "byte list"
  i_YModeUpdate :: bool
  i_UVModeProbs :: "byte list"
  i_UVModeBase :: "byte list"
  i_UVModeUpdate :: bool
  i_BModeBase :: "byte list"
  i_MVProbs :: "byte list list"
  i_MVBase :: "byte list list"
  i_MVUpdate :: "bool list list"
  i_MVUpdateCount :: int

section \<open>Bits and loops\<close>

text \<open>The writer's last step: \<open>return w.Err()\<close>.\<close>

definition return_err :: "(BoolWriter, packet_error option) state" where
  "return_err = do { e \<leftarrow> werr; State_Monad.return (if e then Some EncErrBufferTooSmall else None) }"

definition writeBoolBit :: "bool \<Rightarrow> (BoolWriter, unit) state" where
  "writeBoolBit v = (if v then wr (\<lambda>w. WriteBit w 1) else wr (\<lambda>w. WriteBit w 0))"

fun write_array :: "('a \<Rightarrow> (BoolWriter, unit) state) \<Rightarrow> 'a list \<Rightarrow> (BoolWriter, unit) state" where
  "write_array f [] = State_Monad.return ()"
| "write_array f (x # xs) = do { f x; write_array f xs }"

text \<open>A loop that returns at the first error of its body.\<close>

fun write_checked :: "('a \<Rightarrow> (BoolWriter, 'e option) state) \<Rightarrow> 'a list \<Rightarrow> (BoolWriter, 'e option) state" where
  "write_checked f [] = State_Monad.return None"
| "write_checked f (x # xs) = do {
     e \<leftarrow> f x;
     if e \<noteq> None then State_Monad.return e else write_checked f xs
   }"

section \<open>Segmentation\<close>

definition segmentationFeatureDataBits :: "int list" where
  "segmentationFeatureDataBits = [7, 6]"

definition segmentationFeatureMagnitude :: "i8 \<Rightarrow> int \<Rightarrow> u32 \<times> bool" where
  "segmentationFeatureMagnitude value bits =
     (let magnitude = \<bar>sint value\<bar> in (word_of_int magnitude, magnitude < 2 ^ nat bits))"

definition validSegmentationConfig :: "SegmentationConfig \<Rightarrow> bool" where
  "validSegmentationConfig cfg =
     (if \<not> sc_Enabled cfg \<or> \<not> sc_UpdateData cfg then True
      else list_all (\<lambda>f. list_all (\<lambda>s.
             sc_FeatureEnabled cfg ! f ! s \<longrightarrow>
               snd (segmentationFeatureMagnitude (sc_FeatureData cfg ! f ! s) (segmentationFeatureDataBits ! f))) [0..<4]) [0..<2])"

definition write_feature :: "int \<Rightarrow> bool \<times> i8 \<Rightarrow> (BoolWriter, unit) state" where
  "write_feature bits x = (case x of (enabled, value) \<Rightarrow>
     if \<not> enabled then wr (\<lambda>w. WriteBit w 0)
     else do {
       wr (\<lambda>w. WriteBit w 1);
       wr (\<lambda>w. WriteLiteral w (fst (segmentationFeatureMagnitude value bits)) bits);
       (if sint value < 0 then wr (\<lambda>w. WriteBit w 1) else wr (\<lambda>w. WriteBit w 0))
     })"

definition write_tree_prob :: "bool \<times> byte \<Rightarrow> (BoolWriter, unit) state" where
  "write_tree_prob x = (case x of (updated, prob) \<Rightarrow>
     if updated then do {
       wr (\<lambda>w. WriteBit w 1);
       wr (\<lambda>w. WriteLiteral w (ucast prob) 8)
     } else wr (\<lambda>w. WriteBit w 0))"

definition writeSegmentationHeader :: "SegmentationConfig \<Rightarrow> (BoolWriter, packet_error option) state" where
  "writeSegmentationHeader cfg =
     (if \<not> validSegmentationConfig cfg then State_Monad.return (Some ErrInvalidPacketConfig)
      else do {
        writeBoolBit (sc_Enabled cfg);
        if \<not> sc_Enabled cfg then State_Monad.return None
        else do {
          writeBoolBit (sc_UpdateMap cfg);
          writeBoolBit (sc_UpdateData cfg);
          (if sc_UpdateData cfg then do {
             writeBoolBit (sc_AbsDelta cfg);
             write_array (write_feature (segmentationFeatureDataBits ! 0)) (zip (sc_FeatureEnabled cfg ! 0) (sc_FeatureData cfg ! 0));
             write_array (write_feature (segmentationFeatureDataBits ! 1)) (zip (sc_FeatureEnabled cfg ! 1) (sc_FeatureData cfg ! 1))
           } else State_Monad.return ());
          (if sc_UpdateMap cfg then write_array write_tree_prob (zip (sc_TreeProbUpdated cfg) (sc_TreeProbs cfg))
           else State_Monad.return ());
          return_err
        }
      })"

definition segmentationTreeProbs :: "SegmentationConfig \<Rightarrow> byte list" where
  "segmentationTreeProbs cfg =
     (if \<not> sc_Enabled cfg \<or> \<not> sc_UpdateMap cfg then replicate 3 255
      else map (\<lambda>i. if sc_TreeProbUpdated cfg ! i then sc_TreeProbs cfg ! i else 255) [0..<3])"

section \<open>Deltas\<close>

definition writeQuantDelta :: "int \<Rightarrow> (BoolWriter, unit) state" where
  "writeQuantDelta delta =
     (if delta = 0 then wr (\<lambda>w. WriteBit w 0)
      else do {
        wr (\<lambda>w. WriteBit w 1);
        (if delta < 0 then do {
           wr (\<lambda>w. WriteLiteral w (word_of_int (- delta)) 4);
           wr (\<lambda>w. WriteBit w 1)
         } else do {
           wr (\<lambda>w. WriteLiteral w (word_of_int delta) 4);
           wr (\<lambda>w. WriteBit w 0)
         })
      })"

definition writeQuantDeltas :: "QuantDeltas \<Rightarrow> (BoolWriter, unit) state" where
  "writeQuantDeltas deltas = do {
     writeQuantDelta (qd_Y1DC deltas);
     writeQuantDelta (qd_Y2DC deltas);
     writeQuantDelta (qd_Y2AC deltas);
     writeQuantDelta (qd_UVDC deltas);
     writeQuantDelta (qd_UVAC deltas)
   }"

text \<open>\<open>value = -value\<close> on an \<open>int8\<close> wraps at -128; the conversion to \<open>uint32\<close> sign-extends.\<close>

definition writeLoopFilterDelta :: "i8 \<Rightarrow> bool \<Rightarrow> (BoolWriter, unit) state" where
  "writeLoopFilterDelta delta update =
     (if \<not> update then wr (\<lambda>w. WriteBit w 0)
      else do {
        wr (\<lambda>w. WriteBit w 1);
        (let v = (if sint delta < 0 then - delta else delta)
         in wr (\<lambda>w. WriteLiteral w (scast v AND 0x3f) 6));
        (if sint delta > 0 then wr (\<lambda>w. WriteBit w 0) else wr (\<lambda>w. WriteBit w 1))
      })"

definition writeLoopFilterDeltas ::
  "bool \<Rightarrow> bool \<Rightarrow> bool \<Rightarrow> i8 list \<Rightarrow> i8 list \<Rightarrow> i8 list \<Rightarrow> i8 list \<Rightarrow> (BoolWriter, unit) state" where
  "writeLoopFilterDeltas enabled update forceAll refDeltas modeDeltas refBase modeBase =
     (if \<not> enabled then wr (\<lambda>w. WriteBit w 0)
      else do {
        wr (\<lambda>w. WriteBit w 1);
        if \<not> update then wr (\<lambda>w. WriteBit w 0)
        else do {
          wr (\<lambda>w. WriteBit w 1);
          write_array (\<lambda>(delta, base). writeLoopFilterDelta delta (forceAll \<or> delta \<noteq> base)) (zip refDeltas refBase);
          write_array (\<lambda>(delta, base). writeLoopFilterDelta delta (forceAll \<or> delta \<noteq> base)) (zip modeDeltas modeBase)
        }
      })"

section \<open>Coefficient probabilities\<close>

definition write_coef_update :: "bool \<times> byte \<times> byte \<Rightarrow> (BoolWriter, packet_error option) state" where
  "write_coef_update x = (case x of (update, prob, updateProb) \<Rightarrow>
     if update then
       (if prob = 0 then State_Monad.return (Some ErrInvalidPacketConfig)
        else do {
          wr (\<lambda>w. WriteBool w 1 updateProb);
          wr (\<lambda>w. WriteLiteral w (ucast prob) 8);
          State_Monad.return None
        })
     else do {
       wr (\<lambda>w. WriteBool w 0 updateProb);
       State_Monad.return None
     })"

definition zip3 :: "'a list \<Rightarrow> 'b list \<Rightarrow> 'c list \<Rightarrow> ('a \<times> 'b \<times> 'c) list" where
  "zip3 as bs cs = zip as (zip bs cs)"

text \<open>The four nested loops over block, band, context and node.\<close>

definition WriteCoefficientProbabilityUpdates :: "CoefficientProbabilityUpdates \<Rightarrow> (BoolWriter, packet_error option) state" where
  "WriteCoefficientProbabilityUpdates updates = do {
     e \<leftarrow> write_checked (\<lambda>(u, p, t). write_checked (\<lambda>(u, p, t). write_checked (\<lambda>(u, p, t).
            write_checked write_coef_update (zip3 u p t)) (zip3 u p t)) (zip3 u p t))
          (zip3 (cu_Update updates) (cu_Probs updates) CoefUpdateProbs);
     if e \<noteq> None then State_Monad.return e else return_err
   }"

section \<open>State headers\<close>

definition validQuantDelta :: "int \<Rightarrow> bool" where
  "validQuantDelta delta \<longleftrightarrow> delta \<ge> -15 \<and> delta \<le> 15"

definition validQuantDeltas :: "QuantDeltas \<Rightarrow> bool" where
  "validQuantDeltas deltas \<longleftrightarrow> validQuantDelta (qd_Y1DC deltas) \<and> validQuantDelta (qd_Y2DC deltas) \<and>
     validQuantDelta (qd_Y2AC deltas) \<and> validQuantDelta (qd_UVDC deltas) \<and> validQuantDelta (qd_UVAC deltas)"

definition validKeyFrameStateConfig :: "KeyFrameStateConfig \<Rightarrow> bool" where
  "validKeyFrameStateConfig cfg \<longleftrightarrow> k_ClampType cfg \<ge> 0 \<and> k_ClampType cfg \<le> 1 \<and> c_LoopFilterLevel cfg \<le> 63 \<and>
     c_SharpnessLevel cfg \<le> 7 \<and> c_TokenPartition cfg \<ge> 0 \<and> c_TokenPartition cfg \<le> 3 \<and> c_BaseQIndex cfg \<le> 127 \<and>
     validQuantDeltas (c_QuantDeltas cfg) \<and> validSegmentationConfig (c_Segmentation cfg)"

text \<open>The stretch that the two state headers have in common, from the segmentation to the quantizer.\<close>

definition write_state_common :: "'a StateConfig_scheme \<Rightarrow> (BoolWriter, packet_error option) state" where
  "write_state_common cfg = do {
     e \<leftarrow> writeSegmentationHeader (c_Segmentation cfg);
     if e \<noteq> None then State_Monad.return e
     else do {
       (if c_SimpleLoopFilter cfg then wr (\<lambda>w. WriteBit w 1) else wr (\<lambda>w. WriteBit w 0));
       wr (\<lambda>w. WriteLiteral w (ucast (c_LoopFilterLevel cfg)) 6);
       wr (\<lambda>w. WriteLiteral w (ucast (c_SharpnessLevel cfg)) 3);
       writeLoopFilterDeltas (c_LFDeltaEnabled cfg) (c_LFDeltaUpdate cfg) (c_LFDeltaForceUpdateAll cfg)
         (c_RefLFDeltas cfg) (c_ModeLFDeltas cfg) (c_RefLFDeltasBase cfg) (c_ModeLFDeltasBase cfg);
       wr (\<lambda>w. WriteLiteral w (ucast (c_TokenPartition cfg)) 2);
       wr (\<lambda>w. WriteLiteral w (ucast (c_BaseQIndex cfg)) 7);
       writeQuantDeltas (c_QuantDeltas cfg);
       State_Monad.return None
     }
   }"

definition WriteKeyFrameStateHeader :: "KeyFrameStateConfig \<Rightarrow> (BoolWriter, packet_error option) state" where
  "WriteKeyFrameStateHeader cfg =
     (if \<not> validKeyFrameStateConfig cfg then State_Monad.return (Some ErrInvalidPacketConfig)
      else do {
        wr (\<lambda>w. WriteBit w 0);
        wr (\<lambda>w. WriteBit w (k_ClampType cfg));
        e \<leftarrow> write_state_common cfg;
        if e \<noteq> None then State_Monad.return e
        else do {
          (if c_RefreshEntropyProbs cfg then wr (\<lambda>w. WriteBit w 1) else wr (\<lambda>w. WriteBit w 0));
          e \<leftarrow> WriteCoefficientProbabilityUpdates (c_CoefficientProbs cfg);
          if e \<noteq> None then State_Monad.return e
          else do {
            (if c_MBNoCoeffSkip cfg then do {
               wr (\<lambda>w. WriteBit w 1);
               wr (\<lambda>w. WriteLiteral w (ucast (c_ProbSkipFalse cfg)) 8)
             } else wr (\<lambda>w. WriteBit w 0));
            return_err
          }
        }
      })"

definition writeInterRefreshHeader :: "InterFrameStateConfig \<Rightarrow> (BoolWriter, unit) state" where
  "writeInterRefreshHeader cfg = do {
     writeBoolBit (i_RefreshGolden cfg);
     writeBoolBit (i_RefreshAltRef cfg);
     (if \<not> i_RefreshGolden cfg then wr (\<lambda>w. WriteLiteral w (word_of_int (i_CopyBufferToGolden cfg)) 2) else State_Monad.return ());
     (if \<not> i_RefreshAltRef cfg then wr (\<lambda>w. WriteLiteral w (word_of_int (i_CopyBufferToAltRef cfg)) 2) else State_Monad.return ());
     writeBoolBit (i_GoldenSignBias cfg);
     writeBoolBit (i_AltRefSignBias cfg);
     writeBoolBit (c_RefreshEntropyProbs cfg);
     writeBoolBit (i_RefreshLast cfg)
   }"

definition encodeMotionVectorProbabilityUpdate :: "byte \<Rightarrow> byte \<times> bool" where
  "encodeMotionVectorProbabilityUpdate prob =
     (if prob = 1 then (0, True)
      else if prob \<ge> 2 \<and> prob \<le> 254 \<and> prob AND 1 = 0 then (drop_bit 1 prob, True)
      else (0, False))"

definition write_mode_prob :: "byte \<Rightarrow> (BoolWriter, packet_error option) state" where
  "write_mode_prob prob =
     (if prob = 0 then State_Monad.return (Some ErrInvalidPacketConfig)
      else do { wr (\<lambda>w. WriteLiteral w (ucast prob) 8); State_Monad.return None })"

definition write_mode_probs :: "bool \<Rightarrow> byte list \<Rightarrow> (BoolWriter, packet_error option) state" where
  "write_mode_probs update probs =
     (if update then do { wr (\<lambda>w. WriteBit w 1); write_checked write_mode_prob probs }
      else do { wr (\<lambda>w. WriteBit w 0); State_Monad.return None })"

definition write_mv_update :: "bool \<times> byte \<times> byte \<Rightarrow> (BoolWriter, packet_error option) state" where
  "write_mv_update x = (case x of (update, prob, updateProb) \<Rightarrow>
     if update then
       (case encodeMotionVectorProbabilityUpdate prob of (encoded, ok) \<Rightarrow>
          if \<not> ok then State_Monad.return (Some ErrInvalidPacketConfig)
          else do {
            wr (\<lambda>w. WriteBool w 1 updateProb);
            wr (\<lambda>w. WriteLiteral w (ucast encoded) 7);
            State_Monad.return None
          })
     else do {
       wr (\<lambda>w. WriteBool w 0 updateProb);
       State_Monad.return None
     })"

definition writeInterModeHeader :: "InterFrameStateConfig \<Rightarrow> (BoolWriter, packet_error option) state" where
  "writeInterModeHeader cfg = do {
     writeBoolBit (c_MBNoCoeffSkip cfg);
     (if c_MBNoCoeffSkip cfg then wr (\<lambda>w. WriteLiteral w (ucast (c_ProbSkipFalse cfg)) 8) else State_Monad.return ());
     wr (\<lambda>w. WriteLiteral w (ucast (i_ProbIntra cfg)) 8);
     wr (\<lambda>w. WriteLiteral w (ucast (i_ProbLast cfg)) 8);
     wr (\<lambda>w. WriteLiteral w (ucast (i_ProbGolden cfg)) 8);
     e \<leftarrow> write_mode_probs (i_YModeUpdate cfg) (i_YModeProbs cfg);
     if e \<noteq> None then State_Monad.return e
     else do {
       e \<leftarrow> write_mode_probs (i_UVModeUpdate cfg) (i_UVModeProbs cfg);
       if e \<noteq> None then State_Monad.return e
       else do {
         e \<leftarrow> write_checked (\<lambda>(u, p, t). write_checked write_mv_update (zip3 u p t))
                (zip3 (i_MVUpdate cfg) (i_MVProbs cfg) MVUpdateProbs);
         if e \<noteq> None then State_Monad.return e else return_err
       }
     }
   }"

definition validInterFrameStateConfig :: "InterFrameStateConfig \<Rightarrow> bool" where
  "validInterFrameStateConfig cfg \<longleftrightarrow> c_LoopFilterLevel cfg \<le> 63 \<and> c_SharpnessLevel cfg \<le> 7 \<and>
     c_TokenPartition cfg \<ge> 0 \<and> c_TokenPartition cfg \<le> 3 \<and> c_BaseQIndex cfg \<le> 127 \<and>
     validQuantDeltas (c_QuantDeltas cfg) \<and>
     i_CopyBufferToGolden cfg \<ge> 0 \<and> i_CopyBufferToGolden cfg \<le> 2 \<and>
     i_CopyBufferToAltRef cfg \<ge> 0 \<and> i_CopyBufferToAltRef cfg \<le> 2 \<and>
     (\<not> i_RefreshGolden cfg \<or> i_CopyBufferToGolden cfg = 0) \<and>
     (\<not> i_RefreshAltRef cfg \<or> i_CopyBufferToAltRef cfg = 0) \<and>
     validSegmentationConfig (c_Segmentation cfg)"

definition WriteInterFrameStateHeader :: "InterFrameStateConfig \<Rightarrow> (BoolWriter, packet_error option) state" where
  "WriteInterFrameStateHeader cfg =
     (if \<not> validInterFrameStateConfig cfg then State_Monad.return (Some ErrInvalidPacketConfig)
      else do {
        e \<leftarrow> write_state_common cfg;
        if e \<noteq> None then State_Monad.return e
        else do {
          writeInterRefreshHeader cfg;
          e \<leftarrow> WriteCoefficientProbabilityUpdates (c_CoefficientProbs cfg);
          if e \<noteq> None then State_Monad.return e
          else do {
            e \<leftarrow> writeInterModeHeader cfg;
            if e \<noteq> None then State_Monad.return e else return_err
          }
        }
      })"

end
