(* ===== verification/Vp8_Header_Parser.thy ===== *)
theory Vp8_Header_Parser
  imports Vp8_Message Vp8_Packet
begin

text \<open>
  The parsers of the compressed frame header, run on the first partition: segmentation
  (\<^verbatim>\<open>internal/vp8/decoder/segmentation.go\<close>), loop filter (\<^verbatim>\<open>loopfilter_header.go\<close>), quantizer
  (\<^verbatim>\<open>quant.go\<close>), references (\<^verbatim>\<open>references.go\<close>), coefficient probabilities (\<^verbatim>\<open>probability.go\<close>), the
  mode header (\<^verbatim>\<open>modes.go\<close>) and their composition (\<^verbatim>\<open>state.go\<close>). \<open>int8\<close> fields are 8-bit words,
  fixed-size arrays lists of that length. A nil pointer to a probability table is \<open>None\<close>.
\<close>

section \<open>Data\<close>

record SegmentationHeader =
  sh_Enabled :: bool
  sh_UpdateMap :: bool
  sh_UpdateData :: bool
  sh_AbsDelta :: bool
  sh_FeatureData :: "i8 list list"
  sh_TreeProbs :: "byte list"

definition no_segmentation :: SegmentationHeader where
  "no_segmentation = \<lparr>sh_Enabled = False, sh_UpdateMap = False, sh_UpdateData = False, sh_AbsDelta = False,
     sh_FeatureData = replicate 2 (replicate 4 0), sh_TreeProbs = replicate 3 0\<rparr>"

datatype LoopFilterType = NormalLoopFilter | SimpleLoopFilter

record LoopFilterHeader =
  lf_Type :: LoopFilterType
  lf_Level :: byte
  lf_SharpnessLevel :: byte
  lf_DeltaEnabled :: bool
  lf_DeltaUpdate :: bool
  lf_RefDeltas :: "i8 list"
  lf_ModeDeltas :: "i8 list"

definition no_loop_filter :: LoopFilterHeader where
  "no_loop_filter = \<lparr>lf_Type = NormalLoopFilter, lf_Level = 0, lf_SharpnessLevel = 0, lf_DeltaEnabled = False,
     lf_DeltaUpdate = False, lf_RefDeltas = replicate 4 0, lf_ModeDeltas = replicate 4 0\<rparr>"

record QuantHeader =
  qh_BaseQIndex :: byte
  qh_Y1DCDelta :: i8
  qh_Y2DCDelta :: i8
  qh_Y2ACDelta :: i8
  qh_UVDCDelta :: i8
  qh_UVACDelta :: i8
  qh_Updated :: bool

record RefreshHeader =
  rh_RefreshLast :: bool
  rh_RefreshGolden :: bool
  rh_RefreshAltRef :: bool
  rh_CopyBufferToGolden :: int
  rh_CopyBufferToAltRef :: int
  rh_GoldenSignBias :: bool
  rh_AltRefSignBias :: bool
  rh_RefreshEntropyProbs :: bool

record CoefficientProbabilityHeader =
  ph_UpdateCount :: nat
  ph_IndependentPartitions :: bool

record ModeProbs =
  mp_YMode :: "byte list"
  mp_UVMode :: "byte list"
  mp_BMode :: "byte list"
  mp_MV :: "byte list list"

record ModeHeader =
  mh_MBNoCoeffSkip :: bool
  mh_ProbSkipFalse :: byte
  mh_ProbIntra :: byte
  mh_ProbLast :: byte
  mh_ProbGolden :: byte
  mh_YModeUpdated :: bool
  mh_UVModeUpdated :: bool
  mh_MVUpdateCount :: nat

record StateHeader =
  st_ColorSpace :: int
  st_ClampType :: byte
  st_Segmentation :: SegmentationHeader
  st_LoopFilter :: LoopFilterHeader
  st_TokenPartition :: byte
  st_Quant :: QuantHeader
  st_Refresh :: RefreshHeader
  st_Probability :: CoefficientProbabilityHeader
  st_Mode :: ModeHeader

section \<open>Parsers\<close>

text \<open>A loop that stores what it reads into the elements of an array.\<close>

fun read_array :: "('a \<Rightarrow> (Decoder, 'a) state) \<Rightarrow> 'a list \<Rightarrow> (Decoder, 'a list) state" where
  "read_array f [] = State_Monad.return []"
| "read_array f (x # xs) = do {
     y \<leftarrow> f x;
     ys \<leftarrow> read_array f xs;
     State_Monad.return (y # ys)
   }"

definition readSignedLiteral :: "int \<Rightarrow> (Decoder, i8) state" where
  "readSignedLiteral bits = do {
     v \<leftarrow> ReadLiteral bits;
     neg \<leftarrow> ReadBit;
     State_Monad.return (if neg then - ucast v else ucast v)
   }"

definition mbFeatureDataBits :: "int list" where
  "mbFeatureDataBits = [7, 6]"

definition read_feature :: "int \<Rightarrow> i8 \<Rightarrow> (Decoder, i8) state" where
  "read_feature bits value = do {
     b \<leftarrow> ReadBit;
     if b then do {
       v \<leftarrow> ReadLiteral bits;
       neg \<leftarrow> ReadBit;
       State_Monad.return (if neg then - ucast v else ucast v)
     } else State_Monad.return value
   }"

definition read_tree_prob :: "byte \<Rightarrow> (Decoder, byte) state" where
  "read_tree_prob prob = do {
     b \<leftarrow> ReadBit;
     if b then do { v \<leftarrow> ReadLiteral 8; State_Monad.return (ucast v) } else State_Monad.return prob
   }"

definition parseSegmentationHeader :: "(Decoder, SegmentationHeader) state" where
  "parseSegmentationHeader = do {
     enabled \<leftarrow> ReadBit;
     if \<not> enabled then State_Monad.return no_segmentation
     else do {
       updateMap \<leftarrow> ReadBit;
       updateData \<leftarrow> ReadBit;
       data \<leftarrow> (if updateData then do {
           absDelta \<leftarrow> ReadBit;
           quant \<leftarrow> read_array (read_feature (mbFeatureDataBits ! 0)) (sh_FeatureData no_segmentation ! 0);
           level \<leftarrow> read_array (read_feature (mbFeatureDataBits ! 1)) (sh_FeatureData no_segmentation ! 1);
           State_Monad.return (absDelta, [quant, level])
         } else State_Monad.return (False, sh_FeatureData no_segmentation));
       probs \<leftarrow> (if updateMap then read_array read_tree_prob (replicate 3 255) else State_Monad.return (replicate 3 0));
       State_Monad.return \<lparr>sh_Enabled = True, sh_UpdateMap = updateMap, sh_UpdateData = updateData,
         sh_AbsDelta = fst data, sh_FeatureData = snd data, sh_TreeProbs = probs\<rparr>
     }
   }"

definition MergeSegmentationHeader :: "SegmentationHeader \<Rightarrow> SegmentationHeader \<Rightarrow> SegmentationHeader" where
  "MergeSegmentationHeader previous current =
     (if \<not> sh_Enabled current then current
      else
        let current = (if \<not> sh_UpdateData current
              then current\<lparr>sh_AbsDelta := sh_AbsDelta previous, sh_FeatureData := sh_FeatureData previous\<rparr> else current)
        in if \<not> sh_UpdateMap current then current\<lparr>sh_TreeProbs := sh_TreeProbs previous\<rparr> else current)"

definition read_lf_delta :: "i8 \<Rightarrow> (Decoder, i8) state" where
  "read_lf_delta delta = do {
     b \<leftarrow> ReadBit;
     if b then readSignedLiteral 6 else State_Monad.return delta
   }"

definition parseLoopFilterHeaderWithPrevious :: "LoopFilterHeader \<Rightarrow> (Decoder, LoopFilterHeader) state" where
  "parseLoopFilterHeaderWithPrevious previous = do {
     t \<leftarrow> ReadBit;
     level \<leftarrow> ReadLiteral 6;
     sharpness \<leftarrow> ReadLiteral 3;
     enabled \<leftarrow> ReadBit;
     (let h = \<lparr>lf_Type = (if t then SimpleLoopFilter else NormalLoopFilter), lf_Level = ucast level,
            lf_SharpnessLevel = ucast sharpness, lf_DeltaEnabled = enabled, lf_DeltaUpdate = False,
            lf_RefDeltas = lf_RefDeltas previous, lf_ModeDeltas = lf_ModeDeltas previous\<rparr>
      in if \<not> enabled then State_Monad.return h
         else do {
           update \<leftarrow> ReadBit;
           if \<not> update then State_Monad.return h
           else do {
             refs \<leftarrow> read_array read_lf_delta (lf_RefDeltas h);
             modes \<leftarrow> read_array read_lf_delta (lf_ModeDeltas h);
             State_Monad.return (h\<lparr>lf_DeltaUpdate := True, lf_RefDeltas := refs, lf_ModeDeltas := modes\<rparr>)
           }
         })
   }"

definition readDeltaQ :: "i8 \<Rightarrow> bool \<Rightarrow> (Decoder, i8 \<times> bool) state" where
  "readDeltaQ prev updated = do {
     b \<leftarrow> ReadBit;
     v \<leftarrow> (if b then readSignedLiteral 4 else State_Monad.return 0);
     State_Monad.return (v, if v \<noteq> prev then True else updated)
   }"

definition parseQuantHeader :: "QuantHeader \<Rightarrow> (Decoder, QuantHeader) state" where
  "parseQuantHeader prev = do {
     base \<leftarrow> ReadLiteral 7;
     y1dc \<leftarrow> readDeltaQ (qh_Y1DCDelta prev) False;
     y2dc \<leftarrow> readDeltaQ (qh_Y2DCDelta prev) (snd y1dc);
     y2ac \<leftarrow> readDeltaQ (qh_Y2ACDelta prev) (snd y2dc);
     uvdc \<leftarrow> readDeltaQ (qh_UVDCDelta prev) (snd y2ac);
     uvac \<leftarrow> readDeltaQ (qh_UVACDelta prev) (snd uvdc);
     State_Monad.return \<lparr>qh_BaseQIndex = ucast base, qh_Y1DCDelta = fst y1dc, qh_Y2DCDelta = fst y2dc,
       qh_Y2ACDelta = fst y2ac, qh_UVDCDelta = fst uvdc, qh_UVACDelta = fst uvac, qh_Updated = snd uvac\<rparr>
   }"

definition parseRefreshHeader :: "FrameHeader \<Rightarrow> (Decoder, RefreshHeader) state" where
  "parseRefreshHeader frame =
     (if fh_FrameType frame = KeyFrame then do {
        entropy \<leftarrow> ReadBit;
        State_Monad.return \<lparr>rh_RefreshLast = True, rh_RefreshGolden = True, rh_RefreshAltRef = True,
          rh_CopyBufferToGolden = 0, rh_CopyBufferToAltRef = 0, rh_GoldenSignBias = False, rh_AltRefSignBias = False,
          rh_RefreshEntropyProbs = entropy\<rparr>
      } else do {
        golden \<leftarrow> ReadBit;
        altref \<leftarrow> ReadBit;
        copyGolden \<leftarrow> (if \<not> golden then do { v \<leftarrow> ReadLiteral 2; State_Monad.return (uint v) } else State_Monad.return 0);
        copyAltRef \<leftarrow> (if \<not> altref then do { v \<leftarrow> ReadLiteral 2; State_Monad.return (uint v) } else State_Monad.return 0);
        goldenBias \<leftarrow> ReadBit;
        altrefBias \<leftarrow> ReadBit;
        entropy \<leftarrow> ReadBit;
        last \<leftarrow> ReadBit;
        State_Monad.return \<lparr>rh_RefreshLast = last, rh_RefreshGolden = golden, rh_RefreshAltRef = altref,
          rh_CopyBufferToGolden = copyGolden, rh_CopyBufferToAltRef = copyAltRef,
          rh_GoldenSignBias = goldenBias, rh_AltRefSignBias = altrefBias, rh_RefreshEntropyProbs = entropy\<rparr>
      })"

text \<open>The probability tables as the parser sees them, flat.\<close>

definition coefUpdateProbsFlat :: "byte list" where
  "coefUpdateProbsFlat = concat (map (\<lambda>b. concat (map concat b)) CoefUpdateProbs)"

definition parseCoefficientProbabilityHeaderInto ::
  "byte list option \<Rightarrow> (Decoder, byte list option \<times> CoefficientProbabilityHeader) state" where
  "parseCoefficientProbabilityHeaderInto probs = do {
     r \<leftarrow> ReadCoefUpdateProbsInto coefUpdateProbsFlat probs EntropyNodes PrevCoefContexts;
     State_Monad.return (fst r, \<lparr>ph_UpdateCount = fst (snd r), ph_IndependentPartitions = \<not> snd (snd r)\<rparr>)
   }"

definition ResetModeProbs :: ModeProbs where
  "ResetModeProbs = \<lparr>mp_YMode = DefaultYModeProbs, mp_UVMode = DefaultUVModeProbs, mp_BMode = DefaultBModeProbs, mp_MV = DefaultMVContext\<rparr>"

text \<open>One component's motion vector probabilities, and the count of updates.\<close>

fun read_mv_updates :: "byte list \<Rightarrow> byte list \<Rightarrow> nat \<Rightarrow> (Decoder, byte list \<times> nat) state" where
  "read_mv_updates [] cur n = State_Monad.return (cur, n)"
| "read_mv_updates (u # us) [] n = State_Monad.return ([], n)"
| "read_mv_updates (u # us) (c # cs) n = do {
     b \<leftarrow> ReadBool u;
     if \<not> b then do {
       r \<leftarrow> read_mv_updates us cs n;
       State_Monad.return (c # fst r, snd r)
     } else do {
       v \<leftarrow> ReadLiteral 7;
       r \<leftarrow> read_mv_updates us cs (n + 1);
       State_Monad.return ((if (ucast v :: byte) \<noteq> 0 then push_bit 1 (ucast v) else 1) # fst r, snd r)
     }
   }"

text \<open>With nil probabilities the values are read and dropped; \<open>cur\<close> stands for the dropped table.\<close>

definition parseModeHeaderInto :: "bool \<Rightarrow> ModeProbs option \<Rightarrow> (Decoder, ModeProbs option \<times> ModeHeader) state" where
  "parseModeHeaderInto keyFrame probs = do {
     skip \<leftarrow> ReadBit;
     probSkip \<leftarrow> (if skip then do { v \<leftarrow> ReadLiteral 8; State_Monad.return (ucast v) } else State_Monad.return 0);
     (let h = \<lparr>mh_MBNoCoeffSkip = skip, mh_ProbSkipFalse = probSkip, mh_ProbIntra = 0, mh_ProbLast = 0, mh_ProbGolden = 0,
           mh_YModeUpdated = False, mh_UVModeUpdated = False, mh_MVUpdateCount = 0\<rparr>;
          cur = (case probs of Some p \<Rightarrow> p | None \<Rightarrow> ResetModeProbs)
      in if keyFrame then State_Monad.return (probs, h)
         else do {
           intra \<leftarrow> ReadLiteral 8;
           last \<leftarrow> ReadLiteral 8;
           golden \<leftarrow> ReadLiteral 8;
           yUpdated \<leftarrow> ReadBit;
           y \<leftarrow> (if yUpdated then read_array (\<lambda>p. do { v \<leftarrow> ReadLiteral 8; State_Monad.return (ucast v) }) (mp_YMode cur)
                 else State_Monad.return (mp_YMode cur));
           uvUpdated \<leftarrow> ReadBit;
           uv \<leftarrow> (if uvUpdated then read_array (\<lambda>p. do { v \<leftarrow> ReadLiteral 8; State_Monad.return (ucast v) }) (mp_UVMode cur)
                  else State_Monad.return (mp_UVMode cur));
           row \<leftarrow> read_mv_updates (MVUpdateProbs ! 0) (mp_MV cur ! 0) 0;
           col \<leftarrow> read_mv_updates (MVUpdateProbs ! 1) (mp_MV cur ! 1) (snd row);
           State_Monad.return (map_option (\<lambda>p. p\<lparr>mp_YMode := y, mp_UVMode := uv, mp_MV := [fst row, fst col]\<rparr>) probs,
             h\<lparr>mh_ProbIntra := ucast intra, mh_ProbLast := ucast last, mh_ProbGolden := ucast golden,
               mh_YModeUpdated := yUpdated, mh_UVModeUpdated := uvUpdated, mh_MVUpdateCount := snd col\<rparr>)
         })
   }"

definition ApplyCorruptInterFrameRefresh :: "StateHeader \<Rightarrow> StateHeader" where
  "ApplyCorruptInterFrameRefresh state = state\<lparr>st_Refresh := (st_Refresh state)
     \<lparr>rh_RefreshGolden := False, rh_RefreshAltRef := False, rh_CopyBufferToGolden := 0, rh_CopyBufferToAltRef := 0,
      rh_RefreshEntropyProbs := False, rh_RefreshLast := True\<rparr>\<rparr>"

section \<open>The state header\<close>

text \<open>The part of the header that is read from the decoder, after the key-frame resets.\<close>

definition parse_state_bits ::
  "FrameHeader \<Rightarrow> QuantHeader \<Rightarrow> LoopFilterHeader \<Rightarrow> byte list option \<Rightarrow> ModeProbs option
     \<Rightarrow> (Decoder, StateHeader \<times> byte list option \<times> ModeProbs option) state" where
  "parse_state_bits frame previousQuant previousLoopFilter probs modeProbs =
     (let key = FrameHeader_KeyFrame frame;
          probs = (if key then map_option (\<lambda>_. concat (map (\<lambda>b. concat (map concat b)) DefaultCoefProbs)) probs else probs);
          modeProbs = (if key then map_option (\<lambda>_. ResetModeProbs) modeProbs else modeProbs);
          loopFilter = (if key then no_loop_filter else previousLoopFilter)
      in do {
        head \<leftarrow> (if key then do {
            space \<leftarrow> ReadBit;
            clamp \<leftarrow> ReadBit;
            State_Monad.return (of_bool space, of_bool clamp)
          } else State_Monad.return (0, 0));
        segmentation \<leftarrow> parseSegmentationHeader;
        filter \<leftarrow> parseLoopFilterHeaderWithPrevious loopFilter;
        partition \<leftarrow> ReadLiteral 2;
        quant \<leftarrow> parseQuantHeader previousQuant;
        refresh \<leftarrow> parseRefreshHeader frame;
        probability \<leftarrow> parseCoefficientProbabilityHeaderInto probs;
        mode \<leftarrow> parseModeHeaderInto key modeProbs;
        State_Monad.return (\<lparr>st_ColorSpace = fst head, st_ClampType = snd head, st_Segmentation = segmentation,
          st_LoopFilter = filter, st_TokenPartition = ucast partition, st_Quant = quant, st_Refresh = refresh,
          st_Probability = snd probability, st_Mode = snd mode\<rparr>, fst probability, fst mode)
      })"

text \<open>
  \<open>parseStateHeaderFromFrameWithReaderAndProbsAndLoopFilter\<close>. The probability tables are updated
  in place: they come back with the result, on an error too.
\<close>

definition parseStateHeaderFromFrame ::
  "byte list \<Rightarrow> FrameHeader \<Rightarrow> QuantHeader \<Rightarrow> LoopFilterHeader \<Rightarrow> byte list option \<Rightarrow> ModeProbs option \<Rightarrow> bool
     \<Rightarrow> (decode_error + FrameHeader \<times> StateHeader \<times> Decoder) \<times> byte list option \<times> ModeProbs option" where
  "parseStateHeaderFromFrame packet frame previousQuant previousLoopFilter probs modeProbs errorConcealment =
     (if int (length packet) < fh_HeaderSize frame then (Inl ErrInvalidFrameHeader, probs, modeProbs)
      else
        let firstPartitionEnd = fh_HeaderSize frame + fh_FirstPartitionSize frame
        in if (fh_FirstPartitionSize frame < 0 \<or> firstPartitionEnd < fh_HeaderSize frame \<or> firstPartitionEnd > int (length packet)) \<and>
             (\<not> errorConcealment \<or> fh_FirstPartitionSize frame < 0 \<or> firstPartitionEnd < fh_HeaderSize frame)
           then (Inl ErrTruncatedStateHeader, probs, modeProbs)
           else
             (case run_state (parse_state_bits frame previousQuant previousLoopFilter probs modeProbs)
                     (Decoder_Init (drop (nat (fh_HeaderSize frame)) packet)) of
                ((state, probs, modeProbs), br) \<Rightarrow>
                  (if Decoder_Err br \<noteq> None \<and> \<not> errorConcealment then Inl ErrTruncatedStateHeader else Inr (frame, state, br),
                   probs, modeProbs)))"

definition ParseStateHeader ::
  "byte list \<Rightarrow> QuantHeader \<Rightarrow> LoopFilterHeader \<Rightarrow> byte list option \<Rightarrow> ModeProbs option
     \<Rightarrow> (decode_error + FrameHeader \<times> StateHeader \<times> Decoder) \<times> byte list option \<times> ModeProbs option" where
  "ParseStateHeader packet previousQuant previousLoopFilter probs modeProbs =
     (case ParseFrameHeader packet of
        Inl e \<Rightarrow> (Inl e, probs, modeProbs)
      | Inr frame \<Rightarrow> parseStateHeaderFromFrame packet frame previousQuant previousLoopFilter probs modeProbs False)"

definition ParseStateHeaderFromFrameWithErrorConcealment ::
  "byte list \<Rightarrow> FrameHeader \<Rightarrow> QuantHeader \<Rightarrow> LoopFilterHeader \<Rightarrow> byte list option \<Rightarrow> ModeProbs option
     \<Rightarrow> (decode_error + FrameHeader \<times> StateHeader \<times> Decoder \<times> bool) \<times> byte list option \<times> ModeProbs option" where
  "ParseStateHeaderFromFrameWithErrorConcealment packet frame previousQuant previousLoopFilter probs modeProbs =
     (case parseStateHeaderFromFrame packet frame previousQuant previousLoopFilter probs modeProbs True of
        (Inl e, probs, modeProbs) \<Rightarrow> (Inl e, probs, modeProbs)
      | (Inr (frame, state, br), probs, modeProbs) \<Rightarrow>
          let corrupted = (Decoder_Err br \<noteq> None)
          in (Inr (frame, (if corrupted \<and> \<not> FrameHeader_KeyFrame frame then ApplyCorruptInterFrameRefresh state else state), br, corrupted),
              probs, modeProbs))"

end
