(* ===== verification/Vp8_Key_Modes.thy ===== *)
theory Vp8_Key_Modes
  imports Vp8_Near_Mv Vp8_Header_Writer Vp8_Header_Parser
begin

text \<open>
  Key-frame macroblock modes: the writer of \<^verbatim>\<open>internal/vp8/encoder/keyframe_modes.go\<close> and the reader
  of \<^verbatim>\<open>internal/vp8/decoder/modes.go\<close>, from the segment id to the grid. Neighbours are looked up in
  the grid; a block mode is coded in the context of the blocks above it and to its left.
\<close>

section \<open>Shared pieces\<close>

datatype mode_error = ErrModeBufferTooSmall | ModePacketError packet_error

text \<open>\<open>int(^uint(0)>>1)\<close>\<close>

definition max_int :: int where
  "max_int = 2 ^ 63 - 1"

text \<open>The nested loops over rows and columns.\<close>

definition grid_cells :: "nat \<Rightarrow> nat \<Rightarrow> (nat \<times> nat) list" where
  "grid_cells rows cols = List.product [0..<rows] [0..<cols]"

definition cell_above :: "'m list \<Rightarrow> nat \<Rightarrow> nat \<times> nat \<Rightarrow> 'm option" where
  "cell_above modes cols cell = (case cell of (row, col) \<Rightarrow> if row > 0 then Some (modes ! (row * cols + col - cols)) else None)"

definition cell_left :: "'m list \<Rightarrow> nat \<Rightarrow> nat \<times> nat \<Rightarrow> 'm option" where
  "cell_left modes cols cell = (case cell of (row, col) \<Rightarrow> if col > 0 then Some (modes ! (row * cols + col - 1)) else None)"

definition BlockModeFromMacroblockMode :: "nat \<Rightarrow> nat" where
  "BlockModeFromMacroblockMode mode =
     (if mode = VPred then BVEPred else if mode = HPred then BHEPred else if mode = TMPred then BTMPred else BDCPred)"

section \<open>The encoder\<close>

record KeyFrameMacroblockMode =
  km_SegmentID :: byte
  km_YMode :: nat
  km_UVMode :: nat
  km_BModes :: "nat list"
  km_MBSkipCoeff :: bool

definition tree_tokens :: "int list \<Rightarrow> nat \<Rightarrow> TreeToken list" where
  "tree_tokens tree n = map (\<lambda>i. case BuildTreeToken tree (int i) of Some t \<Rightarrow> t | None \<Rightarrow> \<lparr>t_Value = 0, t_Len = 0\<rparr>) [0..<n]"

definition keyFrameYModeTokens :: "TreeToken list" where
  "keyFrameYModeTokens = tree_tokens KeyFrameYModeTree 5"

definition keyFrameUVModeTokens :: "TreeToken list" where
  "keyFrameUVModeTokens = tree_tokens UVModeTree 4"

definition bModeTokens :: "TreeToken list" where
  "bModeTokens = tree_tokens BModeTree 10"

definition writeMacroblockSegmentID :: "byte list \<Rightarrow> byte \<Rightarrow> (BoolWriter, bool) state" where
  "writeMacroblockSegmentID probs segmentID =
     (if segmentID \<ge> 4 then State_Monad.return False
      else do {
        (if segmentID = 0 then do { wr (\<lambda>w. WriteBool w 0 (probs ! 0)); wr (\<lambda>w. WriteBool w 0 (probs ! 1)) }
         else if segmentID = 1 then do { wr (\<lambda>w. WriteBool w 0 (probs ! 0)); wr (\<lambda>w. WriteBool w 1 (probs ! 1)) }
         else if segmentID = 2 then do { wr (\<lambda>w. WriteBool w 1 (probs ! 0)); wr (\<lambda>w. WriteBool w 0 (probs ! 2)) }
         else do { wr (\<lambda>w. WriteBool w 1 (probs ! 0)); wr (\<lambda>w. WriteBool w 1 (probs ! 2)) });
        e \<leftarrow> werr;
        State_Monad.return (\<not> e)
      })"

definition validKeyFrameMacroblockMode :: "KeyFrameMacroblockMode \<Rightarrow> bool" where
  "validKeyFrameMacroblockMode mode =
     (if km_YMode mode > BPred \<or> km_UVMode mode > TMPred then False
      else if km_YMode mode \<noteq> BPred then True
      else list_all (\<lambda>bMode. bMode \<le> BHUPred) (km_BModes mode))"

definition enc_keyFrameLeftBlockMode :: "KeyFrameMacroblockMode \<Rightarrow> KeyFrameMacroblockMode option \<Rightarrow> nat \<Rightarrow> nat" where
  "enc_keyFrameLeftBlockMode cur lft block =
     (if block mod 4 = 0 then
        (case lft of None \<Rightarrow> BDCPred
         | Some m \<Rightarrow> if km_YMode m = BPred then km_BModes m ! (block + 3) else BlockModeFromMacroblockMode (km_YMode m))
      else km_BModes cur ! (block - 1))"

definition enc_keyFrameAboveBlockMode :: "KeyFrameMacroblockMode \<Rightarrow> KeyFrameMacroblockMode option \<Rightarrow> nat \<Rightarrow> nat" where
  "enc_keyFrameAboveBlockMode cur abv block =
     (if block div 4 = 0 then
        (case abv of None \<Rightarrow> BDCPred
         | Some m \<Rightarrow> if km_YMode m = BPred then km_BModes m ! (block + 12) else BlockModeFromMacroblockMode (km_YMode m))
      else km_BModes cur ! (block - 4))"

text \<open>A loop that stops with false at the first failing write.\<close>

fun write_while :: "('a \<Rightarrow> (BoolWriter, bool) state) \<Rightarrow> 'a list \<Rightarrow> (BoolWriter, bool) state" where
  "write_while f [] = State_Monad.return True"
| "write_while f (x # xs) = do { ok \<leftarrow> f x; if \<not> ok then State_Monad.return False else write_while f xs }"

definition WriteKeyFrameMacroblockMode ::
  "KeyFrameMacroblockMode option \<Rightarrow> KeyFrameMacroblockMode option \<Rightarrow> KeyFrameMacroblockMode \<Rightarrow> (BoolWriter, bool) state" where
  "WriteKeyFrameMacroblockMode abv lft mode =
     (if \<not> validKeyFrameMacroblockMode mode then State_Monad.return False
      else do {
        ok \<leftarrow> WriteTreeToken KeyFrameYModeTree KeyFrameYModeProbs (keyFrameYModeTokens ! km_YMode mode);
        if \<not> ok then State_Monad.return False
        else do {
          ok \<leftarrow> (if km_YMode mode = BPred then
                write_while (\<lambda>block.
                  WriteTreeToken BModeTree
                    (KeyFrameBModeProbs ! enc_keyFrameAboveBlockMode mode abv block ! enc_keyFrameLeftBlockMode mode lft block)
                    (bModeTokens ! (km_BModes mode ! block))) [0..<16]
              else State_Monad.return True);
          if \<not> ok then State_Monad.return False
          else WriteTreeToken UVModeTree KeyFrameUVModeProbs (keyFrameUVModeTokens ! km_UVMode mode)
        }
      })"

text \<open>\<open>if w.Err() != nil { return w.Err() }; return ErrInvalidPacketConfig\<close>, and the last \<open>w.Err()\<close>\<close>

definition mode_failure :: "(BoolWriter, mode_error option) state" where
  "mode_failure = do { e \<leftarrow> werr; State_Monad.return (Some (ModePacketError (if e then EncErrBufferTooSmall else ErrInvalidPacketConfig))) }"

definition mode_end :: "(BoolWriter, mode_error option) state" where
  "mode_end = do { e \<leftarrow> werr; State_Monad.return (if e then Some (ModePacketError EncErrBufferTooSmall) else None) }"

definition write_key_cell ::
  "nat \<Rightarrow> KeyFrameMacroblockMode list \<Rightarrow> bool \<Rightarrow> byte list \<Rightarrow> bool \<Rightarrow> byte \<Rightarrow> nat \<times> nat \<Rightarrow> (BoolWriter, mode_error option) state" where
  "write_key_cell cols modes writeSegmentID segmentProbs mbNoCoeffSkip probSkipFalse cell =
     (let mode = modes ! (fst cell * cols + snd cell) in do {
        ok \<leftarrow> (if writeSegmentID then writeMacroblockSegmentID segmentProbs (km_SegmentID mode) else State_Monad.return True);
        if \<not> ok then mode_failure
        else do {
          (if mbNoCoeffSkip then wr (\<lambda>w. WriteBool w (if km_MBSkipCoeff mode then 1 else 0) probSkipFalse) else State_Monad.return ());
          ok \<leftarrow> WriteKeyFrameMacroblockMode (cell_above modes cols cell) (cell_left modes cols cell) mode;
          if \<not> ok then mode_failure else State_Monad.return None
        }
      })"

definition grid_too_small :: "int \<Rightarrow> int \<Rightarrow> nat \<Rightarrow> bool" where
  "grid_too_small rows cols n \<longleftrightarrow> rows < 0 \<or> cols < 0 \<or> rows \<noteq> 0 \<and> cols > max_int div rows \<or> int n < rows * cols"

definition WriteKeyFrameModeGridWithSegmentationAndSkip ::
  "int \<Rightarrow> int \<Rightarrow> KeyFrameMacroblockMode list \<Rightarrow> SegmentationConfig \<Rightarrow> bool \<Rightarrow> byte \<Rightarrow> (BoolWriter, mode_error option) state" where
  "WriteKeyFrameModeGridWithSegmentationAndSkip rows cols modes segmentation mbNoCoeffSkip probSkipFalse =
     (if grid_too_small rows cols (length modes) then State_Monad.return (Some ErrModeBufferTooSmall)
      else if \<not> validSegmentationConfig segmentation then State_Monad.return (Some (ModePacketError ErrInvalidPacketConfig))
      else do {
        e \<leftarrow> write_checked (write_key_cell (nat cols) modes (sc_Enabled segmentation \<and> sc_UpdateMap segmentation)
               (segmentationTreeProbs segmentation) mbNoCoeffSkip probSkipFalse) (grid_cells (nat rows) (nat cols));
        if e \<noteq> None then State_Monad.return e else mode_end
      })"

text \<open>\<open>SegmentationConfig{}\<close>, and the writers without segments and skip flags\<close>

definition no_segmentation_config :: SegmentationConfig where
  "no_segmentation_config = \<lparr>sc_Enabled = False, sc_UpdateMap = False, sc_UpdateData = False, sc_AbsDelta = False,
     sc_FeatureData = replicate 2 (replicate 4 0), sc_FeatureEnabled = replicate 2 (replicate 4 False),
     sc_TreeProbs = replicate 3 0, sc_TreeProbUpdated = replicate 3 False\<rparr>"

definition WriteKeyFrameModeGridWithSegmentation ::
  "int \<Rightarrow> int \<Rightarrow> KeyFrameMacroblockMode list \<Rightarrow> SegmentationConfig \<Rightarrow> (BoolWriter, mode_error option) state" where
  "WriteKeyFrameModeGridWithSegmentation rows cols modes segmentation =
     WriteKeyFrameModeGridWithSegmentationAndSkip rows cols modes segmentation False 0"

definition WriteKeyFrameModeGrid :: "int \<Rightarrow> int \<Rightarrow> KeyFrameMacroblockMode list \<Rightarrow> (BoolWriter, mode_error option) state" where
  "WriteKeyFrameModeGrid rows cols modes = WriteKeyFrameModeGridWithSegmentation rows cols modes no_segmentation_config"

section \<open>The decoder\<close>

definition readMacroblockSegmentID :: "byte list \<Rightarrow> (Decoder, byte) state" where
  "readMacroblockSegmentID probs = do {
     b \<leftarrow> ReadBool (probs ! 0);
     if b then do { c \<leftarrow> ReadBool (probs ! 2); State_Monad.return (2 + of_bool c) }
     else do { c \<leftarrow> ReadBool (probs ! 1); State_Monad.return (of_bool c) }
   }"

definition keyFrameLeftBlockMode :: "MacroblockMode \<Rightarrow> MacroblockMode option \<Rightarrow> nat \<Rightarrow> nat" where
  "keyFrameLeftBlockMode cur lft block =
     (if block mod 4 = 0 then
        (case lft of None \<Rightarrow> BDCPred
         | Some m \<Rightarrow> if mb_Mode m = BPred then mb_BModes m ! (block + 3) else BlockModeFromMacroblockMode (mb_Mode m))
      else mb_BModes cur ! (block - 1))"

definition keyFrameAboveBlockMode :: "MacroblockMode \<Rightarrow> MacroblockMode option \<Rightarrow> nat \<Rightarrow> nat" where
  "keyFrameAboveBlockMode cur abv block =
     (if block div 4 = 0 then
        (case abv of None \<Rightarrow> BDCPred
         | Some m \<Rightarrow> if mb_Mode m = BPred then mb_BModes m ! (block + 12) else BlockModeFromMacroblockMode (mb_Mode m))
      else mb_BModes cur ! (block - 4))"

fun read_key_bmodes :: "MacroblockMode option \<Rightarrow> MacroblockMode option \<Rightarrow> nat list \<Rightarrow> MacroblockMode \<Rightarrow> (Decoder, MacroblockMode) state" where
  "read_key_bmodes abv lft [] out = State_Monad.return out"
| "read_key_bmodes abv lft (i # is) out = do {
     b \<leftarrow> ReadBMode (KeyFrameBModeProbs ! keyFrameAboveBlockMode out abv i ! keyFrameLeftBlockMode out lft i);
     read_key_bmodes abv lft is (out\<lparr>mb_BModes := (mb_BModes out)[i := nat (the_leaf b)]\<rparr>)
   }"

definition decodeKeyFrameMacroblockMode :: "MacroblockMode option \<Rightarrow> MacroblockMode option \<Rightarrow> MacroblockMode \<Rightarrow> (Decoder, MacroblockMode) state" where
  "decodeKeyFrameMacroblockMode abv lft out = do {
     y \<leftarrow> ReadKeyFrameYMode KeyFrameYModeProbs;
     (let out = out\<lparr>mb_RefFrame := IntraFrame, mb_Is4x4 := False, mb_BModes := replicate 16 0, mb_Mode := nat (the_leaf y)\<rparr> in do {
        out \<leftarrow> (if mb_Mode out = BPred then read_key_bmodes abv lft [0..<16] (out\<lparr>mb_Is4x4 := True\<rparr>) else State_Monad.return out);
        uv \<leftarrow> ReadUVMode KeyFrameUVModeProbs;
        State_Monad.return (out\<lparr>mb_UVMode := nat (the_leaf uv)\<rparr>)
      })
   }"

text \<open>The start of every macroblock: the segment id is kept, read or reset, then the skip flag.\<close>

definition decode_mb_start :: "SegmentationHeader option \<Rightarrow> ModeHeader \<Rightarrow> MacroblockMode \<Rightarrow> (Decoder, MacroblockMode) state" where
  "decode_mb_start segmentation modeHeader out = do {
     seg \<leftarrow> (case segmentation of
         Some h \<Rightarrow> if sh_Enabled h
           then if sh_UpdateMap h then readMacroblockSegmentID (sh_TreeProbs h) else State_Monad.return (mb_SegmentID out)
           else State_Monad.return 0
       | None \<Rightarrow> State_Monad.return 0);
     skip \<leftarrow> (if mh_MBNoCoeffSkip modeHeader then ReadBool (mh_ProbSkipFalse modeHeader) else State_Monad.return False);
     State_Monad.return (zero_mode\<lparr>mb_SegmentID := seg, mb_MBSkipCoeff := skip\<rparr>)
   }"

definition DecodeKeyFrameMacroblock ::
  "SegmentationHeader option \<Rightarrow> ModeHeader \<Rightarrow> MacroblockMode option \<Rightarrow> MacroblockMode option \<Rightarrow> MacroblockMode \<Rightarrow> (Decoder, MacroblockMode) state" where
  "DecodeKeyFrameMacroblock segmentation modeHeader abv lft out = do {
     out \<leftarrow> decode_mb_start segmentation modeHeader out;
     decodeKeyFrameMacroblockMode abv lft out
   }"

text \<open>The loops over the grid: each cell's mode is stored before the next cell looks at it.\<close>

fun read_cells :: "(nat \<times> nat \<Rightarrow> MacroblockMode list \<Rightarrow> (Decoder, MacroblockMode) state) \<Rightarrow> nat \<Rightarrow> (nat \<times> nat) list
    \<Rightarrow> MacroblockMode list \<Rightarrow> (Decoder, MacroblockMode list) state" where
  "read_cells f cols [] modes = State_Monad.return modes"
| "read_cells f cols (c # cs) modes = do {
     m \<leftarrow> f c modes;
     read_cells f cols cs (modes[fst c * cols + snd c := m])
   }"

definition read_key_cell :: "SegmentationHeader option \<Rightarrow> ModeHeader \<Rightarrow> nat \<Rightarrow> nat \<times> nat \<Rightarrow> MacroblockMode list \<Rightarrow> (Decoder, MacroblockMode) state" where
  "read_key_cell segmentation modeHeader cols cell modes =
     DecodeKeyFrameMacroblock segmentation modeHeader (cell_above modes cols cell) (cell_left modes cols cell)
       (modes ! (fst cell * cols + snd cell))"

definition DecodeKeyFrameModeGrid ::
  "int \<Rightarrow> int \<Rightarrow> SegmentationHeader option \<Rightarrow> ModeHeader \<Rightarrow> MacroblockMode list \<Rightarrow> (Decoder, mode_error + MacroblockMode list) state" where
  "DecodeKeyFrameModeGrid rows cols segmentation modeHeader modes =
     (if grid_too_small rows cols (length modes) then State_Monad.return (Inl ErrModeBufferTooSmall)
      else do {
        modes \<leftarrow> read_cells (read_key_cell segmentation modeHeader (nat cols)) (nat cols) (grid_cells (nat rows) (nat cols)) modes;
        State_Monad.return (Inr modes)
      })"

text \<open>The cells in the order of their index.\<close>

lemma grid_cells_map:
  assumes "0 < cols"
  shows "grid_cells rows cols = map (\<lambda>i. (i div cols, i mod cols)) [0..<rows * cols]"
  using assms by (intro nth_equalityI)
    (simp_all add: grid_cells_def product_nth less_mult_imp_div_less)

lemma grid_cell_index:
  assumes "c \<in> set (grid_cells rows cols)"
  shows "fst c * cols + snd c < rows * cols"
proof -
  obtain r k where c: "c = (r, k)" "r < rows" "k < cols" using assms by (auto simp: grid_cells_def)
  have "Suc r * cols \<le> rows * cols" using c(2) by (intro mult_le_mono1) simp
  then show ?thesis using c by simp
qed

end
