(* ===== verification/Vp8_Header_Codes.thy ===== *)
theory Vp8_Header_Codes
  imports Vp8_Header_Parser Vp8_Header_Writer
begin

text \<open>
  The frame header, piece by piece: what the state-header writers code, the parsers read
  (\<open>codes\<close>), with the header that arrives written out over the configuration (the \<open>_sent\<close> functions).
\<close>

section \<open>Bits, magnitudes and arrays\<close>

lemma sticky_writeBoolBit [sticky_intros]: "sticky (writeBoolBit v)"
  unfolding writeBoolBit_def by (intro sticky_intros)

lemma sticky_return_err [sticky_intros]: "sticky return_err"
  unfolding return_err_def by (intro sticky_intros)

lemma sticky_write_array: "(\<And>x. sticky (f x)) \<Longrightarrow> sticky (write_array f xs)"
  by (induction xs) (auto intro!: sticky_intros)

lemma sticky_write_checked: "(\<And>x. sticky (f x)) \<Longrightarrow> sticky (write_checked f xs)"
  by (induction xs) (auto intro!: sticky_intros)

lemma codes_bit1: "codes (wr (\<lambda>w. WriteBit w 1)) ReadBit () True"
  using codes_bit [of True] by simp

lemma codes_bit0: "codes (wr (\<lambda>w. WriteBit w 0)) ReadBit () False"
  using codes_bit [of False] by simp

lemma codes_writeBoolBit: "codes (writeBoolBit v) ReadBit () v"
  using codes_bit1 codes_bit0 by (cases v) (simp_all add: writeBoolBit_def)

lemma codes_flag: "codes (if v then wr (\<lambda>w. WriteBit w 1) else wr (\<lambda>w. WriteBit w 0)) ReadBit () v"
  using codes_writeBoolBit [of v] by (simp only: writeBoolBit_def)

lemma codes_return_err: "codes return_err (State_Monad.return s) None s"
  unfolding return_err_def
  by (rule codes_werr) (use codes_return [of None s] in simp, intro sticky_intros)

lemma codes_byte: "codes (wr (\<lambda>w. WriteLiteral w (ucast (p :: byte)) 8)) (do { v \<leftarrow> ReadLiteral 8; State_Monad.return (ucast v) }) () p"
proof -
  have "ucast (take_bit 8 (ucast p :: u32)) = p"
    by (rule bit_word_eqI) (simp add: bit_ucast_iff bit_take_bit_iff)
  then show ?thesis using codes_post [OF codes_literal [of "ucast p" 8], of "ucast :: u32 \<Rightarrow> byte"] by simp
qed

lemma codes_array:
  assumes "length xs = length ys" "\<And>x y. (x, y) \<in> set (zip xs ys) \<Longrightarrow> codes (f x) (g y) () (h x y)" "\<And>x. sticky (f x)"
  shows "codes (write_array f xs) (read_array g ys) () (map2 h xs ys)"
  using assms(1,2)
proof (induction xs ys rule: list_induct2)
  case Nil
  then show ?case by (simp add: codes_return)
next
  case (Cons x xs y ys)
  have here: "codes (f x) (g y) () (h x y)" using Cons.prems by simp
  have "codes (write_array f xs) (read_array g ys) () (map2 h xs ys)" using Cons by simp
  from codes_post [OF this, of "\<lambda>zs. h x y # zs"]
  show ?case
    unfolding write_array.simps read_array.simps zip_Cons_Cons list.map prod.case
    by (rule codes_bind [OF here]) (intro sticky_write_array assms(3))
qed

text \<open>A magnitude of at most seven bits and its sign give back the number.\<close>

lemma magnitude_value:
  assumes "\<bar>d\<bar> < 2 ^ n" "n \<le> 7"
  shows "(if d < 0 then - ucast (take_bit n (word_of_int \<bar>d\<bar> :: u32)) else ucast (take_bit n (word_of_int \<bar>d\<bar> :: u32))) = (word_of_int d :: i8)"
proof -
  have d7: "\<bar>d\<bar> < 2 ^ 7" using assms power_increasing [of n 7 "2 :: int"] by linarith
  have u: "uint (word_of_int \<bar>d\<bar> :: u32) = \<bar>d\<bar>" using d7 by (simp add: uint_word_small)
  have "uint (take_bit n (word_of_int \<bar>d\<bar> :: u32)) = take_bit n \<bar>d\<bar>" by (subst unsigned_take_bit_eq) (simp add: u)
  also have "take_bit n \<bar>d\<bar> = \<bar>d\<bar>" using assms(1) by (simp add: take_bit_int_eq_self)
  finally have "ucast (take_bit n (word_of_int \<bar>d\<bar> :: u32)) = (word_of_int \<bar>d\<bar> :: i8)"
    by (simp add: ucast_eq)
  then show ?thesis by (cases "d < 0") simp_all
qed

section \<open>Segmentation\<close>

definition segmentation_shape :: "SegmentationConfig \<Rightarrow> bool" where
  "segmentation_shape cfg \<longleftrightarrow> length (sc_FeatureData cfg) = 2 \<and> length (sc_FeatureEnabled cfg) = 2 \<and>
     list_all (\<lambda>r. length r = 4) (sc_FeatureData cfg) \<and> list_all (\<lambda>r. length r = 4) (sc_FeatureEnabled cfg) \<and>
     length (sc_TreeProbs cfg) = 3 \<and> length (sc_TreeProbUpdated cfg) = 3"

text \<open>The header a decoder gets from a configuration: absent features are 0, absent tree probabilities 255.\<close>

definition segmentation_sent :: "SegmentationConfig \<Rightarrow> SegmentationHeader" where
  "segmentation_sent cfg =
     (if \<not> sc_Enabled cfg then no_segmentation
      else \<lparr>sh_Enabled = True, sh_UpdateMap = sc_UpdateMap cfg, sh_UpdateData = sc_UpdateData cfg,
        sh_AbsDelta = (sc_UpdateData cfg \<and> sc_AbsDelta cfg),
        sh_FeatureData = (if sc_UpdateData cfg
          then map (\<lambda>f. map (\<lambda>s. if sc_FeatureEnabled cfg ! f ! s then sc_FeatureData cfg ! f ! s else 0) [0..<4]) [0..<2]
          else replicate 2 (replicate 4 0)),
        sh_TreeProbs = (if sc_UpdateMap cfg then segmentationTreeProbs cfg else replicate 3 0)\<rparr>)"

lemma sticky_write_feature [sticky_intros]: "sticky (write_feature bits x)"
  unfolding write_feature_def by (cases x) (auto intro!: sticky_intros)

lemma sticky_write_tree_prob [sticky_intros]: "sticky (write_tree_prob x)"
  unfolding write_tree_prob_def by (cases x) (auto intro!: sticky_intros)

lemma sticky_writeSegmentationHeader [sticky_intros]: "sticky (writeSegmentationHeader cfg)"
  unfolding writeSegmentationHeader_def by (intro sticky_intros sticky_write_array)

lemma codes_magnitude:
  assumes "\<bar>d\<bar> < 2 ^ n" "n \<le> 7"
  shows "codes (wr (\<lambda>w. WriteLiteral w (word_of_int \<bar>d\<bar>) (int n)) \<bind> (\<lambda>_. if d < 0 then wr (\<lambda>w. WriteBit w 1) else wr (\<lambda>w. WriteBit w 0)))
    (ReadLiteral (int n) \<bind> (\<lambda>v. ReadBit \<bind> (\<lambda>neg. State_Monad.return (if neg then - ucast v else ucast v))))
    () (word_of_int d :: i8)"
proof -
  define m where "m = (word_of_int \<bar>d\<bar> :: u32)"
  have "codes (if d < 0 then wr (\<lambda>w. WriteBit w 1) else wr (\<lambda>w. WriteBit w 0))
      (ReadBit \<bind> (\<lambda>neg. State_Monad.return (if neg then - ucast (take_bit n m) else ucast (take_bit n m)))) ()
      (if d < 0 then - ucast (take_bit n m) else ucast (take_bit n m) :: i8)"
    by (rule codes_post [OF codes_flag])
  then have "codes (if d < 0 then wr (\<lambda>w. WriteBit w 1) else wr (\<lambda>w. WriteBit w 0))
      (ReadBit \<bind> (\<lambda>neg. State_Monad.return (if neg then - ucast (take_bit n m) else ucast (take_bit n m)))) ()
      (word_of_int d :: i8)"
    unfolding m_def by (simp only: magnitude_value [OF assms])
  then show ?thesis
    unfolding m_def [symmetric]
    by (intro codes_bind [OF codes_literal]) (simp_all only: nat_int, intro sticky_intros)
qed

lemma codes_feature:
  assumes "enabled \<Longrightarrow> \<bar>sint v\<bar> < 2 ^ n" "n \<le> 7"
  shows "codes (write_feature (int n) (enabled, v)) (read_feature (int n) z) () (if enabled then v else z)"
proof (cases enabled)
  case True
  have "codes (wr (\<lambda>w. WriteLiteral w (word_of_int \<bar>sint v\<bar>) (int n)) \<bind> (\<lambda>_. if sint v < 0 then wr (\<lambda>w. WriteBit w 1) else wr (\<lambda>w. WriteBit w 0)))
    (ReadLiteral (int n) \<bind> (\<lambda>v. ReadBit \<bind> (\<lambda>neg. State_Monad.return (if neg then - ucast v else ucast v)))) () v"
    using codes_magnitude [of "sint v" n] assms True by simp
  then show ?thesis
    unfolding write_feature_def read_feature_def prod.case segmentationFeatureMagnitude_def Let_def fst_conv
    using True by (simp only: simp_thms if_True if_False) (rule codes_bind [OF codes_bit1], simp, intro sticky_intros)
next
  case False
  then show ?thesis
    unfolding write_feature_def read_feature_def
    by (simp only: prod.case simp_thms if_True if_False) (rule codes_last [OF codes_bit0], simp add: reads_return)
qed

lemma codes_features:
  assumes "length e = 4" "length d = 4" "n \<le> 7" "\<And>s. s < 4 \<Longrightarrow> e ! s \<Longrightarrow> \<bar>sint (d ! s)\<bar> < 2 ^ n"
  shows "codes (write_array (write_feature (int n)) (zip e d)) (read_array (read_feature (int n)) (replicate 4 0)) ()
    (map (\<lambda>s. if e ! s then d ! s else 0) [0..<4])"
proof -
  have "codes (write_array (write_feature (int n)) (zip e d)) (read_array (read_feature (int n)) (replicate 4 0)) ()
      (map2 (\<lambda>x z. if fst x then snd x else z) (zip e d) (replicate 4 0))"
  proof (rule codes_array)
    fix x and y :: i8 assume "(x, y) \<in> set (zip (zip e d) (replicate 4 0))"
    then have "fst x \<Longrightarrow> \<bar>sint (snd x)\<bar> < 2 ^ n" using assms by (auto simp: set_zip)
    from codes_feature [of "fst x" "snd x" n y, OF this assms(3)]
    show "codes (write_feature (int n) x) (read_feature (int n) y) () (if fst x then snd x else y)"
      by (simp only: prod.collapse)
  qed (use assms in \<open>simp_all add: sticky_write_feature\<close>)
  also have "map2 (\<lambda>x z. if fst x then snd x else z) (zip e d) (replicate 4 0) = map (\<lambda>s. if e ! s then d ! s else 0) [0..<4]"
    using assms by (intro nth_equalityI) simp_all
  finally show ?thesis .
qed

lemma codes_tree_probs:
  assumes "length u = 3" "length p = 3"
  shows "codes (write_array write_tree_prob (zip u p)) (read_array read_tree_prob (replicate 3 255)) ()
    (map (\<lambda>i. if u ! i then p ! i else 255) [0..<3])"
proof -
  have one: "codes (write_tree_prob (b, q)) (read_tree_prob y) () (if b then q else y)" for b q y
  proof (cases b)
    case True
    then show ?thesis
      unfolding write_tree_prob_def read_tree_prob_def
      by (simp only: prod.case if_True) (rule codes_bind [OF codes_bit1], simp only: if_True codes_byte, intro sticky_intros)
  next
    case False
    then show ?thesis
      unfolding write_tree_prob_def read_tree_prob_def
      by (simp only: prod.case if_False) (rule codes_last [OF codes_bit0], simp add: reads_return)
  qed
  have "codes (write_array write_tree_prob (zip u p)) (read_array read_tree_prob (replicate 3 255)) ()
      (map2 (\<lambda>x y. if fst x then snd x else y) (zip u p) (replicate 3 255))"
  proof (rule codes_array)
    fix x :: "bool \<times> byte" and y
    show "codes (write_tree_prob x) (read_tree_prob y) () (if fst x then snd x else y)"
      using one [of "fst x" "snd x" y] by (simp only: prod.collapse)
  qed (use assms in \<open>simp_all add: sticky_write_tree_prob\<close>)
  also have "map2 (\<lambda>x y. if fst x then snd x else y) (zip u p) (replicate 3 255) = map (\<lambda>i. if u ! i then p ! i else 255) [0..<3]"
    using assms by (intro nth_equalityI) simp_all
  finally show ?thesis .
qed

lemma valid_feature:
  assumes "validSegmentationConfig cfg" "sc_Enabled cfg" "sc_UpdateData cfg" "s < 4"
  shows "sc_FeatureEnabled cfg ! 0 ! s \<Longrightarrow> \<bar>sint (sc_FeatureData cfg ! 0 ! s)\<bar> < 2 ^ 7"
    and "sc_FeatureEnabled cfg ! 1 ! s \<Longrightarrow> \<bar>sint (sc_FeatureData cfg ! 1 ! s)\<bar> < 2 ^ 6"
proof -
  have all: "list_all (\<lambda>f. list_all (\<lambda>s. sc_FeatureEnabled cfg ! f ! s \<longrightarrow>
      snd (segmentationFeatureMagnitude (sc_FeatureData cfg ! f ! s) (segmentationFeatureDataBits ! f))) [0..<4]) [0..<2]"
    using assms(1-3) by (simp only: validSegmentationConfig_def simp_thms if_False split: if_split_asm)
  have "sc_FeatureEnabled cfg ! f ! s \<Longrightarrow> snd (segmentationFeatureMagnitude (sc_FeatureData cfg ! f ! s) (segmentationFeatureDataBits ! f))"
    if "f < 2" for f using all that assms(4) by (auto simp: list_all_iff)
  from this [of 0] this [of 1]
  show "sc_FeatureEnabled cfg ! 0 ! s \<Longrightarrow> \<bar>sint (sc_FeatureData cfg ! 0 ! s)\<bar> < 2 ^ 7"
    "sc_FeatureEnabled cfg ! 1 ! s \<Longrightarrow> \<bar>sint (sc_FeatureData cfg ! 1 ! s)\<bar> < 2 ^ 6"
    by (simp_all add: segmentationFeatureMagnitude_def segmentationFeatureDataBits_def Let_def)
qed

lemma segmentation_sent_on:
  assumes "sc_Enabled cfg"
  shows "segmentation_sent cfg = \<lparr>sh_Enabled = True, sh_UpdateMap = sc_UpdateMap cfg, sh_UpdateData = sc_UpdateData cfg,
    sh_AbsDelta = fst (if sc_UpdateData cfg then (sc_AbsDelta cfg,
        [map (\<lambda>s. if sc_FeatureEnabled cfg ! 0 ! s then sc_FeatureData cfg ! 0 ! s else 0) [0..<4],
         map (\<lambda>s. if sc_FeatureEnabled cfg ! 1 ! s then sc_FeatureData cfg ! 1 ! s else 0) [0..<4]])
      else (False, sh_FeatureData no_segmentation)),
    sh_FeatureData = snd (if sc_UpdateData cfg then (sc_AbsDelta cfg,
        [map (\<lambda>s. if sc_FeatureEnabled cfg ! 0 ! s then sc_FeatureData cfg ! 0 ! s else 0) [0..<4],
         map (\<lambda>s. if sc_FeatureEnabled cfg ! 1 ! s then sc_FeatureData cfg ! 1 ! s else 0) [0..<4]])
      else (False, sh_FeatureData no_segmentation)),
    sh_TreeProbs = (if sc_UpdateMap cfg then map (\<lambda>i. if sc_TreeProbUpdated cfg ! i then sc_TreeProbs cfg ! i else 255) [0..<3]
      else replicate 3 0)\<rparr>"
  using assms by (simp add: segmentation_sent_def no_segmentation_def segmentationTreeProbs_def numeral_2_eq_2)

lemma codes_segmentation:
  assumes "validSegmentationConfig cfg" "segmentation_shape cfg"
  shows "codes (writeSegmentationHeader cfg) parseSegmentationHeader None (segmentation_sent cfg)"
proof (cases "sc_Enabled cfg")
  case False
  show ?thesis
    unfolding writeSegmentationHeader_def parseSegmentationHeader_def using assms(1) False
    by (simp only: simp_thms if_True if_False)
      (rule codes_bind [OF codes_writeBoolBit], use False in \<open>simp add: segmentation_sent_def codes_return\<close>, intro sticky_intros)
next
  case True
  have sh: "length (sc_FeatureEnabled cfg ! i) = 4" "length (sc_FeatureData cfg ! i) = 4" if "i < 2" for i
    using assms(2) that by (auto simp: segmentation_shape_def list_all_iff)
  have z: "sh_FeatureData no_segmentation ! 0 = replicate 4 0" "sh_FeatureData no_segmentation ! 1 = replicate 4 0"
    by (simp_all add: no_segmentation_def)
  define quant where "quant = map (\<lambda>s. if sc_FeatureEnabled cfg ! 0 ! s then sc_FeatureData cfg ! 0 ! s else 0) [0..<4]"
  define level where "level = map (\<lambda>s. if sc_FeatureEnabled cfg ! 1 ! s then sc_FeatureData cfg ! 1 ! s else 0) [0..<4]"
  have bits: "segmentationFeatureDataBits ! 0 = int 7" "segmentationFeatureDataBits ! 1 = int 6"
    "mbFeatureDataBits ! 0 = int 7" "mbFeatureDataBits ! 1 = int 6"
    by (simp_all add: segmentationFeatureDataBits_def mbFeatureDataBits_def)
  have feat: "codes (write_array (write_feature (int 7)) (zip (sc_FeatureEnabled cfg ! 0) (sc_FeatureData cfg ! 0)))
      (read_array (read_feature (int 7)) (replicate 4 0)) () quant"
    "codes (write_array (write_feature (int 6)) (zip (sc_FeatureEnabled cfg ! 1) (sc_FeatureData cfg ! 1)))
      (read_array (read_feature (int 6)) (replicate 4 0)) () level" if "sc_UpdateData cfg"
    unfolding quant_def level_def using valid_feature [OF assms(1) True that] sh
    by (intro codes_features; simp)+
  have data: "codes (if sc_UpdateData cfg then do {
       writeBoolBit (sc_AbsDelta cfg);
       write_array (write_feature (int 7)) (zip (sc_FeatureEnabled cfg ! 0) (sc_FeatureData cfg ! 0));
       write_array (write_feature (int 6)) (zip (sc_FeatureEnabled cfg ! 1) (sc_FeatureData cfg ! 1))
     } else State_Monad.return ())
    (if sc_UpdateData cfg then do {
       absDelta \<leftarrow> ReadBit;
       quant \<leftarrow> read_array (read_feature (int 7)) (replicate 4 0);
       level \<leftarrow> read_array (read_feature (int 6)) (replicate 4 0);
       State_Monad.return (absDelta, [quant, level])
     } else State_Monad.return (False, sh_FeatureData no_segmentation)) ()
    (if sc_UpdateData cfg then (sc_AbsDelta cfg, [quant, level]) else (False, sh_FeatureData no_segmentation))"
    by (cases "sc_UpdateData cfg"; simp only: if_True if_False)
      (intro codes_bind [OF codes_writeBoolBit] codes_bind [OF feat(1)] codes_post [OF feat(2)] codes_return sticky_intros sticky_write_array; simp)+
  have probs: "codes (if sc_UpdateMap cfg then write_array write_tree_prob (zip (sc_TreeProbUpdated cfg) (sc_TreeProbs cfg)) else State_Monad.return ())
    (if sc_UpdateMap cfg then read_array read_tree_prob (replicate 3 255) else State_Monad.return (replicate 3 0)) ()
    (if sc_UpdateMap cfg then map (\<lambda>i. if sc_TreeProbUpdated cfg ! i then sc_TreeProbs cfg ! i else 255) [0..<3] else replicate 3 0)"
    using codes_tree_probs [of "sc_TreeProbUpdated cfg" "sc_TreeProbs cfg"] assms(2)
    by (simp add: segmentation_shape_def codes_return)
  show ?thesis
    unfolding writeSegmentationHeader_def parseSegmentationHeader_def segmentation_sent_on [OF True] bits z
    unfolding quant_def [symmetric] level_def [symmetric] using assms(1) True
    by (simp only: simp_thms if_True if_False)
      (rule codes_bind [OF codes_writeBoolBit], simp only: simp_thms if_True if_False,
       intro codes_bind [OF codes_writeBoolBit] codes_bind [OF data] codes_bind [OF probs] codes_return_err
         sticky_intros sticky_write_array, intro sticky_intros sticky_write_array)
qed

section \<open>Loop filter\<close>

lemma codes_small:
  assumes "unat p < 2 ^ n" "n \<le> 8"
  shows "codes (wr (\<lambda>w. WriteLiteral w (ucast (p :: byte)) (int n))) (ReadLiteral (int n)) () (ucast p)"
proof -
  have u: "unat (ucast p :: u32) = unat p" by (rule unat_ucast_up) simp
  have "unat (take_bit n (ucast p :: u32)) = unat (ucast p :: u32)"
    by (subst unsigned_take_bit_eq) (simp add: u take_bit_nat_eq_self assms(1))
  then have "take_bit n (ucast p :: u32) = ucast p" by (rule word_unat_eq_iff [THEN iffD2])
  then show ?thesis using codes_literal [of "ucast p" "int n"] by simp
qed

definition sent_delta :: "bool \<Rightarrow> i8 \<Rightarrow> i8 \<Rightarrow> i8 \<Rightarrow> i8" where
  "sent_delta forceAll delta base previous = (if forceAll \<or> delta \<noteq> base then delta else previous)"

lemma sticky_writeLoopFilterDelta [sticky_intros]: "sticky (writeLoopFilterDelta d u)"
  unfolding writeLoopFilterDelta_def Let_def by (intro sticky_intros)

lemma codes_lf_delta:
  assumes "\<bar>sint delta\<bar> \<le> 63"
  shows "codes (writeLoopFilterDelta delta update) (read_lf_delta prev) () (if update then delta else prev)"
proof (cases update)
  case True
  define d where "d = sint delta"
  define v where "v = (if d < 0 then - delta else delta)"
  have "v = word_of_int \<bar>d\<bar>" by (simp add: v_def d_def)
  moreover have "sint (word_of_int \<bar>d\<bar> :: i8) = \<bar>d\<bar>"
    using assms by (simp add: d_def sint_sbintrunc' signed_take_bit_int_eq_self)
  ultimately have sv: "sint v = \<bar>d\<bar>" by simp
  have m: "(scast v AND 0x3f :: u32) = word_of_int \<bar>d\<bar>"
  proof -
    have "(scast v :: u32) = word_of_int \<bar>d\<bar>" by (simp add: scast_eq sv)
    moreover have "(word_of_int \<bar>d\<bar> AND 0x3f :: u32) = take_bit 6 (word_of_int \<bar>d\<bar>)"
      by (simp add: take_bit_eq_mask mask_eq_exp_minus_1)
    moreover have "(take_bit 6 (word_of_int \<bar>d\<bar>) :: u32) = word_of_int \<bar>d\<bar>"
      using assms by (intro word_uint_eq_iff [THEN iffD2]) (simp add: unsigned_take_bit_eq uint_word_small take_bit_int_eq_self d_def)
    ultimately show ?thesis by simp
  qed
  define t where "t = take_bit 6 (word_of_int \<bar>d\<bar> :: u32)"
  have val: "(if \<not> 0 < d then - ucast t else ucast t) = delta"
    using magnitude_value [of d 6] assms by (cases "d = 0") (auto simp: d_def t_def)
  have "codes (if 0 < d then wr (\<lambda>w. WriteBit w 0) else wr (\<lambda>w. WriteBit w 1)) ReadBit () (\<not> 0 < d)"
    using codes_bit0 codes_bit1 by simp
  from codes_post [OF this, of "\<lambda>neg. if neg then - ucast t else (ucast t :: i8)"]
  have sign: "codes (if 0 < d then wr (\<lambda>w. WriteBit w 0) else wr (\<lambda>w. WriteBit w 1))
      (ReadBit \<bind> (\<lambda>neg. State_Monad.return (if neg then - ucast t else ucast t))) () delta"
    unfolding val .
  show ?thesis
    unfolding writeLoopFilterDelta_def read_lf_delta_def readSignedLiteral_def Let_def d_def [symmetric] v_def [symmetric] m
    using True
    by (simp only: simp_thms if_True if_False)
      (rule codes_bind [OF codes_bit1], simp only: if_True, rule codes_bind [OF codes_literal],
        simp only: nat_numeral, rule sign [unfolded t_def], intro sticky_intros, intro sticky_intros)
next
  case False
  then show ?thesis
    unfolding writeLoopFilterDelta_def read_lf_delta_def
    by (simp only: simp_thms if_True if_False) (rule codes_last [OF codes_bit0], simp add: reads_return)
qed

definition loop_filter_sent :: "'a StateConfig_scheme \<Rightarrow> LoopFilterHeader \<Rightarrow> LoopFilterHeader" where
  "loop_filter_sent cfg previous = \<lparr>lf_Type = (if c_SimpleLoopFilter cfg then SimpleLoopFilter else NormalLoopFilter),
     lf_Level = c_LoopFilterLevel cfg, lf_SharpnessLevel = c_SharpnessLevel cfg,
     lf_DeltaEnabled = c_LFDeltaEnabled cfg, lf_DeltaUpdate = (c_LFDeltaEnabled cfg \<and> c_LFDeltaUpdate cfg),
     lf_RefDeltas = (if c_LFDeltaEnabled cfg \<and> c_LFDeltaUpdate cfg
       then map (\<lambda>i. sent_delta (c_LFDeltaForceUpdateAll cfg) (c_RefLFDeltas cfg ! i) (c_RefLFDeltasBase cfg ! i) (lf_RefDeltas previous ! i)) [0..<4]
       else lf_RefDeltas previous),
     lf_ModeDeltas = (if c_LFDeltaEnabled cfg \<and> c_LFDeltaUpdate cfg
       then map (\<lambda>i. sent_delta (c_LFDeltaForceUpdateAll cfg) (c_ModeLFDeltas cfg ! i) (c_ModeLFDeltasBase cfg ! i) (lf_ModeDeltas previous ! i)) [0..<4]
       else lf_ModeDeltas previous)\<rparr>"

lemma codes_lf_deltas:
  assumes "length ds = 4" "length base = 4" "length prev = 4" "\<forall>d\<in>set ds. \<bar>sint d\<bar> \<le> 63"
  shows "codes (write_array (\<lambda>(delta, base). writeLoopFilterDelta delta (forceAll \<or> delta \<noteq> base)) (zip ds base))
    (read_array read_lf_delta prev) () (map (\<lambda>i. sent_delta forceAll (ds ! i) (base ! i) (prev ! i)) [0..<4])"
proof -
  have "codes (write_array (\<lambda>(delta, base). writeLoopFilterDelta delta (forceAll \<or> delta \<noteq> base)) (zip ds base))
      (read_array read_lf_delta prev) () (map2 (\<lambda>x p. sent_delta forceAll (fst x) (snd x) p) (zip ds base) prev)"
  proof (rule codes_array)
    fix x :: "i8 \<times> i8" and y :: i8 assume "(x, y) \<in> set (zip (zip ds base) prev)"
    then have "\<bar>sint (fst x)\<bar> \<le> 63" using assms(4) by (cases x) (auto dest!: set_zip_leftD)
    from codes_lf_delta [OF this]
    show "codes (case x of (delta, base) \<Rightarrow> writeLoopFilterDelta delta (forceAll \<or> delta \<noteq> base)) (read_lf_delta y) ()
        (sent_delta forceAll (fst x) (snd x) y)"
      by (simp add: sent_delta_def split_beta)
  qed (use assms in \<open>auto intro: sticky_writeLoopFilterDelta\<close>)
  also have "map2 (\<lambda>x p. sent_delta forceAll (fst x) (snd x) p) (zip ds base) prev =
      map (\<lambda>i. sent_delta forceAll (ds ! i) (base ! i) (prev ! i)) [0..<4]"
    using assms(1-3) by (intro nth_equalityI) simp_all
  finally show ?thesis .
qed

lemma sticky_writeLoopFilterDeltas [sticky_intros]: "sticky (writeLoopFilterDeltas e u f r m rb mb)"
  unfolding writeLoopFilterDeltas_def by (auto intro!: sticky_intros sticky_write_array)

definition lf_config_ok :: "'a StateConfig_scheme \<Rightarrow> bool" where
  "lf_config_ok cfg \<longleftrightarrow> length (c_RefLFDeltas cfg) = 4 \<and> length (c_ModeLFDeltas cfg) = 4 \<and>
     length (c_RefLFDeltasBase cfg) = 4 \<and> length (c_ModeLFDeltasBase cfg) = 4 \<and>
     list_all (\<lambda>d. \<bar>sint d\<bar> \<le> 63) (c_RefLFDeltas cfg) \<and> list_all (\<lambda>d. \<bar>sint d\<bar> \<le> 63) (c_ModeLFDeltas cfg)"

lemma codes_loop_filter:
  assumes "lf_config_ok cfg" "c_LoopFilterLevel cfg \<le> 63" "c_SharpnessLevel cfg \<le> 7"
    "length (lf_RefDeltas prev) = 4" "length (lf_ModeDeltas prev) = 4"
    "codes K (R (loop_filter_sent cfg prev)) r s" "sticky K"
  shows "codes (do {
      (if c_SimpleLoopFilter cfg then wr (\<lambda>w. WriteBit w 1) else wr (\<lambda>w. WriteBit w 0));
      wr (\<lambda>w. WriteLiteral w (ucast (c_LoopFilterLevel cfg)) 6);
      wr (\<lambda>w. WriteLiteral w (ucast (c_SharpnessLevel cfg)) 3);
      writeLoopFilterDeltas (c_LFDeltaEnabled cfg) (c_LFDeltaUpdate cfg) (c_LFDeltaForceUpdateAll cfg)
         (c_RefLFDeltas cfg) (c_ModeLFDeltas cfg) (c_RefLFDeltasBase cfg) (c_ModeLFDeltasBase cfg);
      K}) (parseLoopFilterHeaderWithPrevious prev \<bind> R) r s"
proof -
  have lvl: "unat (c_LoopFilterLevel cfg) < 2 ^ 6" "unat (c_SharpnessLevel cfg) < 2 ^ 3"
    using assms(2,3) by (simp_all add: word_le_nat_alt)
  define h where "h = \<lparr>lf_Type = (if c_SimpleLoopFilter cfg then SimpleLoopFilter else NormalLoopFilter),
     lf_Level = c_LoopFilterLevel cfg, lf_SharpnessLevel = c_SharpnessLevel cfg, lf_DeltaEnabled = c_LFDeltaEnabled cfg,
     lf_DeltaUpdate = False, lf_RefDeltas = lf_RefDeltas prev, lf_ModeDeltas = lf_ModeDeltas prev\<rparr>"
  have u: "ucast (ucast p :: u32) = (p :: byte)" for p by (rule bit_word_eqI) (simp add: bit_ucast_iff)
  have refs: "codes (write_array (\<lambda>(delta, base). writeLoopFilterDelta delta (c_LFDeltaForceUpdateAll cfg \<or> delta \<noteq> base)) (zip (c_RefLFDeltas cfg) (c_RefLFDeltasBase cfg)))
      (read_array read_lf_delta (lf_RefDeltas prev)) ()
      (map (\<lambda>i. sent_delta (c_LFDeltaForceUpdateAll cfg) (c_RefLFDeltas cfg ! i) (c_RefLFDeltasBase cfg ! i) (lf_RefDeltas prev ! i)) [0..<4])"
    using assms(1,4) by (intro codes_lf_deltas) (auto simp: lf_config_ok_def list_all_iff)
  have modes: "codes (write_array (\<lambda>(delta, base). writeLoopFilterDelta delta (c_LFDeltaForceUpdateAll cfg \<or> delta \<noteq> base)) (zip (c_ModeLFDeltas cfg) (c_ModeLFDeltasBase cfg)))
      (read_array read_lf_delta (lf_ModeDeltas prev)) ()
      (map (\<lambda>i. sent_delta (c_LFDeltaForceUpdateAll cfg) (c_ModeLFDeltas cfg ! i) (c_ModeLFDeltasBase cfg ! i) (lf_ModeDeltas prev ! i)) [0..<4])"
    using assms(1,5) by (intro codes_lf_deltas) (auto simp: lf_config_ok_def list_all_iff)
  have deltas: "codes (writeLoopFilterDeltas (c_LFDeltaEnabled cfg) (c_LFDeltaUpdate cfg) (c_LFDeltaForceUpdateAll cfg)
         (c_RefLFDeltas cfg) (c_ModeLFDeltas cfg) (c_RefLFDeltasBase cfg) (c_ModeLFDeltasBase cfg))
      (do { enabled \<leftarrow> ReadBit;
        (let h = h\<lparr>lf_DeltaEnabled := enabled\<rparr> in if \<not> enabled then State_Monad.return h
         else do {
           update \<leftarrow> ReadBit;
           if \<not> update then State_Monad.return h
           else do {
             refs \<leftarrow> read_array read_lf_delta (lf_RefDeltas h);
             modes \<leftarrow> read_array read_lf_delta (lf_ModeDeltas h);
             State_Monad.return (h\<lparr>lf_DeltaUpdate := True, lf_RefDeltas := refs, lf_ModeDeltas := modes\<rparr>)
           }
         })}) () (loop_filter_sent cfg prev)"
  proof (cases "c_LFDeltaEnabled cfg")
    case False
    then show ?thesis
      unfolding writeLoopFilterDeltas_def by (simp only: simp_thms if_True if_False)
        (rule codes_last [OF codes_bit0], simp add: h_def loop_filter_sent_def reads_return)
  next
    case en: True
    show ?thesis
    proof (cases "c_LFDeltaUpdate cfg")
      case False
      with en show ?thesis
        unfolding writeLoopFilterDeltas_def by (simp only: simp_thms if_True if_False Let_def)
          (rule codes_bind [OF codes_bit1], simp only: simp_thms if_True if_False,
            rule codes_last [OF codes_bit0], simp add: h_def loop_filter_sent_def reads_return, intro sticky_intros)
    next
      case True
      have hs: "lf_RefDeltas (h\<lparr>lf_DeltaEnabled := True\<rparr>) = lf_RefDeltas prev" "lf_ModeDeltas (h\<lparr>lf_DeltaEnabled := True\<rparr>) = lf_ModeDeltas prev"
        by (simp_all add: h_def)
      have st: "sticky (write_array (\<lambda>(delta, base). writeLoopFilterDelta delta (f \<or> delta \<noteq> base)) xs)" for f xs
        by (rule sticky_write_array) (auto intro: sticky_intros)
      have res: "loop_filter_sent cfg prev = h\<lparr>lf_DeltaEnabled := True, lf_DeltaUpdate := True,
        lf_RefDeltas := map (\<lambda>i. sent_delta (c_LFDeltaForceUpdateAll cfg) (c_RefLFDeltas cfg ! i) (c_RefLFDeltasBase cfg ! i) (lf_RefDeltas prev ! i)) [0..<4],
        lf_ModeDeltas := map (\<lambda>i. sent_delta (c_LFDeltaForceUpdateAll cfg) (c_ModeLFDeltas cfg ! i) (c_ModeLFDeltasBase cfg ! i) (lf_ModeDeltas prev ! i)) [0..<4]\<rparr>"
        using en True by (simp add: h_def loop_filter_sent_def)
      show ?thesis
        unfolding writeLoopFilterDeltas_def res Let_def using en True
        by (simp only: simp_thms if_True if_False)
          (rule codes_bind [OF codes_bit1], simp only: simp_thms if_True if_False,
            rule codes_bind [OF codes_bit1], simp only: simp_thms if_True if_False hs,
            rule codes_bind [OF refs], rule codes_post [OF modes], intro st, intro sticky_intros st, intro sticky_intros st)
    qed
  qed
  have lits: "codes (wr (\<lambda>w. WriteLiteral w (ucast (c_LoopFilterLevel cfg)) 6)) (ReadLiteral 6) () (ucast (c_LoopFilterLevel cfg))"
    "codes (wr (\<lambda>w. WriteLiteral w (ucast (c_SharpnessLevel cfg)) 3)) (ReadLiteral 3) () (ucast (c_SharpnessLevel cfg))"
    using codes_small [OF lvl(1)] codes_small [OF lvl(2)] by simp_all
  note d' = deltas [unfolded h_def LoopFilterHeader.update_convs]
  show ?thesis
    unfolding parseLoopFilterHeaderWithPrevious_def
    by (rule codes_assoc, rule codes_bind [OF codes_flag], rule codes_assoc, rule codes_bind [OF lits(1)],
        rule codes_assoc, rule codes_bind [OF lits(2)], simp only: u, rule codes_bind [OF d'])
      (use assms(6,7) in \<open>simp_all add: sticky_intros\<close>)
qed

section \<open>Quantizer\<close>

definition quant_sent :: "'a StateConfig_scheme \<Rightarrow> QuantHeader \<Rightarrow> QuantHeader" where
  "quant_sent cfg previous =
     (let d = c_QuantDeltas cfg;
          y1dc = word_of_int (qd_Y1DC d); y2dc = word_of_int (qd_Y2DC d); y2ac = word_of_int (qd_Y2AC d);
          uvdc = word_of_int (qd_UVDC d); uvac = word_of_int (qd_UVAC d)
      in \<lparr>qh_BaseQIndex = c_BaseQIndex cfg, qh_Y1DCDelta = y1dc, qh_Y2DCDelta = y2dc, qh_Y2ACDelta = y2ac,
           qh_UVDCDelta = uvdc, qh_UVACDelta = uvac,
           qh_Updated = (y1dc \<noteq> qh_Y1DCDelta previous \<or> y2dc \<noteq> qh_Y2DCDelta previous \<or> y2ac \<noteq> qh_Y2ACDelta previous \<or>
             uvdc \<noteq> qh_UVDCDelta previous \<or> uvac \<noteq> qh_UVACDelta previous)\<rparr>)"

lemma sticky_writeQuantDelta [sticky_intros]: "sticky (writeQuantDelta d)"
  unfolding writeQuantDelta_def by (intro sticky_intros)

lemma sticky_writeQuantDeltas [sticky_intros]: "sticky (writeQuantDeltas d)"
  unfolding writeQuantDeltas_def by (intro sticky_intros)

lemma codes_quant_delta:
  assumes "validQuantDelta d"
  shows "codes (writeQuantDelta d) (readDeltaQ prev upd) () (word_of_int d, upd \<or> word_of_int d \<noteq> prev)"
proof (cases "d = 0")
  case True
  then show ?thesis
    unfolding writeQuantDelta_def readDeltaQ_def
    by (simp only: simp_thms if_True) (rule codes_last [OF codes_bit0], auto simp: reads_return)
next
  case False
  have b: "\<bar>d\<bar> < 2 ^ 4" using assms by (auto simp: validQuantDelta_def)
  define L where "L = (\<lambda>m. wr (\<lambda>w. WriteLiteral w m 4))"
  define B where "B = (\<lambda>b. wr (\<lambda>w. WriteBit w b))"
  have w: "(if d < 0 then do { L (word_of_int (- d)); B 1 } else do { L (word_of_int d); B 0 })
      = do { L (word_of_int \<bar>d\<bar>); (if d < 0 then B 1 else B 0) }" by simp
  have "codes (do { L (word_of_int \<bar>d\<bar>); (if d < 0 then B 1 else B 0) }) (readSignedLiteral 4) () (word_of_int d)"
    using codes_magnitude [OF b] unfolding L_def B_def readSignedLiteral_def by (simp only: of_nat_numeral)
  from codes_post [OF this, of "\<lambda>v. (v, if v \<noteq> prev then True else upd)"]
  have "codes (if d < 0 then do { L (word_of_int (- d)); B 1 } else do { L (word_of_int d); B 0 })
      (do { v \<leftarrow> readSignedLiteral 4; State_Monad.return (v, if v \<noteq> prev then True else upd) }) ()
      (word_of_int d, upd \<or> word_of_int d \<noteq> prev)"
    unfolding w by (auto split: if_split_asm)
  then show ?thesis
    unfolding writeQuantDelta_def readDeltaQ_def L_def B_def using False
    by (simp only: simp_thms if_False) (rule codes_bind [OF codes_bit1], simp only: if_True, intro sticky_intros)
qed

lemma codes_quant:
  assumes "validQuantDeltas (c_QuantDeltas cfg)" "c_BaseQIndex cfg \<le> 127"
  shows "codes (do { wr (\<lambda>w. WriteLiteral w (ucast (c_BaseQIndex cfg)) 7); writeQuantDeltas (c_QuantDeltas cfg) })
    (parseQuantHeader prev) () (quant_sent cfg prev)"
proof -
  have q: "unat (c_BaseQIndex cfg) < 2 ^ 7" using assms(2) by (simp add: word_le_nat_alt)
  have base: "codes (wr (\<lambda>w. WriteLiteral w (ucast (c_BaseQIndex cfg)) 7)) (ReadLiteral 7) () (ucast (c_BaseQIndex cfg))"
    using codes_small [OF q] by simp
  have u: "ucast (ucast p :: u32) = (p :: byte)" for p by (rule bit_word_eqI) (simp add: bit_ucast_iff)
  note v = assms(1) [unfolded validQuantDeltas_def, THEN conjunct1] assms(1) [unfolded validQuantDeltas_def, THEN conjunct2, THEN conjunct1]
    assms(1) [unfolded validQuantDeltas_def, THEN conjunct2, THEN conjunct2, THEN conjunct1]
    assms(1) [unfolded validQuantDeltas_def, THEN conjunct2, THEN conjunct2, THEN conjunct2, THEN conjunct1]
    assms(1) [unfolded validQuantDeltas_def, THEN conjunct2, THEN conjunct2, THEN conjunct2, THEN conjunct2]
  show ?thesis
    unfolding parseQuantHeader_def writeQuantDeltas_def quant_sent_def Let_def
    by (rule codes_bind [OF base], rule codes_bind [OF codes_quant_delta [OF v(1)]], simp only: fst_conv snd_conv,
        rule codes_bind [OF codes_quant_delta [OF v(2)]], simp only: fst_conv snd_conv,
        rule codes_bind [OF codes_quant_delta [OF v(3)]], simp only: fst_conv snd_conv,
        rule codes_bind [OF codes_quant_delta [OF v(4)]], simp only: fst_conv snd_conv,
        rule codes_last [OF codes_quant_delta [OF v(5)]], simp only: u simp_thms disj_assoc fst_conv snd_conv reads_return) (intro sticky_intros)+
qed

section \<open>Coefficient probabilities\<close>

definition flat :: "'a list list list list \<Rightarrow> 'a list" where
  "flat t = concat (map (\<lambda>b. concat (map concat b)) t)"

definition coef_shape :: "'a list list list list \<Rightarrow> bool" where
  "coef_shape t \<longleftrightarrow> length t = BlockTypes \<and> list_all (\<lambda>b. length b = CoefBands \<and>
     list_all (\<lambda>c. length c = PrevCoefContexts \<and> list_all (\<lambda>n. length n = EntropyNodes) c) b) t"

lemma coef_update_shape: "coef_shape CoefUpdateProbs"
  by code_simp

lemma length_flat_update: "length coefUpdateProbsFlat = 1056"
  by code_simp

text \<open>A loop over a nested array is the loop over its concatenation.\<close>

lemma write_checked_append:
  "write_checked f (xs @ ys) = do { e \<leftarrow> write_checked f xs; if e \<noteq> None then State_Monad.return e else write_checked f ys }"
proof (induction xs)
  case (Cons x xs)
  then show ?case by (auto intro!: arg_cong [where f = "(\<bind>) (f x)"] simp: fun_eq_iff)
qed simp

lemma write_checked_concat: "write_checked (\<lambda>x. write_checked f (g x)) xs = write_checked f (concat (map g xs))"
  by (induction xs) (simp_all add: write_checked_append cong: if_cong)

lemma zip3_concat:
  assumes "length us = n" "length ps = n" "length ts = n"
    "\<And>u p t. u \<in> set us \<Longrightarrow> p \<in> set ps \<Longrightarrow> t \<in> set ts \<Longrightarrow> f (u, p, t) = zip3 (g u) (h p) (k t)"
    "\<And>u. u \<in> set us \<Longrightarrow> length (g u) = m" "\<And>p. p \<in> set ps \<Longrightarrow> length (h p) = m" "\<And>t. t \<in> set ts \<Longrightarrow> length (k t) = m"
  shows "concat (map f (zip3 us ps ts)) = zip3 (concat (map g us)) (concat (map h ps)) (concat (map k ts))"
proof -
  have "length us = length ps" "length ps = length ts" using assms(1-3) by simp_all
  then show ?thesis using assms(4-7)
  proof (induction us ps ts rule: list_induct3)
    case (Cons u us p ps t ts)
    have "concat (map f (zip3 us ps ts)) = zip3 (concat (map g us)) (concat (map h ps)) (concat (map k ts))"
      using Cons by simp
    moreover have "f (u, p, t) = zip3 (g u) (h p) (k t)" "length (g u) = m" "length (h p) = m" "length (k t) = m"
      using Cons.prems by simp_all
    ultimately show ?case by (simp add: zip3_def)
  qed (simp add: zip3_def)
qed

lemma shape_lengths:
  assumes "coef_shape t" "b \<in> set t"
  shows "length b = CoefBands" and "length (concat (map concat b)) = 264"
    and "c \<in> set b \<Longrightarrow> length c = PrevCoefContexts" and "c \<in> set b \<Longrightarrow> length (concat c) = 33"
    and "c \<in> set b \<Longrightarrow> n \<in> set c \<Longrightarrow> length n = EntropyNodes"
proof -
  have b: "length b = CoefBands" and c: "\<forall>c\<in>set b. length c = PrevCoefContexts \<and> (\<forall>n\<in>set c. length n = EntropyNodes)"
    using assms by (auto simp: coef_shape_def list_all_iff)
  have cl: "length (concat c) = 33" if "c \<in> set b" for c
  proof -
    have "map length c = map (\<lambda>_. EntropyNodes) c" using c that by simp
    then show ?thesis using c that by (simp add: length_concat sum_list_triv del: map_eq_conv)
  qed
  have "map length (map concat b) = map (\<lambda>_. 33) b" using cl by simp
  then have "length (concat (map concat b)) = 264" using b by (simp only: length_concat sum_list_triv) simp
  then show "length b = CoefBands" "length (concat (map concat b)) = 264" "c \<in> set b \<Longrightarrow> length c = PrevCoefContexts"
    "c \<in> set b \<Longrightarrow> length (concat c) = 33" "c \<in> set b \<Longrightarrow> n \<in> set c \<Longrightarrow> length n = EntropyNodes"
    using b c cl by simp_all
qed

lemma write_checked_zip3:
  "write_checked (\<lambda>(u, p, t). write_checked f (h u p t)) xs = write_checked f (concat (map (\<lambda>x. case x of (u, p, t) \<Rightarrow> h u p t) xs))"
proof -
  have "(\<lambda>(u, p, t). write_checked f (h u p t)) = (\<lambda>x. write_checked f (case x of (u, p, t) \<Rightarrow> h u p t))"
    by (auto simp: fun_eq_iff)
  then show ?thesis by (simp only: write_checked_concat)
qed

lemma writes_coefs_flat:
  assumes "coef_shape (cu_Update updates)" "coef_shape (cu_Probs updates)"
  shows "write_checked (\<lambda>(u, p, t). write_checked (\<lambda>(u, p, t). write_checked (\<lambda>(u, p, t).
            write_checked write_coef_update (zip3 u p t)) (zip3 u p t)) (zip3 u p t))
          (zip3 (cu_Update updates) (cu_Probs updates) CoefUpdateProbs)
    = write_checked write_coef_update (zip3 (flat (cu_Update updates)) (flat (cu_Probs updates)) coefUpdateProbsFlat)"
proof -
  define Z where "Z = (\<lambda>x :: bool list \<times> byte list \<times> byte list. case x of (u, p, t) \<Rightarrow> zip3 u p t)"
  have node: "concat (map Z (zip3 u p t)) = zip3 (concat u) (concat p) (concat t)"
    if "length u = 3" "length p = 3" "length t = 3"
      "\<forall>n\<in>set u. length n = 11" "\<forall>n\<in>set p. length n = 11" "\<forall>n\<in>set t. length n = 11" for u p t
    using zip3_concat [of u 3 p t Z id id id 11] that by (simp add: Z_def)
  have band: "concat (map (\<lambda>x. case x of (u, p, t) \<Rightarrow> concat (map Z (zip3 u p t))) (zip3 u p t)) =
      zip3 (concat (map concat u)) (concat (map concat p)) (concat (map concat t))"
    if "u \<in> set (cu_Update updates)" "p \<in> set (cu_Probs updates)" "t \<in> set CoefUpdateProbs" for u p t
    using shape_lengths [OF assms(1) that(1)] shape_lengths [OF assms(2) that(2)] shape_lengths [OF coef_update_shape that(3)]
    by (intro zip3_concat [where n = 8 and m = 33]) (simp_all add: node)
  have "concat (map (\<lambda>x. case x of (u, p, t) \<Rightarrow> concat (map (\<lambda>x. case x of (u, p, t) \<Rightarrow> concat (map Z (zip3 u p t))) (zip3 u p t)))
        (zip3 (cu_Update updates) (cu_Probs updates) CoefUpdateProbs)) =
      zip3 (flat (cu_Update updates)) (flat (cu_Probs updates)) coefUpdateProbsFlat"
    unfolding flat_def coefUpdateProbsFlat_def
    using assms coef_update_shape shape_lengths(2) [OF assms(1)] shape_lengths(2) [OF assms(2)] shape_lengths(2) [OF coef_update_shape]
    by (intro zip3_concat [where n = 4 and m = 264]) (simp_all add: band coef_shape_def)
  then show ?thesis
    unfolding write_checked_zip3 Z_def by (simp only:)
qed

text \<open>What the scan leaves of the table, the count and the context flag.\<close>

fun coef_result :: "nat \<Rightarrow> (bool \<times> byte) list \<Rightarrow> byte list option \<Rightarrow> nat \<Rightarrow> bool \<Rightarrow> byte list option \<times> nat \<times> bool" where
  "coef_result i [] probs n ind = (probs, n, ind)"
| "coef_result i ((u, p) # xs) probs n ind =
     coef_result (i + 1) xs (if u then map_option (\<lambda>t. t[i := p]) probs else probs) (if u then n + 1 else n)
       (ind \<or> u \<and> i div EntropyNodes mod PrevCoefContexts \<noteq> 0)"

lemma sticky_write_coef_update [sticky_intros]: "sticky (write_coef_update x)"
  unfolding write_coef_update_def by (cases x) (auto intro!: sticky_intros)

lemma codes_coef_loop:
  assumes "\<forall>x\<in>set xs. fst x \<longrightarrow> fst (snd x) \<noteq> 0"
  shows "codes (write_checked write_coef_update xs)
    (coef_update_spec (map (\<lambda>x. snd (snd x)) xs) i EntropyNodes PrevCoefContexts probs n ind) None
    (coef_result i (map (\<lambda>x. (fst x, fst (snd x))) xs) probs n ind)"
  using assms
proof (induction xs arbitrary: i probs n ind)
  case Nil
  then show ?case by (simp add: codes_return)
next
  case (Cons x xs)
  obtain u p t where x: "x = (u, p, t)" by (metis prod_cases3)
  have rest: "codes (write_checked write_coef_update xs)
      (coef_update_spec (map (\<lambda>x. snd (snd x)) xs) (i + 1) EntropyNodes PrevCoefContexts probs' n' ind') None
      (coef_result (i + 1) (map (\<lambda>x. (fst x, fst (snd x))) xs) probs' n' ind')" for probs' n' ind'
    using Cons by simp
  show ?case
  proof (cases u)
    case True
    have "p \<noteq> 0" using Cons.prems True by (simp add: x)
    have b: "ucast (ucast p :: u32) = p" by (rule bit_word_eqI) (simp add: bit_ucast_iff)
    have bool1: "codes (wr (\<lambda>w. WriteBool w 1 t)) (ReadBool t) () True" using codes_bool [of True t] by simp
    have lit: "codes (wr (\<lambda>w. WriteLiteral w (ucast p) 8)) (ReadLiteral 8) () (ucast p)"
      using codes_small [of p 8] unat_byte_lt [of p] by simp
    have w: "write_coef_update (u, p, t) = do {
        wr (\<lambda>w. WriteBool w 1 t); wr (\<lambda>w. WriteLiteral w (ucast p) 8); State_Monad.return None }"
      using True \<open>p \<noteq> 0\<close> by (simp add: write_coef_update_def)
    show ?thesis
      unfolding x list.map write_checked.simps coef_update_spec.simps w fst_conv snd_conv coef_result.simps
      using True
      by (simp only: simp_thms if_True if_False)
        (rule codes_assoc_left, rule codes_bind [OF bool1], simp only: simp_thms if_True if_False,
          rule codes_assoc_left, rule codes_bind [OF lit], rule codes_ret_left, simp only: simp_thms if_True if_False b rest,
          intro sticky_intros sticky_write_checked, intro sticky_intros sticky_write_checked)
  next
    case False
    have bool0: "codes (wr (\<lambda>w. WriteBool w 0 t)) (ReadBool t) () False" using codes_bool [of False t] by simp
    have w: "write_coef_update (u, p, t) = do { wr (\<lambda>w. WriteBool w 0 t); State_Monad.return None }"
      using False by (simp add: write_coef_update_def)
    show ?thesis
      unfolding x list.map write_checked.simps coef_update_spec.simps w fst_conv snd_conv coef_result.simps
      using False
      by (simp only: simp_thms if_True if_False)
        (rule codes_assoc_left, rule codes_bind [OF bool0], simp only: simp_thms if_True if_False, rule codes_ret_left,
          simp only: simp_thms if_True if_False rest, intro sticky_intros sticky_write_checked)
  qed
qed

definition scan_table :: "nat \<Rightarrow> (bool \<times> byte) list \<Rightarrow> byte list \<Rightarrow> byte list" where
  "scan_table i xs t = map (\<lambda>j. if i \<le> j \<and> j < i + length xs \<and> fst (xs ! (j - i)) then snd (xs ! (j - i)) else t ! j) [0..<length t]"

lemma scan_table_Nil: "scan_table i [] t = t"
  unfolding scan_table_def by (intro nth_equalityI) auto

lemma scan_table_Cons: "scan_table (i + 1) xs (if u then t[i := p] else t) = scan_table i ((u, p) # xs) t"
proof (rule nth_equalityI)
  fix j assume "j < length (scan_table (i + 1) xs (if u then t[i := p] else t))"
  then have j: "j < length t" by (simp add: scan_table_def split: if_split_asm)
  consider "j < i" | "j = i" | k where "j = Suc (i + k)" by (metis less_iff_Suc_add linorder_neqE_nat)
  then show "scan_table (i + 1) xs (if u then t[i := p] else t) ! j = scan_table i ((u, p) # xs) t ! j"
    using j by cases (auto simp: scan_table_def nth_Cons')
qed (simp add: scan_table_def)

lemma coef_result_closed:
  "coef_result i xs probs n ind = (map_option (scan_table i xs) probs, n + length (filter fst xs),
     ind \<or> (\<exists>j<length xs. fst (xs ! j) \<and> (i + j) div EntropyNodes mod PrevCoefContexts \<noteq> 0))"
proof (induction xs arbitrary: i probs n ind)
  case Nil
  have "scan_table i [] = (\<lambda>t. t)" by (rule ext) (rule scan_table_Nil)
  then show ?case by (simp add: option.map_ident)
next
  case (Cons x xs)
  obtain u p where x: "x = (u, p)" by (cases x)
  have ex: "(\<exists>j<length ((u, p) # xs). fst (((u, p) # xs) ! j) \<and> (i + j) div EntropyNodes mod PrevCoefContexts \<noteq> 0) \<longleftrightarrow>
      (u \<and> i div EntropyNodes mod PrevCoefContexts \<noteq> 0) \<or> (\<exists>j<length xs. fst (xs ! j) \<and> (i + 1 + j) div EntropyNodes mod PrevCoefContexts \<noteq> 0)"
    by (simp only: Ex_less_Suc2 length_Cons nth_Cons_0 nth_Cons_Suc fst_conv add_0_right) simp
  have "map_option (scan_table (i + 1) xs) (if u then map_option (\<lambda>t. t[i := p]) probs else probs) = map_option (scan_table i ((u, p) # xs)) probs"
    using scan_table_Cons [of i xs u _ p] by (cases probs; cases u) auto
  moreover have "(if u then n + 1 else n) + length (filter fst xs) = n + length (filter fst ((u, p) # xs))" by simp
  ultimately show ?case
    unfolding x coef_result.simps Cons.IH ex by (simp only: disj_assoc)
qed

definition coef_sent :: "CoefficientProbabilityUpdates \<Rightarrow> byte list option \<Rightarrow> byte list option \<times> CoefficientProbabilityHeader" where
  "coef_sent updates probs =
     (map_option (\<lambda>t. map (\<lambda>j. if flat (cu_Update updates) ! j then flat (cu_Probs updates) ! j else t ! j) [0..<1056]) probs,
      \<lparr>ph_UpdateCount = length (filter id (flat (cu_Update updates))),
       ph_IndependentPartitions = (\<forall>j<1056. flat (cu_Update updates) ! j \<longrightarrow> j div EntropyNodes mod PrevCoefContexts = 0)\<rparr>)"

lemma length_flat:
  assumes "coef_shape t"
  shows "length (flat t) = 1056"
proof -
  have "map length (map (\<lambda>b. concat (map concat b)) t) = map (\<lambda>_. 264) t"
    using shape_lengths(2) [OF assms] by simp
  moreover have "length t = BlockTypes" using assms by (simp add: coef_shape_def)
  ultimately show ?thesis unfolding flat_def by (simp only: length_concat sum_list_triv) simp
qed

lemma sticky_zip3: "(\<And>x. sticky (f x)) \<Longrightarrow> sticky (case x of (u, p, t) \<Rightarrow> write_checked f (zip3 u p t))"
  using sticky_write_checked by (cases x) fastforce

lemma sticky_WriteCoefficientProbabilityUpdates [sticky_intros]: "sticky (WriteCoefficientProbabilityUpdates u)"
  unfolding WriteCoefficientProbabilityUpdates_def
  by (intro sticky_intros sticky_write_checked sticky_zip3)

lemma codes_coefficients:
  assumes "coef_shape (cu_Update updates)" "coef_shape (cu_Probs updates)"
    "\<forall>j<1056. flat (cu_Update updates) ! j \<longrightarrow> flat (cu_Probs updates) ! j \<noteq> 0" "\<forall>t. probs = Some t \<longrightarrow> length t = 1056"
  shows "codes (WriteCoefficientProbabilityUpdates updates) (parseCoefficientProbabilityHeaderInto probs) None (coef_sent updates probs)"
proof -
  define us where "us = flat (cu_Update updates)"
  define ps where "ps = flat (cu_Probs updates)"
  define xs where "xs = zip3 us ps coefUpdateProbsFlat"
  have len: "length us = 1056" "length ps = 1056" "length coefUpdateProbsFlat = 1056" "length xs = 1056"
    using length_flat [OF assms(1)] length_flat [OF assms(2)] length_flat_update by (simp_all add: us_def ps_def xs_def zip3_def)
  have nz: "\<forall>x\<in>set xs. fst x \<longrightarrow> fst (snd x) \<noteq> 0"
    using assms(3) len by (auto simp: xs_def zip3_def in_set_zip us_def [symmetric] ps_def [symmetric])
  have tab: "map (\<lambda>x. snd (snd x)) xs = coefUpdateProbsFlat" "map (\<lambda>x. (fst x, fst (snd x))) xs = zip us ps"
    using len by (auto simp: xs_def zip3_def intro: nth_equalityI)
  have ind: "(\<exists>j<length (zip us ps). fst (zip us ps ! j) \<and> (0 + j) div EntropyNodes mod PrevCoefContexts \<noteq> 0) \<longleftrightarrow>
      \<not> (\<forall>j<1056. us ! j \<longrightarrow> j div EntropyNodes mod PrevCoefContexts = 0)" using len by auto
  have cnt: "length (filter fst (zip us ps)) = length (filter id us)"
    using len by (metis (no_types) comp_id filter_map id_comp length_map map_fst_zip)
  have pr: "map_option (scan_table 0 (zip us ps)) probs = map_option (\<lambda>t. map (\<lambda>j. if us ! j then ps ! j else t ! j) [0..<1056]) probs"
    using assms(4) len by (cases probs) (auto simp: scan_table_def)
  have "codes (write_checked write_coef_update xs) (coef_update_spec coefUpdateProbsFlat 0 EntropyNodes PrevCoefContexts probs 0 False) None
      (coef_result 0 (zip us ps) probs 0 False)"
    using codes_coef_loop [OF nz] unfolding tab .
  then have scan: "codes (write_checked write_coef_update xs) (ReadCoefUpdateProbsInto coefUpdateProbsFlat probs EntropyNodes PrevCoefContexts) None
      (map_option (\<lambda>t. map (\<lambda>j. if us ! j then ps ! j else t ! j) [0..<1056]) probs, length (filter id us),
       \<not> (\<forall>j<1056. us ! j \<longrightarrow> j div EntropyNodes mod PrevCoefContexts = 0))"
    unfolding ReadCoefUpdateProbsInto_def coef_result_closed ind cnt pr by (simp add: codes_same same_coef_update)
  show ?thesis
    unfolding WriteCoefficientProbabilityUpdates_def parseCoefficientProbabilityHeaderInto_def coef_sent_def
      writes_coefs_flat [OF assms(1,2)] us_def [symmetric] ps_def [symmetric] xs_def [symmetric]
    by (rule codes_bind [OF scan], simp only: fst_conv snd_conv not_not simp_thms if_False codes_return_err) (intro sticky_intros)
qed

section \<open>State headers\<close>

lemma ucast_byte_u32: "ucast (ucast p :: u32) = (p :: byte)"
  by (rule bit_word_eqI) (simp add: bit_ucast_iff)

lemma codes_byte8: "codes (wr (\<lambda>w. WriteLiteral w (ucast p) 8)) (ReadLiteral 8) () (ucast (p :: byte))"
  using codes_small [of p 8] unat_byte_lt [of p] by simp

definition common_ok :: "'a StateConfig_scheme \<Rightarrow> bool" where
  "common_ok cfg \<longleftrightarrow> c_LoopFilterLevel cfg \<le> 63 \<and> c_SharpnessLevel cfg \<le> 7 \<and> c_TokenPartition cfg \<le> 3 \<and> c_BaseQIndex cfg \<le> 127 \<and>
     validQuantDeltas (c_QuantDeltas cfg) \<and> validSegmentationConfig (c_Segmentation cfg) \<and>
     segmentation_shape (c_Segmentation cfg) \<and> lf_config_ok cfg"

lemma sticky_write_state_common [sticky_intros]: "sticky (write_state_common cfg)"
  unfolding write_state_common_def by (intro sticky_intros)

lemma codes_state_common:
  assumes "common_ok cfg" "length (lf_RefDeltas prev) = 4" "length (lf_ModeDeltas prev) = 4" "\<And>e. sticky (K e)"
    "codes (K None) (R (segmentation_sent (c_Segmentation cfg)) (loop_filter_sent cfg prev) (ucast (c_TokenPartition cfg)) (quant_sent cfg pq)) r s"
  shows "codes (write_state_common cfg \<bind> K)
    (do { segmentation \<leftarrow> parseSegmentationHeader; filter \<leftarrow> parseLoopFilterHeaderWithPrevious prev; partition \<leftarrow> ReadLiteral 2;
          quant \<leftarrow> parseQuantHeader pq; R segmentation filter partition quant }) r s"
proof -
  have ok: "c_LoopFilterLevel cfg \<le> 63" "c_SharpnessLevel cfg \<le> 7" "c_TokenPartition cfg \<le> 3" "c_BaseQIndex cfg \<le> 127"
    "validQuantDeltas (c_QuantDeltas cfg)" "validSegmentationConfig (c_Segmentation cfg)" "segmentation_shape (c_Segmentation cfg)" "lf_config_ok cfg"
    using assms(1) by (simp_all add: common_ok_def)
  have tp: "codes (wr (\<lambda>w. WriteLiteral w (ucast (c_TokenPartition cfg)) 2)) (ReadLiteral 2) () (ucast (c_TokenPartition cfg))"
    using codes_small [of "c_TokenPartition cfg" 2] ok(3) by (simp add: word_le_nat_alt)
  define Q where "Q = do { wr (\<lambda>w. WriteLiteral w (ucast (c_BaseQIndex cfg)) 7); writeQuantDeltas (c_QuantDeltas cfg) }"
  have q: "codes Q (parseQuantHeader pq) () (quant_sent cfg pq)" unfolding Q_def using ok(4,5) by (intro codes_quant)
  have rest: "codes (do { wr (\<lambda>w. WriteLiteral w (ucast (c_TokenPartition cfg)) 2); Q; K None })
      (do { partition \<leftarrow> ReadLiteral 2; quant \<leftarrow> parseQuantHeader pq;
            R (segmentation_sent (c_Segmentation cfg)) (loop_filter_sent cfg prev) partition quant }) r s"
    by (rule codes_bind [OF tp], rule codes_bind [OF q], rule assms(5)) (simp_all add: assms(4) Q_def sticky_intros)
  have st: "sticky (do { wr (\<lambda>w. WriteLiteral w (ucast (c_TokenPartition cfg)) 2); Q; K None })"
    unfolding Q_def by (intro sticky_intros assms(4))
  have lf: "codes (do {
      (if c_SimpleLoopFilter cfg then wr (\<lambda>w. WriteBit w 1) else wr (\<lambda>w. WriteBit w 0));
      wr (\<lambda>w. WriteLiteral w (ucast (c_LoopFilterLevel cfg)) 6);
      wr (\<lambda>w. WriteLiteral w (ucast (c_SharpnessLevel cfg)) 3);
      writeLoopFilterDeltas (c_LFDeltaEnabled cfg) (c_LFDeltaUpdate cfg) (c_LFDeltaForceUpdateAll cfg)
         (c_RefLFDeltas cfg) (c_ModeLFDeltas cfg) (c_RefLFDeltasBase cfg) (c_ModeLFDeltasBase cfg);
      (do { wr (\<lambda>w. WriteLiteral w (ucast (c_TokenPartition cfg)) 2); Q; K None })})
     (parseLoopFilterHeaderWithPrevious prev \<bind> (\<lambda>filter. do { partition \<leftarrow> ReadLiteral 2; quant \<leftarrow> parseQuantHeader pq;
            R (segmentation_sent (c_Segmentation cfg)) filter partition quant })) r s"
    using ok(1,2,8) assms(2,3) rest st by (intro codes_loop_filter)
  show ?thesis
    unfolding write_state_common_def
    by (rule codes_assoc_left, rule codes_bind [OF codes_segmentation [OF ok(6,7)]], simp only: simp_thms if_False)
      (use lf in \<open>simp add: Q_def\<close>, intro sticky_intros assms(4))
qed

text \<open>The probability updates a writer accepts: none of probability 0.\<close>

definition coefs_ok :: "CoefficientProbabilityUpdates \<Rightarrow> bool" where
  "coefs_ok updates \<longleftrightarrow> coef_shape (cu_Update updates) \<and> coef_shape (cu_Probs updates) \<and>
     (\<forall>j<1056. flat (cu_Update updates) ! j \<longrightarrow> flat (cu_Probs updates) ! j \<noteq> 0)"

definition key_state_sent :: "KeyFrameStateConfig \<Rightarrow> QuantHeader \<Rightarrow> StateHeader" where
  "key_state_sent cfg previousQuant = \<lparr>st_ColorSpace = 0, st_ClampType = k_ClampType cfg,
     st_Segmentation = segmentation_sent (c_Segmentation cfg), st_LoopFilter = loop_filter_sent cfg no_loop_filter,
     st_TokenPartition = c_TokenPartition cfg, st_Quant = quant_sent cfg previousQuant,
     st_Refresh = \<lparr>rh_RefreshLast = True, rh_RefreshGolden = True, rh_RefreshAltRef = True, rh_CopyBufferToGolden = 0,
       rh_CopyBufferToAltRef = 0, rh_GoldenSignBias = False, rh_AltRefSignBias = False, rh_RefreshEntropyProbs = c_RefreshEntropyProbs cfg\<rparr>,
     st_Probability = snd (coef_sent (c_CoefficientProbs cfg) None),
     st_Mode = \<lparr>mh_MBNoCoeffSkip = c_MBNoCoeffSkip cfg, mh_ProbSkipFalse = (if c_MBNoCoeffSkip cfg then c_ProbSkipFalse cfg else 0),
       mh_ProbIntra = 0, mh_ProbLast = 0, mh_ProbGolden = 0, mh_YModeUpdated = False, mh_UVModeUpdated = False, mh_MVUpdateCount = 0\<rparr>\<rparr>"

lemma coef_sent_header: "snd (coef_sent u probs) = snd (coef_sent u None)"
  by (simp add: coef_sent_def)

lemma sticky_WriteKeyFrameStateHeader [sticky_intros]: "sticky (WriteKeyFrameStateHeader cfg)"
  unfolding WriteKeyFrameStateHeader_def by (intro sticky_intros)

lemma codes_skip:
  "codes (if skip then do { wr (\<lambda>w. WriteBit w 1); wr (\<lambda>w. WriteLiteral w (ucast p) 8) } else wr (\<lambda>w. WriteBit w 0))
    (do { skip \<leftarrow> ReadBit; probSkip \<leftarrow> (if skip then do { v \<leftarrow> ReadLiteral 8; State_Monad.return (ucast v) } else State_Monad.return 0);
          State_Monad.return (skip, probSkip) }) ()
    (skip, if skip then p else (0 :: byte))"
proof (cases skip)
  case True
  show ?thesis
    using True by (simp only: if_True) (rule codes_bind [OF codes_bit1], simp only: if_True, rule codes_post [OF codes_byte], intro sticky_intros)
next
  case False
  then show ?thesis by (simp only: if_False) (rule codes_last [OF codes_bit0], simp add: reads_return)
qed

definition default_probs :: "byte list" where
  "default_probs = flat DefaultCoefProbs"

lemma length_default_probs: "length default_probs = 1056"
  unfolding default_probs_def by (rule length_flat) code_simp

lemma codes_key_state:
  assumes "common_ok cfg" "k_ClampType cfg \<le> 1" "coefs_ok (c_CoefficientProbs cfg)" "FrameHeader_KeyFrame frame"
  shows "codes (WriteKeyFrameStateHeader cfg) (parse_state_bits frame previousQuant previousLoopFilter probs modeProbs) None
    (key_state_sent cfg previousQuant, fst (coef_sent (c_CoefficientProbs cfg) (map_option (\<lambda>_. default_probs) probs)),
     map_option (\<lambda>_. ResetModeProbs) modeProbs)"
proof -
  define dp where "dp = map_option (\<lambda>_. default_probs) probs"
  have valid: "validKeyFrameStateConfig cfg"
    using assms(1,2) by (simp add: validKeyFrameStateConfig_def common_ok_def)
  have clamp: "(of_bool (k_ClampType cfg \<noteq> 0) :: byte) = k_ClampType cfg"
  proof -
    have "unat (k_ClampType cfg) \<le> 1" using assms(2) by (simp add: word_le_nat_alt)
    then consider "unat (k_ClampType cfg) = 0" | "unat (k_ClampType cfg) = 1" by linarith
    then have "k_ClampType cfg = 0 \<or> k_ClampType cfg = 1" by cases (simp_all add: word_unat_eq_iff)
    then show ?thesis by auto
  qed
  have bits: "codes (wr (\<lambda>w. WriteBit w (k_ClampType cfg))) ReadBit () (k_ClampType cfg \<noteq> 0)"
    using codes_bit [of "k_ClampType cfg \<noteq> 0"] unfolding clamp .
  have fk: "fh_FrameType frame = KeyFrame" using assms(4) by (simp add: FrameHeader_KeyFrame_def)
  have coefs: "codes (WriteCoefficientProbabilityUpdates (c_CoefficientProbs cfg)) (parseCoefficientProbabilityHeaderInto dp) None
      (coef_sent (c_CoefficientProbs cfg) dp)"
    using assms(3) length_default_probs by (intro codes_coefficients) (auto simp: coefs_ok_def dp_def)
  have none: "length (lf_RefDeltas no_loop_filter) = 4" "length (lf_ModeDeltas no_loop_filter) = 4"
    by (simp_all add: no_loop_filter_def)
  define h where "h = (\<lambda>x :: bool \<times> byte. \<lparr>mh_MBNoCoeffSkip = fst x, mh_ProbSkipFalse = snd x, mh_ProbIntra = 0, mh_ProbLast = 0,
      mh_ProbGolden = 0, mh_YModeUpdated = False, mh_UVModeUpdated = False, mh_MVUpdateCount = 0\<rparr>)"
  have mode: "codes (if c_MBNoCoeffSkip cfg then do { wr (\<lambda>w. WriteBit w 1); wr (\<lambda>w. WriteLiteral w (ucast (c_ProbSkipFalse cfg)) 8) } else wr (\<lambda>w. WriteBit w 0))
      (parseModeHeaderInto True mp) () (mp, h (c_MBNoCoeffSkip cfg, if c_MBNoCoeffSkip cfg then c_ProbSkipFalse cfg else 0))" for mp
    using codes_post [OF codes_skip, of "c_MBNoCoeffSkip cfg" "c_ProbSkipFalse cfg" "\<lambda>x. (mp, h x)"]
    by (simp add: parseModeHeaderInto_def h_def Let_def)
  have key: "parse_state_bits frame previousQuant previousLoopFilter probs modeProbs = do {
        head \<leftarrow> (do { space \<leftarrow> ReadBit; clamp \<leftarrow> ReadBit; State_Monad.return (of_bool space, of_bool clamp) });
        segmentation \<leftarrow> parseSegmentationHeader;
        filter \<leftarrow> parseLoopFilterHeaderWithPrevious no_loop_filter;
        partition \<leftarrow> ReadLiteral 2;
        quant \<leftarrow> parseQuantHeader previousQuant;
        refresh \<leftarrow> parseRefreshHeader frame;
        probability \<leftarrow> parseCoefficientProbabilityHeaderInto dp;
        mode \<leftarrow> parseModeHeaderInto True (map_option (\<lambda>_. ResetModeProbs) modeProbs);
        State_Monad.return (\<lparr>st_ColorSpace = fst head, st_ClampType = snd head, st_Segmentation = segmentation,
          st_LoopFilter = filter, st_TokenPartition = ucast partition, st_Quant = quant, st_Refresh = refresh,
          st_Probability = snd probability, st_Mode = snd mode\<rparr>, fst probability, fst mode)
      }"
    using assms(4) by (simp add: parse_state_bits_def Let_def dp_def default_probs_def flat_def)
  show ?thesis
    unfolding key WriteKeyFrameStateHeader_def using valid
    by (simp only: simp_thms if_False)
      (rule codes_assoc, rule codes_bind [OF codes_bit0], rule codes_assoc, rule codes_bind [OF bits], rule codes_ret_right,
        rule codes_state_common [OF assms(1) none], intro sticky_intros, simp only: simp_thms if_False parseRefreshHeader_def fk if_True,
        rule codes_assoc, rule codes_bind [OF codes_flag], rule codes_ret_right, rule codes_bind [OF coefs],
        simp only: simp_thms if_False, rule codes_bind [OF mode], 
        simp add: codes_return_err key_state_sent_def h_def clamp ucast_byte_u32 coef_sent_header [of _ dp] flip: dp_def, (intro sticky_intros)+)
qed

definition key_config_shape :: "KeyFrameStateConfig \<Rightarrow> bool" where
  "key_config_shape cfg \<longleftrightarrow> segmentation_shape (c_Segmentation cfg) \<and> lf_config_ok cfg \<and>
     coef_shape (cu_Update (c_CoefficientProbs cfg)) \<and> coef_shape (cu_Probs (c_CoefficientProbs cfg))"

end
