(* ===== verification/Vp8_Mode_Codes.thy ===== *)
theory Vp8_Mode_Codes
  imports Vp8_Key_Modes Vp8_Header_Codes
begin

text \<open>
  Modes that arrive: tree tokens, segment ids and whole key-frame macroblocks, then any grid whose
  cells arrive (\<open>codes_grid\<close>).
\<close>

section \<open>Tokens\<close>

lemma codes_tree:
  assumes "BuildTreeToken tree token = Some t" "length tree \<le> 2 * length probs" "t_Len t \<le> length tree"
  shows "codes (WriteTreeToken tree probs t) (ReadTree tree probs) True (Some token)"
proof -
  obtain xs where p: "tree_path tree probs 0 (t_Value t) (t_Len t) = Some (xs, token)" and l: "t_Len t \<le> 32"
    using BuildTreeToken_path [OF assms(1,2)] by blast
  show ?thesis by (rule codesI [OF writes_WriteTreeToken [OF p l] reads_ReadTree [OF p assms(3)]])
qed

definition tree_covers :: "int list \<Rightarrow> nat \<Rightarrow> bool" where
  "tree_covers tree n \<longleftrightarrow> list_all (\<lambda>i. case BuildTreeToken tree (int i) of Some t \<Rightarrow> t_Len t \<le> length tree | None \<Rightarrow> False) [0..<n]"

lemma mode_trees_cover:
  "tree_covers KeyFrameYModeTree 5" "tree_covers YModeTree 5" "tree_covers UVModeTree 4" "tree_covers BModeTree 10"
  by code_simp+

lemma mode_tree_lengths:
  "length KeyFrameYModeTree = 8" "length YModeTree = 8" "length UVModeTree = 6" "length BModeTree = 18"
  by code_simp+

lemma codes_leaf:
  assumes "tree_covers tree n" "i < n" "length tree \<le> 2 * length probs"
  shows "codes (WriteTreeToken tree probs (tree_tokens tree n ! i)) (ReadTree tree probs) True (Some (int i))"
proof -
  have "case BuildTreeToken tree (int i) of Some t \<Rightarrow> t_Len t \<le> length tree | None \<Rightarrow> False"
    using assms(1,2) by (auto simp: tree_covers_def list_all_iff)
  then obtain t where "BuildTreeToken tree (int i) = Some t" "t_Len t \<le> length tree" by (auto split: option.splits)
  then show ?thesis using codes_tree [OF _ assms(3)] assms(2) by (simp add: tree_tokens_def)
qed

lemma the_leaf_Some [simp]: "the_leaf (Some v) = v"
  by (simp add: the_leaf_def)

lemma sticky_tree [sticky_intros]: "sticky (WriteTreeToken tree probs t)"
  by (rule sticky_WriteTreeToken)

lemma sticky_write_while: "(\<And>x. sticky (f x)) \<Longrightarrow> sticky (write_while f xs)"
  by (induction xs) (auto intro!: sticky_intros)

section \<open>Segment ids\<close>

lemma codes_not_err: "codes (do { e \<leftarrow> werr; State_Monad.return (\<not> e) }) (State_Monad.return s) True s"
  by (rule codes_werr) (use codes_return [of True s] in simp, intro sticky_intros)

lemma codes_WriteBool1: "codes (wr (\<lambda>w. WriteBool w 1 p)) (ReadBool p) () True"
  using codes_bool [of True p] by simp

lemma codes_WriteBool0: "codes (wr (\<lambda>w. WriteBool w 0 p)) (ReadBool p) () False"
  using codes_bool [of False p] by simp

lemma codes_writeFlag: "codes (wr (\<lambda>w. WriteBool w (if b then 1 else 0) p)) (ReadBool p) () b"
  using codes_WriteBool1 codes_WriteBool0 by (cases b) simp_all

lemma sticky_writeMacroblockSegmentID [sticky_intros]: "sticky (writeMacroblockSegmentID probs s)"
  unfolding writeMacroblockSegmentID_def by (intro sticky_intros)

lemma byte_below_four: "s < (4 :: byte) \<Longrightarrow> s = 0 \<or> s = 1 \<or> s = 2 \<or> s = 3"
proof -
  assume "s < 4"
  then have "unat s < 4" by (simp add: word_less_nat_alt)
  then consider "unat s = 0" | "unat s = 1" | "unat s = 2" | "unat s = 3" by linarith
  then show ?thesis by cases (simp_all add: word_unat_eq_iff)
qed

lemma codes_segment_id:
  assumes "s < 4"
  shows "codes (writeMacroblockSegmentID probs s) (readMacroblockSegmentID probs) True s"
proof -
  have two: "codes (do { wr (\<lambda>w. WriteBool w (if a then 1 else 0) p); wr (\<lambda>w. WriteBool w (if b then 1 else 0) q); e \<leftarrow> werr; State_Monad.return (\<not> e) })
      (do { x \<leftarrow> ReadBool p; y \<leftarrow> ReadBool q; State_Monad.return (g x y) }) True (g a b)" for a b p q and g :: "bool \<Rightarrow> bool \<Rightarrow> byte"
    by (rule codes_bind [OF codes_writeFlag], rule codes_bind [OF codes_writeFlag], rule codes_not_err, (intro sticky_intros)+)
  have r: "readMacroblockSegmentID probs = do {
      x \<leftarrow> ReadBool (probs ! 0);
      (if x then do { y \<leftarrow> ReadBool (probs ! 2); State_Monad.return (2 + of_bool y) }
       else do { y \<leftarrow> ReadBool (probs ! 1); State_Monad.return (of_bool y) }) }"
    by (simp add: readMacroblockSegmentID_def)
  have hi: "codes (do { wr (\<lambda>w. WriteBool w 1 (probs ! 0)); wr (\<lambda>w. WriteBool w (if b then 1 else 0) (probs ! 2)); e \<leftarrow> werr; State_Monad.return (\<not> e) })
      (readMacroblockSegmentID probs) True (2 + of_bool b)" for b
    unfolding r by (rule codes_bind [OF codes_WriteBool1], simp only: if_True, rule codes_bind [OF codes_writeFlag], rule codes_not_err, (intro sticky_intros)+)
  have lo: "codes (do { wr (\<lambda>w. WriteBool w 0 (probs ! 0)); wr (\<lambda>w. WriteBool w (if b then 1 else 0) (probs ! 1)); e \<leftarrow> werr; State_Monad.return (\<not> e) })
      (readMacroblockSegmentID probs) True (of_bool b)" for b
    unfolding r by (rule codes_bind [OF codes_WriteBool0], simp only: if_False, rule codes_bind [OF codes_writeFlag], rule codes_not_err, (intro sticky_intros)+)
  have "\<not> (4 :: byte) \<le> 1" by (simp add: word_le_nat_alt)
  then show ?thesis
    using byte_below_four [OF assms] hi [of True] hi [of False] lo [of True] lo [of False]
    by (elim disjE) (simp_all add: writeMacroblockSegmentID_def)
qed

section \<open>The start of a macroblock\<close>

text \<open>What the decoder makes of the segment id, given what it held at this place before.\<close>

definition segment_sent :: "SegmentationConfig \<Rightarrow> byte \<Rightarrow> byte \<Rightarrow> byte" where
  "segment_sent cfg old s = (if sc_Enabled cfg then if sc_UpdateMap cfg then s else old else 0)"

definition mb_start_sent :: "SegmentationConfig \<Rightarrow> bool \<Rightarrow> byte \<Rightarrow> bool \<Rightarrow> MacroblockMode \<Rightarrow> MacroblockMode" where
  "mb_start_sent cfg noSkip s skip old =
     zero_mode\<lparr>mb_SegmentID := segment_sent cfg (mb_SegmentID old) s, mb_MBSkipCoeff := (noSkip \<and> skip)\<rparr>"

lemma codes_mb_start:
  assumes "sc_Enabled cfg \<Longrightarrow> sc_UpdateMap cfg \<Longrightarrow> s < 4"
    and "codes K (R (mb_start_sent cfg (mh_MBNoCoeffSkip hdr) s skip old)) r t" "sticky K" "\<And>w. sticky (F w)"
  shows "codes (do {
      ok \<leftarrow> (if sc_Enabled cfg \<and> sc_UpdateMap cfg then writeMacroblockSegmentID (segmentationTreeProbs cfg) s else State_Monad.return True);
      if \<not> ok then F () else do {
        (if mh_MBNoCoeffSkip hdr then wr (\<lambda>w. WriteBool w (if skip then 1 else 0) (mh_ProbSkipFalse hdr)) else State_Monad.return ());
        K } })
    (decode_mb_start (Some (segmentation_sent cfg)) hdr old \<bind> R) r t"
proof -
  have seg: "codes (if sc_Enabled cfg \<and> sc_UpdateMap cfg then writeMacroblockSegmentID (segmentationTreeProbs cfg) s else State_Monad.return True)
      (if sh_Enabled (segmentation_sent cfg)
        then if sh_UpdateMap (segmentation_sent cfg) then readMacroblockSegmentID (sh_TreeProbs (segmentation_sent cfg)) else State_Monad.return (mb_SegmentID old)
        else State_Monad.return 0) True (segment_sent cfg (mb_SegmentID old) s)"
    using codes_segment_id [of s "segmentationTreeProbs cfg"] assms(1)
    by (auto simp: segmentation_sent_def segment_sent_def no_segmentation_def codes_return)
  have skp: "codes (if mh_MBNoCoeffSkip hdr then wr (\<lambda>w. WriteBool w (if skip then 1 else 0) (mh_ProbSkipFalse hdr)) else State_Monad.return ())
      (if mh_MBNoCoeffSkip hdr then ReadBool (mh_ProbSkipFalse hdr) else State_Monad.return False) () (mh_MBNoCoeffSkip hdr \<and> skip)"
    using codes_writeFlag [of skip "mh_ProbSkipFalse hdr"] codes_return [of "()" False] by (cases "mh_MBNoCoeffSkip hdr") simp_all
  show ?thesis
    unfolding decode_mb_start_def option.case
    by (rule codes_assoc, rule codes_bind [OF seg], simp only: simp_thms if_False, rule codes_assoc, rule codes_bind [OF skp],
        rule codes_ret_right, fold mb_start_sent_def, rule assms(2), (intro sticky_intros assms(3,4))+)
qed

section \<open>Key-frame macroblocks\<close>

definition same_key :: "MacroblockMode \<Rightarrow> KeyFrameMacroblockMode \<Rightarrow> bool" where
  "same_key d e \<longleftrightarrow> mb_Mode d = km_YMode e \<and> (km_YMode e = BPred \<longrightarrow> mb_BModes d = km_BModes e)"

lemma key_contexts_agree:
  assumes "rel_option same_key abv eabv" "rel_option same_key lft elft" "block < 16"
    and "length (mb_BModes out) = 16" "\<And>j. j < block \<Longrightarrow> mb_BModes out ! j = km_BModes mode ! j"
  shows "keyFrameAboveBlockMode out abv block = enc_keyFrameAboveBlockMode mode eabv block"
    and "keyFrameLeftBlockMode out lft block = enc_keyFrameLeftBlockMode mode elft block"
proof -
  have "\<not> block div 4 = 0 \<Longrightarrow> block - 4 < block" "\<not> block mod 4 = 0 \<Longrightarrow> block - 1 < block" by (auto intro: ccontr)
  then show "keyFrameAboveBlockMode out abv block = enc_keyFrameAboveBlockMode mode eabv block"
    "keyFrameLeftBlockMode out lft block = enc_keyFrameLeftBlockMode mode elft block"
    using assms(1,2,5)
    by (cases abv; cases eabv; cases lft; cases elft;
      auto simp: keyFrameAboveBlockMode_def enc_keyFrameAboveBlockMode_def keyFrameLeftBlockMode_def enc_keyFrameLeftBlockMode_def same_key_def)+
qed

text \<open>Contexts are block modes, so the table has a row and a column for them.\<close>

definition key_mode_ok :: "KeyFrameMacroblockMode \<Rightarrow> bool" where
  "key_mode_ok m \<longleftrightarrow> validKeyFrameMacroblockMode m \<and> length (km_BModes m) = 16"

lemma key_context_bound:
  assumes "key_mode_ok mode" "km_YMode mode = BPred" "pred_option key_mode_ok eabv" "pred_option key_mode_ok elft" "block < 16"
  shows "enc_keyFrameAboveBlockMode mode eabv block < 10" "enc_keyFrameLeftBlockMode mode elft block < 10"
proof -
  have b: "km_BModes m ! j < 10" if "key_mode_ok m" "km_YMode m = BPred" "j < 16" for m j
  proof -
    have "list_all (\<lambda>b. b \<le> BHUPred) (km_BModes m)" "length (km_BModes m) = 16"
      using that by (auto simp: key_mode_ok_def validKeyFrameMacroblockMode_def split: if_split_asm)
    then have "km_BModes m ! j \<le> 9" using that(3) by (auto simp: list_all_length)
    then show ?thesis by simp
  qed
  have f: "BlockModeFromMacroblockMode x < 10" for x by (simp add: BlockModeFromMacroblockMode_def)
  have lt: "block - 1 < 16" "block - 4 < 16" "block div 4 = 0 \<Longrightarrow> block + 12 < 16" "block mod 4 = 0 \<Longrightarrow> block + 3 < 16"
    using assms(5) by presburger+
  show "enc_keyFrameAboveBlockMode mode eabv block < 10" "enc_keyFrameLeftBlockMode mode elft block < 10"
    using assms(1-4) b f lt
    by (auto simp: enc_keyFrameAboveBlockMode_def enc_keyFrameLeftBlockMode_def split: option.splits)
qed

lemma key_bmode_probs: "list_all (\<lambda>r. length r = 10 \<and> list_all (\<lambda>p. length p = 9) r) KeyFrameBModeProbs \<and> length KeyFrameBModeProbs = 10"
  by code_simp

lemma key_bmode_probs_length:
  assumes "a < 10" "l < 10"
  shows "length (KeyFrameBModeProbs ! a ! l) = 9"
proof -
  have "KeyFrameBModeProbs ! a \<in> set KeyFrameBModeProbs" using key_bmode_probs assms(1) by (intro nth_mem) simp
  then have r: "length (KeyFrameBModeProbs ! a) = 10" "list_all (\<lambda>p. length p = 9) (KeyFrameBModeProbs ! a)"
    using key_bmode_probs by (auto simp: list_all_iff)
  then show ?thesis using assms(2) by (auto simp: list_all_length)
qed

lemma codes_key_bmodes:
  assumes "key_mode_ok mode" "km_YMode mode = BPred" "pred_option key_mode_ok eabv" "pred_option key_mode_ok elft"
    and "rel_option same_key abv eabv" "rel_option same_key lft elft"
  shows "i + n = 16 \<Longrightarrow> length (mb_BModes out) = 16 \<Longrightarrow> (\<And>j. j < i \<Longrightarrow> mb_BModes out ! j = km_BModes mode ! j) \<Longrightarrow>
    codes (write_while (\<lambda>block. WriteTreeToken BModeTree
        (KeyFrameBModeProbs ! enc_keyFrameAboveBlockMode mode eabv block ! enc_keyFrameLeftBlockMode mode elft block)
        (bModeTokens ! (km_BModes mode ! block))) [i..<16])
      (read_key_bmodes abv lft [i..<16] out) True (out\<lparr>mb_BModes := km_BModes mode\<rparr>)"
proof (induction n arbitrary: i out)
  case 0
  have "mb_BModes out = km_BModes mode"
    using 0 assms(1) by (intro nth_equalityI) (simp_all add: key_mode_ok_def)
  then have "out\<lparr>mb_BModes := km_BModes mode\<rparr> = out" by (cases out) simp
  then show ?case using 0 codes_return [of True out] by simp
next
  case (Suc n)
  then have i: "i < 16" by simp
  have m: "km_BModes mode ! i < 10"
    using assms(1,2) i by (auto simp: key_mode_ok_def validKeyFrameMacroblockMode_def list_all_length split: if_split_asm)
  let ?p = "KeyFrameBModeProbs ! enc_keyFrameAboveBlockMode mode eabv i ! enc_keyFrameLeftBlockMode mode elft i"
  have ctx: "keyFrameAboveBlockMode out abv i = enc_keyFrameAboveBlockMode mode eabv i"
    "keyFrameLeftBlockMode out lft i = enc_keyFrameLeftBlockMode mode elft i"
    by (rule key_contexts_agree [OF assms(5,6) i Suc.prems(2)], rule Suc.prems(3), assumption)+
  have "length BModeTree \<le> 2 * length ?p"
    using key_bmode_probs_length [OF key_context_bound [OF assms(1-4) i]] mode_tree_lengths(4) by simp
  from codes_leaf [OF mode_trees_cover(4) m this]
  have leaf: "codes (WriteTreeToken BModeTree ?p (bModeTokens ! (km_BModes mode ! i))) (ReadBMode ?p) True (Some (int (km_BModes mode ! i)))"
    unfolding bModeTokens_def ReadBMode_def .
  let ?out = "out\<lparr>mb_BModes := (mb_BModes out)[i := km_BModes mode ! i]\<rparr>"
  have "codes (write_while (\<lambda>block. WriteTreeToken BModeTree
        (KeyFrameBModeProbs ! enc_keyFrameAboveBlockMode mode eabv block ! enc_keyFrameLeftBlockMode mode elft block)
        (bModeTokens ! (km_BModes mode ! block))) [Suc i..<16])
      (read_key_bmodes abv lft [Suc i..<16] ?out) True (?out\<lparr>mb_BModes := km_BModes mode\<rparr>)"
    using Suc.prems i by (intro Suc.IH) (auto simp: nth_list_update less_Suc_eq)
  then have rest: "codes (write_while (\<lambda>block. WriteTreeToken BModeTree
        (KeyFrameBModeProbs ! enc_keyFrameAboveBlockMode mode eabv block ! enc_keyFrameLeftBlockMode mode elft block)
        (bModeTokens ! (km_BModes mode ! block))) [Suc i..<16])
      (read_key_bmodes abv lft [Suc i..<16] ?out) True (out\<lparr>mb_BModes := km_BModes mode\<rparr>)" by simp
  show ?case
    unfolding upt_conv_Cons [OF i] write_while.simps read_key_bmodes.simps ctx
    by (rule codes_bind [OF leaf], simp only: simp_thms if_False the_leaf_Some nat_int rest, (intro sticky_intros sticky_write_while)+)
qed

definition key_mode_sent :: "KeyFrameMacroblockMode \<Rightarrow> MacroblockMode \<Rightarrow> MacroblockMode" where
  "key_mode_sent m out = out\<lparr>mb_RefFrame := IntraFrame, mb_Is4x4 := (km_YMode m = BPred),
     mb_BModes := (if km_YMode m = BPred then km_BModes m else replicate 16 0), mb_Mode := km_YMode m, mb_UVMode := km_UVMode m\<rparr>"

lemma sticky_WriteKeyFrameMacroblockMode [sticky_intros]: "sticky (WriteKeyFrameMacroblockMode abv lft mode)"
  unfolding WriteKeyFrameMacroblockMode_def by (intro sticky_intros sticky_write_while)

lemma codes_key_macroblock:
  assumes "key_mode_ok mode" "pred_option key_mode_ok eabv" "pred_option key_mode_ok elft"
    and "rel_option same_key abv eabv" "rel_option same_key lft elft"
  shows "codes (WriteKeyFrameMacroblockMode eabv elft mode) (decodeKeyFrameMacroblockMode abv lft out) True (key_mode_sent mode out)"
proof -
  have v: "validKeyFrameMacroblockMode mode" "km_YMode mode < 5" "km_UVMode mode < 4"
    using assms(1) by (auto simp: key_mode_ok_def validKeyFrameMacroblockMode_def split: if_split_asm)
  have pl: "length KeyFrameYModeTree \<le> 2 * length KeyFrameYModeProbs" "length UVModeTree \<le> 2 * length KeyFrameUVModeProbs"
    by code_simp+
  note y = codes_leaf [OF mode_trees_cover(1) v(2) pl(1), folded keyFrameYModeTokens_def ReadKeyFrameYMode_def]
  note uv = codes_leaf [OF mode_trees_cover(3) v(3) pl(2), folded keyFrameUVModeTokens_def ReadUVMode_def]
  let ?out = "out\<lparr>mb_RefFrame := IntraFrame, mb_Is4x4 := False, mb_BModes := replicate 16 0, mb_Mode := km_YMode mode\<rparr>"
  let ?mid = "out\<lparr>mb_RefFrame := IntraFrame, mb_Is4x4 := (km_YMode mode = BPred),
     mb_BModes := (if km_YMode mode = BPred then km_BModes mode else replicate 16 0), mb_Mode := km_YMode mode\<rparr>"
  have b: "codes (if km_YMode mode = BPred then
        write_while (\<lambda>block. WriteTreeToken BModeTree
          (KeyFrameBModeProbs ! enc_keyFrameAboveBlockMode mode eabv block ! enc_keyFrameLeftBlockMode mode elft block)
          (bModeTokens ! (km_BModes mode ! block))) [0..<16]
      else State_Monad.return True)
     (if mb_Mode ?out = BPred then read_key_bmodes abv lft [0..<16] (?out\<lparr>mb_Is4x4 := True\<rparr>) else State_Monad.return ?out) True ?mid"
  proof (cases "km_YMode mode = BPred")
    case True
    have "(?out\<lparr>mb_Is4x4 := True\<rparr>)\<lparr>mb_BModes := km_BModes mode\<rparr> = ?mid" using True by (cases out) simp
    from codes_key_bmodes [OF assms(1) True assms(2-5), of 0 16 "?out\<lparr>mb_Is4x4 := True\<rparr>", unfolded this] True
    show ?thesis by simp
  next
    case False
    then show ?thesis using codes_return [of True ?out] by simp
  qed
  have e: "?mid\<lparr>mb_UVMode := km_UVMode mode\<rparr> = key_mode_sent mode out" by (simp add: key_mode_sent_def)
  have last: "codes (WriteTreeToken UVModeTree KeyFrameUVModeProbs (keyFrameUVModeTokens ! km_UVMode mode))
      (do { uv \<leftarrow> ReadUVMode KeyFrameUVModeProbs; State_Monad.return (?mid\<lparr>mb_UVMode := nat (the_leaf uv)\<rparr>) }) True (key_mode_sent mode out)"
    using codes_post [OF uv, of "\<lambda>uv. ?mid\<lparr>mb_UVMode := nat (the_leaf uv)\<rparr>"] e by simp
  show ?thesis
    unfolding WriteKeyFrameMacroblockMode_def decodeKeyFrameMacroblockMode_def Let_def if_not_P [OF not_not [THEN iffD2, OF v(1)]]
    by (rule codes_bind [OF y], simp only: simp_thms if_False the_leaf_Some nat_int, rule codes_bind [OF b],
        simp only: simp_thms if_False, rule last, (intro sticky_intros sticky_write_while)+)
qed

section \<open>Grids\<close>

lemma no_cells: "grid_cells rows 0 = []"
proof -
  have "List.product xs [] = []" for xs :: "nat list" by (induction xs) simp_all
  then show ?thesis by (simp add: grid_cells_def)
qed

lemma cell_index: "fst (i div cols, i mod cols) * cols + snd (i div cols, i mod cols) = i" for i cols :: nat
  by simp

lemma cell_above_index:
  assumes "0 < (cols :: nat)"
  shows "cell_above modes cols (i div cols, i mod cols) = (if cols \<le> i then Some (modes ! (i - cols)) else None)"
  using assms by (simp add: cell_above_def div_greater_zero_iff)

lemma cell_left_index: "cell_left modes cols (i div cols, i mod cols) = (if 0 < i mod cols then Some (modes ! (i - 1)) else None)"
  by (simp add: cell_left_def)

text \<open>The grid after its first \<open>n\<close> cells.\<close>

definition grid_sent :: "nat \<Rightarrow> (nat \<Rightarrow> MacroblockMode \<Rightarrow> MacroblockMode) \<Rightarrow> MacroblockMode list \<Rightarrow> MacroblockMode list" where
  "grid_sent n sent old = map (\<lambda>j. if j < n then sent j (old ! j) else old ! j) [0..<length old]"

lemma length_grid_sent [simp]: "length (grid_sent n sent old) = length old"
  by (simp add: grid_sent_def)

lemma grid_sent_nth: "j < length old \<Longrightarrow> grid_sent n sent old ! j = (if j < n then sent j (old ! j) else old ! j)"
  by (simp add: grid_sent_def)

lemma grid_sent_0: "grid_sent 0 sent old = old"
  by (intro nth_equalityI) (simp_all add: grid_sent_nth)

lemma grid_sent_Suc: "n < length old \<Longrightarrow> (grid_sent n sent old)[n := sent n (old ! n)] = grid_sent (Suc n) sent old"
  by (intro nth_equalityI) (auto simp: grid_sent_nth nth_list_update)

lemma codes_grid:
  assumes "0 < cols" "rows * cols \<le> length old" "\<And>c. sticky (W c)"
    and cell: "\<And>i. i < rows * cols \<Longrightarrow>
      codes (W (i div cols, i mod cols)) (Rd (i div cols, i mod cols) (grid_sent i sent old)) None (sent i (old ! i))"
  shows "codes (write_checked W (grid_cells rows cols)) (read_cells Rd cols (grid_cells rows cols) old) None
    (grid_sent (rows * cols) sent old)"
proof -
  define N where "N = rows * cols"
  define f where "f = (\<lambda>i. (i div cols, i mod cols))"
  have "codes (write_checked W (map f [i..<N])) (read_cells Rd cols (map f [i..<N]) (grid_sent i sent old)) None (grid_sent N sent old)"
    if "i + n = N" for i n
    using that
  proof (induction n arbitrary: i)
    case 0
    then show ?case by (simp add: codes_return)
  next
    case (Suc n)
    then have i: "i < N" "i < length old" using assms(2) by (simp_all add: N_def)
    have here: "codes (W (f i)) (Rd (f i) (grid_sent i sent old)) None (sent i (old ! i))"
      using cell i(1) by (simp add: N_def f_def)
    have idx: "fst (f i) * cols + snd (f i) = i" by (simp add: f_def)
    have rest: "codes (write_checked W (map f [Suc i..<N])) (read_cells Rd cols (map f [Suc i..<N]) (grid_sent (Suc i) sent old)) None
        (grid_sent N sent old)" using Suc by simp
    show ?case
      unfolding upt_conv_Cons [OF i(1)] list.map write_checked.simps read_cells.simps idx
      by (rule codes_bind [OF here], simp only: simp_thms if_False grid_sent_Suc [OF i(2)] rest, intro sticky_intros sticky_write_checked assms(3))
  qed
  from this [of 0 N] show ?thesis
    unfolding grid_cells_map [OF assms(1)] f_def [symmetric] N_def [symmetric] grid_sent_0 by simp
qed

section \<open>Key-frame grids\<close>

definition key_cell_sent :: "SegmentationConfig \<Rightarrow> bool \<Rightarrow> KeyFrameMacroblockMode list \<Rightarrow> nat \<Rightarrow> MacroblockMode \<Rightarrow> MacroblockMode" where
  "key_cell_sent cfg noSkip modes i old =
     key_mode_sent (modes ! i) (mb_start_sent cfg noSkip (km_SegmentID (modes ! i)) (km_MBSkipCoeff (modes ! i)) old)"

text \<open>A grid a key frame can carry.\<close>

definition key_grid_ok :: "SegmentationConfig \<Rightarrow> nat \<Rightarrow> KeyFrameMacroblockMode list \<Rightarrow> bool" where
  "key_grid_ok cfg n modes \<longleftrightarrow>
     list_all (\<lambda>m. key_mode_ok m \<and> (sc_Enabled cfg \<and> sc_UpdateMap cfg \<longrightarrow> km_SegmentID m < 4)) (take n modes)"

lemma key_grid_okD:
  assumes "key_grid_ok cfg n modes" "i < n" "n \<le> length modes"
  shows "key_mode_ok (modes ! i)" "sc_Enabled cfg \<Longrightarrow> sc_UpdateMap cfg \<Longrightarrow> km_SegmentID (modes ! i) < 4"
proof -
  have "modes ! i \<in> set (take n modes)" using assms(2,3) by (auto simp: in_set_conv_nth)
  then show "key_mode_ok (modes ! i)" "sc_Enabled cfg \<Longrightarrow> sc_UpdateMap cfg \<Longrightarrow> km_SegmentID (modes ! i) < 4"
    using assms(1) by (auto simp: key_grid_ok_def list_all_iff)
qed

lemma same_key_sent: "same_key (key_cell_sent cfg noSkip modes i old) (modes ! i)"
  by (simp add: same_key_def key_cell_sent_def key_mode_sent_def)

lemma sticky_mode_failure [sticky_intros]: "sticky mode_failure"
  unfolding mode_failure_def by (intro sticky_intros)

lemma sticky_mode_end [sticky_intros]: "sticky mode_end"
  unfolding mode_end_def by (intro sticky_intros)

lemma sticky_write_key_cell [sticky_intros]: "sticky (write_key_cell cols modes s p k q c)"
  unfolding write_key_cell_def Let_def by (intro sticky_intros)

lemma codes_key_cell:
  assumes "key_grid_ok cfg (rows * cols) modes" "rows * cols \<le> length modes" "rows * cols \<le> length old" "0 < cols" "i < rows * cols"
  shows "codes (write_key_cell cols modes (sc_Enabled cfg \<and> sc_UpdateMap cfg) (segmentationTreeProbs cfg) (mh_MBNoCoeffSkip hdr)
      (mh_ProbSkipFalse hdr) (i div cols, i mod cols))
    (read_key_cell (Some (segmentation_sent cfg)) hdr cols (i div cols, i mod cols)
      (grid_sent i (key_cell_sent cfg (mh_MBNoCoeffSkip hdr) modes) old)) None
    (key_cell_sent cfg (mh_MBNoCoeffSkip hdr) modes i (old ! i))"
proof -
  let ?ms = "grid_sent i (key_cell_sent cfg (mh_MBNoCoeffSkip hdr) modes) old"
  let ?c = "(i div cols, i mod cols)"
  have ok: "key_mode_ok (modes ! j)" if "j \<le> i" for j
    using key_grid_okD(1) [OF assms(1) _ assms(2)] that assms(5) by simp
  have prev: "same_key (?ms ! j) (modes ! j)" if "j < i" for j
    using that assms(3,5) same_key_sent by (simp add: grid_sent_nth)
  have lt: "i - 1 < i" if "0 < i mod cols" using that by (cases i) simp_all
  note lt' = lt [unfolded One_nat_def]
  have nb: "pred_option key_mode_ok (cell_above modes cols ?c)" "pred_option key_mode_ok (cell_left modes cols ?c)"
    "rel_option same_key (cell_above ?ms cols ?c) (cell_above modes cols ?c)"
    "rel_option same_key (cell_left ?ms cols ?c) (cell_left modes cols ?c)"
    using assms(4,5) by (auto simp: cell_above_index cell_left_index intro!: ok prev lt')
  have old: "?ms ! i = old ! i" using assms(3,5) by (simp add: grid_sent_nth)
  note mb = codes_key_macroblock [OF ok [OF order_refl] nb,
      of "mb_start_sent cfg (mh_MBNoCoeffSkip hdr) (km_SegmentID (modes ! i)) (km_MBSkipCoeff (modes ! i)) (old ! i)"]
  have K: "codes (do { ok \<leftarrow> WriteKeyFrameMacroblockMode (cell_above modes cols ?c) (cell_left modes cols ?c) (modes ! i);
        if \<not> ok then mode_failure else State_Monad.return None })
      (decodeKeyFrameMacroblockMode (cell_above ?ms cols ?c) (cell_left ?ms cols ?c)
        (mb_start_sent cfg (mh_MBNoCoeffSkip hdr) (km_SegmentID (modes ! i)) (km_MBSkipCoeff (modes ! i)) (old ! i))) None
      (key_cell_sent cfg (mh_MBNoCoeffSkip hdr) modes i (old ! i))"
    using codes_bind [OF mb, of "\<lambda>ok. if \<not> ok then mode_failure else State_Monad.return None" State_Monad.return None]
    by (simp add: key_cell_sent_def codes_return sticky_intros)
  show ?thesis
    unfolding write_key_cell_def read_key_cell_def DecodeKeyFrameMacroblock_def Let_def cell_index old
    using key_grid_okD(2) [OF assms(1,5,2)] K by (intro codes_mb_start) (assumption | intro sticky_intros)+
qed

lemma codes_mode_end: "codes mode_end (State_Monad.return s) None s"
  unfolding mode_end_def by (rule codes_werr) (use codes_return [of None s] in simp, intro sticky_intros)

lemma codes_key_grid:
  assumes "\<not> grid_too_small rows cols (length modes)" "\<not> grid_too_small rows cols (length old)" "validSegmentationConfig cfg"
    and "key_grid_ok cfg (nat rows * nat cols) modes"
  shows "codes (WriteKeyFrameModeGridWithSegmentationAndSkip rows cols modes cfg (mh_MBNoCoeffSkip hdr) (mh_ProbSkipFalse hdr))
    (DecodeKeyFrameModeGrid rows cols (Some (segmentation_sent cfg)) hdr old) None
    (Inr (grid_sent (nat rows * nat cols) (key_cell_sent cfg (mh_MBNoCoeffSkip hdr) modes) old))"
proof -
  have len: "nat rows * nat cols \<le> length modes" "nat rows * nat cols \<le> length old"
    using assms(1,2) by (simp_all add: grid_too_small_def nat_mult_distrib [symmetric] nat_le_iff)
  have grid: "codes (write_checked (write_key_cell (nat cols) modes (sc_Enabled cfg \<and> sc_UpdateMap cfg)
               (segmentationTreeProbs cfg) (mh_MBNoCoeffSkip hdr) (mh_ProbSkipFalse hdr)) (grid_cells (nat rows) (nat cols)))
      (read_cells (read_key_cell (Some (segmentation_sent cfg)) hdr (nat cols)) (nat cols) (grid_cells (nat rows) (nat cols)) old) None
      (grid_sent (nat rows * nat cols) (key_cell_sent cfg (mh_MBNoCoeffSkip hdr) modes) old)"
  proof (cases "nat cols = 0")
    case True
    then show ?thesis by (simp add: no_cells codes_return grid_sent_0)
  next
    case False
    then show ?thesis using codes_key_cell [OF assms(4) len] len(2) by (intro codes_grid sticky_write_key_cell) simp_all
  qed
  show ?thesis
    unfolding WriteKeyFrameModeGridWithSegmentationAndSkip_def DecodeKeyFrameModeGrid_def if_not_P [OF assms(1)] if_not_P [OF assms(2)]
      if_not_P [OF not_not [THEN iffD2, OF assms(3)]]
    by (rule codes_bind [OF grid], simp only: simp_thms if_False, rule codes_mode_end, (intro sticky_intros)+)
qed

end
