(* ===== verification/Vp8_Header_Budget.thy ===== *)
theory Vp8_Header_Budget
  imports Vp8_Header_Codes
begin

text \<open>
  How much room a header needs. \<open>spends m n\<close>: whatever \<open>m\<close> does, with or without an error, it
  codes at most \<open>n\<close> bits; the boolean coder turns a bit into at most one byte.
\<close>

section \<open>Coding at most so many bits\<close>

definition spends :: "(BoolWriter, 'a) state \<Rightarrow> nat \<Rightarrow> bool" where
  "spends m n \<longleftrightarrow> sticky m \<and> (\<forall>w. writer_ok w \<longrightarrow> w_err w = 0 \<longrightarrow>
     (\<exists>xs. length xs \<le> n \<and> (w_err (snd (run_state m w)) = 0 \<longleftrightarrow> w_err (vp8w.puts w xs) = 0) \<and>
       (w_err (snd (run_state m w)) = 0 \<longrightarrow> snd (run_state m w) = vp8w.puts w xs)))"

named_theorems spends_intros

lemma spends_sticky: "spends m n \<Longrightarrow> sticky m"
  by (simp add: spends_def)

lemma spends_mono: "spends m n \<Longrightarrow> n \<le> k \<Longrightarrow> spends m k"
  unfolding spends_def using le_trans by meson

lemma writes_spends: "writes m xs r \<Longrightarrow> length xs \<le> n \<Longrightarrow> spends m n"
  unfolding writes_def spends_def by (metis snd_conv)

lemma spends_return [spends_intros]: "spends (State_Monad.return a) 0"
  by (rule writes_spends [OF writes_return]) simp

lemma spends_werr [spends_intros]: "spends werr 0"
  by (rule writes_spends [OF writes_werr]) simp

lemma spends_WriteBool [spends_intros]: "spends (wr (\<lambda>w. WriteBool w b p)) 1"
  by (rule writes_spends [OF writes_WriteBool]) simp

lemma spends_WriteBit [spends_intros]: "spends (wr (\<lambda>w. WriteBit w b)) 1"
  by (rule writes_spends [OF emits_writes [OF emits_WriteBit]]) simp

lemma spends_WriteLiteral: "nat n \<le> k \<Longrightarrow> spends (wr (\<lambda>w. WriteLiteral w v n)) k"
  by (rule writes_spends [OF writes_WriteLiteral]) (simp add: literal_bits_def)

lemma spends_bind [spends_intros]:
  assumes m: "spends m n" and f: "\<And>a. spends (f a) k"
  shows "spends (m \<bind> f) (n + k)"
  unfolding spends_def
proof (intro conjI allI impI)
  show "sticky (m \<bind> f)" using spends_sticky [OF m] spends_sticky [OF f] by (rule sticky_bind)
  fix w assume w: "writer_ok w" "w_err w = 0"
  obtain a w1 where r1: "run_state m w = (a, w1)" by (metis surj_pair)
  have ok1: "writer_ok w1" using spends_sticky [OF m] w(1) r1 unfolding sticky_def by (metis snd_conv)
  obtain xs where xs: "length xs \<le> n" "w_err w1 = 0 \<longleftrightarrow> w_err (vp8w.puts w xs) = 0" "w_err w1 = 0 \<Longrightarrow> w1 = vp8w.puts w xs"
    using m w r1 unfolding spends_def by (metis snd_conv)
  show "\<exists>zs. length zs \<le> n + k \<and> (w_err (snd (run_state (m \<bind> f) w)) = 0 \<longleftrightarrow> w_err (vp8w.puts w zs) = 0) \<and>
      (w_err (snd (run_state (m \<bind> f) w)) = 0 \<longrightarrow> snd (run_state (m \<bind> f) w) = vp8w.puts w zs)"
  proof (cases "w_err w1 = 0")
    case True
    then obtain ys where "length ys \<le> k" "w_err (snd (run_state (f a) w1)) = 0 \<longleftrightarrow> w_err (vp8w.puts w1 ys) = 0"
      "w_err (snd (run_state (f a) w1)) = 0 \<longrightarrow> snd (run_state (f a) w1) = vp8w.puts w1 ys"
      using f [of a] ok1 unfolding spends_def by blast
    then show ?thesis using xs True r1 by (intro exI [of _ "xs @ ys"]) (simp add: vp8w.puts_append)
  next
    case False
    then have "w_err (snd (run_state (f a) w1)) \<noteq> 0"
      using spends_sticky [OF f [of a]] ok1 unfolding sticky_def by blast
    then show ?thesis using xs(1,2) False r1 by (intro exI [of _ xs]) simp
  qed
qed

lemma spends_if [spends_intros]: "spends m n \<Longrightarrow> spends k l \<Longrightarrow> spends (if b then m else k) (max n l)"
  by (cases b) (auto elim: spends_mono)

lemma spends_write_array [spends_intros]: "(\<And>x. spends (f x) n) \<Longrightarrow> spends (write_array f xs) (length xs * n)"
  by (induction xs) (auto intro!: spends_return spends_bind)

lemma spends_write_checked_on:
  assumes "\<And>x. x \<in> set xs \<Longrightarrow> spends (f x) n"
  shows "spends (write_checked f xs) (length xs * n)"
  using assms
proof (induction xs)
  case (Cons x xs)
  then have "spends (if e \<noteq> None then State_Monad.return e else write_checked f xs) (length xs * n)" for e
    using spends_if [OF spends_return [of e], of "write_checked f xs"] by simp
  from spends_bind [OF Cons.prems [OF list.set_intros(1)] this]
  show ?case by (simp only: write_checked.simps length_Cons mult_Suc)
qed (simp add: spends_return)

lemma spends_write_checked: "(\<And>x. spends (f x) n) \<Longrightarrow> spends (write_checked f xs) (length xs * n)"
  by (rule spends_write_checked_on)

lemma emits_puts: "emits (\<lambda>w. vp8w.puts w xs) xs"
proof (induction xs)
  case (Cons x xs)
  then show ?case using emits_comp [OF emits_put [of "fst x" "snd x"] Cons] by (cases x) simp
qed (simp add: emits_id)

text \<open>With that much room and the flush's 32 bits, nothing fails.\<close>

lemma spends_fit:
  assumes "spends m n" "n + 32 \<le> length dst"
  shows "w_err (Finish (snd (run_state m (Writer_Init dst)))) = 0"
proof -
  let ?w = "Writer_Init dst"
  obtain xs where xs: "length xs \<le> n" "w_err (snd (run_state m ?w)) = 0 \<longleftrightarrow> w_err (vp8w.puts ?w xs) = 0"
    "w_err (snd (run_state m ?w)) = 0 \<Longrightarrow> snd (run_state m ?w) = vp8w.puts ?w xs"
    using assms(1) Init_writer(2,3) unfolding spends_def by blast
  define w where "w = vp8w.puts ?w xs"
  have fin: "w_err (Finish w) = 0"
    unfolding w_def by (rule message_fits_bound [OF emits_puts]) (use assms(2) xs(1) in linarith)
  have "writer_ok w" unfolding w_def by (rule emitsD(1) [OF emits_puts Init_writer(2)])
  from emitsD(2) [OF emits_Finish this] have "w_err (vp8w.puts w flush_bits) = 0" using fin by simp
  then have "w_err w = 0" using vp8w.puts_failed [of w flush_bits] by blast
  then have "snd (run_state m ?w) = w" using xs(2,3) unfolding w_def by blast
  then show ?thesis using fin by (simp only:)
qed

text \<open>A message and what is coded after it, in a buffer with room for both.\<close>

lemma message_room:
  assumes "writes m xs r" "spends m n" "n + length rest + 32 \<le> length dst"
  shows "\<exists>w. run_state m (Writer_Init dst) = (r, w) \<and> w_err (Finish (write_bools w rest)) = 0 \<and>
    length (Bytes (Finish (write_bools w rest))) \<le> length dst"
proof -
  let ?M = "m \<bind> (\<lambda>_. wr (\<lambda>w. write_bools w rest))"
  obtain r' w where w: "run_state m (Writer_Init dst) = (r', w)" by (metis surj_pair)
  have M: "snd (run_state ?M (Writer_Init dst)) = write_bools w rest" using w by (simp add: wr_def)
  have b: "writes (wr (\<lambda>w. write_bools w rest)) rest ()" by (rule emits_writes [OF emits_write_bools])
  have "spends ?M (n + length rest)" by (rule spends_bind [OF assms(2)]) (rule writes_spends [OF b order_refl])
  from spends_fit [OF this assms(3)] have fit: "w_err (Finish (write_bools w rest)) = 0" unfolding M .
  have wM: "writes ?M (xs @ rest) ()" by (rule writes_bind [OF assms(1) b writes_sticky [OF b]])
  have len: "length (Bytes (Finish (write_bools w rest))) \<le> length dst"
    using message_fits [OF writes_emits [OF wM], of dst] fit unfolding M by simp
  have ok: "writer_ok w" using writes_sticky [OF assms(1)] Init_writer(2) w unfolding sticky_def by (metis snd_conv)
  have "w_err w = 0"
  proof (rule ccontr)
    assume "w_err w \<noteq> 0"
    then have "w_err (write_bools w rest) \<noteq> 0" using writes_sticky [OF b] ok by (simp add: sticky_def wr_def)
    then have "w_err (vp8w.puts (write_bools w rest) flush_bits) \<noteq> 0" by (rule vp8w.puts_failed)
    then show False
      using fit emitsD(2) [OF emits_Finish emitsD(1) [OF emits_write_bools ok]] by simp
  qed
  then have "r' = r" using assms(1) w Init_writer(2,3) unfolding writes_def by (metis fst_conv snd_conv)
  then show ?thesis using w fit len by blast
qed

section \<open>Room for a state header\<close>

lemma spends_literals [spends_intros]:
  "spends (wr (\<lambda>w. WriteLiteral w v 2)) 2" "spends (wr (\<lambda>w. WriteLiteral w v 3)) 3"
  "spends (wr (\<lambda>w. WriteLiteral w v 4)) 4" "spends (wr (\<lambda>w. WriteLiteral w v 6)) 6"
  "spends (wr (\<lambda>w. WriteLiteral w v 7)) 7" "spends (wr (\<lambda>w. WriteLiteral w v 8)) 8"
  by (rule spends_WriteLiteral; simp)+

lemma spends_writeBoolBit [spends_intros]: "spends (writeBoolBit v) 1"
  unfolding writeBoolBit_def by (rule spends_mono, (rule spends_intros)+) simp

lemma spends_return_err [spends_intros]: "spends return_err 0"
  unfolding return_err_def by (rule spends_mono, (rule spends_intros)+) simp

lemma spends_write_feature: "b = 6 \<or> b = 7 \<Longrightarrow> spends (write_feature b x) 9"
  unfolding write_feature_def split_beta by (rule spends_mono, (rule spends_intros spends_WriteLiteral order_refl)+) auto

lemma spends_write_tree_prob: "spends (write_tree_prob x) 9"
  unfolding write_tree_prob_def split_beta by (rule spends_mono, (rule spends_intros)+) simp

lemma spends_up_to: "(\<And>x. spends (f x) n) \<Longrightarrow> length xs \<le> k \<Longrightarrow> spends (write_array f xs) (k * n)"
  by (rule spends_mono [OF spends_write_array [of f n]]) simp_all

lemma spends_writeSegmentationHeader:
  assumes "segmentation_shape cfg"
  shows "spends (writeSegmentationHeader cfg) 103"
proof -
  have len: "length (zip (sc_FeatureEnabled cfg ! f) (sc_FeatureData cfg ! f)) \<le> 4" if "f < 2" for f
    using assms that by (auto simp: segmentation_shape_def list_all_iff)
  have f: "spends (write_array (write_feature (segmentationFeatureDataBits ! f)) (zip (sc_FeatureEnabled cfg ! f) (sc_FeatureData cfg ! f))) (4 * 9)"
    if "f < 2" for f
    using that by (intro spends_up_to spends_write_feature len) (auto simp: segmentationFeatureDataBits_def less_2_cases_iff)
  have two: "0 < (2 :: nat)" "1 < (2 :: nat)" by simp_all
  note f0 = f [OF two(1)] f [OF two(2)]
  have t: "spends (write_array write_tree_prob (zip (sc_TreeProbUpdated cfg) (sc_TreeProbs cfg))) (3 * 9)"
    using assms by (intro spends_up_to spends_write_tree_prob) (simp add: segmentation_shape_def)
  show ?thesis
    unfolding writeSegmentationHeader_def
    by (rule spends_mono, (rule spends_return spends_bind spends_if spends_writeBoolBit spends_return_err f0 t)+) simp
qed

lemma spends_writeQuantDelta [spends_intros]: "spends (writeQuantDelta x) 6"
  unfolding writeQuantDelta_def by (rule spends_mono, (rule spends_intros)+) simp

lemma spends_writeQuantDeltas [spends_intros]: "spends (writeQuantDeltas d) 30"
  unfolding writeQuantDeltas_def by (rule spends_mono, (rule spends_intros)+) simp

lemma spends_writeLoopFilterDeltas:
  assumes "lf_config_ok cfg"
  shows "spends (writeLoopFilterDeltas e u f (c_RefLFDeltas cfg) (c_ModeLFDeltas cfg) (c_RefLFDeltasBase cfg) (c_ModeLFDeltasBase cfg)) 66"
proof -
  have d: "spends (writeLoopFilterDelta x b) 8" for x b
    unfolding writeLoopFilterDelta_def Let_def by (rule spends_mono, (rule spends_intros)+) simp
  have a: "spends (write_array (\<lambda>(delta, base). writeLoopFilterDelta delta (f \<or> delta \<noteq> base)) (zip x y)) (4 * 8)"
    if "length x = 4" for x y
    using that by (intro spends_up_to) (auto simp: d split_beta)
  note l = assms [unfolded lf_config_ok_def, THEN conjunct1] assms [unfolded lf_config_ok_def, THEN conjunct2, THEN conjunct1]
  show ?thesis
    unfolding writeLoopFilterDeltas_def
    by (rule spends_mono, (rule spends_return spends_bind spends_if spends_WriteBit a l)+) simp
qed

lemma spends_write_state_common:
  assumes "segmentation_shape (c_Segmentation cfg)" "lf_config_ok cfg"
  shows "spends (write_state_common cfg) 218"
  unfolding write_state_common_def
  by (rule spends_mono, (rule spends_intros spends_writeSegmentationHeader [OF assms(1)] spends_writeLoopFilterDeltas [OF assms(2)])+) simp

lemma spends_coefficients:
  assumes "coef_shape (cu_Update u)" "coef_shape (cu_Probs u)"
  shows "spends (WriteCoefficientProbabilityUpdates u) 9504"
proof -
  have c: "spends (write_coef_update x) 9" for x
    unfolding write_coef_update_def split_beta by (rule spends_mono, (rule spends_intros)+) simp
  have "length (zip3 (flat (cu_Update u)) (flat (cu_Probs u)) coefUpdateProbsFlat) = 1056"
    using length_flat [OF assms(1)] length_flat [OF assms(2)] length_flat_update by (simp add: zip3_def)
  then have l: "spends (write_checked write_coef_update (zip3 (flat (cu_Update u)) (flat (cu_Probs u)) coefUpdateProbsFlat)) 9504"
    by (intro spends_mono [OF spends_write_checked [OF c]]) simp
  show ?thesis
    unfolding WriteCoefficientProbabilityUpdates_def writes_coefs_flat [OF assms]
    by (rule spends_mono, (rule l spends_intros)+) simp
qed

lemma spends_WriteKeyFrameStateHeader:
  assumes "key_config_shape cfg"
  shows "spends (WriteKeyFrameStateHeader cfg) 9734"
proof -
  have shape: "segmentation_shape (c_Segmentation cfg)" "lf_config_ok cfg"
    "coef_shape (cu_Update (c_CoefficientProbs cfg))" "coef_shape (cu_Probs (c_CoefficientProbs cfg))"
    using assms by (simp_all add: key_config_shape_def)
  show ?thesis
    unfolding WriteKeyFrameStateHeader_def
    by (rule spends_mono, (rule spends_write_state_common [OF shape(1,2)] spends_coefficients [OF shape(3,4)] spends_intros)+) simp
qed

end
