(* ===== verification/Vp8_Header_Roundtrip.thy ===== *)
theory Vp8_Header_Roundtrip
  imports Vp8_Header_Budget
begin

text \<open>
  Whole frame headers survive the packet: what the encoder's state-header writers put into a
  packet, the decoder's parser reads back, for key frames and for inter frames.
\<close>

section \<open>Key frames\<close>

text \<open>A loop that reports no error had none in any round.\<close>

lemma write_checked_None:
  "fst (run_state (write_checked f xs) w) = None \<Longrightarrow> x \<in> set xs \<Longrightarrow> \<exists>w'. fst (run_state (f x) w') = None"
proof (induction xs arbitrary: w)
  case (Cons y ys)
  obtain e w1 where y: "run_state (f y) w = (e, w1)" by (metis surj_pair)
  then have e: "e = None" using Cons.prems(1) by (auto split: if_split_asm)
  then have "fst (run_state (write_checked f ys) w1) = None" using Cons.prems(1) y by simp
  then show ?case using Cons e y by (metis fst_conv set_ConsD)
qed simp

lemma coefs_written:
  assumes "fst (run_state (WriteCoefficientProbabilityUpdates u) w) = None" "coef_shape (cu_Update u)" "coef_shape (cu_Probs u)"
  shows "coefs_ok u"
proof -
  define xs where "xs = zip3 (flat (cu_Update u)) (flat (cu_Probs u)) coefUpdateProbsFlat"
  obtain e w1 where "run_state (write_checked write_coef_update xs) w = (e, w1)" by (metis surj_pair)
  then have none: "fst (run_state (write_checked write_coef_update xs) w) = None"
    using assms(1) unfolding WriteCoefficientProbabilityUpdates_def writes_coefs_flat [OF assms(2,3)] xs_def [symmetric]
    by (auto split: if_split_asm)
  have "flat (cu_Probs u) ! j \<noteq> 0" if j: "j < 1056" "flat (cu_Update u) ! j" for j
  proof
    assume z: "flat (cu_Probs u) ! j = 0"
    have "j < length xs" "xs ! j = (True, 0, coefUpdateProbsFlat ! j)"
      using j z length_flat [OF assms(2)] length_flat [OF assms(3)] length_flat_update by (simp_all add: xs_def zip3_def)
    then obtain w' where "fst (run_state (write_coef_update (True, 0, coefUpdateProbsFlat ! j)) w') = None"
      using write_checked_None [OF none nth_mem] by metis
    then show False by (simp add: write_coef_update_def)
  qed
  then show ?thesis using assms(2,3) by (simp add: coefs_ok_def)
qed

lemma key_header_written:
  assumes "fst (run_state (WriteKeyFrameStateHeader cfg) w) = None" "key_config_shape cfg"
  shows "common_ok cfg \<and> k_ClampType cfg \<le> 1 \<and> coefs_ok (c_CoefficientProbs cfg)"
proof -
  have valid: "validKeyFrameStateConfig cfg"
    using assms(1) by (auto simp: WriteKeyFrameStateHeader_def split: if_split_asm)
  have "\<exists>w'. fst (run_state (WriteCoefficientProbabilityUpdates (c_CoefficientProbs cfg)) w') = None"
    using assms(1) valid unfolding WriteKeyFrameStateHeader_def
    by (auto split: if_split_asm prod.splits) (metis fst_conv)+
  then show ?thesis
    using valid assms(2) coefs_written by (auto simp: common_ok_def validKeyFrameStateConfig_def key_config_shape_def)
qed

text \<open>A key-frame packet whose first partition goes on, after the header, with whatever \<open>m\<close> codes for \<open>n\<close>.\<close>

lemma key_packet_parses:
  assumes ok: "common_ok cfg" "k_ClampType cfg \<le> 1" "coefs_ok (c_CoefficientProbs cfg)"
    and rest: "codes m n r s"
    and fit: "w_err (Finish (snd (run_state (WriteKeyFrameStateHeader cfg \<bind> (\<lambda>_. m)) (Writer_Init dst)))) = 0"
    and put: "put_packet_head hdr True 0 show
      (int (length (Bytes (Finish (snd (run_state (WriteKeyFrameStateHeader cfg \<bind> (\<lambda>_. m)) (Writer_Init dst))))))) width height hscale vscale = Inr head"
    and hdr: "length hdr = 10"
  shows "\<exists>br d. ParseStateHeader
      (head @ Bytes (Finish (snd (run_state (WriteKeyFrameStateHeader cfg \<bind> (\<lambda>_. m)) (Writer_Init dst)))) @ tail) previousQuant previousLoopFilter probs modeProbs =
      (Inr (\<lparr>fh_FrameType = KeyFrame, fh_Profile = 0, fh_ShowFrame = show,
         fh_FirstPartitionSize = int (length (Bytes (Finish (snd (run_state (WriteKeyFrameStateHeader cfg \<bind> (\<lambda>_. m)) (Writer_Init dst)))))), fh_HeaderSize = 10,
         fh_Width = width, fh_Height = height, fh_HorizScale = hscale, fh_VertScale = vscale\<rparr>,
         key_state_sent cfg previousQuant, br),
       fst (coef_sent (c_CoefficientProbs cfg) (map_option (\<lambda>_. default_probs) probs)),
       map_option (\<lambda>_. ResetModeProbs) modeProbs) \<and>
     run_state n br = (s, d)"
proof -
  define B where "B = Bytes (Finish (snd (run_state (WriteKeyFrameStateHeader cfg \<bind> (\<lambda>_. m)) (Writer_Init dst))))"
  define frame where "frame = \<lparr>fh_FrameType = KeyFrame, fh_Profile = 0, fh_ShowFrame = show,
    fh_FirstPartitionSize = int (length B), fh_HeaderSize = 10,
    fh_Width = width, fh_Height = height, fh_HorizScale = hscale, fh_VertScale = vscale\<rparr>"
  have key: "FrameHeader_KeyFrame frame" by (simp add: frame_def FrameHeader_KeyFrame_def)
  obtain br d where br: "run_state (parse_state_bits frame previousQuant previousLoopFilter probs modeProbs) (Decoder_Init (B @ tail)) =
      ((key_state_sent cfg previousQuant, fst (coef_sent (c_CoefficientProbs cfg) (map_option (\<lambda>_. default_probs) probs)),
        map_option (\<lambda>_. ResetModeProbs) modeProbs), br)" "Decoder_Err br = None" "run_state n br = (s, d)"
    using codes_message_split [OF codes_key_state [OF ok key, of previousQuant previousLoopFilter probs modeProbs] rest fit, of tail]
    unfolding B_def by blast
  have len: "length head = 10" using put_head_length(1) [OF put] hdr by simp
  have "ParseFrameHeader head = Inr frame" using put_head_parses [OF put] by (simp add: frame_def B_def)
  then have "ParseFrameHeader (head @ B @ tail) = Inr frame" by (rule parse_header_prefix)
  moreover have "parseStateHeaderFromFrame (head @ B @ tail) frame previousQuant previousLoopFilter probs modeProbs False =
      (Inr (frame, key_state_sent cfg previousQuant, br),
       fst (coef_sent (c_CoefficientProbs cfg) (map_option (\<lambda>_. default_probs) probs)), map_option (\<lambda>_. ResetModeProbs) modeProbs)"
    using br(1,2) len by (simp add: parseStateHeaderFromFrame_def frame_def)
  ultimately show ?thesis
    using br(3) unfolding B_def [symmetric] frame_def [symmetric] by (simp add: ParseStateHeader_def)
qed

lemma key_header_room:
  assumes "validKeyFrameStateConfig cfg" "key_config_shape cfg" "coefs_ok (c_CoefficientProbs cfg)"
    and "9766 + length rest \<le> length dst"
  shows "\<exists>w. run_state (WriteKeyFrameStateHeader cfg) (Writer_Init dst) = (None, w) \<and>
    w_err (Finish (write_bools w rest)) = 0 \<and> length (Bytes (Finish (write_bools w rest))) \<le> length dst"
proof -
  define frame where "frame = \<lparr>fh_FrameType = KeyFrame, fh_Profile = 0, fh_ShowFrame = True, fh_FirstPartitionSize = 0,
    fh_HeaderSize = 10, fh_Width = 1, fh_Height = 1, fh_HorizScale = 0, fh_VertScale = 0\<rparr>"
  have ok: "common_ok cfg" "k_ClampType cfg \<le> 1"
    using assms(1,2) by (simp_all add: common_ok_def validKeyFrameStateConfig_def key_config_shape_def)
  have "FrameHeader_KeyFrame frame" by (simp add: frame_def FrameHeader_KeyFrame_def)
  from codes_key_state [OF ok assms(3) this] obtain xs where "writes (WriteKeyFrameStateHeader cfg) xs None"
    unfolding codes_def by blast
  then show ?thesis using spends_WriteKeyFrameStateHeader [OF assms(2)] by (rule message_room) (use assms(4) in linarith)
qed

text \<open>C4: A key frame's headers survive the packet. When the encoder writes the state header without error, goes on
  to any further bits, finishes the first partition and puts the frame tag and key-frame header in front, the decoder
  parses the packet, whatever bytes follow the first partition, into exactly the configured state: segmentation, loop
  filter and its deltas, quantizer, refresh flags, probability updates and skip probability, with the probability tables
  reset and updated; and its bit reader stands where the further bits begin. Loop filter deltas are at most 63 in
  magnitude, the syntax has six bits for them.\<close>

theorem key_frame_header_roundtrip:
  assumes "key_config_shape cfg"
    and "run_state (WriteKeyFrameStateHeader cfg) (Writer_Init dst) = (None, w)"
    and "w_err (Finish (write_bools w rest)) = 0"
    and "put_packet_head hdr True 0 show (int (length (Bytes (Finish (write_bools w rest))))) width height hscale vscale = Inr head"
    and "length hdr = 10"
  shows "\<exists>br. ParseStateHeader (head @ Bytes (Finish (write_bools w rest)) @ tail) previousQuant previousLoopFilter probs modeProbs =
      (Inr (\<lparr>fh_FrameType = KeyFrame, fh_Profile = 0, fh_ShowFrame = show,
         fh_FirstPartitionSize = int (length (Bytes (Finish (write_bools w rest)))), fh_HeaderSize = 10,
         fh_Width = width, fh_Height = height, fh_HorizScale = hscale, fh_VertScale = vscale\<rparr>,
         key_state_sent cfg previousQuant, br),
       fst (coef_sent (c_CoefficientProbs cfg) (map_option (\<lambda>_. default_probs) probs)),
       map_option (\<lambda>_. ResetModeProbs) modeProbs) \<and>
     fst (run_state (read_bools (map snd rest)) br) = map fst rest"
proof -
  define W where "W = write_bools w rest"
  have ok: "common_ok cfg" "k_ClampType cfg \<le> 1" "coefs_ok (c_CoefficientProbs cfg)"
    using key_header_written [of cfg "Writer_Init dst"] assms(1,2) by simp_all
  have W: "snd (run_state (WriteKeyFrameStateHeader cfg \<bind> (\<lambda>_. wr (\<lambda>w. write_bools w rest))) (Writer_Init dst)) = W"
    using assms(2) by (simp add: wr_def W_def)
  from key_packet_parses [OF ok codes_bools [of rest], of dst, unfolded W, folded W_def, OF assms(3,4,5) [folded W_def],
      of tail previousQuant previousLoopFilter probs modeProbs]
  show ?thesis unfolding W_def by (metis fst_conv)
qed

text \<open>A key frame with segments, loop filter deltas, quantizer deltas and two probability updates.\<close>

definition sample_key_config :: KeyFrameStateConfig where
  "sample_key_config = \<lparr>
     c_Segmentation = \<lparr>sc_Enabled = True, sc_UpdateMap = True, sc_UpdateData = True, sc_AbsDelta = True,
       sc_FeatureData = [[10, -20, 0, 0], [0, 0, 63, -1]],
       sc_FeatureEnabled = [[True, True, False, False], [False, False, True, True]],
       sc_TreeProbs = [200, 0, 7], sc_TreeProbUpdated = [True, False, True]\<rparr>,
     c_SimpleLoopFilter = True, c_LoopFilterLevel = 40, c_SharpnessLevel = 3, c_LFDeltaEnabled = True,
     c_LFDeltaUpdate = True, c_LFDeltaForceUpdateAll = False, c_RefLFDeltas = [2, 0, -2, -63],
     c_ModeLFDeltas = [4, -2, 2, 4], c_RefLFDeltasBase = replicate 4 0, c_ModeLFDeltasBase = replicate 4 0,
     c_TokenPartition = 1, c_BaseQIndex = 90,
     c_QuantDeltas = \<lparr>qd_Y1DC = 0, qd_Y2DC = -15, qd_Y2AC = 3, qd_UVDC = 0, qd_UVAC = 15\<rparr>,
     c_RefreshEntropyProbs = True,
     c_CoefficientProbs = \<lparr>cu_Probs = DefaultCoefProbs,
       cu_Update = (map (map (map (map (\<lambda>p. p = 253)))) DefaultCoefProbs), cu_UpdateCount = 32, cu_SavingsBits = 0\<rparr>,
     c_MBNoCoeffSkip = True, c_ProbSkipFalse = 77, k_ClampType = 1, k_InvisibleFrame = False, k_IndependentContexts = False, k_HorizScale = 0, k_VertScale = 0\<rparr>"

lemma sample_key_config_ok:
  "key_config_shape sample_key_config" "common_ok sample_key_config" "k_ClampType sample_key_config \<le> 1"
  "coefs_ok (c_CoefficientProbs sample_key_config)"
proof -
  show sh: "key_config_shape sample_key_config" by code_simp
  show "common_ok sample_key_config" by code_simp
  show "k_ClampType sample_key_config \<le> 1" by code_simp
  have "list_all (\<lambda>(u, p). u \<longrightarrow> p \<noteq> 0) (zip (flat (cu_Update (c_CoefficientProbs sample_key_config)))
      (flat (cu_Probs (c_CoefficientProbs sample_key_config))))" by code_simp
  then show "coefs_ok (c_CoefficientProbs sample_key_config)"
    using sh by (auto simp: coefs_ok_def key_config_shape_def list_all_length length_flat)
qed

lemma sample_head:
  assumes "n \<le> 20000"
  shows "\<exists>head. put_packet_head (replicate 10 0) True 0 True (int n) 176 144 1 0 = Inr head"
  using assms by (simp add: put_packet_head_def PutFrameTag_def PutKeyFrameExtraHeader_def MaxFirstPartitionSize_def
    FrameTagSize_def KeyFrameExtraHeaderSize_def Let_def)

definition sample_quant :: QuantHeader where
  "sample_quant = \<lparr>qh_BaseQIndex = 4, qh_Y1DCDelta = 0, qh_Y2DCDelta = -15, qh_Y2ACDelta = 0, qh_UVDCDelta = 0, qh_UVACDelta = 0, qh_Updated = False\<rparr>"

lemma key_frame_header_roundtrip_witness:
  "\<exists>w head br.
    run_state (WriteKeyFrameStateHeader sample_key_config) (Writer_Init (replicate 9768 0)) = (None, w) \<and>
    put_packet_head (replicate 10 0) True 0 True (int (length (Bytes (Finish (write_bools w [(True, 7), (False, 200)]))))) 176 144 1 0 = Inr head \<and>
    (\<exists>frame. fst (ParseStateHeader (head @ Bytes (Finish (write_bools w [(True, 7), (False, 200)])) @ [1, 2, 3]) sample_quant no_loop_filter None None) =
      Inr (frame, key_state_sent sample_key_config sample_quant, br)) \<and>
    fst (run_state (read_bools [7, 200]) br) = [True, False]"
proof -
  have "validKeyFrameStateConfig sample_key_config"
    using sample_key_config_ok(2,3) by (simp add: validKeyFrameStateConfig_def common_ok_def)
  from key_header_room [OF this sample_key_config_ok(1,4), of "[(True, 7), (False, 200)]" "replicate 9768 0"]
  obtain w where w: "run_state (WriteKeyFrameStateHeader sample_key_config) (Writer_Init (replicate 9768 0)) = (None, w)"
    "w_err (Finish (write_bools w [(True, 7), (False, 200)])) = 0"
    "length (Bytes (Finish (write_bools w [(True, 7), (False, 200)]))) \<le> 9768" by auto
  obtain head where h: "put_packet_head (replicate 10 0) True 0 True
      (int (length (Bytes (Finish (write_bools w [(True, 7), (False, 200)]))))) 176 144 1 0 = Inr head"
    using sample_head [OF order_trans [OF w(3)]] by auto
  from key_frame_header_roundtrip [OF sample_key_config_ok(1) w(1,2) h, of "[1, 2, 3]" sample_quant no_loop_filter None None] w(1) h
  show ?thesis by auto
qed

text \<open>C23: A key frame's state header is written without error whenever its configuration is valid, its loop filter deltas
  are at most 63 in magnitude, no probability is updated to 0 and the buffer has 9,766 bytes, plus one for each further bit of the first partition.\<close>

theorem key_frame_header_fits:
  assumes "validKeyFrameStateConfig cfg" "key_config_shape cfg" "coefs_ok (c_CoefficientProbs cfg)"
    and "9766 + length rest \<le> length dst"
  shows "\<exists>w. run_state (WriteKeyFrameStateHeader cfg) (Writer_Init dst) = (None, w) \<and>
    w_err (Finish (write_bools w rest)) = 0 \<and> length (Bytes (Finish (write_bools w rest))) \<le> length dst"
  by (rule key_header_room [OF assms])

lemma key_frame_header_fits_witness:
  "\<exists>w. run_state (WriteKeyFrameStateHeader sample_key_config) (Writer_Init (replicate 9768 0)) = (None, w) \<and>
    w_err (Finish (write_bools w [(True, 7), (False, 200)])) = 0 \<and>
    length (Bytes (Finish (write_bools w [(True, 7), (False, 200)]))) \<le> length (replicate 9768 (0 :: byte))"
  using sample_key_config_ok
  by (intro key_frame_header_fits) (simp_all add: validKeyFrameStateConfig_def common_ok_def)

end
