(* ===== verification/Vp8_Key_Frame.thy ===== *)
theory Vp8_Key_Frame
  imports Vp8_Mode_Codes Vp8_Header_Roundtrip
begin

text \<open>
  The first partition of a key frame as a whole: the state header and the macroblock modes the
  encoder writes behind it, read back by the parser and the mode decoder, the second starting
  where the first stopped and with the segmentation and mode header the first returned.
\<close>

section \<open>What a successful writer accepted\<close>

lemma key_macroblock_written:
  "fst (run_state (WriteKeyFrameMacroblockMode abv lft mode) w) \<Longrightarrow> validKeyFrameMacroblockMode mode"
  by (auto simp: WriteKeyFrameMacroblockMode_def split: if_split_asm)

lemma segment_id_written: "fst (run_state (writeMacroblockSegmentID probs s) w) \<Longrightarrow> s < 4"
  by (auto simp: writeMacroblockSegmentID_def not_le split: if_split_asm)

lemma mode_failure_not_None: "fst (run_state mode_failure w) \<noteq> None"
  by (simp add: mode_failure_def split: prod.split)

lemma key_cell_written:
  assumes "fst (run_state (write_key_cell cols modes sg probs noSkip p c) w) = None"
  shows "validKeyFrameMacroblockMode (modes ! (fst c * cols + snd c)) \<and>
    (sg \<longrightarrow> km_SegmentID (modes ! (fst c * cols + snd c)) < 4)"
proof -
  let ?m = "modes ! (fst c * cols + snd c)"
  define k where "k = do {
       (if noSkip then wr (\<lambda>w. WriteBool w (if km_MBSkipCoeff ?m then 1 else 0) p) else State_Monad.return ());
       ok \<leftarrow> WriteKeyFrameMacroblockMode (cell_above modes cols c) (cell_left modes cols c) ?m;
       if \<not> ok then mode_failure else State_Monad.return None
     }"
  obtain ok w1 where ok: "run_state (if sg then writeMacroblockSegmentID probs (km_SegmentID ?m) else State_Monad.return True) w = (ok, w1)"
    by (metis surj_pair)
  have cell: "write_key_cell cols modes sg probs noSkip p c = do {
      ok \<leftarrow> (if sg then writeMacroblockSegmentID probs (km_SegmentID ?m) else State_Monad.return True);
      if \<not> ok then mode_failure else k }"
    by (simp only: write_key_cell_def k_def Let_def)
  have "ok"
  proof (rule ccontr)
    assume "\<not> ok"
    then have "fst (run_state mode_failure w1) = None" using assms ok unfolding cell by simp
    then show False using mode_failure_not_None by blast
  qed
  then have "fst (run_state k w1) = None" using assms ok unfolding cell by simp
  have "sg \<longrightarrow> km_SegmentID ?m < 4"
  proof
    assume sg
    then have "fst (run_state (writeMacroblockSegmentID probs (km_SegmentID ?m)) w)" using ok \<open>ok\<close> by simp
    then show "km_SegmentID ?m < 4" by (rule segment_id_written)
  qed
  moreover have "validKeyFrameMacroblockMode ?m"
  proof -
    define s where "s = (if noSkip then wr (\<lambda>w. WriteBool w (if km_MBSkipCoeff ?m then 1 else 0) p) else State_Monad.return ())"
    obtain u w2 where s: "run_state s w1 = (u, w2)" by (metis surj_pair)
    obtain ok' w3 where mb: "run_state (WriteKeyFrameMacroblockMode (cell_above modes cols c) (cell_left modes cols c) ?m) w2 = (ok', w3)"
      by (metis surj_pair)
    have "ok'"
    proof (rule ccontr)
      assume "\<not> ok'"
      then have "fst (run_state mode_failure w3) = None"
        using \<open>fst (run_state k w1) = None\<close> s mb unfolding k_def s_def [symmetric] by simp
      then show False using mode_failure_not_None by blast
    qed
    then show ?thesis using mb by (intro key_macroblock_written [of "cell_above modes cols c" "cell_left modes cols c" _ w2]) simp
  qed
  ultimately show ?thesis by blast
qed

lemma key_grid_written:
  assumes "fst (run_state (WriteKeyFrameModeGridWithSegmentationAndSkip rows cols modes cfg noSkip p) w) = None"
    and "list_all (\<lambda>m. length (km_BModes m) = 16) modes"
  shows "\<not> grid_too_small rows cols (length modes) \<and> validSegmentationConfig cfg \<and> key_grid_ok cfg (nat rows * nat cols) modes"
proof -
  have fit: "\<not> grid_too_small rows cols (length modes)" and seg: "validSegmentationConfig cfg"
    using assms(1) by (auto simp: WriteKeyFrameModeGridWithSegmentationAndSkip_def split: if_split_asm)
  define n where "n = nat cols"
  define f where "f = write_key_cell n modes (sc_Enabled cfg \<and> sc_UpdateMap cfg) (segmentationTreeProbs cfg) noSkip p"
  have all: "fst (run_state (write_checked f (grid_cells (nat rows) n)) w) = None"
    using assms(1) fit seg unfolding f_def n_def
    by (auto simp: WriteKeyFrameModeGridWithSegmentationAndSkip_def split: if_split_asm prod.splits)
  have "key_mode_ok (modes ! i) \<and> (sc_Enabled cfg \<and> sc_UpdateMap cfg \<longrightarrow> km_SegmentID (modes ! i) < 4)" if i: "i < nat rows * n" for i
  proof -
    have n: "0 < n" using i by (cases n) simp_all
    have "(i div n, i mod n) \<in> set (grid_cells (nat rows) n)" using i by (simp add: grid_cells_map [OF n])
    from write_checked_None [OF all this] obtain w1 where "fst (run_state (f (i div n, i mod n)) w1) = None" ..
    from key_cell_written [OF this [unfolded f_def]]
    have "validKeyFrameMacroblockMode (modes ! i) \<and> (sc_Enabled cfg \<and> sc_UpdateMap cfg \<longrightarrow> km_SegmentID (modes ! i) < 4)"
      unfolding cell_index .
    moreover have "i < length modes"
      using fit i by (simp add: grid_too_small_def n_def nat_mult_distrib [symmetric]) linarith
    ultimately show ?thesis using assms(2) unfolding key_mode_ok_def list_all_length by blast
  qed
  then have "key_grid_ok cfg (nat rows * n) modes"
    by (auto simp: key_grid_ok_def list_all_length)
  then show ?thesis using fit seg by (simp add: n_def)
qed

lemma skip_prob_unused: "write_key_cell cols modes sg probs False p c = write_key_cell cols modes sg probs False q c"
  by (simp only: write_key_cell_def if_False)

lemma grid_skip_prob:
  "WriteKeyFrameModeGridWithSegmentationAndSkip rows cols modes cfg noSkip p =
   WriteKeyFrameModeGridWithSegmentationAndSkip rows cols modes cfg noSkip (if noSkip then p else q)"
proof (cases noSkip)
  case False
  have "write_key_cell (nat cols) modes sg probs False p = write_key_cell (nat cols) modes sg probs False q" for sg probs
    by (rule ext) (rule skip_prob_unused)
  then show ?thesis using False by (simp add: WriteKeyFrameModeGridWithSegmentationAndSkip_def)
qed simp

section \<open>Room for the modes\<close>

lemma tree_token_loop_spends:
  assumes "writer_ok w" "w_err w = 0"
  shows "\<exists>xs. length xs \<le> n \<and> (w_err (snd (tree_token_loop w tree probs node v n)) = 0 \<longleftrightarrow> w_err (vp8w.puts w xs) = 0) \<and>
    (w_err (snd (tree_token_loop w tree probs node v n)) = 0 \<longrightarrow> snd (tree_token_loop w tree probs node v n) = vp8w.puts w xs)"
  using assms
proof (induction n arbitrary: w node)
  case 0
  then show ?case by (intro exI [of _ "[]"]) simp
next
  case (Suc n)
  define x where "x = (bit v n, probs ! (node div 2))"
  define w' where "w' = writer_put w (bit v n) (probs ! (node div 2))"
  define nxt where "nxt = tree ! (node + of_bool (bit v n))"
  define out where "out = (node div 2 \<ge> length probs \<or> node + 1 \<ge> length tree)"
  have ok: "writer_ok w'" using Suc.prems(1) by (simp add: w'_def writer_put_def WriteBool_ok)
  have puts: "vp8w.puts w (x # ys) = vp8w.puts w' ys" for ys by (simp add: x_def w'_def)
  have st: "tree_token_loop w tree probs node v (Suc n) = (if out then (False, w)
      else if w_err w' \<noteq> 0 then (False, w')
      else if nxt \<le> 0 then (n = 0, w') else tree_token_loop w' tree probs (nat nxt) v n)"
    unfolding tree_token_loop_step [OF Suc.prems(2)] Let_def out_def w'_def nxt_def ..
  consider "out" | "\<not> out" "w_err w' \<noteq> 0 \<or> nxt \<le> 0" | "\<not> out" "w_err w' = 0" "\<not> nxt \<le> 0" by blast
  then show ?case
  proof cases
    case 1
    then show ?thesis unfolding st by (intro exI [of _ "[]"]) simp
  next
    case 2
    then have "snd (tree_token_loop w tree probs node v (Suc n)) = w'" unfolding st by auto
    then show ?thesis using puts [of "[]"] by (intro exI [of _ "[x]"]) simp
  next
    case 3
    then have e: "tree_token_loop w tree probs node v (Suc n) = tree_token_loop w' tree probs (nat nxt) v n" unfolding st by simp
    from Suc.IH [OF ok 3(2)] obtain ys where "length ys \<le> n"
      "w_err (snd (tree_token_loop w' tree probs (nat nxt) v n)) = 0 \<longleftrightarrow> w_err (vp8w.puts w' ys) = 0"
      "w_err (snd (tree_token_loop w' tree probs (nat nxt) v n)) = 0 \<longrightarrow> snd (tree_token_loop w' tree probs (nat nxt) v n) = vp8w.puts w' ys" by blast
    then show ?thesis unfolding e by (intro exI [of _ "x # ys"]) (simp only: puts, simp)
  qed
qed

lemma spends_WriteTreeToken: "t_Len token \<le> n \<Longrightarrow> spends (WriteTreeToken tree probs token) n"
  unfolding spends_def
proof (intro conjI allI impI)
  show "sticky (WriteTreeToken tree probs token)" by (rule sticky_WriteTreeToken)
  fix w assume n: "t_Len token \<le> n" and w: "writer_ok w" "w_err w = 0"
  define r where "r = tree_token_loop w tree probs 0 (t_Value token) (t_Len token)"
  define out where "out = (length probs = 0 \<or> length tree < 2 \<or> t_Len token = 0 \<or> t_Len token > 32)"
  have run: "snd (run_state (WriteTreeToken tree probs token) w) = (if out then w
      else if w_err (snd r) \<noteq> 0 then (snd r)\<lparr>w_low := w_low w, w_rng := w_rng w, w_count := w_count w\<rparr> else snd r)"
    using w(2) by (auto simp: WriteTreeToken_def r_def out_def case_prod_beta Let_def)
  obtain xs where "length xs \<le> t_Len token" "w_err (snd r) = 0 \<longleftrightarrow> w_err (vp8w.puts w xs) = 0"
    "w_err (snd r) = 0 \<longrightarrow> snd r = vp8w.puts w xs"
    using tree_token_loop_spends [OF w, of "t_Len token" tree probs 0 "t_Value token"] unfolding r_def by blast
  then show "\<exists>xs. length xs \<le> n \<and>
      (w_err (snd (run_state (WriteTreeToken tree probs token) w)) = 0 \<longleftrightarrow> w_err (vp8w.puts w xs) = 0) \<and>
      (w_err (snd (run_state (WriteTreeToken tree probs token) w)) = 0 \<longrightarrow>
       snd (run_state (WriteTreeToken tree probs token) w) = vp8w.puts w xs)"
    unfolding run using n w(2) by (cases out) (auto intro: exI [of _ "[]"] exI [of _ xs])
qed

lemma spends_write_while: "(\<And>x. x \<in> set xs \<Longrightarrow> spends (f x) n) \<Longrightarrow> spends (write_while f xs) (length xs * n)"
proof (induction xs)
  case (Cons x xs)
  have "spends (if \<not> ok then State_Monad.return False else write_while f xs) (length xs * n)" for ok
    using spends_if [OF spends_return [of False], of "write_while f xs" "length xs * n" "\<not> ok"] Cons by simp
  from spends_bind [OF Cons.prems [OF list.set_intros(1)] this]
  show ?case by (simp only: write_while.simps length_Cons mult_Suc)
qed (simp add: spends_return)

lemma mode_token_lengths:
  "list_all (\<lambda>t. t_Len t \<le> 3) keyFrameYModeTokens \<and> length keyFrameYModeTokens = 5"
  "list_all (\<lambda>t. t_Len t \<le> 3) keyFrameUVModeTokens \<and> length keyFrameUVModeTokens = 4"
  "list_all (\<lambda>t. t_Len t \<le> 9) bModeTokens \<and> length bModeTokens = 10"
  by code_simp+

lemma spends_mode_failure [spends_intros]: "spends mode_failure 0"
  unfolding mode_failure_def by (rule spends_mono, (rule spends_intros)+) simp

lemma spends_mode_end [spends_intros]: "spends mode_end 0"
  unfolding mode_end_def by (rule spends_mono, (rule spends_intros)+) simp

lemma spends_segment_id [spends_intros]: "spends (writeMacroblockSegmentID probs s) 2"
  unfolding writeMacroblockSegmentID_def by (rule spends_mono, (rule spends_intros)+) simp

lemma spends_key_macroblock:
  assumes "key_mode_ok mode"
  shows "spends (WriteKeyFrameMacroblockMode abv lft mode) 150"
proof -
  have v: "km_YMode mode < 5" "km_UVMode mode < 4" and b: "km_YMode mode = BPred \<Longrightarrow> block < 16 \<Longrightarrow> km_BModes mode ! block < 10" for block
    using assms by (auto simp: key_mode_ok_def validKeyFrameMacroblockMode_def list_all_length split: if_split_asm)
  have t: "t_Len (keyFrameYModeTokens ! km_YMode mode) \<le> 3" "t_Len (keyFrameUVModeTokens ! km_UVMode mode) \<le> 3"
    using mode_token_lengths(1,2) v by (auto simp: list_all_length)
  have bs: "spends (write_while (\<lambda>block. WriteTreeToken BModeTree (ps block) (bModeTokens ! (km_BModes mode ! block))) [0..<16]) (length [0..<16] * 9)"
    if "km_YMode mode = BPred" for ps
    using b [OF that] mode_token_lengths(3) by (intro spends_write_while spends_WriteTreeToken) (auto simp: list_all_length)
  have mid: "spends (if km_YMode mode = BPred then
                write_while (\<lambda>block. WriteTreeToken BModeTree (ps block) (bModeTokens ! (km_BModes mode ! block))) [0..<16]
              else State_Monad.return True) 144" for ps
    using bs spends_mono [OF spends_return] by (cases "km_YMode mode = BPred") simp_all
  show ?thesis
    unfolding WriteKeyFrameMacroblockMode_def
    by (rule spends_mono, (rule mid spends_WriteTreeToken [OF t(1)] spends_WriteTreeToken [OF t(2)] spends_intros)+) simp
qed

lemma spends_key_cell:
  assumes "key_mode_ok (modes ! (fst c * cols + snd c))"
  shows "spends (write_key_cell cols modes sg probs noSkip p c) 153"
  unfolding write_key_cell_def Let_def
  by (rule spends_mono, (rule spends_key_macroblock [OF assms] spends_intros)+) simp

lemma spends_key_grid:
  assumes "key_grid_ok cfg (nat rows * nat cols) modes" "\<not> grid_too_small rows cols (length modes)"
  shows "spends (WriteKeyFrameModeGridWithSegmentationAndSkip rows cols modes cfg noSkip p) (153 * (nat rows * nat cols))"
proof -
  have len: "nat rows * nat cols \<le> length modes"
    using assms(2) by (simp add: grid_too_small_def nat_mult_distrib [symmetric] nat_le_iff)
  have c: "spends (write_key_cell (nat cols) modes sg probs noSkip p c) 153" if "c \<in> set (grid_cells (nat rows) (nat cols))" for c sg probs
  proof (rule spends_key_cell)
    have pos: "0 < nat cols" using that by (cases "nat cols = 0") (auto simp: grid_cells_def)
    have "c \<in> (\<lambda>i. (i div nat cols, i mod nat cols)) ` {..<nat rows * nat cols}"
      using that unfolding grid_cells_map [OF pos] by (simp add: lessThan_atLeast0)
    then obtain i where "i < nat rows * nat cols" "c = (i div nat cols, i mod nat cols)" by blast
    then show "key_mode_ok (modes ! (fst c * nat cols + snd c))" using key_grid_okD(1) [OF assms(1) _ len] by simp
  qed
  have "length (grid_cells (nat rows) (nat cols)) = nat rows * nat cols" by (simp add: grid_cells_def)
  then have g: "spends (write_checked (write_key_cell (nat cols) modes sg probs noSkip p) (grid_cells (nat rows) (nat cols))) (153 * (nat rows * nat cols))" for sg probs
    using spends_write_checked_on [OF c, where xs = "grid_cells (nat rows) (nat cols)"] by (simp add: mult.commute)
  show ?thesis
    unfolding WriteKeyFrameModeGridWithSegmentationAndSkip_def
    by (rule spends_mono, (rule g spends_intros)+) simp
qed

lemma finish_ok_before: "writer_ok w \<Longrightarrow> w_err (Finish w) = 0 \<Longrightarrow> w_err w = 0"
  using emitsD(2) [OF emits_Finish, of w] vp8w.puts_failed [of w flush_bits] by auto

text \<open>Two messages one after the other, in a buffer with room for both.\<close>

lemma two_messages_room:
  assumes "writes m xs None" "writes k ys None" "spends (m \<bind> (\<lambda>_. k)) n" "n + 32 \<le> length dst"
  shows "\<exists>w w'. run_state m (Writer_Init dst) = (None, w) \<and> run_state k w = (None, w') \<and>
    w_err (Finish w') = 0 \<and> length (Bytes (Finish w')) \<le> length dst"
proof -
  let ?M = "m \<bind> (\<lambda>_. k)"
  from message_room [OF writes_bind [OF assms(1,2) writes_sticky [OF assms(2)]] assms(3), of "[]" dst] assms(4)
  have "\<exists>w'. run_state ?M (Writer_Init dst) = (None, w') \<and> w_err (Finish w') = 0 \<and> length (Bytes (Finish w')) \<le> length dst"
    by (simp add: write_bools_def)
  then obtain w' where w': "run_state ?M (Writer_Init dst) = (None, w')" "w_err (Finish w') = 0" "length (Bytes (Finish w')) \<le> length dst"
    by blast
  obtain e w where w: "run_state m (Writer_Init dst) = (e, w)" by (metis surj_pair)
  then have k: "run_state k w = (None, w')" using w'(1) by simp
  have ok1: "writer_ok w" using writes_sticky [OF assms(1)] Init_writer(2) w unfolding sticky_def by (metis snd_conv)
  have ok2: "writer_ok w' \<and> (w_err w \<noteq> 0 \<longrightarrow> w_err w' \<noteq> 0)" using writes_sticky [OF assms(2)] ok1 k unfolding sticky_def by (metis snd_conv)
  have "w_err w = 0" using ok2 finish_ok_before [OF _ w'(2)] by blast
  then have "e = None" using assms(1) w Init_writer(2,3) unfolding writes_def by (metis fst_conv snd_conv)
  then show ?thesis using w k w' by blast
qed

lemma key_modes_room:
  assumes "validKeyFrameStateConfig cfg" "key_config_shape cfg" "coefs_ok (c_CoefficientProbs cfg)"
    and "\<not> grid_too_small rows cols (length modes)" "key_grid_ok (c_Segmentation cfg) (nat rows * nat cols) modes"
    and "9766 + 153 * (nat rows * nat cols) \<le> length dst"
  shows "\<exists>w w'. run_state (WriteKeyFrameStateHeader cfg) (Writer_Init dst) = (None, w) \<and>
    run_state (WriteKeyFrameModeGridWithSegmentationAndSkip rows cols modes (c_Segmentation cfg) (c_MBNoCoeffSkip cfg) (c_ProbSkipFalse cfg)) w = (None, w') \<and>
    w_err (Finish w') = 0 \<and> length (Bytes (Finish w')) \<le> length dst"
proof -
  let ?k = "WriteKeyFrameModeGridWithSegmentationAndSkip rows cols modes (c_Segmentation cfg) (c_MBNoCoeffSkip cfg) (c_ProbSkipFalse cfg)"
  define frame where "frame = \<lparr>fh_FrameType = KeyFrame, fh_Profile = 0, fh_ShowFrame = True, fh_FirstPartitionSize = 0,
    fh_HeaderSize = 10, fh_Width = 1, fh_Height = 1, fh_HorizScale = 0, fh_VertScale = 0\<rparr>"
  define hdr where "hdr = (undefined :: ModeHeader)\<lparr>mh_MBNoCoeffSkip := c_MBNoCoeffSkip cfg, mh_ProbSkipFalse := c_ProbSkipFalse cfg\<rparr>"
  have ok: "common_ok cfg" "k_ClampType cfg \<le> 1" and seg: "validSegmentationConfig (c_Segmentation cfg)"
    using assms(1,2) by (simp_all add: common_ok_def validKeyFrameStateConfig_def key_config_shape_def)
  have "FrameHeader_KeyFrame frame" by (simp add: frame_def FrameHeader_KeyFrame_def)
  from codes_key_state [OF ok assms(3) this] obtain xs where xs: "writes (WriteKeyFrameStateHeader cfg) xs None"
    unfolding codes_def by blast
  have "codes ?k (DecodeKeyFrameModeGrid rows cols (Some (segmentation_sent (c_Segmentation cfg))) hdr (replicate (length modes) zero_mode)) None
    (Inr (grid_sent (nat rows * nat cols) (key_cell_sent (c_Segmentation cfg) (c_MBNoCoeffSkip cfg) modes) (replicate (length modes) zero_mode)))"
    using codes_key_grid [of rows cols modes "replicate (length modes) zero_mode" "c_Segmentation cfg" hdr] assms(4,5) seg by (simp add: hdr_def)
  then obtain ys where ys: "writes ?k ys None" unfolding codes_def by blast
  have "spends (WriteKeyFrameStateHeader cfg \<bind> (\<lambda>_. ?k)) (9734 + 153 * (nat rows * nat cols))"
    by (rule spends_bind [OF spends_WriteKeyFrameStateHeader [OF assms(2)] spends_key_grid [OF assms(5,4)]])
  from two_messages_room [OF xs ys this] assms(6) show ?thesis by simp
qed

section \<open>Header and modes\<close>

lemma key_frame_modes:
  assumes "key_config_shape cfg" "list_all (\<lambda>m. length (km_BModes m) = 16) modes"
    and "run_state (WriteKeyFrameStateHeader cfg) (Writer_Init dst) = (None, w)"
    and "run_state (WriteKeyFrameModeGridWithSegmentationAndSkip rows cols modes (c_Segmentation cfg) (c_MBNoCoeffSkip cfg) (c_ProbSkipFalse cfg)) w = (None, w')"
    and "w_err (Finish w') = 0"
    and "put_packet_head hdr True 0 show (int (length (Bytes (Finish w')))) width height hscale vscale = Inr head" "length hdr = 10"
    and "\<not> grid_too_small rows cols (length old)"
  shows "\<exists>frame state br br' tabs. ParseStateHeader (head @ Bytes (Finish w') @ tail) previousQuant previousLoopFilter probs modeProbs =
      (Inr (frame, state, br), tabs) \<and> state = key_state_sent cfg previousQuant \<and>
    run_state (DecodeKeyFrameModeGrid rows cols (Some (st_Segmentation state)) (st_Mode state) old) br =
      (Inr (grid_sent (nat rows * nat cols) (key_cell_sent (c_Segmentation cfg) (c_MBNoCoeffSkip cfg) modes) old), br')"
proof -
  have ok: "common_ok cfg" "k_ClampType cfg \<le> 1" "coefs_ok (c_CoefficientProbs cfg)"
    using key_header_written [of cfg "Writer_Init dst"] assms(1,3) by simp_all
  define hdr' where "hdr' = st_Mode (key_state_sent cfg previousQuant)"
  have h: "mh_MBNoCoeffSkip hdr' = c_MBNoCoeffSkip cfg" "mh_ProbSkipFalse hdr' = (if c_MBNoCoeffSkip cfg then c_ProbSkipFalse cfg else 0)"
    "st_Segmentation (key_state_sent cfg previousQuant) = segmentation_sent (c_Segmentation cfg)"
    by (simp_all add: hdr'_def key_state_sent_def)
  let ?m = "WriteKeyFrameModeGridWithSegmentationAndSkip rows cols modes (c_Segmentation cfg) (c_MBNoCoeffSkip cfg) (c_ProbSkipFalse cfg)"
  have grid: "\<not> grid_too_small rows cols (length modes)" "validSegmentationConfig (c_Segmentation cfg)"
    "key_grid_ok (c_Segmentation cfg) (nat rows * nat cols) modes"
    using key_grid_written [of rows cols modes "c_Segmentation cfg" "c_MBNoCoeffSkip cfg" "c_ProbSkipFalse cfg" w] assms(2,4) by simp_all
  have m: "codes ?m (DecodeKeyFrameModeGrid rows cols (Some (segmentation_sent (c_Segmentation cfg))) hdr' old) None
      (Inr (grid_sent (nat rows * nat cols) (key_cell_sent (c_Segmentation cfg) (c_MBNoCoeffSkip cfg) modes) old))"
    using codes_key_grid [OF grid(1) assms(8) grid(2,3), of hdr'] unfolding h grid_skip_prob [symmetric] .
  have W: "snd (run_state (WriteKeyFrameStateHeader cfg \<bind> (\<lambda>_. ?m)) (Writer_Init dst)) = w'"
    using assms(3,4) by simp
  from key_packet_parses [OF ok m, of dst, unfolded W, OF assms(5,6,7), of tail previousQuant previousLoopFilter probs modeProbs]
  show ?thesis unfolding hdr'_def h(3) [symmetric] by blast
qed

text \<open>C5: The whole first partition of a key frame survives the packet. When the encoder writes the state header and the
  macroblock modes behind it without error and puts the frame tag and key-frame header in front, the decoder's header parser
  returns the configured state, and its mode decoder, started on the bit reader, the segmentation and the mode header the
  parser returned, reads back every macroblock of the grid: prediction modes and their sub-block modes, the skip flag, and
  the segment id, which is the sent one, the persisted one or 0 as the segmentation header says. Macroblocks outside the
  grid are left alone. Loop filter deltas are at most 63 in magnitude.\<close>

theorem key_frame_modes_roundtrip:
  assumes "key_config_shape cfg" "list_all (\<lambda>m. length (km_BModes m) = 16) modes"
    and "run_state (WriteKeyFrameStateHeader cfg) (Writer_Init dst) = (None, w)"
    and "run_state (WriteKeyFrameModeGridWithSegmentationAndSkip rows cols modes (c_Segmentation cfg) (c_MBNoCoeffSkip cfg) (c_ProbSkipFalse cfg)) w = (None, w')"
    and "w_err (Finish w') = 0"
    and "put_packet_head hdr True 0 show (int (length (Bytes (Finish w')))) width height hscale vscale = Inr head" "length hdr = 10"
    and "\<not> grid_too_small rows cols (length old)"
  shows "\<exists>frame state br br' tabs. ParseStateHeader (head @ Bytes (Finish w') @ tail) previousQuant previousLoopFilter probs modeProbs =
      (Inr (frame, state, br), tabs) \<and> state = key_state_sent cfg previousQuant \<and>
    run_state (DecodeKeyFrameModeGrid rows cols (Some (st_Segmentation state)) (st_Mode state) old) br =
      (Inr (grid_sent (nat rows * nat cols) (key_cell_sent (c_Segmentation cfg) (c_MBNoCoeffSkip cfg) modes) old), br')"
  by (rule key_frame_modes [OF assms])

text \<open>One row of two macroblocks, the first predicted block by block.\<close>

definition sample_key_modes :: "KeyFrameMacroblockMode list" where
  "sample_key_modes =
     [\<lparr>km_SegmentID = 2, km_YMode = BPred, km_UVMode = HPred,
       km_BModes = [0, 1, 2, 3, 4, 5, 6, 7, 8, 9, 0, 9, 3, 1, 4, 1], km_MBSkipCoeff = False\<rparr>,
      \<lparr>km_SegmentID = 1, km_YMode = TMPred, km_UVMode = DCPred, km_BModes = replicate 16 0, km_MBSkipCoeff = True\<rparr>]"

lemma sample_key_modes_ok:
  "\<not> grid_too_small 1 2 (length sample_key_modes)" "\<not> grid_too_small 1 2 (length (replicate 3 zero_mode))"
  "key_grid_ok (c_Segmentation sample_key_config) 2 sample_key_modes"
  "list_all (\<lambda>m. length (km_BModes m) = 16) sample_key_modes"
  by code_simp+

lemma key_frame_modes_roundtrip_witness:
  "\<exists>w w' head frame br br' tabs.
    run_state (WriteKeyFrameStateHeader sample_key_config) (Writer_Init (replicate 10072 0)) = (None, w) \<and>
    run_state (WriteKeyFrameModeGridWithSegmentationAndSkip 1 2 sample_key_modes (c_Segmentation sample_key_config)
      (c_MBNoCoeffSkip sample_key_config) (c_ProbSkipFalse sample_key_config)) w = (None, w') \<and>
    put_packet_head (replicate 10 0) True 0 True (int (length (Bytes (Finish w')))) 176 144 1 0 = Inr head \<and>
    ParseStateHeader (head @ Bytes (Finish w') @ [1, 2, 3]) sample_quant no_loop_filter None None =
      (Inr (frame, key_state_sent sample_key_config sample_quant, br), tabs) \<and>
    run_state (DecodeKeyFrameModeGrid 1 2 (Some (st_Segmentation (key_state_sent sample_key_config sample_quant)))
      (st_Mode (key_state_sent sample_key_config sample_quant)) (replicate 3 zero_mode)) br =
      (Inr (grid_sent 2 (key_cell_sent (c_Segmentation sample_key_config) (c_MBNoCoeffSkip sample_key_config) sample_key_modes)
        (replicate 3 zero_mode)), br')"
proof -
  have valid: "validKeyFrameStateConfig sample_key_config"
    using sample_key_config_ok(2,3) by (simp add: validKeyFrameStateConfig_def common_ok_def)
  have n: "nat 1 * nat 2 = 2" by simp
  from key_modes_room [OF valid sample_key_config_ok(1,4) sample_key_modes_ok(1), unfolded n, OF sample_key_modes_ok(3), of "replicate 10072 0"]
  obtain w w' where w: "run_state (WriteKeyFrameStateHeader sample_key_config) (Writer_Init (replicate 10072 0)) = (None, w)"
    "run_state (WriteKeyFrameModeGridWithSegmentationAndSkip 1 2 sample_key_modes (c_Segmentation sample_key_config)
      (c_MBNoCoeffSkip sample_key_config) (c_ProbSkipFalse sample_key_config)) w = (None, w')"
    "w_err (Finish w') = 0" "length (Bytes (Finish w')) \<le> 10072" by auto
  obtain head where h: "put_packet_head (replicate 10 0) True 0 True (int (length (Bytes (Finish w')))) 176 144 1 0 = Inr head"
    using sample_head [of "length (Bytes (Finish w'))"] w(4) by auto
  from key_frame_modes_roundtrip [OF sample_key_config_ok(1) sample_key_modes_ok(4) w(1-3) h length_replicate sample_key_modes_ok(2),
      of "[1, 2, 3]" sample_quant no_loop_filter None None, unfolded n]
  show ?thesis using w(1,2) h by blast
qed

text \<open>C18: The encoder can always write the first partition of a key frame: the configuration is valid and shaped as the code's
  arrays are, with loop filter deltas of at most 63 in magnitude, no probability is updated to 0, every mode of the grid is one the syntax has, and the buffer has 9,766 bytes
  and 153 more for each macroblock; then the header and the mode grid are written without error and the partition is no
  longer than the buffer.\<close>

theorem key_frame_modes_fit:
  assumes "validKeyFrameStateConfig cfg" "key_config_shape cfg" "coefs_ok (c_CoefficientProbs cfg)"
    and "\<not> grid_too_small rows cols (length modes)" "key_grid_ok (c_Segmentation cfg) (nat rows * nat cols) modes"
    and "9766 + 153 * (nat rows * nat cols) \<le> length dst"
  shows "\<exists>w w'. run_state (WriteKeyFrameStateHeader cfg) (Writer_Init dst) = (None, w) \<and>
    run_state (WriteKeyFrameModeGridWithSegmentationAndSkip rows cols modes (c_Segmentation cfg) (c_MBNoCoeffSkip cfg) (c_ProbSkipFalse cfg)) w = (None, w') \<and>
    w_err (Finish w') = 0 \<and> length (Bytes (Finish w')) \<le> length dst"
  by (rule key_modes_room [OF assms])

lemma key_frame_modes_fit_witness:
  "\<exists>w w'. run_state (WriteKeyFrameStateHeader sample_key_config) (Writer_Init (replicate 10072 0)) = (None, w) \<and>
    run_state (WriteKeyFrameModeGridWithSegmentationAndSkip 1 2 sample_key_modes (c_Segmentation sample_key_config)
      (c_MBNoCoeffSkip sample_key_config) (c_ProbSkipFalse sample_key_config)) w = (None, w') \<and>
    w_err (Finish w') = 0 \<and> length (Bytes (Finish w')) \<le> length (replicate 10072 (0 :: byte))"
  using sample_key_config_ok sample_key_modes_ok
  by (intro key_frame_modes_fit) (simp_all add: validKeyFrameStateConfig_def common_ok_def)

end
