(* ===== verification/Vp8_Inter_Codes.thy ===== *)
theory Vp8_Inter_Codes
  imports Vp8_Header_Budget
begin

text \<open>
  The inter-frame parts of the header: the reference refresh flags, the mode probabilities and the
  motion vector probabilities, whose seven-bit codes hold even values and 1.
\<close>

section \<open>Reference refresh\<close>

definition refresh_sent :: "InterFrameStateConfig \<Rightarrow> RefreshHeader" where
  "refresh_sent cfg = \<lparr>rh_RefreshLast = i_RefreshLast cfg, rh_RefreshGolden = i_RefreshGolden cfg, rh_RefreshAltRef = i_RefreshAltRef cfg,
     rh_CopyBufferToGolden = i_CopyBufferToGolden cfg, rh_CopyBufferToAltRef = i_CopyBufferToAltRef cfg,
     rh_GoldenSignBias = i_GoldenSignBias cfg, rh_AltRefSignBias = i_AltRefSignBias cfg,
     rh_RefreshEntropyProbs = c_RefreshEntropyProbs cfg\<rparr>"

lemma codes_copy_flag:
  assumes "0 \<le> copy" "copy \<le> 2" "refresh \<Longrightarrow> copy = 0"
  shows "codes (if \<not> refresh then wr (\<lambda>w. WriteLiteral w (word_of_int copy) 2) else State_Monad.return ())
    (if \<not> refresh then do { v \<leftarrow> ReadLiteral 2; State_Monad.return (uint v) } else State_Monad.return 0) () copy"
proof (rule codes_if)
  have "uint (take_bit 2 (word_of_int copy :: u32)) = copy"
    using assms(1,2) by (subst unsigned_take_bit_eq) (simp add: uint_word_small take_bit_int_eq_self)
  then show "codes (wr (\<lambda>w. WriteLiteral w (word_of_int copy) 2)) (do { v \<leftarrow> ReadLiteral 2; State_Monad.return (uint v) }) () copy"
    using codes_post [OF codes_literal [of "word_of_int copy" 2], of uint] by simp
  show "codes (State_Monad.return ()) (State_Monad.return 0) () copy" if "\<not> \<not> refresh"
    using that assms(3) codes_return [of "()" copy] by simp
qed

lemma codes_inter_refresh:
  assumes "validInterFrameStateConfig cfg" "fh_FrameType frame \<noteq> KeyFrame"
  shows "codes (writeInterRefreshHeader cfg) (parseRefreshHeader frame) () (refresh_sent cfg)"
proof -
  have golden: "codes (if \<not> i_RefreshGolden cfg then wr (\<lambda>w. WriteLiteral w (word_of_int (i_CopyBufferToGolden cfg)) 2) else State_Monad.return ())
      (if \<not> i_RefreshGolden cfg then do { v \<leftarrow> ReadLiteral 2; State_Monad.return (uint v) } else State_Monad.return 0) () (i_CopyBufferToGolden cfg)"
    and altref: "codes (if \<not> i_RefreshAltRef cfg then wr (\<lambda>w. WriteLiteral w (word_of_int (i_CopyBufferToAltRef cfg)) 2) else State_Monad.return ())
      (if \<not> i_RefreshAltRef cfg then do { v \<leftarrow> ReadLiteral 2; State_Monad.return (uint v) } else State_Monad.return 0) () (i_CopyBufferToAltRef cfg)"
    using assms(1) by (intro codes_copy_flag; auto simp: validInterFrameStateConfig_def)+
  show ?thesis
    unfolding writeInterRefreshHeader_def parseRefreshHeader_def refresh_sent_def using assms(2)
    by (simp only: if_False)
      (rule codes_bind [OF codes_writeBoolBit], rule codes_bind [OF codes_writeBoolBit], rule codes_bind [OF golden],
        rule codes_bind [OF altref], rule codes_bind [OF codes_writeBoolBit], rule codes_bind [OF codes_writeBoolBit],
        rule codes_bind [OF codes_writeBoolBit], rule codes_post [OF codes_writeBoolBit], (intro sticky_intros)+)
qed

lemma sticky_writeInterRefreshHeader [sticky_intros]: "sticky (writeInterRefreshHeader cfg)"
  unfolding writeInterRefreshHeader_def by (intro sticky_intros)

section \<open>Mode probabilities\<close>

lemma sticky_write_mode_prob [sticky_intros]: "sticky (write_mode_prob p)"
  unfolding write_mode_prob_def by (intro sticky_intros)

lemma sticky_write_mode_probs [sticky_intros]: "sticky (write_mode_probs u ps)"
  unfolding write_mode_probs_def by (intro sticky_intros sticky_write_checked)

lemma codes_prob_list:
  assumes "length ps = length cur" "0 \<notin> set ps"
  shows "codes (write_checked write_mode_prob ps) (read_array (\<lambda>p. do { v \<leftarrow> ReadLiteral 8; State_Monad.return (ucast v) }) cur) None ps"
  using assms
proof (induction ps cur rule: list_induct2)
  case Nil
  then show ?case by (simp add: codes_return)
next
  case (Cons p ps c cs)
  then have p: "p \<noteq> 0" and rest: "codes (write_checked write_mode_prob ps)
      (read_array (\<lambda>p. do { v \<leftarrow> ReadLiteral 8; State_Monad.return (ucast v) }) cs) None ps" by auto
  have w: "write_mode_prob p = do { wr (\<lambda>w. WriteLiteral w (ucast p) 8); State_Monad.return None }"
    using p by (simp add: write_mode_prob_def)
  show ?case
    unfolding write_checked.simps read_array.simps w
    by (rule codes_assoc_left, rule codes_bind [OF codes_byte], rule codes_ret_left, simp only: simp_thms if_False,
        rule codes_post [OF rest], intro sticky_intros sticky_write_checked)
qed

lemma codes_mode_probs:
  assumes "length ps = length cur" "u \<Longrightarrow> 0 \<notin> set ps" "codes (K None) (R u (if u then ps else cur)) r s" "\<And>e. sticky (K e)"
  shows "codes (write_mode_probs u ps \<bind> K)
    (do { b \<leftarrow> ReadBit;
          y \<leftarrow> (if b then read_array (\<lambda>p. do { v \<leftarrow> ReadLiteral 8; State_Monad.return (ucast v) }) cur else State_Monad.return cur);
          R b y }) r s"
proof (cases u)
  case True
  then have R: "codes (K None) (R True ps) r s" using assms(3) by simp
  show ?thesis
    unfolding write_mode_probs_def using True
    by (simp only: if_True) (rule codes_assoc_left, rule codes_bind [OF codes_bit1], simp only: if_True,
      rule codes_bind [OF codes_prob_list], use assms(1,2) R in \<open>simp_all add: assms(4)\<close>, intro sticky_intros sticky_write_checked assms(4))
next
  case False
  then have R: "codes (K None) (R False cur) r s" using assms(3) by simp
  show ?thesis
    unfolding write_mode_probs_def using False
    by (simp only: if_False) (rule codes_assoc_left, rule codes_bind [OF codes_bit0], simp only: simp_thms if_False,
      rule codes_ret_left, rule codes_ret_right, rule R, intro sticky_intros assms(4))
qed

section \<open>Motion vector probabilities\<close>

lemma sticky_write_mv_update [sticky_intros]: "sticky (write_mv_update x)"
  unfolding write_mv_update_def split_beta by (intro sticky_intros)

text \<open>The seven-bit code of a probability and its value for the decoder.\<close>

lemma mv_prob_code:
  assumes "encodeMotionVectorProbabilityUpdate p = (e, True)"
  shows "unat e < 2 ^ 7" "(if e \<noteq> 0 then push_bit 1 e else 1) = p"
proof -
  have all: "list_all (\<lambda>n. let p = word_of_nat n :: byte; (e, ok) = encodeMotionVectorProbabilityUpdate p
      in ok \<longrightarrow> unat e < 128 \<and> (if e \<noteq> 0 then push_bit 1 e else 1) = p) [0..<256]" by code_simp
  have "unat p \<in> set [0..<256]" using unat_byte_lt [of p] by simp
  from all [unfolded list_all_iff, rule_format, OF this]
  show "unat e < 2 ^ 7" "(if e \<noteq> 0 then push_bit 1 e else 1) = p" using assms by simp_all
qed

lemma codes_mv_row:
  assumes "length us = length ps" "length ps = length ts" "length ts = length cs"
    and "\<forall>(u, p) \<in> set (zip us ps). u \<longrightarrow> snd (encodeMotionVectorProbabilityUpdate p)"
  shows "codes (write_checked write_mv_update (zip3 us ps ts)) (read_mv_updates ts cs n) None
    (map2 (\<lambda>(u, p) c. if u then p else c) (zip us ps) cs, n + length (filter id us))"
  using assms
proof (induction us ps ts cs arbitrary: n rule: list_induct4)
  case Nil
  then show ?case by (simp add: zip3_def codes_return)
next
  case (Cons u us p ps t ts c cs)
  have rest: "codes (write_checked write_mv_update (zip3 us ps ts)) (read_mv_updates ts cs k) None
      (map2 (\<lambda>(u, p) c. if u then p else c) (zip us ps) cs, k + length (filter id us))" for k
    by (rule Cons.IH) (use Cons.prems in simp)
  have z: "zip3 (u # us) (p # ps) (t # ts) = (u, p, t) # zip3 us ps ts" by (simp add: zip3_def)
  show ?case
  proof (cases u)
    case True
    obtain e where e: "encodeMotionVectorProbabilityUpdate p = (e, True)" using Cons.prems True by (cases "encodeMotionVectorProbabilityUpdate p") auto
    note code = mv_prob_code [OF e]
    have w: "write_mv_update (u, p, t) = do {
        wr (\<lambda>w. WriteBool w 1 t); wr (\<lambda>w. WriteLiteral w (ucast e) 7); State_Monad.return None }"
      using True e by (simp add: write_mv_update_def)
    have bool1: "codes (wr (\<lambda>w. WriteBool w 1 t)) (ReadBool t) () True" using codes_bool [of True t] by simp
    have lit: "codes (wr (\<lambda>w. WriteLiteral w (ucast e) 7)) (ReadLiteral 7) () (ucast e)"
      using codes_small [OF code(1)] by simp
    have post: "codes (write_checked write_mv_update (zip3 us ps ts))
        (do { r \<leftarrow> read_mv_updates ts cs (n + 1); State_Monad.return (p # fst r, snd r) }) None
        (map2 (\<lambda>(u, p) c. if u then p else c) (zip (u # us) (p # ps)) (c # cs), n + length (filter id (u # us)))"
      using codes_post [OF rest [of "n + 1"], of "\<lambda>r. (p # fst r, snd r)"] True by simp
    show ?thesis
      unfolding z write_checked.simps read_mv_updates.simps w
      by (rule codes_assoc_left, rule codes_bind [OF bool1], simp only: simp_thms if_False, rule codes_assoc_left,
          rule codes_bind [OF lit], rule codes_ret_left, simp only: simp_thms if_False ucast_byte_u32 code(2) post,
          (intro sticky_intros sticky_write_checked)+)
  next
    case False
    have w: "write_mv_update (u, p, t) = do { wr (\<lambda>w. WriteBool w 0 t); State_Monad.return None }"
      using False by (simp add: write_mv_update_def)
    have bool0: "codes (wr (\<lambda>w. WriteBool w 0 t)) (ReadBool t) () False" using codes_bool [of False t] by simp
    have post: "codes (write_checked write_mv_update (zip3 us ps ts))
        (do { r \<leftarrow> read_mv_updates ts cs n; State_Monad.return (c # fst r, snd r) }) None
        (map2 (\<lambda>(u, p) c. if u then p else c) (zip (u # us) (p # ps)) (c # cs), n + length (filter id (u # us)))"
      using codes_post [OF rest [of n], of "\<lambda>r. (c # fst r, snd r)"] False by simp
    show ?thesis
      unfolding z write_checked.simps read_mv_updates.simps w
      by (rule codes_assoc_left, rule codes_bind [OF bool0], simp only: simp_thms if_True, rule codes_ret_left,
          simp only: simp_thms if_False post, (intro sticky_intros sticky_write_checked)+)
  qed
qed

section \<open>The mode header and the state header\<close>

definition mv_row_sent :: "InterFrameStateConfig \<Rightarrow> byte list list \<Rightarrow> nat \<Rightarrow> byte list" where
  "mv_row_sent cfg cur i = map2 (\<lambda>(u, p) c. if u then p else c) (zip (i_MVUpdate cfg ! i) (i_MVProbs cfg ! i)) (cur ! i)"

definition mode_probs_sent :: "InterFrameStateConfig \<Rightarrow> ModeProbs \<Rightarrow> ModeProbs" where
  "mode_probs_sent cfg p = p\<lparr>
     mp_YMode := (if i_YModeUpdate cfg then i_YModeProbs cfg else mp_YMode p),
     mp_UVMode := (if i_UVModeUpdate cfg then i_UVModeProbs cfg else mp_UVMode p),
     mp_MV := [mv_row_sent cfg (mp_MV p) 0, mv_row_sent cfg (mp_MV p) 1]\<rparr>"

definition mode_header_sent :: "InterFrameStateConfig \<Rightarrow> ModeHeader" where
  "mode_header_sent cfg = \<lparr>mh_MBNoCoeffSkip = c_MBNoCoeffSkip cfg,
     mh_ProbSkipFalse = (if c_MBNoCoeffSkip cfg then c_ProbSkipFalse cfg else 0),
     mh_ProbIntra = i_ProbIntra cfg, mh_ProbLast = i_ProbLast cfg, mh_ProbGolden = i_ProbGolden cfg,
     mh_YModeUpdated = i_YModeUpdate cfg, mh_UVModeUpdated = i_UVModeUpdate cfg,
     mh_MVUpdateCount = length (filter id (i_MVUpdate cfg ! 0)) + length (filter id (i_MVUpdate cfg ! 1))\<rparr>"

text \<open>Arrays of the lengths the Go types fix.\<close>

definition mode_probs_shape :: "ModeProbs \<Rightarrow> bool" where
  "mode_probs_shape p \<longleftrightarrow> length (mp_YMode p) = 4 \<and> length (mp_UVMode p) = 3 \<and> map length (mp_MV p) = [19, 19]"

definition inter_config_shape :: "InterFrameStateConfig \<Rightarrow> bool" where
  "inter_config_shape cfg \<longleftrightarrow> segmentation_shape (c_Segmentation cfg) \<and> lf_config_ok cfg \<and>
     coef_shape (cu_Update (c_CoefficientProbs cfg)) \<and> coef_shape (cu_Probs (c_CoefficientProbs cfg)) \<and>
     length (i_YModeProbs cfg) = 4 \<and> length (i_UVModeProbs cfg) = 3 \<and>
     map length (i_MVProbs cfg) = [19, 19] \<and> map length (i_MVUpdate cfg) = [19, 19]"

text \<open>What the writers demand of the values.\<close>

definition mode_values_ok :: "InterFrameStateConfig \<Rightarrow> bool" where
  "mode_values_ok cfg \<longleftrightarrow> (i_YModeUpdate cfg \<longrightarrow> 0 \<notin> set (i_YModeProbs cfg)) \<and> (i_UVModeUpdate cfg \<longrightarrow> 0 \<notin> set (i_UVModeProbs cfg)) \<and>
     (\<forall>i<2. \<forall>(u, p) \<in> set (zip (i_MVUpdate cfg ! i) (i_MVProbs cfg ! i)). u \<longrightarrow> snd (encodeMotionVectorProbabilityUpdate p))"

lemma list_two: "map length xs = [m, n] \<Longrightarrow> xs = [xs ! 0, xs ! 1] \<and> length (xs ! 0) = m \<and> length (xs ! 1) = n"
  by (auto simp: Cons_eq_map_conv)

lemma reset_mode_probs_shape: "mode_probs_shape ResetModeProbs"
  by code_simp

lemma sticky_writeInterModeHeader [sticky_intros]: "sticky (writeInterModeHeader cfg)"
  unfolding writeInterModeHeader_def
  by (intro sticky_intros sticky_write_checked) (auto simp: split_beta intro!: sticky_intros sticky_write_checked)

lemma codes_mv_tables:
  assumes "inter_config_shape cfg" "mode_values_ok cfg" "map length cur = [19, 19]"
    "codes (K None) (R (mv_row_sent cfg cur 0, length (filter id (i_MVUpdate cfg ! 0)))
      (mv_row_sent cfg cur 1, length (filter id (i_MVUpdate cfg ! 0)) + length (filter id (i_MVUpdate cfg ! 1)))) r s"
    "\<And>e. sticky (K e)"
  shows "codes (write_checked (\<lambda>(u, p, t). write_checked write_mv_update (zip3 u p t)) (zip3 (i_MVUpdate cfg) (i_MVProbs cfg) MVUpdateProbs) \<bind> K)
    (do { row \<leftarrow> read_mv_updates (MVUpdateProbs ! 0) (cur ! 0) 0;
          col \<leftarrow> read_mv_updates (MVUpdateProbs ! 1) (cur ! 1) (snd row);
          R row col }) r s"
proof -
  have t: "map length MVUpdateProbs = [19, 19]" by code_simp
  have m: "map length (i_MVUpdate cfg) = [19, 19]" "map length (i_MVProbs cfg) = [19, 19]"
    using assms(1) by (simp_all only: inter_config_shape_def)
  have U: "i_MVUpdate cfg = [i_MVUpdate cfg ! 0, i_MVUpdate cfg ! 1]" "length (i_MVUpdate cfg ! 0) = 19" "length (i_MVUpdate cfg ! 1) = 19"
    and P: "i_MVProbs cfg = [i_MVProbs cfg ! 0, i_MVProbs cfg ! 1]" "length (i_MVProbs cfg ! 0) = 19" "length (i_MVProbs cfg ! 1) = 19"
    using list_two [OF m(1)] list_two [OF m(2)] by blast+
  have T: "MVUpdateProbs = [MVUpdateProbs ! 0, MVUpdateProbs ! 1]" "length (MVUpdateProbs ! 0) = 19" "length (MVUpdateProbs ! 1) = 19"
    and C: "length (cur ! 0) = 19" "length (cur ! 1) = 19"
    using list_two [OF t] list_two [OF assms(3)] by blast+
  have z: "zip3 (i_MVUpdate cfg) (i_MVProbs cfg) MVUpdateProbs =
      [(i_MVUpdate cfg ! 0, i_MVProbs cfg ! 0, MVUpdateProbs ! 0), (i_MVUpdate cfg ! 1, i_MVProbs cfg ! 1, MVUpdateProbs ! 1)]"
    by (subst U(1), subst P(1), subst T(1)) (simp add: zip3_def)
  have vals: "\<forall>(u, p) \<in> set (zip (i_MVUpdate cfg ! i) (i_MVProbs cfg ! i)). u \<longrightarrow> snd (encodeMotionVectorProbabilityUpdate p)" if "i < 2" for i
    using assms(2) that unfolding mode_values_ok_def by blast
  have two: "0 < (2 :: nat)" "1 < (2 :: nat)" by simp_all
  have row: "codes (write_checked write_mv_update (zip3 (i_MVUpdate cfg ! 0) (i_MVProbs cfg ! 0) (MVUpdateProbs ! 0)))
      (read_mv_updates (MVUpdateProbs ! 0) (cur ! 0) 0) None (mv_row_sent cfg cur 0, length (filter id (i_MVUpdate cfg ! 0)))"
    using codes_mv_row [OF _ _ _ vals [OF two(1)], of "MVUpdateProbs ! 0" "cur ! 0" 0] U(2) P(2) T(2) C(1) by (simp add: mv_row_sent_def)
  have col: "codes (write_checked write_mv_update (zip3 (i_MVUpdate cfg ! 1) (i_MVProbs cfg ! 1) (MVUpdateProbs ! 1)))
      (read_mv_updates (MVUpdateProbs ! 1) (cur ! 1) n) None (mv_row_sent cfg cur 1, n + length (filter id (i_MVUpdate cfg ! 1)))" for n
    unfolding mv_row_sent_def by (rule codes_mv_row [OF _ _ _ vals [OF two(2)]]) (simp_all only: U(3) P(3) T(3) C(2))
  show ?thesis
    unfolding z write_checked.simps prod.case
    by (rule codes_assoc_left, rule codes_bind [OF row], simp only: simp_thms if_False, rule codes_assoc_left,
        simp only: snd_conv, rule codes_bind [OF col], simp only: simp_thms if_False, rule codes_ret_left, rule assms(4),
        (intro sticky_intros sticky_write_checked assms(5))+)
qed

lemma codes_mode_header:
  assumes "inter_config_shape cfg" "mode_values_ok cfg" "\<And>p. probs = Some p \<Longrightarrow> mode_probs_shape p"
  shows "codes (writeInterModeHeader cfg) (parseModeHeaderInto False probs) None
    (map_option (mode_probs_sent cfg) probs, mode_header_sent cfg)"
proof -
  define cur where "cur = (case probs of Some p \<Rightarrow> p | None \<Rightarrow> ResetModeProbs)"
  have cur: "length (mp_YMode cur) = 4" "length (mp_UVMode cur) = 3" "map length (mp_MV cur) = [19, 19]"
    using assms(3) reset_mode_probs_shape unfolding cur_def mode_probs_shape_def by (auto split: option.splits)
  have len: "length (i_YModeProbs cfg) = length (mp_YMode cur)" "length (i_UVModeProbs cfg) = length (mp_UVMode cur)"
    using assms(1) cur(1,2) by (simp_all only: inter_config_shape_def)
  have nz: "i_YModeUpdate cfg \<Longrightarrow> 0 \<notin> set (i_YModeProbs cfg)" "i_UVModeUpdate cfg \<Longrightarrow> 0 \<notin> set (i_UVModeProbs cfg)"
    using assms(2) by (simp_all only: mode_values_ok_def simp_thms)
  have skip: "codes (if c_MBNoCoeffSkip cfg then wr (\<lambda>w. WriteLiteral w (ucast (c_ProbSkipFalse cfg)) 8) else State_Monad.return ())
      (if c_MBNoCoeffSkip cfg then do { v \<leftarrow> ReadLiteral 8; State_Monad.return (ucast v) } else State_Monad.return 0) ()
      (if c_MBNoCoeffSkip cfg then c_ProbSkipFalse cfg else 0)"
    by (rule codes_if) (simp_all add: codes_byte codes_return)
  have fin: "codes (if None \<noteq> None then State_Monad.return None else return_err)
      (State_Monad.return (map_option (\<lambda>p. p\<lparr>mp_YMode := if i_YModeUpdate cfg then i_YModeProbs cfg else mp_YMode cur,
          mp_UVMode := if i_UVModeUpdate cfg then i_UVModeProbs cfg else mp_UVMode cur,
          mp_MV := [mv_row_sent cfg (mp_MV cur) 0, mv_row_sent cfg (mp_MV cur) 1]\<rparr>) probs, mode_header_sent cfg))
      None (map_option (mode_probs_sent cfg) probs, mode_header_sent cfg)"
  proof -
    have "map_option (\<lambda>p. p\<lparr>mp_YMode := if i_YModeUpdate cfg then i_YModeProbs cfg else mp_YMode cur,
          mp_UVMode := if i_UVModeUpdate cfg then i_UVModeProbs cfg else mp_UVMode cur,
          mp_MV := [mv_row_sent cfg (mp_MV cur) 0, mv_row_sent cfg (mp_MV cur) 1]\<rparr>) probs = map_option (mode_probs_sent cfg) probs"
      by (cases probs) (simp_all add: cur_def mode_probs_sent_def)
    then show ?thesis by (simp only: simp_thms if_False codes_return_err)
  qed
  note fin' = fin [unfolded mode_header_sent_def]
  show ?thesis
    unfolding writeInterModeHeader_def parseModeHeaderInto_def Let_def cur_def [symmetric] mode_header_sent_def
      ModeHeader.update_convs if_False
    by (rule codes_bind [OF codes_writeBoolBit], rule codes_bind [OF skip], rule codes_bind [OF codes_byte8],
        rule codes_bind [OF codes_byte8], rule codes_bind [OF codes_byte8],
        rule codes_mode_probs [OF len(1) nz(1)], assumption, simp only: simp_thms if_False,
        rule codes_mode_probs [OF len(2) nz(2)], assumption, simp only: simp_thms if_False,
        rule codes_mv_tables [OF assms(1,2) cur(3)], simp only: fst_conv snd_conv ucast_byte_u32, rule fin',
        (intro sticky_intros sticky_write_checked; (simp add: split_beta)?; (intro sticky_intros sticky_write_checked)?)+)
qed

lemma sticky_WriteInterFrameStateHeader [sticky_intros]: "sticky (WriteInterFrameStateHeader cfg)"
  unfolding WriteInterFrameStateHeader_def by (intro sticky_intros)

definition inter_state_sent :: "InterFrameStateConfig \<Rightarrow> QuantHeader \<Rightarrow> LoopFilterHeader \<Rightarrow> StateHeader" where
  "inter_state_sent cfg previousQuant previousLoopFilter = \<lparr>st_ColorSpace = 0, st_ClampType = 0,
     st_Segmentation = segmentation_sent (c_Segmentation cfg), st_LoopFilter = loop_filter_sent cfg previousLoopFilter,
     st_TokenPartition = c_TokenPartition cfg, st_Quant = quant_sent cfg previousQuant, st_Refresh = refresh_sent cfg,
     st_Probability = snd (coef_sent (c_CoefficientProbs cfg) None), st_Mode = mode_header_sent cfg\<rparr>"

text \<open>The tables a decoder holds when it meets an inter frame.\<close>

definition tables_shape :: "LoopFilterHeader \<Rightarrow> byte list option \<Rightarrow> ModeProbs option \<Rightarrow> bool" where
  "tables_shape lf probs modeProbs \<longleftrightarrow> length (lf_RefDeltas lf) = 4 \<and> length (lf_ModeDeltas lf) = 4 \<and>
     (case probs of Some t \<Rightarrow> length t = 1056 | None \<Rightarrow> True) \<and> (case modeProbs of Some p \<Rightarrow> mode_probs_shape p | None \<Rightarrow> True)"

lemma codes_inter_state:
  assumes "validInterFrameStateConfig cfg" "inter_config_shape cfg" "coefs_ok (c_CoefficientProbs cfg)" "mode_values_ok cfg"
    and "fh_FrameType frame \<noteq> KeyFrame" "tables_shape previousLoopFilter probs modeProbs"
  shows "codes (WriteInterFrameStateHeader cfg) (parse_state_bits frame previousQuant previousLoopFilter probs modeProbs) None
    (inter_state_sent cfg previousQuant previousLoopFilter, fst (coef_sent (c_CoefficientProbs cfg) probs),
     map_option (mode_probs_sent cfg) modeProbs)"
proof -
  have common: "common_ok cfg"
    using assms(1,2) by (simp add: common_ok_def validInterFrameStateConfig_def inter_config_shape_def)
  have tab: "length (lf_RefDeltas previousLoopFilter) = 4" "length (lf_ModeDeltas previousLoopFilter) = 4"
    "\<forall>t. probs = Some t \<longrightarrow> length t = 1056" "\<And>p. modeProbs = Some p \<Longrightarrow> mode_probs_shape p"
    using assms(6) by (auto simp: tables_shape_def)
  have coefs: "codes (WriteCoefficientProbabilityUpdates (c_CoefficientProbs cfg)) (parseCoefficientProbabilityHeaderInto probs) None
      (coef_sent (c_CoefficientProbs cfg) probs)"
    using assms(3) tab(3) by (intro codes_coefficients) (auto simp: coefs_ok_def)
  have key: "FrameHeader_KeyFrame frame = False" using assms(5) by (simp add: FrameHeader_KeyFrame_def)
  note refresh = codes_inter_refresh [OF assms(1,5)]
  note mode = codes_mode_header [OF assms(2,4) tab(4)]
  have fin: "codes (if None \<noteq> None then State_Monad.return None else return_err) (State_Monad.return x) None x" for x :: 'z
    by (simp only: simp_thms if_False codes_return_err)
  show ?thesis
    unfolding WriteInterFrameStateHeader_def parse_state_bits_def Let_def key if_False using assms(1)
    by (simp only: simp_thms if_False)
      (rule codes_ret_right, rule codes_state_common [OF common tab(1,2)], intro sticky_intros, simp only: simp_thms if_False,
        rule codes_bind [OF refresh], rule codes_bind [OF coefs], simp only: simp_thms if_False,
        rule codes_bind [OF mode], assumption,
        simp only: simp_thms if_False fst_conv snd_conv ucast_byte_u32 inter_state_sent_def coef_sent_header [of _ probs] codes_return_err,
        (intro sticky_intros)+)
qed

end
