(* ===== verification/Vp8_Inter_Roundtrip.thy ===== *)
theory Vp8_Inter_Roundtrip
  imports Vp8_Inter_Codes Vp8_Header_Roundtrip
begin

text \<open>
  Inter frames: the header the encoder writes after the three-byte tag, read back by the parser on
  top of the tables the decoder kept from earlier frames.
\<close>

lemma mode_probs_written:
  assumes "fst (run_state (write_mode_probs u ps) w) = None" "u"
  shows "0 \<notin> set ps"
proof
  assume z: "0 \<in> set ps"
  have "\<exists>w. fst (run_state (write_checked write_mode_prob ps) w) = None"
    using assms by (auto simp: write_mode_probs_def split: prod.splits)
  then obtain w1 where "fst (run_state (write_checked write_mode_prob ps) w1) = None" ..
  from write_checked_None [OF this z] show False by (auto simp: write_mode_prob_def)
qed

lemma mv_updates_written:
  assumes "fst (run_state (write_checked (\<lambda>(u, p, t). write_checked write_mv_update (zip3 u p t)) (zip3 us ps MVUpdateProbs)) w) = None"
    and "map length us = [19, 19]" "map length ps = [19, 19]" "i < 2"
  shows "\<forall>(u, p) \<in> set (zip (us ! i) (ps ! i)). u \<longrightarrow> snd (encodeMotionVectorProbabilityUpdate p)"
proof -
  have t: "map length MVUpdateProbs = [19, 19]" by code_simp
  have len: "length us = 2" "length ps = 2" "length MVUpdateProbs = 2"
    using assms(2,3) t by (auto dest!: arg_cong [where f = length])
  have row: "length (xs ! i) = 19" if "map length xs = [19, 19]" for xs :: "'z list list"
    using that assms(4) by (auto simp: less_2_cases_iff Cons_eq_map_conv)
  have "zip3 us ps MVUpdateProbs ! i = (us ! i, ps ! i, MVUpdateProbs ! i)" "i < length (zip3 us ps MVUpdateProbs)"
    using len assms(4) by (simp_all add: zip3_def)
  then have "(us ! i, ps ! i, MVUpdateProbs ! i) \<in> set (zip3 us ps MVUpdateProbs)" by (metis nth_mem)
  from write_checked_None [OF assms(1) this]
  obtain w1 where w1: "fst (run_state (write_checked write_mv_update (zip3 (us ! i) (ps ! i) (MVUpdateProbs ! i))) w1) = None" by auto
  show ?thesis
  proof (intro ballI, clarify)
    fix u p assume "(u, p) \<in> set (zip (us ! i) (ps ! i))" and u: u
    then obtain j where j: "j < 19" "us ! i ! j = u" "ps ! i ! j = p"
      using row [OF assms(2)] row [OF assms(3)] by (auto simp: set_zip)
    then have "zip3 (us ! i) (ps ! i) (MVUpdateProbs ! i) ! j = (u, p, MVUpdateProbs ! i ! j)"
      "j < length (zip3 (us ! i) (ps ! i) (MVUpdateProbs ! i))"
      using row [OF assms(2)] row [OF assms(3)] row [OF t] by (simp_all add: zip3_def)
    then have "(u, p, MVUpdateProbs ! i ! j) \<in> set (zip3 (us ! i) (ps ! i) (MVUpdateProbs ! i))" by (metis nth_mem)
    from write_checked_None [OF w1 this] show "snd (encodeMotionVectorProbabilityUpdate p)"
      using u by (auto simp: write_mv_update_def split_beta split: if_split_asm)
  qed
qed

lemma mode_header_written:
  assumes "fst (run_state (writeInterModeHeader cfg) w) = None" "inter_config_shape cfg"
  shows "mode_values_ok cfg"
proof -
  have w: "\<exists>w. fst (run_state (write_mode_probs (i_YModeUpdate cfg) (i_YModeProbs cfg)) w) = None"
    "\<exists>w. fst (run_state (write_mode_probs (i_UVModeUpdate cfg) (i_UVModeProbs cfg)) w) = None"
    "\<exists>w. fst (run_state (write_checked (\<lambda>(u, p, t). write_checked write_mv_update (zip3 u p t))
                (zip3 (i_MVUpdate cfg) (i_MVProbs cfg) MVUpdateProbs)) w) = None"
    using assms(1) unfolding writeInterModeHeader_def by (auto split: if_split_asm prod.splits) (metis fst_conv)+
  have len: "map length (i_MVUpdate cfg) = [19, 19]" "map length (i_MVProbs cfg) = [19, 19]"
    using assms(2) by (simp_all only: inter_config_shape_def)
  obtain w3 where w3: "fst (run_state (write_checked (\<lambda>(u, p, t). write_checked write_mv_update (zip3 u p t))
                (zip3 (i_MVUpdate cfg) (i_MVProbs cfg) MVUpdateProbs)) w3) = None" using w(3) ..
  have mv: "\<forall>i<2. \<forall>(u, p) \<in> set (zip (i_MVUpdate cfg ! i) (i_MVProbs cfg ! i)). u \<longrightarrow> snd (encodeMotionVectorProbabilityUpdate p)"
    using mv_updates_written [OF w3 len] by (intro allI impI)
  show ?thesis
    unfolding mode_values_ok_def using mv w(1,2) mode_probs_written by blast
qed

lemma inter_header_written:
  assumes "fst (run_state (WriteInterFrameStateHeader cfg) w) = None" "inter_config_shape cfg"
  shows "validInterFrameStateConfig cfg \<and> coefs_ok (c_CoefficientProbs cfg) \<and> mode_values_ok cfg"
proof -
  have valid: "validInterFrameStateConfig cfg"
    using assms(1) by (auto simp: WriteInterFrameStateHeader_def split: if_split_asm)
  have w: "\<exists>w'. fst (run_state (WriteCoefficientProbabilityUpdates (c_CoefficientProbs cfg)) w') = None"
    "\<exists>w'. fst (run_state (writeInterModeHeader cfg) w') = None"
    using assms(1) valid unfolding WriteInterFrameStateHeader_def
    by (auto split: if_split_asm prod.splits) (metis fst_conv)+
  have "coef_shape (cu_Update (c_CoefficientProbs cfg))" "coef_shape (cu_Probs (c_CoefficientProbs cfg))"
    using assms(2) by (simp_all only: inter_config_shape_def)
  then show ?thesis using valid w coefs_written mode_header_written [OF _ assms(2)] by blast
qed

section \<open>Room\<close>

lemma spends_writeInterModeHeader:
  assumes "inter_config_shape cfg"
  shows "spends (writeInterModeHeader cfg) 395"
proof -
  have p: "spends (write_mode_prob x) 8" for x
    unfolding write_mode_prob_def by (rule spends_mono, (rule spends_intros)+) simp
  have ps: "spends (write_mode_probs u xs) (1 + n * 8)" if "length xs = n" for u xs n
    unfolding write_mode_probs_def
    by (rule spends_mono, (rule spends_write_checked [OF p] spends_intros)+) (simp add: that)
  have v: "spends (write_mv_update x) 8" for x
    unfolding write_mv_update_def split_beta by (rule spends_mono, (rule spends_intros)+) simp
  have t: "map length MVUpdateProbs = [19, 19]" by code_simp
  have rows: "spends (case x of (u, p, t) \<Rightarrow> write_checked write_mv_update (zip3 u p t)) (19 * 8)"
    if "x \<in> set (zip3 (i_MVUpdate cfg) (i_MVProbs cfg) MVUpdateProbs)" for x
  proof -
    obtain u q t' where x: "x = (u, q, t')" by (metis prod_cases3)
    have "u \<in> set (i_MVUpdate cfg)" using that by (auto simp: x zip3_def dest: set_zip_leftD)
    moreover have "map length (i_MVUpdate cfg) = [19, 19]" using assms by (simp_all only: inter_config_shape_def)
    ultimately have "length u = 19" by (auto simp: Cons_eq_map_conv)
    then show ?thesis unfolding x prod.case by (intro spends_mono [OF spends_write_checked [OF v]]) (simp add: zip3_def)
  qed
  have "map length (i_MVUpdate cfg) = [19, 19]" using assms by (simp_all only: inter_config_shape_def)
  then have "length (i_MVUpdate cfg) = 2" by (auto dest!: arg_cong [where f = length])
  then have "length (zip3 (i_MVUpdate cfg) (i_MVProbs cfg) MVUpdateProbs) * (19 * 8) \<le> 304" by (simp add: zip3_def)
  then have mv: "spends (write_checked (\<lambda>(u, p, t). write_checked write_mv_update (zip3 u p t)) (zip3 (i_MVUpdate cfg) (i_MVProbs cfg) MVUpdateProbs)) 304"
    by (rule spends_mono [OF spends_write_checked_on [OF rows], rotated]) 
  have y: "spends (write_mode_probs (i_YModeUpdate cfg) (i_YModeProbs cfg)) 33"
    and uv: "spends (write_mode_probs (i_UVModeUpdate cfg) (i_UVModeProbs cfg)) 25"
    using ps [of "i_YModeProbs cfg" 4] ps [of "i_UVModeProbs cfg" 3] assms by (simp_all add: inter_config_shape_def)
  show ?thesis
    unfolding writeInterModeHeader_def
    by (rule spends_mono, (rule y uv mv spends_intros)+) simp
qed

lemma spends_WriteInterFrameStateHeader:
  assumes "inter_config_shape cfg"
  shows "spends (WriteInterFrameStateHeader cfg) 10127"
proof -
  have shape: "segmentation_shape (c_Segmentation cfg)" "lf_config_ok cfg"
    "coef_shape (cu_Update (c_CoefficientProbs cfg))" "coef_shape (cu_Probs (c_CoefficientProbs cfg))"
    using assms by (simp_all only: inter_config_shape_def)
  have r: "spends (writeInterRefreshHeader cfg) 10"
    unfolding writeInterRefreshHeader_def by (rule spends_mono, (rule spends_intros)+) simp
  show ?thesis
    unfolding WriteInterFrameStateHeader_def
    by (rule spends_mono, (rule spends_write_state_common [OF shape(1,2)] spends_coefficients [OF shape(3,4)] r
        spends_writeInterModeHeader [OF assms] spends_intros)+) simp
qed

lemma inter_header_room:
  assumes "validInterFrameStateConfig cfg" "inter_config_shape cfg" "coefs_ok (c_CoefficientProbs cfg)" "mode_values_ok cfg"
    and "10159 + length rest \<le> length dst"
  shows "\<exists>w. run_state (WriteInterFrameStateHeader cfg) (Writer_Init dst) = (None, w) \<and>
    w_err (Finish (write_bools w rest)) = 0 \<and> length (Bytes (Finish (write_bools w rest))) \<le> length dst"
proof -
  define frame where "frame = \<lparr>fh_FrameType = InterFrame, fh_Profile = 0, fh_ShowFrame = True, fh_FirstPartitionSize = 0,
    fh_HeaderSize = 3, fh_Width = 0, fh_Height = 0, fh_HorizScale = 0, fh_VertScale = 0\<rparr>"
  have "fh_FrameType frame \<noteq> KeyFrame" "tables_shape no_loop_filter None None"
    by (simp_all add: frame_def tables_shape_def no_loop_filter_def)
  from codes_inter_state [OF assms(1-4) this] obtain xs where "writes (WriteInterFrameStateHeader cfg) xs None"
    unfolding codes_def by blast
  then show ?thesis using spends_WriteInterFrameStateHeader [OF assms(2)] by (rule message_room) (use assms(5) in linarith)
qed

text \<open>An inter frame that refreshes the golden frame, copies into the alternate one and changes some tables.\<close>

definition sample_inter_config :: InterFrameStateConfig where
  "sample_inter_config = \<lparr>
     c_Segmentation = \<lparr>sc_Enabled = True, sc_UpdateMap = False, sc_UpdateData = True, sc_AbsDelta = False,
       sc_FeatureData = [[10, -20, 0, 0], [0, 0, 63, -1]],
       sc_FeatureEnabled = [[True, True, False, False], [False, False, True, True]],
       sc_TreeProbs = [200, 0, 7], sc_TreeProbUpdated = [True, False, True]\<rparr>,
     c_SimpleLoopFilter = False, c_LoopFilterLevel = 63, c_SharpnessLevel = 7, c_LFDeltaEnabled = True,
     c_LFDeltaUpdate = True, c_LFDeltaForceUpdateAll = True, c_RefLFDeltas = [2, 0, -2, -63],
     c_ModeLFDeltas = [4, -2, 2, 4], c_RefLFDeltasBase = replicate 4 0, c_ModeLFDeltasBase = replicate 4 0,
     c_TokenPartition = 3, c_BaseQIndex = 127,
     c_QuantDeltas = \<lparr>qd_Y1DC = 0, qd_Y2DC = -15, qd_Y2AC = 3, qd_UVDC = 0, qd_UVAC = 15\<rparr>,
     c_RefreshEntropyProbs = False,
     c_CoefficientProbs = \<lparr>cu_Probs = DefaultCoefProbs,
       cu_Update = map (map (map (map (\<lambda>p. p = 253)))) DefaultCoefProbs, cu_UpdateCount = 32, cu_SavingsBits = 0\<rparr>,
     c_MBNoCoeffSkip = True, c_ProbSkipFalse = 77,
     i_InvisibleFrame = False, i_RefreshLast = True, i_RefreshGolden = True, i_RefreshAltRef = False, i_CopyBufferToGolden = 0, i_CopyBufferToAltRef = 2,
     i_GoldenSignBias = False, i_AltRefSignBias = True, i_IndependentContexts = False, i_ProbIntra = 0, i_ProbLast = 128, i_ProbGolden = 255,
     i_YModeProbs = [1, 2, 3, 255], i_YModeBase = DefaultYModeProbs, i_YModeUpdate = True,
     i_UVModeProbs = [0, 2, 3], i_UVModeBase = DefaultUVModeProbs, i_UVModeUpdate = False, i_BModeBase = DefaultBModeProbs,
     i_MVProbs = [1 # replicate 18 254, replicate 19 3], i_MVBase = DefaultMVContext,
     i_MVUpdate = [replicate 19 True, replicate 19 False], i_MVUpdateCount = 19\<rparr>"

lemma sample_inter_config_ok:
  "inter_config_shape sample_inter_config" "validInterFrameStateConfig sample_inter_config"
  "coefs_ok (c_CoefficientProbs sample_inter_config)" "mode_values_ok sample_inter_config"
proof -
  show sh: "inter_config_shape sample_inter_config" by code_simp
  show "validInterFrameStateConfig sample_inter_config" by code_simp
  have "c_CoefficientProbs sample_inter_config = c_CoefficientProbs sample_key_config"
    by (simp add: sample_inter_config_def sample_key_config_def)
  then show "coefs_ok (c_CoefficientProbs sample_inter_config)" using sample_key_config_ok(4) by simp
  have "list_all (\<lambda>(u, p). u \<longrightarrow> snd (encodeMotionVectorProbabilityUpdate p)) (zip (i_MVUpdate sample_inter_config ! i) (i_MVProbs sample_inter_config ! i))"
    if "i < 2" for i using that unfolding less_2_cases_iff by (elim disjE; hypsubst) code_simp+
  then show "mode_values_ok sample_inter_config"
    by (simp add: mode_values_ok_def list_all_iff) (simp add: sample_inter_config_def)
qed

section \<open>The round trip\<close>

text \<open>An inter packet whose first partition goes on, after the header, with whatever \<open>m\<close> codes for \<open>n\<close>.\<close>

lemma inter_packet_parses:
  assumes ok: "validInterFrameStateConfig cfg" "inter_config_shape cfg" "coefs_ok (c_CoefficientProbs cfg)" "mode_values_ok cfg"
    and tabs: "tables_shape previousLoopFilter probs modeProbs"
    and rest: "codes m n r s"
    and fit: "w_err (Finish (snd (run_state (WriteInterFrameStateHeader cfg \<bind> (\<lambda>_. m)) (Writer_Init dst)))) = 0"
    and put: "put_packet_head hdr False 0 show
      (int (length (Bytes (Finish (snd (run_state (WriteInterFrameStateHeader cfg \<bind> (\<lambda>_. m)) (Writer_Init dst))))))) width height hscale vscale = Inr head"
    and hdr: "length hdr = 3"
  shows "\<exists>frame br d. ParseStateHeader (head @ Bytes (Finish (snd (run_state (WriteInterFrameStateHeader cfg \<bind> (\<lambda>_. m)) (Writer_Init dst)))) @ tail)
      previousQuant previousLoopFilter probs modeProbs =
      (Inr (frame, inter_state_sent cfg previousQuant previousLoopFilter, br),
       fst (coef_sent (c_CoefficientProbs cfg) probs), map_option (mode_probs_sent cfg) modeProbs) \<and>
     fh_FrameType frame = InterFrame \<and> fh_ShowFrame frame = show \<and>
     fh_FirstPartitionSize frame = int (length (Bytes (Finish (snd (run_state (WriteInterFrameStateHeader cfg \<bind> (\<lambda>_. m)) (Writer_Init dst)))))) \<and>
     run_state n br = (s, d)"
proof -
  define B where "B = Bytes (Finish (snd (run_state (WriteInterFrameStateHeader cfg \<bind> (\<lambda>_. m)) (Writer_Init dst))))"
  obtain frame where frame: "ParseFrameHeader head = Inr frame" "fh_FrameType frame = InterFrame" "fh_ShowFrame frame = show"
    "fh_FirstPartitionSize frame = int (length B)" "fh_HeaderSize frame = 3"
    using put_head_parses [OF put] by (simp add: B_def)
  have inter: "fh_FrameType frame \<noteq> KeyFrame" using frame(2) by simp
  obtain br d where br: "run_state (parse_state_bits frame previousQuant previousLoopFilter probs modeProbs) (Decoder_Init (B @ tail)) =
      ((inter_state_sent cfg previousQuant previousLoopFilter, fst (coef_sent (c_CoefficientProbs cfg) probs),
        map_option (mode_probs_sent cfg) modeProbs), br)" "Decoder_Err br = None" "run_state n br = (s, d)"
    using codes_message_split [OF codes_inter_state [OF ok inter tabs, of previousQuant] rest fit, of tail]
    unfolding B_def by blast
  have len: "length head = 3" using put_head_length(1) [OF put] hdr by simp
  have "ParseFrameHeader (head @ B @ tail) = Inr frame" using frame(1) by (rule parse_header_prefix)
  moreover have "parseStateHeaderFromFrame (head @ B @ tail) frame previousQuant previousLoopFilter probs modeProbs False =
      (Inr (frame, inter_state_sent cfg previousQuant previousLoopFilter, br),
       fst (coef_sent (c_CoefficientProbs cfg) probs), map_option (mode_probs_sent cfg) modeProbs)"
    using br(1,2) len frame by (simp add: parseStateHeaderFromFrame_def)
  ultimately show ?thesis
    using br(3) frame unfolding B_def by (auto simp: ParseStateHeader_def)
qed

text \<open>C6: An inter frame's headers survive the packet. When the encoder writes the state header without error, goes on
  to any further bits, finishes the first partition and puts the frame tag in front, the decoder parses the packet,
  whatever bytes follow, into the configured state on top of the tables it kept: loop filter deltas and quantizer
  changes against the previous header, reference refreshes and copies, mode and motion vector probabilities with their
  number of updates; and its bit reader stands where the further bits begin. Loop filter deltas are at most 63 in
  magnitude.\<close>

theorem inter_frame_header_roundtrip:
  assumes "inter_config_shape cfg" "tables_shape previousLoopFilter probs modeProbs"
    and "run_state (WriteInterFrameStateHeader cfg) (Writer_Init dst) = (None, w)"
    and "w_err (Finish (write_bools w rest)) = 0"
    and "put_packet_head hdr False 0 show (int (length (Bytes (Finish (write_bools w rest))))) width height hscale vscale = Inr head"
    and "length hdr = 3"
  shows "\<exists>frame br. ParseStateHeader (head @ Bytes (Finish (write_bools w rest)) @ tail) previousQuant previousLoopFilter probs modeProbs =
      (Inr (frame, inter_state_sent cfg previousQuant previousLoopFilter, br),
       fst (coef_sent (c_CoefficientProbs cfg) probs), map_option (mode_probs_sent cfg) modeProbs) \<and>
     fh_FrameType frame = InterFrame \<and> fh_ShowFrame frame = show \<and>
     fh_FirstPartitionSize frame = int (length (Bytes (Finish (write_bools w rest)))) \<and>
     fst (run_state (read_bools (map snd rest)) br) = map fst rest"
proof -
  define W where "W = write_bools w rest"
  have ok: "validInterFrameStateConfig cfg" "coefs_ok (c_CoefficientProbs cfg)" "mode_values_ok cfg"
    using inter_header_written [of cfg "Writer_Init dst"] assms(1,3) by simp_all
  have W: "snd (run_state (WriteInterFrameStateHeader cfg \<bind> (\<lambda>_. wr (\<lambda>w. write_bools w rest))) (Writer_Init dst)) = W"
    using assms(3) by (simp add: wr_def W_def)
  from inter_packet_parses [OF ok(1) assms(1) ok(2,3) assms(2) codes_bools [of rest], of dst, unfolded W, folded W_def,
      OF assms(4,5,6) [folded W_def], of tail previousQuant]
  show ?thesis unfolding W_def by (metis fst_conv)
qed

lemma inter_frame_header_roundtrip_witness:
  "\<exists>w head frame br.
    run_state (WriteInterFrameStateHeader sample_inter_config) (Writer_Init (replicate 10161 0)) = (None, w) \<and>
    put_packet_head (replicate 3 0) False 0 True (int (length (Bytes (Finish (write_bools w [(True, 7), (False, 200)]))))) 0 0 0 0 = Inr head \<and>
    fst (ParseStateHeader (head @ Bytes (Finish (write_bools w [(True, 7), (False, 200)])) @ [1, 2, 3]) sample_quant no_loop_filter None (Some ResetModeProbs)) =
      Inr (frame, inter_state_sent sample_inter_config sample_quant no_loop_filter, br) \<and>
    fst (run_state (read_bools [7, 200]) br) = [True, False]"
proof -
  from inter_header_room [OF sample_inter_config_ok(2,1,3,4), of "[(True, 7), (False, 200)]" "replicate 10161 0"]
  obtain w where w: "run_state (WriteInterFrameStateHeader sample_inter_config) (Writer_Init (replicate 10161 0)) = (None, w)"
    "w_err (Finish (write_bools w [(True, 7), (False, 200)])) = 0"
    "length (Bytes (Finish (write_bools w [(True, 7), (False, 200)]))) \<le> 10161" by auto
  have t: "tables_shape no_loop_filter None (Some ResetModeProbs)"
    using reset_mode_probs_shape by (simp add: tables_shape_def no_loop_filter_def)
  obtain head where h: "put_packet_head (replicate 3 0) False 0 True
      (int (length (Bytes (Finish (write_bools w [(True, 7), (False, 200)]))))) 0 0 0 0 = Inr head"
    using w(3) by (simp add: put_packet_head_def PutFrameTag_def MaxFirstPartitionSize_def FrameTagSize_def Let_def)
  from inter_frame_header_roundtrip [OF sample_inter_config_ok(1) t w(1,2) h, of "[1, 2, 3]" sample_quant] w(1) h
  show ?thesis by auto
qed

end
