(* ===== verification/Vp8_Inter_Modes.thy ===== *)
theory Vp8_Inter_Modes
  imports Vp8_Key_Modes
begin

text \<open>
  Inter-frame macroblock modes: reference frame, prediction mode, motion vectors and split motion
  vectors, written by \<^verbatim>\<open>internal/vp8/encoder/interframe_modes.go\<close> under the validity tests of
  \<^verbatim>\<open>interframe_motion.go\<close>, and read by \<^verbatim>\<open>internal/vp8/decoder/modes.go\<close>.
\<close>

section \<open>Shared pieces\<close>

definition cell_above_left :: "'m list \<Rightarrow> nat \<Rightarrow> nat \<times> nat \<Rightarrow> 'm option" where
  "cell_above_left modes cols cell =
     (case cell of (row, col) \<Rightarrow> if row > 0 \<and> col > 0 then Some (modes ! (row * cols + col - cols - 1)) else None)"

definition addMotionVectors :: "MotionVector \<Rightarrow> MotionVector \<Rightarrow> MotionVector" where
  "addMotionVectors a b = \<lparr>mv_Row = mv_Row a + mv_Row b, mv_Col = mv_Col a + mv_Col b\<rparr>"

definition mv_delta :: "MotionVector \<Rightarrow> MotionVector \<Rightarrow> MotionVector" where
  "mv_delta a b = \<lparr>mv_Row = mv_Row a - mv_Row b, mv_Col = mv_Col a - mv_Col b\<rparr>"

definition subMVRefProbs :: "MotionVector \<Rightarrow> MotionVector \<Rightarrow> byte list" where
  "subMVRefProbs left abv =
     (let lez = of_bool (IsZero left) :: nat; aez = of_bool (IsZero abv); lea = of_bool (left = abv)
      in SubMVRefProb3 ! (push_bit 2 aez OR push_bit 1 lez OR lea))"

section \<open>The encoder\<close>

definition interFrameSignBias :: "InterFrameStateConfig \<Rightarrow> bool list" where
  "interFrameSignBias cfg = (replicate 4 False)[GoldenFrame := i_GoldenSignBias cfg, AltRefFrame := i_AltRefSignBias cfg]"

definition interModeCounts ::
  "InterFrameMacroblockMode option \<Rightarrow> InterFrameMacroblockMode option \<Rightarrow> InterFrameMacroblockMode option \<Rightarrow> nat \<Rightarrow> bool list \<Rightarrow> InterModeCounts" where
  "interModeCounts abv left aboveLeft refFrame signBias =
     (case findNearInterMotionVectors abv left aboveLeft refFrame signBias of (_, _, _, counts) \<Rightarrow> counts)"

definition interBestMotionVector ::
  "InterFrameMacroblockMode option \<Rightarrow> InterFrameMacroblockMode option \<Rightarrow> InterFrameMacroblockMode option \<Rightarrow> nat \<Rightarrow> bool list \<Rightarrow> MotionVector" where
  "interBestMotionVector abv left aboveLeft refFrame signBias =
     (case findNearInterMotionVectors abv left aboveLeft refFrame signBias of (_, _, best, _) \<Rightarrow> best)"

definition interBestMotionVectorAt ::
  "InterFrameMacroblockMode option \<Rightarrow> InterFrameMacroblockMode option \<Rightarrow> InterFrameMacroblockMode option \<Rightarrow> nat
     \<Rightarrow> int \<Rightarrow> int \<Rightarrow> int \<Rightarrow> int \<Rightarrow> bool list \<Rightarrow> MotionVector" where
  "interBestMotionVectorAt abv left aboveLeft refFrame mbRow mbCol mbRows mbCols signBias =
     clampInterMotionVectorToModeEdges (interBestMotionVector abv left aboveLeft refFrame signBias) mbRow mbCol mbRows mbCols"

definition InterFrameNearMotionVectorsAt ::
  "InterFrameMacroblockMode option \<Rightarrow> InterFrameMacroblockMode option \<Rightarrow> InterFrameMacroblockMode option \<Rightarrow> nat
     \<Rightarrow> int \<Rightarrow> int \<Rightarrow> int \<Rightarrow> int \<Rightarrow> bool list \<Rightarrow> MotionVector \<times> MotionVector" where
  "InterFrameNearMotionVectorsAt abv left aboveLeft refFrame mbRow mbCol mbRows mbCols signBias =
     (let (nearest, near, _, _) = findNearInterMotionVectors abv left aboveLeft refFrame signBias
      in (clampInterMotionVectorToModeEdges nearest mbRow mbCol mbRows mbCols,
          clampInterMotionVectorToModeEdges near mbRow mbCol mbRows mbCols))"

definition InterFrameNearMVsCountsAt ::
  "InterFrameMacroblockMode option \<Rightarrow> InterFrameMacroblockMode option \<Rightarrow> InterFrameMacroblockMode option \<Rightarrow> nat
     \<Rightarrow> int \<Rightarrow> int \<Rightarrow> int \<Rightarrow> int \<Rightarrow> bool list \<Rightarrow> MotionVector \<times> MotionVector \<times> MotionVector \<times> InterModeCounts" where
  "InterFrameNearMVsCountsAt abv left aboveLeft refFrame mbRow mbCol mbRows mbCols signBias =
     (let (nearest, near, best, counts) = findNearInterMotionVectors abv left aboveLeft refFrame signBias
      in (clampInterMotionVectorToModeEdges nearest mbRow mbCol mbRows mbCols,
          clampInterMotionVectorToModeEdges near mbRow mbCol mbRows mbCols,
          clampInterMotionVectorToModeEdges best mbRow mbCol mbRows mbCols, counts))"

text \<open>\<open>InterFrameMacroblockMode{}\<close>\<close>

definition zero_inter_mode :: InterFrameMacroblockMode where
  "zero_inter_mode = \<lparr>im_BlockMV = replicate 16 zero_mv, im_MV = zero_mv, im_BModes = replicate 16 0, im_SegmentID = 0,
     im_MBSkipCoeff = False, im_RefFrame = 0, im_Mode = 0, im_UVMode = 0, im_Partition = 0\<rparr>"

definition InterFrameMotionModeForVectorAt ::
  "nat \<Rightarrow> MotionVector \<Rightarrow> InterFrameMacroblockMode option \<Rightarrow> InterFrameMacroblockMode option \<Rightarrow> InterFrameMacroblockMode option
     \<Rightarrow> int \<Rightarrow> int \<Rightarrow> int \<Rightarrow> int \<Rightarrow> bool list \<Rightarrow> InterFrameMacroblockMode" where
  "InterFrameMotionModeForVectorAt refFrame mv abv left aboveLeft mbRow mbCol mbRows mbCols signBias =
     (if IsZero mv then zero_inter_mode\<lparr>im_RefFrame := refFrame, im_Mode := ZeroMV\<rparr>
      else
        let (nearest, near, _, _) = findNearInterMotionVectors abv left aboveLeft refFrame signBias;
            nearest = clampInterMotionVectorToModeEdges nearest mbRow mbCol mbRows mbCols;
            near = clampInterMotionVectorToModeEdges near mbRow mbCol mbRows mbCols
        in if mv = nearest then zero_inter_mode\<lparr>im_RefFrame := refFrame, im_Mode := NearestMV, im_MV := mv\<rparr>
           else if mv = near then zero_inter_mode\<lparr>im_RefFrame := refFrame, im_Mode := NearMV, im_MV := mv\<rparr>
           else zero_inter_mode\<lparr>im_RefFrame := refFrame, im_Mode := NewMV, im_MV := mv\<rparr>)"

definition InterFrameMotionModeForVector ::
  "nat \<Rightarrow> MotionVector \<Rightarrow> InterFrameMacroblockMode option \<Rightarrow> InterFrameMacroblockMode option \<Rightarrow> InterFrameMacroblockMode option
     \<Rightarrow> bool list \<Rightarrow> InterFrameMacroblockMode" where
  "InterFrameMotionModeForVector refFrame mv abv left aboveLeft signBias =
     InterFrameMotionModeForVectorAt refFrame mv abv left aboveLeft 0 0 1 1 signBias"

subsection \<open>Which modes are valid\<close>

definition validInterIntraMacroblockMode :: "InterFrameMacroblockMode \<Rightarrow> bool" where
  "validInterIntraMacroblockMode mode =
     (if im_RefFrame mode \<noteq> IntraFrame \<or> \<not> isInterIntraMacroblockMode (im_Mode mode) \<or> im_UVMode mode > TMPred then False
      else if im_Mode mode \<noteq> BPred then True
      else list_all (\<lambda>bMode. bMode \<le> BHUPred) (im_BModes mode))"

definition SplitLeftMV :: "InterFrameMacroblockMode \<Rightarrow> InterFrameMacroblockMode option \<Rightarrow> nat \<Rightarrow> MotionVector" where
  "SplitLeftMV cur left block =
     (if block mod 4 = 0 then
        (case left of None \<Rightarrow> zero_mv | Some m \<Rightarrow> if im_Mode m = SplitMV then im_BlockMV m ! (block + 3) else im_MV m)
      else im_BlockMV cur ! (block - 1))"

definition SplitAboveMV :: "InterFrameMacroblockMode \<Rightarrow> InterFrameMacroblockMode option \<Rightarrow> nat \<Rightarrow> MotionVector" where
  "SplitAboveMV cur abv block =
     (if block div 4 = 0 then
        (case abv of None \<Rightarrow> zero_mv | Some m \<Rightarrow> if im_Mode m = SplitMV then im_BlockMV m ! (block + 12) else im_MV m)
      else im_BlockMV cur ! (block - 4))"

definition splitSubMotionLabelMatchesMV :: "nat \<Rightarrow> MotionVector \<Rightarrow> MotionVector \<Rightarrow> MotionVector \<Rightarrow> bool" where
  "splitSubMotionLabelMatchesMV mode target left abv =
     (if mode = Left4x4 then target = left
      else if mode = Above4x4 then abv \<noteq> left \<and> target = abv
      else if mode = Zero4x4 then IsZero target
      else mode = New4x4)"

definition validSplitMVMode :: "InterFrameMacroblockMode \<Rightarrow> bool" where
  "validSplitMVMode mode =
     (if im_Mode mode \<noteq> SplitMV \<or> im_Partition mode \<ge> 4 then False
      else
        list_all (\<lambda>sub.
          let block = MBSplitOffset ! (im_Partition mode mod 4) ! (sub mod 16);
              mv = im_BlockMV mode ! block;
              fillCount = MBSplitFillCount ! im_Partition mode
          in mv_Row mv AND 1 = 0 \<and> mv_Col mv AND 1 = 0 \<and>
             im_BModes mode ! block \<ge> Left4x4 \<and> im_BModes mode ! block \<le> New4x4 \<and>
             list_all (\<lambda>i. im_BlockMV mode ! (MBSplitFillOffset ! im_Partition mode ! (sub * fillCount + i)) = mv) [0..<fillCount])
          [0..<MBSplitCount ! (im_Partition mode mod 4)] \<and>
        im_MV mode = im_BlockMV mode ! 15)"

definition validSplitMVModeWithContext ::
  "InterFrameMacroblockMode \<Rightarrow> InterFrameMacroblockMode option \<Rightarrow> InterFrameMacroblockMode option \<Rightarrow> bool" where
  "validSplitMVModeWithContext mode left abv =
     (if \<not> validSplitMVMode mode then False
      else list_all (\<lambda>sub.
        let block = MBSplitOffset ! (im_Partition mode mod 4) ! (sub mod 16)
        in splitSubMotionLabelMatchesMV (im_BModes mode ! block) (im_BlockMV mode ! block) (SplitLeftMV mode left block) (SplitAboveMV mode abv block))
        [0..<MBSplitCount ! (im_Partition mode mod 4)])"

definition validInterFrameMacroblockModeAt ::
  "InterFrameMacroblockMode \<Rightarrow> InterFrameMacroblockMode option \<Rightarrow> InterFrameMacroblockMode option \<Rightarrow> InterFrameMacroblockMode option
     \<Rightarrow> int \<Rightarrow> int \<Rightarrow> int \<Rightarrow> int \<Rightarrow> bool list \<Rightarrow> bool" where
  "validInterFrameMacroblockModeAt mode abv left aboveLeft mbRow mbCol mbRows mbCols signBias =
     (let refFrame = interFrameReference (Some mode)
      in if refFrame = IntraFrame then validInterIntraMacroblockMode mode
         else if refFrame \<noteq> LastFrame \<and> refFrame \<noteq> GoldenFrame \<and> refFrame \<noteq> AltRefFrame then False
         else
           let (nearest, near, _, _) = findNearInterMotionVectors abv left aboveLeft refFrame signBias;
               nearest = clampInterMotionVectorToModeEdges nearest mbRow mbCol mbRows mbCols;
               near = clampInterMotionVectorToModeEdges near mbRow mbCol mbRows mbCols
           in if im_Mode mode = ZeroMV then IsZero (im_MV mode)
              else if im_Mode mode = NearestMV then im_MV mode = nearest
              else if im_Mode mode = NearMV then im_MV mode = near
              else if im_Mode mode = NewMV then True
              else if im_Mode mode = SplitMV then validSplitMVModeWithContext mode left abv
              else False)"

section \<open>What the writers put\<close>

definition interFrameYModeProbs :: "InterFrameStateConfig \<Rightarrow> byte list" where
  "interFrameYModeProbs cfg = (if i_YModeUpdate cfg then i_YModeProbs cfg else i_YModeBase cfg)"

definition interFrameUVModeProbs :: "InterFrameStateConfig \<Rightarrow> byte list" where
  "interFrameUVModeProbs cfg = (if i_UVModeUpdate cfg then i_UVModeProbs cfg else i_UVModeBase cfg)"

definition interFrameBModeProbs :: "InterFrameStateConfig \<Rightarrow> byte list" where
  "interFrameBModeProbs cfg = i_BModeBase cfg"

definition interFrameMVProbs :: "InterFrameStateConfig \<Rightarrow> byte list list" where
  "interFrameMVProbs cfg = map (\<lambda>component. map (\<lambda>i.
     if i_MVUpdate cfg ! component ! i then i_MVProbs cfg ! component ! i else i_MVBase cfg ! component ! i) [0..<MVPCount]) [0..<2]"

definition interFrameYModeTokens :: "TreeToken list" where
  "interFrameYModeTokens = tree_tokens YModeTree 5"

definition WriteInterIntraMacroblockMode ::
  "InterFrameMacroblockMode \<Rightarrow> byte list \<Rightarrow> byte list \<Rightarrow> byte list \<Rightarrow> (BoolWriter, bool) state" where
  "WriteInterIntraMacroblockMode mode yModeProbs uvModeProbs bModeProbs =
     (if \<not> validInterIntraMacroblockMode mode then State_Monad.return False
      else do {
        ok \<leftarrow> WriteTreeToken YModeTree yModeProbs (interFrameYModeTokens ! im_Mode mode);
        if \<not> ok then State_Monad.return False
        else do {
          ok \<leftarrow> (if im_Mode mode = BPred
                then write_while (\<lambda>block. WriteTreeToken BModeTree bModeProbs (bModeTokens ! (im_BModes mode ! block))) [0..<16]
                else State_Monad.return True);
          if \<not> ok then State_Monad.return False
          else WriteTreeToken UVModeTree uvModeProbs (keyFrameUVModeTokens ! im_UVMode mode)
        }
      })"

text \<open>The bits of a choice, then \<open>w.Err() == nil\<close>.\<close>

definition write_choice :: "(bool \<times> byte) list \<Rightarrow> (BoolWriter, bool) state" where
  "write_choice bits = do {
     write_array (\<lambda>(b, p). wr (\<lambda>w. WriteBool w (of_bool b) p)) bits;
     e \<leftarrow> werr;
     State_Monad.return (\<not> e)
   }"

definition WriteInterPredictionMode :: "InterModeCounts \<Rightarrow> nat \<Rightarrow> (BoolWriter, bool) state" where
  "WriteInterPredictionMode counts mode =
     (let p0 = InterModeContexts ! ic_Intra counts ! 0;
          p1 = InterModeContexts ! ic_Nearest counts ! 1;
          p2 = InterModeContexts ! ic_Near counts ! 2;
          p3 = InterModeContexts ! ic_Split counts ! 3
      in if mode = ZeroMV then write_choice [(False, p0)]
         else if mode = NearestMV then write_choice [(True, p0), (False, p1)]
         else if mode = NearMV then write_choice [(True, p0), (True, p1), (False, p2)]
         else if mode = NewMV then write_choice [(True, p0), (True, p1), (True, p2), (False, p3)]
         else if mode = SplitMV then write_choice [(True, p0), (True, p1), (True, p2), (True, p3)]
         else State_Monad.return False)"

definition writeMBSplit :: "nat \<Rightarrow> (BoolWriter, bool) state" where
  "writeMBSplit part =
     (if part = 3 then write_choice [(False, MBSplitProbs ! 0)]
      else if part = 2 then write_choice [(True, MBSplitProbs ! 0), (False, MBSplitProbs ! 1)]
      else if part = 0 then write_choice [(True, MBSplitProbs ! 0), (True, MBSplitProbs ! 1), (False, MBSplitProbs ! 2)]
      else if part = 1 then write_choice [(True, MBSplitProbs ! 0), (True, MBSplitProbs ! 1), (True, MBSplitProbs ! 2)]
      else State_Monad.return False)"

definition writeSubMotionVectorReference :: "nat \<Rightarrow> byte list \<Rightarrow> (BoolWriter, bool) state" where
  "writeSubMotionVectorReference mode probs =
     (if mode = Left4x4 then write_choice [(False, probs ! 0)]
      else if mode = Above4x4 then write_choice [(True, probs ! 0), (False, probs ! 1)]
      else if mode = Zero4x4 then write_choice [(True, probs ! 0), (True, probs ! 1), (False, probs ! 2)]
      else if mode = New4x4 then write_choice [(True, probs ! 0), (True, probs ! 1), (True, probs ! 2)]
      else State_Monad.return False)"

definition writeSubMotionVector ::
  "byte list list \<Rightarrow> nat \<Rightarrow> MotionVector \<Rightarrow> MotionVector \<Rightarrow> MotionVector \<Rightarrow> MotionVector \<Rightarrow> (BoolWriter, packet_error option) state" where
  "writeSubMotionVector probs mode target left abv best = do {
     ok \<leftarrow> writeSubMotionVectorReference mode (subMVRefProbs left abv);
     if \<not> ok then State_Monad.return (Some ErrInvalidPacketConfig)
     else if mode \<noteq> New4x4 then return_err
     else WriteMotionVector probs (mv_delta target best)
   }"

definition write_split_subset ::
  "byte list list \<Rightarrow> InterFrameMacroblockMode \<Rightarrow> InterFrameMacroblockMode option \<Rightarrow> InterFrameMacroblockMode option \<Rightarrow> MotionVector \<Rightarrow> nat
     \<Rightarrow> (BoolWriter, packet_error option) state" where
  "write_split_subset probs mode left abv best sub =
     (let block = MBSplitOffset ! (im_Partition mode mod 4) ! (sub mod 16);
          leftMV = SplitLeftMV mode left block;
          aboveMV = SplitAboveMV mode abv block;
          target = im_BlockMV mode ! block;
          bMode = im_BModes mode ! block
      in if \<not> splitSubMotionLabelMatchesMV bMode target leftMV aboveMV then State_Monad.return (Some ErrInvalidPacketConfig)
         else writeSubMotionVector probs bMode target leftMV aboveMV best)"

definition WriteSplitMotionVectors ::
  "byte list list \<Rightarrow> InterFrameMacroblockMode \<Rightarrow> InterFrameMacroblockMode option \<Rightarrow> InterFrameMacroblockMode option \<Rightarrow> MotionVector
     \<Rightarrow> (BoolWriter, packet_error option) state" where
  "WriteSplitMotionVectors probs mode left abv best =
     (if \<not> validSplitMVModeWithContext mode left abv then State_Monad.return (Some ErrInvalidPacketConfig)
      else do {
        ok \<leftarrow> writeMBSplit (im_Partition mode);
        if \<not> ok then State_Monad.return (Some ErrInvalidPacketConfig)
        else do {
          e \<leftarrow> write_checked (write_split_subset probs mode left abv best) [0..<MBSplitCount ! (im_Partition mode mod 4)];
          if e \<noteq> None then State_Monad.return e else return_err
        }
      })"

definition writeInterReferenceFrameWithProbs :: "byte \<Rightarrow> byte \<Rightarrow> nat \<Rightarrow> (BoolWriter, bool) state" where
  "writeInterReferenceFrameWithProbs probLast probGolden refFrame =
     (if refFrame = LastFrame then write_choice [(False, probLast)]
      else if refFrame = GoldenFrame then write_choice [(True, probLast), (False, probGolden)]
      else if refFrame = AltRefFrame then write_choice [(True, probLast), (True, probGolden)]
      else State_Monad.return False)"

definition invalid_mode :: "(BoolWriter, mode_error option) state" where
  "invalid_mode = State_Monad.return (Some (ModePacketError ErrInvalidPacketConfig))"

text \<open>An inter macroblock after its reference flag; then a whole macroblock of the grid.\<close>

definition write_inter_vectors ::
  "InterFrameStateConfig \<Rightarrow> int \<Rightarrow> int \<Rightarrow> InterFrameMacroblockMode list \<Rightarrow> nat \<times> nat \<Rightarrow> (BoolWriter, mode_error option) state" where
  "write_inter_vectors cfg rows cols modes cell =
     (let mode = modes ! (fst cell * nat cols + snd cell);
          refFrame = interFrameReference (Some mode);
          abv = cell_above modes (nat cols) cell;
          left = cell_left modes (nat cols) cell;
          aboveLeft = cell_above_left modes (nat cols) cell;
          signBias = interFrameSignBias cfg;
          best = interBestMotionVectorAt abv left aboveLeft refFrame (int (fst cell)) (int (snd cell)) rows cols signBias
      in if \<not> validInterFrameMacroblockModeAt mode abv left aboveLeft (int (fst cell)) (int (snd cell)) rows cols signBias then invalid_mode
         else do {
           ok \<leftarrow> WriteInterPredictionMode (interModeCounts abv left aboveLeft refFrame signBias) (im_Mode mode);
           if \<not> ok then invalid_mode
           else if im_Mode mode = NewMV then do {
             e \<leftarrow> WriteMotionVector (interFrameMVProbs cfg) (mv_delta (im_MV mode) best);
             State_Monad.return (map_option ModePacketError e)
           }
           else if im_Mode mode = SplitMV then do {
             e \<leftarrow> WriteSplitMotionVectors (interFrameMVProbs cfg) mode left abv best;
             State_Monad.return (map_option ModePacketError e)
           }
           else State_Monad.return None
         })"

definition write_inter_cell ::
  "InterFrameStateConfig \<Rightarrow> int \<Rightarrow> int \<Rightarrow> InterFrameMacroblockMode list \<Rightarrow> nat \<times> nat \<Rightarrow> (BoolWriter, mode_error option) state" where
  "write_inter_cell cfg rows cols modes cell =
     (let mode = modes ! (fst cell * nat cols + snd cell);
          refFrame = interFrameReference (Some mode)
      in do {
        ok \<leftarrow> (if sc_Enabled (c_Segmentation cfg) \<and> sc_UpdateMap (c_Segmentation cfg)
              then writeMacroblockSegmentID (segmentationTreeProbs (c_Segmentation cfg)) (im_SegmentID mode) else State_Monad.return True);
        if \<not> ok then mode_failure
        else do {
          wr (\<lambda>w. WriteBool w (if im_MBSkipCoeff mode then 1 else 0) (c_ProbSkipFalse cfg));
          if refFrame = IntraFrame then do {
            wr (\<lambda>w. WriteBool w 0 (i_ProbIntra cfg));
            ok \<leftarrow> WriteInterIntraMacroblockMode mode (interFrameYModeProbs cfg) (interFrameUVModeProbs cfg) (interFrameBModeProbs cfg);
            if \<not> ok then invalid_mode else State_Monad.return None
          }
          else do {
            wr (\<lambda>w. WriteBool w 1 (i_ProbIntra cfg));
            ok \<leftarrow> writeInterReferenceFrameWithProbs (i_ProbLast cfg) (i_ProbGolden cfg) refFrame;
            if \<not> ok then invalid_mode else write_inter_vectors cfg rows cols modes cell
          }
        }
      })"

definition WriteLastFrameZeroMVModeGridWithSkip ::
  "int \<Rightarrow> int \<Rightarrow> InterFrameStateConfig \<Rightarrow> InterFrameMacroblockMode list \<Rightarrow> (BoolWriter, mode_error option) state" where
  "WriteLastFrameZeroMVModeGridWithSkip rows cols cfg modes =
     (if grid_too_small rows cols (length modes) \<or> \<not> c_MBNoCoeffSkip cfg then State_Monad.return (Some ErrModeBufferTooSmall)
      else if \<not> validSegmentationConfig (c_Segmentation cfg) then invalid_mode
      else do {
        e \<leftarrow> write_checked (write_inter_cell cfg rows cols modes) (grid_cells (nat rows) (nat cols));
        if e \<noteq> None then State_Monad.return e else mode_end
      })"

text \<open>The grid of a frame that repeats a reference frame.\<close>

definition zeroMVInterModeCounts :: "nat \<Rightarrow> nat \<Rightarrow> nat" where
  "zeroMVInterModeCounts row col =
     (if row > 0 then 2 else 0) + (if col > 0 then 2 else 0) + (if row > 0 \<and> col > 0 then 1 else 0)"

definition write_zero_cell :: "InterFrameStateConfig \<Rightarrow> nat \<Rightarrow> nat \<times> nat \<Rightarrow> (BoolWriter, mode_error option) state" where
  "write_zero_cell cfg refFrame cell = do {
     ok \<leftarrow> (if sc_Enabled (c_Segmentation cfg) \<and> sc_UpdateMap (c_Segmentation cfg)
           then writeMacroblockSegmentID (segmentationTreeProbs (c_Segmentation cfg)) 0 else State_Monad.return True);
     if \<not> ok then mode_failure
     else do {
       wr (\<lambda>w. WriteBool w 1 (c_ProbSkipFalse cfg));
       wr (\<lambda>w. WriteBool w 1 (i_ProbIntra cfg));
       ok \<leftarrow> writeInterReferenceFrameWithProbs (i_ProbLast cfg) (i_ProbGolden cfg) refFrame;
       if \<not> ok then invalid_mode
       else do {
         wr (\<lambda>w. WriteBool w 0 (InterModeContexts ! zeroMVInterModeCounts (fst cell) (snd cell) ! 0));
         State_Monad.return None
       }
     }
   }"

definition WriteReferenceFrameZeroMVModeGrid ::
  "int \<Rightarrow> int \<Rightarrow> InterFrameStateConfig \<Rightarrow> nat \<Rightarrow> (BoolWriter, mode_error option) state" where
  "WriteReferenceFrameZeroMVModeGrid rows cols cfg refFrame =
     (if rows \<le> 0 \<or> cols \<le> 0 \<or> \<not> c_MBNoCoeffSkip cfg \<or> \<not> validSegmentationConfig (c_Segmentation cfg) then invalid_mode
      else if \<not> (LastFrame \<le> refFrame \<and> refFrame \<le> AltRefFrame) then invalid_mode
      else do {
        e \<leftarrow> write_checked (write_zero_cell cfg refFrame) (grid_cells (nat rows) (nat cols));
        if e \<noteq> None then State_Monad.return e else mode_end
      })"

section \<open>The decoder\<close>

definition referenceSignBias :: "RefreshHeader \<Rightarrow> bool list" where
  "referenceSignBias refresh = (replicate 4 False)[GoldenFrame := rh_GoldenSignBias refresh, AltRefFrame := rh_AltRefSignBias refresh]"

definition ReadInterReferenceFrame :: "ModeHeader \<Rightarrow> (Decoder, nat) state" where
  "ReadInterReferenceFrame modeHeader = do {
     inter \<leftarrow> ReadBool (mh_ProbIntra modeHeader);
     if \<not> inter then State_Monad.return IntraFrame
     else do {
       other \<leftarrow> ReadBool (mh_ProbLast modeHeader);
       if other then do { alt \<leftarrow> ReadBool (mh_ProbGolden modeHeader); State_Monad.return (2 + of_bool alt) }
       else State_Monad.return LastFrame
     }
   }"

definition ReadInterPredictionMode :: "InterModeCounts \<Rightarrow> (Decoder, nat) state" where
  "ReadInterPredictionMode counts = do {
     b \<leftarrow> ReadBool (InterModeContexts ! ic_Intra counts ! 0);
     if \<not> b then State_Monad.return ZeroMV
     else do {
       b \<leftarrow> ReadBool (InterModeContexts ! ic_Nearest counts ! 1);
       if \<not> b then State_Monad.return NearestMV
       else do {
         b \<leftarrow> ReadBool (InterModeContexts ! ic_Near counts ! 2);
         if \<not> b then State_Monad.return NearMV
         else do {
           b \<leftarrow> ReadBool (InterModeContexts ! ic_Split counts ! 3);
           State_Monad.return (if b then SplitMV else NewMV)
         }
       }
     }
   }"

fun read_inter_bmodes :: "byte list \<Rightarrow> nat list \<Rightarrow> MacroblockMode \<Rightarrow> (Decoder, MacroblockMode) state" where
  "read_inter_bmodes probs [] out = State_Monad.return out"
| "read_inter_bmodes probs (i # is) out = do {
     b \<leftarrow> ReadBMode probs;
     read_inter_bmodes probs is (out\<lparr>mb_BModes := (mb_BModes out)[i := nat (the_leaf b)]\<rparr>)
   }"

definition decodeInterIntraMacroblockMode :: "ModeProbs \<Rightarrow> MacroblockMode \<Rightarrow> (Decoder, MacroblockMode) state" where
  "decodeInterIntraMacroblockMode probs out = do {
     y \<leftarrow> ReadYMode (mp_YMode probs);
     (let out = out\<lparr>mb_RefFrame := IntraFrame, mb_Is4x4 := False, mb_BModes := replicate 16 0, mb_Mode := nat (the_leaf y)\<rparr> in do {
        out \<leftarrow> (if mb_Mode out = BPred then read_inter_bmodes (mp_BMode probs) [0..<16] (out\<lparr>mb_Is4x4 := True\<rparr>) else State_Monad.return out);
        uv \<leftarrow> ReadUVMode (mp_UVMode probs);
        State_Monad.return (out\<lparr>mb_UVMode := nat (the_leaf uv)\<rparr>)
      })
   }"

definition splitLeftMV :: "MacroblockMode \<Rightarrow> MacroblockMode option \<Rightarrow> nat \<Rightarrow> MotionVector" where
  "splitLeftMV cur left block =
     (if block mod 4 = 0 then
        (case left of None \<Rightarrow> zero_mv | Some m \<Rightarrow> if mb_Mode m = SplitMV then mb_BlockMV m ! (block + 3) else mb_MV m)
      else mb_BlockMV cur ! (block - 1))"

definition splitAboveMV :: "MacroblockMode \<Rightarrow> MacroblockMode option \<Rightarrow> nat \<Rightarrow> MotionVector" where
  "splitAboveMV cur abv block =
     (if block div 4 = 0 then
        (case abv of None \<Rightarrow> zero_mv | Some m \<Rightarrow> if mb_Mode m = SplitMV then mb_BlockMV m ! (block + 12) else mb_MV m)
      else mb_BlockMV cur ! (block - 4))"

definition read_split_partition :: "(Decoder, nat) state" where
  "read_split_partition = do {
     b \<leftarrow> ReadBool (MBSplitProbs ! 0);
     if \<not> b then State_Monad.return 3
     else do {
       b \<leftarrow> ReadBool (MBSplitProbs ! 1);
       if \<not> b then State_Monad.return 2
       else do { b \<leftarrow> ReadBool (MBSplitProbs ! 2); State_Monad.return (of_bool b) }
     }
   }"

definition split_partitions :: "nat \<Rightarrow> nat" where
  "split_partitions part = (if part = 3 then 16 else if part = 2 then 4 else 2)"

definition read_block_mv :: "ModeProbs \<Rightarrow> MotionVector \<Rightarrow> MotionVector \<Rightarrow> MotionVector \<Rightarrow> (Decoder, MotionVector) state" where
  "read_block_mv probs best leftMV aboveMV =
     (let prob = subMVRefProbs leftMV aboveMV in do {
        b \<leftarrow> ReadBool (prob ! 0);
        if \<not> b then State_Monad.return leftMV
        else do {
          b \<leftarrow> ReadBool (prob ! 1);
          if \<not> b then State_Monad.return aboveMV
          else do {
            b \<leftarrow> ReadBool (prob ! 2);
            if \<not> b then State_Monad.return zero_mv
            else do { d \<leftarrow> DecodeMotionVector (mp_MV probs); State_Monad.return (addMotionVectors best d) }
          }
        }
      })"

definition fill_block_mvs :: "nat \<Rightarrow> nat \<Rightarrow> MotionVector \<Rightarrow> MotionVector list \<Rightarrow> MotionVector list" where
  "fill_block_mvs part sub mv mvs =
     (let fillCount = MBSplitFillCount ! part
      in fold (\<lambda>i mvs. mvs[MBSplitFillOffset ! part ! (sub * fillCount + i) := mv]) [0..<fillCount] mvs)"

fun read_split_subsets ::
  "ModeProbs \<Rightarrow> MacroblockMode option \<Rightarrow> MacroblockMode option \<Rightarrow> MotionVector \<Rightarrow> nat \<Rightarrow> nat list \<Rightarrow> MacroblockMode \<Rightarrow> (Decoder, MacroblockMode) state" where
  "read_split_subsets probs left abv best part [] out = State_Monad.return out"
| "read_split_subsets probs left abv best part (sub # ss) out =
     (let block = MBSplitOffset ! part ! sub in do {
        blockMV \<leftarrow> read_block_mv probs best (splitLeftMV out left block) (splitAboveMV out abv block);
        read_split_subsets probs left abv best part ss (out\<lparr>mb_BlockMV := fill_block_mvs part sub blockMV (mb_BlockMV out)\<rparr>)
      })"

definition decodeSplitMotionVectors ::
  "ModeProbs \<Rightarrow> MacroblockMode option \<Rightarrow> MacroblockMode option \<Rightarrow> MotionVector \<Rightarrow> MacroblockMode \<Rightarrow> (Decoder, MacroblockMode) state" where
  "decodeSplitMotionVectors probs left abv best out = do {
     part \<leftarrow> read_split_partition;
     out \<leftarrow> read_split_subsets probs left abv best part [0..<split_partitions part] out;
     State_Monad.return (out\<lparr>mb_Partition := part, mb_MV := mb_BlockMV out ! 15, mb_Is4x4 := True\<rparr>)
   }"

definition decode_inter_vectors ::
  "int \<Rightarrow> int \<Rightarrow> int \<Rightarrow> int \<Rightarrow> ModeProbs \<Rightarrow> MacroblockMode option \<Rightarrow> MacroblockMode option \<Rightarrow> MacroblockMode option \<Rightarrow> bool list \<Rightarrow> nat
     \<Rightarrow> MacroblockMode \<Rightarrow> (Decoder, MacroblockMode) state" where
  "decode_inter_vectors mbRow mbCol mbRows mbCols probs abv left aboveLeft signBias refFrame out =
     (let (nearest, near, best, counts) = FindNearMotionVectors abv left aboveLeft refFrame signBias in do {
        mode \<leftarrow> ReadInterPredictionMode counts;
        (let out = out\<lparr>mb_RefFrame := refFrame, mb_Mode := mode\<rparr>;
             best = clampMotionVectorToModeEdges best mbRow mbCol mbRows mbCols
         in if mode = ZeroMV then State_Monad.return (out\<lparr>mb_MV := zero_mv\<rparr>)
            else if mode = NearestMV then State_Monad.return (out\<lparr>mb_MV := clampMotionVectorToModeEdges nearest mbRow mbCol mbRows mbCols\<rparr>)
            else if mode = NearMV then State_Monad.return (out\<lparr>mb_MV := clampMotionVectorToModeEdges near mbRow mbCol mbRows mbCols\<rparr>)
            else if mode = NewMV then do {
              d \<leftarrow> DecodeMotionVector (mp_MV probs);
              State_Monad.return (out\<lparr>mb_MV := addMotionVectors best d\<rparr>)
            }
            else if mode = SplitMV then decodeSplitMotionVectors probs left abv best out
            else State_Monad.return out)
      })"

definition decodeInterMacroblockAt ::
  "int \<Rightarrow> int \<Rightarrow> int \<Rightarrow> int \<Rightarrow> SegmentationHeader option \<Rightarrow> ModeHeader \<Rightarrow> ModeProbs
     \<Rightarrow> MacroblockMode option \<Rightarrow> MacroblockMode option \<Rightarrow> MacroblockMode option \<Rightarrow> bool list \<Rightarrow> MacroblockMode \<Rightarrow> (Decoder, MacroblockMode) state" where
  "decodeInterMacroblockAt mbRow mbCol mbRows mbCols segmentation modeHeader probs abv left aboveLeft signBias out = do {
     out \<leftarrow> decode_mb_start segmentation modeHeader out;
     refFrame \<leftarrow> ReadInterReferenceFrame modeHeader;
     if refFrame = IntraFrame then decodeInterIntraMacroblockMode probs out
     else decode_inter_vectors mbRow mbCol mbRows mbCols probs abv left aboveLeft signBias refFrame out
   }"

definition DecodeInterMacroblock ::
  "SegmentationHeader option \<Rightarrow> ModeHeader \<Rightarrow> ModeProbs
     \<Rightarrow> MacroblockMode option \<Rightarrow> MacroblockMode option \<Rightarrow> MacroblockMode option \<Rightarrow> bool list \<Rightarrow> MacroblockMode \<Rightarrow> (Decoder, MacroblockMode) state" where
  "DecodeInterMacroblock segmentation modeHeader probs abv left aboveLeft signBias out =
     decodeInterMacroblockAt 0 0 1 1 segmentation modeHeader probs abv left aboveLeft signBias out"

definition read_inter_cell ::
  "int \<Rightarrow> int \<Rightarrow> SegmentationHeader option \<Rightarrow> ModeHeader \<Rightarrow> ModeProbs \<Rightarrow> bool list \<Rightarrow> nat \<times> nat \<Rightarrow> MacroblockMode list \<Rightarrow> (Decoder, MacroblockMode) state" where
  "read_inter_cell rows cols segmentation modeHeader probs signBias cell modes =
     decodeInterMacroblockAt (int (fst cell)) (int (snd cell)) rows cols segmentation modeHeader probs
       (cell_above modes (nat cols) cell) (cell_left modes (nat cols) cell) (cell_above_left modes (nat cols) cell) signBias
       (modes ! (fst cell * nat cols + snd cell))"

definition DecodeInterModeGrid ::
  "int \<Rightarrow> int \<Rightarrow> SegmentationHeader option \<Rightarrow> ModeHeader \<Rightarrow> ModeProbs \<Rightarrow> bool list \<Rightarrow> MacroblockMode list
     \<Rightarrow> (Decoder, mode_error + MacroblockMode list) state" where
  "DecodeInterModeGrid rows cols segmentation modeHeader probs signBias modes =
     (if grid_too_small rows cols (length modes) then State_Monad.return (Inl ErrModeBufferTooSmall)
      else do {
        modes \<leftarrow> read_cells (read_inter_cell rows cols segmentation modeHeader probs signBias) (nat cols) (grid_cells (nat rows) (nat cols)) modes;
        State_Monad.return (Inr modes)
      })"

text \<open>The decoder that conceals: macroblocks from the first corrupt one on are skipped.\<close>

definition derr :: "(Decoder, bool) state" where
  "derr = State (\<lambda>d. (Decoder_Err d \<noteq> None, d))"

fun read_cells_until :: "(nat \<times> nat \<Rightarrow> MacroblockMode list \<Rightarrow> (Decoder, MacroblockMode) state) \<Rightarrow> nat \<Rightarrow> (nat \<times> nat) list
    \<Rightarrow> nat \<Rightarrow> MacroblockMode list \<Rightarrow> (Decoder, nat \<times> MacroblockMode list) state" where
  "read_cells_until f cols [] firstCorrupt modes = State_Monad.return (firstCorrupt, modes)"
| "read_cells_until f cols (c # cs) firstCorrupt modes =
     (let index = fst c * cols + snd c
      in if index \<ge> firstCorrupt then read_cells_until f cols cs firstCorrupt modes
         else do {
           m \<leftarrow> f c modes;
           e \<leftarrow> derr;
           read_cells_until f cols cs (if e then index else firstCorrupt) (modes[index := m])
         })"

definition DecodeInterModeGridWithErrorConcealment ::
  "int \<Rightarrow> int \<Rightarrow> SegmentationHeader option \<Rightarrow> ModeHeader \<Rightarrow> ModeProbs \<Rightarrow> bool list \<Rightarrow> MacroblockMode list
     \<Rightarrow> (Decoder, mode_error + nat \<times> MacroblockMode list) state" where
  "DecodeInterModeGridWithErrorConcealment rows cols segmentation modeHeader probs signBias modes =
     (if grid_too_small rows cols (length modes) then State_Monad.return (Inl ErrModeBufferTooSmall)
      else do {
        e \<leftarrow> derr;
        r \<leftarrow> read_cells_until (read_inter_cell rows cols segmentation modeHeader probs signBias) (nat cols) (grid_cells (nat rows) (nat cols))
               (if e then 0 else nat (rows * cols)) modes;
        State_Monad.return (Inr r)
      })"

lemma length_fill_block_mvs [simp]: "length (fill_block_mvs part s mv mvs) = length mvs"
proof -
  have "length (fold (\<lambda>i mvs. mvs[f i := mv]) is mvs) = length mvs" for f :: "nat \<Rightarrow> nat" and "is" and mvs :: "MotionVector list"
    by (induction "is" arbitrary: mvs) simp_all
  then show ?thesis by (simp add: fill_block_mvs_def Let_def)
qed

end
