(* ===== verification/Vp8_Inter_Mode_Codes.thy ===== *)
theory Vp8_Inter_Mode_Codes
  imports Vp8_Inter_Modes Vp8_Mode_Codes Vp8_Inter_Codes
begin

text \<open>
  Inter modes that arrive: choices among a few modes, intra macroblocks of inter frames, split motion
  vectors, and whole inter macroblocks, from which the grid follows by \<open>codes_grid\<close>.
\<close>

section \<open>Choices\<close>

lemma reads_step: "reads (f b) ys r \<Longrightarrow> reads (ReadBool p \<bind> f) ((b, p) # ys) r"
  using reads_bind [OF reads_ReadBool [of p b], of f ys r] by simp

lemma writes_bools_array: "writes (write_array (\<lambda>(b, p). wr (\<lambda>w. WriteBool w (of_bool b) p)) bits) bits ()"
proof (induction bits)
  case (Cons x xs)
  obtain b p where x: "x = (b, p)" by (cases x)
  show ?case
    unfolding x write_array.simps prod.case
    using writes_bind [OF writes_WriteBool_of_bool [of b p] Cons writes_sticky [OF Cons]] by simp
qed (simp add: writes_return)

lemma writes_choice: "writes (write_choice bits) bits True"
proof -
  have "writes (do { e \<leftarrow> werr; State_Monad.return (\<not> e) }) [] True"
    using writes_bind [OF writes_werr, of "\<lambda>e. State_Monad.return (\<not> e)" "[]" True] by (simp add: writes_return sticky_return)
  from writes_bind [OF writes_bools_array this writes_sticky [OF this], of bits] show ?thesis by (simp add: write_choice_def)
qed

lemma codes_choice: "reads n bits s \<Longrightarrow> codes (write_choice bits) n True s"
  by (rule codesI [OF writes_choice])

lemma sticky_write_choice [sticky_intros]: "sticky (write_choice bits)"
  by (rule writes_sticky [OF writes_choice])

lemma codes_reference:
  assumes "refFrame = LastFrame \<or> refFrame = GoldenFrame \<or> refFrame = AltRefFrame"
  shows "codes (do { wr (\<lambda>w. WriteBool w 1 pi); writeInterReferenceFrameWithProbs pl pg refFrame })
    (do {
     inter \<leftarrow> ReadBool pi;
     if \<not> inter then State_Monad.return IntraFrame
     else do {
       other \<leftarrow> ReadBool pl;
       if other then do { alt \<leftarrow> ReadBool pg; State_Monad.return (2 + of_bool alt) }
       else State_Monad.return LastFrame
     }
   }) True refFrame"
proof -
  have "codes (writeInterReferenceFrameWithProbs pl pg refFrame)
    (do { other \<leftarrow> ReadBool pl;
       if other then do { alt \<leftarrow> ReadBool pg; State_Monad.return (2 + of_bool alt) } else State_Monad.return LastFrame }) True refFrame"
    using assms unfolding writeInterReferenceFrameWithProbs_def
    by (elim disjE; hypsubst; simp) (rule codes_choice, (rule reads_step, simp?)+, simp add: reads_return numeral_2_eq_2 numeral_3_eq_3)+
  then show ?thesis
    by (intro codes_bind [OF codes_WriteBool1]) (simp_all add: writeInterReferenceFrameWithProbs_def sticky_intros)
qed

lemma codes_prediction:
  assumes "mode = ZeroMV \<or> mode = NearestMV \<or> mode = NearMV \<or> mode = NewMV \<or> mode = SplitMV"
  shows "codes (WriteInterPredictionMode counts mode) (ReadInterPredictionMode counts) True mode"
  using assms unfolding WriteInterPredictionMode_def ReadInterPredictionMode_def Let_def
  by (elim disjE; hypsubst; simp) (rule codes_choice, (rule reads_step, simp?)+, simp add: reads_return)+

lemma codes_split_partition:
  assumes "part < 4"
  shows "codes (writeMBSplit part) read_split_partition True part"
proof -
  have "part = 0 \<or> part = 1 \<or> part = 2 \<or> part = 3" using assms by linarith
  then show ?thesis unfolding writeMBSplit_def read_split_partition_def
    by (elim disjE; hypsubst; simp) (rule codes_choice, (rule reads_step, simp?)+, simp add: reads_return)+
qed

section \<open>Intra macroblocks of inter frames\<close>

lemma codes_inter_bmodes:
  assumes "length probs = 9" "\<And>j. j < 16 \<Longrightarrow> im_BModes mode ! j < 10" "length (im_BModes mode) = 16"
  shows "i + n = 16 \<Longrightarrow> length (mb_BModes out) = 16 \<Longrightarrow> (\<And>j. j < i \<Longrightarrow> mb_BModes out ! j = im_BModes mode ! j) \<Longrightarrow>
    codes (write_while (\<lambda>block. WriteTreeToken BModeTree probs (bModeTokens ! (im_BModes mode ! block))) [i..<16])
      (read_inter_bmodes probs [i..<16] out) True (out\<lparr>mb_BModes := im_BModes mode\<rparr>)"
proof (induction n arbitrary: i out)
  case 0
  then have "mb_BModes out = im_BModes mode" using assms(3) by (intro nth_equalityI) simp_all
  then have "out = out\<lparr>mb_BModes := im_BModes mode\<rparr>" by (cases out) simp
  then show ?case using 0 codes_return [of True out] by simp
next
  case (Suc n)
  then have i: "i < 16" by simp
  have leaf: "codes (WriteTreeToken BModeTree probs (bModeTokens ! (im_BModes mode ! i))) (ReadBMode probs) True (Some (int (im_BModes mode ! i)))"
    using codes_leaf [OF mode_trees_cover(4) assms(2) [OF i], of probs] assms(1) mode_tree_lengths(4) by (simp add: bModeTokens_def ReadBMode_def)
  define out' where "out' = out\<lparr>mb_BModes := (mb_BModes out)[i := im_BModes mode ! i]\<rparr>"
  have "mb_BModes out' ! j = im_BModes mode ! j" if "j < Suc i" for j
    using that Suc.prems i by (cases "j = i") (simp_all add: out'_def)
  then have "codes (write_while (\<lambda>block. WriteTreeToken BModeTree probs (bModeTokens ! (im_BModes mode ! block))) [Suc i..<16])
      (read_inter_bmodes probs [Suc i..<16] out') True (out'\<lparr>mb_BModes := im_BModes mode\<rparr>)"
    using Suc.prems by (intro Suc.IH) (simp_all add: out'_def)
  then have rest: "codes (write_while (\<lambda>block. WriteTreeToken BModeTree probs (bModeTokens ! (im_BModes mode ! block))) [Suc i..<16])
      (read_inter_bmodes probs [Suc i..<16] (out\<lparr>mb_BModes := (mb_BModes out)[i := im_BModes mode ! i]\<rparr>)) True (out\<lparr>mb_BModes := im_BModes mode\<rparr>)"
    by (simp add: out'_def)
  show ?case
    unfolding upt_conv_Cons [OF i] write_while.simps read_inter_bmodes.simps
    by (rule codes_bind [OF leaf], simp only: simp_thms if_False the_leaf_Some nat_int rest, intro sticky_intros sticky_write_while)
qed

definition inter_intra_sent :: "InterFrameMacroblockMode \<Rightarrow> MacroblockMode \<Rightarrow> MacroblockMode" where
  "inter_intra_sent m out = out\<lparr>mb_RefFrame := IntraFrame, mb_Is4x4 := (im_Mode m = BPred), mb_Mode := im_Mode m,
     mb_BModes := (if im_Mode m = BPred then im_BModes m else replicate 16 0), mb_UVMode := im_UVMode m\<rparr>"

lemma sticky_WriteInterIntra [sticky_intros]: "sticky (WriteInterIntraMacroblockMode mode py puv pb)"
  unfolding WriteInterIntraMacroblockMode_def by (intro sticky_intros sticky_write_while)

lemma codes_inter_intra:
  assumes "validInterIntraMacroblockMode mode" "length (im_BModes mode) = 16"
    and "length (mp_YMode probs) = 4" "length (mp_UVMode probs) = 3" "length (mp_BMode probs) = 9"
  shows "codes (WriteInterIntraMacroblockMode mode (mp_YMode probs) (mp_UVMode probs) (mp_BMode probs))
    (decodeInterIntraMacroblockMode probs out) True (inter_intra_sent mode out)"
proof -
  have m: "im_Mode mode < 5" "im_UVMode mode < 4"
    and b: "im_Mode mode = BPred \<Longrightarrow> j < 16 \<Longrightarrow> im_BModes mode ! j < 10" for j
    using assms(1,2) by (auto simp: validInterIntraMacroblockMode_def isInterIntraMacroblockMode_def list_all_length split: if_split_asm)
  have y: "codes (WriteTreeToken YModeTree (mp_YMode probs) (interFrameYModeTokens ! im_Mode mode)) (ReadYMode (mp_YMode probs)) True (Some (int (im_Mode mode)))"
    using codes_leaf [OF mode_trees_cover(2) m(1), of "mp_YMode probs"] assms(3) mode_tree_lengths(2) by (simp add: interFrameYModeTokens_def ReadYMode_def)
  have uv: "codes (WriteTreeToken UVModeTree (mp_UVMode probs) (keyFrameUVModeTokens ! im_UVMode mode)) (ReadUVMode (mp_UVMode probs)) True (Some (int (im_UVMode mode)))"
    using codes_leaf [OF mode_trees_cover(3) m(2), of "mp_UVMode probs"] assms(4) mode_tree_lengths(3) by (simp add: keyFrameUVModeTokens_def ReadUVMode_def)
  define out1 where "out1 = out\<lparr>mb_RefFrame := IntraFrame, mb_Is4x4 := False, mb_BModes := replicate 16 0, mb_Mode := im_Mode mode\<rparr>"
  define out2 where "out2 = (if im_Mode mode = BPred then out1\<lparr>mb_Is4x4 := True, mb_BModes := im_BModes mode\<rparr> else out1)"
  have mode1: "mb_Mode out1 = im_Mode mode" by (simp add: out1_def)
  have mid: "codes (if im_Mode mode = BPred
                then write_while (\<lambda>block. WriteTreeToken BModeTree (mp_BMode probs) (bModeTokens ! (im_BModes mode ! block))) [0..<16]
                else State_Monad.return True)
      (if mb_Mode out1 = BPred then read_inter_bmodes (mp_BMode probs) [0..<16] (out1\<lparr>mb_Is4x4 := True\<rparr>) else State_Monad.return out1) True out2"
  proof (cases "im_Mode mode = BPred")
    case True
    then show ?thesis
      using codes_inter_bmodes [OF assms(5) b [OF True] assms(2), of 0 16 "out1\<lparr>mb_Is4x4 := True\<rparr>"] by (simp add: mode1 out2_def) (simp add: out1_def)
  next
    case False
    then show ?thesis by (simp add: mode1 out2_def codes_return)
  qed
  have fin: "out2\<lparr>mb_UVMode := im_UVMode mode\<rparr> = inter_intra_sent mode out"
    by (cases out) (auto simp: out2_def out1_def inter_intra_sent_def)
  have last: "codes (WriteTreeToken UVModeTree (mp_UVMode probs) (keyFrameUVModeTokens ! im_UVMode mode))
      (ReadUVMode (mp_UVMode probs) \<bind> (\<lambda>uv. State_Monad.return (out2\<lparr>mb_UVMode := nat (the_leaf uv)\<rparr>))) True (inter_intra_sent mode out)"
    using codes_post [OF uv, of "\<lambda>uv. out2\<lparr>mb_UVMode := nat (the_leaf uv)\<rparr>"] by (simp add: fin)
  show ?thesis
    unfolding WriteInterIntraMacroblockMode_def decodeInterIntraMacroblockMode_def Let_def if_not_P [OF not_not [THEN iffD2, OF assms(1)]]
    by (rule codes_bind [OF y], simp only: simp_thms if_False the_leaf_Some nat_int out1_def [symmetric], rule codes_bind [OF mid],
      simp only: simp_thms if_False last, (intro sticky_intros sticky_write_while)+)
qed

section \<open>Split motion vectors\<close>

text \<open>What the split tables share: a subset's first block lies in it, the blocks before and above that one lie in earlier
  subsets, and the fill order lists a subset's blocks.\<close>

definition split_table_ok :: "nat \<Rightarrow> nat \<Rightarrow> bool" where
  "split_table_ok part s \<longleftrightarrow>
     (let block = MBSplitOffset ! part ! s;
          fills = map (\<lambda>i. MBSplitFillOffset ! part ! (s * MBSplitFillCount ! part + i)) [0..<MBSplitFillCount ! part]
      in s < 16 \<and> block < 16 \<and> MBSplits ! part ! block = s \<and>
         (block mod 4 \<noteq> 0 \<longrightarrow> MBSplits ! part ! (block - 1) < s) \<and> (block div 4 \<noteq> 0 \<longrightarrow> MBSplits ! part ! (block - 4) < s) \<and>
         list_all (\<lambda>k. k < 16) fills \<and> list_all (\<lambda>k. (MBSplits ! part ! k = s) = list_ex (\<lambda>j. j = k) fills) [0..<16])"

lemma split_tables:
  "list_all (\<lambda>part. list_all (split_table_ok part) [0..<MBSplitCount ! part] \<and> MBSplitCount ! part = split_partitions part \<and>
     list_all (\<lambda>k. MBSplits ! part ! k < MBSplitCount ! part) [0..<16]) [0..<4]"
  by code_simp

lemma split_tableD:
  assumes "part < 4" "s < MBSplitCount ! part"
  defines "block \<equiv> MBSplitOffset ! part ! s"
  shows "s < 16" "block < 16" "MBSplits ! part ! block = s"
    "block mod 4 \<noteq> 0 \<Longrightarrow> MBSplits ! part ! (block - 1) < s" "block div 4 \<noteq> 0 \<Longrightarrow> MBSplits ! part ! (block - 4) < s"
  using split_tables assms by (auto simp: list_all_iff split_table_ok_def Let_def)

lemma split_fillD:
  assumes "part < 4" "s < MBSplitCount ! part"
  defines "fills \<equiv> map (\<lambda>i. MBSplitFillOffset ! part ! (s * MBSplitFillCount ! part + i)) [0..<MBSplitFillCount ! part]"
  shows "set fills \<subseteq> {..<16}" "k < 16 \<Longrightarrow> k \<in> set fills \<longleftrightarrow> MBSplits ! part ! k = s"
proof -
  have "split_table_ok part s" using split_tables assms(1,2) by (simp add: list_all_iff)
  then have f: "list_all (\<lambda>k. k < 16) fills" "list_all (\<lambda>k. (MBSplits ! part ! k = s) = list_ex (\<lambda>j. j = k) fills) [0..<16]"
    unfolding split_table_ok_def Let_def fills_def by blast+
  show "set fills \<subseteq> {..<16}" using f(1) by (auto simp: list_all_iff)
  show "k \<in> set fills \<longleftrightarrow> MBSplits ! part ! k = s" if "k < 16"
    using f(2) that unfolding list_all_iff list_ex_iff by auto
qed

lemma split_countD:
  assumes "part < 4"
  shows "MBSplitCount ! part = split_partitions part" "k < 16 \<Longrightarrow> MBSplits ! part ! k < MBSplitCount ! part"
proof -
  have "part \<in> set [0..<4]" using assms by simp
  from split_tables [unfolded list_all_iff, rule_format, OF this]
  show "MBSplitCount ! part = split_partitions part" "k < 16 \<Longrightarrow> MBSplits ! part ! k < MBSplitCount ! part"
    unfolding list_all_iff by auto
qed

lemma nth_fold_fill:
  assumes "k < length mvs" "set is \<subseteq> {..<length mvs}"
  shows "fold (\<lambda>i mvs. mvs[i := mv]) is mvs ! k = (if k \<in> set is then mv else mvs ! k)"
  using assms by (induction "is" arbitrary: mvs) (auto simp: nth_list_update)

lemma fill_block_mvs_nth:
  assumes "part < 4" "s < MBSplitCount ! part" "length mvs = 16" "k < 16"
  shows "fill_block_mvs part s mv mvs ! k = (if MBSplits ! part ! k = s then mv else mvs ! k)"
proof -
  let ?fills = "map (\<lambda>i. MBSplitFillOffset ! part ! (s * MBSplitFillCount ! part + i)) [0..<MBSplitFillCount ! part]"
  have "fill_block_mvs part s mv mvs = fold (\<lambda>i mvs. mvs[i := mv]) ?fills mvs"
    by (simp add: fill_block_mvs_def Let_def fold_map comp_def)
  then show ?thesis
    using nth_fold_fill [of k mvs ?fills mv] split_fillD [OF assms(1,2)] assms(3,4) by simp
qed

lemma writes_return_err: "writes return_err [] None"
  unfolding return_err_def
  using writes_bind [OF writes_werr, of "\<lambda>e. State_Monad.return (if e then Some EncErrBufferTooSmall else None)" "[]" None]
  by (simp add: writes_return sticky_return)

lemma sticky_WriteMotionVector [sticky_intros]: "sticky (WriteMotionVector probs mv)"
  unfolding WriteMotionVector_def by (intro sticky_intros)

lemma sticky_writeSubMotionVector [sticky_intros]: "sticky (writeSubMotionVector probs mode target l a best)"
  unfolding writeSubMotionVector_def writeSubMotionVectorReference_def by (intro sticky_intros)

lemma add_delta [simp]: "addMotionVectors b (mv_delta a b) = a"
  by (simp add: addMotionVectors_def mv_delta_def)

definition sub_codable :: "nat \<Rightarrow> MotionVector \<Rightarrow> MotionVector \<Rightarrow> bool" where
  "sub_codable bMode target best \<longleftrightarrow> (bMode = New4x4 \<longrightarrow> mv_codable (mv_delta target best))"

lemma IsZero_eq: "IsZero mv \<longleftrightarrow> mv = zero_mv"
  by (cases mv) (simp add: IsZero_def zero_mv_def)

lemma codes_block_mv:
  assumes "splitSubMotionLabelMatchesMV bMode target l a" "sub_codable bMode target best"
    and "MVPCount \<le> length (mp_MV probs ! 0)" "MVPCount \<le> length (mp_MV probs ! 1)"
  shows "codes (writeSubMotionVector (mp_MV probs) bMode target l a best) (read_block_mv probs best l a) None target"
proof -
  define p where "p = subMVRefProbs l a"
  have bit: "codes (writeSubMotionVector (mp_MV probs) bMode target l a best) (read_block_mv probs best l a) None target"
    if "bMode \<noteq> New4x4" "writeSubMotionVectorReference bMode p = write_choice bits" "reads (read_block_mv probs best l a) bits target" for bits
  proof -
    have "writes (writeSubMotionVector (mp_MV probs) bMode target l a best) (bits @ []) None"
      unfolding writeSubMotionVector_def p_def [symmetric] that(2)
      by (rule writes_bind [OF writes_choice]) (use that(1) in \<open>simp_all add: writes_return_err sticky_intros\<close>)
    then show ?thesis using that(3) by (simp add: codesI)
  qed
  consider "bMode = Left4x4" "target = l" | "bMode = Above4x4" "target = a" | "bMode = Zero4x4" "target = zero_mv" | "bMode = New4x4"
    using assms(1) unfolding splitSubMotionLabelMatchesMV_def IsZero_eq by metis
  then show ?thesis
  proof cases
    case 1
    then have "reads (read_block_mv probs best l a) [(False, p ! 0)] target"
      unfolding read_block_mv_def Let_def p_def [symmetric] by (intro reads_step) (simp add: reads_return)
    then show ?thesis using 1 by (intro bit) (simp_all add: writeSubMotionVectorReference_def)
  next
    case 2
    then have "reads (read_block_mv probs best l a) [(True, p ! 0), (False, p ! 1)] target"
      unfolding read_block_mv_def Let_def p_def [symmetric] by (intro reads_step) (simp, intro reads_step, simp add: reads_return)
    then show ?thesis using 2 by (intro bit) (simp_all add: writeSubMotionVectorReference_def)
  next
    case 3
    then have "reads (read_block_mv probs best l a) [(True, p ! 0), (True, p ! 1), (False, p ! 2)] target"
      unfolding read_block_mv_def Let_def p_def [symmetric]
      by (intro reads_step) (simp, intro reads_step, simp, intro reads_step, simp add: reads_return)
    then show ?thesis using 3 by (intro bit) (simp_all add: writeSubMotionVectorReference_def)
  next
    case 4
    then have c: "mv_codable (mv_delta target best)" using assms(2) by (simp add: sub_codable_def)
    define bits where "bits = [(True, p ! 0), (True, p ! 1), (True, p ! 2)]"
    obtain ys where w: "writes (WriteMotionVector (mp_MV probs) (mv_delta target best)) ys None"
      and r: "reads (DecodeMotionVector (mp_MV probs)) ys (mv_delta target best)"
      using writes_WriteMotionVector [OF c assms(3,4)] reads_DecodeMotionVector [OF c assms(3,4)] by blast
    have d: "reads (do { d \<leftarrow> DecodeMotionVector (mp_MV probs); State_Monad.return (addMotionVectors best d) }) ys target"
      using reads_bind [OF r reads_return, of "addMotionVectors best"] by simp
    have "reads (read_block_mv probs best l a) (bits @ ys) target"
      unfolding read_block_mv_def Let_def p_def [symmetric] bits_def append_Cons append_Nil
      by (rule reads_step, simp only: simp_thms if_False, rule reads_step, simp only: simp_thms if_False, rule reads_step,
        simp only: simp_thms if_False d)
    moreover have "writes (writeSubMotionVector (mp_MV probs) bMode target l a best) (bits @ ys) None"
    proof -
      have ref: "writes (writeSubMotionVectorReference bMode p) bits True" using 4 writes_choice [of bits] by (simp add: writeSubMotionVectorReference_def bits_def)
      show ?thesis
        unfolding writeSubMotionVector_def p_def [symmetric]
        by (rule writes_bind [OF ref]) (use 4 w in \<open>simp_all add: sticky_intros\<close>)
    qed
    ultimately show ?thesis by (rule codesI [rotated])
  qed
qed

text \<open>What the decoder holds of a neighbour, its vectors included.\<close>

definition same_inter :: "MacroblockMode \<Rightarrow> InterFrameMacroblockMode \<Rightarrow> bool" where
  "same_inter d e \<longleftrightarrow> mb_Mode d = im_Mode e \<and> mb_RefFrame d = interFrameReference (Some e) \<and> mb_MV d = im_MV e \<and>
     (im_Mode e = SplitMV \<longrightarrow> mb_BlockMV d = im_BlockMV e)"

lemma same_inter_same_mode: "same_inter d e \<Longrightarrow> same_mode d e"
  by (simp add: same_inter_def same_mode_def)

lemma split_contexts_agree:
  assumes "rel_option same_inter l el" "rel_option same_inter a ea"
    and "block mod 4 \<noteq> 0 \<Longrightarrow> mb_BlockMV out ! (block - 1) = im_BlockMV mode ! (block - 1)"
    and "block div 4 \<noteq> 0 \<Longrightarrow> mb_BlockMV out ! (block - 4) = im_BlockMV mode ! (block - 4)"
  shows "splitLeftMV out l block = SplitLeftMV mode el block" "splitAboveMV out a block = SplitAboveMV mode ea block"
  using assms
  by (auto simp: splitLeftMV_def SplitLeftMV_def splitAboveMV_def SplitAboveMV_def same_inter_def
      split: option.splits elim: option.rel_cases)

lemma split_modeD:
  assumes "validSplitMVModeWithContext mode el ea"
  shows "im_Mode mode = SplitMV" "im_Partition mode < 4" "im_MV mode = im_BlockMV mode ! 15"
    "s < MBSplitCount ! im_Partition mode \<Longrightarrow> MBSplitOffset ! im_Partition mode ! s = block \<Longrightarrow>
       splitSubMotionLabelMatchesMV (im_BModes mode ! block) (im_BlockMV mode ! block) (SplitLeftMV mode el block) (SplitAboveMV mode ea block)"
    "k < 16 \<Longrightarrow> im_BlockMV mode ! k = im_BlockMV mode ! (MBSplitOffset ! im_Partition mode ! (MBSplits ! im_Partition mode ! k))"
proof -
  have v: "validSplitMVMode mode" using assms by (auto simp: validSplitMVModeWithContext_def split: if_split_asm)
  show m: "im_Mode mode = SplitMV" and p: "im_Partition mode < 4" and "im_MV mode = im_BlockMV mode ! 15"
    using v by (auto simp: validSplitMVMode_def split: if_split_asm)
  have pm: "im_Partition mode mod 4 = im_Partition mode" using p by simp
  have s16: "s mod 16 = s" if "s < MBSplitCount ! im_Partition mode" for s using split_tableD(1) [OF p that] by simp
  show "splitSubMotionLabelMatchesMV (im_BModes mode ! block) (im_BlockMV mode ! block) (SplitLeftMV mode el block) (SplitAboveMV mode ea block)"
    if s: "s < MBSplitCount ! im_Partition mode" "MBSplitOffset ! im_Partition mode ! s = block"
    using assms [unfolded validSplitMVModeWithContext_def if_not_P [OF not_not [THEN iffD2, OF v]] pm list_all_iff Let_def, rule_format, of s]
      s s16 [OF s(1)] by simp
  show "im_BlockMV mode ! k = im_BlockMV mode ! (MBSplitOffset ! im_Partition mode ! (MBSplits ! im_Partition mode ! k))" if k: "k < 16"
  proof -
    define s where "s = MBSplits ! im_Partition mode ! k"
    have s: "s < MBSplitCount ! im_Partition mode" using split_countD(2) [OF p k] by (simp only: s_def)
    have "k \<in> set (map (\<lambda>i. MBSplitFillOffset ! im_Partition mode ! (s * MBSplitFillCount ! im_Partition mode + i)) [0..<MBSplitFillCount ! im_Partition mode])"
      using split_fillD(2) [OF p s k] by (simp add: s_def)
    then obtain i where i: "i < MBSplitFillCount ! im_Partition mode"
      "k = MBSplitFillOffset ! im_Partition mode ! (s * MBSplitFillCount ! im_Partition mode + i)" by auto
    have "\<not> (im_Mode mode \<noteq> SplitMV \<or> 4 \<le> im_Partition mode)" using m p by simp
    from v [unfolded validSplitMVMode_def if_not_P [OF this] pm, THEN conjunct1, unfolded list_all_iff Let_def, rule_format, of s] s s16 [OF s] i
    show ?thesis unfolding s_def [symmetric] by simp
  qed
qed

text \<open>Every new vector of the macroblock has a difference to the best one that the vector coder can carry.\<close>

definition split_codable :: "InterFrameMacroblockMode \<Rightarrow> MotionVector \<Rightarrow> bool" where
  "split_codable mode best \<longleftrightarrow>
     list_all (\<lambda>s. sub_codable (im_BModes mode ! (MBSplitOffset ! im_Partition mode ! s)) (im_BlockMV mode ! (MBSplitOffset ! im_Partition mode ! s)) best)
       [0..<MBSplitCount ! im_Partition mode]"

lemma sticky_write_split_subset [sticky_intros]: "sticky (write_split_subset probs mode left abv best s)"
  unfolding write_split_subset_def Let_def by (intro sticky_intros)

lemma codes_split_subsets:
  assumes "validSplitMVModeWithContext mode el ea" "split_codable mode best" "length (im_BlockMV mode) = 16"
    and "MVPCount \<le> length (mp_MV probs ! 0)" "MVPCount \<le> length (mp_MV probs ! 1)"
    and "rel_option same_inter l el" "rel_option same_inter a ea"
  defines "part \<equiv> im_Partition mode"
  shows "i + n = MBSplitCount ! part \<Longrightarrow> length (mb_BlockMV out) = 16 \<Longrightarrow>
    (\<And>k. k < 16 \<Longrightarrow> MBSplits ! part ! k < i \<Longrightarrow> mb_BlockMV out ! k = im_BlockMV mode ! k) \<Longrightarrow>
    codes (write_checked (write_split_subset (mp_MV probs) mode el ea best) [i..<MBSplitCount ! part])
      (read_split_subsets probs l a best part [i..<MBSplitCount ! part] out) None (out\<lparr>mb_BlockMV := im_BlockMV mode\<rparr>)"
proof (induction n arbitrary: i out)
  note D = split_modeD [OF assms(1), folded part_def]
  case 0
  have "MBSplits ! part ! k < i" if "k < 16" for k using 0 split_countD(2) [OF D(2) that] by simp
  then have "mb_BlockMV out = im_BlockMV mode" using 0 assms(3) by (intro nth_equalityI) simp_all
  then have "out = out\<lparr>mb_BlockMV := im_BlockMV mode\<rparr>" by (cases out) simp
  then show ?case using 0 codes_return [of None out] by simp
next
  note D = split_modeD [OF assms(1), folded part_def]
  case (Suc n)
  then have i: "i < MBSplitCount ! part" by simp
  define block where "block = MBSplitOffset ! part ! i"
  define target where "target = im_BlockMV mode ! block"
  note T = split_tableD [OF D(2) i, folded block_def]
  have ctx: "splitLeftMV out l block = SplitLeftMV mode el block" "splitAboveMV out a block = SplitAboveMV mode ea block"
    using T by (intro split_contexts_agree [OF assms(6,7)] Suc.prems(3); simp)+
  note match = D(4) [OF i block_def [symmetric], folded target_def]
  have mv: "codes (writeSubMotionVector (mp_MV probs) (im_BModes mode ! block) target (SplitLeftMV mode el block) (SplitAboveMV mode ea block) best)
      (read_block_mv probs best (SplitLeftMV mode el block) (SplitAboveMV mode ea block)) None target"
    using assms(2) i by (intro codes_block_mv [OF match _ assms(4,5)]) (simp add: split_codable_def list_all_iff part_def block_def target_def)
  have here: "codes (write_split_subset (mp_MV probs) mode el ea best i)
      (read_block_mv probs best (splitLeftMV out l block) (splitAboveMV out a block)) None target"
    using mv match D(2) T(1) unfolding write_split_subset_def Let_def ctx part_def [symmetric]
    by (simp add: block_def [symmetric] target_def [symmetric])
  define out' where "out' = out\<lparr>mb_BlockMV := fill_block_mvs part i target (mb_BlockMV out)\<rparr>"
  have "mb_BlockMV out' ! k = im_BlockMV mode ! k" if k: "k < 16" "MBSplits ! part ! k < Suc i" for k
    using fill_block_mvs_nth [OF D(2) i Suc.prems(2) k(1), of target] Suc.prems(3) [OF k(1)] k(2) D(5) [OF k(1)]
    by (cases "MBSplits ! part ! k = i") (simp_all add: out'_def block_def target_def)
  then have rest: "codes (write_checked (write_split_subset (mp_MV probs) mode el ea best) [Suc i..<MBSplitCount ! part])
      (read_split_subsets probs l a best part [Suc i..<MBSplitCount ! part] out') None (out'\<lparr>mb_BlockMV := im_BlockMV mode\<rparr>)"
    using Suc.prems(1,2) by (intro Suc.IH) (simp_all add: out'_def)
  have fin: "out'\<lparr>mb_BlockMV := im_BlockMV mode\<rparr> = out\<lparr>mb_BlockMV := im_BlockMV mode\<rparr>" by (simp add: out'_def)
  show ?case
    unfolding upt_conv_Cons [OF i] write_checked.simps read_split_subsets.simps Let_def block_def [symmetric]
    by (rule codes_bind [OF here], simp only: simp_thms if_False out'_def [symmetric] rest [unfolded fin],
      intro sticky_intros sticky_write_checked)
qed

lemma sticky_writeMBSplit [sticky_intros]: "sticky (writeMBSplit p)"
  unfolding writeMBSplit_def by (intro sticky_intros)

lemma sticky_WriteSplitMotionVectors [sticky_intros]: "sticky (WriteSplitMotionVectors probs mode l a best)"
  unfolding WriteSplitMotionVectors_def by (intro sticky_intros sticky_write_checked)

lemma codes_split:
  assumes "validSplitMVModeWithContext mode el ea" "split_codable mode best" "length (im_BlockMV mode) = 16"
    and "MVPCount \<le> length (mp_MV probs ! 0)" "MVPCount \<le> length (mp_MV probs ! 1)"
    and "rel_option same_inter l el" "rel_option same_inter a ea" "length (mb_BlockMV out) = 16"
  shows "codes (WriteSplitMotionVectors (mp_MV probs) mode el ea best) (decodeSplitMotionVectors probs l a best out) None
    (out\<lparr>mb_BlockMV := im_BlockMV mode, mb_Partition := im_Partition mode, mb_MV := im_MV mode, mb_Is4x4 := True\<rparr>)"
proof -
  note D = split_modeD [OF assms(1)]
  have pm: "im_Partition mode mod 4 = im_Partition mode" using D(2) by simp
  have subs: "codes (write_checked (write_split_subset (mp_MV probs) mode el ea best) [0..<MBSplitCount ! im_Partition mode])
      (read_split_subsets probs l a best (im_Partition mode) [0..<split_partitions (im_Partition mode)] out) None (out\<lparr>mb_BlockMV := im_BlockMV mode\<rparr>)"
    using codes_split_subsets [OF assms(1-7), of 0 "MBSplitCount ! im_Partition mode" out] assms(8) split_countD(1) [OF D(2)] by simp
  have fin: "codes return_err (State_Monad.return ((out\<lparr>mb_BlockMV := im_BlockMV mode\<rparr>)\<lparr>mb_Partition := im_Partition mode,
      mb_MV := mb_BlockMV (out\<lparr>mb_BlockMV := im_BlockMV mode\<rparr>) ! 15, mb_Is4x4 := True\<rparr>)) None
      (out\<lparr>mb_BlockMV := im_BlockMV mode, mb_Partition := im_Partition mode, mb_MV := im_MV mode, mb_Is4x4 := True\<rparr>)"
    using codes_return_err D(3) by simp
  show ?thesis
    unfolding WriteSplitMotionVectors_def decodeSplitMotionVectors_def if_not_P [OF not_not [THEN iffD2, OF assms(1)]] pm
    by (rule codes_bind [OF codes_split_partition [OF D(2)]], simp only: simp_thms if_False, rule codes_bind [OF subs],
      simp only: simp_thms if_False fin, (intro sticky_intros sticky_write_checked)+)
qed

section \<open>Macroblocks\<close>

text \<open>What the modes must satisfy beyond the encoder's own tests: arrays of 16, no vector on an intra macroblock, and differences
  to the best vector within the reach of the vector coder.\<close>

definition inter_mode_ok :: "InterFrameMacroblockMode \<Rightarrow> MotionVector \<Rightarrow> bool" where
  "inter_mode_ok mode best \<longleftrightarrow> length (im_BModes mode) = 16 \<and> length (im_BlockMV mode) = 16 \<and>
     (interFrameReference (Some mode) = IntraFrame \<longrightarrow> im_MV mode = zero_mv) \<and>
     (im_Mode mode = NewMV \<longrightarrow> mv_codable (mv_delta (im_MV mode) best)) \<and>
     (im_Mode mode = SplitMV \<longrightarrow> split_codable mode best)"

definition inter_mode_sent :: "InterFrameMacroblockMode \<Rightarrow> MacroblockMode \<Rightarrow> MacroblockMode" where
  "inter_mode_sent m out =
     (if interFrameReference (Some m) = IntraFrame then inter_intra_sent m out
      else if im_Mode m = SplitMV
      then out\<lparr>mb_RefFrame := interFrameReference (Some m), mb_Mode := SplitMV, mb_BlockMV := im_BlockMV m, mb_Partition := im_Partition m,
        mb_MV := im_MV m, mb_Is4x4 := True\<rparr>
      else out\<lparr>mb_RefFrame := interFrameReference (Some m), mb_Mode := im_Mode m, mb_MV := im_MV m\<rparr>)"

lemma same_inter_sent:
  assumes "inter_mode_ok m best" "mb_MV out = zero_mv"
  shows "same_inter (inter_mode_sent m out) m"
  using assms by (auto simp: same_inter_def inter_mode_sent_def inter_intra_sent_def inter_mode_ok_def interFrameReference_def isInterIntraMacroblockMode_def)

section \<open>The cells of an inter grid\<close>

definition inter_best :: "InterFrameStateConfig \<Rightarrow> int \<Rightarrow> int \<Rightarrow> InterFrameMacroblockMode list \<Rightarrow> nat \<times> nat \<Rightarrow> MotionVector" where
  "inter_best cfg rows cols modes c =
     interBestMotionVectorAt (cell_above modes (nat cols) c) (cell_left modes (nat cols) c) (cell_above_left modes (nat cols) c)
       (interFrameReference (Some (modes ! (fst c * nat cols + snd c)))) (int (fst c)) (int (snd c)) rows cols (interFrameSignBias cfg)"

definition inter_valid :: "InterFrameStateConfig \<Rightarrow> int \<Rightarrow> int \<Rightarrow> InterFrameMacroblockMode list \<Rightarrow> nat \<times> nat \<Rightarrow> bool" where
  "inter_valid cfg rows cols modes c =
     validInterFrameMacroblockModeAt (modes ! (fst c * nat cols + snd c)) (cell_above modes (nat cols) c) (cell_left modes (nat cols) c)
       (cell_above_left modes (nat cols) c) (int (fst c)) (int (snd c)) rows cols (interFrameSignBias cfg)"

lemma inter_reference_bound:
  assumes "inter_valid cfg rows cols modes c"
  shows "interFrameReference (Some (modes ! (fst c * nat cols + snd c))) < 4"
  using assms by (auto simp: inter_valid_def validInterFrameMacroblockModeAt_def Let_def split: if_split_asm)

lemma sticky_WriteInterPredictionMode [sticky_intros]: "sticky (WriteInterPredictionMode counts mode)"
  unfolding WriteInterPredictionMode_def Let_def by (intro sticky_intros)

lemma sticky_writeInterReference [sticky_intros]: "sticky (writeInterReferenceFrameWithProbs pl pg r)"
  unfolding writeInterReferenceFrameWithProbs_def by (intro sticky_intros)

lemma sticky_invalid_mode [sticky_intros]: "sticky invalid_mode"
  unfolding invalid_mode_def by (intro sticky_intros)

lemma sticky_write_inter_vectors [sticky_intros]: "sticky (write_inter_vectors cfg rows cols modes c)"
  unfolding write_inter_vectors_def Let_def by (intro sticky_intros)

lemma sticky_write_inter_cell [sticky_intros]: "sticky (write_inter_cell cfg rows cols modes c)"
  unfolding write_inter_cell_def Let_def by (intro sticky_intros)

lemma codes_map_error: "codes m n None s \<Longrightarrow> codes (m \<bind> (\<lambda>e. State_Monad.return (map_option f e))) n None s"
proof -
  assume "codes m n None s"
  then obtain xs where xs: "writes m xs None" "reads_inv n xs s" by (auto simp: codes_def)
  have "writes (m \<bind> (\<lambda>e. State_Monad.return (map_option f e))) (xs @ []) None"
    using writes_bind [OF xs(1), of "\<lambda>e. State_Monad.return (map_option f e)" "[]" None] by (simp add: writes_return sticky_return)
  then show ?thesis using xs(2) by (auto simp: codes_def)
qed

text \<open>Neighbours as the decoder holds them.\<close>

definition neighbours_held ::
  "nat \<Rightarrow> MacroblockMode list \<Rightarrow> InterFrameMacroblockMode list \<Rightarrow> nat \<times> nat \<Rightarrow> bool" where
  "neighbours_held cols ms modes c \<longleftrightarrow> rel_option same_inter (cell_above ms cols c) (cell_above modes cols c) \<and>
     rel_option same_inter (cell_left ms cols c) (cell_left modes cols c) \<and>
     rel_option same_inter (cell_above_left ms cols c) (cell_above_left modes cols c) \<and>
     nb_ref_ok (cell_above modes cols c) \<and> nb_ref_ok (cell_left modes cols c) \<and> nb_ref_ok (cell_above_left modes cols c)"

lemma rel_option_mono: "rel_option R x y \<Longrightarrow> (\<And>a b. R a b \<Longrightarrow> S a b) \<Longrightarrow> rel_option S x y"
  by (cases x; cases y) auto

lemma length_interFrameSignBias [simp]: "length (interFrameSignBias cfg) = 4"
  by (simp add: interFrameSignBias_def)

lemma codes_inter_vectors:
  fixes c :: "nat \<times> nat"
  assumes "inter_valid cfg rows cols modes c" "neighbours_held (nat cols) ms modes c"
    and "modes ! (fst c * nat cols + snd c) = mode" "interFrameReference (Some mode) = refFrame" "refFrame \<noteq> IntraFrame"
    and "inter_mode_ok mode (inter_best cfg rows cols modes c)"
    and "interFrameMVProbs cfg = mp_MV probs" "MVPCount \<le> length (mp_MV probs ! 0)" "MVPCount \<le> length (mp_MV probs ! 1)"
    and "length (mb_BlockMV out) = 16" "mb_MV out = zero_mv"
  shows "codes (write_inter_vectors cfg rows cols modes c)
    (decode_inter_vectors (int (fst c)) (int (snd c)) rows cols probs (cell_above ms (nat cols) c) (cell_left ms (nat cols) c)
      (cell_above_left ms (nat cols) c) (interFrameSignBias cfg) refFrame out) None (inter_mode_sent mode out)"
proof -
  define ea el eal where e: "ea = cell_above modes (nat cols) c" "el = cell_left modes (nat cols) c" "eal = cell_above_left modes (nat cols) c"
  define da dl dal where d: "da = cell_above ms (nat cols) c" "dl = cell_left ms (nat cols) c" "dal = cell_above_left ms (nat cols) c"
  define sb where "sb = interFrameSignBias cfg"
  have nb: "rel_option same_inter da ea" "rel_option same_inter dl el" "rel_option same_inter dal eal" "nb_ref_ok ea" "nb_ref_ok el" "nb_ref_ok eal"
    using assms(2) unfolding neighbours_held_def e d by blast+
  have ref: "refFrame < 4" using inter_reference_bound [OF assms(1)] unfolding assms(3,4) .
  obtain nearest near best counts where find: "findNearInterMotionVectors ea el eal refFrame sb = (nearest, near, best, counts)"
    by (metis prod_cases4)
  have find': "FindNearMotionVectors da dl dal refFrame sb = (nearest, near, best, counts)"
    using near_vectors_agree [OF rel_option_mono [OF nb(1)] rel_option_mono [OF nb(2)] rel_option_mono [OF nb(3)] nb(4-6) ref]
      same_inter_same_mode find by (simp add: sb_def)
  define cl where "cl = (\<lambda>mv. clampMotionVectorToModeEdges mv (int (fst c)) (int (snd c)) rows cols)"
  have cl: "clampMotionVectorToModeEdges mv (int (fst c)) (int (snd c)) rows cols = cl mv" for mv by (simp add: cl_def)
  have counts: "interModeCounts ea el eal refFrame sb = counts" by (simp add: interModeCounts_def find)
  have best: "interBestMotionVectorAt ea el eal refFrame (int (fst c)) (int (snd c)) rows cols sb = cl best"
    by (simp add: interBestMotionVectorAt_def interBestMotionVector_def find clamp_agree cl_def)
  have ok: "inter_mode_ok mode (cl best)"
    using assms(6) best unfolding inter_best_def assms(3,4) e [symmetric] sb_def [symmetric] by simp
  have nointra: "interFrameReference (Some mode) \<noteq> IntraFrame" using assms(4,5) by simp
  have valid: "validInterFrameMacroblockModeAt mode ea el eal (int (fst c)) (int (snd c)) rows cols sb"
    using assms(1) unfolding inter_valid_def assms(3) e [symmetric] sb_def [symmetric] .
  have v: "im_Mode mode = ZeroMV \<and> im_MV mode = zero_mv \<or> im_Mode mode = NearestMV \<and> im_MV mode = cl nearest \<or>
      im_Mode mode = NearMV \<and> im_MV mode = cl near \<or> im_Mode mode = NewMV \<or> im_Mode mode = SplitMV \<and> validSplitMVModeWithContext mode el ea"
    using valid assms(4,5) unfolding validInterFrameMacroblockModeAt_def Let_def assms(4) find prod.case clamp_agree cl_def IsZero_eq
    by (simp split: if_split_asm)
  define out' where "out' = out\<lparr>mb_RefFrame := refFrame, mb_Mode := im_Mode mode\<rparr>"
  have len: "length (mb_BlockMV out') = 16" "mb_MV out' = zero_mv" using assms(10,11) by (simp_all add: out'_def)
  have rest: "codes (if im_Mode mode = NewMV then WriteMotionVector (mp_MV probs) (mv_delta (im_MV mode) (cl best)) \<bind> (\<lambda>e. State_Monad.return (map_option ModePacketError e))
      else if im_Mode mode = SplitMV then WriteSplitMotionVectors (mp_MV probs) mode el ea (cl best) \<bind> (\<lambda>e. State_Monad.return (map_option ModePacketError e))
      else State_Monad.return None)
    (if im_Mode mode = ZeroMV then State_Monad.return (out'\<lparr>mb_MV := zero_mv\<rparr>)
     else if im_Mode mode = NearestMV then State_Monad.return (out'\<lparr>mb_MV := cl nearest\<rparr>)
     else if im_Mode mode = NearMV then State_Monad.return (out'\<lparr>mb_MV := cl near\<rparr>)
     else if im_Mode mode = NewMV then DecodeMotionVector (mp_MV probs) \<bind> (\<lambda>d. State_Monad.return (out'\<lparr>mb_MV := addMotionVectors (cl best) d\<rparr>))
     else if im_Mode mode = SplitMV then decodeSplitMotionVectors probs dl da (cl best) out'
     else State_Monad.return out') None (inter_mode_sent mode out)"
  proof -
    consider "im_Mode mode = ZeroMV" "im_MV mode = zero_mv" | "im_Mode mode = NearestMV" "im_MV mode = cl nearest" |
      "im_Mode mode = NearMV" "im_MV mode = cl near" | "im_Mode mode = NewMV" | "im_Mode mode = SplitMV" "validSplitMVModeWithContext mode el ea"
      using v by blast
    then show ?thesis
    proof cases
      case 4
      then have "mv_codable (mv_delta (im_MV mode) (cl best))" using ok by (simp add: inter_mode_ok_def)
      from codesI [OF writes_WriteMotionVector [OF this assms(8,9)] reads_DecodeMotionVector [OF this assms(8,9)]]
      have "codes (WriteMotionVector (mp_MV probs) (mv_delta (im_MV mode) (cl best)) \<bind> (\<lambda>e. State_Monad.return (map_option ModePacketError e)))
        (DecodeMotionVector (mp_MV probs) \<bind> (\<lambda>d. State_Monad.return (out'\<lparr>mb_MV := addMotionVectors (cl best) d\<rparr>))) None
        (out'\<lparr>mb_MV := addMotionVectors (cl best) (mv_delta (im_MV mode) (cl best))\<rparr>)"
        by (intro codes_map_error codes_post)
      then show ?thesis using 4 nointra assms(4) by (simp add: inter_mode_sent_def out'_def)
    next
      case 5
      have sp: "split_codable mode (cl best)" and len16: "length (im_BlockMV mode) = 16" using ok 5 by (simp_all add: inter_mode_ok_def)
      have eq: "out'\<lparr>mb_BlockMV := im_BlockMV mode, mb_Partition := im_Partition mode, mb_MV := im_MV mode, mb_Is4x4 := True\<rparr> = inter_mode_sent mode out"
        using 5 nointra assms(4) by (simp add: inter_mode_sent_def out'_def)
      have "codes (WriteSplitMotionVectors (mp_MV probs) mode el ea (cl best) \<bind> (\<lambda>e. State_Monad.return (map_option ModePacketError e)))
          (decodeSplitMotionVectors probs dl da (cl best) out') None (inter_mode_sent mode out)"
        using codes_map_error [OF codes_split [OF 5(2) sp len16 assms(8,9) nb(2,1) len(1)], of ModePacketError] unfolding eq .
      then show ?thesis using 5 by simp
    qed (use nointra assms(4) in \<open>simp_all add: inter_mode_sent_def out'_def codes_return\<close>)
  qed
  have pred: "codes (WriteInterPredictionMode counts (im_Mode mode)) (ReadInterPredictionMode counts) True (im_Mode mode)"
    using v by (intro codes_prediction) blast
  show ?thesis
    unfolding write_inter_vectors_def decode_inter_vectors_def Let_def assms(3,4,7) e [symmetric] d [symmetric] sb_def [symmetric] find' prod.case
      counts best if_not_P [OF not_not [THEN iffD2, OF valid]] cl
    by (rule codes_bind [OF pred], simp only: simp_thms if_False out'_def [symmetric] rest, intro sticky_intros)
qed

lemma codes_unassoc_left: "codes ((m \<bind> f) \<bind> h) n r s \<Longrightarrow> codes (m \<bind> (\<lambda>x. f x \<bind> h)) n r s"
  by simp

text \<open>Encoder and decoder use the same probabilities.\<close>

definition probs_in_sync :: "InterFrameStateConfig \<Rightarrow> ModeProbs \<Rightarrow> bool" where
  "probs_in_sync cfg p \<longleftrightarrow> mp_YMode p = interFrameYModeProbs cfg \<and> mp_UVMode p = interFrameUVModeProbs cfg \<and>
     mp_BMode p = interFrameBModeProbs cfg \<and> mp_MV p = interFrameMVProbs cfg \<and>
     length (mp_YMode p) = 4 \<and> length (mp_UVMode p) = 3 \<and> length (mp_BMode p) = 9"

lemma mv_probs_length: "MVPCount \<le> length (interFrameMVProbs cfg ! 0)" "MVPCount \<le> length (interFrameMVProbs cfg ! 1)"
  by (simp_all add: interFrameMVProbs_def)

text \<open>After the start of the macroblock.\<close>

lemma codes_inter_mode:
  fixes c :: "nat \<times> nat"
  assumes "inter_valid cfg rows cols modes c" "neighbours_held (nat cols) ms modes c"
    and "modes ! (fst c * nat cols + snd c) = mode" "inter_mode_ok mode (inter_best cfg rows cols modes c)"
    and "probs_in_sync cfg probs" "length (mb_BlockMV out) = 16" "mb_MV out = zero_mv"
  shows "codes (if interFrameReference (Some mode) = IntraFrame then do {
            wr (\<lambda>w. WriteBool w 0 (i_ProbIntra cfg));
            ok \<leftarrow> WriteInterIntraMacroblockMode mode (interFrameYModeProbs cfg) (interFrameUVModeProbs cfg) (interFrameBModeProbs cfg);
            if \<not> ok then invalid_mode else State_Monad.return None
          }
          else do {
            wr (\<lambda>w. WriteBool w 1 (i_ProbIntra cfg));
            ok \<leftarrow> writeInterReferenceFrameWithProbs (i_ProbLast cfg) (i_ProbGolden cfg) (interFrameReference (Some mode));
            if \<not> ok then invalid_mode else write_inter_vectors cfg rows cols modes c
          })
    (do {
      refFrame \<leftarrow> ReadInterReferenceFrame (mode_header_sent cfg);
      if refFrame = IntraFrame then decodeInterIntraMacroblockMode probs out
      else decode_inter_vectors (int (fst c)) (int (snd c)) rows cols probs (cell_above ms (nat cols) c) (cell_left ms (nat cols) c)
        (cell_above_left ms (nat cols) c) (interFrameSignBias cfg) refFrame out
    }) None (inter_mode_sent mode out)"
proof -
  define refFrame where "refFrame = interFrameReference (Some mode)"
  have h: "mh_ProbIntra (mode_header_sent cfg) = i_ProbIntra cfg" "mh_ProbLast (mode_header_sent cfg) = i_ProbLast cfg"
    "mh_ProbGolden (mode_header_sent cfg) = i_ProbGolden cfg" by (simp_all add: mode_header_sent_def)
  have sync: "mp_YMode probs = interFrameYModeProbs cfg" "mp_UVMode probs = interFrameUVModeProbs cfg" "mp_BMode probs = interFrameBModeProbs cfg"
    "interFrameMVProbs cfg = mp_MV probs" "length (mp_YMode probs) = 4" "length (mp_UVMode probs) = 3" "length (mp_BMode probs) = 9"
    using assms(5) unfolding probs_in_sync_def by metis+
  have len: "length (im_BModes mode) = 16" using assms(4) by (simp add: inter_mode_ok_def)
  show ?thesis
  proof (cases "refFrame = IntraFrame")
    case True
    have "validInterIntraMacroblockMode mode"
      using assms(1) True unfolding inter_valid_def validInterFrameMacroblockModeAt_def assms(3) refFrame_def by (simp add: Let_def)
    note intra = codes_inter_intra [OF this len sync(5-7), of out, unfolded sync(1-3)]
    have flag: "codes (wr (\<lambda>w. WriteBool w 0 (i_ProbIntra cfg))) (ReadInterReferenceFrame (mode_header_sent cfg)) () IntraFrame"
      unfolding ReadInterReferenceFrame_def h
      by (rule codesI [OF writes_WriteBool_of_bool [of False, simplified]]) (rule reads_step, simp add: reads_return)
    have sent: "inter_intra_sent mode out = inter_mode_sent mode out" using True by (simp add: inter_mode_sent_def refFrame_def)
    have rest: "codes (do { ok \<leftarrow> WriteInterIntraMacroblockMode mode (interFrameYModeProbs cfg) (interFrameUVModeProbs cfg) (interFrameBModeProbs cfg);
        if \<not> ok then invalid_mode else State_Monad.return None }) (decodeInterIntraMacroblockMode probs out) None (inter_mode_sent mode out)"
      using codes_bind [OF intra, of "\<lambda>ok. if \<not> ok then invalid_mode else State_Monad.return None" State_Monad.return None]
      by (simp add: sent codes_return sticky_intros)
    show ?thesis
      unfolding refFrame_def [symmetric] using True
      by (simp only: simp_thms if_True) (rule codes_bind [OF flag], simp only: simp_thms if_True rest, intro sticky_intros)
  next
    case False
    have "refFrame = LastFrame \<or> refFrame = GoldenFrame \<or> refFrame = AltRefFrame"
      using inter_reference_bound [OF assms(1)] False unfolding assms(3) refFrame_def by linarith
    from codes_reference [OF this, of "i_ProbIntra cfg" "i_ProbLast cfg" "i_ProbGolden cfg"]
    have ref: "codes (do { wr (\<lambda>w. WriteBool w 1 (i_ProbIntra cfg)); writeInterReferenceFrameWithProbs (i_ProbLast cfg) (i_ProbGolden cfg) refFrame })
        (ReadInterReferenceFrame (mode_header_sent cfg)) True refFrame"
      unfolding ReadInterReferenceFrame_def h .
    note vectors = codes_inter_vectors [OF assms(1-3) refFrame_def [symmetric] False assms(4) sync(4)
        mv_probs_length [of cfg, unfolded sync(4)] assms(6,7)]
    show ?thesis
      unfolding refFrame_def [symmetric] using False
      by (simp only: simp_thms if_False) (rule codes_unassoc_left, rule codes_bind [OF ref], simp only: simp_thms if_False vectors, intro sticky_intros)
  qed
qed

definition inter_cell_sent :: "InterFrameStateConfig \<Rightarrow> InterFrameMacroblockMode list \<Rightarrow> nat \<Rightarrow> MacroblockMode \<Rightarrow> MacroblockMode" where
  "inter_cell_sent cfg modes i old =
     inter_mode_sent (modes ! i) (mb_start_sent (c_Segmentation cfg) True (im_SegmentID (modes ! i)) (im_MBSkipCoeff (modes ! i)) old)"

definition inter_cell_ok :: "InterFrameStateConfig \<Rightarrow> int \<Rightarrow> int \<Rightarrow> InterFrameMacroblockMode list \<Rightarrow> nat \<times> nat \<Rightarrow> bool" where
  "inter_cell_ok cfg rows cols modes c \<longleftrightarrow> inter_valid cfg rows cols modes c \<and>
     inter_mode_ok (modes ! (fst c * nat cols + snd c)) (inter_best cfg rows cols modes c) \<and>
     (sc_Enabled (c_Segmentation cfg) \<and> sc_UpdateMap (c_Segmentation cfg) \<longrightarrow> im_SegmentID (modes ! (fst c * nat cols + snd c)) < 4)"

definition inter_grid_ok :: "InterFrameStateConfig \<Rightarrow> int \<Rightarrow> int \<Rightarrow> InterFrameMacroblockMode list \<Rightarrow> bool" where
  "inter_grid_ok cfg rows cols modes \<longleftrightarrow> list_all (inter_cell_ok cfg rows cols modes) (grid_cells (nat rows) (nat cols))"

lemma inter_grid_okD:
  assumes "inter_grid_ok cfg rows cols modes" "i < nat rows * nat cols"
  shows "inter_cell_ok cfg rows cols modes (i div nat cols, i mod nat cols)"
proof -
  have "0 < nat cols" using assms(2) by (cases "nat cols") simp_all
  then have "(i div nat cols, i mod nat cols) \<in> set (grid_cells (nat rows) (nat cols))"
    using assms(2) by (simp add: grid_cells_map)
  then show ?thesis using assms(1) by (simp add: inter_grid_ok_def list_all_iff)
qed

lemma mb_start_fields [simp]: "mb_MV (mb_start_sent cfg noSkip s skip old) = zero_mv" "length (mb_BlockMV (mb_start_sent cfg noSkip s skip old)) = 16"
  by (simp_all add: mb_start_sent_def zero_mode_def)

lemma cell_above_left_index:
  assumes "0 < (cols :: nat)"
  shows "cell_above_left modes cols (i div cols, i mod cols) = (if cols \<le> i \<and> 0 < i mod cols then Some (modes ! (i - cols - 1)) else None)"
  using assms by (simp add: cell_above_left_def div_greater_zero_iff)

lemma inter_neighbours_held:
  assumes "inter_grid_ok cfg rows cols modes" "i < nat rows * nat cols" "nat rows * nat cols \<le> length old"
  shows "neighbours_held (nat cols) (grid_sent i (inter_cell_sent cfg modes) old) modes (i div nat cols, i mod nat cols)"
proof -
  let ?ms = "grid_sent i (inter_cell_sent cfg modes) old"
  have pos: "0 < nat cols" using assms(2) by (cases "nat cols") simp_all
  have held: "same_inter (?ms ! j) (modes ! j)" if "j < i" for j
  proof -
    have j: "j < nat rows * nat cols" using that assms(2) by simp
    have "inter_mode_ok (modes ! j) (inter_best cfg rows cols modes (j div nat cols, j mod nat cols))"
      using inter_grid_okD [OF assms(1) j] unfolding inter_cell_ok_def cell_index by blast
    then have "same_inter (inter_cell_sent cfg modes j (old ! j)) (modes ! j)"
      unfolding inter_cell_sent_def by (rule same_inter_sent) simp
    then show ?thesis using that j assms(3) by (simp add: grid_sent_nth)
  qed
  have ref: "interFrameReference (Some (modes ! j)) < 4" if "j < i" for j
  proof -
    have j: "j < nat rows * nat cols" using that assms(2) by simp
    show ?thesis using inter_reference_bound [of cfg rows cols modes "(j div nat cols, j mod nat cols)"] inter_grid_okD [OF assms(1) j]
      unfolding inter_cell_ok_def cell_index by blast
  qed
  have n: "interFrameReference None < 4" by (simp add: interFrameReference_def)
  have lt: "i - 1 < i" if "0 < i mod nat cols" using that by (cases i) simp_all
  have lt': "i - nat cols < i" "i - nat cols - 1 < i" if "nat cols \<le> i" using that pos by linarith+
  show ?thesis
    unfolding neighbours_held_def cell_above_index [OF pos] cell_left_index cell_above_left_index [OF pos] nb_ref_ok_def
    using held [OF lt] held [OF lt'(1)] held [OF lt'(2)] ref [OF lt] ref [OF lt'(1)] ref [OF lt'(2)] n
    by (simp split: if_split)
qed

lemma codes_inter_cell:
  assumes "inter_grid_ok cfg rows cols modes" "nat rows * nat cols \<le> length old" "i < nat rows * nat cols"
    and "c_MBNoCoeffSkip cfg" "probs_in_sync cfg probs"
  shows "codes (write_inter_cell cfg rows cols modes (i div nat cols, i mod nat cols))
    (read_inter_cell rows cols (Some (segmentation_sent (c_Segmentation cfg))) (mode_header_sent cfg) probs (interFrameSignBias cfg)
      (i div nat cols, i mod nat cols) (grid_sent i (inter_cell_sent cfg modes) old)) None
    (inter_cell_sent cfg modes i (old ! i))"
proof -
  let ?ms = "grid_sent i (inter_cell_sent cfg modes) old"
  define c where "c = (i div nat cols, i mod nat cols)"
  have idx: "fst c * nat cols + snd c = i" by (simp add: c_def)
  have ok: "inter_valid cfg rows cols modes c" "inter_mode_ok (modes ! i) (inter_best cfg rows cols modes c)"
    and seg: "sc_Enabled (c_Segmentation cfg) \<Longrightarrow> sc_UpdateMap (c_Segmentation cfg) \<Longrightarrow> im_SegmentID (modes ! i) < 4"
    using inter_grid_okD [OF assms(1,3)] unfolding c_def [symmetric] inter_cell_ok_def idx by blast+
  have old: "?ms ! i = old ! i" using assms(2,3) by (simp add: grid_sent_nth)
  have h: "mh_MBNoCoeffSkip (mode_header_sent cfg) = True" "mh_ProbSkipFalse (mode_header_sent cfg) = c_ProbSkipFalse cfg"
    using assms(4) by (simp_all add: mode_header_sent_def)
  have "neighbours_held (nat cols) ?ms modes c"
    using inter_neighbours_held [OF assms(1,3,2)] unfolding c_def [symmetric] .
  from codes_inter_mode [OF ok(1) this arg_cong [OF idx] ok(2) assms(5) mb_start_fields(2,1),
      of "c_Segmentation cfg" True "im_SegmentID (modes ! i)" "im_MBSkipCoeff (modes ! i)" "old ! i"]
  have K: "codes (if interFrameReference (Some (modes ! i)) = IntraFrame then do {
            wr (\<lambda>w. WriteBool w 0 (i_ProbIntra cfg));
            ok \<leftarrow> WriteInterIntraMacroblockMode (modes ! i) (interFrameYModeProbs cfg) (interFrameUVModeProbs cfg) (interFrameBModeProbs cfg);
            if \<not> ok then invalid_mode else State_Monad.return None
          }
          else do {
            wr (\<lambda>w. WriteBool w 1 (i_ProbIntra cfg));
            ok \<leftarrow> writeInterReferenceFrameWithProbs (i_ProbLast cfg) (i_ProbGolden cfg) (interFrameReference (Some (modes ! i)));
            if \<not> ok then invalid_mode else write_inter_vectors cfg rows cols modes c
          })
    (do {
      refFrame \<leftarrow> ReadInterReferenceFrame (mode_header_sent cfg);
      if refFrame = IntraFrame then decodeInterIntraMacroblockMode probs (mb_start_sent (c_Segmentation cfg) True (im_SegmentID (modes ! i)) (im_MBSkipCoeff (modes ! i)) (old ! i))
      else decode_inter_vectors (int (fst c)) (int (snd c)) rows cols probs (cell_above ?ms (nat cols) c) (cell_left ?ms (nat cols) c)
        (cell_above_left ?ms (nat cols) c) (interFrameSignBias cfg) refFrame
        (mb_start_sent (c_Segmentation cfg) True (im_SegmentID (modes ! i)) (im_MBSkipCoeff (modes ! i)) (old ! i))
    }) None (inter_cell_sent cfg modes i (old ! i))"
    unfolding inter_cell_sent_def .
  note start = codes_mb_start [of "c_Segmentation cfg" "im_SegmentID (modes ! i)" _ _ "mode_header_sent cfg" "im_MBSkipCoeff (modes ! i)" "old ! i" _ _ "\<lambda>_. mode_failure",
      unfolded h if_True]
  show ?thesis
    unfolding c_def [symmetric] write_inter_cell_def read_inter_cell_def decodeInterMacroblockAt_def Let_def idx old
    by (rule start, rule seg, assumption, assumption, rule K, (intro sticky_intros)+)
qed

lemma codes_inter_grid:
  assumes "\<not> grid_too_small rows cols (length modes)" "\<not> grid_too_small rows cols (length old)" "validSegmentationConfig (c_Segmentation cfg)"
    and "inter_grid_ok cfg rows cols modes" "c_MBNoCoeffSkip cfg" "probs_in_sync cfg probs"
  shows "codes (WriteLastFrameZeroMVModeGridWithSkip rows cols cfg modes)
    (DecodeInterModeGrid rows cols (Some (segmentation_sent (c_Segmentation cfg))) (mode_header_sent cfg) probs (interFrameSignBias cfg) old) None
    (Inr (grid_sent (nat rows * nat cols) (inter_cell_sent cfg modes) old))"
proof -
  have len: "nat rows * nat cols \<le> length old"
    using assms(2) by (simp add: grid_too_small_def nat_mult_distrib [symmetric] nat_le_iff)
  have fits: "\<not> (grid_too_small rows cols (length modes) \<or> \<not> c_MBNoCoeffSkip cfg)" using assms(1,5) by simp
  have grid: "codes (write_checked (write_inter_cell cfg rows cols modes) (grid_cells (nat rows) (nat cols)))
      (read_cells (read_inter_cell rows cols (Some (segmentation_sent (c_Segmentation cfg))) (mode_header_sent cfg) probs (interFrameSignBias cfg))
        (nat cols) (grid_cells (nat rows) (nat cols)) old) None
      (grid_sent (nat rows * nat cols) (inter_cell_sent cfg modes) old)"
  proof (cases "nat cols = 0")
    case True
    then show ?thesis by (simp add: no_cells codes_return grid_sent_0)
  next
    case False
    then show ?thesis using codes_inter_cell [OF assms(4) len _ assms(5,6)] len by (intro codes_grid sticky_write_inter_cell) simp_all
  qed
  show ?thesis
    unfolding WriteLastFrameZeroMVModeGridWithSkip_def DecodeInterModeGrid_def if_not_P [OF fits] if_not_P [OF assms(2)]
      if_not_P [OF not_not [THEN iffD2, OF assms(3)]]
    by (rule codes_bind [OF grid], simp only: simp_thms if_False, rule codes_mode_end, (intro sticky_intros)+)
qed

end
