(* ===== verification/Vp8_Inter_Frame.thy ===== *)
theory Vp8_Inter_Frame
  imports Vp8_Key_Frame Vp8_Inter_Roundtrip Vp8_Inter_Mode_Codes
begin

text \<open>
  The first partition of an inter frame as a whole: the state header, then the macroblock modes, coded
  with the probabilities the header announced on top of the tables both sides kept, and in the
  context of the motion vectors both sides search for.
\<close>

section \<open>What a successful writer accepted\<close>

lemma run_after: "run_state m w = (a, w1) \<Longrightarrow> run_state (m \<bind> f) w = run_state (f a) w1"
  by simp

text \<open>A test of a step's answer, after which the run succeeded.\<close>

lemma test_passed:
  assumes "fst (run_state (m \<bind> (\<lambda>ok. if \<not> ok then F else K)) w) = None" "\<And>w. fst (run_state F w) \<noteq> None"
  shows "fst (run_state m w) \<and> (\<exists>w1. fst (run_state K w1) = None)"
proof -
  obtain ok w1 where m: "run_state m w = (ok, w1)" by (metis surj_pair)
  have r: "fst (run_state (if \<not> ok then F else K) w1) = None" using assms(1) unfolding run_after [OF m] .
  have "ok" using r assms(2) [of w1] by (cases ok) (simp_all only: simp_thms if_True if_False)
  then show ?thesis using m r by auto
qed

lemma step_passed: "fst (run_state (m \<bind> (\<lambda>_. K)) w) = None \<Longrightarrow> \<exists>w1. fst (run_state K w1) = None"
  by (cases "run_state m w") (auto simp: run_after)

lemma inter_vectors_written:
  "fst (run_state (write_inter_vectors cfg rows cols modes c) w) = None \<Longrightarrow> inter_valid cfg rows cols modes c"
  by (rule ccontr) (simp add: write_inter_vectors_def inter_valid_def invalid_mode_def Let_def)

lemma inter_intra_written:
  "fst (run_state (WriteInterIntraMacroblockMode mode py puv pb) w) \<Longrightarrow> validInterIntraMacroblockMode mode"
  by (auto simp: WriteInterIntraMacroblockMode_def split: if_split_asm)

lemma inter_cell_written:
  assumes "fst (run_state (write_inter_cell cfg rows cols modes c) w) = None"
  shows "inter_valid cfg rows cols modes c \<and> (sc_Enabled (c_Segmentation cfg) \<and> sc_UpdateMap (c_Segmentation cfg) \<longrightarrow>
    im_SegmentID (modes ! (fst c * nat cols + snd c)) < 4)"
proof -
  let ?m = "modes ! (fst c * nat cols + snd c)"
  let ?s = "if sc_Enabled (c_Segmentation cfg) \<and> sc_UpdateMap (c_Segmentation cfg)
    then writeMacroblockSegmentID (segmentationTreeProbs (c_Segmentation cfg)) (im_SegmentID ?m) else State_Monad.return True"
  define intra where "intra = do {
            wr (\<lambda>w. WriteBool w 0 (i_ProbIntra cfg));
            ok \<leftarrow> WriteInterIntraMacroblockMode ?m (interFrameYModeProbs cfg) (interFrameUVModeProbs cfg) (interFrameBModeProbs cfg);
            if \<not> ok then invalid_mode else State_Monad.return None }"
  define inter where "inter = do {
            wr (\<lambda>w. WriteBool w 1 (i_ProbIntra cfg));
            ok \<leftarrow> writeInterReferenceFrameWithProbs (i_ProbLast cfg) (i_ProbGolden cfg) (interFrameReference (Some ?m));
            if \<not> ok then invalid_mode else write_inter_vectors cfg rows cols modes c }"
  define k where "k = do {
          wr (\<lambda>w. WriteBool w (if im_MBSkipCoeff ?m then 1 else 0) (c_ProbSkipFalse cfg));
          if interFrameReference (Some ?m) = IntraFrame then intra else inter }"
  have cell: "write_inter_cell cfg rows cols modes c = do { ok \<leftarrow> ?s; if \<not> ok then mode_failure else k }"
    by (simp only: write_inter_cell_def k_def intra_def inter_def Let_def)
  have inv: "fst (run_state invalid_mode w) \<noteq> None" for w by (simp add: invalid_mode_def)
  note passed = test_passed [OF assms [unfolded cell] mode_failure_not_None]
  have seg: "im_SegmentID ?m < 4" if "sc_Enabled (c_Segmentation cfg) \<and> sc_UpdateMap (c_Segmentation cfg)"
  proof -
    have "fst (run_state (writeMacroblockSegmentID (segmentationTreeProbs (c_Segmentation cfg)) (im_SegmentID ?m)) w)"
      using passed [THEN conjunct1] that by (simp only: simp_thms if_True)
    then show ?thesis by (rule segment_id_written)
  qed
  obtain w1 where "fst (run_state k w1) = None" using passed by blast
  from step_passed [OF this [unfolded k_def]]
  obtain w2 where w2: "fst (run_state (if interFrameReference (Some ?m) = IntraFrame then intra else inter) w2) = None" ..
  have "inter_valid cfg rows cols modes c"
  proof (cases "interFrameReference (Some ?m) = IntraFrame")
    case True
    from w2 [unfolded if_P [OF True] intra_def, THEN step_passed] obtain w3 where
      "fst (run_state (WriteInterIntraMacroblockMode ?m (interFrameYModeProbs cfg) (interFrameUVModeProbs cfg) (interFrameBModeProbs cfg)
        \<bind> (\<lambda>ok. if \<not> ok then invalid_mode else State_Monad.return None)) w3) = None" ..
    from test_passed [OF this inv] have "validInterIntraMacroblockMode ?m" using inter_intra_written by blast
    then show ?thesis using True by (simp add: inter_valid_def validInterFrameMacroblockModeAt_def)
  next
    case False
    from w2 [unfolded if_not_P [OF False] inter_def, THEN step_passed] obtain w3 where
      "fst (run_state (writeInterReferenceFrameWithProbs (i_ProbLast cfg) (i_ProbGolden cfg) (interFrameReference (Some ?m))
        \<bind> (\<lambda>ok. if \<not> ok then invalid_mode else write_inter_vectors cfg rows cols modes c)) w3) = None" ..
    from test_passed [OF this inv] show ?thesis using inter_vectors_written by blast
  qed
  then show ?thesis using seg by blast
qed

text \<open>The conditions on the modes that the encoder does not test.\<close>

definition inter_modes_carried :: "InterFrameStateConfig \<Rightarrow> int \<Rightarrow> int \<Rightarrow> InterFrameMacroblockMode list \<Rightarrow> bool" where
  "inter_modes_carried cfg rows cols modes \<longleftrightarrow>
     list_all (\<lambda>c. inter_mode_ok (modes ! (fst c * nat cols + snd c)) (inter_best cfg rows cols modes c)) (grid_cells (nat rows) (nat cols))"

lemma inter_grid_written:
  assumes "fst (run_state (WriteLastFrameZeroMVModeGridWithSkip rows cols cfg modes) w) = None" "inter_modes_carried cfg rows cols modes"
  shows "\<not> grid_too_small rows cols (length modes) \<and> validSegmentationConfig (c_Segmentation cfg) \<and> c_MBNoCoeffSkip cfg \<and> inter_grid_ok cfg rows cols modes"
proof -
  have fit: "\<not> (grid_too_small rows cols (length modes) \<or> \<not> c_MBNoCoeffSkip cfg)"
    using assms(1) by (auto simp: WriteLastFrameZeroMVModeGridWithSkip_def split: if_split_asm)
  have seg: "validSegmentationConfig (c_Segmentation cfg)"
    using assms(1) fit by (auto simp: WriteLastFrameZeroMVModeGridWithSkip_def invalid_mode_def split: if_split_asm)
  have all: "fst (run_state (write_checked (write_inter_cell cfg rows cols modes) (grid_cells (nat rows) (nat cols))) w) = None"
    using assms(1) seg unfolding WriteLastFrameZeroMVModeGridWithSkip_def if_not_P [OF fit]
    by (auto split: if_split_asm prod.splits)
  have "inter_cell_ok cfg rows cols modes c" if c: "c \<in> set (grid_cells (nat rows) (nat cols))" for c
  proof -
    from write_checked_None [OF all c] obtain w1 where "fst (run_state (write_inter_cell cfg rows cols modes c) w1) = None" ..
    from inter_cell_written [OF this] show ?thesis
      using assms(2) c unfolding inter_cell_ok_def inter_modes_carried_def list_all_iff by blast
  qed
  then show ?thesis using fit seg by (simp add: inter_grid_ok_def list_all_iff)
qed

section \<open>The probabilities stay in step\<close>

text \<open>Before the frame the decoder holds the tables the encoder calls its bases.\<close>

definition bases_held :: "InterFrameStateConfig \<Rightarrow> ModeProbs \<Rightarrow> bool" where
  "bases_held cfg p \<longleftrightarrow> mp_YMode p = i_YModeBase cfg \<and> mp_UVMode p = i_UVModeBase cfg \<and> mp_BMode p = i_BModeBase cfg \<and>
     mp_MV p = i_MVBase cfg \<and> mode_probs_shape p \<and> length (mp_BMode p) = 9"

lemma probs_stay_in_sync:
  assumes "inter_config_shape cfg" "bases_held cfg p"
  shows "probs_in_sync cfg (mode_probs_sent cfg p)"
proof -
  have len: "length (mp_YMode p) = 4" "length (mp_UVMode p) = 3" "length (i_YModeProbs cfg) = 4" "length (i_UVModeProbs cfg) = 3"
    "map length (mp_MV p) = [19, 19]" "map length (i_MVProbs cfg) = [19, 19]" "map length (i_MVUpdate cfg) = [19, 19]"
    using assms unfolding inter_config_shape_def bases_held_def mode_probs_shape_def by blast+
  have row: "length (xs ! c) = 19" if "map length xs = [19, 19]" "c < 2" for xs :: "'z list list" and c
    using that by (auto simp: less_2_cases_iff Cons_eq_map_conv)
  have base: "mp_MV p = i_MVBase cfg" using assms(2) unfolding bases_held_def by blast
  have "mv_row_sent cfg (mp_MV p) c = map (\<lambda>i. if i_MVUpdate cfg ! c ! i then i_MVProbs cfg ! c ! i else i_MVBase cfg ! c ! i) [0..<19]"
    if c: "c < 2" for c
    using row [OF len(5) c] row [OF len(6) c] row [OF len(7) c] unfolding base
    by (intro nth_equalityI) (simp_all add: mv_row_sent_def)
  note rows = this
  have "[0..<2] = [0, 1 :: nat]" by code_simp
  then have "interFrameMVProbs cfg = [mv_row_sent cfg (mp_MV p) 0, mv_row_sent cfg (mp_MV p) 1]"
    using rows [of 0] rows [of 1] by (simp only: interFrameMVProbs_def list.map)
  then show ?thesis
    using assms(2) len(1-4) unfolding probs_in_sync_def bases_held_def
    by (auto simp: mode_probs_sent_def interFrameYModeProbs_def interFrameUVModeProbs_def interFrameBModeProbs_def)
qed

lemma sign_bias_sent: "referenceSignBias (refresh_sent cfg) = interFrameSignBias cfg"
  by (simp add: referenceSignBias_def refresh_sent_def interFrameSignBias_def)

section \<open>Room for the modes\<close>

lemma spends_write_choice: "length bits \<le> n \<Longrightarrow> spends (write_choice bits) n"
  by (rule writes_spends [OF writes_choice])

lemma spends_invalid_mode [spends_intros]: "spends invalid_mode 0"
  unfolding invalid_mode_def by (rule spends_return)

lemma spends_choices [spends_intros]:
  "spends (WriteInterPredictionMode counts mode) 4" "spends (writeMBSplit part) 3"
  "spends (writeSubMotionVectorReference bMode ps) 3" "spends (writeInterReferenceFrameWithProbs pl pg r) 2"
  unfolding WriteInterPredictionMode_def writeMBSplit_def writeSubMotionVectorReference_def writeInterReferenceFrameWithProbs_def Let_def
  by (auto intro!: spends_write_choice spends_mono [OF spends_return])

lemma spends_mv_bits: "length is \<le> n \<Longrightarrow> spends (write_mv_bits probs coded is) n"
proof (induction "is" arbitrary: n)
  case (Cons i "is")
  then obtain m where m: "n = Suc m" "length is \<le> m" by (cases n) auto
  have "spends (write_mv_bits probs coded (i # is)) (1 + m)"
    unfolding write_mv_bits.simps by (intro spends_bind spends_WriteBool Cons.IH [OF m(2)])
  then show ?case using m(1) by simp
qed (simp add: spends_mono [OF spends_return])

lemma small_mv_token_lengths: "list_all (\<lambda>t. t_Len t \<le> 3) smallMVTokens \<and> length smallMVTokens = 8"
  by code_simp

lemma spends_writeMVComponent [spends_intros]: "spends (writeMVComponent probs v) 13"
proof -
  have order: "length long_order \<le> 10" by code_simp
  have s: "spends (writeBoolProb b p) 1" for b p
    unfolding writeBoolProb_def by (rule spends_mono, (rule spends_intros)+) simp
  have large: "spends (writeLargeMVComponent probs u b) 13" for u b
    unfolding writeLargeMVComponent_def Let_def
    by (rule spends_mono, (rule spends_mv_bits [OF order] s spends_intros)+) simp
  have tok: "t_Len (smallMVTokens ! nat u) \<le> 3" if "0 \<le> u" "u < 8" for u :: int
    using small_mv_token_lengths that by (auto simp: list_all_length)
  have small: "spends (if length probs < MVPCount then State_Monad.return False
         else do {
           wr (\<lambda>w. WriteBool w 0 (probs ! mvProbIsShort));
           ok \<leftarrow> WriteTreeToken SmallMVTree (drop mvProbShort probs) (smallMVTokens ! nat u);
           if \<not> ok then State_Monad.return False
           else do {
             (if u \<noteq> 0 then writeBoolProb b (probs ! mvProbSign) else State_Monad.return ());
             e \<leftarrow> werr;
             State_Monad.return (\<not> e)
           }
         }) 13" if "0 \<le> u" "u < 8" for u b
    by (rule spends_mono, (rule spends_WriteTreeToken [OF tok [OF that]] s spends_intros)+) simp
  show ?thesis
  proof (cases "\<bar>v\<bar> \<ge> 8")
    case True
    then have "(if v < 0 then - v else v) \<ge> 8" by (simp only: abs_if)
    then show ?thesis using large unfolding writeMVComponent_def Let_def by (simp only: if_True)
  next
    case False
    then have u: "\<not> (if v < 0 then - v else v) \<ge> 8" "0 \<le> (if v < 0 then - v else v)" "(if v < 0 then - v else v) < 8" by (simp_all only: abs_if not_le) (simp split: if_split)
    show ?thesis using small [OF u(2,3)] unfolding writeMVComponent_def Let_def if_not_P [OF u(1)] .
  qed
qed

lemma spends_WriteMotionVector [spends_intros]: "spends (WriteMotionVector probs mv) 26"
  unfolding WriteMotionVector_def by (rule spends_mono, (rule spends_intros)+) simp

lemma spends_split_subset: "spends (write_split_subset probs mode l a best s) 29"
  unfolding write_split_subset_def writeSubMotionVector_def Let_def by (rule spends_mono, (rule spends_intros)+) simp

lemma spends_split: "spends (WriteSplitMotionVectors probs mode l a best) 467"
proof -
  have "split_partitions part \<le> 16" for part by (simp add: split_partitions_def)
  then have "MBSplitCount ! (im_Partition mode mod 4) \<le> 16" using split_countD(1) [of "im_Partition mode mod 4"] by simp
  then have subs: "spends (write_checked (write_split_subset probs mode l a best) [0..<MBSplitCount ! (im_Partition mode mod 4)]) 464"
    by (intro spends_mono [OF spends_write_checked [OF spends_split_subset]]) simp
  show ?thesis unfolding WriteSplitMotionVectors_def by (rule spends_mono, (rule subs spends_intros)+) simp
qed

lemma spends_inter_intra:
  assumes "length (im_BModes mode) = 16"
  shows "spends (WriteInterIntraMacroblockMode mode py puv pb) 150"
proof (cases "validInterIntraMacroblockMode mode")
  case True
  then have v: "im_Mode mode < 5" "im_UVMode mode < 4" and b: "im_Mode mode = BPred \<Longrightarrow> block < 16 \<Longrightarrow> im_BModes mode ! block < 10" for block
    using assms by (auto simp: validInterIntraMacroblockMode_def isInterIntraMacroblockMode_def list_all_length split: if_split_asm)
  have "list_all (\<lambda>t. t_Len t \<le> 3) interFrameYModeTokens \<and> length interFrameYModeTokens = 5" by code_simp
  then have t: "t_Len (interFrameYModeTokens ! im_Mode mode) \<le> 3" "t_Len (keyFrameUVModeTokens ! im_UVMode mode) \<le> 3"
    using mode_token_lengths(2) v by (auto simp: list_all_length)
  have bs: "spends (write_while (\<lambda>block. WriteTreeToken BModeTree pb (bModeTokens ! (im_BModes mode ! block))) [0..<16]) (length [0..<16] * 9)"
    if "im_Mode mode = BPred"
    using b [OF that] mode_token_lengths(3) by (intro spends_write_while spends_WriteTreeToken) (auto simp: list_all_length)
  have mid: "spends (if im_Mode mode = BPred
      then write_while (\<lambda>block. WriteTreeToken BModeTree pb (bModeTokens ! (im_BModes mode ! block))) [0..<16]
      else State_Monad.return True) 144"
    using bs spends_mono [OF spends_return] by (cases "im_Mode mode = BPred") simp_all
  show ?thesis
    unfolding WriteInterIntraMacroblockMode_def
    by (rule spends_mono, (rule mid spends_WriteTreeToken [OF t(1)] spends_WriteTreeToken [OF t(2)] spends_intros)+) simp
qed (simp add: WriteInterIntraMacroblockMode_def spends_mono [OF spends_return])

lemma spends_inter_cell:
  assumes "length (im_BModes (modes ! (fst c * nat cols + snd c))) = 16"
  shows "spends (write_inter_cell cfg rows cols modes c) 477"
proof -
  have vectors: "spends (write_inter_vectors cfg rows cols modes c) 471"
    unfolding write_inter_vectors_def Let_def by (rule spends_mono, (rule spends_split spends_intros)+) simp
  show ?thesis
    unfolding write_inter_cell_def Let_def
    by (rule spends_mono, (rule spends_inter_intra [OF assms] vectors spends_intros)+) simp
qed

lemma spends_inter_grid:
  assumes "inter_modes_carried cfg rows cols modes"
  shows "spends (WriteLastFrameZeroMVModeGridWithSkip rows cols cfg modes) (477 * (nat rows * nat cols))"
proof -
  have c: "spends (write_inter_cell cfg rows cols modes c) 477" if "c \<in> set (grid_cells (nat rows) (nat cols))" for c
    using assms that by (intro spends_inter_cell) (auto simp: inter_modes_carried_def list_all_iff inter_mode_ok_def)
  have "length (grid_cells (nat rows) (nat cols)) = nat rows * nat cols" by (simp add: grid_cells_def)
  then have g: "spends (write_checked (write_inter_cell cfg rows cols modes) (grid_cells (nat rows) (nat cols))) (477 * (nat rows * nat cols))"
    using spends_write_checked_on [OF c, where xs = "grid_cells (nat rows) (nat cols)"] by (simp add: mult.commute)
  show ?thesis
    unfolding WriteLastFrameZeroMVModeGridWithSkip_def
    by (rule spends_mono, (rule g spends_intros)+) simp
qed

lemma inter_grid_carried: "inter_grid_ok cfg rows cols modes \<Longrightarrow> inter_modes_carried cfg rows cols modes"
  by (auto simp: inter_grid_ok_def inter_modes_carried_def inter_cell_ok_def list_all_iff)

lemma inter_modes_room:
  assumes "validInterFrameStateConfig cfg" "inter_config_shape cfg" "coefs_ok (c_CoefficientProbs cfg)" "mode_values_ok cfg"
    and "bases_held cfg held" "c_MBNoCoeffSkip cfg" "\<not> grid_too_small rows cols (length modes)" "inter_grid_ok cfg rows cols modes"
    and "10159 + 477 * (nat rows * nat cols) \<le> length dst"
  shows "\<exists>w w'. run_state (WriteInterFrameStateHeader cfg) (Writer_Init dst) = (None, w) \<and>
    run_state (WriteLastFrameZeroMVModeGridWithSkip rows cols cfg modes) w = (None, w') \<and>
    w_err (Finish w') = 0 \<and> length (Bytes (Finish w')) \<le> length dst"
proof -
  define frame where "frame = \<lparr>fh_FrameType = InterFrame, fh_Profile = 0, fh_ShowFrame = True, fh_FirstPartitionSize = 0,
    fh_HeaderSize = 3, fh_Width = 0, fh_Height = 0, fh_HorizScale = 0, fh_VertScale = 0\<rparr>"
  have "fh_FrameType frame \<noteq> KeyFrame" "tables_shape no_loop_filter None None"
    by (simp_all add: frame_def tables_shape_def no_loop_filter_def)
  from codes_inter_state [OF assms(1-4) this] obtain xs where xs: "writes (WriteInterFrameStateHeader cfg) xs None"
    unfolding codes_def by blast
  have seg: "validSegmentationConfig (c_Segmentation cfg)" using assms(1) by (simp add: validInterFrameStateConfig_def)
  from codes_inter_grid [OF assms(7) _ seg assms(8,6) probs_stay_in_sync [OF assms(2,5)], of "replicate (length modes) zero_mode"] assms(7)
  obtain ys where ys: "writes (WriteLastFrameZeroMVModeGridWithSkip rows cols cfg modes) ys None" unfolding codes_def by auto
  have "spends (WriteInterFrameStateHeader cfg \<bind> (\<lambda>_. WriteLastFrameZeroMVModeGridWithSkip rows cols cfg modes)) (10127 + 477 * (nat rows * nat cols))"
    by (rule spends_bind [OF spends_WriteInterFrameStateHeader [OF assms(2)] spends_inter_grid [OF inter_grid_carried [OF assms(8)]]])
  from two_messages_room [OF xs ys this] assms(9) show ?thesis by simp
qed

section \<open>Header and modes\<close>

lemma inter_frame_modes:
  assumes "inter_config_shape cfg" "tables_shape previousLoopFilter probs (Some held)" "bases_held cfg held" "inter_modes_carried cfg rows cols modes"
    and "run_state (WriteInterFrameStateHeader cfg) (Writer_Init dst) = (None, w)"
    and "run_state (WriteLastFrameZeroMVModeGridWithSkip rows cols cfg modes) w = (None, w')"
    and "w_err (Finish w') = 0"
    and "put_packet_head hdr False 0 show (int (length (Bytes (Finish w')))) width height hscale vscale = Inr head" "length hdr = 3"
    and "\<not> grid_too_small rows cols (length old)"
  shows "\<exists>frame state br br' coefs modeProbs.
    ParseStateHeader (head @ Bytes (Finish w') @ tail) previousQuant previousLoopFilter probs (Some held) = (Inr (frame, state, br), coefs, Some modeProbs) \<and>
    state = inter_state_sent cfg previousQuant previousLoopFilter \<and>
    run_state (DecodeInterModeGrid rows cols (Some (st_Segmentation state)) (st_Mode state) modeProbs (referenceSignBias (st_Refresh state)) old) br =
      (Inr (grid_sent (nat rows * nat cols) (inter_cell_sent cfg modes) old), br')"
proof -
  have ok: "validInterFrameStateConfig cfg" "coefs_ok (c_CoefficientProbs cfg)" "mode_values_ok cfg"
    using inter_header_written [of cfg "Writer_Init dst"] assms(1,5) by simp_all
  have grid: "\<not> grid_too_small rows cols (length modes)" "validSegmentationConfig (c_Segmentation cfg)" "c_MBNoCoeffSkip cfg" "inter_grid_ok cfg rows cols modes"
    using inter_grid_written [of rows cols cfg modes w] assms(4,6) by simp_all
  have st: "st_Segmentation (inter_state_sent cfg previousQuant previousLoopFilter) = segmentation_sent (c_Segmentation cfg)"
    "st_Mode (inter_state_sent cfg previousQuant previousLoopFilter) = mode_header_sent cfg"
    "referenceSignBias (st_Refresh (inter_state_sent cfg previousQuant previousLoopFilter)) = interFrameSignBias cfg"
    by (simp_all add: inter_state_sent_def sign_bias_sent)
  note m = codes_inter_grid [OF grid(1) assms(10) grid(2,4,3) probs_stay_in_sync [OF assms(1,3)]]
  have W: "snd (run_state (WriteInterFrameStateHeader cfg \<bind> (\<lambda>_. WriteLastFrameZeroMVModeGridWithSkip rows cols cfg modes)) (Writer_Init dst)) = w'"
    using assms(5,6) by simp
  from inter_packet_parses [OF ok(1) assms(1) ok(2,3) assms(2) m, of dst, unfolded W, OF assms(7,8,9), of tail previousQuant]
  show ?thesis unfolding option.map by (metis st)
qed

text \<open>C3: The whole first partition of an inter frame survives the packet. When the encoder writes the state header and the
  macroblock modes behind it without error, from the tables the decoder holds too, and puts the frame tag in front, the
  decoder's header parser returns the configured state, and its mode decoder, with the bit reader, segmentation, mode header,
  probabilities and sign biases the parser left, reads back every macroblock of the grid: reference frame, prediction mode,
  motion vectors found by searching the neighbours, added to the best vector or split block by block, intra modes, skip flag
  and segment id. Beyond what the encoder tests itself, an intra macroblock carries no vector, differences to the best
  vector are even and at most 2046, and loop filter deltas are at most 63 in magnitude.\<close>

theorem inter_frame_modes_roundtrip:
  assumes "inter_config_shape cfg" "tables_shape previousLoopFilter probs (Some held)" "bases_held cfg held" "inter_modes_carried cfg rows cols modes"
    and "run_state (WriteInterFrameStateHeader cfg) (Writer_Init dst) = (None, w)"
    and "run_state (WriteLastFrameZeroMVModeGridWithSkip rows cols cfg modes) w = (None, w')"
    and "w_err (Finish w') = 0"
    and "put_packet_head hdr False 0 show (int (length (Bytes (Finish w')))) width height hscale vscale = Inr head" "length hdr = 3"
    and "\<not> grid_too_small rows cols (length old)"
  shows "\<exists>frame state br br' coefs modeProbs.
    ParseStateHeader (head @ Bytes (Finish w') @ tail) previousQuant previousLoopFilter probs (Some held) = (Inr (frame, state, br), coefs, Some modeProbs) \<and>
    state = inter_state_sent cfg previousQuant previousLoopFilter \<and>
    run_state (DecodeInterModeGrid rows cols (Some (st_Segmentation state)) (st_Mode state) modeProbs (referenceSignBias (st_Refresh state)) old) br =
      (Inr (grid_sent (nat rows * nat cols) (inter_cell_sent cfg modes) old), br')"
  by (rule inter_frame_modes [OF assms])

text \<open>Two rows of two: a new vector from the golden frame, a macroblock split in quarters that use the left vector, none, a
  new one and the one above, an intra macroblock block by block, and the nearest vector from the alternate frame, whose sign
  bias turns it round.\<close>

definition sample_inter_modes :: "InterFrameMacroblockMode list" where
  "sample_inter_modes =
     (let a = \<lparr>mv_Row = 6, mv_Col = -4\<rparr>; b = \<lparr>mv_Row = 10, mv_Col = 2\<rparr>
      in [zero_inter_mode\<lparr>im_RefFrame := GoldenFrame, im_Mode := NewMV, im_MV := a\<rparr>,
          zero_inter_mode\<lparr>im_RefFrame := LastFrame, im_Mode := SplitMV, im_Partition := 2, im_MBSkipCoeff := True,
            im_BModes := [Left4x4, 0, Zero4x4, 0, 0, 0, 0, 0, New4x4, 0, Above4x4, 0, 0, 0, 0, 0],
            im_BlockMV := [a, a, zero_mv, zero_mv, a, a, zero_mv, zero_mv, b, b, zero_mv, zero_mv, b, b, zero_mv, zero_mv]\<rparr>,
          zero_inter_mode\<lparr>im_Mode := BPred, im_UVMode := TMPred, im_BModes := [0, 1, 2, 3, 4, 5, 6, 7, 8, 9, 0, 9, 3, 1, 4, 1]\<rparr>,
          zero_inter_mode\<lparr>im_RefFrame := AltRefFrame, im_Mode := NearestMV, im_MV := negated a\<rparr>])"

lemma sample_inter_modes_ok:
  "\<not> grid_too_small 2 2 (length sample_inter_modes)" "\<not> grid_too_small 2 2 (length (replicate 5 zero_mode))"
  "inter_grid_ok sample_inter_config 2 2 sample_inter_modes"
  by code_simp+

lemma sample_held:
  "bases_held sample_inter_config ResetModeProbs" "c_MBNoCoeffSkip sample_inter_config"
  "tables_shape no_loop_filter None (Some ResetModeProbs)"
proof -
  show "bases_held sample_inter_config ResetModeProbs" by code_simp
  show "c_MBNoCoeffSkip sample_inter_config" by code_simp
  show "tables_shape no_loop_filter None (Some ResetModeProbs)"
    using reset_mode_probs_shape by (simp add: tables_shape_def no_loop_filter_def)
qed

lemma inter_frame_modes_roundtrip_witness:
  "\<exists>w w' head frame br br' coefs modeProbs.
    run_state (WriteInterFrameStateHeader sample_inter_config) (Writer_Init (replicate 12067 0)) = (None, w) \<and>
    run_state (WriteLastFrameZeroMVModeGridWithSkip 2 2 sample_inter_config sample_inter_modes) w = (None, w') \<and>
    put_packet_head (replicate 3 0) False 0 True (int (length (Bytes (Finish w')))) 0 0 0 0 = Inr head \<and>
    ParseStateHeader (head @ Bytes (Finish w') @ [1, 2, 3]) sample_quant no_loop_filter None (Some ResetModeProbs) =
      (Inr (frame, inter_state_sent sample_inter_config sample_quant no_loop_filter, br), coefs, Some modeProbs) \<and>
    run_state (DecodeInterModeGrid 2 2 (Some (st_Segmentation (inter_state_sent sample_inter_config sample_quant no_loop_filter)))
      (st_Mode (inter_state_sent sample_inter_config sample_quant no_loop_filter)) modeProbs
      (referenceSignBias (st_Refresh (inter_state_sent sample_inter_config sample_quant no_loop_filter))) (replicate 5 zero_mode)) br =
      (Inr (grid_sent 4 (inter_cell_sent sample_inter_config sample_inter_modes) (replicate 5 zero_mode)), br')"
proof -
  have n: "nat 2 * nat 2 = 4" by simp
  have "10159 + 477 * (nat 2 * nat 2) \<le> length (replicate 12067 (0 :: byte))" by simp
  from inter_modes_room [OF sample_inter_config_ok(2,1,3,4) sample_held(1,2) sample_inter_modes_ok(1,3) this]
  obtain w w' where w: "run_state (WriteInterFrameStateHeader sample_inter_config) (Writer_Init (replicate 12067 0)) = (None, w)"
    "run_state (WriteLastFrameZeroMVModeGridWithSkip 2 2 sample_inter_config sample_inter_modes) w = (None, w')"
    "w_err (Finish w') = 0" "length (Bytes (Finish w')) \<le> 12067" by auto
  obtain head where h: "put_packet_head (replicate 3 0) False 0 True (int (length (Bytes (Finish w')))) 0 0 0 0 = Inr head"
    using w(4) by (simp add: put_packet_head_def PutFrameTag_def MaxFirstPartitionSize_def FrameTagSize_def Let_def)
  from inter_frame_modes_roundtrip [OF sample_inter_config_ok(1) sample_held(3,1) inter_grid_carried [OF sample_inter_modes_ok(3)] w(1-3) h
      length_replicate sample_inter_modes_ok(2), of "[1, 2, 3]" sample_quant, unfolded n]
  show ?thesis using w(1,2) h by blast
qed

text \<open>C17: The encoder can always write the first partition of an inter frame: a valid configuration shaped as the code's arrays
  are, with loop filter deltas of at most 63 in magnitude, a grid of valid modes whose vectors the syntax can carry, and a buffer of 10,159 bytes and 477 more for each
  macroblock; then header and mode grid are written without error, whatever the modes' mixture.\<close>

theorem inter_frame_modes_fit:
  assumes "validInterFrameStateConfig cfg" "inter_config_shape cfg" "coefs_ok (c_CoefficientProbs cfg)" "mode_values_ok cfg"
    and "bases_held cfg held" "c_MBNoCoeffSkip cfg" "\<not> grid_too_small rows cols (length modes)" "inter_grid_ok cfg rows cols modes"
    and "10159 + 477 * (nat rows * nat cols) \<le> length dst"
  shows "\<exists>w w'. run_state (WriteInterFrameStateHeader cfg) (Writer_Init dst) = (None, w) \<and>
    run_state (WriteLastFrameZeroMVModeGridWithSkip rows cols cfg modes) w = (None, w') \<and>
    w_err (Finish w') = 0 \<and> length (Bytes (Finish w')) \<le> length dst"
  by (rule inter_modes_room [OF assms])

lemma inter_frame_modes_fit_witness:
  "\<exists>w w'. run_state (WriteInterFrameStateHeader sample_inter_config) (Writer_Init (replicate 12067 0)) = (None, w) \<and>
    run_state (WriteLastFrameZeroMVModeGridWithSkip 2 2 sample_inter_config sample_inter_modes) w = (None, w') \<and>
    w_err (Finish w') = 0 \<and> length (Bytes (Finish w')) \<le> length (replicate 12067 (0 :: byte))"
  by (rule inter_frame_modes_fit [OF sample_inter_config_ok(2,1,3,4) sample_held(1,2) sample_inter_modes_ok(1,3)]) simp

end
