(* ===== verification/Vp8_Inter_Laws.thy ===== *)
theory Vp8_Inter_Laws
  imports Vp8_Inter_Frame
begin

text \<open>
  Two choices of the encoder. The mode it picks for a motion vector is one its own validity test and
  the decoder accept; and the special writer for a frame that repeats a reference frame writes what
  the general one writes for that grid of modes.
\<close>

section \<open>The mode for a vector\<close>

lemma motion_mode_valid:
  assumes "refFrame = LastFrame \<or> refFrame = GoldenFrame \<or> refFrame = AltRefFrame"
    and m: "m = InterFrameMotionModeForVectorAt refFrame mv abv left aboveLeft r c rows cols sb"
  shows "validInterFrameMacroblockModeAt m abv left aboveLeft r c rows cols sb \<and>
    im_MV m = mv \<and> interFrameReference (Some m) = refFrame \<and> im_Mode m \<noteq> SplitMV"
proof -
  obtain nearest near best counts where find: "findNearInterMotionVectors abv left aboveLeft refFrame sb = (nearest, near, best, counts)"
    by (metis prod_cases4)
  have ref: "interFrameReference (Some (zero_inter_mode\<lparr>im_RefFrame := refFrame, im_Mode := mode, im_MV := v\<rparr>)) = refFrame"
    if "BPred < mode" for mode v
    using assms(1) that by (auto simp: interFrameReference_def isInterIntraMacroblockMode_def)
  have ref0: "interFrameReference (Some (zero_inter_mode\<lparr>im_RefFrame := refFrame, im_Mode := ZeroMV\<rparr>)) = refFrame"
    using assms(1) by (auto simp: interFrameReference_def isInterIntraMacroblockMode_def)
  have nz: "refFrame \<noteq> IntraFrame" "\<not> (refFrame \<noteq> LastFrame \<and> refFrame \<noteq> GoldenFrame \<and> refFrame \<noteq> AltRefFrame)" using assms(1) by auto
  consider "IsZero mv" | "\<not> IsZero mv" "mv = clampInterMotionVectorToModeEdges nearest r c rows cols"
    | "\<not> IsZero mv" "mv \<noteq> clampInterMotionVectorToModeEdges nearest r c rows cols" "mv = clampInterMotionVectorToModeEdges near r c rows cols"
    | "\<not> IsZero mv" "mv \<noteq> clampInterMotionVectorToModeEdges nearest r c rows cols" "mv \<noteq> clampInterMotionVectorToModeEdges near r c rows cols"
    by blast
  then show ?thesis
  proof cases
    case 1
    then show ?thesis
      unfolding m InterFrameMotionModeForVectorAt_def validInterFrameMacroblockModeAt_def Let_def if_P [OF 1] ref0 if_not_P [OF nz(1)] if_not_P [OF nz(2)] find prod.case
      by (simp add: zero_inter_mode_def IsZero_eq)
  next
    case 2
    then have "m = zero_inter_mode\<lparr>im_RefFrame := refFrame, im_Mode := NearestMV, im_MV := mv\<rparr>"
      unfolding m InterFrameMotionModeForVectorAt_def find by simp
    then show ?thesis
      using ref [of NearestMV mv] 2 nz unfolding validInterFrameMacroblockModeAt_def Let_def by (simp add: find)
  next
    case 3
    then have "m = zero_inter_mode\<lparr>im_RefFrame := refFrame, im_Mode := NearMV, im_MV := mv\<rparr>"
      unfolding m InterFrameMotionModeForVectorAt_def find by simp
    then show ?thesis
      using ref [of NearMV mv] 3 nz unfolding validInterFrameMacroblockModeAt_def Let_def by (simp add: find)
  next
    case 4
    then have "m = zero_inter_mode\<lparr>im_RefFrame := refFrame, im_Mode := NewMV, im_MV := mv\<rparr>"
      unfolding m InterFrameMotionModeForVectorAt_def find by simp
    then show ?thesis
      using ref [of NewMV mv] 4 nz unfolding validInterFrameMacroblockModeAt_def Let_def by (simp add: find)
  qed
qed

section \<open>Repeating a reference frame\<close>

definition repeat_mode :: "nat \<Rightarrow> InterFrameMacroblockMode" where
  "repeat_mode refFrame = zero_inter_mode\<lparr>im_RefFrame := refFrame, im_Mode := ZeroMV, im_MBSkipCoeff := True\<rparr>"

lemma repeat_reference [simp]: "refFrame \<noteq> IntraFrame \<Longrightarrow> interFrameReference (Some (repeat_mode refFrame)) = refFrame"
  by (simp add: interFrameReference_def isInterIntraMacroblockMode_def repeat_mode_def)

lemma repeat_fields [simp]: "im_MV (repeat_mode r) = zero_mv" "im_Mode (repeat_mode r) = ZeroMV" "im_MBSkipCoeff (repeat_mode r) = True"
    "im_SegmentID (repeat_mode r) = 0"
  by (simp_all add: repeat_mode_def zero_inter_mode_def)

text \<open>All neighbours repeat the frame: the count of the zero vector alone grows.\<close>

lemma repeat_counts:
  assumes "refFrame = LastFrame \<or> refFrame = GoldenFrame \<or> refFrame = AltRefFrame"
    and "abv = None \<or> abv = Some (repeat_mode refFrame)" "left = None \<or> left = Some (repeat_mode refFrame)"
    and "aboveLeft = None \<or> aboveLeft = Some (repeat_mode refFrame)"
  shows "ic_Intra (interModeCounts abv left aboveLeft refFrame sb) =
    (if abv = None then 0 else 2) + (if left = None then 0 else 2) + (if aboveLeft = None then 0 else 1)"
proof -
  have ref: "interFrameReference (Some (repeat_mode refFrame)) = refFrame" "refFrame \<noteq> IntraFrame" using assms(1) by auto
  have z: "signBiasMotionVector zero_mv refFrame refFrame sb = zero_mv" "IsZero zero_mv"
    by (simp_all add: signBiasMotionVector_def IsZero_eq)
  have a: "enc_near_above abv refFrame sb s = (if abv = None then s else near_add (ns_count s) 2 s)" for s
    using assms(2) ref z by (auto simp: enc_near_above_def Let_def)
  have n: "enc_near_next w nb refFrame sb s = (if nb = None then s else near_add 0 w s)" if "nb = None \<or> nb = Some (repeat_mode refFrame)" for w nb s
    using that ref z by (auto simp: enc_near_next_def Let_def)
  show ?thesis
    unfolding interModeCounts_def findNearInterMotionVectors_def a n [OF assms(3)] n [OF assms(4)]
    by (auto simp: near_finish_def near_init_def near_add_def Let_def eval_nat_numeral split: prod.split)
qed

lemma repeat_cell_counts:
  assumes "refFrame = LastFrame \<or> refFrame = GoldenFrame \<or> refFrame = AltRefFrame" "c \<in> set (grid_cells (nat rows) (nat cols))"
  defines "modes \<equiv> replicate (nat rows * nat cols) (repeat_mode refFrame)"
  shows "ic_Intra (interModeCounts (cell_above modes (nat cols) c) (cell_left modes (nat cols) c) (cell_above_left modes (nat cols) c) refFrame sb) =
    zeroMVInterModeCounts (fst c) (snd c)"
proof -
  obtain r k where c: "c = (r, k)" "r < nat rows" "k < nat cols" using assms(2) by (auto simp: grid_cells_def)
  have lt: "r * nat cols + k < nat rows * nat cols" using grid_cell_index [OF assms(2)] by (simp add: c(1))
  have nth: "modes ! j = repeat_mode refFrame" if "j \<le> r * nat cols + k" for j using that lt by (simp add: modes_def)
  have nb: "cell_above modes (nat cols) c = (if r > 0 then Some (repeat_mode refFrame) else None)"
    "cell_left modes (nat cols) c = (if k > 0 then Some (repeat_mode refFrame) else None)"
    "cell_above_left modes (nat cols) c = (if r > 0 \<and> k > 0 then Some (repeat_mode refFrame) else None)"
    using nth by (simp_all add: c(1) cell_above_def cell_left_def cell_above_left_def)
  show ?thesis
    unfolding nb by (subst repeat_counts [OF assms(1)]) (auto simp: zeroMVInterModeCounts_def c(1))
qed

lemma repeat_cell:
  assumes "refFrame = LastFrame \<or> refFrame = GoldenFrame \<or> refFrame = AltRefFrame" "c \<in> set (grid_cells (nat rows) (nat cols))"
  shows "\<exists>xs. writes (write_zero_cell cfg refFrame c) xs None \<and>
    writes (write_inter_cell cfg rows cols (replicate (nat rows * nat cols) (repeat_mode refFrame)) c) xs None"
proof -
  define modes where "modes = replicate (nat rows * nat cols) (repeat_mode refFrame)"
  define p where "p = InterModeContexts ! zeroMVInterModeCounts (fst c) (snd c) ! 0"
  have idx: "fst c * nat cols + snd c < nat rows * nat cols" by (rule grid_cell_index [OF assms(2)])
  have mode: "modes ! (fst c * nat cols + snd c) = repeat_mode refFrame" using idx by (simp add: modes_def)
  have ref: "interFrameReference (Some (repeat_mode refFrame)) = refFrame" "refFrame \<noteq> IntraFrame" using assms(1) by auto
  have seg: "codes (if sc_Enabled (c_Segmentation cfg) \<and> sc_UpdateMap (c_Segmentation cfg)
           then writeMacroblockSegmentID (segmentationTreeProbs (c_Segmentation cfg)) 0 else State_Monad.return True)
      (if sc_Enabled (c_Segmentation cfg) \<and> sc_UpdateMap (c_Segmentation cfg)
       then readMacroblockSegmentID (segmentationTreeProbs (c_Segmentation cfg)) else State_Monad.return 0) True 0"
    by (intro codes_if codes_segment_id codes_return) simp
  then obtain s where s: "writes (if sc_Enabled (c_Segmentation cfg) \<and> sc_UpdateMap (c_Segmentation cfg)
           then writeMacroblockSegmentID (segmentationTreeProbs (c_Segmentation cfg)) 0 else State_Monad.return True) s True"
    unfolding codes_def by blast
  obtain rs where rs: "writes (writeInterReferenceFrameWithProbs (i_ProbLast cfg) (i_ProbGolden cfg) refFrame) rs True"
    using assms(1) writes_choice unfolding writeInterReferenceFrameWithProbs_def by (elim disjE) (simp_all, blast+)
  have skip: "writes (wr (\<lambda>w. WriteBool w 1 q)) [(True, q)] ()" for q
    using writes_WriteBool_of_bool [of True q] by simp
  have mbit: "writes (wr (\<lambda>w. WriteBool w 0 p)) [(False, p)] ()" using writes_WriteBool_of_bool [of False p] by simp
  define xs where "xs = s @ [(True, c_ProbSkipFalse cfg)] @ [(True, i_ProbIntra cfg)] @ rs @ [(False, p)]"
  have ret: "writes (State_Monad.return None) [] None" by (rule writes_return)
  have zero: "writes (write_zero_cell cfg refFrame c) (s @ [(True, c_ProbSkipFalse cfg)] @ [(True, i_ProbIntra cfg)] @ rs @ [(False, p)] @ []) None"
    unfolding write_zero_cell_def p_def [symmetric]
    by (rule writes_bind [OF s], simp only: simp_thms if_False, rule writes_bind [OF skip], rule writes_bind [OF skip], rule writes_bind [OF rs],
      simp only: simp_thms if_False, rule writes_bind [OF mbit ret], (intro sticky_intros)+)
  have valid: "validInterFrameMacroblockModeAt (repeat_mode refFrame) abv left aboveLeft r k rows cols sb" for abv left aboveLeft r k sb
    using ref assms(1) unfolding validInterFrameMacroblockModeAt_def Let_def ref(1) by (auto simp: IsZero_eq split: prod.split)
  define cnt where "cnt = interModeCounts (cell_above modes (nat cols) c) (cell_left modes (nat cols) c) (cell_above_left modes (nat cols) c) refFrame (interFrameSignBias cfg)"
  have cnt: "ic_Intra cnt = zeroMVInterModeCounts (fst c) (snd c)"
    unfolding cnt_def modes_def by (rule repeat_cell_counts [OF assms])
  have pred: "writes (WriteInterPredictionMode cnt ZeroMV) [(False, p)] True"
    unfolding WriteInterPredictionMode_def Let_def cnt p_def [symmetric] using writes_choice [of "[(False, p)]"] by simp
  have vec: "writes (write_inter_vectors cfg rows cols modes c) ([(False, p)] @ []) None"
    unfolding write_inter_vectors_def Let_def mode ref(1) if_not_P [OF not_not [THEN iffD2, OF valid]] cnt_def [symmetric] repeat_fields
    by (rule writes_bind [OF pred]) (simp_all add: ret sticky_intros)
  have inter: "writes (write_inter_cell cfg rows cols modes c) (s @ [(True, c_ProbSkipFalse cfg)] @ [(True, i_ProbIntra cfg)] @ rs @ [(False, p)] @ []) None"
    unfolding write_inter_cell_def Let_def mode ref(1) if_not_P [OF ref(2)] repeat_fields if_True
    by (rule writes_bind [OF s], simp only: simp_thms if_False, rule writes_bind [OF skip], rule writes_bind [OF skip], rule writes_bind [OF rs],
      simp only: simp_thms if_False, rule vec, (intro sticky_intros)+)
  show ?thesis using zero inter unfolding modes_def by blast
qed

lemma sticky_write_zero_cell [sticky_intros]: "sticky (write_zero_cell cfg refFrame c)"
  unfolding write_zero_cell_def by (intro sticky_intros)

lemma writes_checked_both:
  assumes "\<And>c. c \<in> set cs \<Longrightarrow> \<exists>xs. writes (f c) xs None \<and> writes (g c) xs None" "\<And>c. sticky (f c)" "\<And>c. sticky (g c)"
  shows "\<exists>xs. writes (write_checked f cs) xs None \<and> writes (write_checked g cs) xs None"
  using assms(1)
proof (induction cs)
  case (Cons c cs)
  then obtain xs ys where xs: "writes (f c) xs None" "writes (g c) xs None"
    and ys: "writes (write_checked f cs) ys None" "writes (write_checked g cs) ys None" by (meson list.set_intros)
  have "writes (write_checked f (c # cs)) (xs @ ys) None" "writes (write_checked g (c # cs)) (xs @ ys) None"
    unfolding write_checked.simps
    by (rule writes_bind [OF xs(1)], simp add: ys(1), intro sticky_intros sticky_write_checked assms(2))
      (rule writes_bind [OF xs(2)], simp add: ys(2), intro sticky_intros sticky_write_checked assms(3))
  then show ?case by blast
qed (auto intro: writes_return)

lemma repeat_grids:
  assumes "LastFrame \<le> refFrame" "refFrame \<le> AltRefFrame" "0 < rows" "0 < cols" "cols \<le> max_int div rows"
    and "c_MBNoCoeffSkip cfg" "validSegmentationConfig (c_Segmentation cfg)"
  shows "\<exists>xs. writes (WriteReferenceFrameZeroMVModeGrid rows cols cfg refFrame) xs None \<and>
    writes (WriteLastFrameZeroMVModeGridWithSkip rows cols cfg (replicate (nat (rows * cols)) (repeat_mode refFrame))) xs None"
proof -
  have ref: "refFrame = LastFrame \<or> refFrame = GoldenFrame \<or> refFrame = AltRefFrame" using assms(1,2) by linarith
  have n: "nat (rows * cols) = nat rows * nat cols" using assms(3) by (simp add: nat_mult_distrib)
  have fits: "\<not> (grid_too_small rows cols (length (replicate (nat rows * nat cols) (repeat_mode refFrame))) \<or> \<not> c_MBNoCoeffSkip cfg)"
    using assms(3-6) by (simp add: grid_too_small_def)
  have ok: "\<not> (rows \<le> 0 \<or> cols \<le> 0 \<or> \<not> c_MBNoCoeffSkip cfg \<or> \<not> validSegmentationConfig (c_Segmentation cfg))" using assms by simp
  have rng: "\<not> \<not> (LastFrame \<le> refFrame \<and> refFrame \<le> AltRefFrame)" using assms(1,2) by simp
  obtain xs where xs: "writes (write_checked (write_zero_cell cfg refFrame) (grid_cells (nat rows) (nat cols))) xs None"
    "writes (write_checked (write_inter_cell cfg rows cols (replicate (nat rows * nat cols) (repeat_mode refFrame))) (grid_cells (nat rows) (nat cols))) xs None"
    using writes_checked_both [where f = "write_zero_cell cfg refFrame", OF repeat_cell [OF ref, where rows = rows and cols = cols and cfg = cfg]
      sticky_write_zero_cell sticky_write_inter_cell] by blast
  have e: "writes mode_end [] None"
    using codes_mode_end [of "()"] unfolding mode_end_def
    using writes_bind [OF writes_werr, of "\<lambda>e. State_Monad.return (if e then Some (ModePacketError EncErrBufferTooSmall) else None)" "[]" None]
    by (simp add: writes_return sticky_return)
  have "writes (WriteReferenceFrameZeroMVModeGrid rows cols cfg refFrame) (xs @ []) None"
    unfolding WriteReferenceFrameZeroMVModeGrid_def if_not_P [OF ok] if_not_P [OF rng]
    by (rule writes_bind [OF xs(1)]) (simp_all add: e sticky_intros)
  moreover have "writes (WriteLastFrameZeroMVModeGridWithSkip rows cols cfg (replicate (nat (rows * cols)) (repeat_mode refFrame))) (xs @ []) None"
    unfolding n WriteLastFrameZeroMVModeGridWithSkip_def if_not_P [OF fits] if_not_P [OF not_not [THEN iffD2, OF assms(7)]]
    by (rule writes_bind [OF xs(2)]) (simp_all add: e sticky_intros)
  ultimately show ?thesis by blast
qed

lemma repeat_carried:
  assumes "refFrame \<noteq> IntraFrame"
  shows "inter_modes_carried cfg rows cols (replicate (nat rows * nat cols) (repeat_mode refFrame))"
proof -
  have "inter_mode_ok (repeat_mode refFrame) best" for best
    using assms by (simp add: inter_mode_ok_def) (simp add: repeat_mode_def zero_inter_mode_def)
  then show ?thesis using grid_cell_index by (auto simp: inter_modes_carried_def list_all_iff)
qed

section \<open>Properties\<close>

text \<open>C21: The mode the encoder picks for a motion vector is valid where it picks it: it carries that vector and that reference
  frame, and the test made before writing (zero, nearest and near modes must carry exactly the vector the neighbours give,
  clamped to the frame) accepts it.\<close>

theorem motion_mode_for_vector_valid:
  assumes "LastFrame \<le> refFrame" "refFrame \<le> AltRefFrame"
  shows "validInterFrameMacroblockModeAt (InterFrameMotionModeForVectorAt refFrame mv abv left aboveLeft r c rows cols sb) abv left aboveLeft r c rows cols sb \<and>
    im_MV (InterFrameMotionModeForVectorAt refFrame mv abv left aboveLeft r c rows cols sb) = mv \<and>
    interFrameReference (Some (InterFrameMotionModeForVectorAt refFrame mv abv left aboveLeft r c rows cols sb)) = refFrame"
proof -
  have "refFrame = LastFrame \<or> refFrame = GoldenFrame \<or> refFrame = AltRefFrame" using assms by linarith
  from motion_mode_valid [OF this refl] show ?thesis by blast
qed

lemma motion_mode_for_vector_valid_witness:
  "validInterFrameMacroblockModeAt
     (InterFrameMotionModeForVectorAt AltRefFrame \<lparr>mv_Row = -12, mv_Col = 4\<rparr> (Some sample_inter_above) None (Some sample_inter_left) 1 2 3 4 [False, False, False, True])
     (Some sample_inter_above) None (Some sample_inter_left) 1 2 3 4 [False, False, False, True]"
  by (rule motion_mode_for_vector_valid [THEN conjunct1]) simp_all

text \<open>C19: The short cut for a frame that repeats a reference frame is exact. From any sound writer, if the special mode-grid
  writer leaves no error, the general one, given a grid of zero-vector modes on that reference, returns the same and leaves the
  very same writer; the context of each macroblock is computed from its position alone.\<close>

theorem repeat_grid_equivalent:
  assumes "LastFrame \<le> refFrame" "refFrame \<le> AltRefFrame" "0 < rows" "0 < cols" "cols \<le> max_int div rows"
    and "c_MBNoCoeffSkip cfg" "validSegmentationConfig (c_Segmentation cfg)"
    and "writer_ok w" "w_err w = 0" "w_err (snd (run_state (WriteReferenceFrameZeroMVModeGrid rows cols cfg refFrame) w)) = 0"
  shows "run_state (WriteLastFrameZeroMVModeGridWithSkip rows cols cfg (replicate (nat (rows * cols)) (repeat_mode refFrame))) w =
    run_state (WriteReferenceFrameZeroMVModeGrid rows cols cfg refFrame) w"
  using repeat_grids [OF assms(1-7)] assms(8-10) unfolding writes_def by metis

lemma repeat_grid_equivalent_witness:
  "run_state (WriteLastFrameZeroMVModeGridWithSkip 1 2 sample_inter_config (replicate 2 (repeat_mode GoldenFrame))) (Writer_Init (replicate 986 0)) =
   run_state (WriteReferenceFrameZeroMVModeGrid 1 2 sample_inter_config GoldenFrame) (Writer_Init (replicate 986 0))"
proof -
  let ?w = "Writer_Init (replicate 986 0)"
  have n: "nat (1 * 2) = 2" by simp
  have n': "nat 1 * nat 2 = 2" by simp
  have c: "inter_modes_carried sample_inter_config 1 2 (replicate 2 (repeat_mode GoldenFrame))"
    using repeat_carried [of GoldenFrame sample_inter_config 1 2] unfolding n' by simp
  have ok: "c_MBNoCoeffSkip sample_inter_config" "validSegmentationConfig (c_Segmentation sample_inter_config)" "2 \<le> max_int div 1" by code_simp+
  obtain xs where xs: "writes (WriteReferenceFrameZeroMVModeGrid 1 2 sample_inter_config GoldenFrame) xs None"
    "writes (WriteLastFrameZeroMVModeGridWithSkip 1 2 sample_inter_config (replicate 2 (repeat_mode GoldenFrame))) xs None"
    using repeat_grids [of GoldenFrame 1 2 sample_inter_config, unfolded n, OF _ _ _ _ ok(3,1,2)] by (auto simp del: One_nat_def)
  have w: "writer_ok ?w" "w_err ?w = 0" using Init_writer(2,3) by simp_all
  have "w_err (Finish (snd (run_state (WriteLastFrameZeroMVModeGridWithSkip 1 2 sample_inter_config (replicate 2 (repeat_mode GoldenFrame))) ?w))) = 0"
    by (rule spends_fit [OF spends_inter_grid [OF c]]) simp
  moreover have "writer_ok (snd (run_state (WriteLastFrameZeroMVModeGridWithSkip 1 2 sample_inter_config (replicate 2 (repeat_mode GoldenFrame))) ?w))"
    using writes_sticky [OF xs(2)] w(1) unfolding sticky_def by blast
  ultimately have "w_err (snd (run_state (WriteLastFrameZeroMVModeGridWithSkip 1 2 sample_inter_config (replicate 2 (repeat_mode GoldenFrame))) ?w)) = 0"
    by (rule finish_ok_before [rotated])
  then have "w_err (snd (run_state (WriteReferenceFrameZeroMVModeGrid 1 2 sample_inter_config GoldenFrame) ?w)) = 0"
    using xs w unfolding writes_def by blast
  from repeat_grid_equivalent [OF _ _ _ _ ok(3,1,2) w this, unfolded n] show ?thesis by simp
qed

end
