(* ===== verification/Vp8_Mode_Decoding.thy ===== *)
theory Vp8_Mode_Decoding
  imports Vp8_Inter_Modes
begin

text \<open>
  What the mode decoders return on any bits at all: well-formed macroblocks, whatever the packet says,
  and, with error concealment, the plain decoder's grid up to the first corrupt macroblock.
\<close>

section \<open>What a reader can return\<close>

definition yields :: "('s, 'a) state \<Rightarrow> ('a \<Rightarrow> bool) \<Rightarrow> bool" where
  "yields m P \<longleftrightarrow> (\<forall>s. P (fst (run_state m s)))"

named_theorems yields_intros

lemma yields_return [yields_intros]: "P a \<Longrightarrow> yields (State_Monad.return a) P"
  by (simp add: yields_def)

lemma yields_any: "yields m (\<lambda>_. True)"
  by (simp add: yields_def)

lemma yields_bind: "yields m Q \<Longrightarrow> (\<And>a. Q a \<Longrightarrow> yields (f a) P) \<Longrightarrow> yields (m \<bind> f) P"
  unfolding yields_def by (simp add: case_prod_beta)

lemma yields_seq: "(\<And>a. yields (f a) P) \<Longrightarrow> yields (m \<bind> f) P"
  by (rule yields_bind [OF yields_any])

lemma yields_if [yields_intros]: "(b \<Longrightarrow> yields m P) \<Longrightarrow> (\<not> b \<Longrightarrow> yields n P) \<Longrightarrow> yields (if b then m else n) P"
  by simp

lemma yields_weaken: "yields m Q \<Longrightarrow> (\<And>a. Q a \<Longrightarrow> P a) \<Longrightarrow> yields m P"
  by (simp add: yields_def)

lemma yields_tree_steps:
  assumes "tree_ok tree" "even i" "i < length tree"
  shows "yields (read_tree_steps fuel tree probs i) (\<lambda>r. \<forall>v. r = Some v \<longrightarrow> 0 \<le> v \<and> - v \<in> set tree)"
  using assms(2,3)
proof (induction fuel arbitrary: i)
  case 0
  then show ?case by (auto intro!: yields_return)
next
  case (Suc fuel)
  have "even (length tree)" using assms(1) by (simp add: tree_ok_def)
  then have "i + 1 < length tree" using Suc.prems by presburger
  then have i: "i + of_bool b < length tree" for b by simp
  show ?case
    unfolding read_tree_steps.simps Let_def
  proof (intro yields_seq yields_if)
    fix b assume "tree ! (i + of_bool b) \<le> 0"
    then show "yields (State_Monad.return (Some (- (tree ! (i + of_bool b))))) (\<lambda>r. \<forall>v. r = Some v \<longrightarrow> 0 \<le> v \<and> - v \<in> set tree)"
      using nth_mem [OF i] by (intro yields_return) simp
  next
    fix b assume pos: "\<not> tree ! (i + of_bool b) \<le> 0"
    have "0 < tree ! (i + of_bool b) \<longrightarrow> even (tree ! (i + of_bool b)) \<and> tree ! (i + of_bool b) < ilen tree"
      using assms(1) i unfolding tree_ok_def by blast
    then have "even (nat (tree ! (i + of_bool b)))" "nat (tree ! (i + of_bool b)) < length tree"
      using pos by (simp_all add: even_nat_iff nat_less_iff)
    then show "yields (read_tree_steps fuel tree probs (nat (tree ! (i + of_bool b)))) (\<lambda>r. \<forall>v. r = Some v \<longrightarrow> 0 \<le> v \<and> - v \<in> set tree)"
      by (rule Suc.IH)
  qed
qed

text \<open>Every leaf of a tree with \<open>n\<close> modes is one of them.\<close>

definition leaves_below :: "int list \<Rightarrow> nat \<Rightarrow> bool" where
  "leaves_below tree n \<longleftrightarrow> tree_ok tree \<and> list_all (\<lambda>x. - int n < x) tree"

lemma mode_tree_leaves:
  "leaves_below YModeTree 5" "leaves_below KeyFrameYModeTree 5" "leaves_below UVModeTree 4" "leaves_below BModeTree 10"
  by code_simp+

lemma yields_leaf:
  assumes "leaves_below tree n"
  shows "yields (ReadTree tree probs) (\<lambda>r. nat (the_leaf r) < n)"
proof -
  have ok: "tree_ok tree" using assms by (simp add: leaves_below_def)
  have two: "0 < length tree" "even (0 :: nat)" using ok by (auto simp: tree_ok_def)
  have total: "yields (ReadTree tree probs) (\<lambda>r. r \<noteq> None)"
    unfolding yields_def ReadTree_def using ok two by (intro allI read_tree_steps_total) simp_all
  show ?thesis
    unfolding yields_def
  proof
    fix d
    obtain v where v: "fst (run_state (ReadTree tree probs) d) = Some v" using total by (auto simp: yields_def)
    have "0 \<le> v \<and> - v \<in> set tree"
      using yields_tree_steps [OF ok two(2,1), of "length tree" probs] v by (simp add: yields_def ReadTree_def)
    then have "v < int n" using assms by (auto simp: leaves_below_def list_all_iff)
    then show "nat (the_leaf (fst (run_state (ReadTree tree probs) d))) < n"
      unfolding v the_leaf_def using \<open>0 \<le> v \<and> - v \<in> set tree\<close> by (simp add: nat_less_iff)
  qed
qed

lemma yields_modes:
  "yields (ReadYMode p) (\<lambda>r. nat (the_leaf r) < 5)" "yields (ReadKeyFrameYMode p) (\<lambda>r. nat (the_leaf r) < 5)"
  "yields (ReadUVMode p) (\<lambda>r. nat (the_leaf r) < 4)" "yields (ReadBMode p) (\<lambda>r. nat (the_leaf r) < 10)"
  unfolding ReadYMode_def ReadKeyFrameYMode_def ReadUVMode_def ReadBMode_def
  by (rule yields_leaf, rule mode_tree_leaves)+

section \<open>Well-formed macroblocks\<close>

definition mode_wf :: "MacroblockMode \<Rightarrow> bool" where
  "mode_wf m \<longleftrightarrow> mb_Mode m \<le> SplitMV \<and> mb_UVMode m \<le> TMPred \<and> mb_RefFrame m \<le> AltRefFrame \<and>
     (mb_RefFrame m = IntraFrame \<longleftrightarrow> mb_Mode m \<le> BPred) \<and> (mb_RefFrame m = IntraFrame \<longrightarrow> mb_MV m = zero_mv) \<and>
     (mb_Is4x4 m \<longleftrightarrow> mb_Mode m = BPred \<or> mb_Mode m = SplitMV) \<and> (mb_Mode m = SplitMV \<longrightarrow> mb_MV m = mb_BlockMV m ! 15) \<and>
     mb_SegmentID m < 4 \<and> mb_Partition m < 4 \<and>
     length (mb_BModes m) = 16 \<and> list_all (\<lambda>b. b \<le> BHUPred) (mb_BModes m) \<and> length (mb_BlockMV m) = 16"

text \<open>What \<open>decode_mb_start\<close> leaves: all fields zero but the segment id and the skip flag.\<close>

definition fresh_mode :: "MacroblockMode \<Rightarrow> bool" where
  "fresh_mode m \<longleftrightarrow> (\<exists>s skip. m = zero_mode\<lparr>mb_SegmentID := s, mb_MBSkipCoeff := skip\<rparr> \<and> s < 4)"

lemma yields_segment_id: "yields (readMacroblockSegmentID probs) (\<lambda>s. s < 4)"
  unfolding readMacroblockSegmentID_def
  by (intro yields_seq yields_if yields_return) (simp_all add: word_less_nat_alt)

lemma yields_mb_start:
  assumes "mb_SegmentID old < 4"
  shows "yields (decode_mb_start segmentation hdr old) fresh_mode"
proof -
  have seg: "yields (case segmentation of
         Some h \<Rightarrow> if sh_Enabled h
           then if sh_UpdateMap h then readMacroblockSegmentID (sh_TreeProbs h) else State_Monad.return (mb_SegmentID old)
           else State_Monad.return 0
       | None \<Rightarrow> State_Monad.return 0) (\<lambda>s. s < 4)"
    using assms by (cases segmentation) (auto intro!: yields_if yields_return yields_segment_id)
  show ?thesis
    unfolding decode_mb_start_def fresh_mode_def
    by (rule yields_bind [OF seg], rule yields_seq, rule yields_return) blast
qed

lemma list_all_update: "list_all P xs \<Longrightarrow> P x \<Longrightarrow> list_all P (xs[i := x])"
  by (auto simp: list_all_iff dest!: set_update_subset_insert [THEN subsetD])

lemma yields_key_bmodes:
  assumes "length (mb_BModes out) = 16" "list_all (\<lambda>b. b \<le> BHUPred) (mb_BModes out)"
  shows "yields (read_key_bmodes abv lft is out) (\<lambda>m. \<exists>bs. m = out\<lparr>mb_BModes := bs\<rparr> \<and> length bs = 16 \<and> list_all (\<lambda>b. b \<le> BHUPred) bs)"
  using assms
proof (induction "is" arbitrary: out)
  case Nil
  then show ?case by (auto intro!: yields_return exI [of _ "mb_BModes out"])
next
  case (Cons i "is")
  show ?case
    unfolding read_key_bmodes.simps
  proof (rule yields_bind [OF yields_modes(4)])
    fix b assume "nat (the_leaf b) < 10"
    then have "list_all (\<lambda>b. b \<le> BHUPred) ((mb_BModes out)[i := nat (the_leaf b)])"
      using Cons.prems(2) by (intro list_all_update) simp_all
    then show "yields (read_key_bmodes abv lft is (out\<lparr>mb_BModes := (mb_BModes out)[i := nat (the_leaf b)]\<rparr>))
        (\<lambda>m. \<exists>bs. m = out\<lparr>mb_BModes := bs\<rparr> \<and> length bs = 16 \<and> list_all (\<lambda>b. b \<le> BHUPred) bs)"
      using Cons.prems(1) by (intro yields_weaken [OF Cons.IH]) auto
  qed
qed

lemma yields_inter_bmodes:
  assumes "length (mb_BModes out) = 16" "list_all (\<lambda>b. b \<le> BHUPred) (mb_BModes out)"
  shows "yields (read_inter_bmodes probs is out) (\<lambda>m. \<exists>bs. m = out\<lparr>mb_BModes := bs\<rparr> \<and> length bs = 16 \<and> list_all (\<lambda>b. b \<le> BHUPred) bs)"
  using assms
proof (induction "is" arbitrary: out)
  case Nil
  then show ?case by (auto intro!: yields_return exI [of _ "mb_BModes out"])
next
  case (Cons i "is")
  show ?case
    unfolding read_inter_bmodes.simps
  proof (rule yields_bind [OF yields_modes(4)])
    fix b assume "nat (the_leaf b) < 10"
    then have "list_all (\<lambda>b. b \<le> BHUPred) ((mb_BModes out)[i := nat (the_leaf b)])"
      using Cons.prems(2) by (intro list_all_update) simp_all
    then show "yields (read_inter_bmodes probs is (out\<lparr>mb_BModes := (mb_BModes out)[i := nat (the_leaf b)]\<rparr>))
        (\<lambda>m. \<exists>bs. m = out\<lparr>mb_BModes := bs\<rparr> \<and> length bs = 16 \<and> list_all (\<lambda>b. b \<le> BHUPred) bs)"
      using Cons.prems(1) by (intro yields_weaken [OF Cons.IH]) auto
  qed
qed

text \<open>The common shape of the two intra decoders.\<close>

lemma yields_intra:
  assumes "fresh_mode out" "yields y (\<lambda>r. nat (the_leaf r) < 5)" "yields uv (\<lambda>r. nat (the_leaf r) < 4)"
    and "\<And>o'. length (mb_BModes o') = 16 \<Longrightarrow> list_all (\<lambda>b. b \<le> BHUPred) (mb_BModes o') \<Longrightarrow>
      yields (bm o') (\<lambda>m. \<exists>bs. m = o'\<lparr>mb_BModes := bs\<rparr> \<and> length bs = 16 \<and> list_all (\<lambda>b. b \<le> BHUPred) bs)"
  shows "yields (do {
     y \<leftarrow> y;
     (let out = out\<lparr>mb_RefFrame := IntraFrame, mb_Is4x4 := False, mb_BModes := replicate 16 0, mb_Mode := nat (the_leaf y)\<rparr> in do {
        out \<leftarrow> (if mb_Mode out = BPred then bm (out\<lparr>mb_Is4x4 := True\<rparr>) else State_Monad.return out);
        uv \<leftarrow> uv;
        State_Monad.return (out\<lparr>mb_UVMode := nat (the_leaf uv)\<rparr>)
      })
   }) (\<lambda>m. mode_wf m \<and> mb_RefFrame m = IntraFrame)"
proof (rule yields_bind [OF assms(2)])
  fix r assume r: "nat (the_leaf r) < 5"
  define o1 where "o1 = out\<lparr>mb_RefFrame := IntraFrame, mb_Is4x4 := False, mb_BModes := replicate 16 0, mb_Mode := nat (the_leaf r)\<rparr>"
  obtain s skip where out: "out = zero_mode\<lparr>mb_SegmentID := s, mb_MBSkipCoeff := skip\<rparr>" "s < 4"
    using assms(1) by (auto simp: fresh_mode_def)
  have mid: "yields (if mb_Mode o1 = BPred then bm (o1\<lparr>mb_Is4x4 := True\<rparr>) else State_Monad.return o1)
      (\<lambda>m. \<exists>bs. m = o1\<lparr>mb_Is4x4 := (mb_Mode o1 = BPred), mb_BModes := bs\<rparr> \<and> length bs = 16 \<and> list_all (\<lambda>b. b \<le> BHUPred) bs)"
  proof (rule yields_if)
    assume b: "mb_Mode o1 = BPred"
    show "yields (bm (o1\<lparr>mb_Is4x4 := True\<rparr>))
        (\<lambda>m. \<exists>bs. m = o1\<lparr>mb_Is4x4 := (mb_Mode o1 = BPred), mb_BModes := bs\<rparr> \<and> length bs = 16 \<and> list_all (\<lambda>b. b \<le> BHUPred) bs)"
      by (rule yields_weaken [OF assms(4)]) (use b in \<open>auto simp: o1_def list_all_iff\<close>)
  next
    assume b: "mb_Mode o1 \<noteq> BPred"
    have "o1 = o1\<lparr>mb_Is4x4 := (mb_Mode o1 = BPred), mb_BModes := replicate 16 0\<rparr>" using b by (simp add: o1_def)
    then show "yields (State_Monad.return o1)
        (\<lambda>m. \<exists>bs. m = o1\<lparr>mb_Is4x4 := (mb_Mode o1 = BPred), mb_BModes := bs\<rparr> \<and> length bs = 16 \<and> list_all (\<lambda>b. b \<le> BHUPred) bs)"
      by (intro yields_return exI [of _ "replicate 16 0"]) (simp add: list_all_iff)
  qed
  have wf: "mode_wf (o1\<lparr>mb_Is4x4 := (mb_Mode o1 = BPred), mb_BModes := bs, mb_UVMode := nat (the_leaf v)\<rparr>) \<and>
      mb_RefFrame (o1\<lparr>mb_Is4x4 := (mb_Mode o1 = BPred), mb_BModes := bs, mb_UVMode := nat (the_leaf v)\<rparr>) = IntraFrame"
    if "length bs = 16" "list_all (\<lambda>b. b \<le> BHUPred) bs" "nat (the_leaf v) < 4" for bs v
    using that r out by (auto simp: mode_wf_def o1_def zero_mode_def)
  show "yields (let out = out\<lparr>mb_RefFrame := IntraFrame, mb_Is4x4 := False, mb_BModes := replicate 16 0, mb_Mode := nat (the_leaf r)\<rparr> in do {
        out \<leftarrow> (if mb_Mode out = BPred then bm (out\<lparr>mb_Is4x4 := True\<rparr>) else State_Monad.return out);
        uv \<leftarrow> uv;
        State_Monad.return (out\<lparr>mb_UVMode := nat (the_leaf uv)\<rparr>)
      }) (\<lambda>m. mode_wf m \<and> mb_RefFrame m = IntraFrame)"
    unfolding Let_def o1_def [symmetric]
    by (rule yields_bind [OF mid], elim exE conjE, rule yields_bind [OF assms(3)], rule yields_return) (use wf in simp)
qed

lemma yields_key_macroblock:
  assumes "mb_SegmentID old < 4"
  shows "yields (DecodeKeyFrameMacroblock segmentation hdr abv lft old) (\<lambda>m. mode_wf m \<and> mb_RefFrame m = IntraFrame)"
  unfolding DecodeKeyFrameMacroblock_def decodeKeyFrameMacroblockMode_def
  by (rule yields_bind [OF yields_mb_start [OF assms]], erule yields_intra [OF _ yields_modes(2,3)], erule (1) yields_key_bmodes)

section \<open>Inter macroblocks\<close>

lemma yields_reference: "yields (ReadInterReferenceFrame hdr) (\<lambda>r. r \<le> AltRefFrame)"
  unfolding ReadInterReferenceFrame_def by (intro yields_seq yields_if yields_return) simp_all

lemma yields_prediction: "yields (ReadInterPredictionMode counts) (\<lambda>m. BPred < m \<and> m \<le> SplitMV)"
  unfolding ReadInterPredictionMode_def by (intro yields_seq yields_if yields_return) simp_all

lemma yields_split_partition: "yields read_split_partition (\<lambda>p. p < 4)"
  unfolding read_split_partition_def by (intro yields_seq yields_if yields_return) simp_all

lemma yields_split_subsets:
  "length (mb_BlockMV out) = 16 \<Longrightarrow>
   yields (read_split_subsets probs l a best part ss out) (\<lambda>m. \<exists>mvs. m = out\<lparr>mb_BlockMV := mvs\<rparr> \<and> length mvs = 16)"
proof (induction ss arbitrary: out)
  case Nil
  then show ?case by (auto intro!: yields_return exI [of _ "mb_BlockMV out"])
next
  case (Cons s ss)
  show ?case
    unfolding read_split_subsets.simps Let_def
    by (rule yields_seq, rule yields_weaken [OF Cons.IH]) (use Cons.prems in auto)
qed

lemma yields_split:
  assumes "length (mb_BlockMV out) = 16"
  shows "yields (decodeSplitMotionVectors probs l a best out)
    (\<lambda>m. \<exists>mvs part. m = out\<lparr>mb_BlockMV := mvs, mb_Partition := part, mb_MV := mvs ! 15, mb_Is4x4 := True\<rparr> \<and> length mvs = 16 \<and> part < 4)"
  unfolding decodeSplitMotionVectors_def
  by (rule yields_bind [OF yields_split_partition], rule yields_bind [OF yields_split_subsets [OF assms]], elim exE conjE,
      rule yields_return) auto

lemma yields_inter_vectors:
  assumes "fresh_mode out" "refFrame \<le> AltRefFrame" "refFrame \<noteq> IntraFrame"
  shows "yields (decode_inter_vectors r c rows cols probs abv left aboveLeft sb refFrame out) mode_wf"
proof -
  obtain nearest near best counts where find: "FindNearMotionVectors abv left aboveLeft refFrame sb = (nearest, near, best, counts)"
    by (metis prod_cases4)
  obtain s skip where out: "out = zero_mode\<lparr>mb_SegmentID := s, mb_MBSkipCoeff := skip\<rparr>" "s < 4"
    using assms(1) by (auto simp: fresh_mode_def)
  have whole: "mode_wf (out\<lparr>mb_RefFrame := refFrame, mb_Mode := mode, mb_MV := mv\<rparr>)" if "BPred < mode" "mode \<noteq> SplitMV" "mode \<le> SplitMV" for mode mv
    using that assms(2,3) out by (simp add: mode_wf_def zero_mode_def list_all_iff)
  have split: "mode_wf (out\<lparr>mb_RefFrame := refFrame, mb_Mode := SplitMV, mb_BlockMV := mvs, mb_Partition := part, mb_MV := mvs ! 15, mb_Is4x4 := True\<rparr>)"
    if "length mvs = 16" "part < 4" for mvs part
    using that assms(2,3) out by (simp add: mode_wf_def zero_mode_def list_all_iff)
  show ?thesis
    unfolding decode_inter_vectors_def find prod.case Let_def
  proof (rule yields_bind [OF yields_prediction], elim conjE, intro yields_if yields_return)
    fix mode :: nat assume m: "BPred < mode" "mode \<le> SplitMV"
    show "mode_wf (out\<lparr>mb_RefFrame := refFrame, mb_Mode := mode, mb_MV := zero_mv\<rparr>)" if "mode = ZeroMV" using whole m that by simp
    show "mode_wf (out\<lparr>mb_RefFrame := refFrame, mb_Mode := mode, mb_MV := clampMotionVectorToModeEdges nearest r c rows cols\<rparr>)" if "mode = NearestMV"
      using whole m that by simp
    show "mode_wf (out\<lparr>mb_RefFrame := refFrame, mb_Mode := mode, mb_MV := clampMotionVectorToModeEdges near r c rows cols\<rparr>)" if "mode = NearMV"
      using whole m that by simp
    show "yields (DecodeMotionVector (mp_MV probs) \<bind> (\<lambda>d. State_Monad.return
        (out\<lparr>mb_RefFrame := refFrame, mb_Mode := mode, mb_MV := addMotionVectors (clampMotionVectorToModeEdges best r c rows cols) d\<rparr>))) mode_wf"
      if "mode = NewMV" using whole m that by (intro yields_seq yields_return) simp
    show "yields (decodeSplitMotionVectors probs left abv (clampMotionVectorToModeEdges best r c rows cols)
        (out\<lparr>mb_RefFrame := refFrame, mb_Mode := mode\<rparr>)) mode_wf" if "mode = SplitMV"
      by (rule yields_weaken [OF yields_split]) (use that out split in \<open>auto simp: zero_mode_def\<close>)
    show "mode_wf (out\<lparr>mb_RefFrame := refFrame, mb_Mode := mode\<rparr>)"
      if "mode \<noteq> ZeroMV" "mode \<noteq> NearestMV" "mode \<noteq> NearMV" "mode \<noteq> NewMV" "mode \<noteq> SplitMV" using m that by linarith
  qed
qed

lemma yields_inter_macroblock:
  assumes "mb_SegmentID old < 4"
  shows "yields (decodeInterMacroblockAt r c rows cols segmentation hdr probs abv left aboveLeft sb old) mode_wf"
  unfolding decodeInterMacroblockAt_def
proof (rule yields_bind [OF yields_mb_start [OF assms]], rule yields_bind [OF yields_reference], rule yields_if)
  fix out ref assume out: "fresh_mode out"
  show "yields (decodeInterIntraMacroblockMode probs out) mode_wf"
    unfolding decodeInterIntraMacroblockMode_def
    by (rule yields_weaken [OF yields_intra [OF out yields_modes(1,3)]], erule (1) yields_inter_bmodes) simp
  show "yields (decode_inter_vectors r c rows cols probs abv left aboveLeft sb ref out) mode_wf" if "ref \<le> AltRefFrame" "ref \<noteq> IntraFrame"
    using yields_inter_vectors [OF out that] .
qed

section \<open>Grids\<close>

lemma yields_read_cells:
  assumes "\<And>c ms. c \<in> set cs \<Longrightarrow> length ms = n \<Longrightarrow> list_all P ms \<Longrightarrow> yields (f c ms) P"
  shows "length ms = n \<Longrightarrow> list_all P ms \<Longrightarrow> yields (read_cells f cols cs ms) (\<lambda>ms. length ms = n \<and> list_all P ms)"
  using assms
proof (induction cs arbitrary: ms)
  case Nil
  then show ?case by (auto intro!: yields_return)
next
  case (Cons c cs)
  show ?case
    unfolding read_cells.simps
  proof (rule yields_bind [OF Cons.prems(3) [OF list.set_intros(1) Cons.prems(1,2)]])
    fix m assume "P m"
    then have "list_all P (ms[fst c * cols + snd c := m])"
      using Cons.prems(2) by (intro list_all_update)
    then show "yields (read_cells f cols cs (ms[fst c * cols + snd c := m])) (\<lambda>ms. length ms = n \<and> list_all P ms)"
      using Cons.prems by (intro Cons.IH) simp_all
  qed
qed

lemma cell_wf:
  assumes "\<not> grid_too_small rows cols (length modes)" "c \<in> set (grid_cells (nat rows) (nat cols))" "list_all mode_wf modes"
  shows "mb_SegmentID (modes ! (fst c * nat cols + snd c)) < 4"
proof -
  have "nat rows * nat cols \<le> length modes" using assms(1) by (simp add: grid_too_small_def nat_mult_distrib [symmetric] nat_le_iff)
  then have "fst c * nat cols + snd c < length modes" using grid_cell_index [OF assms(2)] by simp
  then show ?thesis using assms(3) by (auto simp: list_all_length mode_wf_def)
qed

lemma yields_grid:
  assumes "list_all mode_wf modes"
    and "\<And>c ms. c \<in> set (grid_cells (nat rows) (nat cols)) \<Longrightarrow> length ms = length modes \<Longrightarrow> list_all mode_wf ms \<Longrightarrow>
      \<not> grid_too_small rows cols (length modes) \<Longrightarrow> yields (f c ms) mode_wf"
  shows "yields (if grid_too_small rows cols (length modes) then State_Monad.return (Inl ErrModeBufferTooSmall)
      else do { ms \<leftarrow> read_cells f (nat cols) (grid_cells (nat rows) (nat cols)) modes; State_Monad.return (Inr ms) })
    (\<lambda>r. case r of Inl e \<Rightarrow> e = ErrModeBufferTooSmall \<and> grid_too_small rows cols (length modes)
      | Inr ms \<Rightarrow> length ms = length modes \<and> list_all mode_wf ms)"
proof (rule yields_if)
  assume "\<not> grid_too_small rows cols (length modes)"
  then show "yields (do { ms \<leftarrow> read_cells f (nat cols) (grid_cells (nat rows) (nat cols)) modes; State_Monad.return (Inr ms) })
    (\<lambda>r. case r of Inl e \<Rightarrow> e = ErrModeBufferTooSmall \<and> grid_too_small rows cols (length modes)
      | Inr ms \<Rightarrow> length ms = length modes \<and> list_all mode_wf ms)"
    by (intro yields_bind [OF yields_read_cells [OF assms(2) refl assms(1)]] yields_return) simp_all
qed (simp add: yields_return)

lemma yields_key_grid:
  assumes "list_all mode_wf modes"
  shows "yields (DecodeKeyFrameModeGrid rows cols segmentation hdr modes)
    (\<lambda>r. case r of Inl e \<Rightarrow> e = ErrModeBufferTooSmall \<and> grid_too_small rows cols (length modes)
      | Inr ms \<Rightarrow> length ms = length modes \<and> list_all mode_wf ms)"
  unfolding DecodeKeyFrameModeGrid_def read_key_cell_def
  by (rule yields_grid [OF assms], rule yields_weaken [OF yields_key_macroblock]) (auto intro: cell_wf)

lemma yields_inter_grid:
  assumes "list_all mode_wf modes"
  shows "yields (DecodeInterModeGrid rows cols segmentation hdr probs sb modes)
    (\<lambda>r. case r of Inl e \<Rightarrow> e = ErrModeBufferTooSmall \<and> grid_too_small rows cols (length modes)
      | Inr ms \<Rightarrow> length ms = length modes \<and> list_all mode_wf ms)"
  unfolding DecodeInterModeGrid_def read_inter_cell_def
  by (rule yields_grid [OF assms], rule yields_inter_macroblock) (auto intro: cell_wf)

section \<open>Error concealment\<close>

lemma run_derr [simp]: "run_state derr d = (Decoder_Err d \<noteq> None, d)"
  by (simp add: derr_def)

lemma read_cells_frame:
  assumes "run_state (read_cells f cols cs ms) d = (ms', d')"
  shows "length ms' = length ms \<and> (\<forall>k. (\<forall>c \<in> set cs. fst c * cols + snd c \<noteq> k) \<longrightarrow> ms' ! k = ms ! k)"
  using assms by (induction cs arbitrary: ms d) (auto split: prod.splits simp: nth_list_update_neq)

text \<open>The two loops side by side, from cell \<open>i\<close> on.\<close>

definition ec_cells :: "nat \<Rightarrow> nat \<Rightarrow> nat \<Rightarrow> (nat \<times> nat) list" where
  "ec_cells cols i n = map (\<lambda>i. (i div cols, i mod cols)) [i..<n]"

lemma ec_cells_index: "c \<in> set (ec_cells cols i n) \<Longrightarrow> i \<le> fst c * cols + snd c"
  by (auto simp: ec_cells_def)

lemma read_until_stopped:
  "fc \<le> i \<Longrightarrow> run_state (read_cells_until f cols (ec_cells cols i n) fc ms) d = ((fc, ms), d)"
proof (induction "n - i" arbitrary: i)
  case 0
  then show ?case by (simp add: ec_cells_def)
next
  case (Suc k)
  then have c: "ec_cells cols i n = (i div cols, i mod cols) # ec_cells cols (Suc i) n" by (simp add: ec_cells_def upt_conv_Cons)
  have "run_state (read_cells_until f cols (ec_cells cols (Suc i) n) fc ms) d = ((fc, ms), d)" using Suc by simp
  then show ?case using Suc.prems by (simp add: c)
qed

lemma read_until_prefix:
  assumes "run_state (read_cells_until f cols (ec_cells cols i n) n ms) d = ((fc, ms1), d1)"
    and "run_state (read_cells f cols (ec_cells cols i n) ms) d = (ms2, d2)" "i \<le> n"
  shows "i \<le> fc \<and> fc \<le> n \<and> length ms1 = length ms \<and> (\<forall>k \<le> fc. ms1 ! k = ms2 ! k \<or> k \<ge> n) \<and> (\<forall>k > fc. ms1 ! k = ms ! k) \<and>
    (fc = n \<longrightarrow> ms1 = ms2 \<and> d1 = d2) \<and> (i < n \<longrightarrow> (fc < n \<longleftrightarrow> Decoder_Err d1 \<noteq> None)) \<and> (i = n \<longrightarrow> d1 = d)"
  using assms
proof (induction "n - i" arbitrary: i ms d)
  case 0
  then show ?case by (simp add: ec_cells_def)
next
  case (Suc m)
  then have i: "i < n" by simp
  then have c: "ec_cells cols i n = (i div cols, i mod cols) # ec_cells cols (Suc i) n" by (simp add: ec_cells_def upt_conv_Cons)
  obtain x d3 where x: "run_state (f (i div cols, i mod cols) ms) d = (x, d3)" by (metis surj_pair)
  have plain: "run_state (read_cells f cols (ec_cells cols (Suc i) n) (ms[i := x])) d3 = (ms2, d2)"
    using Suc.prems(2) x by (simp add: c)
  show ?case
  proof (cases "Decoder_Err d3 = None")
    case True
    have "run_state (read_cells_until f cols (ec_cells cols (Suc i) n) n (ms[i := x])) d3 = ((fc, ms1), d1)"
      using Suc.prems(1) x i True by (simp add: c Let_def)
    then have IH: "Suc i \<le> fc \<and> fc \<le> n \<and> length ms1 = length (ms[i := x]) \<and> (\<forall>k \<le> fc. ms1 ! k = ms2 ! k \<or> k \<ge> n) \<and>
        (\<forall>k > fc. ms1 ! k = ms[i := x] ! k) \<and> (fc = n \<longrightarrow> ms1 = ms2 \<and> d1 = d2) \<and>
        (Suc i < n \<longrightarrow> (fc < n \<longleftrightarrow> Decoder_Err d1 \<noteq> None)) \<and> (Suc i = n \<longrightarrow> d1 = d3)"
      using Suc.hyps(2) i by (intro Suc.hyps(1) [OF _ _ plain]) simp_all
    then have "\<forall>k > fc. ms1 ! k = ms ! k" by (auto simp: nth_list_update_neq)
    moreover have "fc < n \<longleftrightarrow> Decoder_Err d1 \<noteq> None" using IH True i by (cases "Suc i < n") auto
    ultimately show ?thesis using IH i by simp
  next
    case False
    have "run_state (read_cells_until f cols (ec_cells cols (Suc i) n) i (ms[i := x])) d3 = ((fc, ms1), d1)"
      using Suc.prems(1) x i False by (simp add: c Let_def)
    then have r: "fc = i" "ms1 = ms[i := x]" "d1 = d3" using read_until_stopped [of i "Suc i" f cols n "ms[i := x]" d3] by auto
    have frame: "length ms2 = length (ms[i := x]) \<and> (\<forall>k. (\<forall>c \<in> set (ec_cells cols (Suc i) n). fst c * cols + snd c \<noteq> k) \<longrightarrow> ms2 ! k = ms[i := x] ! k)"
      by (rule read_cells_frame [OF plain])
    have "ms2 ! k = ms[i := x] ! k" if "k \<le> i" for k
    proof -
      have "\<forall>c \<in> set (ec_cells cols (Suc i) n). fst c * cols + snd c \<noteq> k"
      proof
        fix c assume "c \<in> set (ec_cells cols (Suc i) n)"
        from ec_cells_index [OF this] show "fst c * cols + snd c \<noteq> k" using that by linarith
      qed
      then show ?thesis using frame by blast
    qed
    then show ?thesis using r i False by auto
  qed
qed

lemma grids_run:
  assumes "\<not> grid_too_small rows cols (length modes)"
  shows "\<exists>fc ms d. run_state (DecodeInterModeGridWithErrorConcealment rows cols segmentation hdr probs sb modes) br = (Inr (fc, ms), d)"
    "\<exists>ms d. run_state (DecodeInterModeGrid rows cols segmentation hdr probs sb modes) br = (Inr ms, d)"
proof -
  obtain fc ms d where "run_state (read_cells_until (read_inter_cell rows cols segmentation hdr probs sb) (nat cols) (grid_cells (nat rows) (nat cols))
      (if Decoder_Err br \<noteq> None then 0 else nat (rows * cols)) modes) br = ((fc, ms), d)" by (metis surj_pair)
  then show "\<exists>fc ms d. run_state (DecodeInterModeGridWithErrorConcealment rows cols segmentation hdr probs sb modes) br = (Inr (fc, ms), d)"
    using assms by (simp add: DecodeInterModeGridWithErrorConcealment_def)
  obtain ms' d' where "run_state (read_cells (read_inter_cell rows cols segmentation hdr probs sb) (nat cols) (grid_cells (nat rows) (nat cols)) modes) br = (ms', d')"
    by (metis surj_pair)
  then show "\<exists>ms d. run_state (DecodeInterModeGrid rows cols segmentation hdr probs sb modes) br = (Inr ms, d)"
    using assms by (simp add: DecodeInterModeGrid_def)
qed

lemma conceal_prefix:
  assumes "\<not> grid_too_small rows cols (length modes)"
    and "run_state (DecodeInterModeGridWithErrorConcealment rows cols segmentation hdr probs sb modes) br = (Inr (fc, ms), br1)"
    and "run_state (DecodeInterModeGrid rows cols segmentation hdr probs sb modes) br = (Inr plain, br2)"
  shows "fc \<le> nat rows * nat cols \<and> length ms = length modes \<and> (\<forall>k < fc. ms ! k = plain ! k) \<and>
    (\<forall>k > fc. ms ! k = modes ! k) \<and> (fc = nat rows * nat cols \<longrightarrow> ms = plain \<and> br1 = br2) \<and>
    (0 < nat rows * nat cols \<longrightarrow> (fc < nat rows * nat cols \<longleftrightarrow> Decoder_Err br1 \<noteq> None))"
proof -
  define n where "n = nat rows * nat cols"
  define f where "f = read_inter_cell rows cols segmentation hdr probs sb"
  have N: "nat (rows * cols) = n" using assms(1) by (simp add: n_def grid_too_small_def nat_mult_distrib)
  have cells: "grid_cells (nat rows) (nat cols) = ec_cells (nat cols) 0 n"
  proof (cases "nat cols = 0")
    case True
    have "List.product xs ([] :: nat list) = []" for xs :: "nat list" by (induction xs) simp_all
    then show ?thesis using True by (simp add: grid_cells_def ec_cells_def n_def)
  next
    case False
    then show ?thesis by (simp add: grid_cells_map ec_cells_def n_def)
  qed
  have plain: "run_state (read_cells f (nat cols) (ec_cells (nat cols) 0 n) modes) br = (plain, br2)"
    using assms(3) unfolding DecodeInterModeGrid_def if_not_P [OF assms(1)] cells f_def [symmetric] by (auto split: prod.splits)
  have ec: "run_state (read_cells_until f (nat cols) (ec_cells (nat cols) 0 n) (if Decoder_Err br \<noteq> None then 0 else n) modes) br = ((fc, ms), br1)"
    using assms(2) unfolding DecodeInterModeGridWithErrorConcealment_def if_not_P [OF assms(1)] cells f_def [symmetric] N
    by (auto split: prod.splits)
  show ?thesis
    unfolding n_def [symmetric]
  proof (cases "Decoder_Err br = None")
    case True
    from read_until_prefix [OF ec [unfolded True, simplified] plain]
    show "fc \<le> n \<and> length ms = length modes \<and> (\<forall>k < fc. ms ! k = plain ! k) \<and> (\<forall>k > fc. ms ! k = modes ! k) \<and> (fc = n \<longrightarrow> ms = plain \<and> br1 = br2) \<and>
        (0 < n \<longrightarrow> (fc < n \<longleftrightarrow> Decoder_Err br1 \<noteq> None))"
      by fastforce
  next
    case False
    then have r: "fc = 0" "ms = modes" "br1 = br" using ec read_until_stopped [of 0 0 f "nat cols" n modes br] by auto
    have "n = 0 \<Longrightarrow> plain = modes \<and> br2 = br" using plain by (simp add: ec_cells_def)
    then show "fc \<le> n \<and> length ms = length modes \<and> (\<forall>k < fc. ms ! k = plain ! k) \<and> (\<forall>k > fc. ms ! k = modes ! k) \<and> (fc = n \<longrightarrow> ms = plain \<and> br1 = br2) \<and>
        (0 < n \<longrightarrow> (fc < n \<longleftrightarrow> Decoder_Err br1 \<noteq> None))"
      using r False by auto
  qed
qed

section \<open>Properties\<close>

definition ec_header :: ModeHeader where
  "ec_header = \<lparr>mh_MBNoCoeffSkip = True, mh_ProbSkipFalse = 9, mh_ProbIntra = 3, mh_ProbLast = 128,
     mh_ProbGolden = 128, mh_YModeUpdated = False, mh_UVModeUpdated = False, mh_MVUpdateCount = 0\<rparr>"

text \<open>C7: Mode decoding is safe on any input. From any decoder state, whatever the packet's bits, header and probabilities are,
  both grid decoders return a grid of the same size whose macroblocks are all well formed, if the grid they start from is:
  modes, references, partitions, block modes and segment ids are in range (so every table they index later has their row), a
  reference is intra exactly for the intra modes, which carry no vector, the sub-block flag is set exactly for the two modes
  with sub-blocks, and a split macroblock's vector is that of its last block. The only error is a grid that is too small.\<close>

theorem mode_grids_well_formed:
  assumes "list_all mode_wf modes"
  shows "(case fst (run_state (DecodeKeyFrameModeGrid rows cols segmentation hdr modes) br) of
      Inl e \<Rightarrow> e = ErrModeBufferTooSmall \<and> grid_too_small rows cols (length modes)
    | Inr ms \<Rightarrow> length ms = length modes \<and> list_all mode_wf ms) \<and>
    (case fst (run_state (DecodeInterModeGrid rows cols segmentation hdr probs sb modes) br) of
      Inl e \<Rightarrow> e = ErrModeBufferTooSmall \<and> grid_too_small rows cols (length modes)
    | Inr ms \<Rightarrow> length ms = length modes \<and> list_all mode_wf ms)"
  using yields_key_grid [OF assms] yields_inter_grid [OF assms] by (simp add: yields_def)

lemma mode_grids_well_formed_witness:
  "\<exists>ms. fst (run_state (DecodeInterModeGrid 2 2 None ec_header ResetModeProbs [False, False, False, True]
      (replicate 4 zero_mode)) (Decoder_Init [0xF3, 0x71, 0x0A, 0x96])) = Inr ms \<and> length ms = 4 \<and> list_all mode_wf ms"
proof -
  have "list_all mode_wf (replicate 4 zero_mode)" by code_simp
  from mode_grids_well_formed [OF this, THEN conjunct2, of 2 2 None ec_header ResetModeProbs "[False, False, False, True]"
      "Decoder_Init [0xF3, 0x71, 0x0A, 0x96]"]
  show ?thesis by (auto simp: grid_too_small_def max_int_def split: sum.splits)
qed

text \<open>C20: The concealing decoder agrees with the plain one as far as the data goes. It returns the index of the first corrupt
  macroblock; before it the grid is the plain decoder's, after it the grid is untouched; and when no macroblock is corrupt
  grid and bit reader are the plain decoder's. A macroblock is reported corrupt exactly when the bit reader ran out.\<close>

theorem inter_concealment_prefix:
  assumes "\<not> grid_too_small rows cols (length modes)"
    and "run_state (DecodeInterModeGridWithErrorConcealment rows cols segmentation hdr probs sb modes) br = (Inr (fc, ms), br1)"
    and "run_state (DecodeInterModeGrid rows cols segmentation hdr probs sb modes) br = (Inr plain, br2)"
  shows "fc \<le> nat rows * nat cols \<and> length ms = length modes \<and> (\<forall>k < fc. ms ! k = plain ! k) \<and>
    (\<forall>k > fc. ms ! k = modes ! k) \<and> (fc = nat rows * nat cols \<longrightarrow> ms = plain \<and> br1 = br2) \<and>
    (0 < nat rows * nat cols \<longrightarrow> (fc < nat rows * nat cols \<longleftrightarrow> Decoder_Err br1 \<noteq> None))"
  by (rule conceal_prefix [OF assms])

lemma inter_concealment_prefix_witness:
  "\<exists>fc ms br1 plain br2.
    run_state (DecodeInterModeGridWithErrorConcealment 1 2 None ec_header ResetModeProbs [False, False, False, True] (replicate 3 zero_mode)) (Decoder_Init [0xF3]) =
      (Inr (fc, ms), br1) \<and>
    run_state (DecodeInterModeGrid 1 2 None ec_header ResetModeProbs [False, False, False, True] (replicate 3 zero_mode)) (Decoder_Init [0xF3]) = (Inr plain, br2) \<and>
    fc \<le> 2 \<and> length ms = 3 \<and> (\<forall>k > fc. ms ! k = replicate 3 zero_mode ! k) \<and> (fc < 2 \<longleftrightarrow> Decoder_Err br1 \<noteq> None)"
proof -
  have g: "\<not> grid_too_small 1 2 (length (replicate 3 zero_mode))" by code_simp
  obtain fc ms br1 where a: "run_state (DecodeInterModeGridWithErrorConcealment 1 2 None ec_header ResetModeProbs [False, False, False, True]
      (replicate 3 zero_mode)) (Decoder_Init [0xF3]) = (Inr (fc, ms), br1)"
    using grids_run(1) [OF g] by blast
  obtain plain br2 where b: "run_state (DecodeInterModeGrid 1 2 None ec_header ResetModeProbs [False, False, False, True]
      (replicate 3 zero_mode)) (Decoder_Init [0xF3]) = (Inr plain, br2)"
    using grids_run(2) [OF g] by blast
  from inter_concealment_prefix [OF g a b] a b show ?thesis by auto
qed

end
