(* ===== verification/Vp8_Streams.thy ===== *)
theory Vp8_Streams
  imports Vp8_Message
begin

text \<open>
  Several bit streams at once: the token partitions of a frame. A frame's tokens go to as many
  writers as there are partitions and come from as many readers; an operation on all of them is a
  state transformer of the list. \<open>codes_all P m n r s\<close> says of a writing and a reading program over
  \<open>P\<close> streams what \<open>codes\<close> says of one stream.
\<close>

section \<open>One stream of several\<close>

definition on_stream :: "nat \<Rightarrow> ('s, 'a) state \<Rightarrow> ('s list, 'a) state" where
  "on_stream k m = State (\<lambda>ss. case run_state m (ss ! k) of (a, s) \<Rightarrow> (a, ss[k := s]))"

text \<open>With a single stream the list is a formality.\<close>

definition single :: "('s list, 'a) state \<Rightarrow> ('s, 'a) state" where
  "single m = State (\<lambda>s. case run_state m [s] of (a, ss) \<Rightarrow> (a, hd ss))"

definition one_stream :: "('s list, 'a) state \<Rightarrow> ('s, 'a) state \<Rightarrow> bool" where
  "one_stream m n \<longleftrightarrow> (\<forall>s. run_state m [s] = (fst (run_state n s), [snd (run_state n s)]))"

lemma one_stream_on: "one_stream (on_stream 0 m) m"
  by (simp add: one_stream_def on_stream_def split: prod.splits)

lemma one_stream_return: "one_stream (State_Monad.return a) (State_Monad.return a)"
  by (simp add: one_stream_def)

lemma one_stream_bind: "one_stream m n \<Longrightarrow> (\<And>a. one_stream (f a) (g a)) \<Longrightarrow> one_stream (m \<bind> f) (n \<bind> g)"
  by (simp add: one_stream_def split: prod.splits)

lemma one_stream_if: "one_stream m1 n1 \<Longrightarrow> one_stream m2 n2 \<Longrightarrow> one_stream (if b then m1 else m2) (if b then n1 else n2)"
  by simp

section \<open>Writing\<close>

definition sticky_all :: "nat \<Rightarrow> (BoolWriter list, 'a) state \<Rightarrow> bool" where
  "sticky_all P m \<longleftrightarrow> (\<forall>ws. length ws = P \<longrightarrow> (\<forall>k < P. writer_ok (ws ! k)) \<longrightarrow>
     length (snd (run_state m ws)) = P \<and>
     (\<forall>k < P. writer_ok (snd (run_state m ws) ! k) \<and> (w_err (ws ! k) \<noteq> 0 \<longrightarrow> w_err (snd (run_state m ws) ! k) \<noteq> 0)))"

definition put_all :: "BoolWriter list \<Rightarrow> (nat \<Rightarrow> (bool \<times> byte) list) \<Rightarrow> BoolWriter list" where
  "put_all ws xss = map (\<lambda>k. vp8w.puts (ws ! k) (xss k)) [0..<length ws]"

definition all_fine :: "BoolWriter list \<Rightarrow> bool" where
  "all_fine ws \<longleftrightarrow> (\<forall>k < length ws. w_err (ws ! k) = 0)"

definition writes_all :: "nat \<Rightarrow> (BoolWriter list, 'a) state \<Rightarrow> (nat \<Rightarrow> (bool \<times> byte) list) \<Rightarrow> 'a \<Rightarrow> bool" where
  "writes_all P m xss r \<longleftrightarrow> sticky_all P m \<and> (\<forall>ws. length ws = P \<longrightarrow> (\<forall>k < P. writer_ok (ws ! k)) \<longrightarrow> all_fine ws \<longrightarrow>
     (all_fine (snd (run_state m ws)) \<longleftrightarrow> all_fine (put_all ws xss)) \<and>
     (all_fine (snd (run_state m ws)) \<longrightarrow> run_state m ws = (r, put_all ws xss)))"

lemma sticky_allD:
  assumes "sticky_all P m" "length ws = P" "\<forall>k < P. writer_ok (ws ! k)" "run_state m ws = (a, ws')"
  shows "length ws' = P" "\<forall>k < P. writer_ok (ws' ! k)" "all_fine ws' \<Longrightarrow> all_fine ws"
proof -
  have "length ws' = P \<and> (\<forall>k < P. writer_ok (ws' ! k) \<and> (w_err (ws ! k) \<noteq> 0 \<longrightarrow> w_err (ws' ! k) \<noteq> 0))"
    using assms unfolding sticky_all_def by (metis snd_conv)
  then show "length ws' = P" "\<forall>k < P. writer_ok (ws' ! k)" "all_fine ws' \<Longrightarrow> all_fine ws"
    using assms(2) by (auto simp: all_fine_def)
qed

lemma writes_allD:
  assumes "writes_all P m xss r" "length ws = P" "\<forall>k < P. writer_ok (ws ! k)" "all_fine ws" "run_state m ws = (a, ws')"
  shows "all_fine ws' \<longleftrightarrow> all_fine (put_all ws xss)" "all_fine ws' \<Longrightarrow> a = r \<and> ws' = put_all ws xss"
proof -
  have "(all_fine (snd (run_state m ws)) \<longleftrightarrow> all_fine (put_all ws xss)) \<and>
     (all_fine (snd (run_state m ws)) \<longrightarrow> run_state m ws = (r, put_all ws xss))"
    using conjunct2 [OF assms(1) [unfolded writes_all_def], rule_format, OF assms(2) _ assms(4)] assms(3) by blast
  then show "all_fine ws' \<longleftrightarrow> all_fine (put_all ws xss)" "all_fine ws' \<Longrightarrow> a = r \<and> ws' = put_all ws xss"
    unfolding assms(5) by simp_all
qed

lemma sticky_all_return: "sticky_all P (State_Monad.return a)"
  by (simp add: sticky_all_def)

lemma sticky_all_bind: "sticky_all P m \<Longrightarrow> (\<And>a. sticky_all P (f a)) \<Longrightarrow> sticky_all P (m \<bind> f)"
  unfolding sticky_all_def by (simp split: prod.splits) (metis snd_conv)

lemma sticky_all_on: "sticky m \<Longrightarrow> k < P \<Longrightarrow> sticky_all P (on_stream k m)"
  by (auto simp: sticky_all_def sticky_def on_stream_def nth_list_update case_prod_beta)

lemma sticky_all_if: "sticky_all P m \<Longrightarrow> sticky_all P n \<Longrightarrow> sticky_all P (if b then m else n)"
  by simp

lemma length_put_all [simp]: "length (put_all ws xss) = length ws"
  by (simp add: put_all_def)

lemma put_all_nth: "k < length ws \<Longrightarrow> put_all ws xss ! k = vp8w.puts (ws ! k) (xss k)"
  by (simp add: put_all_def)

lemma put_all_append: "put_all ws (\<lambda>k. xss k @ yss k) = put_all (put_all ws xss) yss"
  by (intro nth_equalityI) (simp_all add: put_all_nth vp8w.puts_append)

lemma put_all_none: "put_all ws (\<lambda>_. []) = ws"
  by (intro nth_equalityI) (simp_all add: put_all_nth)

lemma put_all_fine: "all_fine (put_all ws xss) \<Longrightarrow> all_fine ws"
  using vp8w.puts_failed by (fastforce simp: all_fine_def put_all_nth)

lemma put_all_ok: "\<forall>k < length ws. writer_ok (ws ! k) \<Longrightarrow> sticky_all (length ws) m \<Longrightarrow> run_state m ws = (r, put_all ws xss) \<Longrightarrow>
    \<forall>k < length ws. writer_ok (put_all ws xss ! k)"
  unfolding sticky_all_def by (metis snd_conv)

lemma writes_all_return: "writes_all P (State_Monad.return a) (\<lambda>_. []) a"
  by (simp add: writes_all_def sticky_all_return put_all_none)

lemma writes_all_bind:
  assumes m: "writes_all P m xss a" and f: "writes_all P (f a) yss r" and s: "\<And>a. sticky_all P (f a)"
  shows "writes_all P (m \<bind> f) (\<lambda>k. xss k @ yss k) r"
  unfolding writes_all_def
proof (intro conjI allI impI)
  have sm: "sticky_all P m" using m by (simp add: writes_all_def)
  then show "sticky_all P (m \<bind> f)" using s by (rule sticky_all_bind)
  fix ws :: "BoolWriter list" assume w: "length ws = P" "\<forall>k < P. writer_ok (ws ! k)" "all_fine ws"
  obtain a1 ws1 where r1: "run_state m ws = (a1, ws1)" by (metis surj_pair)
  obtain a2 ws2 where r2: "run_state (f a1) ws1 = (a2, ws2)" by (metis surj_pair)
  have bind: "run_state (m \<bind> f) ws = (a2, ws2)" by (simp add: r1 r2)
  note k1 = sticky_allD [OF sm w(1,2) r1]
  note k2 = sticky_allD [OF s k1(1,2) r2]
  note v1 = writes_allD [OF m w r1]
  have "(all_fine ws2 \<longleftrightarrow> all_fine (put_all ws (\<lambda>k. xss k @ yss k))) \<and>
    (all_fine ws2 \<longrightarrow> a2 = r \<and> ws2 = put_all ws (\<lambda>k. xss k @ yss k))"
  proof (cases "all_fine ws1")
    case True
    have v: "a1 = a" "ws1 = put_all ws xss" using v1(2) [OF True] by simp_all
    show ?thesis using writes_allD [OF f k1(1,2) True r2 [unfolded v(1)]] unfolding v(2) put_all_append by blast
  next
    case False
    have "\<not> all_fine (put_all ws xss)" using False v1(1) by simp
    then have "\<not> all_fine (put_all ws (\<lambda>k. xss k @ yss k))" using put_all_fine unfolding put_all_append by blast
    then show ?thesis using False k2(3) by blast
  qed
  then show "all_fine (snd (run_state (m \<bind> f) ws)) = all_fine (put_all ws (\<lambda>k. xss k @ yss k))"
    "all_fine (snd (run_state (m \<bind> f) ws)) \<Longrightarrow> run_state (m \<bind> f) ws = (r, put_all ws (\<lambda>k. xss k @ yss k))"
    unfolding bind by auto
qed

lemma writes_all_on:
  assumes m: "writes m xs r" and k: "k < P"
  shows "writes_all P (on_stream k m) (\<lambda>i. if i = k then xs else []) r"
  unfolding writes_all_def
proof (intro conjI allI impI)
  show "sticky_all P (on_stream k m)" using writes_sticky [OF m] k by (rule sticky_all_on)
  fix ws :: "BoolWriter list" assume w: "length ws = P" "\<forall>k < P. writer_ok (ws ! k)" "all_fine ws"
  let ?ys = "\<lambda>i. if i = k then xs else []"
  obtain a w1 where r1: "run_state m (ws ! k) = (a, w1)" by (metis surj_pair)
  have on: "run_state (on_stream k m) ws = (a, ws[k := w1])" by (simp add: on_stream_def r1)
  have wk: "writer_ok (ws ! k)" "w_err (ws ! k) = 0" using w k by (auto simp: all_fine_def)
  have e: "w_err w1 = 0 \<longleftrightarrow> w_err (vp8w.puts (ws ! k) xs) = 0" and v: "w_err w1 = 0 \<Longrightarrow> a = r \<and> w1 = vp8w.puts (ws ! k) xs"
    using m wk r1 unfolding writes_def by auto
  have upd: "put_all ws ?ys = ws[k := vp8w.puts (ws ! k) xs]"
    using w(1) k by (intro nth_equalityI) (auto simp: put_all_nth nth_list_update)
  have fine: "all_fine (ws[k := x]) \<longleftrightarrow> w_err x = 0" for x
    using w k by (auto simp: all_fine_def nth_list_update)
  show "all_fine (snd (run_state (on_stream k m) ws)) = all_fine (put_all ws ?ys)"
    unfolding on upd snd_conv fine using e .
  show "run_state (on_stream k m) ws = (r, put_all ws ?ys)" if "all_fine (snd (run_state (on_stream k m) ws))"
    using that v unfolding on upd snd_conv fine by simp
qed

section \<open>Reading\<close>

definition gets_all :: "Decoder list \<Rightarrow> (nat \<Rightarrow> (bool \<times> byte) list) \<Rightarrow> Decoder list \<Rightarrow> bool" where
  "gets_all ds xss ds' \<longleftrightarrow> length ds' = length ds \<and> (\<forall>k < length ds. decoder_inv (ds ! k) \<and> vp8r.gets (ds ! k) (xss k) (ds' ! k))"

definition reads_all :: "nat \<Rightarrow> (Decoder list, 'a) state \<Rightarrow> (nat \<Rightarrow> (bool \<times> byte) list) \<Rightarrow> 'a \<Rightarrow> bool" where
  "reads_all P m xss r \<longleftrightarrow> (\<forall>ds ds'. length ds = P \<longrightarrow> gets_all ds xss ds' \<longrightarrow> run_state m ds = (r, ds'))"

lemma gets_all_append:
  assumes "gets_all ds (\<lambda>k. xss k @ yss k) ds'"
  obtains ds1 where "gets_all ds xss ds1" "gets_all ds1 yss ds'"
proof -
  have "\<forall>k < length ds. \<exists>d1. vp8r.gets (ds ! k) (xss k) d1 \<and> vp8r.gets d1 (yss k) (ds' ! k)"
    using assms unfolding gets_all_def vp8r.gets_append by blast
  then obtain ds1 where "length ds1 = length ds" "\<forall>k < length ds. vp8r.gets (ds ! k) (xss k) (ds1 ! k) \<and> vp8r.gets (ds1 ! k) (yss k) (ds' ! k)"
    unfolding Skolem_list_nth by blast
  then show ?thesis using that assms gets_inv unfolding gets_all_def by metis
qed

lemma reads_all_return: "reads_all P (State_Monad.return a) (\<lambda>_. []) a"
  by (auto simp: reads_all_def gets_all_def intro: nth_equalityI)

lemma reads_all_bind: "reads_all P m xss a \<Longrightarrow> reads_all P (f a) yss r \<Longrightarrow> reads_all P (m \<bind> f) (\<lambda>k. xss k @ yss k) r"
  unfolding reads_all_def
proof (intro allI impI)
  assume m: "\<forall>ds ds'. length ds = P \<longrightarrow> gets_all ds xss ds' \<longrightarrow> run_state m ds = (a, ds')"
    and f: "\<forall>ds ds'. length ds = P \<longrightarrow> gets_all ds yss ds' \<longrightarrow> run_state (f a) ds = (r, ds')"
  fix ds ds' assume d: "length ds = P" "gets_all ds (\<lambda>k. xss k @ yss k) ds'"
  obtain ds1 where g: "gets_all ds xss ds1" "gets_all ds1 yss ds'" using d(2) by (rule gets_all_append)
  then have "length ds1 = P" using d(1) by (simp add: gets_all_def)
  then show "run_state (m \<bind> f) ds = (r, ds')" using m f d(1) g by simp
qed

lemma reads_all_on:
  assumes "reads_inv m xs r" "k < P"
  shows "reads_all P (on_stream k m) (\<lambda>i. if i = k then xs else []) r"
  unfolding reads_all_def
proof (intro allI impI)
  fix ds ds' assume d: "length ds = P" "gets_all ds (\<lambda>i. if i = k then xs else []) ds'"
  have k: "decoder_inv (ds ! k)" "vp8r.gets (ds ! k) xs (ds' ! k)" using d assms(2) by (auto simp: gets_all_def)
  have o: "ds' ! i = ds ! i" if "i < P" "i \<noteq> k" for i
  proof -
    have "vp8r.gets (ds ! i) [] (ds' ! i)" using d that by (auto simp: gets_all_def dest!: spec [of _ i])
    then show ?thesis by simp
  qed
  have len: "length ds' = P" using d by (simp add: gets_all_def)
  have "ds' = ds[k := ds' ! k]"
  proof (rule nth_equalityI)
    show "length ds' = length (ds[k := ds' ! k])" using len d(1) by simp
    fix i assume "i < length ds'"
    then show "ds' ! i = ds[k := ds' ! k] ! i" using o [of i] len d(1) by (cases "i = k") simp_all
  qed
  moreover have "run_state (on_stream k m) ds = (r, ds[k := ds' ! k])"
    using reads_inD [OF assms(1) k] by (simp add: on_stream_def)
  ultimately show "run_state (on_stream k m) ds = (r, ds')" by metis
qed

section \<open>Matching programs\<close>

definition codes_all :: "nat \<Rightarrow> (BoolWriter list, 'a) state \<Rightarrow> (Decoder list, 'b) state \<Rightarrow> 'a \<Rightarrow> 'b \<Rightarrow> bool" where
  "codes_all P m n r s \<longleftrightarrow> (\<exists>xss. writes_all P m xss r \<and> reads_all P n xss s)"

lemma codes_all_return: "codes_all P (State_Monad.return a) (State_Monad.return b) a b"
  unfolding codes_all_def by (rule exI [of _ "\<lambda>_. []"], rule conjI, rule writes_all_return, rule reads_all_return)

lemma codes_all_bind:
  assumes "codes_all P m n a b" "codes_all P (f a) (g b) r s" "\<And>a. sticky_all P (f a)"
  shows "codes_all P (m \<bind> f) (n \<bind> g) r s"
proof -
  obtain xss yss where x: "writes_all P m xss a" "reads_all P n xss b" and y: "writes_all P (f a) yss r" "reads_all P (g b) yss s"
    using assms(1,2) by (auto simp: codes_all_def)
  have "writes_all P (m \<bind> f) (\<lambda>k. xss k @ yss k) r" using x(1) y(1) assms(3) by (rule writes_all_bind)
  moreover have "reads_all P (n \<bind> g) (\<lambda>k. xss k @ yss k) s" using x(2) y(2) by (rule reads_all_bind)
  ultimately show ?thesis unfolding codes_all_def by (intro exI conjI)
qed

lemma codes_all_on:
  assumes "codes m n r s" "k < P"
  shows "codes_all P (on_stream k m) (on_stream k n) r s"
proof -
  obtain xs where x: "writes m xs r" "reads_inv n xs s" using assms(1) by (auto simp: codes_def)
  from writes_all_on [OF x(1) assms(2)] reads_all_on [OF x(2) assms(2)] show ?thesis
    unfolding codes_all_def by (intro exI conjI)
qed

lemma codes_all_sticky: "codes_all P m n r s \<Longrightarrow> sticky_all P m"
  by (auto simp: codes_all_def writes_all_def)

lemma codes_all_post: "codes_all P m n r s \<Longrightarrow> codes_all P (m \<bind> (\<lambda>a. State_Monad.return (f a))) (n \<bind> (\<lambda>b. State_Monad.return (g b))) (f r) (g s)"
  by (erule codes_all_bind [where b = s and f = "\<lambda>a. State_Monad.return (f a)"]) (rule codes_all_return sticky_all_return)+

text \<open>The whole of several messages, each with bytes behind it.\<close>

lemma codes_all_message:
  assumes "codes_all P m n r s" "length ws = P" "\<forall>k < P. \<exists>dst. ws ! k = Writer_Init dst"
    and "run_state m ws = (r', ws')" "\<forall>k < P. w_err (Finish (ws' ! k)) = 0"
  shows "r' = r \<and> length ws' = P \<and> (\<forall>k < P. \<exists>xs dst. ws ! k = Writer_Init dst \<and> ws' ! k = write_bools (ws ! k) xs) \<and>
    (\<exists>ds. run_state n (map (\<lambda>k. Decoder_Init (Bytes (Finish (ws' ! k)) @ tail k)) [0..<P]) = (s, ds) \<and>
      length ds = P \<and> (\<forall>k < P. Decoder_Err (ds ! k) = None))"
proof -
  obtain xss where w: "writes_all P m xss r" and rd: "reads_all P n xss s" using assms(1) by (auto simp: codes_all_def)
  have st: "sticky_all P m" using w by (simp add: writes_all_def)
  have init: "writer_ok (ws ! k)" "w_err (ws ! k) = 0" if "k < P" for k
    using assms(3) that Init_writer(2,3) by fastforce+
  then have fine: "all_fine ws" using assms(2) by (simp add: all_fine_def)
  have ok: "\<forall>k < P. writer_ok (ws ! k)" using init by blast
  have k': "length ws' = P" "\<And>k. k < P \<Longrightarrow> writer_ok (ws' ! k)"
    using sticky_allD [OF st assms(2) ok assms(4)] by blast+
  have "w_err (ws' ! k) = 0" if "k < P" for k
    using emitsD(2) [OF emits_Finish k'(2) [OF that]] assms(5) that vp8w.puts_failed by blast
  then have "all_fine ws'" using k'(1) by (simp add: all_fine_def)
  then have v: "r' = r" "ws' = put_all ws xss" using writes_allD(2) [OF w assms(2) ok fine assms(4)] by blast+
  have p: "write_bools w ys = vp8w.puts w ys" for w ys
    by (simp add: write_bools_def vp8w.puts_def writer_put_def)
  have each: "ws' ! k = write_bools (ws ! k) (xss k)" if "k < P" for k using that assms(2) by (simp add: v put_all_nth p)
  have "\<forall>k < P. \<exists>d'. vp8r.gets (Decoder_Init (Bytes (Finish (ws' ! k)) @ tail k)) (xss k) d' \<and> Decoder_Err d' = None"
  proof (intro allI impI)
    fix k assume k: "k < P"
    obtain dst where dst: "ws ! k = Writer_Init dst" using assms(3) k by blast
    show "\<exists>d'. vp8r.gets (Decoder_Init (Bytes (Finish (ws' ! k)) @ tail k)) (xss k) d' \<and> Decoder_Err d' = None"
      using message_split [of "\<lambda>w. write_bools w (xss k)" "xss k" "[]" dst "tail k"] emits_write_bools assms(5) k each [OF k] dst by auto
  qed
  then obtain ds where ds: "length ds = P"
    "\<forall>k < P. vp8r.gets (Decoder_Init (Bytes (Finish (ws' ! k)) @ tail k)) (xss k) (ds ! k) \<and> Decoder_Err (ds ! k) = None"
    unfolding Skolem_list_nth by blast
  have "gets_all (map (\<lambda>k. Decoder_Init (Bytes (Finish (ws' ! k)) @ tail k)) [0..<P]) xss ds"
    using ds decoder_reaches_inv [OF decoder_reaches.start] by (simp add: gets_all_def)
  then have "run_state n (map (\<lambda>k. Decoder_Init (Bytes (Finish (ws' ! k)) @ tail k)) [0..<P]) = (s, ds)"
    using rd by (simp add: reads_all_def)
  then show ?thesis using v(1) k'(1) each assms(3) ds by blast
qed

end
