(* ===== verification/Vp8_Tokens.thy ===== *)
theory Vp8_Tokens
  imports Vp8_Mv
begin

text \<open>
  What a coefficient token is on both sides: the classification of magnitudes, the branch paths
  of \<^verbatim>\<open>internal/vp8/encoder/probability.go\<close> and the extra bits of the categories. The bits of a
  block of coefficients (\<open>coef_bits\<close>) are the contract of the token writers and readers.
\<close>

section \<open>Classification\<close>

definition coeffAbsToken :: "nat \<Rightarrow> nat" where
  "coeffAbsToken i =
     (if i = 0 then ZeroToken else if i = 1 then OneToken else if i = 2 then TwoToken
      else if i = 3 then ThreeToken else if i = 4 then FourToken
      else if i \<le> 6 then DCTValCategory1 else if i \<le> 10 then DCTValCategory2
      else if i \<le> 18 then DCTValCategory3 else if i \<le> 34 then DCTValCategory4
      else if i \<le> 66 then DCTValCategory5 else DCTValCategory6)"

definition coeffAbsTokenLUT :: "nat list" where
  "coeffAbsTokenLUT = map coeffAbsToken [0..<DCTMaxValue + 1]"

lemma coeffAbsTokenLUT_nth: "m \<le> DCTMaxValue \<Longrightarrow> coeffAbsTokenLUT ! m = coeffAbsToken m"
proof -
  assume "m \<le> DCTMaxValue"
  then have "[0..<DCTMaxValue + 1] ! m = m" by (intro nth_upt [THEN trans]) simp_all
  then show ?thesis using \<open>m \<le> DCTMaxValue\<close> by (simp add: coeffAbsTokenLUT_def)
qed

text \<open>The walk of \<open>buildCoefficientTokenBranchPaths\<close>: nodes and bits on the way to a token.\<close>

fun branch_path :: "int \<Rightarrow> nat \<Rightarrow> nat \<Rightarrow> (nat \<times> bool) list" where
  "branch_path v node 0 = []"
| "branch_path v node (Suc bitIndex) =
     (let b = bit v bitIndex; next = CoefTree ! (node + of_bool b)
      in (node div 2, b) # (if next \<le> 0 then [] else branch_path v (nat next) bitIndex))"

definition coefficientTokenBranchPaths :: "(nat \<times> bool) list list" where
  "coefficientTokenBranchPaths = map (\<lambda>e. branch_path (Value e) 0 (Len e)) CoefEncodings"

lemma branch_paths: "coefficientTokenBranchPaths =
   [[(0, True), (1, False)],
    [(0, True), (1, True), (2, False)],
    [(0, True), (1, True), (2, True), (3, False), (4, False)],
    [(0, True), (1, True), (2, True), (3, False), (4, True), (5, False)],
    [(0, True), (1, True), (2, True), (3, False), (4, True), (5, True)],
    [(0, True), (1, True), (2, True), (3, True), (6, False), (7, False)],
    [(0, True), (1, True), (2, True), (3, True), (6, False), (7, True)],
    [(0, True), (1, True), (2, True), (3, True), (6, True), (8, False), (9, False)],
    [(0, True), (1, True), (2, True), (3, True), (6, True), (8, False), (9, True)],
    [(0, True), (1, True), (2, True), (3, True), (6, True), (8, True), (10, False)],
    [(0, True), (1, True), (2, True), (3, True), (6, True), (8, True), (10, True)],
    [(0, False)]]"
  by code_simp

record coefficientExtraBitEncoding =
  x_baseVal :: int
  x_probs :: "byte list"
  x_len :: nat

definition coefficientExtraBitEncodings :: "coefficientExtraBitEncoding list" where
  "coefficientExtraBitEncodings =
     map (\<lambda>e. \<lparr>x_baseVal = BaseVal e, x_probs = Prob e, x_len = ELen e\<rparr>) ExtraBitsTable"

section \<open>The bits of tokens\<close>

definition path_bits :: "byte list \<Rightarrow> nat \<Rightarrow> nat \<Rightarrow> (bool \<times> byte) list" where
  "path_bits p token start = map (\<lambda>(n, b). (b, p ! n)) (drop start (coefficientTokenBranchPaths ! token))"

definition extra_bits :: "nat \<Rightarrow> int \<Rightarrow> (bool \<times> byte) list" where
  "extra_bits token mag =
     (let e = coefficientExtraBitEncodings ! token
      in map (\<lambda>i. (bit (mag - x_baseVal e) (x_len e - 1 - i), x_probs e ! i)) [0..<x_len e])"

text \<open>A coefficient of value \<open>c\<close> in a probability row: path, extra bits and sign.\<close>

definition token_bits :: "byte list \<Rightarrow> int \<Rightarrow> bool \<Rightarrow> (bool \<times> byte) list" where
  "token_bits p c skip =
     (let token = coeffAbsToken (nat \<bar>c\<bar>) in
      path_bits p token (of_bool skip) @
        (if token = ZeroToken then [] else extra_bits token \<bar>c\<bar> @ [(c < 0, 128)]))"

text \<open>
  The coefficients \<open>cs\<close> of the scan positions from \<open>pos\<close>, then the end of block unless all
  sixteen positions are coded. After a zero no end of block can follow, so its node is skipped.
\<close>

fun coef_bits :: "byte list list list \<Rightarrow> nat \<Rightarrow> nat \<Rightarrow> nat \<Rightarrow> bool \<Rightarrow> int list \<Rightarrow> (bool \<times> byte) list" where
  "coef_bits bt pos band ctx skip [] = (if pos < 16 then [(False, bt ! band ! ctx ! 0)] else [])"
| "coef_bits bt pos band ctx skip (c # cs) =
     (let class = PrevTokenClass ! coeffAbsToken (nat \<bar>c\<bar>)
      in token_bits (bt ! band ! ctx) c skip
         @ coef_bits bt (pos + 1) (CoefBandsTable ! (pos + 1)) class (class = 0) cs)"

text \<open>A block from scan position \<open>skipDC\<close> whose coded coefficients are \<open>cs\<close>.\<close>

definition block_bits :: "byte list list list \<Rightarrow> nat \<Rightarrow> nat \<Rightarrow> int list \<Rightarrow> (bool \<times> byte) list" where
  "block_bits bt ctx skipDC cs = coef_bits bt skipDC skipDC ctx False cs"

lemma coeffAbsToken_cases:
  assumes "1 \<le> m" "m \<le> DCTMaxValue"
  shows "m \<le> 4 \<and> coeffAbsToken m = m
    \<or> 5 \<le> m \<and> m \<le> 6 \<and> coeffAbsToken m = 5 \<or> 7 \<le> m \<and> m \<le> 10 \<and> coeffAbsToken m = 6
    \<or> 11 \<le> m \<and> m \<le> 18 \<and> coeffAbsToken m = 7 \<or> 19 \<le> m \<and> m \<le> 34 \<and> coeffAbsToken m = 8
    \<or> 35 \<le> m \<and> m \<le> 66 \<and> coeffAbsToken m = 9 \<or> 67 \<le> m \<and> m \<le> DCTMaxValue \<and> coeffAbsToken m = 10"
  using assms unfolding coeffAbsToken_def by (auto split: if_splits)

lemma coeffAbsToken_zero: "coeffAbsToken m = ZeroToken \<longleftrightarrow> m = 0"
  by (simp add: coeffAbsToken_def)

lemma class_zero: "m \<le> DCTMaxValue \<Longrightarrow> PrevTokenClass ! coeffAbsToken m = 0 \<longleftrightarrow> m = 0"
  by (auto simp: coeffAbsToken_def PrevTokenClass_def)

end
