(* ===== verification/Vp8_Token_Reader.thy ===== *)
theory Vp8_Token_Reader
  imports Vp8_Tokens
begin

text \<open>
  The token readers of \<^verbatim>\<open>internal/vp8/boolcoder/decoder.go\<close>: one block
  (\<open>ReadVP8BlockCoeffs\<close>) and one macroblock (\<open>ReadVP8MacroblockCoeffs\<close>). The code keeps the
  reader registers in locals and inlines \<open>ReadBool\<close>; its sign reader always shifts by one,
  which is right because the range is at most 254 after a first bit (\<open>read_sign_ReadBit\<close>).
\<close>

section \<open>Operations\<close>

definition read_sign :: "(Decoder, bool) state" where
  "read_sign = State (\<lambda>d.
     let rng0 = d_rng d;
         split = drop_bit 1 (rng0 + 1);
         d = (if d_count d < 0 then fill d else d);
         bigsplit = push_bit 56 (ucast split) :: u64;
         b = (d_value d \<ge> bigsplit);
         value = (if b then d_value d - bigsplit else d_value d);
         nextRange = (if b then rng0 - split else split)
     in (b, d\<lparr>d_value := push_bit 1 value, d_count := d_count d - 1, d_rng := push_bit 1 nextRange\<rparr>))"

definition readSignedCoeff :: "int \<Rightarrow> (Decoder, i16) state" where
  "readSignedCoeff coeff = do {
     b \<leftarrow> read_sign;
     (let mask = (if b then -1 else 0); v = word_of_int coeff
      in State_Monad.return ((v XOR mask) - mask))
   }"

fun read_category_loop :: "int \<Rightarrow> byte list \<Rightarrow> (Decoder, int) state" where
  "read_category_loop v [] = State_Monad.return v"
| "read_category_loop v (prob # ps) = do {
     b \<leftarrow> ReadBool prob;
     read_category_loop (v + v + of_bool b) ps
   }"

definition readTokenCategory :: "nat \<Rightarrow> (Decoder, int) state" where
  "readTokenCategory cat = do {
     v \<leftarrow> read_category_loop 0 (case cat of 0 \<Rightarrow> Cat3Prob | Suc 0 \<Rightarrow> Cat4Prob
       | Suc (Suc 0) \<Rightarrow> Cat5Prob | _ \<Rightarrow> Cat6Prob);
     State_Monad.return (v + 3 + push_bit cat 8)
   }"

text \<open>The magnitude and token class of a coefficient known not to be zero, from node 2 on.\<close>

definition read_magnitude :: "byte list \<Rightarrow> (Decoder, nat \<times> int) state" where
  "read_magnitude p = do {
     b2 \<leftarrow> ReadBool (p ! 2);
     if \<not> b2 then State_Monad.return (1, 1)
     else do {
       b3 \<leftarrow> ReadBool (p ! 3);
       v \<leftarrow> (if \<not> b3 then do {
               b4 \<leftarrow> ReadBool (p ! 4);
               if \<not> b4 then State_Monad.return 2
               else do { b5 \<leftarrow> ReadBool (p ! 5); State_Monad.return (3 + of_bool b5) }
             } else do {
               b6 \<leftarrow> ReadBool (p ! 6);
               if \<not> b6 then do {
                 b7 \<leftarrow> ReadBool (p ! 7);
                 if \<not> b7 then do { b \<leftarrow> ReadBool 159; State_Monad.return (5 + of_bool b) }
                 else do {
                   b \<leftarrow> ReadBool 165;
                   b' \<leftarrow> ReadBool 145;
                   State_Monad.return (7 + 2 * of_bool b + of_bool b')
                 }
               } else do {
                 bit1 \<leftarrow> ReadBool (p ! 8);
                 bit0 \<leftarrow> ReadBool (p ! (9 + of_bool bit1));
                 readTokenCategory (2 * of_bool bit1 + of_bool bit0)
               }
             });
       State_Monad.return (2, v)
     }
   }"

text \<open>
  The token walk, on the number of scan positions left: \<open>n = 16 - left\<close> after the code's
  \<open>n++\<close>. It returns the position after the last token and the coefficients. The row \<open>p\<close> is
  the one of the position; its end-of-block node has been read.
\<close>

fun block_walk :: "byte list list list \<Rightarrow> byte list \<Rightarrow> i16 list \<Rightarrow> nat \<Rightarrow> (Decoder, nat \<times> i16 list) state" where
  "block_walk bt p out 0 = State_Monad.return (16, out)"
| "block_walk bt p out (Suc left) = (let n = 16 - left in do {
     b1 \<leftarrow> ReadBool (p ! 1);
     if \<not> b1 then
       (if n = 16 then State_Monad.return (16, out)
        else block_walk bt (bt ! (CoefBandsTable ! n) ! 0) out left)
     else do {
       cv \<leftarrow> read_magnitude p;
       s \<leftarrow> readSignedCoeff (snd cv);
       (let out = out[DefaultZigZag1D ! (n - 1) := s] in
        if n = 16 then State_Monad.return (16, out)
        else (let p = bt ! (CoefBandsTable ! n) ! fst cv in do {
          b0 \<leftarrow> ReadBool (p ! 0);
          if \<not> b0 then State_Monad.return (n, out)
          else block_walk bt p out left
        }))
     }
   })"

definition ReadVP8BlockCoeffs ::
  "coef_probs \<Rightarrow> nat \<Rightarrow> nat \<Rightarrow> nat \<Rightarrow> i16 list \<Rightarrow> (Decoder, nat \<times> i16 list) state" where
  "ReadVP8BlockCoeffs probs blockType ctx n out =
     (let bt = probs ! blockType; p = bt ! n ! ctx in do {
        b0 \<leftarrow> ReadBool (p ! 0);
        if \<not> b0 then State_Monad.return (0, out)
        else block_walk bt p out (16 - n)
      })"

definition DecodeBlockCoeffs ::
  "coef_probs \<Rightarrow> nat \<Rightarrow> nat \<Rightarrow> nat \<Rightarrow> i16 list \<Rightarrow> (Decoder, nat \<times> i16 list) state" where
  "DecodeBlockCoeffs probs blockType ctx n out = ReadVP8BlockCoeffs probs blockType ctx n out"

section \<open>Signs and magnitudes\<close>

lemma read_sign_ReadBit:
  assumes "reader_warm d"
  shows "run_state read_sign d = run_state ReadBit d"
proof -
  define sp where "sp = drop_bit 1 (d_rng d + 1)"
  have R: "128 \<le> unat (d_rng d)" "unat (d_rng d) \<le> 254" using assms by (auto simp: reader_warm_def)
  have "unat (d_rng d + 1) = unat (d_rng d) + 1" using unat_add_nowrap [of "d_rng d" 1] R by simp
  then have sp: "unat sp = (unat (d_rng d) + 1) div 2" by (simp add: sp_def unat_drop_bit)
  have one: "BoolNorm ! unat (ucast rng :: byte) = 1" if "64 \<le> unat rng" "unat rng \<le> 127" for rng :: u32
    using that BoolNorm_norm [of "unat rng"] by (simp add: unat_ucast_byte norm_def)
  have s1: "BoolNorm ! unat (ucast sp :: byte) = 1" using sp R by (intro one) simp_all
  have "unat (d_rng d - sp) = unat (d_rng d) - unat sp"
    using sp R by (intro unat_sub_nowrap) simp
  then have s2: "BoolNorm ! unat (ucast (d_rng d - sp) :: byte) = 1" using sp R by (intro one) simp_all
  have dec: "(let bigsplit = push_bit 56 (ucast sp) :: u64; b = (d_value e \<ge> bigsplit);
        v = (if b then d_value e - bigsplit else d_value e);
        nextRange = (if b then d_rng d - sp else sp)
     in (b, e\<lparr>d_value := push_bit 1 v, d_count := d_count e - 1, d_rng := push_bit 1 nextRange\<rparr>))
     = decide sp e" if "d_rng e = d_rng d" for e
    using that s1 s2 by (simp add: decide_def Let_def)
  have "d_rng (if d_count d < 0 then fill d else d) = d_rng d" by simp
  from dec [OF this] show ?thesis
    unfolding read_sign_def ReadBit_def Let_def state.sel sp_def [symmetric] .
qed

lemma reads_warm_ReadBool_step:
  "reads_in reader_warm (f b) ys r \<Longrightarrow> reads_in reader_warm (ReadBool p \<bind> f) ((b, p) # ys) r"
  using reads_bind_warm [OF reads_warm [OF reads_ReadBool]] by fastforce

lemma reads_read_sign: "reads_in reader_warm read_sign [(b, 128)] b"
  using reads_warm [OF reads_ReadBit [of b]] by (simp add: reads_in_def read_sign_ReadBit)

lemma signed_of_mask:
  assumes "0 \<le> m"
  shows "((word_of_int m :: i16) XOR (if neg then -1 else 0)) - (if neg then -1 else 0)
    = word_of_int (if neg then - m else m)"
  by (simp add: not_eq_complement)

lemma reads_readSignedCoeff:
  assumes "0 \<le> m"
  shows "reads_in reader_warm (readSignedCoeff m) [(neg, 128)] (word_of_int (if neg then - m else m))"
proof -
  have "reads_in reader_warm (let mask = (if neg then -1 else 0); v = word_of_int m
      in State_Monad.return ((v XOR mask) - mask)) [] (word_of_int (if neg then - m else m) :: i16)"
    using signed_of_mask [OF assms, of neg] by (simp add: reads_return Let_def)
  then show ?thesis
    unfolding readSignedCoeff_def using reads_bind_warm [OF reads_read_sign] by fastforce
qed

lemma reads_category_loop:
  "reads_in reader_warm (read_category_loop v ps)
     (map (\<lambda>i. (bit x (length ps - 1 - i), ps ! i)) [0..<length ps]) (v * 2 ^ length ps + take_bit (length ps) x)"
proof (induction ps arbitrary: v)
  case Nil
  then show ?case by (simp add: reads_return)
next
  case (Cons p ps)
  have m: "map (\<lambda>i. (bit x (length (p # ps) - 1 - i), (p # ps) ! i)) [0..<length (p # ps)]
      = (bit x (length ps), p) # map (\<lambda>i. (bit x (length ps - 1 - i), ps ! i)) [0..<length ps]"
    unfolding length_Cons by (simp add: map_upt_Suc del: upt_Suc)
  have "take_bit (Suc (length ps)) x = of_bool (bit x (length ps)) * 2 ^ length ps + take_bit (length ps) x"
    by (simp add: take_bit_Suc_from_most)
  then have v: "v * 2 ^ length (p # ps) + take_bit (length (p # ps)) x
      = (v + v + of_bool (bit x (length ps))) * 2 ^ length ps + take_bit (length ps) x"
    by (simp add: algebra_simps)
  show ?case
    unfolding m v read_category_loop.simps
    by (rule reads_warm_ReadBool_step) (rule Cons)
qed

lemma extra_encodings:
  "coefficientExtraBitEncodings ! 5 = \<lparr>x_baseVal = 5, x_probs = [159], x_len = 1\<rparr>"
  "coefficientExtraBitEncodings ! 6 = \<lparr>x_baseVal = 7, x_probs = [165, 145], x_len = 2\<rparr>"
  "coefficientExtraBitEncodings ! 7 = \<lparr>x_baseVal = 11, x_probs = Cat3Prob, x_len = 3\<rparr>"
  "coefficientExtraBitEncodings ! 8 = \<lparr>x_baseVal = 19, x_probs = Cat4Prob, x_len = 4\<rparr>"
  "coefficientExtraBitEncodings ! 9 = \<lparr>x_baseVal = 35, x_probs = Cat5Prob, x_len = 5\<rparr>"
  "coefficientExtraBitEncodings ! 10 = \<lparr>x_baseVal = 67, x_probs = Cat6Prob, x_len = 11\<rparr>"
  by (simp_all add: coefficientExtraBitEncodings_def ExtraBitsTable_def Cat1Prob_def Cat2Prob_def)

lemma extra_bits_none: "token \<le> 4 \<Longrightarrow> extra_bits token m = []"
proof -
  assume "token \<le> 4"
  then have "token \<in> {0, 1, 2, 3, 4}" by auto
  then show ?thesis
    by (auto simp: extra_bits_def coefficientExtraBitEncodings_def ExtraBitsTable_def)
qed

lemma reads_readTokenCategory:
  assumes "ps = (case cat of 0 \<Rightarrow> Cat3Prob | Suc 0 \<Rightarrow> Cat4Prob | Suc (Suc 0) \<Rightarrow> Cat5Prob | _ \<Rightarrow> Cat6Prob)"
    and e: "coefficientExtraBitEncodings ! (7 + cat) = \<lparr>x_baseVal = 3 + push_bit cat 8, x_probs = ps, x_len = length ps\<rparr>"
    and m: "3 + push_bit cat 8 \<le> m" "m - (3 + push_bit cat 8) < 2 ^ length ps"
  shows "reads_in reader_warm (readTokenCategory cat) (extra_bits (7 + cat) m) m"
proof -
  define off where "off = m - (3 + push_bit cat 8)"
  have bits: "extra_bits (7 + cat) m = map (\<lambda>i. (bit off (length ps - 1 - i), ps ! i)) [0..<length ps]"
    by (simp add: extra_bits_def e Let_def off_def)
  have "take_bit (length ps) off = off" using m by (simp add: off_def take_bit_eq_mod)
  then have loop: "reads_in reader_warm (read_category_loop 0 ps) (extra_bits (7 + cat) m) off"
    unfolding bits using reads_category_loop [of 0 ps off] by simp
  have "reads_in reader_warm (State_Monad.return (off + 3 + push_bit cat 8)) [] m"
    by (simp add: off_def reads_return)
  then show ?thesis
    unfolding readTokenCategory_def assms(1) [symmetric] using reads_bind_warm [OF loop] by fastforce
qed

lemma reads_category_then:
  assumes "reads_in reader_warm (readTokenCategory cat) xs m"
  shows "reads_in reader_warm (readTokenCategory cat \<bind> (\<lambda>v. State_Monad.return (2 :: nat, v))) xs (2, m)"
  using reads_bind_warm [OF assms reads_return] by simp

text \<open>The readers of a token's bits after its first two nodes, by token.\<close>

lemma reads_read_magnitude:
  assumes "1 \<le> m" "m \<le> DCTMaxValue"
  defines "token \<equiv> coeffAbsToken m"
  shows "reads_in reader_warm (read_magnitude p) (path_bits p token 2 @ extra_bits token (int m))
    (PrevTokenClass ! token, int m)"
proof -
  have cats: "length Cat3Prob = 3" "length Cat4Prob = 4" "length Cat5Prob = 5" "length Cat6Prob = 11"
    by (simp_all add: Cat3Prob_def Cat4Prob_def Cat5Prob_def Cat6Prob_def)
  note defs = path_bits_def branch_paths read_magnitude_def PrevTokenClass_def
    reads_warm_ReadBool_step reads_return
  have small: "?thesis" if "m \<le> 4" "token = m"
  proof -
    have "m \<in> {1, 2, 3, 4}" using assms(1) that(1) by auto
    then show ?thesis using that(2) by (auto simp: defs extra_bits_none)
  qed
  have one: "?thesis" if "5 \<le> m" "m \<le> 6" "token = 5"
  proof -
    have "m \<in> {5, 6}" using that by auto
    then show ?thesis using that(3) by (auto simp: defs extra_bits_def extra_encodings bit_0)
  qed
  have two: "?thesis" if "7 \<le> m" "m \<le> 10" "token = 6"
  proof -
    have "m \<in> {7, 8, 9, 10}" using that by auto
    then show ?thesis using that(3) by (auto simp: defs extra_bits_def extra_encodings bit_0 bit_Suc upt_rec)
  qed
  have cat: "?thesis" if "path_bits p token 2 = [(True, p ! 2), (True, p ! 3), (True, p ! 6), (b1, p ! 8), (b0, p ! (9 + of_bool b1))]"
    "PrevTokenClass ! token = 2"
    "reads_in reader_warm (readTokenCategory (2 * of_bool b1 + of_bool b0)) (extra_bits token (int m)) (int m)" for b1 b0
    unfolding read_magnitude_def that(1,2) append_Cons append_Nil
    by (rule reads_warm_ReadBool_step, simp only: not_True_eq_False if_False State_Monad.bind_assoc)+
      (rule reads_warm_ReadBool_step, rule reads_warm_ReadBool_step, rule reads_category_then, rule that(3))
  show ?thesis
    using coeffAbsToken_cases [OF assms(1,2), folded token_def]
  proof (elim disjE conjE)
    assume a: "11 \<le> m" "m \<le> 18" "token = 7"
    show ?thesis
      by (rule cat [of False False])
        (use a cats reads_readTokenCategory [of Cat3Prob 0 "int m"] in
          \<open>simp_all add: path_bits_def branch_paths PrevTokenClass_def extra_encodings numeral_2_eq_2 numeral_3_eq_3\<close>)
  next
    assume a: "19 \<le> m" "m \<le> 34" "token = 8"
    show ?thesis
      by (rule cat [of False True])
        (use a cats reads_readTokenCategory [of Cat4Prob 1 "int m"] in
          \<open>simp_all add: path_bits_def branch_paths PrevTokenClass_def extra_encodings numeral_2_eq_2 numeral_3_eq_3\<close>)
  next
    assume a: "35 \<le> m" "m \<le> 66" "token = 9"
    show ?thesis
      by (rule cat [of True False])
        (use a cats reads_readTokenCategory [of Cat5Prob 2 "int m"] in
          \<open>simp_all add: path_bits_def branch_paths PrevTokenClass_def extra_encodings numeral_2_eq_2 numeral_3_eq_3\<close>)
  next
    assume a: "67 \<le> m" "m \<le> DCTMaxValue" "token = 10"
    show ?thesis
      by (rule cat [of True True])
        (use a cats reads_readTokenCategory [of Cat6Prob 3 "int m"] in
          \<open>simp_all add: path_bits_def branch_paths PrevTokenClass_def extra_encodings numeral_2_eq_2 numeral_3_eq_3\<close>)
  qed (use small one two in blast)+
qed

section \<open>The walk reads the bits of a block\<close>

text \<open>The coefficients stored at their raster positions.\<close>

fun put_scan :: "i16 list \<Rightarrow> nat \<Rightarrow> int list \<Rightarrow> i16 list" where
  "put_scan out pos [] = out"
| "put_scan out pos (c # cs) =
     put_scan (if c = 0 then out else out[DefaultZigZag1D ! pos := word_of_int c]) (pos + 1) cs"

lemma token_range:
  assumes "\<bar>c\<bar> \<le> int DCTMaxValue"
  shows "coeffAbsToken (nat \<bar>c\<bar>) \<le> 10"
  by (simp add: coeffAbsToken_def)

lemma path_head:
  assumes "token \<le> 10"
  shows "path_bits p token 0 = (True, p ! 0) # path_bits p token 1"
    and "token \<noteq> 0 \<Longrightarrow> path_bits p token 1 = (True, p ! 1) # path_bits p token 2"
    and "token = 0 \<Longrightarrow> path_bits p token 1 = [(False, p ! 1)]"
proof -
  have "token = 0 \<or> token = 1 \<or> token = 2 \<or> token = 3 \<or> token = 4 \<or> token = 5 \<or> token = 6
    \<or> token = 7 \<or> token = 8 \<or> token = 9 \<or> token = 10" using assms by arith
  then show "path_bits p token 0 = (True, p ! 0) # path_bits p token 1"
    "token \<noteq> 0 \<Longrightarrow> path_bits p token 1 = (True, p ! 1) # path_bits p token 2"
    "token = 0 \<Longrightarrow> path_bits p token 1 = [(False, p ! 1)]"
    by (elim disjE; simp add: path_bits_def branch_paths)+
qed

lemma coef_bits_unskipped:
  assumes "\<bar>c\<bar> \<le> int DCTMaxValue"
  shows "coef_bits bt pos band ctx False (c # cs) = (True, bt ! band ! ctx ! 0) # coef_bits bt pos band ctx True (c # cs)"
  using path_head(1) [OF token_range [OF assms], of "bt ! band ! ctx"] by (simp add: Let_def token_bits_def)

lemma token_bits_zero: "token_bits p 0 True = [(False, p ! 1)]"
  using path_head(3) [of 0 p] by (simp add: token_bits_def coeffAbsToken_def)

lemma token_bits_nonzero:
  assumes "c \<noteq> 0" "\<bar>c\<bar> \<le> int DCTMaxValue"
  shows "token_bits p c True = (True, p ! 1) # (path_bits p (coeffAbsToken (nat \<bar>c\<bar>)) 2
    @ extra_bits (coeffAbsToken (nat \<bar>c\<bar>)) \<bar>c\<bar>) @ [(c < 0, 128)]"
  using path_head(2) [OF token_range [OF assms(2)]] coeffAbsToken_zero [of "nat \<bar>c\<bar>"] assms(1)
  by (simp add: token_bits_def Let_def)

text \<open>A nonzero coefficient: magnitude and sign.\<close>

lemma reads_coefficient:
  assumes "c \<noteq> 0" "\<bar>c\<bar> \<le> int DCTMaxValue"
    and k: "reads_in reader_warm (k (PrevTokenClass ! coeffAbsToken (nat \<bar>c\<bar>)) (word_of_int c)) ys r"
  shows "reads_in reader_warm (read_magnitude p \<bind> (\<lambda>cv. readSignedCoeff (snd cv) \<bind> (\<lambda>s. k (fst cv) s)))
    ((path_bits p (coeffAbsToken (nat \<bar>c\<bar>)) 2 @ extra_bits (coeffAbsToken (nat \<bar>c\<bar>)) \<bar>c\<bar>) @ ([(c < 0, 128)] @ ys)) r"
proof (rule reads_bind_warm)
  have n: "int (nat \<bar>c\<bar>) = \<bar>c\<bar>" "1 \<le> nat \<bar>c\<bar>" "nat \<bar>c\<bar> \<le> DCTMaxValue" using assms(1,2) by auto
  show "reads_in reader_warm (read_magnitude p)
    (path_bits p (coeffAbsToken (nat \<bar>c\<bar>)) 2 @ extra_bits (coeffAbsToken (nat \<bar>c\<bar>)) \<bar>c\<bar>)
    (PrevTokenClass ! coeffAbsToken (nat \<bar>c\<bar>), \<bar>c\<bar>)"
    using reads_read_magnitude [OF n(2,3), of p] by (simp only: n(1))
  have "(if c < 0 then - \<bar>c\<bar> else \<bar>c\<bar>) = c" by simp
  then show "reads_in reader_warm (readSignedCoeff (snd (PrevTokenClass ! coeffAbsToken (nat \<bar>c\<bar>), \<bar>c\<bar>))
      \<bind> (\<lambda>s. k (fst (PrevTokenClass ! coeffAbsToken (nat \<bar>c\<bar>), \<bar>c\<bar>)) s)) ([(c < 0, 128)] @ ys) r"
    using reads_bind_warm [OF reads_readSignedCoeff [of "\<bar>c\<bar>" "c < 0"], of
        "\<lambda>s. k (PrevTokenClass ! coeffAbsToken (nat \<bar>c\<bar>)) s" ys r] k
    by (simp only: snd_conv fst_conv abs_ge_zero)
qed

lemma reads_block_walk:
  assumes "cs \<noteq> []" "pos + length cs \<le> 16" "\<forall>c \<in> set cs. \<bar>c\<bar> \<le> int DCTMaxValue"
    and "last cs \<noteq> 0 \<or> pos + length cs = 16"
  shows "reads_in reader_warm (block_walk bt (bt ! band ! ctx) out (16 - pos))
    (coef_bits bt pos band ctx True cs) (pos + length cs, put_scan out pos cs)"
  using assms
proof (induction cs arbitrary: pos band ctx out)
  case Nil
  then show ?case by simp
next
  case (Cons c cs)
  define p where "p = bt ! band ! ctx"
  define token where "token = coeffAbsToken (nat \<bar>c\<bar>)"
  define tcls where "tcls = PrevTokenClass ! token"
  define band' where "band' = CoefBandsTable ! (pos + 1)"
  have left: "16 - pos = Suc (15 - pos)" "16 - (15 - pos) = pos + 1" "15 - pos = 16 - (pos + 1)"
    using Cons.prems(2) by auto
  have c: "\<bar>c\<bar> \<le> int DCTMaxValue" using Cons.prems(3) by simp
  have ih: "reads_in reader_warm (block_walk bt (bt ! band' ! cx) o' (15 - pos))
      (coef_bits bt (pos + 1) band' cx True cs) (pos + length (c # cs), put_scan o' (pos + 1) cs)"
    if "cs \<noteq> []" for cx o'
    unfolding left(3) using Cons.IH [OF that, of "pos + 1" band' cx o'] Cons.prems that by simp
  show ?case
  proof (cases "c = 0")
    case True
    then have cls: "tcls = 0" by (simp add: tcls_def token_def coeffAbsToken_def PrevTokenClass_def)
    have bits: "coef_bits bt pos band ctx True (c # cs) = (False, p ! 1) # coef_bits bt (pos + 1) band' 0 True cs"
    proof -
      have "PrevTokenClass ! coeffAbsToken 0 = 0" by (simp add: coeffAbsToken_def PrevTokenClass_def)
      then show ?thesis
        using token_bits_zero [of p] True by (simp add: Let_def band'_def p_def [symmetric])
    qed
    show ?thesis
    proof (cases "pos + 1 = 16")
      case end_scan: True
      then have "cs = []" using Cons.prems(2) by simp
      then show ?thesis
        using end_scan True unfolding bits left(1) p_def [symmetric] block_walk.simps left(2) Let_def
        by (intro reads_warm_ReadBool_step) (simp add: reads_return)
    next
      case False
      then have "cs \<noteq> []" using Cons.prems(4) True by auto
      from ih [OF this, of 0 out] show ?thesis
        using False True unfolding bits left(1) p_def [symmetric] block_walk.simps left(2) Let_def band'_def [symmetric]
        by (intro reads_warm_ReadBool_step) simp
    qed
  next
    case nz: False
    have cls: "tcls \<noteq> 0"
      using class_zero [of "nat \<bar>c\<bar>"] nz c by (simp add: tcls_def token_def)
    define out' where "out' = out[DefaultZigZag1D ! pos := word_of_int c]"
    have bits: "coef_bits bt pos band ctx True (c # cs) = (True, p ! 1) # ((path_bits p token 2
        @ extra_bits token \<bar>c\<bar>) @ ([(c < 0, 128)] @ coef_bits bt (pos + 1) band' tcls False cs))"
      using token_bits_nonzero [OF nz c, of p] cls
      by (simp add: Let_def band'_def p_def [symmetric] tcls_def [symmetric] token_def [symmetric])
    have put: "put_scan out pos (c # cs) = put_scan out' (pos + 1) cs" using nz by (simp add: out'_def)
    have rest: "reads_in reader_warm
      (if pos + 1 = 16 then State_Monad.return (16, out')
       else (let p = bt ! band' ! tcls in do {
          b0 \<leftarrow> ReadBool (p ! 0);
          if \<not> b0 then State_Monad.return (pos + 1, out')
          else block_walk bt p out' (15 - pos) }))
      (coef_bits bt (pos + 1) band' tcls False cs) (pos + length (c # cs), put_scan out' (pos + 1) cs)"
    proof (cases "cs = []")
      case True
      then show ?thesis
        using Cons.prems(2) by (auto simp: Let_def reads_return intro!: reads_warm_ReadBool_step)
    next
      case False
      then obtain c' cs' where cs: "cs = c' # cs'" by (cases cs) auto
      have ne: "pos + 1 \<noteq> 16" using Cons.prems(2) cs by auto
      have u: "coef_bits bt (pos + 1) band' tcls False cs
          = (True, bt ! band' ! tcls ! 0) # coef_bits bt (pos + 1) band' tcls True cs"
        unfolding cs using Cons.prems(3) cs by (intro coef_bits_unskipped) simp
      show ?thesis
        unfolding u if_not_P [OF ne] Let_def
        by (rule reads_warm_ReadBool_step) (use ih [OF False, of tcls out'] in simp)
    qed
    have n1: "pos + 1 - 1 = pos" by simp
    show ?thesis
      unfolding bits put left(1) p_def [symmetric] block_walk.simps left(2) Let_def n1
      by (rule reads_warm_ReadBool_step, simp only: not_True_eq_False if_False)
        (rule reads_coefficient [OF nz c, folded token_def], use rest in \<open>simp only: tcls_def band'_def out'_def Let_def\<close>)
  qed
qed

text \<open>A whole block: immediately ended, or walked from its first position.\<close>

lemma reads_ReadVP8BlockCoeffs_empty:
  assumes "n \<le> 1"
  shows "reads (ReadVP8BlockCoeffs probs blockType ctx n out) (block_bits (probs ! blockType) ctx n []) (0, out)"
  using assms by (auto simp: ReadVP8BlockCoeffs_def block_bits_def Let_def reads_return intro!: reads_ReadBool_step)

lemma reads_ReadVP8BlockCoeffs:
  assumes "cs \<noteq> []" "n + length cs \<le> 16" "\<forall>c \<in> set cs. \<bar>c\<bar> \<le> int DCTMaxValue"
    and "last cs \<noteq> 0 \<or> n + length cs = 16"
  shows "reads (ReadVP8BlockCoeffs probs blockType ctx n out) (block_bits (probs ! blockType) ctx n cs)
    (n + length cs, put_scan out n cs)"
proof -
  define bt where "bt = probs ! blockType"
  obtain c cs' where cs: "cs = c # cs'" using assms(1) by (cases cs) auto
  have u: "block_bits bt ctx n cs = [(True, bt ! n ! ctx ! 0)] @ coef_bits bt n n ctx True cs"
    unfolding block_bits_def cs using coef_bits_unskipped [of c bt n n ctx cs'] assms(3) cs by simp
  have walk: "reads_in reader_warm (if \<not> True then State_Monad.return (0, out)
      else block_walk bt (bt ! n ! ctx) out (16 - n)) (coef_bits bt n n ctx True cs) (n + length cs, put_scan out n cs)"
    using reads_block_walk [OF assms, of bt n ctx out] by simp
  show ?thesis
    unfolding bt_def [symmetric] u ReadVP8BlockCoeffs_def Let_def
    by (rule reads_bind_start [OF reads_ReadBool]) (use walk in \<open>simp_all\<close>)
qed

end
