(* ===== verification/Vp8_Token_Writer.thy ===== *)
theory Vp8_Token_Writer
  imports Vp8_Tokens
begin

text \<open>
  The token packer of \<^verbatim>\<open>internal/vp8/encoder/tokenpack.go\<close>. It keeps the writer registers in
  locals: the state of the loop is the writer with its local values and \<open>sp\<close>, the position the
  struct holds meanwhile, which only a carry brings up to date. The normalisation is
  \<open>bits.LeadingZeros8\<close>, the sign a fixed shift by one, and an end of block that needs neither a
  shift nor a byte is coded by its range alone.
\<close>

section \<open>Packing bits\<close>

type_synonym pack = "BoolWriter \<times> nat"

definition LeadingZeros8 :: "byte \<Rightarrow> nat" where
  "LeadingZeros8 b = length (takeWhile (\<lambda>i. \<not> bit b i) [7, 6, 5, 4, 3, 2, 1, 0])"

definition pack_tail :: "u32 \<Rightarrow> u32 \<Rightarrow> pack \<Rightarrow> pack" where
  "pack_tail low rng st = (case st of (w, sp) \<Rightarrow>
     let shift = LeadingZeros8 (ucast rng);
         rng = push_bit shift rng;
         count = w_count w + int shift;
         store = (\<lambda>w. w\<lparr>w_low := low, w_rng := rng, w_count := count\<rparr>)
     in if count \<ge> 0 then
          let offset = nat (int shift - count);
              carry = (push_bit (offset - 1) low AND 0x80000000 \<noteq> 0);
              w = (if carry then propagateCarry w else w);
              sp = (if carry then w_pos w else sp)
          in if w_err w \<noteq> 0 then (store w, sp)
             else if w_pos w \<ge> length (w_buf w)
             then (store (w\<lparr>w_err := boolWriterErrBufferTooSmall\<rparr>), sp)
             else
               let buf = (w_buf w)[w_pos w := ucast (drop_bit (24 - offset) low AND 0xff)];
                   tailShift = nat count;
                   low = push_bit offset low AND 0xffffff;
                   count = count - 8;
                   low = push_bit tailShift low
               in (w\<lparr>w_buf := buf, w_pos := w_pos w + 1, w_low := low, w_rng := rng, w_count := count\<rparr>, sp)
        else (w\<lparr>w_low := push_bit shift low, w_rng := rng, w_count := count\<rparr>, sp))"

definition pack_put :: "bool \<times> byte \<Rightarrow> pack \<Rightarrow> pack" where
  "pack_put x st =
     (let w = fst st; rng = w_rng w; low = w_low w;
          split = 1 + drop_bit 8 ((rng - 1) * ucast (snd x))
      in if \<not> fst x then pack_tail low split st else pack_tail (low + split) (rng - split) st)"

text \<open>The inner loops: bit by bit, leaving on the first error.\<close>

fun pack_bits :: "(bool \<times> byte) list \<Rightarrow> pack \<Rightarrow> pack" where
  "pack_bits [] st = st"
| "pack_bits (x # xs) st =
     (let st = pack_put x st in if w_err (fst st) \<noteq> 0 then st else pack_bits xs st)"

definition pack_sign :: "bool \<Rightarrow> pack \<Rightarrow> pack" where
  "pack_sign neg st = (case st of (w, sp) \<Rightarrow>
     let rng = w_rng w; low = w_low w; count = w_count w;
         split = drop_bit 1 (rng + 1);
         (low, rng) = (if \<not> neg then (low, split) else (low + split, rng - split));
         rng = push_bit 1 rng;
         carry = (low AND 0x80000000 \<noteq> 0);
         w = (if carry then propagateCarry w else w);
         sp = (if carry then w_pos w else sp)
     in if w_err w \<noteq> 0 then (w\<lparr>w_low := low, w_rng := rng\<rparr>, sp)
        else
          let low = push_bit 1 low; count = count + 1
          in if count = 0 then
               (if w_pos w \<ge> length (w_buf w)
                then (w\<lparr>w_err := boolWriterErrBufferTooSmall, w_low := low, w_rng := rng, w_count := -8\<rparr>, sp)
                else (w\<lparr>w_buf := (w_buf w)[w_pos w := ucast (drop_bit 24 low)], w_pos := w_pos w + 1,
                        w_low := low AND 0xffffff, w_rng := rng, w_count := -8\<rparr>, sp))
             else (w\<lparr>w_low := low, w_rng := rng, w_count := count\<rparr>, sp))"

text \<open>The short cut for an end of block: no shift and no byte.\<close>

definition pack_eob :: "byte \<Rightarrow> pack \<Rightarrow> pack" where
  "pack_eob prob st =
     (let w = fst st; rng = 1 + drop_bit 8 ((w_rng w - 1) * ucast prob)
      in if rng AND 0x80 \<noteq> 0 \<and> w_count w < 0 then (w\<lparr>w_rng := rng\<rparr>, snd st)
         else pack_tail (w_low w) rng st)"

section \<open>Blocks\<close>

text \<open>The extra bits of a token, read from the encoding table.\<close>

definition pack_token :: "byte list \<Rightarrow> nat \<Rightarrow> int \<Rightarrow> bool \<Rightarrow> bool \<Rightarrow> pack \<Rightarrow> pack" where
  "pack_token p token mag neg skip st =
     (let st = pack_bits (path_bits p token (of_bool skip)) st
      in if w_err (fst st) \<noteq> 0 \<or> token = ZeroToken then st
         else
           let st = pack_bits (extra_bits token mag) st
           in if w_err (fst st) \<noteq> 0 then st else pack_sign neg st)"

text \<open>
  The coefficients at the scan positions of the list. The flag is true when a magnitude is out
  of range and the code returns without storing its registers.
\<close>

fun pack_coeffs ::
  "coef_probs \<Rightarrow> nat \<Rightarrow> i16 list \<Rightarrow> nat \<Rightarrow> nat list \<Rightarrow> nat \<Rightarrow> nat \<Rightarrow> bool \<Rightarrow> pack \<Rightarrow> bool \<times> pack" where
  "pack_coeffs probs blockType qcoeff eob [] band ctx skip st =
     (False, if eob < 16 then pack_bits (path_bits (probs ! blockType ! band ! ctx) DCTEOBToken 0) st else st)"
| "pack_coeffs probs blockType qcoeff eob (pos # ps) band ctx skip st =
     (let coeff = sint (qcoeff ! (DefaultZigZag1D ! pos AND 0xF));
          signMask = drop_bit 63 coeff;
          mag = (coeff XOR signMask) - signMask;
          neg = (signMask AND 1 \<noteq> 0)
      in if mag > int DCTMaxValue then (True, st)
         else
           let token = coeffAbsTokenLUT ! nat mag;
               st = pack_token (probs ! (blockType AND 3) ! (band AND 7) ! ctx) token mag neg skip st
           in if w_err (fst st) \<noteq> 0 \<or> pos = 15 then (False, st)
              else
                let ctx = PrevTokenClass ! token
                in pack_coeffs probs blockType qcoeff eob ps (CoefBandsTable ! (pos + 1)) ctx (ctx = 0) st)"

definition writer_result :: "BoolWriter \<Rightarrow> packet_error option" where
  "writer_result w = (if w_err w = 0 then None else Some EncErrBufferTooSmall)"

definition writeBlockTokensEOB ::
  "coef_probs \<Rightarrow> nat \<Rightarrow> nat \<Rightarrow> nat \<Rightarrow> i16 list \<Rightarrow> nat \<Rightarrow> (BoolWriter, packet_error option) state" where
  "writeBlockTokensEOB probs blockType ctx skipDC qcoeff eob = State (\<lambda>w.
     if w_err w \<noteq> 0 then (writer_result w, w)
     else if eob \<le> skipDC then
       let w = WriteBool w 0 (probs ! (blockType AND 3) ! (skipDC AND 7) ! ctx ! 0) in (writer_result w, w)
     else if eob > 16 then (Some ErrInvalidPacketConfig, w)
     else
       case pack_coeffs probs blockType qcoeff eob [skipDC..<eob] skipDC ctx False (w, w_pos w) of
         (True, w', sp) \<Rightarrow> (Some ErrInvalidPacketConfig,
           w'\<lparr>w_low := w_low w, w_rng := w_rng w, w_count := w_count w, w_pos := sp\<rparr>)
       | (False, w', sp) \<Rightarrow> (writer_result w', w'))"

text \<open>
  The scan for the last nonzero position, from the top. The code first tests the raster halves
  as 64-bit loads; a zero block is \<open>skipDC\<close> either way.
\<close>

fun coeff_eob_loop :: "i16 list \<Rightarrow> nat \<Rightarrow> nat \<Rightarrow> nat" where
  "coeff_eob_loop qcoeff skipDC 0 = skipDC"
| "coeff_eob_loop qcoeff skipDC (Suc start) =
     (if start < skipDC then skipDC
      else if qcoeff ! (DefaultZigZag1D ! start) \<noteq> 0 then start + 1
      else coeff_eob_loop qcoeff skipDC start)"

definition BlockCoeffEOB :: "i16 list \<Rightarrow> nat \<Rightarrow> nat" where
  "BlockCoeffEOB qcoeff skipDC =
     (if skipDC \<le> 1 then
        (if (\<forall>i < 8. qcoeff ! (i + 8) = 0) \<and> (\<forall>i < 8. qcoeff ! i = 0) then skipDC
         else coeff_eob_loop qcoeff skipDC 16)
      else coeff_eob_loop qcoeff skipDC 16)"

definition WriteBlockTokens ::
  "coef_probs \<Rightarrow> nat \<Rightarrow> nat \<Rightarrow> nat \<Rightarrow> i16 list \<Rightarrow> (BoolWriter, packet_error option) state" where
  "WriteBlockTokens probs blockType ctx skipDC qcoeff =
     (if blockType \<ge> BlockTypes \<or> ctx \<ge> PrevCoefContexts \<or> skipDC > 1
      then State_Monad.return (Some ErrInvalidPacketConfig)
      else writeBlockTokensEOB probs blockType ctx skipDC qcoeff (BlockCoeffEOB qcoeff skipDC))"

section \<open>The packer writes its bits\<close>

text \<open>\<open>packed w xs w'\<close>: from \<open>w\<close> the bits \<open>xs\<close> were coded, or the buffer was full as it had to be.\<close>

definition writer_warm :: "BoolWriter \<Rightarrow> bool" where
  "writer_warm w \<longleftrightarrow> writer_ok w \<and> unat (w_rng w) \<le> 254"

definition packed :: "BoolWriter \<Rightarrow> (bool \<times> byte) list \<Rightarrow> BoolWriter \<Rightarrow> bool" where
  "packed w xs w' \<longleftrightarrow> (w_err w' = 0 \<longleftrightarrow> w_err (vp8w.puts w xs) = 0) \<and>
     (w_err w' = 0 \<longrightarrow> w' = vp8w.puts w xs) \<and> writer_ok w' \<and> (xs \<noteq> [] \<or> writer_warm w \<longrightarrow> writer_warm w')"

lemma packed_ok: "packed w xs w' \<Longrightarrow> writer_ok w'"
  by (simp add: packed_def)

lemma packed_refl: "writer_ok w \<Longrightarrow> w_err w = 0 \<Longrightarrow> packed w [] w"
  by (simp add: packed_def)

lemma packed_trans:
  assumes "packed w xs w1" "w_err w1 = 0 \<Longrightarrow> packed w1 ys w2" "w_err w1 \<noteq> 0 \<Longrightarrow> w2 = w1"
  shows "w_err w = 0 \<Longrightarrow> packed w (xs @ ys) w2"
proof (cases "w_err w1 = 0")
  case True
  then have e: "w1 = vp8w.puts w xs" using assms(1) unfolding packed_def by blast
  have "xs @ ys \<noteq> [] \<or> writer_warm w \<longrightarrow> writer_warm w2"
    using assms(1) assms(2) [OF True] unfolding packed_def by blast
  then show ?thesis using assms(2) [OF True] unfolding e packed_def vp8w.puts_append by blast
next
  case False
  assume "w_err w = 0"
  have "w_err (vp8w.puts w xs) \<noteq> 0" using assms(1) False unfolding packed_def by blast
  then have "w_err (vp8w.puts w (xs @ ys)) \<noteq> 0" "xs \<noteq> []"
    using \<open>w_err w = 0\<close> unfolding vp8w.puts_append by (auto simp: vp8w.puts_failed)
  then show ?thesis using assms(1) False assms(3) [OF False] unfolding packed_def by blast
qed

lemma LeadingZeros8_norm:
  assumes "1 \<le> unat rng" "unat rng \<le> 255"
  shows "LeadingZeros8 (ucast (rng :: u32)) = norm (unat rng)"
proof -
  have tab: "list_all (\<lambda>r. LeadingZeros8 (word_of_nat r) = norm r) [1..<256]" by code_simp
  have "(ucast rng :: byte) = word_of_nat (unat rng)"
    by (rule unsigned_word_eqI [where 'a = nat]) (simp add: unat_ucast_byte unat_of_nat)
  then have e: "ucast rng = (word_of_nat (unat rng) :: byte)" .
  have "unat rng \<in> set [1..<256]" using assms by simp
  with tab show ?thesis unfolding e list_all_iff by (rule bspec)
qed

lemma pack_tail_write_tail:
  assumes "w_err w = 0" "1 \<le> unat rng" "unat rng \<le> 255"
  shows "w_err (fst (pack_tail low rng (w, sp))) = w_err (write_tail w low rng)"
    and "w_err (write_tail w low rng) = 0 \<Longrightarrow> fst (pack_tail low rng (w, sp)) = write_tail w low rng"
    and "w_rng (fst (pack_tail low rng (w, sp))) = push_bit (norm (unat rng)) rng"
  unfolding pack_tail_def write_tail_def LeadingZeros8_norm [OF assms(2,3)] writer_shift_norm [OF assms(2,3)]
  using assms(1) by (auto simp: Let_def)

lemma push_norm_warm:
  assumes "1 \<le> unat rng" "unat rng \<le> 254"
  shows "128 \<le> unat (push_bit (norm (unat rng)) (rng :: u32)) \<and> unat (push_bit (norm (unat rng)) rng) \<le> 254"
proof -
  have b: "128 \<le> unat rng * 2 ^ norm (unat rng)" "unat rng * 2 ^ norm (unat rng) \<le> 255"
    using norm_bounds [of "unat rng"] assms by auto
  have "unat rng * 2 ^ norm (unat rng) \<le> 254"
  proof (cases "norm (unat rng) = 0")
    case False
    then have "2 dvd unat rng * 2 ^ norm (unat rng)" by simp
    then have "unat rng * 2 ^ norm (unat rng) \<noteq> 255" by presburger
    then show ?thesis using b by linarith
  qed (use assms in simp)
  then show ?thesis using b tail_rng [of rng] assms by simp
qed

text \<open>The range a step starts its normalisation from.\<close>

lemma put_regs:
  fixes b :: bool and p :: byte
  assumes "writer_ok w" "w_err w = 0"
  defines "split \<equiv> 1 + drop_bit 8 ((w_rng w - 1) * ucast p)"
  defines "rng \<equiv> (if b then w_rng w - split else split)" and "low \<equiv> (if b then w_low w + split else w_low w)"
  shows "writer_put w b p = write_tail w low rng" "1 \<le> unat rng" "unat rng \<le> 254"
proof -
  have R: "128 \<le> unat (w_rng w)" "unat (w_rng w) \<le> 255" using assms(1) by (auto simp: writer_ok_def)
  have sp: "unat split = split_of (unat (w_rng w)) (unat p)"
    unfolding split_def using R by (intro split_unat) auto
  have spb: "1 \<le> unat split" "unat split < unat (w_rng w)"
    unfolding sp using split_of_bounds [of "unat (w_rng w)" "unat p"] R unat_byte_le by auto
  have d: "unat (w_rng w - split) = unat (w_rng w) - unat split"
    using unat_sub_nowrap [of split "w_rng w"] spb by simp
  show "1 \<le> unat rng" "unat rng \<le> 254" using spb d R by (auto simp: rng_def)
  show "writer_put w b p = write_tail w low rng"
    using assms(2) by (cases b) (simp_all add: writer_put_def WriteBool_def rng_def low_def split_def Let_def)
qed

lemma norm_eq:
  assumes "128 \<le> r * 2 ^ k" "r * 2 ^ k \<le> 255"
  shows "norm r = k"
proof -
  have r: "1 \<le> r" "r \<le> 255" using assms by (cases r) (auto intro: order_trans [OF _ assms(2)])
  note b = norm_bounds [OF r]
  have "norm r < k + 1"
  proof (rule ccontr)
    assume "\<not> norm r < k + 1"
    then have "r * 2 ^ (k + 1) \<le> r * 2 ^ norm r" by (intro mult_left_mono power_increasing) auto
    moreover have "r * 2 ^ (k + 1) = 2 * (r * 2 ^ k)" by simp
    ultimately show False using b assms by linarith
  qed
  moreover have "k < norm r + 1"
  proof (rule ccontr)
    assume "\<not> k < norm r + 1"
    then have "r * 2 ^ (norm r + 1) \<le> r * 2 ^ k" by (intro mult_left_mono power_increasing) auto
    moreover have "r * 2 ^ (norm r + 1) = 2 * (r * 2 ^ norm r)" by simp
    ultimately show False using b assms by linarith
  qed
  ultimately show ?thesis by simp
qed

lemma packed_tail:
  assumes "writer_ok w" "w_err w = 0" "writer_put w b p = write_tail w low rng" "1 \<le> unat rng" "unat rng \<le> 254"
  shows "packed w [(b, p)] (fst (pack_tail low rng (w, sp)))"
proof -
  have r: "unat rng \<le> 255" using assms(5) by simp
  define w' where "w' = fst (pack_tail low rng (w, sp))"
  note T = pack_tail_write_tail [OF assms(2,4) r, of low sp, folded w'_def]
  have rng: "128 \<le> unat (w_rng w') \<and> unat (w_rng w') \<le> 254" using push_norm_warm [OF assms(4,5)] T(3) by simp
  have put: "vp8w.puts w [(b, p)] = write_tail w low rng" using assms(3) by simp
  have ok: "writer_ok (write_tail w low rng)"
    unfolding assms(3) [symmetric] writer_put_def using assms(1) by (rule WriteBool_ok)
  have "writer_ok w'"
  proof (cases "w_err w' = 0")
    case True
    then show ?thesis using T(1,2) ok by metis
  next
    case False
    then show ?thesis using rng by (simp add: writer_ok_def)
  qed
  then show ?thesis
    unfolding w'_def [symmetric] packed_def put writer_warm_def using T(1,2) rng by metis
qed

lemma packed_put:
  assumes "writer_ok w" "w_err w = 0"
  shows "packed w [x] (fst (pack_put x (w, sp)))"
proof -
  obtain b p where x: "x = (b, p)" by (cases x)
  show ?thesis
    using packed_tail [OF assms put_regs [OF assms, of b p]] unfolding x by (cases b) (simp_all add: pack_put_def Let_def)
qed

lemma packed_bits:
  assumes "writer_ok (fst st)" "w_err (fst st) = 0"
  shows "packed (fst st) xs (fst (pack_bits xs st))"
  using assms
proof (induction xs arbitrary: st)
  case Nil
  then show ?case by (simp add: packed_refl)
next
  case (Cons x xs)
  define st' where "st' = pack_put x st"
  have p: "packed (fst st) [x] (fst st')"
    using packed_put [OF Cons.prems, of x "snd st"] by (simp add: st'_def)
  have "packed (fst st) ([x] @ xs) (fst (if w_err (fst st') \<noteq> 0 then st' else pack_bits xs st'))"
    by (rule packed_trans [OF p _ _ Cons.prems(2)]) (use Cons.IH [of st'] packed_ok [OF p] in \<open>simp_all only: if_False if_True simp_thms\<close>)
  then show ?case unfolding pack_bits.simps Let_def st'_def [symmetric] by simp
qed

lemma packed_eob:
  assumes "writer_ok w" "w_err w = 0"
  shows "packed w [(False, p)] (fst (pack_eob p (w, sp)))"
proof -
  define rng where "rng = 1 + drop_bit 8 ((w_rng w - 1) * ucast p)"
  note R = put_regs [OF assms, where b = False and p = p, unfolded if_False, folded rng_def]
  show ?thesis
  proof (cases "rng AND 0x80 \<noteq> 0 \<and> w_count w < 0")
    case True
    have "(0x80 :: u32) = 2 ^ 7" by simp
    then have "bit rng 7" using True and_exp_eq_0_iff_not_bit [of rng 7] by metis
    then have "bit (unat rng) 7" by (simp add: bit_unsigned_iff)
    then have "odd (unat rng div 2 ^ 7)" unfolding bit_iff_odd .
    then have "128 \<le> unat rng" by (cases "unat rng < 128") simp_all
    then have n: "norm (unat rng) = 0" using norm_eq [of "unat rng" 0] R by simp
    obtain j where j: "j < 24" "w_count w = int j - 24" using assms by (auto simp: writer_ok_def)
    have "write_tail w (w_low w) rng = w\<lparr>w_rng := rng\<rparr>"
      using write_tail_short [OF j(2) R(2), of "w_low w"] R(3) j n by simp
    then show ?thesis
      using True R assms WriteBool_ok [OF assms(1), of 0 p]
      by (simp add: pack_eob_def rng_def [symmetric] packed_def writer_warm_def Let_def writer_put_def)
  next
    case False
    then show ?thesis
      using packed_tail [OF assms R, of "snd (w, sp)"] by (auto simp: pack_eob_def rng_def [symmetric] Let_def)
  qed
qed

lemma sign_byte: "(ucast (drop_bit 24 (push_bit 1 (low :: u32))) :: byte) = ucast (drop_bit 23 low AND 0xff)"
proof (rule bit_word_eqI)
  fix n assume "n < LENGTH(8)"
  then have n: "n < 8" by simp
  have m: "(0xff :: u32) = mask 8" by (simp add: mask_eq_exp_minus_1)
  have "bit (push_bit 1 low) (24 + n) \<longleftrightarrow> bit low (23 + n)" using n by (simp only: bit_push_bit_iff) simp
  then show "bit (ucast (drop_bit 24 (push_bit 1 low)) :: byte) n \<longleftrightarrow> bit (ucast (drop_bit 23 low AND 0xff) :: byte) n"
    using n unfolding m by (simp only: bit_ucast_iff bit_drop_bit_eq comp_def bit_and_iff bit_mask_iff) simp
qed

lemma packed_sign:
  assumes warm: "writer_warm w" and e: "w_err w = 0"
  shows "packed w [(neg, 128)] (fst (pack_sign neg (w, sp)))"
proof -
  have ok: "writer_ok w" using warm by (simp add: writer_warm_def)
  have R: "128 \<le> unat (w_rng w)" "unat (w_rng w) \<le> 254" using warm by (auto simp: writer_warm_def writer_ok_def)
  obtain j where j: "j < 24" "w_count w = int j - 24" and room: "unat (w_low w) + unat (w_rng w) \<le> 2 ^ (9 + j)"
    using ok e by (auto simp: writer_ok_def)
  define split where "split = drop_bit 1 (w_rng w + 1)"
  have half: "split = 1 + drop_bit 8 ((w_rng w - 1) * ucast (128 :: byte))"
    using half_split [of "w_rng w"] R by (simp add: split_def)
  define rng where "rng = (if neg then w_rng w - split else split)"
  define low where "low = (if neg then w_low w + split else w_low w)"
  note P = put_regs [OF ok e, where b = neg and p = 128, folded half, folded rng_def low_def]
  have "unat (w_rng w + 1) = unat (w_rng w) + 1" using R by (subst unat_add_nowrap) simp_all
  then have s: "unat split = (unat (w_rng w) + 1) div 2" by (simp add: split_def unat_drop_bit)
  then have d: "unat (w_rng w - split) = unat (w_rng w) - unat split"
    using R by (intro unat_sub_nowrap) simp
  have r: "64 \<le> unat rng" "unat rng \<le> 127" using s d R by (auto simp: rng_def)
  have n: "norm (unat rng) = 1" using norm_eq [of "unat rng" 1] r by simp
  have sh: "writer_shift rng = 1" using writer_shift_norm [of rng] r n by simp
  have le: "unat low + unat rng \<le> 2 ^ (9 + j)"
    using room d s by (auto simp: low_def rng_def unat_word_ariths intro: order_trans [OF add_right_mono [OF mod_less_eq_dividend]])
  define w1 where "w1 = (if low AND 0x80000000 \<noteq> 0 then propagateCarry w else w)"
  have run: "fst (pack_sign neg (w, sp)) =
    (if w_err w1 \<noteq> 0 then w1\<lparr>w_low := low, w_rng := push_bit 1 rng\<rparr>
     else if w_count w + 1 = 0 then
            (if w_pos w1 \<ge> length (w_buf w1)
             then w1\<lparr>w_err := boolWriterErrBufferTooSmall, w_low := push_bit 1 low, w_rng := push_bit 1 rng, w_count := -8\<rparr>
             else w1\<lparr>w_buf := (w_buf w1)[w_pos w1 := ucast (drop_bit 24 (push_bit 1 low))], w_pos := w_pos w1 + 1,
                     w_low := push_bit 1 low AND 0xffffff, w_rng := push_bit 1 rng, w_count := -8\<rparr>)
          else w1\<lparr>w_low := push_bit 1 low, w_rng := push_bit 1 rng, w_count := w_count w + 1\<rparr>)"
    by (cases neg) (simp_all only: pack_sign_def w1_def low_def rng_def split_def Let_def prod.case if_True if_False
        not_True_eq_False not_False_eq_True if_distrib [of fst] fst_conv)
  have rng1: "unat (push_bit 1 rng) = unat rng * 2" using r by (subst unat_push_bit) simp_all
  have T: "w_err (fst (pack_sign neg (w, sp))) = w_err (write_tail w low rng) \<and>
    (w_err (write_tail w low rng) = 0 \<longrightarrow> fst (pack_sign neg (w, sp)) = write_tail w low rng)"
  proof (cases "j = 23")
    case True
    then have c: "w_count w = -1" using j by simp
    show ?thesis
      unfolding run sign_byte write_tail_def sh c Let_def w1_def by simp
  next
    case False
    have "unat low < 2 ^ (9 + j)" using le r by linarith
    also have "\<dots> \<le> 2 ^ 31" using False j by (intro power_increasing) auto
    finally have "\<not> bit (unat low) 31" by (simp add: bit_iff_odd)
    then have "\<not> bit low 31" by (simp add: bit_unsigned_iff)
    then have "low AND 0x80000000 = 0" using and_exp_eq_0_iff_not_bit [of low 31] by simp
    then have "w1 = w" by (simp add: w1_def)
    then show ?thesis
      using False j e unfolding run write_tail_def sh Let_def by simp
  qed
  have rng2: "w_rng (fst (pack_sign neg (w, sp))) = push_bit 1 rng" unfolding run by simp
  have "writer_ok (fst (pack_sign neg (w, sp)))"
  proof (cases "w_err (fst (pack_sign neg (w, sp))) = 0")
    case True
    then show ?thesis using T WriteBool_ok [OF ok, of "of_bool neg" 128] P(1) unfolding writer_put_def by metis
  next
    case False
    then show ?thesis using rng1 rng2 r by (simp add: writer_ok_def)
  qed
  moreover have "vp8w.puts w [(neg, 128)] = write_tail w low rng" using P(1) by simp
  ultimately show ?thesis
    unfolding packed_def writer_warm_def using T rng1 rng2 r by simp
qed

section \<open>Tokens and blocks\<close>

lemma path_bits_ne:
  assumes "token < DCTEOBToken" shows "path_bits p token (of_bool skip) \<noteq> []"
proof -
  have "token \<in> set [0..<11]" using assms by simp
  then have "1 < length (coefficientTokenBranchPaths ! token)"
    unfolding branch_paths by (simp add: upt_rec) (elim disjE; simp)
  then show ?thesis by (cases skip) (auto simp: path_bits_def)
qed

lemma packed_token:
  assumes "writer_ok (fst st)" "w_err (fst st) = 0" "c = 0 \<longrightarrow> \<not> neg" "neg \<longleftrightarrow> c < 0" "\<bar>c\<bar> \<le> int DCTMaxValue"
  shows "packed (fst st) (token_bits p c skip) (fst (pack_token p (coeffAbsToken (nat \<bar>c\<bar>)) \<bar>c\<bar> neg skip st))"
proof -
  define token where "token = coeffAbsToken (nat \<bar>c\<bar>)"
  define st1 where "st1 = pack_bits (path_bits p token (of_bool skip)) st"
  define st2 where "st2 = pack_bits (extra_bits token \<bar>c\<bar>) st1"
  have t: "token < DCTEOBToken" by (simp add: token_def coeffAbsToken_def)
  have p1: "packed (fst st) (path_bits p token (of_bool skip)) (fst st1)"
    unfolding st1_def using assms(1,2) by (rule packed_bits)
  have sgn: "packed (fst st2) [(c < 0, 128)] (fst (pack_sign neg st2))" if "writer_warm (fst st2)" "w_err (fst st2) = 0"
    using packed_sign [OF that, of neg "snd st2"] assms(4) by simp
  have p2: "packed (fst st1) (extra_bits token \<bar>c\<bar>) (fst st2)" if "w_err (fst st1) = 0"
    unfolding st2_def using packed_ok [OF p1] that by (rule packed_bits)
  have warm: "writer_warm (fst st1)" using p1 path_bits_ne [OF t] unfolding packed_def by blast
  have p3: "packed (fst st1) (extra_bits token \<bar>c\<bar> @ [(c < 0, 128)])
      (fst (if w_err (fst st2) \<noteq> 0 then st2 else pack_sign neg st2))" if e: "w_err (fst st1) = 0"
  proof (rule packed_trans [OF p2 [OF e] _ _ e])
    assume "w_err (fst st2) = 0"
    moreover have "writer_warm (fst st2)" using p2 [OF e] warm unfolding packed_def by blast
    ultimately show "packed (fst st2) [(c < 0, 128)] (fst (if w_err (fst st2) \<noteq> 0 then st2 else pack_sign neg st2))"
      using sgn by simp
  qed simp
  show ?thesis
  proof (cases "token = ZeroToken")
    case True
    show ?thesis
      unfolding token_bits_def pack_token_def token_def [symmetric] st1_def [symmetric] Let_def
      using True p1 by simp
  next
    case False
    have "packed (fst st) (path_bits p token (of_bool skip) @ extra_bits token \<bar>c\<bar> @ [(c < 0, 128)])
        (fst (if w_err (fst st1) \<noteq> 0 then st1 else if w_err (fst st2) \<noteq> 0 then st2 else pack_sign neg st2))"
      by (rule packed_trans [OF p1 _ _ assms(2)]) (use p3 in simp_all)
    then show ?thesis
      unfolding token_bits_def pack_token_def token_def [symmetric] st1_def [symmetric] st2_def [symmetric] Let_def
        if_not_P [OF False]
      using False by (cases "w_err (fst st1) = 0") (simp_all only: simp_thms if_True if_False)
  qed
qed

text \<open>The coefficients of a block in scan order.\<close>

definition scan_coeff :: "i16 list \<Rightarrow> nat \<Rightarrow> int" where
  "scan_coeff qcoeff pos = sint (qcoeff ! (DefaultZigZag1D ! pos))"

lemma zigzag_bound: "i < 16 \<Longrightarrow> DefaultZigZag1D ! i < 16"
proof -
  assume "i < 16"
  then have "i \<in> set [0..<16]" by simp
  moreover have "list_all (\<lambda>i. DefaultZigZag1D ! i < 16) [0..<16]" by code_simp
  ultimately show ?thesis unfolding list_all_iff by (rule bspec [rotated])
qed

lemma sint_i16_bounds: "- 32768 \<le> sint (x :: i16)" "sint (x :: i16) \<le> 32767"
  using sint_ge [of x] sint_lt [of x] by simp_all

text \<open>The branchless absolute value: the sign mask is 0 or -1.\<close>

lemma sign_mask:
  fixes c :: int
  assumes "- (2 ^ 63) \<le> c" "c < 2 ^ 63"
  shows "drop_bit 63 c = (if c < 0 then -1 else 0)" "(c XOR drop_bit 63 c) - drop_bit 63 c = \<bar>c\<bar>"
    "(drop_bit 63 c AND 1 \<noteq> 0) = (c < 0)"
proof -
  show m: "drop_bit 63 c = (if c < 0 then -1 else 0)"
    using assms int_div_pos_eq [of c "2 ^ 63" "-1" "c + 2 ^ 63"] by (auto simp: drop_bit_eq_div)
  show "(c XOR drop_bit 63 c) - drop_bit 63 c = \<bar>c\<bar>"
    unfolding m using minus_eq_not_plus_1 [of c] by simp
  show "(drop_bit 63 c AND 1 \<noteq> 0) = (c < 0)" unfolding m by simp
qed

lemma band_bound: "pos < 16 \<Longrightarrow> CoefBandsTable ! pos < 8"
proof -
  assume "pos < 16"
  then have "pos \<in> set [0..<16]" by simp
  moreover have "list_all (\<lambda>i. CoefBandsTable ! i < 8) [0..<16]" by code_simp
  ultimately show ?thesis unfolding list_all_iff by (rule bspec [rotated])
qed

lemma nat_and_low: "x < 2 ^ n \<Longrightarrow> (x :: nat) AND mask n = x"
  by (simp add: take_bit_nat_eq_self flip: take_bit_eq_mask)

lemma packed_coeffs:
  assumes "writer_ok (fst st)" "w_err (fst st) = 0" "pos \<le> eob" "eob \<le> 16" "blockType < 4" "band < 8"
    and "\<forall>i \<in> {pos..<eob}. \<bar>scan_coeff qcoeff i\<bar> \<le> int DCTMaxValue"
  shows "\<exists>st'. pack_coeffs probs blockType qcoeff eob [pos..<eob] band ctx skip st = (False, st') \<and>
    packed (fst st) (coef_bits (probs ! blockType) pos band ctx skip (map (scan_coeff qcoeff) [pos..<eob])) (fst st')"
  using assms
proof (induction "eob - pos" arbitrary: pos band ctx skip st)
  case 0
  then have p: "pos = eob" by simp
  have bits: "path_bits (probs ! blockType ! band ! ctx) DCTEOBToken 0 = [(False, probs ! blockType ! band ! ctx ! 0)]"
    by (simp add: path_bits_def branch_paths)
  show ?case
    unfolding p using packed_bits [OF "0.prems"(1,2)] packed_refl [OF "0.prems"(1,2)] by (simp add: bits del: pack_bits.simps)
next
  case (Suc n)
  have pos: "pos < eob" using Suc.hyps(2) by simp
  define c where "c = scan_coeff qcoeff pos"
  define token where "token = coeffAbsToken (nat \<bar>c\<bar>)"
  define p where "p = probs ! blockType ! band ! ctx"
  define st1 where "st1 = pack_token p token \<bar>c\<bar> (c < 0) skip st"
  define cls where "cls = PrevTokenClass ! token"
  have c: "\<bar>c\<bar> \<le> int DCTMaxValue" using Suc.prems(7) pos by (simp add: c_def)
  have p16: "pos < 16" using pos Suc.prems(4) by simp
  have m4: "DefaultZigZag1D ! pos AND 0xF = DefaultZigZag1D ! pos"
    using nat_and_low [of "DefaultZigZag1D ! pos" 4] zigzag_bound [OF p16] by (simp add: mask_eq_exp_minus_1)
  have m2: "blockType AND 3 = blockType"
    using nat_and_low [of blockType 2] Suc.prems(5) by (simp add: mask_eq_exp_minus_1)
  have m3: "band AND 7 = band"
    using nat_and_low [of band 3] Suc.prems(6) by (simp add: mask_eq_exp_minus_1)
  note S = sign_mask [of c, folded c_def]
  have c63: "- (2 ^ 63) \<le> c" "c < 2 ^ 63" using c by (simp_all add: abs_le_iff)
  have lut: "coeffAbsTokenLUT ! nat \<bar>c\<bar> = token"
    unfolding token_def using c by (intro coeffAbsTokenLUT_nth) simp
  have step: "pack_coeffs probs blockType qcoeff eob [pos..<eob] band ctx skip st =
    (if w_err (fst st1) \<noteq> 0 \<or> pos = 15 then (False, st1)
     else pack_coeffs probs blockType qcoeff eob [Suc pos..<eob] (CoefBandsTable ! (pos + 1)) cls (cls = 0) st1)"
    unfolding upt_conv_Cons [OF pos] pack_coeffs.simps m2 m3 m4
      scan_coeff_def [symmetric] c_def [symmetric] Let_def sign_mask(2,3) [OF c63] lut
      cls_def [symmetric] p_def [symmetric] st1_def [symmetric]
    using c by simp
  have p1: "packed (fst st) (token_bits p c skip) (fst st1)"
    unfolding st1_def token_def by (rule packed_token [OF Suc.prems(1,2) _ refl c]) simp
  define rest where "rest = coef_bits (probs ! blockType) (pos + 1) (CoefBandsTable ! (pos + 1)) cls (cls = 0)
    (map (scan_coeff qcoeff) [Suc pos..<eob])"
  have bits: "coef_bits (probs ! blockType) pos band ctx skip (map (scan_coeff qcoeff) [pos..<eob])
      = token_bits p c skip @ rest"
    unfolding upt_conv_Cons [OF pos] list.map coef_bits.simps Let_def rest_def cls_def token_def p_def c_def by (rule refl)
  have ih: "\<exists>st'. pack_coeffs probs blockType qcoeff eob [Suc pos..<eob] (CoefBandsTable ! (pos + 1)) cls (cls = 0) st1 = (False, st') \<and>
      packed (fst st1) rest (fst st')" if "w_err (fst st1) = 0" "pos \<noteq> 15"
    unfolding rest_def Suc_eq_plus1 [symmetric]
    by (rule Suc.hyps(1)) (use Suc.hyps(2) Suc.prems pos packed_ok [OF p1] that p16 band_bound [of "Suc pos"] in auto)
  have last: "rest = []" if "pos = 15"
    using that Suc.prems(4) by (simp add: rest_def)
  show ?case
    unfolding step bits
  proof (cases "w_err (fst st1) \<noteq> 0 \<or> pos = 15")
    case True
    have "packed (fst st) (token_bits p c skip @ rest) (fst st1)"
      by (rule packed_trans [OF p1 _ _ Suc.prems(2)]) (use True last packed_refl packed_ok [OF p1] in auto)
    then show "\<exists>st'. (if w_err (fst st1) \<noteq> 0 \<or> pos = 15 then (False, st1)
       else pack_coeffs probs blockType qcoeff eob [Suc pos..<eob] (CoefBandsTable ! (pos + 1)) cls (cls = 0) st1) = (False, st') \<and>
       packed (fst st) (token_bits p c skip @ rest) (fst st')"
      using True by auto
  next
    case False
    then obtain st' where st': "pack_coeffs probs blockType qcoeff eob [Suc pos..<eob] (CoefBandsTable ! (pos + 1)) cls (cls = 0) st1 = (False, st')"
        "packed (fst st1) rest (fst st')" using ih by blast
    have "packed (fst st) (token_bits p c skip @ rest) (fst st')"
      by (rule packed_trans [OF p1 _ _ Suc.prems(2)]) (use False st' in simp_all)
    then show "\<exists>st'. (if w_err (fst st1) \<noteq> 0 \<or> pos = 15 then (False, st1)
       else pack_coeffs probs blockType qcoeff eob [Suc pos..<eob] (CoefBandsTable ! (pos + 1)) cls (cls = 0) st1) = (False, st') \<and>
       packed (fst st) (token_bits p c skip @ rest) (fst st')"
      using st'(1) unfolding if_not_P [OF False] by blast
  qed
qed

lemma pack_coeffs_ok:
  assumes "writer_ok (fst st)" "w_err (fst st) = 0"
  shows "writer_ok (fst (snd (pack_coeffs probs blockType qcoeff eob ps band ctx skip st)))"
  using assms
proof (induction ps arbitrary: band ctx skip st)
  case Nil
  then show ?case using packed_ok [OF packed_bits [OF Nil]] by (simp del: pack_bits.simps)
next
  case (Cons pos ps)
  define c where "c = sint (qcoeff ! (DefaultZigZag1D ! pos AND 0xF))"
  have c63: "- (2 ^ 63) \<le> c" "c < 2 ^ 63"
    using sint_i16_bounds [of "qcoeff ! (DefaultZigZag1D ! pos AND 0xF)"] by (simp_all add: c_def)
  define p where "p = probs ! (blockType AND 3) ! (band AND 7) ! ctx"
  define token where "token = coeffAbsTokenLUT ! nat \<bar>c\<bar>"
  define st1 where "st1 = pack_token p token \<bar>c\<bar> (c < 0) skip st"
  show ?case
  proof (cases "\<bar>c\<bar> > int DCTMaxValue")
    case True
    then show ?thesis
      using Cons.prems(1) unfolding pack_coeffs.simps c_def [symmetric] Let_def sign_mask(2,3) [OF c63] by simp
  next
    case False
    then have "token = coeffAbsToken (nat \<bar>c\<bar>)" unfolding token_def by (intro coeffAbsTokenLUT_nth) simp
    then have ok: "writer_ok (fst st1)"
      using packed_ok [OF packed_token [OF Cons.prems _ refl]] False unfolding st1_def by simp
    show ?thesis
      using False Cons.IH [OF ok]
      unfolding pack_coeffs.simps c_def [symmetric] Let_def sign_mask(2,3) [OF c63] token_def [symmetric]
        p_def [symmetric] st1_def [symmetric]
      using ok by simp
  qed
qed

lemma sticky_writeBlockTokensEOB [sticky_intros]:
  "sticky (writeBlockTokensEOB probs blockType ctx skipDC qcoeff eob)"
  unfolding sticky_def
proof (intro allI impI)
  fix w assume ok: "writer_ok w"
  let ?m = "writeBlockTokensEOB probs blockType ctx skipDC qcoeff eob"
  obtain f w' sp where r: "pack_coeffs probs blockType qcoeff eob [skipDC..<eob] skipDC ctx False (w, w_pos w) = (f, w', sp)"
    by (metis prod.exhaust)
  have "writer_ok w'" if "w_err w = 0"
    using pack_coeffs_ok [of "(w, w_pos w)" probs blockType qcoeff eob "[skipDC..<eob]" skipDC ctx False] ok that r by simp
  then show "writer_ok (snd (run_state ?m w)) \<and> (w_err w \<noteq> 0 \<longrightarrow> w_err (snd (run_state ?m w)) \<noteq> 0)"
    using ok WriteBool_ok [OF ok] by (cases f) (auto simp: writeBlockTokensEOB_def r Let_def writer_ok_def)
qed

lemma writes_writeBlockTokensEOB:
  assumes b: "blockType < 4" "skipDC \<le> 1" "eob \<le> 16"
    and c: "\<forall>i \<in> {skipDC..<eob}. \<bar>scan_coeff qcoeff i\<bar> \<le> int DCTMaxValue"
  shows "writes (writeBlockTokensEOB probs blockType ctx skipDC qcoeff eob)
    (block_bits (probs ! blockType) ctx skipDC (map (scan_coeff qcoeff) [skipDC..<eob])) None"
  unfolding writes_def
proof (intro conjI allI impI)
  let ?m = "writeBlockTokensEOB probs blockType ctx skipDC qcoeff eob"
  let ?bits = "block_bits (probs ! blockType) ctx skipDC (map (scan_coeff qcoeff) [skipDC..<eob])"
  show "sticky ?m" by (rule sticky_writeBlockTokensEOB)
  fix w assume ok: "writer_ok w" and e: "w_err w = 0"
  have "\<exists>w'. run_state ?m w = (writer_result w', w') \<and> (w_err w' = 0 \<longleftrightarrow> w_err (vp8w.puts w ?bits) = 0) \<and>
      (w_err w' = 0 \<longrightarrow> w' = vp8w.puts w ?bits)"
  proof (cases "eob \<le> skipDC")
    case True
    have "blockType AND 3 = blockType" "skipDC AND 7 = skipDC"
      using nat_and_low [of blockType 2] nat_and_low [of skipDC 3] b by (simp_all add: mask_eq_exp_minus_1)
    moreover have "?bits = [(False, probs ! blockType ! skipDC ! ctx ! 0)]"
      using True b by (simp add: block_bits_def)
    ultimately show ?thesis using True e by (simp add: writeBlockTokensEOB_def Let_def writer_put_def)
  next
    case False
    have "skipDC \<le> eob" "skipDC < 8" using False b by simp_all
    from packed_coeffs [of "(w, w_pos w)", OF _ _ this(1) b(3,1) this(2) c, of probs ctx False]
    obtain st' where st': "pack_coeffs probs blockType qcoeff eob [skipDC..<eob] skipDC ctx False (w, w_pos w) = (False, st')"
      "packed w ?bits (fst st')" using ok e unfolding block_bits_def by auto
    have "run_state ?m w = (writer_result (fst st'), fst st')"
      using False b(3) e st'(1) by (cases st') (simp add: writeBlockTokensEOB_def)
    then show ?thesis using st'(2) unfolding packed_def by blast
  qed
  then show "w_err (snd (run_state ?m w)) = 0 \<longleftrightarrow> w_err (vp8w.puts w ?bits) = 0"
    "w_err (snd (run_state ?m w)) = 0 \<Longrightarrow> run_state ?m w = (None, vp8w.puts w ?bits)"
    by (auto simp: writer_result_def)
qed

section \<open>The end of block\<close>

text \<open>\<open>BlockCoeffEOB\<close> is one past the last nonzero scan position.\<close>

lemma coeff_eob_loop_max:
  assumes "start \<le> 16"
  shows "skipDC \<le> coeff_eob_loop qcoeff skipDC start" "coeff_eob_loop qcoeff skipDC start \<le> max skipDC start"
    "\<forall>i. coeff_eob_loop qcoeff skipDC start \<le> i \<longrightarrow> i < start \<longrightarrow> scan_coeff qcoeff i = 0"
    "skipDC < coeff_eob_loop qcoeff skipDC start \<Longrightarrow> scan_coeff qcoeff (coeff_eob_loop qcoeff skipDC start - 1) \<noteq> 0"
  using assms by (induction start) (auto simp: scan_coeff_def less_Suc_eq signed_eq_0_iff)

lemma zigzag_range: "i < 16 \<Longrightarrow> \<exists>p < 16. DefaultZigZag1D ! p = i"
proof -
  assume "i < 16"
  then have "i \<in> set [0..<16]" by simp
  moreover have "list_all (\<lambda>i. list_ex (\<lambda>p. DefaultZigZag1D ! p = i) [0..<16]) [0..<16]" by code_simp
  ultimately have "list_ex (\<lambda>p. DefaultZigZag1D ! p = i) [0..<16]" unfolding list_all_iff by (rule bspec [rotated])
  then show ?thesis by (auto simp: list_ex_iff)
qed

lemma BlockCoeffEOB_loop:
  assumes "skipDC \<le> 1"
  shows "BlockCoeffEOB qcoeff skipDC = coeff_eob_loop qcoeff skipDC 16"
proof (cases "(\<forall>i < 8. qcoeff ! (i + 8) = 0) \<and> (\<forall>i < 8. qcoeff ! i = 0)")
  case True
  have z: "qcoeff ! i = 0" if "i < 16" for i
  proof (cases "i < 8")
    case False
    then have "qcoeff ! ((i - 8) + 8) = 0"
      using that by (intro mp [OF spec [OF conjunct1 [OF True], of "i - 8"]]) simp
    then show ?thesis using False by simp
  qed (use True in simp)
  have "scan_coeff qcoeff i = 0" if "i < 16" for i
    using z [OF zigzag_bound [OF that]] by (simp add: scan_coeff_def)
  then have "\<not> skipDC < coeff_eob_loop qcoeff skipDC 16"
    using coeff_eob_loop_max(2,4) [where start = 16 and qcoeff = qcoeff and skipDC = skipDC] assms by (auto simp: max_def split: if_splits)
  then show ?thesis
    using True assms coeff_eob_loop_max(1) [where start = 16 and qcoeff = qcoeff and skipDC = skipDC] unfolding BlockCoeffEOB_def by simp
next
  case False
  then show ?thesis using assms unfolding BlockCoeffEOB_def by (simp only: if_False if_True)
qed

text \<open>What the packer needs of an end of block: it is the last nonzero coefficient's, and 16 at most.\<close>

definition block_eob_ok :: "i16 list \<Rightarrow> nat \<Rightarrow> nat \<Rightarrow> bool" where
  "block_eob_ok qcoeff skipDC eob \<longleftrightarrow> skipDC \<le> eob \<and> eob \<le> 16 \<and>
     (\<forall>i \<in> {eob..<16}. scan_coeff qcoeff i = 0) \<and> (skipDC < eob \<longrightarrow> scan_coeff qcoeff (eob - 1) \<noteq> 0)"

lemma BlockCoeffEOB_ok: "skipDC \<le> 1 \<Longrightarrow> block_eob_ok qcoeff skipDC (BlockCoeffEOB qcoeff skipDC)"
  unfolding block_eob_ok_def BlockCoeffEOB_loop
  using coeff_eob_loop_max [where start = 16 and qcoeff = qcoeff and skipDC = skipDC] by (auto simp: max_def split: if_splits)

text \<open>Magnitudes the token alphabet can carry.\<close>

definition block_range :: "i16 list \<Rightarrow> bool" where
  "block_range qcoeff \<longleftrightarrow> length qcoeff = 16 \<and> list_all (\<lambda>c. \<bar>sint c\<bar> \<le> int DCTMaxValue) qcoeff"

lemma block_range_scan: "block_range qcoeff \<Longrightarrow> i < 16 \<Longrightarrow> \<bar>scan_coeff qcoeff i\<bar> \<le> int DCTMaxValue"
  using zigzag_bound [of i] by (auto simp: block_range_def scan_coeff_def list_all_length)

end
