(* ===== verification/Vp8_Macroblock_Tokens.thy ===== *)
theory Vp8_Macroblock_Tokens
  imports Vp8_Token_Reader Vp8_Token_Writer
begin

text \<open>
  The coefficient tokens of a macroblock: the writer
  (\<open>writeCoefficientMacroblockTokensWithEOBs\<close> of \<^verbatim>\<open>internal/vp8/encoder/tokenize.go\<close>), the reader
  (\<open>ReadVP8MacroblockCoeffs\<close> of \<^verbatim>\<open>internal/vp8/boolcoder/decoder.go\<close> and \<open>DecodeMacroblockTokens\<close>
  of \<^verbatim>\<open>internal/vp8/decoder/tokens.go\<close>) and the above and left contexts both keep. The order of the
  blocks, their types and their contexts (\<open>mb_plan\<close>) are the contract between them.
\<close>

section \<open>Contexts\<close>

record TokenContextPlanes =
  tc_Y1 :: "byte list"
  tc_U :: "byte list"
  tc_V :: "byte list"
  tc_Y2 :: byte

type_synonym EntropyContextPlanes = TokenContextPlanes

definition zero_planes :: TokenContextPlanes where
  "zero_planes = \<lparr>tc_Y1 = replicate 4 0, tc_U = replicate 2 0, tc_V = replicate 2 0, tc_Y2 = 0\<rparr>"

text \<open>A pointer to one context of the planes, as the reader takes it.\<close>

datatype ctx_slot = SlotY1 nat | SlotU nat | SlotV nat | SlotY2

primrec slot_get :: "TokenContextPlanes \<Rightarrow> ctx_slot \<Rightarrow> byte" where
  "slot_get p (SlotY1 i) = tc_Y1 p ! i"
| "slot_get p (SlotU i) = tc_U p ! i"
| "slot_get p (SlotV i) = tc_V p ! i"
| "slot_get p SlotY2 = tc_Y2 p"

primrec slot_set :: "TokenContextPlanes \<Rightarrow> ctx_slot \<Rightarrow> byte \<Rightarrow> TokenContextPlanes" where
  "slot_set p (SlotY1 i) v = p\<lparr>tc_Y1 := (tc_Y1 p)[i := v]\<rparr>"
| "slot_set p (SlotU i) v = p\<lparr>tc_U := (tc_U p)[i := v]\<rparr>"
| "slot_set p (SlotV i) v = p\<lparr>tc_V := (tc_V p)[i := v]\<rparr>"
| "slot_set p SlotY2 v = p\<lparr>tc_Y2 := v\<rparr>"

definition UVTokenContextIndex :: "nat \<Rightarrow> nat \<times> nat" where
  "UVTokenContextIndex block =
     (let base = if block > 19 then 2 else 0
      in (base + (block AND 1), if block AND 3 > 1 then base + 1 else base))"

definition getTokenUVContext :: "TokenContextPlanes \<Rightarrow> nat \<Rightarrow> byte" where
  "getTokenUVContext ctx index = (if index < 2 then tc_U ctx ! index else tc_V ctx ! (index - 2))"

definition setTokenUVContext :: "TokenContextPlanes \<Rightarrow> nat \<Rightarrow> byte \<Rightarrow> TokenContextPlanes" where
  "setTokenUVContext ctx index v =
     (if index < 2 then ctx\<lparr>tc_U := (tc_U ctx)[index := v]\<rparr> else ctx\<lparr>tc_V := (tc_V ctx)[index - 2 := v]\<rparr>)"

definition ResetTokenContextPlanes ::
  "TokenContextPlanes \<Rightarrow> TokenContextPlanes \<Rightarrow> bool \<Rightarrow> TokenContextPlanes \<times> TokenContextPlanes" where
  "ResetTokenContextPlanes abv left is4x4 =
     (if \<not> is4x4 then (zero_planes, zero_planes)
      else (zero_planes\<lparr>tc_Y2 := tc_Y2 abv\<rparr>, zero_planes\<lparr>tc_Y2 := tc_Y2 left\<rparr>))"

definition ResetMacroblockTokenContext ::
  "EntropyContextPlanes \<Rightarrow> EntropyContextPlanes \<Rightarrow> bool \<Rightarrow> EntropyContextPlanes \<times> EntropyContextPlanes" where
  "ResetMacroblockTokenContext abv left is4x4 =
     (if \<not> is4x4 then (zero_planes, zero_planes)
      else (zero_planes\<lparr>tc_Y2 := tc_Y2 abv\<rparr>, zero_planes\<lparr>tc_Y2 := tc_Y2 left\<rparr>))"

section \<open>The writer\<close>

record MacroblockCoefficients =
  mc_QCoeff :: "i16 list list"
  mc_EOB :: "byte list"

definition mb_eob :: "MacroblockCoefficients \<Rightarrow> nat \<Rightarrow> nat" where
  "mb_eob coeffs block = unat (mc_EOB coeffs ! block)"

text \<open>The body the three block loops share: the context check, an empty block, or its tokens.\<close>

definition write_block_ctx ::
  "coef_probs \<Rightarrow> nat \<Rightarrow> nat \<Rightarrow> byte \<Rightarrow> i16 list \<Rightarrow> nat \<Rightarrow> (BoolWriter, packet_error option) state" where
  "write_block_ctx probs blockType skipDC ctx qcoeff eob =
     (if unat ctx \<ge> PrevCoefContexts then State_Monad.return (Some ErrInvalidPacketConfig)
      else if eob \<le> skipDC then do {
        wr (\<lambda>w. WriteBool w (of_bool False) (probs ! blockType ! skipDC ! unat ctx ! 0));
        State_Monad.return None
      } else writeBlockTokensEOB probs blockType (unat ctx) skipDC qcoeff eob)"

type_synonym mb_write = "(BoolWriter, packet_error option \<times> TokenContextPlanes \<times> TokenContextPlanes) state"

fun write_chroma :: "coef_probs \<Rightarrow> MacroblockCoefficients \<Rightarrow> nat list \<Rightarrow> TokenContextPlanes \<Rightarrow> TokenContextPlanes \<Rightarrow> mb_write" where
  "write_chroma probs coeffs [] abv left = State_Monad.return (None, abv, left)"
| "write_chroma probs coeffs (block # bs) abv left =
     (let eob = mb_eob coeffs block;
          (a, l) = UVTokenContextIndex block;
          ctx = getTokenUVContext abv a + getTokenUVContext left l
      in do {
        e \<leftarrow> write_block_ctx probs 2 0 ctx (mc_QCoeff coeffs ! block) eob;
        if e \<noteq> None then State_Monad.return (e, abv, left)
        else write_chroma probs coeffs bs (setTokenUVContext abv a (of_bool (eob > 0)))
          (setTokenUVContext left l (of_bool (eob > 0)))
      })"

fun write_luma ::
  "coef_probs \<Rightarrow> nat \<Rightarrow> nat \<Rightarrow> MacroblockCoefficients \<Rightarrow> nat list \<Rightarrow> TokenContextPlanes \<Rightarrow> TokenContextPlanes \<Rightarrow> mb_write" where
  "write_luma probs blockType skipDC coeffs [] abv left = State_Monad.return (None, abv, left)"
| "write_luma probs blockType skipDC coeffs (block # bs) abv left =
     (let eob = max (mb_eob coeffs block) skipDC;
          a = block AND 3;
          l = drop_bit 2 (block AND 0xC);
          ctx = tc_Y1 abv ! a + tc_Y1 left ! l
      in do {
        e \<leftarrow> write_block_ctx probs blockType skipDC ctx (mc_QCoeff coeffs ! block) eob;
        if e \<noteq> None then State_Monad.return (e, abv, left)
        else write_luma probs blockType skipDC coeffs bs
          (abv\<lparr>tc_Y1 := (tc_Y1 abv)[a := of_bool (eob > skipDC)]\<rparr>)
          (left\<lparr>tc_Y1 := (tc_Y1 left)[l := of_bool (eob > skipDC)]\<rparr>)
      })"

definition write_luma_chroma ::
  "coef_probs \<Rightarrow> nat \<Rightarrow> nat \<Rightarrow> MacroblockCoefficients \<Rightarrow> TokenContextPlanes \<Rightarrow> TokenContextPlanes \<Rightarrow> mb_write" where
  "write_luma_chroma probs blockType skipDC coeffs abv left = do {
     r \<leftarrow> write_luma probs blockType skipDC coeffs [0..<16] abv left;
     if fst r \<noteq> None then State_Monad.return r
     else write_chroma probs coeffs [16..<24] (fst (snd r)) (snd (snd r))
   }"

definition writeCoefficientMacroblockTokensWithEOBs ::
  "coef_probs \<Rightarrow> bool \<Rightarrow> TokenContextPlanes \<Rightarrow> TokenContextPlanes \<Rightarrow> MacroblockCoefficients \<Rightarrow> mb_write" where
  "writeCoefficientMacroblockTokensWithEOBs probs is4x4 abv left coeffs =
     (if \<not> is4x4 then
        let eob = mb_eob coeffs 24; ctx = tc_Y2 abv + tc_Y2 left in do {
          e \<leftarrow> write_block_ctx probs 1 0 ctx (mc_QCoeff coeffs ! 24) eob;
          if e \<noteq> None then State_Monad.return (e, abv, left)
          else write_luma_chroma probs 0 1 coeffs (abv\<lparr>tc_Y2 := of_bool (eob > 0)\<rparr>)
            (left\<lparr>tc_Y2 := of_bool (eob > 0)\<rparr>)
        }
      else write_luma_chroma probs 3 0 coeffs abv left)"

section \<open>The reader\<close>

text \<open>The block, probabilities, first position and contexts of a step of the reader's loop.\<close>

definition mb_select :: "nat \<Rightarrow> nat \<Rightarrow> int \<Rightarrow> nat \<times> nat \<times> nat \<times> ctx_slot \<times> ctx_slot" where
  "mb_select lumaType skipDC idx =
     (let i = nat idx in
      if idx < 0 then (24, 1, 0, SlotY2, SlotY2)
      else if idx < 16 then (i, lumaType, skipDC, SlotY1 (i AND 3), SlotY1 (drop_bit 2 (i AND 0xC)))
      else if idx < 20 then (i, 2, 0, SlotU (i AND 1), SlotU (drop_bit 1 (i AND 3)))
      else (i, 2, 0, SlotV (i AND 1), SlotV (drop_bit 1 (i AND 3))))"

record mb_out =
  mb_above :: TokenContextPlanes
  mb_left :: TokenContextPlanes
  mb_qcoeff :: "i16 list list"
  mb_eobs :: "byte list"
  mb_total :: int
  mb_dirty :: u32

text \<open>What the loop stores after a block that ended at \<open>nonzeros\<close>.\<close>

definition mb_store :: "nat \<Rightarrow> nat \<Rightarrow> int \<Rightarrow> nat \<Rightarrow> i16 list \<Rightarrow> mb_out \<Rightarrow> mb_out" where
  "mb_store lumaType skipDC idx nonzeros out st =
     (let (b, bt, n, aP, lP) = mb_select lumaType skipDC idx;
          nz = if idx < 0 then nonzeros else if idx < 16 then nonzeros + skipDC else nonzeros
      in st\<lparr>mb_above := slot_set (mb_above st) aP (of_bool (nonzeros > 0)),
            mb_left := slot_set (mb_left st) lP (of_bool (nonzeros > 0)),
            mb_qcoeff := (mb_qcoeff st)[b := out],
            mb_eobs := (mb_eobs st)[b := word_of_nat nz],
            mb_total := mb_total st + (if idx < 0 then int nonzeros - 16 else int nz),
            mb_dirty := (if nonzeros > 0 then mb_dirty st OR push_bit b 1 else mb_dirty st)\<rparr>)"

fun read_mb_loop :: "coef_probs \<Rightarrow> nat \<Rightarrow> nat \<Rightarrow> int list \<Rightarrow> mb_out \<Rightarrow> (Decoder, mb_out) state" where
  "read_mb_loop probs lumaType skipDC [] st = State_Monad.return st"
| "read_mb_loop probs lumaType skipDC (idx # idxs) st =
     (let (b, bt, n, aP, lP) = mb_select lumaType skipDC idx;
          ctx = unat (slot_get (mb_above st) aP + slot_get (mb_left st) lP)
      in do {
        r \<leftarrow> ReadVP8BlockCoeffs probs bt ctx n (mb_qcoeff st ! b);
        read_mb_loop probs lumaType skipDC idxs (mb_store lumaType skipDC idx (fst r) (snd r) st)
      })"

definition ReadVP8MacroblockCoeffs ::
  "coef_probs \<Rightarrow> bool \<Rightarrow> EntropyContextPlanes \<Rightarrow> EntropyContextPlanes \<Rightarrow> i16 list list \<Rightarrow> byte list
     \<Rightarrow> (Decoder, mb_out) state" where
  "ReadVP8MacroblockCoeffs probs is4x4 abv left qcoeff eob =
     (let st = \<lparr>mb_above = abv, mb_left = left, mb_qcoeff = qcoeff, mb_eobs = eob, mb_total = 0, mb_dirty = 0\<rparr>
      in if \<not> is4x4 then read_mb_loop probs 0 1 [-1..23] st else read_mb_loop probs 3 0 [0..23] st)"

section \<open>Token storage\<close>

record MacroblockTokens =
  mt_QCoeff :: "i16 list list"
  mt_EOB :: "byte list"
  mt_dirtyMask :: u32

definition macroblockTokensTrackedMask :: u32 where
  "macroblockTokensTrackedMask = push_bit 31 1"

text \<open>The loop over the set bits of the mask clears the blocks with a bit.\<close>

definition clearMacroblockTokens :: "MacroblockTokens \<Rightarrow> MacroblockTokens" where
  "clearMacroblockTokens out =
     (let mask = mt_dirtyMask out in
      if mask \<noteq> 0 then
        let mask = mask AND NOT macroblockTokensTrackedMask
        in out\<lparr>mt_QCoeff := map (\<lambda>(i, q). if bit mask i then replicate 16 0 else q)
                 (zip [0..<length (mt_QCoeff out)] (mt_QCoeff out)),
               mt_EOB := replicate 25 0, mt_dirtyMask := 0\<rparr>
      else if mt_EOB out = replicate 25 0 then out
      else out\<lparr>mt_QCoeff := map (\<lambda>(e, q). if e \<noteq> 0 then replicate 16 0 else q) (zip (mt_EOB out) (mt_QCoeff out)),
               mt_EOB := replicate 25 0\<rparr>)"

definition DecodeMacroblockTokens ::
  "coef_probs \<Rightarrow> bool \<Rightarrow> EntropyContextPlanes \<Rightarrow> EntropyContextPlanes \<Rightarrow> MacroblockTokens
     \<Rightarrow> (Decoder, int \<times> EntropyContextPlanes \<times> EntropyContextPlanes \<times> MacroblockTokens) state" where
  "DecodeMacroblockTokens probs is4x4 abv left out =
     (let out = clearMacroblockTokens out in do {
        r \<leftarrow> ReadVP8MacroblockCoeffs probs is4x4 abv left (mt_QCoeff out) (mt_EOB out);
        (let dirtyMask = (if mb_dirty r \<noteq> 0 \<or> \<not> is4x4 then mb_dirty r OR macroblockTokensTrackedMask else mb_dirty r)
         in State_Monad.return (mb_total r, mb_above r, mb_left r,
              \<lparr>mt_QCoeff = mb_qcoeff r, mt_EOB = mb_eobs r, mt_dirtyMask = dirtyMask\<rparr>))
      })"

section \<open>The contract: one order of blocks, one set of contexts\<close>

type_synonym ctx_flags = "ctx_slot \<Rightarrow> bool"

fun slot_ok :: "ctx_slot \<Rightarrow> bool" where
  "slot_ok (SlotY1 i) = (i < 4)"
| "slot_ok (SlotU i) = (i < 2)"
| "slot_ok (SlotV i) = (i < 2)"
| "slot_ok SlotY2 = True"

definition planes_ok :: "TokenContextPlanes \<Rightarrow> bool" where
  "planes_ok p \<longleftrightarrow> length (tc_Y1 p) = 4 \<and> length (tc_U p) = 2 \<and> length (tc_V p) = 2 \<and>
     (\<forall>v \<in> set (tc_Y2 p # tc_Y1 p @ tc_U p @ tc_V p). v \<le> 1)"

definition planes_flags :: "TokenContextPlanes \<Rightarrow> ctx_flags" where
  "planes_flags p s = (slot_get p s \<noteq> 0)"

lemma byte_flag: "(v :: byte) \<le> 1 \<Longrightarrow> v = of_bool (v \<noteq> 0)"
  by (simp add: word_le_nat_alt word_unat_eq_iff)

lemma planes_ok_zero: "planes_ok zero_planes"
  by (simp add: planes_ok_def zero_planes_def)

lemma slot_get_flag: "planes_ok p \<Longrightarrow> slot_ok s \<Longrightarrow> slot_get p s = of_bool (planes_flags p s)"
  unfolding planes_flags_def by (rule byte_flag, cases s) (auto simp: planes_ok_def)

lemma slot_set_ok: "planes_ok p \<Longrightarrow> planes_ok (slot_set p s (of_bool h))"
  by (cases s) (auto simp: planes_ok_def dest!: set_update_subset_insert [THEN subsetD])

lemma slot_set_flags:
  "planes_ok p \<Longrightarrow> slot_ok s \<Longrightarrow> planes_flags (slot_set p s (of_bool h)) = (planes_flags p)(s := h)"
proof (rule ext)
  fix s'
  assume "planes_ok p" "slot_ok s"
  then show "planes_flags (slot_set p s (of_bool h)) s' = ((planes_flags p)(s := h)) s'"
    by (cases s; cases s') (auto simp: planes_flags_def planes_ok_def nth_list_update)
qed

lemma planes_eqI:
  assumes "planes_ok p" "planes_ok q" "planes_flags p = planes_flags q"
  shows "p = q"
proof -
  have g: "slot_get p s = slot_get q s" if "slot_ok s" for s
    using slot_get_flag [OF assms(1) that] slot_get_flag [OF assms(2) that] assms(3) by simp
  have "tc_Y1 p = tc_Y1 q" using assms(1,2) g [of "SlotY1 i" for i] by (intro nth_equalityI) (auto simp: planes_ok_def)
  moreover have "tc_U p = tc_U q" using assms(1,2) g [of "SlotU i" for i] by (intro nth_equalityI) (auto simp: planes_ok_def)
  moreover have "tc_V p = tc_V q" using assms(1,2) g [of "SlotV i" for i] by (intro nth_equalityI) (auto simp: planes_ok_def)
  moreover have "tc_Y2 p = tc_Y2 q" using g [of SlotY2] by simp
  ultimately show ?thesis by simp
qed

text \<open>A step of the plan: block, block type, first position, above and left context.\<close>

type_synonym mb_step = "nat \<times> nat \<times> nat \<times> ctx_slot \<times> ctx_slot"

definition mb_plan :: "bool \<Rightarrow> mb_step list" where
  "mb_plan is4x4 = (if \<not> is4x4 then map (mb_select 0 1) [-1..23] else map (mb_select 3 0) [0..23])"

fun plan_bits :: "coef_probs \<Rightarrow> (nat \<Rightarrow> int list) \<Rightarrow> mb_step list \<Rightarrow> ctx_flags \<Rightarrow> ctx_flags \<Rightarrow> (bool \<times> byte) list" where
  "plan_bits probs cs [] A L = []"
| "plan_bits probs cs ((b, bt, n, sa, sl) # steps) A L =
     block_bits (probs ! bt) (of_bool (A sa) + of_bool (L sl)) n (cs b)
     @ plan_bits probs cs steps (A(sa := cs b \<noteq> [])) (L(sl := cs b \<noteq> []))"

fun plan_flags :: "(nat \<Rightarrow> int list) \<Rightarrow> mb_step list \<Rightarrow> ctx_flags \<times> ctx_flags \<Rightarrow> ctx_flags \<times> ctx_flags" where
  "plan_flags cs [] AL = AL"
| "plan_flags cs ((b, bt, n, sa, sl) # steps) AL =
     plan_flags cs steps ((fst AL)(sa := cs b \<noteq> []), (snd AL)(sl := cs b \<noteq> []))"

lemma plan_bits_append:
  "plan_bits probs cs (xs @ ys) A L = plan_bits probs cs xs A L
     @ (let (A', L') = plan_flags cs xs (A, L) in plan_bits probs cs ys A' L')"
  by (induction xs arbitrary: A L) (auto simp: Let_def split: prod.splits)

lemma plan_flags_append: "plan_flags cs (xs @ ys) AL = plan_flags cs ys (plan_flags cs xs AL)"
  by (induction xs arbitrary: AL) auto

text \<open>The coded coefficients of a block: from its first position to its end of block.\<close>

definition coded :: "MacroblockCoefficients \<Rightarrow> nat \<Rightarrow> nat \<Rightarrow> int list" where
  "coded coeffs n b = map (scan_coeff (mc_QCoeff coeffs ! b)) [n..<mb_eob coeffs b]"

definition first_pos :: "bool \<Rightarrow> nat \<Rightarrow> nat" where
  "first_pos is4x4 b = (if \<not> is4x4 \<and> b < 16 then 1 else 0)"

definition mb_coded :: "bool \<Rightarrow> MacroblockCoefficients \<Rightarrow> nat \<Rightarrow> int list" where
  "mb_coded is4x4 coeffs b = coded coeffs (first_pos is4x4 b) b"

text \<open>Coefficients the quantiser produces: in range, with the end of block where the block ends.\<close>

definition mb_coeffs_ok :: "bool \<Rightarrow> MacroblockCoefficients \<Rightarrow> bool" where
  "mb_coeffs_ok is4x4 coeffs \<longleftrightarrow> length (mc_QCoeff coeffs) = 25 \<and> length (mc_EOB coeffs) = 25 \<and>
     (\<forall>b < 25. block_range (mc_QCoeff coeffs ! b) \<and>
        block_eob_ok (mc_QCoeff coeffs ! b) (first_pos is4x4 b) (max (mb_eob coeffs b) (first_pos is4x4 b)))"

section \<open>The writer follows the plan\<close>

lemma flag_sum: "unat (of_bool x + of_bool y :: byte) = of_bool x + of_bool y"
  by (cases x; cases y) simp_all

lemma sticky_write_block_ctx [sticky_intros]: "sticky (write_block_ctx probs bt n ctx q eob)"
  unfolding write_block_ctx_def by (intro sticky_intros)

lemma writes_write_block_ctx:
  assumes "block_range q" "n \<le> 1" "bt < 4" "eob \<le> 16"
  shows "writes (write_block_ctx probs bt n (of_bool x + of_bool y) q eob)
    (block_bits (probs ! bt) (of_bool x + of_bool y) n (map (scan_coeff q) [n..<eob])) None"
proof -
  have ctx: "\<not> unat (of_bool x + of_bool y :: byte) \<ge> PrevCoefContexts"
    unfolding flag_sum by (cases x; cases y) simp_all
  show ?thesis
    unfolding write_block_ctx_def if_not_P [OF ctx] unfolding flag_sum
  proof (cases "eob \<le> n")
    case True
    have e: "block_bits (probs ! bt) (of_bool x + of_bool y) n (map (scan_coeff q) [n..<eob])
      = [(False, probs ! bt ! n ! (of_bool x + of_bool y) ! 0)] @ []"
      using True assms(2) by (simp add: block_bits_def)
    show "writes (if eob \<le> n then do {
          wr (\<lambda>w. WriteBool w (of_bool False) (probs ! bt ! n ! (of_bool x + of_bool y) ! 0));
          State_Monad.return None
        } else writeBlockTokensEOB probs bt (of_bool x + of_bool y) n q eob)
      (block_bits (probs ! bt) (of_bool x + of_bool y) n (map (scan_coeff q) [n..<eob])) None"
      unfolding e if_P [OF True]
      by (rule writes_bind, rule writes_WriteBool_of_bool, rule writes_return, rule sticky_return)
  next
    case False
    show "writes (if eob \<le> n then do {
          wr (\<lambda>w. WriteBool w (of_bool False) (probs ! bt ! n ! (of_bool x + of_bool y) ! 0));
          State_Monad.return None
        } else writeBlockTokensEOB probs bt (of_bool x + of_bool y) n q eob)
      (block_bits (probs ! bt) (of_bool x + of_bool y) n (map (scan_coeff q) [n..<eob])) None"
      unfolding if_not_P [OF False]
      using assms block_range_scan [OF assms(1)] by (intro writes_writeBlockTokensEOB) auto
  qed
qed

lemma coded_max: "map (scan_coeff (mc_QCoeff coeffs ! b)) [n..<max (mb_eob coeffs b) n] = coded coeffs n b"
  by (cases "mb_eob coeffs b \<le> n") (simp_all add: coded_def max_def)

lemma coded_empty: "coded coeffs n b \<noteq> [] \<longleftrightarrow> max (mb_eob coeffs b) n > n"
  by (simp add: coded_def max_def)

text \<open>One step of a block loop: the block's bits, then the rest of the loop with the new contexts.\<close>

lemma writes_block_step:
  assumes q: "block_range q" "n \<le> 1" "bt < 4" "eob \<le> 16"
    and p: "planes_ok abv" "planes_ok left" "slot_ok sa" "slot_ok sl"
    and rest: "writes K ys r" "sticky K"
  shows "writes (do {
      e \<leftarrow> write_block_ctx probs bt n (slot_get abv sa + slot_get left sl) q eob;
      if e \<noteq> None then State_Monad.return (e, abv, left) else K })
    (block_bits (probs ! bt) (of_bool (planes_flags abv sa) + of_bool (planes_flags left sl)) n
      (map (scan_coeff q) [n..<eob]) @ ys) r"
  unfolding slot_get_flag [OF p(1,3)] slot_get_flag [OF p(2,4)]
proof (rule writes_bind, rule writes_write_block_ctx [OF q])
  show "writes (if None \<noteq> (None :: packet_error option) then State_Monad.return (None, abv, left) else K) ys r"
    using rest by simp
  show "sticky (if e \<noteq> None then State_Monad.return (e, abv, left) else K)" for e
    using rest by (intro sticky_intros) auto
qed

lemma sticky_write_luma [sticky_intros]: "sticky (write_luma probs bt n coeffs bs abv left)"
proof (induction bs arbitrary: abv left)
  case Nil
  show ?case unfolding write_luma.simps by (rule sticky_return)
next
  case (Cons b bs)
  show ?case unfolding write_luma.simps Let_def by (intro sticky_intros Cons.IH)
qed

lemma sticky_write_chroma [sticky_intros]: "sticky (write_chroma probs coeffs bs abv left)"
proof (induction bs arbitrary: abv left)
  case Nil
  show ?case unfolding write_chroma.simps by (rule sticky_return)
next
  case (Cons b bs)
  obtain a l where u: "UVTokenContextIndex b = (a, l)" by (cases "UVTokenContextIndex b")
  show ?case unfolding write_chroma.simps Let_def u prod.case by (intro sticky_intros Cons.IH)
qed

lemma luma_slots:
  assumes "b < 16"
  shows "mb_select bt n (int b) = (b, bt, n, SlotY1 (b AND 3), SlotY1 (drop_bit 2 (b AND 0xC)))"
    "b AND 3 < 4" "drop_bit 2 (b AND 0xC) < 4"
proof -
  have "b \<in> set [0..<16]" using assms by simp
  moreover have "list_all (\<lambda>b. b AND 3 < 4 \<and> drop_bit 2 (b AND 0xC) < (4::nat)) [0..<16]" by code_simp
  ultimately show "b AND 3 < 4" "drop_bit 2 (b AND 0xC) < 4" unfolding list_all_iff by auto
  show "mb_select bt n (int b) = (b, bt, n, SlotY1 (b AND 3), SlotY1 (drop_bit 2 (b AND 0xC)))"
    using assms by (simp add: mb_select_def)
qed

lemma writes_write_luma:
  assumes "bt < 4" "n \<le> 1" "planes_ok abv" "planes_ok left"
    and "\<forall>b \<in> set bs. b < 16 \<and> block_range (mc_QCoeff coeffs ! b) \<and> mb_eob coeffs b \<le> 16 \<and> cs b = coded coeffs n b"
  shows "\<exists>abv' left'. planes_ok abv' \<and> planes_ok left' \<and>
    (planes_flags abv', planes_flags left')
      = plan_flags cs (map (\<lambda>b. mb_select bt n (int b)) bs) (planes_flags abv, planes_flags left) \<and>
    writes (write_luma probs bt n coeffs bs abv left)
      (plan_bits probs cs (map (\<lambda>b. mb_select bt n (int b)) bs) (planes_flags abv) (planes_flags left))
      (None, abv', left')"
  using assms(3-5)
proof (induction bs arbitrary: abv left)
  case Nil
  then show ?case by (intro exI [of _ abv] exI [of _ left]) (simp add: writes_return)
next
  case (Cons b bs)
  have b: "b < 16" "block_range (mc_QCoeff coeffs ! b)" "mb_eob coeffs b \<le> 16" "cs b = coded coeffs n b"
    using Cons.prems(3) by simp_all
  define sa where "sa = SlotY1 (b AND 3)"
  define sl where "sl = SlotY1 (drop_bit 2 (b AND 0xC))"
  define eob where "eob = max (mb_eob coeffs b) n"
  define abv1 where "abv1 = slot_set abv sa (of_bool (eob > n))"
  define left1 where "left1 = slot_set left sl (of_bool (eob > n))"
  have sel: "mb_select bt n (int b) = (b, bt, n, sa, sl)" and ok: "slot_ok sa" "slot_ok sl"
    using luma_slots [OF b(1)] by (simp_all add: sa_def sl_def)
  have h: "(eob > n) = (cs b \<noteq> [])" unfolding b(4) coded_empty eob_def ..
  have p1: "planes_ok abv1" "planes_ok left1"
    "planes_flags abv1 = (planes_flags abv)(sa := cs b \<noteq> [])" "planes_flags left1 = (planes_flags left)(sl := cs b \<noteq> [])"
    unfolding abv1_def left1_def h using Cons.prems ok by (simp_all add: slot_set_ok slot_set_flags)
  obtain abv' left' where ih: "planes_ok abv'" "planes_ok left'"
    "(planes_flags abv', planes_flags left')
      = plan_flags cs (map (\<lambda>b. mb_select bt n (int b)) bs) (planes_flags abv1, planes_flags left1)"
    "writes (write_luma probs bt n coeffs bs abv1 left1)
      (plan_bits probs cs (map (\<lambda>b. mb_select bt n (int b)) bs) (planes_flags abv1) (planes_flags left1))
      (None, abv', left')"
    using Cons.IH [OF p1(1,2)] Cons.prems(3) by auto
  have eob16: "eob \<le> 16" using b(3) assms(2) by (simp add: eob_def)
  have run: "write_luma probs bt n coeffs (b # bs) abv left = do {
      e \<leftarrow> write_block_ctx probs bt n (slot_get abv sa + slot_get left sl) (mc_QCoeff coeffs ! b) eob;
      if e \<noteq> None then State_Monad.return (e, abv, left) else write_luma probs bt n coeffs bs abv1 left1 }"
    by (simp only: write_luma.simps Let_def sa_def sl_def eob_def abv1_def left1_def slot_get.simps slot_set.simps)
  have "writes (write_luma probs bt n coeffs (b # bs) abv left)
      (block_bits (probs ! bt) (of_bool (planes_flags abv sa) + of_bool (planes_flags left sl)) n
        (map (scan_coeff (mc_QCoeff coeffs ! b)) [n..<eob])
       @ plan_bits probs cs (map (\<lambda>b. mb_select bt n (int b)) bs) (planes_flags abv1) (planes_flags left1))
      (None, abv', left')"
    unfolding run
    by (rule writes_block_step [OF b(2) assms(2,1) eob16 Cons.prems(1,2) ok ih(4) sticky_write_luma])
  then show ?case
    using ih(1-3) unfolding eob_def coded_max b(4) [symmetric] p1(3,4)
    by (intro exI [of _ abv'] exI [of _ left']) (simp add: sel)
qed

text \<open>The writer's chroma context numbers are the reader's pointers.\<close>

lemma uv_index:
  "list_all (\<lambda>b. mb_select 3 0 (int b) = (case UVTokenContextIndex b of (a, l) \<Rightarrow>
      (b, 2, 0, if a < 2 then SlotU a else SlotV (a - 2), if l < 2 then SlotU l else SlotV (l - 2)))
    \<and> fst (UVTokenContextIndex b) < 4 \<and> snd (UVTokenContextIndex b) < 4) [16..<24]"
  by code_simp

lemma chroma_slots:
  assumes "16 \<le> b" "b < 24" and u: "UVTokenContextIndex b = (a, l)"
  obtains sa sl where "mb_select bt n (int b) = (b, 2, 0, sa, sl)" "slot_ok sa" "slot_ok sl"
    "\<And>p. getTokenUVContext p a = slot_get p sa" "\<And>p v. setTokenUVContext p a v = slot_set p sa v"
    "\<And>p. getTokenUVContext p l = slot_get p sl" "\<And>p v. setTokenUVContext p l v = slot_set p sl v"
proof -
  have "b \<in> set [16..<24]" unfolding set_upt using assms(1,2) by simp
  with uv_index have s: "mb_select 3 0 (int b) = (b, 2, 0, if a < 2 then SlotU a else SlotV (a - 2), if l < 2 then SlotU l else SlotV (l - 2))"
    and lt: "a < 4" "l < 4" unfolding list_all_iff using u by fastforce+
  have "mb_select bt n (int b) = mb_select 3 0 (int b)" using assms(1) by (simp add: mb_select_def)
  then show ?thesis
    using s lt by (intro that [of "if a < 2 then SlotU a else SlotV (a - 2)" "if l < 2 then SlotU l else SlotV (l - 2)"])
      (auto simp: getTokenUVContext_def setTokenUVContext_def)
qed

lemma writes_write_chroma:
  assumes "planes_ok abv" "planes_ok left"
    and "\<forall>b \<in> set bs. 16 \<le> b \<and> b < 24 \<and> block_range (mc_QCoeff coeffs ! b) \<and> mb_eob coeffs b \<le> 16 \<and> cs b = coded coeffs 0 b"
  shows "\<exists>abv' left'. planes_ok abv' \<and> planes_ok left' \<and>
    (planes_flags abv', planes_flags left')
      = plan_flags cs (map (\<lambda>b. mb_select bt n (int b)) bs) (planes_flags abv, planes_flags left) \<and>
    writes (write_chroma probs coeffs bs abv left)
      (plan_bits probs cs (map (\<lambda>b. mb_select bt n (int b)) bs) (planes_flags abv) (planes_flags left))
      (None, abv', left')"
  using assms
proof (induction bs arbitrary: abv left)
  case Nil
  then show ?case by (intro exI [of _ abv] exI [of _ left]) (simp add: writes_return)
next
  case (Cons b bs)
  have b: "16 \<le> b" "b < 24" "block_range (mc_QCoeff coeffs ! b)" "mb_eob coeffs b \<le> 16" "cs b = coded coeffs 0 b"
    using Cons.prems(3) by simp_all
  obtain a l where u: "UVTokenContextIndex b = (a, l)" by (cases "UVTokenContextIndex b")
  obtain sa sl where sel: "mb_select bt n (int b) = (b, 2, 0, sa, sl)" and ok: "slot_ok sa" "slot_ok sl"
    and acc: "\<And>p. getTokenUVContext p a = slot_get p sa" "\<And>p v. setTokenUVContext p a v = slot_set p sa v"
    "\<And>p. getTokenUVContext p l = slot_get p sl" "\<And>p v. setTokenUVContext p l v = slot_set p sl v"
    using chroma_slots [OF b(1,2) u, of bt n] by metis
  define eob where "eob = mb_eob coeffs b"
  define abv1 where "abv1 = slot_set abv sa (of_bool (eob > 0))"
  define left1 where "left1 = slot_set left sl (of_bool (eob > 0))"
  have h: "(eob > 0) = (cs b \<noteq> [])" unfolding b(5) coded_empty eob_def by simp
  have p1: "planes_ok abv1" "planes_ok left1"
    "planes_flags abv1 = (planes_flags abv)(sa := cs b \<noteq> [])" "planes_flags left1 = (planes_flags left)(sl := cs b \<noteq> [])"
    unfolding abv1_def left1_def h using Cons.prems ok by (simp_all add: slot_set_ok slot_set_flags)
  obtain abv' left' where ih: "planes_ok abv'" "planes_ok left'"
    "(planes_flags abv', planes_flags left')
      = plan_flags cs (map (\<lambda>b. mb_select bt n (int b)) bs) (planes_flags abv1, planes_flags left1)"
    "writes (write_chroma probs coeffs bs abv1 left1)
      (plan_bits probs cs (map (\<lambda>b. mb_select bt n (int b)) bs) (planes_flags abv1) (planes_flags left1))
      (None, abv', left')"
    using Cons.IH [OF p1(1,2)] Cons.prems(3) by auto
  have run: "write_chroma probs coeffs (b # bs) abv left = do {
      e \<leftarrow> write_block_ctx probs 2 0 (slot_get abv sa + slot_get left sl) (mc_QCoeff coeffs ! b) eob;
      if e \<noteq> None then State_Monad.return (e, abv, left) else write_chroma probs coeffs bs abv1 left1 }"
    by (simp only: write_chroma.simps Let_def u prod.case eob_def abv1_def left1_def acc)
  have "writes (write_chroma probs coeffs (b # bs) abv left)
      (block_bits (probs ! 2) (of_bool (planes_flags abv sa) + of_bool (planes_flags left sl)) 0
        (map (scan_coeff (mc_QCoeff coeffs ! b)) [0..<eob])
       @ plan_bits probs cs (map (\<lambda>b. mb_select bt n (int b)) bs) (planes_flags abv1) (planes_flags left1))
      (None, abv', left')"
    unfolding run
    by (rule writes_block_step [OF b(3) _ _ _ Cons.prems(1,2) ok ih(4) sticky_write_chroma]) (use b(4) in \<open>simp_all add: eob_def\<close>)
  then show ?case
    using ih(1-3) unfolding eob_def coded_def [symmetric] b(5) [symmetric] p1(3,4)
    by (intro exI [of _ abv'] exI [of _ left']) (simp add: sel)
qed

lemma sticky_write_luma_chroma [sticky_intros]: "sticky (write_luma_chroma probs bt n coeffs abv left)"
  unfolding write_luma_chroma_def by (intro sticky_intros)

lemma sticky_macroblock [sticky_intros]: "sticky (writeCoefficientMacroblockTokensWithEOBs probs is4x4 abv left coeffs)"
  unfolding writeCoefficientMacroblockTokensWithEOBs_def Let_def by (intro sticky_intros)

definition luma_chroma_plan :: "nat \<Rightarrow> nat \<Rightarrow> mb_step list" where
  "luma_chroma_plan bt n =
     map (\<lambda>b. mb_select bt n (int b)) [0..<16] @ map (\<lambda>b. mb_select bt n (int b)) [16..<24]"

lemma mb_plan_split:
  "mb_plan False = (24, 1, 0, SlotY2, SlotY2) # luma_chroma_plan 0 1" "mb_plan True = luma_chroma_plan 3 0"
  by code_simp+

lemma writes_write_luma_chroma:
  assumes "bt < 4" "n \<le> 1" "planes_ok abv" "planes_ok left"
    and q: "\<forall>b < 24. block_range (mc_QCoeff coeffs ! b) \<and> mb_eob coeffs b \<le> 16"
    and cs: "\<forall>b < 16. cs b = coded coeffs n b" "\<forall>b. 16 \<le> b \<and> b < 24 \<longrightarrow> cs b = coded coeffs 0 b"
  shows "\<exists>abv' left'. planes_ok abv' \<and> planes_ok left' \<and>
    (planes_flags abv', planes_flags left')
      = plan_flags cs (luma_chroma_plan bt n) (planes_flags abv, planes_flags left) \<and>
    writes (write_luma_chroma probs bt n coeffs abv left)
      (plan_bits probs cs (luma_chroma_plan bt n) (planes_flags abv) (planes_flags left)) (None, abv', left')"
proof -
  have ql: "\<forall>b \<in> set [0..<16]. b < 16 \<and> block_range (mc_QCoeff coeffs ! b) \<and> mb_eob coeffs b \<le> 16 \<and> cs b = coded coeffs n b"
    unfolding set_upt using q cs(1) by simp
  have qc: "\<forall>b \<in> set [16..<24]. 16 \<le> b \<and> b < 24 \<and> block_range (mc_QCoeff coeffs ! b) \<and> mb_eob coeffs b \<le> 16
      \<and> cs b = coded coeffs 0 b"
    unfolding set_upt using q cs(2) by simp
  obtain a1 l1 where l: "planes_ok a1" "planes_ok l1"
    "(planes_flags a1, planes_flags l1)
      = plan_flags cs (map (\<lambda>b. mb_select bt n (int b)) [0..<16]) (planes_flags abv, planes_flags left)"
    "writes (write_luma probs bt n coeffs [0..<16] abv left)
      (plan_bits probs cs (map (\<lambda>b. mb_select bt n (int b)) [0..<16]) (planes_flags abv) (planes_flags left)) (None, a1, l1)"
    using writes_write_luma [OF assms(1-4) ql, of probs] by blast
  obtain a2 l2 where c: "planes_ok a2" "planes_ok l2"
    "(planes_flags a2, planes_flags l2)
      = plan_flags cs (map (\<lambda>b. mb_select bt n (int b)) [16..<24]) (planes_flags a1, planes_flags l1)"
    "writes (write_chroma probs coeffs [16..<24] a1 l1)
      (plan_bits probs cs (map (\<lambda>b. mb_select bt n (int b)) [16..<24]) (planes_flags a1) (planes_flags l1)) (None, a2, l2)"
    using writes_write_chroma [OF l(1,2) qc, of bt n probs] by blast
  have "writes (write_luma_chroma probs bt n coeffs abv left)
      (plan_bits probs cs (map (\<lambda>b. mb_select bt n (int b)) [0..<16]) (planes_flags abv) (planes_flags left)
       @ plan_bits probs cs (map (\<lambda>b. mb_select bt n (int b)) [16..<24]) (planes_flags a1) (planes_flags l1)) (None, a2, l2)"
    unfolding write_luma_chroma_def
    by (rule writes_bind, rule l(4)) (use c(4) in \<open>simp\<close>, intro sticky_intros)
  then show ?thesis
    using c(1-3) unfolding luma_chroma_plan_def plan_bits_append plan_flags_append l(3) [symmetric] Let_def prod.case by blast
qed

lemma mb_coeffs_okD:
  assumes "mb_coeffs_ok is4x4 coeffs" "b < 25"
  shows "block_range (mc_QCoeff coeffs ! b)" "mb_eob coeffs b \<le> 16"
  using assms by (auto simp: mb_coeffs_ok_def block_eob_ok_def)

theorem writes_macroblock:
  assumes ok: "mb_coeffs_ok is4x4 coeffs" and p: "planes_ok abv" "planes_ok left"
  shows "\<exists>abv' left'. planes_ok abv' \<and> planes_ok left' \<and>
    (planes_flags abv', planes_flags left')
      = plan_flags (mb_coded is4x4 coeffs) (mb_plan is4x4) (planes_flags abv, planes_flags left) \<and>
    writes (writeCoefficientMacroblockTokensWithEOBs probs is4x4 abv left coeffs)
      (plan_bits probs (mb_coded is4x4 coeffs) (mb_plan is4x4) (planes_flags abv) (planes_flags left)) (None, abv', left')"
proof -
  let ?cs = "mb_coded is4x4 coeffs"
  note B = mb_coeffs_okD [OF ok]
  have q: "\<forall>b < 24. block_range (mc_QCoeff coeffs ! b) \<and> mb_eob coeffs b \<le> 16" using B by simp
  show ?thesis
  proof (cases is4x4)
    case True
    then show ?thesis
      using writes_write_luma_chroma [OF _ _ p q, of 3 0 ?cs probs]
      by (simp add: mb_plan_split writeCoefficientMacroblockTokensWithEOBs_def mb_coded_def first_pos_def)
  next
    case False
    define eob where "eob = mb_eob coeffs 24"
    define abv1 where "abv1 = slot_set abv SlotY2 (of_bool (eob > 0))"
    define left1 where "left1 = slot_set left SlotY2 (of_bool (eob > 0))"
    have c24: "?cs 24 = map (scan_coeff (mc_QCoeff coeffs ! 24)) [0..<eob]"
      by (simp add: mb_coded_def coded_def first_pos_def eob_def)
    have h: "(eob > 0) = (?cs 24 \<noteq> [])" by (simp add: c24)
    have p1: "planes_ok abv1" "planes_ok left1"
      "planes_flags abv1 = (planes_flags abv)(SlotY2 := ?cs 24 \<noteq> [])"
      "planes_flags left1 = (planes_flags left)(SlotY2 := ?cs 24 \<noteq> [])"
      unfolding abv1_def left1_def h using p by (simp_all add: slot_set_ok slot_set_flags del: slot_set.simps)
    obtain abv' left' where r: "planes_ok abv'" "planes_ok left'"
      "(planes_flags abv', planes_flags left') = plan_flags ?cs (luma_chroma_plan 0 1) (planes_flags abv1, planes_flags left1)"
      "writes (write_luma_chroma probs 0 1 coeffs abv1 left1)
        (plan_bits probs ?cs (luma_chroma_plan 0 1) (planes_flags abv1) (planes_flags left1)) (None, abv', left')"
      using writes_write_luma_chroma [OF _ _ p1(1,2) q, of 0 1 ?cs probs] False
      by (auto simp: mb_coded_def first_pos_def)
    have run: "writeCoefficientMacroblockTokensWithEOBs probs is4x4 abv left coeffs = do {
        e \<leftarrow> write_block_ctx probs 1 0 (slot_get abv SlotY2 + slot_get left SlotY2) (mc_QCoeff coeffs ! 24) eob;
        if e \<noteq> None then State_Monad.return (e, abv, left) else write_luma_chroma probs 0 1 coeffs abv1 left1 }"
      using False by (simp only: writeCoefficientMacroblockTokensWithEOBs_def Let_def eob_def abv1_def left1_def
        slot_get.simps slot_set.simps not_False_eq_True if_True)
    have "writes (writeCoefficientMacroblockTokensWithEOBs probs is4x4 abv left coeffs)
      (block_bits (probs ! 1) (of_bool (planes_flags abv SlotY2) + of_bool (planes_flags left SlotY2)) 0
        (map (scan_coeff (mc_QCoeff coeffs ! 24)) [0..<eob])
       @ plan_bits probs ?cs (luma_chroma_plan 0 1) (planes_flags abv1) (planes_flags left1)) (None, abv', left')"
      unfolding run
      by (rule writes_block_step [OF B(1) _ _ _ p _ _ r(4) sticky_write_luma_chroma])
        (use B(2) [of 24] in \<open>simp_all add: eob_def\<close>)
    moreover have "plan_bits probs ?cs (mb_plan is4x4) (planes_flags abv) (planes_flags left)
      = block_bits (probs ! 1) (of_bool (planes_flags abv SlotY2) + of_bool (planes_flags left SlotY2)) 0
        (map (scan_coeff (mc_QCoeff coeffs ! 24)) [0..<eob])
       @ plan_bits probs ?cs (luma_chroma_plan 0 1) (planes_flags abv1) (planes_flags left1)"
      "plan_flags ?cs (mb_plan is4x4) (planes_flags abv, planes_flags left)
        = plan_flags ?cs (luma_chroma_plan 0 1) (planes_flags abv1, planes_flags left1)"
      using False unfolding p1(3,4) c24 [symmetric] by (simp_all only: mb_plan_split plan_bits.simps plan_flags.simps fst_conv snd_conv)
    ultimately show ?thesis using r(1-3) by metis
  qed
qed

section \<open>The reader follows the plan\<close>

text \<open>A coded list: in range, and ending in a nonzero coefficient unless it fills the block.\<close>

definition coded_ok :: "nat \<Rightarrow> int list \<Rightarrow> bool" where
  "coded_ok n cs \<longleftrightarrow> cs = [] \<or> n + length cs \<le> 16 \<and> (\<forall>c \<in> set cs. \<bar>c\<bar> \<le> int DCTMaxValue) \<and>
     (last cs \<noteq> 0 \<or> n + length cs = 16)"

definition coded_eob :: "nat \<Rightarrow> int list \<Rightarrow> nat" where
  "coded_eob n cs = (if cs = [] then 0 else n + length cs)"

lemma reads_block:
  assumes "coded_ok n cs" "n \<le> 1"
  shows "reads (ReadVP8BlockCoeffs probs bt ctx n out) (block_bits (probs ! bt) ctx n cs) (coded_eob n cs, put_scan out n cs)"
proof (cases "cs = []")
  case True
  then show ?thesis using reads_ReadVP8BlockCoeffs_empty [OF assms(2)] by (simp add: coded_eob_def)
next
  case False
  then show ?thesis
    using assms(1) reads_ReadVP8BlockCoeffs [OF False] by (simp add: coded_ok_def coded_eob_def)
qed

text \<open>What the reader's loop does with a block that decodes to \<open>cs\<close>.\<close>

definition mb_decode :: "nat \<Rightarrow> nat \<Rightarrow> (nat \<Rightarrow> int list) \<Rightarrow> mb_out \<Rightarrow> int \<Rightarrow> mb_out" where
  "mb_decode lt sk cs st idx = (case mb_select lt sk idx of (b, bt, n, sa, sl) \<Rightarrow>
     mb_store lt sk idx (coded_eob n (cs b)) (put_scan (mb_qcoeff st ! b) n (cs b)) st)"

definition step_ok :: "(nat \<Rightarrow> int list) \<Rightarrow> mb_step \<Rightarrow> bool" where
  "step_ok cs s = (case s of (b, bt, n, sa, sl) \<Rightarrow> b < 25 \<and> n \<le> 1 \<and> slot_ok sa \<and> slot_ok sl \<and> coded_ok n (cs b))"

lemma mb_decode_sel:
  assumes "mb_select lt sk idx = (b, bt, n, sa, sl)"
  shows "mb_above (mb_decode lt sk cs st idx) = slot_set (mb_above st) sa (of_bool (coded_eob n (cs b) > 0))"
    "mb_left (mb_decode lt sk cs st idx) = slot_set (mb_left st) sl (of_bool (coded_eob n (cs b) > 0))"
    "mb_qcoeff (mb_decode lt sk cs st idx) = (mb_qcoeff st)[b := put_scan (mb_qcoeff st ! b) n (cs b)]"
    "mb_dirty (mb_decode lt sk cs st idx) = (if coded_eob n (cs b) > 0 then mb_dirty st OR push_bit b 1 else mb_dirty st)"
  unfolding mb_decode_def mb_store_def assms prod.case Let_def by simp_all

lemma coded_eob_pos: "coded_eob n cs > 0 \<longleftrightarrow> cs \<noteq> []"
  by (simp add: coded_eob_def)

lemma mb_decode_planes:
  assumes "step_ok cs (mb_select lt sk idx)" "mb_select lt sk idx = (b, bt, n, sa, sl)"
    "planes_ok (mb_above st)" "planes_ok (mb_left st)"
  shows "planes_ok (mb_above (mb_decode lt sk cs st idx))" "planes_ok (mb_left (mb_decode lt sk cs st idx))"
    "planes_flags (mb_above (mb_decode lt sk cs st idx)) = (planes_flags (mb_above st))(sa := cs b \<noteq> [])"
    "planes_flags (mb_left (mb_decode lt sk cs st idx)) = (planes_flags (mb_left st))(sl := cs b \<noteq> [])"
  using assms(1,3,4) unfolding mb_decode_sel [OF assms(2)] coded_eob_pos step_ok_def assms(2)
  by (simp_all add: slot_set_ok slot_set_flags)

lemma reads_read_mb_loop:
  assumes "planes_ok (mb_above st)" "planes_ok (mb_left st)" "\<forall>idx \<in> set idxs. step_ok cs (mb_select lt sk idx)"
  shows "reads (read_mb_loop probs lt sk idxs st)
    (plan_bits probs cs (map (mb_select lt sk) idxs) (planes_flags (mb_above st)) (planes_flags (mb_left st)))
    (foldl (mb_decode lt sk cs) st idxs)"
  using assms
proof (induction idxs arbitrary: st)
  case Nil
  then show ?case by (simp add: reads_return)
next
  case (Cons idx idxs)
  obtain b bt n sa sl where sel: "mb_select lt sk idx = (b, bt, n, sa, sl)" by (metis prod_cases5)
  have ok: "step_ok cs (mb_select lt sk idx)" using Cons.prems(3) by simp
  then have s: "slot_ok sa" "slot_ok sl" "n \<le> 1" "coded_ok n (cs b)" by (simp_all add: step_ok_def sel)
  note P = mb_decode_planes [OF ok sel Cons.prems(1,2)]
  have ctx: "unat (slot_get (mb_above st) sa + slot_get (mb_left st) sl)
      = of_bool (planes_flags (mb_above st) sa) + of_bool (planes_flags (mb_left st) sl)"
    unfolding slot_get_flag [OF Cons.prems(1) s(1)] slot_get_flag [OF Cons.prems(2) s(2)] flag_sum ..
  have pr: "\<forall>idx \<in> set idxs. step_ok cs (mb_select lt sk idx)" using Cons.prems(3) by simp
  note ih = Cons.IH [OF P(1,2) pr, unfolded P(3,4)]
  have dec: "mb_decode lt sk cs st idx = mb_store lt sk idx (coded_eob n (cs b)) (put_scan (mb_qcoeff st ! b) n (cs b)) st"
    by (simp add: mb_decode_def sel)
  show ?case
    unfolding list.map sel read_mb_loop.simps Let_def prod.case ctx plan_bits.simps foldl.simps
    by (rule reads_bind, rule reads_block [OF s(4,3)]) (use ih in \<open>simp only: dec fst_conv snd_conv\<close>)
qed

end
