(* ===== verification/Vp8_Macroblock_Roundtrip.thy ===== *)
theory Vp8_Macroblock_Roundtrip
  imports Vp8_Macroblock_Tokens
begin

text \<open>
  What the writer and the reader of a macroblock's tokens guarantee together: the coefficients
  and the contexts survive the trip through bytes, and the reader's storage never keeps a
  coefficient of an earlier macroblock.
\<close>

section \<open>Scan order\<close>

lemma zigzag_distinct: "distinct DefaultZigZag1D" "length DefaultZigZag1D = 16"
  by code_simp+

lemma length_put_scan [simp]: "length (put_scan out pos cs) = length out"
  by (induction out pos cs rule: put_scan.induct) auto

lemma put_scan_nth:
  assumes "pos + length cs \<le> 16" "length out = 16" "\<forall>j. pos \<le> j \<longrightarrow> j < 16 \<longrightarrow> out ! (DefaultZigZag1D ! j) = 0" "i < 16"
  shows "put_scan out pos cs ! (DefaultZigZag1D ! i)
    = (if pos \<le> i \<and> i < pos + length cs then word_of_int (cs ! (i - pos)) else out ! (DefaultZigZag1D ! i))"
  using assms
proof (induction cs arbitrary: out pos)
  case Nil
  then show ?case by auto
next
  case (Cons c cs)
  define out' where "out' = (if c = 0 then out else out[DefaultZigZag1D ! pos := word_of_int c])"
  have pos: "pos < 16" using Cons.prems(1) by simp
  have ne: "DefaultZigZag1D ! j \<noteq> DefaultZigZag1D ! pos" if "j < 16" "j \<noteq> pos" for j
    using that pos zigzag_distinct by (simp add: nth_eq_iff_index_eq)
  have out': "out' ! (DefaultZigZag1D ! j) = (if j = pos then word_of_int c else out ! (DefaultZigZag1D ! j))" if "j < 16" for j
    using that ne [OF that] pos Cons.prems(2,3) zigzag_bound [OF pos] by (auto simp: out'_def)
  have ih: "put_scan out' (pos + 1) cs ! (DefaultZigZag1D ! i)
    = (if pos + 1 \<le> i \<and> i < pos + 1 + length cs then word_of_int (cs ! (i - (pos + 1))) else out' ! (DefaultZigZag1D ! i))"
    by (rule Cons.IH) (use Cons.prems out' in \<open>auto simp: out'_def\<close>)
  have st: "put_scan out pos (c # cs) = put_scan out' (pos + 1) cs" by (simp add: out'_def)
  show ?case
    unfolding st ih out' [OF Cons.prems(4)]
    by (cases "i \<le> pos") (auto simp: not_le less_eq_Suc_le [symmetric] nth_Cons' Suc_diff_Suc)
qed

text \<open>The block as coded: without its first coefficient where the second-order block carries it.\<close>

definition coded_block :: "nat \<Rightarrow> i16 list \<Rightarrow> i16 list" where
  "coded_block n q = (if n = 0 then q else q[0 := 0])"

abbreviation zero_block :: "i16 list" where
  "zero_block \<equiv> replicate 16 0"

lemma zigzag_zero: "i < 16 \<Longrightarrow> DefaultZigZag1D ! i = 0 \<longleftrightarrow> i = 0"
proof -
  assume i: "i < 16"
  have "DefaultZigZag1D ! 0 = 0" by code_simp
  then show ?thesis using i zigzag_distinct nth_eq_iff_index_eq [of DefaultZigZag1D i 0] by auto
qed

lemma put_scan_block:
  assumes q: "block_range q" and e: "block_eob_ok q n (max eob n)" and n: "n \<le> 1"
  shows "put_scan zero_block n (map (scan_coeff q) [n..<eob]) = coded_block n q"
proof (rule nth_equalityI)
  have len: "length q = 16" using q by (simp add: block_range_def)
  then show "length (put_scan zero_block n (map (scan_coeff q) [n..<eob])) = length (coded_block n q)"
    by (simp add: coded_block_def)
  fix k assume "k < length (put_scan zero_block n (map (scan_coeff q) [n..<eob]))"
  then have "k < 16" by simp
  then obtain i where i: "i < 16" "DefaultZigZag1D ! i = k" using zigzag_range by blast
  have eob: "max eob n \<le> 16" using e by (simp add: block_eob_ok_def)
  have "put_scan zero_block n (map (scan_coeff q) [n..<eob]) ! (DefaultZigZag1D ! i)
    = (if n \<le> i \<and> i < n + length (map (scan_coeff q) [n..<eob])
       then word_of_int (map (scan_coeff q) [n..<eob] ! (i - n)) else zero_block ! (DefaultZigZag1D ! i))"
    using n eob i(1) by (intro put_scan_nth) (auto simp: zigzag_bound)
  also have "\<dots> = (if n \<le> i then word_of_int (scan_coeff q i) else 0)"
    using e i(1) zigzag_bound [OF i(1)] by (auto simp: block_eob_ok_def max_def split: if_splits)
  also have "\<dots> = coded_block n q ! (DefaultZigZag1D ! i)"
    using n len zigzag_zero [OF i(1)] zigzag_bound [OF i(1)] by (auto simp: coded_block_def scan_coeff_def nth_list_update)
  finally show "put_scan zero_block n (map (scan_coeff q) [n..<eob]) ! k = coded_block n q ! k" using i(2) by simp
qed

section \<open>Blocks of the plan\<close>

lemma plan_step_blocks:
  "map (\<lambda>s. fst s) (mb_plan is4x4) = (if is4x4 then [] else [24]) @ [0..<24]"
  by (cases is4x4; simp only: simp_thms if_True if_False; code_simp)

lemma plan_step_first:
  "list_all (\<lambda>(b, bt, n, sa, sl). n = first_pos is4x4 b \<and> b < 25 \<and> slot_ok sa \<and> slot_ok sl) (mb_plan is4x4)"
  by (cases is4x4; simp only: simp_thms if_True if_False; code_simp)

lemma coded_ok_block:
  assumes "mb_coeffs_ok is4x4 coeffs" "b < 25"
  shows "coded_ok (first_pos is4x4 b) (mb_coded is4x4 coeffs b)"
proof (cases "mb_coded is4x4 coeffs b = []")
  case False
  define n where "n = first_pos is4x4 b"
  define q where "q = mc_QCoeff coeffs ! b"
  define eob where "eob = mb_eob coeffs b"
  have lt: "n < eob" using False by (simp add: mb_coded_def coded_def n_def eob_def)
  have q: "block_range q" "block_eob_ok q n eob"
    using assms lt by (auto simp: mb_coeffs_ok_def q_def n_def eob_def max_def)
  have c: "mb_coded is4x4 coeffs b = map (scan_coeff q) [n..<eob]"
    by (simp add: mb_coded_def coded_def n_def q_def eob_def)
  have "last (map (scan_coeff q) [n..<eob]) = scan_coeff q (eob - 1)" using lt by (simp add: last_map)
  then show ?thesis
    using q lt block_range_scan [OF q(1)] unfolding c n_def [symmetric] coded_ok_def block_eob_ok_def by auto
qed (simp add: coded_ok_def)

lemma plan_step_ok:
  assumes "mb_coeffs_ok is4x4 coeffs"
  shows "\<forall>s \<in> set (mb_plan is4x4). step_ok (mb_coded is4x4 coeffs) s"
  using plan_step_first [of is4x4] coded_ok_block [OF assms]
  unfolding list_all_iff step_ok_def by (auto simp: first_pos_def)

definition mb_idxs :: "bool \<Rightarrow> int list" where
  "mb_idxs is4x4 = (if \<not> is4x4 then [-1..23] else [0..23])"

abbreviation mb_sel :: "bool \<Rightarrow> int \<Rightarrow> mb_step" where
  "mb_sel is4x4 \<equiv> (if \<not> is4x4 then mb_select 0 1 else mb_select 3 0)"

lemma mb_plan_idxs: "mb_plan is4x4 = map (mb_sel is4x4) (mb_idxs is4x4)"
  by (simp add: mb_plan_def mb_idxs_def)

lemma foldl_decode_planes:
  assumes "\<forall>idx \<in> set idxs. step_ok cs (mb_select lt sk idx)" "planes_ok (mb_above st)" "planes_ok (mb_left st)"
  shows "planes_ok (mb_above (foldl (mb_decode lt sk cs) st idxs)) \<and> planes_ok (mb_left (foldl (mb_decode lt sk cs) st idxs)) \<and>
    (planes_flags (mb_above (foldl (mb_decode lt sk cs) st idxs)), planes_flags (mb_left (foldl (mb_decode lt sk cs) st idxs)))
      = plan_flags cs (map (mb_select lt sk) idxs) (planes_flags (mb_above st), planes_flags (mb_left st))"
  using assms
proof (induction idxs arbitrary: st)
  case Nil
  then show ?case by simp
next
  case (Cons idx idxs)
  obtain b bt n sa sl where sel: "mb_select lt sk idx = (b, bt, n, sa, sl)" by (metis prod_cases5)
  have ok: "step_ok cs (mb_select lt sk idx)" and pr: "\<forall>idx \<in> set idxs. step_ok cs (mb_select lt sk idx)"
    using Cons.prems(1) by simp_all
  note P = mb_decode_planes [OF ok sel Cons.prems(2,3)]
  show ?case
    using Cons.IH [OF pr P(1,2)] unfolding foldl.simps list.map sel plan_flags.simps fst_conv snd_conv P(3,4) .
qed

lemma foldl_decode_blocks:
  fixes cs :: "nat \<Rightarrow> int list"
  assumes "distinct (map (\<lambda>idx. fst (mb_select lt sk idx)) idxs)"
    "\<forall>idx \<in> set idxs. fst (mb_select lt sk idx) < length (mb_qcoeff st)" "\<forall>idx \<in> set idxs. fst (mb_select lt sk idx) < 32"
  defines "st' \<equiv> foldl (mb_decode lt sk cs) st idxs"
  shows "length (mb_qcoeff st') = length (mb_qcoeff st) \<and>
    (\<forall>b. b \<notin> set (map (\<lambda>idx. fst (mb_select lt sk idx)) idxs) \<longrightarrow>
      mb_qcoeff st' ! b = mb_qcoeff st ! b \<and> bit (mb_dirty st') b = bit (mb_dirty st) b) \<and>
    (\<forall>(b, bt, n, sa, sl) \<in> set (map (mb_select lt sk) idxs).
      mb_qcoeff st' ! b = put_scan (mb_qcoeff st ! b) n (cs b) \<and>
      bit (mb_dirty st') b = (bit (mb_dirty st) b \<or> cs b \<noteq> []))"
  using assms(1-3) unfolding st'_def
proof (induction idxs arbitrary: st)
  case Nil
  then show ?case by simp
next
  case (Cons idx idxs)
  obtain b bt n sa sl where sel: "mb_select lt sk idx = (b, bt, n, sa, sl)" by (metis prod_cases5)
  define st1 where "st1 = mb_decode lt sk cs st idx"
  define r where "r = foldl (mb_decode lt sk cs) st1 idxs"
  have q: "mb_qcoeff st1 = (mb_qcoeff st)[b := put_scan (mb_qcoeff st ! b) n (cs b)]"
    and d: "mb_dirty st1 = (if cs b \<noteq> [] then mb_dirty st OR push_bit b 1 else mb_dirty st)"
    unfolding st1_def mb_decode_sel [OF sel] coded_eob_pos by (rule refl)+
  have st: "foldl (mb_decode lt sk cs) st (idx # idxs) = r" by (simp add: st1_def r_def)
  have b: "b < length (mb_qcoeff st)" "b < 32" "b \<notin> set (map (\<lambda>idx. fst (mb_select lt sk idx)) idxs)"
    using Cons.prems sel by auto
  have ih: "length (mb_qcoeff r) = length (mb_qcoeff st1)"
    "\<forall>b. b \<notin> set (map (\<lambda>idx. fst (mb_select lt sk idx)) idxs) \<longrightarrow>
      mb_qcoeff r ! b = mb_qcoeff st1 ! b \<and> bit (mb_dirty r) b = bit (mb_dirty st1) b"
    "\<forall>(b, bt, n, sa, sl) \<in> set (map (mb_select lt sk) idxs).
      mb_qcoeff r ! b = put_scan (mb_qcoeff st1 ! b) n (cs b) \<and> bit (mb_dirty r) b = (bit (mb_dirty st1) b \<or> cs b \<noteq> [])"
    using Cons.IH [of st1] Cons.prems unfolding r_def by (simp_all add: q)
  have other: "mb_qcoeff st1 ! b' = mb_qcoeff st ! b' \<and> bit (mb_dirty st1) b' = bit (mb_dirty st) b'" if "b' \<noteq> b" for b'
    using that by (auto simp: q d bit_or_iff bit_exp_iff)
  have this_b: "mb_qcoeff st1 ! b = put_scan (mb_qcoeff st ! b) n (cs b)"
    "bit (mb_dirty st1) b = (bit (mb_dirty st) b \<or> cs b \<noteq> [])"
    using b by (simp_all add: q d bit_or_iff bit_exp_iff)
  show ?case
    unfolding st
  proof (intro conjI)
    show "length (mb_qcoeff r) = length (mb_qcoeff st)" using ih(1) by (simp add: q)
    show "\<forall>b. b \<notin> set (map (\<lambda>idx. fst (mb_select lt sk idx)) (idx # idxs)) \<longrightarrow>
        mb_qcoeff r ! b = mb_qcoeff st ! b \<and> bit (mb_dirty r) b = bit (mb_dirty st) b"
      using ih(2) other sel by auto
    have "mb_qcoeff r ! b' = put_scan (mb_qcoeff st ! b') n' (cs b') \<and> bit (mb_dirty r) b' = (bit (mb_dirty st) b' \<or> cs b' \<noteq> [])"
      if m: "(b', bt', n', sa', sl') \<in> set (map (mb_select lt sk) idxs)" for b' bt' n' sa' sl'
    proof -
      obtain idx' where "idx' \<in> set idxs" "fst (mb_select lt sk idx') = b'" using m unfolding set_map by (metis fst_conv imageE)
      then have "b' \<in> set (map (\<lambda>idx. fst (mb_select lt sk idx)) idxs)" by auto
      then have "b' \<noteq> b" using b(3) by blast
      then show ?thesis using other [of b'] ih(3) m by fastforce
    qed
    then have tl: "\<forall>(b, bt, n, sa, sl) \<in> set (map (mb_select lt sk) idxs).
        mb_qcoeff r ! b = put_scan (mb_qcoeff st ! b) n (cs b) \<and> bit (mb_dirty r) b = (bit (mb_dirty st) b \<or> cs b \<noteq> [])"
      by blast
    have hd: "mb_qcoeff r ! b = put_scan (mb_qcoeff st ! b) n (cs b) \<and> bit (mb_dirty r) b = (bit (mb_dirty st) b \<or> cs b \<noteq> [])"
      using ih(2) b(3) this_b by simp
    show "\<forall>(b, bt, n, sa, sl) \<in> set (map (mb_select lt sk) (idx # idxs)).
        mb_qcoeff r ! b = put_scan (mb_qcoeff st ! b) n (cs b) \<and> bit (mb_dirty r) b = (bit (mb_dirty st) b \<or> cs b \<noteq> [])"
      unfolding list.map sel list.set ball_simps prod.case using hd tl by blast
  qed
qed

section \<open>Round trip\<close>

lemma mb_idxs_blocks:
  "distinct (map (\<lambda>idx. fst (mb_select 0 1 idx)) [-1..23])" "distinct (map (\<lambda>idx. fst (mb_select 3 0 idx)) [0..23])"
  by code_simp+

text \<open>The state the reader leaves after the bits of a macroblock.\<close>

definition mb_result :: "bool \<Rightarrow> (nat \<Rightarrow> int list) \<Rightarrow> TokenContextPlanes \<Rightarrow> TokenContextPlanes \<Rightarrow> mb_out" where
  "mb_result is4x4 cs abv left =
     (let st = \<lparr>mb_above = abv, mb_left = left, mb_qcoeff = replicate 25 zero_block, mb_eobs = replicate 25 0,
                mb_total = 0, mb_dirty = 0\<rparr>
      in if \<not> is4x4 then foldl (mb_decode 0 1 cs) st [-1..23] else foldl (mb_decode 3 0 cs) st [0..23])"

lemma reads_macroblock:
  assumes "planes_ok abv" "planes_ok left" "\<forall>s \<in> set (mb_plan is4x4). step_ok cs s"
  shows "reads (ReadVP8MacroblockCoeffs probs is4x4 abv left (replicate 25 zero_block) (replicate 25 0))
    (plan_bits probs cs (mb_plan is4x4) (planes_flags abv) (planes_flags left)) (mb_result is4x4 cs abv left)"
proof -
  let ?st = "\<lparr>mb_above = abv, mb_left = left, mb_qcoeff = replicate 25 zero_block, mb_eobs = replicate 25 0,
    mb_total = 0, mb_dirty = 0\<rparr>"
  have p: "planes_ok (mb_above ?st)" "planes_ok (mb_left ?st)" using assms by simp_all
  note loop = reads_read_mb_loop [OF p, of _ cs _ _ probs]
  show ?thesis
    using loop [of "[-1..23]" 0 1] loop [of "[0..23]" 3 0] assms(3)
    unfolding ReadVP8MacroblockCoeffs_def mb_result_def mb_plan_def Let_def
    by (cases is4x4) (simp_all only: simp_thms if_True if_False mb_out.simps set_map ball_simps)
qed

lemma mb_result_facts:
  assumes "planes_ok abv" "planes_ok left" "\<forall>s \<in> set (mb_plan is4x4). step_ok cs s"
  defines "r \<equiv> mb_result is4x4 cs abv left"
  shows "planes_ok (mb_above r)" "planes_ok (mb_left r)"
    and "(planes_flags (mb_above r), planes_flags (mb_left r))
      = plan_flags cs (mb_plan is4x4) (planes_flags abv, planes_flags left)"
    and "\<forall>(b, bt, n, sa, sl) \<in> set (mb_plan is4x4).
      mb_qcoeff r ! b = put_scan zero_block n (cs b) \<and> bit (mb_dirty r) b = (cs b \<noteq> [])"
proof -
  let ?st = "\<lparr>mb_above = abv, mb_left = left, mb_qcoeff = replicate 25 zero_block, mb_eobs = replicate 25 0,
    mb_total = 0, mb_dirty = 0\<rparr>"
  have p: "planes_ok (mb_above ?st)" "planes_ok (mb_left ?st)" using assms by simp_all
  have lt: "\<forall>idx \<in> set (mb_idxs is4x4). fst (mb_sel is4x4 idx) < 25"
    using assms(3) unfolding mb_plan_idxs step_ok_def by (auto simp: case_prod_beta)
  have r: "r = foldl (if \<not> is4x4 then mb_decode 0 1 cs else mb_decode 3 0 cs) ?st (mb_idxs is4x4)"
    by (simp add: r_def mb_result_def mb_idxs_def)
  have ok: "\<forall>idx \<in> set (mb_idxs is4x4). step_ok cs (mb_sel is4x4 idx)" using assms(3) by (simp add: mb_plan_idxs)
  have planes: "planes_ok (mb_above r) \<and> planes_ok (mb_left r) \<and> (planes_flags (mb_above r), planes_flags (mb_left r))
      = plan_flags cs (mb_plan is4x4) (planes_flags abv, planes_flags left)"
    using foldl_decode_planes [OF _ p, of "mb_idxs is4x4" cs 0 1] foldl_decode_planes [OF _ p, of "mb_idxs is4x4" cs 3 0] ok
    unfolding r mb_plan_idxs by (cases is4x4) (simp_all only: simp_thms if_True if_False mb_out.simps)
  then show "planes_ok (mb_above r)" "planes_ok (mb_left r)"
    "(planes_flags (mb_above r), planes_flags (mb_left r)) = plan_flags cs (mb_plan is4x4) (planes_flags abv, planes_flags left)"
    by blast+
  have d: "distinct (map (\<lambda>idx. fst (mb_sel is4x4 idx)) (mb_idxs is4x4))"
    using mb_idxs_blocks by (cases is4x4) (simp_all only: mb_idxs_def simp_thms if_True if_False)
  have blocks: "\<forall>(b, bt, n, sa, sl) \<in> set (mb_plan is4x4).
      mb_qcoeff r ! b = put_scan (mb_qcoeff ?st ! b) n (cs b) \<and> bit (mb_dirty r) b = (bit (mb_dirty ?st) b \<or> cs b \<noteq> [])"
  proof (cases is4x4)
    case True
    have d': "distinct (map (\<lambda>idx. fst (mb_select 3 0 idx)) (mb_idxs is4x4))" using d True by simp
    have "\<forall>idx \<in> set (mb_idxs is4x4). fst (mb_select 3 0 idx) < length (mb_qcoeff ?st)"
      "\<forall>idx \<in> set (mb_idxs is4x4). fst (mb_select 3 0 idx) < 32" using lt True by auto
    note F = foldl_decode_blocks [OF d' this, of cs]
    have "r = foldl (mb_decode 3 0 cs) ?st (mb_idxs is4x4)" "mb_plan is4x4 = map (mb_select 3 0) (mb_idxs is4x4)"
      using True by (simp_all add: r mb_plan_idxs)
    then show ?thesis using F [THEN conjunct2, THEN conjunct2] by (simp only:)
  next
    case False
    have d': "distinct (map (\<lambda>idx. fst (mb_select 0 1 idx)) (mb_idxs is4x4))" using d False by simp
    have "\<forall>idx \<in> set (mb_idxs is4x4). fst (mb_select 0 1 idx) < length (mb_qcoeff ?st)"
      "\<forall>idx \<in> set (mb_idxs is4x4). fst (mb_select 0 1 idx) < 32" using lt False by auto
    note F = foldl_decode_blocks [OF d' this, of cs]
    have "r = foldl (mb_decode 0 1 cs) ?st (mb_idxs is4x4)" "mb_plan is4x4 = map (mb_select 0 1) (mb_idxs is4x4)"
      using False by (simp_all add: r mb_plan_idxs)
    then show ?thesis using F [THEN conjunct2, THEN conjunct2] by (simp only:)
  qed
  then show "\<forall>(b, bt, n, sa, sl) \<in> set (mb_plan is4x4).
      mb_qcoeff r ! b = put_scan zero_block n (cs b) \<and> bit (mb_dirty r) b = (cs b \<noteq> [])"
    using assms(3) by (fastforce simp: step_ok_def)
qed

section \<open>Room\<close>

lemma token_bits_length:
  assumes "\<bar>c\<bar> \<le> int DCTMaxValue"
  shows "length (token_bits p c skip) \<le> 19"
proof -
  define t where "t = coeffAbsToken (nat \<bar>c\<bar>)"
  have "t \<in> set [0..<11]" using token_range [OF assms] by (simp add: t_def)
  moreover have "list_all (\<lambda>t. length (coefficientTokenBranchPaths ! t) + x_len (coefficientExtraBitEncodings ! t) \<le> 18) [0..<11]"
    by code_simp
  ultimately have "length (coefficientTokenBranchPaths ! t) + x_len (coefficientExtraBitEncodings ! t) \<le> 18"
    unfolding list_all_iff by (rule bspec [rotated])
  then show ?thesis
    unfolding token_bits_def t_def [symmetric] Let_def path_bits_def extra_bits_def
    by (cases skip; cases "t = 0") (auto simp: Let_def)
qed

lemma coef_bits_length:
  "\<forall>c \<in> set cs. \<bar>c\<bar> \<le> int DCTMaxValue \<Longrightarrow> length (coef_bits bt pos band ctx skip cs) \<le> 19 * length cs + 1"
proof (induction cs arbitrary: pos band ctx skip)
  case Nil
  then show ?case by simp
next
  case (Cons c cs)
  have c: "\<bar>c\<bar> \<le> int DCTMaxValue" "\<forall>c \<in> set cs. \<bar>c\<bar> \<le> int DCTMaxValue" using Cons.prems by simp_all
  show ?case
    unfolding coef_bits.simps Let_def length_append
    using add_mono [OF token_bits_length [OF c(1)] Cons.IH [OF c(2)]] by simp
qed

lemma plan_bits_length:
  "\<forall>s \<in> set steps. step_ok cs s \<Longrightarrow> length (plan_bits probs cs steps A L) \<le> 305 * length steps"
proof (induction steps arbitrary: A L)
  case Nil
  then show ?case by simp
next
  case (Cons s steps)
  obtain b bt n sa sl where s: "s = (b, bt, n, sa, sl)" by (metis prod_cases5)
  have ok: "coded_ok n (cs b)" using Cons.prems by (simp add: s step_ok_def)
  have "length (block_bits (probs ! bt) (of_bool (A sa) + of_bool (L sl)) n (cs b)) \<le> 19 * length (cs b) + 1"
    unfolding block_bits_def using ok by (intro coef_bits_length) (auto simp: coded_ok_def)
  moreover have "length (cs b) \<le> 16" using ok by (auto simp: coded_ok_def)
  ultimately have "length (block_bits (probs ! bt) (of_bool (A sa) + of_bool (L sl)) n (cs b)) \<le> 305" by linarith
  moreover have pr: "\<forall>s \<in> set steps. step_ok cs s" using Cons.prems by simp
  ultimately show ?case
    unfolding s plan_bits.simps length_append
    using add_mono [OF _ Cons.IH [OF pr, of "A(sa := cs b \<noteq> [])" "L(sl := cs b \<noteq> [])"]] by (fastforce simp only: list.size mult_Suc_right add_0_right plus_1_eq_Suc add_Suc_right)
qed

lemma mb_plan_length: "length (mb_plan is4x4) \<le> 25"
  using plan_step_blocks [of is4x4] by (cases is4x4) (auto dest: arg_cong [where f = length])

section \<open>Properties\<close>

text \<open>C8: A macroblock's coefficients survive coding. Whatever quantised coefficients the encoder
  holds (in range, with true ends of block) and whatever contexts the two sides share, what
  \<open>writeCoefficientMacroblockTokensWithEOBs\<close> writes, flushed and reopened, is read by
  \<open>ReadVP8MacroblockCoeffs\<close> as the same coefficients of every coded block, the same new
  contexts, and a dirty mask that marks exactly the blocks with coded coefficients.\<close>

theorem macroblock_tokens_roundtrip:
  fixes coeffs :: MacroblockCoefficients and probs :: coef_probs and dst :: "byte list"
  assumes "mb_coeffs_ok is4x4 coeffs" "planes_ok abv" "planes_ok left"
  defines "run \<equiv> run_state (writeCoefficientMacroblockTokensWithEOBs probs is4x4 abv left coeffs) (Writer_Init dst)"
  assumes "w_err (Finish (snd run)) = 0"
  defines "r \<equiv> fst (run_state (ReadVP8MacroblockCoeffs probs is4x4 abv left (replicate 25 (replicate 16 0)) (replicate 25 0))
     (Decoder_Init (Bytes (Finish (snd run)))))"
  shows "fst run = (None, mb_above r, mb_left r) \<and>
    (\<forall>b < (if is4x4 then 24 else 25). mb_qcoeff r ! b = coded_block (first_pos is4x4 b) (mc_QCoeff coeffs ! b) \<and>
       (bit (mb_dirty r) b \<longleftrightarrow> first_pos is4x4 b < mb_eob coeffs b))"
proof -
  let ?cs = "mb_coded is4x4 coeffs"
  obtain abv' left' where w: "planes_ok abv'" "planes_ok left'"
    "(planes_flags abv', planes_flags left') = plan_flags ?cs (mb_plan is4x4) (planes_flags abv, planes_flags left)"
    "writes (writeCoefficientMacroblockTokensWithEOBs probs is4x4 abv left coeffs)
      (plan_bits probs ?cs (mb_plan is4x4) (planes_flags abv) (planes_flags left)) (None, abv', left')"
    using writes_macroblock [OF assms(1-3), of probs] by blast
  have steps: "\<forall>s \<in> set (mb_plan is4x4). step_ok ?cs s" using assms(1) by (rule plan_step_ok)
  have r: "r = mb_result is4x4 ?cs abv left"
    unfolding r_def run_def
    by (rule writes_roundtrip [OF w(4) reads_macroblock [OF assms(2,3) steps]]) (use assms(5) in \<open>simp only: run_def\<close>)
  note F = mb_result_facts [OF assms(2,3) steps, folded r]
  have "mb_above r = abv'" "mb_left r = left'"
    using planes_eqI [OF F(1) w(1)] planes_eqI [OF F(2) w(2)] F(3) w(3) by (metis prod.inject)+
  moreover have "fst run = (None, abv', left')"
    unfolding run_def by (rule writes_result [OF w(4)]) (use assms(5) in \<open>simp only: run_def\<close>)
  moreover have "mb_qcoeff r ! b = coded_block (first_pos is4x4 b) (mc_QCoeff coeffs ! b) \<and>
       (bit (mb_dirty r) b \<longleftrightarrow> first_pos is4x4 b < mb_eob coeffs b)" if "b < (if is4x4 then 24 else 25)" for b
  proof -
    have "b \<in> set (map fst (mb_plan is4x4))" unfolding plan_step_blocks using that by (cases is4x4) auto
    then obtain bt n sa sl where s: "(b, bt, n, sa, sl) \<in> set (mb_plan is4x4)" by auto
    then have n: "n = first_pos is4x4 b" "b < 25" using plan_step_first [of is4x4] by (auto simp: list_all_iff)
    have "mb_qcoeff r ! b = put_scan zero_block n (?cs b) \<and> bit (mb_dirty r) b = (?cs b \<noteq> [])" using F(4) s by blast
    moreover have "put_scan zero_block n (?cs b) = coded_block n (mc_QCoeff coeffs ! b)"
      unfolding mb_coded_def coded_def n(1) [symmetric]
      using assms(1) n by (intro put_scan_block) (auto simp: mb_coeffs_ok_def first_pos_def)
    ultimately show ?thesis by (auto simp: n mb_coded_def coded_def)
  qed
  ultimately show ?thesis by blast
qed

definition sample_block :: "i16 list" where
  "sample_block = [5, -2, 0, 0, 70, 0, 0, 0, 0, 0, 0, 0, 0, 0, 0, 0]"

definition sample_coeffs :: MacroblockCoefficients where
  "sample_coeffs = \<lparr>mc_QCoeff = sample_block # replicate 24 zero_block, mc_EOB = 3 # replicate 24 0\<rparr>"

lemma zero_block_ok: "n \<le> 1 \<Longrightarrow> block_range zero_block \<and> block_eob_ok zero_block n n"
  by (auto simp: block_range_def block_eob_ok_def scan_coeff_def zigzag_bound list_all_iff)

lemma sample_block_ok: "block_range sample_block" "block_eob_ok sample_block 1 3"
proof -
  show "block_range sample_block" by code_simp
  have "list_all (\<lambda>i. scan_coeff sample_block i = 0) [3..<16]" "scan_coeff sample_block 2 \<noteq> 0" by code_simp+
  then show "block_eob_ok sample_block 1 3" unfolding block_eob_ok_def list_all_iff set_upt by simp
qed

lemma sample_coeffs_ok: "mb_coeffs_ok False sample_coeffs"
  unfolding mb_coeffs_ok_def
proof (intro conjI allI impI)
  fix b :: nat
  assume b: "b < 25"
  have e: "mb_eob sample_coeffs b = (if b = 0 then 3 else 0)" "mc_QCoeff sample_coeffs ! b = (if b = 0 then sample_block else zero_block)"
    using b by (cases b; simp add: mb_eob_def sample_coeffs_def)+
  show "block_range (mc_QCoeff sample_coeffs ! b)"
    "block_eob_ok (mc_QCoeff sample_coeffs ! b) (first_pos False b) (max (mb_eob sample_coeffs b) (first_pos False b))"
    unfolding e using sample_block_ok zero_block_ok [of "first_pos False b"]
    by (cases "b = 0"; simp add: first_pos_def)+
qed (simp_all add: sample_coeffs_def)

lemma macroblock_fits:
  assumes "mb_coeffs_ok is4x4 coeffs" "planes_ok abv" "planes_ok left" "7657 \<le> length dst"
  shows "w_err (Finish (snd (run_state (writeCoefficientMacroblockTokensWithEOBs probs is4x4 abv left coeffs) (Writer_Init dst)))) = 0"
proof -
  have "length (plan_bits probs (mb_coded is4x4 coeffs) (mb_plan is4x4) (planes_flags abv) (planes_flags left)) \<le> 305 * 25"
    using plan_bits_length [OF plan_step_ok [OF assms(1)], of probs "planes_flags abv" "planes_flags left"] mb_plan_length [of is4x4]
    by linarith
  then show ?thesis
    using writes_macroblock [OF assms(1-3), of probs] writes_fit assms(4) by fastforce
qed

theorem macroblock_tokens_roundtrip_witness:
  "mb_qcoeff (fst (run_state (ReadVP8MacroblockCoeffs DefaultCoefProbs False zero_planes zero_planes
      (replicate 25 (replicate 16 0)) (replicate 25 0))
     (Decoder_Init (Bytes (Finish (snd (run_state (writeCoefficientMacroblockTokensWithEOBs DefaultCoefProbs False
        zero_planes zero_planes sample_coeffs) (Writer_Init (replicate 8000 0)))))))))
   ! 0 = [0, -2, 0, 0, 70, 0, 0, 0, 0, 0, 0, 0, 0, 0, 0, 0]"
proof -
  have "w_err (Finish (snd (run_state (writeCoefficientMacroblockTokensWithEOBs DefaultCoefProbs False
        zero_planes zero_planes sample_coeffs) (Writer_Init (replicate 8000 0))))) = 0"
    by (rule macroblock_fits [OF sample_coeffs_ok planes_ok_zero planes_ok_zero]) simp
  from macroblock_tokens_roundtrip [OF sample_coeffs_ok planes_ok_zero planes_ok_zero this, THEN conjunct2, THEN spec [of _ 0]]
  show ?thesis by (simp add: coded_block_def first_pos_def sample_coeffs_def sample_block_def)
qed

end
