(* ===== verification/Vp8_Token_Storage.thy ===== *)
theory Vp8_Token_Storage
  imports Vp8_Macroblock_Roundtrip
begin

text \<open>
  The token storage a decoder reuses from macroblock to macroblock
  (\<^verbatim>\<open>internal/vp8/decoder/tokens.go\<close>) and the encoder's two ways of updating the contexts
  (\<open>UpdateTokenContextPlanesFromCoefficients\<close> of \<^verbatim>\<open>internal/vp8/encoder/tokenize.go\<close>).
\<close>

section \<open>Reused storage never leaks\<close>

text \<open>Every block that is not zero is one the next clear resets.\<close>

definition tokens_clean :: "MacroblockTokens \<Rightarrow> bool" where
  "tokens_clean t \<longleftrightarrow> length (mt_QCoeff t) = 25 \<and> length (mt_EOB t) = 25 \<and>
     (\<forall>b < 25. mt_QCoeff t ! b \<noteq> replicate 16 0 \<longrightarrow>
        (if mt_dirtyMask t \<noteq> 0 then bit (mt_dirtyMask t) b else mt_EOB t ! b \<noteq> 0))"

definition fresh_tokens :: MacroblockTokens where
  "fresh_tokens = \<lparr>mt_QCoeff = replicate 25 (replicate 16 0), mt_EOB = replicate 25 0, mt_dirtyMask = 0\<rparr>"

lemma tokens_clean_fresh: "tokens_clean fresh_tokens"
  by (simp add: tokens_clean_def fresh_tokens_def)

lemma untracked_bit: "b < 25 \<Longrightarrow> bit (m AND NOT macroblockTokensTrackedMask) b = bit m b"
  by (auto simp: macroblockTokensTrackedMask_def bit_and_iff bit_not_iff bit_push_bit_iff simp del: push_bit_numeral push_bit_of_1)

lemma clear_fresh:
  assumes "tokens_clean t"
  shows "clearMacroblockTokens t = fresh_tokens"
proof -
  have len: "length (mt_QCoeff t) = 25" "length (mt_EOB t) = 25" using assms by (simp_all add: tokens_clean_def)
  have q: "mt_QCoeff (clearMacroblockTokens t) = replicate 25 (replicate 16 0)"
  proof (rule nth_equalityI)
    show "length (mt_QCoeff (clearMacroblockTokens t)) = length (replicate 25 (replicate 16 0 :: i16 list))"
      using len by (simp add: clearMacroblockTokens_def Let_def)
    fix b assume "b < length (mt_QCoeff (clearMacroblockTokens t))"
    then have b: "b < 25" using len by (simp add: clearMacroblockTokens_def Let_def split: if_splits)
    then show "mt_QCoeff (clearMacroblockTokens t) ! b = replicate 25 (replicate 16 0) ! b"
      using assms len untracked_bit [OF b, of "mt_dirtyMask t"]
      by (auto simp: clearMacroblockTokens_def Let_def tokens_clean_def)
  qed
  have "mt_EOB (clearMacroblockTokens t) = replicate 25 0" "mt_dirtyMask (clearMacroblockTokens t) = 0"
    by (simp_all add: clearMacroblockTokens_def Let_def)
  then show ?thesis using q by (simp add: fresh_tokens_def)
qed

lemma block_walk_stores:
  assumes "left \<le> 16"
  shows "0 < fst (fst (run_state (block_walk bt p out left) d))
    \<and> length (snd (fst (run_state (block_walk bt p out left) d))) = length out"
  using assms
proof (induction left arbitrary: p out d)
  case 0
  then show ?case by simp
next
  case (Suc left)
  have ih: "0 < fst (fst (run_state (block_walk bt p' out' left) d'))"
    "length (snd (fst (run_state (block_walk bt p' out' left) d'))) = length out'" for p' out' d'
    using Suc by simp_all
  show ?case
    using Suc.prems by (auto simp: Let_def ih split: prod.splits)
qed

lemma ReadVP8BlockCoeffs_stores:
  assumes "run_state (ReadVP8BlockCoeffs probs bt ctx n out) d = ((nz, out'), d')"
  shows "length out' = length out" "nz = 0 \<Longrightarrow> out' = out"
proof -
  obtain b0 d0 where b0: "run_state (ReadBool (probs ! bt ! n ! ctx ! 0)) d = (b0, d0)" by (metis surj_pair)
  have w: "0 < fst (fst (run_state (block_walk (probs ! bt) p out (16 - n)) d0))
    \<and> length (snd (fst (run_state (block_walk (probs ! bt) p out (16 - n)) d0))) = length out" for p
    by (rule block_walk_stores) simp
  show "length out' = length out" "nz = 0 \<Longrightarrow> out' = out"
    using assms b0 w [of "probs ! bt ! n ! ctx"] by (auto simp: ReadVP8BlockCoeffs_def Let_def split: if_splits)
qed

text \<open>The loop keeps: blocks with coefficients are marked.\<close>

definition marked :: "mb_out \<Rightarrow> bool" where
  "marked st \<longleftrightarrow> length (mb_qcoeff st) = 25 \<and> length (mb_eobs st) = 25 \<and>
     (\<forall>b < 25. mb_qcoeff st ! b \<noteq> replicate 16 0 \<longrightarrow> bit (mb_dirty st) b)"

lemma mb_select_block: "idx \<le> 23 \<Longrightarrow> fst (mb_select lt sk idx) < 25"
  by (auto simp: mb_select_def Let_def)

lemma marked_store:
  assumes "marked st" "idx \<le> 23" "nz = 0 \<Longrightarrow> out = mb_qcoeff st ! fst (mb_select lt sk idx)"
  shows "marked (mb_store lt sk idx nz out st)"
proof -
  obtain b bt n sa sl where sel: "mb_select lt sk idx = (b, bt, n, sa, sl)" by (metis prod_cases5)
  have b: "b < 25" using mb_select_block [OF assms(2), of lt sk] sel by simp
  have len: "length (mb_qcoeff st) = 25" using assms(1) by (simp add: marked_def)
  have q: "mb_qcoeff (mb_store lt sk idx nz out st) = (mb_qcoeff st)[b := out]"
    and e: "length (mb_eobs (mb_store lt sk idx nz out st)) = length (mb_eobs st)"
    and d: "mb_dirty (mb_store lt sk idx nz out st) = (if nz > 0 then mb_dirty st OR 2 ^ b else mb_dirty st)"
    by (simp_all add: mb_store_def sel Let_def)
  show ?thesis
  proof (cases "nz = 0")
    case True
    then have "out = mb_qcoeff st ! b" using assms(3) sel by simp
    then have "mb_qcoeff (mb_store lt sk idx nz out st) = mb_qcoeff st" unfolding q by simp
    then show ?thesis using assms(1) True d e by (simp add: marked_def)
  next
    case False
    have "bit (mb_dirty st OR 2 ^ b) i \<longleftrightarrow> bit (mb_dirty st) i \<or> i = b" if "i < 25" for i
      using that b by (auto simp: bit_or_iff bit_exp_iff)
    moreover have "(mb_qcoeff st)[b := out] ! i = (if i = b then out else mb_qcoeff st ! i)" if "i < 25" for i
      using that len by simp
    ultimately show ?thesis using assms(1) False d e len unfolding marked_def q by simp
  qed
qed

lemma marked_loop:
  assumes "marked st" "\<forall>idx \<in> set idxs. idx \<le> 23"
  shows "marked (fst (run_state (read_mb_loop probs lt sk idxs st) d))"
  using assms
proof (induction idxs arbitrary: st d)
  case Nil
  then show ?case by simp
next
  case (Cons idx idxs)
  obtain b bt n sa sl where sel: "mb_select lt sk idx = (b, bt, n, sa, sl)" by (metis prod_cases5)
  let ?ctx = "unat (slot_get (mb_above st) sa + slot_get (mb_left st) sl)"
  obtain nz out d' where r: "run_state (ReadVP8BlockCoeffs probs bt ?ctx n (mb_qcoeff st ! b)) d = ((nz, out), d')"
    by (metis surj_pair)
  have "marked (mb_store lt sk idx nz out st)"
    by (rule marked_store [OF Cons.prems(1)]) (use Cons.prems(2) ReadVP8BlockCoeffs_stores(2) [OF r] sel in auto)
  then show ?case using Cons.IH Cons.prems(2) r by (simp add: sel Let_def)
qed

lemma tokens_storage:
  assumes "tokens_clean t"
  shows "run_state (DecodeMacroblockTokens probs is4x4 abv left t) d
      = run_state (DecodeMacroblockTokens probs is4x4 abv left fresh_tokens) d
    \<and> tokens_clean (snd (snd (snd (fst (run_state (DecodeMacroblockTokens probs is4x4 abv left t) d)))))"
proof -
  have c: "clearMacroblockTokens t = fresh_tokens" "clearMacroblockTokens fresh_tokens = fresh_tokens"
    using clear_fresh assms tokens_clean_fresh by blast+
  let ?m = "ReadVP8MacroblockCoeffs probs is4x4 abv left (mt_QCoeff fresh_tokens) (mt_EOB fresh_tokens)"
  obtain r d' where r: "run_state ?m d = (r, d')" by (metis surj_pair)
  define st where "st = \<lparr>mb_above = abv, mb_left = left, mb_qcoeff = mt_QCoeff fresh_tokens,
    mb_eobs = mt_EOB fresh_tokens, mb_total = 0, mb_dirty = 0\<rparr>"
  have st: "marked st" by (simp add: st_def marked_def fresh_tokens_def)
  have "\<forall>idx \<in> set [-1..23]. idx \<le> 23" "\<forall>idx \<in> set [0..23]. idx \<le> (23 :: int)" unfolding set_upto by simp_all
  note loops = marked_loop [OF st this(1), of probs 0 1 d] marked_loop [OF st this(2), of probs 3 0 d]
  have "marked (fst (run_state ?m d))"
    using loops unfolding ReadVP8MacroblockCoeffs_def Let_def st_def [symmetric]
    by (cases is4x4) (simp_all only: simp_thms if_True if_False)
  then have m: "marked r" by (simp add: r)
  have tracked: "bit (mb_dirty r OR macroblockTokensTrackedMask) b" if "bit (mb_dirty r) b" for b
    using that by (simp add: bit_or_iff)
  have ne: "mb_dirty r OR macroblockTokensTrackedMask \<noteq> 0"
  proof
    assume "mb_dirty r OR macroblockTokensTrackedMask = 0"
    moreover have "bit macroblockTokensTrackedMask 31" by (simp add: macroblockTokensTrackedMask_def)
    ultimately show False using bit_or_iff [of "mb_dirty r" macroblockTokensTrackedMask 31] by simp
  qed
  show ?thesis
    using m tracked ne
    by (auto simp: DecodeMacroblockTokens_def c r Let_def tokens_clean_def marked_def)
qed

text \<open>C15: The decoder's token storage is never stale. Whatever bytes are decoded, starting from
  storage every nonzero block of which is marked (as fresh storage is),
  \<open>DecodeMacroblockTokens\<close> returns exactly what it returns on zeroed storage, and it leaves
  storage with the same invariant, so a macroblock never sees coefficients of an earlier one
  although only marked blocks are ever cleared.\<close>

theorem decode_tokens_storage:
  assumes "tokens_clean t"
  shows "run_state (DecodeMacroblockTokens probs is4x4 abv left t) d
      = run_state (DecodeMacroblockTokens probs is4x4 abv left fresh_tokens) d
    \<and> tokens_clean (snd (snd (snd (fst (run_state (DecodeMacroblockTokens probs is4x4 abv left t) d)))))"
  by (rule tokens_storage [OF assms])

theorem decode_tokens_storage_witness:
  "tokens_clean (snd (snd (snd (fst (run_state (DecodeMacroblockTokens DefaultCoefProbs True zero_planes zero_planes fresh_tokens)
     (Decoder_Init [0x12, 0x34]))))))"
  using decode_tokens_storage [OF tokens_clean_fresh] by blast

section \<open>The two context updates of the encoder\<close>

text \<open>\<open>coeffs.BlockEOB\<close>: the end of block, no earlier than the first position.\<close>

definition BlockEOB :: "MacroblockCoefficients \<Rightarrow> nat \<Rightarrow> nat \<Rightarrow> nat" where
  "BlockEOB coeffs block skipDC =
     (if block \<ge> length (mc_EOB coeffs) then skipDC else max (unat (mc_EOB coeffs ! block)) skipDC)"

definition SetBlockEOB :: "MacroblockCoefficients \<Rightarrow> nat \<Rightarrow> int \<Rightarrow> MacroblockCoefficients" where
  "SetBlockEOB coeffs block eob =
     (if block \<ge> length (mc_EOB coeffs) then coeffs
      else coeffs\<lparr>mc_EOB := (mc_EOB coeffs)[block := word_of_int (min (max eob 0) 16)]\<rparr>)"

text \<open>The planes the code takes when its arguments do not overlap: only the last row and column count.\<close>

definition update_planes_direct ::
  "bool \<Rightarrow> MacroblockCoefficients \<Rightarrow> TokenContextPlanes \<times> TokenContextPlanes \<Rightarrow> TokenContextPlanes \<times> TokenContextPlanes" where
  "update_planes_direct is4x4 coeffs planes =
     (let skip = (if \<not> is4x4 then 1 else 0 :: byte);
          flag = (\<lambda>i s. if mc_EOB coeffs ! i > s then 1 else 0 :: byte);
          y2 = (\<lambda>p. if \<not> is4x4 then p\<lparr>tc_Y2 := (if mc_EOB coeffs ! 24 > 0 then 1 else 0)\<rparr> else p)
      in ((y2 (fst planes))\<lparr>tc_Y1 := map (\<lambda>i. flag (12 + i) skip) [0..<4],
            tc_U := [flag 18 0, flag 19 0], tc_V := [flag 22 0, flag 23 0]\<rparr>,
          (y2 (snd planes))\<lparr>tc_Y1 := map (\<lambda>i. flag (i * 4 + 3) skip) [0..<4],
            tc_U := [flag 17 0, flag 19 0], tc_V := [flag 21 0, flag 23 0]\<rparr>))"

text \<open>The walk over all blocks, which also serves overlapping arguments: \<open>h\<close> is the flag of a block.\<close>

definition walk_luma :: "(nat \<Rightarrow> byte) \<Rightarrow> TokenContextPlanes \<times> TokenContextPlanes \<Rightarrow> nat \<Rightarrow> TokenContextPlanes \<times> TokenContextPlanes" where
  "walk_luma h p block = ((fst p)\<lparr>tc_Y1 := (tc_Y1 (fst p))[block AND 3 := h block]\<rparr>,
     (snd p)\<lparr>tc_Y1 := (tc_Y1 (snd p))[drop_bit 2 (block AND 0xC) := h block]\<rparr>)"

definition walk_chroma :: "(nat \<Rightarrow> byte) \<Rightarrow> TokenContextPlanes \<times> TokenContextPlanes \<Rightarrow> nat \<Rightarrow> TokenContextPlanes \<times> TokenContextPlanes" where
  "walk_chroma h p block = (setTokenUVContext (fst p) (fst (UVTokenContextIndex block)) (h block),
     setTokenUVContext (snd p) (snd (UVTokenContextIndex block)) (h block))"

definition update_planes_walk ::
  "bool \<Rightarrow> MacroblockCoefficients \<Rightarrow> TokenContextPlanes \<times> TokenContextPlanes \<Rightarrow> TokenContextPlanes \<times> TokenContextPlanes" where
  "update_planes_walk is4x4 coeffs planes =
     (let skipDC = (if \<not> is4x4 then 1 else 0);
          h = (\<lambda>n block. of_bool (BlockEOB coeffs block n > n));
          planes = (if \<not> is4x4 then ((fst planes)\<lparr>tc_Y2 := h 0 24\<rparr>, (snd planes)\<lparr>tc_Y2 := h 0 24\<rparr>) else planes);
          planes = foldl (walk_luma (h skipDC)) planes [0..<16]
      in foldl (walk_chroma (h 0)) planes [16..<24])"

lemma list4: "length xs = 4 \<Longrightarrow> xs = [xs ! 0, xs ! 1, xs ! 2, xs ! 3]"
  by (intro nth_equalityI) (auto simp: less_Suc_eq numeral_eq_Suc)

lemma flag_byte: "(if (e :: byte) > 1 then 1 else 0 :: byte) = of_bool (max (unat e) 1 > 1)"
  "(if e > 0 then 1 else 0 :: byte) = of_bool (max (unat e) 0 > 0)"
  by (auto simp: word_less_nat_alt max_def)

lemma luma_fold:
  assumes "length (tc_Y1 (fst p)) = 4" "length (tc_Y1 (snd p)) = 4"
  shows "foldl (walk_luma h) p [0..<16]
    = ((fst p)\<lparr>tc_Y1 := [h 12, h 13, h 14, h 15]\<rparr>, (snd p)\<lparr>tc_Y1 := [h 3, h 7, h 11, h 15]\<rparr>)"
proof -
  obtain a0 a1 a2 a3 where Ya: "tc_Y1 (fst p) = [a0, a1, a2, a3]" using list4 [OF assms(1)] by blast
  obtain l0 l1 l2 l3 where Yl: "tc_Y1 (snd p) = [l0, l1, l2, l3]" using list4 [OF assms(2)] by blast
  have ix: "map (\<lambda>b. (b, b AND 3, drop_bit 2 (b AND 0xC))) [0..<16] =
    [(0, 0, 0), (1, 1, 0), (2, 2, 0), (3, 3, 0), (4, 0, 1), (5, 1, 1), (6, 2, 1), (7, 3, 1), (8, 0, 2), (9, 1, 2), (10, 2, 2),
     (11, 3, 2), (12, 0, 3), (13, 1, 3), (14, 2, 3), (15, 3, 3)]" by code_simp
  let ?g = "\<lambda>p x. ((fst p)\<lparr>tc_Y1 := (tc_Y1 (fst p))[fst (snd x) := h (fst x)]\<rparr>,
    (snd p)\<lparr>tc_Y1 := (tc_Y1 (snd p))[snd (snd x) := h (fst x)]\<rparr>)"
  have "foldl (walk_luma h) p [0..<16] = foldl ?g p (map (\<lambda>b. (b, b AND 3, drop_bit 2 (b AND 0xC))) [0..<16])"
    by (simp only: foldl_map walk_luma_def [abs_def] fst_conv snd_conv)
  then show ?thesis unfolding ix by (simp add: Ya Yl)
qed

lemma chroma_fold:
  assumes "length (tc_U (fst p)) = 2" "length (tc_V (fst p)) = 2" "length (tc_U (snd p)) = 2" "length (tc_V (snd p)) = 2"
  shows "foldl (walk_chroma h) p [16..<24]
    = ((fst p)\<lparr>tc_U := [h 18, h 19], tc_V := [h 22, h 23]\<rparr>, (snd p)\<lparr>tc_U := [h 17, h 19], tc_V := [h 21, h 23]\<rparr>)"
proof -
  obtain ua ub where Ua: "tc_U (fst p) = [ua, ub]" using assms(1) by (auto simp: length_Suc_conv numeral_2_eq_2)
  obtain va vb where Va: "tc_V (fst p) = [va, vb]" using assms(2) by (auto simp: length_Suc_conv numeral_2_eq_2)
  obtain uc ud where Ul: "tc_U (snd p) = [uc, ud]" using assms(3) by (auto simp: length_Suc_conv numeral_2_eq_2)
  obtain vc vd where Vl: "tc_V (snd p) = [vc, vd]" using assms(4) by (auto simp: length_Suc_conv numeral_2_eq_2)
  have ix: "map (\<lambda>b. (b, UVTokenContextIndex b)) [16..<24] =
    [(16, 0, 0), (17, 1, 0), (18, 0, 1), (19, 1, 1), (20, 2, 2), (21, 3, 2), (22, 2, 3), (23, 3, 3)]" by code_simp
  let ?g = "\<lambda>p x. (setTokenUVContext (fst p) (fst (snd x)) (h (fst x)), setTokenUVContext (snd p) (snd (snd x)) (h (fst x)))"
  have "foldl (walk_chroma h) p [16..<24] = foldl ?g p (map (\<lambda>b. (b, UVTokenContextIndex b)) [16..<24])"
    by (simp only: foldl_map walk_chroma_def [abs_def] fst_conv snd_conv)
  then show ?thesis unfolding ix by (simp add: setTokenUVContext_def Ua Va Ul Vl)
qed

text \<open>C35: The direct context update is the walk. For planes and coefficients of the sizes the
  types fix, setting only the contexts that outlive the macroblock gives the same above and left
  planes as walking all twenty-five blocks.\<close>

theorem context_update_direct:
  assumes "length (tc_Y1 a) = 4" "length (tc_U a) = 2" "length (tc_V a) = 2"
    "length (tc_Y1 l) = 4" "length (tc_U l) = 2" "length (tc_V l) = 2" "length (mc_EOB coeffs) = 25"
  shows "update_planes_direct is4x4 coeffs (a, l) = update_planes_walk is4x4 coeffs (a, l)"
proof -
  define f where "f = (\<lambda>n i. of_bool (BlockEOB coeffs i n > n) :: byte)"
  have flag: "(if mc_EOB coeffs ! i > 1 then 1 else 0 :: byte) = f 1 i"
    "(if mc_EOB coeffs ! i > 0 then 1 else 0 :: byte) = f 0 i" if "i < 25" for i
    using that assms(7) flag_byte [of "mc_EOB coeffs ! i"] by (simp_all add: f_def BlockEOB_def)
  have u4: "[0..<4] = [0, 1, 2, 3::nat]" by code_simp
  show ?thesis
    unfolding update_planes_walk_def f_def [symmetric] Let_def
    using assms by (cases is4x4) (simp_all add: update_planes_direct_def luma_fold chroma_fold u4 flag Let_def del: upt_rec_numeral One_nat_def)
qed

theorem context_update_direct_witness:
  "update_planes_direct False sample_coeffs (zero_planes, zero_planes)
    = update_planes_walk False sample_coeffs (zero_planes, zero_planes)"
  by (rule context_update_direct) (simp_all add: zero_planes_def sample_coeffs_def)

end
