(* ===== verification/Vp8_Token_Grid.thy ===== *)
theory Vp8_Token_Grid
  imports Vp8_Streams Vp8_Token_Storage Vp8_Inter_Modes
begin

text \<open>
  The coefficient tokens of a frame: the grid writers (\<open>WriteCoefficientTokenGrid\<close> of
  \<^verbatim>\<open>internal/vp8/encoder/tokenize.go\<close>, \<open>WriteInterCoefficientTokenGrid\<close> of
  \<^verbatim>\<open>internal/vp8/encoder/interframe_tokens.go\<close>, \<open>WriteZeroTokenGrid\<close> of
  \<^verbatim>\<open>internal/vp8/encoder/tokens.go\<close>, each also over several partitions) and the grid readers of
  \<^verbatim>\<open>internal/vp8/decoder/tokens.go\<close>, with and without error concealment. Rows go to the partitions in
  turn; the contexts run down the columns and along each row.
\<close>

section \<open>The writers\<close>

definition clear_above :: "nat \<Rightarrow> TokenContextPlanes list \<Rightarrow> TokenContextPlanes list" where
  "clear_above cols abv = replicate cols zero_planes @ drop cols abv"

text \<open>One row: the macroblocks from left to right, up to the first error.\<close>

fun token_row ::
  "(nat \<Rightarrow> TokenContextPlanes list \<Rightarrow> TokenContextPlanes
      \<Rightarrow> ('s, packet_error option \<times> TokenContextPlanes list \<times> TokenContextPlanes) state)
    \<Rightarrow> nat list \<Rightarrow> TokenContextPlanes list \<Rightarrow> TokenContextPlanes
    \<Rightarrow> ('s, packet_error option \<times> TokenContextPlanes list \<times> TokenContextPlanes) state" where
  "token_row cell [] abv left = State_Monad.return (None, abv, left)"
| "token_row cell (col # cols) abv left = do {
     r \<leftarrow> cell col abv left;
     if fst r \<noteq> None then State_Monad.return r else token_row cell cols (fst (snd r)) (snd (snd r))
   }"

fun token_rows ::
  "(nat \<Rightarrow> nat \<Rightarrow> TokenContextPlanes list \<Rightarrow> TokenContextPlanes
      \<Rightarrow> ('s, packet_error option \<times> TokenContextPlanes list \<times> TokenContextPlanes) state)
    \<Rightarrow> nat \<Rightarrow> nat list \<Rightarrow> TokenContextPlanes list \<Rightarrow> ('s, packet_error option \<times> TokenContextPlanes list) state" where
  "token_rows cell cols [] abv = State_Monad.return (None, abv)"
| "token_rows cell cols (row # rows) abv = do {
     r \<leftarrow> token_row (cell row) [0..<cols] abv zero_planes;
     if fst r \<noteq> None then State_Monad.return (fst r, fst (snd r)) else token_rows cell cols rows (fst (snd r))
   }"

text \<open>
  The tokens of one macroblock, through \<open>put\<close>: the writer of the row's partition, or the only one.
\<close>

type_synonym 's mb_put = "mb_write \<Rightarrow> ('s, packet_error option \<times> TokenContextPlanes \<times> TokenContextPlanes) state"

definition put_macroblock ::
  "'s mb_put \<Rightarrow> coef_probs \<Rightarrow> bool \<Rightarrow> MacroblockCoefficients \<Rightarrow> nat \<Rightarrow> TokenContextPlanes list \<Rightarrow> TokenContextPlanes
    \<Rightarrow> ('s, packet_error option \<times> TokenContextPlanes list \<times> TokenContextPlanes) state" where
  "put_macroblock put probs is4x4 coeffs col abv left = do {
     r \<leftarrow> put (writeCoefficientMacroblockTokensWithEOBs probs is4x4 (abv ! col) left coeffs);
     State_Monad.return (fst r, abv[col := fst (snd r)], snd (snd r))
   }"

definition skip_macroblock ::
  "bool \<Rightarrow> nat \<Rightarrow> TokenContextPlanes list \<Rightarrow> TokenContextPlanes
    \<Rightarrow> ('s, packet_error option \<times> TokenContextPlanes list \<times> TokenContextPlanes) state" where
  "skip_macroblock is4x4 col abv left =
     (case ResetTokenContextPlanes (abv ! col) left is4x4 of (a, l) \<Rightarrow> State_Monad.return (None, abv[col := a], l))"

definition write_key_tokens ::
  "'s mb_put \<Rightarrow> coef_probs \<Rightarrow> nat \<Rightarrow> KeyFrameMacroblockMode list \<Rightarrow> MacroblockCoefficients list \<Rightarrow> nat \<Rightarrow> nat
    \<Rightarrow> TokenContextPlanes list \<Rightarrow> TokenContextPlanes
    \<Rightarrow> ('s, packet_error option \<times> TokenContextPlanes list \<times> TokenContextPlanes) state" where
  "write_key_tokens put probs cols modes coeffs row col abv left =
     (let index = row * cols + col; mode = modes ! index; is4x4 = (km_YMode mode = BPred)
      in if \<not> validKeyFrameMacroblockMode mode then State_Monad.return (Some ErrInvalidPacketConfig, abv, left)
         else if km_MBSkipCoeff mode then skip_macroblock is4x4 col abv left
         else put_macroblock put probs is4x4 (coeffs ! index) col abv left)"

definition interModeUses4x4Tokens :: "nat \<Rightarrow> bool" where
  "interModeUses4x4Tokens mode \<longleftrightarrow> mode = BPred \<or> mode = SplitMV"

definition IsWholeInterMacroblockMode :: "nat \<Rightarrow> bool" where
  "IsWholeInterMacroblockMode mode \<longleftrightarrow> mode = ZeroMV \<or> mode = NearestMV \<or> mode = NearMV \<or> mode = NewMV"

definition validInterCoefficientTokenMode :: "InterFrameMacroblockMode \<Rightarrow> bool" where
  "validInterCoefficientTokenMode mode =
     (let refFrame = interFrameReference (Some mode)
      in if refFrame = IntraFrame then validInterIntraMacroblockMode mode
         else if refFrame = LastFrame \<or> refFrame = GoldenFrame \<or> refFrame = AltRefFrame
         then IsWholeInterMacroblockMode (im_Mode mode) \<or> validSplitMVMode mode
         else False)"

definition write_inter_tokens ::
  "'s mb_put \<Rightarrow> coef_probs \<Rightarrow> nat \<Rightarrow> InterFrameMacroblockMode list \<Rightarrow> MacroblockCoefficients list \<Rightarrow> nat \<Rightarrow> nat
    \<Rightarrow> TokenContextPlanes list \<Rightarrow> TokenContextPlanes
    \<Rightarrow> ('s, packet_error option \<times> TokenContextPlanes list \<times> TokenContextPlanes) state" where
  "write_inter_tokens put probs cols modes coeffs row col abv left =
     (let index = row * cols + col; mode = modes ! index; is4x4 = interModeUses4x4Tokens (im_Mode mode)
      in if im_MBSkipCoeff mode then skip_macroblock is4x4 col abv left
         else if \<not> validInterCoefficientTokenMode mode then State_Monad.return (Some ErrInvalidPacketConfig, abv, left)
         else put_macroblock put probs is4x4 (coeffs ! index) col abv left)"

definition token_buffers_small :: "int \<Rightarrow> int \<Rightarrow> nat \<Rightarrow> nat \<Rightarrow> nat \<Rightarrow> bool" where
  "token_buffers_small rows cols modes coeffs abv \<longleftrightarrow>
     grid_too_small rows cols modes \<or> int coeffs < rows * cols \<or> int abv < cols"

definition several :: "int \<Rightarrow> bool" where
  "several partitions \<longleftrightarrow> partitions = 2 \<or> partitions = 4 \<or> partitions = 8"

type_synonym 's grid_write = "('s, mode_error option \<times> TokenContextPlanes list) state"

definition grid_error :: "packet_error option \<times> TokenContextPlanes list \<Rightarrow> mode_error option \<times> TokenContextPlanes list" where
  "grid_error r = (map_option ModePacketError (fst r), snd r)"

text \<open>One writer for all rows, which reports its error at the end.\<close>

definition one_writer :: "(BoolWriter, packet_error option \<times> TokenContextPlanes list) state \<Rightarrow> BoolWriter grid_write" where
  "one_writer loop = do {
     r \<leftarrow> loop;
     if fst r \<noteq> None then State_Monad.return (grid_error r)
     else do { e \<leftarrow> mode_end; State_Monad.return (e, snd r) }
   }"

definition WriteCoefficientTokenGrid ::
  "int \<Rightarrow> int \<Rightarrow> KeyFrameMacroblockMode list \<Rightarrow> MacroblockCoefficients list \<Rightarrow> TokenContextPlanes list \<Rightarrow> coef_probs
    \<Rightarrow> BoolWriter grid_write" where
  "WriteCoefficientTokenGrid rows cols modes coeffs abv probs =
     (if token_buffers_small rows cols (length modes) (length coeffs) (length abv)
      then State_Monad.return (Some ErrModeBufferTooSmall, abv)
      else one_writer (token_rows (write_key_tokens (\<lambda>m. m) probs (nat cols) modes coeffs) (nat cols) [0..<nat rows]
        (clear_above (nat cols) abv)))"

definition WriteInterCoefficientTokenGrid ::
  "int \<Rightarrow> int \<Rightarrow> InterFrameMacroblockMode list \<Rightarrow> MacroblockCoefficients list \<Rightarrow> TokenContextPlanes list \<Rightarrow> coef_probs
    \<Rightarrow> BoolWriter grid_write" where
  "WriteInterCoefficientTokenGrid rows cols modes coeffs abv probs =
     (if token_buffers_small rows cols (length modes) (length coeffs) (length abv)
      then State_Monad.return (Some ErrModeBufferTooSmall, abv)
      else one_writer (token_rows (write_inter_tokens (\<lambda>m. m) probs (nat cols) modes coeffs) (nat cols) [0..<nat rows]
        (clear_above (nat cols) abv)))"

text \<open>\<open>writers[row&(partitions-1)]\<close>\<close>

definition row_partition :: "nat \<Rightarrow> int \<Rightarrow> nat" where
  "row_partition row partitions = nat (int row AND (partitions - 1))"

definition WriteCoefficientTokenGridPartitioned ::
  "int \<Rightarrow> int \<Rightarrow> int \<Rightarrow> KeyFrameMacroblockMode list \<Rightarrow> MacroblockCoefficients list \<Rightarrow> TokenContextPlanes list \<Rightarrow> coef_probs
    \<Rightarrow> BoolWriter list grid_write" where
  "WriteCoefficientTokenGridPartitioned partitions rows cols modes coeffs abv probs =
     (if token_buffers_small rows cols (length modes) (length coeffs) (length abv) \<or> \<not> several partitions
      then State_Monad.return (Some ErrModeBufferTooSmall, abv)
      else do {
        r \<leftarrow> token_rows (\<lambda>row. write_key_tokens (on_stream (row_partition row partitions)) probs (nat cols) modes coeffs row)
          (nat cols) [0..<nat rows] (clear_above (nat cols) abv);
        State_Monad.return (grid_error r)
      })"

definition WriteInterCoefficientTokenGridPartitioned ::
  "int \<Rightarrow> int \<Rightarrow> int \<Rightarrow> InterFrameMacroblockMode list \<Rightarrow> MacroblockCoefficients list \<Rightarrow> TokenContextPlanes list \<Rightarrow> coef_probs
    \<Rightarrow> BoolWriter list grid_write" where
  "WriteInterCoefficientTokenGridPartitioned partitions rows cols modes coeffs abv probs =
     (if token_buffers_small rows cols (length modes) (length coeffs) (length abv) \<or> \<not> several partitions
      then State_Monad.return (Some ErrModeBufferTooSmall, abv)
      else do {
        r \<leftarrow> token_rows (\<lambda>row. write_inter_tokens (on_stream (row_partition row partitions)) probs (nat cols) modes coeffs row)
          (nat cols) [0..<nat rows] (clear_above (nat cols) abv);
        State_Monad.return (grid_error r)
      })"

section \<open>The writers of frames without coefficients\<close>

definition writeImmediateEOB :: "coef_probs \<Rightarrow> nat \<Rightarrow> nat \<Rightarrow> nat \<Rightarrow> (BoolWriter, unit) state" where
  "writeImmediateEOB probs blockType coefBand ctx = wr (\<lambda>w. WriteBool w 0 (probs ! blockType ! coefBand ! ctx ! 0))"

fun repeat_write :: "nat \<Rightarrow> ('s, unit) state \<Rightarrow> ('s, unit) state" where
  "repeat_write 0 m = State_Monad.return ()"
| "repeat_write (Suc n) m = do { m; repeat_write n m }"

definition WriteZeroMacroblockTokens :: "coef_probs \<Rightarrow> bool \<Rightarrow> (BoolWriter, packet_error option) state" where
  "WriteZeroMacroblockTokens probs is4x4 = do {
     (if \<not> is4x4 then writeImmediateEOB probs 1 0 0 else State_Monad.return ());
     (let (yBlockType, skipDC) = (if \<not> is4x4 then (0, 1) else (3, 0)) in do {
        repeat_write 16 (writeImmediateEOB probs yBlockType skipDC 0);
        repeat_write 8 (writeImmediateEOB probs 2 0 0)
      });
     e \<leftarrow> werr;
     State_Monad.return (if e then Some EncErrBufferTooSmall else None)
   }"

text \<open>The nested loops over the grid, up to the first error.\<close>

fun zero_cells ::
  "(nat \<Rightarrow> (BoolWriter, packet_error option) state \<Rightarrow> ('s, packet_error option) state) \<Rightarrow> coef_probs \<Rightarrow> nat
    \<Rightarrow> KeyFrameMacroblockMode list \<Rightarrow> (nat \<times> nat) list \<Rightarrow> ('s, packet_error option) state" where
  "zero_cells put probs cols modes [] = State_Monad.return None"
| "zero_cells put probs cols modes ((row, col) # cells) =
     (let mode = modes ! (row * cols + col)
      in if \<not> validKeyFrameMacroblockMode mode then State_Monad.return (Some ErrInvalidPacketConfig)
         else do {
           e \<leftarrow> put row (WriteZeroMacroblockTokens probs (km_YMode mode = BPred));
           if e \<noteq> None then State_Monad.return e else zero_cells put probs cols modes cells
         })"

definition WriteZeroTokenGrid :: "int \<Rightarrow> int \<Rightarrow> KeyFrameMacroblockMode list \<Rightarrow> coef_probs \<Rightarrow> (BoolWriter, mode_error option) state" where
  "WriteZeroTokenGrid rows cols modes probs =
     (if grid_too_small rows cols (length modes) then State_Monad.return (Some ErrModeBufferTooSmall)
      else do {
        e \<leftarrow> zero_cells (\<lambda>row m. m) probs (nat cols) modes (grid_cells (nat rows) (nat cols));
        State_Monad.return (map_option ModePacketError e)
      })"

definition WriteZeroTokenGridPartitioned ::
  "int \<Rightarrow> int \<Rightarrow> int \<Rightarrow> KeyFrameMacroblockMode list \<Rightarrow> coef_probs \<Rightarrow> (BoolWriter list, mode_error option) state" where
  "WriteZeroTokenGridPartitioned partitions rows cols modes probs =
     (if grid_too_small rows cols (length modes) \<or> \<not> several partitions then State_Monad.return (Some ErrModeBufferTooSmall)
      else do {
        e \<leftarrow> zero_cells (\<lambda>row. on_stream (row_partition row partitions)) probs (nat cols) modes (grid_cells (nat rows) (nat cols));
        State_Monad.return (map_option ModePacketError e)
      })"

section \<open>The readers\<close>

datatype token_grid_error = ErrTokenGridBufferTooSmall

text \<open>What the loops of a reader update: the modes (a macroblock without coefficients counts as skipped),
  the contexts above, the token storage and the sum of the ends of block.\<close>

record token_grid =
  tg_modes :: "MacroblockMode list"
  tg_above :: "EntropyContextPlanes list"
  tg_tokens :: "MacroblockTokens list"
  tg_total :: int

definition clearMacroblockTokensIfNeeded :: "MacroblockTokens \<Rightarrow> MacroblockTokens" where
  "clearMacroblockTokensIfNeeded out = clearMacroblockTokens out"

definition skip_tokens ::
  "bool \<Rightarrow> nat \<Rightarrow> nat \<Rightarrow> 'g token_grid_scheme \<Rightarrow> EntropyContextPlanes \<Rightarrow> 'g token_grid_scheme \<times> EntropyContextPlanes" where
  "skip_tokens is4x4 index col g left =
     (case ResetMacroblockTokenContext (tg_above g ! col) left is4x4 of (a, l) \<Rightarrow>
       (g\<lparr>tg_tokens := (tg_tokens g)[index := clearMacroblockTokensIfNeeded (tg_tokens g ! index)],
          tg_above := (tg_above g)[col := a]\<rparr>, l))"

definition store_tokens ::
  "nat \<Rightarrow> nat \<Rightarrow> 'g token_grid_scheme \<Rightarrow> int \<times> EntropyContextPlanes \<times> EntropyContextPlanes \<times> MacroblockTokens
    \<Rightarrow> 'g token_grid_scheme \<times> EntropyContextPlanes" where
  "store_tokens index col g r =
     (case r of (eobTotal, a, l, t) \<Rightarrow>
       (g\<lparr>tg_modes := (if eobTotal = 0 then (tg_modes g)[index := (tg_modes g ! index)\<lparr>mb_MBSkipCoeff := True\<rparr>] else tg_modes g),
          tg_above := (tg_above g)[col := a], tg_tokens := (tg_tokens g)[index := t], tg_total := tg_total g + eobTotal\<rparr>, l))"

definition read_tokens_cell ::
  "coef_probs \<Rightarrow> int \<Rightarrow> nat \<Rightarrow> nat \<Rightarrow> nat \<Rightarrow> 'g token_grid_scheme \<Rightarrow> EntropyContextPlanes
    \<Rightarrow> (Decoder list, 'g token_grid_scheme \<times> EntropyContextPlanes) state" where
  "read_tokens_cell probs partitions cols row col g left =
     (let index = row * cols + col; mode = tg_modes g ! index
      in if mb_MBSkipCoeff mode then State_Monad.return (skip_tokens (mb_Is4x4 mode) index col g left)
         else do {
           r \<leftarrow> on_stream (row_partition row partitions)
             (DecodeMacroblockTokens probs (mb_Is4x4 mode) (tg_above g ! col) left (tg_tokens g ! index));
           State_Monad.return (store_tokens index col g r)
         })"

fun read_tokens_row ::
  "(nat \<Rightarrow> 'g \<Rightarrow> EntropyContextPlanes \<Rightarrow> ('s, 'g \<times> EntropyContextPlanes) state) \<Rightarrow> nat list \<Rightarrow> 'g \<Rightarrow> EntropyContextPlanes
    \<Rightarrow> ('s, 'g \<times> EntropyContextPlanes) state" where
  "read_tokens_row cell [] g left = State_Monad.return (g, left)"
| "read_tokens_row cell (col # cols) g left = do { r \<leftarrow> cell col g left; read_tokens_row cell cols (fst r) (snd r) }"

fun read_tokens_rows ::
  "(nat \<Rightarrow> nat \<Rightarrow> 'g \<Rightarrow> EntropyContextPlanes \<Rightarrow> ('s, 'g \<times> EntropyContextPlanes) state) \<Rightarrow> nat \<Rightarrow> nat list \<Rightarrow> 'g
    \<Rightarrow> ('s, 'g) state" where
  "read_tokens_rows cell cols [] g = State_Monad.return g"
| "read_tokens_rows cell cols (row # rows) g = do {
     r \<leftarrow> read_tokens_row (cell row) [0..<cols] g zero_planes;
     read_tokens_rows cell cols rows (fst r)
   }"

definition tokens_refused :: "int \<Rightarrow> int \<Rightarrow> nat \<Rightarrow> nat \<Rightarrow> nat \<Rightarrow> nat \<Rightarrow> bool" where
  "tokens_refused rows cols modes tokens abv partitions \<longleftrightarrow>
     token_buffers_small rows cols modes tokens abv \<or> partitions \<noteq> 1 \<and> \<not> several (int partitions)"

text \<open>\<open>len(readers)\<close> is the number of partitions.\<close>

definition reader_count :: "('s list, nat) state" where
  "reader_count = State (\<lambda>ss. (length ss, ss))"

definition DecodeTokenGrid ::
  "int \<Rightarrow> int \<Rightarrow> coef_probs \<Rightarrow> MacroblockMode list \<Rightarrow> EntropyContextPlanes list \<Rightarrow> MacroblockTokens list
    \<Rightarrow> (Decoder list, token_grid_error + token_grid) state" where
  "DecodeTokenGrid rows cols probs modes abv tokens = do {
     partitions \<leftarrow> reader_count;
     if tokens_refused rows cols (length modes) (length tokens) (length abv) partitions
     then State_Monad.return (Inl ErrTokenGridBufferTooSmall)
     else do {
       g \<leftarrow> read_tokens_rows (read_tokens_cell probs (int partitions) (nat cols)) (nat cols) [0..<nat rows]
         \<lparr>tg_modes = modes, tg_above = clear_above (nat cols) abv, tg_tokens = tokens, tg_total = 0\<rparr>;
       State_Monad.return (Inr g)
     }
   }"

text \<open>With concealment: from the first macroblock after which its reader has run out, every macroblock is skipped.\<close>

record concealed_grid = token_grid +
  cg_firstCorrupt :: nat
  cg_corruptResidual :: bool

definition conceal_tokens :: "nat \<Rightarrow> concealed_grid \<Rightarrow> concealed_grid" where
  "conceal_tokens index g =
     g\<lparr>cg_corruptResidual := True,
       cg_firstCorrupt := (if index < cg_firstCorrupt g then index else cg_firstCorrupt g),
       tg_tokens := (tg_tokens g)[index := clearMacroblockTokensIfNeeded (tg_tokens g ! index)],
       tg_modes := (tg_modes g)[index := (tg_modes g ! index)\<lparr>mb_MBSkipCoeff := True\<rparr>]\<rparr>"

definition conceal_tokens_cell ::
  "coef_probs \<Rightarrow> int \<Rightarrow> nat \<Rightarrow> nat \<Rightarrow> nat \<Rightarrow> concealed_grid \<Rightarrow> EntropyContextPlanes
    \<Rightarrow> (Decoder list, concealed_grid \<times> EntropyContextPlanes) state" where
  "conceal_tokens_cell probs partitions cols row col g left =
     (let index = row * cols + col; k = row_partition row partitions in do {
        e \<leftarrow> on_stream k derr;
        r \<leftarrow> (if mb_MBSkipCoeff (tg_modes g ! index) \<or> \<not> cg_corruptResidual g \<and> \<not> e
              then read_tokens_cell probs partitions cols row col g left
              else State_Monad.return (g, left));
        e \<leftarrow> on_stream k derr;
        State_Monad.return (if cg_corruptResidual (fst r) \<or> e then conceal_tokens index (fst r) else fst r, snd r)
      })"

definition DecodeTokenGridWithErrorConcealment ::
  "int \<Rightarrow> int \<Rightarrow> coef_probs \<Rightarrow> MacroblockMode list \<Rightarrow> EntropyContextPlanes list \<Rightarrow> MacroblockTokens list
    \<Rightarrow> (Decoder list, token_grid_error + concealed_grid) state" where
  "DecodeTokenGridWithErrorConcealment rows cols probs modes abv tokens = do {
     partitions \<leftarrow> reader_count;
     if tokens_refused rows cols (length modes) (length tokens) (length abv) partitions
     then State_Monad.return (Inl ErrTokenGridBufferTooSmall)
     else do {
       g \<leftarrow> read_tokens_rows (conceal_tokens_cell probs (int partitions) (nat cols)) (nat cols) [0..<nat rows]
         \<lparr>tg_modes = modes, tg_above = clear_above (nat cols) abv, tg_tokens = tokens, tg_total = 0,
           cg_firstCorrupt = nat (rows * cols), cg_corruptResidual = False\<rparr>;
       State_Monad.return (Inr g)
     }
   }"

end
