(* ===== verification/Vp8_Token_Grid_Codes.thy ===== *)
theory Vp8_Token_Grid_Codes
  imports Vp8_Token_Grid
begin

text \<open>
  The token grids of encoder and decoder are matching programs: macroblock by macroblock, along a row,
  down the rows, over any number of partitions.
\<close>

section \<open>What a macroblock's tokens decode to\<close>

text \<open>The reader's loop stores the same blocks whatever the contexts are.\<close>

definition same_blocks :: "mb_out \<Rightarrow> mb_out \<Rightarrow> bool" where
  "same_blocks s t \<longleftrightarrow> mb_qcoeff s = mb_qcoeff t \<and> mb_eobs s = mb_eobs t \<and> mb_total s = mb_total t \<and> mb_dirty s = mb_dirty t"

lemma same_blocks_decode: "same_blocks s t \<Longrightarrow> same_blocks (mb_decode lt sk cs s idx) (mb_decode lt sk cs t idx)"
  by (simp add: same_blocks_def mb_decode_def mb_store_def Let_def split: prod.splits)

lemma same_blocks_foldl: "same_blocks s t \<Longrightarrow> same_blocks (foldl (mb_decode lt sk cs) s idxs) (foldl (mb_decode lt sk cs) t idxs)"
  by (induction idxs arbitrary: s t) (simp_all add: same_blocks_decode)

abbreviation mb_sent :: "bool \<Rightarrow> MacroblockCoefficients \<Rightarrow> TokenContextPlanes \<Rightarrow> TokenContextPlanes \<Rightarrow> mb_out" where
  "mb_sent is4x4 coeffs \<equiv> mb_result is4x4 (mb_coded is4x4 coeffs)"

lemma same_blocks_sent: "same_blocks (mb_result is4x4 cs a l) (mb_result is4x4 cs a' l')"
  unfolding mb_result_def Let_def
  by (cases is4x4) (simp_all only: simp_thms if_True if_False, (rule same_blocks_foldl, simp add: same_blocks_def)+)

text \<open>The token storage and the sum of the ends of block, which depend on the coefficients alone.\<close>

definition tokens_of :: "bool \<Rightarrow> mb_out \<Rightarrow> MacroblockTokens" where
  "tokens_of is4x4 r = \<lparr>mt_QCoeff = mb_qcoeff r, mt_EOB = mb_eobs r,
     mt_dirtyMask = (if mb_dirty r \<noteq> 0 \<or> \<not> is4x4 then mb_dirty r OR macroblockTokensTrackedMask else mb_dirty r)\<rparr>"

definition tokens_sent :: "bool \<Rightarrow> MacroblockCoefficients \<Rightarrow> MacroblockTokens" where
  "tokens_sent is4x4 coeffs = tokens_of is4x4 (mb_sent is4x4 coeffs zero_planes zero_planes)"

definition total_sent :: "bool \<Rightarrow> MacroblockCoefficients \<Rightarrow> int" where
  "total_sent is4x4 coeffs = mb_total (mb_sent is4x4 coeffs zero_planes zero_planes)"

lemma sent_blocks: "tokens_of is4x4 (mb_sent is4x4 coeffs a l) = tokens_sent is4x4 coeffs"
  "mb_total (mb_sent is4x4 coeffs a l) = total_sent is4x4 coeffs"
  using same_blocks_sent [of is4x4 "mb_coded is4x4 coeffs" a l zero_planes zero_planes]
  by (simp_all only: tokens_sent_def total_sent_def tokens_of_def same_blocks_def)

lemma codes_macroblock:
  assumes ok: "mb_coeffs_ok is4x4 coeffs" and p: "planes_ok a" "planes_ok l" and t: "tokens_clean t"
  shows "\<exists>a' l'. planes_ok a' \<and> planes_ok l' \<and>
    codes (writeCoefficientMacroblockTokensWithEOBs probs is4x4 a l coeffs) (DecodeMacroblockTokens probs is4x4 a l t)
      (None, a', l') (total_sent is4x4 coeffs, a', l', tokens_sent is4x4 coeffs)"
proof -
  let ?cs = "mb_coded is4x4 coeffs" and ?r = "mb_sent is4x4 coeffs a l"
  obtain a' l' where w: "planes_ok a'" "planes_ok l'"
    "(planes_flags a', planes_flags l') = plan_flags ?cs (mb_plan is4x4) (planes_flags a, planes_flags l)"
    "writes (writeCoefficientMacroblockTokensWithEOBs probs is4x4 a l coeffs)
      (plan_bits probs ?cs (mb_plan is4x4) (planes_flags a) (planes_flags l)) (None, a', l')"
    using writes_macroblock [OF ok p, of probs] by blast
  have steps: "\<forall>s \<in> set (mb_plan is4x4). step_ok ?cs s" using ok by (rule plan_step_ok)
  note F = mb_result_facts [OF p steps]
  have pl: "mb_above ?r = a'" "mb_left ?r = l'"
    using planes_eqI [OF F(1) w(1)] planes_eqI [OF F(2) w(2)] F(3) w(3) by (metis prod.inject)+
  have dec: "DecodeMacroblockTokens probs is4x4 a l t =
      ReadVP8MacroblockCoeffs probs is4x4 a l (replicate 25 zero_block) (replicate 25 0) \<bind>
        (\<lambda>r. State_Monad.return (mb_total r, mb_above r, mb_left r, tokens_of is4x4 r))"
    by (simp add: DecodeMacroblockTokens_def clear_fresh [OF t] fresh_tokens_def tokens_of_def Let_def)
  have "codes (writeCoefficientMacroblockTokensWithEOBs probs is4x4 a l coeffs) (DecodeMacroblockTokens probs is4x4 a l t)
      (None, a', l') (mb_total ?r, mb_above ?r, mb_left ?r, tokens_of is4x4 ?r)"
    unfolding dec by (rule codes_post, rule codesI [OF w(4) reads_macroblock [OF p steps]])
  then show ?thesis using w(1,2) unfolding pl sent_blocks by blast
qed

text \<open>The sum is zero exactly when no block has coefficients.\<close>

definition step_eob :: "(nat \<Rightarrow> int list) \<Rightarrow> mb_step \<Rightarrow> int" where
  "step_eob cs s = (case s of (b, bt, n, sa, sl) \<Rightarrow> int (coded_eob n (cs b)))"

lemma total_fold:
  assumes "lt = 0 \<and> sk = 1 \<or> lt = 3 \<and> sk = 0" "\<forall>idx \<in> set idxs. -1 \<le> idx \<and> (sk = 0 \<longrightarrow> 0 \<le> idx)"
  shows "mb_total (foldl (mb_decode lt sk cs) st idxs) = mb_total st
    + (\<Sum>idx \<leftarrow> idxs. step_eob cs (mb_select lt sk idx) + (if idx < 0 then -16 else if idx < 16 then int sk else 0))"
  using assms(2)
proof (induction idxs arbitrary: st)
  case Nil
  then show ?case by simp
next
  case (Cons idx idxs)
  have "mb_total (mb_decode lt sk cs st idx) = mb_total st
    + step_eob cs (mb_select lt sk idx)
    + (if idx < 0 then -16 else if idx < 16 then int sk else 0)"
    by (simp add: mb_decode_def mb_store_def step_eob_def Let_def split: prod.splits)
  then show ?case using Cons by simp
qed

lemma total_sent_zero: "total_sent is4x4 coeffs = 0 \<longleftrightarrow> (\<forall>b < (if is4x4 then 24 else 25). mb_eob coeffs b \<le> first_pos is4x4 b)"
proof -
  let ?cs = "mb_coded is4x4 coeffs"
  let ?f = "step_eob ?cs"
  let ?extra = "\<lambda>sk idx. if idx < 0 then -16 else if idx < 16 then int sk else (0 :: int)"
  have x: "(\<Sum>idx \<leftarrow> [-1..23]. ?extra 1 idx) = 0" "(\<Sum>idx \<leftarrow> [0..23]. ?extra 0 idx) = 0" by code_simp+
  have b: "\<forall>idx \<in> set [-1..23]. -1 \<le> idx \<and> ((1 :: nat) = 0 \<longrightarrow> 0 \<le> idx)" "\<forall>idx \<in> set [0..23]. -1 \<le> idx \<and> ((0 :: nat) = 0 \<longrightarrow> 0 \<le> (idx :: int))"
    unfolding set_upto by auto
  have s: "total_sent is4x4 coeffs = (\<Sum>s \<leftarrow> mb_plan is4x4. ?f s)"
  proof (cases is4x4)
    case True
    have "total_sent is4x4 coeffs = (\<Sum>idx \<leftarrow> [0..23]. ?f (mb_select 3 0 idx) + ?extra 0 idx)"
      unfolding total_sent_def mb_result_def Let_def using True total_fold [OF _ b(2), of 3 ?cs]
      by (simp only: simp_thms if_True if_False) simp
    then show ?thesis using True x(2) unfolding sum_list_addf by (simp only: mb_plan_def simp_thms if_False map_map comp_def add_0_right)
  next
    case False
    have "total_sent is4x4 coeffs = (\<Sum>idx \<leftarrow> [-1..23]. ?f (mb_select 0 1 idx) + ?extra 1 idx)"
      unfolding total_sent_def mb_result_def Let_def using False total_fold [OF _ b(1), of 0 ?cs]
      by (simp only: simp_thms if_True if_False) simp
    then show ?thesis using False x(1) unfolding sum_list_addf by (simp only: mb_plan_def simp_thms if_True map_map comp_def add_0_right)
  qed
  have "total_sent is4x4 coeffs = 0 \<longleftrightarrow> (\<forall>s \<in> set (mb_plan is4x4). ?f s = 0)"
    unfolding s by (subst sum_list_nonneg_eq_0_iff) (auto simp: step_eob_def split: prod.splits)
  also have "\<dots> \<longleftrightarrow> (\<forall>s \<in> set (mb_plan is4x4). ?cs (fst s) = [])"
    by (intro ball_cong refl) (auto simp: step_eob_def coded_eob_def split: if_splits)
  also have "\<dots> \<longleftrightarrow> (\<forall>b \<in> set (map fst (mb_plan is4x4)). ?cs b = [])" by simp
  also have "set (map fst (mb_plan is4x4)) = {..< (if is4x4 then 24 else 25)}"
    unfolding plan_step_blocks by (cases is4x4) auto
  also have "(\<forall>b \<in> {..< (if is4x4 then 24 else 25)}. ?cs b = []) \<longleftrightarrow>
      (\<forall>b < (if is4x4 then 24 else 25). mb_eob coeffs b \<le> first_pos is4x4 b)"
    unfolding mb_coded_def coded_def by (cases is4x4) (auto simp: lessThan_def)
  finally show ?thesis .
qed

section \<open>The grid so far\<close>

definition cells_done :: "nat \<Rightarrow> (nat \<Rightarrow> 'c \<Rightarrow> 'c) \<Rightarrow> 'c list \<Rightarrow> 'c list" where
  "cells_done n f xs = map (\<lambda>j. if j < n then f j (xs ! j) else xs ! j) [0..<length xs]"

lemma length_cells_done [simp]: "length (cells_done n f xs) = length xs"
  by (simp add: cells_done_def)

lemma cells_done_nth: "j < length xs \<Longrightarrow> cells_done n f xs ! j = (if j < n then f j (xs ! j) else xs ! j)"
  by (simp add: cells_done_def)

lemma cells_done_0 [simp]: "cells_done 0 f xs = xs"
  by (intro nth_equalityI) (simp_all add: cells_done_nth)

lemma cells_done_Suc: "n < length xs \<Longrightarrow> (cells_done n f xs)[n := f n (xs ! n)] = cells_done (Suc n) f xs"
  by (intro nth_equalityI) (auto simp: cells_done_nth nth_list_update)

lemma cells_done_keep: "n < length xs \<Longrightarrow> f n (xs ! n) = xs ! n \<Longrightarrow> cells_done (Suc n) f xs = cells_done n f xs"
  by (intro nth_equalityI) (auto simp: cells_done_nth less_Suc_eq)

text \<open>What a macroblock's mode and token storage become: a macroblock without coefficients counts as skipped.\<close>

definition mode_after :: "MacroblockCoefficients list \<Rightarrow> nat \<Rightarrow> MacroblockMode \<Rightarrow> MacroblockMode" where
  "mode_after coeffs i m =
     (if \<not> mb_MBSkipCoeff m \<and> total_sent (mb_Is4x4 m) (coeffs ! i) = 0 then m\<lparr>mb_MBSkipCoeff := True\<rparr> else m)"

definition tokens_after :: "MacroblockMode list \<Rightarrow> MacroblockCoefficients list \<Rightarrow> nat \<Rightarrow> MacroblockTokens \<Rightarrow> MacroblockTokens" where
  "tokens_after modes coeffs i t =
     (if mb_MBSkipCoeff (modes ! i) then fresh_tokens else tokens_sent (mb_Is4x4 (modes ! i)) (coeffs ! i))"

definition total_after :: "MacroblockMode list \<Rightarrow> MacroblockCoefficients list \<Rightarrow> nat \<Rightarrow> int" where
  "total_after modes coeffs i = (if mb_MBSkipCoeff (modes ! i) then 0 else total_sent (mb_Is4x4 (modes ! i)) (coeffs ! i))"

definition grid_after ::
  "MacroblockMode list \<Rightarrow> MacroblockTokens list \<Rightarrow> MacroblockCoefficients list \<Rightarrow> nat \<Rightarrow> EntropyContextPlanes list \<Rightarrow> token_grid" where
  "grid_after modes tokens coeffs n abv =
     \<lparr>tg_modes = cells_done n (mode_after coeffs) modes, tg_above = abv,
      tg_tokens = cells_done n (tokens_after modes coeffs) tokens, tg_total = (\<Sum>i<n. total_after modes coeffs i)\<rparr>"

lemma grid_after_fields [simp]:
  "tg_modes (grid_after modes tokens coeffs n abv) = cells_done n (mode_after coeffs) modes"
  "tg_above (grid_after modes tokens coeffs n abv) = abv"
  "tg_tokens (grid_after modes tokens coeffs n abv) = cells_done n (tokens_after modes coeffs) tokens"
  "tg_total (grid_after modes tokens coeffs n abv) = (\<Sum>i<n. total_after modes coeffs i)"
  by (simp_all add: grid_after_def)

lemma grid_after_cell:
  assumes "i < length modes" "i < length tokens" "\<not> mb_MBSkipCoeff (modes ! i)"
  shows "store_tokens i col (grid_after modes tokens coeffs i abv) (total_sent (mb_Is4x4 (modes ! i)) (coeffs ! i), a, l,
      tokens_sent (mb_Is4x4 (modes ! i)) (coeffs ! i))
    = (grid_after modes tokens coeffs (Suc i) (abv[col := a]), l)"
  using assms cells_done_Suc [OF assms(1), of "mode_after coeffs"] cells_done_Suc [OF assms(2), of "tokens_after modes coeffs"]
    cells_done_keep [OF assms(1), of "mode_after coeffs"]
  by (auto simp: store_tokens_def grid_after_def tokens_after_def total_after_def mode_after_def cells_done_nth)

lemma grid_after_skip:
  assumes "i < length modes" "i < length tokens" "mb_MBSkipCoeff (modes ! i)" "tokens_clean (tokens ! i)"
    "ResetMacroblockTokenContext (abv ! col) left is4x4 = (a, l)"
  shows "skip_tokens is4x4 i col (grid_after modes tokens coeffs i abv) left = (grid_after modes tokens coeffs (Suc i) (abv[col := a]), l)"
  using assms cells_done_Suc [OF assms(2), of "tokens_after modes coeffs"] cells_done_keep [OF assms(1), of "mode_after coeffs"]
  by (simp add: skip_tokens_def grid_after_def tokens_after_def total_after_def mode_after_def cells_done_nth
      clearMacroblockTokensIfNeeded_def clear_fresh)

text \<open>The contexts above that both sides keep, in buffers that may be longer than the row.\<close>

definition shared :: "nat \<Rightarrow> TokenContextPlanes list \<Rightarrow> TokenContextPlanes list \<Rightarrow> bool" where
  "shared cols abv dabv \<longleftrightarrow> cols \<le> length abv \<and> cols \<le> length dabv \<and> (\<forall>c < cols. dabv ! c = abv ! c \<and> planes_ok (abv ! c))"

lemma shared_update: "shared cols abv dabv \<Longrightarrow> planes_ok a \<Longrightarrow> shared cols (abv[c := a]) (dabv[c := a])"
proof -
  assume s: "shared cols abv dabv" "planes_ok a"
  have "xs[c := a] ! d = (if d = c then a else xs ! d)" if "d < cols" "cols \<le> length xs" for d and xs :: "TokenContextPlanes list"
    using that by (cases "d = c") simp_all
  note upd = this
  show ?thesis using s by (auto simp: shared_def upd)
qed

lemma shared_clear: "cols \<le> length abv \<Longrightarrow> cols \<le> length dabv \<Longrightarrow> shared cols (clear_above cols abv) (clear_above cols dabv)"
  by (auto simp: shared_def clear_above_def nth_append planes_ok_zero)

lemma reset_planes:
  assumes "planes_ok a" "planes_ok l"
  obtains a' l' where "ResetTokenContextPlanes a l is4x4 = (a', l')" "ResetMacroblockTokenContext a l is4x4 = (a', l')"
    "planes_ok a'" "planes_ok l'"
  using assms by (cases is4x4)
    (auto simp: ResetTokenContextPlanes_def ResetMacroblockTokenContext_def planes_ok_def zero_planes_def)

section \<open>Rows and partitions\<close>

lemma several_pow: "several (int P) \<Longrightarrow> \<exists>e. P = 2 ^ e"
proof -
  assume "several (int P)"
  then have "P = 2 ^ 1 \<or> P = 2 ^ 2 \<or> P = 2 ^ 3" by (auto simp: several_def)
  then show ?thesis by blast
qed

lemma row_partition_mod: "row_partition row (2 ^ e) = row mod 2 ^ e"
proof -
  have "int row AND (2 ^ e - 1) = int (row mod 2 ^ e)"
    by (simp add: take_bit_eq_mod zmod_int flip: mask_eq_exp_minus_1 take_bit_eq_mask)
  then show ?thesis by (simp add: row_partition_def)
qed

lemma row_partition_less: "P = 1 \<or> several (int P) \<Longrightarrow> row_partition row (int P) < P"
  using several_pow [of P] row_partition_mod [of row 0] by (auto simp: row_partition_mod)

text \<open>
  What the grid loops need to know of a frame type's macroblocks: which modes are usable, which skip
  their tokens, which carry their own DC coefficients, and that the cell acts on nothing else.
\<close>

locale token_cells =
  fixes cell :: "BoolWriter list mb_put \<Rightarrow> coef_probs \<Rightarrow> nat \<Rightarrow> 'm list \<Rightarrow> MacroblockCoefficients list \<Rightarrow> nat \<Rightarrow> nat
      \<Rightarrow> TokenContextPlanes list \<Rightarrow> TokenContextPlanes
      \<Rightarrow> (BoolWriter list, packet_error option \<times> TokenContextPlanes list \<times> TokenContextPlanes) state"
    and usable :: "'m \<Rightarrow> bool" and skips :: "'m \<Rightarrow> bool" and uses4x4 :: "'m \<Rightarrow> bool"
  assumes cell_usable: "usable (modes ! (row * cols + col)) \<Longrightarrow>
      cell put probs cols modes coeffs row col abv left =
        (if skips (modes ! (row * cols + col)) then skip_macroblock (uses4x4 (modes ! (row * cols + col))) col abv left
         else put_macroblock put probs (uses4x4 (modes ! (row * cols + col))) (coeffs ! (row * cols + col)) col abv left)"
    and cell_refused: "\<not> usable (modes ! (row * cols + col)) \<Longrightarrow>
      cell put probs cols modes coeffs row col abv left = State_Monad.return (Some ErrInvalidPacketConfig, abv, left)"
begin

text \<open>The decoder's mode says the same of a macroblock as the encoder's; the coefficients are codable.\<close>

definition sent_as :: "'m \<Rightarrow> MacroblockCoefficients \<Rightarrow> MacroblockMode \<Rightarrow> bool" where
  "sent_as m coeffs d \<longleftrightarrow> usable m \<and> mb_MBSkipCoeff d = skips m \<and> mb_Is4x4 d = uses4x4 m \<and>
     (\<not> skips m \<longrightarrow> mb_coeffs_ok (uses4x4 m) coeffs)"

abbreviation put_cell :: "nat \<Rightarrow> coef_probs \<Rightarrow> nat \<Rightarrow> 'm list \<Rightarrow> MacroblockCoefficients list \<Rightarrow> nat \<Rightarrow> nat
    \<Rightarrow> TokenContextPlanes list \<Rightarrow> TokenContextPlanes
    \<Rightarrow> (BoolWriter list, packet_error option \<times> TokenContextPlanes list \<times> TokenContextPlanes) state" where
  "put_cell P probs cols modes coeffs row \<equiv> cell (on_stream (row_partition row (int P))) probs cols modes coeffs row"

lemma sticky_cell: "row_partition row (int P) < P \<Longrightarrow> sticky_all P (put_cell P probs cols modes coeffs row col abv left)"
  by (cases "usable (modes ! (row * cols + col))")
    (auto simp: cell_usable cell_refused skip_macroblock_def put_macroblock_def split: prod.splits
      intro!: sticky_all_bind sticky_all_return sticky_all_on sticky_macroblock)

lemma sticky_row:
  assumes "row_partition row (int P) < P"
  shows "sticky_all P (token_row (put_cell P probs cols modes coeffs row) cs abv left)"
proof (induction cs arbitrary: abv left)
  case (Cons c cs)
  show ?case unfolding token_row.simps
    by (intro sticky_all_bind sticky_all_if sticky_all_return sticky_cell Cons.IH assms)
qed (simp add: sticky_all_return)

lemma sticky_rows:
  assumes "\<And>row. row_partition row (int P) < P"
  shows "sticky_all P (token_rows (put_cell P probs cols modes coeffs) n rows abv)"
proof (induction rows arbitrary: abv)
  case (Cons r rows)
  show ?case unfolding token_rows.simps
    by (intro sticky_all_bind sticky_all_if sticky_all_return sticky_row Cons.IH assms)
qed (simp add: sticky_all_return)

lemma codes_cell:
  assumes i: "i = row * cols + col" and k: "row_partition row (int P) < P"
    and s: "sent_as (modes ! i) (coeffs ! i) (dmodes ! i)" "i < length dmodes" "i < length tokens" "tokens_clean (tokens ! i)"
    and p: "col < cols" "shared cols abv dabv" "planes_ok left"
  shows "\<exists>abv' dabv' left'. shared cols abv' dabv' \<and> planes_ok left' \<and>
    codes_all P (put_cell P probs cols modes coeffs row col abv left)
      (read_tokens_cell probs (int P) cols row col (grid_after dmodes tokens coeffs i dabv) left)
      (None, abv', left') (grid_after dmodes tokens coeffs (Suc i) dabv', left')"
proof -
  have pa: "planes_ok (abv ! col)" "dabv ! col = abv ! col" using p by (simp_all add: shared_def)
  have m: "usable (modes ! i)" "mb_MBSkipCoeff (dmodes ! i) = skips (modes ! i)" "mb_Is4x4 (dmodes ! i) = uses4x4 (modes ! i)"
    "\<not> skips (modes ! i) \<Longrightarrow> mb_coeffs_ok (uses4x4 (modes ! i)) (coeffs ! i)"
    using s(1) by (auto simp: sent_as_def)
  have now: "tg_modes (grid_after dmodes tokens coeffs i dabv) ! i = dmodes ! i"
    "tg_tokens (grid_after dmodes tokens coeffs i dabv) ! i = tokens ! i"
    using s(2,3) by (simp_all add: cells_done_nth)
  note upd = shared_update [OF p(2)]
  note cell = cell_usable [OF m(1) [unfolded i], folded i]
  show ?thesis
  proof (cases "skips (modes ! i)")
    case True
    obtain a l where r: "ResetTokenContextPlanes (abv ! col) left (uses4x4 (modes ! i)) = (a, l)"
      "ResetMacroblockTokenContext (abv ! col) left (uses4x4 (modes ! i)) = (a, l)" "planes_ok a" "planes_ok l"
      using reset_planes [OF pa(1) p(3)] by metis
    have w: "put_cell P probs cols modes coeffs row col abv left = State_Monad.return (None, abv[col := a], l)"
      using True by (simp add: cell skip_macroblock_def r(1))
    have d: "read_tokens_cell probs (int P) cols row col (grid_after dmodes tokens coeffs i dabv) left
        = State_Monad.return (grid_after dmodes tokens coeffs (Suc i) (dabv[col := a]), l)"
      using True m(2,3) grid_after_skip [OF s(2,3) _ s(4) r(2) [folded pa(2)]]
      unfolding read_tokens_cell_def i [symmetric] Let_def now by simp
    show ?thesis unfolding w d using upd [OF r(3)] r(4) codes_all_return
      by (intro exI [of _ "abv[col := a]"] exI [of _ "dabv[col := a]"] exI [of _ l]) simp
  next
    case False
    obtain a l where c: "planes_ok a" "planes_ok l"
      "codes (writeCoefficientMacroblockTokensWithEOBs probs (uses4x4 (modes ! i)) (abv ! col) left (coeffs ! i))
        (DecodeMacroblockTokens probs (uses4x4 (modes ! i)) (abv ! col) left (tokens ! i))
        (None, a, l) (total_sent (uses4x4 (modes ! i)) (coeffs ! i), a, l, tokens_sent (uses4x4 (modes ! i)) (coeffs ! i))"
      using codes_macroblock [OF m(4) [OF False] pa(1) p(3) s(4), of probs] by blast
    have w: "put_cell P probs cols modes coeffs row col abv left = do {
        r \<leftarrow> on_stream (row_partition row (int P))
          (writeCoefficientMacroblockTokensWithEOBs probs (uses4x4 (modes ! i)) (abv ! col) left (coeffs ! i));
        State_Monad.return (fst r, abv[col := fst (snd r)], snd (snd r)) }"
      using False by (simp add: cell put_macroblock_def)
    have d: "read_tokens_cell probs (int P) cols row col (grid_after dmodes tokens coeffs i dabv) left = do {
        r \<leftarrow> on_stream (row_partition row (int P))
          (DecodeMacroblockTokens probs (uses4x4 (modes ! i)) (abv ! col) left (tokens ! i));
        State_Monad.return (store_tokens i col (grid_after dmodes tokens coeffs i dabv) r) }"
      using False m(2,3) pa(2) unfolding read_tokens_cell_def i [symmetric] Let_def now by simp
    have st: "store_tokens i col (grid_after dmodes tokens coeffs i dabv)
        (total_sent (uses4x4 (modes ! i)) (coeffs ! i), a, l, tokens_sent (uses4x4 (modes ! i)) (coeffs ! i))
      = (grid_after dmodes tokens coeffs (Suc i) (dabv[col := a]), l)"
      using grid_after_cell [OF s(2,3), of col coeffs dabv a l] False m(2,3) by simp
    have "codes_all P (put_cell P probs cols modes coeffs row col abv left)
      (read_tokens_cell probs (int P) cols row col (grid_after dmodes tokens coeffs i dabv) left)
      (None, abv[col := a], l) (grid_after dmodes tokens coeffs (Suc i) (dabv[col := a]), l)"
      using codes_all_post [OF codes_all_on [OF c(3) k], of "\<lambda>r. (fst r, abv[col := fst (snd r)], snd (snd r))"
          "store_tokens i col (grid_after dmodes tokens coeffs i dabv)"]
      unfolding w d st by simp
    then show ?thesis using upd [OF c(1)] c(2) by (intro exI [of _ "abv[col := a]"] exI [of _ "dabv[col := a]"] exI [of _ l]) simp
  qed
qed

lemma codes_row:
  assumes k: "row_partition row (int P) < P"
    and s: "\<forall>i < n. sent_as (modes ! i) (coeffs ! i) (dmodes ! i) \<and> tokens_clean (tokens ! i)"
    and n: "n \<le> length dmodes" "n \<le> length tokens" "row * cols + cols \<le> n"
    and p: "shared cols abv dabv" "planes_ok left" and c: "c + m = cols"
  shows "\<exists>abv' dabv' left'. shared cols abv' dabv' \<and> planes_ok left' \<and>
    codes_all P (token_row (put_cell P probs cols modes coeffs row) [c..<cols] abv left)
      (read_tokens_row (read_tokens_cell probs (int P) cols row) [c..<cols] (grid_after dmodes tokens coeffs (row * cols + c) dabv) left)
      (None, abv', left') (grid_after dmodes tokens coeffs (row * cols + cols) dabv', left')"
  using p c
proof (induction m arbitrary: c abv dabv left)
  case 0
  then show ?case by (auto intro!: codes_all_return)
next
  case (Suc m)
  have lt: "c < cols" using Suc.prems(3) by simp
  have i: "row * cols + c < n" using lt n(3) by simp
  have u: "[c..<cols] = c # [Suc c..<cols]" using lt by (simp add: upt_conv_Cons)
  have "\<exists>abv1 dabv1 left1. shared cols abv1 dabv1 \<and> planes_ok left1 \<and>
    codes_all P (put_cell P probs cols modes coeffs row c abv left)
      (read_tokens_cell probs (int P) cols row c (grid_after dmodes tokens coeffs (row * cols + c) dabv) left)
      (None, abv1, left1) (grid_after dmodes tokens coeffs (Suc (row * cols + c)) dabv1, left1)"
    by (rule codes_cell [OF refl k]) (use s i n(1,2) lt Suc.prems(1,2) in auto)
  then obtain abv1 dabv1 left1 where one: "shared cols abv1 dabv1" "planes_ok left1"
    "codes_all P (put_cell P probs cols modes coeffs row c abv left)
      (read_tokens_cell probs (int P) cols row c (grid_after dmodes tokens coeffs (row * cols + c) dabv) left)
      (None, abv1, left1) (grid_after dmodes tokens coeffs (Suc (row * cols + c)) dabv1, left1)" by blast
  obtain abv' dabv' left' where rest: "shared cols abv' dabv'" "planes_ok left'"
    "codes_all P (token_row (put_cell P probs cols modes coeffs row) [Suc c..<cols] abv1 left1)
      (read_tokens_row (read_tokens_cell probs (int P) cols row) [Suc c..<cols] (grid_after dmodes tokens coeffs (row * cols + Suc c) dabv1) left1)
      (None, abv', left') (grid_after dmodes tokens coeffs (row * cols + cols) dabv', left')"
    using Suc.IH [OF one(1,2), of "Suc c"] Suc.prems(3) by auto
  have "codes_all P (token_row (put_cell P probs cols modes coeffs row) [c..<cols] abv left)
      (read_tokens_row (read_tokens_cell probs (int P) cols row) [c..<cols] (grid_after dmodes tokens coeffs (row * cols + c) dabv) left)
      (None, abv', left') (grid_after dmodes tokens coeffs (row * cols + cols) dabv', left')"
    unfolding u token_row.simps read_tokens_row.simps
    by (rule codes_all_bind [OF one(3)])
      (use rest(3) in simp, intro sticky_all_if sticky_all_return sticky_row k)
  then show ?case using rest(1,2) by (intro exI [of _ abv'] exI [of _ dabv'] exI [of _ left']) simp
qed

lemma codes_rows:
  assumes k: "\<And>row. row_partition row (int P) < P"
    and s: "\<forall>i < rows * cols. sent_as (modes ! i) (coeffs ! i) (dmodes ! i) \<and> tokens_clean (tokens ! i)"
    and n: "rows * cols \<le> length dmodes" "rows * cols \<le> length tokens"
    and p: "shared cols abv dabv" and r: "r + m = rows"
  shows "\<exists>abv' dabv'. shared cols abv' dabv' \<and>
    codes_all P (token_rows (put_cell P probs cols modes coeffs) cols [r..<rows] abv)
      (read_tokens_rows (read_tokens_cell probs (int P) cols) cols [r..<rows] (grid_after dmodes tokens coeffs (r * cols) dabv))
      (None, abv') (grid_after dmodes tokens coeffs (rows * cols) dabv')"
  using p r
proof (induction m arbitrary: r abv dabv)
  case 0
  then show ?case by (auto intro!: codes_all_return)
next
  case (Suc m)
  have lt: "r < rows" using Suc.prems(2) by simp
  have u: "[r..<rows] = r # [Suc r..<rows]" using lt by (simp add: upt_conv_Cons)
  have last: "r * cols + cols \<le> rows * cols" using mult_le_mono1 [of "Suc r" rows cols] lt by simp
  obtain abv1 dabv1 left1 where one: "shared cols abv1 dabv1" "planes_ok left1"
    "codes_all P (token_row (put_cell P probs cols modes coeffs r) [0..<cols] abv zero_planes)
      (read_tokens_row (read_tokens_cell probs (int P) cols r) [0..<cols] (grid_after dmodes tokens coeffs (r * cols + 0) dabv) zero_planes)
      (None, abv1, left1) (grid_after dmodes tokens coeffs (r * cols + cols) dabv1, left1)"
    using codes_row [OF k s n last Suc.prems(1) planes_ok_zero, where c = 0 and m = cols and probs = probs] by (simp only: add_0_left simp_thms) blast
  obtain abv' dabv' where rest: "shared cols abv' dabv'"
    "codes_all P (token_rows (put_cell P probs cols modes coeffs) cols [Suc r..<rows] abv1)
      (read_tokens_rows (read_tokens_cell probs (int P) cols) cols [Suc r..<rows] (grid_after dmodes tokens coeffs (Suc r * cols) dabv1))
      (None, abv') (grid_after dmodes tokens coeffs (rows * cols) dabv')"
    using Suc.IH [OF one(1), of "Suc r"] Suc.prems(2) by auto
  have "codes_all P (token_rows (put_cell P probs cols modes coeffs) cols [r..<rows] abv)
      (read_tokens_rows (read_tokens_cell probs (int P) cols) cols [r..<rows] (grid_after dmodes tokens coeffs (r * cols) dabv))
      (None, abv') (grid_after dmodes tokens coeffs (rows * cols) dabv')"
    unfolding u token_rows.simps read_tokens_rows.simps
    by (rule codes_all_bind [OF one(3) [unfolded add_0_right]])
      (use rest(2) in \<open>simp add: add.commute\<close>, intro sticky_all_if sticky_all_return sticky_rows k)
  then show ?case using rest(1) by (intro exI [of _ abv'] exI [of _ dabv']) simp
qed

text \<open>From cleared contexts, as both sides start.\<close>

lemma codes_token_grid:
  assumes P: "P = 1 \<or> several (int P)"
    and s: "\<forall>i < rows * cols. sent_as (modes ! i) (coeffs ! i) (dmodes ! i) \<and> tokens_clean (tokens ! i)"
    and n: "rows * cols \<le> length dmodes" "rows * cols \<le> length tokens" "cols \<le> length abv" "cols \<le> length dabv"
  shows "\<exists>abv' dabv'. shared cols abv' dabv' \<and>
    codes_all P (token_rows (put_cell P probs cols modes coeffs) cols [0..<rows] (clear_above cols abv))
      (read_tokens_rows (read_tokens_cell probs (int P) cols) cols [0..<rows]
        \<lparr>tg_modes = dmodes, tg_above = clear_above cols dabv, tg_tokens = tokens, tg_total = 0\<rparr>)
      (None, abv') (grid_after dmodes tokens coeffs (rows * cols) dabv')"
proof -
  have k: "row_partition row (int P) < P" for row using P by (rule row_partition_less)
  have st: "\<lparr>tg_modes = dmodes, tg_above = clear_above cols dabv, tg_tokens = tokens, tg_total = 0\<rparr>
      = grid_after dmodes tokens coeffs (0 * cols) (clear_above cols dabv)"
    by (simp add: grid_after_def)
  show ?thesis unfolding st using codes_rows [OF k s n(1,2) shared_clear [OF n(3,4)], of 0 rows] by simp
qed

end

end
