(* ===== verification/Vp8_Grid_Roundtrip.thy ===== *)
theory Vp8_Grid_Roundtrip
  imports Vp8_Token_Grid_Codes
begin

text \<open>
  The tokens of a frame, written by the grid writers of key and inter frames and read back by
  \<open>DecodeTokenGrid\<close>, from one partition or from several.
\<close>

section \<open>Key and inter frames as token cells\<close>

interpretation key_tokens: token_cells write_key_tokens validKeyFrameMacroblockMode km_MBSkipCoeff "\<lambda>m. km_YMode m = BPred"
  by unfold_locales (simp_all add: write_key_tokens_def Let_def)

interpretation inter_tokens: token_cells write_inter_tokens "\<lambda>m. im_MBSkipCoeff m \<or> validInterCoefficientTokenMode m"
    im_MBSkipCoeff "\<lambda>m. interModeUses4x4Tokens (im_Mode m)"
  by unfold_locales (auto simp: write_inter_tokens_def Let_def)

text \<open>The single writer is one stream.\<close>

lemma one_stream_put: "one_stream (put_macroblock (on_stream 0) probs x c col abv left) (put_macroblock (\<lambda>m. m) probs x c col abv left)"
  unfolding put_macroblock_def by (intro one_stream_bind one_stream_on one_stream_return)

lemma one_stream_skip: "one_stream (skip_macroblock x col abv left) (skip_macroblock x col abv left)"
  unfolding skip_macroblock_def by (simp add: one_stream_return split: prod.split)

lemma one_stream_key:
  "one_stream (write_key_tokens (on_stream 0) probs cols modes coeffs row col abv left)
    (write_key_tokens (\<lambda>m. m) probs cols modes coeffs row col abv left)"
  unfolding write_key_tokens_def Let_def by (intro one_stream_if one_stream_return one_stream_skip one_stream_put)

lemma one_stream_inter:
  "one_stream (write_inter_tokens (on_stream 0) probs cols modes coeffs row col abv left)
    (write_inter_tokens (\<lambda>m. m) probs cols modes coeffs row col abv left)"
  unfolding write_inter_tokens_def Let_def by (intro one_stream_if one_stream_return one_stream_skip one_stream_put)

lemma one_stream_row:
  "(\<And>col abv left. one_stream (c col abv left) (d col abv left)) \<Longrightarrow> one_stream (token_row c cols abv left) (token_row d cols abv left)"
proof (induction cols arbitrary: abv left)
  case (Cons col cols)
  show ?case unfolding token_row.simps
    by (intro one_stream_bind one_stream_if one_stream_return Cons)
qed (simp add: one_stream_return)

lemma one_stream_rows:
  "(\<And>row col abv left. one_stream (c row col abv left) (d row col abv left)) \<Longrightarrow>
    one_stream (token_rows c cols rows abv) (token_rows d cols rows abv)"
proof (induction rows arbitrary: abv)
  case (Cons row rows)
  show ?case unfolding token_rows.simps
    by (intro one_stream_bind one_stream_if one_stream_return one_stream_row Cons)
qed (simp add: one_stream_return)

lemma row_partition_one: "row_partition row 1 = 0"
  using row_partition_mod [of row 0] by simp

section \<open>The grids come back\<close>

text \<open>What a reader of the grid returns: the coefficients and modes of every macroblock of the grid, and the sum.\<close>

definition grid_decoded ::
  "nat \<Rightarrow> MacroblockMode list \<Rightarrow> MacroblockTokens list \<Rightarrow> MacroblockCoefficients list \<Rightarrow> token_grid \<Rightarrow> bool" where
  "grid_decoded n modes tokens coeffs g \<longleftrightarrow>
     tg_modes g = map (\<lambda>i. if i < n then mode_after coeffs i (modes ! i) else modes ! i) [0..<length modes] \<and>
     tg_tokens g = map (\<lambda>i. if i < n then tokens_after modes coeffs i (tokens ! i) else tokens ! i) [0..<length tokens] \<and>
     tg_total g = (\<Sum>i<n. total_after modes coeffs i)"

lemma grid_after_decoded: "grid_decoded n modes tokens coeffs (grid_after modes tokens coeffs n abv)"
  by (simp add: grid_decoded_def cells_done_def)

text \<open>The readers of \<open>P\<close> partitions, started on the bytes of the writers with more bytes behind them.\<close>

abbreviation partition_readers :: "BoolWriter list \<Rightarrow> (nat \<Rightarrow> byte list) \<Rightarrow> nat \<Rightarrow> Decoder list" where
  "partition_readers ws tail P \<equiv> map (\<lambda>k. Decoder_Init (Bytes (Finish (ws ! k)) @ tail k)) [0..<P]"

lemma buffers_lengths:
  assumes "\<not> token_buffers_small (int rows) (int cols) modes tokens abv"
  shows "rows * cols \<le> modes" "rows * cols \<le> tokens" "cols \<le> abv"
  using assms by (simp_all add: token_buffers_small_def grid_too_small_def flip: of_nat_mult)

lemma DecodeTokenGrid_reads:
  assumes "P = 1 \<or> several (int P)" "length ds0 = P"
    and "\<not> token_buffers_small (int rows) (int cols) (length modes) (length tokens) (length abv)"
    and "run_state (read_tokens_rows (read_tokens_cell probs (int P) cols) cols [0..<rows]
        \<lparr>tg_modes = modes, tg_above = clear_above cols abv, tg_tokens = tokens, tg_total = 0\<rparr>) ds0 = (g, ds)"
  shows "run_state (DecodeTokenGrid (int rows) (int cols) probs modes abv tokens) ds0 = (Inr g, ds)"
proof -
  have "\<not> tokens_refused (int rows) (int cols) (length modes) (length tokens) (length abv) P"
    using assms(1,3) by (auto simp: tokens_refused_def)
  then show ?thesis using assms(2,4) by (simp add: DecodeTokenGrid_def reader_count_def)
qed

text \<open>Over the cells of any frame type.\<close>

lemma grid_message:
  assumes c: "codes_all P loop (read_tokens_rows (read_tokens_cell probs (int P) cols) cols [0..<rows]
        \<lparr>tg_modes = modes, tg_above = clear_above cols dabv, tg_tokens = tokens, tg_total = 0\<rparr>)
      (None, abv') (grid_after modes tokens coeffs (rows * cols) dabv')"
    and P: "P = 1 \<or> several (int P)" "length dsts = P"
    and n: "\<not> token_buffers_small (int rows) (int cols) (length modes) (length tokens) (length dabv)"
    and run: "run_state loop (map Writer_Init dsts) = (r, ws)" "\<forall>k < P. w_err (Finish (ws ! k)) = 0"
  shows "r = (None, abv')" "length ws = P" "\<forall>k < P. \<exists>xs. ws ! k = write_bools (Writer_Init (dsts ! k)) xs"
    "\<exists>g ds. run_state (DecodeTokenGrid (int rows) (int cols) probs modes dabv tokens) (partition_readers ws tail P) = (Inr g, ds) \<and>
      grid_decoded (rows * cols) modes tokens coeffs g \<and> (\<forall>k < P. Decoder_Err (ds ! k) = None)"
proof -
  have init: "\<forall>k < P. \<exists>dst. map Writer_Init dsts ! k = Writer_Init dst" using P(2) by auto
  have len: "length (map Writer_Init dsts) = P" using P(2) by simp
  note m = codes_all_message [OF c len init run, of tail]
  then show "r = (None, abv')" "length ws = P" by blast+
  show "\<forall>k < P. \<exists>xs. ws ! k = write_bools (Writer_Init (dsts ! k)) xs"
    using m P(2) by fastforce
  from m obtain ds where d: "run_state (read_tokens_rows (read_tokens_cell probs (int P) cols) cols [0..<rows]
        \<lparr>tg_modes = modes, tg_above = clear_above cols dabv, tg_tokens = tokens, tg_total = 0\<rparr>)
      (partition_readers ws tail P) = (grid_after modes tokens coeffs (rows * cols) dabv', ds)" "\<forall>k < P. Decoder_Err (ds ! k) = None"
    by blast
  have "run_state (DecodeTokenGrid (int rows) (int cols) probs modes dabv tokens) (partition_readers ws tail P)
      = (Inr (grid_after modes tokens coeffs (rows * cols) dabv'), ds)"
    by (rule DecodeTokenGrid_reads [OF P(1) _ n d(1)]) simp
  then show "\<exists>g ds. run_state (DecodeTokenGrid (int rows) (int cols) probs modes dabv tokens) (partition_readers ws tail P) = (Inr g, ds) \<and>
      grid_decoded (rows * cols) modes tokens coeffs g \<and> (\<forall>k < P. Decoder_Err (ds ! k) = None)"
    using d(2) grid_after_decoded by blast
qed

text \<open>A writer that has failed stays failed.\<close>

lemma Finish_failed: "writer_ok w \<Longrightarrow> w_err (Finish w) = 0 \<Longrightarrow> w_err w = 0"
  using emitsD(2) [OF emits_Finish] vp8w.puts_failed by metis

lemma one_writer_loop:
  assumes o: "one_stream loop1 loop" and c: "codes_all 1 loop1 n (None, abv') s"
    and run: "run_state (one_writer loop) (Writer_Init dst) = (r, w)" and fine: "w_err (Finish w) = 0"
  shows "run_state loop1 (map Writer_Init [dst]) = ((None, abv'), [w])" "r = (None, abv')"
proof -
  obtain a w1 where l: "run_state loop (Writer_Init dst) = (a, w1)" by (metis surj_pair)
  then have l1: "run_state loop1 [Writer_Init dst] = (a, [w1])" using o by (simp add: one_stream_def)
  have end1: "snd (run_state mode_end w) = w" for w by (simp add: mode_end_def werr_def)
  have w1: "w1 = w" and a: "fst a = None \<Longrightarrow> r = (if w_err w1 = 0 then None else Some (ModePacketError EncErrBufferTooSmall), snd a)"
    using run l by (auto simp: one_writer_def mode_end_def werr_def Writer_Err_def split: if_splits)
  have "\<forall>k < 1. \<exists>dst'. [Writer_Init dst] ! k = Writer_Init dst'" by auto
  from codes_all_message [OF c _ this l1, of "\<lambda>_. []"] have e: "a = (None, abv')" using fine w1 by simp
  have "sticky_all 1 loop1" using c by (rule codes_all_sticky)
  then have "writer_ok w" using sticky_allD(2) [OF _ _ _ l1] Init_writer(2) w1 by fastforce
  then have "w_err w1 = 0" using Finish_failed fine w1 by simp
  then show "run_state loop1 (map Writer_Init [dst]) = ((None, abv'), [w])" "r = (None, abv')"
    using l1 e w1 a by simp_all
qed


lemma key_partitions_decode:
  assumes "several (int P)" "length dsts = P"
    and "\<not> token_buffers_small (int rows) (int cols) (length modes) (length coeffs) (length abv)"
    and "\<not> token_buffers_small (int rows) (int cols) (length dmodes) (length tokens) (length dabv)"
    and "\<forall>i < rows * cols. key_tokens.sent_as (modes ! i) (coeffs ! i) (dmodes ! i) \<and> tokens_clean (tokens ! i)"
    and "run_state (WriteCoefficientTokenGridPartitioned (int P) (int rows) (int cols) modes coeffs abv probs) (map Writer_Init dsts) = (r, ws)"
    and "\<forall>k < P. w_err (Finish (ws ! k)) = 0"
  shows "fst r = None" "length ws = P" "\<forall>k < P. \<exists>xs. ws ! k = write_bools (Writer_Init (dsts ! k)) xs"
    "\<exists>g ds. run_state (DecodeTokenGrid (int rows) (int cols) probs dmodes dabv tokens) (partition_readers ws tail P) = (Inr g, ds) \<and>
      grid_decoded (rows * cols) dmodes tokens coeffs g \<and> (\<forall>k < P. Decoder_Err (ds ! k) = None)"
proof -
  note n = buffers_lengths [OF assms(3)] buffers_lengths [OF assms(4)]
  obtain abv' dabv' where c: "codes_all P (token_rows (key_tokens.put_cell P probs cols modes coeffs) cols [0..<rows] (clear_above cols abv))
      (read_tokens_rows (read_tokens_cell probs (int P) cols) cols [0..<rows]
        \<lparr>tg_modes = dmodes, tg_above = clear_above cols dabv, tg_tokens = tokens, tg_total = 0\<rparr>)
      (None, abv') (grid_after dmodes tokens coeffs (rows * cols) dabv')"
    using key_tokens.codes_token_grid [OF disjI2 [OF assms(1)] assms(5) n(4,5,3,6), of probs] by blast
  obtain r' where r': "run_state (token_rows (key_tokens.put_cell P probs cols modes coeffs) cols [0..<rows] (clear_above cols abv))
      (map Writer_Init dsts) = (r', ws)" "r = grid_error r'"
    using assms(1,3,6) by (auto simp: WriteCoefficientTokenGridPartitioned_def split: prod.splits)
  note m = grid_message(1-3) [OF c disjI2 [OF assms(1)] assms(2,4) r'(1) assms(7)] and m4 = grid_message(4) [OF c disjI2 [OF assms(1)] assms(2,4) r'(1) assms(7), where tail = tail]
  show "fst r = None" "length ws = P" "\<forall>k < P. \<exists>xs. ws ! k = write_bools (Writer_Init (dsts ! k)) xs"
    using m(1-3) by (simp_all add: r'(2) grid_error_def)
  show "\<exists>g ds. run_state (DecodeTokenGrid (int rows) (int cols) probs dmodes dabv tokens) (partition_readers ws tail P) = (Inr g, ds) \<and>
      grid_decoded (rows * cols) dmodes tokens coeffs g \<and> (\<forall>k < P. Decoder_Err (ds ! k) = None)"
    using m4 .
qed

lemma key_grid_decodes:
  assumes "\<not> token_buffers_small (int rows) (int cols) (length modes) (length coeffs) (length abv)"
    and "\<not> token_buffers_small (int rows) (int cols) (length dmodes) (length tokens) (length dabv)"
    and "\<forall>i < rows * cols. key_tokens.sent_as (modes ! i) (coeffs ! i) (dmodes ! i) \<and> tokens_clean (tokens ! i)"
    and "run_state (WriteCoefficientTokenGrid (int rows) (int cols) modes coeffs abv probs) (Writer_Init dst) = (r, w)"
    and "w_err (Finish w) = 0"
  shows "fst r = None" "\<exists>xs. w = write_bools (Writer_Init dst) xs"
    "\<exists>g d. run_state (DecodeTokenGrid (int rows) (int cols) probs dmodes dabv tokens) [Decoder_Init (Bytes (Finish w) @ tail)] = (Inr g, d) \<and>
      grid_decoded (rows * cols) dmodes tokens coeffs g \<and> Decoder_Err (d ! 0) = None"
proof -
  note n = buffers_lengths [OF assms(1)] buffers_lengths [OF assms(2)]
  have one: "(1 :: nat) = 1 \<or> several (int 1)" by simp
  let ?one = "token_rows (key_tokens.put_cell 1 probs cols modes coeffs) cols [0..<rows] (clear_above cols abv)"
  obtain abv' dabv' where c: "codes_all 1 ?one
      (read_tokens_rows (read_tokens_cell probs (int 1) cols) cols [0..<rows]
        \<lparr>tg_modes = dmodes, tg_above = clear_above cols dabv, tg_tokens = tokens, tg_total = 0\<rparr>)
      (None, abv') (grid_after dmodes tokens coeffs (rows * cols) dabv')"
    using key_tokens.codes_token_grid [OF one assms(3) n(4,5,3,6), of probs] by blast
  have o: "one_stream ?one (token_rows (write_key_tokens (\<lambda>m. m) probs cols modes coeffs) cols [0..<rows] (clear_above cols abv))"
    by (intro one_stream_rows) (simp add: row_partition_one one_stream_key)
  have run: "run_state (one_writer (token_rows (write_key_tokens (\<lambda>m. m) probs cols modes coeffs) cols [0..<rows] (clear_above cols abv)))
      (Writer_Init dst) = (r, w)"
    using assms(1,4) by (simp add: WriteCoefficientTokenGrid_def)
  note l = one_writer_loop [OF o c run assms(5)]
  have len: "length [dst] = 1" by simp
  have fine: "\<forall>k < 1. w_err (Finish ([w] ! k)) = 0" using assms(5) by simp
  note m = grid_message(1-3) [OF c one len assms(2) l(1) fine] and m4 = grid_message(4) [OF c one len assms(2) l(1) fine, where tail = "\<lambda>_. tail"]
  show "fst r = None" using l(2) by simp
  show "\<exists>xs. w = write_bools (Writer_Init dst) xs" using m(3) by simp
  show "\<exists>g d. run_state (DecodeTokenGrid (int rows) (int cols) probs dmodes dabv tokens) [Decoder_Init (Bytes (Finish w) @ tail)] = (Inr g, d) \<and>
      grid_decoded (rows * cols) dmodes tokens coeffs g \<and> Decoder_Err (d ! 0) = None"
    using m4 by simp
qed

lemma inter_partitions_decode:
  assumes "several (int P)" "length dsts = P"
    and "\<not> token_buffers_small (int rows) (int cols) (length modes) (length coeffs) (length abv)"
    and "\<not> token_buffers_small (int rows) (int cols) (length dmodes) (length tokens) (length dabv)"
    and "\<forall>i < rows * cols. inter_tokens.sent_as (modes ! i) (coeffs ! i) (dmodes ! i) \<and> tokens_clean (tokens ! i)"
    and "run_state (WriteInterCoefficientTokenGridPartitioned (int P) (int rows) (int cols) modes coeffs abv probs) (map Writer_Init dsts) = (r, ws)"
    and "\<forall>k < P. w_err (Finish (ws ! k)) = 0"
  shows "fst r = None" "length ws = P" "\<forall>k < P. \<exists>xs. ws ! k = write_bools (Writer_Init (dsts ! k)) xs"
    "\<exists>g ds. run_state (DecodeTokenGrid (int rows) (int cols) probs dmodes dabv tokens) (partition_readers ws tail P) = (Inr g, ds) \<and>
      grid_decoded (rows * cols) dmodes tokens coeffs g \<and> (\<forall>k < P. Decoder_Err (ds ! k) = None)"
proof -
  note n = buffers_lengths [OF assms(3)] buffers_lengths [OF assms(4)]
  obtain abv' dabv' where c: "codes_all P (token_rows (inter_tokens.put_cell P probs cols modes coeffs) cols [0..<rows] (clear_above cols abv))
      (read_tokens_rows (read_tokens_cell probs (int P) cols) cols [0..<rows]
        \<lparr>tg_modes = dmodes, tg_above = clear_above cols dabv, tg_tokens = tokens, tg_total = 0\<rparr>)
      (None, abv') (grid_after dmodes tokens coeffs (rows * cols) dabv')"
    using inter_tokens.codes_token_grid [OF disjI2 [OF assms(1)] assms(5) n(4,5,3,6), of probs] by blast
  obtain r' where r': "run_state (token_rows (inter_tokens.put_cell P probs cols modes coeffs) cols [0..<rows] (clear_above cols abv))
      (map Writer_Init dsts) = (r', ws)" "r = grid_error r'"
    using assms(1,3,6) by (auto simp: WriteInterCoefficientTokenGridPartitioned_def split: prod.splits)
  note m = grid_message(1-3) [OF c disjI2 [OF assms(1)] assms(2,4) r'(1) assms(7)] and m4 = grid_message(4) [OF c disjI2 [OF assms(1)] assms(2,4) r'(1) assms(7), where tail = tail]
  show "fst r = None" "length ws = P" "\<forall>k < P. \<exists>xs. ws ! k = write_bools (Writer_Init (dsts ! k)) xs"
    using m(1-3) by (simp_all add: r'(2) grid_error_def)
  show "\<exists>g ds. run_state (DecodeTokenGrid (int rows) (int cols) probs dmodes dabv tokens) (partition_readers ws tail P) = (Inr g, ds) \<and>
      grid_decoded (rows * cols) dmodes tokens coeffs g \<and> (\<forall>k < P. Decoder_Err (ds ! k) = None)"
    using m4 .
qed

lemma inter_grid_decodes:
  assumes "\<not> token_buffers_small (int rows) (int cols) (length modes) (length coeffs) (length abv)"
    and "\<not> token_buffers_small (int rows) (int cols) (length dmodes) (length tokens) (length dabv)"
    and "\<forall>i < rows * cols. inter_tokens.sent_as (modes ! i) (coeffs ! i) (dmodes ! i) \<and> tokens_clean (tokens ! i)"
    and "run_state (WriteInterCoefficientTokenGrid (int rows) (int cols) modes coeffs abv probs) (Writer_Init dst) = (r, w)"
    and "w_err (Finish w) = 0"
  shows "fst r = None" "\<exists>xs. w = write_bools (Writer_Init dst) xs"
    "\<exists>g d. run_state (DecodeTokenGrid (int rows) (int cols) probs dmodes dabv tokens) [Decoder_Init (Bytes (Finish w) @ tail)] = (Inr g, d) \<and>
      grid_decoded (rows * cols) dmodes tokens coeffs g \<and> Decoder_Err (d ! 0) = None"
proof -
  note n = buffers_lengths [OF assms(1)] buffers_lengths [OF assms(2)]
  have one: "(1 :: nat) = 1 \<or> several (int 1)" by simp
  let ?one = "token_rows (inter_tokens.put_cell 1 probs cols modes coeffs) cols [0..<rows] (clear_above cols abv)"
  obtain abv' dabv' where c: "codes_all 1 ?one
      (read_tokens_rows (read_tokens_cell probs (int 1) cols) cols [0..<rows]
        \<lparr>tg_modes = dmodes, tg_above = clear_above cols dabv, tg_tokens = tokens, tg_total = 0\<rparr>)
      (None, abv') (grid_after dmodes tokens coeffs (rows * cols) dabv')"
    using inter_tokens.codes_token_grid [OF one assms(3) n(4,5,3,6), of probs] by blast
  have o: "one_stream ?one (token_rows (write_inter_tokens (\<lambda>m. m) probs cols modes coeffs) cols [0..<rows] (clear_above cols abv))"
    by (intro one_stream_rows) (simp add: row_partition_one one_stream_inter)
  have run: "run_state (one_writer (token_rows (write_inter_tokens (\<lambda>m. m) probs cols modes coeffs) cols [0..<rows] (clear_above cols abv)))
      (Writer_Init dst) = (r, w)"
    using assms(1,4) by (simp add: WriteInterCoefficientTokenGrid_def)
  note l = one_writer_loop [OF o c run assms(5)]
  have len: "length [dst] = 1" by simp
  have fine: "\<forall>k < 1. w_err (Finish ([w] ! k)) = 0" using assms(5) by simp
  note m = grid_message(1-3) [OF c one len assms(2) l(1) fine] and m4 = grid_message(4) [OF c one len assms(2) l(1) fine, where tail = "\<lambda>_. tail"]
  show "fst r = None" using l(2) by simp
  show "\<exists>xs. w = write_bools (Writer_Init dst) xs" using m(3) by simp
  show "\<exists>g d. run_state (DecodeTokenGrid (int rows) (int cols) probs dmodes dabv tokens) [Decoder_Init (Bytes (Finish w) @ tail)] = (Inr g, d) \<and>
      grid_decoded (rows * cols) dmodes tokens coeffs g \<and> Decoder_Err (d ! 0) = None"
    using m4 by simp
qed


text \<open>C9: The tokens of an inter frame survive several partitions. When the encoder writes the coefficients of a grid of
  macroblocks, row by row in turn to 2, 4 or 8 partitions, and every partition finishes without error, then it has reported
  no error, and the decoder's grid reader, started on the bytes of the partitions (whatever follows each), on modes that
  agree about skipping and about 4x4 blocks and on clean token storage, stores for every macroblock the coefficients that
  were written, marks those without coefficients as skipped, returns the sum of the ends of block, and no reader has run
  past its end. The coefficients are those of \<open>tokens_sent\<close>, which the round trip of a macroblock in
  \<open>Vp8_Macroblock_Roundtrip\<close> shows to be the written ones.\<close>

theorem inter_tokens_roundtrip:
  assumes "partitions \<in> {2, 4, 8}" "length dsts = partitions"
    and "\<not> token_buffers_small (int rows) (int cols) (length modes) (length coeffs) (length abv)"
    and "\<not> token_buffers_small (int rows) (int cols) (length dmodes) (length tokens) (length dabv)"
    and "\<forall>i < rows * cols. (im_MBSkipCoeff (modes ! i) \<or> validInterCoefficientTokenMode (modes ! i)) \<and>
      mb_MBSkipCoeff (dmodes ! i) = im_MBSkipCoeff (modes ! i) \<and>
      mb_Is4x4 (dmodes ! i) = interModeUses4x4Tokens (im_Mode (modes ! i)) \<and>
      (\<not> im_MBSkipCoeff (modes ! i) \<longrightarrow> mb_coeffs_ok (interModeUses4x4Tokens (im_Mode (modes ! i))) (coeffs ! i)) \<and>
      tokens_clean (tokens ! i)"
    and "run_state (WriteInterCoefficientTokenGridPartitioned (int partitions) (int rows) (int cols) modes coeffs abv probs)
      (map Writer_Init dsts) = ((e, abv'), ws)"
    and "\<forall>k < partitions. w_err (Finish (ws ! k)) = 0"
  shows "e = None \<and> length ws = partitions \<and>
    (\<exists>g ds. run_state (DecodeTokenGrid (int rows) (int cols) probs dmodes dabv tokens)
        (map (\<lambda>k. Decoder_Init (Bytes (Finish (ws ! k)) @ tail k)) [0..<partitions]) = (Inr g, ds) \<and>
      grid_decoded (rows * cols) dmodes tokens coeffs g \<and> (\<forall>k < partitions. Decoder_Err (ds ! k) = None))"
proof -
  have P: "several (int partitions)" using assms(1) by (auto simp: several_def)
  have s: "\<forall>i < rows * cols. inter_tokens.sent_as (modes ! i) (coeffs ! i) (dmodes ! i) \<and> tokens_clean (tokens ! i)"
    using assms(5) by (simp add: inter_tokens.sent_as_def)
  note m = inter_partitions_decode(1,2) [OF P assms(2-4) s assms(6,7)]
    and m4 = inter_partitions_decode(4) [OF P assms(2-4) s assms(6,7), where tail = tail]
  then show ?thesis by simp
qed

text \<open>Two rows of one macroblock, in two partitions.\<close>

definition grid_coeffs :: "MacroblockCoefficients list" where
  "grid_coeffs = replicate 2 sample_coeffs"

definition flat_probs :: coef_probs where
  "flat_probs = replicate 4 (replicate 8 (replicate 3 (replicate 11 128)))"

definition grid_modes :: "InterFrameMacroblockMode list" where
  "grid_modes = (let m = \<lparr>im_BlockMV = replicate 16 zero_mv, im_MV = zero_mv, im_BModes = replicate 16 0, im_SegmentID = 0,
     im_MBSkipCoeff = False, im_RefFrame = LastFrame, im_Mode = ZeroMV, im_UVMode = 0, im_Partition = 0\<rparr>
   in [m, m\<lparr>im_MBSkipCoeff := True\<rparr>])"

definition grid_dmodes :: "MacroblockMode list" where
  "grid_dmodes = [zero_mode, zero_mode\<lparr>mb_MBSkipCoeff := True\<rparr>]"

lemma grid_sample_ok:
  "\<not> token_buffers_small (int 2) (int 1) (length grid_modes) (length grid_coeffs) (length [zero_planes])"
  "\<not> token_buffers_small (int 2) (int 1) (length grid_dmodes) (length [fresh_tokens, fresh_tokens]) (length [zero_planes])"
  "length [replicate 8000 0, replicate 40 (0 :: byte)] = 2"
  unfolding length_replicate by code_simp+

lemma grid_modes_ok:
  "im_MBSkipCoeff (grid_modes ! 0) = False" "im_MBSkipCoeff (grid_modes ! Suc 0) = True"
  "validInterCoefficientTokenMode (grid_modes ! 0) = True" "interModeUses4x4Tokens (im_Mode (grid_modes ! 0)) = False"
  "interModeUses4x4Tokens (im_Mode (grid_modes ! Suc 0)) = False"
  "mb_MBSkipCoeff (grid_dmodes ! 0) = False" "mb_MBSkipCoeff (grid_dmodes ! Suc 0) = True"
  "mb_Is4x4 (grid_dmodes ! 0) = False" "mb_Is4x4 (grid_dmodes ! Suc 0) = False"
  by code_simp+

lemma all_less_2: "(\<forall>i < 2. P i) \<longleftrightarrow> P 0 \<and> P (Suc 0)" for P :: "nat \<Rightarrow> bool"
  by (auto simp: less_Suc_eq numeral_2_eq_2)

lemma grid_sample_written:
  "w_err (Finish (snd (run_state (WriteInterCoefficientTokenGridPartitioned (int 2) (int 2) (int 1) grid_modes grid_coeffs [zero_planes] probs)
    (map Writer_Init [replicate 8000 0, replicate 40 0])) ! 0)) = 0"
  "w_err (Finish (snd (run_state (WriteInterCoefficientTokenGridPartitioned (int 2) (int 2) (int 1) grid_modes grid_coeffs [zero_planes] probs)
    (map Writer_Init [replicate 8000 0, replicate 40 0])) ! 1)) = 0"
proof -
  let ?mb = "writeCoefficientMacroblockTokensWithEOBs probs False zero_planes zero_planes sample_coeffs"
  have c: "[0..<2 :: nat] = [0, Suc 0]" "[0..<1 :: nat] = [0]" "row_partition 0 2 = 0" "several 2" by code_simp+
  have p: "clear_above 1 [zero_planes] ! 0 = zero_planes" "grid_coeffs ! 0 = sample_coeffs" by (simp_all add: clear_above_def grid_coeffs_def)
  define run where "run = run_state ?mb (Writer_Init (replicate 8000 0))"
  obtain e a l w where run: "run = ((e, a, l), w)" by (metis prod_cases3 surj_pair)
  have mb: "run_state ?mb (Writer_Init (replicate 8000 0)) = ((e, a, l), w)" using run by (simp only: run_def)
  have fit: "w_err (Finish (snd (run_state ?mb (Writer_Init (replicate 8000 0))))) = 0"
    by (rule macroblock_fits [OF sample_coeffs_ok planes_ok_zero planes_ok_zero]) simp
  have e: "e = None"
  proof -
    obtain a' l' xs where w: "writes ?mb xs (None, a', l')"
      using writes_macroblock [OF sample_coeffs_ok planes_ok_zero planes_ok_zero, of probs] by blast
    from writes_result [OF w fit] show ?thesis unfolding mb by simp
  qed
  have empty: "w_err (Finish (Writer_Init (replicate 40 0))) = 0" by code_simp
  have "snd (run_state (WriteInterCoefficientTokenGridPartitioned (int 2) (int 2) (int 1) grid_modes grid_coeffs [zero_planes] probs)
    (map Writer_Init [replicate 8000 0, replicate 40 0])) = [w, Writer_Init (replicate 40 0)]"
    using grid_sample_ok(1) mb c p
    by (simp add: WriteInterCoefficientTokenGridPartitioned_def write_inter_tokens_def grid_modes_ok Let_def
      put_macroblock_def on_stream_def e skip_macroblock_def split: prod.split)
  then show "w_err (Finish (snd (run_state (WriteInterCoefficientTokenGridPartitioned (int 2) (int 2) (int 1) grid_modes grid_coeffs [zero_planes] probs)
    (map Writer_Init [replicate 8000 0, replicate 40 0])) ! 0)) = 0"
  "w_err (Finish (snd (run_state (WriteInterCoefficientTokenGridPartitioned (int 2) (int 2) (int 1) grid_modes grid_coeffs [zero_planes] probs)
    (map Writer_Init [replicate 8000 0, replicate 40 0])) ! 1)) = 0"
    using fit mb empty by simp_all
qed


theorem inter_tokens_roundtrip_witness:
  "\<exists>e abv' ws g ds. run_state (WriteInterCoefficientTokenGridPartitioned (int 2) (int 2) (int 1) grid_modes grid_coeffs [zero_planes] flat_probs)
      (map Writer_Init [replicate 8000 0, replicate 40 0]) = ((e, abv'), ws) \<and> e = None \<and>
    run_state (DecodeTokenGrid (int 2) (int 1) flat_probs grid_dmodes [zero_planes] [fresh_tokens, fresh_tokens])
      (map (\<lambda>k. Decoder_Init (Bytes (Finish (ws ! k)) @ [7])) [0..<2]) = (Inr g, ds) \<and>
    tg_tokens g = [tokens_sent False sample_coeffs, fresh_tokens]"
proof -
  define r where "r = run_state (WriteInterCoefficientTokenGridPartitioned (int 2) (int 2) (int 1) grid_modes grid_coeffs [zero_planes] flat_probs)
      (map Writer_Init [replicate 8000 0, replicate 40 0])"
  obtain e abv' ws where r': "r = ((e, abv'), ws)" by (metis surj_pair)
  have run: "run_state (WriteInterCoefficientTokenGridPartitioned (int 2) (int 2) (int 1) grid_modes grid_coeffs [zero_planes] flat_probs)
      (map Writer_Init [replicate 8000 0, replicate 40 0]) = ((e, abv'), ws)"
    using r' by (simp only: r_def)
  have fine: "\<forall>k < 2. w_err (Finish (ws ! k)) = 0"
    using grid_sample_written [of flat_probs] unfolding run all_less_2 by simp
  have two: "(2 :: nat) \<in> {2, 4, 8}" by simp
  have cells: "\<forall>i < 2 * 1. (im_MBSkipCoeff (grid_modes ! i) \<or> validInterCoefficientTokenMode (grid_modes ! i)) \<and>
      mb_MBSkipCoeff (grid_dmodes ! i) = im_MBSkipCoeff (grid_modes ! i) \<and>
      mb_Is4x4 (grid_dmodes ! i) = interModeUses4x4Tokens (im_Mode (grid_modes ! i)) \<and>
      (\<not> im_MBSkipCoeff (grid_modes ! i) \<longrightarrow> mb_coeffs_ok (interModeUses4x4Tokens (im_Mode (grid_modes ! i))) (grid_coeffs ! i)) \<and>
      tokens_clean ([fresh_tokens, fresh_tokens] ! i)"
    unfolding mult_1_right all_less_2
    by (simp add: grid_modes_ok tokens_clean_fresh) (simp add: grid_coeffs_def sample_coeffs_ok)
  from inter_tokens_roundtrip [OF two grid_sample_ok(3,1,2) cells run fine, of "\<lambda>_. [7]"]
  obtain g ds where g: "e = None" "run_state (DecodeTokenGrid (int 2) (int 1) flat_probs grid_dmodes [zero_planes] [fresh_tokens, fresh_tokens])
      (map (\<lambda>k. Decoder_Init (Bytes (Finish (ws ! k)) @ [7])) [0..<2]) = (Inr g, ds)"
    "grid_decoded (2 * 1) grid_dmodes [fresh_tokens, fresh_tokens] grid_coeffs g" by blast
  have "length [fresh_tokens, fresh_tokens] = 2" "[0..<2 :: nat] = [0, Suc 0]" by code_simp+
  then have "tg_tokens g = [tokens_sent False sample_coeffs, fresh_tokens]"
    using g(3) by (simp add: grid_decoded_def tokens_after_def grid_modes_ok) (simp add: grid_coeffs_def)
  then show ?thesis using run g(1,2) by blast
qed

end
