(* ===== verification/Vp8_Coef_Records.thy ===== *)
theory Vp8_Coef_Records
  imports Vp8_Token_Grid
begin

text \<open>
  Token counts and prepared token records (\<^verbatim>\<open>internal/vp8/encoder/probability_tokens.go\<close> and
  \<^verbatim>\<open>internal/vp8/encoder/tokenpack.go\<close>): the walk over a macroblock's coefficients that counts its
  tokens for the probability updates, the same walk that also stores each token as a packed 32-bit
  record, and the writer that codes stored records once the frame's probabilities are known.
\<close>

section \<open>Counts\<close>

type_synonym token_counts = "int list list list list"

definition zero_counts :: token_counts where
  "zero_counts = replicate BlockTypes (replicate CoefBands (replicate PrevCoefContexts (replicate MaxEntropyTokens 0)))"

text \<open>\<open>(*counts)[blockType][band][ctx][token]++\<close>\<close>

definition count_token :: "nat \<Rightarrow> nat \<Rightarrow> nat \<Rightarrow> nat \<Rightarrow> token_counts \<Rightarrow> token_counts" where
  "count_token blockType band ctx token counts =
     counts[blockType := (counts ! blockType)[band := (counts ! blockType ! band)[ctx :=
       (counts ! blockType ! band ! ctx)[token := counts ! blockType ! band ! ctx ! token + 1]]]]"

section \<open>Records\<close>

definition MaxCoefficientTokenRecordsPerMacroblock :: nat where
  "MaxCoefficientTokenRecordsPerMacroblock = 384"

text \<open>
  \<open>InterCoefficientTokenRecords\<close>: \<open>tr_rowStarts\<close> is the view \<open>rowStarts()\<close> gives of the inline or heap
  array, \<open>Rows + 1\<close> long; \<open>tr_cap\<close> is the capacity of \<open>Records\<close>.
\<close>

record InterCoefficientTokenRecords =
  tr_Records :: "u32 list"
  tr_Rows :: nat
  tr_rowStarts :: "u32 list"
  tr_cap :: nat

definition records_Reset :: "int \<Rightarrow> int \<Rightarrow> InterCoefficientTokenRecords \<Rightarrow> InterCoefficientTokenRecords" where
  "records_Reset rows macroblocks records =
     (let capacity = nat (max macroblocks 0) * MaxCoefficientTokenRecordsPerMacroblock
      in \<lparr>tr_Records = [], tr_Rows = nat (max rows 0), tr_rowStarts = replicate (nat (max rows 0) + 1) 0,
          tr_cap = (if tr_cap records < capacity then capacity else tr_cap records)\<rparr>)"

definition MarkRowStart :: "nat \<Rightarrow> InterCoefficientTokenRecords \<Rightarrow> InterCoefficientTokenRecords" where
  "MarkRowStart row records =
     (if row \<ge> length (tr_rowStarts records) - 1 then records
      else records\<lparr>tr_rowStarts := (tr_rowStarts records)[row := word_of_nat (length (tr_Records records))]\<rparr>)"

definition MarkRowEnd :: "nat \<Rightarrow> InterCoefficientTokenRecords \<Rightarrow> InterCoefficientTokenRecords" where
  "MarkRowEnd row records =
     (if row \<ge> length (tr_rowStarts records) - 1 then records
      else records\<lparr>tr_rowStarts := (tr_rowStarts records)[row + 1 := word_of_nat (length (tr_Records records))]\<rparr>)"

definition token_record :: "nat \<Rightarrow> nat \<Rightarrow> nat \<Rightarrow> nat \<Rightarrow> nat \<Rightarrow> bool \<Rightarrow> bool \<Rightarrow> u32" where
  "token_record blockType band ctx token magnitude sign skipEOBNode =
     (let value = push_bit 0 (word_of_nat token);
          probIndex = (blockType * CoefBands + band) * PrevCoefContexts + ctx;
          value = value OR push_bit 4 (word_of_nat (probIndex * EntropyNodes));
          value = value OR push_bit 15 (word_of_nat magnitude);
          value = value OR push_bit 27 (of_bool sign)
      in if skipEOBNode then value OR push_bit 28 1 else value)"

text \<open>
  The code reslices within the capacity and writes the last element; beyond the capacity it would panic, where
  this append goes on. \<open>Reset\<close> makes room for \<open>MaxCoefficientTokenRecordsPerMacroblock\<close> records a macroblock, and
  \<open>token_records_equivalent\<close> shows that a macroblock appends no more than that.
\<close>

definition appendTokenUnchecked ::
  "nat \<Rightarrow> nat \<Rightarrow> nat \<Rightarrow> nat \<Rightarrow> nat \<Rightarrow> bool \<Rightarrow> bool \<Rightarrow> InterCoefficientTokenRecords \<Rightarrow> InterCoefficientTokenRecords" where
  "appendTokenUnchecked blockType band ctx token magnitude sign skipEOBNode records =
     records\<lparr>tr_Records := tr_Records records @ [token_record blockType band ctx token magnitude sign skipEOBNode]\<rparr>"

definition validPreparedRows :: "int \<Rightarrow> InterCoefficientTokenRecords \<Rightarrow> bool" where
  "validPreparedRows rows records \<longleftrightarrow>
     rows \<ge> 0 \<and> int (tr_Rows records) = rows \<and> int (length (tr_rowStarts records)) \<ge> rows + 1 \<and>
     tr_rowStarts records ! 0 = 0 \<and> unat (tr_rowStarts records ! nat rows) = length (tr_Records records) \<and>
     list_all (\<lambda>row. let start = unat (tr_rowStarts records ! row); end = unat (tr_rowStarts records ! (row + 1))
       in start \<le> end \<and> end \<le> length (tr_Records records)) [0..<nat rows]"

section \<open>The walk over a macroblock\<close>

text \<open>
  The walk is written twice in the code, once counting and once also recording; the two differ in what
  they do with a token. \<open>take_token blockType band ctx token magnitude sign skipEOBNode\<close> is that step.
\<close>

type_synonym 's take_token = "nat \<Rightarrow> nat \<Rightarrow> nat \<Rightarrow> nat \<Rightarrow> nat \<Rightarrow> bool \<Rightarrow> bool \<Rightarrow> 's \<Rightarrow> 's"

definition tally :: "token_counts take_token" where
  "tally blockType band ctx token magnitude sign skipEOBNode = count_token blockType band ctx token"

definition tally_record :: "(token_counts \<times> InterCoefficientTokenRecords) take_token" where
  "tally_record blockType band ctx token magnitude sign skipEOBNode st =
     (count_token blockType band ctx token (fst st),
      appendTokenUnchecked blockType band ctx token magnitude sign skipEOBNode (snd st))"

definition step :: "('s \<Rightarrow> 's) \<Rightarrow> ('s, unit) state" where
  "step f = State (\<lambda>s. ((), f s))"

fun count_coeffs ::
  "'s take_token \<Rightarrow> nat \<Rightarrow> i16 list \<Rightarrow> nat \<Rightarrow> nat list \<Rightarrow> nat \<Rightarrow> nat \<Rightarrow> bool \<Rightarrow> ('s, packet_error option) state" where
  "count_coeffs tk blockType qcoeff eob [] band ctx skip = do {
     (if eob < 16 then step (tk (blockType AND 3) (band AND 7) ctx DCTEOBToken 0 False False) else State_Monad.return ());
     State_Monad.return None
   }"
| "count_coeffs tk blockType qcoeff eob (pos # ps) band ctx skip =
     (let coeff = sint (qcoeff ! (DefaultZigZag1D ! pos AND 0xF));
          signMask = drop_bit 63 coeff;
          mag = (coeff XOR signMask) - signMask;
          sign = (signMask AND 1 \<noteq> 0)
      in if mag > int DCTMaxValue then State_Monad.return (Some ErrInvalidPacketConfig)
         else
           let token = coeffAbsTokenLUT ! nat mag in do {
             step (tk (blockType AND 3) (band AND 7) ctx token (nat mag) sign skip);
             (if pos + 1 < 16 then
                let ctx = PrevTokenClass ! token
                in count_coeffs tk blockType qcoeff eob ps (CoefBandsTable ! (pos + 1)) ctx (ctx = 0)
              else count_coeffs tk blockType qcoeff eob ps band ctx skip)
           })"

definition count_block ::
  "'s take_token \<Rightarrow> nat \<Rightarrow> nat \<Rightarrow> nat \<Rightarrow> i16 list \<Rightarrow> nat \<Rightarrow> ('s, packet_error option) state" where
  "count_block tk blockType ctx skipDC qcoeff eob =
     (if blockType \<ge> BlockTypes \<or> ctx \<ge> PrevCoefContexts \<or> skipDC > 1
      then State_Monad.return (Some ErrInvalidPacketConfig)
      else if eob \<le> skipDC then do {
        step (tk blockType skipDC ctx DCTEOBToken 0 False False);
        State_Monad.return None
      }
      else if eob > 16 then State_Monad.return (Some ErrInvalidPacketConfig)
      else count_coeffs tk blockType qcoeff eob [skipDC..<eob] skipDC ctx False)"

type_synonym 's mb_count = "('s, packet_error option \<times> TokenContextPlanes \<times> TokenContextPlanes) state"

text \<open>A block with its context check, then the rest of its loop.\<close>

definition count_block_ctx ::
  "'s take_token \<Rightarrow> nat \<Rightarrow> nat \<Rightarrow> byte \<Rightarrow> i16 list \<Rightarrow> nat \<Rightarrow> ('s, packet_error option) state" where
  "count_block_ctx tk blockType skipDC ctx qcoeff eob =
     (if unat ctx \<ge> PrevCoefContexts then State_Monad.return (Some ErrInvalidPacketConfig)
      else count_block tk blockType (unat ctx) skipDC qcoeff eob)"

fun count_chroma :: "'s take_token \<Rightarrow> MacroblockCoefficients \<Rightarrow> nat list \<Rightarrow> TokenContextPlanes \<Rightarrow> TokenContextPlanes \<Rightarrow> 's mb_count" where
  "count_chroma tk coeffs [] abv left = State_Monad.return (None, abv, left)"
| "count_chroma tk coeffs (block # bs) abv left =
     (let eob = BlockEOB coeffs block 0;
          (a, l) = UVTokenContextIndex block;
          ctx = getTokenUVContext abv a + getTokenUVContext left l
      in do {
        e \<leftarrow> count_block_ctx tk 2 0 ctx (mc_QCoeff coeffs ! block) eob;
        if e \<noteq> None then State_Monad.return (e, abv, left)
        else count_chroma tk coeffs bs (setTokenUVContext abv a (of_bool (eob > 0)))
          (setTokenUVContext left l (of_bool (eob > 0)))
      })"

fun count_luma ::
  "'s take_token \<Rightarrow> nat \<Rightarrow> nat \<Rightarrow> MacroblockCoefficients \<Rightarrow> nat list \<Rightarrow> TokenContextPlanes \<Rightarrow> TokenContextPlanes \<Rightarrow> 's mb_count" where
  "count_luma tk blockType skipDC coeffs [] abv left = State_Monad.return (None, abv, left)"
| "count_luma tk blockType skipDC coeffs (block # bs) abv left =
     (let eob = BlockEOB coeffs block skipDC;
          a = block AND 3;
          l = drop_bit 2 (block AND 0xC);
          ctx = tc_Y1 abv ! a + tc_Y1 left ! l
      in do {
        e \<leftarrow> count_block_ctx tk blockType skipDC ctx (mc_QCoeff coeffs ! block) eob;
        if e \<noteq> None then State_Monad.return (e, abv, left)
        else count_luma tk blockType skipDC coeffs bs
          (abv\<lparr>tc_Y1 := (tc_Y1 abv)[a := of_bool (eob > skipDC)]\<rparr>)
          (left\<lparr>tc_Y1 := (tc_Y1 left)[l := of_bool (eob > skipDC)]\<rparr>)
      })"

definition count_luma_chroma ::
  "'s take_token \<Rightarrow> nat \<Rightarrow> nat \<Rightarrow> MacroblockCoefficients \<Rightarrow> TokenContextPlanes \<Rightarrow> TokenContextPlanes \<Rightarrow> 's mb_count" where
  "count_luma_chroma tk blockType skipDC coeffs abv left = do {
     r \<leftarrow> count_luma tk blockType skipDC coeffs [0..<16] abv left;
     if fst r \<noteq> None then State_Monad.return r
     else count_chroma tk coeffs [16..<24] (fst (snd r)) (snd (snd r))
   }"

definition count_macroblock ::
  "'s take_token \<Rightarrow> bool \<Rightarrow> TokenContextPlanes \<Rightarrow> TokenContextPlanes \<Rightarrow> MacroblockCoefficients \<Rightarrow> 's mb_count" where
  "count_macroblock tk is4x4 abv left coeffs =
     (if \<not> is4x4 then
        let eob = BlockEOB coeffs 24 0; ctx = tc_Y2 abv + tc_Y2 left in do {
          e \<leftarrow> count_block_ctx tk 1 0 ctx (mc_QCoeff coeffs ! 24) eob;
          if e \<noteq> None then State_Monad.return (e, abv, left)
          else count_luma_chroma tk 0 1 coeffs (abv\<lparr>tc_Y2 := of_bool (eob > 0)\<rparr>)
            (left\<lparr>tc_Y2 := of_bool (eob > 0)\<rparr>)
        }
      else count_luma_chroma tk 3 0 coeffs abv left)"

definition countCoefficientMacroblockTokens ::
  "bool \<Rightarrow> TokenContextPlanes \<Rightarrow> TokenContextPlanes \<Rightarrow> MacroblockCoefficients \<Rightarrow> token_counts mb_count" where
  "countCoefficientMacroblockTokens = count_macroblock tally"

definition AccumulateInterMacroblockTokenCountsAndRecords ::
  "bool \<Rightarrow> TokenContextPlanes \<Rightarrow> TokenContextPlanes \<Rightarrow> MacroblockCoefficients
    \<Rightarrow> (token_counts \<times> InterCoefficientTokenRecords) mb_count" where
  "AccumulateInterMacroblockTokenCountsAndRecords = count_macroblock tally_record"

section \<open>Writing the records\<close>

definition record_row :: "coef_probs \<Rightarrow> u32 \<Rightarrow> byte list" where
  "record_row probs raw = take EntropyNodes (drop (unat (drop_bit 4 raw AND 0x07ff)) (concat (map (\<lambda>b. concat (map concat b)) probs)))"

definition pack_record :: "coef_probs \<Rightarrow> u32 \<Rightarrow> pack \<Rightarrow> pack" where
  "pack_record probs raw st =
     (let token = unat (raw AND 0x0f); p = record_row probs raw
      in if token = DCTEOBToken then pack_eob (p ! 0) st
         else pack_token p token (uint (drop_bit 15 raw AND 0x0fff)) (drop_bit 27 raw AND 1 \<noteq> 0) (drop_bit 28 raw AND 1 \<noteq> 0) st)"

fun pack_records :: "coef_probs \<Rightarrow> u32 list \<Rightarrow> pack \<Rightarrow> pack" where
  "pack_records probs [] st = st"
| "pack_records probs (raw # rs) st =
     (let st = pack_record probs raw st in if w_err (fst st) \<noteq> 0 then st else pack_records probs rs st)"

definition writePreparedCoefficientTokenRecords :: "coef_probs \<Rightarrow> u32 list \<Rightarrow> (BoolWriter, packet_error option) state" where
  "writePreparedCoefficientTokenRecords probs records = State (\<lambda>w.
     if w_err w \<noteq> 0 then (writer_result w, w)
     else case pack_records probs records (w, w_pos w) of (w', sp) \<Rightarrow> (writer_result w', w'))"

text \<open>The rows of a frame, to one writer or to the partitions in turn.\<close>

fun prepared_rows ::
  "(nat \<Rightarrow> (BoolWriter, packet_error option) state \<Rightarrow> ('s, packet_error option) state) \<Rightarrow> coef_probs
    \<Rightarrow> InterCoefficientTokenRecords \<Rightarrow> nat list \<Rightarrow> ('s, packet_error option) state" where
  "prepared_rows put probs records [] = State_Monad.return None"
| "prepared_rows put probs records (row # rows) =
     (let start = unat (tr_rowStarts records ! row); end = unat (tr_rowStarts records ! (row + 1)) in do {
        e \<leftarrow> put row (writePreparedCoefficientTokenRecords probs (take (end - start) (drop start (tr_Records records))));
        if e \<noteq> None then State_Monad.return e else prepared_rows put probs records rows
      })"

definition writePreparedInterCoefficientTokenGrid ::
  "int \<Rightarrow> InterCoefficientTokenRecords \<Rightarrow> coef_probs \<Rightarrow> (BoolWriter, mode_error option) state" where
  "writePreparedInterCoefficientTokenGrid rows records probs =
     (if \<not> validPreparedRows rows records then State_Monad.return (Some ErrModeBufferTooSmall)
      else do {
        e \<leftarrow> prepared_rows (\<lambda>row m. m) probs records [0..<nat rows];
        if e \<noteq> None then State_Monad.return (map_option ModePacketError e) else mode_end
      })"

definition writePreparedInterCoefficientTokenGridPartitioned ::
  "int \<Rightarrow> int \<Rightarrow> InterCoefficientTokenRecords \<Rightarrow> coef_probs \<Rightarrow> (BoolWriter list, mode_error option) state" where
  "writePreparedInterCoefficientTokenGridPartitioned partitions rows records probs =
     (if \<not> several partitions \<or> \<not> validPreparedRows rows records then State_Monad.return (Some ErrModeBufferTooSmall)
      else do {
        e \<leftarrow> prepared_rows (\<lambda>row. on_stream (row_partition row partitions)) probs records [0..<nat rows];
        State_Monad.return (map_option ModePacketError e)
      })"

end
