(* ===== verification/Vp8_Coef_Probs.thy ===== *)
theory Vp8_Coef_Probs
  imports Vp8_Coef_Records
begin

text \<open>
  The coefficient probabilities of a frame (\<^verbatim>\<open>internal/vp8/encoder/probability.go\<close>,
  \<^verbatim>\<open>internal/vp8/encoder/probability_tokens.go\<close>, \<^verbatim>\<open>internal/vp8/encoder/default_coef_branch_counts.go\<close>):
  token counts over a frame, branch counts of the token tree, the probability a branch count fits, the bits an
  update saves, and the three loops that choose the updates of a frame.
\<close>

section \<open>Branch counts and costs\<close>

type_synonym branch_count = "int \<times> int"

definition coefficientBranchCountsFromTokenCounts :: "int list \<Rightarrow> branch_count list" where
  "coefficientBranchCountsFromTokenCounts tokens =
     [(tokens ! 11, tokens ! 0 + tokens ! 1 + tokens ! 2 + tokens ! 3 + tokens ! 4 + tokens ! 5 + tokens ! 6 + tokens ! 7
         + tokens ! 8 + tokens ! 9 + tokens ! 10),
      (tokens ! 0, tokens ! 1 + tokens ! 2 + tokens ! 3 + tokens ! 4 + tokens ! 5 + tokens ! 6 + tokens ! 7 + tokens ! 8
         + tokens ! 9 + tokens ! 10),
      (tokens ! 1, tokens ! 2 + tokens ! 3 + tokens ! 4 + tokens ! 5 + tokens ! 6 + tokens ! 7 + tokens ! 8 + tokens ! 9
         + tokens ! 10),
      (tokens ! 2 + tokens ! 3 + tokens ! 4, tokens ! 5 + tokens ! 6 + tokens ! 7 + tokens ! 8 + tokens ! 9 + tokens ! 10),
      (tokens ! 2, tokens ! 3 + tokens ! 4),
      (tokens ! 3, tokens ! 4),
      (tokens ! 5 + tokens ! 6, tokens ! 7 + tokens ! 8 + tokens ! 9 + tokens ! 10),
      (tokens ! 5, tokens ! 6),
      (tokens ! 7 + tokens ! 8, tokens ! 9 + tokens ! 10),
      (tokens ! 7, tokens ! 8),
      (tokens ! 9, tokens ! 10)]"

text \<open>The quotient is clamped from below by 1, so truncated and floored division agree here.\<close>

definition coefficientProbabilityFromBranchCount :: "branch_count \<Rightarrow> byte" where
  "coefficientProbabilityFromBranchCount ct =
     (let total = fst ct + snd ct
      in if total \<le> 0 then 128
         else word_of_int (min (max ((fst ct * 256 + drop_bit 1 total) div total) 1) 255))"

definition coefficientBitCost :: "byte \<Rightarrow> int \<Rightarrow> int" where
  "coefficientBitCost prob b = int (ProbCost ! unat (prob XOR word_of_int (- b)))"

definition coefficientBranchCost :: "branch_count \<Rightarrow> byte \<Rightarrow> int" where
  "coefficientBranchCost ct prob = drop_bit 8 (fst ct * coefficientBitCost prob 0 + snd ct * coefficientBitCost prob 1)"

definition coefficientProbabilityUpdateSavings :: "branch_count \<Rightarrow> byte \<Rightarrow> byte \<Rightarrow> byte \<Rightarrow> int" where
  "coefficientProbabilityUpdateSavings ct oldProb newProb updateProb =
     (let oldBits = coefficientBranchCost ct oldProb;
          newBits = coefficientBranchCost ct newProb;
          updateBits = 8 + drop_bit 8 (coefficientBitCost updateProb 1 - coefficientBitCost updateProb 0)
      in oldBits - newBits - updateBits)"

section \<open>Updates\<close>

text \<open>\<open>table[block][band][ctx][node]\<close>, read and written.\<close>

type_synonym coef_cell = "nat \<times> nat \<times> nat \<times> nat"

fun cell_get :: "'a list list list list \<Rightarrow> coef_cell \<Rightarrow> 'a" where
  "cell_get t (b, k, c, n) = t ! b ! k ! c ! n"

fun cell_set :: "coef_cell \<Rightarrow> 'a \<Rightarrow> 'a list list list list \<Rightarrow> 'a list list list list" where
  "cell_set (b, k, c, n) v t = t[b := (t ! b)[k := (t ! b ! k)[c := (t ! b ! k ! c)[n := v]]]]"

definition ctx_nodes :: "(nat \<times> nat) list" where
  "ctx_nodes = concat (map (\<lambda>c. map (\<lambda>n. (c, n)) [0..<EntropyNodes]) [0..<PrevCoefContexts])"

definition block_bands :: "(nat \<times> nat) list" where
  "block_bands = concat (map (\<lambda>b. map (\<lambda>k. (b, k)) [0..<CoefBands]) [0..<BlockTypes])"

definition coef_cells :: "coef_cell list" where
  "coef_cells = concat (map (\<lambda>(b, k). map (\<lambda>(c, n). (b, k, c, n)) ctx_nodes) block_bands)"

text \<open>The loops carry the frame's table and the updates; each update goes to both.\<close>

type_synonym coef_update = "coef_probs \<times> CoefficientProbabilityUpdates"

definition no_updates :: "coef_probs \<Rightarrow> CoefficientProbabilityUpdates" where
  "no_updates base = \<lparr>cu_Probs = base,
     cu_Update = replicate BlockTypes (replicate CoefBands (replicate PrevCoefContexts (replicate EntropyNodes False))),
     cu_UpdateCount = 0, cu_SavingsBits = 0\<rparr>"

definition put_probability :: "coef_cell \<Rightarrow> byte \<Rightarrow> coef_update \<Rightarrow> coef_update" where
  "put_probability cell newProb st =
     (cell_set cell newProb (fst st),
      (snd st)\<lparr>cu_Probs := cell_set cell newProb (cu_Probs (snd st)), cu_Update := cell_set cell True (cu_Update (snd st)),
        cu_UpdateCount := cu_UpdateCount (snd st) + 1\<rparr>)"

definition add_savings :: "int \<Rightarrow> coef_update \<Rightarrow> coef_update" where
  "add_savings savings st = (fst st, (snd st)\<lparr>cu_SavingsBits := cu_SavingsBits (snd st) + savings\<rparr>)"

fun cell_branches :: "token_counts \<Rightarrow> coef_cell \<Rightarrow> branch_count" where
  "cell_branches counts (b, k, c, n) = coefficientBranchCountsFromTokenCounts (counts ! b ! k ! c) ! n"

definition update_cell :: "token_counts \<Rightarrow> coef_update \<Rightarrow> coef_cell \<Rightarrow> coef_update" where
  "update_cell counts st cell =
     (let ct = cell_branches counts cell; total = fst ct + snd ct
      in if total = 0 then st
         else
           let newProb = coefficientProbabilityFromBranchCount ct; oldProb = cell_get (fst st) cell
           in if newProb = oldProb then st
              else
                let savings = coefficientProbabilityUpdateSavings ct oldProb newProb (cell_get CoefUpdateProbs cell)
                in if savings \<le> 0 then st else add_savings savings (put_probability cell newProb st))"

definition coefficientProbabilityUpdatesFromTokenCounts :: "coef_probs \<Rightarrow> token_counts \<Rightarrow> coef_update" where
  "coefficientProbabilityUpdatesFromTokenCounts base counts = foldl (update_cell counts) (base, no_updates base) coef_cells"

section \<open>Updates shared by the contexts\<close>

definition band_savings :: "branch_count list \<Rightarrow> coef_probs \<Rightarrow> nat \<Rightarrow> nat \<Rightarrow> nat \<Rightarrow> int" where
  "band_savings summed frameProbs b k n =
     (\<Sum>c \<leftarrow> [0..<PrevCoefContexts]. coefficientProbabilityUpdateSavings (summed ! n) (cell_get frameProbs (b, k, c, n))
        (coefficientProbabilityFromBranchCount (summed ! n)) (cell_get CoefUpdateProbs (b, k, c, n)))"

definition update_shared :: "bool \<Rightarrow> byte list \<Rightarrow> int list \<Rightarrow> nat \<Rightarrow> nat \<Rightarrow> coef_update \<Rightarrow> nat \<times> nat \<Rightarrow> coef_update" where
  "update_shared keyFrame sharedNew nodeSavings b k st cn =
     (let newProb = sharedNew ! snd cn; oldProb = cell_get (fst st) (b, k, cn);
          update = nodeSavings ! snd cn > 0;
          update = (if keyFrame \<and> newProb \<noteq> oldProb then True else update)
      in if \<not> update then st else put_probability (b, k, cn) newProb st)"

definition update_band :: "bool \<Rightarrow> (nat \<Rightarrow> nat \<Rightarrow> branch_count list) \<Rightarrow> coef_update \<Rightarrow> nat \<times> nat \<Rightarrow> coef_update" where
  "update_band keyFrame summed st bk =
     (case bk of (b, k) \<Rightarrow>
       let sharedNew = map (\<lambda>n. coefficientProbabilityFromBranchCount (summed b k ! n)) [0..<EntropyNodes];
           nodeSavings = map (band_savings (summed b k) (fst st) b k) [0..<EntropyNodes];
           st = foldl (update_shared keyFrame sharedNew nodeSavings b k) st ctx_nodes
       in add_savings (\<Sum>n \<leftarrow> [0..<EntropyNodes]. if nodeSavings ! n > 0 \<or> keyFrame then nodeSavings ! n else 0) st)"

text \<open>The two sources of the summed branch counts: token counts summed over the contexts, or branch counts.\<close>

definition summed_tokens :: "token_counts \<Rightarrow> nat \<Rightarrow> nat \<Rightarrow> branch_count list" where
  "summed_tokens counts b k = coefficientBranchCountsFromTokenCounts
     (map (\<lambda>token. \<Sum>c \<leftarrow> [0..<PrevCoefContexts]. counts ! b ! k ! c ! token) [0..<MaxEntropyTokens])"

type_synonym branch_counts = "branch_count list list list list"

definition summed_branches :: "branch_counts \<Rightarrow> nat \<Rightarrow> nat \<Rightarrow> branch_count list" where
  "summed_branches counts b k =
     map (\<lambda>n. (\<Sum>c \<leftarrow> [0..<PrevCoefContexts]. fst (counts ! b ! k ! c ! n), \<Sum>c \<leftarrow> [0..<PrevCoefContexts]. snd (counts ! b ! k ! c ! n)))
       [0..<EntropyNodes]"

definition coefficientProbabilityUpdatesFromTokenCountsIndependent :: "coef_probs \<Rightarrow> token_counts \<Rightarrow> bool \<Rightarrow> coef_update" where
  "coefficientProbabilityUpdatesFromTokenCountsIndependent base counts keyFrame =
     foldl (update_band keyFrame (summed_tokens counts)) (base, no_updates base) block_bands"

definition coefficientProbabilityUpdatesFromCountsIndependent :: "coef_probs \<Rightarrow> branch_counts \<Rightarrow> bool \<Rightarrow> coef_update" where
  "coefficientProbabilityUpdatesFromCountsIndependent base counts keyFrame =
     foldl (update_band keyFrame (summed_branches counts)) (base, no_updates base) block_bands"

definition defaultKeyFrameIndependentCoefficientBranchCounts :: "branch_count list list list" where
  "defaultKeyFrameIndependentCoefficientBranchCounts =
   [
    [[(0, 0), (0, 0), (0, 0), (0, 0), (0, 0), (0, 0), (0, 0), (0, 0), (0, 0), (0, 0), (0, 0)],
     [(4336684, 131636), (67520, 64116), (61239, 2877), (2852, 25), (2472, 380), (314, 66), (25, 0), (24, 1),
      (0, 0), (0, 0), (0, 0)],
     [(44173, 87463), (36227, 51236), (49217, 2019), (2005, 14), (1787, 218), (187, 31), (14, 0), (11, 3), (0,
      0), (0, 0), (0, 0)],
     [(35913, 51550), (34875, 16675), (16077, 598), (598, 0), (559, 39), (36, 3), (0, 0), (0, 0), (0, 0), (0,
      0), (0, 0)],
     [(10123, 31428), (13170, 18258), (17779, 479), (475, 4), (443, 32), (30, 2), (4, 0), (4, 0), (0, 0), (0,
      0), (0, 0)],
     [(14552, 16876), (12736, 4140), (4070, 70), (70, 0), (64, 6), (4, 2), (0, 0), (0, 0), (0, 0), (0, 0), (0,
      0)],
     [(26509, 81403), (47472, 33931), (33139, 792), (792, 0), (723, 69), (64, 5), (0, 0), (0, 0), (0, 0), (0,
      0), (0, 0)],
     [(327, 39), (0, 39), (39, 0), (0, 0), (0, 0), (0, 0), (0, 0), (0, 0), (0, 0), (0, 0), (0, 0)]],
    [[(153823, 125447), (21363, 104084), (75217, 28867), (24029, 4838), (14966, 9063), (6036, 3027), (4124,
     714), (2586, 1538), (678, 36), (578, 100), (8, 28)],
     [(63124, 62323), (31737, 30586), (25710, 4876), (4677, 199), (3451, 1226), (932, 294), (194, 5), (153,
      41), (5, 0), (5, 0), (0, 0)],
     [(10409, 51914), (24933, 26981), (22988, 3993), (3884, 109), (3000, 884), (669, 215), (106, 3), (85, 21),
      (3, 0), (3, 0), (0, 0)],
     [(10499, 41415), (30315, 11100), (10295, 805), (800, 5), (690, 110), (92, 18), (5, 0), (5, 0), (0, 0),
      (0, 0), (0, 0)],
     [(5228, 33338), (17156, 16182), (14732, 1450), (1418, 32), (1186, 232), (174, 58), (32, 0), (25, 7), (0,
      0), (0, 0), (0, 0)],
     [(7355, 25983), (16784, 9199), (8616, 583), (578, 5), (481, 97), (83, 14), (5, 0), (4, 1), (0, 0), (0,
      0), (0, 0)],
     [(25702, 131218), (78101, 53117), (50383, 2734), (2718, 16), (2397, 321), (283, 38), (16, 0), (15, 1),
      (0, 0), (0, 0), (0, 0)],
     [(1671, 1459), (0, 1459), (1420, 39), (39, 0), (35, 4), (4, 0), (0, 0), (0, 0), (0, 0), (0, 0), (0, 0)]],
    [[(2322757, 74843), (3658, 71185), (61184, 10001), (9049, 952), (6276, 2773), (1974, 799), (888, 64),
     (603, 285), (64, 0), (59, 5), (0, 0)],
     [(63110, 11733), (3988, 7745), (6874, 871), (846, 25), (639, 207), (158, 49), (25, 0), (25, 0), (0, 0),
      (0, 0), (0, 0)],
     [(5640, 6093), (777, 5316), (4771, 545), (531, 14), (429, 102), (82, 20), (14, 0), (12, 2), (0, 0), (0,
      0), (0, 0)],
     [(4457, 1636), (1093, 543), (529, 14), (14, 0), (13, 1), (1, 0), (0, 0), (0, 0), (0, 0), (0, 0), (0, 0)],
     [(434, 767), (59, 708), (676, 32), (32, 0), (31, 1), (1, 0), (0, 0), (0, 0), (0, 0), (0, 0), (0, 0)],
     [(682, 85), (71, 14), (14, 0), (0, 0), (0, 0), (0, 0), (0, 0), (0, 0), (0, 0), (0, 0), (0, 0)],
     [(520, 1334), (669, 665), (653, 12), (12, 0), (12, 0), (0, 0), (0, 0), (0, 0), (0, 0), (0, 0), (0, 0)],
     [(0, 0), (0, 0), (0, 0), (0, 0), (0, 0), (0, 0), (0, 0), (0, 0), (0, 0), (0, 0), (0, 0)]],
    [[(178550, 148330), (22315, 126015), (83853, 42162), (37096, 5066), (23322, 13774), (9751, 4023), (4656,
     410), (3100, 1556), (407, 3), (319, 88), (3, 0)],
     [(60740, 87590), (33067, 54523), (42244, 12279), (11366, 913), (8027, 3339), (2404, 935), (876, 37),
      (607, 269), (37, 0), (37, 0), (0, 0)],
     [(21677, 65913), (16153, 49760), (38158, 11602), (10682, 920), (7464, 3218), (2320, 898), (882, 38),
      (677, 205), (38, 0), (38, 0), (0, 0)],
     [(23448, 42465), (25219, 17246), (13887, 3359), (3220, 139), (2475, 745), (584, 161), (138, 1), (118,
      20), (1, 0), (1, 0), (0, 0)],
     [(8669, 27361), (9563, 17798), (14944, 2854), (2765, 89), (2025, 740), (548, 192), (89, 0), (74, 15), (0,
      0), (0, 0), (0, 0)],
     [(10338, 17023), (12856, 4167), (3864, 303), (301, 2), (255, 46), (38, 8), (2, 0), (2, 0), (0, 0), (0,
      0), (0, 0)],
     [(22933, 80805), (34861, 45944), (40172, 5772), (5637, 135), (4341, 1296), (1012, 284), (135, 0), (115,
      20), (0, 0), (0, 0), (0, 0)],
     [(472, 53), (0, 53), (53, 0), (0, 0), (0, 0), (0, 0), (0, 0), (0, 0), (0, 0), (0, 0), (0, 0)]]]"

definition defaultKeyFrameIndependentCoefficientBranchCountsForUpdate :: branch_counts where
  "defaultKeyFrameIndependentCoefficientBranchCountsForUpdate =
     map (map (\<lambda>nodes. nodes # replicate (PrevCoefContexts - 1) (replicate EntropyNodes (0, 0))))
       defaultKeyFrameIndependentCoefficientBranchCounts"

section \<open>Savings without updates\<close>

definition coefficientEntropySavingsFromTokenCounts :: "coef_probs \<Rightarrow> token_counts \<Rightarrow> int" where
  "coefficientEntropySavingsFromTokenCounts base counts =
     foldl (\<lambda>savings cell.
       let ct = cell_branches counts cell; total = fst ct + snd ct
       in if total = 0 then savings
          else
            let newProb = coefficientProbabilityFromBranchCount ct; oldProb = cell_get base cell
            in if newProb = oldProb then savings
               else
                 let s = coefficientProbabilityUpdateSavings ct oldProb newProb (cell_get CoefUpdateProbs cell)
                 in if s > 0 then savings + s else savings) 0 coef_cells"

definition node_savings :: "bool \<Rightarrow> branch_count list \<Rightarrow> coef_probs \<Rightarrow> nat \<Rightarrow> nat \<Rightarrow> nat \<Rightarrow> int" where
  "node_savings keyFrame summed base b k n =
     (let newProb = coefficientProbabilityFromBranchCount (summed ! n)
      in \<Sum>c \<leftarrow> [0..<PrevCoefContexts]. if keyFrame \<and> newProb = cell_get base (b, k, c, n) then 0
           else coefficientProbabilityUpdateSavings (summed ! n) (cell_get base (b, k, c, n)) newProb (cell_get CoefUpdateProbs (b, k, c, n)))"

definition independent_savings :: "bool \<Rightarrow> (nat \<Rightarrow> nat \<Rightarrow> branch_count list) \<Rightarrow> coef_probs \<Rightarrow> int" where
  "independent_savings keyFrame summed base =
     foldl (\<lambda>savings (b, k). foldl (\<lambda>savings n.
       let nodeSavings = node_savings keyFrame (summed b k) base b k n
       in if nodeSavings > 0 \<or> keyFrame then savings + nodeSavings else savings) savings [0..<EntropyNodes]) 0 block_bands"

definition coefficientEntropySavingsFromTokenCountsIndependent :: "coef_probs \<Rightarrow> token_counts \<Rightarrow> bool \<Rightarrow> int" where
  "coefficientEntropySavingsFromTokenCountsIndependent base counts keyFrame = independent_savings keyFrame (summed_tokens counts) base"

definition coefficientEntropySavingsFromCountsIndependent :: "coef_probs \<Rightarrow> branch_counts \<Rightarrow> bool \<Rightarrow> int" where
  "coefficientEntropySavingsFromCountsIndependent base counts keyFrame = independent_savings keyFrame (summed_branches counts) base"

section \<open>Counts over a frame\<close>

definition count_cell ::
  "bool \<Rightarrow> MacroblockCoefficients \<Rightarrow> nat \<Rightarrow> TokenContextPlanes list \<Rightarrow> TokenContextPlanes
    \<Rightarrow> (token_counts, packet_error option \<times> TokenContextPlanes list \<times> TokenContextPlanes) state" where
  "count_cell is4x4 coeffs col abv left = do {
     r \<leftarrow> countCoefficientMacroblockTokens is4x4 (abv ! col) left coeffs;
     State_Monad.return (fst r, abv[col := fst (snd r)], snd (snd r))
   }"

definition count_key_cell ::
  "nat \<Rightarrow> KeyFrameMacroblockMode list \<Rightarrow> MacroblockCoefficients list \<Rightarrow> nat \<Rightarrow> nat \<Rightarrow> TokenContextPlanes list \<Rightarrow> TokenContextPlanes
    \<Rightarrow> (token_counts, packet_error option \<times> TokenContextPlanes list \<times> TokenContextPlanes) state" where
  "count_key_cell cols modes coeffs row col abv left =
     (let index = row * cols + col; mode = modes ! index; is4x4 = (km_YMode mode = BPred)
      in if \<not> validKeyFrameMacroblockMode mode then State_Monad.return (Some ErrInvalidPacketConfig, abv, left)
         else if km_MBSkipCoeff mode then skip_macroblock is4x4 col abv left
         else count_cell is4x4 (coeffs ! index) col abv left)"

definition count_inter_cell ::
  "nat \<Rightarrow> InterFrameMacroblockMode list \<Rightarrow> MacroblockCoefficients list \<Rightarrow> nat \<Rightarrow> nat \<Rightarrow> TokenContextPlanes list \<Rightarrow> TokenContextPlanes
    \<Rightarrow> (token_counts, packet_error option \<times> TokenContextPlanes list \<times> TokenContextPlanes) state" where
  "count_inter_cell cols modes coeffs row col abv left =
     (let index = row * cols + col; mode = modes ! index; is4x4 = interModeUses4x4Tokens (im_Mode mode)
      in if im_MBSkipCoeff mode then skip_macroblock is4x4 col abv left
         else if \<not> validInterCoefficientTokenMode mode then State_Monad.return (Some ErrInvalidPacketConfig, abv, left)
         else count_cell is4x4 (coeffs ! index) col abv left)"

definition buildKeyFrameCoefficientTokenCounts ::
  "int \<Rightarrow> int \<Rightarrow> KeyFrameMacroblockMode list \<Rightarrow> MacroblockCoefficients list \<Rightarrow> TokenContextPlanes list \<Rightarrow> token_counts grid_write" where
  "buildKeyFrameCoefficientTokenCounts rows cols modes coeffs abv =
     (if token_buffers_small rows cols (length modes) (length coeffs) (length abv)
      then State_Monad.return (Some ErrModeBufferTooSmall, abv)
      else do {
        r \<leftarrow> token_rows (count_key_cell (nat cols) modes coeffs) (nat cols) [0..<nat rows] (clear_above (nat cols) abv);
        State_Monad.return (grid_error r)
      })"

definition buildInterCoefficientTokenCounts ::
  "int \<Rightarrow> int \<Rightarrow> InterFrameMacroblockMode list \<Rightarrow> MacroblockCoefficients list \<Rightarrow> TokenContextPlanes list \<Rightarrow> token_counts grid_write" where
  "buildInterCoefficientTokenCounts rows cols modes coeffs abv =
     (if token_buffers_small rows cols (length modes) (length coeffs) (length abv)
      then State_Monad.return (Some ErrModeBufferTooSmall, abv)
      else do {
        r \<leftarrow> token_rows (count_inter_cell (nat cols) modes coeffs) (nat cols) [0..<nat rows] (clear_above (nat cols) abv);
        State_Monad.return (grid_error r)
      })"

section \<open>The entry points\<close>

text \<open>A result and the contexts the walk leaves in the caller's buffer.\<close>

type_synonym 'a coef_result = "(mode_error + 'a) \<times> TokenContextPlanes list"

definition counted :: "token_counts grid_write \<Rightarrow> (token_counts \<Rightarrow> 'a) \<Rightarrow> 'a coef_result" where
  "counted walk f = (case run_state walk zero_counts of ((e, abv), counts) \<Rightarrow>
     (case e of Some err \<Rightarrow> Inl err | None \<Rightarrow> Inr (f counts), abv))"

definition BuildKeyFrameCoefficientProbabilityUpdates ::
  "int \<Rightarrow> int \<Rightarrow> KeyFrameMacroblockMode list \<Rightarrow> MacroblockCoefficients list \<Rightarrow> TokenContextPlanes list \<Rightarrow> coef_probs
    \<Rightarrow> coef_update coef_result" where
  "BuildKeyFrameCoefficientProbabilityUpdates rows cols modes coeffs abv base =
     counted (buildKeyFrameCoefficientTokenCounts rows cols modes coeffs abv) (coefficientProbabilityUpdatesFromTokenCounts base)"

definition validateKeyFrameCoefficientGrid ::
  "int \<Rightarrow> int \<Rightarrow> KeyFrameMacroblockMode list \<Rightarrow> MacroblockCoefficients list \<Rightarrow> TokenContextPlanes list
    \<Rightarrow> mode_error option \<times> TokenContextPlanes list" where
  "validateKeyFrameCoefficientGrid rows cols modes coeffs abv =
     (if token_buffers_small rows cols (length modes) (length coeffs) (length abv) then (Some ErrModeBufferTooSmall, abv)
      else
        (if list_all validKeyFrameMacroblockMode (take (nat (rows * cols)) modes) then None
         else Some (ModePacketError ErrInvalidPacketConfig),
         clear_above (nat cols) abv))"

definition BuildKeyFrameCoefficientProbabilityUpdatesIndependent ::
  "int \<Rightarrow> int \<Rightarrow> KeyFrameMacroblockMode list \<Rightarrow> MacroblockCoefficients list \<Rightarrow> TokenContextPlanes list \<Rightarrow> coef_probs
    \<Rightarrow> coef_update coef_result" where
  "BuildKeyFrameCoefficientProbabilityUpdatesIndependent rows cols modes coeffs abv base =
     (case validateKeyFrameCoefficientGrid rows cols modes coeffs abv of (e, abv) \<Rightarrow>
       (case e of Some err \<Rightarrow> Inl err
        | None \<Rightarrow> Inr (coefficientProbabilityUpdatesFromCountsIndependent base
            defaultKeyFrameIndependentCoefficientBranchCountsForUpdate True), abv))"

definition BuildInterCoefficientProbabilityUpdates ::
  "int \<Rightarrow> int \<Rightarrow> InterFrameMacroblockMode list \<Rightarrow> MacroblockCoefficients list \<Rightarrow> TokenContextPlanes list \<Rightarrow> coef_probs
    \<Rightarrow> coef_update coef_result" where
  "BuildInterCoefficientProbabilityUpdates rows cols modes coeffs abv base =
     counted (buildInterCoefficientTokenCounts rows cols modes coeffs abv) (coefficientProbabilityUpdatesFromTokenCounts base)"

definition BuildInterCoefficientProbabilityUpdatesFromPrebuiltCounts :: "coef_probs \<Rightarrow> token_counts \<Rightarrow> coef_update" where
  "BuildInterCoefficientProbabilityUpdatesFromPrebuiltCounts base counts = coefficientProbabilityUpdatesFromTokenCounts base counts"

definition BuildInterCoefficientProbabilityUpdatesIndependent ::
  "int \<Rightarrow> int \<Rightarrow> InterFrameMacroblockMode list \<Rightarrow> MacroblockCoefficients list \<Rightarrow> TokenContextPlanes list \<Rightarrow> coef_probs \<Rightarrow> bool
    \<Rightarrow> coef_update coef_result" where
  "BuildInterCoefficientProbabilityUpdatesIndependent rows cols modes coeffs abv base keyFrame =
     counted (buildInterCoefficientTokenCounts rows cols modes coeffs abv)
       (\<lambda>counts. coefficientProbabilityUpdatesFromTokenCountsIndependent base counts keyFrame)"

definition BuildInterCoefficientProbabilityUpdatesIndependentFromPrebuiltCounts ::
  "coef_probs \<Rightarrow> token_counts \<Rightarrow> bool \<Rightarrow> coef_update" where
  "BuildInterCoefficientProbabilityUpdatesIndependentFromPrebuiltCounts base counts keyFrame =
     coefficientProbabilityUpdatesFromTokenCountsIndependent base counts keyFrame"

definition CoefficientEntropySavingsFromPrebuiltCounts :: "coef_probs \<Rightarrow> token_counts \<Rightarrow> int" where
  "CoefficientEntropySavingsFromPrebuiltCounts base counts = coefficientEntropySavingsFromTokenCounts base counts"

definition CoefficientEntropySavingsIndependentFromPrebuiltCounts :: "coef_probs \<Rightarrow> token_counts \<Rightarrow> bool \<Rightarrow> int" where
  "CoefficientEntropySavingsIndependentFromPrebuiltCounts base counts keyFrame =
     coefficientEntropySavingsFromTokenCountsIndependent base counts keyFrame"

definition KeyFrameCoefficientEntropySavings ::
  "int \<Rightarrow> int \<Rightarrow> KeyFrameMacroblockMode list \<Rightarrow> MacroblockCoefficients list \<Rightarrow> TokenContextPlanes list \<Rightarrow> coef_probs
    \<Rightarrow> int coef_result" where
  "KeyFrameCoefficientEntropySavings rows cols modes coeffs abv base =
     counted (buildKeyFrameCoefficientTokenCounts rows cols modes coeffs abv) (coefficientEntropySavingsFromTokenCounts base)"

definition KeyFrameCoefficientEntropySavingsIndependent ::
  "int \<Rightarrow> int \<Rightarrow> KeyFrameMacroblockMode list \<Rightarrow> MacroblockCoefficients list \<Rightarrow> TokenContextPlanes list \<Rightarrow> coef_probs
    \<Rightarrow> int coef_result" where
  "KeyFrameCoefficientEntropySavingsIndependent rows cols modes coeffs abv base =
     (case validateKeyFrameCoefficientGrid rows cols modes coeffs abv of (e, abv) \<Rightarrow>
       (case e of Some err \<Rightarrow> Inl err
        | None \<Rightarrow> Inr (coefficientEntropySavingsFromCountsIndependent base
            defaultKeyFrameIndependentCoefficientBranchCountsForUpdate True), abv))"

definition InterCoefficientEntropySavings ::
  "int \<Rightarrow> int \<Rightarrow> InterFrameMacroblockMode list \<Rightarrow> MacroblockCoefficients list \<Rightarrow> TokenContextPlanes list \<Rightarrow> coef_probs
    \<Rightarrow> int coef_result" where
  "InterCoefficientEntropySavings rows cols modes coeffs abv base =
     counted (buildInterCoefficientTokenCounts rows cols modes coeffs abv) (coefficientEntropySavingsFromTokenCounts base)"

definition InterCoefficientEntropySavingsIndependent ::
  "int \<Rightarrow> int \<Rightarrow> InterFrameMacroblockMode list \<Rightarrow> MacroblockCoefficients list \<Rightarrow> TokenContextPlanes list \<Rightarrow> coef_probs
    \<Rightarrow> int coef_result" where
  "InterCoefficientEntropySavingsIndependent rows cols modes coeffs abv base =
     counted (buildInterCoefficientTokenCounts rows cols modes coeffs abv)
       (\<lambda>counts. coefficientEntropySavingsFromTokenCountsIndependent base counts False)"

end
