(* ===== verification/Vp8_Record_Laws.thy ===== *)
theory Vp8_Record_Laws
  imports Vp8_Coef_Records Vp8_Header_Codes
begin

text \<open>
  Writing tokens later is writing them now: the records of a macroblock, coded with the frame's
  probabilities, are the bits the direct writer would have coded, and the counts are the tokens of
  those bits.
\<close>

section \<open>Token events\<close>

text \<open>A token of the stream: where it is coded, what it is, and whether its end-of-block node is left out.\<close>

type_synonym token_event = "nat \<times> nat \<times> nat \<times> nat \<times> nat \<times> bool \<times> bool"

fun coef_events :: "nat \<Rightarrow> nat \<Rightarrow> nat \<Rightarrow> nat \<Rightarrow> bool \<Rightarrow> int list \<Rightarrow> token_event list" where
  "coef_events bt pos band ctx skip [] = (if pos < 16 then [(bt, band, ctx, DCTEOBToken, 0, False, False)] else [])"
| "coef_events bt pos band ctx skip (c # cs) =
     (let token = coeffAbsToken (nat \<bar>c\<bar>); class = PrevTokenClass ! token
      in (bt, band, ctx, token, nat \<bar>c\<bar>, c < 0, skip) # coef_events bt (pos + 1) (CoefBandsTable ! (pos + 1)) class (class = 0) cs)"

definition block_events :: "nat \<Rightarrow> nat \<Rightarrow> nat \<Rightarrow> int list \<Rightarrow> token_event list" where
  "block_events bt ctx n cs = coef_events bt n n ctx False cs"

fun plan_events :: "(nat \<Rightarrow> int list) \<Rightarrow> mb_step list \<Rightarrow> ctx_flags \<Rightarrow> ctx_flags \<Rightarrow> token_event list" where
  "plan_events cs [] A L = []"
| "plan_events cs ((b, bt, n, sa, sl) # steps) A L =
     block_events bt (of_bool (A sa) + of_bool (L sl)) n (cs b)
     @ plan_events cs steps (A(sa := cs b \<noteq> [])) (L(sl := cs b \<noteq> []))"

lemma plan_events_append:
  "plan_events cs (xs @ ys) A L = plan_events cs xs A L
     @ (let (A', L') = plan_flags cs xs (A, L) in plan_events cs ys A' L')"
  by (induction xs arbitrary: A L) (auto simp: Let_def split: prod.splits)

definition take_event :: "'s take_token \<Rightarrow> 's \<Rightarrow> token_event \<Rightarrow> 's" where
  "take_event tk s e = (case e of (bt, band, ctx, token, mag, neg, skip) \<Rightarrow> tk bt band ctx token mag neg skip s)"

section \<open>The walk takes the events\<close>

lemma run_step: "run_state (step f) s = ((), f s)"
  by (simp add: step_def)

lemma count_coeffs_run:
  assumes "pos \<le> eob" "eob \<le> 16" "bt < 4" "band < 8"
    and "\<forall>i \<in> {pos..<eob}. \<bar>scan_coeff qcoeff i\<bar> \<le> int DCTMaxValue"
  shows "run_state (count_coeffs tk bt qcoeff eob [pos..<eob] band ctx skip) s =
    (None, foldl (take_event tk) s (coef_events bt pos band ctx skip (map (scan_coeff qcoeff) [pos..<eob])))"
  using assms
proof (induction "eob - pos" arbitrary: pos band ctx skip s)
  case 0
  then have p: "pos = eob" by simp
  have m: "bt AND 3 = bt" "band AND 7 = band"
    using nat_and_low [of bt 2] nat_and_low [of band 3] "0.prems"(3,4) by (simp_all add: mask_eq_exp_minus_1)
  show ?case unfolding p using m by (simp add: run_step take_event_def)
next
  case (Suc n)
  have pos: "pos < eob" using Suc.hyps(2) by simp
  define c where "c = scan_coeff qcoeff pos"
  have c: "\<bar>c\<bar> \<le> int DCTMaxValue" using Suc.prems(5) pos by (simp add: c_def)
  have p16: "pos < 16" using pos Suc.prems(2) by simp
  have m4: "DefaultZigZag1D ! pos AND 0xF = DefaultZigZag1D ! pos"
    using nat_and_low [of "DefaultZigZag1D ! pos" 4] zigzag_bound [OF p16] by (simp add: mask_eq_exp_minus_1)
  have m: "bt AND 3 = bt" "band AND 7 = band"
    using nat_and_low [of bt 2] nat_and_low [of band 3] Suc.prems(3,4) by (simp_all add: mask_eq_exp_minus_1)
  have c63: "- (2 ^ 63) \<le> c" "c < 2 ^ 63" using c by (simp_all add: abs_le_iff)
  have lut: "coeffAbsTokenLUT ! nat \<bar>c\<bar> = coeffAbsToken (nat \<bar>c\<bar>)" using c by (intro coeffAbsTokenLUT_nth) simp
  define token where "token = coeffAbsToken (nat \<bar>c\<bar>)"
  define cls where "cls = PrevTokenClass ! token"
  define s1 where "s1 = tk bt band ctx token (nat \<bar>c\<bar>) (c < 0) skip s"
  have st: "run_state (count_coeffs tk bt qcoeff eob [pos..<eob] band ctx skip) s =
    run_state (if pos + 1 < 16 then count_coeffs tk bt qcoeff eob [Suc pos..<eob] (CoefBandsTable ! (pos + 1)) cls (cls = 0)
      else count_coeffs tk bt qcoeff eob [Suc pos..<eob] band ctx skip) s1"
    unfolding upt_conv_Cons [OF pos] count_coeffs.simps m m4 scan_coeff_def [symmetric] c_def [symmetric] Let_def
      sign_mask(2,3) [OF c63] lut token_def [symmetric] cls_def [symmetric]
    using c by (simp add: run_step s1_def)
  have ev: "foldl (take_event tk) s (coef_events bt pos band ctx skip (map (scan_coeff qcoeff) [pos..<eob]))
    = foldl (take_event tk) s1 (coef_events bt (Suc pos) (CoefBandsTable ! (pos + 1)) cls (cls = 0) (map (scan_coeff qcoeff) [Suc pos..<eob]))"
    unfolding upt_conv_Cons [OF pos] by (simp add: take_event_def c_def token_def cls_def s1_def Let_def)
  show ?case
  proof (cases "pos + 1 < 16")
    case True
    have "run_state (count_coeffs tk bt qcoeff eob [Suc pos..<eob] (CoefBandsTable ! (pos + 1)) cls (cls = 0)) s1 =
      (None, foldl (take_event tk) s1 (coef_events bt (Suc pos) (CoefBandsTable ! (pos + 1)) cls (cls = 0) (map (scan_coeff qcoeff) [Suc pos..<eob])))"
      by (rule Suc.hyps(1)) (use Suc.hyps(2) Suc.prems pos True band_bound [of "Suc pos"] in auto)
    then show ?thesis unfolding st ev using True by simp
  next
    case False
    then have "[Suc pos..<eob] = []" "eob = 16" "pos = 15" using Suc.prems(2) pos by auto
    then show ?thesis unfolding st ev by simp
  qed
qed

lemma count_block_run:
  assumes "bt < 4" "n \<le> 1" "eob \<le> 16" "ctx < 3" "block_range qcoeff"
  shows "run_state (count_block tk bt ctx n qcoeff eob) s =
    (None, foldl (take_event tk) s (block_events bt ctx n (map (scan_coeff qcoeff) [n..<eob])))"
proof (cases "eob \<le> n")
  case True
  then show ?thesis using assms by (simp add: count_block_def block_events_def run_step take_event_def)
next
  case False
  have "\<forall>i \<in> {n..<eob}. \<bar>scan_coeff qcoeff i\<bar> \<le> int DCTMaxValue"
    using block_range_scan [OF assms(5)] assms(3) by auto
  from count_coeffs_run [OF _ assms(3,1) _ this, of n tk ctx False s] False assms
  show ?thesis by (simp add: count_block_def block_events_def)
qed

lemma count_block_ctx_run:
  assumes "planes_ok a" "planes_ok l" "slot_ok sa" "slot_ok sl" "bt < 4" "n \<le> 1" "eob \<le> 16" "block_range qcoeff"
  shows "run_state (count_block_ctx tk bt n (slot_get a sa + slot_get l sl) qcoeff eob) s =
    (None, foldl (take_event tk) s (block_events bt (of_bool (planes_flags a sa) + of_bool (planes_flags l sl)) n
      (map (scan_coeff qcoeff) [n..<eob])))"
proof -
  have "of_bool (planes_flags a sa) + of_bool (planes_flags l sl) < (3 :: nat)"
    by (cases "planes_flags a sa"; cases "planes_flags l sl") simp_all
  then show ?thesis
    unfolding count_block_ctx_def slot_get_flag [OF assms(1,3)] slot_get_flag [OF assms(2,4)] flag_sum
    using count_block_run [OF assms(5-7) _ assms(8), of _ tk s] by (simp )
qed

text \<open>The result of a walk: contexts whose flags are the plan's, and the plan's events taken.\<close>

definition walks :: "'s take_token \<Rightarrow> 's mb_count \<Rightarrow> (nat \<Rightarrow> int list) \<Rightarrow> mb_step list \<Rightarrow> TokenContextPlanes \<Rightarrow> TokenContextPlanes \<Rightarrow> bool" where
  "walks tk m cs steps a l \<longleftrightarrow> (\<forall>s. \<exists>a' l'. planes_ok a' \<and> planes_ok l' \<and>
     (planes_flags a', planes_flags l') = plan_flags cs steps (planes_flags a, planes_flags l) \<and>
     run_state m s = ((None, a', l'), foldl (take_event tk) s (plan_events cs steps (planes_flags a) (planes_flags l))))"

lemma walks_step:
  assumes p: "planes_ok a" "planes_ok l" "slot_ok sa" "slot_ok sl"
    and q: "bt < 4" "n \<le> 1" "eob \<le> 16" "block_range qcoeff"
    and b: "cs b = map (scan_coeff qcoeff) [n..<eob]" "h = (n < eob)"
    and k: "walks tk K cs steps (slot_set a sa (of_bool h)) (slot_set l sl (of_bool h))"
  shows "walks tk (do { e \<leftarrow> count_block_ctx tk bt n (slot_get a sa + slot_get l sl) qcoeff eob;
      if e \<noteq> None then State_Monad.return (e, a, l) else K }) cs ((b, bt, n, sa, sl) # steps) a l"
  unfolding walks_def
proof
  fix s
  let ?ev = "block_events bt (of_bool (planes_flags a sa) + of_bool (planes_flags l sl)) n (map (scan_coeff qcoeff) [n..<eob])"
  have h: "h \<longleftrightarrow> cs b \<noteq> []" using b by auto
  obtain a' l' where r: "planes_ok a'" "planes_ok l'"
    "(planes_flags a', planes_flags l') = plan_flags cs steps (planes_flags (slot_set a sa (of_bool h)), planes_flags (slot_set l sl (of_bool h)))"
    "run_state K (foldl (take_event tk) s ?ev) = ((None, a', l'), foldl (take_event tk) (foldl (take_event tk) s ?ev)
      (plan_events cs steps (planes_flags (slot_set a sa (of_bool h))) (planes_flags (slot_set l sl (of_bool h)))))"
    using k unfolding walks_def by blast
  have "run_state (do { e \<leftarrow> count_block_ctx tk bt n (slot_get a sa + slot_get l sl) qcoeff eob;
      if e \<noteq> None then State_Monad.return (e, a, l) else K }) s = run_state K (foldl (take_event tk) s ?ev)"
    using count_block_ctx_run [OF p q, of tk s] by simp
  then show "\<exists>a' l'. planes_ok a' \<and> planes_ok l' \<and>
     (planes_flags a', planes_flags l') = plan_flags cs ((b, bt, n, sa, sl) # steps) (planes_flags a, planes_flags l) \<and>
     run_state (do { e \<leftarrow> count_block_ctx tk bt n (slot_get a sa + slot_get l sl) qcoeff eob;
      if e \<noteq> None then State_Monad.return (e, a, l) else K }) s =
     ((None, a', l'), foldl (take_event tk) s (plan_events cs ((b, bt, n, sa, sl) # steps) (planes_flags a) (planes_flags l)))"
    using r by (intro exI [of _ a'] exI [of _ l'])
      (simp add: slot_set_flags [OF p(1,3)] slot_set_flags [OF p(2,4)] h [symmetric] b(1) [symmetric])
qed

lemma walks_return: "planes_ok a \<Longrightarrow> planes_ok l \<Longrightarrow> walks tk (State_Monad.return (None, a, l)) cs [] a l"
  by (auto simp: walks_def)

lemma walks_append:
  assumes m: "walks tk m cs xs a l"
    and k: "\<And>a' l'. planes_ok a' \<Longrightarrow> planes_ok l' \<Longrightarrow> walks tk (K a' l') cs ys a' l'"
  shows "walks tk (do { r \<leftarrow> m; if fst r \<noteq> None then State_Monad.return r else K (fst (snd r)) (snd (snd r)) }) cs (xs @ ys) a l"
  unfolding walks_def
proof
  fix s
  obtain a1 l1 where one: "planes_ok a1" "planes_ok l1"
    "(planes_flags a1, planes_flags l1) = plan_flags cs xs (planes_flags a, planes_flags l)"
    "run_state m s = ((None, a1, l1), foldl (take_event tk) s (plan_events cs xs (planes_flags a) (planes_flags l)))"
    using m unfolding walks_def by blast
  obtain a2 l2 where two: "planes_ok a2" "planes_ok l2"
    "(planes_flags a2, planes_flags l2) = plan_flags cs ys (planes_flags a1, planes_flags l1)"
    "run_state (K a1 l1) (foldl (take_event tk) s (plan_events cs xs (planes_flags a) (planes_flags l)))
      = ((None, a2, l2), foldl (take_event tk) (foldl (take_event tk) s (plan_events cs xs (planes_flags a) (planes_flags l)))
          (plan_events cs ys (planes_flags a1) (planes_flags l1)))"
    using k [OF one(1,2)] unfolding walks_def by blast
  have "run_state (do { r \<leftarrow> m; if fst r \<noteq> None then State_Monad.return r else K (fst (snd r)) (snd (snd r)) }) s
      = run_state (K a1 l1) (foldl (take_event tk) s (plan_events cs xs (planes_flags a) (planes_flags l)))"
    using one(4) by simp
  then show "\<exists>a' l'. planes_ok a' \<and> planes_ok l' \<and>
     (planes_flags a', planes_flags l') = plan_flags cs (xs @ ys) (planes_flags a, planes_flags l) \<and>
     run_state (do { r \<leftarrow> m; if fst r \<noteq> None then State_Monad.return r else K (fst (snd r)) (snd (snd r)) }) s =
     ((None, a', l'), foldl (take_event tk) s (plan_events cs (xs @ ys) (planes_flags a) (planes_flags l)))"
    using two(1,2,3) unfolding plan_events_append plan_flags_append one(3) [symmetric] Let_def prod.case foldl_append
    by (intro exI [of _ a2] exI [of _ l2] conjI) (assumption | simp only: two(4))+
qed

lemma BlockEOB_max: "length (mc_EOB coeffs) = 25 \<Longrightarrow> b < 25 \<Longrightarrow> BlockEOB coeffs b n = max (mb_eob coeffs b) n"
  by (simp add: BlockEOB_def mb_eob_def)

lemma walks_luma:
  assumes "bt < 4" "n \<le> 1" "planes_ok a" "planes_ok l" "length (mc_EOB coeffs) = 25"
    and "\<forall>b \<in> set bs. b < 16 \<and> block_range (mc_QCoeff coeffs ! b) \<and> mb_eob coeffs b \<le> 16 \<and> cs b = coded coeffs n b"
  shows "walks tk (count_luma tk bt n coeffs bs a l) cs (map (\<lambda>b. mb_select bt n (int b)) bs) a l"
  using assms(3,4,6)
proof (induction bs arbitrary: a l)
  case Nil
  then show ?case by (simp add: walks_return)
next
  case (Cons b bs)
  have b: "b < 16" "block_range (mc_QCoeff coeffs ! b)" "mb_eob coeffs b \<le> 16" "cs b = coded coeffs n b"
    using Cons.prems(3) by simp_all
  define sa where "sa = SlotY1 (b AND 3)"
  define sl where "sl = SlotY1 (drop_bit 2 (b AND 0xC))"
  have sel: "mb_select bt n (int b) = (b, bt, n, sa, sl)" and ok: "slot_ok sa" "slot_ok sl"
    using luma_slots [OF b(1)] by (simp_all add: sa_def sl_def)
  have e: "BlockEOB coeffs b n = max (mb_eob coeffs b) n" using BlockEOB_max assms(5) b(1) by simp
  define eob where "eob = max (mb_eob coeffs b) n"
  have eob: "eob \<le> 16" using b(3) assms(2) by (simp add: eob_def)
  have c: "cs b = map (scan_coeff (mc_QCoeff coeffs ! b)) [n..<eob]" unfolding b(4) eob_def coded_max ..
  have run: "count_luma tk bt n coeffs (b # bs) a l = do {
      e \<leftarrow> count_block_ctx tk bt n (slot_get a sa + slot_get l sl) (mc_QCoeff coeffs ! b) eob;
      if e \<noteq> None then State_Monad.return (e, a, l)
      else count_luma tk bt n coeffs bs (slot_set a sa (of_bool (eob > n))) (slot_set l sl (of_bool (eob > n))) }"
    by (simp only: count_luma.simps Let_def sa_def sl_def e eob_def slot_get.simps slot_set.simps)
  show ?case
    unfolding run list.map sel
    by (rule walks_step [where cs = cs and b = b, OF Cons.prems(1,2) ok assms(1,2) eob b(2) c refl])
      (use Cons in \<open>simp add: slot_set_ok\<close>)
qed

lemma walks_chroma:
  assumes "planes_ok a" "planes_ok l" "length (mc_EOB coeffs) = 25"
    and "\<forall>b \<in> set bs. 16 \<le> b \<and> b < 24 \<and> block_range (mc_QCoeff coeffs ! b) \<and> mb_eob coeffs b \<le> 16 \<and> cs b = coded coeffs 0 b"
  shows "walks tk (count_chroma tk coeffs bs a l) cs (map (\<lambda>b. mb_select bt n (int b)) bs) a l"
  using assms(1,2,4)
proof (induction bs arbitrary: a l)
  case Nil
  then show ?case by (simp add: walks_return)
next
  case (Cons b bs)
  have b: "16 \<le> b" "b < 24" "block_range (mc_QCoeff coeffs ! b)" "mb_eob coeffs b \<le> 16" "cs b = coded coeffs 0 b"
    using Cons.prems(3) by simp_all
  obtain ai li where u: "UVTokenContextIndex b = (ai, li)" by (cases "UVTokenContextIndex b")
  obtain sa sl where sel: "mb_select bt n (int b) = (b, 2, 0, sa, sl)" and ok: "slot_ok sa" "slot_ok sl"
    and acc: "\<And>p. getTokenUVContext p ai = slot_get p sa" "\<And>p v. setTokenUVContext p ai v = slot_set p sa v"
    "\<And>p. getTokenUVContext p li = slot_get p sl" "\<And>p v. setTokenUVContext p li v = slot_set p sl v"
    using chroma_slots [OF b(1,2) u, of bt n] by metis
  have e: "BlockEOB coeffs b 0 = mb_eob coeffs b" using BlockEOB_max assms(3) b(2) by simp
  have c: "cs b = map (scan_coeff (mc_QCoeff coeffs ! b)) [0..<mb_eob coeffs b]" unfolding b(5) coded_def ..
  have run: "count_chroma tk coeffs (b # bs) a l = do {
      e \<leftarrow> count_block_ctx tk 2 0 (slot_get a sa + slot_get l sl) (mc_QCoeff coeffs ! b) (mb_eob coeffs b);
      if e \<noteq> None then State_Monad.return (e, a, l)
      else count_chroma tk coeffs bs (slot_set a sa (of_bool (mb_eob coeffs b > 0))) (slot_set l sl (of_bool (mb_eob coeffs b > 0))) }"
    by (simp only: count_chroma.simps Let_def u prod.case e acc)
  show ?case
    unfolding run list.map sel
    by (rule walks_step [where cs = cs and b = b, OF Cons.prems(1,2) ok _ _ b(4,3) c refl])
      (use Cons in \<open>simp_all add: slot_set_ok\<close>)
qed

lemma walks_luma_chroma:
  assumes "bt < 4" "n \<le> 1" "planes_ok a" "planes_ok l" "length (mc_EOB coeffs) = 25"
    and q: "\<forall>b < 24. block_range (mc_QCoeff coeffs ! b) \<and> mb_eob coeffs b \<le> 16"
    and cs: "\<forall>b < 16. cs b = coded coeffs n b" "\<forall>b. 16 \<le> b \<and> b < 24 \<longrightarrow> cs b = coded coeffs 0 b"
  shows "walks tk (count_luma_chroma tk bt n coeffs a l) cs (luma_chroma_plan bt n) a l"
proof -
  have ql: "\<forall>b \<in> set [0..<16]. b < 16 \<and> block_range (mc_QCoeff coeffs ! b) \<and> mb_eob coeffs b \<le> 16 \<and> cs b = coded coeffs n b"
    unfolding set_upt using q cs(1) by simp
  have qc: "\<forall>b \<in> set [16..<24]. 16 \<le> b \<and> b < 24 \<and> block_range (mc_QCoeff coeffs ! b) \<and> mb_eob coeffs b \<le> 16
      \<and> cs b = coded coeffs 0 b"
    unfolding set_upt using q cs(2) by simp
  show ?thesis
    unfolding count_luma_chroma_def luma_chroma_plan_def
    by (rule walks_append [OF walks_luma [OF assms(1-5) ql] walks_chroma [OF _ _ assms(5) qc]])
qed

lemma walks_macroblock:
  assumes ok: "mb_coeffs_ok is4x4 coeffs" and p: "planes_ok a" "planes_ok l"
  shows "walks tk (count_macroblock tk is4x4 a l coeffs) (mb_coded is4x4 coeffs) (mb_plan is4x4) a l"
proof -
  let ?cs = "mb_coded is4x4 coeffs"
  note B = mb_coeffs_okD [OF ok]
  have e25: "length (mc_EOB coeffs) = 25" using ok by (simp add: mb_coeffs_ok_def)
  have q: "\<forall>b < 24. block_range (mc_QCoeff coeffs ! b) \<and> mb_eob coeffs b \<le> 16" using B by simp
  show ?thesis
  proof (cases is4x4)
    case True
    then show ?thesis
      using walks_luma_chroma [OF _ _ p e25 q, of 3 0 ?cs tk]
      by (simp add: mb_plan_split count_macroblock_def mb_coded_def first_pos_def)
  next
    case False
    define eob where "eob = mb_eob coeffs 24"
    have e: "BlockEOB coeffs 24 0 = eob" using BlockEOB_max [OF e25, of 24 0] by (simp add: eob_def)
    have c24: "?cs 24 = map (scan_coeff (mc_QCoeff coeffs ! 24)) [0..<eob]"
      by (simp add: mb_coded_def coded_def first_pos_def eob_def)
    have run: "count_macroblock tk is4x4 a l coeffs = do {
        e \<leftarrow> count_block_ctx tk 1 0 (slot_get a SlotY2 + slot_get l SlotY2) (mc_QCoeff coeffs ! 24) eob;
        if e \<noteq> None then State_Monad.return (e, a, l)
        else count_luma_chroma tk 0 1 coeffs (slot_set a SlotY2 (of_bool (eob > 0))) (slot_set l SlotY2 (of_bool (eob > 0))) }"
      using False by (simp only: count_macroblock_def Let_def e slot_get.simps slot_set.simps not_False_eq_True if_True)
    have plan: "mb_plan is4x4 = (24, 1, 0, SlotY2, SlotY2) # luma_chroma_plan 0 1" using False by (simp only: mb_plan_split)
    have "walks tk (count_luma_chroma tk 0 1 coeffs (slot_set a SlotY2 (of_bool (eob > 0))) (slot_set l SlotY2 (of_bool (eob > 0))))
        ?cs (luma_chroma_plan 0 1) (slot_set a SlotY2 (of_bool (eob > 0))) (slot_set l SlotY2 (of_bool (eob > 0)))"
      using False by (intro walks_luma_chroma e25 q slot_set_ok p) (simp_all add: mb_coded_def first_pos_def)
    then show ?thesis
      unfolding run plan
      by (intro walks_step [where cs = ?cs and b = 24, OF p _ _ _ _ _ _ c24 refl]) (use B [of 24] in \<open>simp_all add: eob_def del: slot_set.simps\<close>)
  qed
qed

end
