(* ===== verification/Vp8_Record_Codes.thy ===== *)
theory Vp8_Record_Codes
  imports Vp8_Record_Laws Vp8_Macroblock_Roundtrip
begin

text \<open>
  The prepared records written: the fields of a packed record, the row of probabilities it names, and
  the bits the record writer codes, which are those of the tokens of the macroblock.
\<close>

section \<open>The fields of a record\<close>

lemma bit_word_of_nat: "bit (word_of_nat n :: 'a::len word) k \<longleftrightarrow> k < LENGTH('a) \<and> bit n k"
  by (simp add: bit_of_nat_iff)

lemma nat_bit_less: "bit (m :: nat) k \<Longrightarrow> m < 2 ^ n \<Longrightarrow> k < n"
  by (metis bit_take_bit_iff take_bit_nat_eq_self)

definition record_word :: "nat \<Rightarrow> nat \<Rightarrow> nat \<Rightarrow> bool \<Rightarrow> bool \<Rightarrow> u32" where
  "record_word token off mag neg skip = word_of_nat token OR push_bit 4 (word_of_nat off) OR push_bit 15 (word_of_nat mag)
    OR push_bit 27 (of_bool neg) OR push_bit 28 (of_bool skip)"

lemma bit_push_u32: "bit (push_bit m (w :: u32)) k \<longleftrightarrow> m \<le> k \<and> k < 32 \<and> bit w (k - m)"
  by (auto simp: bit_push_bit_iff)

lemma bit_of_bool_u32: "bit (of_bool b :: u32) k \<longleftrightarrow> b \<and> k = 0"
  by (cases b) (simp_all add: bit_1_iff)

lemma bit_record_word:
  "bit (record_word token off mag neg skip) k \<longleftrightarrow> k < 32 \<and> (bit token k \<or> 4 \<le> k \<and> bit off (k - 4) \<or> 15 \<le> k \<and> bit mag (k - 15)
      \<or> k = 27 \<and> neg \<or> k = 28 \<and> skip)"
proof -
  have 32: "LENGTH(32) = 32" by simp
  have "k - m < 32 \<longleftrightarrow> True" if "k < 32" for m using that by simp
  then show ?thesis
  unfolding record_word_def bit_or_iff bit_push_u32 bit_word_of_nat bit_of_bool_u32 32
  by (cases "k < 32"; cases "k = 27"; cases "k = 28") (simp_all, linarith+)
qed


lemma unat_bits: "(\<And>k. bit w k \<longleftrightarrow> bit n k) \<Longrightarrow> unat (w :: u32) = n"
  by (rule bit_eqI) (simp add: bit_unsigned_iff)

lemma and_1_bit: "((w :: u32) AND 1 \<noteq> 0) = bit w 0"
  by (metis and_exp_eq_0_iff_not_bit power_0)

lemma bit_field: "bit (drop_bit m (w :: u32) AND mask n) k \<longleftrightarrow> k < n \<and> bit w (m + k)"
  by (auto simp: bit_and_iff bit_mask_iff bit_drop_bit_eq dest: bit_imp_le_length)

lemma word_fields:
  assumes "token < 16" "off < 2048" "mag < 4096"
  shows "unat (record_word token off mag neg skip AND 0x0f) = token"
    "unat (drop_bit 4 (record_word token off mag neg skip) AND 0x07ff) = off"
    "unat (drop_bit 15 (record_word token off mag neg skip) AND 0x0fff) = mag"
    "(drop_bit 27 (record_word token off mag neg skip) AND 1 \<noteq> 0) = neg"
    "(drop_bit 28 (record_word token off mag neg skip) AND 1 \<noteq> 0) = skip"
proof -
  have t: "bit token k \<Longrightarrow> k < 4" for k using nat_bit_less [of token k 4] assms(1) by simp
  have o: "bit off k \<Longrightarrow> k < 11" for k using nat_bit_less [of off k 11] assms(2) by simp
  have m: "bit mag k \<Longrightarrow> k < 12" for k using nat_bit_less [of mag k 12] assms(3) by simp
  have mask: "(0x0f :: u32) = mask 4" "(0x07ff :: u32) = mask 11" "(0x0fff :: u32) = mask 12"
    by (simp_all add: mask_eq_exp_minus_1)
  let ?r = "record_word token off mag neg skip"
  have "bit (drop_bit 0 ?r AND mask 4) k \<longleftrightarrow> bit token k" for k
    unfolding bit_field bit_record_word using t [of k] by auto
  then show "unat (?r AND 0x0f) = token" unfolding mask by (intro unat_bits) simp
  have "bit (drop_bit 4 ?r AND mask 11) k \<longleftrightarrow> bit off k" for k
    unfolding bit_field bit_record_word using t [of "4 + k"] o [of k] m [of "4 + k - 15"] by auto
  then show "unat (drop_bit 4 ?r AND 0x07ff) = off" unfolding mask by (intro unat_bits) simp
  have "bit (drop_bit 15 ?r AND mask 12) k \<longleftrightarrow> bit mag k" for k
    unfolding bit_field bit_record_word using t [of "15 + k"] o [of "15 + k - 4"] m [of k] by auto
  then show "unat (drop_bit 15 ?r AND 0x0fff) = mag" unfolding mask by (intro unat_bits) simp
  show "(drop_bit 27 ?r AND 1 \<noteq> 0) = neg" "(drop_bit 28 ?r AND 1 \<noteq> 0) = skip"
    unfolding and_1_bit bit_drop_bit_eq comp_def bit_record_word
    using t [of 27] o [of 23] m [of 12] t [of 28] o [of 24] m [of 13] by auto
qed
lemma token_record_word:
  "token_record bt band ctx token mag neg skip = record_word token (((bt * CoefBands + band) * PrevCoefContexts + ctx) * EntropyNodes) mag neg skip"
  by (cases skip) (simp_all add: token_record_def record_word_def Let_def or.assoc)

section \<open>The row a record names\<close>

lemma concat_nth_chunk:
  assumes "\<forall>x \<in> set xs. length x = m" "i < length xs"
  shows "take m (drop (i * m) (concat xs)) = xs ! i"
  using assms
proof (induction xs arbitrary: i)
  case (Cons x xs)
  then show ?case by (cases i) simp_all
qed simp

lemma concat_nth_same:
  assumes "\<forall>x \<in> set xs. length x = m" "i < length xs" "j < m"
  shows "concat xs ! (i * m + j) = xs ! i ! j"
proof -
  have "length (concat xs) = length xs * m" using assms(1) by (induction xs) auto
  moreover have "(i + 1) * m \<le> length xs * m" using assms(2) by (intro mult_right_mono) auto
  ultimately have "i * m + j < length (concat xs)" using assms(3) by simp
  then have "concat xs ! (i * m + j) = take m (drop (i * m) (concat xs)) ! j" using assms(3) by simp
  then show ?thesis unfolding concat_nth_chunk [OF assms(1,2)] .
qed

lemma length_concat_same: "\<forall>x \<in> set xs. length x = m \<Longrightarrow> length (concat xs) = length xs * m"
  by (induction xs) auto

lemma concat_concat_map: "concat (map concat xs) = concat (concat xs)"
  by (induction xs) auto

lemma flat_row:
  assumes "coef_shape probs" "bt < 4" "band < 8" "ctx < 3"
  shows "take 11 (drop (((bt * 8 + band) * 3 + ctx) * 11) (flat probs)) = probs ! bt ! band ! ctx"
proof -
  have s: "length probs = 4" "\<forall>b \<in> set probs. length b = 8" "\<forall>c \<in> set (concat probs). length c = 3"
    "\<forall>n \<in> set (concat (concat probs)). length n = 11"
    using assms(1) by (auto simp: coef_shape_def list_all_iff)
  have l: "length (concat probs) = 32" using length_concat_same [OF s(2)] s(1) by simp
  have l3: "length (concat (concat probs)) = 96" using length_concat_same [OF s(3)] l by simp
  have "flat probs = concat (concat (concat probs))"
    by (induction probs) (simp_all add: flat_def concat_concat_map)
  then have "take 11 (drop (((bt * 8 + band) * 3 + ctx) * 11) (flat probs)) = concat (concat probs) ! ((bt * 8 + band) * 3 + ctx)"
    using concat_nth_chunk [OF s(4), of "(bt * 8 + band) * 3 + ctx"] l3 assms(2-4) by simp
  also have "\<dots> = probs ! bt ! band ! ctx"
    using concat_nth_same [OF s(3), of "bt * 8 + band" ctx] concat_nth_same [OF s(2), of bt band] l s(1) assms(2-4) by simp
  finally show ?thesis .
qed

section \<open>The bits of an event\<close>

definition event_ok :: "token_event \<Rightarrow> bool" where
  "event_ok e = (case e of (bt, band, ctx, token, mag, neg, skip) \<Rightarrow> bt < 4 \<and> band < 8 \<and> ctx < 3 \<and>
     (if token = DCTEOBToken then mag = 0 \<and> \<not> neg \<and> \<not> skip
      else token = coeffAbsToken mag \<and> mag \<le> DCTMaxValue \<and> (neg \<longrightarrow> mag > 0)))"

definition event_bits :: "coef_probs \<Rightarrow> token_event \<Rightarrow> (bool \<times> byte) list" where
  "event_bits probs e = (case e of (bt, band, ctx, token, mag, neg, skip) \<Rightarrow>
     if token = DCTEOBToken then [(False, probs ! bt ! band ! ctx ! 0)]
     else token_bits (probs ! bt ! band ! ctx) (if neg then - int mag else int mag) skip)"

definition event_record :: "token_event \<Rightarrow> u32" where
  "event_record e = (case e of (bt, band, ctx, token, mag, neg, skip) \<Rightarrow> token_record bt band ctx token mag neg skip)"

lemma coeffAbsToken_less: "coeffAbsToken m < DCTEOBToken"
  by (simp add: coeffAbsToken_def)

lemma record_row_event:
  assumes "coef_shape probs" "bt < 4" "band < 8" "ctx < 3" "token < 16" "mag < 4096"
  shows "record_row probs (token_record bt band ctx token mag neg skip) = probs ! bt ! band ! ctx"
proof -
  have "((bt * 8 + band) * 3 + ctx) * 11 < 2048" using assms(2-4) by simp
  then show ?thesis
    unfolding record_row_def token_record_word
    using flat_row [OF assms(1-4)] word_fields(2) [OF assms(5) _ assms(6)] by (simp add: flat_def)
qed

lemma packed_record:
  assumes "coef_shape probs" "event_ok e" "writer_ok (fst st)" "w_err (fst st) = 0"
  shows "packed (fst st) (event_bits probs e) (fst (pack_record probs (event_record e) st))"
proof -
  obtain bt band ctx token mag neg skip where e: "e = (bt, band, ctx, token, mag, neg, skip)" by (metis prod_cases7)
  have r: "bt < 4" "band < 8" "ctx < 3"
    and t: "if token = DCTEOBToken then mag = 0 \<and> \<not> neg \<and> \<not> skip
      else token = coeffAbsToken mag \<and> mag \<le> DCTMaxValue \<and> (neg \<longrightarrow> mag > 0)"
    using assms(2) by (simp_all add: e event_ok_def)
  have small: "token < 16" "mag < 4096"
    using t coeffAbsToken_less [of mag] by (simp_all split: if_splits)
  have off: "((bt * CoefBands + band) * PrevCoefContexts + ctx) * EntropyNodes < 2048" using r by simp
  note row = record_row_event [OF assms(1) r small]
  note fields = word_fields [OF small(1) off small(2), folded token_record_word]
  have mag: "uint (drop_bit 15 (token_record bt band ctx token mag neg skip) AND 0x0fff) = int mag"
    using fields(3) [of neg skip] by (simp only: uint_nat)
  show ?thesis
  proof (cases "token = DCTEOBToken")
    case True
    then show ?thesis
      using packed_eob [OF assms(3,4), of "probs ! bt ! band ! ctx ! 0" "snd st"]
      unfolding e event_bits_def event_record_def pack_record_def Let_def prod.case row fields by simp
  next
    case False
    then have t: "token = coeffAbsToken mag" "mag \<le> DCTMaxValue" "neg \<longrightarrow> mag > 0" using t by simp_all
    define c where "c = (if neg then - int mag else int mag)"
    have c: "nat \<bar>c\<bar> = mag" "\<bar>c\<bar> = int mag" "c = 0 \<longrightarrow> \<not> neg" "neg \<longleftrightarrow> c < 0" "\<bar>c\<bar> \<le> int DCTMaxValue"
      using t(2,3) by (simp_all add: c_def)
    show ?thesis
      unfolding e event_bits_def event_record_def pack_record_def Let_def prod.case row fields mag if_not_P [OF False]
      using packed_token [OF assms(3,4) c(3-5), of "probs ! bt ! band ! ctx" skip, unfolded c(2) nat_int, folded t(1)]
      by (simp only: c_def)
  qed
qed

lemma packed_records:
  assumes "coef_shape probs" "\<forall>e \<in> set es. event_ok e" "writer_ok (fst st)" "w_err (fst st) = 0"
  shows "packed (fst st) (concat (map (event_bits probs) es)) (fst (pack_records probs (map event_record es) st))"
  using assms(2-4)
proof (induction es arbitrary: st)
  case Nil
  then show ?case by (simp add: packed_refl)
next
  case (Cons e es)
  define st' where "st' = pack_record probs (event_record e) st"
  have p: "packed (fst st) (event_bits probs e) (fst st')"
    unfolding st'_def using Cons.prems by (intro packed_record assms(1)) simp_all
  have "packed (fst st) (event_bits probs e @ concat (map (event_bits probs) es))
      (fst (if w_err (fst st') \<noteq> 0 then st' else pack_records probs (map event_record es) st'))"
    by (rule packed_trans [OF p _ _ Cons.prems(3)])
      (use Cons.IH [of st'] Cons.prems packed_ok [OF p] in \<open>simp_all del: pack_records.simps\<close>)
  then show ?case unfolding list.map pack_records.simps Let_def st'_def [symmetric] concat.simps .
qed

lemma writes_records:
  assumes "coef_shape probs" "\<forall>e \<in> set es. event_ok e"
  shows "writes (writePreparedCoefficientTokenRecords probs (map event_record es)) (concat (map (event_bits probs) es)) None"
  unfolding writes_def
proof (intro conjI allI impI)
  let ?m = "writePreparedCoefficientTokenRecords probs (map event_record es)"
  let ?bits = "concat (map (event_bits probs) es)"
  show "sticky ?m"
    unfolding sticky_def
  proof (intro allI impI)
    fix w assume ok: "writer_ok w"
    obtain w' sp where st: "pack_records probs (map event_record es) (w, w_pos w) = (w', sp)" by (metis surj_pair)
    have "writer_ok w'" if "w_err w = 0"
      using packed_ok [OF packed_records [OF assms, of "(w, w_pos w)", unfolded fst_conv, OF ok that]] unfolding st fst_conv .
    then show "writer_ok (snd (run_state ?m w)) \<and> (w_err w \<noteq> 0 \<longrightarrow> w_err (snd (run_state ?m w)) \<noteq> 0)"
      using ok by (cases "w_err w = 0") (simp_all add: writePreparedCoefficientTokenRecords_def st)
  qed
  fix w assume ok: "writer_ok w" and e: "w_err w = 0"
  obtain w' sp where st: "pack_records probs (map event_record es) (w, w_pos w) = (w', sp)" by (metis surj_pair)
  have p: "packed w ?bits w'"
    using packed_records [OF assms, of "(w, w_pos w)", unfolded fst_conv, OF ok e] unfolding st fst_conv .
  have "run_state ?m w = (writer_result w', w')" using e st by (simp add: writePreparedCoefficientTokenRecords_def)
  then show "w_err (snd (run_state ?m w)) = 0 \<longleftrightarrow> w_err (vp8w.puts w ?bits) = 0"
    and "w_err (snd (run_state ?m w)) = 0 \<Longrightarrow> run_state ?m w = (None, vp8w.puts w ?bits)"
    using p by (simp_all only: packed_def writer_result_def snd_conv if_True simp_thms)
qed

section \<open>The events of a macroblock\<close>

lemma coef_events_bits:
  "concat (map (event_bits probs) (coef_events bt pos band ctx skip cs)) = coef_bits (probs ! bt) pos band ctx skip cs"
proof (induction cs arbitrary: pos band ctx skip)
  case Nil
  then show ?case by (simp add: event_bits_def)
next
  case (Cons c cs)
  have c: "(if c < 0 then - int (nat \<bar>c\<bar>) else int (nat \<bar>c\<bar>)) = c" by simp
  have t: "coeffAbsToken (nat \<bar>c\<bar>) \<noteq> DCTEOBToken" using coeffAbsToken_less [of "nat \<bar>c\<bar>"] by simp
  show ?case
    unfolding coef_events.simps coef_bits.simps Let_def list.map concat.simps Cons.IH
    unfolding event_bits_def prod.case if_not_P [OF t] c ..
qed

lemma plan_events_bits:
  "concat (map (event_bits probs) (plan_events cs steps A L)) = plan_bits probs cs steps A L"
  by (induction cs steps A L rule: plan_events.induct)
    (simp_all add: block_events_def block_bits_def coef_events_bits del: fun_upd_apply)

lemma token_class_less: "token \<le> 11 \<Longrightarrow> PrevTokenClass ! token < 3"
proof -
  assume "token \<le> 11"
  then have "token \<in> set [0..<12]" by simp
  moreover have "list_all (\<lambda>t. PrevTokenClass ! t < 3) [0..<12]" by code_simp
  ultimately show ?thesis unfolding list_all_iff by (rule bspec [rotated])
qed

lemma coef_events_ok:
  assumes "bt < 4" "pos + length cs \<le> 16" "cs \<noteq> [] \<or> pos < 16 \<longrightarrow> band < 8 \<and> ctx < 3" "\<forall>c \<in> set cs. \<bar>c\<bar> \<le> int DCTMaxValue"
  shows "\<forall>e \<in> set (coef_events bt pos band ctx skip cs). event_ok e"
  using assms(2-4)
proof (induction cs arbitrary: pos band ctx skip)
  case Nil
  then show ?case using assms(1) by (simp add: event_ok_def)
next
  case (Cons c cs)
  define cls where "cls = PrevTokenClass ! coeffAbsToken (nat \<bar>c\<bar>)"
  have t: "coeffAbsToken (nat \<bar>c\<bar>) \<noteq> DCTEOBToken" "cls < 3"
    using coeffAbsToken_less [of "nat \<bar>c\<bar>"] by (simp_all add: cls_def token_class_less)
  have "\<forall>e \<in> set (coef_events bt (pos + 1) (CoefBandsTable ! (pos + 1)) cls (cls = 0) cs). event_ok e"
  proof (rule Cons.IH)
    show "cs \<noteq> [] \<or> pos + 1 < 16 \<longrightarrow> CoefBandsTable ! (pos + 1) < 8 \<and> cls < 3"
    proof
      assume "cs \<noteq> [] \<or> pos + 1 < 16"
      then have "pos + 1 < 16" using Cons.prems(1) by (cases cs) simp_all
      then show "CoefBandsTable ! (pos + 1) < 8 \<and> cls < 3" using band_bound t(2) by blast
    qed
  qed (use Cons.prems in simp_all)
  moreover have "event_ok (bt, band, ctx, coeffAbsToken (nat \<bar>c\<bar>), nat \<bar>c\<bar>, c < 0, skip)"
    using Cons.prems assms(1) t by (simp add: event_ok_def nat_le_iff)
  ultimately show ?case by (simp add: Let_def cls_def)
qed

lemma coef_events_length: "pos + length cs \<le> 16 \<Longrightarrow> length (coef_events bt pos band ctx skip cs) \<le> 16 - pos"
proof (induction cs arbitrary: pos band ctx skip)
  case (Cons c cs)
  have "length (coef_events bt (pos + 1) b x s cs) \<le> 16 - (pos + 1)" for b x s using Cons.prems by (intro Cons.IH) simp
  from this [of "CoefBandsTable ! (pos + 1)" "PrevTokenClass ! coeffAbsToken (nat \<bar>c\<bar>)"
      "PrevTokenClass ! coeffAbsToken (nat \<bar>c\<bar>) = 0"] Cons.prems
  show ?case unfolding coef_events.simps Let_def list.size by simp arith
qed auto

lemma block_events_ok:
  assumes "bt < 4" "n \<le> 1" "ctx < 3" "coded_ok n cs"
  shows "\<forall>e \<in> set (block_events bt ctx n cs). event_ok e" "length (block_events bt ctx n cs) \<le> 16 - n"
proof -
  have "n + length cs \<le> 16" "\<forall>c \<in> set cs. \<bar>c\<bar> \<le> int DCTMaxValue"
    using assms(2,4) by (auto simp: coded_ok_def)
  then show "\<forall>e \<in> set (block_events bt ctx n cs). event_ok e" "length (block_events bt ctx n cs) \<le> 16 - n"
    unfolding block_events_def using assms(1-3) by (intro coef_events_ok coef_events_length; simp)+
qed

lemma plan_events_ok:
  assumes "\<forall>s \<in> set steps. step_ok cs s \<and> fst (snd s) < 4"
  shows "(\<forall>e \<in> set (plan_events cs steps A L). event_ok e) \<and>
    length (plan_events cs steps A L) \<le> (\<Sum>s \<leftarrow> steps. 16 - fst (snd (snd s)))"
  using assms
proof (induction steps arbitrary: A L)
  case (Cons s steps)
  obtain b bt n sa sl where s: "s = (b, bt, n, sa, sl)" by (metis prod_cases5)
  have ok: "bt < 4" "n \<le> 1" "coded_ok n (cs b)" using Cons.prems by (simp_all add: s step_ok_def)
  have "of_bool (A sa) + of_bool (L sl) < (3 :: nat)" by (cases "A sa"; cases "L sl") simp_all
  note B = block_events_ok [OF ok(1,2) this ok(3)]
  have "(\<forall>e \<in> set (plan_events cs steps A' L'). event_ok e) \<and>
      length (plan_events cs steps A' L') \<le> (\<Sum>s \<leftarrow> steps. 16 - fst (snd (snd s)))" for A' L'
    using Cons.prems by (intro Cons.IH) simp
  then show ?case using B by (simp add: s ball_Un add_mono del: fun_upd_apply)
qed simp

lemma mb_plan_types: "\<forall>s \<in> set (mb_plan is4x4). fst (snd s) < 4" "(\<Sum>s \<leftarrow> mb_plan is4x4. 16 - fst (snd (snd s))) = 384"
proof -
  have "list_all (\<lambda>s. fst (snd s) < 4) (mb_plan True)" "list_all (\<lambda>s. fst (snd s) < 4) (mb_plan False)" by code_simp+
  then show "\<forall>s \<in> set (mb_plan is4x4). fst (snd s) < 4" by (cases is4x4) (simp_all add: list_all_iff)
  have "(\<Sum>s \<leftarrow> mb_plan True. 16 - fst (snd (snd s))) = 384" "(\<Sum>s \<leftarrow> mb_plan False. 16 - fst (snd (snd s))) = 384" by code_simp+
  then show "(\<Sum>s \<leftarrow> mb_plan is4x4. 16 - fst (snd (snd s))) = 384" by (cases is4x4) simp_all
qed

text \<open>The tokens of a macroblock in coding order.\<close>

definition mb_events :: "bool \<Rightarrow> MacroblockCoefficients \<Rightarrow> TokenContextPlanes \<Rightarrow> TokenContextPlanes \<Rightarrow> token_event list" where
  "mb_events is4x4 coeffs a l = plan_events (mb_coded is4x4 coeffs) (mb_plan is4x4) (planes_flags a) (planes_flags l)"

lemma mb_events_ok:
  assumes "mb_coeffs_ok is4x4 coeffs"
  shows "\<forall>e \<in> set (mb_events is4x4 coeffs a l). event_ok e" "length (mb_events is4x4 coeffs a l) \<le> 384"
  using plan_events_ok [of "mb_plan is4x4" "mb_coded is4x4 coeffs"] plan_step_ok [OF assms] mb_plan_types [of is4x4]
  unfolding mb_events_def by (metis (no_types, lifting))+

lemma tally_record_fold:
  "foldl (take_event tally_record) (counts, records) es =
    (foldl (take_event tally) counts es, records\<lparr>tr_Records := tr_Records records @ map event_record es\<rparr>)"
  by (induction es arbitrary: counts records)
    (simp_all add: take_event_def tally_record_def tally_def appendTokenUnchecked_def event_record_def split: prod.splits)

lemma macroblock_walks_agree:
  assumes ok: "mb_coeffs_ok is4x4 coeffs" and p: "planes_ok a" "planes_ok l" and shape: "coef_shape probs"
  obtains a' l' where "planes_ok a'" "planes_ok l'"
    "run_state (AccumulateInterMacroblockTokenCountsAndRecords is4x4 a l coeffs) (counts, records) =
      ((None, a', l'), foldl (take_event tally) counts (mb_events is4x4 coeffs a l),
        records\<lparr>tr_Records := tr_Records records @ map event_record (mb_events is4x4 coeffs a l)\<rparr>)"
    "run_state (countCoefficientMacroblockTokens is4x4 a l coeffs) counts =
      ((None, a', l'), foldl (take_event tally) counts (mb_events is4x4 coeffs a l))"
    "writes (writeCoefficientMacroblockTokensWithEOBs probs is4x4 a l coeffs)
      (concat (map (event_bits probs) (mb_events is4x4 coeffs a l))) (None, a', l')"
    "writes (writePreparedCoefficientTokenRecords probs (map event_record (mb_events is4x4 coeffs a l)))
      (concat (map (event_bits probs) (mb_events is4x4 coeffs a l))) None"
proof -
  let ?cs = "mb_coded is4x4 coeffs" and ?es = "mb_events is4x4 coeffs a l"
  let ?flags = "plan_flags ?cs (mb_plan is4x4) (planes_flags a, planes_flags l)"
  obtain a1 l1 where r1: "planes_ok a1" "planes_ok l1" "(planes_flags a1, planes_flags l1) = ?flags"
    "run_state (count_macroblock tally_record is4x4 a l coeffs) (counts, records) = ((None, a1, l1), foldl (take_event tally_record) (counts, records) ?es)"
    using walks_macroblock [OF ok p, of tally_record] unfolding walks_def mb_events_def by blast
  obtain a2 l2 where r2: "planes_ok a2" "planes_ok l2" "(planes_flags a2, planes_flags l2) = ?flags"
    "run_state (count_macroblock tally is4x4 a l coeffs) counts = ((None, a2, l2), foldl (take_event tally) counts ?es)"
    using walks_macroblock [OF ok p, of tally] unfolding walks_def mb_events_def by blast
  obtain a3 l3 where r3: "planes_ok a3" "planes_ok l3" "(planes_flags a3, planes_flags l3) = ?flags"
    "writes (writeCoefficientMacroblockTokensWithEOBs probs is4x4 a l coeffs) (concat (map (event_bits probs) ?es)) (None, a3, l3)"
    using writes_macroblock [OF ok p, of probs] unfolding mb_events_def plan_events_bits by blast
  have same: "a2 = a1" "l2 = l1" "a3 = a1" "l3 = l1"
    using planes_eqI [OF r2(1) r1(1)] planes_eqI [OF r2(2) r1(2)] planes_eqI [OF r3(1) r1(1)] planes_eqI [OF r3(2) r1(2)]
      r1(3) r2(3) r3(3) by (metis prod.inject)+
  show ?thesis
    by (rule that [OF r1(1,2)])
      (use r1(4) r2(4) r3(4) writes_records [OF shape mb_events_ok(1) [OF ok]] in
        \<open>simp_all only: AccumulateInterMacroblockTokenCountsAndRecords_def countCoefficientMacroblockTokens_def same tally_record_fold\<close>)
qed

text \<open>C14: Writing tokens later is writing them now. For coefficients the quantiser produces, the walk that counts a
  macroblock's tokens and stores them as packed records succeeds and leaves the contexts the direct writer leaves; its
  counts are those of the counting walk; it appends at most 384 records, the room \<open>Reset\<close> makes for a macroblock; and the
  record writer, given the appended records and any table of probabilities, ends in the very writer state in which the
  direct writer ends, or fails exactly when that one fails.\<close>

theorem token_records_equivalent:
  assumes "mb_coeffs_ok is4x4 coeffs" "planes_ok abv" "planes_ok left" "coef_shape probs"
    and "run_state (AccumulateInterMacroblockTokenCountsAndRecords is4x4 abv left coeffs) (counts, records) = ((e, abv', left'), counts', records')"
    and "writer_ok w" "w_err w = 0"
    and "run_state (writeCoefficientMacroblockTokensWithEOBs probs is4x4 abv left coeffs) w = (r, direct)"
    and "run_state (writePreparedCoefficientTokenRecords probs (drop (length (tr_Records records)) (tr_Records records'))) w = (e', late)"
  shows "e = None \<and> run_state (countCoefficientMacroblockTokens is4x4 abv left coeffs) counts = ((None, abv', left'), counts') \<and>
    take (length (tr_Records records)) (tr_Records records') = tr_Records records \<and>
    length (tr_Records records') \<le> length (tr_Records records) + MaxCoefficientTokenRecordsPerMacroblock \<and>
    (w_err late = 0 \<longleftrightarrow> w_err direct = 0) \<and>
    (w_err direct = 0 \<longrightarrow> r = (None, abv', left') \<and> e' = None \<and> late = direct)"
proof -
  obtain a1 l1 where r: "run_state (AccumulateInterMacroblockTokenCountsAndRecords is4x4 abv left coeffs) (counts, records) =
      ((None, a1, l1), foldl (take_event tally) counts (mb_events is4x4 coeffs abv left),
        records\<lparr>tr_Records := tr_Records records @ map event_record (mb_events is4x4 coeffs abv left)\<rparr>)"
    "run_state (countCoefficientMacroblockTokens is4x4 abv left coeffs) counts =
      ((None, a1, l1), foldl (take_event tally) counts (mb_events is4x4 coeffs abv left))"
    and w: "writes (writeCoefficientMacroblockTokensWithEOBs probs is4x4 abv left coeffs)
      (concat (map (event_bits probs) (mb_events is4x4 coeffs abv left))) (None, a1, l1)"
    "writes (writePreparedCoefficientTokenRecords probs (map event_record (mb_events is4x4 coeffs abv left)))
      (concat (map (event_bits probs) (mb_events is4x4 coeffs abv left))) None"
    using macroblock_walks_agree [OF assms(1-4)] by metis
  have new: "e = None" "abv' = a1" "left' = l1" "counts' = foldl (take_event tally) counts (mb_events is4x4 coeffs abv left)"
    "tr_Records records' = tr_Records records @ map event_record (mb_events is4x4 coeffs abv left)"
    using assms(5) unfolding r(1) by auto
  note len = mb_events_ok(2) [OF assms(1), of abv left]
  have late: "run_state (writePreparedCoefficientTokenRecords probs (map event_record (mb_events is4x4 coeffs abv left))) w = (e', late)"
    using assms(9) unfolding new(5) by simp
  define out where "out = vp8w.puts w (concat (map (event_bits probs) (mb_events is4x4 coeffs abv left)))"
  have D: "w_err direct = 0 \<longleftrightarrow> w_err out = 0" "w_err direct = 0 \<Longrightarrow> r = (None, a1, l1) \<and> direct = out"
    using w(1) assms(6-8) unfolding writes_def out_def by (metis snd_conv prod.inject)+
  have L: "w_err late = 0 \<longleftrightarrow> w_err out = 0" "w_err late = 0 \<Longrightarrow> e' = None \<and> late = out"
    using w(2) assms(6,7) late unfolding writes_def out_def by (metis snd_conv prod.inject)+
  have "w_err late = 0 \<longleftrightarrow> w_err direct = 0" "w_err direct = 0 \<longrightarrow> r = (None, abv', left') \<and> e' = None \<and> late = direct"
    using D L new(2,3) by blast+
  moreover have "take (length (tr_Records records)) (tr_Records records') = tr_Records records"
    "length (tr_Records records') \<le> length (tr_Records records) + MaxCoefficientTokenRecordsPerMacroblock"
    using len by (simp_all add: new(5) MaxCoefficientTokenRecordsPerMacroblock_def)
  ultimately show ?thesis using r(2) new(1-4) by blast
qed

theorem token_records_equivalent_witness:
  "\<exists>counts' records' r direct. run_state (AccumulateInterMacroblockTokenCountsAndRecords False zero_planes zero_planes sample_coeffs)
      (zero_counts, records_Reset 1 1 \<lparr>tr_Records = [], tr_Rows = 0, tr_rowStarts = [], tr_cap = 0\<rparr>) = (r, counts', records') \<and>
    run_state (writePreparedCoefficientTokenRecords DefaultCoefProbs (tr_Records records')) (Writer_Init (replicate 8000 0)) = (None, direct) \<and>
    snd (run_state (writeCoefficientMacroblockTokensWithEOBs DefaultCoefProbs False zero_planes zero_planes sample_coeffs)
      (Writer_Init (replicate 8000 0))) = direct \<and> w_err direct = 0"
proof -
  define w where "w = Writer_Init (replicate 8000 0)"
  have w: "writer_ok w" "w_err w = 0" by (simp_all add: w_def Init_writer)
  define records where "records = records_Reset 1 1 \<lparr>tr_Records = [], tr_Rows = 0, tr_rowStarts = [], tr_cap = 0\<rparr>"
  have empty: "tr_Records records = []" by (simp add: records_def records_Reset_def Let_def)
  obtain e a l counts' records' where run: "run_state (AccumulateInterMacroblockTokenCountsAndRecords False zero_planes zero_planes sample_coeffs)
      (zero_counts, records) = ((e, a, l), counts', records')" by (metis surj_pair)
  obtain r direct where d: "run_state (writeCoefficientMacroblockTokensWithEOBs DefaultCoefProbs False zero_planes zero_planes sample_coeffs) w
      = (r, direct)" by (metis surj_pair)
  obtain e' late where p: "run_state (writePreparedCoefficientTokenRecords DefaultCoefProbs
      (drop (length (tr_Records records)) (tr_Records records'))) w = (e', late)" by (metis surj_pair)
  have shape: "coef_shape DefaultCoefProbs" by code_simp
  have "w_err (Finish direct) = 0"
    using macroblock_fits [OF sample_coeffs_ok planes_ok_zero planes_ok_zero, of "replicate 8000 0" DefaultCoefProbs] d
    by (simp add: w_def)
  moreover have "writer_ok direct"
    using writes_macroblock [OF sample_coeffs_ok planes_ok_zero planes_ok_zero, of DefaultCoefProbs] w(1) d
    by (metis snd_conv sticky_def writes_sticky)
  ultimately have fine: "w_err direct = 0" using emitsD(2) [OF emits_Finish] vp8w.puts_failed by metis
  from token_records_equivalent [OF sample_coeffs_ok planes_ok_zero planes_ok_zero shape run w d p] fine
  have "e' = None" "late = direct" by blast+
  then show ?thesis using run d p fine unfolding empty records_def [symmetric] w_def [symmetric] by simp
qed

end
