(* ===== verification/Vp8_Coef_Sync.thy ===== *)
theory Vp8_Coef_Sync
  imports Vp8_Coef_Probs Vp8_Record_Codes
begin

text \<open>
  The chosen updates and the tables on both sides: whichever of the three loops chooses the updates, the
  decoder that reads them has the encoder's table. Further, what the loops promise of their savings, of the
  contexts they share and of the branch counts they start from.
\<close>

section \<open>Cells of the nested table\<close>

declare split_paired_All [simp del]

fun cell_index :: "coef_cell \<Rightarrow> nat" where
  "cell_index (b, k, c, n) = ((b * 8 + k) * 3 + c) * 11 + n"

fun cell_ok :: "coef_cell \<Rightarrow> bool" where
  "cell_ok (b, k, c, n) \<longleftrightarrow> b < 4 \<and> k < 8 \<and> c < 3 \<and> n < 11"

lemma concat_update_same:
  assumes "\<forall>x \<in> set xs. length x = m" "i < length xs" "j < m"
  shows "concat (xs[i := (xs ! i)[j := v]]) = (concat xs)[i * m + j := v]"
  using assms
proof (induction xs arbitrary: i)
  case (Cons x xs)
  then show ?case by (cases i) (simp_all add: list_update_append add.assoc)
qed simp

lemma flat_concat: "flat t = concat (concat (concat t))"
  by (induction t) (simp_all add: flat_def concat_concat_map)

lemma shape_levels:
  assumes "coef_shape t"
  shows "length t = 4" "\<forall>b \<in> set t. length b = 8" "\<forall>c \<in> set (concat t). length c = 3"
    "\<forall>n \<in> set (concat (concat t)). length n = 11" "length (concat t) = 32" "length (concat (concat t)) = 96"
proof -
  show l: "length t = 4" "\<forall>b \<in> set t. length b = 8" "\<forall>c \<in> set (concat t). length c = 3"
    "\<forall>n \<in> set (concat (concat t)). length n = 11"
    using assms by (auto simp: coef_shape_def list_all_iff)
  show l2: "length (concat t) = 32" using length_concat_same [OF l(2)] l(1) by simp
  show "length (concat (concat t)) = 96" using length_concat_same [OF l(3)] l2 by simp
qed

lemma cell_index_less: "cell_ok cell \<Longrightarrow> cell_index cell < 1056"
  by (cases cell) simp

lemma cell_levels:
  assumes "coef_shape t" "b < 4" "k < 8" "c < 3"
  shows "concat t ! (b * 8 + k) = t ! b ! k" "concat (concat t) ! ((b * 8 + k) * 3 + c) = t ! b ! k ! c"
proof -
  note L = shape_levels [OF assms(1)]
  show 1: "concat t ! (b * 8 + k) = t ! b ! k" using concat_nth_same [OF L(2)] L(1) assms by simp
  have "b * 8 + k < length (concat t)" using assms L(5) by simp
  then show "concat (concat t) ! ((b * 8 + k) * 3 + c) = t ! b ! k ! c" using concat_nth_same [OF L(3) _ assms(4)] 1 by metis
qed

lemma flat_get:
  assumes "coef_shape t" "cell_ok cell"
  shows "flat t ! cell_index cell = cell_get t cell"
proof -
  obtain b k c n where cell: "cell = (b, k, c, n)" by (metis prod_cases4)
  have r: "b < 4" "k < 8" "c < 3" "n < 11" using assms(2) by (simp_all add: cell)
  note L = shape_levels [OF assms(1)]
  have "(b * 8 + k) * 3 + c < length (concat (concat t))" using r L(6) by simp
  from concat_nth_same [OF L(4) this r(4)] cell_levels(2) [OF assms(1) r(1-3)] show ?thesis
    by (simp only: flat_concat cell cell_index.simps cell_get.simps)
qed

lemma flat_set:
  assumes "coef_shape t" "cell_ok cell"
  shows "flat (cell_set cell v t) = (flat t)[cell_index cell := v]"
proof -
  obtain b k c n where cell: "cell = (b, k, c, n)" by (metis prod_cases4)
  have r: "b < 4" "k < 8" "c < 3" "n < 11" using assms(2) by (simp_all add: cell)
  note L = shape_levels [OF assms(1)]
  have i: "b * 8 + k < length (concat t)" "(b * 8 + k) * 3 + c < length (concat (concat t))" using r L(5,6) by simp_all
  note lev = cell_levels [OF assms(1) r(1-3)]
  have "concat (cell_set cell v t) = (concat t)[b * 8 + k := (t ! b ! k)[c := (t ! b ! k ! c)[n := v]]]"
    unfolding cell cell_set.simps by (rule concat_update_same [OF L(2)]) (use r L(1) in simp_all)
  also have "concat \<dots> = (concat (concat t))[(b * 8 + k) * 3 + c := (t ! b ! k ! c)[n := v]]"
    using concat_update_same [OF L(3) i(1) r(3)] unfolding lev .
  also have "concat \<dots> = (concat (concat (concat t)))[((b * 8 + k) * 3 + c) * 11 + n := v]"
    using concat_update_same [OF L(4) i(2) r(4)] unfolding lev .
  finally show ?thesis by (simp only: flat_concat cell cell_index.simps)
qed

lemma all_set_update: "(\<forall>x \<in> set xs. P x) \<Longrightarrow> P y \<Longrightarrow> \<forall>x \<in> set (xs[i := y]). P x"
  using set_update_subset_insert [of xs i y] by blast

lemma shape_set:
  assumes "coef_shape t" "cell_ok cell"
  shows "coef_shape (cell_set cell v t)"
proof -
  obtain b k c n where cell: "cell = (b, k, c, n)" by (metis prod_cases4)
  have r: "b < 4" "k < 8" "c < 3" "n < 11" using assms(2) by (simp_all add: cell)
  have s: "length t = 4" "\<forall>b \<in> set t. length b = 8 \<and> (\<forall>c \<in> set b. length c = 3 \<and> (\<forall>n \<in> set c. length n = 11))"
    using assms(1) by (auto simp: coef_shape_def list_all_iff)
  have "t ! b \<in> set t" using s(1) r(1) by simp
  then have sb: "length (t ! b) = 8" "\<forall>c \<in> set (t ! b). length c = 3 \<and> (\<forall>n \<in> set c. length n = 11)"
    using s(2) by blast+
  have "t ! b ! k \<in> set (t ! b)" using sb(1) r(2) by simp
  then have sk: "length (t ! b ! k) = 3" "\<forall>n \<in> set (t ! b ! k). length n = 11" using sb(2) by blast+
  have "t ! b ! k ! c \<in> set (t ! b ! k)" using sk(1) r(3) by simp
  then have sc: "length (t ! b ! k ! c) = 11" using sk(2) by blast
  have "\<forall>n \<in> set ((t ! b ! k)[c := (t ! b ! k ! c)[n := v]]). length n = 11"
    by (rule all_set_update) (use sk(2) sc in simp_all)
  then have "\<forall>c \<in> set ((t ! b)[k := (t ! b ! k)[c := (t ! b ! k ! c)[n := v]]]). length c = 3 \<and> (\<forall>n \<in> set c. length n = 11)"
    using sb(2) sk(1) by (intro all_set_update) simp_all
  then have "\<forall>b \<in> set (cell_set cell v t). length b = 8 \<and> (\<forall>c \<in> set b. length c = 3 \<and> (\<forall>n \<in> set c. length n = 11))"
    unfolding cell cell_set.simps using s(2) sb(1) by (intro all_set_update) simp_all
  then show ?thesis using s(1) by (simp add: coef_shape_def list_all_iff cell)
qed

lemma digits_inj:
  assumes "x * m + r = y * m + s" "r < m" "s < (m :: nat)"
  shows "x = y \<and> r = s"
proof -
  have "(x * m + r) div m = x" "(y * m + s) div m = y" using assms(2,3) by simp_all
  then have "x = y" using assms(1) by simp
  then show ?thesis using assms(1) by simp
qed

lemma cell_get_set:
  assumes "coef_shape t" "cell_ok cell" "cell_ok cell'"
  shows "cell_get (cell_set cell v t) cell' = (if cell' = cell then v else cell_get t cell')"
proof -
  have inj: "cell_index cell' = cell_index cell \<longleftrightarrow> cell' = cell"
  proof
    assume e: "cell_index cell' = cell_index cell"
    obtain b k c n where cell: "cell = (b, k, c, n)" by (metis prod_cases4)
    obtain b' k' c' n' where cell': "cell' = (b', k', c', n')" by (metis prod_cases4)
    have r: "k < 8" "c < 3" "n < 11" "k' < 8" "c' < 3" "n' < 11" using assms(2,3) by (simp_all add: cell cell')
    have e: "((b' * 8 + k') * 3 + c') * 11 + n' = ((b * 8 + k) * 3 + c) * 11 + n" using e by (simp only: cell cell' cell_index.simps)
    from digits_inj [OF this r(6,3)] have one: "(b' * 8 + k') * 3 + c' = (b * 8 + k) * 3 + c" "n' = n" by simp_all
    from digits_inj [OF one(1) r(5,2)] have two: "b' * 8 + k' = b * 8 + k" "c' = c" by simp_all
    from digits_inj [OF two(1) r(4,1)] one(2) two(2) show "cell' = cell" by (simp add: cell cell')
  qed simp
  have "cell_get (cell_set cell v t) cell' = (flat t)[cell_index cell := v] ! cell_index cell'"
    using flat_get [OF shape_set [OF assms(1,2)] assms(3), of v] flat_set [OF assms(1,2), of v] by simp
  then show ?thesis
    using inj length_flat [OF assms(1)] cell_index_less [OF assms(2)] flat_get [OF assms(1,3)]
    by (cases "cell' = cell") simp_all
qed

section \<open>Table and updates in step\<close>

definition synced :: "coef_probs \<Rightarrow> coef_update \<Rightarrow> bool" where
  "synced base st \<longleftrightarrow> coef_shape (fst st) \<and> coef_shape (cu_Update (snd st)) \<and> cu_Probs (snd st) = fst st \<and>
     (\<forall>j<1056. if flat (cu_Update (snd st)) ! j then flat (fst st) ! j \<noteq> 0 else flat (fst st) ! j = flat base ! j) \<and>
     cu_UpdateCount (snd st) = int (length (filter id (flat (cu_Update (snd st)))))"

lemma filter_id_update: "i < length xs \<Longrightarrow> \<not> xs ! i \<Longrightarrow> length (filter id (xs[i := True])) = Suc (length (filter id xs))"
proof (induction xs arbitrary: i)
  case (Cons x xs)
  then show ?case by (cases i) auto
qed simp

lemma synced_put:
  assumes "synced base st" "cell_ok cell" "\<not> cell_get (cu_Update (snd st)) cell" "v \<noteq> 0"
  shows "synced base (put_probability cell v st)"
proof -
  have s: "coef_shape (fst st)" "coef_shape (cu_Update (snd st))" "cu_Probs (snd st) = fst st"
    "\<forall>j<1056. if flat (cu_Update (snd st)) ! j then flat (fst st) ! j \<noteq> 0 else flat (fst st) ! j = flat base ! j"
    "cu_UpdateCount (snd st) = int (length (filter id (flat (cu_Update (snd st)))))"
    using assms(1) by (simp_all add: synced_def)
  note ix = cell_index_less [OF assms(2)]
  note flats = flat_set [OF s(1) assms(2)] flat_set [OF s(2) assms(2)]
  note lens = length_flat [OF s(1)] length_flat [OF s(2)]
  have "\<not> flat (cu_Update (snd st)) ! cell_index cell" using assms(3) flat_get [OF s(2) assms(2)] by simp
  then have "length (filter id ((flat (cu_Update (snd st)))[cell_index cell := True])) = Suc (length (filter id (flat (cu_Update (snd st)))))"
    using ix lens(2) by (intro filter_id_update) simp_all
  then have count: "cu_UpdateCount (snd (put_probability cell v st)) = int (length (filter id (flat (cu_Update (snd (put_probability cell v st))))))"
    by (simp add: put_probability_def flats s(5))
  have "\<forall>j<1056. if (flat (cu_Update (snd st)))[cell_index cell := True] ! j then (flat (fst st))[cell_index cell := v] ! j \<noteq> 0
      else (flat (fst st))[cell_index cell := v] ! j = flat base ! j"
  proof (intro allI impI)
    fix j :: nat assume j: "j < 1056"
    show "if (flat (cu_Update (snd st)))[cell_index cell := True] ! j then (flat (fst st))[cell_index cell := v] ! j \<noteq> 0
      else (flat (fst st))[cell_index cell := v] ! j = flat base ! j"
      using s(4) j lens ix assms(4) by (cases "j = cell_index cell") simp_all
  qed
  then show ?thesis
    using count shape_set [OF s(1) assms(2)] shape_set [OF s(2) assms(2)] unfolding synced_def
    by (simp add: put_probability_def flats s(3))
qed

lemma synced_savings: "synced base (add_savings s st) = synced base st"
  by (simp add: synced_def add_savings_def)

text \<open>
  A pass over some cells: on cells not updated yet it keeps table and updates in step, and it leaves all
  other cells alone.
\<close>

definition passes :: "coef_probs \<Rightarrow> coef_cell list \<Rightarrow> coef_update \<Rightarrow> coef_update \<Rightarrow> bool" where
  "passes base cells st st' \<longleftrightarrow> (synced base st \<longrightarrow> (\<forall>cell \<in> set cells. \<not> cell_get (cu_Update (snd st)) cell) \<longrightarrow>
     synced base st' \<and> (\<forall>cell. cell_ok cell \<longrightarrow> cell \<notin> set cells \<longrightarrow>
       cell_get (cu_Update (snd st')) cell = cell_get (cu_Update (snd st)) cell \<and> cell_get (fst st') cell = cell_get (fst st) cell))"

lemma passes_refl: "passes base cells st st"
  by (simp add: passes_def)

lemma passes_put:
  assumes "cell_ok cell" "v \<noteq> 0"
  shows "passes base [cell] st (put_probability cell v st)"
  unfolding passes_def
proof (intro impI)
  assume s: "synced base st" "\<forall>cell \<in> set [cell]. \<not> cell_get (cu_Update (snd st)) cell"
  have sh: "coef_shape (fst st)" "coef_shape (cu_Update (snd st))" using s(1) by (simp_all add: synced_def)
  have "\<forall>cell'. cell_ok cell' \<longrightarrow> cell' \<notin> set [cell] \<longrightarrow>
     cell_get (cu_Update (snd (put_probability cell v st))) cell' = cell_get (cu_Update (snd st)) cell' \<and>
     cell_get (fst (put_probability cell v st)) cell' = cell_get (fst st) cell'"
    using cell_get_set [OF sh(1) assms(1)] cell_get_set [OF sh(2) assms(1)] by (simp add: put_probability_def)
  moreover have "synced base (put_probability cell v st)" using s assms by (intro synced_put) simp_all
  ultimately show "synced base (put_probability cell v st) \<and> (\<forall>cell'. cell_ok cell' \<longrightarrow> cell' \<notin> set [cell] \<longrightarrow>
     cell_get (cu_Update (snd (put_probability cell v st))) cell' = cell_get (cu_Update (snd st)) cell' \<and>
     cell_get (fst (put_probability cell v st)) cell' = cell_get (fst st) cell')" by blast
qed

lemma passes_savings: "passes base cells st st' \<Longrightarrow> passes base cells st (add_savings s st')"
  unfolding passes_def synced_savings by (simp add: add_savings_def)

lemma passes_trans:
  assumes "passes base xs st st'" "passes base ys st' st''" "set xs \<inter> set ys = {}" "\<forall>cell \<in> set ys. cell_ok cell"
  shows "passes base (xs @ ys) st st''"
  unfolding passes_def
proof (intro impI)
  assume s: "synced base st" "\<forall>cell \<in> set (xs @ ys). \<not> cell_get (cu_Update (snd st)) cell"
  have one: "synced base st'" "\<And>cell. cell_ok cell \<Longrightarrow> cell \<notin> set xs \<Longrightarrow>
      cell_get (cu_Update (snd st')) cell = cell_get (cu_Update (snd st)) cell \<and> cell_get (fst st') cell = cell_get (fst st) cell"
    using assms(1) s by (simp_all add: passes_def)
  then have "\<forall>cell \<in> set ys. \<not> cell_get (cu_Update (snd st')) cell" using s(2) assms(3,4) by fastforce
  then have two: "synced base st''" "\<And>cell. cell_ok cell \<Longrightarrow> cell \<notin> set ys \<Longrightarrow>
      cell_get (cu_Update (snd st'')) cell = cell_get (cu_Update (snd st')) cell \<and> cell_get (fst st'') cell = cell_get (fst st') cell"
    using assms(2) one(1) by (simp_all add: passes_def)
  show "synced base st'' \<and> (\<forall>cell. cell_ok cell \<longrightarrow> cell \<notin> set (xs @ ys) \<longrightarrow>
     cell_get (cu_Update (snd st'')) cell = cell_get (cu_Update (snd st)) cell \<and> cell_get (fst st'') cell = cell_get (fst st) cell)"
    using one(2) two by simp
qed

lemma passes_foldl:
  assumes "\<And>st x. x \<in> set xs \<Longrightarrow> passes base (g x) st (f st x)" "distinct (concat (map g xs))" "\<forall>cell \<in> set (concat (map g xs)). cell_ok cell"
  shows "passes base (concat (map g xs)) st (foldl f st xs)"
  using assms
proof (induction xs arbitrary: st)
  case (Cons x xs)
  have "passes base (concat (map g xs)) (f st x) (foldl f (f st x) xs)" using Cons by simp
  then have "passes base (g x @ concat (map g xs)) st (foldl f (f st x) xs)"
    using Cons.prems by (intro passes_trans [where st' = "f st x"]) auto
  then show ?case by simp
qed (simp add: passes_refl)


section \<open>The three loops\<close>

lemma passes_cells:
  assumes "\<And>st x. x \<in> set xs \<Longrightarrow> passes base [h x] st (f st x)" "distinct (map h xs)" "\<forall>x \<in> set xs. cell_ok (h x)"
  shows "passes base (map h xs) st (foldl f st xs)"
proof -
  have "concat (map (\<lambda>x. [h x]) xs) = map h xs" by (induction xs) simp_all
  then show ?thesis using passes_foldl [of xs base "\<lambda>x. [h x]" f st] assms by simp
qed

lemma probability_nonzero: "coefficientProbabilityFromBranchCount ct \<noteq> 0"
proof (cases "fst ct + snd ct \<le> 0")
  case False
  define v where "v = min (max ((fst ct * 256 + drop_bit 1 (fst ct + snd ct)) div (fst ct + snd ct)) 1) 255"
  have "uint (word_of_int v :: byte) = v" by (rule uint_word_small) (simp_all add: v_def)
  moreover have "1 \<le> v" by (simp add: v_def)
  ultimately have "(word_of_int v :: byte) \<noteq> 0" by (metis not_one_le_zero uint_0_eq)
  then show ?thesis using False by (simp add: coefficientProbabilityFromBranchCount_def Let_def v_def)
qed (simp add: coefficientProbabilityFromBranchCount_def)

lemma passes_update_cell: "cell_ok cell \<Longrightarrow> passes base [cell] st (update_cell counts st cell)"
  unfolding update_cell_def Let_def
  by (auto intro!: passes_refl passes_savings passes_put simp: probability_nonzero simp del: cell_ok.simps)

lemma passes_update_shared:
  assumes "cell_ok (b, k, cn)" "sharedNew ! snd cn \<noteq> 0"
  shows "passes base [(b, k, cn)] st (update_shared keyFrame sharedNew nodeSavings b k st cn)"
  unfolding update_shared_def Let_def using assms by (simp add: passes_refl passes_put del: cell_ok.simps)

lemma product_concat: "concat (map (\<lambda>x. map (f x) ys) xs) = map (\<lambda>(x, y). f x y) (List.product xs ys)"
  by (induction xs) simp_all

lemma block_bands_ok: "distinct block_bands" "set block_bands = {(b, k). b < 4 \<and> k < 8}"
  unfolding block_bands_def product_concat
  by (simp_all add: distinct_map distinct_product inj_on_def) auto

lemma ctx_nodes_ok: "distinct ctx_nodes" "set ctx_nodes = {(c, n). c < 3 \<and> n < 11}"
  unfolding ctx_nodes_def product_concat
  by (simp_all add: distinct_map distinct_product inj_on_def) auto

abbreviation band_cells :: "nat \<times> nat \<Rightarrow> coef_cell list" where
  "band_cells bk \<equiv> map (\<lambda>cn. (fst bk, snd bk, cn)) ctx_nodes"

lemma coef_cells_bands: "coef_cells = concat (map band_cells block_bands)"
  unfolding coef_cells_def by (simp add: case_prod_beta' cong: map_cong)

lemma coef_cells_ok: "distinct coef_cells" "\<forall>cell \<in> set coef_cells. cell_ok cell"
proof -
  have eq: "coef_cells = map (\<lambda>(bk, cn). (fst bk, snd bk, cn)) (List.product block_bands ctx_nodes)"
    unfolding coef_cells_bands by (rule product_concat)
  have inj: "inj_on (\<lambda>(bk, cn). (fst bk, snd bk, cn)) (set (List.product block_bands ctx_nodes))"
    by (auto simp: inj_on_def)
  show "distinct coef_cells"
    unfolding eq distinct_map using inj distinct_product [OF block_bands_ok(1) ctx_nodes_ok(1)] by (rule conjI [rotated])
  show "\<forall>cell \<in> set coef_cells. cell_ok cell" unfolding coef_cells_bands by (auto simp: block_bands_ok ctx_nodes_ok)
qed

lemma passes_update_band:
  assumes "bk \<in> set block_bands"
  shows "passes base (band_cells bk) st (update_band keyFrame summed st bk)"
proof -
  obtain b k where bk: "bk = (b, k)" by (cases bk)
  have r: "b < 4" "k < 8" using assms by (simp_all add: bk block_bands_ok)
  define new where "new = map (\<lambda>n. coefficientProbabilityFromBranchCount (summed b k ! n)) [0..<11]"
  have one: "passes base [(b, k, cn)] st (update_shared keyFrame new s b k st cn)" if "cn \<in> set ctx_nodes" for st cn s
    using that r by (intro passes_update_shared) (auto simp: ctx_nodes_ok new_def probability_nonzero simp del: upt_Suc)
  have cells: "distinct (map (\<lambda>cn. (b, k, cn)) ctx_nodes)" "\<forall>cn \<in> set ctx_nodes. cell_ok (b, k, cn)"
    using r by (auto simp: distinct_map inj_on_def ctx_nodes_ok)
  have "passes base (map (\<lambda>cn. (b, k, cn)) ctx_nodes) st (foldl (update_shared keyFrame new s b k) st ctx_nodes)" for st s
    by (rule passes_cells [OF one cells])
  then show ?thesis unfolding update_band_def bk prod.case Let_def new_def [symmetric] fst_conv snd_conv by (intro passes_savings)
qed

lemma synced_start: "coef_shape base \<Longrightarrow> synced base (base, no_updates base)"
proof -
  assume b: "coef_shape base"
  have "coef_shape (cu_Update (no_updates base))" by (simp add: no_updates_def coef_shape_def list_all_iff)
  moreover have "flat (cu_Update (no_updates base)) = replicate 1056 False"
    by (simp add: no_updates_def flat_def) code_simp
  ultimately show ?thesis using b by (simp add: synced_def no_updates_def)
qed

lemma start_fresh: "cell_ok cell \<Longrightarrow> \<not> cell_get (cu_Update (snd (base, no_updates base))) cell"
  by (cases cell) (simp add: no_updates_def)

text \<open>The updates of a frame, chosen by any of the loops.\<close>

definition chosen_updates :: "coef_probs \<Rightarrow> coef_update \<Rightarrow> bool" where
  "chosen_updates base st \<longleftrightarrow> (\<exists>counts. st = coefficientProbabilityUpdatesFromTokenCounts base counts) \<or>
     (\<exists>counts keyFrame. st = coefficientProbabilityUpdatesFromTokenCountsIndependent base counts keyFrame) \<or>
     (\<exists>counts keyFrame. st = coefficientProbabilityUpdatesFromCountsIndependent base counts keyFrame)"

lemma chosen_synced:
  assumes "coef_shape base" "chosen_updates base st"
  shows "synced base st"
proof -
  have "passes base coef_cells st (foldl (update_cell counts) st coef_cells)" for st counts
    using passes_cells [of coef_cells base "\<lambda>c. c" "update_cell counts" st] passes_update_cell coef_cells_ok by simp
  moreover have "passes base coef_cells st (foldl (update_band keyFrame summed) st block_bands)" for st keyFrame summed
    unfolding coef_cells_bands
    by (rule passes_foldl [OF passes_update_band]) (use coef_cells_ok [unfolded coef_cells_bands] in blast)+
  ultimately have "passes base coef_cells (base, no_updates base) st"
    using assms(2) unfolding chosen_updates_def coefficientProbabilityUpdatesFromTokenCounts_def
      coefficientProbabilityUpdatesFromTokenCountsIndependent_def coefficientProbabilityUpdatesFromCountsIndependent_def by blast
  then show ?thesis
    unfolding passes_def using synced_start [OF assms(1)] start_fresh coef_cells_ok(2) by blast
qed

lemma synced_sent:
  assumes "synced base (frameProbs, updates)" "coef_shape base"
  shows "fst (coef_sent updates (Some (flat base))) = Some (flat frameProbs)"
    "int (ph_UpdateCount (snd (coef_sent updates (Some (flat base))))) = cu_UpdateCount updates"
    "coefs_ok updates"
proof -
  have s: "coef_shape frameProbs" "coef_shape (cu_Update updates)" "cu_Probs updates = frameProbs"
    "\<And>j. j < 1056 \<Longrightarrow> flat (cu_Update updates) ! j \<Longrightarrow> flat frameProbs ! j \<noteq> 0"
    "\<And>j. j < 1056 \<Longrightarrow> \<not> flat (cu_Update updates) ! j \<Longrightarrow> flat frameProbs ! j = flat base ! j"
    "cu_UpdateCount updates = int (length (filter id (flat (cu_Update updates))))"
    using assms(1) by (auto simp: synced_def split: if_split_asm)
  have "map (\<lambda>j. if flat (cu_Update updates) ! j then flat frameProbs ! j else flat base ! j) [0..<1056] = flat frameProbs"
    by (rule nth_equalityI) (use length_flat [OF s(1)] s(5) in \<open>simp_all del: upt_Suc\<close>)
  then show "fst (coef_sent updates (Some (flat base))) = Some (flat frameProbs)"
    unfolding coef_sent_def s(3) by (simp del: upt_Suc)
  show "int (ph_UpdateCount (snd (coef_sent updates (Some (flat base))))) = cu_UpdateCount updates"
    by (simp add: coef_sent_def s(6))
  show "coefs_ok updates" unfolding coefs_ok_def s(3) using s(1,2,4) by blast
qed


end
