(* ===== verification/Vp8_Coef_Laws.thy ===== *)
theory Vp8_Coef_Laws
  imports Vp8_Coef_Sync Vp8_Header_Budget
begin

text \<open>
  What the choice of coefficient probabilities promises: the decoder's table is the encoder's, independent
  contexts share their probabilities, branch counts follow the token tree and are linear, and the savings of
  the updates are the estimated ones.
\<close>

section \<open>Contexts that share their probabilities\<close>

text \<open>What a loop step makes of a cell of its own is what the loop makes of it.\<close>

abbreviation fresh_cells :: "coef_cell list \<Rightarrow> coef_update \<Rightarrow> bool" where
  "fresh_cells cells st \<equiv> \<forall>cell \<in> set cells. \<not> cell_get (cu_Update (snd st)) cell"

lemma passesD:
  assumes "passes base cells st st'" "synced base st" "fresh_cells cells st"
  shows "synced base st'" "cell_ok cell \<Longrightarrow> cell \<notin> set cells \<Longrightarrow> cell_get (cu_Update (snd st')) cell = cell_get (cu_Update (snd st)) cell"
    "cell_ok cell \<Longrightarrow> cell \<notin> set cells \<Longrightarrow> cell_get (fst st') cell = cell_get (fst st) cell"
  using assms unfolding passes_def by blast+

lemma fold_visit:
  assumes step: "\<And>st y. y \<in> set xs \<Longrightarrow> passes base (g y) st (f st y)"
    and cells: "distinct (concat (map g xs))" "\<forall>cell \<in> set (concat (map g xs)). cell_ok cell"
    and st: "synced base st" "fresh_cells (concat (map g xs)) st"
    and x: "x \<in> set xs" "cell \<in> set (g x)"
    and visit: "\<And>st. synced base st \<Longrightarrow> fresh_cells (g x) st \<Longrightarrow> cell_get (fst (f st x)) cell = v"
  shows "cell_get (fst (foldl f st xs)) cell = v"
proof -
  obtain as bs where xs: "xs = as @ x # bs" using split_list [OF x(1)] by blast
  define st1 where "st1 = foldl f st as"
  define st2 where "st2 = f st1 x"
  have cs: "concat (map g xs) = concat (map g as) @ g x @ concat (map g bs)" by (simp add: xs)
  have d: "distinct (concat (map g as))" "distinct (concat (map g bs))" "distinct (concat (map g (as @ [x])))"
    "set (g x) \<inter> set (concat (map g as)) = {}" "set (concat (map g bs)) \<inter> set (concat (map g (as @ [x]))) = {}"
    "set (g x) \<inter> set (concat (map g bs)) = {}"
    using cells(1) unfolding cs distinct_append by (auto simp del: set_concat)
  have ok: "\<forall>cell \<in> set (concat (map g as)). cell_ok cell" "\<forall>cell \<in> set (concat (map g bs)). cell_ok cell"
    "\<forall>cell \<in> set (concat (map g (as @ [x]))). cell_ok cell" "\<forall>cell \<in> set (g x). cell_ok cell"
    using cells(2) unfolding cs by (auto simp del: set_concat)
  have fr: "fresh_cells (concat (map g as)) st" "fresh_cells (concat (map g bs)) st" "fresh_cells (g x) st"
    "fresh_cells (concat (map g (as @ [x]))) st"
    using st(2) unfolding cs by (auto simp del: set_concat)
  have p1: "passes base (concat (map g as)) st st1"
    unfolding st1_def by (rule passes_foldl [OF step d(1) ok(1)]) (simp add: xs)
  have "passes base (concat (map g (as @ [x]))) st (foldl f st (as @ [x]))"
    by (rule passes_foldl [OF step d(3) ok(3)]) (auto simp: xs)
  then have p2: "passes base (concat (map g (as @ [x]))) st st2" by (simp add: st1_def st2_def)
  have p3: "passes base (concat (map g bs)) st2 (foldl f st2 bs)"
    by (rule passes_foldl [OF step d(2) ok(2)]) (simp add: xs)
  have "fresh_cells (g x) st1" using passesD(2) [OF p1 st(1) fr(1)] d(4) ok(4) fr(3) by blast
  then have v: "cell_get (fst st2) cell = v" unfolding st2_def using passesD(1) [OF p1 st(1) fr(1)] by (intro visit)
  have "fresh_cells (concat (map g bs)) st2" using passesD(2) [OF p2 st(1) fr(4)] d(5) ok(2) fr(2) by blast
  from passesD(3) [OF p3 passesD(1) [OF p2 st(1) fr(4)] this] x(2) d(6) ok(4) v
  have "cell_get (fst (foldl f st2 bs)) cell = v" by blast
  then show ?thesis by (simp add: xs st1_def st2_def)
qed

lemma update_shared_cell:
  assumes "synced base st" "cell_ok (b, k, cn)"
  shows "cell_get (fst (update_shared True new s b k st cn)) (b, k, cn) = new ! snd cn"
proof -
  have "coef_shape (fst st)" using assms(1) by (simp add: synced_def)
  note g = cell_get_set [OF this assms(2,2)]
  show ?thesis
  proof (cases "new ! snd cn = cell_get (fst st) (b, k, cn)")
    case True
    then show ?thesis using g by (simp add: update_shared_def put_probability_def Let_def del: cell_get.simps cell_ok.simps cell_set.simps)
  next
    case False
    then show ?thesis using g by (simp add: update_shared_def put_probability_def Let_def del: cell_get.simps cell_ok.simps cell_set.simps)
  qed
qed

lemma band_shared:
  assumes "(b, k) \<in> set block_bands" "c < 3" "n < 11" "synced base st" "fresh_cells (band_cells (b, k)) st"
  shows "cell_get (fst (update_band True summed st (b, k))) (b, k, c, n) = coefficientProbabilityFromBranchCount (summed b k ! n)"
proof -
  define new where "new = map (\<lambda>n. coefficientProbabilityFromBranchCount (summed b k ! n)) [0..<11]"
  have r: "b < 4" "k < 8" using assms(1) by (simp_all add: block_bands_ok)
  have cells: "concat (map (\<lambda>cn. [(b, k, cn)]) ctx_nodes) = band_cells (b, k)" by (simp add: concat_map_singleton)
  have d: "distinct (concat (map (\<lambda>cn. [(b, k, cn)]) ctx_nodes))" "\<forall>cell \<in> set (concat (map (\<lambda>cn. [(b, k, cn)]) ctx_nodes)). cell_ok cell"
    unfolding cells using r by (auto simp: distinct_map inj_on_def ctx_nodes_ok)
  have fr: "fresh_cells (concat (map (\<lambda>cn. [(b, k, cn)]) ctx_nodes)) st" unfolding cells using assms(5) .
  have cn: "(c, n) \<in> set ctx_nodes" "(b, k, c, n) \<in> set [(b, k, c, n)]" "cell_ok (b, k, c, n)"
    using r assms(2,3) by (simp_all add: ctx_nodes_ok)
  have step: "passes base [(b, k, cn)] st (update_shared True new s b k st cn)" if "cn \<in> set ctx_nodes" for st cn s
    using that r by (intro passes_update_shared) (auto simp: ctx_nodes_ok new_def probability_nonzero simp del: upt_Suc)
  have "cell_get (fst (foldl (update_shared True new s b k) st ctx_nodes)) (b, k, c, n) = new ! snd (c, n)" for s
    by (rule fold_visit [where g = "\<lambda>cn. [(b, k, cn)]", OF step d assms(4) fr cn(1,2)], assumption)
      (rule update_shared_cell [OF _ cn(3)], assumption)
  then show ?thesis
    using assms(3) unfolding update_band_def prod.case Let_def new_def [symmetric] by (simp add: add_savings_def new_def del: upt_Suc)
qed

lemma bands_shared:
  assumes "coef_shape base" "b < 4" "k < 8" "c < 3" "n < 11"
  shows "cell_get (fst (foldl (update_band True summed) (base, no_updates base) block_bands)) (b, k, c, n)
    = coefficientProbabilityFromBranchCount (summed b k ! n)"
proof -
  note ok = coef_cells_ok [unfolded coef_cells_bands]
  have fr: "fresh_cells (concat (map band_cells block_bands)) (base, no_updates base)" using start_fresh ok(2) by blast
  have bk: "(b, k) \<in> set block_bands" "(b, k, c, n) \<in> set (band_cells (b, k))"
    using assms(2-5) by (auto simp: block_bands_ok ctx_nodes_ok)
  show ?thesis
    by (rule fold_visit [where g = band_cells, OF passes_update_band ok synced_start [OF assms(1)] fr bk], assumption)
      (rule band_shared [OF bk(1) assms(4,5)], assumption+)
qed

text \<open>C16: Independent partitions. On a key frame with independent contexts every context of a block type and band gets the
  same probability for a node, the one fitted to the branch counts summed over the contexts, from token counts as well as
  from branch counts and whatever the base table was: a decoder that lost the neighbours decodes with the right table.\<close>

theorem independent_contexts_share:
  assumes "coef_shape base" "b < BlockTypes" "k < CoefBands" "c < PrevCoefContexts" "n < EntropyNodes"
  shows "fst (coefficientProbabilityUpdatesFromTokenCountsIndependent base counts True) ! b ! k ! c ! n
      = coefficientProbabilityFromBranchCount (summed_tokens counts b k ! n) \<and>
    fst (coefficientProbabilityUpdatesFromCountsIndependent base branches True) ! b ! k ! c ! n
      = coefficientProbabilityFromBranchCount (summed_branches branches b k ! n)"
  using bands_shared [OF assms]
  by (simp only: coefficientProbabilityUpdatesFromTokenCountsIndependent_def coefficientProbabilityUpdatesFromCountsIndependent_def cell_get.simps simp_thms)

lemma default_counts_cell: "summed_branches defaultKeyFrameIndependentCoefficientBranchCountsForUpdate 0 1 ! 0 = (4336684, 131636)"
  by code_simp

theorem independent_contexts_share_witness:
  "fst (coefficientProbabilityUpdatesFromCountsIndependent DefaultCoefProbs
     defaultKeyFrameIndependentCoefficientBranchCountsForUpdate True) ! 0 ! 1 ! 2 ! 0 = 248"
proof -
  have "coef_shape DefaultCoefProbs" by code_simp
  from independent_contexts_share [OF this, of 0 1 2 0 _ defaultKeyFrameIndependentCoefficientBranchCountsForUpdate]
  have "fst (coefficientProbabilityUpdatesFromCountsIndependent DefaultCoefProbs
      defaultKeyFrameIndependentCoefficientBranchCountsForUpdate True) ! 0 ! 1 ! 2 ! 0 = coefficientProbabilityFromBranchCount (4336684, 131636)"
    unfolding default_counts_cell by simp
  moreover have "coefficientProbabilityFromBranchCount (4336684, 131636) = 248" by code_simp
  ultimately show ?thesis by (simp only:)
qed

section \<open>Encoder and decoder\<close>

text \<open>C10: Encoder and decoder agree on the coefficient probabilities. Whichever loop chooses a frame's updates over a
  base table (from token counts, from token counts summed over the contexts, or from branch counts summed over the
  contexts), writing the updates and finishing without error means that the decoder, starting from the same base table,
  reads exactly the table the encoder codes the frame's tokens with and as many updates as the encoder counted, and does
  not run past the end of the data.\<close>

theorem coefficient_updates_sync:
  assumes "coef_shape base" "chosen_updates base (frameProbs, updates)"
    and "run_state (WriteCoefficientProbabilityUpdates updates) (Writer_Init dst) = (e, w)" "w_err (Finish w) = 0"
  shows "e = None \<and> (\<exists>header d. run_state (parseCoefficientProbabilityHeaderInto (Some (flat base))) (Decoder_Init (Bytes (Finish w) @ tail))
      = ((Some (flat frameProbs), header), d) \<and> int (ph_UpdateCount header) = cu_UpdateCount updates \<and> Decoder_Err d = None)"
proof -
  note s = synced_sent [OF chosen_synced [OF assms(1,2)] assms(1)]
  have len: "\<forall>t. Some (flat base) = Some t \<longrightarrow> length t = 1056" using length_flat [OF assms(1)] by simp
  have c: "codes (WriteCoefficientProbabilityUpdates updates) (parseCoefficientProbabilityHeaderInto (Some (flat base))) None
      (coef_sent updates (Some (flat base)))"
    using s(3) unfolding coefs_ok_def by (intro codes_coefficients len) blast+
  have fin: "w_err (Finish (snd (run_state (WriteCoefficientProbabilityUpdates updates) (Writer_Init dst)))) = 0"
    using assms(3,4) by simp
  obtain d where d: "run_state (parseCoefficientProbabilityHeaderInto (Some (flat base))) (Decoder_Init (Bytes (Finish w) @ tail))
      = (coef_sent updates (Some (flat base)), d)" "Decoder_Err d = None"
    using codes_message(1) [OF c fin, of tail] assms(3) by auto
  have "coef_sent updates (Some (flat base)) = (Some (flat frameProbs), snd (coef_sent updates (Some (flat base))))"
    using s(1) by (metis prod.collapse)
  then show ?thesis using d s(2) codes_message(2) [OF c fin] assms(3) by (metis fst_conv)
qed

theorem coefficient_updates_sync_witness:
  "\<exists>w header d. run_state (WriteCoefficientProbabilityUpdates (snd (coefficientProbabilityUpdatesFromCountsIndependent DefaultCoefProbs
      defaultKeyFrameIndependentCoefficientBranchCountsForUpdate True))) (Writer_Init (replicate 10000 0)) = (None, w) \<and>
    run_state (parseCoefficientProbabilityHeaderInto (Some (flat DefaultCoefProbs))) (Decoder_Init (Bytes (Finish w) @ [9]))
      = ((Some (flat (fst (coefficientProbabilityUpdatesFromCountsIndependent DefaultCoefProbs
        defaultKeyFrameIndependentCoefficientBranchCountsForUpdate True))), header), d) \<and> Decoder_Err d = None"
proof -
  define st where "st = coefficientProbabilityUpdatesFromCountsIndependent DefaultCoefProbs
      defaultKeyFrameIndependentCoefficientBranchCountsForUpdate True"
  have shape: "coef_shape DefaultCoefProbs" by code_simp
  have c: "chosen_updates DefaultCoefProbs (fst st, snd st)" unfolding prod.collapse st_def chosen_updates_def by blast
  have "coefs_ok (snd st)" using synced_sent(3) [OF chosen_synced [OF shape c] shape] .
  then have "w_err (Finish (snd (run_state (WriteCoefficientProbabilityUpdates (snd st)) (Writer_Init (replicate 10000 0))))) = 0"
    unfolding coefs_ok_def by (intro spends_fit [OF spends_coefficients]) simp_all
  moreover obtain e w where run: "run_state (WriteCoefficientProbabilityUpdates (snd st)) (Writer_Init (replicate 10000 0)) = (e, w)"
    by (metis surj_pair)
  ultimately have "w_err (Finish w) = 0" by simp
  from coefficient_updates_sync [OF shape c run this, of "[9]"] run show ?thesis unfolding st_def [symmetric] by blast
qed

section \<open>Branch counts\<close>

text \<open>C31: The branch counts are those of the token tree: for every node, the count of the zero and of the one branch is the
  sum, over the tokens, of the token's count times the number of times its path takes that branch.\<close>

theorem branch_counts_follow_tree:
  assumes "n < EntropyNodes"
  shows "coefficientBranchCountsFromTokenCounts tokens ! n =
    (\<Sum>t \<leftarrow> [0..<MaxEntropyTokens]. tokens ! t * int (count_list (coefficientTokenBranchPaths ! t) (n, False)),
     \<Sum>t \<leftarrow> [0..<MaxEntropyTokens]. tokens ! t * int (count_list (coefficientTokenBranchPaths ! t) (n, True)))"
proof -
  have u: "[0..<12] = [0, 1, 2, 3, 4, 5, 6, 7, 8, 9, 10, 11 :: nat]" by code_simp
  have "n \<in> set [0..<11]" using assms by simp
  moreover have "[0..<11] = [0, 1, 2, 3, 4, 5, 6, 7, 8, 9, 10 :: nat]" by code_simp
  ultimately consider "n = 0" | "n = 1" | "n = 2" | "n = 3" | "n = 4" | "n = 5" | "n = 6" | "n = 7" | "n = 8" | "n = 9" | "n = 10"
    by (simp only: list.set insert_iff empty_iff) blast
  then show ?thesis
    unfolding u branch_paths coefficientBranchCountsFromTokenCounts_def by cases simp_all
qed

theorem branch_counts_follow_tree_witness:
  "fst (coefficientBranchCountsFromTokenCounts [7, 1, 2, 3, 0, 0, 4, 0, 0, 0, 5, 9] ! 6)
    = (\<Sum>t \<leftarrow> [0..<12]. [7, 1, 2, 3, 0, 0, 4, 0, 0, 0, 5, 9] ! t * int (count_list (coefficientTokenBranchPaths ! t) (6, False)))"
  using branch_counts_follow_tree [of 6 "[7, 1, 2, 3, 0, 0, 4, 0, 0, 0, 5, 9]"] by simp

text \<open>Summing before or after the tree.\<close>

definition token_shape :: "token_counts \<Rightarrow> bool" where
  "token_shape counts \<longleftrightarrow> length counts = 4 \<and> list_all (\<lambda>b. length b = 8 \<and> list_all (\<lambda>k. length k = 3 \<and>
     list_all (\<lambda>c. length c = MaxEntropyTokens) k) b) counts"

definition branches_of :: "token_counts \<Rightarrow> branch_counts" where
  "branches_of counts = map (map (map coefficientBranchCountsFromTokenCounts)) counts"

lemma summed_linear:
  assumes "token_shape counts" "b < 4" "k < 8"
  shows "summed_tokens counts b k = summed_branches (branches_of counts) b k"
proof -
  have b: "counts ! b \<in> set counts" using assms by (simp add: token_shape_def)
  then have k: "length (counts ! b) = 8" "counts ! b ! k \<in> set (counts ! b)" using assms by (auto simp: token_shape_def list_all_iff)
  then have c: "length (counts ! b ! k) = 3" using assms(1) b by (auto simp: token_shape_def list_all_iff)
  have u: "[0..<3] = [0, 1, 2 :: nat]" "[0..<11] = [0, 1, 2, 3, 4, 5, 6, 7, 8, 9, 10 :: nat]"
    "[0..<12] = [0, 1, 2, 3, 4, 5, 6, 7, 8, 9, 10, 11 :: nat]" by code_simp+
  have br: "branches_of counts ! b ! k ! x = coefficientBranchCountsFromTokenCounts (counts ! b ! k ! x)" if "x < 3" for x
    using that assms(1,2,3) k(1) c by (simp add: branches_of_def token_shape_def)
  have n: "branches_of counts ! b ! k ! 0 = coefficientBranchCountsFromTokenCounts (counts ! b ! k ! 0)"
    "branches_of counts ! b ! k ! 1 = coefficientBranchCountsFromTokenCounts (counts ! b ! k ! 1)"
    "branches_of counts ! b ! k ! 2 = coefficientBranchCountsFromTokenCounts (counts ! b ! k ! 2)"
    by (rule br; simp)+
  show ?thesis
    unfolding summed_tokens_def summed_branches_def u list.map sum_list.Cons sum_list.Nil n
    unfolding coefficientBranchCountsFromTokenCounts_def by simp
qed

lemma foldl_cong_on: "(\<And>st x. x \<in> set xs \<Longrightarrow> f st x = g st x) \<Longrightarrow> foldl f st xs = foldl g st xs"
  by (induction xs arbitrary: st) simp_all

text \<open>C30: Branch counts are linear in the token counts: choosing the shared updates from token counts summed over the
  contexts, and from the branch counts of each context summed afterwards, gives the same table and the same updates, and
  the estimates of the savings agree as well.\<close>

theorem independent_updates_linear:
  assumes "token_shape counts"
  shows "coefficientProbabilityUpdatesFromTokenCountsIndependent base counts keyFrame
      = coefficientProbabilityUpdatesFromCountsIndependent base (branches_of counts) keyFrame \<and>
    coefficientEntropySavingsFromTokenCountsIndependent base counts keyFrame
      = coefficientEntropySavingsFromCountsIndependent base (branches_of counts) keyFrame"
proof
  note lin = summed_linear [OF assms]
  show "coefficientProbabilityUpdatesFromTokenCountsIndependent base counts keyFrame
      = coefficientProbabilityUpdatesFromCountsIndependent base (branches_of counts) keyFrame"
    unfolding coefficientProbabilityUpdatesFromTokenCountsIndependent_def coefficientProbabilityUpdatesFromCountsIndependent_def
    by (rule foldl_cong_on) (auto simp: block_bands_ok update_band_def lin)
  show "coefficientEntropySavingsFromTokenCountsIndependent base counts keyFrame
      = coefficientEntropySavingsFromCountsIndependent base (branches_of counts) keyFrame"
    unfolding coefficientEntropySavingsFromTokenCountsIndependent_def coefficientEntropySavingsFromCountsIndependent_def independent_savings_def
    by (rule foldl_cong_on) (auto simp: block_bands_ok lin)
qed

theorem independent_updates_linear_witness:
  "coefficientProbabilityUpdatesFromTokenCountsIndependent DefaultCoefProbs (count_token 0 1 2 11 zero_counts) True
    = coefficientProbabilityUpdatesFromCountsIndependent DefaultCoefProbs (branches_of (count_token 0 1 2 11 zero_counts)) True"
proof -
  have "token_shape (count_token 0 1 2 11 zero_counts)" by code_simp
  from independent_updates_linear [OF this] show ?thesis by blast
qed

section \<open>Savings\<close>

lemma savings_fold:
  assumes "coef_shape base" "synced base st" "distinct cells" "\<forall>cell \<in> set cells. cell_ok cell" "fresh_cells cells st"
    and "\<forall>cell \<in> set cells. cell_get (fst st) cell = cell_get base cell"
  shows "cu_SavingsBits (snd (foldl (update_cell counts) st cells)) =
    foldl (\<lambda>savings cell.
       let ct = cell_branches counts cell; total = fst ct + snd ct
       in if total = 0 then savings
          else
            let newProb = coefficientProbabilityFromBranchCount ct; oldProb = cell_get base cell
            in if newProb = oldProb then savings
               else
                 let s = coefficientProbabilityUpdateSavings ct oldProb newProb (cell_get CoefUpdateProbs cell)
                 in if s > 0 then savings + s else savings) (cu_SavingsBits (snd st)) cells"
  using assms(2-6)
proof (induction cells arbitrary: st)
  case (Cons cell cells)
  have ok: "cell_ok cell" "\<forall>c \<in> set cells. cell_ok c" using Cons.prems(3) by simp_all
  have p: "passes base [cell] st (update_cell counts st cell)" by (rule passes_update_cell [OF ok(1)])
  have fr: "fresh_cells [cell] st" using Cons.prems(4) by simp
  note P = passesD [OF p Cons.prems(1) fr]
  have other: "c \<notin> set [cell]" if "c \<in> set cells" for c using that Cons.prems(2) by auto
  have "fresh_cells cells (update_cell counts st cell)" "\<forall>c \<in> set cells. cell_get (fst (update_cell counts st cell)) c = cell_get base c"
    using P(2,3) other ok(2) Cons.prems(4,5) by (metis list.set_intros(2))+
  note ih = Cons.IH [OF P(1) _ ok(2) this]
  have here: "cell_get (fst st) cell = cell_get base cell" using Cons.prems(5) by simp
  have "cu_SavingsBits (snd (update_cell counts st cell)) =
      (let ct = cell_branches counts cell; total = fst ct + snd ct
       in if total = 0 then cu_SavingsBits (snd st)
          else
            let newProb = coefficientProbabilityFromBranchCount ct; oldProb = cell_get base cell
            in if newProb = oldProb then cu_SavingsBits (snd st)
               else
                 let s = coefficientProbabilityUpdateSavings ct oldProb newProb (cell_get CoefUpdateProbs cell)
                 in if s > 0 then cu_SavingsBits (snd st) + s else cu_SavingsBits (snd st))"
    unfolding update_cell_def here Let_def by (simp add: add_savings_def put_probability_def)
  then show ?case using ih Cons.prems(2) by (simp only: foldl_Cons distinct.simps)
qed simp

lemma shared_keeps_savings: "cu_SavingsBits (snd (foldl (update_shared keyFrame new s b k) st cns)) = cu_SavingsBits (snd st)"
  by (induction cns arbitrary: st) (simp_all add: update_shared_def put_probability_def Let_def)

lemma node_savings_inter: "node_savings False summed base b k n = band_savings summed base b k n"
  by (simp add: node_savings_def band_savings_def Let_def)

lemma foldl_add_if: "foldl (\<lambda>a n. let x = f n in if P x then a + x else a) z ns = z + (\<Sum>n \<leftarrow> ns. if P (f n) then f n else (0 :: int))"
  by (induction ns arbitrary: z) (simp_all add: Let_def)

text \<open>What the updates of a frame are charged with, and what the estimate leaves out on key frames.\<close>

definition charged_savings :: "bool \<Rightarrow> (nat \<Rightarrow> nat \<Rightarrow> branch_count list) \<Rightarrow> coef_probs \<Rightarrow> (nat \<times> nat) list \<Rightarrow> int" where
  "charged_savings keyFrame summed base bks =
     (\<Sum>(b, k) \<leftarrow> bks. \<Sum>n \<leftarrow> [0..<EntropyNodes].
        if band_savings (summed b k) base b k n > 0 \<or> keyFrame then band_savings (summed b k) base b k n else 0)"

definition unchanged_savings :: "(nat \<Rightarrow> nat \<Rightarrow> branch_count list) \<Rightarrow> coef_probs \<Rightarrow> int" where
  "unchanged_savings summed base =
     (\<Sum>(b, k) \<leftarrow> block_bands. \<Sum>n \<leftarrow> [0..<EntropyNodes]. \<Sum>c \<leftarrow> [0..<PrevCoefContexts].
        if cell_get base (b, k, c, n) = coefficientProbabilityFromBranchCount (summed b k ! n)
        then coefficientProbabilityUpdateSavings (summed b k ! n) (cell_get base (b, k, c, n)) (cell_get base (b, k, c, n))
          (cell_get CoefUpdateProbs (b, k, c, n))
        else 0)"

lemma band_savings_fold:
  assumes "synced base st" "distinct bks" "set bks \<subseteq> set block_bands" "fresh_cells (concat (map band_cells bks)) st"
    and "\<forall>cell \<in> set (concat (map band_cells bks)). cell_get (fst st) cell = cell_get base cell"
  shows "cu_SavingsBits (snd (foldl (update_band keyFrame summed) st bks)) = cu_SavingsBits (snd st) + charged_savings keyFrame summed base bks"
  using assms
proof (induction bks arbitrary: st)
  case (Cons bk bks)
  obtain b k where bk: "bk = (b, k)" by (cases bk)
  have mem: "bk \<in> set block_bands" "set bks \<subseteq> set block_bands" "distinct bks" "bk \<notin> set bks" using Cons.prems(2,3) by simp_all
  have r: "b < 4" "k < 8" using mem(1) by (simp_all add: bk block_bands_ok)
  have fr: "fresh_cells (band_cells bk) st" using Cons.prems(4) by simp
  note P = passesD [OF passes_update_band [OF mem(1), of base st keyFrame summed] Cons.prems(1) fr]
  have other: "cell_ok cell \<and> cell \<notin> set (band_cells bk)" if "cell \<in> set (concat (map band_cells bks))" for cell
    using that mem by (auto simp: block_bands_ok ctx_nodes_ok)
  have rest: "fresh_cells (concat (map band_cells bks)) st" "\<forall>cell \<in> set (concat (map band_cells bks)). cell_get (fst st) cell = cell_get base cell"
    using Cons.prems(4,5) by (simp_all del: set_concat add: ball_Un)
  have away: "\<not> cell_get (cu_Update (snd (update_band keyFrame summed st bk))) cell \<and>
      cell_get (fst (update_band keyFrame summed st bk)) cell = cell_get base cell" if "cell \<in> set (concat (map band_cells bks))" for cell
  proof -
    from other [OF that] have oc: "cell_ok cell" "cell \<notin> set (band_cells bk)" by simp_all
    from rest that have "\<not> cell_get (cu_Update (snd st)) cell" "cell_get (fst st) cell = cell_get base cell" by blast+
    then show ?thesis by (simp only: P(2) [OF oc] P(3) [OF oc] simp_thms)
  qed
  have "fresh_cells (concat (map band_cells bks)) (update_band keyFrame summed st bk)"
    "\<forall>cell \<in> set (concat (map band_cells bks)). cell_get (fst (update_band keyFrame summed st bk)) cell = cell_get base cell"
    using away by blast+
  note ih = Cons.IH [OF P(1) mem(3,2) this]
  have "cell_get (fst st) (b, k, c, n) = cell_get base (b, k, c, n)" if "c < 3" "n < 11" for c n
  proof -
    have "(b, k, c, n) \<in> set (concat (map band_cells (bk # bks)))" using that by (simp add: bk ctx_nodes_ok)
    with Cons.prems(5) show ?thesis by (rule bspec)
  qed
  then have here: "band_savings (summed b k) (fst st) b k n = band_savings (summed b k) base b k n" if "n < 11" for n
    unfolding band_savings_def using that by (intro arg_cong [where f = sum_list] map_cong refl) simp
  have "(\<Sum>n \<leftarrow> [0..<11]. if map (band_savings (summed b k) (fst st) b k) [0..<11] ! n > 0 \<or> keyFrame
        then map (band_savings (summed b k) (fst st) b k) [0..<11] ! n else 0)
      = (\<Sum>n \<leftarrow> [0..<11]. if band_savings (summed b k) base b k n > 0 \<or> keyFrame then band_savings (summed b k) base b k n else 0)"
    by (intro arg_cong [where f = sum_list] map_cong refl) (simp add: here del: upt_Suc)
  then have "cu_SavingsBits (snd (update_band keyFrame summed st bk)) = cu_SavingsBits (snd st) +
      (\<Sum>n \<leftarrow> [0..<11]. if band_savings (summed b k) base b k n > 0 \<or> keyFrame then band_savings (summed b k) base b k n else 0)"
    unfolding update_band_def bk prod.case Let_def by (simp add: add_savings_def shared_keeps_savings del: upt_Suc)
  then show ?case using ih unfolding foldl_Cons bk by (simp add: charged_savings_def del: upt_Suc)
qed (simp add: charged_savings_def)

lemma foldl_pairs: "foldl (\<lambda>a (b, k). a + f b k) z bks = z + (\<Sum>(b, k) \<leftarrow> bks. f b k :: int)"
  by (induction bks arbitrary: z) auto

lemma independent_savings_sum:
  "independent_savings keyFrame summed base =
     (\<Sum>(b, k) \<leftarrow> block_bands. \<Sum>n \<leftarrow> [0..<EntropyNodes].
        if node_savings keyFrame (summed b k) base b k n > 0 \<or> keyFrame then node_savings keyFrame (summed b k) base b k n else 0)"
  unfolding independent_savings_def foldl_add_if foldl_pairs by simp

lemma charged_inter: "charged_savings False summed base block_bands = independent_savings False summed base"
  unfolding charged_savings_def independent_savings_sum node_savings_inter ..

lemma sum_list_split: "(\<Sum>x \<leftarrow> xs. f x) = (\<Sum>x \<leftarrow> xs. g x) + (\<Sum>x \<leftarrow> xs. h x :: int)" if "\<And>x. f x = g x + h x"
  by (induction xs) (simp_all add: that)

lemma charged_key: "charged_savings True summed base block_bands = independent_savings True summed base + unchanged_savings summed base"
proof -
  have "band_savings (summed b k) base b k n = node_savings True (summed b k) base b k n +
      (\<Sum>c \<leftarrow> [0..<PrevCoefContexts]. if cell_get base (b, k, c, n) = coefficientProbabilityFromBranchCount (summed b k ! n)
        then coefficientProbabilityUpdateSavings (summed b k ! n) (cell_get base (b, k, c, n)) (cell_get base (b, k, c, n))
          (cell_get CoefUpdateProbs (b, k, c, n)) else 0)" for b k n
    unfolding band_savings_def node_savings_def Let_def by (rule sum_list_split) auto
  then show ?thesis
    unfolding charged_savings_def independent_savings_sum unchanged_savings_def
    by (intro sum_list_split) (simp split: prod.split, intro allI impI sum_list_split, simp)
qed

text \<open>A probability that stays costs the bits of its update.\<close>

lemma unchanged_savings_neg: "unchanged_savings summed base \<le> 0"
proof -
  have table: "list_all (\<lambda>x. x \<le> 2047) ProbCost" "length ProbCost = 256" by code_simp+
  have cost: "0 \<le> coefficientBitCost u b \<and> coefficientBitCost u b \<le> 2047" for u b
    using table unat_byte_lt [of "u XOR word_of_int (- b)"] by (simp add: coefficientBitCost_def list_all_length)
  have u: "0 \<le> 8 + drop_bit 8 (coefficientBitCost u 1 - coefficientBitCost u 0)" for u :: byte
  proof -
    have "- 2047 \<le> coefficientBitCost u 1 - coefficientBitCost u 0" using cost [of u 1] cost [of u 0] by linarith
    then have "- 2047 div 256 \<le> (coefficientBitCost u 1 - coefficientBitCost u 0) div 256" by (rule zdiv_mono1) simp
    then show ?thesis by (simp add: drop_bit_eq_div)
  qed
  have neg: "coefficientProbabilityUpdateSavings ct p p u \<le> 0" for ct p u
    using u [of u] by (simp add: coefficientProbabilityUpdateSavings_def Let_def)
  show ?thesis
    unfolding unchanged_savings_def by (intro sum_list_nonpos) (auto intro!: sum_list_nonpos neg simp del: upt_Suc)
qed

text \<open>C29: The savings a frame is charged with, against the estimate the encoder makes before it decides to recode. From
  the token counts of any frame, and on inter frames also with independent contexts, they are equal. On key frames with
  independent contexts, from token counts or from branch counts, the updates are charged with exactly the cost of the
  update flags of those probabilities that stay as they are, which the estimate leaves out: the estimate is never the
  smaller of the two.\<close>

theorem entropy_savings_match:
  assumes "coef_shape base"
  shows "cu_SavingsBits (snd (coefficientProbabilityUpdatesFromTokenCounts base counts)) = coefficientEntropySavingsFromTokenCounts base counts \<and>
    cu_SavingsBits (snd (coefficientProbabilityUpdatesFromTokenCountsIndependent base counts False))
      = coefficientEntropySavingsFromTokenCountsIndependent base counts False \<and>
    cu_SavingsBits (snd (coefficientProbabilityUpdatesFromTokenCountsIndependent base counts True))
      = coefficientEntropySavingsFromTokenCountsIndependent base counts True + unchanged_savings (summed_tokens counts) base \<and>
    cu_SavingsBits (snd (coefficientProbabilityUpdatesFromCountsIndependent base branches True))
      = coefficientEntropySavingsFromCountsIndependent base branches True + unchanged_savings (summed_branches branches) base \<and>
    unchanged_savings summed base \<le> 0"
proof (intro conjI)
  have z: "cu_SavingsBits (snd (base, no_updates base)) = 0" "\<And>cell. cell_get (fst (base, no_updates base)) cell = cell_get base cell"
    by (simp_all add: no_updates_def)
  have fr: "fresh_cells coef_cells (base, no_updates base)" using start_fresh coef_cells_ok(2) by blast
  show "cu_SavingsBits (snd (coefficientProbabilityUpdatesFromTokenCounts base counts)) = coefficientEntropySavingsFromTokenCounts base counts"
    using savings_fold [OF assms synced_start [OF assms] coef_cells_ok fr, of counts] z
    unfolding coefficientProbabilityUpdatesFromTokenCounts_def coefficientEntropySavingsFromTokenCounts_def by simp
  have charged: "cu_SavingsBits (snd (foldl (update_band keyFrame summed) (base, no_updates base) block_bands)) = charged_savings keyFrame summed base block_bands"
    for keyFrame summed
    using band_savings_fold [OF synced_start [OF assms] block_bands_ok(1) subset_refl fr [unfolded coef_cells_bands]] z by simp
  note defs = coefficientProbabilityUpdatesFromTokenCountsIndependent_def coefficientEntropySavingsFromTokenCountsIndependent_def
    coefficientProbabilityUpdatesFromCountsIndependent_def coefficientEntropySavingsFromCountsIndependent_def
  show "cu_SavingsBits (snd (coefficientProbabilityUpdatesFromTokenCountsIndependent base counts False))
      = coefficientEntropySavingsFromTokenCountsIndependent base counts False"
    unfolding defs charged charged_inter ..
  show "cu_SavingsBits (snd (coefficientProbabilityUpdatesFromTokenCountsIndependent base counts True))
      = coefficientEntropySavingsFromTokenCountsIndependent base counts True + unchanged_savings (summed_tokens counts) base"
    "cu_SavingsBits (snd (coefficientProbabilityUpdatesFromCountsIndependent base branches True))
      = coefficientEntropySavingsFromCountsIndependent base branches True + unchanged_savings (summed_branches branches) base"
    unfolding defs charged charged_key by (rule refl)+
  show "unchanged_savings summed base \<le> 0" by (rule unchanged_savings_neg)
qed

theorem entropy_savings_match_witness:
  "cu_SavingsBits (snd (coefficientProbabilityUpdatesFromTokenCounts DefaultCoefProbs (count_token 0 1 2 11 zero_counts)))
    = coefficientEntropySavingsFromTokenCounts DefaultCoefProbs (count_token 0 1 2 11 zero_counts) \<and>
   cu_SavingsBits (snd (coefficientProbabilityUpdatesFromCountsIndependent DefaultCoefProbs
      defaultKeyFrameIndependentCoefficientBranchCountsForUpdate True))
    \<le> coefficientEntropySavingsFromCountsIndependent DefaultCoefProbs defaultKeyFrameIndependentCoefficientBranchCountsForUpdate True"
proof -
  have shape: "coef_shape DefaultCoefProbs" by code_simp
  note t = entropy_savings_match [OF shape, of "count_token 0 1 2 11 zero_counts"
    defaultKeyFrameIndependentCoefficientBranchCountsForUpdate
    "summed_branches defaultKeyFrameIndependentCoefficientBranchCountsForUpdate"]
  show ?thesis using t by linarith
qed

end
