(* ===== verification/Vp8_Key_Packet.thy ===== *)
theory Vp8_Key_Packet
  imports Vp8_Grid_Roundtrip Vp8_Coef_Laws Vp8_Key_Frame
begin

text \<open>
  The assembly of a key-frame packet (\<^verbatim>\<open>internal/vp8/encoder/keyframe.go\<close>): the state header and the modes in
  the first partition, the tokens in one partition or in several behind their size table, the frame tag and the
  key-frame header put in front when the sizes are known.
\<close>

section \<open>Skip flags\<close>

definition le64 :: "byte list \<Rightarrow> u64" where
  "le64 bs = word_of_nat (le_val bs)"

definition KeyFrameMacroblockIsSkippable :: "KeyFrameMacroblockMode \<Rightarrow> MacroblockCoefficients \<Rightarrow> bool" where
  "KeyFrameMacroblockIsSkippable mode coeffs =
     (let e = mc_EOB coeffs in
      if km_YMode mode \<noteq> BPred
      then (le64 (take 8 e) OR le64 (take 8 (drop 8 e))) AND 0xfefefefefefefefe = 0 \<and> le64 (take 8 (drop 16 e)) = 0 \<and> e ! 24 = 0
      else le64 (take 8 e) OR le64 (take 8 (drop 8 e)) OR le64 (take 8 (drop 16 e)) = 0)"

definition DeriveKeyFrameModeSkipFlags ::
  "int \<Rightarrow> int \<Rightarrow> KeyFrameMacroblockMode list \<Rightarrow> MacroblockCoefficients list \<Rightarrow> KeyFrameMacroblockMode list" where
  "DeriveKeyFrameModeSkipFlags rows cols modes coeffs =
     (let required = rows * cols
      in if rows \<le> 0 \<or> cols \<le> 0 \<or> required \<le> 0 \<or> int (length modes) < required \<or> int (length coeffs) < required then modes
         else map (\<lambda>i. if int i < required
             then (modes ! i)\<lparr>km_MBSkipCoeff := KeyFrameMacroblockIsSkippable (modes ! i) (coeffs ! i)\<rparr>
             else modes ! i) [0..<length modes])"

definition keyFrameModeSkipFalseProbability :: "int \<Rightarrow> int \<Rightarrow> KeyFrameMacroblockMode list \<Rightarrow> byte" where
  "keyFrameModeSkipFalseProbability rows cols modes =
     (let required = rows * cols
      in if rows \<le> 0 \<or> cols \<le> 0 \<or> required \<le> 0 \<or> int (length modes) < required then 128
         else
           let skipFalseCount = int (length (filter (\<lambda>m. \<not> km_MBSkipCoeff m) (take (nat required) modes)))
           in word_of_int (min (max (skipFalseCount * 256 div required) 1) 255))"

section \<open>Parts of a packet\<close>

text \<open>
  A writer started on \<open>dst[start:]\<close> leaves its bytes there. The first partition: the state header, then the
  modes; the result is the buffer and the size of the partition.
\<close>

definition first_partition ::
  "(BoolWriter, packet_error option) state \<Rightarrow> (BoolWriter, mode_error option) state \<Rightarrow> byte list \<Rightarrow> mode_error + byte list \<times> nat" where
  "first_partition header modes dst =
     (case run_state header (Writer_Init (drop 10 dst)) of (e, first) \<Rightarrow>
      if e \<noteq> None then Inl (ModePacketError (the e))
      else
        (case run_state modes first of (e, first) \<Rightarrow>
         if e \<noteq> None then Inl (the e)
         else
           let first = Finish first
           in if Writer_Err first \<noteq> None then Inl (ModePacketError EncErrBufferTooSmall)
              else if int (BytesWritten first) > MaxFirstPartitionSize then Inl (ModePacketError ErrInvalidPacketConfig)
              else Inr (take 10 dst @ w_buf first, BytesWritten first)))"

text \<open>The tokens, from \<open>tokenStart\<close> on: the result is the length of the packet and the buffer.\<close>

definition token_partitions ::
  "(BoolWriter, mode_error option) state \<Rightarrow> (int \<Rightarrow> (BoolWriter list, mode_error option) state)
    \<Rightarrow> byte list list option \<Rightarrow> nat \<Rightarrow> nat \<Rightarrow> byte list \<Rightarrow> nat \<Rightarrow> mode_error + nat \<times> byte list" where
  "token_partitions oneWriter manyWriters scratch tokenPartition partitionCount dst tokenStart =
     (if partitionCount = 1 then
        (case run_state oneWriter (Writer_Init (drop tokenStart dst)) of (e, tokens) \<Rightarrow>
         if e \<noteq> None then Inl (the e)
         else
           let tokens = Finish tokens
           in if Writer_Err tokens \<noteq> None then Inl (ModePacketError EncErrBufferTooSmall)
              else Inr (tokenStart + BytesWritten tokens, take tokenStart dst @ w_buf tokens))
      else
        (case preparePartitionWriters scratch dst (int tokenStart) tokenPartition of
           Inl e \<Rightarrow> Inl (ModePacketError e)
         | Inr (buffers, writers, partitions) \<Rightarrow>
             (case run_state (manyWriters (int partitions)) writers of (e, writers) \<Rightarrow>
              if e \<noteq> None then Inl (the e)
              else map_sum ModePacketError id (finalizePartitionedTokenPayload writers dst tokenStart partitions))))"

definition put_key_head :: "KeyFrameStateConfig \<Rightarrow> int \<Rightarrow> int \<Rightarrow> nat \<Rightarrow> byte list \<Rightarrow> mode_error + byte list" where
  "put_key_head cfg width height firstSize dst =
     map_sum ModePacketError id (put_packet_head dst True 0 (\<not> k_InvisibleFrame cfg) (int firstSize) width height
       (uint (k_HorizScale cfg)) (uint (k_VertScale cfg)))"

text \<open>A packet of both: its length and the buffer.\<close>

definition key_packet ::
  "KeyFrameStateConfig \<Rightarrow> int \<Rightarrow> int \<Rightarrow> (BoolWriter, mode_error option) state \<Rightarrow> (BoolWriter, mode_error option) state
    \<Rightarrow> (int \<Rightarrow> (BoolWriter list, mode_error option) state) \<Rightarrow> byte list list option \<Rightarrow> nat \<Rightarrow> byte list \<Rightarrow> mode_error + nat \<times> byte list" where
  "key_packet cfg width height modes oneWriter manyWriters scratch partitionCount dst =
     (case first_partition (WriteKeyFrameStateHeader cfg) modes dst of
        Inl e \<Rightarrow> Inl e
      | Inr (dst, firstSize) \<Rightarrow>
          (case token_partitions oneWriter manyWriters scratch (unat (c_TokenPartition cfg)) partitionCount dst (10 + firstSize) of
             Inl e \<Rightarrow> Inl e
           | Inr (n, dst) \<Rightarrow> map_sum id (\<lambda>dst. (n, dst)) (put_key_head cfg width height firstSize dst)))"

definition key_dimensions_bad :: "int \<Rightarrow> int \<Rightarrow> bool" where
  "key_dimensions_bad width height \<longleftrightarrow> width \<le> 0 \<or> width > 0x3fff \<or> height \<le> 0 \<or> height > 0x3fff"

definition mb_count :: "int \<Rightarrow> int" where
  "mb_count pixels = drop_bit 4 (pixels + 15)"

section \<open>Key frames without coefficients\<close>

definition neutral_mode :: KeyFrameMacroblockMode where
  "neutral_mode = \<lparr>km_SegmentID = 0, km_YMode = 0, km_UVMode = 0, km_BModes = replicate 16 0, km_MBSkipCoeff = False\<rparr>"

definition write_neutral_cell :: "bool \<Rightarrow> byte list \<Rightarrow> nat \<times> nat \<Rightarrow> (BoolWriter, mode_error option) state" where
  "write_neutral_cell writeSegmentID segmentProbs cell = do {
     ok \<leftarrow> (if writeSegmentID then writeMacroblockSegmentID segmentProbs 0 else State_Monad.return True);
     if \<not> ok then mode_failure
     else do {
       ok \<leftarrow> WriteKeyFrameMacroblockMode None None neutral_mode;
       if \<not> ok then mode_failure else State_Monad.return None
     }
   }"

definition WriteNeutralKeyFrame :: "byte list \<Rightarrow> int \<Rightarrow> int \<Rightarrow> KeyFrameStateConfig \<Rightarrow> mode_error + nat \<times> byte list" where
  "WriteNeutralKeyFrame dst width height cfg =
     (if length dst < 10 then Inl (ModePacketError EncErrBufferTooSmall)
      else if key_dimensions_bad width height then Inl (ModePacketError ErrInvalidPacketConfig)
      else
        (case tokenPartitionCount (unat (c_TokenPartition cfg)) of
           None \<Rightarrow> Inl (ModePacketError ErrInvalidPacketConfig)
         | Some partitionCount \<Rightarrow>
             if c_MBNoCoeffSkip cfg then Inl (ModePacketError ErrInvalidPacketConfig)
             else
               let rows = mb_count height; cols = mb_count width; seg = c_Segmentation cfg;
                   cells = grid_cells (nat rows) (nat cols)
               in key_packet cfg width height
                 (write_checked (write_neutral_cell (sc_Enabled seg \<and> sc_UpdateMap seg) (segmentationTreeProbs seg)) cells)
                 (do {
                    e \<leftarrow> write_checked (\<lambda>cell. WriteZeroMacroblockTokens DefaultCoefProbs False) cells;
                    State_Monad.return (map_option ModePacketError e)
                  })
                 (\<lambda>partitions. WriteZeroTokenGridPartitioned partitions rows cols (replicate (nat (rows * cols)) neutral_mode) DefaultCoefProbs)
                 None partitionCount dst))"

definition WriteZeroKeyFrame ::
  "byte list \<Rightarrow> int \<Rightarrow> int \<Rightarrow> KeyFrameStateConfig \<Rightarrow> KeyFrameMacroblockMode list \<Rightarrow> mode_error + nat \<times> byte list" where
  "WriteZeroKeyFrame dst width height cfg modes =
     (if length dst < 10 then Inl (ModePacketError EncErrBufferTooSmall)
      else if key_dimensions_bad width height then Inl (ModePacketError ErrInvalidPacketConfig)
      else
        (case tokenPartitionCount (unat (c_TokenPartition cfg)) of
           None \<Rightarrow> Inl (ModePacketError ErrInvalidPacketConfig)
         | Some partitionCount \<Rightarrow>
             if c_MBNoCoeffSkip cfg then Inl (ModePacketError ErrInvalidPacketConfig)
             else
               let rows = mb_count height; cols = mb_count width
               in if int (length modes) < rows * cols then Inl ErrModeBufferTooSmall
                  else key_packet cfg width height
                    (WriteKeyFrameModeGridWithSegmentation rows cols modes (c_Segmentation cfg))
                    (WriteZeroTokenGrid rows cols modes DefaultCoefProbs)
                    (\<lambda>partitions. WriteZeroTokenGridPartitioned partitions rows cols modes DefaultCoefProbs)
                    None partitionCount dst))"

section \<open>Key frames with coefficients\<close>

text \<open>
  The result: the packet's length, the buffer, the table the tokens are coded with, and the caller's modes, whose
  skip flags the writer sets. The caller's contexts and scratch buffers are working storage and left out.
\<close>

record KeyFramePacket =
  kp_Size :: nat
  kp_Buffer :: "byte list"
  kp_Probs :: coef_probs
  kp_Modes :: "KeyFrameMacroblockMode list"

definition key_coefficient_updates ::
  "KeyFrameStateConfig \<Rightarrow> int \<Rightarrow> int \<Rightarrow> KeyFrameMacroblockMode list \<Rightarrow> MacroblockCoefficients list \<Rightarrow> TokenContextPlanes list
    \<Rightarrow> coef_probs \<Rightarrow> token_counts option \<Rightarrow> coef_update coef_result" where
  "key_coefficient_updates cfg rows cols modes coeffs abv base prebuilt =
     (if k_IndependentContexts cfg then BuildKeyFrameCoefficientProbabilityUpdatesIndependent rows cols modes coeffs abv base
      else
        (case prebuilt of
           Some counts \<Rightarrow> (Inr (BuildInterCoefficientProbabilityUpdatesFromPrebuiltCounts base counts), abv)
         | None \<Rightarrow> BuildKeyFrameCoefficientProbabilityUpdates rows cols modes coeffs abv base))"

definition WriteCoefficientKeyFrameWithProbabilityBaseScratchAndCounts ::
  "byte list \<Rightarrow> int \<Rightarrow> int \<Rightarrow> KeyFrameStateConfig \<Rightarrow> KeyFrameMacroblockMode list \<Rightarrow> MacroblockCoefficients list
    \<Rightarrow> TokenContextPlanes list \<Rightarrow> coef_probs \<Rightarrow> byte list list option \<Rightarrow> token_counts option \<Rightarrow> mode_error + KeyFramePacket" where
  "WriteCoefficientKeyFrameWithProbabilityBaseScratchAndCounts dst width height cfg modes coeffs abv base scratch prebuilt =
     (if length dst < 10 then Inl (ModePacketError EncErrBufferTooSmall)
      else if key_dimensions_bad width height then Inl (ModePacketError ErrInvalidPacketConfig)
      else
        (case tokenPartitionCount (unat (c_TokenPartition cfg)) of
           None \<Rightarrow> Inl (ModePacketError ErrInvalidPacketConfig)
         | Some partitionCount \<Rightarrow>
             let rows = mb_count height; cols = mb_count width; required = rows * cols
             in if int (length modes) < required \<or> int (length coeffs) < required \<or> int (length abv) < cols
                then Inl ErrModeBufferTooSmall
                else
                  let modes = (if c_MBNoCoeffSkip cfg then DeriveKeyFrameModeSkipFlags rows cols modes coeffs else modes);
                      cfg = (if c_MBNoCoeffSkip cfg \<and> c_ProbSkipFalse cfg = 0
                        then cfg\<lparr>c_ProbSkipFalse := keyFrameModeSkipFalseProbability rows cols modes\<rparr> else cfg)
                  in (case key_coefficient_updates cfg rows cols modes coeffs abv base prebuilt of
                        (Inl e, abv) \<Rightarrow> Inl e
                      | (Inr (frameCoefProbs, coefUpdates), abv) \<Rightarrow>
                          let cfg = cfg\<lparr>c_CoefficientProbs := coefUpdates\<rparr>
                          in map_sum id (\<lambda>(n, buf). \<lparr>kp_Size = n, kp_Buffer = buf, kp_Probs = frameCoefProbs, kp_Modes = modes\<rparr>)
                            (key_packet cfg width height
                              (WriteKeyFrameModeGridWithSegmentationAndSkip rows cols modes (c_Segmentation cfg) (c_MBNoCoeffSkip cfg) (c_ProbSkipFalse cfg))
                              (do { r \<leftarrow> WriteCoefficientTokenGrid rows cols modes coeffs abv frameCoefProbs; State_Monad.return (fst r) })
                              (\<lambda>partitions. do { r \<leftarrow> WriteCoefficientTokenGridPartitioned partitions rows cols modes coeffs abv frameCoefProbs;
                                 State_Monad.return (fst r) })
                              scratch partitionCount dst))))"

definition WriteCoefficientKeyFrameWithProbabilityBaseScratch ::
  "byte list \<Rightarrow> int \<Rightarrow> int \<Rightarrow> KeyFrameStateConfig \<Rightarrow> KeyFrameMacroblockMode list \<Rightarrow> MacroblockCoefficients list
    \<Rightarrow> TokenContextPlanes list \<Rightarrow> coef_probs \<Rightarrow> byte list list option \<Rightarrow> mode_error + KeyFramePacket" where
  "WriteCoefficientKeyFrameWithProbabilityBaseScratch dst width height cfg modes coeffs abv base scratch =
     WriteCoefficientKeyFrameWithProbabilityBaseScratchAndCounts dst width height cfg modes coeffs abv base scratch None"

definition WriteCoefficientKeyFrameWithProbabilityBase ::
  "byte list \<Rightarrow> int \<Rightarrow> int \<Rightarrow> KeyFrameStateConfig \<Rightarrow> KeyFrameMacroblockMode list \<Rightarrow> MacroblockCoefficients list
    \<Rightarrow> TokenContextPlanes list \<Rightarrow> coef_probs \<Rightarrow> mode_error + KeyFramePacket" where
  "WriteCoefficientKeyFrameWithProbabilityBase dst width height cfg modes coeffs abv base =
     WriteCoefficientKeyFrameWithProbabilityBaseScratch dst width height cfg modes coeffs abv base None"

definition WriteCoefficientKeyFrame ::
  "byte list \<Rightarrow> int \<Rightarrow> int \<Rightarrow> KeyFrameStateConfig \<Rightarrow> KeyFrameMacroblockMode list \<Rightarrow> MacroblockCoefficients list
    \<Rightarrow> TokenContextPlanes list \<Rightarrow> mode_error + KeyFramePacket" where
  "WriteCoefficientKeyFrame dst width height cfg modes coeffs abv =
     WriteCoefficientKeyFrameWithProbabilityBase dst width height cfg modes coeffs abv DefaultCoefProbs"

end
