(* ===== verification/Vp8_Packet_Laws.thy ===== *)
theory Vp8_Packet_Laws
  imports Vp8_Key_Packet
begin

text \<open>
  Where the parts of a key-frame packet lie: the first partition behind the header, the token partitions
  behind it, as the decoder will look for them.
\<close>

section \<open>The head in place\<close>

lemma PutFrameTag_append:
  assumes "PutFrameTag (x @ y) k v s n = Inr d" "3 \<le> length x"
  shows "\<exists>t. PutFrameTag x k v s n = Inr t \<and> d = t @ y \<and> length t = length x"
proof -
  have l: "\<not> length (x @ y) < FrameTagSize" "\<not> length x < FrameTagSize" "0 < length x" "1 < length x" "2 < length x"
    using assms(2) unfolding FrameTagSize_def length_append by linarith+
  show ?thesis
    using assms(1) l unfolding PutFrameTag_def if_not_P [OF l(1)] if_not_P [OF l(2)]
    by (auto simp: Let_def list_update_append split: if_split_asm)
qed

lemma PutKeyFrameExtraHeader_append:
  assumes "PutKeyFrameExtraHeader (x @ y) w h hs vs = Inr d" "7 \<le> length x"
  shows "\<exists>t. PutKeyFrameExtraHeader x w h hs vs = Inr t \<and> d = t @ y \<and> length t = length x"
proof -
  have l: "\<not> length (x @ y) < KeyFrameExtraHeaderSize" "\<not> length x < KeyFrameExtraHeaderSize"
    "0 < length x" "1 < length x" "2 < length x" "3 < length x" "4 < length x" "5 < length x" "6 < length x"
    using assms(2) unfolding KeyFrameExtraHeaderSize_def length_append by linarith+
  show ?thesis
    using assms(1) l unfolding PutKeyFrameExtraHeader_def if_not_P [OF l(1)] if_not_P [OF l(2)]
    by (auto simp: Let_def list_update_append split: if_split_asm)
qed

lemma put_packet_head_append:
  assumes "put_packet_head (x @ y) True v s n w h hs vs = Inr d" "10 \<le> length x"
  shows "\<exists>t. put_packet_head x True v s n w h hs vs = Inr t \<and> d = t @ y \<and> length t = length x"
proof -
  obtain d1 where d1: "PutFrameTag (x @ y) True v s n = Inr d1"
    using assms(1) by (auto simp: put_packet_head_def split: sum.splits)
  obtain t where t: "PutFrameTag x True v s n = Inr t" "d1 = t @ y" "length t = length x"
    using PutFrameTag_append [OF d1] assms(2) by auto
  obtain d2 where d2: "PutKeyFrameExtraHeader (drop 3 t @ y) w h hs vs = Inr d2" "d = take 3 t @ d2"
    using assms(1,2) d1 t by (auto simp: put_packet_head_def FrameTagSize_def map_sum_def split: sum.splits)
  obtain u where u: "PutKeyFrameExtraHeader (drop 3 t) w h hs vs = Inr u" "d2 = u @ y" "length u = length x - 3"
    using PutKeyFrameExtraHeader_append [OF d2(1)] assms(2) t(3) by (simp add: le_diff_conv2) blast
  show ?thesis using t u d2(2) assms(2) by (simp add: put_packet_head_def FrameTagSize_def)
qed

lemma put_packet_head_take:
  assumes "put_packet_head dst True v s n w h hs vs = Inr d" "10 \<le> k" "k \<le> length dst"
  shows "put_packet_head (take k dst) True v s n w h hs vs = Inr (take k d)" "drop 10 d = drop 10 dst" "length d = length dst"
proof -
  have k: "put_packet_head (take k dst @ drop k dst) True v s n w h hs vs = Inr d" "10 \<le> length (take k dst)" using assms by simp_all
  obtain t where "put_packet_head (take k dst) True v s n w h hs vs = Inr t" "d = t @ drop k dst" "length t = length (take k dst)"
    using put_packet_head_append [OF k] by blast
  then show "put_packet_head (take k dst) True v s n w h hs vs = Inr (take k d)" using assms(3) by simp
  have k: "put_packet_head (take 10 dst @ drop 10 dst) True v s n w h hs vs = Inr d" "10 \<le> length (take 10 dst)" using assms by simp_all
  obtain u where u: "d = u @ drop 10 dst" "length u = length (take 10 dst)" using put_packet_head_append [OF k] by blast
  then show "drop 10 d = drop 10 dst" "length d = length dst" using assms by simp_all
qed

section \<open>The first partition\<close>

lemma first_partition_written:
  assumes "first_partition header modes dst = Inr (dst1, firstSize)"
  shows "\<exists>w1 w. run_state header (Writer_Init (drop 10 dst)) = (None, w1) \<and> run_state modes w1 = (None, w) \<and> w_err (Finish w) = 0 \<and>
    firstSize = w_pos (Finish w) \<and> int firstSize \<le> MaxFirstPartitionSize \<and> dst1 = take 10 dst @ w_buf (Finish w)"
  using assms by (auto simp: first_partition_def Let_def Writer_Err_def BytesWritten_def split: prod.splits if_split_asm)

section \<open>The token partitions\<close>

lemma finalize_no_error:
  "finalize_loop T pc i ws dst off = Inr r \<Longrightarrow> \<forall>w \<in> set ws. w_err (Finish w) = 0"
  by (induction ws arbitrary: i dst off) (auto simp: Let_def Writer_Err_def split: if_split_asm sum.splits)

lemma writers_started:
  assumes "\<forall>i<pc. \<exists>l. ws ! i = Writer_Init l" "length ws = pc"
  shows "\<exists>dsts. ws = map Writer_Init dsts \<and> length dsts = pc"
proof -
  from assms(1) obtain f where "\<forall>i<pc. ws ! i = Writer_Init (f i)" by metis
  then have "ws = map Writer_Init (map f [0..<pc])" using assms(2) by (intro nth_equalityI) simp_all
  then show ?thesis using assms(2) by (metis length_map)
qed

text \<open>
  Of token writers whose result is what some \<open>write_bools\<close> makes, and whose readers see \<open>decoded\<close>: the partitions lie
  behind the first \<open>T\<close> bytes and their size table, and the readers started on them see \<open>decoded\<close>.
\<close>

lemma token_partitions_laid_out:
  assumes run: "token_partitions oneWriter manyWriters scratch tp pc dst T = Inr (n, d)"
    and pc: "pc = 2 ^ tp" "tp \<le> 3" and T: "T \<le> length dst" and scratch: "\<forall>s. scratch = Some s \<longrightarrow> length s = 8"
    and one: "\<And>dst w. run_state oneWriter (Writer_Init dst) = (None, w) \<Longrightarrow> w_err (Finish w) = 0 \<Longrightarrow> pc = 1 \<Longrightarrow>
      (\<exists>xs. w = write_bools (Writer_Init dst) xs) \<and> decoded [Bytes (Finish w)]"
    and many: "\<And>dsts ws. length dsts = pc \<Longrightarrow> pc \<noteq> 1 \<Longrightarrow> run_state (manyWriters (int pc)) (map Writer_Init dsts) = (None, ws) \<Longrightarrow>
      (\<forall>k < pc. w_err (Finish (ws ! k)) = 0) \<Longrightarrow>
      length ws = pc \<and> (\<forall>k < pc. \<exists>xs. ws ! k = write_bools (Writer_Init (dsts ! k)) xs) \<and> decoded (map (\<lambda>w. Bytes (Finish w)) ws)"
    and len: "\<And>dsts ws. length dsts = pc \<Longrightarrow> pc \<noteq> 1 \<Longrightarrow> run_state (manyWriters (int pc)) (map Writer_Init dsts) = (None, ws) \<Longrightarrow> length ws = pc"
  shows "\<exists>bs. take n d = take T dst @ size_table bs @ concat bs \<and> length bs = pc \<and> (\<forall>b \<in> set bs. b \<noteq> []) \<and>
    (\<forall>b \<in> set (butlast bs). length b < 2 ^ 24) \<and> decoded bs \<and> T \<le> n \<and> n \<le> length d \<and> take T d = take T dst"
proof (cases "pc = 1")
  case True
  obtain w where w: "run_state oneWriter (Writer_Init (drop T dst)) = (None, w)" "w_err (Finish w) = 0"
    "n = T + w_pos (Finish w)" "d = take T dst @ w_buf (Finish w)"
    using run True by (auto simp: token_partitions_def Let_def Writer_Err_def BytesWritten_def split: prod.splits if_split_asm)
  obtain xs where xs: "w = write_bools (Writer_Init (drop T dst)) xs" and dec: "decoded [Bytes (Finish w)]"
    using one [OF w(1,2) True] by blast
  have pos: "w_pos (Finish w) \<le> length (w_buf (Finish w))" unfolding xs by (rule partition_pos)
  have ne: "Bytes (Finish w) \<noteq> []" using w(2) message_nonempty unfolding xs by (simp add: partition_written)
  have "take n d = take T dst @ Bytes (Finish w)" using T by (simp add: w(3,4) Bytes_def)
  then show ?thesis
    using True ne dec pos T by (intro exI [of _ "[Bytes (Finish w)]"]) (simp add: w(3,4))
next
  case False
  obtain buffers writers partitions ws where prep: "preparePartitionWriters scratch dst (int T) tp = Inr (buffers, writers, partitions)"
    and many_run: "run_state (manyWriters (int partitions)) writers = (None, ws)"
    and fin: "finalizePartitionedTokenPayload ws dst T partitions = Inr (n, d)"
    using run False by (auto simp: token_partitions_def map_sum_def split: sum.splits prod.splits if_split_asm)
  note p = prepare_writers [OF prep scratch]
  have pc': "partitions = pc" using p pc(1) by simp
  obtain dsts where dsts: "writers = map Writer_Init dsts" "length dsts = pc" using writers_started [of pc writers] p pc' by auto
  have r: "run_state (manyWriters (int pc)) (map Writer_Init dsts) = (None, ws)" using many_run pc' dsts(1) by simp
  have l: "length ws = pc" using len [OF dsts(2) False r] .
  have loop: "finalize_loop T pc 0 ws dst (T + 3 * (pc - 1)) = Inr (n, d)"
    using fin l by (simp add: finalizePartitionedTokenPayload_def pc')
  have err: "\<forall>k < pc. w_err (Finish (ws ! k)) = 0" using finalize_no_error [OF loop] l by simp
  note m = many [OF dsts(2) False r err]
  have pos: "\<forall>w\<in>set ws. w_pos (Finish w) \<le> length (w_buf (Finish w))"
    using m l partition_pos by (fastforce simp: in_set_conv_nth)
  have room: "T + 3 * (pc - 1) \<le> length dst" using p unfolding pc' by blast
  note F = finalize_bytes [OF loop _ order_refl room pos]
  have F: "n = T + 3 * (pc - 1) + length (concat (map (\<lambda>w. Bytes (Finish w)) ws))" "n \<le> length dst"
    "\<forall>b\<in>set (butlast (map (\<lambda>w. Bytes (Finish w)) ws)). length b < 2 ^ 24"
    "d = take T dst @ size_table (map (\<lambda>w. Bytes (Finish w)) ws) @ concat (map (\<lambda>w. Bytes (Finish w)) ws) @ drop n dst"
    using F l by simp_all
  have ne: "\<forall>b \<in> set (map (\<lambda>w. Bytes (Finish w)) ws). b \<noteq> []"
  proof
    fix b assume "b \<in> set (map (\<lambda>w. Bytes (Finish w)) ws)"
    then obtain k where k: "k < pc" "b = Bytes (Finish (ws ! k))" using l by (auto simp: in_set_conv_nth)
    obtain xs where xs: "ws ! k = write_bools (Writer_Init (dsts ! k)) xs" using m k(1) by blast
    have "w_err (Finish (write_bools (Writer_Init (dsts ! k)) xs)) = 0" using err k(1) unfolding xs [symmetric] by blast
    then show "b \<noteq> []" using message_nonempty by (simp add: k(2) xs partition_written)
  qed
  have tn: "take n d = take T dst @ size_table (map (\<lambda>w. Bytes (Finish w)) ws) @ concat (map (\<lambda>w. Bytes (Finish w)) ws)"
    using F(1,4) l T by simp
  have ln: "n \<le> length d" "T \<le> n" "take T d = take T dst" using F(1,2,4) l T by simp_all
  show ?thesis
    using tn ln ne m F(3) l by (intro exI [of _ "map (\<lambda>w. Bytes (Finish w)) ws"]) simp
qed

end
