(* ===== verification/Vp8_Decoder.thy ===== *)
theory Vp8_Decoder
  imports Vp8_Packet Vp8_Header_Parser Vp8_Inter_Modes Vp8_Token_Grid Vp8_Token_Storage
begin

text \<open>
  The decoder around the parsers (\<^verbatim>\<open>vp8_decoder.go\<close>): what it keeps between frames, a packet's way from the header
  to modes and tokens, and what a frame leaves behind for the next. Pixels are not modelled: neither the frame
  buffers nor the reconstruction, which reads the state below and does not change it. A frame is decoded with
  concealment switched off; the stages it goes through are modelled with and without concealment.
\<close>

section \<open>State\<close>

datatype govpx_error = DecErrInvalidData | ErrNeedKeyFrame | ErrFrameRejected

text \<open>A coefficient table in the order of its memory, and as the nested array it is.\<close>

fun chunks :: "nat \<Rightarrow> nat \<Rightarrow> 'a list \<Rightarrow> 'a list list" where
  "chunks n 0 xs = []"
| "chunks n (Suc k) xs = take n xs # chunks n k (drop n xs)"

definition coef_table :: "byte list \<Rightarrow> coef_probs" where
  "coef_table xs = chunks CoefBands BlockTypes (chunks PrevCoefContexts (BlockTypes * CoefBands)
     (chunks EntropyNodes (BlockTypes * CoefBands * PrevCoefContexts) xs))"

definition default_coef_probs :: "byte list" where
  "default_coef_probs = concat (map (\<lambda>b. concat (map concat b)) DefaultCoefProbs)"

text \<open>
  The fields ending in \<open>Rest\<close> are the slices' elements between length and capacity; \<open>vd_allocated\<close> says that
  the frame buffers are not empty.
\<close>

record VP8Decoder =
  vd_MaxWidth :: int
  vd_MaxHeight :: int
  vd_RejectResolutionChange :: bool
  vd_needKey :: bool
  vd_initialized :: bool
  vd_lastWidth :: int
  vd_lastHeight :: int
  vd_frameWidth :: int
  vd_frameHeight :: int
  vd_allocated :: bool
  vd_frameCorrupt :: bool
  vd_modesCorrupt :: int
  vd_residualCorrupt :: int
  vd_mbRows :: int
  vd_mbCols :: int
  vd_modes :: "MacroblockMode list"
  vd_tokens :: "MacroblockTokens list"
  vd_tokenAbove :: "EntropyContextPlanes list"
  vd_frameHeader :: FrameHeader
  vd_previousQuant :: QuantHeader
  vd_previousLoopFilter :: LoopFilterHeader
  vd_state :: StateHeader
  vd_partitions :: PartitionLayout
  vd_modeReader :: Decoder
  vd_tokenReaders :: "Decoder list"
  vd_coefProbs :: "byte list"
  vd_frameCoefProbs :: "byte list"
  vd_modeProbs :: ModeProbs
  vd_frameModeProbs :: ModeProbs
  vd_segmentationState :: SegmentationHeader
  vd_segmentMap :: "byte list"
  vd_modesRest :: "MacroblockMode list"
  vd_tokensRest :: "MacroblockTokens list"
  vd_aboveRest :: "EntropyContextPlanes list"
  vd_mapRest :: "byte list"

type_synonym decoder_step = "govpx_error option \<times> VP8Decoder"

section \<open>Workspace\<close>

text \<open>A slice as its elements and those behind them up to its capacity.\<close>

definition EnsureLen :: "'a \<Rightarrow> 'a list \<times> 'a list \<Rightarrow> nat \<Rightarrow> 'a list \<times> 'a list" where
  "EnsureLen zero buf n =
     (let all = fst buf @ snd buf
      in if length all < n then (replicate n zero, []) else (take n all, drop n all))"

definition ensureWorkspace :: "int \<Rightarrow> int \<Rightarrow> VP8Decoder \<Rightarrow> VP8Decoder" where
  "ensureWorkspace width height d =
     (let cols = drop_bit 4 (width + 15); rows = drop_bit 4 (height + 15); count = nat (rows * cols);
          modes = EnsureLen zero_mode (vd_modes d, vd_modesRest d) count;
          tokens = EnsureLen fresh_tokens (vd_tokens d, vd_tokensRest d) count;
          abv = EnsureLen zero_planes (vd_tokenAbove d, vd_aboveRest d) (nat cols);
          smap = EnsureLen 0 (vd_segmentMap d, vd_mapRest d) count
      in d\<lparr>vd_modes := fst modes, vd_modesRest := snd modes, vd_tokens := fst tokens, vd_tokensRest := snd tokens,
           vd_tokenAbove := fst abv, vd_aboveRest := snd abv, vd_segmentMap := fst smap, vd_mapRest := snd smap,
           vd_mbRows := rows, vd_mbCols := cols\<rparr>)"

text \<open>The frame buffers take every size a frame header can have.\<close>

definition ensureFrameBuffers :: "StreamInfo \<Rightarrow> VP8Decoder \<Rightarrow> VP8Decoder" where
  "ensureFrameBuffers info d =
     (if \<not> si_KeyFrame info then d
      else if vd_frameWidth d = si_Width info \<and> vd_frameHeight d = si_Height info \<and> vd_allocated d then d
      else (ensureWorkspace (si_Width info) (si_Height info) d)
        \<lparr>vd_allocated := True, vd_frameWidth := si_Width info, vd_frameHeight := si_Height info\<rparr>)"

section \<open>Headers and partitions\<close>

definition parse_frame_state ::
  "bool \<Rightarrow> byte list \<Rightarrow> FrameHeader \<Rightarrow> VP8Decoder
    \<Rightarrow> (decode_error + FrameHeader \<times> StateHeader \<times> Decoder \<times> bool) \<times> byte list option \<times> ModeProbs option" where
  "parse_frame_state errorConcealment packet frameHeader d =
     (if errorConcealment
      then ParseStateHeaderFromFrameWithErrorConcealment packet frameHeader (vd_previousQuant d) (vd_previousLoopFilter d)
        (Some (vd_coefProbs d)) (Some (vd_modeProbs d))
      else
        (case parseStateHeaderFromFrame packet frameHeader (vd_previousQuant d) (vd_previousLoopFilter d)
            (Some (vd_coefProbs d)) (Some (vd_modeProbs d)) False of
           (r, tables) \<Rightarrow> (map_sum id (\<lambda>(frame, state, br). (frame, state, br, False)) r, tables)))"

definition parseState :: "byte list \<Rightarrow> FrameHeader \<Rightarrow> bool \<Rightarrow> VP8Decoder \<Rightarrow> decoder_step" where
  "parseState packet frameHeader errorConcealment d =
     (case parse_frame_state errorConcealment packet frameHeader d of
        (Inl e, tables) \<Rightarrow> (Some DecErrInvalidData, d)
      | (Inr (frame, state, modeReader, stateCorrupted), frameProbs, frameModeProbs) \<Rightarrow>
          let stateCorrupted = (if errorConcealment \<and> \<not> FrameHeader_KeyFrame frame \<and> fh_HeaderSize frame \<le> int (length packet) \<and>
                fh_FirstPartitionSize frame > int (length packet) - fh_HeaderSize frame then True else stateCorrupted);
              state = (if stateCorrupted \<and> \<not> FrameHeader_KeyFrame frame then ApplyCorruptInterFrameRefresh state else state);
              d = (if stateCorrupted then d\<lparr>vd_frameCorrupt := True, vd_modesCorrupt := 0\<rparr>
                   else d\<lparr>vd_modesCorrupt := vd_mbRows d * vd_mbCols d\<rparr>);
              previousSegmentation = (if FrameHeader_KeyFrame frame then no_segmentation else vd_segmentationState d);
              state = state\<lparr>st_Segmentation := MergeSegmentationHeader previousSegmentation (st_Segmentation state)\<rparr>
          in (case (if errorConcealment then ParsePartitionLayoutWithErrorConcealment packet frame (unat (st_TokenPartition state))
                    else ParsePartitionLayout packet frame (unat (st_TokenPartition state))) of
                (Some e, partitions) \<Rightarrow> (Some DecErrInvalidData, d)
              | (None, partitions) \<Rightarrow>
                  (None, d\<lparr>vd_tokenReaders := map (\<lambda>i. if i < pl_TokenCount partitions then Decoder_Init (pl_Tokens partitions ! i)
                       else vd_tokenReaders d ! i) [0..<length (vd_tokenReaders d)],
                     vd_frameHeader := frame, vd_state := state, vd_partitions := partitions, vd_modeReader := modeReader,
                     vd_frameCoefProbs := the frameProbs, vd_frameModeProbs := the frameModeProbs\<rparr>)))"

section \<open>Segment map\<close>

definition clearSegmentMap :: "VP8Decoder \<Rightarrow> VP8Decoder" where
  "clearSegmentMap d = d\<lparr>vd_segmentMap := replicate (length (vd_segmentMap d)) 0\<rparr>"

definition restoreSegmentMap :: "VP8Decoder \<Rightarrow> VP8Decoder" where
  "restoreSegmentMap d =
     (let seg = st_Segmentation (vd_state d)
      in if \<not> sh_Enabled seg \<or> sh_UpdateMap seg then d
         else d\<lparr>vd_modes := map (\<lambda>i. (vd_modes d ! i)\<lparr>mb_SegmentID := vd_segmentMap d ! i\<rparr>) [0..<length (vd_modes d)]\<rparr>)"

definition commitSegmentMap :: "VP8Decoder \<Rightarrow> VP8Decoder" where
  "commitSegmentMap d =
     (if \<not> sh_Enabled (st_Segmentation (vd_state d)) then d
      else d\<lparr>vd_segmentMap := map (\<lambda>i. if i < length (vd_modes d) then mb_SegmentID (vd_modes d ! i) else vd_segmentMap d ! i)
        [0..<length (vd_segmentMap d)]\<rparr>)"

section \<open>Modes and tokens\<close>

text \<open>\<open>concealing\<close>: the concealment option is set and concealment has become active.\<close>

definition decode_modes :: "bool \<Rightarrow> bool \<Rightarrow> VP8Decoder \<Rightarrow> (Decoder, mode_error + nat option \<times> MacroblockMode list) state" where
  "decode_modes concealing key d =
     (let seg = Some (st_Segmentation (vd_state d)); hdr = st_Mode (vd_state d)
      in if key then do {
           r \<leftarrow> DecodeKeyFrameModeGrid (vd_mbRows d) (vd_mbCols d) seg hdr (vd_modes d);
           State_Monad.return (map_sum id (\<lambda>modes. (None, modes)) r)
         }
         else if concealing then do {
           r \<leftarrow> DecodeInterModeGridWithErrorConcealment (vd_mbRows d) (vd_mbCols d) seg hdr (vd_frameModeProbs d) (referenceSignBias (st_Refresh (vd_state d))) (vd_modes d);
           State_Monad.return (map_sum id (\<lambda>(first, modes). (Some first, modes)) r)
         }
         else do {
           r \<leftarrow> DecodeInterModeGrid (vd_mbRows d) (vd_mbCols d) seg hdr (vd_frameModeProbs d) (referenceSignBias (st_Refresh (vd_state d))) (vd_modes d);
           State_Monad.return (map_sum id (\<lambda>modes. (None, modes)) r)
         })"

definition decodeModeGrid :: "bool \<Rightarrow> bool \<Rightarrow> VP8Decoder \<Rightarrow> decoder_step" where
  "decodeModeGrid concealing key d =
     (let d = restoreSegmentMap (if key then clearSegmentMap d else d)
      in (case run_state (decode_modes concealing key d) (vd_modeReader d) of
            (Inl e, reader) \<Rightarrow> (Some DecErrInvalidData, d)
          | (Inr (first, modes), reader) \<Rightarrow>
              let d = d\<lparr>vd_modes := modes\<rparr>;
                  d = (case first of None \<Rightarrow> d
                       | Some i \<Rightarrow> if int i < vd_modesCorrupt d then d\<lparr>vd_modesCorrupt := int i, vd_frameCorrupt := True\<rparr> else d)
              in if Decoder_Err reader \<noteq> None \<and> \<not> (concealing \<and> \<not> key) then (Some DecErrInvalidData, d)
                 else (None, d\<lparr>vd_modeReader := reader\<rparr>)))"

definition store_grid :: "('a token_grid_scheme) \<Rightarrow> Decoder list \<Rightarrow> VP8Decoder \<Rightarrow> VP8Decoder" where
  "store_grid g readers d =
     d\<lparr>vd_modes := tg_modes g, vd_tokenAbove := tg_above g, vd_tokens := tg_tokens g,
       vd_tokenReaders := readers @ drop (length readers) (vd_tokenReaders d)\<rparr>"

definition decodeTokenGrid :: "bool \<Rightarrow> VP8Decoder \<Rightarrow> decoder_step" where
  "decodeTokenGrid errorConcealment d =
     (let readers = take (pl_TokenCount (vd_partitions d)) (vd_tokenReaders d); probs = coef_table (vd_frameCoefProbs d)
      in if errorConcealment then
           (case run_state (DecodeTokenGridWithErrorConcealment (vd_mbRows d) (vd_mbCols d) probs (vd_modes d) (vd_tokenAbove d) (vd_tokens d)) readers of
              (Inl e, readers) \<Rightarrow> (Some DecErrInvalidData, d)
            | (Inr g, readers) \<Rightarrow>
                let d = store_grid g readers d; firstCorrupt = int (cg_firstCorrupt g)
                in (None, if firstCorrupt < vd_mbRows d * vd_mbCols d
                   then d\<lparr>vd_frameCorrupt := True,
                     vd_residualCorrupt := (if vd_residualCorrupt d < 0 \<or> firstCorrupt < vd_residualCorrupt d then firstCorrupt else vd_residualCorrupt d)\<rparr>
                   else d))
         else
           (case run_state (DecodeTokenGrid (vd_mbRows d) (vd_mbCols d) probs (vd_modes d) (vd_tokenAbove d) (vd_tokens d)) readers of
              (Inl e, readers) \<Rightarrow> (Some DecErrInvalidData, d)
            | (Inr g, readers) \<Rightarrow>
                (if list_ex (\<lambda>r. Decoder_Err r \<noteq> None) readers then Some DecErrInvalidData else None, store_grid g readers d)))"

section \<open>A frame\<close>

definition commitParsedState :: "bool \<Rightarrow> VP8Decoder \<Rightarrow> VP8Decoder" where
  "commitParsedState key d =
     (let refresh = rh_RefreshEntropyProbs (st_Refresh (vd_state d)); seg = st_Segmentation (vd_state d);
          d = d\<lparr>vd_coefProbs := (if refresh then vd_frameCoefProbs d
                  else if key then default_coef_probs else vd_coefProbs d),
                vd_modeProbs := (if refresh then vd_frameModeProbs d else if key then ResetModeProbs else vd_modeProbs d),
                vd_previousQuant := st_Quant (vd_state d), vd_previousLoopFilter := st_LoopFilter (vd_state d)\<rparr>;
          d = (if key then d\<lparr>vd_segmentationState := no_segmentation\<rparr> else d);
          d = (if sh_Enabled seg then d\<lparr>vd_segmentationState := seg\<lparr>sh_UpdateMap := False, sh_UpdateData := False\<rparr>\<rparr> else d)
      in commitSegmentMap d)"

definition step_then :: "decoder_step \<Rightarrow> (VP8Decoder \<Rightarrow> decoder_step) \<Rightarrow> decoder_step" where
  "step_then r f = (case r of (Some e, d) \<Rightarrow> (Some e, d) | (None, d) \<Rightarrow> f d)"

definition decodeFramePacket :: "byte list \<Rightarrow> FrameHeader \<Rightarrow> StreamInfo \<Rightarrow> VP8Decoder \<Rightarrow> decoder_step" where
  "decodeFramePacket packet frame info d =
     step_then (parseState packet frame False (d\<lparr>vd_frameCorrupt := False, vd_modesCorrupt := 0, vd_residualCorrupt := -1\<rparr>)) (\<lambda>d.
     step_then (decodeModeGrid False (si_KeyFrame info) (ensureFrameBuffers info d)) (\<lambda>d.
     step_then (decodeTokenGrid False d) (\<lambda>d.
       (None, if \<not> vd_frameCorrupt d then commitParsedState (si_KeyFrame info) d else d))))"

definition validateStreamInfo :: "StreamInfo \<Rightarrow> VP8Decoder \<Rightarrow> govpx_error option" where
  "validateStreamInfo info d =
     (if \<not> IsSupportedVersion (si_Profile info) then Some DecErrInvalidData
      else if \<not> si_KeyFrame info then None
      else if min (si_Width info) (si_Height info) \<le> 0 then Some DecErrInvalidData
      else if vd_MaxWidth d > 0 \<and> si_Width info > vd_MaxWidth d then Some ErrFrameRejected
      else if vd_MaxHeight d > 0 \<and> si_Height info > vd_MaxHeight d then Some ErrFrameRejected
      else if vd_initialized d \<and> vd_RejectResolutionChange d \<and> (si_Width info \<noteq> vd_lastWidth d \<or> si_Height info \<noteq> vd_lastHeight d)
      then Some ErrFrameRejected else None)"

text \<open>\<open>finishFrame\<close>, as far as it bears on the next frame.\<close>

definition outputDimensions :: "StreamInfo \<Rightarrow> VP8Decoder \<Rightarrow> int \<times> int" where
  "outputDimensions info d = (if si_KeyFrame info then (si_Width info, si_Height info) else (vd_frameWidth d, vd_frameHeight d))"

definition finishFrame :: "StreamInfo \<Rightarrow> VP8Decoder \<Rightarrow> VP8Decoder" where
  "finishFrame info d =
     d\<lparr>vd_initialized := True, vd_needKey := (if si_KeyFrame info then False else vd_needKey d),
       vd_lastWidth := fst (outputDimensions info d), vd_lastHeight := snd (outputDimensions info d)\<rparr>"

definition DecodeWithPTS :: "byte list \<Rightarrow> VP8Decoder \<Rightarrow> decoder_step" where
  "DecodeWithPTS packet d =
     (case ParseFrameHeader packet of
        Inl e \<Rightarrow> (Some DecErrInvalidData, d)
      | Inr frame \<Rightarrow>
          let info = StreamInfoFromFrameHeader frame
          in if vd_needKey d \<and> \<not> si_KeyFrame info then (Some ErrNeedKeyFrame, d)
             else
               (case validateStreamInfo info d of
                  Some e \<Rightarrow> (Some e, d)
                | None \<Rightarrow> step_then (decodeFramePacket packet frame info d) (\<lambda>d. (None, finishFrame info d))))"

section \<open>New and reset decoders\<close>

definition zero_frame_header :: FrameHeader where
  "zero_frame_header = \<lparr>fh_FrameType = KeyFrame, fh_Profile = 0, fh_ShowFrame = False, fh_FirstPartitionSize = 0,
     fh_HeaderSize = 0, fh_Width = 0, fh_Height = 0, fh_HorizScale = 0, fh_VertScale = 0\<rparr>"

definition zero_quant :: QuantHeader where
  "zero_quant = \<lparr>qh_BaseQIndex = 0, qh_Y1DCDelta = 0, qh_Y2DCDelta = 0, qh_Y2ACDelta = 0, qh_UVDCDelta = 0,
     qh_UVACDelta = 0, qh_Updated = False\<rparr>"

definition zero_state :: StateHeader where
  "zero_state = \<lparr>st_ColorSpace = 0, st_ClampType = 0, st_Segmentation = no_segmentation, st_LoopFilter = no_loop_filter,
     st_TokenPartition = 0, st_Quant = zero_quant,
     st_Refresh = \<lparr>rh_RefreshLast = False, rh_RefreshGolden = False, rh_RefreshAltRef = False, rh_CopyBufferToGolden = 0,
       rh_CopyBufferToAltRef = 0, rh_GoldenSignBias = False, rh_AltRefSignBias = False, rh_RefreshEntropyProbs = False\<rparr>,
     st_Probability = \<lparr>ph_UpdateCount = 0, ph_IndependentPartitions = False\<rparr>,
     st_Mode = \<lparr>mh_MBNoCoeffSkip = False, mh_ProbSkipFalse = 0, mh_ProbIntra = 0, mh_ProbLast = 0, mh_ProbGolden = 0,
       mh_YModeUpdated = False, mh_UVModeUpdated = False, mh_MVUpdateCount = 0\<rparr>\<rparr>"

definition zero_decoder :: Decoder where
  "zero_decoder = \<lparr>d_buf = [], d_pos = 0, d_value = 0, d_count = 0, d_rng = 0\<rparr>"

definition NewVP8Decoder :: "int \<Rightarrow> int \<Rightarrow> bool \<Rightarrow> VP8Decoder" where
  "NewVP8Decoder maxWidth maxHeight rejectResolutionChange =
     \<lparr>vd_MaxWidth = maxWidth, vd_MaxHeight = maxHeight, vd_RejectResolutionChange = rejectResolutionChange,
      vd_needKey = True, vd_initialized = False, vd_lastWidth = 0, vd_lastHeight = 0, vd_frameWidth = 0, vd_frameHeight = 0,
      vd_allocated = False, vd_frameCorrupt = False, vd_modesCorrupt = 0, vd_residualCorrupt = 0, vd_mbRows = 0, vd_mbCols = 0,
      vd_modes = [], vd_tokens = [], vd_tokenAbove = [], vd_frameHeader = zero_frame_header, vd_previousQuant = zero_quant,
      vd_previousLoopFilter = no_loop_filter, vd_state = zero_state, vd_partitions = empty_layout, vd_modeReader = zero_decoder,
      vd_tokenReaders = replicate 8 zero_decoder, vd_coefProbs = default_coef_probs, vd_frameCoefProbs = default_coef_probs,
      vd_modeProbs = ResetModeProbs, vd_frameModeProbs = ResetModeProbs, vd_segmentationState = no_segmentation,
      vd_segmentMap = [], vd_modesRest = [], vd_tokensRest = [], vd_aboveRest = [], vd_mapRest = []\<rparr>"

definition VP8Decoder_Reset :: "VP8Decoder \<Rightarrow> VP8Decoder" where
  "VP8Decoder_Reset d =
     d\<lparr>vd_needKey := True, vd_initialized := False, vd_lastWidth := 0, vd_lastHeight := 0, vd_frameCorrupt := False,
       vd_modesCorrupt := 0, vd_residualCorrupt := -1, vd_previousQuant := zero_quant, vd_previousLoopFilter := no_loop_filter,
       vd_state := zero_state, vd_segmentationState := no_segmentation, vd_frameHeader := zero_frame_header,
       vd_partitions := empty_layout, vd_coefProbs := default_coef_probs, vd_frameCoefProbs := default_coef_probs,
       vd_segmentMap := replicate (length (vd_segmentMap d)) 0, vd_modeProbs := ResetModeProbs, vd_frameModeProbs := ResetModeProbs\<rparr>"

end
