(* ===== verification/Vp8_Decoder_Laws.thy ===== *)
theory Vp8_Decoder_Laws
  imports Vp8_Key_Packet Vp8_Decoder Vp8_Mode_Decoding
begin

text \<open>
  The invariant of the decoder's workspace: whatever packets come, well-formed or not, the slices keep the sizes of
  the frame and the token storage stays clean.
\<close>

section \<open>The workspace\<close>

definition workspace_ok :: "VP8Decoder \<Rightarrow> bool" where
  "workspace_ok d \<longleftrightarrow> length (vd_tokenReaders d) = 8 \<and> list_all tokens_clean (vd_tokens d) \<and> list_all tokens_clean (vd_tokensRest d) \<and>
     (vd_allocated d \<longrightarrow> vd_mbRows d = mb_count (vd_frameHeight d) \<and> vd_mbCols d = mb_count (vd_frameWidth d) \<and>
        length (vd_modes d) = nat (vd_mbRows d * vd_mbCols d) \<and> length (vd_tokens d) = nat (vd_mbRows d * vd_mbCols d) \<and>
        length (vd_segmentMap d) = nat (vd_mbRows d * vd_mbCols d) \<and> length (vd_tokenAbove d) = nat (vd_mbCols d))"

lemma NewVP8Decoder_workspace: "workspace_ok (NewVP8Decoder w h r)"
  by (simp add: workspace_ok_def NewVP8Decoder_def)

lemma EnsureLen_length: "length (fst (EnsureLen z buf n)) = n"
  by (auto simp: EnsureLen_def Let_def min_def)

lemma EnsureLen_all:
  assumes "P z" "list_all P (fst buf)" "list_all P (snd buf)"
  shows "list_all P (fst (EnsureLen z buf n))" "list_all P (snd (EnsureLen z buf n))"
proof -
  have "list_all P (take n (fst buf @ snd buf))" "list_all P (drop n (fst buf @ snd buf))"
    using assms(2,3) by (auto simp: list_all_iff dest: in_set_takeD in_set_dropD)
  then show "list_all P (fst (EnsureLen z buf n))" "list_all P (snd (EnsureLen z buf n))"
    using assms(1) by (auto simp: EnsureLen_def Let_def list_all_iff)
qed

lemma ensureFrameBuffers_key:
  assumes "workspace_ok d" "si_KeyFrame info"
  shows "workspace_ok (ensureFrameBuffers info d)" "vd_allocated (ensureFrameBuffers info d)"
    "vd_frameWidth (ensureFrameBuffers info d) = si_Width info" "vd_frameHeight (ensureFrameBuffers info d) = si_Height info"
proof -
  let ?t = "(vd_tokens d, vd_tokensRest d)"
  have t: "list_all tokens_clean (fst (EnsureLen fresh_tokens ?t n))" "list_all tokens_clean (snd (EnsureLen fresh_tokens ?t n))" for n
    using EnsureLen_all [of tokens_clean fresh_tokens ?t n] assms(1) tokens_clean_fresh by (simp_all add: workspace_ok_def)
  show "workspace_ok (ensureFrameBuffers info d)" "vd_allocated (ensureFrameBuffers info d)"
    "vd_frameWidth (ensureFrameBuffers info d) = si_Width info" "vd_frameHeight (ensureFrameBuffers info d) = si_Height info"
    using assms t by (auto simp: ensureFrameBuffers_def ensureWorkspace_def workspace_ok_def EnsureLen_length mb_count_def Let_def)
qed

lemma ensureFrameBuffers_fields:
  "vd_state (ensureFrameBuffers info d) = vd_state d" "vd_partitions (ensureFrameBuffers info d) = vd_partitions d"
  "vd_modeReader (ensureFrameBuffers info d) = vd_modeReader d" "vd_tokenReaders (ensureFrameBuffers info d) = vd_tokenReaders d"
  "vd_frameCoefProbs (ensureFrameBuffers info d) = vd_frameCoefProbs d" "vd_frameModeProbs (ensureFrameBuffers info d) = vd_frameModeProbs d"
  "vd_frameHeader (ensureFrameBuffers info d) = vd_frameHeader d" "vd_frameCorrupt (ensureFrameBuffers info d) = vd_frameCorrupt d"
  by (simp_all add: ensureFrameBuffers_def ensureWorkspace_def Let_def)

section \<open>Reading keeps the sizes\<close>

definition keeps_streams :: "('s list, 'a) state \<Rightarrow> bool" where
  "keeps_streams m \<longleftrightarrow> (\<forall>ss. length (snd (run_state m ss)) = length ss)"

lemma keeps_return: "keeps_streams (State_Monad.return a)"
  by (simp add: keeps_streams_def)

lemma keeps_bind: "keeps_streams m \<Longrightarrow> (\<And>a. keeps_streams (f a)) \<Longrightarrow> keeps_streams (m \<bind> f)"
  by (simp add: keeps_streams_def case_prod_beta)

lemma keeps_on_stream: "keeps_streams (on_stream k m)"
  by (simp add: keeps_streams_def on_stream_def case_prod_beta)

lemma keeps_cell: "keeps_streams (read_tokens_cell probs P cols row col g left)"
  by (auto simp: read_tokens_cell_def Let_def intro!: keeps_return keeps_bind keeps_on_stream)

lemma keeps_row: "keeps_streams (read_tokens_row (read_tokens_cell probs P cols row) cs g left)"
  by (induction cs arbitrary: g left) (auto intro!: keeps_return keeps_bind keeps_cell)

lemma keeps_rows: "keeps_streams (read_tokens_rows (read_tokens_cell probs P cols) cols rows g)"
  by (induction rows arbitrary: g) (auto intro!: keeps_return keeps_bind keeps_row)

lemma keeps_DecodeTokenGrid: "keeps_streams (DecodeTokenGrid rows cols probs modes abv tokens)"
  unfolding DecodeTokenGrid_def
  by (rule keeps_bind) (auto simp: keeps_streams_def reader_count_def case_prod_beta keeps_rows [unfolded keeps_streams_def])

lemma yields_read_length: "yields (read_cells f cols cs modes) (\<lambda>ms. length ms = length modes)"
proof (induction cs arbitrary: modes)
  case (Cons c cs)
  have "yields (read_cells f cols cs (modes[i := m])) (\<lambda>ms. length ms = length modes)" for i m
    using Cons [of "modes[i := m]"] by simp
  then show ?case by (auto intro!: yields_seq)
qed (simp add: yields_return)

lemma decode_modes_length:
  assumes "run_state (decode_modes False key d) br = (Inr (first, modes), br')"
  shows "length modes = length (vd_modes d)"
proof -
  have "yields (decode_modes False key d) (\<lambda>r. \<forall>x. r = Inr x \<longrightarrow> length (snd x) = length (vd_modes d))"
    unfolding decode_modes_def DecodeKeyFrameModeGrid_def DecodeInterModeGrid_def Let_def
    by (auto intro!: yields_return yields_bind [OF yields_read_length])
  then show ?thesis using assms unfolding yields_def by (metis fst_conv snd_conv)
qed

section \<open>Token storage\<close>

definition grid_fits :: "nat \<Rightarrow> nat \<Rightarrow> nat \<Rightarrow> token_grid \<Rightarrow> bool" where
  "grid_fits m t a g \<longleftrightarrow> length (tg_modes g) = m \<and> length (tg_tokens g) = t \<and> length (tg_above g) = a \<and> list_all tokens_clean (tg_tokens g)"

lemma clean_nth: "list_all tokens_clean ts \<Longrightarrow> i < length ts \<Longrightarrow> tokens_clean (ts ! i)"
  by (simp add: list_all_length)

lemma fits_cell:
  assumes "grid_fits m t a g" "row * cols + col < t"
  shows "yields (read_tokens_cell probs P cols row col g left) (\<lambda>r. grid_fits m t a (fst r))"
proof -
  have c: "tokens_clean (tg_tokens g ! (row * cols + col))" using assms by (simp add: grid_fits_def clean_nth)
  have y: "yields (on_stream k (DecodeMacroblockTokens probs i (tg_above g ! col) left (tg_tokens g ! (row * cols + col))))
      (\<lambda>r. tokens_clean (snd (snd (snd r))))" for k i
    using conjunct2 [OF tokens_storage [OF c]] by (simp add: yields_def on_stream_def case_prod_beta)
  have s: "grid_fits m t a (fst (store_tokens (row * cols + col) col g r))" if "tokens_clean (snd (snd (snd r)))" for r
    using that assms(1) by (auto simp: store_tokens_def grid_fits_def list_all_update split: prod.splits)
  have k: "grid_fits m t a (fst (skip_tokens i (row * cols + col) col g left))" for i
    using assms(1) clear_fresh [OF c] tokens_clean_fresh
    by (auto simp: skip_tokens_def clearMacroblockTokensIfNeeded_def grid_fits_def list_all_update split: prod.splits)
  show ?thesis
    unfolding read_tokens_cell_def Let_def by (intro yields_if yields_return yields_bind [OF y]) (simp_all add: k s)
qed

lemma fits_row:
  assumes "grid_fits m t a g" "\<forall>col \<in> set cs. row * cols + col < t"
  shows "yields (read_tokens_row (read_tokens_cell probs P cols row) cs g left) (\<lambda>r. grid_fits m t a (fst r))"
  using assms
proof (induction cs arbitrary: g left)
  case (Cons col cs)
  then show ?case by (auto intro!: yields_bind [OF fits_cell])
qed (simp add: yields_return)

lemma fits_rows:
  assumes "grid_fits m t a g" "\<forall>row \<in> set rows. \<forall>col < cols. row * cols + col < t"
  shows "yields (read_tokens_rows (read_tokens_cell probs P cols) cols rows g) (grid_fits m t a)"
  using assms
proof (induction rows arbitrary: g)
  case (Cons row rows)
  then show ?case by (auto intro!: yields_bind [OF fits_row])
qed (simp add: yields_return)

section \<open>Every packet keeps the workspace\<close>

text \<open>What the workspace depends on.\<close>

definition same_workspace :: "VP8Decoder \<Rightarrow> VP8Decoder \<Rightarrow> bool" where
  "same_workspace d d' \<longleftrightarrow> length (vd_tokenReaders d') = length (vd_tokenReaders d) \<and> vd_tokens d' = vd_tokens d \<and>
     vd_tokensRest d' = vd_tokensRest d \<and> vd_allocated d' = vd_allocated d \<and> vd_mbRows d' = vd_mbRows d \<and> vd_mbCols d' = vd_mbCols d \<and>
     vd_frameHeight d' = vd_frameHeight d \<and> vd_frameWidth d' = vd_frameWidth d \<and> length (vd_modes d') = length (vd_modes d) \<and>
     length (vd_segmentMap d') = length (vd_segmentMap d) \<and> length (vd_tokenAbove d') = length (vd_tokenAbove d)"

lemma same_workspace_ok: "same_workspace d d' \<Longrightarrow> workspace_ok d' = workspace_ok d"
  unfolding same_workspace_def workspace_ok_def by simp

lemma parseState_workspace: "same_workspace d (snd (parseState packet frame ec d))"
  by (simp add: parseState_def same_workspace_def Let_def split: prod.split sum.split option.split)

lemma ensureFrameBuffers_workspace: "workspace_ok d \<Longrightarrow> workspace_ok (ensureFrameBuffers info d)"
  using ensureFrameBuffers_key(1) by (cases "si_KeyFrame info") (simp_all add: ensureFrameBuffers_def)

lemma restore_workspace: "same_workspace d (restoreSegmentMap (if key then clearSegmentMap d else d))"
  by (simp add: restoreSegmentMap_def clearSegmentMap_def same_workspace_def Let_def)

lemma decodeModeGrid_workspace: "same_workspace d (snd (decodeModeGrid False key d))"
proof -
  define e where "e = restoreSegmentMap (if key then clearSegmentMap d else d)"
  obtain r br where r: "run_state (decode_modes False key e) (vd_modeReader e) = (r, br)" by (metis surj_pair)
  have first: "fst x = None" if "r = Inr x" for x
    using r that unfolding decode_modes_def Let_def by (auto simp: map_sum_def split: if_splits prod.splits sum.splits)
  have s: "same_workspace d e" unfolding e_def by (rule restore_workspace)
  show ?thesis
  proof (cases r)
    case (Inl x)
    then show ?thesis using s r by (simp add: decodeModeGrid_def e_def [symmetric] Let_def)
  next
    case (Inr x)
    then have "length (snd x) = length (vd_modes e)" using decode_modes_length [of key e "vd_modeReader e" "fst x" "snd x" br] r by simp
    then show ?thesis using s r Inr first [OF Inr]
      by (cases x) (simp add: decodeModeGrid_def e_def [symmetric] Let_def same_workspace_def)
  qed
qed

lemma decodeTokenGrid_workspace:
  assumes "workspace_ok d" "vd_allocated d"
  shows "workspace_ok (snd (decodeTokenGrid False d))"
proof -
  let ?readers = "take (pl_TokenCount (vd_partitions d)) (vd_tokenReaders d)"
  let ?m = "DecodeTokenGrid (vd_mbRows d) (vd_mbCols d) (coef_table (vd_frameCoefProbs d)) (vd_modes d) (vd_tokenAbove d) (vd_tokens d)"
  obtain r ds where r: "run_state ?m ?readers = (r, ds)" by (metis surj_pair)
  have ds: "length ds = length ?readers" using keeps_DecodeTokenGrid r unfolding keeps_streams_def by (metis snd_conv)
  show ?thesis
  proof (cases r)
    case (Inl x)
    then show ?thesis using assms(1) r by (simp add: decodeTokenGrid_def Let_def)
  next
    case (Inr g)
    note w = assms(1)[unfolded workspace_ok_def]
    have fit: "\<not> tokens_refused (vd_mbRows d) (vd_mbCols d) (length (vd_modes d)) (length (vd_tokens d)) (length (vd_tokenAbove d)) (length ?readers)"
      using r Inr by (auto simp: DecodeTokenGrid_def reader_count_def)
    then have pos: "0 \<le> vd_mbRows d" "0 \<le> vd_mbCols d" by (auto simp: tokens_refused_def token_buffers_small_def grid_too_small_def)
    define G where "G = \<lparr>tg_modes = vd_modes d, tg_above = clear_above (nat (vd_mbCols d)) (vd_tokenAbove d), tg_tokens = vd_tokens d, tg_total = 0\<rparr>"
    let ?n = "nat (vd_mbRows d * vd_mbCols d)"
    have G: "grid_fits ?n ?n (nat (vd_mbCols d)) G"
      using w assms(2) by (simp add: grid_fits_def G_def clear_above_def)
    have ix: "row * nat (vd_mbCols d) + col < ?n" if "row < nat (vd_mbRows d)" "col < nat (vd_mbCols d)" for row col
    proof -
      have "Suc row * nat (vd_mbCols d) \<le> nat (vd_mbRows d) * nat (vd_mbCols d)" using that(1) by (intro mult_le_mono1) simp
      then show ?thesis using that(2) pos by (simp add: nat_mult_distrib)
    qed
    have "yields (read_tokens_rows (read_tokens_cell (coef_table (vd_frameCoefProbs d)) (int (length ?readers)) (nat (vd_mbCols d)))
        (nat (vd_mbCols d)) [0..<nat (vd_mbRows d)] G) (grid_fits ?n ?n (nat (vd_mbCols d)))"
      using ix by (intro fits_rows [OF G]) simp
    moreover have "g = fst (run_state (read_tokens_rows (read_tokens_cell (coef_table (vd_frameCoefProbs d)) (int (length ?readers)) (nat (vd_mbCols d)))
        (nat (vd_mbCols d)) [0..<nat (vd_mbRows d)] G) ?readers)"
      using r Inr fit unfolding G_def by (simp add: DecodeTokenGrid_def reader_count_def case_prod_beta)
    ultimately have "grid_fits ?n ?n (nat (vd_mbCols d)) g" by (simp add: yields_def)
    then show ?thesis using w assms(2) r Inr ds
      by (simp add: decodeTokenGrid_def Let_def store_grid_def workspace_ok_def grid_fits_def)
  qed
qed

lemma commit_workspace: "same_workspace d (commitParsedState key d)"
  by (simp add: commitParsedState_def commitSegmentMap_def same_workspace_def Let_def)

lemma finish_workspace: "same_workspace d (finishFrame info d)"
  by (simp add: finishFrame_def same_workspace_def)

text \<open>A decoder that takes inter frames has decoded a key frame, so its buffers are allocated.\<close>

definition decoder_ok :: "VP8Decoder \<Rightarrow> bool" where
  "decoder_ok d \<longleftrightarrow> workspace_ok d \<and> (vd_needKey d \<or> vd_allocated d)"

lemma step_then_keeps:
  assumes "P (snd r)" "\<And>d. P d \<Longrightarrow> P (snd (f d))"
  shows "P (snd (step_then r f))"
  using assms by (cases r) (simp add: step_then_def split: option.split)

lemma parse_needKey: "vd_needKey (snd (parseState packet frame ec d)) = vd_needKey d"
  by (simp add: parseState_def Let_def split: prod.split sum.split option.split)

lemma restore_needKey: "vd_needKey (restoreSegmentMap (if key then clearSegmentMap d else d)) = vd_needKey d"
  by (simp add: restoreSegmentMap_def clearSegmentMap_def Let_def)

lemma modes_needKey: "vd_needKey (snd (decodeModeGrid concealing key d)) = vd_needKey d"
proof -
  define e where "e = restoreSegmentMap (if key then clearSegmentMap d else d)"
  have "vd_needKey (snd (decodeModeGrid concealing key d)) = vd_needKey e"
    unfolding decodeModeGrid_def e_def [symmetric] Let_def by (simp split: prod.split sum.split option.split)
  then show ?thesis by (simp add: e_def restore_needKey)
qed

lemma decodeFramePacket_ok:
  assumes "decoder_ok d" "si_KeyFrame info \<or> vd_allocated d"
  shows "decoder_ok (snd (decodeFramePacket packet frame info d)) \<and>
    (fst (decodeFramePacket packet frame info d) = None \<longrightarrow> vd_allocated (snd (decodeFramePacket packet frame info d)))"
proof -
  let ?d0 = "d\<lparr>vd_frameCorrupt := False, vd_modesCorrupt := 0, vd_residualCorrupt := -1\<rparr>"
  have w: "workspace_ok d" "vd_needKey d \<or> vd_allocated d" using assms(1) by (simp_all add: decoder_ok_def)
  have w0: "workspace_ok ?d0" using w(1) by (simp add: workspace_ok_def)
  obtain e1 d1 where p: "parseState packet frame False ?d0 = (e1, d1)" by (metis surj_pair)
  have w1: "workspace_ok d1" "vd_needKey d1 = vd_needKey d" "vd_allocated d1 = vd_allocated d"
  proof -
    have same: "same_workspace ?d0 d1" using parseState_workspace [of ?d0 packet frame False] unfolding p by simp
    show "workspace_ok d1" using same_workspace_ok [OF same] w0 by blast
    show "vd_allocated d1 = vd_allocated d" using same by (simp add: same_workspace_def)
    show "vd_needKey d1 = vd_needKey d" using parse_needKey [of packet frame False ?d0] unfolding p by simp
  qed
  show ?thesis
  proof (cases e1)
    case (Some x)
    then show ?thesis using p w w1 by (simp add: decodeFramePacket_def step_then_def decoder_ok_def)
  next
    case None
    let ?d2 = "ensureFrameBuffers info d1"
    have n2: "vd_needKey ?d2 = vd_needKey d1" by (simp add: ensureFrameBuffers_def ensureWorkspace_def Let_def)
    have w2: "workspace_ok ?d2" "vd_allocated ?d2"
    proof -
      show "workspace_ok ?d2" by (rule ensureFrameBuffers_workspace [OF w1(1)])
      show "vd_allocated ?d2"
      proof (cases "si_KeyFrame info")
        case True
        then show ?thesis by (rule ensureFrameBuffers_key(2) [OF w1(1)])
      next
        case False
        then have "vd_allocated d1" using assms(2) w1(3) by blast
        then show ?thesis using False by (simp only: ensureFrameBuffers_def if_True not_False_eq_True)
      qed
    qed
    obtain e3 d3 where m: "decodeModeGrid False (si_KeyFrame info) ?d2 = (e3, d3)" by (metis surj_pair)
    have w3: "workspace_ok d3" "vd_allocated d3" "vd_needKey d3 = vd_needKey d"
    proof -
      have same: "same_workspace ?d2 d3" using decodeModeGrid_workspace [of ?d2 "si_KeyFrame info"] unfolding m by simp
      show "workspace_ok d3" using same_workspace_ok [OF same] w2(1) by blast
      show "vd_allocated d3" using same w2(2) by (simp add: same_workspace_def)
      show "vd_needKey d3 = vd_needKey d" using modes_needKey [of False "si_KeyFrame info" ?d2] n2 w1(2) unfolding m by simp
    qed
    obtain e4 d4 where t: "decodeTokenGrid False d3 = (e4, d4)" by (metis surj_pair)
    have w4: "workspace_ok d4" using decodeTokenGrid_workspace [OF w3(1,2)] t by simp
    have a4: "vd_allocated d4" "vd_needKey d4 = vd_needKey d"
      using t w3(2,3) by (auto simp: decodeTokenGrid_def store_grid_def Let_def split: prod.splits sum.splits)
    have w5: "workspace_ok (commitParsedState k d4)" "vd_allocated (commitParsedState k d4)" for k
    proof -
      have same: "same_workspace d4 (commitParsedState k d4)" by (rule commit_workspace)
      show "workspace_ok (commitParsedState k d4)" using same_workspace_ok [OF same] w4 by blast
      show "vd_allocated (commitParsedState k d4)" using same a4(1) by (simp add: same_workspace_def)
    qed
    have r: "decodeFramePacket packet frame info d =
        (if e3 \<noteq> None then (e3, d3) else if e4 \<noteq> None then (e4, d4)
         else (None, if \<not> vd_frameCorrupt d4 then commitParsedState (si_KeyFrame info) d4 else d4))"
      using p None m t by (simp add: decodeFramePacket_def step_then_def split: option.split)
    show ?thesis unfolding r using w3 w4 a4 w5 by (simp add: decoder_ok_def)
  qed
qed

lemma DecodeWithPTS_ok:
  assumes "decoder_ok d"
  shows "decoder_ok (snd (DecodeWithPTS packet d))"
proof (cases "ParseFrameHeader packet")
  case (Inl x)
  then show ?thesis using assms by (simp add: DecodeWithPTS_def)
next
  case (Inr frame)
  let ?info = "StreamInfoFromFrameHeader frame"
  show ?thesis
  proof (cases "vd_needKey d \<and> \<not> si_KeyFrame ?info \<or> validateStreamInfo ?info d \<noteq> None")
    case True
    then show ?thesis using assms Inr by (auto simp: DecodeWithPTS_def Let_def)
  next
    case False
    then have a: "si_KeyFrame ?info \<or> vd_allocated d" using assms by (auto simp: decoder_ok_def)
    obtain e d1 where r: "decodeFramePacket packet frame ?info d = (e, d1)" by (metis surj_pair)
    have ok: "decoder_ok d1" "e = None \<longrightarrow> vd_allocated d1" using decodeFramePacket_ok [OF assms a, of packet frame] unfolding r by simp_all
    have "decoder_ok (finishFrame ?info d1)" if "e = None"
    proof -
      have same: "same_workspace d1 (finishFrame ?info d1)" by (rule finish_workspace)
      have "workspace_ok (finishFrame ?info d1)" using same_workspace_ok [OF same] ok(1) by (simp add: decoder_ok_def)
      moreover have "vd_allocated (finishFrame ?info d1)" using same ok(2) that by (simp add: same_workspace_def)
      ultimately show ?thesis by (simp add: decoder_ok_def)
    qed
    then show ?thesis using False Inr r ok(1) by (auto simp: DecodeWithPTS_def step_then_def Let_def split: option.split)
  qed
qed

text \<open>A decoder after some packets.\<close>

definition decoder_after :: "byte list list \<Rightarrow> VP8Decoder \<Rightarrow> VP8Decoder" where
  "decoder_after packets d = foldl (\<lambda>d packet. snd (DecodeWithPTS packet d)) d packets"

lemma decoder_after_ok: "decoder_ok d \<Longrightarrow> decoder_ok (decoder_after packets d)"
  unfolding decoder_after_def by (induction packets arbitrary: d) (simp_all add: DecodeWithPTS_ok)

lemma NewVP8Decoder_ok: "decoder_ok (NewVP8Decoder w h r)"
  using NewVP8Decoder_workspace by (simp add: decoder_ok_def NewVP8Decoder_def)

lemma Reset_ok: "decoder_ok d \<Longrightarrow> decoder_ok (VP8Decoder_Reset d)"
  by (simp add: decoder_ok_def workspace_ok_def VP8Decoder_Reset_def)

end
