(* ===== verification/Vp8_Key_Sent.thy ===== *)
theory Vp8_Key_Sent
  imports Vp8_Packet_Laws Vp8_Decoder_Laws
begin

text \<open>
  What a written key-frame packet parses to: its header, its modes, its partitions and the tokens in them.
\<close>

section \<open>Tables in memory\<close>

lemma chunks_concat: "\<forall>x \<in> set xs. length x = m \<Longrightarrow> length xs = n \<Longrightarrow> chunks m n (concat xs) = xs"
  by (induction xs arbitrary: n) (auto split: nat.splits)

lemma coef_table_flat: "coef_shape t \<Longrightarrow> coef_table (flat t) = t"
  unfolding coef_table_def flat_concat using shape_levels [of t] by (simp add: chunks_concat)

lemma default_coef_probs_flat: "default_coef_probs = default_probs"
  by (simp add: default_coef_probs_def default_probs_def flat_def)

lemma mb_count_bounds:
  assumes "0 < x" "x \<le> 0x3fff"
  shows "0 < mb_count x" "mb_count x \<le> 1024"
  using assms by (simp_all add: mb_count_def drop_bit_eq_div)

section \<open>What a written packet parses to\<close>

lemma merge_key_segmentation: "MergeSegmentationHeader no_segmentation (segmentation_sent cfg) = segmentation_sent cfg"
proof (cases "sc_Enabled cfg")
  case True
  then show ?thesis
    unfolding MergeSegmentationHeader_def segmentation_sent_def no_segmentation_def Let_def
    by (cases "sc_UpdateMap cfg"; cases "sc_UpdateData cfg") (simp_all del: upt_Suc upt_rec_numeral map_upt_Suc)
qed (simp add: MergeSegmentationHeader_def segmentation_sent_def no_segmentation_def)

lemma writes_message:
  assumes "writes m xs r" "w_err (Finish (snd (run_state m (Writer_Init dst)))) = 0"
  shows "snd (run_state m (Writer_Init dst)) = write_bools (Writer_Init dst) xs"
proof -
  note e = emitsD [OF writes_emits [OF assms(1)] Init_writer(2), of dst]
  note b = emitsD [OF emits_write_bools Init_writer(2), of dst xs]
  have z: "w_err (snd (run_state m (Writer_Init dst))) = 0" using e(1) assms(2) by (rule finish_ok_before)
  then have "w_err (write_bools (Writer_Init dst) xs) = 0" unfolding e(2) b(2) .
  then show ?thesis unfolding e(3) [OF z] by (rule b(3) [symmetric])
qed

lemma key_packet_parts:
  assumes "key_packet cfg width height mw oneWriter manyWriters scratch pc dst = Inr (n, buf)" "10 \<le> length dst"
  shows "\<exists>w1 w dst1 dst2. run_state (WriteKeyFrameStateHeader cfg) (Writer_Init (drop 10 dst)) = (None, w1) \<and> run_state mw w1 = (None, w) \<and>
    w_err (Finish w) = 0 \<and> dst1 = take 10 dst @ w_buf (Finish w) \<and>
    token_partitions oneWriter manyWriters scratch (unat (c_TokenPartition cfg)) pc dst1 (10 + w_pos (Finish w)) = Inr (n, dst2) \<and>
    put_packet_head dst2 True 0 (\<not> k_InvisibleFrame cfg) (int (w_pos (Finish w))) width height
      (uint (k_HorizScale cfg)) (uint (k_VertScale cfg)) = Inr buf"
proof -
  obtain dst1 firstSize where f: "first_partition (WriteKeyFrameStateHeader cfg) mw dst = Inr (dst1, firstSize)"
    using assms(1) by (auto simp: key_packet_def split: sum.splits)
  obtain dst2 where t: "token_partitions oneWriter manyWriters scratch (unat (c_TokenPartition cfg)) pc dst1 (10 + firstSize) = Inr (n, dst2)"
    and h: "put_packet_head dst2 True 0 (\<not> k_InvisibleFrame cfg) (int firstSize) width height
      (uint (k_HorizScale cfg)) (uint (k_VertScale cfg)) = Inr buf"
    using assms(1) f by (auto simp: key_packet_def put_key_head_def map_sum_def split: sum.splits)
  from first_partition_written [OF f] t h show ?thesis by blast
qed

lemma key_packet_sent:
  assumes packet: "key_packet cfg width height (WriteKeyFrameModeGridWithSegmentationAndSkip rows cols modes (c_Segmentation cfg)
      (c_MBNoCoeffSkip cfg) (c_ProbSkipFalse cfg)) oneWriter manyWriters scratch pc dst = Inr (n, buf)"
    and shape: "key_config_shape cfg" "list_all (\<lambda>m. length (km_BModes m) = 16) modes" "10 \<le> length dst"
    and pc: "pc = 2 ^ unat (c_TokenPartition cfg)" and scratch: "\<forall>s. scratch = Some s \<longrightarrow> length s = 8"
    and old: "\<not> grid_too_small rows cols (length old)"
    and one: "\<And>dst w. run_state oneWriter (Writer_Init dst) = (None, w) \<Longrightarrow> w_err (Finish w) = 0 \<Longrightarrow> pc = 1 \<Longrightarrow>
      (\<exists>xs. w = write_bools (Writer_Init dst) xs) \<and> decoded [Bytes (Finish w)]"
    and many: "\<And>dsts ws. length dsts = pc \<Longrightarrow> pc \<noteq> 1 \<Longrightarrow> run_state (manyWriters (int pc)) (map Writer_Init dsts) = (None, ws) \<Longrightarrow>
      (\<forall>k < pc. w_err (Finish (ws ! k)) = 0) \<Longrightarrow>
      length ws = pc \<and> (\<forall>k < pc. \<exists>xs. ws ! k = write_bools (Writer_Init (dsts ! k)) xs) \<and> decoded (map (\<lambda>w. Bytes (Finish w)) ws)"
    and len: "\<And>dsts ws. length dsts = pc \<Longrightarrow> pc \<noteq> 1 \<Longrightarrow> run_state (manyWriters (int pc)) (map Writer_Init dsts) = (None, ws) \<Longrightarrow> length ws = pc"
  shows "\<exists>firstSize frame bs br br' layout.
    frame = \<lparr>fh_FrameType = KeyFrame, fh_Profile = 0, fh_ShowFrame = (\<not> k_InvisibleFrame cfg), fh_FirstPartitionSize = firstSize,
      fh_HeaderSize = 10, fh_Width = width, fh_Height = height, fh_HorizScale = uint (k_HorizScale cfg), fh_VertScale = uint (k_VertScale cfg)\<rparr> \<and>
    ParseFrameHeader (take n buf) = Inr frame \<and>
    parseStateHeaderFromFrame (take n buf) frame previousQuant previousLoopFilter (Some probs) (Some modeProbs) False =
      (Inr (frame, key_state_sent cfg previousQuant, br), fst (coef_sent (c_CoefficientProbs cfg) (Some default_probs)), Some ResetModeProbs) \<and>
    run_state (DecodeKeyFrameModeGrid rows cols (Some (segmentation_sent (c_Segmentation cfg))) (st_Mode (key_state_sent cfg previousQuant)) old) br =
      (Inr (grid_sent (nat rows * nat cols) (key_cell_sent (c_Segmentation cfg) (c_MBNoCoeffSkip cfg) modes) old), br') \<and>
    Decoder_Err br' = None \<and>
    ParsePartitionLayout (take n buf) frame (unat (c_TokenPartition cfg)) = (None, layout) \<and> pl_TokenCount layout = pc \<and>
    pl_Tokens layout = bs @ replicate (8 - pc) [] \<and> length bs = pc \<and> decoded bs"
proof -
  let ?m = "WriteKeyFrameModeGridWithSegmentationAndSkip rows cols modes (c_Segmentation cfg) (c_MBNoCoeffSkip cfg) (c_ProbSkipFalse cfg)"
  obtain w1 w dst1 dst2 where w: "run_state (WriteKeyFrameStateHeader cfg) (Writer_Init (drop 10 dst)) = (None, w1)" "run_state ?m w1 = (None, w)"
      "w_err (Finish w) = 0" "dst1 = take 10 dst @ w_buf (Finish w)"
    and tok: "token_partitions oneWriter manyWriters scratch (unat (c_TokenPartition cfg)) pc dst1 (10 + w_pos (Finish w)) = Inr (n, dst2)"
    and put: "put_packet_head dst2 True 0 (\<not> k_InvisibleFrame cfg) (int (w_pos (Finish w))) width height
      (uint (k_HorizScale cfg)) (uint (k_VertScale cfg)) = Inr buf"
    using key_packet_parts [OF packet shape(3)] by blast
  have ok: "common_ok cfg" "k_ClampType cfg \<le> 1" "coefs_ok (c_CoefficientProbs cfg)"
    using key_header_written [of cfg "Writer_Init (drop 10 dst)"] shape(1) w(1) by simp_all
  have grid: "\<not> grid_too_small rows cols (length modes)" "validSegmentationConfig (c_Segmentation cfg)"
    "key_grid_ok (c_Segmentation cfg) (nat rows * nat cols) modes"
    using key_grid_written [of rows cols modes "c_Segmentation cfg" "c_MBNoCoeffSkip cfg" "c_ProbSkipFalse cfg" w1] shape(2) w(2) by simp_all
  define hdr where "hdr = st_Mode (key_state_sent cfg previousQuant)"
  have h: "mh_MBNoCoeffSkip hdr = c_MBNoCoeffSkip cfg" "mh_ProbSkipFalse hdr = (if c_MBNoCoeffSkip cfg then c_ProbSkipFalse cfg else 0)"
    by (simp_all add: hdr_def key_state_sent_def)
  have m: "codes ?m (DecodeKeyFrameModeGrid rows cols (Some (segmentation_sent (c_Segmentation cfg))) hdr old) None
      (Inr (grid_sent (nat rows * nat cols) (key_cell_sent (c_Segmentation cfg) (c_MBNoCoeffSkip cfg) modes) old))"
    using codes_key_grid [OF grid(1) old grid(2,3), of hdr] unfolding h grid_skip_prob [symmetric] .
  let ?M = "WriteKeyFrameStateHeader cfg \<bind> (\<lambda>_. ?m)"
  have W: "snd (run_state ?M (Writer_Init (drop 10 dst))) = w" using w(1,2) by simp
  define B where "B = Bytes (Finish w)"
  define T where "T = 10 + w_pos (Finish w)"
  define frame where "frame = \<lparr>fh_FrameType = KeyFrame, fh_Profile = 0, fh_ShowFrame = (\<not> k_InvisibleFrame cfg),
      fh_FirstPartitionSize = int (w_pos (Finish w)), fh_HeaderSize = 10, fh_Width = width, fh_Height = height,
      fh_HorizScale = uint (k_HorizScale cfg), fh_VertScale = uint (k_VertScale cfg)\<rparr>"
  have key: "FrameHeader_KeyFrame frame" by (simp add: frame_def FrameHeader_KeyFrame_def)
  note state = codes_key_state [OF ok key, of previousQuant previousLoopFilter "Some probs" "Some modeProbs"]
  obtain xs where xs: "writes ?M xs None"
    using state m writes_bind writes_sticky unfolding codes_def by metis
  have pos: "w_pos (Finish w) \<le> length (w_buf (Finish w))"
  proof -
    have wb: "w = write_bools (Writer_Init (drop 10 dst)) xs"
      using writes_message [OF xs, of "drop 10 dst"] w(3) W by simp
    show ?thesis unfolding wb by (rule partition_pos)
  qed
  have T: "T \<le> length dst1" using pos shape(3) by (simp add: T_def w(4))
  have tp: "unat (c_TokenPartition cfg) \<le> 3" using ok(1) by (simp add: common_ok_def word_le_nat_alt)
  have "\<exists>bs. take n dst2 = take T dst1 @ size_table bs @ concat bs \<and> length bs = pc \<and> (\<forall>b \<in> set bs. b \<noteq> []) \<and>
      (\<forall>b \<in> set (butlast bs). length b < 2 ^ 24) \<and> decoded bs \<and> T \<le> n \<and> n \<le> length dst2 \<and> take T dst2 = take T dst1"
    by (rule token_partitions_laid_out [OF tok [folded T_def] pc tp T scratch]) (erule (2) one, erule (3) many, erule (2) len)
  then obtain bs where bs: "take n dst2 = take T dst1 @ size_table bs @ concat bs" "length bs = pc" "\<forall>b \<in> set bs. b \<noteq> []"
    "\<forall>b \<in> set (butlast bs). length b < 2 ^ 24" "decoded bs" "T \<le> n" "n \<le> length dst2" "take T dst2 = take T dst1" by blast
  have n10: "10 \<le> n" using bs(6) by (simp add: T_def)
  note head = put_packet_head_take [OF put n10 bs(7)]
  have pf: "ParseFrameHeader (take n buf) = Inr frame" using put_head_parses [OF head(1)] by (simp add: frame_def)
  have lay: "take n buf = take T buf @ size_table bs @ concat bs"
  proof -
    have e: "drop 10 (take n buf) = drop 10 (take n dst2)" using head(2) by (simp add: drop_take)
    have "take n buf = take 10 buf @ drop 10 (take n buf)" using n10 by (metis append_take_drop_id min.absorb1 take_take)
    also have "\<dots> = take 10 buf @ drop 10 (take T dst1) @ size_table bs @ concat bs"
      using T bs(1) by (simp add: e T_def)
    also have "drop 10 (take T dst1) = drop 10 (take T buf)"
      using head(2) bs(8) by (metis drop_take)
    also have "take 10 buf @ drop 10 (take T buf) @ size_table bs @ concat bs = (take 10 buf @ drop 10 (take T buf)) @ size_table bs @ concat bs" by simp
    also have "take 10 buf @ drop 10 (take T buf) = take T buf"
      by (metis T_def append_take_drop_id le_add1 min.absorb1 take_take)
    finally show ?thesis .
  qed
  have first: "drop 10 (take n buf) = B @ size_table bs @ concat bs"
  proof -
    have "drop 10 (take T buf) = drop 10 (take T dst1)" using head(2) bs(8) by (metis drop_take)
    also have "\<dots> = B" using shape(3) by (simp add: T_def B_def w(4) Bytes_def)
    finally show ?thesis using lay T head(3) bs(6,7) by (simp add: T_def)
  qed
  have size: "length B = w_pos (Finish w)" using pos by (simp add: B_def Bytes_def)
  have fit: "w_err (Finish (snd (run_state ?M (Writer_Init (drop 10 dst))))) = 0" using w(3) by (simp only: W)
  obtain br br' where br: "run_state (parse_state_bits frame previousQuant previousLoopFilter (Some probs) (Some modeProbs))
        (Decoder_Init (B @ size_table bs @ concat bs)) =
      ((key_state_sent cfg previousQuant, fst (coef_sent (c_CoefficientProbs cfg) (Some default_probs)), Some ResetModeProbs), br)"
    "Decoder_Err br = None"
    "run_state (DecodeKeyFrameModeGrid rows cols (Some (segmentation_sent (c_Segmentation cfg))) hdr old) br =
      (Inr (grid_sent (nat rows * nat cols) (key_cell_sent (c_Segmentation cfg) (c_MBNoCoeffSkip cfg) modes) old), br')"
    "Decoder_Err br' = None"
    using codes_message_split [OF state m fit, of "size_table bs @ concat bs"] unfolding W B_def by auto
  have ln: "length (take n buf) = n" using bs(7) head(3) by simp
  have ps: "parseStateHeaderFromFrame (take n buf) frame previousQuant previousLoopFilter (Some probs) (Some modeProbs) False =
      (Inr (frame, key_state_sent cfg previousQuant, br), fst (coef_sent (c_CoefficientProbs cfg) (Some default_probs)), Some ResetModeProbs)"
    using br(1,2) first ln bs(6) unfolding parseStateHeaderFromFrame_def by (simp add: frame_def T_def)
  have Tb: "T \<le> length buf" using bs(6,7) head(3) by simp
  have pl: "ParsePartitionLayout (take n buf) frame (unat (c_TokenPartition cfg)) =
      (None, \<lparr>pl_First = take (T - 10) (drop 10 buf), pl_Tokens = bs @ replicate (8 - length bs) [], pl_TokenCount = 2 ^ unat (c_TokenPartition cfg)\<rparr>)"
    by (rule parse_laid_out [OF lay Tb _ tp bs(3,4)]) (simp_all add: bs(2) pc frame_def T_def)
  show ?thesis
    using pf ps br(3,4) pl bs(2,5) unfolding hdr_def [symmetric]
    by (intro exI [of _ "int (w_pos (Finish w))"] exI [of _ frame] exI [of _ bs] exI [of _ br] exI [of _ br'] exI) (auto simp: frame_def pc)
qed

section \<open>What the writer did\<close>

lemma counted_chosen: "counted walk f = (Inr x, abv') \<Longrightarrow> \<exists>counts. x = f counts"
  by (auto simp: counted_def split: prod.splits option.splits)

lemma key_updates_chosen:
  assumes "key_coefficient_updates cfg rows cols modes coeffs abv base prebuilt = (Inr st, abv')"
  shows "chosen_updates base st"
proof (cases "k_IndependentContexts cfg")
  case True
  then show ?thesis using assms
    by (auto simp: key_coefficient_updates_def BuildKeyFrameCoefficientProbabilityUpdatesIndependent_def chosen_updates_def split: prod.splits option.splits)
next
  case False
  then have "\<exists>counts. st = coefficientProbabilityUpdatesFromTokenCounts base counts"
    using assms counted_chosen
    by (auto simp: key_coefficient_updates_def BuildInterCoefficientProbabilityUpdatesFromPrebuiltCounts_def
        BuildKeyFrameCoefficientProbabilityUpdates_def split: option.splits)
  then show ?thesis by (auto simp: chosen_updates_def)
qed

definition config_sent :: "KeyFrameStateConfig \<Rightarrow> int \<Rightarrow> int \<Rightarrow> KeyFrameMacroblockMode list \<Rightarrow> CoefficientProbabilityUpdates \<Rightarrow> KeyFrameStateConfig" where
  "config_sent cfg rows cols modes updates =
     (if c_MBNoCoeffSkip cfg \<and> c_ProbSkipFalse cfg = 0
      then cfg\<lparr>c_ProbSkipFalse := keyFrameModeSkipFalseProbability rows cols modes\<rparr> else cfg)\<lparr>c_CoefficientProbs := updates\<rparr>"

lemma config_sent_fields [simp]:
  "c_Segmentation (config_sent cfg rows cols modes u) = c_Segmentation cfg" "c_MBNoCoeffSkip (config_sent cfg rows cols modes u) = c_MBNoCoeffSkip cfg"
  "c_TokenPartition (config_sent cfg rows cols modes u) = c_TokenPartition cfg" "c_CoefficientProbs (config_sent cfg rows cols modes u) = u"
  "k_InvisibleFrame (config_sent cfg rows cols modes u) = k_InvisibleFrame cfg" "k_HorizScale (config_sent cfg rows cols modes u) = k_HorizScale cfg"
  "k_VertScale (config_sent cfg rows cols modes u) = k_VertScale cfg" "c_RefreshEntropyProbs (config_sent cfg rows cols modes u) = c_RefreshEntropyProbs cfg"
  "lf_config_ok (config_sent cfg rows cols modes u) = lf_config_ok cfg" "quant_sent (config_sent cfg rows cols modes u) q = quant_sent cfg q"
  "loop_filter_sent (config_sent cfg rows cols modes u) h = loop_filter_sent cfg h"
  by (simp_all add: config_sent_def lf_config_ok_def quant_sent_def loop_filter_sent_def)

lemma key_frame_written:
  assumes "WriteCoefficientKeyFrameWithProbabilityBaseScratchAndCounts dst width height cfg modes coeffs abv base scratch prebuilt = Inr r"
  shows "\<exists>abv' updates pc. 10 \<le> length dst \<and> \<not> key_dimensions_bad width height \<and>
    mb_count height * mb_count width \<le> int (length modes) \<and> mb_count height * mb_count width \<le> int (length coeffs) \<and> tokenPartitionCount (unat (c_TokenPartition cfg)) = Some pc \<and>
    kp_Modes r = (if c_MBNoCoeffSkip cfg then DeriveKeyFrameModeSkipFlags (mb_count height) (mb_count width) modes coeffs else modes) \<and>
    chosen_updates base (kp_Probs r, updates) \<and>
    (let cfg = config_sent cfg (mb_count height) (mb_count width) (kp_Modes r) updates in
     key_packet cfg width height
       (WriteKeyFrameModeGridWithSegmentationAndSkip (mb_count height) (mb_count width) (kp_Modes r) (c_Segmentation cfg) (c_MBNoCoeffSkip cfg) (c_ProbSkipFalse cfg))
       (do { x \<leftarrow> WriteCoefficientTokenGrid (mb_count height) (mb_count width) (kp_Modes r) coeffs abv' (kp_Probs r); State_Monad.return (fst x) })
       (\<lambda>partitions. do { x \<leftarrow> WriteCoefficientTokenGridPartitioned partitions (mb_count height) (mb_count width) (kp_Modes r) coeffs abv' (kp_Probs r);
          State_Monad.return (fst x) })
       scratch pc dst = Inr (kp_Size r, kp_Buffer r))"
proof -
  let ?rows = "mb_count height" and ?cols = "mb_count width"
  define modes' where "modes' = (if c_MBNoCoeffSkip cfg then DeriveKeyFrameModeSkipFlags ?rows ?cols modes coeffs else modes)"
  define cfg' where "cfg' = (if c_MBNoCoeffSkip cfg \<and> c_ProbSkipFalse cfg = 0
    then cfg\<lparr>c_ProbSkipFalse := keyFrameModeSkipFalseProbability ?rows ?cols modes'\<rparr> else cfg)"
  have ok: "\<not> length dst < 10" "\<not> key_dimensions_bad width height"
    using assms by (auto simp: WriteCoefficientKeyFrameWithProbabilityBaseScratchAndCounts_def split: if_split_asm)
  obtain pc where pc: "tokenPartitionCount (unat (c_TokenPartition cfg)) = Some pc"
    using assms ok by (auto simp: WriteCoefficientKeyFrameWithProbabilityBaseScratchAndCounts_def split: option.splits)
  have big: "\<not> (int (length modes) < ?rows * ?cols \<or> int (length coeffs) < ?rows * ?cols \<or> int (length abv) < ?cols)"
    using assms ok pc by (auto simp: WriteCoefficientKeyFrameWithProbabilityBaseScratchAndCounts_def Let_def split: if_split_asm)
  obtain c abv' where c: "key_coefficient_updates cfg' ?rows ?cols modes' coeffs abv base prebuilt = (c, abv')" by (metis surj_pair)
  note run = assms [unfolded WriteCoefficientKeyFrameWithProbabilityBaseScratchAndCounts_def if_not_P [OF ok(1)] if_not_P [OF ok(2)]
    pc option.case Let_def if_not_P [OF big], folded modes'_def, folded cfg'_def, unfolded c prod.case]
  obtain probs updates where u: "c = Inr (probs, updates)" using run by (cases c) auto
  have cfg: "config_sent cfg ?rows ?cols modes' updates = cfg'\<lparr>c_CoefficientProbs := updates\<rparr>" by (simp add: config_sent_def cfg'_def)
  note run = run [unfolded u sum.case prod.case, folded cfg]
  from run obtain n buf where k: "r = \<lparr>kp_Size = n, kp_Buffer = buf, kp_Probs = probs, kp_Modes = modes'\<rparr>"
    and p: "key_packet (config_sent cfg ?rows ?cols modes' updates) width height
       (WriteKeyFrameModeGridWithSegmentationAndSkip ?rows ?cols modes' (c_Segmentation (config_sent cfg ?rows ?cols modes' updates))
         (c_MBNoCoeffSkip (config_sent cfg ?rows ?cols modes' updates)) (c_ProbSkipFalse (config_sent cfg ?rows ?cols modes' updates)))
       (do { x \<leftarrow> WriteCoefficientTokenGrid ?rows ?cols modes' coeffs abv' probs; State_Monad.return (fst x) })
       (\<lambda>partitions. do { x \<leftarrow> WriteCoefficientTokenGridPartitioned partitions ?rows ?cols modes' coeffs abv' probs;
          State_Monad.return (fst x) })
       scratch pc dst = Inr (n, buf)"
    by (auto simp: map_sum_def split: sum.splits)
  have "chosen_updates base (probs, updates)" using key_updates_chosen [OF c [unfolded u]] .
  then show ?thesis
    using ok pc big p unfolding Let_def k by (intro exI [of _ abv'] exI [of _ updates] exI [of _ pc]) (simp add: modes'_def)
qed

section \<open>The parts come back together\<close>

lemma key_grid_fits:
  assumes "\<not> key_dimensions_bad width height" "length xs = nat (mb_count height * mb_count width)"
  shows "\<not> grid_too_small (mb_count height) (mb_count width) (length xs)"
    "0 \<le> mb_count height" "0 \<le> mb_count width"
proof -
  have d: "0 < width" "width \<le> 0x3fff" "0 < height" "height \<le> 0x3fff" using assms(1) by (simp_all add: key_dimensions_bad_def)
  note h = mb_count_bounds [OF d(3,4)] and w = mb_count_bounds [OF d(1,2)]
  have "mb_count width * mb_count height \<le> 1024 * 1024" using h w by (intro mult_mono) simp_all
  then have "mb_count width * mb_count height \<le> max_int" by (simp add: max_int_def)
  then have "mb_count width \<le> max_int div mb_count height"
    using h(1) zdiv_mono1 [of "mb_count width * mb_count height" max_int "mb_count height"] by simp
  then show "\<not> grid_too_small (mb_count height) (mb_count width) (length xs)"
    using assms(2) h w by (simp add: grid_too_small_def)
  show "0 \<le> mb_count height" "0 \<le> mb_count width" using h w by simp_all
qed

lemma key_partitions_length:
  fixes dabv :: "TokenContextPlanes list" and tokens :: "MacroblockTokens list"
  assumes "several (int P)" "length dsts = P"
    and "\<not> token_buffers_small (int rows) (int cols) (length modes) (length coeffs) (length abv)"
    and "\<not> token_buffers_small (int rows) (int cols) (length dmodes) (length tokens) (length dabv)"
    and "\<forall>i < rows * cols. key_tokens.sent_as (modes ! i) (coeffs ! i) (dmodes ! i) \<and> tokens_clean (tokens ! i)"
    and "run_state (WriteCoefficientTokenGridPartitioned (int P) (int rows) (int cols) modes coeffs abv probs) (map Writer_Init dsts) = (r, ws)"
  shows "length ws = P"
proof -
  note n = buffers_lengths [OF assms(3)] buffers_lengths [OF assms(4)]
  obtain abv' dabv' where c: "codes_all P (token_rows (key_tokens.put_cell P probs cols modes coeffs) cols [0..<rows] (clear_above cols abv))
      (read_tokens_rows (read_tokens_cell probs (int P) cols) cols [0..<rows]
        \<lparr>tg_modes = dmodes, tg_above = clear_above cols dabv, tg_tokens = tokens, tg_total = 0\<rparr>)
      (None, abv') (grid_after dmodes tokens coeffs (rows * cols) dabv')"
    using key_tokens.codes_token_grid [OF disjI2 [OF assms(1)] assms(5) n(4,5,3,6), of probs] by blast
  obtain r' where r': "run_state (token_rows (key_tokens.put_cell P probs cols modes coeffs) cols [0..<rows] (clear_above cols abv))
      (map Writer_Init dsts) = (r', ws)"
    using assms(1,3,6) by (auto simp: WriteCoefficientTokenGridPartitioned_def split: prod.splits)
  show ?thesis
    by (rule sticky_allD(1) [OF codes_all_sticky [OF c] _ _ r']) (use assms(2) Init_writer(2) in simp_all)
qed

lemma partition_readers_map: "length ws = P \<Longrightarrow> partition_readers ws (\<lambda>_. []) P = map Decoder_Init (map (\<lambda>w. Bytes (Finish w)) ws)"
  by (intro nth_equalityI) simp_all

definition tokens_decode ::
  "nat \<Rightarrow> nat \<Rightarrow> coef_probs \<Rightarrow> MacroblockMode list \<Rightarrow> EntropyContextPlanes list \<Rightarrow> MacroblockTokens list \<Rightarrow> MacroblockCoefficients list
    \<Rightarrow> byte list list \<Rightarrow> bool" where
  "tokens_decode rows cols probs dmodes dabv tokens coeffs bs \<longleftrightarrow>
     (\<exists>g ds. run_state (DecodeTokenGrid (int rows) (int cols) probs dmodes dabv tokens) (map Decoder_Init bs) = (Inr g, ds) \<and>
        grid_decoded (rows * cols) dmodes tokens coeffs g \<and> list_all (\<lambda>d. Decoder_Err d = None) ds)"

lemma tokens_decodeI:
  assumes "run_state (DecodeTokenGrid (int rows) (int cols) probs dmodes dabv tokens) (map Decoder_Init bs) = (Inr g, ds)"
    and "grid_decoded (rows * cols) dmodes tokens coeffs g" "\<forall>k < length bs. Decoder_Err (ds ! k) = None"
  shows "tokens_decode rows cols probs dmodes dabv tokens coeffs bs"
proof -
  have "length ds = length bs" using keeps_DecodeTokenGrid assms(1) unfolding keeps_streams_def by (metis length_map snd_conv)
  then show ?thesis using assms unfolding tokens_decode_def list_all_length by (intro exI conjI) (assumption, assumption, simp)
qed

lemma key_tokens_one:
  assumes small: "\<not> token_buffers_small (int rows) (int cols) (length dmodes) (length tokens) (length dabv)"
    and sent: "\<forall>i < rows * cols. key_tokens.sent_as (modes ! i) (coeffs ! i) (dmodes ! i) \<and> tokens_clean (tokens ! i)"
    and run: "run_state (do { x \<leftarrow> WriteCoefficientTokenGrid (int rows) (int cols) modes coeffs abv probs; State_Monad.return (fst x) }) (Writer_Init dst) = (None, w)"
    and fine: "w_err (Finish w) = 0"
  shows "(\<exists>xs. w = write_bools (Writer_Init dst) xs) \<and> tokens_decode rows cols probs dmodes dabv tokens coeffs [Bytes (Finish w)]"
proof -
  obtain r where r: "run_state (WriteCoefficientTokenGrid (int rows) (int cols) modes coeffs abv probs) (Writer_Init dst) = (r, w)" "fst r = None"
    using run by (auto split: prod.splits)
  have b: "\<not> token_buffers_small (int rows) (int cols) (length modes) (length coeffs) (length abv)"
    using r by (auto simp: WriteCoefficientTokenGrid_def)
  note d = key_grid_decodes(2) [OF b small sent r(1) fine] key_grid_decodes(3) [OF b small sent r(1) fine, of "[]"]
  show ?thesis using d by (auto intro!: tokens_decodeI)
qed

lemma key_tokens_many:
  assumes small: "\<not> token_buffers_small (int rows) (int cols) (length dmodes) (length tokens) (length dabv)"
    and sent: "\<forall>i < rows * cols. key_tokens.sent_as (modes ! i) (coeffs ! i) (dmodes ! i) \<and> tokens_clean (tokens ! i)"
    and P: "several (int P)" "length dsts = P"
    and run: "run_state (do { x \<leftarrow> WriteCoefficientTokenGridPartitioned (int P) (int rows) (int cols) modes coeffs abv probs; State_Monad.return (fst x) })
      (map Writer_Init dsts) = (None, ws)"
  shows "length ws = P"
    "\<forall>k < P. w_err (Finish (ws ! k)) = 0 \<Longrightarrow> (\<forall>k < P. \<exists>xs. ws ! k = write_bools (Writer_Init (dsts ! k)) xs) \<and>
      tokens_decode rows cols probs dmodes dabv tokens coeffs (map (\<lambda>w. Bytes (Finish w)) ws)"
proof -
  obtain r where r: "run_state (WriteCoefficientTokenGridPartitioned (int P) (int rows) (int cols) modes coeffs abv probs) (map Writer_Init dsts) = (r, ws)"
    "fst r = None"
    using run by (auto split: prod.splits)
  have b: "\<not> token_buffers_small (int rows) (int cols) (length modes) (length coeffs) (length abv)"
    using r by (auto simp: WriteCoefficientTokenGridPartitioned_def)
  show len: "length ws = P" by (rule key_partitions_length [OF P b small sent r(1)])
  assume fine: "\<forall>k < P. w_err (Finish (ws ! k)) = 0"
  note d = key_partitions_decode(3) [OF P b small sent r(1) fine] key_partitions_decode(4) [OF P b small sent r(1) fine, where tail = "\<lambda>_. []"]
  show "(\<forall>k < P. \<exists>xs. ws ! k = write_bools (Writer_Init (dsts ! k)) xs) \<and>
      tokens_decode rows cols probs dmodes dabv tokens coeffs (map (\<lambda>w. Bytes (Finish w)) ws)"
    using d len unfolding partition_readers_map [OF len] by (auto intro!: tokens_decodeI)
qed


lemma key_frame_size:
  assumes "\<not> key_dimensions_bad width height"
  shows "0 < mb_count width" "0 < mb_count height" "mb_count width \<le> 1024" "mb_count height \<le> 1024"
    "int (nat (mb_count width)) = mb_count width" "int (nat (mb_count height)) = mb_count height"
    "nat (mb_count height * mb_count width) = nat (mb_count height) * nat (mb_count width)"
proof -
  have d: "0 < width" "width \<le> 0x3fff" "0 < height" "height \<le> 0x3fff" using assms by (simp_all add: key_dimensions_bad_def)
  note h = mb_count_bounds [OF d(3,4)] and w = mb_count_bounds [OF d(1,2)]
  show "0 < mb_count width" "0 < mb_count height" "mb_count width \<le> 1024" "mb_count height \<le> 1024" using h w by blast+
  show "int (nat (mb_count width)) = mb_count width" "int (nat (mb_count height)) = mb_count height"
    "nat (mb_count height * mb_count width) = nat (mb_count height) * nat (mb_count width)"
    using h w by (simp_all add: nat_mult_distrib)
qed

lemma key_modes_sent_as:
  assumes "i < length old" "i < n" "validKeyFrameMacroblockMode (modes ! i)"
    and "noSkip \<or> \<not> km_MBSkipCoeff (modes ! i)"
    and "km_MBSkipCoeff (modes ! i) \<or> mb_coeffs_ok (km_YMode (modes ! i) = BPred) (coeffs ! i)"
  shows "key_tokens.sent_as (modes ! i) (coeffs ! i) (grid_sent n (key_cell_sent cfg noSkip modes) old ! i)"
  using assms unfolding key_tokens.sent_as_def
  by (auto simp: grid_sent_nth key_cell_sent_def key_mode_sent_def mb_start_sent_def)

lemma several_partitions: "tokenPartitionCount tp = Some pc \<Longrightarrow> pc = 2 ^ tp \<and> (pc = 1 \<or> several (int pc))"
proof -
  assume "tokenPartitionCount tp = Some pc"
  then have "tp \<le> 3" "pc = 2 ^ tp" by (auto simp: tokenPartitionCount_def split: if_split_asm)
  moreover from this(1) have "tp = 0 \<or> tp = 1 \<or> tp = 2 \<or> tp = 3" by auto
  ultimately show ?thesis by (auto simp: several_def)
qed

lemma key_token_buffers:
  assumes "\<not> key_dimensions_bad width height" "nat (mb_count height * mb_count width) = m" "nat (mb_count height * mb_count width) = t" "nat (mb_count width) = a"
  shows "\<not> token_buffers_small (int (nat (mb_count height))) (int (nat (mb_count width))) m t a"
proof -
  note s = key_frame_size [OF assms(1)]
  have "0 < mb_count height * mb_count width" using s(1,2) by simp
  then have p: "int m = mb_count height * mb_count width" "int t = mb_count height * mb_count width" "int a = mb_count width"
    using assms(2-4) s(1) by auto
  have g: "\<not> grid_too_small (mb_count height) (mb_count width) m"
    using key_grid_fits(1) [OF assms(1), of "replicate m ()"] assms(2) by simp
  show ?thesis unfolding s(5,6) token_buffers_small_def using g p by simp
qed


lemma mode_grid_written:
  assumes "key_packet cfg width height mw oneWriter manyWriters scratch pc dst = Inr (n, buf)" "10 \<le> length dst"
  shows "\<exists>w. fst (run_state mw w) = None"
  using key_packet_parts [OF assms] by (metis fst_conv)

lemma sent_config_shape:
  assumes "segmentation_shape (c_Segmentation cfg)" "lf_config_ok cfg" "coefs_ok updates"
  shows "key_config_shape (config_sent cfg rows cols modes updates)"
  using assms by (simp add: key_config_shape_def coefs_ok_def)

lemma key_frame_sent:
  assumes written: "WriteCoefficientKeyFrameWithProbabilityBaseScratchAndCounts dst width height cfg modes coeffs abv DefaultCoefProbs scratch prebuilt = Inr r"
    and shape: "segmentation_shape (c_Segmentation cfg)" "lf_config_ok cfg" "list_all (\<lambda>m. length (km_BModes m) = 16) (kp_Modes r)"
    and scratch: "\<forall>s. scratch = Some s \<longrightarrow> length s = 8"
    and N: "N = nat (mb_count height) * nat (mb_count width)"
    and skips: "\<forall>i < N. c_MBNoCoeffSkip cfg \<or> \<not> km_MBSkipCoeff (kp_Modes r ! i)"
    and coeffs: "\<forall>i < N. km_MBSkipCoeff (kp_Modes r ! i) \<or> mb_coeffs_ok (km_YMode (kp_Modes r ! i) = BPred) (coeffs ! i)"
    and old: "length old = N" "length tokens = N" "length dabv = nat (mb_count width)" "list_all tokens_clean tokens"
  shows "\<exists>updates firstSize frame bs br br' layout.
    \<not> key_dimensions_bad width height \<and> tokenPartitionCount (unat (c_TokenPartition cfg)) = Some (pl_TokenCount layout) \<and>
    frame = \<lparr>fh_FrameType = KeyFrame, fh_Profile = 0, fh_ShowFrame = (\<not> k_InvisibleFrame cfg), fh_FirstPartitionSize = firstSize,
      fh_HeaderSize = 10, fh_Width = width, fh_Height = height, fh_HorizScale = uint (k_HorizScale cfg), fh_VertScale = uint (k_VertScale cfg)\<rparr> \<and>
    ParseFrameHeader (take (kp_Size r) (kp_Buffer r)) = Inr frame \<and>
    parseStateHeaderFromFrame (take (kp_Size r) (kp_Buffer r)) frame previousQuant previousLoopFilter (Some probs) (Some modeProbs) False =
      (Inr (frame, key_state_sent (config_sent cfg (mb_count height) (mb_count width) (kp_Modes r) updates) previousQuant, br),
       Some (flat (kp_Probs r)), Some ResetModeProbs) \<and>
    coef_shape (kp_Probs r) \<and> chosen_updates DefaultCoefProbs (kp_Probs r, updates) \<and>
    run_state (DecodeKeyFrameModeGrid (mb_count height) (mb_count width) (Some (segmentation_sent (c_Segmentation cfg)))
        (st_Mode (key_state_sent (config_sent cfg (mb_count height) (mb_count width) (kp_Modes r) updates) previousQuant)) old) br =
      (Inr (grid_sent N (key_cell_sent (c_Segmentation cfg) (c_MBNoCoeffSkip cfg) (kp_Modes r)) old), br') \<and>
    Decoder_Err br' = None \<and>
    ParsePartitionLayout (take (kp_Size r) (kp_Buffer r)) frame (unat (c_TokenPartition cfg)) = (None, layout) \<and>
    pl_Tokens layout = bs @ replicate (8 - pl_TokenCount layout) [] \<and> length bs = pl_TokenCount layout \<and>
    tokens_decode (nat (mb_count height)) (nat (mb_count width)) (kp_Probs r)
      (grid_sent N (key_cell_sent (c_Segmentation cfg) (c_MBNoCoeffSkip cfg) (kp_Modes r)) old) dabv tokens coeffs bs"
proof -
  let ?rows = "mb_count height" and ?cols = "mb_count width" and ?modes = "kp_Modes r" and ?probs = "kp_Probs r"
  obtain abv' updates pc where w: "10 \<le> length dst" "\<not> key_dimensions_bad width height"
      "tokenPartitionCount (unat (c_TokenPartition cfg)) = Some pc" "chosen_updates DefaultCoefProbs (?probs, updates)"
    and p0: "let cfg = config_sent cfg ?rows ?cols ?modes updates in
     key_packet cfg width height
       (WriteKeyFrameModeGridWithSegmentationAndSkip ?rows ?cols ?modes (c_Segmentation cfg) (c_MBNoCoeffSkip cfg) (c_ProbSkipFalse cfg))
       (do { x \<leftarrow> WriteCoefficientTokenGrid ?rows ?cols ?modes coeffs abv' ?probs; State_Monad.return (fst x) })
       (\<lambda>partitions. do { x \<leftarrow> WriteCoefficientTokenGridPartitioned partitions ?rows ?cols ?modes coeffs abv' ?probs;
          State_Monad.return (fst x) })
       scratch pc dst = Inr (kp_Size r, kp_Buffer r)"
    using key_frame_written [OF written] by blast
  define sent where "sent = config_sent cfg ?rows ?cols ?modes updates"
  note packet = p0 [unfolded Let_def, folded sent_def]
  have dshape: "coef_shape DefaultCoefProbs" by code_simp
  note sync = synced_sent [OF chosen_synced [OF dshape w(4)] dshape]
  have pshape: "coef_shape ?probs" using chosen_synced [OF dshape w(4)] by (auto simp: synced_def)
  have fields: "c_Segmentation sent = c_Segmentation cfg" "c_MBNoCoeffSkip sent = c_MBNoCoeffSkip cfg" "c_TokenPartition sent = c_TokenPartition cfg"
    "c_CoefficientProbs sent = updates" "k_InvisibleFrame sent = k_InvisibleFrame cfg" "k_HorizScale sent = k_HorizScale cfg" "k_VertScale sent = k_VertScale cfg"
    by (simp_all add: sent_def)
  have cshape: "key_config_shape sent" unfolding sent_def by (rule sent_config_shape [OF shape(1,2) sync(3)])
  note size = key_frame_size [OF w(2)]
  have pc: "pc = 2 ^ unat (c_TokenPartition sent)" "pc = 1 \<or> several (int pc)" using several_partitions [OF w(3)] unfolding fields by blast+
  have valid: "validKeyFrameMacroblockMode (?modes ! i)" if "i < N" for i
  proof -
    obtain w0 where "fst (run_state (WriteKeyFrameModeGridWithSegmentationAndSkip ?rows ?cols ?modes (c_Segmentation sent)
        (c_MBNoCoeffSkip sent) (c_ProbSkipFalse sent)) w0) = None" using mode_grid_written [OF packet w(1)] by blast
    from key_grid_written [OF this shape(3)] have g: "\<not> grid_too_small ?rows ?cols (length ?modes)" "key_grid_ok (c_Segmentation sent) N ?modes"
      by (simp_all add: N)
    have "N \<le> length ?modes" using g(1) size unfolding N size(7) [symmetric] by (auto simp: grid_too_small_def nat_le_iff)
    then show ?thesis using key_grid_okD(1) [OF g(2) that] by (simp add: key_mode_ok_def)
  qed
  define dmodes where "dmodes = grid_sent N (key_cell_sent (c_Segmentation cfg) (c_MBNoCoeffSkip cfg) ?modes) old"
  have as: "\<forall>i < nat ?rows * nat ?cols. key_tokens.sent_as (?modes ! i) (coeffs ! i) (dmodes ! i) \<and> tokens_clean (tokens ! i)"
    unfolding N [symmetric] dmodes_def using key_modes_sent_as [of _ old N ?modes "c_MBNoCoeffSkip cfg" coeffs] old valid skips coeffs
    by (auto simp: clean_nth)
  have small: "\<not> token_buffers_small (int (nat ?rows)) (int (nat ?cols)) (length dmodes) (length tokens) (length dabv)"
    by (rule key_token_buffers [OF w(2)]) (simp_all only: dmodes_def length_grid_sent old(1-3) N size(7))
  have fits: "\<not> grid_too_small ?rows ?cols (length old)" using key_grid_fits(1) [OF w(2), of old] old(1) by (simp add: N size(7))
  note i = size(5,6)
  have sev: "several (int pc)" if "pc \<noteq> 1" using pc(2) that by blast
  let ?ok = "tokens_decode (nat ?rows) (nat ?cols) ?probs dmodes dabv tokens coeffs"
  have one: "(\<exists>xs. w = write_bools (Writer_Init dst) xs) \<and> ?ok [Bytes (Finish w)]"
    if "run_state (do { x \<leftarrow> WriteCoefficientTokenGrid ?rows ?cols ?modes coeffs abv' ?probs; State_Monad.return (fst x) }) (Writer_Init dst) = (None, w)"
      "w_err (Finish w) = 0" for dst w
    by (rule key_tokens_one [OF small as _ that(2), where abv = abv']) (simp only: i that(1))
  have len: "length ws = pc"
    if "pc \<noteq> 1" "length dsts = pc" "run_state (do { x \<leftarrow> WriteCoefficientTokenGridPartitioned (int pc) ?rows ?cols ?modes coeffs abv' ?probs;
        State_Monad.return (fst x) }) (map Writer_Init dsts) = (None, ws)" for dsts ws
    by (rule key_tokens_many(1) [OF small as sev [OF that(1)] that(2), where abv = abv' and probs = ?probs]) (simp only: i that(3))
  have many: "(\<forall>k < pc. \<exists>xs. ws ! k = write_bools (Writer_Init (dsts ! k)) xs) \<and> ?ok (map (\<lambda>w. Bytes (Finish w)) ws)"
    if "pc \<noteq> 1" "length dsts = pc" "run_state (do { x \<leftarrow> WriteCoefficientTokenGridPartitioned (int pc) ?rows ?cols ?modes coeffs abv' ?probs;
        State_Monad.return (fst x) }) (map Writer_Init dsts) = (None, ws)" "\<forall>k < pc. w_err (Finish (ws ! k)) = 0" for dsts ws
    by (rule key_tokens_many(2) [OF small as sev [OF that(1)] that(2) _ that(4), where abv = abv']) (simp only: i that(3))
  have "\<exists>firstSize frame bs br br' layout.
    frame = \<lparr>fh_FrameType = KeyFrame, fh_Profile = 0, fh_ShowFrame = (\<not> k_InvisibleFrame sent), fh_FirstPartitionSize = firstSize,
      fh_HeaderSize = 10, fh_Width = width, fh_Height = height, fh_HorizScale = uint (k_HorizScale sent), fh_VertScale = uint (k_VertScale sent)\<rparr> \<and>
    ParseFrameHeader (take (kp_Size r) (kp_Buffer r)) = Inr frame \<and>
    parseStateHeaderFromFrame (take (kp_Size r) (kp_Buffer r)) frame previousQuant previousLoopFilter (Some probs) (Some modeProbs) False =
      (Inr (frame, key_state_sent sent previousQuant, br), fst (coef_sent (c_CoefficientProbs sent) (Some default_probs)), Some ResetModeProbs) \<and>
    run_state (DecodeKeyFrameModeGrid ?rows ?cols (Some (segmentation_sent (c_Segmentation sent))) (st_Mode (key_state_sent sent previousQuant)) old) br =
      (Inr (grid_sent (nat ?rows * nat ?cols) (key_cell_sent (c_Segmentation sent) (c_MBNoCoeffSkip sent) ?modes) old), br') \<and>
    Decoder_Err br' = None \<and>
    ParsePartitionLayout (take (kp_Size r) (kp_Buffer r)) frame (unat (c_TokenPartition sent)) = (None, layout) \<and> pl_TokenCount layout = pc \<and>
    pl_Tokens layout = bs @ replicate (8 - pc) [] \<and> length bs = pc \<and>
    tokens_decode (nat ?rows) (nat ?cols) ?probs dmodes dabv tokens coeffs bs"
    by (rule key_packet_sent [OF packet cshape shape(3) w(1) pc(1) scratch fits])
      (use one many len in blast)+
  then obtain firstSize frame bs br br' layout where o: "frame = \<lparr>fh_FrameType = KeyFrame, fh_Profile = 0, fh_ShowFrame = (\<not> k_InvisibleFrame sent),
      fh_FirstPartitionSize = firstSize, fh_HeaderSize = 10, fh_Width = width, fh_Height = height, fh_HorizScale = uint (k_HorizScale sent),
      fh_VertScale = uint (k_VertScale sent)\<rparr>"
    "ParseFrameHeader (take (kp_Size r) (kp_Buffer r)) = Inr frame"
    "parseStateHeaderFromFrame (take (kp_Size r) (kp_Buffer r)) frame previousQuant previousLoopFilter (Some probs) (Some modeProbs) False =
      (Inr (frame, key_state_sent sent previousQuant, br), fst (coef_sent (c_CoefficientProbs sent) (Some default_probs)), Some ResetModeProbs)"
    "run_state (DecodeKeyFrameModeGrid ?rows ?cols (Some (segmentation_sent (c_Segmentation sent))) (st_Mode (key_state_sent sent previousQuant)) old) br =
      (Inr (grid_sent (nat ?rows * nat ?cols) (key_cell_sent (c_Segmentation sent) (c_MBNoCoeffSkip sent) ?modes) old), br')"
    "Decoder_Err br' = None"
    "ParsePartitionLayout (take (kp_Size r) (kp_Buffer r)) frame (unat (c_TokenPartition sent)) = (None, layout)" "pl_TokenCount layout = pc"
    "pl_Tokens layout = bs @ replicate (8 - pc) []" "length bs = pc" "?ok bs"
    by blast
  note o = o [unfolded fields sync(1) [folded default_probs_def] N [symmetric] dmodes_def, unfolded sent_def]
  show ?thesis
    by (rule exI [of _ updates], rule exI [of _ firstSize], rule exI [of _ frame], rule exI [of _ bs], rule exI [of _ br], rule exI [of _ br'],
        rule exI [of _ layout], unfold o(7), intro conjI) (fact w o pshape)+
qed


end
