(* ===== verification/Vp8_Skip_Flags.thy ===== *)
theory Vp8_Skip_Flags
  imports Vp8_Key_Packet
begin

text \<open>
  The encoder's skip flags: the test of 24 ends of block in three 64-bit words says the same as a loop over the blocks.
\<close>

section \<open>Bytes in a word\<close>

lemma bit_le_val: "bit (le_val bs) n \<longleftrightarrow> n < 8 * length bs \<and> bit (bs ! (n div 8)) (n mod 8)"
proof (induction bs arbitrary: n)
  case (Cons b bs)
  have b: "bit (unat b) n \<longleftrightarrow> n < 8 \<and> bit b n" for n using bit_imp_le_length [of b n] by (auto simp: bit_unsigned_iff)
  have "le_val (b # bs) = unat b OR push_bit 8 (le_val bs)"
  proof -
    have "unat b OR push_bit 8 (le_val bs) = unat b + push_bit 8 (le_val bs)"
      by (rule disjunctive_add [symmetric]) (auto simp: bit_push_bit_iff b)
    then show ?thesis by (simp add: push_bit_eq_mult)
  qed
  then have "bit (le_val (b # bs)) n \<longleftrightarrow> (n < 8 \<and> bit b n) \<or> (8 \<le> n \<and> bit (le_val bs) (n - 8))"
    by (simp add: bit_or_iff bit_push_bit_iff b)
  also have "\<dots> \<longleftrightarrow> n < 8 * length (b # bs) \<and> bit ((b # bs) ! (n div 8)) (n mod 8)"
  proof (cases "n < 8")
    case False
    then have "n div 8 = Suc ((n - 8) div 8)" "(n - 8) mod 8 = n mod 8" by (simp_all add: div_if le_mod_geq)
    then show ?thesis using False Cons.IH [of "n - 8"] by auto
  qed simp
  finally show ?case .
qed simp

lemma bit_le64: "length bs = 8 \<Longrightarrow> bit (le64 bs) n \<longleftrightarrow> n < 64 \<and> bit (bs ! (n div 8)) (n mod 8)"
  by (auto simp: le64_def bit_of_nat_iff bit_le_val)

text \<open>All bits of a word, byte by byte.\<close>

lemma le64_zero:
  assumes "length bs = 8"
  shows "le64 bs = 0 \<longleftrightarrow> (\<forall>j < 8. bs ! j = 0)"
proof -
  have "le64 bs = 0 \<longleftrightarrow> (\<forall>n < 64. \<not> bit (bs ! (n div 8)) (n mod 8))"
    by (auto simp: bit_eq_iff bit_le64 [OF assms])
  also have "\<dots> \<longleftrightarrow> (\<forall>j < 8. \<forall>k < 8. \<not> bit (bs ! j) k)"
  proof safe
    fix j k :: nat
    assume a: "\<forall>n < 64. \<not> bit (bs ! (n div 8)) (n mod 8)" "j < 8" "k < 8" "bit (bs ! j) k"
    have "8 * j + k < 64" "(8 * j + k) div 8 = j" "(8 * j + k) mod 8 = k" using a(2,3) by simp_all
    then show False using a(1,4) by metis
  next
    fix n :: nat
    assume a: "\<forall>j < 8. \<forall>k < 8. \<not> bit (bs ! j) k" "n < 64" "bit (bs ! (n div 8)) (n mod 8)"
    then show False by (simp add: less_mult_imp_div_less)
  qed
  also have "\<dots> \<longleftrightarrow> (\<forall>j < 8. bs ! j = 0)"
  proof -
    have "(\<forall>k < 8. \<not> bit b k) \<longleftrightarrow> b = 0" for b :: byte
      using bit_imp_le_length [of b] by (auto simp: bit_eq_iff)
    then show ?thesis by simp
  qed
  finally show ?thesis .
qed

lemma byte_at_most_one: "b AND 0xfe = 0 \<longleftrightarrow> unat b \<le> 1" for b :: byte
proof -
  have "\<forall>n < 256. (word_of_nat n :: byte) AND 0xfe = 0 \<longleftrightarrow> n \<le> 1" by code_simp
  moreover have "unat b < 256" using unsigned_less [of b] by simp
  ultimately have "(word_of_nat (unat b) :: byte) AND 0xfe = 0 \<longleftrightarrow> unat b \<le> 1" by blast
  then show ?thesis by simp
qed

lemma le64_map: "length bs = 8 \<Longrightarrow> length cs = 8 \<Longrightarrow> le64 bs OR le64 cs = le64 (map2 (OR) bs cs)"
  by (rule bit_word_eqI) (auto simp: bit_or_iff bit_le64 less_mult_imp_div_less)

lemma le64_mask: "length bs = 8 \<Longrightarrow> le64 bs AND 0xfefefefefefefefe = le64 (map (\<lambda>b. b AND 0xfe) bs)"
proof (rule bit_word_eqI)
  fix n
  assume bs: "length bs = 8" and "n < LENGTH(64)"
  then have n: "n < 64" by simp
  have "\<forall>n < 64. bit (0xfefefefefefefefe :: u64) n \<longleftrightarrow> bit (0xfe :: byte) (n mod 8)" by code_simp
  then show "bit (le64 bs AND 0xfefefefefefefefe) n = bit (le64 (map (\<lambda>b. b AND 0xfe) bs)) n"
    using n bs by (simp add: bit_and_iff bit_le64 less_mult_imp_div_less)
qed


section \<open>The skip test\<close>

text \<open>The bytes of three words.\<close>

lemma three_words:
  "(\<forall>b < 24. P b) \<longleftrightarrow> (\<forall>j < 8. P j \<and> P (8 + j) \<and> P (16 + j))" for P :: "nat \<Rightarrow> bool"
proof safe
  fix b :: nat
  assume a: "\<forall>j < 8. P j \<and> P (8 + j) \<and> P (16 + j)" "b < 24"
  consider "b < 8" | "8 \<le> b" "b < 16" | "16 \<le> b" by linarith
  then show "P b"
  proof cases
    case 2
    then have "P (8 + (b - 8))" using a by (metis add.right_neutral le_add_diff_inverse less_diff_conv2 numeral_Bit0)
    then show ?thesis using 2 by simp
  next
    case 3
    then have "b - 16 < 8" using a(2) by linarith
    then have "P (16 + (b - 16))" using a(1) by blast
    then show ?thesis using 3 by simp
  qed (use a in blast)
qed (simp_all)

lemma or_zero: "v OR w = 0 \<longleftrightarrow> v = 0 \<and> w = 0" for v w :: u64
  by (auto simp: bit_eq_iff bit_or_iff)

lemma and_or_zero: "(v OR w) AND m = 0 \<longleftrightarrow> v AND m = 0 \<and> w AND m = 0" for v w m :: u64
  unfolding or_zero [symmetric] by (simp add: bit.conj_disj_distrib2)

lemma key_skippable:
  assumes "length (mc_EOB coeffs) = 25"
  shows "KeyFrameMacroblockIsSkippable mode coeffs \<longleftrightarrow>
    (\<forall>b < (if km_YMode mode = BPred then 24 else 25). mb_eob coeffs b \<le> first_pos (km_YMode mode = BPred) b)"
proof -
  define e where "e = mc_EOB coeffs"
  define x y z where "x = take 8 e" and "y = take 8 (drop 8 e)" and "z = take 8 (drop 16 e)"
  have len: "length x = 8" "length y = 8" "length z = 8" using assms by (simp_all add: e_def x_def y_def z_def)
  have nth: "x ! j = e ! j" "y ! j = e ! (8 + j)" "z ! j = e ! (16 + j)" if "j < 8" for j
    using that assms by (simp_all add: e_def x_def y_def z_def)
  have eob: "mb_eob coeffs b = unat (e ! b)" for b by (simp add: mb_eob_def e_def)
  show ?thesis
  proof (cases "km_YMode mode = BPred")
    case True
    have "KeyFrameMacroblockIsSkippable mode coeffs \<longleftrightarrow> le64 x = 0 \<and> le64 y = 0 \<and> le64 z = 0"
      using True by (simp add: KeyFrameMacroblockIsSkippable_def Let_def e_def x_def y_def z_def or_zero)
    also have "\<dots> \<longleftrightarrow> (\<forall>j < 8. e ! j = 0 \<and> e ! (8 + j) = 0 \<and> e ! (16 + j) = 0)"
      using le64_zero len nth by auto
    also have "\<dots> \<longleftrightarrow> (\<forall>b < 24. e ! b = 0)" by (rule three_words [symmetric])
    finally show ?thesis using True by (simp add: eob first_pos_def unat_eq_0)
  next
    case False
    have "KeyFrameMacroblockIsSkippable mode coeffs \<longleftrightarrow> le64 x AND 0xfefefefefefefefe = 0 \<and> le64 y AND 0xfefefefefefefefe = 0 \<and> le64 z = 0 \<and> e ! 24 = 0"
      using False by (simp add: KeyFrameMacroblockIsSkippable_def Let_def e_def x_def y_def z_def or_zero and_or_zero)
    also have "\<dots> \<longleftrightarrow> (\<forall>j < 8. e ! j AND 0xfe = 0 \<and> e ! (8 + j) AND 0xfe = 0 \<and> e ! (16 + j) = 0) \<and> e ! 24 = 0"
      using le64_zero le64_mask len nth by auto
    also have "\<dots> \<longleftrightarrow> (\<forall>b < 24. unat (e ! b) \<le> (if b < 16 then 1 else 0)) \<and> unat (e ! 24) = 0"
      unfolding three_words byte_at_most_one by (auto simp: unat_eq_0)
    also have "\<dots> \<longleftrightarrow> (\<forall>b < 25. unat (e ! b) \<le> first_pos False b)"
    proof -
      have "b < 25 \<longleftrightarrow> b < 24 \<or> b = 24" for b :: nat by presburger
      then have "(\<forall>b < 25. unat (e ! b) \<le> first_pos False b) \<longleftrightarrow> (\<forall>b < 24. unat (e ! b) \<le> first_pos False b) \<and> unat (e ! 24) \<le> first_pos False 24"
        by blast
      then show ?thesis by (simp only: first_pos_def simp_thms) simp
    qed
    finally show ?thesis using False by (simp add: eob)
  qed
qed

text \<open>The flag of a key-frame macroblock says that none of its blocks has a coefficient.\<close>

lemma skippable_empty:
  "length (mc_EOB coeffs) = 25 \<Longrightarrow> KeyFrameMacroblockIsSkippable mode coeffs \<longleftrightarrow> total_sent (km_YMode mode = BPred) coeffs = 0"
  unfolding key_skippable total_sent_zero by (simp split: if_split)

end
