(* ===== verification/Vp8_Frame_Roundtrip.thy ===== *)
theory Vp8_Frame_Roundtrip
  imports Vp8_Key_Sent Vp8_Skip_Flags Vp8_Decoder_Laws
begin

text \<open>
  A whole key frame, from the encoder's packet writer to the state the decoder keeps: header, modes, tokens and
  probability tables come back together, whatever the decoder has decoded before.
\<close>

section \<open>The decoder's side\<close>

text \<open>
  What the decoder holds of a macroblock of a key frame: nothing of it depends on earlier frames, and the skip flag
  says that it has no coefficients, whether the encoder sent the flag or not.
\<close>

definition key_mode_kept :: "SegmentationConfig \<Rightarrow> KeyFrameMacroblockMode list \<Rightarrow> MacroblockCoefficients list \<Rightarrow> nat \<Rightarrow> MacroblockMode" where
  "key_mode_kept seg modes coeffs i =
     (key_mode_sent (modes ! i) (zero_mode\<lparr>mb_SegmentID := (if sc_Enabled seg \<and> sc_UpdateMap seg then km_SegmentID (modes ! i) else 0)\<rparr>))
       \<lparr>mb_MBSkipCoeff := (total_sent (km_YMode (modes ! i) = BPred) (coeffs ! i) = 0)\<rparr>"

definition key_tokens_kept :: "bool \<Rightarrow> KeyFrameMacroblockMode list \<Rightarrow> MacroblockCoefficients list \<Rightarrow> nat \<Rightarrow> MacroblockTokens" where
  "key_tokens_kept noSkip modes coeffs i =
     (let is4x4 = (km_YMode (modes ! i) = BPred)
      in if noSkip \<and> total_sent is4x4 (coeffs ! i) = 0 then fresh_tokens else tokens_sent is4x4 (coeffs ! i))"

definition old_segments_clear :: "SegmentationConfig \<Rightarrow> MacroblockMode list \<Rightarrow> bool" where
  "old_segments_clear seg old \<longleftrightarrow> (sc_Enabled seg \<and> \<not> sc_UpdateMap seg \<longrightarrow> list_all (\<lambda>m. mb_SegmentID m = 0) old)"

lemma key_cell_clear:
  assumes "old_segments_clear seg old" "i < length old"
  shows "key_cell_sent seg noSkip modes i (old ! i) = key_cell_sent seg noSkip modes i zero_mode"
  using assms by (auto simp: old_segments_clear_def list_all_length key_cell_sent_def mb_start_sent_def segment_sent_def zero_mode_def)

lemma grid_sent_kept:
  assumes "old_segments_clear seg old" "length old = N"
  shows "grid_sent N (key_cell_sent seg noSkip modes) old = map (\<lambda>i. key_cell_sent seg noSkip modes i zero_mode) [0..<N]"
  using assms key_cell_clear [OF assms(1)] by (intro nth_equalityI) (simp_all add: grid_sent_nth)

text \<open>The modes that were written, against the caller's: they differ in the skip flags, which tell the empty macroblocks.\<close>

definition skips_told :: "bool \<Rightarrow> nat \<Rightarrow> KeyFrameMacroblockMode list \<Rightarrow> KeyFrameMacroblockMode list \<Rightarrow> MacroblockCoefficients list \<Rightarrow> bool" where
  "skips_told noSkip N modes ms coeffs \<longleftrightarrow>
     (\<forall>i < N. ms ! i = (modes ! i)\<lparr>km_MBSkipCoeff := (noSkip \<and> total_sent (km_YMode (modes ! i) = BPred) (coeffs ! i) = 0)\<rparr>)"

lemma skips_toldD:
  assumes "skips_told noSkip N modes ms coeffs" "i < N"
  shows "km_YMode (ms ! i) = km_YMode (modes ! i)" "km_UVMode (ms ! i) = km_UVMode (modes ! i)" "km_BModes (ms ! i) = km_BModes (modes ! i)"
    "km_SegmentID (ms ! i) = km_SegmentID (modes ! i)"
    "km_MBSkipCoeff (ms ! i) \<longleftrightarrow> noSkip \<and> total_sent (km_YMode (modes ! i) = BPred) (coeffs ! i) = 0"
  using assms by (simp_all add: skips_told_def)

lemma grid_decoded_kept:
  assumes "grid_decoded N (map (\<lambda>i. key_cell_sent seg noSkip ms i zero_mode) [0..<N]) tokens coeffs g" "length tokens = N"
    and "skips_told noSkip N modes ms coeffs"
  shows "tg_modes g = map (key_mode_kept seg modes coeffs) [0..<N]" "tg_tokens g = map (key_tokens_kept noSkip modes coeffs) [0..<N]"
proof -
  have m: "mode_after coeffs i (key_cell_sent seg noSkip ms i zero_mode) = key_mode_kept seg modes coeffs i" if "i < N" for i
    using skips_toldD [OF assms(3) that]
    by (auto simp: mode_after_def key_mode_kept_def key_cell_sent_def key_mode_sent_def mb_start_sent_def segment_sent_def zero_mode_def)
  then show "tg_modes g = map (key_mode_kept seg modes coeffs) [0..<N]"
    using assms(1) by (simp add: grid_decoded_def)
  have "tokens_after (map (\<lambda>i. key_cell_sent seg noSkip ms i zero_mode) [0..<N]) coeffs i t = key_tokens_kept noSkip modes coeffs i" if "i < N" for i t
    using that skips_toldD [OF assms(3) that]
    by (auto simp: tokens_after_def key_tokens_kept_def key_cell_sent_def key_mode_sent_def mb_start_sent_def)
  then show "tg_tokens g = map (key_tokens_kept noSkip modes coeffs) [0..<N]"
    using assms(1,2) by (simp add: grid_decoded_def)
qed

text \<open>The modes a key frame's modes are decoded over: without a new segment map, every segment is 0.\<close>

definition cleared_modes :: "SegmentationConfig \<Rightarrow> MacroblockMode list \<Rightarrow> MacroblockMode list" where
  "cleared_modes seg ms = (if sc_Enabled seg \<and> \<not> sc_UpdateMap seg then map (\<lambda>m. m\<lparr>mb_SegmentID := 0\<rparr>) ms else ms)"

lemma cleared_modes_facts: "length (cleared_modes seg ms) = length ms" "old_segments_clear seg (cleared_modes seg ms)"
  by (simp_all add: cleared_modes_def old_segments_clear_def list_all_iff)

lemma modes_cleared:
  assumes "length (vd_segmentMap d) = length (vd_modes d)" "st_Segmentation (vd_state d) = segmentation_sent seg"
  shows "vd_modes (restoreSegmentMap (clearSegmentMap d)) = cleared_modes seg (vd_modes d)"
  using assms
  by (auto simp: restoreSegmentMap_def clearSegmentMap_def Let_def cleared_modes_def segmentation_sent_def no_segmentation_def intro!: nth_equalityI)

lemma restore_fields:
  "vd_state (restoreSegmentMap (clearSegmentMap d)) = vd_state d" "vd_tokens (restoreSegmentMap (clearSegmentMap d)) = vd_tokens d"
  "vd_tokenAbove (restoreSegmentMap (clearSegmentMap d)) = vd_tokenAbove d" "vd_mbRows (restoreSegmentMap (clearSegmentMap d)) = vd_mbRows d"
  "vd_mbCols (restoreSegmentMap (clearSegmentMap d)) = vd_mbCols d" "vd_partitions (restoreSegmentMap (clearSegmentMap d)) = vd_partitions d"
  "vd_tokenReaders (restoreSegmentMap (clearSegmentMap d)) = vd_tokenReaders d" "vd_modeReader (restoreSegmentMap (clearSegmentMap d)) = vd_modeReader d"
  "vd_frameCoefProbs (restoreSegmentMap (clearSegmentMap d)) = vd_frameCoefProbs d"
  "vd_frameModeProbs (restoreSegmentMap (clearSegmentMap d)) = vd_frameModeProbs d"
  "vd_frameHeader (restoreSegmentMap (clearSegmentMap d)) = vd_frameHeader d" "vd_frameCorrupt (restoreSegmentMap (clearSegmentMap d)) = vd_frameCorrupt d"
  "vd_needKey (restoreSegmentMap (clearSegmentMap d)) = vd_needKey d"
  by (simp_all add: restoreSegmentMap_def clearSegmentMap_def Let_def)

lemma parseState_key:
  assumes "parseStateHeaderFromFrame packet frame (vd_previousQuant d) (vd_previousLoopFilter d) (Some (vd_coefProbs d)) (Some (vd_modeProbs d)) False
      = (Inr (frame, state, br), Some probs, Some modeProbs)"
    and "FrameHeader_KeyFrame frame" "MergeSegmentationHeader no_segmentation (st_Segmentation state) = st_Segmentation state"
    and "ParsePartitionLayout packet frame (unat (st_TokenPartition state)) = (None, layout)"
  shows "parseState packet frame False d = (None, d\<lparr>vd_modesCorrupt := vd_mbRows d * vd_mbCols d,
    vd_tokenReaders := map (\<lambda>i. if i < pl_TokenCount layout then Decoder_Init (pl_Tokens layout ! i) else vd_tokenReaders d ! i)
      [0..<length (vd_tokenReaders d)],
    vd_frameHeader := frame, vd_state := state, vd_partitions := layout, vd_modeReader := br, vd_frameCoefProbs := probs, vd_frameModeProbs := modeProbs\<rparr>)"
  using assms by (simp add: parseState_def parse_frame_state_def Let_def)

lemma decodeModeGrid_key:
  assumes "e = restoreSegmentMap (clearSegmentMap d)" "Decoder_Err br = None"
    and "run_state (DecodeKeyFrameModeGrid (vd_mbRows e) (vd_mbCols e) (Some (st_Segmentation (vd_state e))) (st_Mode (vd_state e)) (vd_modes e)) (vd_modeReader e)
      = (Inr modes, br)"
  shows "decodeModeGrid False True d = (None, e\<lparr>vd_modes := modes, vd_modeReader := br\<rparr>)"
  using assms(2,3) by (simp add: decodeModeGrid_def decode_modes_def assms(1) [symmetric])

lemma decodeTokenGrid_good:
  assumes "run_state (DecodeTokenGrid (vd_mbRows d) (vd_mbCols d) (coef_table (vd_frameCoefProbs d)) (vd_modes d) (vd_tokenAbove d) (vd_tokens d))
      (take (pl_TokenCount (vd_partitions d)) (vd_tokenReaders d)) = (Inr g, readers)"
    and "list_all (\<lambda>r. Decoder_Err r = None) readers"
  shows "decodeTokenGrid False d = (None, store_grid g readers d)"
  using assms by (simp add: decodeTokenGrid_def list_ex_iff list_all_iff)

lemma token_readers_taken:
  assumes "length readers = 8" "P = length bs" "P \<le> 8" "tokens = bs @ replicate (8 - P) []"
  shows "take P (map (\<lambda>i. if i < P then Decoder_Init (tokens ! i) else readers ! i) [0..<length readers]) = map Decoder_Init bs"
  using assms by (intro nth_equalityI) (simp_all add: nth_append del: upt_Suc upt_rec_numeral)

lemma commit_fields:
  "vd_state (commitParsedState key d) = vd_state d" "vd_modes (commitParsedState key d) = vd_modes d" "vd_tokens (commitParsedState key d) = vd_tokens d"
  "vd_frameHeader (commitParsedState key d) = vd_frameHeader d" "vd_needKey (commitParsedState key d) = vd_needKey d"
  "vd_mbRows (commitParsedState key d) = vd_mbRows d" "vd_mbCols (commitParsedState key d) = vd_mbCols d"
  "vd_previousQuant (commitParsedState key d) = st_Quant (vd_state d)" "vd_previousLoopFilter (commitParsedState key d) = st_LoopFilter (vd_state d)"
  "vd_coefProbs (commitParsedState key d) = (if rh_RefreshEntropyProbs (st_Refresh (vd_state d)) then vd_frameCoefProbs d
     else if key then default_coef_probs else vd_coefProbs d)"
  "vd_modeProbs (commitParsedState key d) = (if rh_RefreshEntropyProbs (st_Refresh (vd_state d)) then vd_frameModeProbs d
     else if key then ResetModeProbs else vd_modeProbs d)"
  "vd_frameCoefProbs (commitParsedState key d) = vd_frameCoefProbs d"
  by (simp_all add: commitParsedState_def commitSegmentMap_def Let_def)

lemma finish_fields:
  "vd_state (finishFrame info d) = vd_state d" "vd_modes (finishFrame info d) = vd_modes d" "vd_tokens (finishFrame info d) = vd_tokens d"
  "vd_frameHeader (finishFrame info d) = vd_frameHeader d" "vd_mbRows (finishFrame info d) = vd_mbRows d" "vd_mbCols (finishFrame info d) = vd_mbCols d"
  "vd_previousQuant (finishFrame info d) = vd_previousQuant d" "vd_previousLoopFilter (finishFrame info d) = vd_previousLoopFilter d"
  "vd_coefProbs (finishFrame info d) = vd_coefProbs d" "vd_modeProbs (finishFrame info d) = vd_modeProbs d"
  "vd_frameCoefProbs (finishFrame info d) = vd_frameCoefProbs d"
  "vd_needKey (finishFrame info d) = (vd_needKey d \<and> \<not> si_KeyFrame info)" "vd_initialized (finishFrame info d)"
  by (simp_all add: finishFrame_def)

lemma store_fields:
  "vd_state (store_grid g ds d) = vd_state d" "vd_modes (store_grid g ds d) = tg_modes g" "vd_tokens (store_grid g ds d) = tg_tokens g"
  "vd_frameHeader (store_grid g ds d) = vd_frameHeader d" "vd_frameCoefProbs (store_grid g ds d) = vd_frameCoefProbs d"
  "vd_frameModeProbs (store_grid g ds d) = vd_frameModeProbs d" "vd_frameCorrupt (store_grid g ds d) = vd_frameCorrupt d"
  "vd_mbRows (store_grid g ds d) = vd_mbRows d" "vd_mbCols (store_grid g ds d) = vd_mbCols d"
  by (simp_all add: store_grid_def)


lemma ensureFrameBuffers_same:
  assumes "vd_modes d' = vd_modes d" "vd_modesRest d' = vd_modesRest d" "vd_tokens d' = vd_tokens d" "vd_tokensRest d' = vd_tokensRest d"
    "vd_tokenAbove d' = vd_tokenAbove d" "vd_aboveRest d' = vd_aboveRest d" "vd_allocated d' = vd_allocated d"
    "vd_frameWidth d' = vd_frameWidth d" "vd_frameHeight d' = vd_frameHeight d"
  shows "vd_modes (ensureFrameBuffers info d') = vd_modes (ensureFrameBuffers info d)"
    "vd_tokens (ensureFrameBuffers info d') = vd_tokens (ensureFrameBuffers info d)"
    "vd_tokenAbove (ensureFrameBuffers info d') = vd_tokenAbove (ensureFrameBuffers info d)"
  using assms by (simp_all add: ensureFrameBuffers_def ensureWorkspace_def Let_def)

lemma key_frame_workspace:
  assumes "workspace_ok d" "si_KeyFrame info" "si_Width info = width" "si_Height info = height" "\<not> key_dimensions_bad width height"
    and "N = nat (mb_count height) * nat (mb_count width)" "e = ensureFrameBuffers info d"
  shows "vd_mbRows e = mb_count height" "vd_mbCols e = mb_count width" "length (vd_modes e) = N" "length (vd_tokens e) = N"
    "length (vd_tokenAbove e) = nat (mb_count width)" "length (vd_segmentMap e) = N" "list_all tokens_clean (vd_tokens e)" "length (vd_tokenReaders e) = 8"
  using ensureFrameBuffers_key [OF assms(1,2)] assms(3-7) key_frame_size(7) [OF assms(5)]
  by (simp_all add: workspace_ok_def)

text \<open>What the decoder keeps of a key frame.\<close>

definition key_frame_kept ::
  "KeyFrameStateConfig \<Rightarrow> int \<Rightarrow> int \<Rightarrow> KeyFrameMacroblockMode list \<Rightarrow> MacroblockCoefficients list \<Rightarrow> coef_probs
    \<Rightarrow> StateHeader \<Rightarrow> VP8Decoder \<Rightarrow> bool" where
  "key_frame_kept cfg width height modes coeffs probs state d \<longleftrightarrow>
     (let rows = mb_count height; cols = mb_count width; N = nat rows * nat cols
      in vd_state d = state \<and> vd_mbRows d = rows \<and> vd_mbCols d = cols \<and> \<not> vd_needKey d \<and> vd_initialized d \<and>
         (\<exists>firstSize. vd_frameHeader d = \<lparr>fh_FrameType = KeyFrame, fh_Profile = 0, fh_ShowFrame = (\<not> k_InvisibleFrame cfg),
            fh_FirstPartitionSize = firstSize, fh_HeaderSize = 10, fh_Width = width, fh_Height = height,
            fh_HorizScale = uint (k_HorizScale cfg), fh_VertScale = uint (k_VertScale cfg)\<rparr>) \<and>
         vd_modes d = map (key_mode_kept (c_Segmentation cfg) modes coeffs) [0..<N] \<and>
         vd_tokens d = map (key_tokens_kept (c_MBNoCoeffSkip cfg) modes coeffs) [0..<N] \<and>
         vd_frameCoefProbs d = flat probs \<and> vd_coefProbs d = flat (if c_RefreshEntropyProbs cfg then probs else DefaultCoefProbs) \<and>
         vd_modeProbs d = ResetModeProbs \<and> vd_previousQuant d = st_Quant state \<and> vd_previousLoopFilter d = st_LoopFilter state)"

text \<open>The state header of a frame: that of its configuration, with the updates and the skip probability the writer chose.\<close>

definition key_state_written :: "KeyFrameStateConfig \<Rightarrow> int \<Rightarrow> int \<Rightarrow> KeyFramePacket \<Rightarrow> CoefficientProbabilityUpdates \<Rightarrow> QuantHeader \<Rightarrow> StateHeader" where
  "key_state_written cfg width height r updates previousQuant =
     key_state_sent (config_sent cfg (mb_count height) (mb_count width) (kp_Modes r) updates) previousQuant"

lemma derived_told:
  assumes "\<not> key_dimensions_bad width height" "mb_count height * mb_count width \<le> int (length modes)" "mb_count height * mb_count width \<le> int (length coeffs)"
    and N: "N = nat (mb_count height) * nat (mb_count width)"
    and "c_MBNoCoeffSkip cfg \<or> (\<forall>i < N. \<not> km_MBSkipCoeff (modes ! i))" "\<forall>i < N. mb_coeffs_ok (km_YMode (modes ! i) = BPred) (coeffs ! i)"
  shows "skips_told (c_MBNoCoeffSkip cfg) N modes
    (if c_MBNoCoeffSkip cfg then DeriveKeyFrameModeSkipFlags (mb_count height) (mb_count width) modes coeffs else modes) coeffs"
proof (cases "c_MBNoCoeffSkip cfg")
  case True
  note size = key_frame_size [OF assms(1)]
  have n: "int N = mb_count height * mb_count width" using size by (simp add: N)
  have pos: "0 < mb_count height * mb_count width" using size by simp
  have len: "N \<le> length modes" using n assms(2) by linarith
  have "DeriveKeyFrameModeSkipFlags (mb_count height) (mb_count width) modes coeffs ! i =
      (modes ! i)\<lparr>km_MBSkipCoeff := (total_sent (km_YMode (modes ! i) = BPred) (coeffs ! i) = 0)\<rparr>" if "i < N" for i
  proof -
    have "length (mc_EOB (coeffs ! i)) = 25" using assms(6) that by (simp add: mb_coeffs_ok_def)
    note empty = skippable_empty [OF this, of "modes ! i"]
    have req: "\<not> (mb_count height \<le> 0 \<or> mb_count width \<le> 0 \<or> mb_count height * mb_count width \<le> 0 \<or>
        int (length modes) < mb_count height * mb_count width \<or> int (length coeffs) < mb_count height * mb_count width)"
      using size(1,2) pos assms(2,3) by linarith
    show ?thesis
      using that len unfolding DeriveKeyFrameModeSkipFlags_def Let_def if_not_P [OF req] by (simp add: n [symmetric] empty del: of_nat_mult)
  qed
  then show ?thesis using True by (simp add: skips_told_def)
qed (use assms(5) in \<open>simp add: skips_told_def\<close>)

lemma derived_bmodes:
  "list_all (\<lambda>m. length (km_BModes m) = 16) modes \<Longrightarrow> list_all (\<lambda>m. length (km_BModes m) = 16) (DeriveKeyFrameModeSkipFlags rows cols modes coeffs)"
  by (simp add: DeriveKeyFrameModeSkipFlags_def Let_def list_all_length)

lemma key_frame_decodes:
  assumes written: "WriteCoefficientKeyFrameWithProbabilityBaseScratchAndCounts dst width height cfg modes coeffs abv DefaultCoefProbs scratch prebuilt = Inr r"
    and shape: "segmentation_shape (c_Segmentation cfg)" "lf_config_ok cfg" "list_all (\<lambda>m. length (km_BModes m) = 16) modes"
    and scratch: "\<forall>s. scratch = Some s \<longrightarrow> length s = 8"
    and N: "N = nat (mb_count height) * nat (mb_count width)"
    and skips: "c_MBNoCoeffSkip cfg \<or> (\<forall>i < N. \<not> km_MBSkipCoeff (modes ! i))"
    and coeffs: "\<forall>i < N. mb_coeffs_ok (km_YMode (modes ! i) = BPred) (coeffs ! i)"
    and d: "workspace_ok d" "vd_MaxWidth d \<le> 0" "vd_MaxHeight d \<le> 0" "\<not> vd_RejectResolutionChange d"
  shows "\<exists>updates d'. chosen_updates DefaultCoefProbs (kp_Probs r, updates) \<and> DecodeWithPTS (take (kp_Size r) (kp_Buffer r)) d = (None, d') \<and>
    key_frame_kept cfg width height modes coeffs (kp_Probs r) (key_state_written cfg width height r updates (vd_previousQuant d)) d'"
proof -
  let ?seg = "c_Segmentation cfg" and ?noSkip = "c_MBNoCoeffSkip cfg" and ?packet = "take (kp_Size r) (kp_Buffer r)"
  have dims: "\<not> key_dimensions_bad width height" and big: "mb_count height * mb_count width \<le> int (length modes)"
      "mb_count height * mb_count width \<le> int (length coeffs)"
    and ms: "kp_Modes r = (if ?noSkip then DeriveKeyFrameModeSkipFlags (mb_count height) (mb_count width) modes coeffs else modes)"
    using key_frame_written [OF written] by blast+
  have told: "skips_told ?noSkip N modes (kp_Modes r) coeffs" unfolding ms by (rule derived_told [OF dims big N skips coeffs])
  have bm: "list_all (\<lambda>m. length (km_BModes m) = 16) (kp_Modes r)" unfolding ms using shape(3) derived_bmodes by simp
  have rskips: "\<forall>i < N. ?noSkip \<or> \<not> km_MBSkipCoeff (kp_Modes r ! i)" using skips_toldD(5) [OF told] by blast
  have rcoeffs: "\<forall>i < N. km_MBSkipCoeff (kp_Modes r ! i) \<or> mb_coeffs_ok (km_YMode (kp_Modes r ! i) = BPred) (coeffs ! i)"
    using skips_toldD(1) [OF told] coeffs by simp
  define info where "info = \<lparr>si_Width = width, si_Height = height, si_Profile = 0, si_KeyFrame = True, si_ShowFrame = \<not> k_InvisibleFrame cfg,
    si_FirstPartitionSize = 0\<rparr>"
  define e0 where "e0 = ensureFrameBuffers info d"
  have info: "si_KeyFrame info" "si_Width info = width" "si_Height info = height" by (simp_all add: info_def)
  note ws = key_frame_workspace [OF d(1) info dims N e0_def]
  define old where "old = cleared_modes ?seg (vd_modes e0)"
  have old: "length old = N" "old_segments_clear ?seg old" using ws(3) by (simp_all add: old_def cleared_modes_facts)
  let ?rows = "mb_count height" and ?cols = "mb_count width"
  let ?modes = "map (\<lambda>i. key_cell_sent ?seg ?noSkip (kp_Modes r) i zero_mode) [0..<N]"
  have cells: "grid_sent N (key_cell_sent ?seg ?noSkip (kp_Modes r)) old = ?modes" by (rule grid_sent_kept [OF old(2,1)])
  obtain updates firstSize frame bs br br' layout where s: "tokenPartitionCount (unat (c_TokenPartition cfg)) = Some (pl_TokenCount layout)"
    and frame: "frame = \<lparr>fh_FrameType = KeyFrame, fh_Profile = 0, fh_ShowFrame = (\<not> k_InvisibleFrame cfg), fh_FirstPartitionSize = firstSize,
      fh_HeaderSize = 10, fh_Width = width, fh_Height = height, fh_HorizScale = uint (k_HorizScale cfg), fh_VertScale = uint (k_VertScale cfg)\<rparr>"
    and head: "ParseFrameHeader ?packet = Inr frame"
    and state: "parseStateHeaderFromFrame ?packet frame (vd_previousQuant d) (vd_previousLoopFilter d) (Some (vd_coefProbs d)) (Some (vd_modeProbs d)) False =
      (Inr (frame, key_state_sent (config_sent cfg ?rows ?cols (kp_Modes r) updates) (vd_previousQuant d), br), Some (flat (kp_Probs r)), Some ResetModeProbs)"
    and probs: "coef_shape (kp_Probs r)" "chosen_updates DefaultCoefProbs (kp_Probs r, updates)"
    and grid: "run_state (DecodeKeyFrameModeGrid ?rows ?cols (Some (segmentation_sent ?seg))
        (st_Mode (key_state_sent (config_sent cfg ?rows ?cols (kp_Modes r) updates) (vd_previousQuant d))) old) br = (Inr ?modes, br')" "Decoder_Err br' = None"
    and parts: "ParsePartitionLayout ?packet frame (unat (c_TokenPartition cfg)) = (None, layout)"
      "pl_Tokens layout = bs @ replicate (8 - pl_TokenCount layout) []" "length bs = pl_TokenCount layout"
    and tokens: "tokens_decode (nat ?rows) (nat ?cols) (kp_Probs r) ?modes (vd_tokenAbove e0) (vd_tokens e0) coeffs bs"
    using key_frame_sent [OF written shape(1,2) bm scratch N rskips rcoeffs old(1) ws(4,5,7), of "vd_previousQuant d" "vd_previousLoopFilter d" "vd_coefProbs d"
      "vd_modeProbs d"] unfolding cells by blast
  define state where "state = key_state_sent (config_sent cfg ?rows ?cols (kp_Modes r) updates) (vd_previousQuant d)"
  have st: "st_Segmentation state = segmentation_sent ?seg" "st_TokenPartition state = c_TokenPartition cfg"
    "rh_RefreshEntropyProbs (st_Refresh state) = c_RefreshEntropyProbs cfg" by (simp_all add: state_def key_state_sent_def)
  have key: "FrameHeader_KeyFrame frame" by (simp add: frame FrameHeader_KeyFrame_def)
  define d0 where "d0 = d\<lparr>vd_frameCorrupt := False, vd_modesCorrupt := 0, vd_residualCorrupt := -1\<rparr>"
  define d1 where "d1 = d0\<lparr>vd_modesCorrupt := vd_mbRows d0 * vd_mbCols d0,
    vd_tokenReaders := map (\<lambda>i. if i < pl_TokenCount layout then Decoder_Init (pl_Tokens layout ! i) else vd_tokenReaders d0 ! i)
      [0..<length (vd_tokenReaders d0)],
    vd_frameHeader := frame, vd_state := state, vd_partitions := layout, vd_modeReader := br, vd_frameCoefProbs := flat (kp_Probs r),
    vd_frameModeProbs := ResetModeProbs\<rparr>"
  have parsed: "parseState ?packet frame False d0 = (None, d1)"
    unfolding d1_def by (rule parseState_key) (use state key parts(1) in \<open>simp_all add: d0_def state_def [symmetric] st merge_key_segmentation\<close>)
  let ?info = "StreamInfoFromFrameHeader frame"
  have inf: "si_KeyFrame ?info" "si_Width ?info = width" "si_Height ?info = height" "si_Profile ?info = 0"
    by (simp_all add: StreamInfoFromFrameHeader_def key) (simp_all add: frame)
  have d1: "workspace_ok d1" "vd_partitions d1 = layout" "vd_state d1 = state" "vd_modeReader d1 = br" "vd_frameCoefProbs d1 = flat (kp_Probs r)"
    "vd_frameModeProbs d1 = ResetModeProbs" "vd_frameHeader d1 = frame" "\<not> vd_frameCorrupt d1"
    "vd_tokenReaders d1 = map (\<lambda>i. if i < pl_TokenCount layout then Decoder_Init (pl_Tokens layout ! i) else vd_tokenReaders d ! i)
      [0..<length (vd_tokenReaders d)]"
    using d(1) by (simp_all add: d1_def d0_def workspace_ok_def)
  define e where "e = ensureFrameBuffers ?info d1"
  have same: "vd_modes e = vd_modes e0" "vd_tokens e = vd_tokens e0" "vd_tokenAbove e = vd_tokenAbove e0"
  proof -
    have i: "ensureFrameBuffers ?info d = e0" using inf info by (simp add: e0_def ensureFrameBuffers_def)
    show "vd_modes e = vd_modes e0" "vd_tokens e = vd_tokens e0" "vd_tokenAbove e = vd_tokenAbove e0"
      unfolding e_def i [symmetric] by (rule ensureFrameBuffers_same; simp add: d1_def d0_def)+
  qed
  note we = key_frame_workspace [OF d1(1) inf(1-3) dims N e_def]
  note fe = ensureFrameBuffers_fields [of ?info d1, folded e_def, unfolded d1]
  define f where "f = restoreSegmentMap (clearSegmentMap e)"
  have modes_f: "vd_modes f = old"
    using modes_cleared [of e ?seg] we(3,6) st(1) by (simp add: f_def fe same old_def)
  note ff = restore_fields [of e, folded f_def, unfolded fe we(1,2) same]
  define g1 where "g1 = f\<lparr>vd_modes := ?modes, vd_modeReader := br'\<rparr>"
  have moded: "decodeModeGrid False True e = (None, g1)"
    unfolding g1_def by (rule decodeModeGrid_key [OF f_def grid(2)]) (use grid(1) in \<open>simp add: ff st modes_f state_def [symmetric]\<close>)
  have P: "pl_TokenCount layout \<le> 8"
    using several_partitions [OF s] by (auto simp: several_def)
  have readers: "take (pl_TokenCount layout) (vd_tokenReaders f) = map Decoder_Init bs"
    unfolding ff(7) d1(9) by (rule token_readers_taken) (use d(1) parts P in \<open>simp_all add: workspace_ok_def\<close>)
  obtain g ds where td: "run_state (DecodeTokenGrid (int (nat ?rows)) (int (nat ?cols)) (kp_Probs r) ?modes (vd_tokenAbove e0) (vd_tokens e0))
      (map Decoder_Init bs) = (Inr g, ds)" "grid_decoded N ?modes (vd_tokens e0) coeffs g" "list_all (\<lambda>d. Decoder_Err d = None) ds"
    using tokens unfolding tokens_decode_def N by blast
  note td = td(1) [unfolded key_frame_size(5,6) [OF dims]] td(2,3)
  have tokened: "decodeTokenGrid False g1 = (None, store_grid g ds g1)"
    by (rule decodeTokenGrid_good [OF _ td(3)])
      (use td(1) readers in \<open>simp add: g1_def ff coef_table_flat [OF probs(1)]\<close>)
  note kept = grid_decoded_kept [OF td(2) ws(4) told]
  define d' where "d' = finishFrame ?info (commitParsedState True (store_grid g ds g1))"
  have corrupt: "\<not> vd_frameCorrupt (store_grid g ds g1)" by (simp add: store_fields g1_def ff d1(8))
  have decoded: "decodeFramePacket ?packet frame ?info d = (None, commitParsedState True (store_grid g ds g1))"
    unfolding decodeFramePacket_def d0_def [symmetric] parsed step_then_def option.case prod.case inf(1) simp_thms e_def [symmetric]
    by (simp only: inf(1) moded tokened prod.case option.case) (simp add: corrupt)
  have valid: "validateStreamInfo ?info d = None"
    using d(2-4) dims inf by (simp add: validateStreamInfo_def IsSupportedVersion_def key_dimensions_bad_def min_def)
  have "DecodeWithPTS ?packet d = (None, d')"
    unfolding DecodeWithPTS_def head Let_def d'_def using inf(1) valid decoded by (simp add: step_then_def)
  moreover have "key_frame_kept cfg width height modes coeffs (kp_Probs r) (key_state_written cfg width height r updates (vd_previousQuant d)) d'"
    unfolding key_frame_kept_def key_state_written_def Let_def d'_def finish_fields commit_fields store_fields kept N [symmetric] g1_def state_def [symmetric]
    by (simp add: ff st inf(1) finish_fields default_coef_probs_flat default_probs_def) (simp add: frame)
  ultimately show ?thesis using probs(2) by blast
qed


section \<open>After any packets\<close>

lemma decode_options:
  fixes d :: VP8Decoder
  shows "vd_MaxWidth (snd (DecodeWithPTS packet d)) = vd_MaxWidth d \<and> vd_MaxHeight (snd (DecodeWithPTS packet d)) = vd_MaxHeight d \<and>
    vd_RejectResolutionChange (snd (DecodeWithPTS packet d)) = vd_RejectResolutionChange d"
proof -
  define opts where "opts = (\<lambda>d :: VP8Decoder. (vd_MaxWidth d, vd_MaxHeight d, vd_RejectResolutionChange d))"
  have parse: "opts (snd (parseState packet frame ec d)) = opts d" for packet frame ec d
    by (simp add: opts_def parseState_def Let_def split: prod.split sum.split option.split)
  have buffers: "opts (ensureFrameBuffers info d) = opts d" for info d
    by (simp add: opts_def ensureFrameBuffers_def ensureWorkspace_def Let_def)
  have restore: "opts (restoreSegmentMap (if key then clearSegmentMap d else d)) = opts d" for key d
    by (simp add: opts_def restoreSegmentMap_def clearSegmentMap_def Let_def)
  have modes: "opts (snd (decodeModeGrid False key d)) = opts d" for key d
  proof -
    define e where "e = restoreSegmentMap (if key then clearSegmentMap d else d)"
    have "opts (snd (decodeModeGrid False key d)) = opts e"
      unfolding decodeModeGrid_def e_def [symmetric] Let_def by (simp add: opts_def split: prod.split sum.split option.split)
    then show ?thesis by (simp only: e_def restore)
  qed
  have tokens: "opts (snd (decodeTokenGrid False d)) = opts d" for d
    by (simp add: opts_def decodeTokenGrid_def store_grid_def Let_def split: prod.split sum.split)
  have commit: "opts (commitParsedState key d) = opts d" "opts (finishFrame info d) = opts d" for key info d
    by (simp_all add: opts_def commitParsedState_def commitSegmentMap_def finishFrame_def Let_def)
  note steps = parse buffers modes tokens commit
  have then_keeps: "opts (snd (step_then r f)) = opts d" if "opts (snd r) = opts d" "\<And>d'. opts d' = opts d \<Longrightarrow> opts (snd (f d')) = opts d" for r f
    by (rule step_then_keeps [where P = "\<lambda>d'. opts d' = opts d", OF that])
  have start: "opts (d\<lparr>vd_frameCorrupt := False, vd_modesCorrupt := 0, vd_residualCorrupt := -1\<rparr>) = opts d" by (simp add: opts_def)
  have "opts (snd (decodeFramePacket packet frame info d)) = opts d" for frame info
    unfolding decodeFramePacket_def by (intro then_keeps) (simp_all add: steps start)
  then have "opts (snd (DecodeWithPTS packet d)) = opts d"
    unfolding DecodeWithPTS_def Let_def by (auto simp: steps split: sum.split option.split intro!: then_keeps)
  then show ?thesis by (simp add: opts_def)
qed

lemma decoder_after_options:
  "vd_MaxWidth (decoder_after packets d) = vd_MaxWidth d" "vd_MaxHeight (decoder_after packets d) = vd_MaxHeight d"
  "vd_RejectResolutionChange (decoder_after packets d) = vd_RejectResolutionChange d"
  unfolding decoder_after_def by (induction packets arbitrary: d) (simp_all add: decode_options)

end
