(* ===== verification/Vp8_Key_Stream.thy ===== *)
theory Vp8_Key_Stream
  imports Vp8_Frame_Roundtrip
begin

text \<open>
  Key frames in a stream: whatever packets a decoder has taken, the next key frame gives it the frame the encoder
  meant. The first section writes a frame for the witness.
\<close>

section \<open>A frame that is written\<close>

lemma spends_message:
  assumes "spends m n" "w_err (Finish (snd (run_state m (Writer_Init dst)))) = 0"
  shows "\<exists>xs. snd (run_state m (Writer_Init dst)) = write_bools (Writer_Init dst) xs \<and> length xs \<le> n"
proof -
  let ?w = "Writer_Init dst"
  obtain xs where xs: "length xs \<le> n" "w_err (snd (run_state m ?w)) = 0 \<Longrightarrow> snd (run_state m ?w) = vp8w.puts ?w xs"
    using assms(1) Init_writer(2,3) unfolding spends_def by blast
  have "writer_ok (snd (run_state m ?w))" using assms(1) Init_writer(2) unfolding spends_def sticky_def by blast
  then have z: "w_err (snd (run_state m ?w)) = 0" using Finish_failed assms(2) by blast
  note b = emitsD [OF emits_write_bools Init_writer(2), of dst xs]
  have "w_err (write_bools ?w xs) = 0" unfolding b(2) using z xs(2) by simp
  then show ?thesis using b(3) xs z by metis
qed

lemma message_length: "w_err (Finish (write_bools (Writer_Init dst) xs)) = 0 \<Longrightarrow> length (Bytes (Finish (write_bools (Writer_Init dst) xs))) \<le> length xs + 32"
  using message_fits(2) [OF emits_write_bools] length_wputs_le [of winit "xs @ flush_bits"] by (simp add: message_bytes_def flush_bits_def winit_def)

lemma write_bools_buffer: "length (w_buf (write_bools w xs)) = length (w_buf w)"
  by (induction xs arbitrary: w) (simp_all add: write_bools_def case_prod_beta)

lemma Finish_buffer: "length (w_buf (Finish w)) = length (w_buf w)"
proof -
  have "length (w_buf (write_literal_loop w v n)) = length (w_buf w)" for v n by (induction n arbitrary: w) (simp_all add: Let_def)
  then show ?thesis by (simp add: Finish_def WriteLiteral_def Let_def)
qed

lemma key_first_partition:
  assumes "validKeyFrameStateConfig cfg" "key_config_shape cfg" "coefs_ok (c_CoefficientProbs cfg)"
    and "\<not> grid_too_small rows cols (length modes)" "key_grid_ok (c_Segmentation cfg) (nat rows * nat cols) modes"
    and "9776 + 153 * (nat rows * nat cols) \<le> length dst" "9766 + 153 * (nat rows * nat cols) \<le> 500000"
  shows "\<exists>dst' n. first_partition (WriteKeyFrameStateHeader cfg)
      (WriteKeyFrameModeGridWithSegmentationAndSkip rows cols modes (c_Segmentation cfg) (c_MBNoCoeffSkip cfg) (c_ProbSkipFalse cfg)) dst = Inr (dst', n) \<and>
    length dst' = length dst \<and> n \<le> 9766 + 153 * (nat rows * nat cols)"
proof -
  let ?k = "WriteKeyFrameModeGridWithSegmentationAndSkip rows cols modes (c_Segmentation cfg) (c_MBNoCoeffSkip cfg) (c_ProbSkipFalse cfg)"
  let ?M = "WriteKeyFrameStateHeader cfg \<bind> (\<lambda>_. ?k)"
  have "9766 + 153 * (nat rows * nat cols) \<le> length (drop 10 dst)" using assms(6) by simp
  from key_modes_room [OF assms(1-5) this] obtain w w' where w: "run_state (WriteKeyFrameStateHeader cfg) (Writer_Init (drop 10 dst)) = (None, w)"
    "run_state ?k w = (None, w')" "w_err (Finish w') = 0" by blast
  have sp: "spends ?M (9734 + 153 * (nat rows * nat cols))"
    by (rule spends_bind [OF spends_WriteKeyFrameStateHeader [OF assms(2)] spends_key_grid [OF assms(5,4)]])
  have run: "snd (run_state ?M (Writer_Init (drop 10 dst))) = w'" using w(1,2) by simp
  obtain xs where xs: "w' = write_bools (Writer_Init (drop 10 dst)) xs" "length xs \<le> 9734 + 153 * (nat rows * nat cols)"
    using spends_message [OF sp, of "drop 10 dst"] w(3) unfolding run by blast
  have len: "w_pos (Finish w') \<le> 9766 + 153 * (nat rows * nat cols)"
    using message_length [of "drop 10 dst" xs] w(3) xs partition_pos [of "drop 10 dst" xs] by (simp add: Bytes_def)
  have buf: "length (w_buf (Finish w')) = length dst - 10"
    by (simp add: xs(1) Finish_buffer write_bools_buffer Writer_Init_def)
  show ?thesis
    using w len buf assms(6,7) by (simp add: first_partition_def Writer_Err_def BytesWritten_def MaxFirstPartitionSize_def Let_def)
qed

lemma put_key_head_ok:
  assumes "10 \<le> length dst" "firstSize \<le> 500000" "\<not> key_dimensions_bad width height" "k_HorizScale cfg \<le> 3" "k_VertScale cfg \<le> 3"
  shows "\<exists>d. put_key_head cfg width height firstSize dst = Inr d"
proof -
  have s: "uint (k_HorizScale cfg) \<le> 3" "uint (k_VertScale cfg) \<le> 3" using assms(4,5) by (simp_all add: word_le_def)
  have l: "\<not> length dst < 3" "\<not> length dst - 3 < 7" using assms(1) by simp_all
  show ?thesis
    using s l assms(2,3) by (simp add: put_key_head_def put_packet_head_def PutFrameTag_def PutKeyFrameExtraHeader_def MaxFirstPartitionSize_def
      FrameTagSize_def KeyFrameExtraHeaderSize_def Let_def key_dimensions_bad_def)
qed

lemma one_macroblock_tokens:
  assumes "mb_coeffs_ok (km_YMode m = BPred) c" "\<not> km_MBSkipCoeff m" "validKeyFrameMacroblockMode m" "7657 \<le> length dst"
  shows "\<exists>w. run_state (do { x \<leftarrow> WriteCoefficientTokenGrid 1 1 [m] [c] [zero_planes] probs; State_Monad.return (fst x) }) (Writer_Init dst) = (None, w) \<and>
    w_err (Finish w) = 0"
proof -
  let ?mb = "writeCoefficientMacroblockTokensWithEOBs probs (km_YMode m = BPred) zero_planes zero_planes c"
  define run where "run = run_state ?mb (Writer_Init dst)"
  obtain e a l w where run: "run = ((e, a, l), w)" by (metis prod_cases3 surj_pair)
  have mb: "run_state ?mb (Writer_Init dst) = ((e, a, l), w)" using run by (simp only: run_def)
  have fit: "w_err (Finish w) = 0"
    using macroblock_fits [OF assms(1) planes_ok_zero planes_ok_zero assms(4), of probs] unfolding mb by simp
  have e: "e = None"
  proof -
    obtain a' l' xs where w: "writes ?mb xs (None, a', l')" using writes_macroblock [OF assms(1) planes_ok_zero planes_ok_zero, of probs] by blast
    from writes_result [OF w, of dst] show ?thesis using fit unfolding mb by simp
  qed
  have c: "\<not> token_buffers_small 1 1 (length [m]) (length [c]) (length [zero_planes])" "[0..<nat 1] = [0]" "clear_above (nat 1) [zero_planes] = [zero_planes]"
    by (simp_all add: token_buffers_small_def grid_too_small_def max_int_def clear_above_def)
  have err: "w_err w = 0"
  proof -
    have "writer_ok w"
    proof -
      obtain a' l' xs where w: "writes ?mb xs (None, a', l')" using writes_macroblock [OF assms(1) planes_ok_zero planes_ok_zero, of probs] by blast
      show ?thesis using writes_sticky [OF w] Init_writer(2) mb unfolding sticky_def by (metis snd_conv)
    qed
    then show ?thesis using Finish_failed fit by blast
  qed
  have "run_state (do { x \<leftarrow> WriteCoefficientTokenGrid 1 1 [m] [c] [zero_planes] probs; State_Monad.return (fst x) }) (Writer_Init dst) = (None, w)"
    unfolding WriteCoefficientTokenGrid_def if_not_P [OF c(1)] c(2,3)
    using mb e err assms(2,3) by (simp add: one_writer_def write_key_tokens_def Let_def put_macroblock_def mode_end_def werr_def Writer_Err_def grid_error_def split: prod.split)
  then show ?thesis using fit by blast
qed


definition sample_frame_config :: KeyFrameStateConfig where
  "sample_frame_config = sample_key_config\<lparr>c_TokenPartition := 0\<rparr>"

definition sample_frame_mode :: KeyFrameMacroblockMode where
  "sample_frame_mode = \<lparr>km_SegmentID = 1, km_YMode = TMPred, km_UVMode = DCPred, km_BModes = replicate 16 0, km_MBSkipCoeff = True\<rparr>"

lemma sample_frame_ok:
  "c_TokenPartition sample_frame_config = 0" "c_MBNoCoeffSkip sample_frame_config" "c_ProbSkipFalse sample_frame_config \<noteq> 0"
  "\<not> k_IndependentContexts sample_frame_config" "k_HorizScale sample_frame_config = 0" "k_VertScale sample_frame_config = 0"
  "segmentation_shape (c_Segmentation sample_frame_config)" "lf_config_ok sample_frame_config"
  "coefs_ok u \<Longrightarrow> validKeyFrameStateConfig (sample_frame_config\<lparr>c_CoefficientProbs := u\<rparr>)"
  "coefs_ok u \<Longrightarrow> key_config_shape (sample_frame_config\<lparr>c_CoefficientProbs := u\<rparr>)"
proof -
  show c: "c_TokenPartition sample_frame_config = 0" "c_MBNoCoeffSkip sample_frame_config" "c_ProbSkipFalse sample_frame_config \<noteq> 0"
    "\<not> k_IndependentContexts sample_frame_config" "k_HorizScale sample_frame_config = 0" "k_VertScale sample_frame_config = 0"
    by (simp_all add: sample_frame_config_def sample_key_config_def)
  show s: "segmentation_shape (c_Segmentation sample_frame_config)" "lf_config_ok sample_frame_config" by code_simp+
  show "coefs_ok u \<Longrightarrow> key_config_shape (sample_frame_config\<lparr>c_CoefficientProbs := u\<rparr>)"
    using s by (simp add: key_config_shape_def coefs_ok_def lf_config_ok_def)
  have "validKeyFrameStateConfig sample_frame_config" by code_simp
  then show "validKeyFrameStateConfig (sample_frame_config\<lparr>c_CoefficientProbs := u\<rparr>)"
    by (simp add: validKeyFrameStateConfig_def)
qed

lemma sample_frame_skip: "DeriveKeyFrameModeSkipFlags 1 1 [sample_frame_mode] [sample_coeffs] = [sample_frame_mode\<lparr>km_MBSkipCoeff := False\<rparr>]"
  by code_simp

lemma sample_frame_written:
  "\<exists>r. WriteCoefficientKeyFrameWithProbabilityBaseScratchAndCounts (replicate 20000 0) 16 16 sample_frame_config [sample_frame_mode]
    [sample_coeffs] [zero_planes] DefaultCoefProbs None (Some zero_counts) = Inr r"
proof -
  define m where "m = sample_frame_mode\<lparr>km_MBSkipCoeff := False\<rparr>"
  obtain probs updates where u: "coefficientProbabilityUpdatesFromTokenCounts DefaultCoefProbs zero_counts = (probs, updates)" by (metis surj_pair)
  have dshape: "coef_shape DefaultCoefProbs" by code_simp
  have "chosen_updates DefaultCoefProbs (probs, updates)" unfolding chosen_updates_def using u by metis
  note sync = synced_sent [OF chosen_synced [OF dshape this] dshape]
  define cfg where "cfg = sample_frame_config\<lparr>c_CoefficientProbs := updates\<rparr>"
  have n: "mb_count 16 = 1" "nat 1 * nat 1 = 1" "unat (c_TokenPartition cfg) = 0" by (simp_all add: mb_count_def cfg_def sample_frame_ok)
  have fits: "\<not> grid_too_small 1 1 (length [m])" by (simp add: grid_too_small_def max_int_def)
  have "key_grid_ok (c_Segmentation cfg) 1 [m]" unfolding cfg_def m_def by code_simp
  from key_first_partition [of cfg 1 1 "[m]" "replicate 20000 0", unfolded n(2), OF _ _ _ fits this]
  obtain dst1 firstSize where first: "first_partition (WriteKeyFrameStateHeader cfg)
      (WriteKeyFrameModeGridWithSegmentationAndSkip 1 1 [m] (c_Segmentation cfg) (c_MBNoCoeffSkip cfg) (c_ProbSkipFalse cfg)) (replicate 20000 0)
      = Inr (dst1, firstSize)" and f: "length dst1 = 20000" "firstSize \<le> 9919"
    using sample_frame_ok(9,10) [OF sync(3)] sync(3) by (auto simp: cfg_def)
  have mok: "mb_coeffs_ok (km_YMode m = BPred) sample_coeffs" "\<not> km_MBSkipCoeff m" "validKeyFrameMacroblockMode m"
  proof -
    have y: "km_YMode m \<noteq> BPred" "\<not> km_MBSkipCoeff m" "validKeyFrameMacroblockMode m" unfolding m_def by code_simp+
    then show "mb_coeffs_ok (km_YMode m = BPred) sample_coeffs" "\<not> km_MBSkipCoeff m" "validKeyFrameMacroblockMode m"
      using sample_coeffs_ok by simp_all
  qed
  have room: "7657 \<le> length (drop (10 + firstSize) dst1)" using f by simp
  obtain w where w: "run_state (do { x \<leftarrow> WriteCoefficientTokenGrid 1 1 [m] [sample_coeffs] [zero_planes] probs; State_Monad.return (fst x) })
      (Writer_Init (drop (10 + firstSize) dst1)) = (None, w)" "w_err (Finish w) = 0"
    using one_macroblock_tokens [OF mok room, of probs] by blast
  have len: "10 \<le> length (take (10 + firstSize) dst1 @ w_buf (Finish w))" using f by simp
  obtain d where head: "put_key_head cfg 16 16 firstSize (take (10 + firstSize) dst1 @ w_buf (Finish w)) = Inr d"
    using put_key_head_ok [OF len, of firstSize 16 16 cfg] f by (auto simp: key_dimensions_bad_def cfg_def sample_frame_ok)
  let ?modes = "WriteKeyFrameModeGridWithSegmentationAndSkip 1 1 [m] (c_Segmentation cfg) (c_MBNoCoeffSkip cfg) (c_ProbSkipFalse cfg)"
  let ?one = "do { x \<leftarrow> WriteCoefficientTokenGrid 1 1 [m] [sample_coeffs] [zero_planes] probs; State_Monad.return (fst x) }"
  have packet: "key_packet cfg 16 16 ?modes ?one many None 1 (replicate 20000 0) = Inr (10 + firstSize + w_pos (Finish w), d)" for many
    unfolding key_packet_def first token_partitions_def simp_thms if_True w(1) sum.case prod.case Let_def
    using w(2) head by (simp add: Writer_Err_def BytesWritten_def)
  have d: "\<not> key_dimensions_bad 16 16" by (simp add: key_dimensions_bad_def)
  have derive: "(if c_MBNoCoeffSkip sample_frame_config then DeriveKeyFrameModeSkipFlags 1 1 [sample_frame_mode] [sample_coeffs] else [sample_frame_mode]) = [m]"
    using sample_frame_ok(2) by (simp add: sample_frame_skip m_def)
  have updates: "key_coefficient_updates sample_frame_config 1 1 [m] [sample_coeffs] [zero_planes] DefaultCoefProbs (Some zero_counts)
      = (Inr (probs, updates), [zero_planes])"
    using sample_frame_ok(4) u by (simp add: key_coefficient_updates_def BuildInterCoefficientProbabilityUpdatesFromPrebuiltCounts_def)
  have cfg0: "(if c_MBNoCoeffSkip sample_frame_config \<and> c_ProbSkipFalse sample_frame_config = 0 then x else sample_frame_config) = sample_frame_config" for x
    using sample_frame_ok(3) by simp
  have part: "tokenPartitionCount (unat (c_TokenPartition sample_frame_config)) = Some 1"
    by (simp add: tokenPartitionCount_def sample_frame_ok)
  have big: "\<not> (int (length [sample_frame_mode]) < 1 * 1 \<or> int (length [sample_coeffs]) < 1 * 1 \<or> int (length [zero_planes]) < 1)" by simp
  have l: "\<not> length (replicate 20000 (0 :: byte)) < 10" by simp
  show ?thesis
    unfolding WriteCoefficientKeyFrameWithProbabilityBaseScratchAndCounts_def if_not_P [OF l] if_not_P [OF d] part option.case n(1) Let_def
      if_not_P [OF big] derive cfg0 updates prod.case sum.case cfg_def [symmetric] packet
    by simp
qed


section \<open>The next key frame\<close>

text \<open>C1: Key frames resynchronise. Whatever packets a decoder has been given, well-formed or not, the next key frame an
  encoder writes is parsed and decoded without error (up to the reconstruction of its pixels, which is not modelled), and
  leaves exactly this behind: the state header of the encoder's configuration, for each macroblock the mode, segment and
  coefficients it was given, the skip flag set where it has no coefficients, the probability table the encoder coded the
  tokens with, and nothing of earlier frames but whether the quantiser changed. The frame is written from modes with the
  arrays the code has, loop filter deltas of at most 63 in magnitude (the syntax has six bits), coefficients in the range
  of the quantiser with the end of block where the block ends, and without skip flags set by the caller when the frame does
  not code them. What the reader stores for a macroblock is \<open>tokens_sent\<close>; that it holds the very coefficients that were
  written is the round trip of a macroblock in \<open>Vp8_Macroblock_Roundtrip\<close>.\<close>

theorem key_frame_resynchronises:
  assumes "WriteCoefficientKeyFrameWithProbabilityBaseScratchAndCounts dst width height cfg modes coeffs abv DefaultCoefProbs scratch prebuilt = Inr r"
    and "segmentation_shape (c_Segmentation cfg)" "lf_config_ok cfg" "list_all (\<lambda>m. length (km_BModes m) = 16) modes"
    and "\<forall>s. scratch = Some s \<longrightarrow> length s = 8"
    and "c_MBNoCoeffSkip cfg \<or> (\<forall>i < nat (mb_count height) * nat (mb_count width). \<not> km_MBSkipCoeff (modes ! i))"
    and "\<forall>i < nat (mb_count height) * nat (mb_count width). mb_coeffs_ok (km_YMode (modes ! i) = BPred) (coeffs ! i)"
  shows "\<exists>updates d'. chosen_updates DefaultCoefProbs (kp_Probs r, updates) \<and>
    DecodeWithPTS (take (kp_Size r) (kp_Buffer r)) (decoder_after packets (NewVP8Decoder 0 0 False)) = (None, d') \<and>
    key_frame_kept cfg width height modes coeffs (kp_Probs r)
      (key_state_written cfg width height r updates (vd_previousQuant (decoder_after packets (NewVP8Decoder 0 0 False)))) d'"
proof -
  let ?d = "decoder_after packets (NewVP8Decoder 0 0 False)"
  have ws: "workspace_ok ?d" using decoder_after_ok [OF NewVP8Decoder_ok] by (simp add: decoder_ok_def)
  have opts: "vd_MaxWidth ?d \<le> 0" "vd_MaxHeight ?d \<le> 0" "\<not> vd_RejectResolutionChange ?d"
    by (simp_all add: decoder_after_options NewVP8Decoder_def)
  show ?thesis by (rule key_frame_decodes [OF assms(1-5) refl assms(6,7) ws opts])
qed

theorem key_frame_resynchronises_witness:
  "\<exists>r updates d'. WriteCoefficientKeyFrameWithProbabilityBaseScratchAndCounts (replicate 20000 0) 16 16 sample_frame_config [sample_frame_mode]
      [sample_coeffs] [zero_planes] DefaultCoefProbs None (Some zero_counts) = Inr r \<and>
    DecodeWithPTS (take (kp_Size r) (kp_Buffer r)) (decoder_after [[1, 2, 3], []] (NewVP8Decoder 0 0 False)) = (None, d') \<and>
    key_frame_kept sample_frame_config 16 16 [sample_frame_mode] [sample_coeffs] (kp_Probs r)
      (key_state_written sample_frame_config 16 16 r updates (vd_previousQuant (decoder_after [[1, 2, 3], []] (NewVP8Decoder 0 0 False)))) d'"
proof -
  obtain r where r: "WriteCoefficientKeyFrameWithProbabilityBaseScratchAndCounts (replicate 20000 0) 16 16 sample_frame_config [sample_frame_mode]
      [sample_coeffs] [zero_planes] DefaultCoefProbs None (Some zero_counts) = Inr r" using sample_frame_written by blast
  have n: "nat (mb_count 16) * nat (mb_count 16) = 1" by (simp add: mb_count_def)
  have y: "km_YMode sample_frame_mode \<noteq> BPred" "list_all (\<lambda>m. length (km_BModes m) = 16) [sample_frame_mode]" by code_simp+
  have c: "\<forall>i < nat (mb_count 16) * nat (mb_count 16). mb_coeffs_ok (km_YMode ([sample_frame_mode] ! i) = BPred) ([sample_coeffs] ! i)"
    unfolding n using y(1) sample_coeffs_ok by simp
  have s: "\<forall>s. (None :: byte list list option) = Some s \<longrightarrow> length s = 8" by simp
  from key_frame_resynchronises [OF r sample_frame_ok(7,8) y(2) s disjI1 [OF sample_frame_ok(2)] c, of "[[1, 2, 3], []]"] r
  show ?thesis by blast
qed

end
