(* ===== verification/Spec2Isabelle.thy ===== *)
theory Spec2Isabelle
  imports Vp8_Inter_Laws Vp8_Mode_Decoding Vp8_Grid_Roundtrip Vp8_Coef_Laws Vp8_Key_Stream
begin

text \<open>
  A verification development of the VP8 codec core of govpx.

  THE PROGRAM. govpx encodes and decodes VP8 and VP9 in Go. This development models the syntax layer of VP8 in both
  directions: everything between the configuration, modes and quantised coefficients of a frame and the bytes of a
  packet. An encoder hands a state header, a mode for each macroblock and its coefficients to writers under
  \<^verbatim>\<open>internal/vp8/encoder\<close>; they code bits with a boolean arithmetic coder into a first partition (state header, then modes)
  and up to eight token partitions, which are put behind a frame tag. The decoder (\<^verbatim>\<open>vp8_decoder.go\<close>, with the parsers
  under \<^verbatim>\<open>internal/vp8/decoder\<close> and the bit reader of \<^verbatim>\<open>internal/vp8/boolcoder\<close>) finds the partitions, parses the header
  on top of tables it keeps from frame to frame, decodes the modes, decodes the tokens into storage it reuses, and
  commits tables, segment map and header once the frame is decoded. Both sides keep tables and search neighbours for
  motion vectors; what is decoded is right only if the two sides stay in step, and that is what the theorems are about.

  CONVENTIONS. Go's fixed-width integers are words of their width, \<open>int\<close> is an unbounded integer where its values stay
  small, which the comment of the definition says, and is bounded by \<open>maxInt\<close> where a comparison depends on the overflow
  (\<open>sum_wraps\<close> in \<open>Vp8_Packet\<close>, with a lemma on 64-bit words). Slices are lists, structs are records, enumerations that
  index tables are numbers. Errors are values: an option where only the error is returned, a sum where there is a
  result. Code that writes to or reads from a coder is a program of \<open>State_Monad\<close> over the coder's state, or over a list of
  such states for token partitions. The names are those of the source; the manifest gives the lines of each definition.
  Nil arguments are outside the model.

  THEORIES AND CODE.
  Foundations. \<open>Prelude\<close>: integer types and byte lists. \<open>Arith_Coder\<close>: the interval coder, the specification of a boolean
  coder. \<open>Coder_Machine\<close>: a writer with delayed carries and a windowed reader on naturals, and the locales \<open>bool_writer\<close> and
  \<open>bool_reader\<close>, the interfaces a coder has to meet. \<open>Coder_Tail\<close>: messages with more bytes behind them.
  Bits. \<open>Vp8_Bool_Writer\<close> (\<^verbatim>\<open>encoder/boolwriter.go\<close>) and \<open>Vp8_Bool_Decoder\<close> (\<^verbatim>\<open>boolcoder/decoder.go\<close>) interpret these
  locales; \<open>Vp8_Bool_Coder\<close> states what they promise together. \<open>Vp8_Tables\<close> is \<^verbatim>\<open>internal/vp8/tables\<close>, entry for entry.
  \<open>Vp8_Trees\<close>: token trees (\<^verbatim>\<open>encoder/tree.go\<close>, \<^verbatim>\<open>decoder/treereader.go\<close>). \<open>Vp8_Writer_Monad\<close> and \<open>Vp8_Message\<close>: \<open>writes\<close>,
  \<open>reads\<close> and \<open>codes\<close>, the calculus in which a writer and a reader are shown to match.
  Headers. \<open>Vp8_Header_Parser\<close> (\<^verbatim>\<open>decoder/state.go\<close>, \<^verbatim>\<open>segmentation.go\<close>, \<^verbatim>\<open>loopfilter_header.go\<close>, \<^verbatim>\<open>quant.go\<close>,
  \<^verbatim>\<open>references.go\<close>, \<^verbatim>\<open>probability.go\<close>, \<^verbatim>\<open>modes.go\<close>) and \<open>Vp8_Header_Writer\<close> (\<^verbatim>\<open>encoder/state.go\<close>, \<^verbatim>\<open>interframe.go\<close>,
  \<^verbatim>\<open>interframe_header.go\<close>, \<^verbatim>\<open>segmentation.go\<close>, \<^verbatim>\<open>probability.go\<close>); \<open>Vp8_Header_Codes\<close> and \<open>Vp8_Inter_Codes\<close> match them,
  \<open>Vp8_Header_Budget\<close> counts the room they need, \<open>Vp8_Header_Roundtrip\<close> and \<open>Vp8_Inter_Roundtrip\<close> go through a packet.
  Modes. \<open>Vp8_Mv\<close> (\<^verbatim>\<open>encoder/motion.go\<close>, \<^verbatim>\<open>decoder/mv.go\<close>), \<open>Vp8_Near_Mv\<close> (\<^verbatim>\<open>encoder/interframe_motion.go\<close>,
  \<^verbatim>\<open>decoder/mv.go\<close>), \<open>Vp8_Key_Modes\<close> (\<^verbatim>\<open>encoder/keyframe_modes.go\<close>, \<^verbatim>\<open>decoder/modes.go\<close>), \<open>Vp8_Inter_Modes\<close>
  (\<^verbatim>\<open>encoder/interframe_modes.go\<close>, \<^verbatim>\<open>decoder/modes.go\<close>); \<open>Vp8_Mode_Codes\<close> and \<open>Vp8_Inter_Mode_Codes\<close> match them,
  \<open>Vp8_Key_Frame\<close> and \<open>Vp8_Inter_Frame\<close> are whole first partitions, \<open>Vp8_Mode_Decoding\<close> is about any bits at all,
  \<open>Vp8_Inter_Laws\<close> about the encoder's choice of modes.
  Tokens. \<open>Vp8_Tokens\<close>, \<open>Vp8_Token_Reader\<close> (\<^verbatim>\<open>boolcoder/decoder.go\<close>, \<^verbatim>\<open>decoder/tokens.go\<close>), \<open>Vp8_Token_Writer\<close>
  (\<^verbatim>\<open>encoder/tokenpack.go\<close>): a block; \<open>Vp8_Macroblock_Tokens\<close>, \<open>Vp8_Macroblock_Roundtrip\<close>, \<open>Vp8_Token_Storage\<close>
  (\<^verbatim>\<open>encoder/tokenize.go\<close>, \<^verbatim>\<open>decoder/tokens.go\<close>): a macroblock and the storage it is read into; \<open>Vp8_Streams\<close>,
  \<open>Vp8_Token_Grid\<close> (\<^verbatim>\<open>encoder/tokens.go\<close>, \<^verbatim>\<open>encoder/interframe_tokens.go\<close>), \<open>Vp8_Token_Grid_Codes\<close> with the locale
  \<open>token_cells\<close> of a grid's macroblocks, \<open>Vp8_Grid_Roundtrip\<close>: a frame over several partitions.
  Probabilities. \<open>Vp8_Coef_Records\<close>, \<open>Vp8_Record_Laws\<close>, \<open>Vp8_Record_Codes\<close> (\<^verbatim>\<open>encoder/probability_tokens.go\<close>): counts and
  packed token records; \<open>Vp8_Coef_Probs\<close>, \<open>Vp8_Coef_Sync\<close>, \<open>Vp8_Coef_Laws\<close> (\<^verbatim>\<open>encoder/probability.go\<close>): the choice of the
  coefficient probabilities.
  Packets. \<open>Vp8_Packet\<close> (\<^verbatim>\<open>encoder/packet.go\<close>, \<^verbatim>\<open>encoder/partitions.go\<close>, \<^verbatim>\<open>decoder/header.go\<close>, \<^verbatim>\<open>decoder/partitions.go\<close>);
  \<open>Vp8_Key_Packet\<close> (\<^verbatim>\<open>encoder/keyframe.go\<close>), \<open>Vp8_Packet_Laws\<close>, \<open>Vp8_Skip_Flags\<close>; \<open>Vp8_Decoder\<close> and \<open>Vp8_Decoder_Laws\<close>
  (\<^verbatim>\<open>vp8_decoder.go\<close>): the state a decoder keeps and its way through a packet; \<open>Vp8_Key_Sent\<close>, \<open>Vp8_Frame_Roundtrip\<close> and
  \<open>Vp8_Key_Stream\<close> put all of it together.

  WHAT IS SHOWN.
  The coder: bits written come back (C2), the bytes do not depend on the buffer (C28), batched refill, inlined scans and
  the special bit writers do what the plain ones do (C26, C27, C36), trees always end (C25, C37).
  Round trips of the syntax: frame tag and partitions (C11, C12), headers (C4, C6), modes of key and inter frames (C3,
  C5), motion vectors (C24), the tokens of a macroblock (C8) and of a grid (C9), and a whole key frame into a decoder
  with any history (C1).
  Keeping in step: probability tables (C10, C16), near motion vectors (C22), records coded later (C14).
  Any bytes at all: accepted packets are tiled by their partitions (C13), concealment accepts more and changes nothing
  (C20, C40), mode grids are well formed (C7), token storage never shows an earlier macroblock (C15).
  Room: the encoder's writers never run out of a buffer of the stated size (C17, C18, C23).
  The encoder's models of its own output: costs are code lengths (C34, C38), savings, branch counts and contexts (C29,
  C30, C31, C35), picked modes are valid (C21), the clamps and counts index what they should (C32, C33), repeated frames
  (C19). C39 shows a range of motion vectors the writer should refuse.

  BOUNDS, HYPOTHESES AND FUEL. A tree is read with as many steps as it has entries, and C37 shows that a leaf comes
  first; the token walks recurse on the positions left in a block, the grids on their rows and columns, the refill on the
  shift left. The byte budgets are counted from the longest code of each field: 9,766 bytes for a key-frame header, 153
  per key-frame macroblock, 10,159 and 477 on inter frames. Round trips of headers assume loop filter deltas of at
  most 63 in magnitude (\<open>lf_config_ok\<close>): the syntax has six bits for them, and the writer drops what is above without an
  error; the encoder's own deltas stay below. Lists that stand for Go arrays have the arrays' lengths (the \<open>shape\<close>
  predicates). An inter frame's modes have even vector differences of at most 2046 (\<open>inter_modes_carried\<close>). What a grid
  reader stores is stated as \<open>tokens_sent\<close>, which C8 ties to the coefficients. Counts of tokens are unbounded integers, far
  below 64 bits for any frame.

  NOT MODELLED. Pixels: prediction, transforms, quantisation, loop filter, post-processing, scaling and their SIMD
  variants; they feed or follow the syntax layer. In particular \<open>decodeFramePacket\<close> leaves reconstruction out, and with it
  the error return it may take before the parsed state is committed. The encoder's decisions: mode and motion search, rate
  control, two-pass, denoising, which choose what is coded. The packet driver of inter frames (\<^verbatim>\<open>interframe_packet.go\<close>) and
  the fitting of mode and vector probabilities (\<^verbatim>\<open>interframe_adapt.go\<close>); the writers they call are modelled. Estimated
  motion and repeated frames under concealment, decryption, frame buffers and reference refresh. The arm64 fast paths of
  the token walk; \<open>count_macroblock\<close> is the walk of the generic build, written once for the counting and the recording
  copy of the code, which differ in what they do with a token. Threads. VP9, RTP, commands, examples and test support.
\<close>

end
